(* ===== verification/Prelude.thy ===== *)
theory Prelude
  imports Complex_Main "HOL-Library.AList" "HOL-Library.Char_ord" "HOL-Library.List_Lexorder"
begin

text \<open>
  Shared vocabulary of the development: the Python string operations the dashboard backend uses
  (\<open>strip\<close>, \<open>lower\<close>, \<open>startswith\<close>, substring test) on ASCII text, dictionaries as association
  lists in insertion order, and SQL tables with a primary key as lists of rows. The lemmas on keyed
  tables carry the component proofs: lookup after insert, update, delete and filter, and the
  preservation of key uniqueness. They are collected in \<open>table_simps\<close> and \<open>keyed_intros\<close>.
\<close>

named_theorems table_simps "lookup laws of keyed tables"
named_theorems keyed_intros "key uniqueness of keyed tables is preserved"

section \<open>Numbers and optional values\<close>

text \<open>
  Wall-clock readings and dollar amounts are Python floats; they are modelled as rationals, exact
  where the machine rounds. An instant is a number of seconds.
\<close>

type_synonym seconds = rat

text \<open>Python's \<open>a or b\<close> for an optional string: \<open>None\<close> and the empty string are falsy.\<close>

fun str_or :: "string option \<Rightarrow> string option \<Rightarrow> string option" where
  "str_or None b = b"
| "str_or (Some a) b = (if a = [] then b else Some a)"

text \<open>JSON values, as \<open>json.loads\<close> returns them: objects keep the order of their keys.\<close>

datatype json =
    JNull
  | JBool bool
  | JInt int
  | JFloat rat
  | JStr string
  | JList "json list"
  | JDict "(string \<times> json) list"

text \<open>The truth of a value, as in \<open>x or y\<close>.\<close>

fun json_true :: "json \<Rightarrow> bool" where
  "json_true JNull = False"
| "json_true (JBool b) = b"
| "json_true (JInt i) = (i \<noteq> 0)"
| "json_true (JFloat x) = (x \<noteq> 0)"
| "json_true (JStr s) = (s \<noteq> [])"
| "json_true (JList vs) = (vs \<noteq> [])"
| "json_true (JDict d) = (d \<noteq> [])"

section \<open>Strings\<close>

definition py_space :: "char \<Rightarrow> bool" where
  "py_space c = (let n = (of_char c :: nat) in n = 32 \<or> (9 \<le> n \<and> n \<le> 13) \<or> (28 \<le> n \<and> n \<le> 31))"

definition py_strip :: "string \<Rightarrow> string" where
  "py_strip s = rev (dropWhile py_space (rev (dropWhile py_space s)))"

definition py_lower_char :: "char \<Rightarrow> char" where
  "py_lower_char c =
     (let n = (of_char c :: nat) in if 65 \<le> n \<and> n \<le> 90 then char_of (n + 32) else c)"

definition py_lower :: "string \<Rightarrow> string" where
  "py_lower s = map py_lower_char s"

definition py_startswith :: "string \<Rightarrow> string \<Rightarrow> bool" where
  "py_startswith s p = (take (length p) s = p)"

fun py_contains :: "string \<Rightarrow> string \<Rightarrow> bool" where
  "py_contains sub [] = (sub = [])"
| "py_contains sub (c # cs) = (py_startswith (c # cs) sub \<or> py_contains sub cs)"

fun py_join :: "string \<Rightarrow> string list \<Rightarrow> string" where
  "py_join sep [] = []"
| "py_join sep [x] = x"
| "py_join sep (x # y # xs) = x @ sep @ py_join sep (y # xs)"

text \<open>\<open>not s.strip()\<close>: nothing but white space.\<close>

definition blank :: "string \<Rightarrow> bool" where
  "blank s = (py_strip s = [])"

lemma dropWhile_empty_iff: "dropWhile P xs = [] \<longleftrightarrow> (\<forall>x \<in> set xs. P x)"
  by (induction xs) auto

lemma dropWhile_all_iff: "(\<forall>x \<in> set (dropWhile P xs). P x) \<longleftrightarrow> (\<forall>x \<in> set xs. P x)"
  by (induction xs) auto

lemma blank_iff: "blank s \<longleftrightarrow> (\<forall>c \<in> set s. py_space c)"
  by (simp add: blank_def py_strip_def dropWhile_empty_iff dropWhile_all_iff)

lemma blank_Nil [simp]: "blank []"
  by (simp add: blank_iff)

lemma length_py_lower [simp]: "length (py_lower s) = length s"
  by (simp add: py_lower_def)

lemma py_lower_char_idem [simp]: "py_lower_char (py_lower_char c) = py_lower_char c"
  by (simp add: py_lower_char_def Let_def)

lemma py_lower_idem [simp]: "py_lower (py_lower s) = py_lower s"
  by (simp add: py_lower_def)

lemma py_startswith_iff: "py_startswith s p \<longleftrightarrow> (\<exists>t. s = p @ t)"
  unfolding py_startswith_def by (metis append_eq_conv_conj append_take_drop_id)

lemma py_contains_iff: "py_contains sub s \<longleftrightarrow> (\<exists>a b. s = a @ sub @ b)"
proof (induction s)
  case Nil
  then show ?case by simp
next
  case (Cons c s)
  have "(\<exists>a b. c # s = a @ sub @ b) \<longleftrightarrow>
      (\<exists>b. c # s = sub @ b) \<or> (\<exists>a b. s = a @ sub @ b)"
  proof
    assume "\<exists>a b. c # s = a @ sub @ b"
    then obtain a b where ab: "c # s = a @ sub @ b" by blast
    then show "(\<exists>b. c # s = sub @ b) \<or> (\<exists>a b. s = a @ sub @ b)"
      by (cases a) auto
  next
    assume "(\<exists>b. c # s = sub @ b) \<or> (\<exists>a b. s = a @ sub @ b)"
    then show "\<exists>a b. c # s = a @ sub @ b"
      by (metis append_Cons append_Nil)
  qed
  with Cons.IH show ?case by (simp add: py_startswith_iff)
qed

text \<open>Stripping a text that neither starts nor ends with white space, and what stripping leaves.\<close>

lemma dropWhile_spaces: "list_all P ws \<Longrightarrow> dropWhile P (ws @ s) = dropWhile P s"
  by (induction ws) auto

lemma py_strip_core:
  assumes "s \<noteq> []" and "\<not> py_space (hd s)" and "\<not> py_space (last s)"
    and "list_all py_space v" and "list_all py_space w"
  shows "py_strip (v @ s @ w) = s"
proof -
  have "dropWhile py_space (v @ s @ w) = s @ w"
    using assms by (cases s) (simp_all add: dropWhile_spaces)
  moreover have "dropWhile py_space (rev w @ rev s) = rev s"
  proof -
    have "list_all py_space (rev w)" using assms(5) by (simp add: list_all_iff)
    then have "dropWhile py_space (rev w @ rev s) = dropWhile py_space (rev s)" by (rule dropWhile_spaces)
    also have "\<dots> = rev s" using assms(1,3) by (cases "rev s") (auto simp: hd_rev [symmetric])
    finally show ?thesis .
  qed
  ultimately show ?thesis by (simp add: py_strip_def)
qed

lemma py_strip_ends:
  assumes "py_strip s \<noteq> []"
  shows "\<not> py_space (hd (py_strip s))" and "\<not> py_space (last (py_strip s))"
proof -
  define a where "a = dropWhile py_space s"
  have p: "py_strip s = rev (dropWhile py_space (rev a))" by (simp add: py_strip_def a_def)
  have d: "dropWhile py_space (rev a) \<noteq> []" using assms p by simp
  show "\<not> py_space (last (py_strip s))" using hd_dropWhile [OF d] by (simp add: p last_rev)
  have "a = py_strip s @ rev (takeWhile py_space (rev a))"
    unfolding p by (metis rev_append rev_rev_ident takeWhile_dropWhile_id)
  then have "hd a = hd (py_strip s)" using assms by (metis hd_append2)
  moreover have "a \<noteq> []" using d by auto
  ultimately show "\<not> py_space (hd (py_strip s))" using hd_dropWhile [of py_space s] by (simp add: a_def)
qed

lemma py_strip_idem [simp]: "py_strip (py_strip s) = py_strip s"
proof (cases "py_strip s = []")
  case True
  have "py_strip [] = []" by (simp add: py_strip_def)
  with True show ?thesis by simp
next
  case False
  from py_strip_core [OF this py_strip_ends [OF False], of "[]" "[]"] show ?thesis by simp
qed

section \<open>Decimal numbers\<close>

fun nat_digits :: "nat \<Rightarrow> string" where
  "nat_digits n = (if n < 10 then [char_of (48 + n)] else nat_digits (n div 10) @ [char_of (48 + n mod 10)])"

declare nat_digits.simps [simp del]

definition is_digit :: "char \<Rightarrow> bool" where
  "is_digit c = (let n = (of_char c :: nat) in 48 \<le> n \<and> n \<le> 57)"

definition digits_value :: "string \<Rightarrow> nat" where
  "digits_value ds = foldl (\<lambda>n c. 10 * n + (of_char c - 48)) 0 ds"

definition int_text :: "int \<Rightarrow> string" where
  "int_text i = (if i < 0 then CHR ''-'' # nat_digits (nat (- i)) else nat_digits (nat i))"

text \<open>\<open>int(s)\<close> on ASCII text without digit separators.\<close>

definition py_int :: "string \<Rightarrow> int option" where
  "py_int s =
     (let t = py_strip s;
          neg = (t \<noteq> [] \<and> hd t = CHR ''-'');
          ds = (if t \<noteq> [] \<and> (hd t = CHR ''-'' \<or> hd t = CHR ''+'') then tl t else t)
      in if ds = [] \<or> \<not> list_all is_digit ds then None
         else Some (if neg then - int (digits_value ds) else int (digits_value ds)))"

lemma nat_digits_digits: "list_all is_digit (nat_digits n)"
proof (induction n rule: nat_digits.induct)
  case (1 n)
  have "is_digit (char_of (48 + k))" if "k < 10" for k :: nat using that by (simp add: is_digit_def)
  with 1 show ?case by (subst nat_digits.simps) simp
qed

lemma nat_digits_value: "digits_value (nat_digits n) = n"
proof (induction n rule: nat_digits.induct)
  case (1 n)
  have snoc: "digits_value (ds @ [c]) = 10 * digits_value ds + (of_char c - 48)" for ds c
    by (simp add: digits_value_def)
  show ?case
  proof (cases "n < 10")
    case True
    then show ?thesis by (subst nat_digits.simps) (simp add: digits_value_def)
  next
    case False
    with 1 show ?thesis by (subst nat_digits.simps) (simp add: snoc)
  qed
qed

lemma nat_digits_inject [simp]: "nat_digits m = nat_digits n \<longleftrightarrow> m = n"
  by (metis nat_digits_value)

lemma int_text_inject [simp]: "int_text i = int_text j \<longleftrightarrow> i = j"
proof -
  have "CHR ''-'' # ds \<noteq> nat_digits n" for ds n
    using nat_digits_digits [of n] by (cases "nat_digits n") (auto simp: is_digit_def)
  from this this [symmetric] show ?thesis by (auto simp: int_text_def)
qed

section \<open>Dictionaries in insertion order\<close>

type_synonym ('k, 'v) dict = "('k \<times> 'v) list"

text \<open>\<open>{**a, **b}\<close>: the keys of \<open>a\<close> keep their place, \<open>b\<close> overrides and appends.\<close>

definition dict_merge :: "('k, 'v) dict \<Rightarrow> ('k, 'v) dict \<Rightarrow> ('k, 'v) dict" where
  "dict_merge a b = fold (\<lambda>(k, v) m. AList.update k v m) b a"

lemma map_of_dict_merge_aux:
  "map_of (fold (\<lambda>(k, v) m. AList.update k v m) b a) = fold (\<lambda>(k, v) m. m(k \<mapsto> v)) b (map_of a)"
  by (induction b arbitrary: a) (auto simp: update_conv' split: prod.split)

lemma fold_map_upd:
  "distinct (map fst b) \<Longrightarrow> fold (\<lambda>(k, v) m. m(k \<mapsto> v)) b m0 = m0 ++ map_of b"
proof (induction b arbitrary: m0)
  case Nil
  then show ?case by simp
next
  case (Cons kv b)
  obtain k v where kv: "kv = (k, v)" by (cases kv)
  from Cons.prems have "k \<notin> fst ` set b" by (simp add: kv)
  then have "k \<notin> dom (map_of b)" by (simp add: dom_map_of_conv_image_fst)
  then have "m0(k \<mapsto> v) ++ map_of b = m0 ++ map_of (kv # b)"
    by (simp add: kv map_add_upd_left)
  moreover have "fold (\<lambda>(k, v) m. m(k \<mapsto> v)) (kv # b) m0 =
      fold (\<lambda>(k, v) m. m(k \<mapsto> v)) b (m0(k \<mapsto> v))"
    unfolding fold_Cons comp_def kv prod.case by (rule refl)
  moreover have "distinct (map fst b)" using Cons.prems by simp
  ultimately show ?case by (simp only: Cons.IH)
qed

lemma map_of_dict_merge:
  "distinct (map fst b) \<Longrightarrow> map_of (dict_merge a b) = map_of a ++ map_of b"
  by (simp add: dict_merge_def map_of_dict_merge_aux fold_map_upd)

section \<open>Tables with a primary key\<close>

text \<open>
  A table is the list of its rows; \<open>key\<close> reads a row's primary key. \<open>keyed\<close> is the uniqueness
  the database enforces.
\<close>

definition keyed :: "('r \<Rightarrow> 'k) \<Rightarrow> 'r list \<Rightarrow> bool" where
  "keyed key rows = distinct (map key rows)"

definition row_lookup :: "('r \<Rightarrow> 'k) \<Rightarrow> 'k \<Rightarrow> 'r list \<Rightarrow> 'r option" where
  "row_lookup key k rows = List.find (\<lambda>r. key r = k) rows"

definition row_update :: "('r \<Rightarrow> 'k) \<Rightarrow> 'k \<Rightarrow> ('r \<Rightarrow> 'r) \<Rightarrow> 'r list \<Rightarrow> 'r list" where
  "row_update key k f rows = map (\<lambda>r. if key r = k then f r else r) rows"

definition row_delete :: "('r \<Rightarrow> 'k) \<Rightarrow> 'k \<Rightarrow> 'r list \<Rightarrow> 'r list" where
  "row_delete key k rows = filter (\<lambda>r. key r \<noteq> k) rows"

definition row_count :: "('r \<Rightarrow> bool) \<Rightarrow> 'r list \<Rightarrow> nat" where
  "row_count P rows = length (filter P rows)"

lemma row_lookup_Nil [simp]: "row_lookup key k [] = None"
  by (simp add: row_lookup_def)

lemma row_lookup_Cons [simp]:
  "row_lookup key k (r # rows) = (if key r = k then Some r else row_lookup key k rows)"
  by (simp add: row_lookup_def)

lemma row_lookup_SomeD: "row_lookup key k rows = Some r \<Longrightarrow> r \<in> set rows \<and> key r = k"
  by (induction rows) (auto split: if_splits)

lemma row_lookup_None_iff: "row_lookup key k rows = None \<longleftrightarrow> k \<notin> key ` set rows"
  by (induction rows) auto

lemma row_lookup_Some_iff:
  "keyed key rows \<Longrightarrow> row_lookup key k rows = Some r \<longleftrightarrow> r \<in> set rows \<and> key r = k"
  by (induction rows) (auto simp: keyed_def)

lemma row_lookup_append [table_simps]:
  "row_lookup key k (xs @ ys) =
     (case row_lookup key k xs of None \<Rightarrow> row_lookup key k ys | Some r \<Rightarrow> Some r)"
  by (induction xs) auto

lemma row_lookup_update [table_simps]:
  assumes "\<And>r. key (f r) = key r"
  shows "row_lookup key k' (row_update key k f rows) =
     (if k' = k then map_option f (row_lookup key k rows) else row_lookup key k' rows)"
  by (induction rows) (auto simp: row_update_def assms)

lemma row_update_Cons [simp]:
  "row_update key k f (r # rows) = (if key r = k then f r else r) # row_update key k f rows"
  by (simp add: row_update_def)

lemma row_update_Nil [simp]: "row_update key k f [] = []"
  by (simp add: row_update_def)

lemma row_update_absent: "k \<notin> key ` set rows \<Longrightarrow> row_update key k f rows = rows"
  by (induction rows) auto

lemma row_lookup_update_key [table_simps]:
  assumes "\<And>r. key (f r) = k"
  shows "row_lookup key k' (row_update key k f rows) =
     (if k' = k then map_option f (row_lookup key k rows) else row_lookup key k' rows)"
  by (induction rows) (auto simp: assms)

lemma keyed_update_key [keyed_intros]:
  assumes "\<And>r. key (f r) = k" and "keyed key rows"
  shows "keyed key (row_update key k f rows)"
proof -
  have "map key (row_update key k f rows) = map key rows"
    by (induction rows) (auto simp: assms)
  with assms show ?thesis by (simp add: keyed_def)
qed

lemma row_lookup_delete [table_simps]:
  "row_lookup key k' (row_delete key k rows) = (if k' = k then None else row_lookup key k' rows)"
  by (induction rows) (auto simp: row_delete_def)

lemma row_lookup_filter [table_simps]:
  "keyed key rows \<Longrightarrow> row_lookup key k (filter P rows) =
     (case row_lookup key k rows of None \<Rightarrow> None | Some r \<Rightarrow> if P r then Some r else None)"
proof (induction rows)
  case Nil
  then show ?case by simp
next
  case (Cons r rows)
  show ?case
  proof (cases "key r = k")
    case True
    with Cons.prems have "k \<notin> key ` set (filter P rows)"
      by (auto simp: keyed_def)
    then have "row_lookup key k (filter P rows) = None"
      by (simp add: row_lookup_None_iff)
    with True show ?thesis by simp
  next
    case False
    with Cons show ?thesis by (simp add: keyed_def)
  qed
qed

lemma row_lookup_map:
  assumes "\<And>r. key (f r) = key r"
  shows "row_lookup key k (map f rows) = map_option f (row_lookup key k rows)"
  by (induction rows) (auto simp: assms)

lemma keyed_Nil [keyed_intros]: "keyed key []"
  by (simp add: keyed_def)

lemma keyed_append1 [keyed_intros]:
  "keyed key rows \<Longrightarrow> row_lookup key (key r) rows = None \<Longrightarrow> keyed key (rows @ [r])"
  by (auto simp: keyed_def row_lookup_None_iff)

lemma keyed_filter [keyed_intros]: "keyed key rows \<Longrightarrow> keyed key (filter P rows)"
  by (simp add: keyed_def distinct_map_filter)

lemma keyed_delete [keyed_intros]: "keyed key rows \<Longrightarrow> keyed key (row_delete key k rows)"
  by (simp add: row_delete_def keyed_filter)

lemma keyed_map [keyed_intros]:
  "keyed key rows \<Longrightarrow> (\<And>r. key (f r) = key r) \<Longrightarrow> keyed key (map f rows)"
  by (simp add: keyed_def comp_def)

lemma keyed_update [keyed_intros]:
  "keyed key rows \<Longrightarrow> (\<And>r. key (f r) = key r) \<Longrightarrow> keyed key (row_update key k f rows)"
  unfolding row_update_def by (rule keyed_map) auto

lemma row_count_append [simp]: "row_count P (xs @ ys) = row_count P xs + row_count P ys"
  by (simp add: row_count_def)

lemma row_count_Cons [simp]: "row_count P (x # xs) = (if P x then Suc (row_count P xs) else row_count P xs)"
  by (simp add: row_count_def)

lemma row_count_Nil [simp]: "row_count P [] = 0"
  by (simp add: row_count_def)

lemma row_count_filter_le: "row_count P (filter Q rows) \<le> row_count P rows"
  by (induction rows) auto

lemma row_count_delete_le: "row_count P (row_delete key k rows) \<le> row_count P rows"
  by (simp add: row_delete_def row_count_filter_le)

lemma row_count_mono: "(\<And>r. r \<in> set rows \<Longrightarrow> P r \<Longrightarrow> Q r) \<Longrightarrow> row_count P rows \<le> row_count Q rows"
  by (induction rows) (auto simp: le_SucI)

lemma row_count_map_le:
  "(\<And>r. r \<in> set rows \<Longrightarrow> P (f r) \<Longrightarrow> Q r) \<Longrightarrow> row_count P (map f rows) \<le> row_count Q rows"
  by (induction rows) (auto simp: le_SucI)

end
