(* ===== verification/Lease_Spec.thy ===== *)
theory Lease_Spec
  imports Prelude
begin

text \<open>
  Runner leases: the record both backends store (\<open>backend/runner_lease.py\<close>, \<open>LeaseRecord\<close>) and
  the contract the dashboard relies on, stated as a locale: an acquisition gives the runner to the
  principal and changes no other holder, a runner held by someone else is refused, a principal at
  its quota is refused, a release frees only what it may. The client lemmas (no lease is taken over
  while it is live, quotas hold along every run) are proved once, from the contract.
\<close>

record lease_record =
  principal_id :: string
  runner_id :: string
  acquired_at :: seconds
  expires_at :: "seconds option"
  task_id :: "string option"
  metadata :: "(string, json) dict"
  fencing_token :: int

datatype lease_error =
    AlreadyLeased string string     \<comment> \<open>\<open>ValueError\<close>: runner, present holder\<close>
  | QuotaReached string int         \<comment> \<open>\<open>PermissionError\<close>: principal, quota\<close>
  | StaleFencingToken string int int \<comment> \<open>\<open>StaleFencingTokenError\<close>: runner, given, current\<close>
  | IntegrityError                  \<comment> \<open>a duplicate primary key\<close>
  | WriteFailed                     \<comment> \<open>\<open>OSError\<close> or \<open>YAMLError\<close> while persisting\<close>

text \<open>\<open>r.expires_at is None or r.expires_at > now\<close>.\<close>

definition live :: "seconds \<Rightarrow> lease_record \<Rightarrow> bool" where
  "live now r = (case expires_at r of None \<Rightarrow> True | Some e \<Rightarrow> now < e)"

text \<open>What the rows say at an instant: who holds each runner.\<close>

definition holder_of :: "seconds \<Rightarrow> lease_record list \<Rightarrow> string \<Rightarrow> string option" where
  "holder_of now rows r = map_option principal_id (row_lookup runner_id r (filter (live now) rows))"

lemma holder_of_Some:
  "keyed runner_id rows \<Longrightarrow> holder_of now rows r = Some p \<longleftrightarrow>
     (\<exists>l \<in> set rows. runner_id l = r \<and> live now l \<and> principal_id l = p)"
  by (auto simp: holder_of_def row_lookup_Some_iff keyed_filter)

lemma holder_of_None:
  "holder_of now rows r = None \<longleftrightarrow> (\<forall>l \<in> set rows. runner_id l = r \<longrightarrow> \<not> live now l)"
  by (auto simp: holder_of_def row_lookup_None_iff)

lemma live_antimono: "live now' r \<Longrightarrow> now \<le> now' \<Longrightarrow> live now r"
  by (auto simp: live_def split: option.splits)

lemma holder_of_antimono:
  "keyed runner_id rows \<Longrightarrow> now \<le> now' \<Longrightarrow> holder_of now' rows r = Some p \<Longrightarrow>
     holder_of now rows r = Some p"
  by (auto simp: holder_of_Some intro: live_antimono)

lemma dom_holder_of: "dom (holder_of now rows) \<subseteq> runner_id ` set rows"
  by (fastforce simp: holder_of_def dest: row_lookup_SomeD)

lemma holder_of_filter_live [simp]: "holder_of now (filter (live now) rows) = holder_of now rows"
  by (simp add: holder_of_def fun_eq_iff)

lemma card_holder_of:
  assumes "keyed runner_id rows"
  shows "card {r. holder_of now rows r = Some p} =
           row_count (\<lambda>l. principal_id l = p) (filter (live now) rows)"
proof -
  let ?rs = "filter (\<lambda>l. principal_id l = p) (filter (live now) rows)"
  have "{r. holder_of now rows r = Some p} = set (map runner_id ?rs)"
    by (auto simp: holder_of_Some [OF assms] image_iff)
  moreover have "distinct (map runner_id ?rs)"
    using assms by (simp add: keyed_def distinct_map_filter)
  ultimately have "card {r. holder_of now rows r = Some p} = length ?rs"
    by (metis distinct_card length_map)
  then show ?thesis by (simp only: row_count_def)
qed

section \<open>The contract\<close>

datatype lease_op =
    Acquire string string int "string option" "(string, json) dict"
    \<comment> \<open>principal, runner, duration, task, metadata\<close>
  | Release string "string option"

text \<open>
  One request at an instant against a store with operations \<open>acq\<close> and \<open>rel\<close>; \<open>q\<close> gives each
  principal's quota. A refused acquisition leaves the store as it was.
\<close>

fun lease_step ::
    "(seconds \<Rightarrow> string \<Rightarrow> int \<Rightarrow> string \<Rightarrow> int \<Rightarrow> string option \<Rightarrow> (string, json) dict \<Rightarrow> 's \<Rightarrow> lease_error + 's)
      \<Rightarrow> (seconds \<Rightarrow> string \<Rightarrow> string option \<Rightarrow> 's \<Rightarrow> 's) \<Rightarrow> (string \<Rightarrow> int) \<Rightarrow> seconds \<times> lease_op \<Rightarrow> 's \<Rightarrow> 's" where
  "lease_step acq rel q (now, Acquire p r d t md) s =
     (case acq now p (q p) r d t md s of Inl e \<Rightarrow> s | Inr s' \<Rightarrow> s')"
| "lease_step acq rel q (now, Release r po) s = rel now r po s"

fun lease_run ::
    "(seconds \<Rightarrow> string \<Rightarrow> int \<Rightarrow> string \<Rightarrow> int \<Rightarrow> string option \<Rightarrow> (string, json) dict \<Rightarrow> 's \<Rightarrow> lease_error + 's)
      \<Rightarrow> (seconds \<Rightarrow> string \<Rightarrow> string option \<Rightarrow> 's \<Rightarrow> 's) \<Rightarrow> (string \<Rightarrow> int) \<Rightarrow> (seconds \<times> lease_op) list \<Rightarrow> 's \<Rightarrow> 's" where
  "lease_run acq rel q [] s = s"
| "lease_run acq rel q (op # ops) s = lease_run acq rel q ops (lease_step acq rel q op s)"

text \<open>A schedule: readings of the clock never go back, durations are positive.\<close>

fun op_ok :: "lease_op \<Rightarrow> bool" where
  "op_ok (Acquire p r d t md) = (0 < d)"
| "op_ok (Release r po) = True"

fun lease_schedule :: "seconds \<Rightarrow> (seconds \<times> lease_op) list \<Rightarrow> bool" where
  "lease_schedule t0 [] = True"
| "lease_schedule t0 ((now, op) # ops) = (t0 \<le> now \<and> op_ok op \<and> lease_schedule now ops)"

fun lease_end :: "seconds \<Rightarrow> (seconds \<times> lease_op) list \<Rightarrow> seconds" where
  "lease_end t0 [] = t0"
| "lease_end t0 ((now, op) # ops) = lease_end now ops"

text \<open>Each principal holds at most as many runners as its quota allows.\<close>

definition within_quota :: "(string \<Rightarrow> int) \<Rightarrow> (string \<Rightarrow> string option) \<Rightarrow> bool" where
  "within_quota q h = (\<forall>p. int (card {r. h r = Some p}) \<le> q p)"

locale lease_store =
  fixes inv :: "'s \<Rightarrow> bool"
    and holder :: "seconds \<Rightarrow> 's \<Rightarrow> string \<Rightarrow> string option"
    and acq :: "seconds \<Rightarrow> string \<Rightarrow> int \<Rightarrow> string \<Rightarrow> int \<Rightarrow> string option \<Rightarrow> (string, json) dict \<Rightarrow> 's
      \<Rightarrow> lease_error + 's"
    and rel :: "seconds \<Rightarrow> string \<Rightarrow> string option \<Rightarrow> 's \<Rightarrow> 's"
  assumes finite_held: "inv s \<Longrightarrow> finite (dom (holder now s))"
    and expire_only: "inv s \<Longrightarrow> now \<le> now' \<Longrightarrow> holder now' s r = Some p \<Longrightarrow> holder now s r = Some p"
    and acq_inv: "inv s \<Longrightarrow> acq now p q r d t md s = Inr s' \<Longrightarrow> inv s'"
    and acq_holder: "inv s \<Longrightarrow> 0 < d \<Longrightarrow> acq now p q r d t md s = Inr s' \<Longrightarrow>
      holder now s' = (holder now s)(r \<mapsto> p)"
    and acq_excl: "inv s \<Longrightarrow> holder now s r = Some p' \<Longrightarrow> acq now p q r d t md s = Inr s' \<Longrightarrow> p' = p"
    and acq_quota: "inv s \<Longrightarrow> holder now s r = None \<Longrightarrow> acq now p q r d t md s = Inr s' \<Longrightarrow>
      int (card {r. holder now s r = Some p}) < q"
    and rel_inv: "inv s \<Longrightarrow> inv (rel now r po s)"
    and rel_only: "inv s \<Longrightarrow> holder now (rel now r po s) r' = Some p \<Longrightarrow> holder now s r' = Some p"
begin

lemma step_inv: "inv s \<Longrightarrow> inv (lease_step acq rel q (now, op) s)"
  by (cases op) (auto intro: acq_inv rel_inv split: sum.split)

lemma finite_held_by: "inv s \<Longrightarrow> finite {r. holder now s r = Some p}"
  by (rule finite_subset [OF _ finite_held]) auto

lemma within_quota_later:
  assumes "inv s" and "within_quota q (holder now s)" and "now \<le> now'"
  shows "within_quota q (holder now' s)"
  unfolding within_quota_def
proof
  fix p
  have "card {r. holder now' s r = Some p} \<le> card {r. holder now s r = Some p}"
    using assms by (intro card_mono finite_held_by) (auto intro: expire_only)
  with assms(2) show "int (card {r. holder now' s r = Some p}) \<le> q p"
    unfolding within_quota_def using of_nat_mono order_trans by blast
qed

lemma within_quota_acq:
  assumes "inv s" and "within_quota q (holder now s)" and "0 < d" and a: "acq now p (q p) r d t md s = Inr s'"
  shows "within_quota q (holder now s')"
  unfolding within_quota_def
proof
  fix p'
  let ?A = "\<lambda>s. {r. holder now s r = Some p'}"
  have h: "holder now s' = (holder now s)(r \<mapsto> p)"
    using assms by (intro acq_holder)
  show "int (card (?A s')) \<le> q p'"
  proof (cases "holder now s r")
    case None
    have eq: "?A s' = (if p' = p then insert r (?A s) else ?A s)"
      using None by (auto simp: h)
    show ?thesis
    proof (cases "p' = p")
      case True
      have "int (card (?A s)) < q p" using acq_quota [OF assms(1) None a] True by simp
      moreover have "card (insert r (?A s)) \<le> Suc (card (?A s))"
        by (rule card_insert_le_m1) auto
      ultimately show ?thesis using eq True by simp
    next
      case False
      with eq assms(2) show ?thesis by (simp add: within_quota_def)
    qed
  next
    case (Some p0)
    have "p0 = p" using acq_excl [OF assms(1) Some a] .
    then have "holder now s' = holder now s" using Some by (auto simp: h)
    with assms(2) show ?thesis by (simp add: within_quota_def)
  qed
qed

lemma within_quota_rel:
  assumes "inv s" and "within_quota q (holder now s)"
  shows "within_quota q (holder now (rel now r po s))"
  unfolding within_quota_def
proof
  fix p
  have "card {r'. holder now (rel now r po s) r' = Some p} \<le> card {r'. holder now s r' = Some p}"
    using assms by (intro card_mono finite_held_by) (auto intro: rel_only)
  with assms(2) show "int (card {r'. holder now (rel now r po s) r' = Some p}) \<le> q p"
    unfolding within_quota_def using of_nat_mono order_trans by blast
qed

lemma quota_along_schedule:
  "inv s \<Longrightarrow> within_quota q (holder t0 s) \<Longrightarrow> lease_schedule t0 ops \<Longrightarrow>
     within_quota q (holder (lease_end t0 ops) (lease_run acq rel q ops s))"
proof (induction ops arbitrary: s t0)
  case Nil
  then show ?case by simp
next
  case (Cons x ops)
  obtain now op where x: "x = (now, op)" by (cases x)
  have w: "within_quota q (holder now s)"
    using Cons.prems by (auto simp: x intro: within_quota_later)
  have "within_quota q (holder now (lease_step acq rel q x s))"
    using Cons.prems w by (cases op) (auto simp: x within_quota_rel intro: within_quota_acq split: sum.split)
  with Cons step_inv show ?case by (simp add: x)
qed

text \<open>Between two instants a runner changes hands only if it was free in between or released.\<close>

lemma no_takeover:
  assumes "inv s" and "holder now s r = Some p"
    and "lease_step acq rel q (now, op) s = s'" and "holder now s' r = Some p'" and "op_ok op"
  shows "p' = p"
proof (cases op)
  case (Acquire p0 r0 d t md)
  show ?thesis
  proof (cases "acq now p0 (q p0) r0 d t md s")
    case (Inl e)
    with assms Acquire show ?thesis by auto
  next
    case (Inr s1)
    then have s1: "s' = s1" using assms(3) Acquire by simp
    have "holder now s' = (holder now s)(r0 \<mapsto> p0)"
      using acq_holder [OF assms(1) _ Inr] assms(5) Acquire s1 by simp
    moreover have "r = r0 \<Longrightarrow> p = p0" using acq_excl [OF assms(1) _ Inr] assms(2) by auto
    ultimately show ?thesis using assms(2,4) by (auto split: if_splits)
  qed
next
  case (Release r0 po)
  with assms rel_only show ?thesis by (metis option.inject lease_step.simps(2))
qed

end

end
