(* ===== verification/Runner_Lease.thy ===== *)
theory Runner_Lease
  imports Lease_Spec
begin

text \<open>
  \<open>backend/runner_lease.py\<close>: the YAML lease store. The state is the content of \<open>leases.yml\<close>
  (\<open>None\<close> before the first write) and the manager's in-memory list. Every operation goes through
  \<open>_atomic_read_modify_write\<close>, which re-reads the file, drops expired records, applies the mutation
  and replaces the file; \<open>io_ok\<close> says whether the replacement succeeds. Clock readings are
  arguments, one for each call of \<open>time.time()\<close>.
\<close>

record lease_manager =
  leases_file :: "lease_record list option"
  leases :: "lease_record list"

section \<open>Persistence\<close>

definition load_leases :: "lease_manager \<Rightarrow> lease_manager" where
  "load_leases m = m\<lparr>leases := (case leases_file m of None \<Rightarrow> [] | Some rs \<Rightarrow> rs)\<rparr>"

definition save_leases :: "bool \<Rightarrow> lease_manager \<Rightarrow> lease_manager" where
  "save_leases io_ok m = (if io_ok then m\<lparr>leases_file := Some (leases m)\<rparr> else m)"

definition file_records :: "lease_manager \<Rightarrow> lease_record list" where
  "file_records m = (case leases_file m of None \<Rightarrow> [] | Some rs \<Rightarrow> rs)"

definition atomic_read_modify_write ::
    "seconds \<Rightarrow> bool \<Rightarrow> (lease_record list \<Rightarrow> lease_error + lease_record list \<times> 'r) \<Rightarrow> lease_manager
      \<Rightarrow> (lease_error + 'r \<times> nat) \<times> lease_manager" where
  "atomic_read_modify_write now io_ok mutate m =
     (let records = file_records m;
          kept = filter (live now) records;
          pruned = length records - length kept
      in case mutate kept of
           Inl e \<Rightarrow> (Inl e, m)
         | Inr (new_records, result) \<Rightarrow>
             if io_ok
             then (Inr (result, pruned), m\<lparr>leases_file := Some new_records, leases := new_records\<rparr>)
             else (Inl WriteFailed, m))"

section \<open>Operations\<close>

definition prune_expired :: "seconds \<Rightarrow> bool \<Rightarrow> lease_manager \<Rightarrow> (lease_error + nat) \<times> lease_manager" where
  "prune_expired now io_ok m =
     (case atomic_read_modify_write now io_ok (\<lambda>records. Inr (records, ())) m of
        (Inl e, m') \<Rightarrow> (Inl e, m')
      | (Inr (_, removed), m') \<Rightarrow> (Inr removed, m'))"

definition get_active_leases ::
    "seconds \<Rightarrow> bool \<Rightarrow> string option \<Rightarrow> lease_manager \<Rightarrow> (lease_error + lease_record list) \<times> lease_manager" where
  "get_active_leases now io_ok pid m =
     (case prune_expired now io_ok m of
        (Inl e, m') \<Rightarrow> (Inl e, m')
      | (Inr _, m') \<Rightarrow>
          (Inr (case pid of
                  None \<Rightarrow> leases m'
                | Some p \<Rightarrow> if p = [] then leases m'
                            else filter (\<lambda>l. principal_id l = p) (leases m')), m'))"

text \<open>
  The loop over the records: the first one on the runner decides. \<open>Inr None\<close>: no record is on the
  runner and the loop ends.
\<close>

fun renew_scan ::
    "string \<Rightarrow> string \<Rightarrow> seconds \<Rightarrow> string option \<Rightarrow> (string, json) dict \<Rightarrow> lease_record list
      \<Rightarrow> lease_error + (lease_record list \<times> lease_record) option" where
  "renew_scan pid rid expires task md [] = Inr None"
| "renew_scan pid rid expires task md (l # ls) =
     (if runner_id l = rid
      then if principal_id l = pid
           then let updated = \<lparr>principal_id = pid, runner_id = rid, acquired_at = acquired_at l,
                               expires_at = Some expires, task_id = str_or task (task_id l),
                               metadata = dict_merge (metadata l) md, fencing_token = 0\<rparr>
                in Inr (Some (updated # ls, updated))
           else Inl (AlreadyLeased rid (principal_id l))
      else case renew_scan pid rid expires task md ls of
             Inl e \<Rightarrow> Inl e
           | Inr None \<Rightarrow> Inr None
           | Inr (Some (ls', u)) \<Rightarrow> Inr (Some (l # ls', u)))"

definition acquire_mutate ::
    "seconds \<Rightarrow> string \<Rightarrow> int \<Rightarrow> string \<Rightarrow> int \<Rightarrow> string option \<Rightarrow> (string, json) dict \<Rightarrow> lease_record list
      \<Rightarrow> lease_error + lease_record list \<times> lease_record" where
  "acquire_mutate now pid max_runners rid duration task md records =
     (let expires = now + of_int duration
      in case renew_scan pid rid expires task md records of
           Inl e \<Rightarrow> Inl e
         | Inr (Some (records', updated)) \<Rightarrow> Inr (records', updated)
         | Inr None \<Rightarrow>
             if int (row_count (\<lambda>r. principal_id r = pid) records) \<ge> max_runners
             then Inl (QuotaReached pid max_runners)
             else let record = \<lparr>principal_id = pid, runner_id = rid, acquired_at = now,
                                expires_at = Some expires, task_id = task, metadata = md,
                                fencing_token = 0\<rparr>
                  in Inr (records @ [record], record))"

definition acquire_lease ::
    "seconds \<Rightarrow> seconds \<Rightarrow> bool \<Rightarrow> string \<Rightarrow> int \<Rightarrow> string \<Rightarrow> int \<Rightarrow> string option \<Rightarrow> (string, json) dict
      \<Rightarrow> lease_manager \<Rightarrow> (lease_error + lease_record) \<times> lease_manager" where
  "acquire_lease now now' io_ok pid max_runners rid duration task md m =
     (case atomic_read_modify_write now io_ok (acquire_mutate now' pid max_runners rid duration task md) m of
        (Inl e, m') \<Rightarrow> (Inl e, m')
      | (Inr (record, _), m') \<Rightarrow> (Inr record, m'))"

definition release_mutate :: "string \<Rightarrow> string option \<Rightarrow> lease_record list \<Rightarrow> lease_record list" where
  "release_mutate rid pid records =
     (case pid of
        Some p \<Rightarrow> if p = [] then filter (\<lambda>r. runner_id r \<noteq> rid) records
                  else filter (\<lambda>r. \<not> (runner_id r = rid \<and> principal_id r = p)) records
      | None \<Rightarrow> filter (\<lambda>r. runner_id r \<noteq> rid) records)"

text \<open>The result says whether a lease was dropped (the code logs it).\<close>

definition release_lease ::
    "seconds \<Rightarrow> bool \<Rightarrow> string \<Rightarrow> string option \<Rightarrow> lease_manager \<Rightarrow> (lease_error + bool) \<times> lease_manager" where
  "release_lease now io_ok rid pid m =
     (case atomic_read_modify_write now io_ok
             (\<lambda>records. let new = release_mutate rid pid records
                        in Inr (new, length new < length records)) m of
        (Inl e, m') \<Rightarrow> (Inl e, m')
      | (Inr (released, _), m') \<Rightarrow> (Inr released, m'))"

section \<open>The mutation of an acquisition\<close>

definition renewed :: "string \<Rightarrow> string \<Rightarrow> seconds \<Rightarrow> string option \<Rightarrow> (string, json) dict \<Rightarrow> lease_record \<Rightarrow> lease_record" where
  "renewed pid rid e t md l = \<lparr>principal_id = pid, runner_id = rid, acquired_at = acquired_at l,
     expires_at = Some e, task_id = str_or t (task_id l), metadata = dict_merge (metadata l) md,
     fencing_token = 0\<rparr>"

lemma renewed_sel [simp]:
  "principal_id (renewed pid rid e t md l) = pid" "runner_id (renewed pid rid e t md l) = rid"
  "expires_at (renewed pid rid e t md l) = Some e" "fencing_token (renewed pid rid e t md l) = 0"
  "acquired_at (renewed pid rid e t md l) = acquired_at l"
  by (simp_all add: renewed_def)

lemma renew_scan_eq:
  "keyed runner_id rs \<Longrightarrow> renew_scan pid rid e t md rs =
     (case row_lookup runner_id rid rs of
        None \<Rightarrow> Inr None
      | Some l \<Rightarrow>
          if principal_id l = pid
          then Inr (Some (row_update runner_id rid (renewed pid rid e t md) rs, renewed pid rid e t md l))
          else Inl (AlreadyLeased rid (principal_id l)))"
proof (induction rs)
  case Nil
  then show ?case by simp
next
  case (Cons l ls)
  show ?case
  proof (cases "runner_id l = rid")
    case True
    with Cons.prems have "rid \<notin> runner_id ` set ls" by (auto simp: keyed_def)
    then have "row_update runner_id rid (renewed pid rid e t md) ls = ls"
      by (rule row_update_absent)
    with True show ?thesis by (simp add: renewed_def Let_def)
  next
    case False
    with Cons have "renew_scan pid rid e t md ls =
     (case row_lookup runner_id rid ls of
        None \<Rightarrow> Inr None
      | Some l \<Rightarrow>
          if principal_id l = pid
          then Inr (Some (row_update runner_id rid (renewed pid rid e t md) ls, renewed pid rid e t md l))
          else Inl (AlreadyLeased rid (principal_id l)))" by (simp add: keyed_def)
    with False show ?thesis by (simp split: option.split)
  qed
qed

text \<open>What a successful acquisition does to the records, with the expiry of the new lease.\<close>

lemma acquire_mutate_eq:
  assumes "keyed runner_id rs"
  shows "acquire_mutate now pid q rid d t md rs =
     (case row_lookup runner_id rid rs of
        Some l \<Rightarrow>
          if principal_id l = pid
          then Inr (row_update runner_id rid (renewed pid rid (now + of_int d) t md) rs,
                    renewed pid rid (now + of_int d) t md l)
          else Inl (AlreadyLeased rid (principal_id l))
      | None \<Rightarrow>
          if int (row_count (\<lambda>r. principal_id r = pid) rs) \<ge> q then Inl (QuotaReached pid q)
          else let u = \<lparr>principal_id = pid, runner_id = rid, acquired_at = now,
                        expires_at = Some (now + of_int d), task_id = t, metadata = md, fencing_token = 0\<rparr>
               in Inr (rs @ [u], u))"
  by (simp add: acquire_mutate_def Let_def renew_scan_eq [OF assms] split: option.split)

lemma acquire_mutate_ok:
  assumes k: "keyed runner_id rs" and a: "acquire_mutate now pid q rid d t md rs = Inr (rs', u)"
  shows "keyed runner_id rs' \<and> principal_id u = pid \<and> runner_id u = rid \<and>
     expires_at u = Some (now + of_int d) \<and>
     (\<forall>r. row_lookup runner_id r rs' = (if r = rid then Some u else row_lookup runner_id r rs))"
proof (cases "row_lookup runner_id rid rs")
  case None
  with a k show ?thesis
    by (auto simp: acquire_mutate_eq Let_def table_simps split: if_splits option.split intro!: keyed_append1)
next
  case (Some l)
  with a have "rs' = row_update runner_id rid (renewed pid rid (now + of_int d) t md) rs"
    and "u = renewed pid rid (now + of_int d) t md l"
    by (auto simp: acquire_mutate_eq [OF k] split: if_splits)
  with k Some show ?thesis by (simp add: row_lookup_update_key keyed_update_key)
qed

section \<open>The store satisfies the lease contract\<close>

definition lease_inv :: "lease_manager \<Rightarrow> bool" where
  "lease_inv m = keyed runner_id (file_records m)"

definition yaml_holder :: "seconds \<Rightarrow> lease_manager \<Rightarrow> string \<Rightarrow> string option" where
  "yaml_holder now m = holder_of now (file_records m)"

definition yaml_acquire ::
    "seconds \<Rightarrow> string \<Rightarrow> int \<Rightarrow> string \<Rightarrow> int \<Rightarrow> string option \<Rightarrow> (string, json) dict \<Rightarrow> lease_manager
      \<Rightarrow> lease_error + lease_manager" where
  "yaml_acquire now pid q rid d t md m =
     (case acquire_lease now now True pid q rid d t md m of
        (Inl e, m') \<Rightarrow> Inl e
      | (Inr _, m') \<Rightarrow> Inr m')"

definition yaml_release :: "seconds \<Rightarrow> string \<Rightarrow> string option \<Rightarrow> lease_manager \<Rightarrow> lease_manager" where
  "yaml_release now rid po m = snd (release_lease now True rid po m)"

lemma yaml_acquire_Inr:
  "yaml_acquire now pid q rid d t md m = Inr m' \<longleftrightarrow>
     (\<exists>rs' u. acquire_mutate now pid q rid d t md (filter (live now) (file_records m)) = Inr (rs', u) \<and>
        m' = m\<lparr>leases_file := Some rs', leases := rs'\<rparr>)"
  by (cases "acquire_mutate now pid q rid d t md (filter (live now) (file_records m))")
    (auto simp: yaml_acquire_def acquire_lease_def atomic_read_modify_write_def Let_def)

lemma file_records_set [simp]: "file_records (m\<lparr>leases_file := Some rs, leases := rs'\<rparr>) = rs"
  by (simp add: file_records_def)

lemma yaml_release_records:
  "file_records (yaml_release now rid po m) = release_mutate rid po (filter (live now) (file_records m))"
  by (simp add: yaml_release_def release_lease_def atomic_read_modify_write_def Let_def)

lemma release_mutate_sub: "set (release_mutate rid po rs) \<subseteq> set rs"
  by (auto simp: release_mutate_def split: option.splits if_splits)

lemma keyed_release: "keyed runner_id rs \<Longrightarrow> keyed runner_id (release_mutate rid po rs)"
  by (auto simp: release_mutate_def intro: keyed_filter split: option.split)

lemma yaml_acquire_holder:
  assumes i: "lease_inv m" and d: "0 < d" and a: "yaml_acquire now pid q rid d t md m = Inr m'"
  shows "yaml_holder now m' = (yaml_holder now m)(rid \<mapsto> pid)"
proof
  fix r
  let ?rs = "filter (live now) (file_records m)"
  have k: "keyed runner_id ?rs" using i by (simp add: lease_inv_def keyed_filter)
  from a obtain rs' u where mut: "acquire_mutate now pid q rid d t md ?rs = Inr (rs', u)"
    and m': "file_records m' = rs'" by (auto simp: yaml_acquire_Inr)
  from acquire_mutate_ok [OF k mut] have u: "principal_id u = pid" "expires_at u = Some (now + of_int d)"
    and kr: "keyed runner_id rs'"
    and look: "\<And>r. row_lookup runner_id r rs' = (if r = rid then Some u else row_lookup runner_id r ?rs)"
    by auto
  have "row_lookup runner_id r (filter (live now) rs') =
      (if r = rid then Some u else row_lookup runner_id r ?rs)"
    using kr u d by (auto simp: row_lookup_filter look live_def dest: row_lookup_SomeD split: option.splits)
  then show "yaml_holder now m' r = ((yaml_holder now m)(rid \<mapsto> pid)) r"
    using u by (simp add: yaml_holder_def m' holder_of_def)
qed

interpretation yaml: lease_store lease_inv yaml_holder yaml_acquire yaml_release
proof (unfold_locales, goal_cases)
  case (1 s now)
  then show ?case
    by (auto simp: yaml_holder_def intro: finite_subset [OF dom_holder_of])
next
  case (2 s now now' r p)
  then show ?case by (auto simp: lease_inv_def yaml_holder_def intro: holder_of_antimono)
next
  case (3 s now p q r d t md s')
  then show ?case
    by (auto simp: lease_inv_def yaml_acquire_Inr keyed_filter dest: acquire_mutate_ok [rotated])
next
  case (4 s d now p q r t md s')
  then show ?case by (rule yaml_acquire_holder)
next
  case (5 s now r p' p q d t md s')
  then obtain l where "row_lookup runner_id r (filter (live now) (file_records s)) = Some l"
    and "principal_id l = p'" by (auto simp: yaml_holder_def holder_of_def)
  with 5 show ?case
    by (auto simp: yaml_acquire_Inr acquire_mutate_eq lease_inv_def keyed_filter split: if_splits)
next
  case (6 s now r p q d t md s')
  then have "row_lookup runner_id r (filter (live now) (file_records s)) = None"
    by (simp add: yaml_holder_def holder_of_def)
  with 6 show ?case
    by (auto simp: yaml_holder_def card_holder_of lease_inv_def yaml_acquire_Inr acquire_mutate_eq keyed_filter
          split: if_splits)
next
  case (7 s now r po)
  then show ?case by (simp add: lease_inv_def yaml_release_records keyed_release keyed_filter)
next
  case (8 s now r po r' p)
  then show ?case
    using release_mutate_sub [of r po "filter (live now) (file_records s)"]
    by (auto simp: yaml_holder_def yaml_release_records lease_inv_def holder_of_Some keyed_release keyed_filter)
qed

section \<open>Properties\<close>

text \<open>An I/O failure or a refusal leaves the file and the in-memory list as they were.\<close>

lemma arw_error_unchanged:
  "fst (atomic_read_modify_write now io f m) = Inl e \<Longrightarrow> snd (atomic_read_modify_write now io f m) = m"
  by (auto simp: atomic_read_modify_write_def Let_def split: sum.splits prod.splits if_splits)

lemma save_load: "leases (load_leases (save_leases True m)) = leases m"
  by (simp add: load_leases_def save_leases_def)

end
