(* ===== verification/Runner_Lease_Sqlite.thy ===== *)
theory Runner_Lease_Sqlite
  imports Runner_Lease
begin

text \<open>
  \<open>backend/runner_lease_sqlite.py\<close>: the SQLite lease store. The state is the \<open>leases\<close> table, one
  row for each runner (\<open>runner_id\<close> is the primary key). Each operation is one \<open>BEGIN IMMEDIATE\<close>
  transaction: a raised error rolls every statement back, so the table is unchanged. Beside the
  lease contract the store keeps a fencing token, bumped by each renewal, that \<open>release\<close> checks.
  The last section relates the store to the YAML one.
\<close>

type_synonym lease_table = "lease_record list"

section \<open>Operations\<close>

definition prune_expired_sqlite :: "seconds \<Rightarrow> lease_table \<Rightarrow> nat \<times> lease_table" where
  "prune_expired_sqlite now rows =
     (length (filter (\<lambda>r. \<not> live now r) rows), filter (live now) rows)"

definition read_all :: "seconds \<Rightarrow> lease_table \<Rightarrow> lease_record list \<times> lease_table" where
  "read_all now rows = (let rows' = snd (prune_expired_sqlite now rows) in (rows', rows'))"

text \<open>The inserts of a snapshot; a repeated runner violates the primary key and rolls back.\<close>

fun insert_all :: "lease_record list \<Rightarrow> lease_table \<Rightarrow> lease_table option" where
  "insert_all [] rows = Some rows"
| "insert_all (rec # recs) rows =
     (if row_lookup runner_id (runner_id rec) rows = None
      then insert_all recs (rows @ [rec\<lparr>fencing_token := 0\<rparr>])
      else None)"

definition write_all :: "lease_record list \<Rightarrow> lease_table \<Rightarrow> (lease_error + unit) \<times> lease_table" where
  "write_all records rows =
     (case insert_all records [] of
        Some rows' \<Rightarrow> (Inr (), rows')
      | None \<Rightarrow> (Inl IntegrityError, rows))"

definition sqlite_acquire_row ::
    "seconds \<Rightarrow> string \<Rightarrow> string \<Rightarrow> int \<Rightarrow> int \<Rightarrow> string option \<Rightarrow> (string, json) dict \<Rightarrow> lease_table
      \<Rightarrow> (lease_error + lease_record) \<times> lease_table" where
  "sqlite_acquire_row now pid rid max_runners duration task md rows =
     (let expires = now + of_int duration;
          kept = filter (live now) rows
      in case row_lookup runner_id rid kept of
           Some existing \<Rightarrow>
             if principal_id existing \<noteq> pid
             then (Inl (AlreadyLeased rid (principal_id existing)), rows)
             else let set_row = (\<lambda>r. r\<lparr>expires_at := Some expires,
                                       task_id := str_or task (task_id existing),
                                       metadata := dict_merge (metadata existing) md,
                                       fencing_token := fencing_token existing + 1\<rparr>)
                  in (Inr \<lparr>principal_id = pid, runner_id = rid, acquired_at = acquired_at existing,
                           expires_at = Some expires, task_id = str_or task (task_id existing),
                           metadata = dict_merge (metadata existing) md,
                           fencing_token = fencing_token existing + 1\<rparr>,
                      row_update runner_id rid set_row kept)
         | None \<Rightarrow>
             if int (row_count (\<lambda>r. principal_id r = pid) kept) \<ge> max_runners
             then (Inl (QuotaReached pid max_runners), rows)
             else let record = \<lparr>principal_id = pid, runner_id = rid, acquired_at = now,
                                expires_at = Some expires, task_id = task, metadata = md,
                                fencing_token = 0\<rparr>
                  in (Inr record, kept @ [record]))"

definition sqlite_release_row ::
    "string \<Rightarrow> string option \<Rightarrow> int option \<Rightarrow> lease_table \<Rightarrow> (lease_error + bool) \<times> lease_table" where
  "sqlite_release_row rid pid token rows =
     (case row_lookup runner_id rid rows of
        None \<Rightarrow> (Inr False, rows)
      | Some r \<Rightarrow>
          if token \<noteq> None \<and> token \<noteq> Some (fencing_token r)
          then (Inl (StaleFencingToken rid (the token) (fencing_token r)), rows)
          else if pid \<noteq> None \<and> pid \<noteq> Some (principal_id r) then (Inr False, rows)
          else (Inr True, row_delete runner_id rid rows))"

section \<open>Keys\<close>

lemma insert_all_Some:
  "insert_all recs rows = Some rows' \<longleftrightarrow>
     distinct (map runner_id recs) \<and> runner_id ` set recs \<inter> runner_id ` set rows = {} \<and>
     rows' = rows @ map (\<lambda>r. r\<lparr>fencing_token := 0\<rparr>) recs"
  by (induction recs rows rule: insert_all.induct) (auto simp: row_lookup_None_iff)

lemma write_all_eq:
  "write_all records rows =
     (if distinct (map runner_id records) then (Inr (), map (\<lambda>r. r\<lparr>fencing_token := 0\<rparr>) records)
      else (Inl IntegrityError, rows))"
proof (cases "insert_all records []")
  case None
  then have "\<not> distinct (map runner_id records)" using insert_all_Some [of records "[]"] by auto
  with None show ?thesis by (simp add: write_all_def)
next
  case (Some rows')
  then show ?thesis using insert_all_Some [of records "[]" rows'] by (auto simp: write_all_def)
qed

definition renew_row :: "seconds \<Rightarrow> string option \<Rightarrow> (string, json) dict \<Rightarrow> lease_record \<Rightarrow> lease_record \<Rightarrow> lease_record" where
  "renew_row expires task md existing r = r\<lparr>expires_at := Some expires,
     task_id := str_or task (task_id existing), metadata := dict_merge (metadata existing) md,
     fencing_token := fencing_token existing + 1\<rparr>"

lemma renew_row_sel [simp]:
  "runner_id (renew_row e t md x r) = runner_id r" "principal_id (renew_row e t md x r) = principal_id r"
  "expires_at (renew_row e t md x r) = Some e" "acquired_at (renew_row e t md x r) = acquired_at r"
  "task_id (renew_row e t md x r) = str_or t (task_id x)"
  "metadata (renew_row e t md x r) = dict_merge (metadata x) md"
  "fencing_token (renew_row e t md x r) = fencing_token x + 1"
  by (simp_all add: renew_row_def)

lemma sqlite_acquire_renew:
  assumes "row_lookup runner_id rid (filter (live now) rows) = Some l" and "principal_id l = pid"
  shows "sqlite_acquire_row now pid rid q d t md rows =
     (Inr (renew_row (now + of_int d) t md l l),
      row_update runner_id rid (renew_row (now + of_int d) t md l) (filter (live now) rows))"
proof -
  have "runner_id l = rid" using assms(1) by (auto dest: row_lookup_SomeD)
  with assms have "\<lparr>principal_id = pid, runner_id = rid, acquired_at = acquired_at l,
      expires_at = Some (now + of_int d), task_id = str_or t (task_id l),
      metadata = dict_merge (metadata l) md, fencing_token = fencing_token l + 1\<rparr> =
      renew_row (now + of_int d) t md l l" by (simp add: renew_row_def)
  with assms show ?thesis
    by (simp add: sqlite_acquire_row_def Let_def renew_row_def [abs_def])
qed

lemma sqlite_acquire_ok:
  assumes k: "keyed runner_id rows" and a: "sqlite_acquire_row now pid rid q d t md rows = (Inr u, rows')"
  shows "keyed runner_id rows' \<and> principal_id u = pid \<and> runner_id u = rid \<and>
     expires_at u = Some (now + of_int d) \<and>
     (\<forall>r. row_lookup runner_id r rows' =
        (if r = rid then Some u else row_lookup runner_id r (filter (live now) rows)))"
proof (cases "row_lookup runner_id rid (filter (live now) rows)")
  case None
  with a k show ?thesis
    by (auto simp: sqlite_acquire_row_def Let_def table_simps(1) split: if_splits option.split
          intro!: keyed_append1 keyed_filter)
next
  case (Some l)
  then have rid: "runner_id l = rid" by (auto dest: row_lookup_SomeD)
  from Some a have p: "principal_id l = pid"
    by (auto simp: sqlite_acquire_row_def Let_def split: if_splits)
  from sqlite_acquire_renew [OF Some p] a
  have "u = renew_row (now + of_int d) t md l l"
    and "rows' = row_update runner_id rid (renew_row (now + of_int d) t md l) (filter (live now) rows)"
    by auto
  with k Some rid p show ?thesis by (simp add: row_lookup_update keyed_update keyed_filter)
qed

section \<open>The store satisfies the lease contract\<close>

definition sqlite_inv :: "lease_table \<Rightarrow> bool" where
  "sqlite_inv rows = keyed runner_id rows"

definition sqlite_acquire ::
    "seconds \<Rightarrow> string \<Rightarrow> int \<Rightarrow> string \<Rightarrow> int \<Rightarrow> string option \<Rightarrow> (string, json) dict \<Rightarrow> lease_table
      \<Rightarrow> lease_error + lease_table" where
  "sqlite_acquire now pid q rid d t md rows =
     (case sqlite_acquire_row now pid rid q d t md rows of
        (Inl e, rows') \<Rightarrow> Inl e
      | (Inr _, rows') \<Rightarrow> Inr rows')"

definition sqlite_release :: "seconds \<Rightarrow> string \<Rightarrow> string option \<Rightarrow> lease_table \<Rightarrow> lease_table" where
  "sqlite_release now rid po rows = snd (sqlite_release_row rid po None rows)"

lemma sqlite_acquire_Inr:
  "sqlite_acquire now pid q rid d t md rows = Inr rows' \<longleftrightarrow>
     (\<exists>u. sqlite_acquire_row now pid rid q d t md rows = (Inr u, rows'))"
  by (cases "sqlite_acquire_row now pid rid q d t md rows"; cases "fst (sqlite_acquire_row now pid rid q d t md rows)")
    (auto simp: sqlite_acquire_def)

lemma sqlite_release_sub: "set (sqlite_release now rid po rows) \<subseteq> set rows"
  by (auto simp: sqlite_release_def sqlite_release_row_def row_delete_def split: option.splits)

lemma sqlite_release_keyed: "sqlite_inv rows \<Longrightarrow> sqlite_inv (sqlite_release now rid po rows)"
  by (auto simp: sqlite_inv_def sqlite_release_def sqlite_release_row_def intro: keyed_delete
      split: option.split)

lemma sqlite_acquire_holder:
  assumes i: "sqlite_inv rows" and d: "0 < d" and a: "sqlite_acquire now pid q rid d t md rows = Inr rows'"
  shows "holder_of now rows' = (holder_of now rows)(rid \<mapsto> pid)"
proof
  fix r
  from a obtain u where acq: "sqlite_acquire_row now pid rid q d t md rows = (Inr u, rows')"
    by (auto simp: sqlite_acquire_Inr)
  from sqlite_acquire_ok [OF _ acq] i
  have u: "principal_id u = pid" "expires_at u = Some (now + of_int d)" and kr: "keyed runner_id rows'"
    and look: "\<And>r. row_lookup runner_id r rows' =
      (if r = rid then Some u else row_lookup runner_id r (filter (live now) rows))"
    by (auto simp: sqlite_inv_def)
  have "row_lookup runner_id r (filter (live now) rows') =
      (if r = rid then Some u else row_lookup runner_id r (filter (live now) rows))"
    using kr u d by (auto simp: row_lookup_filter look live_def dest: row_lookup_SomeD split: option.splits)
  then show "holder_of now rows' r = ((holder_of now rows)(rid \<mapsto> pid)) r"
    using u by (simp add: holder_of_def)
qed

interpretation sqlite: lease_store sqlite_inv holder_of sqlite_acquire sqlite_release
proof (unfold_locales, goal_cases)
  case (1 s now)
  then show ?case by (auto intro: finite_subset [OF dom_holder_of])
next
  case (2 s now now' r p)
  then show ?case by (auto simp: sqlite_inv_def intro: holder_of_antimono)
next
  case (3 s now p q r d t md s')
  then show ?case by (auto simp: sqlite_inv_def sqlite_acquire_Inr dest: sqlite_acquire_ok)
next
  case (4 s d now p q r t md s')
  then show ?case by (rule sqlite_acquire_holder)
next
  case (5 s now r p' p q d t md s')
  then show ?case
    by (auto simp: holder_of_def sqlite_acquire_Inr sqlite_acquire_row_def Let_def split: if_splits)
next
  case (6 s now r p q d t md s')
  then have "row_lookup runner_id r (filter (live now) s) = None" by (simp add: holder_of_def)
  with 6 show ?case
    by (auto simp: card_holder_of sqlite_inv_def sqlite_acquire_Inr sqlite_acquire_row_def Let_def
          split: if_splits)
next
  case (7 s now r po)
  then show ?case by (rule sqlite_release_keyed)
next
  case (8 s now r po r' p)
  then show ?case
    using sqlite_release_sub [of now r po s] sqlite_release_keyed [of s now r po]
    by (auto simp: sqlite_inv_def holder_of_Some)
qed

section \<open>Equivalence of the two backends\<close>

text \<open>
  The stores agree when their rows are the same up to the fencing tokens, which only SQLite keeps.
\<close>

definition plain :: "lease_record \<Rightarrow> lease_record" where
  "plain r = r\<lparr>fencing_token := 0\<rparr>"

definition same_leases :: "seconds \<Rightarrow> lease_record list \<Rightarrow> lease_record list \<Rightarrow> bool" where
  "same_leases now xs ys = (map plain (filter (live now) xs) = map plain (filter (live now) ys))"

lemma plain_sel [simp]:
  "principal_id (plain r) = principal_id r" "runner_id (plain r) = runner_id r"
  "acquired_at (plain r) = acquired_at r" "expires_at (plain r) = expires_at r"
  "task_id (plain r) = task_id r" "metadata (plain r) = metadata r" "live now (plain r) = live now r"
  by (simp_all add: plain_def live_def)

lemma row_lookup_plain:
  "row_lookup runner_id k (map plain rs) = map_option plain (row_lookup runner_id k rs)"
  by (induction rs) auto

lemma row_count_plain:
  "row_count (\<lambda>r. principal_id r = p) (map plain rs) = row_count (\<lambda>r. principal_id r = p) rs"
  by (induction rs) auto

lemma plain_renew: "plain l = plain l' \<Longrightarrow> principal_id l = pid \<Longrightarrow> runner_id l = rid \<Longrightarrow>
    plain r = plain r' \<Longrightarrow> r = l \<Longrightarrow> r' = l' \<Longrightarrow>
    plain (renewed pid rid e t md r) = plain (renew_row e t md l' r')"
  by (cases l; cases l') (auto simp: plain_def renewed_def renew_row_def)

lemma row_update_plain:
  assumes "map plain xs = map plain ys" and "\<And>x y. x \<in> set xs \<Longrightarrow> y \<in> set ys \<Longrightarrow> plain x = plain y \<Longrightarrow>
      runner_id x = k \<Longrightarrow> plain (f x) = plain (g y)"
  shows "map plain (row_update runner_id k f xs) = map plain (row_update runner_id k g ys)"
  using assms
proof (induction xs arbitrary: ys)
  case Nil
  then show ?case by simp
next
  case (Cons x xs)
  then obtain y ys' where ys: "ys = y # ys'" "plain x = plain y" "map plain xs = map plain ys'"
    by auto
  then have "runner_id x = runner_id y" by (metis plain_sel(2))
  with ys Cons show ?case by (auto intro: Cons.IH)
qed

lemma plain_live_filter: "map plain (filter (live now) rs) = filter (live now) (map plain rs)"
  by (induction rs) auto

lemma same_leases_sub: "map plain xs = map plain ys \<Longrightarrow> same_leases now xs ys"
  by (simp add: same_leases_def plain_live_filter)

text \<open>The result of an acquisition on each backend, related up to fencing tokens.\<close>

fun agree ::
    "seconds \<Rightarrow> (lease_error + lease_record) \<times> lease_manager \<Rightarrow> (lease_error + lease_record) \<times> lease_table \<Rightarrow> bool" where
  "agree now (Inl e, m) (Inl e', rows) = (e = e')"
| "agree now (Inr u, m) (Inr u', rows) = (plain u = plain u' \<and> same_leases now (file_records m) rows)"
| "agree now x y = False"

lemma acquire_agree:
  assumes kx: "keyed runner_id xs" and ky: "keyed runner_id ys" and eq: "map plain xs = map plain ys"
    and xs: "xs = filter (live now) (file_records m)" and ys: "ys = filter (live now) rows"
  shows "agree now (acquire_lease now now True pid q rid d t md m)
                   (sqlite_acquire_row now pid rid q d t md rows)"
proof -
  have look: "map_option plain (row_lookup runner_id rid xs) = map_option plain (row_lookup runner_id rid ys)"
    by (metis eq row_lookup_plain)
  have cnt: "row_count (\<lambda>r. principal_id r = pid) xs = row_count (\<lambda>r. principal_id r = pid) ys"
    by (metis eq row_count_plain)
  show ?thesis
  proof (cases "row_lookup runner_id rid xs")
    case None
    with look have "row_lookup runner_id rid ys = None" by simp
    with None cnt eq show ?thesis
      by (auto simp: acquire_lease_def atomic_read_modify_write_def acquire_mutate_eq [OF kx]
            xs [symmetric] ys [symmetric] sqlite_acquire_row_def Let_def intro!: same_leases_sub)
  next
    case (Some l)
    with look obtain l' where l': "row_lookup runner_id rid ys = Some l'" "plain l = plain l'"
      by (cases "row_lookup runner_id rid ys") auto
    have pl: "principal_id l = principal_id l'" by (metis l'(2) plain_sel(1))
    show ?thesis
    proof (cases "principal_id l = pid")
      case False
      with Some l' pl show ?thesis
        by (auto simp: acquire_lease_def atomic_read_modify_write_def acquire_mutate_eq [OF kx]
              xs [symmetric] ys [symmetric] sqlite_acquire_row_def Let_def)
    next
      case True
      let ?e = "now + of_int d"
      have key: "plain (renewed pid rid ?e t md x) = plain (renew_row ?e t md l' y)"
        if "x \<in> set xs" "y \<in> set ys" "plain x = plain y" "runner_id x = rid" for x y
      proof -
        have "runner_id y = rid" using that by (metis plain_sel(2))
        then have "x = l" and "y = l'"
          using that Some l' row_lookup_Some_iff [OF kx, of rid x] row_lookup_Some_iff [OF ky, of rid y]
          by auto
        then show ?thesis using that True pl l' by (intro plain_renew [of l l']) auto
      qed
      have mem: "l \<in> set xs" "l' \<in> set ys" "runner_id l = rid"
        using Some l' by (auto dest: row_lookup_SomeD)
      have "map plain (row_update runner_id rid (renewed pid rid ?e t md) xs) =
          map plain (row_update runner_id rid (renew_row ?e t md l') ys)"
        by (rule row_update_plain [OF eq key])
      moreover have "plain (renewed pid rid ?e t md l) = plain (renew_row ?e t md l' l')"
        by (rule key) (use mem l' in auto)
      moreover have "sqlite_acquire_row now pid rid q d t md rows =
          (Inr (renew_row ?e t md l' l'), row_update runner_id rid (renew_row ?e t md l') ys)"
        using sqlite_acquire_renew [of rid now rows l' pid] l' True pl ys by simp
      ultimately show ?thesis using Some True
        by (auto simp: acquire_lease_def atomic_read_modify_write_def acquire_mutate_eq [OF kx]
              xs [symmetric] Let_def intro: same_leases_sub)
    qed
  qed
qed

section \<open>Properties\<close>

text \<open>
  Serving a list of requests on each store: the answers to the acquisitions, up to the fencing tokens,
  and the store at the end. A release answers nothing to the caller of the YAML store.
\<close>

definition plain_answer :: "lease_error + lease_record \<Rightarrow> lease_error + lease_record" where
  "plain_answer a = (case a of Inl e \<Rightarrow> Inl e | Inr r \<Rightarrow> Inr (plain r))"

fun yaml_serve ::
    "(string \<Rightarrow> int) \<Rightarrow> (seconds \<times> lease_op) list \<Rightarrow> lease_manager
      \<Rightarrow> (lease_error + lease_record) list \<times> lease_manager" where
  "yaml_serve q [] m = ([], m)"
| "yaml_serve q ((now, Acquire p r d t md) # ops) m =
     (let (a, m1) = acquire_lease now now True p (q p) r d t md m; (as, m2) = yaml_serve q ops m1
      in (plain_answer a # as, m2))"
| "yaml_serve q ((now, Release r po) # ops) m = yaml_serve q ops (snd (release_lease now True r po m))"

fun sqlite_serve ::
    "(string \<Rightarrow> int) \<Rightarrow> (seconds \<times> lease_op) list \<Rightarrow> lease_table
      \<Rightarrow> (lease_error + lease_record) list \<times> lease_table" where
  "sqlite_serve q [] rows = ([], rows)"
| "sqlite_serve q ((now, Acquire p r d t md) # ops) rows =
     (let (a, rows1) = sqlite_acquire_row now p r (q p) d t md rows; (as, rows2) = sqlite_serve q ops rows1
      in (plain_answer a # as, rows2))"
| "sqlite_serve q ((now, Release r po) # ops) rows = sqlite_serve q ops (snd (sqlite_release_row r po None rows))"

text \<open>An empty text for the principal of a release means anyone to one store and nobody to the other.\<close>

fun names_releaser :: "lease_op \<Rightarrow> bool" where
  "names_releaser (Release r po) = (po \<noteq> Some [])"
| "names_releaser op = True"

lemma same_leases_later:
  assumes "same_leases now xs ys" and "now \<le> now'"
  shows "same_leases now' xs ys"
proof -
  have "filter (live now') zs = filter (live now') (filter (live now) zs)" for zs
    using assms(2) by (auto intro!: filter_cong dest: live_antimono)
  then show ?thesis using assms(1) by (metis plain_live_filter same_leases_def)
qed

lemma acquire_refused: "acquire_lease now now' io pid q rid d t md m = (Inl e, m') \<Longrightarrow> m' = m"
  by (auto simp: acquire_lease_def atomic_read_modify_write_def Let_def split: sum.splits prod.splits if_splits)

lemma acquire_served:
  assumes "lease_inv m" and "sqlite_inv rows" and "same_leases now (file_records m) rows"
    and "acquire_lease now now True pid q rid d t md m = (a, m')"
    and "sqlite_acquire_row now pid rid q d t md rows = (b, rows')"
  shows "plain_answer a = plain_answer b \<and> same_leases now (file_records m') rows' \<and> lease_inv m' \<and> sqlite_inv rows'"
proof -
  have k: "keyed runner_id (filter (live now) (file_records m))" "keyed runner_id rows"
    using assms(1,2) by (simp_all add: lease_inv_def sqlite_inv_def keyed_filter)
  have ag: "agree now (a, m') (b, rows')"
    using acquire_agree [of "filter (live now) (file_records m)" "filter (live now) rows" now m rows pid q rid d t md]
      assms by (simp add: lease_inv_def sqlite_inv_def same_leases_def keyed_filter)
  show ?thesis
  proof (cases a)
    case (Inl e)
    with ag have b: "b = Inl e" by (cases b) auto
    have "m' = m" using assms(4) Inl by (simp add: acquire_refused)
    moreover have "rows' = rows" using assms(5) b
      by (auto simp: sqlite_acquire_row_def Let_def split: option.splits if_splits)
    ultimately show ?thesis using assms(1-3) Inl b by simp
  next
    case (Inr u)
    with ag obtain v where v: "b = Inr v" "plain u = plain v" "same_leases now (file_records m') rows'"
      by (cases b) auto
    have "yaml_acquire now pid q rid d t md m = Inr m'" using assms(4) Inr by (simp add: yaml_acquire_def)
    moreover have "sqlite_acquire now pid q rid d t md rows = Inr rows'"
      using assms(5) v by (simp add: sqlite_acquire_def)
    ultimately show ?thesis
      using v Inr yaml.acq_inv [OF assms(1)] sqlite.acq_inv [OF assms(2)] by (simp add: plain_answer_def)
  qed
qed

lemma release_served:
  assumes "lease_inv m" and "sqlite_inv rows" and "same_leases now (file_records m) rows" and "po \<noteq> Some []"
  shows "same_leases now (file_records (yaml_release now rid po m)) (sqlite_release now rid po rows)"
proof -
  let ?keep = "\<lambda>r. case po of None \<Rightarrow> runner_id r \<noteq> rid | Some p \<Rightarrow> \<not> (runner_id r = rid \<and> principal_id r = p)"
  have y: "release_mutate rid po rs = filter ?keep rs" for rs
    using assms(4) by (auto simp: release_mutate_def split: option.split)
  have s: "sqlite_release now rid po rows = filter ?keep rows"
  proof (cases "row_lookup runner_id rid rows")
    case None
    then have "\<forall>r \<in> set rows. runner_id r \<noteq> rid" by (auto simp: row_lookup_None_iff)
    with None show ?thesis
      by (auto simp: sqlite_release_def sqlite_release_row_def filter_id_conv split: option.split)
  next
    case (Some l)
    have only: "r = l" if "r \<in> set rows" "runner_id r = rid" for r
      using that Some assms(2) row_lookup_Some_iff [of runner_id rows rid r] by (simp add: sqlite_inv_def)
    show ?thesis
    proof (cases "po = None \<or> po = Some (principal_id l)")
      case True
      with Some only show ?thesis
        by (auto simp: sqlite_release_def sqlite_release_row_def row_delete_def intro!: filter_cong split: option.split)
    next
      case False
      with only have "\<forall>r \<in> set rows. ?keep r" by (auto split: option.split)
      with False Some show ?thesis
        by (auto simp: sqlite_release_def sqlite_release_row_def filter_id_conv)
    qed
  qed
  have keep: "?keep (plain r) = ?keep r" for r by (simp split: option.split)
  have mp: "map plain (filter ?keep xs) = filter ?keep (map plain xs)" for xs
    by (induction xs) (auto simp: keep)
  have "map plain (filter ?keep (filter (live now) (file_records m))) =
      map plain (filter ?keep (filter (live now) rows))"
    by (simp only: mp assms(3) [unfolded same_leases_def])
  moreover have "filter (live now) (filter ?keep xs) = filter ?keep (filter (live now) xs)" for xs
    by (simp only: filter_filter conj_commute)
  moreover have "filter (live now) (filter ?keep (filter (live now) xs)) = filter ?keep (filter (live now) xs)" for xs
    by (induction xs) auto
  ultimately show ?thesis
    by (simp only: same_leases_def yaml_release_records y s)
qed



text \<open>With an empty text for the releaser the stores part: YAML drops the lease, SQLite keeps it.\<close>

lemma empty_releaser_parts:
  "yaml_holder 6 (snd (yaml_serve (\<lambda>_. 1) [(5, Acquire ''bot'' ''r1'' 60 None []), (6, Release ''r1'' (Some []))]
     \<lparr>leases_file = None, leases = []\<rparr>)) ''r1'' = None \<and>
   holder_of 6 (snd (sqlite_serve (\<lambda>_. 1) [(5, Acquire ''bot'' ''r1'' 60 None []), (6, Release ''r1'' (Some []))] [])) ''r1'' =
     Some ''bot''"
  by code_simp

text \<open>C2: Along any schedule of acquisitions and releases on the SQLite store, no principal ever
  holds more live leases than its quota.\<close>

theorem sqlite_quota:
  assumes "sqlite_inv rows" and "within_quota q (holder_of t0 rows)" and "lease_schedule t0 ops"
  shows "within_quota q (holder_of (lease_end t0 ops) (lease_run sqlite_acquire sqlite_release q ops rows))"
  using assms by (rule sqlite.quota_along_schedule)

theorem sqlite_quota_witness:
  "within_quota (\<lambda>_. 1) (holder_of 8 (lease_run sqlite_acquire sqlite_release (\<lambda>_. 1)
     [(3, Acquire ''bot'' ''r1'' 60 None []), (8, Acquire ''bot'' ''r2'' 60 None [])] []))"
  using sqlite_quota [of "[]" "\<lambda>_. 1" 0 "[(3, Acquire ''bot'' ''r1'' 60 None []), (8, Acquire ''bot'' ''r2'' 60 None [])]"]
  by (simp add: sqlite_inv_def keyed_Nil within_quota_def holder_of_def)

text \<open>Along any schedule on the YAML store, no principal ever holds more live leases than its
  quota.\<close>

theorem yaml_quota:
  assumes "lease_inv m" and "within_quota q (yaml_holder t0 m)" and "lease_schedule t0 ops"
  shows "within_quota q (yaml_holder (lease_end t0 ops) (lease_run yaml_acquire yaml_release q ops m))"
  using assms by (rule yaml.quota_along_schedule)

theorem yaml_quota_witness:
  "within_quota (\<lambda>_. 1) (yaml_holder 8 (lease_run yaml_acquire yaml_release (\<lambda>_. 1)
     [(3, Acquire ''bot'' ''r1'' 60 None []), (8, Release ''r1'' None)] \<lparr>leases_file = None, leases = []\<rparr>))"
  using yaml_quota [of "\<lparr>leases_file = None, leases = []\<rparr>" "\<lambda>_. 1" 0
      "[(3, Acquire ''bot'' ''r1'' 60 None []), (8, Release ''r1'' None)]"]
  by (simp add: lease_inv_def yaml_holder_def file_records_def keyed_Nil within_quota_def holder_of_def)

text \<open>A live lease is never handed to another principal: whoever holds a runner after one
  request on the YAML store held it before, unless it was free.\<close>

theorem yaml_exclusive:
  assumes "lease_inv m" and "yaml_holder now m r = Some p" and "op_ok op"
    and "yaml_holder now (lease_step yaml_acquire yaml_release q (now, op) m) r = Some p'"
  shows "p' = p"
  using yaml.no_takeover [OF assms(1,2) refl assms(4,3)] .

theorem yaml_exclusive_witness:
  "let m = \<lparr>leases_file = Some [\<lparr>principal_id = ''a'', runner_id = ''r'', acquired_at = 0,
               expires_at = Some 10, task_id = None, metadata = [], fencing_token = 0\<rparr>], leases = []\<rparr>;
       m' = lease_step yaml_acquire yaml_release (\<lambda>_. 5) (4, Acquire ''b'' ''r'' 60 None []) m
   in yaml_holder 4 m' ''r'' = Some ''a''"
proof -
  let ?m = "\<lparr>leases_file = Some [\<lparr>principal_id = ''a'', runner_id = ''r'', acquired_at = 0,
      expires_at = Some 10, task_id = None, metadata = [], fencing_token = 0\<rparr>], leases = []\<rparr>"
  let ?m' = "lease_step yaml_acquire yaml_release (\<lambda>_. 5) (4, Acquire ''b'' ''r'' 60 None []) ?m"
  have i: "lease_inv ?m" by (simp add: lease_inv_def file_records_def keyed_def)
  have h: "yaml_holder 4 ?m ''r'' = Some ''a''"
    by (simp add: yaml_holder_def holder_of_def file_records_def live_def)
  obtain p' where p': "yaml_holder 4 ?m' ''r'' = Some p'"
    by (simp add: yaml_acquire_def acquire_lease_def atomic_read_modify_write_def acquire_mutate_def
        file_records_def live_def yaml_holder_def holder_of_def Let_def)
  have "p' = ''a''"
    using yaml_exclusive [OF i h, of "Acquire ''b'' ''r'' 60 None []" "\<lambda>_. 5" p'] p' by simp
  with p' show ?thesis by (simp only: Let_def)
qed

text \<open>Renewing a SQLite lease fences off the older view of it: the renewal's token is one more
  than the old one, and a release that still names the old token is refused and changes nothing.\<close>

theorem renewal_fences:
  assumes "sqlite_inv rows" and "row_lookup runner_id rid (filter (live now) rows) = Some old"
    and "sqlite_acquire_row now pid rid q d t md rows = (Inr u, rows')"
  shows "fencing_token u = fencing_token old + 1 \<and>
     sqlite_release_row rid po (Some (fencing_token old)) rows' =
       (Inl (StaleFencingToken rid (fencing_token old) (fencing_token u)), rows')"
proof -
  have "principal_id old = pid"
    using assms(2,3) by (auto simp: sqlite_acquire_row_def Let_def split: if_splits)
  with assms(2,3) have "fencing_token u = fencing_token old + 1"
    by (auto simp: sqlite_acquire_renew)
  moreover have "row_lookup runner_id rid rows' = Some u"
    using sqlite_acquire_ok [OF _ assms(3)] assms(1) by (simp add: sqlite_inv_def)
  ultimately show ?thesis by (simp add: sqlite_release_row_def)
qed

theorem renewal_fences_witness:
  "let old = \<lparr>principal_id = ''a'', runner_id = ''r'', acquired_at = 0, expires_at = Some 10,
              task_id = None, metadata = [], fencing_token = 3\<rparr>;
       rows' = snd (sqlite_acquire_row 4 ''a'' ''r'' 1 60 None [] [old])
   in sqlite_release_row ''r'' None (Some 3) rows' = (Inl (StaleFencingToken ''r'' 3 4), rows')"
proof -
  let ?old = "\<lparr>principal_id = ''a'', runner_id = ''r'', acquired_at = 0, expires_at = Some 10,
              task_id = None, metadata = [], fencing_token = 3\<rparr>"
  obtain u rows' where a: "sqlite_acquire_row 4 ''a'' ''r'' 1 60 None [] [?old] = (Inr u, rows')"
    by (simp add: sqlite_acquire_row_def Let_def live_def)
  have i: "sqlite_inv [?old]" by (simp add: sqlite_inv_def keyed_def)
  have l: "row_lookup runner_id ''r'' (filter (live 4) [?old]) = Some ?old" by (simp add: live_def)
  show ?thesis using renewal_fences [OF i l a, of None] a by simp
qed

text \<open>A fencing token does not outlive its lease: a lease granted on a free runner always starts
  at token 0, so a release that names no principal and carries a token 0 kept from an earlier lease
  of that runner drops the new holder's lease.\<close>

theorem fencing_token_restarts:
  assumes "sqlite_inv rows" and "row_lookup runner_id rid (filter (live now) rows) = None"
    and "sqlite_acquire_row now pid rid q d t md rows = (Inr u, rows')"
  shows "fencing_token u = 0 \<and>
     sqlite_release_row rid None (Some 0) rows' = (Inr True, row_delete runner_id rid rows')"
proof -
  have "fencing_token u = 0"
    using assms(2,3) by (auto simp: sqlite_acquire_row_def Let_def split: if_splits)
  moreover have "row_lookup runner_id rid rows' = Some u"
    using sqlite_acquire_ok [OF _ assms(3)] assms(1) by (simp add: sqlite_inv_def)
  ultimately show ?thesis by (simp add: sqlite_release_row_def)
qed

theorem fencing_token_restarts_witness:
  "let rows1 = snd (sqlite_acquire_row 0 ''a'' ''r'' 1 60 None [] []);
       rows2 = snd (sqlite_release_row ''r'' (Some ''a'') (Some 0) rows1);
       rows3 = snd (sqlite_acquire_row 5 ''b'' ''r'' 1 60 None [] rows2)
   in holder_of 5 rows3 ''r'' = Some ''b'' \<and> sqlite_release_row ''r'' None (Some 0) rows3 = (Inr True, [])"
proof -
  obtain u rows3 where a: "sqlite_acquire_row 5 ''b'' ''r'' 1 60 None [] [] = (Inr u, rows3)"
    by (simp add: sqlite_acquire_row_def Let_def)
  have "sqlite_release_row ''r'' None (Some 0) rows3 = (Inr True, row_delete runner_id ''r'' rows3)"
    using fencing_token_restarts [OF _ _ a] by (simp add: sqlite_inv_def keyed_Nil)
  moreover have "snd (sqlite_release_row ''r'' (Some ''a'') (Some 0)
      (snd (sqlite_acquire_row 0 ''a'' ''r'' 1 60 None [] []))) = []"
    by (simp add: sqlite_acquire_row_def sqlite_release_row_def row_delete_def Let_def)
  ultimately show ?thesis using a
    by (auto simp: sqlite_acquire_row_def Let_def row_delete_def holder_of_def live_def)
qed

text \<open>A snapshot written to the SQLite store is read back whole, without its expired leases and
  with every fencing token reset; a snapshot that names a runner twice is refused and the table
  stays as it was.\<close>

theorem write_read_all:
  "(if distinct (map runner_id records)
    then fst (read_all now (snd (write_all records rows))) = map plain (filter (live now) records)
    else write_all records rows = (Inl IntegrityError, rows))"
proof -
  have "filter (live now) (map plain records) = map plain (filter (live now) records)"
    by (rule plain_live_filter [symmetric])
  then show ?thesis
    by (simp add: write_all_eq read_all_def prune_expired_sqlite_def Let_def plain_def [abs_def])
qed

end
