(* ===== verification/Executor_Router.thy ===== *)
theory Executor_Router
  imports Prelude
begin

text \<open>
  \<open>backend/code_requests/executor_router.py\<close>: the tiers a child issue may run at, their order and
  escalation, and the choice of a provider for a child: the pinned executor profile when the Code
  Request has one, else the cheapest provider of the child's tier. Dollar estimates are exact
  rationals. The registry is the list of providers it describes, each with its availability.
\<close>

section \<open>Tiers\<close>

datatype executor_tier = Ollama | Cli | Strong

fun tier_value :: "executor_tier \<Rightarrow> string" where
  "tier_value Ollama = ''ollama''"
| "tier_value Cli = ''cli''"
| "tier_value Strong = ''strong''"

definition tier_order :: "executor_tier list" where
  "tier_order = [Ollama, Cli, Strong]"

fun escalate_tier :: "executor_tier \<Rightarrow> executor_tier option" where
  "escalate_tier Ollama = Some Cli"
| "escalate_tier Cli = Some Strong"
| "escalate_tier Strong = None"

text \<open>\<open>TIER_ORDER.index(tier)\<close>: the position of the first occurrence.\<close>

fun index_of :: "'a \<Rightarrow> 'a list \<Rightarrow> nat" where
  "index_of x [] = 0"
| "index_of x (y # ys) = (if x = y then 0 else Suc (index_of x ys))"

definition tier_rank :: "executor_tier \<Rightarrow> nat" where
  "tier_rank t = index_of t tier_order"

lemma tier_rank_simps [simp]: "tier_rank Ollama = 0" "tier_rank Cli = 1" "tier_rank Strong = 2"
  by (simp_all add: tier_rank_def tier_order_def)

text \<open>The tiers are ordered as the escalation climbs them.\<close>

instantiation executor_tier :: linorder
begin

definition less_eq_executor_tier :: "executor_tier \<Rightarrow> executor_tier \<Rightarrow> bool" where
  "less_eq_executor_tier a b = (tier_rank a \<le> tier_rank b)"

definition less_executor_tier :: "executor_tier \<Rightarrow> executor_tier \<Rightarrow> bool" where
  "less_executor_tier a b = (tier_rank a < tier_rank b)"

instance
proof
  fix a b :: executor_tier
  show "a \<le> b \<Longrightarrow> b \<le> a \<Longrightarrow> a = b"
    by (cases a; cases b) (simp_all add: less_eq_executor_tier_def)
qed (auto simp: less_eq_executor_tier_def less_executor_tier_def)

end

lemma escalate_higher: "escalate_tier t = Some t' \<Longrightarrow> t < t'"
  by (cases t) (auto simp: less_executor_tier_def)

definition normalize_tier :: "string \<Rightarrow> executor_tier" where
  "normalize_tier value =
     (let cleaned0 = py_lower (py_strip value);
          cleaned = (if py_startswith cleaned0 ''tier:'' then py_strip (drop 5 cleaned0) else cleaned0)
      in case List.find (\<lambda>t. cleaned = tier_value t) [Ollama, Cli, Strong] of
           Some t \<Rightarrow> t
         | None \<Rightarrow>
             if py_contains ''ollama'' cleaned \<or> py_contains ''local'' cleaned then Ollama
             else if py_contains ''strong'' cleaned \<or> py_contains ''opus'' cleaned then Strong
             else Cli)"

section \<open>Providers\<close>

fun default_providers_by_tier :: "executor_tier \<Rightarrow> string list" where
  "default_providers_by_tier Ollama = [''ollama'', ''local'']"
| "default_providers_by_tier Cli =
     [''codex_cli'', ''claude_code_cli'', ''antigravity'', ''cursor_agent'', ''jules_cli'', ''cline'']"
| "default_providers_by_tier Strong = [''antigravity'', ''claude_code_cli'']"

definition estimated_cost_per_dispatch :: "(string, rat) dict" where
  "estimated_cost_per_dispatch =
     [(''ollama'', 0), (''local'', 0), (''codex_cli'', 5 / 100), (''jules_cli'', 5 / 100),
      (''cline'', 8 / 100), (''claude_code_cli'', 20 / 100), (''antigravity'', 25 / 100)]"

definition cost_or :: "rat \<Rightarrow> string \<Rightarrow> rat" where
  "cost_or dflt p =
     (case map_of estimated_cost_per_dispatch p of None \<Rightarrow> dflt | Some c \<Rightarrow> c)"

datatype route_reason =
    RouteEscalated executor_tier string executor_tier executor_tier
    \<comment> \<open>child tier, pinned profile, its tier, escalated tier\<close>
  | RoutePinned string
  | RouteCheapest string executor_tier

text \<open>The tier a pinned profile's name stands for.\<close>

definition profile_tier :: "string \<Rightarrow> executor_tier" where
  "profile_tier pinned =
     (if py_contains ''ollama'' pinned \<or> py_contains ''local'' pinned then Ollama
      else if py_contains ''strong'' pinned \<or> py_contains ''opus'' pinned \<or> py_contains ''antigravity'' pinned
      then Strong
      else Cli)"

text \<open>The registry filter: an unknown provider stays, a known one only if available.\<close>

definition available_providers :: "(string, bool) dict \<Rightarrow> string list \<Rightarrow> string list" where
  "available_providers registry candidates =
     (if registry = [] then candidates
      else let filtered = filter (\<lambda>p. case map_of registry p of None \<Rightarrow> True | Some av \<Rightarrow> av) candidates
           in if filtered = [] then candidates else filtered)"

text \<open>The fallback route: the first of the candidates, sorted by cost and cut to the budget.\<close>

definition cheapest_provider ::
    "executor_tier \<Rightarrow> (string, bool) dict \<Rightarrow> rat option \<Rightarrow> string" where
  "cheapest_provider tier registry remaining_budget =
     (let candidates = available_providers registry (default_providers_by_tier tier);
          sorted_candidates = sort_key (cost_or (10 / 100)) candidates;
          affordable = (case remaining_budget of
                          None \<Rightarrow> sorted_candidates
                        | Some b \<Rightarrow>
                            let aff = filter (\<lambda>p. cost_or 0 p \<le> b) sorted_candidates
                            in if aff = [] then sorted_candidates else aff)
      in case affordable of [] \<Rightarrow> ''codex_cli'' | p # _ \<Rightarrow> p)"

definition resolve_child_executor ::
    "executor_tier \<Rightarrow> string option \<Rightarrow> (string, bool) dict \<Rightarrow> rat option
      \<Rightarrow> string \<times> executor_tier \<times> route_reason" where
  "resolve_child_executor child_tier pinned registry remaining_budget =
     (case str_or pinned None of
        Some p \<Rightarrow>
          let pt = profile_tier p
          in if tier_rank child_tier > tier_rank pt
            then let escalated = (case escalate_tier pt of Some t \<Rightarrow> t | None \<Rightarrow> pt);
                     provider = hd (default_providers_by_tier escalated)
                 in (provider, escalated, RouteEscalated child_tier p pt escalated)
            else (p, pt, RoutePinned p)
      | None \<Rightarrow>
          let sel = cheapest_provider child_tier registry remaining_budget
          in (sel, child_tier, RouteCheapest sel child_tier))"

section \<open>Properties of the route\<close>

lemma resolve_unpinned:
  "resolve_child_executor t None reg b = (cheapest_provider t reg b, t, RouteCheapest (cheapest_provider t reg b) t)"
  by (simp add: resolve_child_executor_def Let_def)

lemma resolve_pinned:
  "p \<noteq> [] \<Longrightarrow> fst (snd (resolve_child_executor t (Some p) reg b)) =
     (if tier_rank t > tier_rank (profile_tier p)
      then (case escalate_tier (profile_tier p) of Some t' \<Rightarrow> t' | None \<Rightarrow> profile_tier p)
      else profile_tier p)"
  by (simp add: resolve_child_executor_def Let_def)

lemma available_providers_sub: "set (available_providers reg cs) \<subseteq> set cs"
  by (auto simp: available_providers_def Let_def)

lemma available_providers_nonempty: "cs \<noteq> [] \<Longrightarrow> available_providers reg cs \<noteq> []"
  by (auto simp: available_providers_def Let_def)

lemma default_providers_nonempty [simp]: "default_providers_by_tier t \<noteq> []"
  by (cases t) auto

lemma default_providers_known:
  "p \<in> set (default_providers_by_tier t) \<Longrightarrow> p \<noteq> ''cursor_agent'' \<Longrightarrow> cost_or d p = cost_or d' p"
  by (cases t) (auto simp: cost_or_def estimated_cost_per_dispatch_def)

lemma hd_sort_key_min:
  assumes "xs \<noteq> []" and "x \<in> set xs"
  shows "hd (sort_key f xs) \<in> set xs \<and> f (hd (sort_key f xs)) \<le> f x"
proof -
  obtain y ys where ys: "sort_key f xs = y # ys"
    using assms(1) by (cases "sort_key f xs") (auto dest: arg_cong [of _ _ length])
  have "sorted (map f (y # ys))" by (metis sorted_sort_key ys)
  moreover have "x \<in> set (y # ys)" using assms(2) by (metis set_sort ys)
  moreover have "y \<in> set xs" by (metis list.set_intros(1) set_sort ys)
  ultimately show ?thesis using ys by auto
qed

text \<open>With no budget given, the fallback picks an available provider of the tier, and none of the
  tier's available providers is cheaper.\<close>

lemma cheapest_provider_min:
  assumes "q \<in> set (available_providers reg (default_providers_by_tier t))"
  shows "cheapest_provider t reg None \<in> set (available_providers reg (default_providers_by_tier t)) \<and>
     cost_or (10 / 100) (cheapest_provider t reg None) \<le> cost_or (10 / 100) q"
proof -
  let ?cs = "available_providers reg (default_providers_by_tier t)"
  have ne: "?cs \<noteq> []" by (simp add: available_providers_nonempty)
  obtain y ys where ys: "sort_key (cost_or (10 / 100)) ?cs = y # ys"
    using ne by (cases "sort_key (cost_or (10 / 100)) ?cs") (auto dest: arg_cong [of _ _ length])
  then have "cheapest_provider t reg None = hd (sort_key (cost_or (10 / 100)) ?cs)"
    by (simp add: cheapest_provider_def Let_def)
  with hd_sort_key_min [OF ne assms] show ?thesis by simp
qed

end
