(* ===== verification/Executor_Coordination.thy ===== *)
theory Executor_Coordination
  imports Executor_Router
begin

text \<open>
  The child record of \<open>backend/code_requests/executor_models.py\<close> and the coordination checks of
  \<open>executor_coordination.py\<close>: the roster of agents, the claim check before a dispatch, posting and
  releasing the lease of a child, and the validation of a pull request's metadata. The claim store
  is outside this code: its answers are function arguments, and a call that changes it is recorded
  as a value of \<open>lease_call\<close>.
\<close>

section \<open>Children\<close>

datatype child_state = Queued | Claimed | PrOpen | CI | Merged | Failed | Blocked | PausedForHuman

record acceptance_check =
  ac_criterion :: string
  ac_passed :: bool
  ac_evidence :: string
  ac_source :: string
  ac_recorded_by :: string

record child_payload =
  pl_key :: string
  pl_title :: string
  pl_repository :: string
  pl_issue_number :: "int option"
  pl_dependencies :: "string list"
  pl_tier :: executor_tier
  pl_task_class :: string
  pl_complexity :: string
  pl_turnover_doc :: string
  pl_handoff :: string
  pl_acceptance_criteria :: "string list"

record child_record =
  ch_key :: string
  ch_repository :: string
  ch_title :: string
  ch_issue_number :: "int option"
  ch_dependencies :: "string list"
  ch_tier :: executor_tier
  ch_task_class :: string
  ch_complexity :: string
  ch_state :: child_state
  ch_agent :: "string option"
  ch_attempts :: nat
  ch_cost :: rat
  ch_pr_number :: "int option"
  ch_pr_status :: "string option"
  ch_handoff :: string
  ch_error_reasons :: "string list"
  ch_turnover_doc :: string
  ch_wave :: nat
  ch_escalation_history :: "(executor_tier \<times> executor_tier) list"
  ch_lease_receipt :: "string option"
  ch_acceptance_criteria :: "string list"
  ch_acceptance_checks :: "acceptance_check list"

record execution_config =
  max_concurrent_per_repo :: nat
  lease_ttl_seconds :: nat
  max_tier_attempts :: nat
  auto_advance_waves :: bool

text \<open>\<open>if not child.issue_number\<close>: absent or zero.\<close>

definition no_issue :: "int option \<Rightarrow> bool" where
  "no_issue i = (i = None \<or> i = Some 0)"

section \<open>Roster\<close>

definition roster_priority :: "string list" where
  "roster_priority = [''user'', ''maxwell-daemon'', ''claude'', ''codex'', ''conductor'', ''jules'', ''local'', ''gaai'']"

fun roster_scan :: "string \<Rightarrow> nat \<Rightarrow> string list \<Rightarrow> nat" where
  "roster_scan agent rank [] = length roster_priority"
| "roster_scan agent rank (m # ms) =
     (if py_contains m agent then rank else roster_scan agent (Suc rank) ms)"

definition roster_rank :: "string option \<Rightarrow> nat" where
  "roster_rank agent =
     (case str_or agent None of
        None \<Rightarrow> length roster_priority
      | Some a \<Rightarrow> roster_scan (py_lower (py_strip a)) 0 roster_priority)"

definition is_higher_priority :: "string \<Rightarrow> string \<Rightarrow> bool" where
  "is_higher_priority holder candidate = (roster_rank (Some holder) < roster_rank (Some candidate))"

section \<open>Claims and leases\<close>

datatype dispatch_reason =
    HumansOnly
  | NoIssueNumber
  | HeldBySelf string
  | HeldByHigher string
  | HeldBy string
  | Available

text \<open>
  \<open>check repo issue\<close> is the claim store's answer: whether the issue is held, and by whom (empty when
  the answer names nobody).
\<close>

type_synonym claim_check = "string \<Rightarrow> int \<Rightarrow> bool \<times> string"

definition can_dispatch_child ::
    "claim_check \<Rightarrow> string list \<Rightarrow> child_record \<Rightarrow> string \<Rightarrow> bool \<times> dispatch_reason" where
  "can_dispatch_child check labels child candidate =
     (if ''do-not-automate'' \<in> set labels then (False, HumansOnly)
      else if no_issue (ch_issue_number child) then (True, NoIssueNumber)
      else
        let (is_held, holder) = check (ch_repository child) (the (ch_issue_number child))
        in if is_held then
             (if holder \<noteq> [] \<and> py_contains (py_lower holder) (py_lower candidate)
              then (True, HeldBySelf holder)
              else if is_higher_priority holder candidate then (False, HeldByHigher holder)
              else (False, HeldBy holder))
           else (True, Available))"

text \<open>Calls that change the claim store: repository, issue, agent, session and the reason given.\<close>

datatype lease_call =
    PostLease string int string string
  | ReleaseLease string int string string string

text \<open>The poster answers with an error text or the receipt (\<open>lease_posted\<close> when it gives none).\<close>

type_synonym lease_poster = "string \<Rightarrow> int \<Rightarrow> string \<Rightarrow> string \<Rightarrow> string + string option"

definition post_child_lease ::
    "lease_poster \<Rightarrow> child_record \<Rightarrow> string \<Rightarrow> string \<Rightarrow> (string + string) \<times> lease_call list" where
  "post_child_lease poster child agent session =
     (if no_issue (ch_issue_number child) then (Inr ''simulated_lease'', [])
      else
        let i = the (ch_issue_number child)
        in (case poster (ch_repository child) i agent session of
              Inl e \<Rightarrow> Inl (''lease_error: '' @ e)
            | Inr r \<Rightarrow> Inr (the (str_or r (Some ''lease_posted''))),
            [PostLease (ch_repository child) i agent session]))"

text \<open>An error of the releaser is logged; the callers ignore the answer.\<close>

definition release_child_lease :: "child_record \<Rightarrow> string \<Rightarrow> string \<Rightarrow> string \<Rightarrow> lease_call list" where
  "release_child_lease child agent session reason =
     (if no_issue (ch_issue_number child) then []
      else [ReleaseLease (ch_repository child) (the (ch_issue_number child)) agent session reason])"

section \<open>Pull request metadata\<close>

text \<open>One attempt of \<open>FIXES_ISSUE_RE\<close> at a position: the number and the text after the match.\<close>

definition fixes_at :: "string \<Rightarrow> (nat \<times> string) option" where
  "fixes_at s =
     (case List.find (\<lambda>w. py_startswith (py_lower s) w) [''fixes'', ''closes'', ''resolves''] of
        None \<Rightarrow> None
      | Some w \<Rightarrow>
          let rest = drop (length w) s; after = dropWhile py_space rest
          in if rest = [] \<or> \<not> py_space (hd rest) \<or> after = [] \<or> hd after \<noteq> CHR ''#'' then None
             else let ds = takeWhile is_digit (tl after)
                  in if ds = [] then None else Some (digits_value ds, dropWhile is_digit (tl after)))"

lemma fixes_at_shorter: "fixes_at s = Some (n, t) \<Longrightarrow> length t < length s"
proof -
  assume "fixes_at s = Some (n, t)"
  then obtain w :: string where r: "drop (length w) s \<noteq> []"
    and t: "t = dropWhile is_digit (tl (dropWhile py_space (drop (length w) s)))"
    by (auto simp: fixes_at_def Let_def simp del: find.simps drop_eq_Nil split: option.splits if_splits)
  have "length t \<le> length (tl (dropWhile py_space (drop (length w) s)))"
    by (simp add: t length_dropWhile_le del: length_tl)
  also have "\<dots> \<le> length (drop (length w) s) - 1"
    using length_dropWhile_le [of py_space "drop (length w) s"] by simp
  also have "\<dots> < length s" using r by simp
  finally show ?thesis .
qed

function fixes_refs :: "string \<Rightarrow> nat list" where
  "fixes_refs [] = []"
| "fixes_refs (c # s) =
     (case fixes_at (c # s) of
        None \<Rightarrow> fixes_refs s
      | Some (n, t) \<Rightarrow> n # fixes_refs t)"
  by pat_completeness auto
termination
  by (relation "measure length") (auto dest: fixes_at_shorter)

datatype pr_check = MissingReference int | MissingLabel string | PrValid

definition validate_pr_submission :: "string \<Rightarrow> string list \<Rightarrow> int option \<Rightarrow> string \<Rightarrow> bool \<times> pr_check" where
  "validate_pr_submission body labels issue agent =
     (if (case issue of None \<Rightarrow> False | Some i \<Rightarrow> i \<notin> set (map int (fixes_refs body)))
      then (False, MissingReference (the issue))
      else if ''agent:'' @ agent \<notin> set labels \<and> \<not> (\<exists>l \<in> set labels. py_startswith l ''agent:'')
      then (False, MissingLabel (''agent:'' @ agent))
      else (True, PrValid))"

definition build_pr_body :: "child_record \<Rightarrow> string" where
  "build_pr_body child =
     ''## Summary'' @ [CHR 0x0A, CHR 0x0A] @ ch_title child @ [CHR 0x0A, CHR 0x0A] @
     (if no_issue (ch_issue_number child) then ''Fixes '' @ ch_key child
      else ''Fixes #'' @ nat_digits (nat (the (ch_issue_number child)))) @
     [CHR 0x0A, CHR 0x0A] @ ''## Turnover Handoff'' @ [CHR 0x0A, CHR 0x0A] @
     the (str_or (Some (ch_handoff child)) (Some (ch_turnover_doc child))) @ [CHR 0x0A]"

definition build_pr_labels :: "string \<Rightarrow> string list" where
  "build_pr_labels agent = [''agent:'' @ agent]"

end
