(* ===== verification/Executor_Waves.thy ===== *)
theory Executor_Waves
  imports Prelude
begin

text \<open>
  The dependency waves of a plan: \<open>compute_waves\<close> of \<open>backend/code_requests/executor_stage.py\<close>
  (which drops self references and references to unknown keys) and of
  \<open>backend/code_requests/plan.py\<close> (which keeps every local dependency). Both run the same loop,
  \<open>waves_from\<close>, over the keys in plan order and the set of keys resolved so far. The lemmas show
  that the loop ends, that its result is a partition of the keys in which every dependency lies in an
  earlier wave, and that it fails exactly when a key is repeated or the dependencies have a cycle.
\<close>

section \<open>The loop\<close>

text \<open>\<open>Inl\<close> carries the keys that could not be resolved.\<close>

function waves_from ::
    "(string \<Rightarrow> string list) \<Rightarrow> string list \<Rightarrow> string set \<Rightarrow> string list + string list list" where
  "waves_from deps order resolved =
     (if card resolved < length order then
        (let wave = filter (\<lambda>k. k \<notin> resolved \<and> set (deps k) \<subseteq> resolved) order
         in if wave = [] then Inl (filter (\<lambda>k. k \<notin> resolved) order)
            else (case waves_from deps order (resolved \<union> set wave) of
                    Inl stuck \<Rightarrow> Inl stuck
                  | Inr waves \<Rightarrow> Inr (wave # waves)))
      else Inr [])"
  by pat_completeness auto
termination
proof (relation "measure (\<lambda>(deps, order, resolved). length (filter (\<lambda>k. k \<notin> resolved) order))", goal_cases)
  case 1
  show ?case by simp
next
  case (2 deps order resolved wave)
  then have "wave \<noteq> []" by simp
  then obtain k where kw: "k \<in> set wave" by (meson list.set_sel(1))
  with 2 have "k \<in> set order" and "k \<notin> resolved" and "k \<in> set wave" by auto
  then have "length (filter (\<lambda>k. k \<notin> resolved \<union> set wave) order) < length (filter (\<lambda>k. k \<notin> resolved) order)"
  proof -
    have "filter (\<lambda>k. k \<notin> resolved \<union> set wave) order =
        filter (\<lambda>k. k \<notin> set wave) (filter (\<lambda>k. k \<notin> resolved) order)"
      by (simp add: conj_commute)
    moreover have "length (filter (\<lambda>k. k \<notin> set wave) (filter (\<lambda>k. k \<notin> resolved) order)) <
        length (filter (\<lambda>k. k \<notin> resolved) order)"
      by (rule length_filter_less [where x = k]) (use \<open>k \<in> set order\<close> \<open>k \<notin> resolved\<close> \<open>k \<in> set wave\<close> in auto)
    ultimately show ?thesis by simp
  qed
  then show ?case by simp
qed

declare waves_from.simps [simp del]

section \<open>The two callers\<close>

text \<open>The executor's: children as pairs of key and dependencies; the last entry of a key wins.\<close>

definition executor_deps :: "(string \<times> string list) list \<Rightarrow> string \<Rightarrow> string list" where
  "executor_deps children k =
     (case map_of (rev children) k of
        None \<Rightarrow> []
      | Some ds \<Rightarrow> filter (\<lambda>d. d \<in> set (map fst children) \<and> d \<noteq> k) ds)"

definition compute_waves :: "(string \<times> string list) list \<Rightarrow> string list + string list list" where
  "compute_waves children = waves_from (executor_deps children) (map fst children) {}"

text \<open>
  The plan's: \<open>EXTERNAL_REF\<close> matches \<open>#12\<close> and \<open>owner/repo#12\<close>; the pattern's end also matches
  before a final newline.
\<close>

definition ref_char :: "char \<Rightarrow> bool" where
  "ref_char c = (let n = (of_char c :: nat) in
     (65 \<le> n \<and> n \<le> 90) \<or> (97 \<le> n \<and> n \<le> 122) \<or> (48 \<le> n \<and> n \<le> 57) \<or> n = 95 \<or> n = 46 \<or> n = 45)"

definition external_ref :: "string \<Rightarrow> bool" where
  "external_ref d =
     (let pre = takeWhile (\<lambda>c. c \<noteq> CHR ''#'') d;
          rest = dropWhile (\<lambda>c. c \<noteq> CHR ''#'') d;
          digits = (if rest \<noteq> [] \<and> last rest = CHR 0x0A then butlast (tl rest) else tl rest);
          owner = takeWhile (\<lambda>c. c \<noteq> CHR ''/'') pre;
          repo = tl (dropWhile (\<lambda>c. c \<noteq> CHR ''/'') pre)
      in rest \<noteq> [] \<and> digits \<noteq> [] \<and> list_all is_digit digits \<and>
         (pre = [] \<or> (owner \<noteq> [] \<and> repo \<noteq> [] \<and> list_all ref_char owner \<and> list_all ref_char repo)))"

definition local_dependencies :: "string list \<Rightarrow> string list" where
  "local_dependencies ds = filter (\<lambda>d. \<not> external_ref d) ds"

definition plan_deps :: "(string \<times> string list) list \<Rightarrow> string \<Rightarrow> string list" where
  "plan_deps children k =
     (case map_of (rev children) k of None \<Rightarrow> [] | Some ds \<Rightarrow> local_dependencies ds)"

definition compute_plan_waves :: "(string \<times> string list) list \<Rightarrow> string list + string list list" where
  "compute_plan_waves children =
     (case waves_from (plan_deps children) (map fst children) {} of
        Inl stuck \<Rightarrow> Inl (sort stuck)
      | Inr waves \<Rightarrow> Inr waves)"

section \<open>The result is an ordered partition\<close>

lemma waves_from_Inr_partition:
  "waves_from deps order R = Inr ws \<Longrightarrow> R \<subseteq> set order \<Longrightarrow>
     distinct order \<and> R \<union> set (concat ws) = set order \<and> R \<inter> set (concat ws) = {} \<and> distinct (concat ws)"
proof (induction deps order R arbitrary: ws rule: waves_from.induct)
  case (1 deps order R)
  let ?wave = "filter (\<lambda>k. k \<notin> R \<and> set (deps k) \<subseteq> R) order"
  show ?case
  proof (cases "card R < length order")
    case False
    have "card R \<le> card (set order)" using "1.prems"(2) by (simp add: card_mono)
    then have "card (set order) = length order" and "card R = card (set order)"
      using False card_length [of order] by linarith+
    then have "distinct order" and "R = set order"
      using card_subset_eq [OF finite_set "1.prems"(2)] by (simp_all add: card_distinct)
    moreover have "ws = []" using False "1.prems"(1) by (simp add: waves_from.simps [of deps order R])
    ultimately show ?thesis by simp
  next
    case True
    then have ne: "?wave \<noteq> []"
      using "1.prems"(1) by (auto simp: waves_from.simps [of deps order R] Let_def split: if_splits)
    then obtain ws' where ws': "waves_from deps order (R \<union> set ?wave) = Inr ws'" "ws = ?wave # ws'"
      using True "1.prems"(1)
      by (auto simp: waves_from.simps [of deps order R] Let_def split: sum.splits)
    have "R \<union> set ?wave \<subseteq> set order" using "1.prems"(2) by auto
    with "1.IH" [OF True refl ne ws'(1)]
    have IH: "distinct order" "R \<union> set ?wave \<union> set (concat ws') = set order"
      "(R \<union> set ?wave) \<inter> set (concat ws') = {}" "distinct (concat ws')" by auto
    have "distinct ?wave" using IH(1) by simp
    moreover have "R \<inter> set ?wave = {}" by auto
    ultimately show ?thesis using IH ws'(2) by (auto simp: Un_assoc)
  qed
qed

lemma waves_from_deps:
  "waves_from deps order R = Inr ws \<Longrightarrow> i < length ws \<Longrightarrow> k \<in> set (ws ! i) \<Longrightarrow>
     set (deps k) \<subseteq> R \<union> set (concat (take i ws))"
proof (induction deps order R arbitrary: ws i rule: waves_from.induct)
  case (1 deps order R)
  let ?wave = "filter (\<lambda>k. k \<notin> R \<and> set (deps k) \<subseteq> R) order"
  have True: "card R < length order"
    using "1.prems"(1,2) by (auto simp: waves_from.simps [of deps order R] split: if_splits)
  then have ne: "?wave \<noteq> []"
    using "1.prems"(1) by (auto simp: waves_from.simps [of deps order R] Let_def split: if_splits)
  then obtain ws' where ws': "waves_from deps order (R \<union> set ?wave) = Inr ws'" "ws = ?wave # ws'"
    using True "1.prems"(1)
    by (auto simp: waves_from.simps [of deps order R] Let_def split: sum.splits)
  show ?case
  proof (cases i)
    case 0
    with "1.prems"(3) ws'(2) show ?thesis by auto
  next
    case (Suc j)
    with "1.prems" ws'(2) have "j < length ws'" and "k \<in> set (ws' ! j)" by auto
    from "1.IH" [OF True refl ne ws'(1) this] Suc ws'(2) show ?thesis by auto
  qed
qed

section \<open>The loop fails only on a cycle or a repeated key\<close>

definition dep_edges :: "(string \<Rightarrow> string list) \<Rightarrow> string list \<Rightarrow> (string \<times> string) set" where
  "dep_edges deps order = {(d, k). k \<in> set order \<and> d \<in> set (deps k)}"

lemma finite_dep_edges: "finite (dep_edges deps order)"
proof -
  have "dep_edges deps order = (\<Union>k \<in> set order. (\<lambda>d. (d, k)) ` set (deps k))"
    by (auto simp: dep_edges_def)
  then show ?thesis by simp
qed

lemma waves_from_complete:
  assumes "distinct order" and "acyclic (dep_edges deps order)"
    and "\<And>k. k \<in> set order \<Longrightarrow> set (deps k) \<subseteq> set order" and "R \<subseteq> set order"
  shows "\<exists>ws. waves_from deps order R = Inr ws"
  using assms
proof (induction deps order R rule: waves_from.induct)
  case (1 deps order R)
  let ?wave = "filter (\<lambda>k. k \<notin> R \<and> set (deps k) \<subseteq> R) order"
  show ?case
  proof (cases "card R < length order")
    case False
    then show ?thesis by (simp add: waves_from.simps [of deps order R])
  next
    case True
    then have "R \<noteq> set order" using "1.prems"(1) by (auto simp: distinct_card)
    then obtain k0 where k0: "k0 \<in> {k. k \<in> set order \<and> k \<notin> R}" using "1.prems"(4) by auto
    have "wf (dep_edges deps order)"
      using "1.prems"(2) finite_dep_edges by (simp add: finite_acyclic_wf)
    from wfE_min [OF this k0] obtain k where k: "k \<in> set order" "k \<notin> R"
      and min: "\<And>d. (d, k) \<in> dep_edges deps order \<Longrightarrow> \<not> (d \<in> set order \<and> d \<notin> R)" by auto
    then have "set (deps k) \<subseteq> R" using "1.prems"(3) [OF k(1)] by (auto simp: dep_edges_def)
    with k have "k \<in> set ?wave" by simp
    then have ne: "?wave \<noteq> []" by (metis empty_iff list.set(1))
    have "\<exists>ws. waves_from deps order (R \<union> set ?wave) = Inr ws"
      by (rule "1.IH" [OF True refl ne]) (use "1.prems" in auto)
    with True ne show ?thesis by (auto simp: waves_from.simps [of deps order R] Let_def)
  qed
qed

section \<open>The wave of a key\<close>

text \<open>The index \<open>initialize\<close> records for each key in \<open>wave_map\<close>.\<close>

fun wave_of :: "string list list \<Rightarrow> string \<Rightarrow> nat" where
  "wave_of [] k = 0"
| "wave_of (w # ws) k = (if k \<in> set w then 0 else Suc (wave_of ws k))"

lemma wave_of_less: "k \<in> set (concat ws) \<Longrightarrow> wave_of ws k < length ws \<and> k \<in> set (ws ! wave_of ws k)"
  by (induction ws) auto

lemma wave_of_take: "d \<in> set (concat (take i ws)) \<Longrightarrow> wave_of ws d < i"
proof (induction ws arbitrary: i)
  case Nil
  then show ?case by simp
next
  case (Cons w ws)
  then show ?case by (cases i) auto
qed

lemma waves_from_ordered:
  assumes "waves_from deps order {} = Inr ws" and "k \<in> set order" and "d \<in> set (deps k)"
  shows "wave_of ws d < wave_of ws k"
proof -
  have "set (concat ws) = set order"
    using waves_from_Inr_partition [OF assms(1)] by simp
  with assms(2) have "wave_of ws k < length ws" and "k \<in> set (ws ! wave_of ws k)"
    using wave_of_less by blast+
  from waves_from_deps [OF assms(1) this] assms(3)
  have "d \<in> set (concat (take (wave_of ws k) ws))" by blast
  then show ?thesis by (rule wave_of_take)
qed

lemma waves_from_acyclic:
  assumes "waves_from deps order {} = Inr ws"
  shows "acyclic (dep_edges deps order)"
proof -
  have "dep_edges deps order \<subseteq> measure (wave_of ws)"
    using waves_from_ordered [OF assms] by (auto simp: dep_edges_def)
  then have "wf (dep_edges deps order)" by (rule wf_subset [OF wf_measure])
  then show ?thesis by (rule wf_acyclic)
qed

lemma waves_from_iff:
  assumes "\<And>k. k \<in> set order \<Longrightarrow> set (deps k) \<subseteq> set order"
  shows "(\<exists>ws. waves_from deps order {} = Inr ws) \<longleftrightarrow> distinct order \<and> acyclic (dep_edges deps order)"
proof
  assume "\<exists>ws. waves_from deps order {} = Inr ws"
  then obtain ws where ws: "waves_from deps order {} = Inr ws" by blast
  from waves_from_Inr_partition [OF ws] waves_from_acyclic [OF ws]
  show "distinct order \<and> acyclic (dep_edges deps order)" by simp
next
  assume "distinct order \<and> acyclic (dep_edges deps order)"
  with assms show "\<exists>ws. waves_from deps order {} = Inr ws" by (intro waves_from_complete) auto
qed

lemma waves_from_cong:
  assumes "\<And>k. k \<in> set order \<Longrightarrow> set (deps k) = set (deps' k)"
  shows "waves_from deps order R = waves_from deps' order R"
  using assms
proof (induction deps order R rule: waves_from.induct)
  case (1 deps order R)
  let ?wave = "filter (\<lambda>k. k \<notin> R \<and> set (deps k) \<subseteq> R) order"
  have w: "filter (\<lambda>k. k \<notin> R \<and> set (deps' k) \<subseteq> R) order = ?wave"
    by (rule filter_cong) (use "1.prems" in auto)
  show ?case
  proof (cases "card R < length order \<and> ?wave \<noteq> []")
    case True
    then have "waves_from deps order (R \<union> set ?wave) = waves_from deps' order (R \<union> set ?wave)"
      by (intro "1.IH") (use "1.prems" in auto)
    with True show ?thesis
      by (simp add: waves_from.simps [of deps order R] waves_from.simps [of deps' order R] w Let_def del: filter_empty_conv)
  next
    case False
    then show ?thesis
      by (simp add: waves_from.simps [of deps order R] waves_from.simps [of deps' order R] w Let_def del: filter_empty_conv)
  qed
qed

lemma compute_plan_waves_closed:
  assumes "compute_plan_waves children = Inr ws" and "k \<in> set (map fst children)"
  shows "set (plan_deps children k) \<subseteq> set (map fst children)"
proof -
  have w: "waves_from (plan_deps children) (map fst children) {} = Inr ws"
    using assms(1) by (simp add: compute_plan_waves_def split: sum.splits)
  have all: "set (concat ws) = set (map fst children)" using waves_from_Inr_partition [OF w] by simp
  with assms(2) have "wave_of ws k < length ws" "k \<in> set (ws ! wave_of ws k)"
    using wave_of_less by blast+
  from waves_from_deps [OF w this] have "set (plan_deps children k) \<subseteq> set (concat ws)"
    by (auto dest: in_set_takeD)
  with all show ?thesis by simp
qed

section \<open>Properties\<close>

lemma executor_deps_sub: "set (executor_deps children k) \<subseteq> set (map fst children) - {k}"
  by (auto simp: executor_deps_def split: option.splits)

text \<open>The executor's wave computation ends in waves exactly when no key is repeated and the
  dependencies it keeps have no cycle; every other input is reported as a cycle.\<close>

theorem compute_waves_iff:
  "(\<exists>ws. compute_waves children = Inr ws) \<longleftrightarrow>
     distinct (map fst children) \<and> acyclic (dep_edges (executor_deps children) (map fst children))"
  unfolding compute_waves_def by (rule waves_from_iff) (use executor_deps_sub in blast)

text \<open>The waves are a partition of the children in which each child comes strictly after every
  sibling it depends on.\<close>

theorem compute_waves_sound:
  assumes "compute_waves children = Inr ws"
  shows "distinct (concat ws) \<and> set (concat ws) = set (map fst children) \<and>
     (\<forall>(k, ds) \<in> set children. \<forall>d \<in> set ds. d \<in> set (map fst children) \<longrightarrow> d \<noteq> k \<longrightarrow>
        wave_of ws d < wave_of ws k)"
proof -
  note w = assms [unfolded compute_waves_def]
  from waves_from_Inr_partition [OF w]
  have p: "distinct (map fst children)" "set (concat ws) = set (map fst children)" "distinct (concat ws)" by auto
  have "wave_of ws d < wave_of ws k"
    if "(k, ds) \<in> set children" "d \<in> set ds" "d \<in> set (map fst children)" "d \<noteq> k" for k ds d
  proof (rule waves_from_ordered [OF w])
    show "k \<in> set (map fst children)" using that(1) by force
    have "map_of (rev children) k = Some ds"
      using p(1) that(1) by (simp add: rev_map [symmetric])
    with that show "d \<in> set (executor_deps children k)" by (simp add: executor_deps_def)
  qed
  with p show ?thesis by blast
qed

theorem compute_waves_sound_witness:
  "compute_waves [(''b'', [''a'', ''x'']), (''a'', [])] = Inr [[''a''], [''b'']] \<and>
   wave_of [[''a''], [''b'']] ''a'' < wave_of [[''a''], [''b'']] ''b''"
proof -
  have w: "compute_waves [(''b'', [''a'', ''x'']), (''a'', [])] = Inr [[''a''], [''b'']]"
    by code_simp
  have "\<forall>(k, ds) \<in> set [(''b'', [''a'', ''x'']), (''a'', [])]. \<forall>d \<in> set ds.
      d \<in> set (map fst [(''b'', [''a'', ''x'']), (''a'', [])]) \<longrightarrow> d \<noteq> k \<longrightarrow>
      wave_of [[''a''], [''b'']] d < wave_of [[''a''], [''b'']] k"
    using compute_waves_sound [OF w] by blast
  with w show ?thesis by simp
qed

text \<open>The plan's wave computation rejects every plan whose dependencies name an unknown key, the
  child itself, or form a cycle, and accepts the others with distinct keys.\<close>

theorem compute_plan_waves_iff:
  "(\<exists>ws. compute_plan_waves children = Inr ws) \<longleftrightarrow>
     distinct (map fst children) \<and>
     (\<forall>k \<in> set (map fst children). set (plan_deps children k) \<subseteq> set (map fst children)) \<and>
     acyclic (dep_edges (plan_deps children) (map fst children))"
proof -
  let ?d = "plan_deps children" and ?o = "map fst children"
  have red: "(\<exists>ws. compute_plan_waves children = Inr ws) \<longleftrightarrow> (\<exists>ws. waves_from ?d ?o {} = Inr ws)"
    by (auto simp: compute_plan_waves_def split: sum.split)
  show ?thesis
  proof (cases "\<forall>k \<in> set ?o. set (?d k) \<subseteq> set ?o")
    case True
    then have "(\<exists>ws. waves_from ?d ?o {} = Inr ws) \<longleftrightarrow> distinct ?o \<and> acyclic (dep_edges ?d ?o)"
      by (intro waves_from_iff) auto
    with red True show ?thesis by simp
  next
    case False
    then obtain k where k: "k \<in> set ?o" "\<not> set (?d k) \<subseteq> set ?o" by blast
    have "waves_from ?d ?o {} \<noteq> Inr ws" for ws
    proof
      assume "waves_from ?d ?o {} = Inr ws"
      then have "compute_plan_waves children = Inr ws" by (simp add: compute_plan_waves_def)
      from compute_plan_waves_closed [OF this k(1)] k(2) show False by simp
    qed
    with red False show ?thesis by blast
  qed
qed

end
