(* ===== verification/Executor_Stage.thy ===== *)
theory Executor_Stage
  imports Executor_Coordination Executor_Waves
begin

text \<open>
  \<open>ExecutorPipeline\<close> of \<open>backend/code_requests/executor_stage.py\<close>: the children of a plan in
  dictionary order, the waves, the branches paused for a human, the audit log and the calls made to
  the claim store. One definition per method; the routes \<open>dispatch\<close> and \<open>report-child\<close> of
  \<open>backend/routers/code_requests_executor.py\<close> are composed from them. A \<open>KeyError\<close> of the code is the
  result \<open>None\<close>; a loop that never ends is \<open>None\<close> of \<open>pause_dependent_branches\<close>.
\<close>

section \<open>State\<close>

datatype audit_entry =
    AInitialized nat nat
  | ADispatchSkipped string dispatch_reason
  | ALeaseFailed string string
  | ADispatched string string executor_tier route_reason
  | APrOpened string int
  | AMerged string rat
  | AEscalated string nat executor_tier executor_tier
  | ABranchPaused string
  | ARetry string nat nat
  | ABlocked string string
  | AWaveAdvanced nat

record pipeline =
  code_request_id :: string
  config :: execution_config
  session_id :: string
  children :: "child_record list"
  waves :: "string list list"
  current_wave_idx :: nat
  paused_branches :: "string set"
  audit_log :: "audit_entry list"
  lease_calls :: "lease_call list"

definition new_pipeline :: "string \<Rightarrow> execution_config \<Rightarrow> string \<Rightarrow> pipeline" where
  "new_pipeline cr cfg sid =
     \<lparr>code_request_id = cr, config = cfg, session_id = sid, children = [], waves = [], current_wave_idx = 0,
      paused_branches = {}, audit_log = [], lease_calls = []\<rparr>"

text \<open>\<open>self.children.get(key)\<close>, and a change of the record it returns.\<close>

definition child_of :: "pipeline \<Rightarrow> string \<Rightarrow> child_record option" where
  "child_of p k = row_lookup ch_key k (children p)"

definition set_child :: "string \<Rightarrow> (child_record \<Rightarrow> child_record) \<Rightarrow> pipeline \<Rightarrow> pipeline" where
  "set_child k f p = p\<lparr>children := row_update ch_key k f (children p)\<rparr>"

definition audit :: "audit_entry \<Rightarrow> pipeline \<Rightarrow> pipeline" where
  "audit e p = p\<lparr>audit_log := audit_log p @ [e]\<rparr>"

definition call_leases :: "lease_call list \<Rightarrow> pipeline \<Rightarrow> pipeline" where
  "call_leases cs p = p\<lparr>lease_calls := lease_calls p @ cs\<rparr>"

text \<open>\<open>self.children[p.key] = rec\<close>.\<close>

definition put_child :: "child_record \<Rightarrow> child_record list \<Rightarrow> child_record list" where
  "put_child c cs =
     (if ch_key c \<in> set (map ch_key cs) then row_update ch_key (ch_key c) (\<lambda>_. c) cs else cs @ [c])"

section \<open>Initialization\<close>

definition child_from_payload :: "string list list \<Rightarrow> child_payload \<Rightarrow> child_record" where
  "child_from_payload ws pl =
     \<lparr>ch_key = pl_key pl, ch_repository = pl_repository pl, ch_title = pl_title pl,
      ch_issue_number = pl_issue_number pl, ch_dependencies = pl_dependencies pl, ch_tier = pl_tier pl,
      ch_task_class = pl_task_class pl, ch_complexity = pl_complexity pl, ch_state = Queued,
      ch_agent = None, ch_attempts = 0, ch_cost = 0, ch_pr_number = None, ch_pr_status = None,
      ch_handoff = (if pl_handoff pl = [] then pl_turnover_doc pl else pl_handoff pl),
      ch_error_reasons = [], ch_turnover_doc = pl_turnover_doc pl,
      ch_wave = (if pl_key pl \<in> set (concat ws) then wave_of ws (pl_key pl) else 0),
      ch_escalation_history = [], ch_lease_receipt = None,
      ch_acceptance_criteria = pl_acceptance_criteria pl, ch_acceptance_checks = []\<rparr>"

datatype init_error = DependencyCycle "string list" | NoCriteria string

fun register_children ::
    "string list list \<Rightarrow> child_payload list \<Rightarrow> child_record list \<Rightarrow> init_error option \<times> child_record list" where
  "register_children ws [] cs = (None, cs)"
| "register_children ws (pl # pls) cs =
     (if pl_acceptance_criteria pl = [] then (Some (NoCriteria (pl_key pl)), cs)
      else register_children ws pls (put_child (child_from_payload ws pl) cs))"

text \<open>The pipeline keeps what was assigned before an error was raised.\<close>

definition initialize :: "child_payload list \<Rightarrow> pipeline \<Rightarrow> init_error option \<times> pipeline" where
  "initialize payloads p =
     (case compute_waves (map (\<lambda>pl. (pl_key pl, pl_dependencies pl)) payloads) of
        Inl stuck \<Rightarrow> (Some (DependencyCycle stuck), p)
      | Inr ws \<Rightarrow>
          let p1 = p\<lparr>waves := ws, children := [], paused_branches := {}, current_wave_idx := 0\<rparr>;
              (err, cs) = register_children ws payloads [];
              p2 = p1\<lparr>children := cs\<rparr>
          in case err of
               Some e \<Rightarrow> (Some e, p2)
             | None \<Rightarrow> (None, audit (AInitialized (length cs) (length ws)) p2))"

section \<open>Ready children\<close>

definition deps_merged :: "pipeline \<Rightarrow> child_record \<Rightarrow> bool" where
  "deps_merged p c =
     (\<forall>d \<in> set (ch_dependencies c). case child_of p d of None \<Rightarrow> True | Some r \<Rightarrow> ch_state r = Merged)"

definition is_child_ready :: "string \<Rightarrow> pipeline \<Rightarrow> bool" where
  "is_child_ready k p =
     (case child_of p k of
        None \<Rightarrow> False
      | Some c \<Rightarrow> ch_state c = Queued \<and> k \<notin> paused_branches p \<and> deps_merged p c)"

definition active_state :: "child_state \<Rightarrow> bool" where
  "active_state s = (s \<in> {Claimed, PrOpen, CI})"

text \<open>Children of a repository that hold a slot.\<close>

definition active_count :: "pipeline \<Rightarrow> string \<Rightarrow> nat" where
  "active_count p repo = row_count (\<lambda>c. active_state (ch_state c) \<and> ch_repository c = repo) (children p)"

text \<open>The scan of the current wave; \<open>counts\<close> is \<open>active_counts\<close>.\<close>

fun ready_scan :: "pipeline \<Rightarrow> (string \<Rightarrow> nat) \<Rightarrow> string list \<Rightarrow> child_record list option" where
  "ready_scan p counts [] = Some []"
| "ready_scan p counts (k # ks) =
     (case child_of p k of
        None \<Rightarrow> None
      | Some c \<Rightarrow>
          if is_child_ready k p \<and> counts (ch_repository c) < max_concurrent_per_repo (config p)
          then map_option (\<lambda>rs. c # rs)
                 (ready_scan p (counts(ch_repository c := Suc (counts (ch_repository c)))) ks)
          else ready_scan p counts ks)"

definition get_ready_children :: "pipeline \<Rightarrow> child_record list option" where
  "get_ready_children p =
     (if length (waves p) \<le> current_wave_idx p then Some []
      else ready_scan p (active_count p) (waves p ! current_wave_idx p))"

section \<open>Dispatch\<close>

text \<open>What a dispatch reads from outside: the pinned profile and the budget left of the request, the
  provider registry, and the claim store.\<close>

record exec_env =
  env_pinned :: "string option"
  env_budget :: "rat option"
  env_registry :: "(string, bool) dict"
  env_check :: claim_check
  env_poster :: lease_poster

datatype dispatch_result =
    ChildNotFound string
  | ChildNotReady string
  | DispatchRefused dispatch_reason
  | LeaseFailed string
  | DispatchedTo string

definition dispatch_child :: "exec_env \<Rightarrow> string \<Rightarrow> pipeline \<Rightarrow> dispatch_result \<times> pipeline" where
  "dispatch_child env k p =
     (case child_of p k of
        None \<Rightarrow> (ChildNotFound k, p)
      | Some c \<Rightarrow>
          if \<not> is_child_ready k p then (ChildNotReady k, p)
          else
            let (provider, tier, route) =
                  resolve_child_executor (ch_tier c) (env_pinned env) (env_registry env) (env_budget env);
                c1 = c\<lparr>ch_agent := Some provider, ch_tier := tier\<rparr>;
                p1 = set_child k (\<lambda>_. c1) p;
                (ok, reason) = can_dispatch_child (env_check env) [] c1 provider
            in if \<not> ok then (DispatchRefused reason, audit (ADispatchSkipped k reason) p1)
               else
                 let (res, calls) = post_child_lease (env_poster env) c1 provider (session_id p);
                     p2 = call_leases calls p1
                 in case res of
                      Inl e \<Rightarrow> (LeaseFailed e, audit (ALeaseFailed k e) p2)
                    | Inr receipt \<Rightarrow>
                        (DispatchedTo provider,
                         audit (ADispatched k provider tier route)
                           (set_child k (\<lambda>_. c1\<lparr>ch_lease_receipt := Some receipt, ch_state := Claimed\<rparr>) p2)))"

text \<open>The dispatch route: explicit keys, or the ready children of the current wave.\<close>

fun dispatch_all :: "exec_env \<Rightarrow> string list \<Rightarrow> pipeline \<Rightarrow> (string \<times> dispatch_result) list \<times> pipeline" where
  "dispatch_all env [] p = ([], p)"
| "dispatch_all env (k # ks) p =
     (let (r, p1) = dispatch_child env k p; (rs, p2) = dispatch_all env ks p1 in ((k, r) # rs, p2))"

definition dispatch_executor ::
    "exec_env \<Rightarrow> string list \<Rightarrow> pipeline \<Rightarrow> ((string \<times> dispatch_result) list \<times> pipeline) option" where
  "dispatch_executor env keys p =
     (if keys \<noteq> [] then Some (dispatch_all env keys p)
      else case get_ready_children p of
             None \<Rightarrow> None
           | Some cs \<Rightarrow> Some (dispatch_all env (map ch_key cs) p))"

section \<open>Reports\<close>

text \<open>A pull request with faulty metadata is only logged.\<close>

definition report_pr_opened :: "string \<Rightarrow> int \<Rightarrow> pipeline \<Rightarrow> bool \<times> pipeline" where
  "report_pr_opened k n p =
     (case child_of p k of
        None \<Rightarrow> (False, p)
      | Some c \<Rightarrow>
          (True, audit (APrOpened k n) (set_child k (\<lambda>c. c\<lparr>ch_pr_number := Some n, ch_state := PrOpen\<rparr>) p)))"

definition report_ci_status :: "string \<Rightarrow> string \<Rightarrow> pipeline \<Rightarrow> pipeline" where
  "report_ci_status k status p =
     set_child k
       (\<lambda>c. let c1 = c\<lparr>ch_pr_status := Some status\<rparr>
            in if py_lower status \<in> {''in_progress'', ''pending'', ''running''} then c1\<lparr>ch_state := CI\<rparr> else c1) p"

text \<open>\<open>all(...)\<close> over the wave stops at the first child that is not merged.\<close>

fun wave_merged :: "pipeline \<Rightarrow> string list \<Rightarrow> bool option" where
  "wave_merged p [] = Some True"
| "wave_merged p (k # ks) =
     (case child_of p k of
        None \<Rightarrow> None
      | Some c \<Rightarrow> if ch_state c = Merged then wave_merged p ks else Some False)"

definition check_and_advance_wave :: "pipeline \<Rightarrow> pipeline option" where
  "check_and_advance_wave p =
     (if \<not> auto_advance_waves (config p) \<or> length (waves p) \<le> current_wave_idx p then Some p
      else case wave_merged p (waves p ! current_wave_idx p) of
             None \<Rightarrow> None
           | Some False \<Rightarrow> Some p
           | Some True \<Rightarrow>
               Some (audit (AWaveAdvanced (Suc (current_wave_idx p)))
                       (p\<lparr>current_wave_idx := Suc (current_wave_idx p)\<rparr>)))"

definition release_if_held :: "child_record \<Rightarrow> string \<Rightarrow> pipeline \<Rightarrow> pipeline" where
  "release_if_held c reason p =
     (case str_or (ch_agent c) None of
        None \<Rightarrow> p
      | Some a \<Rightarrow> call_leases (release_child_lease c a (session_id p) reason) p)"

definition report_merged :: "string \<Rightarrow> rat \<Rightarrow> pipeline \<Rightarrow> pipeline option" where
  "report_merged k cost p =
     (case child_of p k of
        None \<Rightarrow> Some p
      | Some c \<Rightarrow>
          let c1 = c\<lparr>ch_state := Merged, ch_cost := ch_cost c + max 0 cost\<rparr>
          in check_and_advance_wave
               (audit (AMerged k (ch_cost c1)) (release_if_held c1 ''merged'' (set_child k (\<lambda>_. c1) p))))"

section \<open>Failures\<close>

text \<open>One pass over the children for one visited key: the blocked children, in order.\<close>

fun block_children :: "string \<Rightarrow> child_record list \<Rightarrow> child_record list \<times> string list" where
  "block_children cur [] = ([], [])"
| "block_children cur (c # cs) =
     (let (cs', ks) = block_children cur cs
      in if cur \<in> set (ch_dependencies c) \<and> ch_state c \<noteq> Merged
         then (c\<lparr>ch_state := Blocked\<rparr> # cs', ch_key c # ks)
         else (c # cs', ks))"

definition block_step :: "string \<Rightarrow> pipeline \<Rightarrow> string list \<times> pipeline" where
  "block_step cur p =
     (let (cs, ks) = block_children cur (children p)
      in (ks, p\<lparr>children := cs, paused_branches := paused_branches p \<union> set ks,
                audit_log := audit_log p @ map (\<lambda>k. ABlocked k cur) ks\<rparr>))"

text \<open>\<open>_pause_dependent_branches\<close>: the work list of visited keys.\<close>

partial_function (option) pause_loop :: "string list \<Rightarrow> pipeline \<Rightarrow> pipeline option" where
  "pause_loop to_visit p =
     (case to_visit of
        [] \<Rightarrow> Some p
      | cur # rest \<Rightarrow> pause_loop (rest @ fst (block_step cur p)) (snd (block_step cur p)))"

definition pause_dependent_branches :: "string \<Rightarrow> pipeline \<Rightarrow> pipeline option" where
  "pause_dependent_branches k p = pause_loop [k] p"

definition report_failed :: "string \<Rightarrow> string \<Rightarrow> rat \<Rightarrow> string \<Rightarrow> pipeline \<Rightarrow> pipeline option" where
  "report_failed k reason cost updated_handoff p =
     (case child_of p k of
        None \<Rightarrow> Some p
      | Some c \<Rightarrow>
          let c1 = c\<lparr>ch_cost := ch_cost c + max 0 cost, ch_attempts := Suc (ch_attempts c),
                     ch_error_reasons := ch_error_reasons c @ [reason],
                     ch_handoff := (if updated_handoff = [] then ch_handoff c else updated_handoff)\<rparr>;
              p1 = release_if_held c1 (''failed: '' @ reason) (set_child k (\<lambda>_. c1) p);
              cap = max_tier_attempts (config p)
          in if cap \<le> ch_attempts c1 then
               (case escalate_tier (ch_tier c1) of
                  Some t \<Rightarrow>
                    Some (audit (AEscalated k cap (ch_tier c1) t)
                      (set_child k (\<lambda>_. c1\<lparr>ch_tier := t, ch_attempts := 0,
                           ch_escalation_history := ch_escalation_history c1 @ [(ch_tier c1, t)],
                           ch_state := Queued\<rparr>) p1))
                | None \<Rightarrow>
                    let p2 = set_child k (\<lambda>_. c1\<lparr>ch_state := PausedForHuman\<rparr>) p1;
                        p3 = p2\<lparr>paused_branches := insert k (paused_branches p2)\<rparr>
                    in map_option (audit (ABranchPaused k)) (pause_dependent_branches k p3))
             else Some (audit (ARetry k (ch_attempts c1) cap) (set_child k (\<lambda>_. c1\<lparr>ch_state := Queued\<rparr>) p1)))"

section \<open>Snapshots and the rollup\<close>

record pipeline_snapshot =
  sn_code_request_id :: string
  sn_session_id :: string
  sn_config :: execution_config
  sn_children :: "child_record list"
  sn_waves :: "string list list"
  sn_current_wave_idx :: nat
  sn_paused_branches :: "string list"
  sn_audit_log :: "audit_entry list"

definition snapshot :: "pipeline \<Rightarrow> pipeline_snapshot" where
  "snapshot p =
     \<lparr>sn_code_request_id = code_request_id p, sn_session_id = session_id p, sn_config = config p,
      sn_children = children p, sn_waves = waves p, sn_current_wave_idx = current_wave_idx p,
      sn_paused_branches = sorted_list_of_set (paused_branches p), sn_audit_log = audit_log p\<rparr>"

definition from_snapshot :: "pipeline_snapshot \<Rightarrow> pipeline" where
  "from_snapshot sn =
     (new_pipeline (sn_code_request_id sn) (sn_config sn) (sn_session_id sn))
       \<lparr>children := sn_children sn, waves := sn_waves sn, current_wave_idx := sn_current_wave_idx sn,
        paused_branches := set (sn_paused_branches sn), audit_log := sn_audit_log sn\<rparr>"

datatype rollup_state = RollDone | RollFailed | RollExecuting | RollQueued

record rollup =
  ro_state :: rollup_state
  ro_total_cost :: rat
  ro_completed :: "string list"
  ro_failed :: "string list"
  ro_blocked :: "string list"
  ro_paused :: "string list"

definition keys_in_state :: "child_state \<Rightarrow> child_record list \<Rightarrow> string list" where
  "keys_in_state st cs = map ch_key (filter (\<lambda>c. ch_state c = st) cs)"

definition get_rollup :: "pipeline \<Rightarrow> rollup" where
  "get_rollup p =
     (let cs = children p; completed = keys_in_state Merged cs
      in \<lparr>ro_state =
            (if length completed = length cs \<and> 0 < length cs then RollDone
             else if paused_branches p \<noteq> {} then RollFailed
             else if \<exists>c \<in> set cs. active_state (ch_state c) then RollExecuting
             else RollQueued),
          ro_total_cost = sum_list (map ch_cost cs), ro_completed = completed,
          ro_failed = keys_in_state PausedForHuman cs, ro_blocked = keys_in_state Blocked cs,
          ro_paused = sorted_list_of_set (paused_branches p)\<rparr>)"

end
