(* ===== verification/Executor_Pause.thy ===== *)
theory Executor_Pause
  imports Executor_Stage "HOL-Library.Multiset"
begin

text \<open>
  The work list of \<open>_pause_dependent_branches\<close>: it ends whenever the dependencies of the children that
  are not merged have no cycle, and then it has blocked exactly the children downstream of the paused
  one. A child that depends on itself, which \<open>compute_waves\<close> accepts, makes the loop run forever.
\<close>

section \<open>One pass\<close>

lemma block_children_eq:
  "block_children d cs =
     (map (\<lambda>c. if d \<in> set (ch_dependencies c) \<and> ch_state c \<noteq> Merged then c\<lparr>ch_state := Blocked\<rparr> else c) cs,
      map ch_key (filter (\<lambda>c. d \<in> set (ch_dependencies c) \<and> ch_state c \<noteq> Merged) cs))"
  by (induction cs) auto

definition pause_edges :: "child_record list \<Rightarrow> (string \<times> string) set" where
  "pause_edges cs = {(d, k). \<exists>c \<in> set cs. ch_key c = k \<and> d \<in> set (ch_dependencies c) \<and> ch_state c \<noteq> Merged}"

lemma block_keys: "set (fst (block_step d p)) = pause_edges (children p) `` {d}"
  by (auto simp: block_step_def block_children_eq pause_edges_def)

lemma block_step_children:
  "children (snd (block_step d p)) =
     map (\<lambda>c. if d \<in> set (ch_dependencies c) \<and> ch_state c \<noteq> Merged then c\<lparr>ch_state := Blocked\<rparr> else c) (children p)"
  by (simp add: block_step_def block_children_eq)

lemma block_step_paused:
  "paused_branches (snd (block_step d p)) = paused_branches p \<union> pause_edges (children p) `` {d}"
  by (auto simp: block_step_def block_children_eq pause_edges_def)

lemma block_step_rest [simp]:
  "waves (snd (block_step d p)) = waves p" "config (snd (block_step d p)) = config p"
  "current_wave_idx (snd (block_step d p)) = current_wave_idx p"
  "lease_calls (snd (block_step d p)) = lease_calls p"
  "session_id (snd (block_step d p)) = session_id p"
  "code_request_id (snd (block_step d p)) = code_request_id p"
  by (simp_all add: block_step_def split: prod.split)

lemma pause_edges_map:
  assumes "\<And>c. ch_key (f c) = ch_key c" and "\<And>c. ch_dependencies (f c) = ch_dependencies c"
    and "\<And>c. ch_state (f c) = Merged \<longleftrightarrow> ch_state c = Merged"
  shows "pause_edges (map f cs) = pause_edges cs"
  by (simp add: pause_edges_def assms)

lemma block_step_edges: "pause_edges (children (snd (block_step d p))) = pause_edges (children p)"
  unfolding block_step_children by (rule pause_edges_map) auto

lemma block_step_keyed:
  "keyed ch_key (children p) \<Longrightarrow> keyed ch_key (children (snd (block_step d p)))"
  unfolding block_step_children by (rule keyed_map) auto

section \<open>The loop ends\<close>

lemma finite_pause_edges: "finite (pause_edges cs)"
proof -
  have "pause_edges cs \<subseteq> (\<Union>c \<in> set cs. (\<lambda>d. (d, ch_key c)) ` set (ch_dependencies c))"
    by (auto simp: pause_edges_def)
  then show ?thesis by (rule finite_subset) simp
qed

lemma pause_loop_ends_aux:
  assumes "wf (E\<inverse>)" and "M = mset todo" and "E = pause_edges (children p)"
  shows "\<exists>p'. pause_loop todo p = Some p'"
  using assms(2,3)
proof (induction M arbitrary: todo p rule: wf_induct_rule [OF wf_mult [OF assms(1)]])
  case (1 M)
  show ?case
  proof (cases todo)
    case Nil
    then show ?thesis by (simp add: pause_loop.simps)
  next
    case (Cons d rest)
    let ?ks = "fst (block_step d p)" and ?p = "snd (block_step d p)"
    have "(mset rest + mset ?ks, mset rest + {#d#}) \<in> mult (E\<inverse>)"
      by (rule one_step_implies_mult) (auto simp: block_keys 1(3))
    then have "(mset (rest @ ?ks), M) \<in> mult (E\<inverse>)" using 1(2) Cons by (simp add: add.commute)
    from 1(1) [OF this refl, of ?p] have "\<exists>p'. pause_loop (rest @ ?ks) ?p = Some p'"
      by (simp add: block_step_edges 1(3))
    then show ?thesis unfolding Cons by (simp add: pause_loop.simps [of "d # rest"])
  qed
qed

lemma pause_loop_ends:
  assumes "acyclic (pause_edges (children p))"
  shows "\<exists>p'. pause_loop todo p = Some p'"
  using assms finite_pause_edges
  by (intro pause_loop_ends_aux [where M = "mset todo"]) (auto intro: finite_acyclic_wf_converse)

section \<open>What it blocks\<close>

definition downstream :: "(string \<times> string) set \<Rightarrow> string set \<Rightarrow> string set" where
  "downstream E T = E\<^sup>+ `` T"

lemma downstream_step: "downstream E (insert d R) = downstream E R \<union> E `` {d} \<union> downstream E (E `` {d})"
proof -
  have "E\<^sup>+ `` {d} = E `` {d} \<union> E\<^sup>+ `` (E `` {d})"
    by (auto intro: trancl_into_trancl2 elim: converse_tranclE)
  then show ?thesis by (auto simp: downstream_def)
qed

lemma downstream_empty [simp]: "downstream E {} = {}"
  by (simp add: downstream_def)

lemma downstream_Un: "downstream E (A \<union> B) = downstream E A \<union> downstream E B"
  by (auto simp: downstream_def)

definition block_set :: "string set \<Rightarrow> child_record list \<Rightarrow> child_record list" where
  "block_set D cs = map (\<lambda>c. if ch_key c \<in> D \<and> ch_state c \<noteq> Merged then c\<lparr>ch_state := Blocked\<rparr> else c) cs"

lemma block_step_block_set:
  assumes "keyed ch_key (children p)"
  shows "children (snd (block_step d p)) = block_set (pause_edges (children p) `` {d}) (children p)"
proof -
  have "ch_key c \<in> pause_edges (children p) `` {d} \<longleftrightarrow> d \<in> set (ch_dependencies c) \<and> ch_state c \<noteq> Merged"
    if "c \<in> set (children p)" "ch_state c \<noteq> Merged" for c
    using assms that unfolding pause_edges_def keyed_def
    by (auto simp: distinct_map inj_on_def)
  then show ?thesis by (auto simp: block_step_children block_set_def)
qed

lemma block_set_twice: "block_set A (block_set B cs) = block_set (A \<union> B) cs"
  by (induction cs) (auto simp: block_set_def)

lemma pause_loop_result:
  assumes "pause_loop todo p = Some p'" and "keyed ch_key (children p)"
  shows "children p' = block_set (downstream (pause_edges (children p)) (set todo)) (children p) \<and>
     paused_branches p' = paused_branches p \<union> downstream (pause_edges (children p)) (set todo) \<and>
     waves p' = waves p \<and> config p' = config p \<and> current_wave_idx p' = current_wave_idx p"
  using assms
proof (induction arbitrary: rule: pause_loop.raw_induct [rotated, consumes 1])
  case (1 loop todo p p')
  show ?case
  proof (cases todo)
    case Nil
    with 1 show ?thesis by (auto simp: block_set_def intro: map_idI [symmetric])
  next
    case (Cons d rest)
    let ?E = "pause_edges (children p)" and ?q = "snd (block_step d p)"
    have "loop (rest @ fst (block_step d p)) ?q = Some p'" using 1(2) Cons by simp
    note IH0 = 1(1) [OF this block_step_keyed [OF 1(3)], unfolded block_step_edges set_append block_keys]
    note IH = IH0 [unfolded downstream_Un block_step_paused block_step_block_set [OF 1(3)] block_set_twice]
    have D: "downstream ?E (set todo) = downstream ?E (set rest) \<union> (?E `` {d} \<union> downstream ?E (?E `` {d}))"
      by (simp add: Cons downstream_step Un_ac)
    from IH show ?thesis unfolding D by (simp add: Un_ac)
  qed
qed

section \<open>Properties\<close>

lemma pause_blocks_downstream_aux:
  assumes "keyed ch_key (children p)" and "acyclic (pause_edges (children p))"
  shows "\<exists>p'. pause_dependent_branches k p = Some p' \<and>
     paused_branches p' = paused_branches p \<union> downstream (pause_edges (children p)) {k} \<and>
     children p' = map (\<lambda>c. if ch_key c \<in> downstream (pause_edges (children p)) {k}
                           then c\<lparr>ch_state := Blocked\<rparr> else c) (children p) \<and>
     waves p' = waves p \<and> config p' = config p \<and> current_wave_idx p' = current_wave_idx p \<and>
     (\<forall>c \<in> set (children p). ch_key c \<in> downstream (pause_edges (children p)) {k} \<longrightarrow> ch_state c \<noteq> Merged)"
proof -
  obtain p' where p': "pause_loop [k] p = Some p'" using pause_loop_ends [OF assms(2)] by blast
  have nm: "ch_state c \<noteq> Merged"
    if "c \<in> set (children p)" "ch_key c \<in> downstream (pause_edges (children p)) {k}" for c
  proof -
    from that(2) obtain d where "(d, ch_key c) \<in> pause_edges (children p)"
      by (auto simp: downstream_def elim: tranclE)
    then obtain c' where c': "c' \<in> set (children p)" "ch_key c' = ch_key c" "ch_state c' \<noteq> Merged"
      by (auto simp: pause_edges_def)
    with that(1) assms(1) have "c' = c" by (auto simp: keyed_def distinct_map inj_on_def)
    with c' show ?thesis by simp
  qed
  then have "block_set (downstream (pause_edges (children p)) {k}) (children p) =
      map (\<lambda>c. if ch_key c \<in> downstream (pause_edges (children p)) {k}
               then c\<lparr>ch_state := Blocked\<rparr> else c) (children p)"
    by (simp add: block_set_def)
  with p' pause_loop_result [OF p' assms(1)] nm show ?thesis
    by (auto simp: pause_dependent_branches_def)
qed

text \<open>When the dependencies of the unmerged children have no cycle, pausing a branch ends, blocks
  exactly the unmerged children downstream of the paused one, records exactly their keys, and leaves
  every other child as it was.\<close>

theorem pause_blocks_downstream:
  assumes "keyed ch_key (children p)" and "acyclic (pause_edges (children p))"
  shows "\<exists>p'. pause_dependent_branches k p = Some p' \<and>
     paused_branches p' = paused_branches p \<union> downstream (pause_edges (children p)) {k} \<and>
     children p' = map (\<lambda>c. if ch_key c \<in> downstream (pause_edges (children p)) {k}
                           then c\<lparr>ch_state := Blocked\<rparr> else c) (children p)"
  using pause_blocks_downstream_aux [OF assms] by blast

definition sample_payload :: "string \<Rightarrow> string list \<Rightarrow> executor_tier \<Rightarrow> child_payload" where
  "sample_payload k ds t =
     \<lparr>pl_key = k, pl_title = k, pl_repository = ''r'', pl_issue_number = None, pl_dependencies = ds, pl_tier = t,
      pl_task_class = ''feature'', pl_complexity = ''routine'', pl_turnover_doc = [], pl_handoff = [],
      pl_acceptance_criteria = [''ok'']\<rparr>"

definition sample_config :: execution_config where
  "sample_config = \<lparr>max_concurrent_per_repo = 1, lease_ttl_seconds = 7200, max_tier_attempts = 1,
     auto_advance_waves = True\<rparr>"

definition sample_child :: "string \<Rightarrow> string list \<Rightarrow> executor_tier \<Rightarrow> child_record" where
  "sample_child k ds t = child_from_payload [] (sample_payload k ds t)"

definition sample_pipeline :: pipeline where
  "sample_pipeline = (new_pipeline ''cr'' sample_config ''s'')
     \<lparr>children := [sample_child ''a'' [] Strong, sample_child ''b'' [''a''] Ollama],
      waves := [[''a''], [''b'']]\<rparr>"

lemma sample_child_simps [simp]:
  "ch_key (sample_child k ds t) = k" "ch_dependencies (sample_child k ds t) = ds"
  "ch_state (sample_child k ds t) = Queued" "ch_tier (sample_child k ds t) = t"
  "ch_attempts (sample_child k ds t) = 0"
  by (simp_all add: sample_child_def child_from_payload_def sample_payload_def)

lemma sample_pipeline_simps [simp]:
  "children sample_pipeline = [sample_child ''a'' [] Strong, sample_child ''b'' [''a''] Ollama]"
  "config sample_pipeline = sample_config" "paused_branches sample_pipeline = {}"
  by (simp_all add: sample_pipeline_def new_pipeline_def)

lemma sample_edges: "pause_edges (children sample_pipeline) = {(''a'', ''b'')}"
  by (auto simp: pause_edges_def)

theorem pause_blocks_downstream_witness:
  "\<exists>p'. pause_dependent_branches ''a'' sample_pipeline = Some p' \<and> paused_branches p' = {''b''}"
proof -
  have "acyclic (pause_edges (children sample_pipeline))"
    unfolding sample_edges by (rule acyclicI) (auto elim: tranclE converse_tranclE)
  moreover have "keyed ch_key (children sample_pipeline)" by (simp add: keyed_def)
  moreover have "downstream {(''a'', ''b'')} {''a''} = {''b''}"
    by (auto simp: downstream_def elim: tranclE converse_tranclE)
  ultimately show ?thesis
    using pause_blocks_downstream [of sample_pipeline "''a''"] unfolding sample_edges by auto
qed

section \<open>A child that depends on itself\<close>

lemma pause_loop_no_self:
  "pause_loop todo p = Some p' \<Longrightarrow> \<forall>k \<in> set todo. (k, k) \<notin> pause_edges (children p)"
proof (induction rule: pause_loop.raw_induct [rotated, consumes 1])
  case (1 loop todo p p')
  show ?case
  proof (cases todo)
    case Nil
    then show ?thesis by simp
  next
    case (Cons d rest)
    then have "loop (rest @ fst (block_step d p)) (snd (block_step d p)) = Some p'" using 1(2) by simp
    from 1(1) [OF this] show ?thesis
      by (auto simp: Cons block_step_edges block_keys)
  qed
qed

lemma children_release_if_held [simp]:
  "children (release_if_held c r p) = children p" "paused_branches (release_if_held c r p) = paused_branches p"
  "waves (release_if_held c r p) = waves p" "config (release_if_held c r p) = config p"
  "current_wave_idx (release_if_held c r p) = current_wave_idx p"
  by (simp_all add: release_if_held_def call_leases_def split: option.split)

text \<open>A child that lists itself as a dependency is accepted by \<open>initialize\<close>, but the failure that
  should hand it to a human never returns: the work list of \<open>_pause_dependent_branches\<close> is never
  empty.\<close>

theorem self_dependency_hangs:
  assumes "child_of p k = Some c" and "k \<in> set (ch_dependencies c)"
    and "ch_tier c = Strong" and "max_tier_attempts (config p) \<le> Suc (ch_attempts c)"
  shows "report_failed k reason cost h p = None"
proof -
  define c1 where "c1 = c\<lparr>ch_cost := ch_cost c + max 0 cost, ch_attempts := Suc (ch_attempts c),
      ch_error_reasons := ch_error_reasons c @ [reason], ch_handoff := (if h = [] then ch_handoff c else h)\<rparr>"
  define p3 where "p3 = (let q = set_child k (\<lambda>_. c1\<lparr>ch_state := PausedForHuman\<rparr>)
       (release_if_held c1 (''failed: '' @ reason) (set_child k (\<lambda>_. c1) p))
     in q\<lparr>paused_branches := insert k (paused_branches q)\<rparr>)"
  have c: "c \<in> set (children p)" "ch_key c = k"
    using row_lookup_SomeD [OF assms(1) [unfolded child_of_def]] by auto
  have "c1\<lparr>ch_state := PausedForHuman\<rparr> \<in> set (children p3)"
    using c by (auto simp: p3_def Let_def set_child_def row_update_def image_iff c1_def)
  then have "(k, k) \<in> pause_edges (children p3)"
    using assms(2) c(2)
    by (auto simp: pause_edges_def c1_def intro!: bexI [of _ "c1\<lparr>ch_state := PausedForHuman\<rparr>"])
  then have "pause_dependent_branches k p3 = None"
    using pause_loop_no_self [of "[k]" p3] by (cases "pause_loop [k] p3") (auto simp: pause_dependent_branches_def)
  with assms show ?thesis
    by (simp add: report_failed_def Let_def c1_def [symmetric] p3_def)
       (simp add: c1_def)
qed

theorem self_dependency_hangs_witness:
  "\<exists>p. initialize [sample_payload ''a'' [''a''] Strong] (new_pipeline ''cr'' sample_config ''s'') = (None, p) \<and>
     report_failed ''a'' ''x'' 0 [] p = None"
proof -
  let ?p = "snd (initialize [sample_payload ''a'' [''a''] Strong] (new_pipeline ''cr'' sample_config ''s''))"
  have w: "compute_waves [(''a'', [''a''])] = Inr [[''a'']]" by code_simp
  then have i: "initialize [sample_payload ''a'' [''a''] Strong] (new_pipeline ''cr'' sample_config ''s'') = (None, ?p)"
    by (simp add: initialize_def sample_payload_def)
  have "child_of ?p ''a'' = Some (child_from_payload [[''a'']] (sample_payload ''a'' [''a''] Strong))"
    and "config ?p = sample_config"
    using w by (simp_all add: initialize_def sample_payload_def child_of_def put_child_def audit_def
        child_from_payload_def new_pipeline_def)
  from self_dependency_hangs [OF this(1)] this(2)
  have "report_failed ''a'' ''x'' 0 [] ?p = None"
    by (simp add: child_from_payload_def sample_payload_def sample_config_def)
  with i show ?thesis by blast
qed

end
