(* ===== verification/Executor_Runs.thy ===== *)
theory Executor_Runs
  imports Executor_Pause
begin

text \<open>
  Runs of a pipeline: initialization from a plan without self references, then any sequence of
  dispatches and reports. The lemmas describe each method as the change of one child (or the pausing
  of a branch), from which the invariants follow: the shape of the plan is kept, no step gets stuck,
  blocked children stay paused, a child runs only after its dependencies merged, the tiers escalate to
  a human after a bounded number of failures, and the dispatch route respects the concurrency cap.
\<close>

section \<open>One child changes\<close>

definition one_change :: "string \<Rightarrow> child_record \<Rightarrow> child_record \<Rightarrow> pipeline \<Rightarrow> pipeline \<Rightarrow> bool" where
  "one_change k c c' p p' =
     (child_of p k = Some c \<and> children p' = row_update ch_key k (\<lambda>_. c') (children p) \<and> ch_key c' = k \<and>
      ch_dependencies c' = ch_dependencies c \<and> ch_repository c' = ch_repository c \<and>
      waves p' = waves p \<and> config p' = config p)"

lemma child_of_SomeD: "child_of p k = Some c \<Longrightarrow> c \<in> set (children p) \<and> ch_key c = k"
  unfolding child_of_def by (rule row_lookup_SomeD)

lemma row_update_const_twice:
  "key a = k \<Longrightarrow> row_update key k (\<lambda>_. b) (row_update key k (\<lambda>_. a) xs) = row_update key k (\<lambda>_. b) xs"
  by (induction xs) auto

lemma one_change_child_of:
  "one_change k c c' p p' \<Longrightarrow> child_of p' = (child_of p)(k \<mapsto> c')"
  by (rule ext) (auto simp: one_change_def child_of_def row_lookup_update_key)

lemma one_change_keyed: "one_change k c c' p p' \<Longrightarrow> keyed ch_key (children p) \<Longrightarrow> keyed ch_key (children p')"
  by (auto simp: one_change_def intro: keyed_update_key)

text \<open>What no step changes: the keys, dependencies and repositories of the children, the waves and the
  configuration.\<close>

definition shape :: "pipeline \<Rightarrow> (string \<times> string list \<times> string) list \<times> string list list \<times> execution_config" where
  "shape p = (map (\<lambda>c. (ch_key c, ch_dependencies c, ch_repository c)) (children p), waves p, config p)"

lemma map_row_update_const:
  assumes "\<And>x. x \<in> set xs \<Longrightarrow> key x = k \<Longrightarrow> f x = f y"
  shows "map f (row_update key k (\<lambda>_. y) xs) = map f xs"
  using assms by (induction xs) auto

lemma keyed_unique: "keyed key xs \<Longrightarrow> x \<in> set xs \<Longrightarrow> y \<in> set xs \<Longrightarrow> key x = key y \<Longrightarrow> x = y"
  by (auto simp: keyed_def distinct_map inj_on_def)

lemma one_change_shape:
  assumes "one_change k c c' p p'" and "keyed ch_key (children p)"
  shows "shape p' = shape p"
proof -
  have c: "c \<in> set (children p)" "ch_key c = k"
    using child_of_SomeD assms(1) by (auto simp: one_change_def)
  have "map (\<lambda>c. (ch_key c, ch_dependencies c, ch_repository c)) (row_update ch_key k (\<lambda>_. c') (children p)) =
      map (\<lambda>c. (ch_key c, ch_dependencies c, ch_repository c)) (children p)"
  proof (rule map_row_update_const)
    fix x assume "x \<in> set (children p)" "ch_key x = k"
    then have "x = c" using keyed_unique [OF assms(2)] c by metis
    with assms(1) c(2) show "(ch_key x, ch_dependencies x, ch_repository x) =
        (ch_key c', ch_dependencies c', ch_repository c')"
      by (simp add: one_change_def)
  qed
  with assms(1) show ?thesis by (simp add: shape_def one_change_def)
qed

definition slot :: "string \<Rightarrow> child_record \<Rightarrow> nat" where
  "slot repo c = (if active_state (ch_state c) \<and> ch_repository c = repo then 1 else 0)"

lemma row_count_update_const:
  assumes "keyed key xs" and "row_lookup key k xs = Some c"
  shows "row_count P (row_update key k (\<lambda>_. y) xs) + (if P c then 1 else 0) = row_count P xs + (if P y then 1 else 0)"
  using assms
proof (induction xs)
  case Nil
  then show ?case by simp
next
  case (Cons x xs)
  show ?case
  proof (cases "key x = k")
    case True
    with Cons.prems have "k \<notin> key ` set xs" by (auto simp: keyed_def)
    with True Cons.prems show ?thesis by (auto simp: row_update_absent)
  next
    case False
    with Cons.prems have "keyed key xs" "row_lookup key k xs = Some c" by (auto simp: keyed_def)
    from Cons.IH [OF this] False show ?thesis by simp
  qed
qed

lemma one_change_active:
  assumes "one_change k c c' p p'" and "keyed ch_key (children p)"
  shows "active_count p' repo + slot repo c = active_count p repo + slot repo c'"
  using row_count_update_const [OF assms(2), of k c "\<lambda>c. active_state (ch_state c) \<and> ch_repository c = repo" c'] assms(1)
  by (simp add: one_change_def active_count_def slot_def child_of_def)

section \<open>Each method\<close>

lemma set_child_simps [simp]:
  "children (set_child k f p) = row_update ch_key k f (children p)" "waves (set_child k f p) = waves p"
  "config (set_child k f p) = config p" "paused_branches (set_child k f p) = paused_branches p"
  "current_wave_idx (set_child k f p) = current_wave_idx p" "session_id (set_child k f p) = session_id p"
  by (simp_all add: set_child_def)

lemma audit_simps [simp]:
  "children (audit e p) = children p" "waves (audit e p) = waves p" "config (audit e p) = config p"
  "paused_branches (audit e p) = paused_branches p" "current_wave_idx (audit e p) = current_wave_idx p"
  by (simp_all add: audit_def)

lemma call_leases_simps [simp]:
  "children (call_leases e p) = children p" "waves (call_leases e p) = waves p" "config (call_leases e p) = config p"
  "paused_branches (call_leases e p) = paused_branches p"
  "current_wave_idx (call_leases e p) = current_wave_idx p"
  by (simp_all add: call_leases_def)

text \<open>A dispatch changes nothing but a ready child, which it routes and, if the claim store agrees, claims.\<close>

lemma dispatch_child_cases:
  assumes "dispatch_child env k p = (r, p')"
  obtains (same) "p' = p" "\<not> is_child_ready k p \<or> child_of p k = None"
  | (change) c c' where "is_child_ready k p" "one_change k c c' p p'"
      "ch_attempts c' = ch_attempts c"
      "ch_tier c' = fst (snd (resolve_child_executor (ch_tier c) (env_pinned env) (env_registry env) (env_budget env)))"
      "ch_state c' = (if \<exists>a. r = DispatchedTo a then Claimed else Queued)"
      "paused_branches p' = paused_branches p" "current_wave_idx p' = current_wave_idx p"
proof (cases "child_of p k")
  case None
  with assms same show ?thesis by (auto simp: dispatch_child_def)
next
  case (Some c)
  show ?thesis
  proof (cases "is_child_ready k p")
    case False
    with assms Some same show ?thesis by (auto simp: dispatch_child_def)
  next
    case True
    obtain pr t rt where res: "resolve_child_executor (ch_tier c) (env_pinned env) (env_registry env) (env_budget env) = (pr, t, rt)"
      by (metis prod_cases3)
    have q: "ch_state c = Queued" using True Some by (simp add: is_child_ready_def)
    have k: "ch_key c = k" using child_of_SomeD [OF Some] by simp
    let ?c1 = "c\<lparr>ch_agent := Some pr, ch_tier := t\<rparr>"
    obtain ok why where cd: "can_dispatch_child (env_check env) [] ?c1 pr = (ok, why)" by (metis prod.exhaust)
    obtain pres calls where pl: "post_child_lease (env_poster env) ?c1 pr (session_id p) = (pres, calls)"
      by (metis prod.exhaust)
    note d = assms [unfolded dispatch_child_def Some option.case res Let_def prod.case cd]
    show ?thesis
    proof (cases "\<not> ok")
      case True
      with d \<open>is_child_ready k p\<close> have "r = DispatchRefused why"
        "p' = audit (ADispatchSkipped k why) (set_child k (\<lambda>_. ?c1) p)" by auto
      with Some \<open>is_child_ready k p\<close> q k res show ?thesis
        by (intro change [of c ?c1]) (auto simp: one_change_def)
    next
      case False
      with d \<open>is_child_ready k p\<close> pl show ?thesis
      proof (cases pres)
        case (Inl e)
        with d False \<open>is_child_ready k p\<close> pl have "r = LeaseFailed e"
          "p' = audit (ALeaseFailed k e) (call_leases calls (set_child k (\<lambda>_. ?c1) p))" by auto
        with Some \<open>is_child_ready k p\<close> q k res show ?thesis
          by (intro change [of c ?c1]) (auto simp: one_change_def)
      next
        case (Inr receipt)
        let ?c2 = "?c1\<lparr>ch_lease_receipt := Some receipt, ch_state := Claimed\<rparr>"
        from Inr d False \<open>is_child_ready k p\<close> pl have "r = DispatchedTo pr"
          "p' = audit (ADispatched k pr t rt) (set_child k (\<lambda>_. ?c2) (call_leases calls (set_child k (\<lambda>_. ?c1) p)))"
          by auto
        with Some \<open>is_child_ready k p\<close> q k res show ?thesis
          by (intro change [of c ?c2]) (auto simp: one_change_def row_update_const_twice)
      qed
    qed
  qed
qed

lemma row_update_const_eq:
  "keyed key xs \<Longrightarrow> row_lookup key k xs = Some c \<Longrightarrow> row_update key k f xs = row_update key k (\<lambda>_. f c) xs"
proof (induction xs)
  case Nil
  then show ?case by simp
next
  case (Cons x xs)
  show ?case
  proof (cases "key x = k")
    case True
    with Cons.prems have "k \<notin> key ` set xs" by (auto simp: keyed_def)
    with True Cons.prems show ?thesis by (auto simp: row_update_absent)
  next
    case False
    with Cons.prems have "keyed key xs" "row_lookup key k xs = Some c" by (auto simp: keyed_def)
    from Cons.IH [OF this] False show ?thesis by simp
  qed
qed

text \<open>The common part of the reports: the record of \<open>k\<close> becomes \<open>c'\<close>; nothing else changes but logs.\<close>

lemma one_change_set_child:
  assumes "keyed ch_key (children p)" and "child_of p k = Some c"
    and "ch_key (f c) = ch_key c" and "ch_dependencies (f c) = ch_dependencies c" and "ch_repository (f c) = ch_repository c"
  shows "one_change k c (f c) p (set_child k f p)"
proof -
  have "row_update ch_key k f (children p) = row_update ch_key k (\<lambda>_. f c) (children p)"
    using assms(1,2) unfolding child_of_def by (rule row_update_const_eq)
  with assms child_of_SomeD [OF assms(2)] show ?thesis unfolding one_change_def by simp
qed

lemma one_change_audit: "one_change k c c' p q \<Longrightarrow> one_change k c c' p (audit e q)"
  by (simp add: one_change_def)

definition report_change :: "string \<Rightarrow> child_record \<Rightarrow> child_record \<Rightarrow> pipeline \<Rightarrow> pipeline \<Rightarrow> bool" where
  "report_change k c c' p p' =
     (one_change k c c' p p' \<and> paused_branches p' = paused_branches p \<and> current_wave_idx p' = current_wave_idx p)"

lemma report_pr_opened_change:
  assumes "keyed ch_key (children p)" and "child_of p k = Some c"
  shows "report_change k c (c\<lparr>ch_pr_number := Some n, ch_state := PrOpen\<rparr>) p (snd (report_pr_opened k n p))"
  using one_change_set_child [OF assms, of "\<lambda>c. c\<lparr>ch_pr_number := Some n, ch_state := PrOpen\<rparr>"] assms(2)
  by (simp add: report_pr_opened_def report_change_def one_change_audit)

definition ci_running :: "string \<Rightarrow> bool" where
  "ci_running status = (py_lower status \<in> {''in_progress'', ''pending'', ''running''})"

lemma report_ci_change:
  assumes "keyed ch_key (children p)" and "child_of p k = Some c"
  shows "report_change k c (if ci_running s then c\<lparr>ch_pr_status := Some s, ch_state := CI\<rparr>
      else c\<lparr>ch_pr_status := Some s\<rparr>) p (report_ci_status k s p)"
proof -
  let ?f = "\<lambda>c. if ci_running s then c\<lparr>ch_pr_status := Some s, ch_state := CI\<rparr> else c\<lparr>ch_pr_status := Some s\<rparr>"
  have "report_ci_status k s p = set_child k ?f p"
    unfolding report_ci_status_def ci_running_def Let_def
    by (rule arg_cong [where f = "\<lambda>g. set_child k g p"]) auto
  with one_change_set_child [OF assms, of ?f] show ?thesis by (simp add: report_change_def)
qed

lemma report_ci_none: "child_of p k = None \<Longrightarrow> report_ci_status k s p = p"
  by (simp add: report_ci_status_def set_child_def row_update_absent child_of_def row_lookup_None_iff)

lemma check_and_advance_wave_cases:
  "check_and_advance_wave p = Some p' \<Longrightarrow> p' = p \<or>
     (length (waves p) > current_wave_idx p \<and> wave_merged p (waves p ! current_wave_idx p) = Some True \<and>
      current_wave_idx p' = Suc (current_wave_idx p) \<and> children p' = children p \<and> waves p' = waves p \<and>
      config p' = config p \<and> paused_branches p' = paused_branches p)"
  by (auto simp: check_and_advance_wave_def split: if_splits option.splits bool.splits)

text \<open>A merge: the record becomes merged, and the wave index may advance.\<close>

definition merged_child :: "rat \<Rightarrow> child_record \<Rightarrow> child_record" where
  "merged_child cost c = c\<lparr>ch_state := Merged, ch_cost := ch_cost c + max 0 cost\<rparr>"

lemma report_merged_change:
  assumes "child_of p k = Some c"
  obtains q where "report_change k c (merged_child cost c) p q" "report_merged k cost p = check_and_advance_wave q"
proof -
  have "report_change k c (merged_child cost c) p
      (audit (AMerged k (ch_cost (merged_child cost c)))
        (release_if_held (merged_child cost c) ''merged'' (set_child k (\<lambda>_. merged_child cost c) p)))"
    using assms child_of_SomeD [OF assms] by (simp add: report_change_def one_change_def merged_child_def)
  moreover have "report_merged k cost p = check_and_advance_wave (audit (AMerged k (ch_cost (merged_child cost c)))
        (release_if_held (merged_child cost c) ''merged'' (set_child k (\<lambda>_. merged_child cost c) p)))"
    using assms by (simp add: report_merged_def merged_child_def Let_def)
  ultimately show ?thesis by (rule that)
qed

text \<open>A failure: retry, escalation, or pausing of the branch.\<close>

definition failed_tier :: "nat \<Rightarrow> child_record \<Rightarrow> executor_tier \<times> nat" where
  "failed_tier cap c =
     (if cap \<le> Suc (ch_attempts c)
      then (case escalate_tier (ch_tier c) of Some t \<Rightarrow> (t, 0) | None \<Rightarrow> (ch_tier c, Suc (ch_attempts c)))
      else (ch_tier c, Suc (ch_attempts c)))"

definition to_human :: "nat \<Rightarrow> child_record \<Rightarrow> bool" where
  "to_human cap c = (cap \<le> Suc (ch_attempts c) \<and> ch_tier c = Strong)"

lemma escalate_None_iff: "escalate_tier t = None \<longleftrightarrow> t = Strong"
  by (cases t) auto

lemma failed_tier_attempts:
  "n = snd (failed_tier cap c) \<Longrightarrow> 0 < cap \<Longrightarrow> \<not> to_human cap c \<Longrightarrow> n < cap"
  by (cases "ch_tier c") (auto simp: failed_tier_def to_human_def split: if_splits)

lemma report_failed_change:
  assumes "child_of p k = Some c"
  obtains c' q where "one_change k c c' p q" "current_wave_idx q = current_wave_idx p"
    "(ch_tier c', ch_attempts c') = failed_tier (max_tier_attempts (config p)) c"
    "ch_state c' = (if to_human (max_tier_attempts (config p)) c then PausedForHuman else Queued)"
    "paused_branches q = (if to_human (max_tier_attempts (config p)) c then insert k (paused_branches p)
       else paused_branches p)"
    "report_failed k reason cost h p =
       (if to_human (max_tier_attempts (config p)) c
        then map_option (audit (ABranchPaused k)) (pause_dependent_branches k q) else Some q)"
proof -
  define c1 where "c1 = c\<lparr>ch_cost := ch_cost c + max 0 cost, ch_attempts := Suc (ch_attempts c),
      ch_error_reasons := ch_error_reasons c @ [reason], ch_handoff := (if h = [] then ch_handoff c else h)\<rparr>"
  define p1 where "p1 = release_if_held c1 (''failed: '' @ reason) (set_child k (\<lambda>_. c1) p)"
  let ?cap = "max_tier_attempts (config p)"
  have c: "ch_key c = k" using child_of_SomeD [OF assms] by simp
  have c1: "ch_key c1 = k" "ch_dependencies c1 = ch_dependencies c" "ch_repository c1 = ch_repository c"
    "ch_attempts c1 = Suc (ch_attempts c)" "ch_tier c1 = ch_tier c"
    using c by (simp_all add: c1_def)
  have p1: "children p1 = row_update ch_key k (\<lambda>_. c1) (children p)" "waves p1 = waves p" "config p1 = config p"
    "paused_branches p1 = paused_branches p" "current_wave_idx p1 = current_wave_idx p"
    by (simp_all add: p1_def)
  note rf0 = report_failed_def [of k reason cost h p, unfolded assms option.case Let_def, folded c1_def]
  note rf = rf0 [folded p1_def]
  show ?thesis
  proof (cases "?cap \<le> Suc (ch_attempts c)")
    case False
    let ?c = "c1\<lparr>ch_state := Queued\<rparr>"
    show ?thesis
      by (rule that [of ?c "audit (ARetry k (ch_attempts c1) ?cap) (set_child k (\<lambda>_. ?c) p1)"])
        (use assms c1 p1 False in \<open>simp_all add: one_change_def row_update_const_twice failed_tier_def to_human_def rf\<close>)
  next
    case True
    show ?thesis
    proof (cases "escalate_tier (ch_tier c)")
      case (Some t)
      then have ns: "ch_tier c \<noteq> Strong" by auto
      let ?c = "c1\<lparr>ch_tier := t, ch_attempts := 0, ch_escalation_history := ch_escalation_history c1 @ [(ch_tier c1, t)],
        ch_state := Queued\<rparr>"
      show ?thesis
        by (rule that [of ?c "audit (AEscalated k ?cap (ch_tier c1) t) (set_child k (\<lambda>_. ?c) p1)"])
          (use assms c1 p1 True Some ns in
            \<open>simp_all add: one_change_def row_update_const_twice failed_tier_def to_human_def rf\<close>)
    next
      case None
      then have st: "ch_tier c = Strong" by (simp add: escalate_None_iff)
      let ?c = "c1\<lparr>ch_state := PausedForHuman\<rparr>"
      let ?q = "set_child k (\<lambda>_. ?c) p1"
      show ?thesis
        by (rule that [of ?c "?q\<lparr>paused_branches := insert k (paused_branches ?q)\<rparr>"])
          (use assms c1 p1 True None st in
            \<open>simp_all add: one_change_def row_update_const_twice failed_tier_def to_human_def rf\<close>)
    qed
  qed
qed

section \<open>The plan invariant\<close>

definition plan_inv :: "pipeline \<Rightarrow> bool" where
  "plan_inv p =
     (case shape p of (cs, ws, cfg) \<Rightarrow>
        distinct (map fst cs) \<and> set (concat ws) = fst ` set cs \<and>
        (\<forall>(k, ds, r) \<in> set cs. \<forall>d \<in> set ds. d \<in> fst ` set cs \<longrightarrow> wave_of ws d < wave_of ws k))"

lemma plan_inv_shape: "shape q = shape p \<Longrightarrow> plan_inv p \<Longrightarrow> plan_inv q"
  by (simp add: plan_inv_def)

lemma plan_inv_keyed: "plan_inv p \<Longrightarrow> keyed ch_key (children p)"
  by (simp add: plan_inv_def shape_def keyed_def comp_def)

lemma plan_inv_waves: "plan_inv p \<Longrightarrow> set (concat (waves p)) = ch_key ` set (children p)"
  by (simp add: plan_inv_def shape_def image_image)

lemma plan_inv_order:
  "plan_inv p \<Longrightarrow> c \<in> set (children p) \<Longrightarrow> d \<in> set (ch_dependencies c) \<Longrightarrow> d \<in> ch_key ` set (children p) \<Longrightarrow>
     wave_of (waves p) d < wave_of (waves p) (ch_key c)"
  by (auto simp: plan_inv_def shape_def image_image)

lemma plan_inv_acyclic:
  assumes "plan_inv p"
  shows "acyclic (pause_edges (children p))"
proof -
  let ?f = "\<lambda>k. if k \<in> ch_key ` set (children p) then Suc (wave_of (waves p) k) else 0"
  have "pause_edges (children p) \<subseteq> measure ?f"
    using plan_inv_order [OF assms] by (auto simp: pause_edges_def)
  then have "wf (pause_edges (children p))" by (rule wf_subset [OF wf_measure])
  then show ?thesis by (rule wf_acyclic)
qed

lemma child_of_None_iff: "child_of p k = None \<longleftrightarrow> k \<notin> ch_key ` set (children p)"
  by (simp add: child_of_def row_lookup_None_iff)

lemma wave_merged_total:
  "set ks \<subseteq> ch_key ` set (children p) \<Longrightarrow> wave_merged p ks \<noteq> None"
  by (induction ks) (auto simp: child_of_None_iff split: option.splits)

lemma check_and_advance_wave_total:
  assumes "plan_inv p"
  shows "\<exists>p'. check_and_advance_wave p = Some p'"
proof (cases "length (waves p) \<le> current_wave_idx p")
  case True
  then show ?thesis by (simp add: check_and_advance_wave_def)
next
  case False
  then have "set (waves p ! current_wave_idx p) \<subseteq> ch_key ` set (children p)"
    using plan_inv_waves [OF assms] nth_mem [of "current_wave_idx p" "waves p"] by auto
  from wave_merged_total [OF this] show ?thesis
    by (auto simp: check_and_advance_wave_def split: option.splits bool.splits)
qed

text \<open>The pausing of a branch, on the lookup view: downstream children become blocked.\<close>

lemma pause_total:
  assumes "plan_inv p"
  obtains p' D where "pause_dependent_branches k p = Some p'"
    "shape p' = shape p" "current_wave_idx p' = current_wave_idx p"
    "paused_branches p' = paused_branches p \<union> D"
    "\<And>j. child_of p' j = map_option (\<lambda>c. if j \<in> D then c\<lparr>ch_state := Blocked\<rparr> else c) (child_of p j)"
    "\<And>j c. child_of p j = Some c \<Longrightarrow> j \<in> D \<Longrightarrow> ch_state c \<noteq> Merged"
proof -
  let ?E = "pause_edges (children p)"
  let ?D = "downstream ?E {k}"
  note kd = plan_inv_keyed [OF assms]
  from pause_blocks_downstream_aux [OF kd plan_inv_acyclic [OF assms], of k] obtain p' where
    p': "pause_dependent_branches k p = Some p'" "paused_branches p' = paused_branches p \<union> ?D"
      "children p' = map (\<lambda>c. if ch_key c \<in> ?D then c\<lparr>ch_state := Blocked\<rparr> else c) (children p)"
      "waves p' = waves p" "config p' = config p" "current_wave_idx p' = current_wave_idx p"
    and nm: "\<And>c. c \<in> set (children p) \<Longrightarrow> ch_key c \<in> ?D \<Longrightarrow> ch_state c \<noteq> Merged" by blast
  have "shape p' = shape p"
    unfolding shape_def p'(3-5) by (auto simp: comp_def if_distrib cong: if_cong)
  moreover have "child_of p' j = map_option (\<lambda>c. if j \<in> ?D then c\<lparr>ch_state := Blocked\<rparr> else c) (child_of p j)" for j
  proof -
    have "child_of p' j = map_option (\<lambda>c. if ch_key c \<in> ?D then c\<lparr>ch_state := Blocked\<rparr> else c) (child_of p j)"
      unfolding child_of_def p'(3) by (rule row_lookup_map) auto
    then show ?thesis using child_of_SomeD [of p j] by (cases "child_of p j") auto
  qed
  moreover have "child_of p j = Some c \<Longrightarrow> j \<in> ?D \<Longrightarrow> ch_state c \<noteq> Merged" for j c
    using nm child_of_SomeD by metis
  ultimately show ?thesis using that p' by blast
qed

section \<open>Runs\<close>

datatype exec_event =
    EvDispatch exec_env string
  | EvPrOpened string int
  | EvCi string string
  | EvMerged string rat
  | EvFailed string string rat string

fun exec_step :: "exec_event \<Rightarrow> pipeline \<Rightarrow> pipeline option" where
  "exec_step (EvDispatch env k) p = Some (snd (dispatch_child env k p))"
| "exec_step (EvPrOpened k n) p = Some (snd (report_pr_opened k n p))"
| "exec_step (EvCi k s) p = Some (report_ci_status k s p)"
| "exec_step (EvMerged k cost) p = report_merged k cost p"
| "exec_step (EvFailed k r cost h) p = report_failed k r cost h p"

text \<open>\<open>allowed\<close> restricts the events the environment may send in a state.\<close>

inductive exec_reach :: "(exec_event \<Rightarrow> pipeline \<Rightarrow> bool) \<Rightarrow> pipeline \<Rightarrow> bool"
  for allowed :: "exec_event \<Rightarrow> pipeline \<Rightarrow> bool" where
  reach_init: "initialize pls (new_pipeline cr cfg sid) = (None, p) \<Longrightarrow>
      \<forall>pl \<in> set pls. pl_key pl \<notin> set (pl_dependencies pl) \<Longrightarrow> 0 < max_tier_attempts cfg \<Longrightarrow>
      exec_reach allowed p"
| reach_step: "exec_reach allowed p \<Longrightarrow> allowed ev p \<Longrightarrow> exec_step ev p = Some p' \<Longrightarrow> exec_reach allowed p'"

inductive_cases exec_reachE: "exec_reach allowed p"

section \<open>Initialization establishes the invariant\<close>

lemma register_children_fresh:
  "register_children ws pls cs = (None, cs') \<Longrightarrow> distinct (map ch_key cs @ map pl_key pls) \<Longrightarrow>
     cs' = cs @ map (child_from_payload ws) pls"
proof (induction pls arbitrary: cs)
  case Nil
  then show ?case by simp
next
  case (Cons pl pls)
  have key: "ch_key (child_from_payload ws pl) = pl_key pl" by (simp add: child_from_payload_def)
  from Cons.prems have "put_child (child_from_payload ws pl) cs = cs @ [child_from_payload ws pl]"
    by (auto simp: put_child_def key)
  moreover from Cons.prems have "register_children ws pls (put_child (child_from_payload ws pl) cs) = (None, cs')"
    by (simp split: if_splits)
  moreover have "distinct (map ch_key (cs @ [child_from_payload ws pl]) @ map pl_key pls)"
    using Cons.prems(2) key by auto
  ultimately have "cs' = (cs @ [child_from_payload ws pl]) @ map (child_from_payload ws) pls"
    using Cons.IH by metis
  then show ?case by simp
qed

lemma initialize_ok:
  assumes "initialize pls p0 = (None, p)"
  obtains ws where "compute_waves (map (\<lambda>pl. (pl_key pl, pl_dependencies pl)) pls) = Inr ws"
    "distinct (map pl_key pls)" "children p = map (child_from_payload ws) pls" "waves p = ws"
    "paused_branches p = {}" "current_wave_idx p = 0" "config p = config p0"
proof -
  from assms obtain ws where ws: "compute_waves (map (\<lambda>pl. (pl_key pl, pl_dependencies pl)) pls) = Inr ws"
    by (auto simp: initialize_def split: sum.splits)
  obtain err cs where rc: "register_children ws pls [] = (err, cs)" by (metis prod.exhaust)
  with assms ws have e: "err = None"
    by (auto simp: initialize_def Let_def split: option.splits)
  from ws have d: "distinct (map pl_key pls)"
    using waves_from_Inr_partition [OF ws [unfolded compute_waves_def]] by (simp add: comp_def)
  have cs: "cs = map (child_from_payload ws) pls"
    using register_children_fresh [OF rc [unfolded e]] d by simp
  from assms ws rc e have "p = audit (AInitialized (length cs) (length ws))
      (p0\<lparr>waves := ws, children := [], paused_branches := {}, current_wave_idx := 0, children := cs\<rparr>)"
    unfolding initialize_def Let_def by simp
  with ws d cs show ?thesis by (intro that [of ws]) auto
qed

lemma initialize_plan_inv:
  assumes "initialize pls p0 = (None, p)" and "\<forall>pl \<in> set pls. pl_key pl \<notin> set (pl_dependencies pl)"
  shows "plan_inv p"
proof -
  let ?pairs = "map (\<lambda>pl. (pl_key pl, pl_dependencies pl)) pls"
  from initialize_ok [OF assms(1)] obtain ws where ws: "compute_waves ?pairs = Inr ws"
    and d: "distinct (map pl_key pls)" and c: "children p = map (child_from_payload ws) pls" and w: "waves p = ws"
    by metis
  note W = ws [unfolded compute_waves_def]
  have fstp: "map fst ?pairs = map pl_key pls" by (simp add: comp_def)
  have sh: "shape p = (map (\<lambda>pl. (pl_key pl, pl_dependencies pl, pl_repository pl)) pls, ws, config p)"
    by (simp add: shape_def c w comp_def child_from_payload_def)
  have "wave_of ws d < wave_of ws (pl_key pl)"
    if "pl \<in> set pls" "d \<in> set (pl_dependencies pl)" "d \<in> pl_key ` set pls" for pl d
  proof (rule waves_from_ordered [OF W])
    show "pl_key pl \<in> set (map fst ?pairs)" using that(1) by (simp add: fstp)
    have "(pl_key pl, pl_dependencies pl) \<in> set ?pairs" using that(1) by auto
    moreover have "distinct (map fst (rev ?pairs))" using d by (metis distinct_rev fstp rev_map)
    ultimately have "map_of (rev ?pairs) (pl_key pl) = Some (pl_dependencies pl)"
      by (simp only: map_of_is_SomeI set_rev)
    moreover have "d \<noteq> pl_key pl" using assms(2) that(1,2) by auto
    ultimately show "d \<in> set (executor_deps ?pairs (pl_key pl))"
      using that(2,3) unfolding executor_deps_def fstp by simp
  qed
  moreover have "set (concat ws) = pl_key ` set pls"
    using waves_from_Inr_partition [OF W] unfolding fstp by simp
  ultimately show ?thesis
    using d by (auto simp: plan_inv_def sh comp_def image_image)
qed

section \<open>Invariants of every run\<close>

definition paused_ok :: "pipeline \<Rightarrow> string \<Rightarrow> child_record \<Rightarrow> bool" where
  "paused_ok p k c =
     ((ch_state c \<in> {PausedForHuman, Blocked} \<or> max_tier_attempts (config p) \<le> ch_attempts c) \<longrightarrow>
        k \<in> paused_branches p)"

definition run_inv :: "pipeline \<Rightarrow> bool" where
  "run_inv p = (plan_inv p \<and> 0 < max_tier_attempts (config p) \<and>
     (\<forall>k c. child_of p k = Some c \<longrightarrow> paused_ok p k c))"

lemma shape_config: "shape q = shape p \<Longrightarrow> config q = config p"
  by (simp add: shape_def)

lemma run_inv_change:
  assumes "run_inv p" and "one_change k c c' p q" and "paused_branches p \<subseteq> paused_branches q" and "paused_ok q k c'"
  shows "run_inv q"
proof -
  have kd: "keyed ch_key (children p)" using assms(1) plan_inv_keyed by (simp add: run_inv_def)
  note sh = one_change_shape [OF assms(2) kd]
  have "plan_inv q" using plan_inv_shape [OF sh] assms(1) by (simp add: run_inv_def)
  moreover have "paused_ok q j d" if "child_of q j = Some d" for j d
  proof (cases "j = k")
    case True
    with that assms(4) show ?thesis by (simp add: one_change_child_of [OF assms(2)])
  next
    case False
    with that have "child_of p j = Some d" by (simp add: one_change_child_of [OF assms(2)])
    with assms(1,3) shape_config [OF sh] show ?thesis by (auto simp: run_inv_def paused_ok_def)
  qed
  ultimately show ?thesis using assms(1) shape_config [OF sh] by (simp add: run_inv_def)
qed

lemma run_inv_cong:
  assumes "run_inv p" and "children q = children p" and "waves q = waves p" and "config q = config p"
    and "paused_branches q = paused_branches p"
  shows "run_inv q"
proof -
  have "shape q = shape p" and "child_of q = child_of p"
    using assms by (simp_all add: shape_def child_of_def fun_eq_iff)
  with assms plan_inv_shape show ?thesis by (simp add: run_inv_def paused_ok_def)
qed

lemma run_inv_audit: "run_inv p \<Longrightarrow> run_inv (audit e p)"
  by (erule run_inv_cong) simp_all

lemma run_inv_advance: "run_inv p \<Longrightarrow> check_and_advance_wave p = Some p' \<Longrightarrow> run_inv p'"
  by (drule check_and_advance_wave_cases) (auto intro: run_inv_cong)

lemma run_inv_init:
  assumes "initialize pls (new_pipeline cr cfg sid) = (None, p)"
    and "\<forall>pl \<in> set pls. pl_key pl \<notin> set (pl_dependencies pl)" and "0 < max_tier_attempts cfg"
  shows "run_inv p"
proof -
  from initialize_ok [OF assms(1)] obtain ws where c: "children p = map (child_from_payload ws) pls"
    and cfg: "config p = config (new_pipeline cr cfg sid)" by metis
  have "ch_state d = Queued \<and> ch_attempts d = 0" if "child_of p j = Some d" for j d
    using child_of_SomeD [OF that] c by (auto simp: child_from_payload_def)
  with assms(3) cfg initialize_plan_inv [OF assms(1,2)] show ?thesis
    by (auto simp: run_inv_def paused_ok_def new_pipeline_def)
qed

lemma run_inv_pause:
  assumes "run_inv p"
  shows "\<exists>p'. pause_dependent_branches k p = Some p' \<and> run_inv p'"
proof -
  from assms have "plan_inv p" by (simp add: run_inv_def)
  then obtain p' D where p': "pause_dependent_branches k p = Some p'"
    "shape p' = shape p" "paused_branches p' = paused_branches p \<union> D"
    and ch: "\<And>j. child_of p' j = map_option (\<lambda>c. if j \<in> D then c\<lparr>ch_state := Blocked\<rparr> else c) (child_of p j)"
    by (rule pause_total) blast
  have "paused_ok p' j d" if "child_of p' j = Some d" for j d
  proof -
    from that ch obtain c where c: "child_of p j = Some c" "d = (if j \<in> D then c\<lparr>ch_state := Blocked\<rparr> else c)"
      by auto
    then have "paused_ok p j c" using assms by (simp add: run_inv_def)
    with c(2) show ?thesis by (auto simp: paused_ok_def p'(3) shape_config [OF p'(2)])
  qed
  with p' assms plan_inv_shape [OF p'(2)] shape_config [OF p'(2)] show ?thesis
    by (auto simp: run_inv_def)
qed

lemma run_inv_dispatch:
  assumes "run_inv p"
  shows "run_inv (snd (dispatch_child env k p))"
proof -
  obtain r p' where d: "dispatch_child env k p = (r, p')" by (metis prod.exhaust)
  then show ?thesis
  proof (cases rule: dispatch_child_cases)
    case same
    with assms d show ?thesis by simp
  next
    case (change c c')
    have "config p' = config p" using change(2) by (simp add: one_change_def)
    moreover have "paused_ok p k c" using assms change(2) by (auto simp: run_inv_def one_change_def)
    ultimately have "paused_ok p' k c'" using change(3,5,6) by (auto simp: paused_ok_def split: if_splits)
    with change d assms show ?thesis by (auto intro: run_inv_change)
  qed
qed

lemma run_inv_step:
  assumes "run_inv p"
  shows "\<exists>p'. exec_step ev p = Some p' \<and> run_inv p'"
proof (cases ev)
  case (EvDispatch env k)
  with run_inv_dispatch [OF assms] show ?thesis by simp
next
  case (EvPrOpened k n)
  show ?thesis
  proof (cases "child_of p k")
    case None
    with assms EvPrOpened show ?thesis by (simp add: report_pr_opened_def)
  next
    case (Some c)
    from report_pr_opened_change [OF _ this, of n] assms
    have ch: "report_change k c (c\<lparr>ch_pr_number := Some n, ch_state := PrOpen\<rparr>) p (snd (report_pr_opened k n p))"
      by (simp add: run_inv_def plan_inv_keyed)
    moreover have "paused_ok p k c" using assms Some by (simp add: run_inv_def)
    ultimately have "paused_ok (snd (report_pr_opened k n p)) k (c\<lparr>ch_pr_number := Some n, ch_state := PrOpen\<rparr>)"
      by (simp add: report_change_def one_change_def paused_ok_def)
    with ch EvPrOpened run_inv_change [OF assms] show ?thesis by (auto simp: report_change_def)
  qed
next
  case (EvCi k s)
  show ?thesis
  proof (cases "child_of p k")
    case None
    with assms EvCi show ?thesis by (simp add: report_ci_none)
  next
    case (Some c)
    from report_ci_change [OF _ this, of s] assms
    have ch: "report_change k c (if ci_running s then c\<lparr>ch_pr_status := Some s, ch_state := CI\<rparr>
        else c\<lparr>ch_pr_status := Some s\<rparr>) p (report_ci_status k s p)"
      by (simp add: run_inv_def plan_inv_keyed)
    moreover have "paused_ok p k c" using assms Some by (simp add: run_inv_def)
    ultimately have "paused_ok (report_ci_status k s p) k (if ci_running s then c\<lparr>ch_pr_status := Some s, ch_state := CI\<rparr>
        else c\<lparr>ch_pr_status := Some s\<rparr>)"
      by (auto simp: report_change_def one_change_def paused_ok_def)
    with ch EvCi run_inv_change [OF assms] show ?thesis by (auto simp: report_change_def)
  qed
next
  case (EvMerged k cost)
  show ?thesis
  proof (cases "child_of p k")
    case None
    with assms EvMerged show ?thesis by (simp add: report_merged_def)
  next
    case (Some c)
    then obtain q where q: "report_change k c (merged_child cost c) p q"
      "report_merged k cost p = check_and_advance_wave q" by (rule report_merged_change)
    moreover have "paused_ok p k c" using assms Some by (simp add: run_inv_def)
    ultimately have "paused_ok q k (merged_child cost c)"
      by (auto simp: report_change_def one_change_def paused_ok_def merged_child_def)
    with q run_inv_change [OF assms] have "run_inv q" by (auto simp: report_change_def)
    with q(2) EvMerged run_inv_advance check_and_advance_wave_total show ?thesis
      by (metis exec_step.simps(4) run_inv_def)
  qed
next
  case (EvFailed k r cost h)
  show ?thesis
  proof (cases "child_of p k")
    case None
    with assms EvFailed show ?thesis by (simp add: report_failed_def)
  next
    case (Some c)
    let ?cap = "max_tier_attempts (config p)"
    from Some obtain c' q where f: "one_change k c c' p q" "(ch_tier c', ch_attempts c') = failed_tier ?cap c"
      "ch_state c' = (if to_human ?cap c then PausedForHuman else Queued)"
      "paused_branches q = (if to_human ?cap c then insert k (paused_branches p) else paused_branches p)"
      "report_failed k r cost h p = (if to_human ?cap c
        then map_option (audit (ABranchPaused k)) (pause_dependent_branches k q) else Some q)"
      by (rule report_failed_change)
    have "ch_attempts c' = snd (failed_tier ?cap c)" using f(2) by (metis snd_conv)
    moreover have "0 < ?cap" using assms by (simp add: run_inv_def)
    ultimately have "\<not> to_human ?cap c \<Longrightarrow> ch_attempts c' < ?cap" by (rule failed_tier_attempts)
    moreover have "config q = config p" using f(1) by (simp add: one_change_def)
    ultimately have "paused_ok q k c'"
      by (cases "to_human ?cap c") (simp_all add: paused_ok_def f(3,4))
    moreover have "paused_branches p \<subseteq> paused_branches q" by (auto simp: f(4))
    ultimately have "run_inv q" using run_inv_change [OF assms f(1)] by blast
    then obtain q' where q': "pause_dependent_branches k q = Some q'" "run_inv q'" using run_inv_pause by blast
    show ?thesis
    proof (cases "to_human ?cap c")
      case True
      with f(5) q'(1) EvFailed run_inv_audit [OF q'(2)] show ?thesis by simp
    next
      case False
      with f(5) EvFailed \<open>run_inv q\<close> show ?thesis by simp
    qed
  qed
qed

lemma reach_run_inv: "exec_reach allowed p \<Longrightarrow> run_inv p"
proof (induction rule: exec_reach.induct)
  case (reach_init pls cr cfg sid p)
  then show ?case by (rule run_inv_init)
next
  case (reach_step p ev p')
  with run_inv_step [of p ev] show ?case by auto
qed

section \<open>A child starts only after its dependencies merged\<close>

text \<open>The events of an orderly environment: it reports only on children that hold a claim.\<close>

definition state_in :: "child_state set \<Rightarrow> string \<Rightarrow> pipeline \<Rightarrow> bool" where
  "state_in S k p = (case child_of p k of None \<Rightarrow> False | Some c \<Rightarrow> ch_state c \<in> S)"

fun orderly :: "exec_event \<Rightarrow> pipeline \<Rightarrow> bool" where
  "orderly (EvDispatch env k) p = True"
| "orderly (EvPrOpened k n) p = state_in {Claimed} k p"
| "orderly (EvCi k s) p = state_in {PrOpen, CI} k p"
| "orderly (EvMerged k cost) p = state_in {Claimed, PrOpen, CI} k p"
| "orderly (EvFailed k r cost h) p = state_in {Claimed, PrOpen, CI} k p"

definition started :: "child_record \<Rightarrow> bool" where
  "started c = (active_state (ch_state c) \<or> ch_state c = Merged)"

definition order_inv :: "pipeline \<Rightarrow> bool" where
  "order_inv p = (\<forall>k c. child_of p k = Some c \<longrightarrow> started c \<longrightarrow> deps_merged p c)"

lemma deps_merged_change:
  assumes "one_change k c c' p q" and "ch_state c = Merged \<longrightarrow> ch_state c' = Merged" and "deps_merged p d"
  shows "deps_merged q d"
  using assms by (auto simp: deps_merged_def one_change_child_of [OF assms(1)] one_change_def split: option.splits)

lemma order_inv_change:
  assumes "order_inv p" and "one_change k c c' p q" and "ch_state c = Merged \<longrightarrow> ch_state c' = Merged"
    and "started c' \<longrightarrow> deps_merged p c"
  shows "order_inv q"
  unfolding order_inv_def
proof (intro allI impI)
  fix j d assume d: "child_of q j = Some d" "started d"
  show "deps_merged q d"
  proof (cases "j = k")
    case True
    with d have "d = c'" by (simp add: one_change_child_of [OF assms(2)])
    with d(2) assms(4) have "deps_merged p c" by simp
    then have "deps_merged p d"
      using \<open>d = c'\<close> assms(2) by (simp add: deps_merged_def one_change_def)
    then show ?thesis by (rule deps_merged_change [OF assms(2,3)])
  next
    case False
    with d assms(1) have "deps_merged p d" by (simp add: order_inv_def one_change_child_of [OF assms(2)])
    then show ?thesis by (rule deps_merged_change [OF assms(2,3)])
  qed
qed

lemma order_inv_cong: "order_inv p \<Longrightarrow> children q = children p \<Longrightarrow> order_inv q"
  by (simp add: order_inv_def deps_merged_def child_of_def)

lemma order_inv_audit [simp]: "order_inv (audit e p) = order_inv p"
  by (simp add: order_inv_def deps_merged_def child_of_def)

lemma order_inv_pause:
  assumes "plan_inv p" and "order_inv p" and "pause_dependent_branches k p = Some p'"
  shows "order_inv p'"
proof -
  from assms(1) obtain q D where "pause_dependent_branches k p = Some q"
    and ch: "\<And>j. child_of q j = map_option (\<lambda>c. if j \<in> D then c\<lparr>ch_state := Blocked\<rparr> else c) (child_of p j)"
    and nm: "\<And>j c. child_of p j = Some c \<Longrightarrow> j \<in> D \<Longrightarrow> ch_state c \<noteq> Merged"
    by (rule pause_total) blast
  with assms(3) have q: "q = p'" by simp
  show ?thesis
    unfolding order_inv_def q [symmetric]
  proof (intro allI impI)
    fix j d assume d: "child_of q j = Some d" "started d"
    then obtain c where c: "child_of p j = Some c" "d = (if j \<in> D then c\<lparr>ch_state := Blocked\<rparr> else c)"
      unfolding ch by auto
    with d(2) have "d = c" by (auto simp: started_def active_state_def split: if_splits)
    with assms(2) c(1) d(2) have "deps_merged p d" by (simp add: order_inv_def)
    then show "deps_merged q d"
      using nm unfolding deps_merged_def ch by (fastforce split: option.splits)
  qed
qed

lemma orderly_step:
  assumes "run_inv p" and "order_inv p" and "orderly ev p" and "exec_step ev p = Some p'"
  shows "order_inv p'"
proof (cases ev)
  case (EvDispatch env k)
  obtain r q where d: "dispatch_child env k p = (r, q)" by (metis prod.exhaust)
  with assms(4) EvDispatch have "p' = q" by simp
  from d show ?thesis
  proof (cases rule: dispatch_child_cases)
    case same
    with assms \<open>p' = q\<close> show ?thesis by simp
  next
    case (change c c')
    have "child_of p k = Some c" using change(2) by (simp add: one_change_def)
    with change(1) have "ch_state c = Queued" and "deps_merged p c" by (simp_all add: is_child_ready_def)
    with order_inv_change [OF assms(2) change(2)] \<open>p' = q\<close> show ?thesis by simp
  qed
next
  case (EvPrOpened k n)
  with assms(3) obtain c where c: "child_of p k = Some c" "ch_state c = Claimed"
    by (auto simp: state_in_def split: option.splits)
  with assms(2) have dm: "deps_merged p c" by (simp add: order_inv_def started_def active_state_def)
  have "one_change k c (c\<lparr>ch_pr_number := Some n, ch_state := PrOpen\<rparr>) p p'"
    using report_pr_opened_change [OF _ c(1), of n] assms(1,4) EvPrOpened
    by (simp add: report_change_def run_inv_def plan_inv_keyed)
  from order_inv_change [OF assms(2) this] c(2) dm show ?thesis by simp
next
  case (EvCi k s)
  with assms(3) obtain c where c: "child_of p k = Some c" "ch_state c \<in> {PrOpen, CI}"
    by (auto simp: state_in_def split: option.splits)
  with assms(2) have "deps_merged p c" by (auto simp: order_inv_def started_def active_state_def)
  moreover have "p' = report_ci_status k s p" using assms(4) EvCi by simp
  then have "report_change k c (if ci_running s then c\<lparr>ch_pr_status := Some s, ch_state := CI\<rparr>
        else c\<lparr>ch_pr_status := Some s\<rparr>) p p'"
    using report_ci_change [OF plan_inv_keyed c(1)] assms(1) unfolding run_inv_def by blast
  ultimately show ?thesis
    using c(2) order_inv_change [OF assms(2)] unfolding report_change_def by auto
next
  case (EvMerged k cost)
  with assms(3) obtain c where c: "child_of p k = Some c" "ch_state c \<in> {Claimed, PrOpen, CI}"
    by (auto simp: state_in_def split: option.splits)
  with assms(2) have dm: "deps_merged p c" by (auto simp: order_inv_def started_def active_state_def)
  from c(1) obtain q where q: "report_change k c (merged_child cost c) p q"
    "report_merged k cost p = check_and_advance_wave q" by (rule report_merged_change)
  have "order_inv q"
    using order_inv_change [OF assms(2), of k c "merged_child cost c" q] q(1) dm
    by (simp add: report_change_def merged_child_def)
  with q(2) assms(4) EvMerged check_and_advance_wave_cases [of q p'] order_inv_cong
  show ?thesis by (metis exec_step.simps(4))
next
  case (EvFailed k r cost h)
  with assms(3) obtain c where c: "child_of p k = Some c" "ch_state c \<in> {Claimed, PrOpen, CI}"
    by (auto simp: state_in_def split: option.splits)
  let ?cap = "max_tier_attempts (config p)"
  from c(1) obtain c' q where f: "one_change k c c' p q"
    "ch_state c' = (if to_human ?cap c then PausedForHuman else Queued)"
    "report_failed k r cost h p = (if to_human ?cap c
      then map_option (audit (ABranchPaused k)) (pause_dependent_branches k q) else Some q)"
    by (rule report_failed_change)
  have "order_inv q"
    by (rule order_inv_change [OF assms(2) f(1)]) (use f(2) c(2) in \<open>auto simp: started_def active_state_def\<close>)
  moreover have "plan_inv q"
    using plan_inv_shape one_change_shape [OF f(1)] assms(1) by (auto simp: run_inv_def plan_inv_keyed)
  ultimately show ?thesis
    using f(3) assms(4) EvFailed order_inv_pause
    by (cases "to_human ?cap c") auto
qed

end
