(* ===== verification/Executor_Bounds.thy ===== *)
theory Executor_Bounds
  imports Executor_Runs
begin

text \<open>
  What the executor promises along a run: no step gets stuck, blocked and exhausted children stay
  paused, a child starts only after its dependencies merged, repeated failures reach a human after a
  bounded number of attempts when no executor profile is pinned, and the dispatch route without
  explicit keys respects the concurrency cap. Counterexamples show what the code does not promise:
  a pinned profile lowers the tier again, explicit keys pass the cap and can stall the waves, and an
  unexpected report re-queues a merged child.
\<close>

section \<open>Escalation\<close>

text \<open>The failures a child can still absorb before it is handed to a human.\<close>

definition failures_left :: "nat \<Rightarrow> child_record \<Rightarrow> nat" where
  "failures_left cap c = (2 - tier_rank (ch_tier c)) * cap + (cap - ch_attempts c)"

definition is_failure_of :: "string \<Rightarrow> exec_event \<Rightarrow> bool" where
  "is_failure_of k ev = (case ev of EvFailed k' r cost h \<Rightarrow> k' = k | _ \<Rightarrow> False)"

definition unpinned :: "exec_event \<Rightarrow> bool" where
  "unpinned ev = (case ev of EvDispatch env k \<Rightarrow> str_or (env_pinned env) None = None | _ \<Rightarrow> True)"

lemma resolve_tier_unpinned:
  "str_or pn None = None \<Longrightarrow> fst (snd (resolve_child_executor t pn reg b)) = t"
  by (simp add: resolve_child_executor_def Let_def)

text \<open>One step, seen from child \<open>k\<close>.\<close>

definition absorbs :: "string \<Rightarrow> nat \<Rightarrow> pipeline \<Rightarrow> pipeline \<Rightarrow> bool" where
  "absorbs k n p q =
     (config q = config p \<and> (k \<in> paused_branches p \<longrightarrow> k \<in> paused_branches q) \<and>
      (\<forall>c. child_of p k = Some c \<longrightarrow> (\<exists>d. child_of q k = Some d \<and>
         (k \<in> paused_branches q \<or>
          failures_left (max_tier_attempts (config p)) d + n \<le> failures_left (max_tier_attempts (config p)) c))))"

lemma absorbs_change:
  assumes "one_change j c c' p q" and "paused_branches p \<subseteq> paused_branches q"
    and "j = k \<Longrightarrow> k \<in> paused_branches q \<or>
      failures_left (max_tier_attempts (config p)) c' + n \<le> failures_left (max_tier_attempts (config p)) c"
    and "j \<noteq> k \<Longrightarrow> n = 0"
  shows "absorbs k n p q"
  using assms unfolding absorbs_def by (auto simp: one_change_child_of [OF assms(1)] one_change_def)

lemma absorbs_refl: "absorbs k 0 p p"
  by (simp add: absorbs_def)

lemma absorbs_trans: "absorbs k m p q \<Longrightarrow> absorbs k n q r \<Longrightarrow> absorbs k (m + n) p r"
  unfolding absorbs_def by fastforce

lemma absorbs_cong:
  "absorbs k n p q \<Longrightarrow> children r = children q \<Longrightarrow> config r = config q \<Longrightarrow>
     paused_branches r = paused_branches q \<Longrightarrow> absorbs k n p r"
  by (simp add: absorbs_def child_of_def)

lemma absorbs_pause:
  assumes "plan_inv p" and "pause_dependent_branches j p = Some p'"
  shows "absorbs k 0 p p'"
proof -
  from assms(1) obtain q D where "pause_dependent_branches j p = Some q" and sh: "shape q = shape p"
    and pb: "paused_branches q = paused_branches p \<union> D"
    and ch: "\<And>i. child_of q i = map_option (\<lambda>c. if i \<in> D then c\<lparr>ch_state := Blocked\<rparr> else c) (child_of p i)"
    by (rule pause_total) blast
  with assms(2) shape_config [OF sh] show ?thesis
    by (auto simp: absorbs_def failures_left_def)
qed

lemma failed_left:
  assumes "(ch_tier c', ch_attempts c') = failed_tier cap c" and "\<not> to_human cap c" and "ch_attempts c < cap"
  shows "failures_left cap c' + 1 \<le> failures_left cap c"
  using assms
  by (cases "ch_tier c") (auto simp: failed_tier_def to_human_def failures_left_def split: if_splits)

lemma absorbs_step:
  assumes "run_inv p" and "unpinned ev" and "exec_step ev p = Some p'"
  shows "absorbs k (if is_failure_of k ev \<and> child_of p k \<noteq> None then 1 else 0) p p'"
proof (cases ev)
  case (EvDispatch env j)
  obtain r q where d: "dispatch_child env j p = (r, q)" by (metis prod.exhaust)
  with assms(3) EvDispatch have "p' = q" by simp
  from d show ?thesis
  proof (cases rule: dispatch_child_cases)
    case same
    with EvDispatch \<open>p' = q\<close> show ?thesis by (simp add: is_failure_of_def absorbs_refl)
  next
    case (change c c')
    have "ch_tier c' = ch_tier c"
      using change(4) assms(2) EvDispatch by (simp add: unpinned_def resolve_tier_unpinned)
    with change(2,3,6) EvDispatch \<open>p' = q\<close> show ?thesis
      by (auto simp: is_failure_of_def failures_left_def intro: absorbs_change)
  qed
next
  case (EvPrOpened j n)
  show ?thesis
  proof (cases "child_of p j")
    case None
    with assms(3) EvPrOpened show ?thesis by (simp add: report_pr_opened_def is_failure_of_def absorbs_refl)
  next
    case (Some c)
    have "report_change j c (c\<lparr>ch_pr_number := Some n, ch_state := PrOpen\<rparr>) p p'"
      using report_pr_opened_change [OF _ Some, of n] assms(1,3) EvPrOpened
      by (simp add: run_inv_def plan_inv_keyed)
    with EvPrOpened show ?thesis
      unfolding report_change_def by (auto simp: is_failure_of_def failures_left_def intro: absorbs_change)
  qed
next
  case (EvCi j s)
  show ?thesis
  proof (cases "child_of p j")
    case None
    with assms(3) EvCi show ?thesis by (simp add: report_ci_none is_failure_of_def absorbs_refl)
  next
    case (Some c)
    let ?c = "if ci_running s then c\<lparr>ch_pr_status := Some s, ch_state := CI\<rparr> else c\<lparr>ch_pr_status := Some s\<rparr>"
    have "p' = report_ci_status j s p" using assms(3) EvCi by simp
    then have "report_change j c ?c p p'"
      using report_ci_change [OF plan_inv_keyed Some] assms(1) unfolding run_inv_def by blast
    moreover have "ch_tier ?c = ch_tier c" "ch_attempts ?c = ch_attempts c" by auto
    ultimately show ?thesis
      using EvCi absorbs_change [of j c ?c p p' k 0]
      unfolding report_change_def by (simp add: is_failure_of_def failures_left_def)
  qed
next
  case (EvMerged j cost)
  show ?thesis
  proof (cases "child_of p j")
    case None
    with assms(3) EvMerged show ?thesis by (simp add: report_merged_def is_failure_of_def absorbs_refl)
  next
    case (Some c)
    then obtain q where q: "report_change j c (merged_child cost c) p q"
      "report_merged j cost p = check_and_advance_wave q" by (rule report_merged_change)
    have "absorbs k 0 p q"
      using q(1) unfolding report_change_def
      by (auto simp: failures_left_def merged_child_def intro: absorbs_change)
    moreover have "check_and_advance_wave q = Some p'" using q(2) assms(3) EvMerged by simp
    note check_and_advance_wave_cases [OF this]
    ultimately have "absorbs k 0 p p'" using absorbs_cong [of k 0 p q p'] by auto
    with EvMerged show ?thesis by (simp add: is_failure_of_def)
  qed
next
  case (EvFailed j r cost h)
  show ?thesis
  proof (cases "child_of p j")
    case None
    with assms(3) EvFailed show ?thesis by (auto simp: report_failed_def is_failure_of_def absorbs_refl)
  next
    case (Some c)
    let ?cap = "max_tier_attempts (config p)" and ?n = "if is_failure_of k ev \<and> child_of p k \<noteq> None then 1 else 0 :: nat"
    from Some obtain c' q where f: "one_change j c c' p q"
      "(ch_tier c', ch_attempts c') = failed_tier ?cap c"
      "paused_branches q = (if to_human ?cap c then insert j (paused_branches p) else paused_branches p)"
      "report_failed j r cost h p = (if to_human ?cap c
        then map_option (audit (ABranchPaused j)) (pause_dependent_branches j q) else Some q)"
      by (rule report_failed_change)
    have ok: "paused_ok p j c" using assms(1) Some by (simp add: run_inv_def)
    have sub: "paused_branches p \<subseteq> paused_branches q" by (auto simp: f(3))
    have q: "absorbs k ?n p q"
    proof (rule absorbs_change [OF f(1) sub])
      assume "j = k"
      then show "k \<in> paused_branches q \<or> failures_left ?cap c' + ?n \<le> failures_left ?cap c"
        using failed_left [OF f(2)] ok sub f(3) by (auto simp: paused_ok_def)
    next
      assume "j \<noteq> k"
      then show "?n = 0" using EvFailed by (simp add: is_failure_of_def)
    qed
    have pq: "plan_inv q"
      using plan_inv_shape one_change_shape [OF f(1)] assms(1) by (auto simp: run_inv_def plan_inv_keyed)
    show ?thesis
    proof (cases "to_human ?cap c")
      case False
      with f(4) assms(3) EvFailed q show ?thesis by simp
    next
      case True
      with f(4) assms(3) EvFailed obtain z where z: "pause_dependent_branches j q = Some z"
        "p' = audit (ABranchPaused j) z" by auto
      have "absorbs k (?n + 0) p z" by (rule absorbs_trans [OF q absorbs_pause [OF pq z(1)]])
      then show ?thesis using absorbs_cong [of k ?n p z p'] z(2) by simp
    qed
  qed
qed

fun exec_run :: "exec_event list \<Rightarrow> pipeline \<Rightarrow> pipeline option" where
  "exec_run [] p = Some p"
| "exec_run (ev # evs) p = (case exec_step ev p of None \<Rightarrow> None | Some q \<Rightarrow> exec_run evs q)"

lemma run_inv_run: "run_inv p \<Longrightarrow> \<exists>p'. exec_run evs p = Some p' \<and> run_inv p'"
proof (induction evs arbitrary: p)
  case Nil
  then show ?case by simp
next
  case (Cons ev evs)
  from run_inv_step [OF Cons.prems, of ev] obtain q where "exec_step ev p = Some q" "run_inv q" by blast
  with Cons.IH show ?case by simp
qed

lemma absorbs_run:
  assumes "run_inv p" and "child_of p k \<noteq> None" and "\<forall>ev \<in> set evs. unpinned ev" and "exec_run evs p = Some p'"
  shows "absorbs k (length (filter (is_failure_of k) evs)) p p'"
  using assms
proof (induction evs arbitrary: p)
  case Nil
  then show ?case by (simp add: absorbs_refl)
next
  case (Cons ev evs)
  from run_inv_step [OF Cons.prems(1), of ev] obtain q where q: "exec_step ev p = Some q" "run_inv q" by blast
  have a: "absorbs k (if is_failure_of k ev then 1 else 0) p q"
    using absorbs_step [OF Cons.prems(1) _ q(1), of k] Cons.prems(2,3) by simp
  have "child_of q k \<noteq> None" using a Cons.prems(2) by (auto simp: absorbs_def)
  with Cons.IH [OF q(2)] Cons.prems(3,4) q(1) have "absorbs k (length (filter (is_failure_of k) evs)) q p'" by simp
  from absorbs_trans [OF a this] show ?case by (simp split: if_splits)
qed

section \<open>Properties of every run\<close>

text \<open>C3: In every state that dispatches and reports reach from a plan in which no child depends on itself, every
  dispatch and every report completes: no key is missing and the pausing of a branch always ends.\<close>

theorem run_never_stuck:
  assumes "exec_reach allowed p"
  shows "\<exists>p'. exec_step ev p = Some p'"
  using run_inv_step [OF reach_run_inv [OF assms]] by blast

definition start_pipeline :: "child_payload list \<Rightarrow> pipeline" where
  "start_pipeline pls = snd (initialize pls (new_pipeline ''cr'' sample_config ''s''))"

lemma start_ab:
  "initialize [sample_payload ''a'' [] Strong, sample_payload ''b'' [''a''] Ollama] (new_pipeline ''cr'' sample_config ''s'') =
     (None, start_pipeline [sample_payload ''a'' [] Strong, sample_payload ''b'' [''a''] Ollama])"
proof -
  have "compute_waves [(''a'', []), (''b'', [''a''])] = Inr [[''a''], [''b'']]" by code_simp
  then show ?thesis by (simp add: start_pipeline_def initialize_def sample_payload_def)
qed

lemma reach_ab: "exec_reach allowed (start_pipeline [sample_payload ''a'' [] Strong, sample_payload ''b'' [''a''] Ollama])"
  by (rule reach_init [OF start_ab]) (simp_all add: sample_payload_def sample_config_def)

theorem run_never_stuck_witness:
  "\<exists>p'. report_failed ''a'' ''x'' 0 []
     (start_pipeline [sample_payload ''a'' [] Strong, sample_payload ''b'' [''a''] Ollama]) = Some p'"
  using run_never_stuck [OF reach_ab [where allowed = "\<lambda>_ _. True"], of "EvFailed ''a'' ''x'' 0 []"] by simp

text \<open>In every reachable state a child that is blocked, handed to a human, or out of attempts is in
  the paused branches, and is not dispatched again.\<close>

theorem blocked_stay_paused:
  assumes "exec_reach allowed p" and "child_of p k = Some c"
    and "ch_state c \<in> {PausedForHuman, Blocked} \<or> max_tier_attempts (config p) \<le> ch_attempts c"
  shows "k \<in> paused_branches p \<and> dispatch_child env k p = (ChildNotReady k, p)"
proof -
  have "k \<in> paused_branches p"
    using reach_run_inv [OF assms(1)] assms(2,3) unfolding run_inv_def paused_ok_def by blast
  with assms(2) show ?thesis by (simp add: dispatch_child_def is_child_ready_def)
qed

definition sample_env :: exec_env where
  "sample_env = \<lparr>env_pinned = None, env_budget = None, env_registry = [],
     env_check = \<lambda>_ _. (False, []), env_poster = \<lambda>_ _ _ _. Inr None\<rparr>"

lemma start_ab_state:
  defines "p \<equiv> start_pipeline [sample_payload ''a'' [] Strong, sample_payload ''b'' [''a''] Ollama]"
  shows "children p = [child_from_payload [[''a''], [''b'']] (sample_payload ''a'' [] Strong),
      child_from_payload [[''a''], [''b'']] (sample_payload ''b'' [''a''] Ollama)]"
    and "config p = sample_config" and "paused_branches p = {}" and "waves p = [[''a''], [''b'']]"
proof -
  have "compute_waves [(''a'', []), (''b'', [''a''])] = Inr [[''a''], [''b'']]" by code_simp
  then show "children p = [child_from_payload [[''a''], [''b'']] (sample_payload ''a'' [] Strong),
      child_from_payload [[''a''], [''b'']] (sample_payload ''b'' [''a''] Ollama)]"
    and "config p = sample_config" and "paused_branches p = {}" and "waves p = [[''a''], [''b'']]"
    by (simp_all add: p_def start_pipeline_def initialize_def sample_payload_def put_child_def
        child_from_payload_def new_pipeline_def)
qed

lemma start_ab_child:
  "child_of (start_pipeline [sample_payload ''a'' [] Strong, sample_payload ''b'' [''a''] Ollama]) ''a'' =
     Some (child_from_payload [[''a''], [''b'']] (sample_payload ''a'' [] Strong))"
  by (simp add: child_of_def start_ab_state) (simp add: child_from_payload_def sample_payload_def)

lemma start_a:
  "initialize [sample_payload ''a'' [] Strong] (new_pipeline ''cr'' sample_config ''s'') =
     (None, start_pipeline [sample_payload ''a'' [] Strong])"
  "children (start_pipeline [sample_payload ''a'' [] Strong]) = [child_from_payload [[''a'']] (sample_payload ''a'' [] Strong)]"
  "config (start_pipeline [sample_payload ''a'' [] Strong]) = sample_config"
  "paused_branches (start_pipeline [sample_payload ''a'' [] Strong]) = {}"
proof -
  have w: "compute_waves [(''a'', [])] = Inr [[''a'']]" by code_simp
  then show "initialize [sample_payload ''a'' [] Strong] (new_pipeline ''cr'' sample_config ''s'') =
     (None, start_pipeline [sample_payload ''a'' [] Strong])"
    by (simp add: start_pipeline_def initialize_def sample_payload_def)
  from w show "children (start_pipeline [sample_payload ''a'' [] Strong]) = [child_from_payload [[''a'']] (sample_payload ''a'' [] Strong)]"
    and "config (start_pipeline [sample_payload ''a'' [] Strong]) = sample_config"
    and "paused_branches (start_pipeline [sample_payload ''a'' [] Strong]) = {}"
    by (simp_all add: start_pipeline_def initialize_def sample_payload_def put_child_def new_pipeline_def)
qed

lemma child_from_sample [simp]:
  "ch_key (child_from_payload ws (sample_payload k ds t)) = k"
  "ch_dependencies (child_from_payload ws (sample_payload k ds t)) = ds"
  "ch_state (child_from_payload ws (sample_payload k ds t)) = Queued"
  "ch_tier (child_from_payload ws (sample_payload k ds t)) = t"
  "ch_attempts (child_from_payload ws (sample_payload k ds t)) = 0"
  "ch_agent (child_from_payload ws (sample_payload k ds t)) = None"
  "ch_repository (child_from_payload ws (sample_payload k ds t)) = ''r''"
  "ch_issue_number (child_from_payload ws (sample_payload k ds t)) = None"
  by (simp_all add: child_from_payload_def sample_payload_def)

lemma sample_config_simps [simp]:
  "max_tier_attempts sample_config = 1" "max_concurrent_per_repo sample_config = 1"
  "auto_advance_waves sample_config = True"
  by (simp_all add: sample_config_def)

theorem blocked_stay_paused_witness:
  "\<exists>p c. child_of p ''a'' = Some c \<and> ch_state c = PausedForHuman \<and>
     dispatch_child sample_env ''a'' p = (ChildNotReady ''a'', p)"
proof -
  let ?s = "start_pipeline [sample_payload ''a'' [] Strong]"
  have r: "exec_reach (\<lambda>_ _. True) ?s"
    by (rule reach_init [OF start_a(1)]) (simp_all add: sample_payload_def)
  have "\<exists>p. report_failed ''a'' ''x'' 0 [] ?s = Some p \<and> (\<exists>c. child_of p ''a'' = Some c \<and> ch_state c = PausedForHuman)"
    by (simp add: report_failed_def child_of_def start_a Let_def release_if_held_def pause_dependent_branches_def
        pause_loop.simps block_step_def)
  then obtain p c where p: "exec_step (EvFailed ''a'' ''x'' 0 []) ?s = Some p" "child_of p ''a'' = Some c"
    "ch_state c = PausedForHuman" by auto
  have "exec_reach (\<lambda>_ _. True) p" by (rule reach_step [OF r _ p(1)]) simp
  from blocked_stay_paused [OF this p(2)] p(2,3) show ?thesis by auto
qed

lemma reach_order_inv: "exec_reach orderly p \<Longrightarrow> order_inv p"
proof (induction rule: exec_reach.induct)
  case (reach_init pls cr cfg sid p)
  from initialize_ok [OF reach_init(1)] obtain ws where "children p = map (child_from_payload ws) pls" by metis
  then have "ch_state c = Queued" if "child_of p k = Some c" for k c
    using child_of_SomeD [OF that] by (auto simp: child_from_payload_def)
  then show ?case by (auto simp: order_inv_def started_def active_state_def)
next
  case (reach_step p ev p')
  then show ?case using orderly_step reach_run_inv by blast
qed

text \<open>C4: When reports only come for children that hold a claim, and no child of the plan depends on itself, a child that was claimed, has an open
  pull request, is in CI or merged has all its sibling dependencies merged.\<close>

theorem starts_after_dependencies:
  assumes "exec_reach orderly p" and "child_of p k = Some c"
    and "ch_state c \<in> {Claimed, PrOpen, CI, Merged}"
    and "d \<in> set (ch_dependencies c)" and "child_of p d = Some r"
  shows "ch_state r = Merged"
proof -
  have "started c" using assms(3) by (auto simp: started_def active_state_def)
  with reach_order_inv [OF assms(1)] assms(2) have "deps_merged p c" by (simp add: order_inv_def)
  with assms(4,5) show ?thesis by (auto simp: deps_merged_def dest!: bspec)
qed

definition claimed_child :: "child_record \<Rightarrow> child_record" where
  "claimed_child c = c\<lparr>ch_agent := Some (cheapest_provider (ch_tier c) [] None),
     ch_lease_receipt := Some ''simulated_lease'', ch_state := Claimed\<rparr>"

lemma claimed_child_simps [simp]:
  "ch_key (claimed_child c) = ch_key c" "ch_dependencies (claimed_child c) = ch_dependencies c"
  "ch_state (claimed_child c) = Claimed" "ch_issue_number (claimed_child c) = ch_issue_number c"
  "ch_repository (claimed_child c) = ch_repository c" "ch_tier (claimed_child c) = ch_tier c"
  by (simp_all add: claimed_child_def)

lemma merged_child_simps [simp]:
  "ch_key (merged_child x c) = ch_key c" "ch_dependencies (merged_child x c) = ch_dependencies c"
  "ch_state (merged_child x c) = Merged" "ch_issue_number (merged_child x c) = ch_issue_number c"
  "ch_repository (merged_child x c) = ch_repository c" "ch_tier (merged_child x c) = ch_tier c"
  by (simp_all add: merged_child_def)

lemma dispatch_no_issue:
  assumes "child_of p k = Some c" and "is_child_ready k p" and "ch_issue_number c = None"
  obtains p' where "snd (dispatch_child sample_env k p) = p'"
    "children p' = row_update ch_key k (\<lambda>_. claimed_child c) (children p)" "waves p' = waves p"
    "config p' = config p" "paused_branches p' = paused_branches p" "current_wave_idx p' = current_wave_idx p"
  using assms child_of_SomeD [OF assms(1)] that
  by (simp add: dispatch_child_def sample_env_def resolve_unpinned can_dispatch_child_def no_issue_def
      post_child_lease_def Let_def row_update_const_twice claimed_child_def)

lemma merge_children:
  assumes "child_of p k = Some c" and "report_merged k cost p = Some p'"
  shows "children p' = row_update ch_key k (\<lambda>_. merged_child cost c) (children p) \<and>
     paused_branches p' = paused_branches p \<and> waves p' = waves p \<and> config p' = config p"
proof -
  from assms(1) obtain q where q: "report_change k c (merged_child cost c) p q"
    "report_merged k cost p = check_and_advance_wave q" by (rule report_merged_change)
  then have "check_and_advance_wave q = Some p'" using assms(2) by simp
  from check_and_advance_wave_cases [OF this] q(1) show ?thesis
    by (auto simp: report_change_def one_change_def)
qed

lemma dispatch_merge_ab:
  defines "s \<equiv> start_pipeline [sample_payload ''a'' [] Strong, sample_payload ''b'' [''a''] Ollama]"
  shows "\<exists>p1 p2 p3. exec_step (EvDispatch sample_env ''a'') s = Some p1 \<and>
     exec_step (EvMerged ''a'' 0) p1 = Some p2 \<and> exec_step (EvDispatch sample_env ''b'') p2 = Some p3 \<and>
     orderly (EvMerged ''a'' 0) p1 \<and>
     (\<exists>c r. child_of p3 ''b'' = Some c \<and> ch_state c = Claimed \<and> ch_dependencies c = [''a''] \<and> child_of p3 ''a'' = Some r)"
proof -
  let ?a = "child_from_payload [[''a''], [''b'']] (sample_payload ''a'' [] Strong)"
  let ?b = "child_from_payload [[''a''], [''b'']] (sample_payload ''b'' [''a''] Ollama)"
  have s: "children s = [?a, ?b]" "paused_branches s = {}" "waves s = [[''a''], [''b'']]" "config s = sample_config"
    by (simp_all add: s_def start_ab_state)
  have "child_of s ''a'' = Some ?a" "is_child_ready ''a'' s"
    by (simp_all add: child_of_def is_child_ready_def deps_merged_def s)
  then obtain p1 where p1: "snd (dispatch_child sample_env ''a'' s) = p1"
    "children p1 = [claimed_child ?a, ?b]" "paused_branches p1 = {}" "waves p1 = waves s" "config p1 = sample_config"
    by (rule dispatch_no_issue) (simp_all add: s)
  have "run_inv p1" using run_inv_dispatch [OF reach_run_inv [OF reach_ab], of sample_env "''a''"] p1(1) by (simp add: s_def)
  from run_inv_step [OF this, of "EvMerged ''a'' 0"] obtain p2 where p2: "report_merged ''a'' 0 p1 = Some p2" by auto
  have a1: "child_of p1 ''a'' = Some (claimed_child ?a)" by (simp add: child_of_def p1(2))
  from merge_children [OF this p2] have c2: "children p2 = [merged_child 0 (claimed_child ?a), ?b]" "paused_branches p2 = {}"
    by (simp_all add: p1)
  have "child_of p2 ''b'' = Some ?b" "is_child_ready ''b'' p2"
    by (simp_all add: child_of_def is_child_ready_def deps_merged_def c2)
  then obtain p3 where p3: "snd (dispatch_child sample_env ''b'' p2) = p3"
    "children p3 = [merged_child 0 (claimed_child ?a), claimed_child ?b]"
    by (rule dispatch_no_issue) (simp_all add: c2)
  from p1(1) p2 p3 a1 show ?thesis
    by (intro exI [of _ p1] exI [of _ p2] exI [of _ p3]) (simp add: child_of_def state_in_def)
qed

theorem starts_after_dependencies_witness:
  "\<exists>p r. exec_reach orderly p \<and> child_of p ''a'' = Some r \<and> ch_state r = Merged"
proof -
  let ?s = "start_pipeline [sample_payload ''a'' [] Strong, sample_payload ''b'' [''a''] Ollama]"
  from dispatch_merge_ab obtain p1 p2 p3 c r where
    p: "exec_step (EvDispatch sample_env ''a'') ?s = Some p1" "exec_step (EvMerged ''a'' 0) p1 = Some p2"
      "exec_step (EvDispatch sample_env ''b'') p2 = Some p3" "orderly (EvMerged ''a'' 0) p1"
    and c: "child_of p3 ''b'' = Some c" "ch_state c = Claimed" "ch_dependencies c = [''a'']" "child_of p3 ''a'' = Some r"
    by blast
  have "exec_reach orderly p1" by (rule reach_step [OF reach_ab _ p(1)]) simp
  from reach_step [OF this p(4,2)] have "exec_reach orderly p2" .
  from reach_step [OF this _ p(3)] have "exec_reach orderly p3" by simp
  from starts_after_dependencies [OF this c(1) _ _ c(4)] c this show ?thesis by auto
qed

text \<open>C5: Without a pinned executor profile, a child that is reported failed three times the allowed
  attempts per tier, in any interleaving with other dispatches and reports, is paused for good: the
  retries are bounded.\<close>

theorem failures_reach_a_human:
  assumes "exec_reach allowed p" and "child_of p k = Some c" and "ch_attempts c = 0"
    and "\<forall>ev \<in> set evs. unpinned ev"
    and "3 * max_tier_attempts (config p) \<le> length (filter (is_failure_of k) evs)"
  shows "\<exists>p'. exec_run evs p = Some p' \<and> k \<in> paused_branches p' \<and> \<not> is_child_ready k p'"
proof -
  let ?cap = "max_tier_attempts (config p)"
  note inv = reach_run_inv [OF assms(1)]
  obtain p' where p': "exec_run evs p = Some p'" "run_inv p'" using run_inv_run [OF inv] by blast
  have cap: "0 < ?cap" using inv by (simp add: run_inv_def)
  from absorbs_run [OF inv _ assms(4) p'(1), of k] assms(2)
  obtain d where cfg: "config p' = config p" and d: "child_of p' k = Some d"
    and l: "k \<in> paused_branches p' \<or>
      failures_left ?cap d + length (filter (is_failure_of k) evs) \<le> failures_left ?cap c"
    by (auto simp: absorbs_def)
  have "failures_left ?cap c \<le> 3 * ?cap" by (cases "ch_tier c") (auto simp: failures_left_def)
  with assms(5) l have "k \<in> paused_branches p' \<or> failures_left ?cap d = 0" by linarith
  then have "k \<in> paused_branches p'"
  proof
    assume "failures_left ?cap d = 0"
    then have "?cap \<le> ch_attempts d" by (simp add: failures_left_def)
    with p'(2) d cfg show ?thesis by (auto simp: run_inv_def paused_ok_def)
  qed
  with p'(1) d show ?thesis by (auto simp: is_child_ready_def)
qed

theorem failures_reach_a_human_witness:
  "\<exists>p'. exec_run (replicate 3 (EvFailed ''a'' ''x'' 0 [])) (start_pipeline [sample_payload ''a'' [] Strong]) = Some p' \<and>
     ''a'' \<in> paused_branches p'"
proof -
  let ?s = "start_pipeline [sample_payload ''a'' [] Strong]"
  have r: "exec_reach (\<lambda>_ _. True) ?s"
    by (rule reach_init [OF start_a(1)]) (simp_all add: sample_payload_def)
  have c: "child_of ?s ''a'' = Some (child_from_payload [[''a'']] (sample_payload ''a'' [] Strong))"
    by (simp add: child_of_def start_a)
  have "\<forall>ev \<in> set (replicate 3 (EvFailed ''a'' ''x'' 0 [])). unpinned ev" by (simp add: unpinned_def)
  moreover have "3 * max_tier_attempts (config ?s) \<le>
      length (filter (is_failure_of ''a'') (replicate 3 (EvFailed ''a'' ''x'' 0 [])))"
    by (simp add: start_a is_failure_of_def)
  ultimately show ?thesis
    using failures_reach_a_human [OF r c, of "replicate 3 (EvFailed ''a'' ''x'' 0 [])"] by auto
qed

text \<open>A pinned profile of the lowest tier undoes the escalation: whatever the child's tier, a ready
  child that is dispatched and fails is ready again, so it is retried without end and never reaches a
  human.\<close>

theorem pinned_profile_retries_forever:
  assumes "exec_reach allowed p" and "is_child_ready k p"
    and "env_pinned env = Some pin" and "pin \<noteq> []" and "profile_tier pin = Ollama"
  shows "\<exists>p'. report_failed k reason cost h (snd (dispatch_child env k p)) = Some p' \<and> is_child_ready k p'"
proof -
  obtain r q where d: "dispatch_child env k p = (r, q)" by (metis prod.exhaust)
  obtain c where c: "child_of p k = Some c" "ch_state c = Queued" "k \<notin> paused_branches p" "deps_merged p c"
    using assms(2) by (auto simp: is_child_ready_def split: option.splits)
  from d show ?thesis
  proof (cases rule: dispatch_child_cases)
    case same
    with assms(2) c(1) show ?thesis by simp
  next
    case (change c0 c1)
    then have c0: "c0 = c" using c(1) by (simp add: one_change_def)
    have "ch_tier c1 \<noteq> Strong"
      using change(4) assms(3-5) resolve_pinned [of pin "ch_tier c0" "env_registry env" "env_budget env"]
      by (auto split: if_splits)
    then have nh: "\<not> to_human (max_tier_attempts (config q)) c1" by (simp add: to_human_def)
    have c1: "child_of q k = Some c1" by (simp add: one_change_child_of [OF change(2)])
    then obtain c2 p' where f: "one_change k c1 c2 q p'" "ch_state c2 = Queued"
      "paused_branches p' = paused_branches q" "report_failed k reason cost h q = Some p'"
      using report_failed_change [of q k c1 reason cost h] nh by metis
    have "deps_merged q c"
      by (rule deps_merged_change [OF change(2)]) (use c c0 in auto)
    moreover have "ch_state c1 \<noteq> Merged" using change(5) by (auto split: if_splits)
    ultimately have "deps_merged p' c" using deps_merged_change [OF f(1)] by blast
    moreover have "ch_dependencies c2 = ch_dependencies c"
      using f(1) change(2) c0 by (simp add: one_change_def)
    ultimately have "deps_merged p' c2" by (simp add: deps_merged_def)
    with f(2,3) change(6) c(3) d f(4) show ?thesis
      by (simp add: is_child_ready_def one_change_child_of [OF f(1)])
  qed
qed

theorem pinned_profile_retries_forever_witness:
  "\<exists>p'. report_failed ''a'' ''x'' 0 []
       (snd (dispatch_child (sample_env\<lparr>env_pinned := Some ''ollama-default''\<rparr>) ''a''
              (start_pipeline [sample_payload ''a'' [] Strong]))) = Some p' \<and> is_child_ready ''a'' p'"
proof (rule pinned_profile_retries_forever)
  show "exec_reach (\<lambda>_ _. True) (start_pipeline [sample_payload ''a'' [] Strong])"
    by (rule reach_init [OF start_a(1)]) (simp_all add: sample_payload_def)
  show "is_child_ready ''a'' (start_pipeline [sample_payload ''a'' [] Strong])"
    by (simp add: is_child_ready_def child_of_def deps_merged_def start_a)
  show "profile_tier ''ollama-default'' = Ollama" by code_simp
qed simp_all

section \<open>The concurrency cap\<close>

definition repo_of :: "pipeline \<Rightarrow> string \<Rightarrow> string option" where
  "repo_of p k = map_option ch_repository (child_of p k)"

lemma one_change_repo_of: "one_change k c c' p q \<Longrightarrow> repo_of q = repo_of p"
  by (rule ext) (auto simp: repo_of_def one_change_child_of one_change_def)

lemma dispatch_slots:
  assumes "keyed ch_key (children p)"
  shows "active_count (snd (dispatch_child env k p)) r \<le> active_count p r + (if repo_of p k = Some r then 1 else 0) \<and>
     repo_of (snd (dispatch_child env k p)) = repo_of p \<and> keyed ch_key (children (snd (dispatch_child env k p)))"
proof -
  obtain a q where d: "dispatch_child env k p = (a, q)" by (metis prod.exhaust)
  then show ?thesis
  proof (cases rule: dispatch_child_cases)
    case same
    with assms d show ?thesis by simp
  next
    case (change c c')
    have "slot r c' \<le> (if repo_of p k = Some r then 1 else 0)"
      using change(2) by (auto simp: slot_def repo_of_def one_change_def)
    with one_change_active [OF change(2) assms, of r] have
      "active_count q r \<le> active_count p r + (if repo_of p k = Some r then 1 else 0)" by linarith
    with d one_change_repo_of [OF change(2)] one_change_keyed [OF change(2) assms] show ?thesis by simp
  qed
qed

lemma dispatch_all_slots:
  "keyed ch_key (children p) \<Longrightarrow>
     active_count (snd (dispatch_all env ks p)) r \<le> active_count p r + length (filter (\<lambda>k. repo_of p k = Some r) ks)"
proof (induction ks arbitrary: p)
  case Nil
  then show ?case by simp
next
  case (Cons k ks)
  let ?q = "snd (dispatch_child env k p)"
  have "snd (dispatch_all env (k # ks) p) = snd (dispatch_all env ks ?q)"
    by (simp split: prod.split)
  moreover note Cons.IH [of ?q] dispatch_slots [OF Cons.prems, of env k r]
  ultimately show ?case by fastforce
qed

lemma ready_scan_slots:
  "ready_scan p counts ks = Some cs \<Longrightarrow>
     counts r + length (filter (\<lambda>k. repo_of p k = Some r) (map ch_key cs)) \<le>
       max (counts r) (max_concurrent_per_repo (config p))"
proof (induction ks arbitrary: counts cs)
  case Nil
  then show ?case by simp
next
  case (Cons k ks)
  then obtain c where c: "child_of p k = Some c" by (auto split: option.splits)
  show ?case
  proof (cases "is_child_ready k p \<and> counts (ch_repository c) < max_concurrent_per_repo (config p)")
    case False
    with Cons c show ?thesis by auto
  next
    case True
    let ?counts = "counts(ch_repository c := Suc (counts (ch_repository c)))"
    from True Cons.prems c obtain cs' where cs': "ready_scan p ?counts ks = Some cs'" "cs = c # cs'" by auto
    have "repo_of p (ch_key c) = Some (ch_repository c)"
      using c child_of_SomeD [OF c] by (simp add: repo_of_def)
    with Cons.IH [OF cs'(1)] cs'(2) True show ?thesis by (cases "ch_repository c = r") auto
  qed
qed

text \<open>The dispatch route without explicit keys never takes a repository past the concurrency cap (or
  past the number of children already active in it).\<close>

theorem dispatch_respects_cap:
  assumes "exec_reach allowed p" and "dispatch_executor env [] p = Some (rs, p')"
  shows "active_count p' repo \<le> max (active_count p repo) (max_concurrent_per_repo (config p))"
proof -
  have kd: "keyed ch_key (children p)" using reach_run_inv [OF assms(1)] by (simp add: run_inv_def plan_inv_keyed)
  from assms(2) obtain cs where cs: "get_ready_children p = Some cs" and p': "p' = snd (dispatch_all env (map ch_key cs) p)"
    by (auto simp: dispatch_executor_def split: option.splits)
  have "active_count p repo + length (filter (\<lambda>k. repo_of p k = Some repo) (map ch_key cs)) \<le>
      max (active_count p repo) (max_concurrent_per_repo (config p))"
  proof (cases "length (waves p) \<le> current_wave_idx p")
    case True
    with cs show ?thesis by (simp add: get_ready_children_def)
  next
    case False
    with cs show ?thesis by (intro ready_scan_slots) (simp add: get_ready_children_def)
  qed
  with dispatch_all_slots [OF kd, of env "map ch_key cs" repo] show ?thesis unfolding p' by linarith
qed

theorem dispatch_respects_cap_witness:
  "\<exists>rs p'. dispatch_executor sample_env [] (start_pipeline [sample_payload ''a'' [] Strong]) = Some (rs, p') \<and>
     active_count p' ''r'' \<le> 1"
proof -
  have "dispatch_executor sample_env [] (start_pipeline [sample_payload ''a'' [] Strong]) \<noteq> None" by code_simp
  then obtain rs p' where d: "dispatch_executor sample_env [] (start_pipeline [sample_payload ''a'' [] Strong]) = Some (rs, p')"
    by auto
  have "exec_reach (\<lambda>_ _. True) (start_pipeline [sample_payload ''a'' [] Strong])"
    by (rule reach_init [OF start_a(1)]) (simp_all add: sample_payload_def)
  from dispatch_respects_cap [OF this d, of "''r''"] have "active_count p' ''r'' \<le> 1"
    by (simp add: start_a active_count_def active_state_def)
  with d show ?thesis by blast
qed

section \<open>Explicit keys\<close>

definition diamond :: pipeline where
  "diamond = start_pipeline [sample_payload ''a'' [] Ollama, sample_payload ''b'' [] Ollama,
     sample_payload ''c'' [''a''] Ollama, sample_payload ''d'' [''c''] Ollama]"

lemma wave_merged_present:
  "set ks \<subseteq> ch_key ` set (children p) \<Longrightarrow>
     wave_merged p ks = Some (list_all (\<lambda>j. map_option ch_state (child_of p j) = Some Merged) ks)"
proof (induction ks)
  case Nil
  then show ?case by simp
next
  case (Cons k ks)
  then have "child_of p k \<noteq> None" by (simp add: child_of_None_iff)
  with Cons show ?case by (auto split: option.split)
qed

lemma merge_step:
  assumes "child_of p k = Some c" and "auto_advance_waves (config p)" and "current_wave_idx p < length (waves p)"
    and "set (waves p ! current_wave_idx p) \<subseteq> ch_key ` set (children p)"
  obtains p' where "report_merged k cost p = Some p'"
    "children p' = row_update ch_key k (\<lambda>_. merged_child cost c) (children p)" "waves p' = waves p"
    "config p' = config p" "paused_branches p' = paused_branches p"
    "current_wave_idx p' = (if list_all (\<lambda>j. map_option ch_state
        (row_lookup ch_key j (row_update ch_key k (\<lambda>_. merged_child cost c) (children p))) = Some Merged)
        (waves p ! current_wave_idx p) then Suc (current_wave_idx p) else current_wave_idx p)"
proof -
  from assms(1) obtain q where q: "report_change k c (merged_child cost c) p q"
    "report_merged k cost p = check_and_advance_wave q" by (rule report_merged_change)
  then have c: "children q = row_update ch_key k (\<lambda>_. merged_child cost c) (children p)" "waves q = waves p"
    "config q = config p" "paused_branches q = paused_branches p" "current_wave_idx q = current_wave_idx p"
    by (simp_all add: report_change_def one_change_def)
  have "ch_key ` set (children q) = ch_key ` set (children p)"
  proof -
    have k: "ch_key (merged_child cost c) = k" using child_of_SomeD [OF assms(1)] by simp
    have "map ch_key (row_update ch_key k (\<lambda>_. merged_child cost c) (children p)) = map ch_key (children p)"
      by (rule map_row_update_const) (simp only: k)
    then show ?thesis unfolding c(1) by (metis set_map)
  qed
  then have w: "wave_merged q (waves p ! current_wave_idx p) =
      Some (list_all (\<lambda>j. map_option ch_state (child_of q j) = Some Merged) (waves p ! current_wave_idx p))"
    using assms(4) by (intro wave_merged_present) simp
  let ?m = "list_all (\<lambda>j. map_option ch_state (child_of q j) = Some Merged) (waves p ! current_wave_idx p)"
  let ?p = "if ?m then audit (AWaveAdvanced (Suc (current_wave_idx q))) (q\<lparr>current_wave_idx := Suc (current_wave_idx q)\<rparr>) else q"
  have "report_merged k cost p = Some ?p"
    using assms(2,3) w c(2,3,5) by (simp add: q(2) check_and_advance_wave_def)
  then show ?thesis by (rule that) (simp_all add: c child_of_def)
qed

definition out_of_wave :: "exec_event list" where
  "out_of_wave = [EvDispatch sample_env ''a'', EvMerged ''a'' 0, EvDispatch sample_env ''c'', EvMerged ''c'' 0,
     EvDispatch sample_env ''b'', EvMerged ''b'' 0]"

definition diamond_child :: "string \<Rightarrow> string list \<Rightarrow> child_record" where
  "diamond_child k ds = child_from_payload [[''a'', ''b''], [''c''], [''d'']] (sample_payload k ds Ollama)"

lemma diamond_child_simps [simp]:
  "ch_key (diamond_child k ds) = k" "ch_dependencies (diamond_child k ds) = ds"
  "ch_state (diamond_child k ds) = Queued" "ch_repository (diamond_child k ds) = ''r''"
  "ch_issue_number (diamond_child k ds) = None"
  by (simp_all add: diamond_child_def)

lemma diamond_state:
  "children diamond = [diamond_child ''a'' [], diamond_child ''b'' [], diamond_child ''c'' [''a''], diamond_child ''d'' [''c'']]"
  "config diamond = sample_config" "paused_branches diamond = {}" "current_wave_idx diamond = 0"
  "waves diamond = [[''a'', ''b''], [''c''], [''d'']]"
proof -
  have "compute_waves [(''a'', []), (''b'', []), (''c'', [''a'']), (''d'', [''c''])] = Inr [[''a'', ''b''], [''c''], [''d'']]"
    by code_simp
  then show "children diamond = [diamond_child ''a'' [], diamond_child ''b'' [], diamond_child ''c'' [''a''], diamond_child ''d'' [''c'']]"
    and "config diamond = sample_config" and "paused_branches diamond = {}" and "current_wave_idx diamond = 0"
    and "waves diamond = [[''a'', ''b''], [''c''], [''d'']]"
    by (simp_all add: diamond_def start_pipeline_def initialize_def sample_payload_def put_child_def
        new_pipeline_def diamond_child_def child_from_payload_def)
qed

lemma out_of_wave_run:
  "\<exists>p. exec_run out_of_wave diamond = Some p \<and> is_child_ready ''d'' p \<and> active_count p ''r'' = 0 \<and>
     get_ready_children p = Some []"
proof -
  let ?a = "diamond_child ''a'' []" and ?b = "diamond_child ''b'' []"
  let ?c = "diamond_child ''c'' [''a'']" and ?d = "diamond_child ''d'' [''c'']"
  note s = diamond_state and rdy = child_of_def is_child_ready_def deps_merged_def
  have "child_of diamond ''a'' = Some ?a" "is_child_ready ''a'' diamond" by (simp_all add: rdy s)
  then obtain p1 where p1: "snd (dispatch_child sample_env ''a'' diamond) = p1"
    "children p1 = [claimed_child ?a, ?b, ?c, ?d]" "waves p1 = waves diamond" "config p1 = sample_config"
    "paused_branches p1 = {}" "current_wave_idx p1 = 0"
    by (rule dispatch_no_issue) (simp_all add: s)
  have "child_of p1 ''a'' = Some (claimed_child ?a)" by (simp add: child_of_def p1)
  then obtain p2 where p2: "report_merged ''a'' 0 p1 = Some p2"
    "children p2 = [merged_child 0 (claimed_child ?a), ?b, ?c, ?d]" "waves p2 = waves diamond" "config p2 = sample_config"
    "paused_branches p2 = {}" "current_wave_idx p2 = 0"
    by (rule merge_step [where cost = 0]) (simp_all add: p1 s)
  have "child_of p2 ''c'' = Some ?c" "is_child_ready ''c'' p2" by (simp_all add: rdy p2)
  then obtain p3 where p3: "snd (dispatch_child sample_env ''c'' p2) = p3"
    "children p3 = [merged_child 0 (claimed_child ?a), ?b, claimed_child ?c, ?d]" "waves p3 = waves diamond"
    "config p3 = sample_config" "paused_branches p3 = {}" "current_wave_idx p3 = 0"
    by (rule dispatch_no_issue) (simp_all add: p2)
  have "child_of p3 ''c'' = Some (claimed_child ?c)" by (simp add: child_of_def p3)
  then obtain p4 where p4: "report_merged ''c'' 0 p3 = Some p4"
    "children p4 = [merged_child 0 (claimed_child ?a), ?b, merged_child 0 (claimed_child ?c), ?d]" "waves p4 = waves diamond"
    "config p4 = sample_config" "paused_branches p4 = {}" "current_wave_idx p4 = 0"
    by (rule merge_step [where cost = 0]) (simp_all add: p3 s)
  have "child_of p4 ''b'' = Some ?b" "is_child_ready ''b'' p4" by (simp_all add: rdy p4)
  then obtain p5 where p5: "snd (dispatch_child sample_env ''b'' p4) = p5"
    "children p5 = [merged_child 0 (claimed_child ?a), claimed_child ?b, merged_child 0 (claimed_child ?c), ?d]"
    "waves p5 = waves diamond" "config p5 = sample_config" "paused_branches p5 = {}" "current_wave_idx p5 = 0"
    by (rule dispatch_no_issue) (simp_all add: p4)
  have "child_of p5 ''b'' = Some (claimed_child ?b)" by (simp add: child_of_def p5)
  then obtain p6 where p6: "report_merged ''b'' 0 p5 = Some p6"
    "children p6 = [merged_child 0 (claimed_child ?a), merged_child 0 (claimed_child ?b), merged_child 0 (claimed_child ?c), ?d]"
    "waves p6 = waves diamond" "config p6 = sample_config" "paused_branches p6 = {}" "current_wave_idx p6 = 1"
    by (rule merge_step [where cost = 0]) (simp_all add: p5 s)
  have "exec_run out_of_wave diamond = Some p6"
    by (simp add: out_of_wave_def p1(1) p2(1) p3(1) p4(1) p5(1) p6(1))
  moreover have "is_child_ready ''d'' p6" by (simp add: rdy p6)
  moreover have "active_count p6 ''r'' = 0" by (simp add: active_count_def active_state_def p6)
  moreover have "get_ready_children p6 = Some []"
    by (simp add: get_ready_children_def p6 s is_child_ready_def child_of_def)
  ultimately show ?thesis by blast
qed

lemma two_at_once: "active_count (snd (dispatch_all sample_env [''a'', ''b''] diamond)) ''r'' = 2"
proof -
  let ?a = "diamond_child ''a'' []" and ?b = "diamond_child ''b'' []"
  let ?c = "diamond_child ''c'' [''a'']" and ?d = "diamond_child ''d'' [''c'']"
  note s = diamond_state and rdy = child_of_def is_child_ready_def deps_merged_def
  have "child_of diamond ''a'' = Some ?a" "is_child_ready ''a'' diamond" by (simp_all add: rdy s)
  then obtain p1 where p1: "snd (dispatch_child sample_env ''a'' diamond) = p1"
    "children p1 = [claimed_child ?a, ?b, ?c, ?d]" "paused_branches p1 = {}"
    by (rule dispatch_no_issue) (simp_all add: s)
  have "child_of p1 ''b'' = Some ?b" "is_child_ready ''b'' p1" by (simp_all add: rdy p1)
  then obtain p2 where p2: "snd (dispatch_child sample_env ''b'' p1) = p2"
    "children p2 = [claimed_child ?a, claimed_child ?b, ?c, ?d]"
    by (rule dispatch_no_issue) (simp_all add: p1)
  have "snd (dispatch_all sample_env [''a'', ''b''] diamond) = p2"
    using p1(1) p2(1) by (auto split: prod.split)
  then show ?thesis by (simp add: active_count_def active_state_def p2(2))
qed

text \<open>Explicit keys are not held to the cap: with a cap of one, two children of one repository are
  dispatched by one call. They also bypass the waves: merging a child of a later wave first leaves the
  wave index behind a wave that is already merged, and from then on the route without explicit keys
  dispatches nothing although a child is ready and none is active.\<close>

theorem explicit_keys_pass_cap_and_stall:
  "max_concurrent_per_repo (config diamond) = 1 \<and>
   active_count (snd (dispatch_all sample_env [''a'', ''b''] diamond)) ''r'' = 2 \<and>
   (\<exists>p. exec_run out_of_wave diamond = Some p \<and> is_child_ready ''d'' p \<and> active_count p ''r'' = 0 \<and>
      get_ready_children p = Some [])"
  using out_of_wave_run two_at_once by (simp add: diamond_state)

end
