(* ===== verification/Verification.thy ===== *)
theory Verification
  imports Executor_Stage
begin

text \<open>
  Verification of staff runs (\<open>backend/staff/verification.py\<close>, \<open>verification_types.py\<close>): the state of
  a head's checks, the verdict on one run, the look-ups that lead to it, and the run fields a verdict
  writes. The acceptance check of Code Requests (\<open>code_requests/acceptance.py\<close>) reuses the verdict.
  GitHub's answers are function arguments; a failed look-up is the left value. Detail texts are
  constructors.
\<close>

section \<open>Check runs\<close>

datatype ci_result = CiGreen | CiPending | CiRed

text \<open>A check run: conclusion (absent while running) and status.\<close>

type_synonym check_run = "string option \<times> string"

definition red_conclusions :: "string list" where
  "red_conclusions = [''failure'', ''timed_out'', ''action_required'', ''startup_failure'']"

definition ignored_conclusions :: "string list" where
  "ignored_conclusions = [''cancelled'', ''stale'']"

definition ci_state :: "check_run list \<Rightarrow> ci_result" where
  "ci_state runs =
     (let counted = filter (\<lambda>(c, s). case c of None \<Rightarrow> True | Some x \<Rightarrow> x \<notin> set ignored_conclusions) runs
      in if \<exists>(c, s) \<in> set counted. (case c of None \<Rightarrow> False | Some x \<Rightarrow> x \<in> set red_conclusions) then CiRed
         else if counted = [] \<or> (\<exists>(c, s) \<in> set counted. s \<noteq> ''completed'') then CiPending
         else CiGreen)"

section \<open>Verdicts\<close>

datatype pr_state = PrStOpen | PrStMerged | PrStClosed

record pull_request =
  pull_number :: int
  pull_state :: pr_state
  pull_ci :: ci_result

datatype verification = Verified | Unverified | VerFailed | NoChange | NotApplicable

datatype verdict_detail =
    DNothingClaimed string | DRoleOpensNoPr | DSkipped | DNoCommits string | DNoPullRequest string
  | DNoBranch | DClosed int | DRedInGrace int | DRed int | DPending int | DGreen int pr_state
  | DAdHoc | DLookup string | DAlreadyMerged int | DNoCommitAction int | DExpired verdict_detail

datatype run_artifact = ArtNone | ArtPrOpen | ArtPrMerged

record verdict =
  vd_verification :: verification
  vd_detail :: verdict_detail
  vd_pr_number :: "int option"
  vd_artifact :: run_artifact
  vd_ci_red :: bool

definition simple_verdict :: "verification \<Rightarrow> verdict_detail \<Rightarrow> verdict" where
  "simple_verdict v d = \<lparr>vd_verification = v, vd_detail = d, vd_pr_number = None, vd_artifact = ArtNone, vd_ci_red = False\<rparr>"

definition decide :: "string \<Rightarrow> bool \<Rightarrow> string \<Rightarrow> pull_request option \<Rightarrow> int \<Rightarrow> bool \<Rightarrow> bool \<Rightarrow> verdict" where
  "decide claimed opens_pr branch pr remote_ahead_by skipped ci_grace_active =
     (if claimed \<noteq> ''succeeded'' then simple_verdict NotApplicable (DNothingClaimed claimed)
      else if \<not> opens_pr then simple_verdict NotApplicable DRoleOpensNoPr
      else case pr of
        None \<Rightarrow>
          if skipped \<and> (branch = [] \<or> remote_ahead_by = 0) then simple_verdict NotApplicable DSkipped
          else if branch \<noteq> [] \<and> remote_ahead_by = 0 then simple_verdict NoChange (DNoCommits branch)
          else simple_verdict VerFailed (if branch \<noteq> [] then DNoPullRequest branch else DNoBranch)
      | Some p \<Rightarrow>
          let n = pull_number p;
              art = (if pull_state p = PrStMerged then ArtPrMerged else ArtPrOpen)
          in if pull_state p = PrStClosed
             then \<lparr>vd_verification = VerFailed, vd_detail = DClosed n, vd_pr_number = Some n,
                   vd_artifact = ArtNone, vd_ci_red = False\<rparr>
             else if pull_ci p = CiRed then
               (if ci_grace_active
                then \<lparr>vd_verification = Unverified, vd_detail = DRedInGrace n, vd_pr_number = Some n,
                      vd_artifact = art, vd_ci_red = False\<rparr>
                else \<lparr>vd_verification = VerFailed, vd_detail = DRed n, vd_pr_number = Some n,
                      vd_artifact = art, vd_ci_red = True\<rparr>)
             else if pull_ci p = CiPending
             then \<lparr>vd_verification = Unverified, vd_detail = DPending n, vd_pr_number = Some n,
                   vd_artifact = art, vd_ci_red = False\<rparr>
             else \<lparr>vd_verification = Verified, vd_detail = DGreen n (pull_state p), vd_pr_number = Some n,
                   vd_artifact = art, vd_ci_red = False\<rparr>)"

section \<open>The run's own report\<close>

text \<open>The text after the last occurrence of a marker (\<open>str.rpartition\<close>).\<close>

fun after_last :: "string \<Rightarrow> string \<Rightarrow> string option" where
  "after_last m [] = (if m = [] then Some [] else None)"
| "after_last m (c # s) =
     (case after_last m s of
        Some r \<Rightarrow> Some r
      | None \<Rightarrow> if py_startswith (c # s) m then Some (drop (length m) (c # s)) else None)"

definition line_break :: "char \<Rightarrow> bool" where
  "line_break c = (let n = (of_char c :: nat) in (10 \<le> n \<and> n \<le> 13) \<or> (28 \<le> n \<and> n \<le> 30))"

definition result_summary :: "string \<Rightarrow> string" where
  "result_summary text =
     (case after_last ''STAFF_RESULT:'' text of
        None \<Rightarrow> []
      | Some rest \<Rightarrow>
          dropWhile (\<lambda>c. c \<in> set ''[(*_ '')
            (py_lower (py_strip (takeWhile (\<lambda>c. \<not> line_break c) (py_strip rest)))))"

definition skip_markers :: "string list" where
  "skip_markers = [''staff_skip'', ''skip'', ''no work'', ''nothing to do'', ''no-op'', ''noop'', ''no action'', ''no change'']"

definition no_commit_action_markers :: "string list" where
  "no_commit_action_markers = [''rerun'', ''re-run'', ''update-branch'', ''update branch'', ''re-arm'', ''rearm'']"

definition is_skip_result :: "string \<Rightarrow> bool" where
  "is_skip_result text = (result_summary text \<noteq> [] \<and> list_ex (py_startswith (result_summary text)) skip_markers)"

definition is_no_commit_action_result :: "string \<Rightarrow> bool" where
  "is_no_commit_action_result text =
     (result_summary text \<noteq> [] \<and> list_ex (py_startswith (result_summary text)) no_commit_action_markers)"

section \<open>Evaluating a run\<close>

record run_record =
  rn_role :: string
  rn_repo :: string
  rn_branch :: string
  rn_status :: string
  rn_failure_class :: string
  rn_verification :: "verification option"
  rn_detail :: "verdict_detail option"
  rn_ended_at :: "seconds option"
  rn_pr_number :: "int option"
  rn_target_kind :: string
  rn_target_ref :: string
  rn_artifact :: run_artifact
  rn_retryable :: bool

definition run_age :: "run_record \<Rightarrow> seconds \<Rightarrow> seconds" where
  "run_age rec now = (case rn_ended_at rec of None \<Rightarrow> 0 | Some t \<Rightarrow> now - t)"

definition claimed_status :: "run_record \<Rightarrow> string" where
  "claimed_status rec =
     (if rn_status rec = ''failed'' \<and> rn_failure_class rec = ''unverified_output'' \<and> rn_verification rec = Some VerFailed
      then ''succeeded'' else rn_status rec)"

text \<open>\<open>upper()\<close> is compared with \<open>PR #\<close>: the letters may have either case.\<close>

definition target_pr_number :: "run_record \<Rightarrow> int option" where
  "target_pr_number rec =
     (case rn_pr_number rec of
        Some n \<Rightarrow> Some n
      | None \<Rightarrow>
          if rn_target_kind rec \<noteq> ''pr'' then None
          else let ref = py_strip (rn_target_ref rec)
               in if ref \<noteq> [] \<and> list_all is_digit ref then Some (int (digits_value ref))
                  else if py_startswith (py_lower ref) ''pr #''
                  then let ds = py_strip (drop 4 ref)
                       in if ds \<noteq> [] \<and> list_all is_digit ds then Some (int (digits_value ds)) else None
                  else None)"

text \<open>What the code asks GitHub; \<open>pb_get\<close> is absent when the probe cannot look up by number.\<close>

record pr_probe =
  pb_find :: "string \<Rightarrow> string \<Rightarrow> string + pull_request option"
  pb_ahead :: "string \<Rightarrow> string \<Rightarrow> string + int"
  pb_get :: "(string \<Rightarrow> int \<Rightarrow> string + pull_request) option"

definition pending_limit :: seconds where "pending_limit = 6 * 3600"

text \<open>The look-ups: either a verdict at once, or the pull request and the commits ahead to decide on.\<close>

definition look_up :: "run_record \<Rightarrow> bool \<Rightarrow> pr_probe \<Rightarrow> string \<Rightarrow> verdict + pull_request option \<times> int" where
  "look_up rec opens_pr probe result_text =
     (if \<not> (claimed_status rec = ''succeeded'' \<and> opens_pr \<and> rn_branch rec \<noteq> []) then Inr (None, 1)
      else case pb_find probe (rn_repo rec) (rn_branch rec) of
        Inl e \<Rightarrow> Inl (simple_verdict Unverified (DLookup e))
      | Inr (Some pr) \<Rightarrow> Inr (Some pr, 1)
      | Inr None \<Rightarrow>
          (case pb_ahead probe (rn_repo rec) (rn_branch rec) of
             Inl e \<Rightarrow> Inl (simple_verdict Unverified (DLookup e))
           | Inr ahead \<Rightarrow>
               (case (if rn_target_kind rec = ''pr'' then target_pr_number rec else None, pb_get probe) of
                  (Some n, Some get) \<Rightarrow>
                    (case get (rn_repo rec) n of
                       Inl e \<Rightarrow> Inl (simple_verdict Unverified (DLookup e))
                     | Inr target \<Rightarrow>
                         if ahead = 0 \<and> pull_state target = PrStMerged
                         then Inl \<lparr>vd_verification = NotApplicable, vd_detail = DAlreadyMerged n,
                                   vd_pr_number = Some n, vd_artifact = ArtPrMerged, vd_ci_red = False\<rparr>
                         else if ahead = 0 \<and> pull_state target = PrStOpen \<and> is_no_commit_action_result result_text
                         then Inl \<lparr>vd_verification = NotApplicable, vd_detail = DNoCommitAction n,
                                   vd_pr_number = Some n, vd_artifact = ArtPrOpen, vd_ci_red = False\<rparr>
                         else Inr (if 0 < ahead then Some target else None, ahead))
                | _ \<Rightarrow> Inr (None, ahead))))"

definition evaluate ::
    "run_record \<Rightarrow> bool \<Rightarrow> pr_probe \<Rightarrow> seconds \<Rightarrow> string \<Rightarrow> seconds \<Rightarrow> verdict" where
  "evaluate rec opens_pr probe now result_text grace =
     (if rn_role rec = ''ad-hoc'' \<and> rn_repo rec = [] then simple_verdict NotApplicable DAdHoc
      else case look_up rec opens_pr probe result_text of
        Inl v \<Rightarrow> v
      | Inr (pr, ahead) \<Rightarrow>
          let v = decide (claimed_status rec) opens_pr (rn_branch rec) pr ahead (is_skip_result result_text)
                    (run_age rec now \<le> grace)
          in if vd_verification v = Unverified \<and> pending_limit < run_age rec now
             then \<lparr>vd_verification = VerFailed, vd_detail = DExpired (vd_detail v), vd_pr_number = vd_pr_number v,
                   vd_artifact = ArtNone, vd_ci_red = False\<rparr>
             else v)"

section \<open>What a verdict writes\<close>

datatype verify_mode = VmOff | VmReport | VmEnforce

definition updates_for :: "run_record \<Rightarrow> verdict \<Rightarrow> verify_mode \<Rightarrow> run_record" where
  "updates_for rec v mode =
     (let r1 = rec\<lparr>rn_verification := Some (vd_verification v), rn_detail := Some (vd_detail v),
                   rn_pr_number := vd_pr_number v, rn_artifact := vd_artifact v\<rparr>
      in if mode = VmEnforce \<and> vd_verification v = VerFailed \<and> rn_status rec = ''succeeded''
         then r1\<lparr>rn_status := ''failed'', rn_failure_class := ''unverified_output''\<rparr>
         else if vd_verification v = Verified \<and> rn_status rec = ''failed'' \<and> rn_failure_class rec = ''unverified_output''
         then r1\<lparr>rn_status := ''succeeded'', rn_failure_class := [], rn_retryable := False\<rparr>
         else r1)"

definition deliverable_failure :: "run_record \<Rightarrow> verdict option \<Rightarrow> bool \<Rightarrow> run_record" where
  "deliverable_failure rec v opens_pr =
     (if rn_status rec \<noteq> ''succeeded'' \<or> \<not> opens_pr \<or> rn_target_kind rec \<notin> {''issue'', ''pr''} then rec
      else case v of
        None \<Rightarrow> rec
      | Some w \<Rightarrow>
          if vd_verification w \<notin> {NoChange, VerFailed} then rec
          else rec\<lparr>rn_status := ''failed'', rn_failure_class := ''unverified_output'', rn_retryable := False\<rparr>)"

section \<open>Recording and rechecking\<close>

text \<open>\<open>verify_and_record\<close> on the run it found; \<open>off\<close> leaves the run alone.\<close>

definition verify_and_record ::
    "run_record \<Rightarrow> bool \<Rightarrow> pr_probe \<Rightarrow> verify_mode \<Rightarrow> seconds \<Rightarrow> string \<Rightarrow> seconds \<Rightarrow> run_record" where
  "verify_and_record rec opens_pr probe mode now result_text grace =
     (if mode = VmOff then rec else updates_for rec (evaluate rec opens_pr probe now result_text grace) mode)"

text \<open>\<open>verification_detail LIKE '%head CI is%'\<close>.\<close>

fun mentions_head_ci :: "verdict_detail \<Rightarrow> bool" where
  "mentions_head_ci (DRed n) = True"
| "mentions_head_ci (DRedInGrace n) = True"
| "mentions_head_ci (DPending n) = True"
| "mentions_head_ci (DExpired d) = mentions_head_ci d"
| "mentions_head_ci _ = False"

definition awaiting_verification :: "string list \<Rightarrow> seconds \<Rightarrow> run_record \<Rightarrow> bool" where
  "awaiting_verification active since rec =
     (case rn_ended_at rec of
        None \<Rightarrow> False
      | Some t \<Rightarrow> since \<le> t \<and> rn_status rec \<notin> set active \<and>
          (rn_verification rec = None \<or> rn_verification rec = Some Unverified \<or>
           (rn_verification rec = Some VerFailed \<and> (\<exists>d. rn_detail rec = Some d \<and> mentions_head_ci d))))"

definition recheck_window :: seconds where "recheck_window = 24 * 3600"

text \<open>One pass over the finished runs: the oldest first, at most 20.\<close>

definition recheck_runs ::
    "string list \<Rightarrow> (string \<Rightarrow> bool) \<Rightarrow> pr_probe \<Rightarrow> verify_mode \<Rightarrow> seconds \<Rightarrow> (run_record \<Rightarrow> string) \<Rightarrow> seconds
      \<Rightarrow> run_record list \<Rightarrow> run_record list" where
  "recheck_runs active opens_pr probe mode now text_of grace runs =
     (if mode = VmOff then []
      else map (\<lambda>r. verify_and_record r (opens_pr (rn_role r)) probe mode now (text_of r) grace)
             (take 20 (sort_key (\<lambda>r. case rn_ended_at r of None \<Rightarrow> 0 | Some t \<Rightarrow> t)
                (filter (awaiting_verification active (now - recheck_window)) runs))))"

section \<open>Properties\<close>

lemma decide_verified:
  "vd_verification (decide claimed opens_pr branch pr ahead skipped grace) = Verified \<longleftrightarrow>
     claimed = ''succeeded'' \<and> opens_pr \<and>
     (\<exists>p. pr = Some p \<and> pull_state p \<noteq> PrStClosed \<and> pull_ci p = CiGreen)"
  by (cases pr; cases "pull_ci (the pr)"; cases "pull_state (the pr)")
    (auto simp: decide_def simple_verdict_def Let_def)

lemma look_up_Inl: "look_up rec opens_pr probe msg = Inl v \<Longrightarrow> vd_verification v \<in> {Unverified, NotApplicable}"
  by (auto simp: look_up_def simple_verdict_def split: if_splits sum.splits option.splits prod.splits)

lemma look_up_from_github:
  "look_up rec opens_pr probe msg = Inr (Some p, ahead) \<Longrightarrow>
     pb_find probe (rn_repo rec) (rn_branch rec) = Inr (Some p) \<or>
     (\<exists>get n. pb_get probe = Some get \<and> target_pr_number rec = Some n \<and> get (rn_repo rec) n = Inr p)"
  by (auto simp: look_up_def split: if_splits sum.splits option.splits prod.splits)

lemma verified_has_green_pr_aux:
  assumes "vd_verification (evaluate rec opens_pr probe now msg grace) = Verified"
  shows "claimed_status rec = ''succeeded'' \<and> opens_pr \<and>
     (\<exists>p. pull_state p \<noteq> PrStClosed \<and> pull_ci p = CiGreen \<and>
        (pb_find probe (rn_repo rec) (rn_branch rec) = Inr (Some p) \<or>
         (\<exists>get n. pb_get probe = Some get \<and> target_pr_number rec = Some n \<and> get (rn_repo rec) n = Inr p)))"
proof -
  have nah: "\<not> (rn_role rec = ''ad-hoc'' \<and> rn_repo rec = [])"
    using assms by (auto simp: evaluate_def simple_verdict_def)
  show ?thesis
  proof (cases "look_up rec opens_pr probe msg")
    case (Inl v)
    with assms nah look_up_Inl [OF Inl] show ?thesis by (auto simp: evaluate_def split: if_splits)
  next
    case (Inr x)
    obtain pr ahead where x: "x = (pr, ahead)" by (cases x)
    let ?v = "decide (claimed_status rec) opens_pr (rn_branch rec) pr ahead (is_skip_result msg) (run_age rec now \<le> grace)"
    from assms Inr x have "vd_verification ?v = Verified"
      unfolding evaluate_def if_not_P [OF nah] by (auto simp: Let_def split: if_splits)
    then obtain p where "claimed_status rec = ''succeeded''" "opens_pr" "pr = Some p" "pull_state p \<noteq> PrStClosed"
      "pull_ci p = CiGreen" by (auto simp: decide_verified)
    with Inr x look_up_from_github [of rec opens_pr probe msg p ahead] show ?thesis by blast
  qed
qed

text \<open>A run is marked verified only if it claimed success, its role opens pull requests, and GitHub
  answered with an open or merged pull request, found by the run's branch or as its target, whose head
  CI is green.\<close>

theorem verified_has_green_pr:
  assumes "vd_verification (evaluate rec opens_pr probe now msg grace) = Verified"
  shows "claimed_status rec = ''succeeded'' \<and> opens_pr \<and>
     (\<exists>p. pull_state p \<noteq> PrStClosed \<and> pull_ci p = CiGreen \<and>
        (pb_find probe (rn_repo rec) (rn_branch rec) = Inr (Some p) \<or>
         (\<exists>get n. pb_get probe = Some get \<and> target_pr_number rec = Some n \<and> get (rn_repo rec) n = Inr p)))"
  using assms by (rule verified_has_green_pr_aux)

definition sample_run :: "string \<Rightarrow> string \<Rightarrow> verification option \<Rightarrow> run_record" where
  "sample_run status class v =
     \<lparr>rn_role = ''dev'', rn_repo = ''r'', rn_branch = ''b'', rn_status = status, rn_failure_class = class,
      rn_verification = v, rn_detail = None, rn_ended_at = Some 0, rn_pr_number = None, rn_target_kind = ''issue'',
      rn_target_ref = [], rn_artifact = ArtNone, rn_retryable = False\<rparr>"

definition probe_with :: "ci_result \<Rightarrow> pr_probe" where
  "probe_with ci = \<lparr>pb_find = \<lambda>_ _. Inr (Some \<lparr>pull_number = 7, pull_state = PrStOpen, pull_ci = ci\<rparr>),
     pb_ahead = \<lambda>_ _. Inr 1, pb_get = None\<rparr>"

lemma evaluate_sample:
  "evaluate (sample_run ''succeeded'' [] None) True (probe_with CiGreen) 10 [] 5 =
     \<lparr>vd_verification = Verified, vd_detail = DGreen 7 PrStOpen, vd_pr_number = Some 7, vd_artifact = ArtPrOpen, vd_ci_red = False\<rparr>"
  by (simp add: evaluate_def look_up_def sample_run_def probe_with_def claimed_status_def decide_def Let_def)

theorem verified_has_green_pr_witness:
  "\<exists>p. pull_ci p = CiGreen \<and> pb_find (probe_with CiGreen) ''r'' ''b'' = Inr (Some p)"
proof -
  have "vd_verification (evaluate (sample_run ''succeeded'' [] None) True (probe_with CiGreen) 10 [] 5) = Verified"
    by (simp add: evaluate_sample)
  from verified_has_green_pr [OF this] show ?thesis by (auto simp: sample_run_def probe_with_def)
qed

text \<open>A failed look-up of the pull request never changes the status of a run, in any mode and however
  long after the run.\<close>

theorem outage_never_fails_a_run:
  assumes "pb_find probe (rn_repo rec) (rn_branch rec) = Inl e" and "claimed_status rec = ''succeeded''"
    and "opens_pr" and "rn_branch rec \<noteq> []"
  shows "rn_status (verify_and_record rec opens_pr probe mode now msg grace) = rn_status rec"
  using assms
  by (simp add: verify_and_record_def evaluate_def look_up_def updates_for_def simple_verdict_def Let_def)

theorem outage_never_fails_a_run_witness:
  "rn_status (verify_and_record (sample_run ''succeeded'' [] None) True
      ((probe_with CiGreen)\<lparr>pb_find := \<lambda>_ _. Inl ''down''\<rparr>) VmEnforce 100000 [] 5) = ''succeeded''"
  using outage_never_fails_a_run [of "(probe_with CiGreen)\<lparr>pb_find := \<lambda>_ _. Inl ''down''\<rparr>" "sample_run ''succeeded'' [] None" "''down''"]
  by (simp add: sample_run_def claimed_status_def)

text \<open>A run that only the verification failed, because its head CI was red, is restored by a recheck
  that finds the CI green.\<close>

theorem green_recheck_restores:
  assumes "rn_status rec = ''failed''" and "rn_failure_class rec = ''unverified_output''"
    and "rn_verification rec = Some VerFailed" and "rn_branch rec \<noteq> []" and "rn_repo rec \<noteq> []" and "mode \<noteq> VmOff"
    and "pb_find probe (rn_repo rec) (rn_branch rec) = Inr (Some p)" and "pull_state p \<noteq> PrStClosed" and "pull_ci p = CiGreen"
  shows "rn_status (verify_and_record rec True probe mode now msg grace) = ''succeeded''"
proof -
  have "claimed_status rec = ''succeeded''" using assms by (simp add: claimed_status_def)
  with assms have "look_up rec True probe msg = Inr (Some p, 1)" by (simp add: look_up_def)
  moreover have "vd_verification (decide (claimed_status rec) True (rn_branch rec) (Some p) 1 s g) = Verified" for s g
    using assms \<open>claimed_status rec = ''succeeded''\<close> by (simp add: decide_verified)
  ultimately show ?thesis
    using assms by (simp add: verify_and_record_def evaluate_def updates_for_def Let_def)
qed

theorem green_recheck_restores_witness:
  "rn_status (verify_and_record (sample_run ''failed'' ''unverified_output'' (Some VerFailed)) True (probe_with CiGreen)
      VmEnforce 10 [] 5) = ''succeeded''"
  by (rule green_recheck_restores [where p = "\<lparr>pull_number = 7, pull_state = PrStOpen, pull_ci = CiGreen\<rparr>"])
    (simp_all add: sample_run_def probe_with_def)

text \<open>A recheck that finds the CI pending again, or GitHub unreachable, within six hours of the run
  loses that way back: it records the run as unverified while its status stays failed, and no later
  recheck, whatever GitHub answers, restores the status.\<close>

theorem unverified_recheck_is_final:
  assumes "rn_status rec = ''failed''" and "rn_failure_class rec = ''unverified_output''"
    and "mode \<noteq> VmOff" and "mode2 \<noteq> VmOff"
    and "vd_verification (evaluate rec opens_pr probe now msg grace) = Unverified"
  shows "rn_status (verify_and_record (verify_and_record rec opens_pr probe mode now msg grace)
           opens_pr2 probe2 mode2 now2 msg2 grace2) = ''failed''"
proof -
  let ?r = "verify_and_record rec opens_pr probe mode now msg grace"
  have r: "rn_status ?r = ''failed''" "rn_verification ?r = Some Unverified"
    using assms by (simp_all add: verify_and_record_def updates_for_def Let_def)
  then have "claimed_status ?r = ''failed''" by (simp add: claimed_status_def)
  with verified_has_green_pr_aux have "vd_verification (evaluate ?r opens_pr2 probe2 now2 msg2 grace2) \<noteq> Verified"
    by fastforce
  with r assms(4) show ?thesis
    by (simp add: verify_and_record_def [of ?r] updates_for_def [of ?r] Let_def)
qed

theorem unverified_recheck_is_final_witness:
  "rn_status (verify_and_record (verify_and_record (sample_run ''failed'' ''unverified_output'' (Some VerFailed)) True
      (probe_with CiPending) VmEnforce 10 [] 5) True (probe_with CiGreen) VmEnforce 20 [] 5) = ''failed''"
  by (rule unverified_recheck_is_final)
    (simp_all add: sample_run_def evaluate_def look_up_def probe_with_def claimed_status_def decide_def Let_def
      pending_limit_def run_age_def)

end
