(* ===== verification/Lifecycle.thy ===== *)
theory Lifecycle
  imports Prelude
begin

text \<open>
  The life of a Code Request: states, gates and transitions of \<open>backend/code_requests/lifecycle.py\<close> on
  the record of \<open>model.py\<close>, and the Architecture Board gate of \<open>board_gate.py\<close>. Timestamps are the
  strings the caller passes or the clock reads; the classifier and the proposal service are function
  arguments, as in the code.
\<close>

section \<open>The record\<close>

datatype cr_state = CrDraft | CrTriage | CrBoardReview | CrPlanning | CrPlanned | CrExecuting
  | CrDone | CrFailed | CrDeferred | CrDeclined | CrCancelled

definition cr_states :: "cr_state list" where
  "cr_states = [CrDraft, CrTriage, CrBoardReview, CrPlanning, CrPlanned, CrExecuting, CrDone, CrFailed,
     CrDeferred, CrDeclined, CrCancelled]"

fun cr_state_value :: "cr_state \<Rightarrow> string" where
  "cr_state_value CrDraft = ''draft''"
| "cr_state_value CrTriage = ''triage''"
| "cr_state_value CrBoardReview = ''board_review''"
| "cr_state_value CrPlanning = ''planning''"
| "cr_state_value CrPlanned = ''planned''"
| "cr_state_value CrExecuting = ''executing''"
| "cr_state_value CrDone = ''done''"
| "cr_state_value CrFailed = ''failed''"
| "cr_state_value CrDeferred = ''deferred''"
| "cr_state_value CrDeclined = ''declined''"
| "cr_state_value CrCancelled = ''cancelled''"

definition cr_state_of :: "string \<Rightarrow> cr_state option" where
  "cr_state_of s = List.find (\<lambda>st. cr_state_value st = s) cr_states"

datatype requester_kind = Human | Agent

record requester =
  rq_id :: string
  rq_kind :: requester_kind

datatype board_route = RouteAuto | ForceBoard | SkipBoard

record cr_audit_event =
  ev_actor :: string
  ev_from :: cr_state
  ev_to :: cr_state
  ev_reason :: string
  ev_timestamp :: string
  ev_override :: bool

record code_request =
  cr_id :: string
  cr_repository :: string
  cr_title :: string
  cr_issue_number :: "int option"
  cr_issue_url :: "string option"
  cr_state :: cr_state
  cr_prompt :: string
  cr_requester :: requester
  cr_planner_profile_id :: "string option"
  cr_executor_profile_id :: "string option"
  cr_profile_snapshot :: "(string, json) dict option"
  cr_board_route :: board_route
  cr_board_proposal :: "string option"
  cr_plan_epic :: "string option"
  cr_branch :: string
  cr_standards :: "string list"
  cr_audit_trail :: "cr_audit_event list"
  cr_created_at :: string
  cr_updated_at :: string

section \<open>Transitions\<close>

fun legal_transitions :: "cr_state \<Rightarrow> cr_state list" where
  "legal_transitions CrDraft = [CrTriage]"
| "legal_transitions CrTriage = [CrBoardReview, CrPlanning]"
| "legal_transitions CrBoardReview = [CrPlanning, CrDeferred, CrDeclined]"
| "legal_transitions CrPlanning = [CrPlanned, CrFailed]"
| "legal_transitions CrPlanned = [CrExecuting]"
| "legal_transitions CrExecuting = [CrDone, CrFailed]"
| "legal_transitions CrDone = []"
| "legal_transitions CrFailed = []"
| "legal_transitions CrDeferred = []"
| "legal_transitions CrDeclined = []"
| "legal_transitions CrCancelled = []"

datatype transition_gate = PlanFiled | Acceptance

fun required_gate :: "cr_state \<Rightarrow> transition_gate option" where
  "required_gate CrPlanned = Some PlanFiled"
| "required_gate CrDone = Some Acceptance"
| "required_gate _ = None"

definition pre_planning_states :: "cr_state list" where
  "pre_planning_states = [CrDraft, CrTriage, CrBoardReview]"

definition is_legal_transition :: "cr_state \<Rightarrow> cr_state \<Rightarrow> bool \<Rightarrow> bool" where
  "is_legal_transition from_state to_state override =
     (if from_state = to_state then False
      else if override \<and> to_state = CrCancelled then True
      else if override \<and> from_state \<in> set pre_planning_states \<and> to_state \<in> {CrPlanning, CrBoardReview} then True
      else to_state \<in> set (legal_transitions from_state))"

datatype transition_error =
    UnknownState string
  | IllegalTransition cr_state cr_state bool
  | MissingGate cr_state transition_gate
  | BadProposalNumber string

definition transition ::
    "code_request \<Rightarrow> cr_state \<Rightarrow> string \<Rightarrow> string \<Rightarrow> bool \<Rightarrow> transition_gate option \<Rightarrow> string
      \<Rightarrow> transition_error + code_request" where
  "transition request target actor reason override gate now =
     (if \<not> is_legal_transition (cr_state request) target override
      then Inl (IllegalTransition (cr_state request) target override)
      else case required_gate target of
             Some needed \<Rightarrow>
               if gate \<noteq> Some needed \<and> \<not> override then Inl (MissingGate target needed)
               else Inr (request\<lparr>cr_state := target, cr_updated_at := now,
                      cr_audit_trail := cr_audit_trail request @
                        [\<lparr>ev_actor = actor, ev_from = cr_state request, ev_to = target, ev_reason = reason,
                          ev_timestamp = now, ev_override = override\<rparr>]\<rparr>)
           | None \<Rightarrow> Inr (request\<lparr>cr_state := target, cr_updated_at := now,
                      cr_audit_trail := cr_audit_trail request @
                        [\<lparr>ev_actor = actor, ev_from = cr_state request, ev_to = target, ev_reason = reason,
                          ev_timestamp = now, ev_override = override\<rparr>]\<rparr>))"

text \<open>The entry point that takes the target as text.\<close>

definition transition_str ::
    "code_request \<Rightarrow> string \<Rightarrow> string \<Rightarrow> string \<Rightarrow> bool \<Rightarrow> transition_gate option \<Rightarrow> string
      \<Rightarrow> transition_error + code_request" where
  "transition_str request target actor reason override gate now =
     (case cr_state_of target of
        None \<Rightarrow> Inl (UnknownState target)
      | Some st \<Rightarrow> transition request st actor reason override gate now)"

section \<open>The Board gate\<close>

record routing_criteria =
  new_surface :: bool
  new_service_or_repo :: bool
  new_dependency_or_egress :: bool
  confidential_data_egress :: bool
  cross_repo_contract :: bool
  public_site_structure :: bool
  estimated_child_issues :: int
  target_repos_count :: int
  tagged_board :: bool

record routing_decision =
  routes_to_board :: bool
  criteria_matched :: "string list"
  requires_user_signoff :: bool

definition explicit_criteria :: "routing_criteria \<Rightarrow> string list" where
  "explicit_criteria c =
     (if new_surface c then [''new_surface''] else []) @
     (if new_service_or_repo c then [''new_service_or_repo''] else []) @
     (if new_dependency_or_egress c then [''new_dependency_or_egress''] else []) @
     (if cross_repo_contract c then [''cross_repo_contract''] else []) @
     (if public_site_structure c then [''public_site_structure''] else []) @
     (if 8 < estimated_child_issues c then [''estimated_child_issues''] else []) @
     (if 1 < target_repos_count c then [''multiple_target_repos''] else []) @
     (if tagged_board c then [''tagged_board''] else [])"

text \<open>\<open>classify\<close> is the classifier's decision on the title and prompt.\<close>

definition evaluate_board_routing ::
    "(string \<Rightarrow> string \<Rightarrow> routing_decision) \<Rightarrow> code_request \<Rightarrow> routing_criteria \<Rightarrow> routing_decision" where
  "evaluate_board_routing classify request crit =
     (if confidential_data_egress crit
      then \<lparr>routes_to_board = True, criteria_matched = [''confidential_data_egress''], requires_user_signoff = True\<rparr>
      else if cr_board_route request = ForceBoard
      then \<lparr>routes_to_board = True, criteria_matched = [''force_board''], requires_user_signoff = False\<rparr>
      else if cr_board_route request = SkipBoard
      then \<lparr>routes_to_board = False, criteria_matched = [''skip_board''], requires_user_signoff = False\<rparr>
      else
        let matched = explicit_criteria crit
        in if matched \<noteq> []
           then \<lparr>routes_to_board = True, criteria_matched = matched, requires_user_signoff = False\<rparr>
           else
             let classified = classify (cr_title request) (cr_prompt request)
             in if routes_to_board classified \<and> requires_user_signoff classified then classified
                else let m = (if routes_to_board classified then criteria_matched classified else [])
                     in \<lparr>routes_to_board = (m \<noteq> []), criteria_matched = m, requires_user_signoff = False\<rparr>)"

text \<open>\<open>proposal_number\<close> is the number the proposal service gave, as text.\<close>

definition route_code_request_to_board ::
    "string \<Rightarrow> code_request \<Rightarrow> string \<Rightarrow> string \<Rightarrow> string \<Rightarrow> transition_error + code_request" where
  "route_code_request_to_board proposal_number request actor reason now =
     (case transition request CrBoardReview actor reason False None now of
        Inl e \<Rightarrow> Inl e
      | Inr r \<Rightarrow> Inr (r\<lparr>cr_board_proposal := Some proposal_number\<rparr>))"

text \<open>A proposal: its decision, its labels, and its comments as login, secretary flag and body.\<close>

record proposal_data =
  pr_decision :: "string option"
  pr_labels :: "string list"
  pr_comments :: "(string \<times> bool \<times> string) list"

definition secretary_notes :: "string list \<Rightarrow> (string \<times> bool \<times> string) list \<Rightarrow> string list" where
  "secretary_notes logins comments =
     map (\<lambda>(l, s, b). b)
       (filter (\<lambda>(l, s, b). ((py_lower (py_strip l) \<noteq> [] \<and> py_lower (py_strip l) \<in> set logins) \<or> s) \<and> b \<noteq> []) comments)"

definition sync_board_proposal_decision ::
    "string list \<Rightarrow> (int \<Rightarrow> proposal_data) \<Rightarrow> code_request \<Rightarrow> string \<Rightarrow> string
      \<Rightarrow> transition_error + code_request" where
  "sync_board_proposal_decision logins get_proposal request actor now =
     (case str_or (cr_board_proposal request) None of
        None \<Rightarrow> Inr request
      | Some text \<Rightarrow> (case py_int text of None \<Rightarrow> Inl (BadProposalNumber text) | Some n \<Rightarrow>
          let pr = get_proposal n; num = int_text n
          in if ''board:accepted'' \<in> set (pr_labels pr) \<or> pr_decision pr = Some ''accepted''
             then let notes = py_strip (py_join [CHR 0x0A, CHR 0x0A] (secretary_notes logins (pr_comments pr)));
                      prompt = (if notes = [] then cr_prompt request
                                else cr_prompt request @ [CHR 0x0A, CHR 0x0A] @ ''### Board Review Notes'' @ [CHR 0x0A] @ notes)
                  in (case transition request CrPlanning actor (''Board accepted proposal #'' @ num) False None now of
                        Inl e \<Rightarrow> Inl e
                      | Inr r \<Rightarrow> Inr (r\<lparr>cr_prompt := prompt\<rparr>))
             else if ''board:declined'' \<in> set (pr_labels pr) \<or> pr_decision pr = Some ''declined''
             then transition request CrDeclined actor (''Board declined proposal #'' @ num) False None now
             else if ''board:deferred'' \<in> set (pr_labels pr) \<or> pr_decision pr = Some ''deferred''
             then transition request CrDeferred actor (''Board deferred proposal #'' @ num) False None now
             else Inr request))"

definition check_board_escalation :: "code_request \<Rightarrow> int \<Rightarrow> int \<Rightarrow> bool" where
  "check_board_escalation request elapsed limit =
     (if cr_state request \<noteq> CrBoardReview then False else limit \<le> elapsed)"

section \<open>Runs\<close>

text \<open>A command: the target state, whether the operator overrides, and the gate named.\<close>

type_synonym cr_command = "cr_state \<times> bool \<times> transition_gate option"

inductive cr_run :: "code_request \<Rightarrow> cr_command list \<Rightarrow> code_request \<Rightarrow> bool" for r0 :: code_request where
  cr_start: "cr_run r0 [] r0"
| cr_next: "cr_run r0 cmds r \<Longrightarrow> transition r st actor reason ov gate now = Inr r' \<Longrightarrow>
    cr_run r0 (cmds @ [(st, ov, gate)]) r'"

inductive_cases cr_run_NilE: "cr_run r0 [] r"

lemma transition_Inr:
  "transition r st actor reason ov gate now = Inr r' \<Longrightarrow>
     is_legal_transition (cr_state r) st ov \<and> cr_state r' = st \<and> (required_gate st = gate \<or> required_gate st = None \<or> ov) \<and>
     cr_audit_trail r' = cr_audit_trail r @ [\<lparr>ev_actor = actor, ev_from = cr_state r, ev_to = st, ev_reason = reason,
        ev_timestamp = now, ev_override = ov\<rparr>]"
  by (auto simp: transition_def split: if_splits option.splits)

text \<open>How far a state is from the end of every path.\<close>

fun cr_rank :: "cr_state \<Rightarrow> nat" where
  "cr_rank CrDraft = 7"
| "cr_rank CrTriage = 6"
| "cr_rank CrBoardReview = 5"
| "cr_rank CrPlanning = 4"
| "cr_rank CrPlanned = 3"
| "cr_rank CrExecuting = 2"
| "cr_rank CrCancelled = 0"
| "cr_rank _ = 1"

lemma legal_rank: "is_legal_transition s t ov \<Longrightarrow> cr_rank t < cr_rank s"
  by (cases s; cases t; cases ov) (auto simp: is_legal_transition_def pre_planning_states_def)

lemma cr_run_rank: "cr_run r0 cmds r \<Longrightarrow> length cmds + cr_rank (cr_state r) \<le> cr_rank (cr_state r0)"
proof (induction rule: cr_run.induct)
  case cr_start
  show ?case by simp
next
  case (cr_next cmds r st actor reason ov gate now r')
  from transition_Inr [OF cr_next.hyps(2)] legal_rank cr_next.IH show ?case by fastforce
qed

fun trail_path :: "cr_state \<Rightarrow> cr_audit_event list \<Rightarrow> cr_state \<Rightarrow> bool" where
  "trail_path s [] t = (s = t)"
| "trail_path s (e # es) t =
     (ev_from e = s \<and> is_legal_transition s (ev_to e) (ev_override e) \<and> trail_path (ev_to e) es t)"

lemma trail_path_snoc:
  "trail_path s (es @ [e]) t \<longleftrightarrow>
     trail_path s es (ev_from e) \<and> is_legal_transition (ev_from e) (ev_to e) (ev_override e) \<and> ev_to e = t"
  by (induction es arbitrary: s) auto

section \<open>Properties\<close>

text \<open>C6: A Code Request makes at most seven transitions in its life, operator overrides included, and
  its audit trail is the path of legal transitions it took.\<close>

theorem lifecycle_ends:
  assumes "cr_run r0 cmds r" and "cr_audit_trail r0 = []"
  shows "length cmds \<le> 7 \<and> length (cr_audit_trail r) = length cmds \<and>
     trail_path (cr_state r0) (cr_audit_trail r) (cr_state r)"
proof -
  have "cr_rank (cr_state r0) \<le> 7" by (cases "cr_state r0") auto
  with cr_run_rank [OF assms(1)] have "length cmds \<le> 7" by linarith
  moreover have "length (cr_audit_trail r) = length cmds \<and>
     trail_path (cr_state r0) (cr_audit_trail r) (cr_state r)"
    using assms
  proof (induction rule: cr_run.induct)
    case cr_start
    then show ?case by simp
  next
    case (cr_next cmds r st actor reason ov gate now r')
    with transition_Inr [OF cr_next.hyps(2)] show ?case by (simp add: trail_path_snoc)
  qed
  ultimately show ?thesis by simp
qed

definition sample_request :: "cr_state \<Rightarrow> code_request" where
  "sample_request st =
     \<lparr>cr_id = ''cr-r-1'', cr_repository = ''r'', cr_title = ''t'', cr_issue_number = Some 1, cr_issue_url = None,
      cr_state = st, cr_prompt = ''p'', cr_requester = \<lparr>rq_id = ''u'', rq_kind = Human\<rparr>,
      cr_planner_profile_id = None, cr_executor_profile_id = None, cr_profile_snapshot = None, cr_board_route = RouteAuto, cr_board_proposal = None, cr_plan_epic = None,
      cr_branch = ''main'', cr_standards = [], cr_audit_trail = [], cr_created_at = ''c'', cr_updated_at = ''c''\<rparr>"

lemma sample_request_simps [simp]:
  "cr_state (sample_request st) = st" "cr_audit_trail (sample_request st) = []"
  "cr_board_proposal (sample_request st) = None" "cr_board_route (sample_request st) = RouteAuto"
  "cr_title (sample_request st) = ''t''" "cr_prompt (sample_request st) = ''p''"
  by (simp_all add: sample_request_def)

definition happy_path :: "cr_command list" where
  "happy_path = [(CrTriage, False, None), (CrPlanning, False, None), (CrPlanned, False, Some PlanFiled),
     (CrExecuting, False, None), (CrDone, False, Some Acceptance)]"

lemma happy_run: "\<exists>r. cr_run (sample_request CrDraft) happy_path r \<and> cr_state r = CrDone"
proof -
  have step: "\<exists>r'. cr_run r0 (cmds @ [(st, False, gate)]) r' \<and> cr_state r' = st"
    if "\<exists>r. cr_run r0 cmds r \<and> cr_state r = s" "is_legal_transition s st False" "required_gate st = gate"
    for r0 cmds s st gate
  proof -
    from that(1) obtain r where r: "cr_run r0 cmds r" "cr_state r = s" by blast
    have "\<exists>r'. transition r st [] [] False gate [] = Inr r' \<and> cr_state r' = st"
      using that(2,3) r(2) by (auto simp: transition_def split: option.split)
    with r(1) show ?thesis by (blast intro: cr_next)
  qed
  let ?r = "sample_request CrDraft"
  have "\<exists>r. cr_run ?r [] r \<and> cr_state r = CrDraft" using cr_start [of ?r] by auto
  from step [OF step [OF step [OF step [OF step [OF this, of CrTriage None], of CrPlanning None],
      of CrPlanned "Some PlanFiled"], of CrExecuting None], of CrDone "Some Acceptance"]
  show ?thesis by (simp add: happy_path_def is_legal_transition_def)
qed

theorem lifecycle_ends_witness:
  "\<exists>r. cr_run (sample_request CrDraft) happy_path r \<and> trail_path CrDraft (cr_audit_trail r) CrDone"
proof -
  from happy_run obtain r where r: "cr_run (sample_request CrDraft) happy_path r" "cr_state r = CrDone" by blast
  from lifecycle_ends [OF r(1)] r show ?thesis by auto
qed

text \<open>C7: Without an operator override a Code Request that started as a draft is done only after it was
  moved to planned with the plan-filed gate and to done with the acceptance gate.\<close>

theorem done_passes_both_gates:
  assumes "cr_run r0 cmds r" and "cr_state r0 = CrDraft" and "\<forall>(st, ov, gate) \<in> set cmds. \<not> ov"
    and "cr_state r = CrDone"
  shows "(CrPlanned, False, Some PlanFiled) \<in> set cmds \<and> (\<exists>g. (CrExecuting, False, g) \<in> set cmds) \<and>
     (CrDone, False, Some Acceptance) \<in> set cmds"
proof -
  have "(cr_state r \<in> {CrPlanned, CrExecuting, CrDone} \<longrightarrow> (CrPlanned, False, Some PlanFiled) \<in> set cmds) \<and>
     (cr_state r \<in> {CrExecuting, CrDone} \<longrightarrow> (\<exists>g. (CrExecuting, False, g) \<in> set cmds)) \<and>
     (cr_state r = CrDone \<longrightarrow> (CrDone, False, Some Acceptance) \<in> set cmds)"
    using assms(1-3)
  proof (induction rule: cr_run.induct)
    case cr_start
    then show ?case by simp
  next
    case (cr_next cmds r st actor reason ov gate now r')
    have ov: "\<not> ov" using cr_next.prems by auto
    note t = transition_Inr [OF cr_next.hyps(2)]
    have IH: "(cr_state r \<in> {CrPlanned, CrExecuting, CrDone} \<longrightarrow> (CrPlanned, False, Some PlanFiled) \<in> set cmds) \<and>
       (cr_state r \<in> {CrExecuting, CrDone} \<longrightarrow> (\<exists>g. (CrExecuting, False, g) \<in> set cmds))"
      using cr_next.IH cr_next.prems by auto
    from t ov have "st \<in> set (legal_transitions (cr_state r))"
      by (auto simp: is_legal_transition_def split: if_splits)
    then show ?case using t ov IH
      by (cases "cr_state r") auto
  qed
  with assms(4) show ?thesis by simp
qed

theorem done_passes_both_gates_witness:
  "(CrPlanned, False, Some PlanFiled) \<in> set happy_path"
proof -
  from happy_run obtain r where r: "cr_run (sample_request CrDraft) happy_path r" "cr_state r = CrDone" by blast
  have "\<forall>(st, ov, gate) \<in> set happy_path. \<not> ov" by (simp add: happy_path_def)
  from done_passes_both_gates [OF r(1) sample_request_simps(1) this r(2)] show ?thesis by blast
qed

text \<open>The Board gate: a request goes to the Board exactly when it declares confidential egress, or it
  is not skipped and is forced, matches an explicit criterion, or the classifier matches; and it needs the
  user's sign-off only when it declares the egress itself, or neither the operator nor an explicit
  criterion decided and the classifier asks for it. A criterion that matches hides the classifier's demand
  for a sign-off.\<close>

theorem board_routing:
  "(routes_to_board (evaluate_board_routing classify r crit) \<longleftrightarrow>
     confidential_data_egress crit \<or>
     (cr_board_route r \<noteq> SkipBoard \<and>
       (cr_board_route r = ForceBoard \<or> explicit_criteria crit \<noteq> [] \<or>
        (routes_to_board (classify (cr_title r) (cr_prompt r)) \<and>
          (requires_user_signoff (classify (cr_title r) (cr_prompt r)) \<or>
           criteria_matched (classify (cr_title r) (cr_prompt r)) \<noteq> []))))) \<and>
   (requires_user_signoff (evaluate_board_routing classify r crit) \<longleftrightarrow>
     confidential_data_egress crit \<or>
     (cr_board_route r = RouteAuto \<and> explicit_criteria crit = [] \<and>
      routes_to_board (classify (cr_title r) (cr_prompt r)) \<and>
      requires_user_signoff (classify (cr_title r) (cr_prompt r))))"
  by (cases "cr_board_route r"; simp add: evaluate_board_routing_def Let_def)

definition plain_criteria :: routing_criteria where
  "plain_criteria = \<lparr>new_surface = False, new_service_or_repo = False, new_dependency_or_egress = False,
     confidential_data_egress = False, cross_repo_contract = False, public_site_structure = False,
     estimated_child_issues = 0, target_repos_count = 1, tagged_board = False\<rparr>"

definition egress_classifier :: "string \<Rightarrow> string \<Rightarrow> routing_decision" where
  "egress_classifier title prompt =
     \<lparr>routes_to_board = True, criteria_matched = [''confidential_data_egress''], requires_user_signoff = True\<rparr>"

theorem board_routing_witness:
  "requires_user_signoff (evaluate_board_routing egress_classifier (sample_request CrTriage) plain_criteria) \<and>
   \<not> requires_user_signoff (evaluate_board_routing egress_classifier (sample_request CrTriage)
        (plain_criteria\<lparr>tagged_board := True\<rparr>))"
  using board_routing [of egress_classifier "sample_request CrTriage" plain_criteria]
    board_routing [of egress_classifier "sample_request CrTriage" "plain_criteria\<lparr>tagged_board := True\<rparr>"]
  by (simp add: plain_criteria_def egress_classifier_def explicit_criteria_def)

text \<open>Only the Board secretary speaks into a prompt: comments of anyone else on the proposal have no
  influence on the decision or on the prompt the planner gets.\<close>

theorem only_secretary_notes:
  "sync_board_proposal_decision logins
      (\<lambda>n. (get n)\<lparr>pr_comments := filter (\<lambda>(l, s, b). py_lower (py_strip l) \<in> set logins \<and> py_lower (py_strip l) \<noteq> [] \<or> s)
         (pr_comments (get n))\<rparr>) r actor now =
   sync_board_proposal_decision logins get r actor now"
proof -
  have "secretary_notes logins (filter (\<lambda>(l, s, b). py_lower (py_strip l) \<in> set logins \<and> py_lower (py_strip l) \<noteq> [] \<or> s) cs) =
      secretary_notes logins cs" for cs
    unfolding secretary_notes_def filter_filter
    by (rule arg_cong [where f = "map _"], rule filter_cong) auto
  then show ?thesis by (simp add: sync_board_proposal_decision_def Let_def split: option.split)
qed

end
