(* ===== verification/Acceptance.thy ===== *)
theory Acceptance
  imports Verification Lifecycle
begin

text \<open>
  The acceptance gate of \<open>backend/code_requests/acceptance.py\<close> and the route that uses it
  (\<open>complete_code_request\<close> in \<open>routers/code_requests_executor.py\<close>): a Code Request is done only when every
  child is merged with a verified pull request and the latest recorded check of every acceptance
  criterion passed.
\<close>

datatype unmet =
    NoChildren
  | NotMerged string child_state
  | NoPullRequest string
  | PrUnverifiable string int string
  | PrVerdict string verdict_detail
  | PrNotMerged string int pr_state
  | NoCheck string string
  | CheckFailed string string

definition record_check :: "acceptance_check \<Rightarrow> child_record \<Rightarrow> child_record option" where
  "record_check chk c =
     (if ac_criterion chk \<notin> set (ch_acceptance_criteria c) then None
      else Some (c\<lparr>ch_acceptance_checks := ch_acceptance_checks c @ [chk]\<rparr>))"

definition pr_condition :: "(string \<Rightarrow> int \<Rightarrow> string + pull_request) \<Rightarrow> child_record \<Rightarrow> unmet option" where
  "pr_condition probe c =
     (if ch_state c \<noteq> Merged then Some (NotMerged (ch_key c) (ch_state c))
      else case ch_pr_number c of
        None \<Rightarrow> Some (NoPullRequest (ch_key c))
      | Some n \<Rightarrow>
          (case probe (ch_repository c) n of
             Inl e \<Rightarrow> Some (PrUnverifiable (ch_key c) n e)
           | Inr pr \<Rightarrow>
               let v = decide ''succeeded'' True [] (Some pr) 1 False False
               in if vd_verification v \<noteq> Verified then Some (PrVerdict (ch_key c) (vd_detail v))
                  else if pull_state pr \<noteq> PrStMerged then Some (PrNotMerged (ch_key c) (pull_number pr) (pull_state pr))
                  else None))"

text \<open>\<open>{check.criterion: check for check in ...}\<close>: the last check of a criterion counts.\<close>

definition latest_check :: "acceptance_check list \<Rightarrow> string \<Rightarrow> acceptance_check option" where
  "latest_check checks cr = row_lookup ac_criterion cr (rev checks)"

definition criteria_conditions :: "child_record \<Rightarrow> unmet list" where
  "criteria_conditions c =
     concat (map (\<lambda>cr. case latest_check (ch_acceptance_checks c) cr of
                    None \<Rightarrow> [NoCheck (ch_key c) cr]
                  | Some chk \<Rightarrow> if ac_passed chk then [] else [CheckFailed (ch_key c) cr]) (ch_acceptance_criteria c))"

definition unmet_conditions :: "(string \<Rightarrow> int \<Rightarrow> string + pull_request) \<Rightarrow> child_record list \<Rightarrow> unmet list" where
  "unmet_conditions probe cs =
     (if cs = [] then [NoChildren]
      else concat (map (\<lambda>c. (case pr_condition probe c of None \<Rightarrow> [] | Some u \<Rightarrow> [u]) @ criteria_conditions c) cs))"

datatype complete_error = NotExecuting cr_state | AcceptanceUnmet "unmet list" | CompleteTransition transition_error

definition complete_code_request ::
    "(string \<Rightarrow> int \<Rightarrow> string + pull_request) \<Rightarrow> code_request \<Rightarrow> pipeline \<Rightarrow> string \<Rightarrow> string
      \<Rightarrow> complete_error + code_request" where
  "complete_code_request probe request p actor now =
     (if cr_state request \<noteq> CrExecuting then Inl (NotExecuting (cr_state request))
      else let unmet = unmet_conditions probe (children p)
           in if unmet \<noteq> [] then Inl (AcceptanceUnmet unmet)
              else case transition request CrDone actor
                     (''acceptance check passed for '' @ nat_digits (length (children p)) @ '' children'') False
                     (Some Acceptance) now of
                Inl e \<Rightarrow> Inl (CompleteTransition e)
              | Inr r \<Rightarrow> Inr r)"

text \<open>What the gate promises, on the records themselves.\<close>

definition child_accepted :: "(string \<Rightarrow> int \<Rightarrow> string + pull_request) \<Rightarrow> child_record \<Rightarrow> bool" where
  "child_accepted probe c =
     (ch_state c = Merged \<and>
      (\<exists>n pr. ch_pr_number c = Some n \<and> probe (ch_repository c) n = Inr pr \<and> pull_state pr = PrStMerged \<and> pull_ci pr = CiGreen) \<and>
      (\<forall>cr \<in> set (ch_acceptance_criteria c). \<exists>chk. latest_check (ch_acceptance_checks c) cr = Some chk \<and> ac_passed chk))"

lemma pr_condition_None:
  "pr_condition probe c = None \<longleftrightarrow> ch_state c = Merged \<and>
     (\<exists>n pr. ch_pr_number c = Some n \<and> probe (ch_repository c) n = Inr pr \<and> pull_state pr = PrStMerged \<and> pull_ci pr = CiGreen)"
  by (auto simp: pr_condition_def decide_verified Let_def split: option.splits sum.splits)

lemma criteria_conditions_Nil:
  "criteria_conditions c = [] \<longleftrightarrow>
     (\<forall>cr \<in> set (ch_acceptance_criteria c). \<exists>chk. latest_check (ch_acceptance_checks c) cr = Some chk \<and> ac_passed chk)"
  by (auto simp: criteria_conditions_def split: option.splits if_splits)

lemma unmet_conditions_Nil:
  "unmet_conditions probe cs = [] \<longleftrightarrow> cs \<noteq> [] \<and> (\<forall>c \<in> set cs. child_accepted probe c)"
proof -
  have "(case pr_condition probe c of None \<Rightarrow> [] | Some u \<Rightarrow> [u]) @ criteria_conditions c = [] \<longleftrightarrow> child_accepted probe c" for c
    using pr_condition_None [of probe c] criteria_conditions_Nil [of c]
    unfolding child_accepted_def by (cases "pr_condition probe c") auto
  then show ?thesis by (auto simp: unmet_conditions_def)
qed

text \<open>C8: An executing Code Request is completed exactly when it has children and each of them is merged,
  with its own pull request confirmed merged with green head CI and with the latest check of every
  criterion passed; then it is done, and its audit trail grows by that transition.\<close>

theorem complete_iff_accepted:
  "(\<exists>r. complete_code_request probe request p actor now = Inr r \<and> cr_state r = CrDone \<and>
      length (cr_audit_trail r) = Suc (length (cr_audit_trail request))) \<longleftrightarrow>
     cr_state request = CrExecuting \<and> children p \<noteq> [] \<and> list_all (child_accepted probe) (children p)"
  by (auto simp: list_all_iff complete_code_request_def transition_def is_legal_transition_def unmet_conditions_Nil Let_def
      split: if_splits)

lemma latest_check_snoc:
  "latest_check (chks @ [chk]) cr = (if ac_criterion chk = cr then Some chk else latest_check chks cr)"
  by (simp add: latest_check_def)

text \<open>A recorded check is the one that counts for its criterion, changes nothing for the others, and
  a check of something that is not a criterion of the child is refused.\<close>

theorem record_check_latest:
  "(case record_check chk c of
      None \<Rightarrow> ac_criterion chk \<notin> set (ch_acceptance_criteria c)
    | Some c' \<Rightarrow> ac_criterion chk \<in> set (ch_acceptance_criteria c) \<and>
        ch_acceptance_criteria c' = ch_acceptance_criteria c \<and>
        latest_check (ch_acceptance_checks c') = (latest_check (ch_acceptance_checks c))(ac_criterion chk \<mapsto> chk))"
  by (auto simp: record_check_def latest_check_snoc fun_eq_iff)

end
