(* ===== verification/Plan_Filing.thy ===== *)
theory Plan_Filing
  imports Executor_Waves
begin

text \<open>
  Filing an approved plan on GitHub (\<open>file_plan\<close> of \<open>backend/code_requests/plan_filing.py\<close>): the epic,
  then each child in wave order, its turnover comment and its link to the epic, with the progress
  recorded after every write. A write is sent by \<open>gh_client._request\<close>, which sends it again after a lost
  connection, a timeout or a server error. GitHub's replies are a function of the number of requests
  sent so far; the log keeps the writes that took effect.
\<close>

section \<open>The plan\<close>

record plan_child =
  pc_key :: string
  pc_title :: string
  pc_dependencies :: "string list"
  pc_tier :: string
  pc_complexity :: string
  pc_task_class :: string
  pc_allowed :: "string list"
  pc_acceptance_criteria :: "string list"

record plan_draft =
  pd_epic_title :: string
  pd_children :: "plan_child list"
  pd_duplicates :: "int list"

definition plan_pairs :: "plan_draft \<Rightarrow> (string \<times> string list) list" where
  "plan_pairs plan = map (\<lambda>c. (pc_key c, pc_dependencies c)) (pd_children plan)"

definition external_dependencies :: "string list \<Rightarrow> string list" where
  "external_dependencies ds = filter external_ref ds"

section \<open>Progress and writes\<close>

text \<open>\<open>children\<close> and \<open>child_ids\<close> are set by one statement; one entry holds the number and the id.\<close>

record filing_progress =
  fp_epic_number :: "int option"
  fp_children :: "(string \<times> (int \<times> int)) list"
  fp_turnovers :: "string list"
  fp_linked :: "string list"

definition no_progress :: filing_progress where
  "no_progress = \<lparr>fp_epic_number = None, fp_children = [], fp_turnovers = [], fp_linked = []\<rparr>"

datatype dep_ref = RefIssue int | RefText string

datatype gh_write =
    WEpic
  | WIssue string int "dep_ref list"   \<comment> \<open>child key, epic, dependency references\<close>
  | WTurnover string int
  | WLink string int

record filing =
  fl_progress :: filing_progress
  fl_log :: "gh_write list"
  fl_asked :: nat

text \<open>
  The reply to one request: the number and the id of what was created; a refusal, which changes nothing
  and is not retried; an answer that cannot be read, of a write that took effect; a lost one, after which
  the request is sent again, and which took effect or not.
\<close>

datatype gh_reply = Answered int int | Refused | Garbled | Lost bool

type_synonym gh_answers = "nat \<Rightarrow> gh_reply"

definition max_retries :: nat where "max_retries = 5"

fun gh_try :: "nat \<Rightarrow> gh_answers \<Rightarrow> gh_write \<Rightarrow> filing \<Rightarrow> (int \<times> int) option \<times> filing" where
  "gh_try 0 ans w st = (None, st)"
| "gh_try (Suc n) ans w st =
     (let st1 = st\<lparr>fl_asked := Suc (fl_asked st)\<rparr>; st2 = st1\<lparr>fl_log := fl_log st @ [w]\<rparr>
      in case ans (fl_asked st) of
           Answered number i \<Rightarrow> (Some (number, i), st2)
         | Refused \<Rightarrow> (None, st1)
         | Garbled \<Rightarrow> (None, st2)
         | Lost effect \<Rightarrow> gh_try n ans w (if effect then st2 else st1))"

definition gh_post :: "gh_answers \<Rightarrow> gh_write \<Rightarrow> filing \<Rightarrow> (int \<times> int) option \<times> filing" where
  "gh_post ans w st = gh_try max_retries ans w st"

text \<open>\<open>_dependency_refs\<close>: \<open>None\<close> is the \<open>KeyError\<close> of a sibling that has no issue yet.\<close>

fun local_refs :: "(string \<times> (int \<times> int)) list \<Rightarrow> string list \<Rightarrow> dep_ref list option" where
  "local_refs numbers [] = Some []"
| "local_refs numbers (d # ds) =
     (case map_of numbers d of
        None \<Rightarrow> None
      | Some (n, i) \<Rightarrow> map_option (\<lambda>rs. RefIssue n # rs) (local_refs numbers ds))"

definition dependency_refs :: "(string \<times> (int \<times> int)) list \<Rightarrow> plan_child \<Rightarrow> dep_ref list option" where
  "dependency_refs numbers child =
     map_option (\<lambda>rs. rs @ map RefText (external_dependencies (pc_dependencies child)))
       (local_refs numbers (local_dependencies (pc_dependencies child)))"

section \<open>One child\<close>

definition file_issue :: "gh_answers \<Rightarrow> int \<Rightarrow> plan_child \<Rightarrow> filing \<Rightarrow> bool \<times> filing" where
  "file_issue ans epic child st =
     (if pc_key child \<in> fst ` set (fp_children (fl_progress st)) then (True, st)
      else case dependency_refs (fp_children (fl_progress st)) child of
        None \<Rightarrow> (False, st)
      | Some refs \<Rightarrow>
          (case gh_post ans (WIssue (pc_key child) epic refs) st of
             (None, st1) \<Rightarrow> (False, st1)
           | (Some a, st1) \<Rightarrow>
               (True, st1\<lparr>fl_progress := (fl_progress st1)\<lparr>fp_children := fp_children (fl_progress st1) @ [(pc_key child, a)]\<rparr>\<rparr>)))"

definition file_turnover :: "gh_answers \<Rightarrow> plan_child \<Rightarrow> filing \<Rightarrow> bool \<times> filing" where
  "file_turnover ans child st =
     (case map_of (fp_children (fl_progress st)) (pc_key child) of
        None \<Rightarrow> (False, st)
      | Some (number, i) \<Rightarrow>
          if pc_key child \<in> set (fp_turnovers (fl_progress st)) then (True, st)
          else case gh_post ans (WTurnover (pc_key child) number) st of
                 (None, st1) \<Rightarrow> (False, st1)
               | (Some a, st1) \<Rightarrow>
                   (True, st1\<lparr>fl_progress := (fl_progress st1)\<lparr>fp_turnovers := fp_turnovers (fl_progress st1) @ [pc_key child]\<rparr>\<rparr>))"

definition file_link :: "gh_answers \<Rightarrow> plan_child \<Rightarrow> filing \<Rightarrow> bool \<times> filing" where
  "file_link ans child st =
     (if pc_key child \<in> set (fp_linked (fl_progress st)) then (True, st)
      else case map_of (fp_children (fl_progress st)) (pc_key child) of
        None \<Rightarrow> (False, st)
      | Some (number, i) \<Rightarrow>
          (case gh_post ans (WLink (pc_key child) i) st of
             (None, st1) \<Rightarrow> (False, st1)
           | (Some a, st1) \<Rightarrow>
               (True, st1\<lparr>fl_progress := (fl_progress st1)\<lparr>fp_linked := fp_linked (fl_progress st1) @ [pc_key child]\<rparr>\<rparr>)))"

definition file_child :: "gh_answers \<Rightarrow> int \<Rightarrow> plan_child \<Rightarrow> filing \<Rightarrow> bool \<times> filing" where
  "file_child ans epic child st =
     (case file_issue ans epic child st of
        (False, st1) \<Rightarrow> (False, st1)
      | (True, st1) \<Rightarrow>
          (case file_turnover ans child st1 of
             (False, st2) \<Rightarrow> (False, st2)
           | (True, st2) \<Rightarrow> file_link ans child st2))"

section \<open>The plan\<close>

text \<open>\<open>by_key\<close>: the last child of a key.\<close>

definition by_key :: "plan_draft \<Rightarrow> string \<Rightarrow> plan_child option" where
  "by_key plan k = row_lookup pc_key k (rev (pd_children plan))"

fun file_keys :: "gh_answers \<Rightarrow> int \<Rightarrow> plan_draft \<Rightarrow> string list \<Rightarrow> filing \<Rightarrow> bool \<times> filing" where
  "file_keys ans epic plan [] st = (True, st)"
| "file_keys ans epic plan (k # ks) st =
     (case by_key plan k of
        None \<Rightarrow> (False, st)
      | Some c \<Rightarrow>
          (case file_child ans epic c st of
             (False, st1) \<Rightarrow> (False, st1)
           | (True, st1) \<Rightarrow> file_keys ans epic plan ks st1))"

text \<open>The epic's body renders the waves, so a plan with a cycle fails before the epic is written.\<close>

definition file_epic :: "bool \<Rightarrow> gh_answers \<Rightarrow> plan_draft \<Rightarrow> filing \<Rightarrow> int option \<times> filing" where
  "file_epic search_ok ans plan st =
     (case fp_epic_number (fl_progress st) of
        Some n \<Rightarrow> (Some n, st)
      | None \<Rightarrow>
          if \<not> search_ok \<or> isl (compute_plan_waves (plan_pairs plan)) then (None, st)
          else case gh_post ans WEpic st of
                 (None, st1) \<Rightarrow> (None, st1)
               | (Some (n, i), st1) \<Rightarrow>
                   (Some n, st1\<lparr>fl_progress := (fl_progress st1)\<lparr>fp_epic_number := Some n\<rparr>\<rparr>))"

text \<open>\<open>search_ok\<close>: the search for duplicates answered; \<open>baseline_ok\<close>: the base commit was resolved.\<close>

definition file_plan :: "bool \<Rightarrow> bool \<Rightarrow> gh_answers \<Rightarrow> plan_draft \<Rightarrow> filing \<Rightarrow> bool \<times> filing" where
  "file_plan search_ok baseline_ok ans plan st =
     (case file_epic search_ok ans plan st of
        (None, st1) \<Rightarrow> (False, st1)
      | (Some epic, st1) \<Rightarrow>
          if \<not> baseline_ok then (False, st1)
          else case compute_plan_waves (plan_pairs plan) of
                 Inl stuck \<Rightarrow> (False, st1)
               | Inr ws \<Rightarrow> file_keys ans epic plan (concat ws) st1)"

section \<open>Nothing is written twice\<close>

datatype gh_key = KEpic | KIssue string | KTurnover string | KLink string

fun write_key :: "gh_write \<Rightarrow> gh_key" where
  "write_key WEpic = KEpic"
| "write_key (WIssue k e rs) = KIssue k"
| "write_key (WTurnover k n) = KTurnover k"
| "write_key (WLink k i) = KLink k"

definition recorded :: "filing_progress \<Rightarrow> gh_key set" where
  "recorded p = (if fp_epic_number p = None then {} else {KEpic}) \<union> KIssue ` fst ` set (fp_children p) \<union>
     KTurnover ` set (fp_turnovers p) \<union> KLink ` set (fp_linked p)"

definition logged :: "filing \<Rightarrow> gh_key set" where
  "logged st = set (map write_key (fl_log st))"

definition filing_inv :: "filing \<Rightarrow> bool" where
  "filing_inv st = (distinct (map write_key (fl_log st)) \<and> logged st = recorded (fl_progress st))"

text \<open>No reply was lost or unreadable after GitHub had carried out the write.\<close>

definition faithful :: "gh_answers \<Rightarrow> bool" where
  "faithful ans \<longleftrightarrow> (\<forall>n. ans n \<noteq> Lost True \<and> ans n \<noteq> Garbled)"

text \<open>
  An operation that only adds to the progress and to the log, within the keys \<open>K\<close>, records nothing it
  did not write and, with faithful replies, keeps the invariant.
\<close>

definition grows :: "gh_key set \<Rightarrow> gh_key set \<Rightarrow> gh_key set \<Rightarrow> bool" where
  "grows K A B \<longleftrightarrow> A \<subseteq> B \<and> B \<subseteq> A \<union> K"

definition files :: "gh_answers \<Rightarrow> gh_key set \<Rightarrow> filing \<Rightarrow> filing \<Rightarrow> bool" where
  "files ans K st st' \<longleftrightarrow> (faithful ans \<longrightarrow> filing_inv st \<longrightarrow> filing_inv st') \<and>
     grows K (recorded (fl_progress st)) (recorded (fl_progress st')) \<and> grows K (logged st) (logged st') \<and>
     (recorded (fl_progress st) \<subseteq> logged st \<longrightarrow> recorded (fl_progress st') \<subseteq> logged st')"

lemma grows_refl [simp]: "grows K A A"
  by (simp add: grows_def)

lemma grows_trans: "grows K A B \<Longrightarrow> grows K B C \<Longrightarrow> grows K A C"
  by (auto simp: grows_def)

lemma grows_mono: "grows K A B \<Longrightarrow> K \<subseteq> K' \<Longrightarrow> grows K' A B"
  by (auto simp: grows_def)

lemma files_refl: "files ans K st st"
  by (simp add: files_def)

lemma files_trans: "files ans K st st' \<Longrightarrow> files ans K st' st'' \<Longrightarrow> files ans K st st''"
  by (auto simp: files_def intro: grows_trans)

lemma files_mono: "files ans K st st' \<Longrightarrow> K \<subseteq> K' \<Longrightarrow> files ans K' st st'"
  by (auto simp: files_def intro: grows_mono)

text \<open>A call sends the write some times; with faithful replies it takes effect once or, on failure, never.\<close>

lemma gh_try_effect:
  assumes "gh_try m ans w st = (r, st')"
  shows "fl_progress st' = fl_progress st \<and> (\<exists>n. fl_log st' = fl_log st @ replicate n w \<and>
    (r \<noteq> None \<longrightarrow> 0 < n) \<and> (faithful ans \<longrightarrow> n = (if r = None then 0 else 1)))"
  using assms
proof (induction m arbitrary: st)
  case 0
  then show ?case by (auto intro: exI [of _ 0])
next
  case (Suc m)
  show ?case
  proof (cases "ans (fl_asked st)")
    case (Lost e)
    obtain n where n: "fl_progress st' = fl_progress st"
      "fl_log st' = fl_log st @ (if e then [w] else []) @ replicate n w"
      "r \<noteq> None \<longrightarrow> 0 < n" "faithful ans \<longrightarrow> n = (if r = None then 0 else 1)"
      using Suc.IH [of "if e then st\<lparr>fl_asked := Suc (fl_asked st), fl_log := fl_log st @ [w]\<rparr>
        else st\<lparr>fl_asked := Suc (fl_asked st)\<rparr>"] Suc.prems Lost
      by (cases e) (auto simp: Let_def)
    have "faithful ans \<longrightarrow> \<not> e" using Lost by (cases e) (auto simp: faithful_def)
    with n show ?thesis
      by (cases e) (auto intro: exI [of _ "Suc n"] exI [of _ n])
  next
    case Garbled
    then have "\<not> faithful ans" by (auto simp: faithful_def)
    with Suc.prems Garbled show ?thesis by (auto simp: Let_def intro: exI [of _ 1])
  qed (use Suc.prems in \<open>auto simp: Let_def intro: exI [of _ 0] exI [of _ 1]\<close>)
qed

lemma post_failed:
  assumes "gh_post ans w st = (None, st')" and "write_key w \<in> K"
  shows "files ans K st st'"
proof -
  obtain n where "fl_progress st' = fl_progress st" "fl_log st' = fl_log st @ replicate n w"
    "faithful ans \<longrightarrow> n = 0"
    using gh_try_effect assms(1) unfolding gh_post_def by (metis (no_types, lifting))
  with assms(2) show ?thesis by (cases n) (auto simp: files_def grows_def filing_inv_def logged_def)
qed

lemma files_write:
  assumes "gh_post ans w st = (Some a, st1)" and "write_key w \<notin> recorded (fl_progress st)" and "write_key w \<in> K"
    and "recorded p = insert (write_key w) (recorded (fl_progress st))"
  shows "files ans K st (st1\<lparr>fl_progress := p\<rparr>)"
proof -
  obtain n where n: "fl_log st1 = fl_log st @ replicate n w" "0 < n" "faithful ans \<longrightarrow> n = 1"
    using gh_try_effect assms(1) unfolding gh_post_def by (metis (no_types, lifting) option.distinct(1))
  with assms(2-4) show ?thesis by (auto simp: files_def grows_def filing_inv_def logged_def)
qed

lemma post_progress: "gh_post ans w st = (r, st1) \<Longrightarrow> fl_progress st1 = fl_progress st"
  using gh_try_effect by (simp add: gh_post_def)

definition child_keys :: "string \<Rightarrow> gh_key set" where
  "child_keys k = {KIssue k, KTurnover k, KLink k}"

lemma file_issue_files: "files ans (child_keys (pc_key c)) st (snd (file_issue ans epic c st))"
proof -
  have w: "files ans (child_keys (pc_key c)) st
      (st1\<lparr>fl_progress := (fl_progress st1)\<lparr>fp_children := fp_children (fl_progress st1) @ [(pc_key c, a)]\<rparr>\<rparr>)"
    if "pc_key c \<notin> fst ` set (fp_children (fl_progress st))" "gh_post ans (WIssue (pc_key c) epic rs) st = (Some a, st1)"
    for rs a st1
    by (rule files_write [OF that(2)]) (use that in \<open>auto simp: post_progress recorded_def child_keys_def\<close>)
  have f: "files ans (child_keys (pc_key c)) st st1"
    if "gh_post ans (WIssue (pc_key c) epic rs) st = (None, st1)" for rs st1
    by (rule post_failed [OF that]) (simp add: child_keys_def)
  show ?thesis
    by (auto simp: file_issue_def files_refl f w split: option.split prod.split)
qed

lemma file_turnover_files: "files ans (child_keys (pc_key c)) st (snd (file_turnover ans c st))"
proof -
  have w: "files ans (child_keys (pc_key c)) st
      (st1\<lparr>fl_progress := (fl_progress st1)\<lparr>fp_turnovers := fp_turnovers (fl_progress st1) @ [pc_key c]\<rparr>\<rparr>)"
    if "pc_key c \<notin> set (fp_turnovers (fl_progress st))" "gh_post ans (WTurnover (pc_key c) m) st = (Some a, st1)"
    for m a st1
    by (rule files_write [OF that(2)]) (use that in \<open>auto simp: post_progress recorded_def child_keys_def\<close>)
  have f: "files ans (child_keys (pc_key c)) st st1"
    if "gh_post ans (WTurnover (pc_key c) m) st = (None, st1)" for m st1
    by (rule post_failed [OF that]) (simp add: child_keys_def)
  show ?thesis
    by (auto simp: file_turnover_def files_refl f w split: option.split prod.split)
qed

lemma file_link_files: "files ans (child_keys (pc_key c)) st (snd (file_link ans c st))"
proof -
  have w: "files ans (child_keys (pc_key c)) st
      (st1\<lparr>fl_progress := (fl_progress st1)\<lparr>fp_linked := fp_linked (fl_progress st1) @ [pc_key c]\<rparr>\<rparr>)"
    if "pc_key c \<notin> set (fp_linked (fl_progress st))" "gh_post ans (WLink (pc_key c) m) st = (Some a, st1)"
    for m a st1
    by (rule files_write [OF that(2)]) (use that in \<open>auto simp: post_progress recorded_def child_keys_def\<close>)
  have f: "files ans (child_keys (pc_key c)) st st1"
    if "gh_post ans (WLink (pc_key c) m) st = (None, st1)" for m st1
    by (rule post_failed [OF that]) (simp add: child_keys_def)
  show ?thesis
    by (auto simp: file_link_def files_refl f w split: option.split prod.split)
qed

lemma file_child_files: "files ans (child_keys (pc_key c)) st (snd (file_child ans epic c st))"
  using file_issue_files [of ans c st epic] file_turnover_files [of ans c] file_link_files [of ans c]
  by (auto simp: file_child_def split: prod.split bool.split) (metis files_trans snd_conv)+

lemma by_key_key: "by_key plan k = Some c \<Longrightarrow> pc_key c = k \<and> c \<in> set (pd_children plan)"
  by (auto simp: by_key_def dest: row_lookup_SomeD)

definition plan_keys :: "plan_draft \<Rightarrow> gh_key set" where
  "plan_keys plan = insert KEpic (\<Union>c \<in> set (pd_children plan). child_keys (pc_key c))"

lemma file_keys_files: "files ans (plan_keys plan) st (snd (file_keys ans epic plan ks st))"
proof (induction ks arbitrary: st)
  case Nil
  then show ?case by (simp add: files_refl)
next
  case (Cons k ks)
  show ?case
  proof (cases "by_key plan k")
    case None
    then show ?thesis by (simp add: files_refl)
  next
    case (Some c)
    have "files ans (plan_keys plan) st (snd (file_child ans epic c st))"
      by (rule files_mono [OF file_child_files]) (use by_key_key [OF Some] in \<open>auto simp: plan_keys_def\<close>)
    with Some Cons.IH show ?thesis
      by (auto split: prod.split bool.split) (metis files_trans snd_conv)
  qed
qed

lemma file_epic_files: "files ans (plan_keys plan) st (snd (file_epic search_ok ans plan st))"
proof -
  have w: "files ans (plan_keys plan) st (st1\<lparr>fl_progress := (fl_progress st1)\<lparr>fp_epic_number := Some n\<rparr>\<rparr>)"
    if "fp_epic_number (fl_progress st) = None" "gh_post ans WEpic st = (Some a, st1)" for n a st1
    by (rule files_write [OF that(2)]) (use that in \<open>auto simp: post_progress recorded_def plan_keys_def\<close>)
  have f: "files ans (plan_keys plan) st st1" if "gh_post ans WEpic st = (None, st1)" for st1
    by (rule post_failed [OF that]) (simp add: plan_keys_def)
  show ?thesis
    by (auto simp: file_epic_def files_refl f w split: option.split prod.split)
qed

lemma file_plan_files: "files ans (plan_keys plan) st (snd (file_plan search_ok baseline_ok ans plan st))"
  using file_epic_files [of ans plan st search_ok] file_keys_files [of ans plan]
  by (auto simp: file_plan_def split: prod.split option.split sum.split) (metis files_trans snd_conv)+

section \<open>A filing that returned is complete\<close>

lemma file_child_done:
  "file_child ans epic c st = (True, st') \<Longrightarrow> child_keys (pc_key c) \<subseteq> recorded (fl_progress st')"
proof -
  assume a: "file_child ans epic c st = (True, st')"
  then obtain st1 st2 where 1: "file_issue ans epic c st = (True, st1)" and 2: "file_turnover ans c st1 = (True, st2)"
    and 3: "file_link ans c st2 = (True, st')"
    by (auto simp: file_child_def split: prod.splits bool.splits)
  have "KIssue (pc_key c) \<in> recorded (fl_progress st1)"
    using 1 by (auto simp: file_issue_def recorded_def split: if_splits option.splits prod.splits)
  moreover have "KTurnover (pc_key c) \<in> recorded (fl_progress st2)"
    using 2 by (auto simp: file_turnover_def recorded_def split: if_splits option.splits prod.splits)
  moreover have "KLink (pc_key c) \<in> recorded (fl_progress st')"
    using 3 by (auto simp: file_link_def recorded_def split: if_splits option.splits prod.splits)
  moreover have "files ans (child_keys (pc_key c)) st1 st2" "files ans (child_keys (pc_key c)) st2 st'"
    using file_turnover_files [of ans c st1] file_link_files [of ans c st2] 2 3 by simp_all
  ultimately show ?thesis by (auto simp: child_keys_def files_def grows_def)
qed

lemma file_keys_done:
  "file_keys ans epic plan ks st = (True, st') \<Longrightarrow> k \<in> set ks \<Longrightarrow> child_keys k \<subseteq> recorded (fl_progress st')"
proof (induction ks arbitrary: st)
  case Nil
  then show ?case by simp
next
  case (Cons j ks)
  then obtain c st1 where c: "by_key plan j = Some c" and 1: "file_child ans epic c st = (True, st1)"
    and 2: "file_keys ans epic plan ks st1 = (True, st')"
    by (auto split: option.splits prod.splits bool.splits)
  have "recorded (fl_progress st1) \<subseteq> recorded (fl_progress st')"
    using file_keys_files [of ans plan st1 epic ks] 2 by (simp add: files_def grows_def)
  with file_child_done [OF 1] by_key_key [OF c] Cons.IH [OF 2] Cons.prems(2) show ?case by auto
qed

section \<open>A filing that GitHub answers completes\<close>

abbreviation filed_keys :: "filing \<Rightarrow> string set" where
  "filed_keys st \<equiv> fst ` set (fp_children (fl_progress st))"

lemma map_of_filed: "map_of xs k = None \<longleftrightarrow> k \<notin> fst ` set xs"
  by (simp add: map_of_eq_None_iff)

lemma local_refs_Some: "set ds \<subseteq> fst ` set numbers \<Longrightarrow> \<exists>rs. local_refs numbers ds = Some rs"
proof (induction ds)
  case Nil
  then show ?case by simp
next
  case (Cons d ds)
  then have "map_of numbers d \<noteq> None" by (simp add: map_of_filed)
  with Cons show ?case by auto
qed

lemma post_answered:
  "\<forall>n. \<exists>number i. ans n = Answered number i \<Longrightarrow> \<exists>a st1. gh_post ans w st = (Some a, st1) \<and> fl_progress st1 = fl_progress st"
proof -
  assume "\<forall>n. \<exists>number i. ans n = Answered number i"
  then obtain number i where "ans (fl_asked st) = Answered number i" by blast
  then show ?thesis by (simp add: gh_post_def max_retries_def eval_nat_numeral Let_def)
qed

lemma file_child_ok:
  assumes "\<forall>n. \<exists>number i. ans n = Answered number i" and "set (local_dependencies (pc_dependencies c)) \<subseteq> filed_keys st"
  shows "\<exists>st'. file_child ans epic c st = (True, st') \<and> filed_keys st' = insert (pc_key c) (filed_keys st)"
proof -
  obtain rs where rs: "dependency_refs (fp_children (fl_progress st)) c = Some rs"
    using local_refs_Some [OF assms(2)] by (auto simp: dependency_refs_def)
  note a = post_answered [OF assms(1)]
  have "\<exists>st1. file_issue ans epic c st = (True, st1) \<and> filed_keys st1 = insert (pc_key c) (filed_keys st)"
    using rs a [of "WIssue (pc_key c) epic rs" st] by (auto simp: file_issue_def)
  then obtain st1 where 1: "file_issue ans epic c st = (True, st1)" "filed_keys st1 = insert (pc_key c) (filed_keys st)"
    by blast
  then have "map_of (fp_children (fl_progress st1)) (pc_key c) \<noteq> None" by (simp add: map_of_filed)
  then obtain n i where m: "map_of (fp_children (fl_progress st1)) (pc_key c) = Some (n, i)" by auto
  have "\<exists>st2. file_turnover ans c st1 = (True, st2) \<and> fp_children (fl_progress st2) = fp_children (fl_progress st1)"
    using m a [of "WTurnover (pc_key c) n" st1] by (auto simp: file_turnover_def)
  then obtain st2 where 2: "file_turnover ans c st1 = (True, st2)" "fp_children (fl_progress st2) = fp_children (fl_progress st1)"
    by blast
  have "\<exists>st3. file_link ans c st2 = (True, st3) \<and> fp_children (fl_progress st3) = fp_children (fl_progress st2)"
    using m 2(2) a [of "WLink (pc_key c) i" st2] by (auto simp: file_link_def)
  with 1 2 show ?thesis by (auto simp: file_child_def)
qed

lemma file_keys_ok:
  assumes "\<forall>n. \<exists>number i. ans n = Answered number i"
    and "\<And>i. i < length ks \<Longrightarrow> \<exists>c. by_key plan (ks ! i) = Some c \<and>
      set (local_dependencies (pc_dependencies c)) \<subseteq> set (take i ks) \<union> filed_keys st"
  shows "fst (file_keys ans epic plan ks st)"
  using assms(2)
proof (induction ks arbitrary: st)
  case Nil
  then show ?case by simp
next
  case (Cons k ks)
  from Cons.prems [of 0] obtain c where c: "by_key plan k = Some c"
    "set (local_dependencies (pc_dependencies c)) \<subseteq> filed_keys st" by auto
  from file_child_ok [where epic = epic, OF assms(1) c(2)] obtain st1 where st1: "file_child ans epic c st = (True, st1)"
    "filed_keys st1 = insert (pc_key c) (filed_keys st)" by blast
  have "fst (file_keys ans epic plan ks st1)"
  proof (rule Cons.IH)
    fix i assume "i < length ks"
    with Cons.prems [of "Suc i"] obtain c' where c': "by_key plan (ks ! i) = Some c'"
      "set (local_dependencies (pc_dependencies c')) \<subseteq> insert k (set (take i ks)) \<union> filed_keys st" by auto
    have "pc_key c = k" using by_key_key [OF c(1)] by simp
    with c' show "\<exists>c. by_key plan (ks ! i) = Some c \<and>
      set (local_dependencies (pc_dependencies c)) \<subseteq> set (take i ks) \<union> filed_keys st1"
      unfolding st1(2) by blast
  qed
  with c(1) st1(1) show ?case by simp
qed

lemma plan_deps_by_key:
  assumes "k \<in> pc_key ` set (pd_children plan)"
  obtains c where "by_key plan k = Some c"
    "plan_deps (plan_pairs plan) k = local_dependencies (pc_dependencies c)"
proof -
  have "by_key plan k \<noteq> None" using assms by (simp add: by_key_def row_lookup_None_iff)
  then obtain c where c: "by_key plan k = Some c" by auto
  have "map_of (map (\<lambda>c. (pc_key c, pc_dependencies c)) cs) k = map_option pc_dependencies (row_lookup pc_key k cs)" for cs
    by (induction cs) auto
  from this [of "rev (pd_children plan)"] c have "map_of (rev (plan_pairs plan)) k = Some (pc_dependencies c)"
    by (simp add: plan_pairs_def by_key_def rev_map)
  with c show ?thesis by (intro that) (simp_all add: plan_deps_def)
qed

lemma concat_take_nth:
  "i < length (concat ws) \<Longrightarrow> \<exists>j < length ws. concat ws ! i \<in> set (ws ! j) \<and> set (concat (take j ws)) \<subseteq> set (take i (concat ws))"
proof (induction ws arbitrary: i)
  case Nil
  then show ?case by simp
next
  case (Cons w ws)
  show ?case
  proof (cases "i < length w")
    case True
    then show ?thesis by (intro exI [of _ 0]) (simp add: nth_append)
  next
    case False
    with Cons.prems have "i - length w < length (concat ws)" by simp
    from Cons.IH [OF this] obtain j where "j < length ws" "concat ws ! (i - length w) \<in> set (ws ! j)"
      "set (concat (take j ws)) \<subseteq> set (take (i - length w) (concat ws))" by blast
    with False show ?thesis by (intro exI [of _ "Suc j"]) (auto simp: nth_append)
  qed
qed

section \<open>Properties\<close>

text \<open>
  An attempt: whether the process is killed before the progress is saved, whether search and base
  commit answer, and GitHub's replies. A killed attempt leaves its writes but not its progress.
\<close>

type_synonym attempt = "bool \<times> bool \<times> bool \<times> gh_answers"

definition new_filing :: filing where
  "new_filing = \<lparr>fl_progress = no_progress, fl_log = [], fl_asked = 0\<rparr>"

definition file_attempt :: "plan_draft \<Rightarrow> attempt \<Rightarrow> filing \<Rightarrow> bool \<times> filing" where
  "file_attempt plan a st =
     (let (killed, search_ok, baseline_ok, ans) = a; (ok, st') = file_plan search_ok baseline_ok ans plan st
      in if killed then (False, st'\<lparr>fl_progress := fl_progress st\<rparr>) else (ok, st'))"

fun file_attempts :: "plan_draft \<Rightarrow> attempt list \<Rightarrow> bool \<times> filing \<Rightarrow> bool \<times> filing" where
  "file_attempts plan [] r = r"
| "file_attempts plan (a # as) r = file_attempts plan as (file_attempt plan a (snd r))"

text \<open>No attempt was killed and no reply was lost after the write took effect.\<close>

fun clean_attempt :: "attempt \<Rightarrow> bool" where
  "clean_attempt (killed, search_ok, baseline_ok, ans) \<longleftrightarrow> \<not> killed \<and> faithful ans"

definition filing_sound :: "plan_draft \<Rightarrow> filing \<Rightarrow> bool" where
  "filing_sound plan st \<longleftrightarrow> recorded (fl_progress st) \<subseteq> logged st \<and> logged st \<subseteq> plan_keys plan"

lemma filing_inv_new: "filing_inv new_filing"
  by (simp add: filing_inv_def new_filing_def logged_def recorded_def no_progress_def)

lemma filing_sound_new: "filing_sound plan new_filing"
  by (simp add: filing_sound_def new_filing_def logged_def recorded_def no_progress_def)

lemma file_attempts_snoc:
  "file_attempts plan (as @ [a]) r = file_attempt plan a (snd (file_attempts plan as r))"
  by (induction plan as r rule: file_attempts.induct) auto

lemma file_attempt_sound:
  assumes "filing_sound plan st"
  shows "filing_sound plan (snd (file_attempt plan a st)) \<and>
    (clean_attempt a \<longrightarrow> filing_inv st \<longrightarrow> filing_inv (snd (file_attempt plan a st)))"
proof -
  obtain killed s b ans where a: "a = (killed, s, b, ans)" by (metis prod_cases4)
  have f: "files ans (plan_keys plan) st (snd (file_plan s b ans plan st))" by (rule file_plan_files)
  let ?st = "snd (file_plan s b ans plan st)"
  have r: "snd (file_attempt plan a st) = (if killed then ?st\<lparr>fl_progress := fl_progress st\<rparr> else ?st)"
    by (simp add: file_attempt_def a split: prod.split)
  have "recorded (fl_progress st) \<subseteq> logged ?st" "recorded (fl_progress ?st) \<subseteq> logged ?st" "logged ?st \<subseteq> plan_keys plan"
    using f assms by (auto simp: files_def grows_def filing_sound_def)
  moreover have "logged (?st\<lparr>fl_progress := fl_progress st\<rparr>) = logged ?st" by (simp add: logged_def)
  moreover have "faithful ans \<longrightarrow> filing_inv st \<longrightarrow> filing_inv ?st" using f by (simp add: files_def)
  ultimately show ?thesis unfolding r by (simp add: filing_sound_def a)
qed

lemma file_attempts_sound:
  "filing_sound plan (snd r) \<Longrightarrow> filing_sound plan (snd (file_attempts plan as r)) \<and>
     (list_all clean_attempt as \<longrightarrow> filing_inv (snd r) \<longrightarrow> filing_inv (snd (file_attempts plan as r)))"
proof (induction as arbitrary: r)
  case Nil
  then show ?case by simp
next
  case (Cons a as)
  with file_attempt_sound [OF Cons.prems, of a] Cons.IH [of "file_attempt plan a (snd r)"] show ?case by auto
qed

lemma file_plan_done:
  assumes "file_plan s b ans plan st = (True, st')"
  shows "plan_keys plan \<subseteq> recorded (fl_progress st')"
proof -
  from assms obtain e st1 ws where 1: "file_epic s ans plan st = (Some e, st1)"
    and w: "compute_plan_waves (plan_pairs plan) = Inr ws" and 2: "file_keys ans e plan (concat ws) st1 = (True, st')"
    by (auto simp: file_plan_def split: prod.splits option.splits if_splits sum.splits)
  have "KEpic \<in> recorded (fl_progress st1)"
    using 1 by (auto simp: file_epic_def recorded_def split: option.splits if_splits prod.splits)
  then have "KEpic \<in> recorded (fl_progress st')"
    using file_keys_files [of ans plan st1 e "concat ws"] 2 by (auto simp: files_def grows_def)
  moreover have "set (concat ws) = pc_key ` set (pd_children plan)"
    using w waves_from_Inr_partition [of "plan_deps (plan_pairs plan)" "map fst (plan_pairs plan)" "{}" ws]
    by (auto simp: compute_plan_waves_def plan_pairs_def image_image split: sum.splits)
  ultimately show ?thesis using file_keys_done [OF 2] by (auto simp: plan_keys_def)
qed

text \<open>C9: However often filing is interrupted and retried, nothing but the epic, the child issues, the
  turnover comments and the links is written, and once an attempt returns each of them has been written.
  Each is written exactly once unless a reply is lost, or unreadable, after GitHub carried out the write,
  or a process is killed before it saved its progress.\<close>

theorem filing_exactly_once:
  assumes "file_attempts plan attempts (False, new_filing) = (ok, st)"
  shows "set (map write_key (fl_log st)) \<subseteq> plan_keys plan \<and>
     (ok \<longrightarrow> set (map write_key (fl_log st)) = plan_keys plan) \<and>
     (list_all clean_attempt attempts \<longrightarrow> distinct (map write_key (fl_log st)))"
proof -
  have s: "filing_sound plan st" "list_all clean_attempt attempts \<longrightarrow> filing_inv st"
    using file_attempts_sound [of plan "(False, new_filing)" attempts] filing_sound_new filing_inv_new assms by auto
  have "plan_keys plan \<subseteq> recorded (fl_progress st)" if ok
  proof (cases attempts rule: rev_cases)
    case Nil
    with assms that show ?thesis by simp
  next
    case (snoc as a)
    obtain killed search_ok b ans where a: "a = (killed, search_ok, b, ans)" by (metis prod_cases4)
    with snoc assms that have "file_plan search_ok b ans plan (snd (file_attempts plan as (False, new_filing))) = (True, st)"
      by (auto simp: file_attempts_snoc file_attempt_def split: prod.splits if_splits)
    then show ?thesis by (rule file_plan_done)
  qed
  with s show ?thesis by (auto simp: filing_sound_def filing_inv_def logged_def)
qed

definition two_child_plan :: plan_draft where
  "two_child_plan = \<lparr>pd_epic_title = ''e'',
     pd_children = [\<lparr>pc_key = ''b'', pc_title = ''b'', pc_dependencies = [''a'', ''#12''], pc_tier = ''tier:cli'',
         pc_complexity = ''routine'', pc_task_class = ''bug'', pc_allowed = [''src/''], pc_acceptance_criteria = [''ok'']\<rparr>,
       \<lparr>pc_key = ''a'', pc_title = ''a'', pc_dependencies = [], pc_tier = ''tier:cli'',
         pc_complexity = ''routine'', pc_task_class = ''bug'', pc_allowed = [''src/''], pc_acceptance_criteria = [''ok'']\<rparr>],
     pd_duplicates = []\<rparr>"

text \<open>The third write is refused in the first attempt; the second attempt finishes.\<close>

definition flaky :: gh_answers where
  "flaky n = (if n = 2 then Refused else if n = 4 then Lost False else Answered (int n + 100) (int n))"

lemma flaky_faithful: "faithful flaky"
  by (simp add: faithful_def flaky_def)

theorem filing_exactly_once_witness:
  "length (fl_log (snd (file_attempts two_child_plan [(False, True, True, flaky), (False, True, True, flaky)] (False, new_filing)))) = 7 \<and>
   distinct (map write_key (fl_log (snd (file_attempts two_child_plan [(False, True, True, flaky), (False, True, True, flaky)] (False, new_filing)))))"
proof -
  let ?as = "[(False, True, True, flaky), (False, True, True, flaky)]"
  let ?r = "file_attempts two_child_plan ?as (False, new_filing)"
  have "length (fl_log (snd ?r)) = 7" by code_simp
  moreover have "?r = (fst ?r, snd ?r)" by simp
  note filing_exactly_once [OF this]
  moreover have "list_all clean_attempt ?as" by (simp add: flaky_faithful)
  ultimately show ?thesis by blast
qed

text \<open>A reply that is lost after the write took effect: the epic is written twice, in one attempt that returns.\<close>

lemma lost_reply_duplicates:
  "let (ok, st) = file_attempt two_child_plan (False, True, True, \<lambda>n. if n = 0 then Lost True else Answered (int n) (int n)) new_filing
   in ok \<and> take 2 (fl_log st) = [WEpic, WEpic]"
  by code_simp

text \<open>An attempt that GitHub answers throughout completes the filing of every plan without cycle or
  unknown dependency, whatever earlier attempts left behind: each child is filed after the siblings its
  dependency references name.\<close>

theorem filing_completes:
  assumes "compute_plan_waves (plan_pairs plan) = Inr ws" and "\<forall>n. \<exists>number i. ans n = Answered number i"
  shows "fst (file_plan True True ans plan st)"
proof -
  let ?d = "plan_deps (plan_pairs plan)" and ?o = "map fst (plan_pairs plan)"
  have w: "waves_from ?d ?o {} = Inr ws"
    using assms(1) by (simp add: compute_plan_waves_def split: sum.splits)
  have keys: "set (concat ws) = pc_key ` set (pd_children plan)"
    using waves_from_Inr_partition [OF w] by (auto simp: plan_pairs_def image_image)
  obtain a st0 where "gh_post ans WEpic st = (Some a, st0)" using post_answered [OF assms(2)] by blast
  then have "fst (file_epic True ans plan st) \<noteq> None"
    using assms(1) by (cases a) (simp add: file_epic_def split: option.split)
  then obtain e st1 where e: "file_epic True ans plan st = (Some e, st1)"
    by (cases "file_epic True ans plan st") auto
  have "fst (file_keys ans e plan (concat ws) st1)"
  proof (rule file_keys_ok [OF assms(2)])
    fix i assume i: "i < length (concat ws)"
    from concat_take_nth [OF this] obtain j where j: "j < length ws" "concat ws ! i \<in> set (ws ! j)"
      "set (concat (take j ws)) \<subseteq> set (take i (concat ws))" by blast
    have "concat ws ! i \<in> pc_key ` set (pd_children plan)" using nth_mem [OF i] unfolding keys .
    then obtain c where c: "by_key plan (concat ws ! i) = Some c"
      "?d (concat ws ! i) = local_dependencies (pc_dependencies c)" by (rule plan_deps_by_key)
    with waves_from_deps [OF w j(1,2)] j(3)
    show "\<exists>c. by_key plan (concat ws ! i) = Some c \<and>
      set (local_dependencies (pc_dependencies c)) \<subseteq> set (take i (concat ws)) \<union> filed_keys st1" by auto
  qed
  with e assms(1) show ?thesis by (simp add: file_plan_def)
qed

theorem filing_completes_witness:
  "fst (file_plan True True (\<lambda>n. Answered (int n) (int n)) two_child_plan new_filing)"
proof (rule filing_completes)
  show "compute_plan_waves (plan_pairs two_child_plan) = Inr [[''a''], [''b'']]" by code_simp
qed simp

end
