(* ===== verification/Planning.thy ===== *)
theory Planning
  imports Plan_Filing Lifecycle Executor_Bounds
begin

text \<open>
  The planner stage of a Code Request: validation of a plan (\<open>plan_validator.py\<close>), the decision on a
  submitted plan (\<open>planner.receive_plan\<close>), the service that dispatches the planner, files the plan and
  moves the request (\<open>plan_service.py\<close>), and the executor children of a filed plan (\<open>executor_plan.py\<close>).
  The state is one Code Request with its planning session. Parsing the planner's text (JSON and the
  schema of \<open>PlanDraft\<close>) and the text rules on a rendered turnover document are function arguments;
  dispatch, GitHub and the request store answer through arguments too.
\<close>

section \<open>Validation\<close>

datatype plan_error =
    FormatError string
  | DuplicateKey string
  | BadTier string string
  | BadComplexity string string
  | BadTaskClass string string
  | UnknownDependency string string
  | PlanCycle "string list"
  | HandoffFinding string string

definition tier_labels :: "string list" where
  "tier_labels = [''tier:ollama'', ''tier:cli'', ''tier:strong'']"

definition complexities :: "string list" where
  "complexities = [''trivial'', ''routine'', ''complex'', ''deep'']"

definition task_class_labels :: "string list" where
  "task_class_labels = [''feature'', ''bug'', ''test'', ''refactor'', ''security'', ''docs'', ''ci'', ''design'', ''lint'', ''format'']"

fun duplicate_keys :: "string list \<Rightarrow> string set \<Rightarrow> plan_error list" where
  "duplicate_keys [] seen = []"
| "duplicate_keys (k # ks) seen = (if k \<in> seen then [DuplicateKey k] else []) @ duplicate_keys ks (insert k seen)"

definition child_errors :: "string list \<Rightarrow> plan_child \<Rightarrow> plan_error list" where
  "child_errors keys c =
     (if pc_tier c \<notin> set tier_labels then [BadTier (pc_key c) (pc_tier c)] else []) @
     (if pc_complexity c \<notin> set complexities then [BadComplexity (pc_key c) (pc_complexity c)] else []) @
     (if pc_task_class c \<notin> set task_class_labels then [BadTaskClass (pc_key c) (pc_task_class c)] else []) @
     map (UnknownDependency (pc_key c)) (filter (\<lambda>d. d \<notin> set keys) (local_dependencies (pc_dependencies c)))"

definition structure_errors :: "plan_draft \<Rightarrow> plan_error list" where
  "structure_errors plan =
     duplicate_keys (map pc_key (pd_children plan)) {} @
     concat (map (child_errors (map pc_key (pd_children plan))) (pd_children plan))"

definition cycle_errors :: "plan_draft \<Rightarrow> plan_error list" where
  "cycle_errors plan =
     (case compute_plan_waves (plan_pairs plan) of Inl stuck \<Rightarrow> [PlanCycle stuck] | Inr ws \<Rightarrow> [])"

text \<open>\<open>handoff c\<close>: the findings on the turnover document rendered for the child.\<close>

definition validate_plan :: "(plan_child \<Rightarrow> string list) \<Rightarrow> plan_draft \<Rightarrow> plan_error list" where
  "validate_plan handoff plan =
     structure_errors plan @
     (if structure_errors plan = [] then cycle_errors plan else []) @
     concat (map (\<lambda>c. map (HandoffFinding (pc_key c)) (handoff c)) (pd_children plan))"

definition validate_plan_output ::
    "(string \<Rightarrow> string list + plan_draft) \<Rightarrow> (plan_child \<Rightarrow> string list) \<Rightarrow> string \<Rightarrow> plan_draft option \<times> plan_error list" where
  "validate_plan_output parse handoff out =
     (case parse out of
        Inl es \<Rightarrow> (None, map FormatError es)
      | Inr plan \<Rightarrow>
          let errors = validate_plan handoff plan
          in (if errors = [] then Some plan else None, errors))"

section \<open>The session\<close>

datatype planning_status = AwaitingPlan | PsDraft | PsFiled | PsFailed

record planning_session =
  ps_status :: planning_status
  ps_attempts :: nat
  ps_errors :: "plan_error list"
  ps_draft :: "plan_draft option"
  ps_last_comment_id :: "int option"
  ps_progress :: filing_progress
  ps_approved_by :: "string option"
  ps_staff_role :: "string option"

definition new_session :: "string option \<Rightarrow> planning_session" where
  "new_session role = \<lparr>ps_status = AwaitingPlan, ps_attempts = 0, ps_errors = [], ps_draft = None,
     ps_last_comment_id = None, ps_progress = no_progress, ps_approved_by = None, ps_staff_role = role\<rparr>"

datatype next_action = NaDraft | NaFile | NaReprompt | NaFail

definition max_reprompts :: nat where "max_reprompts = 2"

definition receive_plan ::
    "(string \<Rightarrow> plan_draft option \<times> plan_error list) \<Rightarrow> planning_session \<Rightarrow> string \<Rightarrow> bool
      \<Rightarrow> (planning_session \<times> next_action) option" where
  "receive_plan validate session out requires_approval =
     (if ps_status session \<noteq> AwaitingPlan then None
      else
        let (plan, errors) = validate out;
            updated = session\<lparr>ps_errors := errors\<rparr>
        in case plan of
             Some p \<Rightarrow> Some (updated\<lparr>ps_draft := Some p, ps_status := PsDraft\<rparr>,
                              if requires_approval then NaDraft else NaFile)
           | None \<Rightarrow>
               if ps_attempts updated \<le> max_reprompts then Some (updated, NaReprompt)
               else Some (updated\<lparr>ps_status := PsFailed\<rparr>, NaFail))"

section \<open>The service\<close>

text \<open>
  \<open>pw_log\<close> keeps the writes of filings that took effect. \<open>pw_updates\<close> keeps the writes of
  \<open>CodeRequestStore.transition\<close> and \<open>save\<close> that were asked for: the audit comment of a move and the new
  body and labels of the request's issue. \<open>pw_dispatched\<close> counts the runs of the planner workflow asked for.
\<close>

datatype request_write = AuditComment cr_state cr_state | IssueUpdate cr_state

record plan_world =
  pw_request :: code_request
  pw_session :: "planning_session option"
  pw_log :: "gh_write list"
  pw_asked :: nat
  pw_updates :: "request_write list"
  pw_dispatched :: nat

text \<open>The planner profile of the request, the validator's arguments, and the clock.\<close>

record plan_env =
  pe_requires_approval :: bool
  pe_staff_role :: "string option"
  pe_validate :: "string \<Rightarrow> plan_draft option \<times> plan_error list"
  pe_validate_plan :: "plan_draft \<Rightarrow> plan_error list"
  pe_actor :: string
  pe_now :: string

text \<open>How the outside answers one request: the planner dispatch, the search and base commit of the
  filing, GitHub's writes, and the two saves of the Code Request.\<close>

record plan_answers =
  an_dispatch :: bool
  an_search :: bool
  an_baseline :: bool
  an_github :: gh_answers
  an_save :: bool
  an_save_epic :: bool

datatype planning_error =
    WrongRequestState cr_state
  | NoIssue
  | AlreadyPlanning planning_status
  | NoSession
  | NotAwaited planning_status
  | NotDraft planning_status
  | InvalidEdit "plan_error list"
  | InvalidPlanDocument
  | DispatchFailed
  | FilingInterrupted
  | RequestTransition transition_error
  | RequestSaveFailed
  | CommentAlreadyProcessed

type_synonym 'a planning = "(planning_error + 'a) \<times> plan_world"

definition save_session :: "planning_session \<Rightarrow> plan_world \<Rightarrow> plan_world" where
  "save_session s w = w\<lparr>pw_session := Some s\<rparr>"

definition dispatch_planner :: "plan_env \<Rightarrow> plan_answers \<Rightarrow> planning_session \<Rightarrow> plan_world \<Rightarrow> planning_session planning" where
  "dispatch_planner env an session w =
     (let w1 = w\<lparr>pw_dispatched := Suc (pw_dispatched w)\<rparr>
      in if \<not> an_dispatch an then (Inl DispatchFailed, w1)
         else let s = session\<lparr>ps_attempts := Suc (ps_attempts session), ps_status := AwaitingPlan,
                              ps_staff_role := pe_staff_role env\<rparr>
              in (Inr s, save_session s w1))"

definition start_planning :: "plan_env \<Rightarrow> plan_answers \<Rightarrow> plan_world \<Rightarrow> planning_session planning" where
  "start_planning env an w =
     (let request = pw_request w
      in if cr_state request \<noteq> CrPlanning then (Inl (WrongRequestState (cr_state request)), w)
         else if cr_issue_number request = None then (Inl NoIssue, w)
         else case pw_session w of
                Some s \<Rightarrow> if ps_status s \<noteq> PsFailed then (Inl (AlreadyPlanning (ps_status s)), w)
                          else dispatch_planner env an (new_session (pe_staff_role env)) w
              | None \<Rightarrow> dispatch_planner env an (new_session (pe_staff_role env)) w)"

text \<open>
  \<open>CodeRequestStore.transition\<close> on the request: a refused move writes nothing; the audit comment may
  fail unnoticed; the move counts when the update of the issue was \<open>saved\<close>.
\<close>

definition move_request ::
    "bool \<Rightarrow> cr_state \<Rightarrow> string \<Rightarrow> string \<Rightarrow> transition_gate option \<Rightarrow> string \<Rightarrow> plan_world
      \<Rightarrow> (planning_error + code_request) \<times> plan_world" where
  "move_request saved target actor reason gate now w =
     (case transition (pw_request w) target actor reason False gate now of
        Inl e \<Rightarrow> (Inl (RequestTransition e), w)
      | Inr moved \<Rightarrow>
          (let w1 = w\<lparr>pw_updates := pw_updates w @
                 (if cr_issue_number (pw_request w) = None then []
                  else [AuditComment (cr_state (pw_request w)) target, IssueUpdate target])\<rparr>
           in if saved then (Inr moved, w1\<lparr>pw_request := moved\<rparr>) else (Inl RequestSaveFailed, w1)))"

text \<open>\<open>_file\<close>: the progress is saved whether or not the filing returned; then the request is moved.\<close>

definition file_session :: "plan_env \<Rightarrow> plan_answers \<Rightarrow> string \<Rightarrow> plan_draft \<Rightarrow> planning_session \<Rightarrow> plan_world
    \<Rightarrow> planning_session planning" where
  "file_session env an reason draft session w =
     (let (ok, fl) = file_plan (an_search an) (an_baseline an) (an_github an) draft
                       \<lparr>fl_progress = ps_progress session, fl_log = pw_log w, fl_asked = pw_asked w\<rparr>;
          s1 = session\<lparr>ps_progress := fl_progress fl\<rparr>;
          w1 = save_session s1 (w\<lparr>pw_log := fl_log fl, pw_asked := fl_asked fl\<rparr>)
      in if \<not> ok then (Inl FilingInterrupted, w1)
         else
           let s2 = s1\<lparr>ps_status := PsFiled\<rparr>; w2 = save_session s2 w1
           in case move_request (an_save an) CrPlanned (pe_actor env) reason (Some PlanFiled) (pe_now env) w2 of
                (Inl e, w3) \<Rightarrow> (Inl e, w3)
              | (Inr planned, w3) \<Rightarrow>
                  let w4 = w3\<lparr>pw_updates := pw_updates w3 @
                             (if cr_issue_number planned = None then [] else [IssueUpdate CrPlanned])\<rparr>
                  in if \<not> an_save_epic an then (Inl RequestSaveFailed, w4)
                     else (Inr s2, w4\<lparr>pw_request := planned\<lparr>cr_plan_epic :=
                             map_option int_text (fp_epic_number (fl_progress fl))\<rparr>\<rparr>))"

definition submit_plan :: "plan_env \<Rightarrow> plan_answers \<Rightarrow> string \<Rightarrow> plan_world \<Rightarrow> planning_session planning" where
  "submit_plan env an out w =
     (case pw_session w of
        None \<Rightarrow> (Inl NoSession, w)
      | Some session0 \<Rightarrow>
          let session = (if str_or (ps_staff_role session0) None = None
                         then session0\<lparr>ps_staff_role := pe_staff_role env\<rparr> else session0);
              w1 = save_session session w
          in case receive_plan (pe_validate env) session out (pe_requires_approval env) of
               None \<Rightarrow> (Inl (NotAwaited (ps_status session)), w1)
             | Some (s, action) \<Rightarrow>
                 let w2 = save_session s w1
                 in (case action of
                       NaReprompt \<Rightarrow> dispatch_planner env an s w2
                     | NaFail \<Rightarrow>
                         (case move_request (an_save an) CrFailed (pe_actor env) ''planner output rejected'' None (pe_now env) w2 of
                            (Inl e, w3) \<Rightarrow> (Inl e, w3)
                          | (Inr failed, w3) \<Rightarrow> (Inr s, w3))
                     | NaFile \<Rightarrow>
                         (case ps_draft s of
                            None \<Rightarrow> (Inl InvalidPlanDocument, w2)
                          | Some d \<Rightarrow> file_session env an ''plan filed'' d s w2)
                     | NaDraft \<Rightarrow> (Inr s, w2)))"

text \<open>\<open>latest\<close> is the newest plan comment of the issue: its id and its text.\<close>

definition ingest_plan_comment ::
    "plan_env \<Rightarrow> plan_answers \<Rightarrow> (int \<times> string) option \<Rightarrow> plan_world \<Rightarrow> planning_session planning" where
  "ingest_plan_comment env an latest w =
     (case pw_session w of
        None \<Rightarrow> (Inl NoSession, w)
      | Some session \<Rightarrow>
          (case latest of
             None \<Rightarrow> (Inl NoSession, w)
           | Some (i, body) \<Rightarrow>
               if ps_last_comment_id session = Some i then (Inl CommentAlreadyProcessed, w)
               else submit_plan env an body (save_session (session\<lparr>ps_last_comment_id := Some i\<rparr>) w)))"

text \<open>The edited plan: \<open>None\<close> when it does not fit the schema.\<close>

definition edit_draft :: "plan_env \<Rightarrow> plan_draft option \<Rightarrow> plan_world \<Rightarrow> planning_session planning" where
  "edit_draft env plan w =
     (case pw_session w of
        None \<Rightarrow> (Inl NoSession, w)
      | Some session \<Rightarrow>
          if ps_status session \<noteq> PsDraft then (Inl (NotDraft (ps_status session)), w)
          else case plan of
                 None \<Rightarrow> (Inl InvalidPlanDocument, w)
               | Some draft \<Rightarrow>
                   (case pe_validate_plan env draft of
                      [] \<Rightarrow> let s = session\<lparr>ps_draft := Some draft, ps_errors := []\<rparr> in (Inr s, save_session s w)
                    | e # es \<Rightarrow> (Inl (InvalidEdit (e # es)), w)))"

definition approve_plan :: "plan_env \<Rightarrow> plan_answers \<Rightarrow> plan_world \<Rightarrow> planning_session planning" where
  "approve_plan env an w =
     (case pw_session w of
        None \<Rightarrow> (Inl NoSession, w)
      | Some session \<Rightarrow>
          if ps_status session \<noteq> PsDraft then (Inl (NotDraft (ps_status session)), w)
          else
            let s = session\<lparr>ps_approved_by := Some (pe_actor env)\<rparr>; w1 = save_session s w
            in case ps_draft s of
                 None \<Rightarrow> (Inl InvalidPlanDocument, w1)
               | Some d \<Rightarrow> file_session env an (''plan approved by '' @ pe_actor env) d s w1)"

section \<open>The executor's children\<close>

datatype plan_not_filed = NoPlan | PlanNotFiled planning_status | ChildrenWithoutIssue "string list"
  | NoSuchTier string

text \<open>\<open>_tier\<close>: \<open>None\<close> is the \<open>ValueError\<close> of an unknown tier.\<close>

definition tier_of_label :: "string \<Rightarrow> executor_tier option" where
  "tier_of_label l =
     (let v = (if py_startswith l ''tier:'' then drop 5 l else l)
      in List.find (\<lambda>t. tier_value t = v) [Ollama, Cli, Strong])"

definition payload_of :: "string \<Rightarrow> plan_child \<Rightarrow> executor_tier \<Rightarrow> int \<Rightarrow> child_payload" where
  "payload_of repository c tier number =
     \<lparr>pl_key = pc_key c, pl_title = pc_title c, pl_repository = repository, pl_issue_number = Some number,
      pl_dependencies = pc_dependencies c,
      pl_tier = tier,
      pl_task_class = pc_task_class c, pl_complexity = pc_complexity c, pl_turnover_doc = [], pl_handoff = [],
      pl_acceptance_criteria = pc_acceptance_criteria c\<rparr>"

fun payloads_of :: "string \<Rightarrow> (string \<times> (int \<times> int)) list \<Rightarrow> plan_child list \<Rightarrow> plan_not_filed + child_payload list" where
  "payloads_of repository filed [] = Inr []"
| "payloads_of repository filed (c # cs) =
     (case tier_of_label (pc_tier c) of
        None \<Rightarrow> Inl (NoSuchTier (pc_tier c))
      | Some t \<Rightarrow>
          (case payloads_of repository filed cs of
             Inl e \<Rightarrow> Inl e
           | Inr pls \<Rightarrow> Inr (payload_of repository c t (case map_of filed (pc_key c) of Some (n, i) \<Rightarrow> n | None \<Rightarrow> 0) # pls)))"

definition children_from_plan :: "planning_session option \<Rightarrow> string \<Rightarrow> plan_not_filed + child_payload list" where
  "children_from_plan session repository =
     (case session of
        None \<Rightarrow> Inl NoPlan
      | Some s \<Rightarrow>
          (case ps_draft s of
             None \<Rightarrow> Inl NoPlan
           | Some draft \<Rightarrow>
               if ps_status s \<noteq> PsFiled then Inl (PlanNotFiled (ps_status s))
               else
                 let filed = fp_children (ps_progress s);
                     missing = filter (\<lambda>k. k \<notin> fst ` set filed) (map pc_key (pd_children draft))
                 in if missing \<noteq> [] then Inl (ChildrenWithoutIssue missing)
                    else payloads_of repository filed (pd_children draft)))"

section \<open>Lemmas\<close>

text \<open>A step writes no part of a plan, and of the request at most that it failed.\<close>

fun failure_write :: "request_write \<Rightarrow> bool" where
  "failure_write (AuditComment from_state to_state) = (to_state = CrFailed)"
| "failure_write (IssueUpdate to_state) = (to_state = CrFailed)"

definition writes_failure :: "plan_world \<Rightarrow> plan_world \<Rightarrow> bool" where
  "writes_failure w w' \<longleftrightarrow> pw_log w' = pw_log w \<and>
     (\<exists>us. pw_updates w' = pw_updates w @ us \<and> list_all failure_write us)"

lemma writes_failure_refl: "pw_log w' = pw_log w \<Longrightarrow> pw_updates w' = pw_updates w \<Longrightarrow> writes_failure w w'"
  by (auto simp: writes_failure_def intro: exI [of _ "[]"])

lemma writes_failure_trans: "writes_failure w w' \<Longrightarrow> writes_failure w' w'' \<Longrightarrow> writes_failure w w''"
  by (auto simp: writes_failure_def)

lemma dispatch_planner_log [simp]: "pw_log (snd (dispatch_planner env an s w)) = pw_log w"
  "pw_request (snd (dispatch_planner env an s w)) = pw_request w"
  "pw_updates (snd (dispatch_planner env an s w)) = pw_updates w"
  by (simp_all add: dispatch_planner_def save_session_def Let_def)

lemma save_session_simps [simp]:
  "pw_session (save_session s w) = Some s" "pw_log (save_session s w) = pw_log w"
  "pw_request (save_session s w) = pw_request w" "pw_asked (save_session s w) = pw_asked w"
  "pw_dispatched (save_session s w) = pw_dispatched w" "pw_updates (save_session s w) = pw_updates w"
  by (simp_all add: save_session_def)

lemma move_request_simps [simp]:
  "pw_session (snd (move_request saved target actor reason gate now w)) = pw_session w"
  "pw_log (snd (move_request saved target actor reason gate now w)) = pw_log w"
  "pw_dispatched (snd (move_request saved target actor reason gate now w)) = pw_dispatched w"
  by (simp_all add: move_request_def Let_def split: sum.split)

lemma move_to_failed: "writes_failure w (snd (move_request saved CrFailed actor reason gate now w))"
proof (cases "transition (pw_request w) CrFailed actor reason False gate now")
  case (Inl e)
  then show ?thesis by (simp add: move_request_def writes_failure_refl)
next
  case (Inr moved)
  then show ?thesis by (cases "cr_issue_number (pw_request w)") (simp_all add: move_request_def writes_failure_def Let_def)
qed

lemma submit_plan_writes:
  assumes "pe_requires_approval env"
  shows "writes_failure w (snd (submit_plan env an out w))"
proof (cases "pw_session w")
  case None
  then show ?thesis by (simp add: submit_plan_def writes_failure_refl)
next
  case (Some session0)
  define session where "session = (if str_or (ps_staff_role session0) None = None
      then session0\<lparr>ps_staff_role := pe_staff_role env\<rparr> else session0)"
  have saved: "writes_failure w (save_session s2 (save_session session w))" for s2
    by (simp add: writes_failure_refl)
  show ?thesis
  proof (cases "receive_plan (pe_validate env) session out (pe_requires_approval env)")
    case None
    with Some show ?thesis by (simp add: submit_plan_def session_def [symmetric] Let_def writes_failure_refl)
  next
    case r: (Some sa)
    obtain s2 action where sa: "sa = (s2, action)" by (cases sa)
    let ?w2 = "save_session s2 (save_session session w)"
    show ?thesis
    proof (cases action)
      case NaDraft
      with Some r sa show ?thesis by (simp add: submit_plan_def session_def [symmetric] Let_def writes_failure_refl)
    next
      case NaFile
      with r sa assms show ?thesis
        by (auto simp: receive_plan_def Let_def split: if_splits prod.splits option.splits)
    next
      case NaReprompt
      with Some r sa show ?thesis by (simp add: submit_plan_def session_def [symmetric] Let_def writes_failure_refl)
    next
      case NaFail
      have "snd (submit_plan env an out w) =
          snd (move_request (an_save an) CrFailed (pe_actor env) ''planner output rejected'' None (pe_now env) ?w2)"
        using Some r sa NaFail by (simp add: submit_plan_def session_def [symmetric] Let_def split: prod.split sum.split)
      then show ?thesis using writes_failure_trans [OF saved move_to_failed] by simp
    qed
  qed
qed

datatype plan_event =
    PeStart plan_answers
  | PeSubmit plan_answers string
  | PeIngest plan_answers "(int \<times> string) option"
  | PeEdit "plan_draft option"
  | PeApprove plan_answers

fun plan_step :: "plan_env \<Rightarrow> plan_event \<Rightarrow> plan_world \<Rightarrow> plan_world" where
  "plan_step env (PeStart an) w = snd (start_planning env an w)"
| "plan_step env (PeSubmit an out) w = snd (submit_plan env an out w)"
| "plan_step env (PeIngest an latest) w = snd (ingest_plan_comment env an latest w)"
| "plan_step env (PeEdit plan) w = snd (edit_draft env plan w)"
| "plan_step env (PeApprove an) w = snd (approve_plan env an w)"

fun plan_run :: "plan_env \<Rightarrow> plan_event list \<Rightarrow> plan_world \<Rightarrow> plan_world" where
  "plan_run env [] w = w"
| "plan_run env (e # es) w = plan_run env es (plan_step env e w)"

definition is_approval :: "plan_event \<Rightarrow> bool" where
  "is_approval e = (case e of PeApprove an \<Rightarrow> True | _ \<Rightarrow> False)"

lemma plan_step_writes:
  assumes "pe_requires_approval env" and "\<not> is_approval e"
  shows "writes_failure w (plan_step env e w)"
proof (cases e)
  case (PeStart an)
  then show ?thesis by (simp add: start_planning_def Let_def writes_failure_refl split: option.split)
next
  case (PeSubmit an out)
  with submit_plan_writes [OF assms(1)] show ?thesis by simp
next
  case (PeIngest an latest)
  have "writes_failure w (snd (submit_plan env an out (save_session s w)))" for s out
    by (rule writes_failure_trans [OF _ submit_plan_writes [OF assms(1)]]) (simp add: writes_failure_refl)
  with PeIngest show ?thesis
    by (auto simp: ingest_plan_comment_def writes_failure_refl split: option.split prod.split)
next
  case (PeEdit plan)
  then show ?thesis by (simp add: edit_draft_def Let_def writes_failure_refl split: option.split list.split)
next
  case (PeApprove an)
  with assms(2) show ?thesis by (simp add: is_approval_def)
qed

lemma duplicate_keys_Nil: "duplicate_keys ks seen = [] \<longleftrightarrow> distinct ks \<and> set ks \<inter> seen = {}"
  by (induction ks arbitrary: seen) auto

lemma validate_plan_ok:
  assumes "validate_plan handoff plan = []"
  shows "distinct (map pc_key (pd_children plan)) \<and> (\<exists>ws. compute_plan_waves (plan_pairs plan) = Inr ws) \<and>
     (\<forall>c \<in> set (pd_children plan). pc_tier c \<in> set tier_labels)"
proof -
  have s: "structure_errors plan = []" using assms by (simp add: validate_plan_def)
  with assms have c: "cycle_errors plan = []" by (simp add: validate_plan_def)
  from s have d: "duplicate_keys (map pc_key (pd_children plan)) {} = []"
    and ce: "\<forall>c \<in> set (pd_children plan). child_errors (map pc_key (pd_children plan)) c = []"
    by (simp_all add: structure_errors_def)
  have "\<forall>c \<in> set (pd_children plan). pc_tier c \<in> set tier_labels"
    using ce by (simp add: child_errors_def split: if_splits)
  moreover have "\<exists>ws. compute_plan_waves (plan_pairs plan) = Inr ws"
    using c by (cases "compute_plan_waves (plan_pairs plan)") (simp_all add: cycle_errors_def)
  ultimately show ?thesis using d by (simp add: duplicate_keys_Nil)
qed

lemma tier_of_label_simps [simp]:
  "tier_of_label ''tier:ollama'' = Some Ollama" "tier_of_label ''tier:cli'' = Some Cli"
  "tier_of_label ''tier:strong'' = Some Strong"
  by code_simp+

lemma tier_label_known: "l \<in> set tier_labels \<Longrightarrow> \<exists>t. tier_of_label l = Some t"
proof -
  assume "l \<in> set tier_labels"
  then consider "l = ''tier:ollama''" | "l = ''tier:cli''" | "l = ''tier:strong''"
    by (auto simp: tier_labels_def)
  then show ?thesis by cases simp_all
qed

lemma payloads_of_ok:
  "\<forall>c \<in> set cs. pc_tier c \<in> set tier_labels \<Longrightarrow>
     \<exists>pls. payloads_of repo filed cs = Inr pls \<and> map pl_key pls = map pc_key cs \<and>
       map pl_dependencies pls = map pc_dependencies cs \<and> map pl_acceptance_criteria pls = map pc_acceptance_criteria cs"
proof (induction cs)
  case Nil
  then show ?case by simp
next
  case (Cons c cs)
  then obtain t where "tier_of_label (pc_tier c) = Some t" using tier_label_known by (metis list.set_intros(1))
  with Cons show ?case by (auto simp: payload_of_def)
qed

text \<open>With keys that cannot be read as issue references, the executor keeps the dependencies the plan
  checked, so both compute the same waves.\<close>

lemma executor_plan_waves:
  assumes "compute_plan_waves pairs = Inr ws" and "\<forall>k \<in> set (map fst pairs). \<not> external_ref k"
  shows "compute_waves pairs = Inr ws"
proof -
  let ?o = "map fst pairs"
  have w: "waves_from (plan_deps pairs) ?o {} = Inr ws"
    using assms(1) by (simp add: compute_plan_waves_def split: sum.splits)
  have ok: "\<forall>k \<in> set ?o. set (plan_deps pairs k) \<subseteq> set ?o \<and> k \<notin> set (plan_deps pairs k)"
  proof
    fix k assume k: "k \<in> set ?o"
    have "\<forall>d \<in> set (plan_deps pairs k). wave_of ws d < wave_of ws k"
      using waves_from_ordered [OF w k] by blast
    moreover have "set (plan_deps pairs k) \<subseteq> set ?o"
      using assms(1) compute_plan_waves_closed k by blast
    ultimately show "set (plan_deps pairs k) \<subseteq> set ?o \<and> k \<notin> set (plan_deps pairs k)" by auto
  qed
  have eq: "set (executor_deps pairs k) = set (plan_deps pairs k)" if "k \<in> set ?o" for k
  proof (cases "map_of (rev pairs) k")
    case None
    then show ?thesis by (simp add: executor_deps_def plan_deps_def)
  next
    case (Some ds)
    then have "plan_deps pairs k = local_dependencies ds" by (simp add: plan_deps_def)
    with bspec [OF ok that] have "set (local_dependencies ds) \<subseteq> set ?o" "k \<notin> set (local_dependencies ds)"
      by simp_all
    with Some assms(2) show ?thesis
      by (auto simp: executor_deps_def plan_deps_def local_dependencies_def)
  qed
  have "waves_from (executor_deps pairs) ?o {} = waves_from (plan_deps pairs) ?o {}"
    by (rule waves_from_cong) (use eq in auto)
  with w show ?thesis by (simp add: compute_waves_def)
qed

lemma plan_no_self_dependency:
  assumes "compute_plan_waves pairs = Inr ws" and "(k, ds) \<in> set pairs" and "\<not> external_ref k"
  shows "k \<notin> set ds"
proof
  assume k: "k \<in> set ds"
  have w: "waves_from (plan_deps pairs) (map fst pairs) {} = Inr ws"
    using assms(1) by (simp add: compute_plan_waves_def split: sum.splits)
  have "distinct (map fst pairs)" using waves_from_Inr_partition [OF w] by simp
  then have "distinct (map fst (rev pairs))" by (metis distinct_rev rev_map)
  with assms(2) have "map_of (rev pairs) k = Some ds" by (simp only: map_of_is_SomeI set_rev)
  with k assms(3) have "k \<in> set (plan_deps pairs k)" by (simp add: plan_deps_def local_dependencies_def)
  moreover have "k \<in> set (map fst pairs)" using assms(2) by force
  ultimately have "wave_of ws k < wave_of ws k" using waves_from_ordered [OF w] by blast
  then show False by simp
qed

section \<open>Properties\<close>

text \<open>C10: When the profile requires approval, no sequence of planning requests writes any part of a plan to
  GitHub before an operator approves it: no epic, no child issue, no turnover comment, no link. Besides the
  runs of the planner workflow, all that is written is the audit comment and the update of the request's own
  issue when planning failed.\<close>

theorem nothing_filed_before_approval:
  assumes "pe_requires_approval env" and "\<forall>e \<in> set es. \<not> is_approval e"
  shows "pw_log (plan_run env es w) = pw_log w \<and>
    (\<exists>us. pw_updates (plan_run env es w) = pw_updates w @ us \<and> list_all failure_write us)"
proof -
  have "writes_failure w (plan_run env es w)" using assms(2)
  proof (induction es arbitrary: w)
    case Nil
    then show ?case by (simp add: writes_failure_refl)
  next
    case (Cons e es)
    then show ?case
      using writes_failure_trans [OF plan_step_writes [OF assms(1), of e w] Cons.IH [of "plan_step env e w"]] by simp
  qed
  then show ?thesis by (simp add: writes_failure_def)
qed

definition sample_plan_env :: plan_env where
  "sample_plan_env = \<lparr>pe_requires_approval = True, pe_staff_role = None,
     pe_validate = \<lambda>out. if out = ''good'' then (Some two_child_plan, []) else (None, [FormatError ''bad'']),
     pe_validate_plan = \<lambda>_. [], pe_actor = ''op'', pe_now = ''t''\<rparr>"

definition all_well :: plan_answers where
  "all_well = \<lparr>an_dispatch = True, an_search = True, an_baseline = True, an_github = \<lambda>n. Answered (int n + 100) (int n),
     an_save = True, an_save_epic = True\<rparr>"

definition planning_world :: plan_world where
  "planning_world = \<lparr>pw_request = sample_request CrPlanning, pw_session = None, pw_log = [], pw_asked = 0, pw_updates = [], pw_dispatched = 0\<rparr>"

theorem nothing_filed_before_approval_witness:
  "pw_log (plan_run sample_plan_env [PeStart all_well, PeSubmit all_well ''good'', PeEdit (Some two_child_plan)] planning_world) = []"
proof -
  have "pw_log (plan_run sample_plan_env [PeStart all_well, PeSubmit all_well ''good'', PeEdit (Some two_child_plan)] planning_world)
      = pw_log planning_world"
    by (rule nothing_filed_before_approval [THEN conjunct1]) (simp_all add: sample_plan_env_def is_approval_def)
  then show ?thesis by (simp add: planning_world_def)
qed

text \<open>A planner whose dispatches succeed gets three tries: the third invalid plan fails the session
  and the Code Request, after three dispatches.\<close>

theorem three_invalid_plans_fail:
  assumes "cr_state (pw_request w) = CrPlanning" and "pw_session w = Some s" and "ps_status s = AwaitingPlan"
    and "ps_attempts s = 1" and "an_dispatch an" and "an_save an"
    and "fst (pe_validate env o1) = None" and "fst (pe_validate env o2) = None" and "fst (pe_validate env o3) = None"
  shows "let w' = plan_run env [PeSubmit an o1, PeSubmit an o2, PeSubmit an o3] w
     in cr_state (pw_request w') = CrFailed \<and> map_option ps_status (pw_session w') = Some PsFailed \<and>
        pw_dispatched w' = pw_dispatched w + 2"
proof -
  have sub: "\<exists>s'. pw_session (plan_step env (PeSubmit an out) v) = Some s' \<and> ps_status s' = AwaitingPlan \<and>
      ps_attempts s' = Suc (ps_attempts t) \<and> pw_request (plan_step env (PeSubmit an out) v) = pw_request v \<and>
      pw_dispatched (plan_step env (PeSubmit an out) v) = Suc (pw_dispatched v)"
    if "pw_session v = Some t" "ps_status t = AwaitingPlan" "ps_attempts t \<le> 2" "fst (pe_validate env out) = None" for v t out
    using that assms(5)
    by (cases "pe_validate env out")
      (simp add: submit_plan_def receive_plan_def dispatch_planner_def max_reprompts_def Let_def)
  obtain s1 where 1: "pw_session (plan_step env (PeSubmit an o1) w) = Some s1" "ps_status s1 = AwaitingPlan"
    "ps_attempts s1 = 2" "pw_request (plan_step env (PeSubmit an o1) w) = pw_request w"
    "pw_dispatched (plan_step env (PeSubmit an o1) w) = Suc (pw_dispatched w)"
    using sub [OF assms(2,3) _ assms(7)] assms(4) by auto
  let ?w1 = "plan_step env (PeSubmit an o1) w"
  obtain s2 where 2: "pw_session (plan_step env (PeSubmit an o2) ?w1) = Some s2" "ps_status s2 = AwaitingPlan"
    "ps_attempts s2 = 3" "pw_request (plan_step env (PeSubmit an o2) ?w1) = pw_request w"
    "pw_dispatched (plan_step env (PeSubmit an o2) ?w1) = pw_dispatched w + 2"
    using sub [OF 1(1,2) _ assms(8)] 1(3-5) by auto
  let ?w2 = "plan_step env (PeSubmit an o2) ?w1"
  have third: "cr_state (pw_request (plan_step env (PeSubmit an o3) v)) = CrFailed \<and>
      map_option ps_status (pw_session (plan_step env (PeSubmit an o3) v)) = Some PsFailed \<and>
      pw_dispatched (plan_step env (PeSubmit an o3) v) = pw_dispatched v"
    if "pw_session v = Some t" "ps_status t = AwaitingPlan" "ps_attempts t = 3" "cr_state (pw_request v) = CrPlanning" for v t
    using that assms(6,9)
    by (cases "pe_validate env o3"; cases "cr_issue_number (pw_request v)")
      (simp_all add: submit_plan_def receive_plan_def move_request_def max_reprompts_def Let_def transition_def
        is_legal_transition_def)
  have "cr_state (pw_request (plan_step env (PeSubmit an o3) ?w2)) = CrFailed \<and>
      map_option ps_status (pw_session (plan_step env (PeSubmit an o3) ?w2)) = Some PsFailed \<and>
      pw_dispatched (plan_step env (PeSubmit an o3) ?w2) = pw_dispatched ?w2"
    using third [OF 2(1-3)] 2(4) assms(1) by simp
  with 2(5) show ?thesis by (simp add: Let_def del: plan_step.simps)
qed

definition awaiting_world :: plan_world where
  "awaiting_world = plan_step sample_plan_env (PeStart all_well) planning_world"

lemma awaiting_world_eq:
  "awaiting_world = planning_world\<lparr>pw_session := Some ((new_session None)\<lparr>ps_attempts := 1\<rparr>), pw_dispatched := 1\<rparr>"
  by (simp add: awaiting_world_def planning_world_def start_planning_def dispatch_planner_def all_well_def
      sample_plan_env_def new_session_def save_session_def sample_request_def Let_def)

theorem three_invalid_plans_fail_witness:
  "cr_state (pw_request (plan_run sample_plan_env
     [PeSubmit all_well ''x'', PeSubmit all_well ''y'', PeSubmit all_well ''z''] awaiting_world)) = CrFailed"
  using three_invalid_plans_fail [of awaiting_world "(new_session None)\<lparr>ps_attempts := 1\<rparr>" all_well sample_plan_env "''x''" "''y''" "''z''"]
  by (simp add: awaiting_world_eq planning_world_def new_session_def all_well_def sample_plan_env_def Let_def del: plan_run.simps)

text \<open>When the plan was filed but saving the Code Request failed, the request is stuck in planning: no
  later start, submission, comment, edit or approval moves it, and none of them returns.\<close>

theorem filed_but_unsaved_is_stuck:
  assumes "pw_session w = Some s" and "ps_status s = PsFiled"
  shows "pw_request (plan_run env es w) = pw_request w \<and>
     (\<exists>t. pw_session (plan_run env es w) = Some t \<and> ps_status t = PsFiled) \<and>
     (\<exists>e. fst (approve_plan env an (plan_run env es w)) = Inl e)"
  using assms
proof (induction es arbitrary: w s)
  case Nil
  then show ?case by (simp add: approve_plan_def)
next
  case (Cons ev es)
  have sub: "pw_request (snd (submit_plan env an out v)) = pw_request v \<and>
      (\<exists>t. pw_session (snd (submit_plan env an out v)) = Some t \<and> ps_status t = PsFiled)"
    if "pw_session v = Some u" "ps_status u = PsFiled" for v u an out
    using that by (simp add: submit_plan_def receive_plan_def Let_def)
  have "pw_request (plan_step env ev w) = pw_request w \<and>
      (\<exists>t. pw_session (plan_step env ev w) = Some t \<and> ps_status t = PsFiled)"
  proof (cases ev)
    case (PeStart an)
    with Cons.prems show ?thesis by (simp add: start_planning_def Let_def)
  next
    case (PeSubmit an out)
    with sub [OF Cons.prems] show ?thesis by simp
  next
    case (PeIngest an latest)
    with Cons.prems sub [of "save_session (s\<lparr>ps_last_comment_id := Some i\<rparr>) w" for i] show ?thesis
      by (auto simp: ingest_plan_comment_def split: option.split)
  next
    case (PeEdit plan)
    with Cons.prems show ?thesis by (simp add: edit_draft_def)
  next
    case (PeApprove an)
    with Cons.prems show ?thesis by (simp add: approve_plan_def)
  qed
  with Cons.IH show ?case by fastforce
qed

definition drafted_world :: plan_world where
  "drafted_world = planning_world\<lparr>pw_session := Some ((new_session None)\<lparr>ps_status := PsDraft, ps_draft := Some two_child_plan\<rparr>)\<rparr>"

lemma unsaved_approval:
  "let w = plan_step sample_plan_env (PeApprove (all_well\<lparr>an_save := False\<rparr>)) drafted_world
   in map_option ps_status (pw_session w) = Some PsFiled \<and> cr_state (pw_request w) = CrPlanning"
  by code_simp

theorem filed_but_unsaved_is_stuck_witness:
  "cr_state (pw_request (plan_run sample_plan_env [PeApprove all_well, PeStart all_well]
     (plan_step sample_plan_env (PeApprove (all_well\<lparr>an_save := False\<rparr>)) drafted_world))) = CrPlanning"
proof -
  let ?w = "plan_step sample_plan_env (PeApprove (all_well\<lparr>an_save := False\<rparr>)) drafted_world"
  from unsaved_approval obtain s where "pw_session ?w = Some s" "ps_status s = PsFiled" "cr_state (pw_request ?w) = CrPlanning"
    by (auto simp: Let_def)
  with filed_but_unsaved_is_stuck [OF this(1,2), of sample_plan_env "[PeApprove all_well, PeStart all_well]" all_well]
  show ?thesis by simp
qed

lemma plan_initializes:
  assumes "compute_waves (map (\<lambda>pl. (pl_key pl, pl_dependencies pl)) pls) = Inr ws"
    and "\<forall>pl \<in> set pls. pl_acceptance_criteria pl \<noteq> []"
  obtains p where "initialize pls (new_pipeline cr cfg sid) = (None, p)"
proof -
  have "fst (register_children ws qs cs) = None" if "\<forall>pl \<in> set qs. pl_acceptance_criteria pl \<noteq> []" for qs cs
    using that by (induction qs arbitrary: cs) auto
  from this [OF assms(2), of "[]"] obtain cs where "register_children ws pls [] = (None, cs)"
    by (cases "register_children ws pls []") auto
  with assms(1) have "fst (initialize pls (new_pipeline cr cfg sid)) = None"
    by (simp add: initialize_def Let_def)
  then show ?thesis using that by (metis prod.collapse)
qed

text \<open>C11: A plan that passed validation and was filed starts an executor: its children initialize a
  pipeline without error, in a state from which no run gets stuck.\<close>

theorem validated_plan_starts_executor:
  assumes "validate_plan handoff plan = []" and "ps_draft s = Some plan" and "ps_status s = PsFiled"
    and "pc_key ` set (pd_children plan) \<subseteq> fst ` set (fp_children (ps_progress s))"
    and "\<forall>c \<in> set (pd_children plan). \<not> external_ref (pc_key c) \<and> pc_acceptance_criteria c \<noteq> []"
    and "0 < max_tier_attempts cfg"
  shows "\<exists>pls p. children_from_plan (Some s) repo = Inr pls \<and>
     initialize pls (new_pipeline cr cfg sid) = (None, p) \<and> exec_reach allowed p"
proof -
  from validate_plan_ok [OF assms(1)] obtain ws where d: "distinct (map pc_key (pd_children plan))"
    and ws: "compute_plan_waves (plan_pairs plan) = Inr ws" and t: "\<forall>c \<in> set (pd_children plan). pc_tier c \<in> set tier_labels"
    by blast
  from payloads_of_ok [OF t] obtain pls where pls: "payloads_of repo (fp_children (ps_progress s)) (pd_children plan) = Inr pls"
    "map pl_key pls = map pc_key (pd_children plan)" "map pl_dependencies pls = map pc_dependencies (pd_children plan)"
    "map pl_acceptance_criteria pls = map pc_acceptance_criteria (pd_children plan)" by blast
  have "filter (\<lambda>k. k \<notin> fst ` set (fp_children (ps_progress s))) (map pc_key (pd_children plan)) = []"
    using assms(4) by (auto simp: filter_empty_conv)
  then have cfp: "children_from_plan (Some s) repo = Inr pls"
    using assms(2,3) pls(1) unfolding children_from_plan_def Let_def by simp
  have pairs: "map (\<lambda>pl. (pl_key pl, pl_dependencies pl)) pls = plan_pairs plan"
    using pls(2,3) by (simp add: plan_pairs_def list_eq_iff_nth_eq)
  have "\<forall>k \<in> set (map fst (plan_pairs plan)). \<not> external_ref k" using assms(5) by (simp add: plan_pairs_def)
  from executor_plan_waves [OF ws this] have w: "compute_waves (map (\<lambda>pl. (pl_key pl, pl_dependencies pl)) pls) = Inr ws"
    by (simp add: pairs)
  have crit: "\<forall>pl \<in> set pls. pl_acceptance_criteria pl \<noteq> []"
  proof
    fix pl assume "pl \<in> set pls"
    then have "pl_acceptance_criteria pl \<in> set (map pl_acceptance_criteria pls)" by simp
    then show "pl_acceptance_criteria pl \<noteq> []" using assms(5) unfolding pls(4) by auto
  qed
  from plan_initializes [OF w crit] obtain p where p: "initialize pls (new_pipeline cr cfg sid) = (None, p)" .
  have "\<forall>pl \<in> set pls. pl_key pl \<notin> set (pl_dependencies pl)"
  proof
    fix pl assume pl: "pl \<in> set pls"
    have "pl_key pl \<in> set (map pl_key pls)" using pl by simp
    then have "\<not> external_ref (pl_key pl)" unfolding pls(2) using assms(5) by auto
    moreover have "(pl_key pl, pl_dependencies pl) \<in> set (plan_pairs plan)"
      unfolding pairs [symmetric] using pl by simp
    ultimately show "pl_key pl \<notin> set (pl_dependencies pl)" using plan_no_self_dependency [OF ws] by blast
  qed
  with p assms(6) have "exec_reach allowed p" by (intro reach_init)
  with cfp p show ?thesis by blast
qed

theorem validated_plan_starts_executor_witness:
  "\<exists>pls p. children_from_plan (Some ((new_session None)\<lparr>ps_status := PsFiled, ps_draft := Some two_child_plan,
       ps_progress := no_progress\<lparr>fp_children := [(''a'', 7, 70), (''b'', 8, 80)]\<rparr>\<rparr>)) ''r'' = Inr pls \<and>
     initialize pls (new_pipeline ''cr'' sample_config ''s'') = (None, p) \<and> exec_reach orderly p"
proof (rule validated_plan_starts_executor)
  show "validate_plan (\<lambda>_. []) two_child_plan = []" by code_simp
  show "\<forall>c \<in> set (pd_children two_child_plan). \<not> external_ref (pc_key c) \<and> pc_acceptance_criteria c \<noteq> []" by code_simp
qed (simp_all add: two_child_plan_def)

end
