(* ===== verification/Rate_Limit.thy ===== *)
theory Rate_Limit
  imports Prelude
begin

text \<open>
  Token-bucket rate limits of \<open>backend/staff/rate_limit.py\<close>: the bucket, the per-principal limiter with
  its fail-open rule, the bounded limiter of the external ingress, and the HTTP check. The contract both
  limiters keep, that a key gets at most its capacity plus what its rate refills, is a locale over the
  tokens a key could still spend. Tokens and seconds are exact rationals. The environment's limits are
  the fields of the limiter.
\<close>

section \<open>The contract\<close>

text \<open>The grants of \<open>k\<close> in a run of acquisitions, each with the reading of the clock.\<close>

fun grants :: "(rat \<Rightarrow> 'k \<Rightarrow> 's \<Rightarrow> bool \<times> 's) \<Rightarrow> 'k \<Rightarrow> (rat \<times> 'k) list \<Rightarrow> 's \<Rightarrow> nat" where
  "grants acq k [] s = 0"
| "grants acq k ((t, j) # rs) s =
     (if j = k \<and> fst (acq t j s) then 1 else 0) + grants acq k rs (snd (acq t j s))"

fun ordered :: "rat \<Rightarrow> (rat \<times> 'k) list \<Rightarrow> bool" where
  "ordered t0 [] = True"
| "ordered t0 ((t, j) # rs) = (t0 \<le> t \<and> ordered t rs)"

fun last_time :: "rat \<Rightarrow> (rat \<times> 'k) list \<Rightarrow> rat" where
  "last_time t0 [] = t0"
| "last_time t0 ((t, j) # rs) = last_time t rs"

locale token_budget =
  fixes inv :: "rat \<Rightarrow> 's \<Rightarrow> bool"
    and avail :: "'s \<Rightarrow> 'k \<Rightarrow> rat \<Rightarrow> rat"
    and capacity_of :: "'k \<Rightarrow> rat"
    and rate_of :: "'k \<Rightarrow> rat"
    and acquire :: "rat \<Rightarrow> 'k \<Rightarrow> 's \<Rightarrow> bool \<times> 's"
  assumes avail_cap: "inv t s \<Longrightarrow> avail s k t \<le> capacity_of k"
    and avail_nonneg: "inv t s \<Longrightarrow> 0 \<le> avail s k t"
    and avail_later: "inv t s \<Longrightarrow> t \<le> t' \<Longrightarrow> avail s k t' \<le> avail s k t + rate_of k * (t' - t)"
    and inv_later: "inv t s \<Longrightarrow> t \<le> t' \<Longrightarrow> inv t' s"
    and acq_inv: "inv t s \<Longrightarrow> inv t (snd (acquire t j s))"
    and acq_spend: "inv t s \<Longrightarrow> avail (snd (acquire t k s)) k t + (if fst (acquire t k s) then 1 else 0) \<le> avail s k t"
    and acq_other: "inv t s \<Longrightarrow> j \<noteq> k \<Longrightarrow> avail (snd (acquire t j s)) k t \<le> avail s k t"
begin

lemma grants_avail:
  "inv t0 s \<Longrightarrow> ordered t0 rs \<Longrightarrow> rat_of_nat (grants acquire k rs s) \<le> avail s k t0 + rate_of k * (last_time t0 rs - t0)"
proof (induction rs arbitrary: s t0)
  case Nil
  then show ?case by (simp add: avail_nonneg)
next
  case (Cons r rs)
  obtain t j where r: "r = (t, j)" by (cases r)
  let ?s = "snd (acquire t j s)" and ?g = "if j = k \<and> fst (acquire t j s) then 1 else 0 :: rat"
  have t: "t0 \<le> t" and o: "ordered t rs" using Cons.prems by (simp_all add: r)
  have inv: "inv t s" using inv_later Cons.prems t by blast
  have "avail ?s k t + ?g \<le> avail s k t"
    using acq_spend [OF inv, of k] acq_other [OF inv, of j k] by (cases "j = k") auto
  also have "\<dots> \<le> avail s k t0 + rate_of k * (t - t0)" using avail_later Cons.prems t by blast
  finally have step: "avail ?s k t + ?g \<le> avail s k t0 + rate_of k * (t - t0)" .
  have "rat_of_nat (grants acquire k rs ?s) \<le> avail ?s k t + rate_of k * (last_time t rs - t)"
    using Cons.IH [OF acq_inv [OF inv] o] .
  with step have "rat_of_nat (grants acquire k rs ?s) + ?g \<le>
      avail s k t0 + (rate_of k * (t - t0) + rate_of k * (last_time t rs - t))" by linarith
  also have "rate_of k * (t - t0) + rate_of k * (last_time t rs - t) = rate_of k * (last_time t rs - t0)"
    by (simp add: algebra_simps)
  finally have "rat_of_nat (grants acquire k rs ?s) + ?g \<le> avail s k t0 + rate_of k * (last_time t rs - t0)" .
  then show ?case by (cases "j = k") (auto simp: r add.commute)
qed

lemma grants_bounded:
  "inv t0 s \<Longrightarrow> ordered t0 rs \<Longrightarrow> rat_of_nat (grants acquire k rs s) \<le> capacity_of k + rate_of k * (last_time t0 rs - t0)"
  using grants_avail avail_cap by (meson add_right_mono order_trans)

end

section \<open>Buckets\<close>

record bucket_state =
  bk_tokens :: rat
  bk_last_updated :: rat
  bk_capacity :: rat
  bk_rate_per_sec :: rat

definition consume :: "rat \<Rightarrow> bucket_state \<Rightarrow> (bool \<times> rat) \<times> bucket_state" where
  "consume now b =
     (let elapsed = max 0 (now - bk_last_updated b);
          tokens = min (bk_capacity b) (bk_tokens b + elapsed * bk_rate_per_sec b);
          b1 = b\<lparr>bk_tokens := tokens, bk_last_updated := now\<rparr>
      in if 1 \<le> tokens then ((True, 0), b1\<lparr>bk_tokens := tokens - 1\<rparr>)
         else ((False, if 0 < bk_rate_per_sec b then (1 - tokens) / bk_rate_per_sec b else 60), b1))"

text \<open>What a bucket could spend at an instant.\<close>

definition bucket_avail :: "bucket_state \<Rightarrow> rat \<Rightarrow> rat" where
  "bucket_avail b t = min (bk_capacity b) (bk_tokens b + max 0 (t - bk_last_updated b) * bk_rate_per_sec b)"

definition bucket_ok :: "rat \<Rightarrow> rat \<Rightarrow> rat \<Rightarrow> bucket_state \<Rightarrow> bool" where
  "bucket_ok t cap rate b = (bk_capacity b = cap \<and> bk_rate_per_sec b = rate \<and> 0 \<le> bk_tokens b \<and>
     bk_last_updated b \<le> t \<and> 0 \<le> cap \<and> 0 \<le> rate)"

lemma consume_avail:
  assumes "bucket_ok t cap rate b"
  shows "bucket_avail (snd (consume t b)) t + (if fst (fst (consume t b)) then 1 else 0) \<le> bucket_avail b t"
  using assms by (auto simp: consume_def bucket_avail_def bucket_ok_def Let_def)

lemma consume_ok: "bucket_ok t cap rate b \<Longrightarrow> bucket_ok t cap rate (snd (consume t b))"
  by (auto simp: consume_def bucket_ok_def Let_def)

lemma bucket_avail_later:
  assumes "bucket_ok t cap rate b" and "t \<le> t'"
  shows "bucket_avail b t' \<le> bucket_avail b t + rate * (t' - t)"
proof -
  define x where "x = rate * (t' - t)"
  have x: "0 \<le> x" using assms by (simp add: x_def bucket_ok_def)
  have "(t' - bk_last_updated b) * rate = (t - bk_last_updated b) * rate + x"
    by (simp add: x_def algebra_simps)
  moreover have "max 0 (t' - bk_last_updated b) = t' - bk_last_updated b"
    "max 0 (t - bk_last_updated b) = t - bk_last_updated b" "bk_rate_per_sec b = rate"
    using assms by (auto simp: bucket_ok_def)
  ultimately show ?thesis using x unfolding bucket_avail_def x_def [symmetric] by simp
qed

lemma bucket_avail_range: "bucket_ok t cap rate b \<Longrightarrow> 0 \<le> bucket_avail b t \<and> bucket_avail b t \<le> cap"
  by (auto simp: bucket_avail_def bucket_ok_def)

lemma bucket_ok_later: "bucket_ok t cap rate b \<Longrightarrow> t \<le> t' \<Longrightarrow> bucket_ok t' cap rate b"
  by (auto simp: bucket_ok_def)

section \<open>The per-principal limiter\<close>

text \<open>Buckets are keyed by principal and action.\<close>

record limiter =
  lm_buckets :: "((string \<times> string) \<times> bucket_state) list"
  lm_default_capacity :: "(string \<times> rat) list"
  lm_default_rate :: "(string \<times> rat) list"
  lm_custom_limits :: "string set"

definition new_limiter :: "rat \<Rightarrow> rat \<Rightarrow> (string \<times> rat) list \<Rightarrow> (string \<times> rat) list \<Rightarrow> limiter" where
  "new_limiter msg_per_min disp_per_hr capacity rate =
     \<lparr>lm_buckets = [],
      lm_default_capacity = dict_merge [(''messages'', msg_per_min), (''dispatches'', disp_per_hr)] capacity,
      lm_default_rate = dict_merge [(''messages'', msg_per_min / 60), (''dispatches'', disp_per_hr / 3600)] rate,
      lm_custom_limits = set (map fst capacity) \<union> set (map fst rate)\<rparr>"

definition set_limits :: "string \<Rightarrow> rat \<Rightarrow> rat \<Rightarrow> limiter \<Rightarrow> limiter" where
  "set_limits action capacity rate l =
     l\<lparr>lm_default_capacity := AList.update action capacity (lm_default_capacity l),
       lm_default_rate := AList.update action rate (lm_default_rate l),
       lm_custom_limits := insert action (lm_custom_limits l),
       lm_buckets := filter (\<lambda>((p, a), b). a \<noteq> action) (lm_buckets l)\<rparr>"

definition privileged_ids :: "string list" where
  "privileged_ids = [''operator'', ''loopback'', ''__loopback__'', ''admin'', ''test-orchestrator'', ''test-peer'']"

definition fail_open_ids :: "string list" where
  "fail_open_ids = [''operator'', ''loopback'', ''__loopback__'', ''admin'', ''test-orchestrator'']"

definition bucket_limits :: "limiter \<Rightarrow> string \<Rightarrow> string \<Rightarrow> string \<Rightarrow> rat \<times> rat" where
  "bucket_limits l principal_id action principal_type =
     (if (py_lower principal_type = ''human'' \<or> principal_id \<in> set privileged_ids) \<and> action \<notin> lm_custom_limits l
      then (if action = ''messages'' then 300 else 1000, 10)
      else (case map_of (lm_default_capacity l) action of Some c \<Rightarrow> c | None \<Rightarrow> 30,
            case map_of (lm_default_rate l) action of Some r \<Rightarrow> r | None \<Rightarrow> 1 / 2))"

definition limiter_acquire ::
    "bool \<Rightarrow> rat \<Rightarrow> string \<Rightarrow> string \<Rightarrow> string \<Rightarrow> limiter \<Rightarrow> (bool \<times> rat) \<times> limiter" where
  "limiter_acquire store_fails now principal_id action principal_type l =
     (if store_fails
      then (if py_lower principal_type = ''human'' \<or> principal_id \<in> set fail_open_ids then ((True, 0), l)
            else ((False, 60), l))
      else
        let key = (principal_id, action);
            b = (case map_of (lm_buckets l) key of
                   Some b \<Rightarrow> b
                 | None \<Rightarrow> let (cap, rate) = bucket_limits l principal_id action principal_type
                           in \<lparr>bk_tokens = cap, bk_last_updated = now, bk_capacity = cap, bk_rate_per_sec = rate\<rparr>);
            (res, b1) = consume now b
        in (res, l\<lparr>lm_buckets := AList.update key b1 (lm_buckets l)\<rparr>))"

text \<open>\<open>check_rate_limit\<close>: \<open>Some\<close> is the 429 answer with its \<open>Retry-After\<close>.\<close>

definition check_rate_limit ::
    "bool \<Rightarrow> rat \<Rightarrow> string \<Rightarrow> string \<Rightarrow> string \<Rightarrow> limiter \<Rightarrow> int option \<times> limiter" where
  "check_rate_limit store_fails now action principal_id principal_type l =
     (let ((allowed, retry), l1) = limiter_acquire store_fails now principal_id action principal_type l
      in (if allowed then None else Some (max 1 \<lceil>retry\<rceil>), l1))"

section \<open>The external ingress limiter\<close>

type_synonym browser_key = "string \<times> string \<times> string"

record browser_limiter =
  br_max_buckets :: nat
  br_buckets :: "(browser_key \<times> bucket_state) list"

definition new_browser_limiter :: "int \<Rightarrow> browser_limiter option" where
  "new_browser_limiter max_buckets =
     (if \<not> (1 \<le> max_buckets \<and> max_buckets \<le> 4096) then None
      else Some \<lparr>br_max_buckets = nat max_buckets, br_buckets = []\<rparr>)"

definition browser_limits :: "string \<Rightarrow> (rat \<times> rat) option" where
  "browser_limits action =
     (if action = ''messages'' then Some (30, 30 / 60)
      else if action = ''dispatches'' then Some (10, 10 / 3600) else None)"

definition browser_owner :: "string \<Rightarrow> bool" where
  "browser_owner s = (s \<noteq> [] \<and> length s \<le> 20 \<and> list_all is_digit s \<and> hd s \<noteq> CHR ''0'')"

definition thread_char :: "char \<Rightarrow> bool" where
  "thread_char c = (let n = (of_char c :: nat) in
     (65 \<le> n \<and> n \<le> 90) \<or> (97 \<le> n \<and> n \<le> 122) \<or> (48 \<le> n \<and> n \<le> 57) \<or> n = 95 \<or> n = 45)"

definition browser_thread :: "string \<Rightarrow> bool" where
  "browser_thread s = (s \<noteq> [] \<and> length s \<le> 128 \<and> list_all thread_char s)"

definition discard_replenished :: "rat \<Rightarrow> browser_limiter \<Rightarrow> browser_limiter" where
  "discard_replenished now l = l\<lparr>br_buckets := filter (\<lambda>(k, b).
     \<not> bk_capacity b \<le> bk_tokens b + max 0 (now - bk_last_updated b) * bk_rate_per_sec b) (br_buckets l)\<rparr>"

text \<open>\<open>now\<close> is \<open>None\<close> when the clock reads no finite number or raises.\<close>

definition browser_acquire :: "rat option \<Rightarrow> browser_key \<Rightarrow> browser_limiter \<Rightarrow> (bool \<times> rat) \<times> browser_limiter" where
  "browser_acquire reading key l =
     (case key of (owner, thread, action) \<Rightarrow>
        if \<not> browser_owner owner \<or> \<not> browser_thread thread \<or> browser_limits action = None then ((False, 60), l)
        else case reading of
          None \<Rightarrow> ((False, 60), l)
        | Some now \<Rightarrow>
            if now < 0 then ((False, 60), l)
            else case map_of (br_buckets l) key of
              Some b \<Rightarrow>
                let (res, b1) = consume (max now (bk_last_updated b)) b
                in (res, l\<lparr>br_buckets := AList.update key b1 (br_buckets l)\<rparr>)
            | None \<Rightarrow>
                let l1 = (if br_max_buckets l \<le> length (br_buckets l) then discard_replenished now l else l)
                in if br_max_buckets l1 \<le> length (br_buckets l1) then ((False, 60), l1)
                   else
                     let (cap, rate) = the (browser_limits action);
                         b = \<lparr>bk_tokens = cap, bk_last_updated = now, bk_capacity = cap, bk_rate_per_sec = rate\<rparr>;
                         (res, b1) = consume now b
                     in (res, l1\<lparr>br_buckets := AList.update key b1 (br_buckets l1)\<rparr>))"

section \<open>The ingress limiter keeps the contract\<close>

definition browser_cap :: "browser_key \<Rightarrow> rat" where
  "browser_cap k = (case browser_limits (snd (snd k)) of Some (c, r) \<Rightarrow> c | None \<Rightarrow> 0)"

definition browser_rate :: "browser_key \<Rightarrow> rat" where
  "browser_rate k = (case browser_limits (snd (snd k)) of Some (c, r) \<Rightarrow> r | None \<Rightarrow> 0)"

definition browser_inv :: "rat \<Rightarrow> browser_limiter \<Rightarrow> bool" where
  "browser_inv t l = (distinct (map fst (br_buckets l)) \<and>
     (\<forall>k b. map_of (br_buckets l) k = Some b \<longrightarrow> bucket_ok t (browser_cap k) (browser_rate k) b))"

definition browser_avail :: "browser_limiter \<Rightarrow> browser_key \<Rightarrow> rat \<Rightarrow> rat" where
  "browser_avail l k t = (case map_of (br_buckets l) k of Some b \<Rightarrow> bucket_avail b t | None \<Rightarrow> browser_cap k)"

definition browser_gate :: "rat \<Rightarrow> browser_key \<Rightarrow> browser_limiter \<Rightarrow> bool \<times> browser_limiter" where
  "browser_gate t k l = (case browser_acquire (Some t) k l of ((g, w), l1) \<Rightarrow> (g, l1))"

lemma browser_cap_nonneg [simp]: "0 \<le> browser_cap k" "0 \<le> browser_rate k"
  by (auto simp: browser_cap_def browser_rate_def browser_limits_def)

lemma browser_inv_bucket: "browser_inv t l \<Longrightarrow> map_of (br_buckets l) k = Some b \<Longrightarrow>
    bucket_ok t (browser_cap k) (browser_rate k) b"
  unfolding browser_inv_def by blast

lemma map_of_filter_distinct:
  "distinct (map fst xs) \<Longrightarrow> map_of (filter P xs) k =
     (case map_of xs k of None \<Rightarrow> None | Some v \<Rightarrow> if P (k, v) then Some v else None)"
proof (induction xs)
  case Nil
  then show ?case by simp
next
  case (Cons x xs)
  have "map_of (filter P xs) (fst x) = None"
    using Cons.prems by (auto simp: map_of_eq_None_iff)
  with Cons show ?case by (cases x) (auto split: option.splits)
qed

lemma discard_inv: "browser_inv t l \<Longrightarrow> browser_inv t (discard_replenished t l)"
  by (auto simp: browser_inv_def discard_replenished_def distinct_map_filter map_of_filter_distinct
      split: option.splits if_splits)

lemma discard_avail: "browser_inv t l \<Longrightarrow> browser_avail (discard_replenished t l) k t = browser_avail l k t"
proof -
  assume i: "browser_inv t l"
  then have d: "distinct (map fst (br_buckets l))" by (simp add: browser_inv_def)
  show ?thesis
  proof (cases "map_of (br_buckets l) k")
    case None
    then show ?thesis by (simp add: browser_avail_def discard_replenished_def map_of_filter_distinct [OF d])
  next
    case (Some b)
    with browser_inv_bucket [OF i Some] show ?thesis
      by (auto simp: browser_avail_def discard_replenished_def map_of_filter_distinct [OF d] bucket_avail_def
          bucket_ok_def)
  qed
qed

lemma update_browser_inv:
  "browser_inv t l \<Longrightarrow> bucket_ok t (browser_cap k) (browser_rate k) b \<Longrightarrow>
     browser_inv t (l\<lparr>br_buckets := AList.update k b (br_buckets l)\<rparr>)"
  by (auto simp: browser_inv_def distinct_update update_conv')

lemma update_browser_avail:
  "browser_avail (l\<lparr>br_buckets := AList.update k b (br_buckets l)\<rparr>) j t =
     (if j = k then bucket_avail b t else browser_avail l j t)"
  by (simp add: browser_avail_def update_conv')

text \<open>One acquisition: a denied request, or the consumption of the key's bucket, present or fresh, in a
  limiter that offers the same.\<close>

lemma browser_gate_cases:
  assumes "browser_inv t l" and "browser_gate t k l = (g, l')"
  obtains (denied) l1 where "\<not> g" "l' = l1" "browser_inv t l1" "\<And>j. browser_avail l1 j t = browser_avail l j t"
  | (spent) l1 b where "g = fst (fst (consume t b))" "browser_inv t l1"
      "\<And>j. browser_avail l1 j t = browser_avail l j t" "bucket_ok t (browser_cap k) (browser_rate k) b"
      "bucket_avail b t = browser_avail l k t"
      "l' = l1\<lparr>br_buckets := AList.update k (snd (consume t b)) (br_buckets l1)\<rparr>"
proof -
  obtain owner thread action where k: "k = (owner, thread, action)" by (metis prod_cases3)
  show ?thesis
  proof (cases "\<not> browser_owner owner \<or> \<not> browser_thread thread \<or> browser_limits action = None \<or> t < 0")
    case True
    then have "browser_gate t k l = (False, l)"
      by (cases "t < 0") (auto simp: k browser_gate_def browser_acquire_def)
    with assms show ?thesis by (intro denied [of l]) simp_all
  next
    case False
    then obtain cap rate where lim: "browser_limits action = Some (cap, rate)" by auto
    then have cr: "browser_cap k = cap" "browser_rate k = rate" by (simp_all add: browser_cap_def browser_rate_def k)
    show ?thesis
    proof (cases "map_of (br_buckets l) k")
      case (Some b)
      have ok: "bucket_ok t (browser_cap k) (browser_rate k) b" using browser_inv_bucket [OF assms(1) Some] .
      then have "max t (bk_last_updated b) = t" by (simp add: bucket_ok_def max_def)
      with False Some assms(2) k have "g = fst (fst (consume t b))"
        "l' = l\<lparr>br_buckets := AList.update k (snd (consume t b)) (br_buckets l)\<rparr>"
        by (auto simp: browser_gate_def browser_acquire_def Let_def split: prod.splits)
      with ok Some assms(1) show ?thesis by (intro spent [of b l]) (simp_all add: browser_avail_def)
    next
      case None
      define l1 where "l1 = (if br_max_buckets l \<le> length (br_buckets l) then discard_replenished t l else l)"
      have l1: "browser_inv t l1" "\<And>j. browser_avail l1 j t = browser_avail l j t"
        using assms(1) by (simp_all add: l1_def discard_inv discard_avail)
      let ?b = "\<lparr>bk_tokens = cap, bk_last_updated = t, bk_capacity = cap, bk_rate_per_sec = rate\<rparr>"
      have ok: "bucket_ok t (browser_cap k) (browser_rate k) ?b"
        using browser_cap_nonneg [of k] by (simp add: bucket_ok_def cr)
      have av: "bucket_avail ?b t = browser_avail l k t" using None by (simp add: bucket_avail_def browser_avail_def cr)
      show ?thesis
      proof (cases "br_max_buckets l1 \<le> length (br_buckets l1)")
        case True
        with False None assms(2) k l1 lim show ?thesis
          by (intro denied [of l1]) (auto simp: browser_gate_def browser_acquire_def Let_def l1_def [symmetric])
      next
        case room: False
        with False None assms(2) k lim have "g = fst (fst (consume t ?b))"
          "l' = l1\<lparr>br_buckets := AList.update k (snd (consume t ?b)) (br_buckets l1)\<rparr>"
          by (auto simp: browser_gate_def browser_acquire_def Let_def l1_def [symmetric] split: prod.splits)
        with l1 ok av show ?thesis by (intro spent [of ?b l1]) simp_all
      qed
    qed
  qed
qed

lemma browser_gate_spec:
  assumes "browser_inv t l"
  shows "browser_inv t (snd (browser_gate t k l))"
    and "browser_avail (snd (browser_gate t k l)) k t + (if fst (browser_gate t k l) then 1 else 0) \<le> browser_avail l k t"
    and "j \<noteq> k \<Longrightarrow> browser_avail (snd (browser_gate t k l)) j t = browser_avail l j t"
proof -
  obtain g l' where r: "browser_gate t k l = (g, l')" by (metis prod.exhaust)
  have "browser_inv t l' \<and> browser_avail l' k t + (if g then 1 else 0) \<le> browser_avail l k t \<and>
      (j \<noteq> k \<longrightarrow> browser_avail l' j t = browser_avail l j t)"
    using assms r
  proof (cases rule: browser_gate_cases)
    case (denied l1)
    then show ?thesis by simp
  next
    case (spent l1 b)
    from consume_avail [OF spent(4)] show ?thesis
      using spent update_browser_inv [OF spent(2) consume_ok [OF spent(4)]] by (simp add: update_browser_avail)
  qed
  with r show "browser_inv t (snd (browser_gate t k l))"
    and "browser_avail (snd (browser_gate t k l)) k t + (if fst (browser_gate t k l) then 1 else 0) \<le> browser_avail l k t"
    and "j \<noteq> k \<Longrightarrow> browser_avail (snd (browser_gate t k l)) j t = browser_avail l j t" by auto
qed

interpretation ingress: token_budget browser_inv browser_avail browser_cap browser_rate browser_gate
proof
  fix t t' :: rat and s k j
  assume i: "browser_inv t s"
  show "browser_avail s k t \<le> browser_cap k" "0 \<le> browser_avail s k t"
    using bucket_avail_range [OF browser_inv_bucket [OF i]]
    by (auto simp: browser_avail_def split: option.split)
  show "browser_inv t (snd (browser_gate t j s))" using browser_gate_spec [OF i] by blast
  show "browser_avail (snd (browser_gate t k s)) k t + (if fst (browser_gate t k s) then 1 else 0) \<le> browser_avail s k t"
    using browser_gate_spec [OF i] by blast
  show "j \<noteq> k \<Longrightarrow> browser_avail (snd (browser_gate t j s)) k t \<le> browser_avail s k t"
    using browser_gate_spec(3) [OF i, of k j] by simp
  assume tt: "t \<le> t'"
  show "browser_inv t' s" using i bucket_ok_later [OF _ tt] unfolding browser_inv_def by blast
  show "browser_avail s k t' \<le> browser_avail s k t + browser_rate k * (t' - t)"
    using bucket_avail_later [OF browser_inv_bucket [OF i] tt] tt
    by (auto simp: browser_avail_def split: option.split)
qed

text \<open>C13: A caller of the external ingress (a numeric owner id on one thread and action) gets, in any
  interleaving of requests from all callers, at most its capacity (30 messages, 10 dispatches) plus what
  its rate refilled over the elapsed time. Discarding buckets to make room never gives anyone more.\<close>

theorem ingress_budget:
  assumes "browser_inv t0 l" and "ordered t0 rs"
  shows "rat_of_nat (grants browser_gate k rs l) \<le> browser_cap k + browser_rate k * (last_time t0 rs - t0)"
  using assms by (rule ingress.grants_bounded)

definition owner_key :: "string \<Rightarrow> browser_key" where
  "owner_key action = (''42'', ''_new'', action)"

theorem ingress_budget_witness:
  "rat_of_nat (grants browser_gate (owner_key ''dispatches'') (replicate 12 (5, owner_key ''dispatches''))
     \<lparr>br_max_buckets = 1, br_buckets = []\<rparr>) \<le> 10"
proof -
  have "ordered 5 (replicate n (5, owner_key ''dispatches''))" for n by (induction n) auto
  moreover have "last_time 5 (replicate n (5, owner_key ''dispatches'')) = 5" for n by (induction n) auto
  moreover have "browser_inv 5 \<lparr>br_max_buckets = 1, br_buckets = []\<rparr>" by (simp add: browser_inv_def)
  ultimately show ?thesis
    using ingress_budget [of 5 "\<lparr>br_max_buckets = 1, br_buckets = []\<rparr>"
        "replicate 12 (5, owner_key ''dispatches'')" "owner_key ''dispatches''"]
    by (simp add: browser_cap_def browser_limits_def owner_key_def)
qed

section \<open>The per-principal limiter keeps the contract\<close>

text \<open>A configuration \<open>l0\<close> with non-negative limits, and the type of each principal.\<close>

definition limits_ok :: "limiter \<Rightarrow> bool" where
  "limits_ok l0 = ((\<forall>(a, c) \<in> set (lm_default_capacity l0). 0 \<le> c) \<and>
     (\<forall>(a, r) \<in> set (lm_default_rate l0). 0 \<le> r))"

definition limit_cap :: "limiter \<Rightarrow> (string \<Rightarrow> string) \<Rightarrow> string \<times> string \<Rightarrow> rat" where
  "limit_cap l0 type_of k = fst (bucket_limits l0 (fst k) (snd k) (type_of (fst k)))"

definition limit_rate :: "limiter \<Rightarrow> (string \<Rightarrow> string) \<Rightarrow> string \<times> string \<Rightarrow> rat" where
  "limit_rate l0 type_of k = snd (bucket_limits l0 (fst k) (snd k) (type_of (fst k)))"

definition limiter_inv :: "limiter \<Rightarrow> (string \<Rightarrow> string) \<Rightarrow> rat \<Rightarrow> limiter \<Rightarrow> bool" where
  "limiter_inv l0 type_of t l = (limits_ok l0 \<and> lm_default_capacity l = lm_default_capacity l0 \<and>
     lm_default_rate l = lm_default_rate l0 \<and> lm_custom_limits l = lm_custom_limits l0 \<and>
     (\<forall>k b. map_of (lm_buckets l) k = Some b \<longrightarrow>
        bucket_ok t (limit_cap l0 type_of k) (limit_rate l0 type_of k) b))"

definition limiter_avail :: "limiter \<Rightarrow> (string \<Rightarrow> string) \<Rightarrow> limiter \<Rightarrow> string \<times> string \<Rightarrow> rat \<Rightarrow> rat" where
  "limiter_avail l0 type_of l k t =
     (case map_of (lm_buckets l) k of Some b \<Rightarrow> bucket_avail b t | None \<Rightarrow> limit_cap l0 type_of k)"

definition limiter_gate :: "(string \<Rightarrow> string) \<Rightarrow> rat \<Rightarrow> string \<times> string \<Rightarrow> limiter \<Rightarrow> bool \<times> limiter" where
  "limiter_gate type_of t k l =
     (case limiter_acquire False t (fst k) (snd k) (type_of (fst k)) l of ((g, w), l1) \<Rightarrow> (g, l1))"

lemma limit_nonneg:
  assumes "limits_ok l0"
  shows "0 \<le> limit_cap l0 type_of k" and "0 \<le> limit_rate l0 type_of k"
  using assms by (auto simp: limits_ok_def limit_cap_def limit_rate_def bucket_limits_def
      dest!: map_of_SomeD split: option.splits)

lemma limiter_gate_consumes:
  assumes "limiter_inv l0 type_of t l"
  obtains b where "bucket_ok t (limit_cap l0 type_of k) (limit_rate l0 type_of k) b"
    "bucket_avail b t = limiter_avail l0 type_of l k t"
    "limiter_gate type_of t k l = (fst (fst (consume t b)), l\<lparr>lm_buckets := AList.update k (snd (consume t b)) (lm_buckets l)\<rparr>)"
proof (cases "map_of (lm_buckets l) k")
  case (Some b)
  show ?thesis
  proof (rule that [of b])
    show "bucket_ok t (limit_cap l0 type_of k) (limit_rate l0 type_of k) b"
      using assms Some unfolding limiter_inv_def by blast
  qed (use Some in \<open>simp_all add: limiter_avail_def limiter_gate_def limiter_acquire_def split_beta Let_def\<close>)
next
  case None
  have lim: "bucket_limits l = bucket_limits l0"
    using assms by (auto simp: fun_eq_iff bucket_limits_def limiter_inv_def)
  let ?c = "limit_cap l0 type_of k" and ?r = "limit_rate l0 type_of k"
  let ?b = "\<lparr>bk_tokens = ?c, bk_last_updated = t, bk_capacity = ?c, bk_rate_per_sec = ?r\<rparr>"
  show ?thesis
  proof (rule that [of ?b])
    show "bucket_ok t ?c ?r ?b" using limit_nonneg assms by (simp add: bucket_ok_def limiter_inv_def)
    show "bucket_avail ?b t = limiter_avail l0 type_of l k t"
      using None by (simp add: limiter_avail_def bucket_avail_def)
    show "limiter_gate type_of t k l = (fst (fst (consume t ?b)), l\<lparr>lm_buckets := AList.update k (snd (consume t ?b)) (lm_buckets l)\<rparr>)"
      using None by (simp add: limiter_gate_def limiter_acquire_def split_beta Let_def lim limit_cap_def limit_rate_def)
  qed
qed

lemma update_limiter_avail:
  "limiter_avail l0 type_of (l\<lparr>lm_buckets := AList.update k b (lm_buckets l)\<rparr>) j t =
     (if j = k then bucket_avail b t else limiter_avail l0 type_of l j t)"
  by (simp add: limiter_avail_def update_conv')

lemma limiter_gate_spec:
  assumes "limiter_inv l0 type_of t l"
  shows "limiter_inv l0 type_of t (snd (limiter_gate type_of t k l)) \<and>
    limiter_avail l0 type_of (snd (limiter_gate type_of t k l)) k t + (if fst (limiter_gate type_of t k l) then 1 else 0)
      \<le> limiter_avail l0 type_of l k t \<and>
    (j \<noteq> k \<longrightarrow> limiter_avail l0 type_of (snd (limiter_gate type_of t k l)) j t = limiter_avail l0 type_of l j t)"
proof -
  obtain b where ok: "bucket_ok t (limit_cap l0 type_of k) (limit_rate l0 type_of k) b"
    and av: "bucket_avail b t = limiter_avail l0 type_of l k t"
    and g: "limiter_gate type_of t k l = (fst (fst (consume t b)), l\<lparr>lm_buckets := AList.update k (snd (consume t b)) (lm_buckets l)\<rparr>)"
    using limiter_gate_consumes [OF assms] by blast
  from consume_avail [OF ok] consume_ok [OF ok] assms show ?thesis
    by (auto simp: g av [symmetric] limiter_inv_def update_limiter_avail update_conv')
qed

interpretation principals: token_budget "limiter_inv l0 type_of" "limiter_avail l0 type_of" "limit_cap l0 type_of"
    "limit_rate l0 type_of" "limiter_gate type_of" for l0 type_of
proof
  fix t t' :: rat and s k j
  assume i: "limiter_inv l0 type_of t s"
  have ok: "bucket_ok t (limit_cap l0 type_of x) (limit_rate l0 type_of x) b" if "map_of (lm_buckets s) x = Some b" for x b
    using i that unfolding limiter_inv_def by blast
  have nn: "0 \<le> limit_cap l0 type_of x" "0 \<le> limit_rate l0 type_of x" for x
    using i limit_nonneg by (auto simp: limiter_inv_def)
  show "limiter_avail l0 type_of s k t \<le> limit_cap l0 type_of k" "0 \<le> limiter_avail l0 type_of s k t"
    using bucket_avail_range [OF ok] nn by (auto simp: limiter_avail_def split: option.split)
  show "limiter_inv l0 type_of t (snd (limiter_gate type_of t j s))" using limiter_gate_spec [OF i] by blast
  show "limiter_avail l0 type_of (snd (limiter_gate type_of t k s)) k t
      + (if fst (limiter_gate type_of t k s) then 1 else 0) \<le> limiter_avail l0 type_of s k t"
    using limiter_gate_spec [OF i] by blast
  show "j \<noteq> k \<Longrightarrow> limiter_avail l0 type_of (snd (limiter_gate type_of t j s)) k t \<le> limiter_avail l0 type_of s k t"
    using limiter_gate_spec [OF i, of j k] by simp
  assume tt: "t \<le> t'"
  show "limiter_inv l0 type_of t' s" using i bucket_ok_later [OF _ tt] unfolding limiter_inv_def by blast
  show "limiter_avail l0 type_of s k t' \<le> limiter_avail l0 type_of s k t + limit_rate l0 type_of k * (t' - t)"
    using bucket_avail_later [OF ok tt] nn tt by (auto simp: limiter_avail_def split: option.split)
qed

text \<open>While the clock does not step back and the store does not fail, a principal gets for an action, in
  any interleaving with the other principals and actions, at most the capacity the limiter is configured
  with for it plus what its rate refilled over the elapsed time.\<close>

theorem principal_budget:
  assumes "limits_ok l0" and "lm_buckets l0 = []" and "ordered t0 rs"
  shows "rat_of_nat (grants (limiter_gate type_of) k rs l0) \<le> limit_cap l0 type_of k + limit_rate l0 type_of k * (last_time t0 rs - t0)"
  using assms by (intro principals.grants_bounded) (simp_all add: limiter_inv_def)

theorem principal_budget_witness:
  "rat_of_nat (grants (limiter_gate (\<lambda>p. ''bot'')) (''bot-1'', ''messages'')
     [(0, (''bot-1'', ''messages'')), (4, (''admin'', ''messages'')), (6, (''bot-1'', ''messages''))]
     (new_limiter 30 10 [] [])) \<le> 30 + 1 / 2 * 6"
  using principal_budget [of "new_limiter 30 10 [] []" 0
      "[(0, (''bot-1'', ''messages'')), (4, (''admin'', ''messages'')), (6, (''bot-1'', ''messages''))]"
      "\<lambda>p. ''bot''" "(''bot-1'', ''messages'')"]
  by (simp add: limits_ok_def new_limiter_def limit_cap_def limit_rate_def bucket_limits_def privileged_ids_def
      dict_merge_def py_lower_def)

text \<open>The wall clock the limiter reads may step back: the bucket then takes the earlier reading as its last
  update, and the way forward refills it a second time.\<close>

lemma clock_step_refills:
  assumes "t' \<le> t" and "t \<le> bk_last_updated b" and "bk_tokens b < 1" and "bk_tokens b \<le> bk_capacity b"
  shows "bucket_avail (snd (consume t' b)) t = min (bk_capacity b) (bk_tokens b + (t - t') * bk_rate_per_sec b)"
  using assms by (simp add: consume_def bucket_avail_def Let_def)

text \<open>When the limiter's store fails, a human or one of the operator identities passes and every other
  caller is answered 429 with a wait of 60 seconds; the buckets are untouched.\<close>

theorem store_failure_policy:
  "check_rate_limit True now action pid ptype l =
     (if py_lower ptype = ''human'' \<or> pid \<in> set fail_open_ids then None else Some 60, l)"
  by (simp add: check_rate_limit_def limiter_acquire_def)

end
