(* ===== verification/Conversations.thy ===== *)
theory Conversations
  imports Prelude
begin

text \<open>
  The conversation store of \<open>backend/staff/conversations.py\<close>: threads, their messages in sequence, the
  epoch that fences a superseded turn, and the listing the rest of the staff code reads. The redaction of
  a text is an argument, as is that of the JSON text of updated metadata; identifiers and clock readings the store draws are fields of the
  request. A write runs alone, as under the store's lock, so the sequence number it computes is free.
\<close>

section \<open>State\<close>

record thread_row =
  th_id :: string
  th_title :: string
  th_kind :: string
  th_participants :: "string list"
  th_created_by :: string
  th_status :: string
  th_last_message_at :: "string option"
  th_unread :: "(string, int) dict"
  th_meta :: "(string, json) dict"
  th_created_at :: string
  th_updated_at :: string
  th_epoch :: int

record message =
  ms_id :: string
  ms_thread :: string
  ms_seq :: int
  ms_author_kind :: string
  ms_author :: string
  ms_kind :: string
  ms_body :: string
  ms_meta :: "(string, json) dict"
  ms_run_id :: string
  ms_idempotency_key :: "string option"
  ms_created_at :: string
  ms_delivery :: string

record conversations =
  cv_threads :: "thread_row list"
  cv_messages :: "message list"

datatype conversation_error =
    InvalidArgument
  | UnknownThread
  | StaleThreadEpoch
  | DuplicateId

definition thread_kinds :: "string list" where
  "thread_kinds = [''direct'', ''group'', ''auto'', ''panel'']"

definition message_author_kinds :: "string list" where
  "message_author_kinds = [''user'', ''bot'', ''role'', ''system'']"

definition message_kinds :: "string list" where
  "message_kinds = [''text'', ''action_proposal'', ''action_result'', ''run_card'', ''handoff'', ''status'', ''error'']"

definition message_deliveries :: "string list" where
  "message_deliveries = [''pending'', ''streaming'', ''complete'', ''failed'']"

text \<open>\<open>redact_value\<close> reaches every string inside a value; keys and shape stay.\<close>

fun redact_value :: "(string \<Rightarrow> string) \<Rightarrow> json \<Rightarrow> json" where
  "redact_value redact (JStr s) = JStr (redact s)"
| "redact_value redact (JDict d) = JDict (map (\<lambda>(k, v). (k, redact_value redact v)) d)"
| "redact_value redact (JList vs) = JList (map (redact_value redact) vs)"
| "redact_value redact v = v"

definition redact_dict :: "(string \<Rightarrow> string) \<Rightarrow> (string, json) dict \<Rightarrow> (string, json) dict" where
  "redact_dict redact d = map (\<lambda>(k, v). (k, redact_value redact v)) d"

section \<open>Threads\<close>

definition create_thread ::
    "(string \<Rightarrow> string) \<Rightarrow> string \<Rightarrow> string \<Rightarrow> string \<Rightarrow> string \<Rightarrow>
     string list \<Rightarrow> string \<Rightarrow> (string, json) dict \<Rightarrow> string option \<Rightarrow> conversations \<Rightarrow>
     (conversation_error + thread_row) \<times> conversations" where
  "create_thread redact now tid title kind participants created_by meta role cs =
     (if kind \<notin> set thread_kinds then (Inl InvalidArgument, cs)
      else
        let parts = (case role of Some r \<Rightarrow> if r \<noteq> [] \<and> r \<notin> set participants then participants @ [r] else participants
                                | None \<Rightarrow> participants);
            rec = \<lparr>th_id = tid, th_title = redact title, th_kind = kind, th_participants = parts,
                   th_created_by = created_by, th_status = ''open'', th_last_message_at = None,
                   th_unread = fold (\<lambda>p. AList.update p 0) parts [], th_meta = redact_dict redact meta,
                   th_created_at = now, th_updated_at = now, th_epoch = 0\<rparr>
        in if row_lookup th_id tid (cv_threads cs) \<noteq> None then (Inl DuplicateId, cs)
           else (Inr rec, cs\<lparr>cv_threads := cv_threads cs @ [rec]\<rparr>))"

definition get_thread :: "string \<Rightarrow> conversations \<Rightarrow> thread_row option" where
  "get_thread tid cs = row_lookup th_id tid (cv_threads cs)"

definition advance_thread_turn_epoch ::
    "string \<Rightarrow> string \<Rightarrow> string \<Rightarrow> conversations \<Rightarrow> (conversation_error + int) \<times> conversations" where
  "advance_thread_turn_epoch now tid reason cs =
     (if tid = [] \<or> reason = [] then (Inl InvalidArgument, cs)
      else case get_thread tid cs of
        None \<Rightarrow> (Inl UnknownThread, cs)
      | Some th \<Rightarrow> (Inr (th_epoch th + 1),
          cs\<lparr>cv_threads := row_update th_id tid (\<lambda>r. r\<lparr>th_epoch := th_epoch r + 1, th_updated_at := now\<rparr>) (cv_threads cs)\<rparr>))"

definition validate_turn_epoch :: "string \<Rightarrow> int \<Rightarrow> conversations \<Rightarrow> conversation_error option" where
  "validate_turn_epoch tid turn_epoch cs =
     (case get_thread tid cs of
        None \<Rightarrow> Some UnknownThread
      | Some th \<Rightarrow> if th_epoch th \<noteq> turn_epoch then Some StaleThreadEpoch else None)"

section \<open>Messages\<close>

record post_args =
  po_message_id :: string
  po_now :: string
  po_author_kind :: string
  po_author :: string
  po_kind :: string
  po_body :: string
  po_meta :: "(string, json) dict"
  po_run_id :: string
  po_idempotency_key :: "string option"
  po_delivery :: string
  po_turn_epoch :: "int option"

definition thread_messages :: "string \<Rightarrow> conversations \<Rightarrow> message list" where
  "thread_messages tid cs = filter (\<lambda>m. ms_thread m = tid) (cv_messages cs)"

definition max_seq :: "string \<Rightarrow> conversations \<Rightarrow> int" where
  "max_seq tid cs = fold max (map ms_seq (thread_messages tid cs)) 0"

definition bump_counters :: "string \<Rightarrow> string list \<Rightarrow> (string, int) dict \<Rightarrow> (string, int) dict" where
  "bump_counters author participants counters =
     fold (\<lambda>p c. if p \<noteq> author
                 then AList.update p ((case map_of c p of Some n \<Rightarrow> n | None \<Rightarrow> 0) + 1) c else c) participants counters"

definition replayed :: "string \<Rightarrow> string option \<Rightarrow> conversations \<Rightarrow> message option" where
  "replayed tid key cs =
     (case key of None \<Rightarrow> None
      | Some k \<Rightarrow> if k = [] then None
                  else List.find (\<lambda>m. ms_idempotency_key m = Some k) (thread_messages tid cs))"

definition add_message ::
    "(string \<Rightarrow> string) \<Rightarrow> string \<Rightarrow> post_args \<Rightarrow> conversations \<Rightarrow>
     (conversation_error + message) \<times> conversations" where
  "add_message redact tid p cs =
     (if po_author_kind p \<notin> set message_author_kinds \<or> po_kind p \<notin> set message_kinds
         \<or> po_delivery p \<notin> set message_deliveries then (Inl InvalidArgument, cs)
      else case (case po_turn_epoch p of None \<Rightarrow> None | Some e \<Rightarrow> validate_turn_epoch tid e cs) of
        Some err \<Rightarrow> (Inl err, cs)
      | None \<Rightarrow>
          case replayed tid (po_idempotency_key p) cs of
            Some m \<Rightarrow> (Inr m, cs)
          | None \<Rightarrow>
              let m = \<lparr>ms_id = po_message_id p, ms_thread = tid, ms_seq = max_seq tid cs + 1,
                       ms_author_kind = po_author_kind p, ms_author = po_author p, ms_kind = po_kind p,
                       ms_body = redact (po_body p), ms_meta = redact_dict redact (po_meta p), ms_run_id = po_run_id p,
                       ms_idempotency_key = str_or (po_idempotency_key p) None, ms_created_at = po_now p,
                       ms_delivery = po_delivery p\<rparr>
              in if row_lookup ms_id (po_message_id p) (cv_messages cs) \<noteq> None then (Inl DuplicateId, cs)
                 else (Inr m, cs\<lparr>cv_messages := cv_messages cs @ [m],
                        cv_threads := row_update th_id tid
                          (\<lambda>th. th\<lparr>th_last_message_at := Some (po_now p), th_updated_at := po_now p,
                                   th_unread := bump_counters (po_author p) (th_participants th) (th_unread th)\<rparr>)
                          (cv_threads cs)\<rparr>))"

text \<open>\<open>ORDER BY seq ASC LIMIT ?\<close>; a negative limit is no limit.\<close>

definition list_messages :: "string \<Rightarrow> int \<Rightarrow> int \<Rightarrow> conversations \<Rightarrow> message list" where
  "list_messages tid limit since_seq cs =
     (let rows = sort_key ms_seq (filter (\<lambda>m. since_seq < ms_seq m) (thread_messages tid cs))
      in if limit < 0 then rows else take (nat limit) rows)"

definition mark_thread_read :: "string \<Rightarrow> string \<Rightarrow> conversations \<Rightarrow> conversations" where
  "mark_thread_read tid reader cs =
     cs\<lparr>cv_threads := row_update th_id tid (\<lambda>th. th\<lparr>th_unread := AList.update reader 0 (th_unread th)\<rparr>) (cv_threads cs)\<rparr>"

definition get_message :: "string \<Rightarrow> conversations \<Rightarrow> message option" where
  "get_message mid cs = row_lookup ms_id mid (cv_messages cs)"

record message_fields =
  mf_body :: "string option"
  mf_kind :: "string option"
  mf_meta :: "(string, json) dict option"
  mf_delivery :: "string option"
  mf_run_id :: "string option"

definition set_fields ::
    "(string \<Rightarrow> string) \<Rightarrow> ((string, json) dict \<Rightarrow> (string, json) dict) \<Rightarrow> message_fields \<Rightarrow> message \<Rightarrow> message" where
  "set_fields redact redact_meta_text f m =
     m\<lparr>ms_body := (case mf_body f of Some x \<Rightarrow> redact x | None \<Rightarrow> ms_body m),
       ms_kind := (case mf_kind f of Some x \<Rightarrow> redact x | None \<Rightarrow> ms_kind m),
       ms_meta := (case mf_meta f of Some x \<Rightarrow> redact_meta_text x | None \<Rightarrow> ms_meta m),
       ms_delivery := (case mf_delivery f of Some x \<Rightarrow> redact x | None \<Rightarrow> ms_delivery m),
       ms_run_id := (case mf_run_id f of Some x \<Rightarrow> redact x | None \<Rightarrow> ms_run_id m)\<rparr>"

definition update_message ::
    "(string \<Rightarrow> string) \<Rightarrow> ((string, json) dict \<Rightarrow> (string, json) dict) \<Rightarrow> string \<Rightarrow> int option \<Rightarrow> message_fields \<Rightarrow>
     conversations \<Rightarrow> message option \<times> conversations" where
  "update_message redact redact_meta_text mid turn_epoch f cs =
     (case get_message mid cs of
        None \<Rightarrow> (None, cs)
      | Some m \<Rightarrow>
          if (case turn_epoch of None \<Rightarrow> False
              | Some e \<Rightarrow> (case get_thread (ms_thread m) cs of None \<Rightarrow> True | Some th \<Rightarrow> th_epoch th \<noteq> e))
          then (None, cs)
          else let cs1 = cs\<lparr>cv_messages := row_update ms_id mid (set_fields redact redact_meta_text f) (cv_messages cs)\<rparr>
               in (get_message mid cs1, cs1))"

section \<open>Sequence numbers\<close>

text \<open>Positive, increasing in the order of the table, and at least one key per message.\<close>

definition seq_inv :: "conversations \<Rightarrow> bool" where
  "seq_inv cs = (\<forall>tid. sorted_wrt (<) (map ms_seq (thread_messages tid cs)) \<and>
     (\<forall>m \<in> set (thread_messages tid cs). 0 < ms_seq m))"

lemma fold_max_le: "a \<le> fold max xs a \<and> (\<forall>x \<in> set xs. x \<le> fold max xs (a :: int))"
proof (induction xs arbitrary: a)
  case Nil
  then show ?case by simp
next
  case (Cons x xs)
  from Cons [of "max x a"] show ?case by (auto simp: max_def split: if_splits)
qed

lemma max_seq_upper: "m \<in> set (thread_messages tid cs) \<Longrightarrow> ms_seq m \<le> max_seq tid cs"
  using fold_max_le [of 0 "map ms_seq (thread_messages tid cs)"] by (auto simp: max_seq_def)

lemma max_seq_nonneg: "0 \<le> max_seq tid cs"
  using fold_max_le [of 0 "map ms_seq (thread_messages tid cs)"] by (simp add: max_seq_def)

text \<open>What a post does to the messages: nothing, or one message with a sequence number above the others.\<close>

lemma add_message_cases:
  assumes "add_message redact tid p cs = (res, cs')"
  obtains (unchanged) "cs' = cs"
  | (appended) m where "res = Inr m" "cv_messages cs' = cv_messages cs @ [m]" "ms_thread m = tid"
      "ms_seq m = max_seq tid cs + 1" "ms_author_kind m = po_author_kind p" "ms_delivery m = po_delivery p"
      "ms_kind m = po_kind p" "ms_meta m = redact_dict redact (po_meta p)"
  using assms by (auto simp: add_message_def Let_def split: if_splits option.splits)

lemma thread_messages_append:
  "cv_messages cs' = cv_messages cs @ [m] \<Longrightarrow>
     thread_messages tid cs' = thread_messages tid cs @ (if ms_thread m = tid then [m] else [])"
  by (simp add: thread_messages_def)

lemma add_message_seq_inv:
  assumes "seq_inv cs" and "add_message redact tid p cs = (res, cs')"
  shows "seq_inv cs'"
  using assms(2)
proof (cases rule: add_message_cases)
  case unchanged
  with assms show ?thesis by simp
next
  case (appended m)
  have "ms_seq x < ms_seq m" if "x \<in> set (thread_messages tid cs)" for x
    using max_seq_upper [OF that] appended by simp
  moreover have "0 < ms_seq m" using max_seq_nonneg [of tid cs] appended by simp
  ultimately show ?thesis
    using assms(1) appended by (auto simp: seq_inv_def thread_messages_append sorted_wrt_append)
qed

lemma sorted_listing:
  assumes "seq_inv cs" and "since_seq \<le> 0"
  shows "sort_key ms_seq (filter (\<lambda>m. since_seq < ms_seq m) (thread_messages tid cs)) = thread_messages tid cs"
proof -
  have "filter (\<lambda>m. since_seq < ms_seq m) (thread_messages tid cs) = thread_messages tid cs"
    using assms by (intro filter_True) (force simp: seq_inv_def)
  moreover have "sorted_wrt (<) (map ms_seq (thread_messages tid cs))" using assms by (simp add: seq_inv_def)
  then have "sorted (map ms_seq (thread_messages tid cs))" by (rule strict_sorted_imp_sorted)
  ultimately show ?thesis by (simp add: sort_key_id_if_sorted)
qed

text \<open>The listing is the oldest messages of the thread.\<close>

lemma list_messages_oldest:
  "seq_inv cs \<Longrightarrow> 0 \<le> limit \<Longrightarrow> list_messages tid limit 0 cs = take (nat limit) (thread_messages tid cs)"
  by (simp add: list_messages_def sorted_listing)

lemma full_listing_frozen:
  assumes "seq_inv cs" and "0 \<le> limit" and "limit \<le> int (length (thread_messages tid cs))"
    and "add_message redact tid' p cs = (res, cs')"
  shows "list_messages tid limit 0 cs' = list_messages tid limit 0 cs"
    and "length (thread_messages tid cs) \<le> length (thread_messages tid cs')"
proof -
  have inv: "seq_inv cs'" using add_message_seq_inv assms by blast
  have "\<exists>ms. thread_messages tid cs' = thread_messages tid cs @ ms"
    using assms(4) by (cases rule: add_message_cases) (auto simp: thread_messages_append)
  then obtain ms where "thread_messages tid cs' = thread_messages tid cs @ ms" ..
  with assms inv show "list_messages tid limit 0 cs' = list_messages tid limit 0 cs"
    and "length (thread_messages tid cs) \<le> length (thread_messages tid cs')"
    by (simp_all add: list_messages_oldest nat_le_iff)
qed

text \<open>A superseded turn writes nothing.\<close>

lemma stale_turn_fenced:
  assumes "advance_thread_turn_epoch now tid reason cs = (Inr e, cs')" and "po_turn_epoch p = Some e0" and "e0 < e"
  shows "add_message redact tid p cs' = (Inl InvalidArgument, cs')
    \<or> add_message redact tid p cs' = (Inl StaleThreadEpoch, cs')"
proof -
  from assms(1) obtain th where th: "get_thread tid cs = Some th" and e: "e = th_epoch th + 1"
    and cs': "cs' = cs\<lparr>cv_threads := row_update th_id tid
        (\<lambda>r. r\<lparr>th_epoch := th_epoch r + 1, th_updated_at := now\<rparr>) (cv_threads cs)\<rparr>"
    by (auto simp: advance_thread_turn_epoch_def split: if_splits option.splits)
  have "get_thread tid cs' = Some (th\<lparr>th_epoch := th_epoch th + 1, th_updated_at := now\<rparr>)"
    using th by (simp add: get_thread_def cs' row_lookup_update)
  then have "validate_turn_epoch tid e0 cs' = Some StaleThreadEpoch"
    using assms(3) e by (simp add: validate_turn_epoch_def)
  with assms(2) show ?thesis by (simp add: add_message_def)
qed

end
