(* ===== verification/Loop_Guard.thy ===== *)
theory Loop_Guard
  imports Conversations "HOL-Library.Multiset"
begin

text \<open>
  The loop guard of \<open>backend/staff/loop_guard.py\<close>: the count of agent turns since the last human message,
  the count of handoff hops, the pause when a cap is reached, and the check in front of a bot's post. It
  reads the thread through \<open>list_messages\<close>, which returns the oldest messages: the lemmas show that the
  guard counts the turns of a short thread and that its answer no longer changes once the thread is long.
\<close>

section \<open>Limits\<close>

record loop_guard =
  lg_configured_max_turns :: "int option"
  lg_configured_max_hops :: "int option"

text \<open>The process-wide guard is configured by the environment.\<close>

definition global_loop_guard :: loop_guard where
  "global_loop_guard = \<lparr>lg_configured_max_turns = None, lg_configured_max_hops = None\<rparr>"

fun parse_cap :: "(string, string) dict \<Rightarrow> string list \<Rightarrow> int \<Rightarrow> int" where
  "parse_cap env [] dflt = dflt"
| "parse_cap env (name # names) dflt =
     (case map_of env name of
        None \<Rightarrow> parse_cap env names dflt
      | Some raw \<Rightarrow>
          if blank raw then parse_cap env names dflt
          else (case py_int (py_strip raw) of None \<Rightarrow> 0 | Some val \<Rightarrow> max 0 val))"

definition max_agent_turns :: "(string, string) dict \<Rightarrow> loop_guard \<Rightarrow> int" where
  "max_agent_turns env g =
     (case lg_configured_max_turns g of Some n \<Rightarrow> n | None \<Rightarrow> parse_cap env [''STAFF_LOOP_GUARD_TURNS''] 5)"

definition max_handoff_hops :: "(string, string) dict \<Rightarrow> loop_guard \<Rightarrow> int" where
  "max_handoff_hops env g =
     (case lg_configured_max_hops g of Some n \<Rightarrow> n
      | None \<Rightarrow> parse_cap env [''STAFF_HANDOFF_HOP_CAP'', ''STAFF_MAX_HANDOFF_HOPS''] 3)"

section \<open>Counting\<close>

text \<open>\<open>sorted(messages, key=seq, reverse=True)\<close>: stable in reverse too.\<close>

definition newest_first :: "message list \<Rightarrow> message list" where
  "newest_first ms = rev (sort_key ms_seq (rev ms))"

fun agent_turns :: "message list \<Rightarrow> int" where
  "agent_turns [] = 0"
| "agent_turns (m # ms) =
     (if ms_delivery m = ''pending'' then agent_turns ms
      else if ms_author_kind m = ''user'' then 0
      else if ms_author_kind m = ''system'' then agent_turns ms
      else 1 + agent_turns ms)"

definition guard_check :: "(string, string) dict \<Rightarrow> loop_guard \<Rightarrow> string \<Rightarrow> conversations \<Rightarrow> bool \<times> int" where
  "guard_check env g tid cs =
     (let limit = max_agent_turns env g;
          messages = list_messages tid (max limit 1 + 10) 0 cs
      in if messages = [] then (limit \<le> 0, 0)
         else let turns = agent_turns (newest_first messages) in (limit \<le> turns, turns))"

text \<open>\<open>int(x)\<close> on a JSON value; \<open>None\<close> is a raise.\<close>

fun json_int :: "json \<Rightarrow> int option" where
  "json_int (JBool b) = Some (if b then 1 else 0)"
| "json_int (JInt i) = Some i"
| "json_int (JFloat x) = Some (if 0 \<le> x then \<lfloor>x\<rfloor> else \<lceil>x\<rceil>)"
| "json_int (JStr s) = py_int s"
| "json_int v = None"

definition recorded_hops :: "message \<Rightarrow> int option" where
  "recorded_hops m = (case map_of (ms_meta m) ''handoff_hops'' of
     None \<Rightarrow> Some 0 | Some v \<Rightarrow> if json_true v then json_int v else Some 0)"

fun hop_scan :: "message list \<Rightarrow> int \<Rightarrow> int \<Rightarrow> int option" where
  "hop_scan [] max_recorded cards = Some (max max_recorded cards)"
| "hop_scan (m # ms) max_recorded cards =
     (if ms_author_kind m = ''user'' then Some (max max_recorded cards)
      else case recorded_hops m of
        None \<Rightarrow> None
      | Some recorded \<Rightarrow>
          let r = max max_recorded recorded
          in if ms_kind m = ''handoff'' then hop_scan ms r (cards + 1)
             else if (case map_of (ms_meta m) ''handoff'' of None \<Rightarrow> False | Some v \<Rightarrow> json_true v) \<and> r = 0
             then hop_scan ms 1 cards
             else hop_scan ms r cards)"

definition count_handoff_hops :: "string \<Rightarrow> conversations \<Rightarrow> int option" where
  "count_handoff_hops tid cs =
     (if tid = [] then Some 0
      else let messages = list_messages tid 50 0 cs
           in if messages = [] then Some 0 else hop_scan (newest_first messages) 0 0)"

definition check_handoff_hops :: "(string, string) dict \<Rightarrow> loop_guard \<Rightarrow> string \<Rightarrow> conversations \<Rightarrow> (bool \<times> int) option" where
  "check_handoff_hops env g tid cs =
     (case count_handoff_hops tid cs of None \<Rightarrow> None | Some hops \<Rightarrow> Some (max_handoff_hops env g \<le> hops, hops))"

section \<open>Pausing a thread\<close>

record guard_audit =
  ga_action :: string
  ga_target :: string
  ga_count :: int
  ga_limit :: int

record guard_state =
  gs_store :: conversations
  gs_audit :: "guard_audit list"

definition warning_sign :: string where
  "warning_sign = [CHR 0xE2, CHR 0x9A, CHR 0xA0, CHR 0xEF, CHR 0xB8, CHR 0x8F]"

definition system_post :: "string \<Rightarrow> string \<Rightarrow> string \<Rightarrow> (string, json) dict \<Rightarrow> post_args" where
  "system_post mid now body meta =
     \<lparr>po_message_id = mid, po_now = now, po_author_kind = ''system'', po_author = ''loop-guard'', po_kind = ''text'',
      po_body = body, po_meta = meta, po_run_id = [], po_idempotency_key = None, po_delivery = ''complete'',
      po_turn_epoch = None\<rparr>"

definition trip_handoff_cap ::
    "(string \<Rightarrow> string) \<Rightarrow> (string, string) dict \<Rightarrow> loop_guard \<Rightarrow> string \<Rightarrow> string \<Rightarrow> string \<Rightarrow> int \<Rightarrow> guard_state \<Rightarrow> guard_state" where
  "trip_handoff_cap redact env g mid now tid hop_count st =
     (let limit = max_handoff_hops env g;
          body = warning_sign @ '' Handoff hop cap triggered: Thread has reached '' @ int_text hop_count
                 @ '' consecutive handoffs (limit '' @ int_text limit
                 @ '') without human user input. Further handoffs are halted.'';
          post = system_post mid now body [(''paused_by'', JStr ''handoff_hop_cap''), (''hops'', JInt hop_count), (''limit'', JInt limit)]
      in st\<lparr>gs_store := (if tid = [] then gs_store st else snd (add_message redact tid post (gs_store st))),
            gs_audit := gs_audit st @ [\<lparr>ga_action = ''handoff_hop_cap_tripped'',
              ga_target = ''thread:'' @ (if tid = [] then ''unknown'' else tid), ga_count = hop_count, ga_limit = limit\<rparr>]\<rparr>)"

definition trip ::
    "(string \<Rightarrow> string) \<Rightarrow> (string, string) dict \<Rightarrow> loop_guard \<Rightarrow> string \<Rightarrow> string \<Rightarrow> string \<Rightarrow> int \<Rightarrow> guard_state \<Rightarrow> guard_state" where
  "trip redact env g mid now tid turn_count st =
     (let body = warning_sign @ '' Loop guard triggered: Thread has reached '' @ int_text turn_count
                 @ '' consecutive agent turns without human user input. Execution is paused to prevent runaway token spend. ''
                 @ ''Please reply to confirm next steps or continue.'';
          post = system_post mid now body [(''paused_by'', JStr ''loop_guard''), (''turns'', JInt turn_count)]
      in st\<lparr>gs_store := snd (add_message redact tid post (gs_store st)),
            gs_audit := gs_audit st @ [\<lparr>ga_action = ''loop_guard_tripped'', ga_target = ''thread:'' @ tid,
              ga_count = turn_count, ga_limit = max_agent_turns env g\<rparr>]\<rparr>)"

section \<open>The checks in front of a post\<close>

datatype hop_result = HopCount int | HopCapExceeded | HopRaised

definition enforce_handoff_hop_cap_or_raise ::
    "(string \<Rightarrow> string) \<Rightarrow> (string, string) dict \<Rightarrow> string \<Rightarrow> string \<Rightarrow> string \<Rightarrow> int option \<Rightarrow> guard_state \<Rightarrow> hop_result \<times> guard_state" where
  "enforce_handoff_hop_cap_or_raise redact env mid now tid max_hops st =
     (let g = (case max_hops of None \<Rightarrow> global_loop_guard
                | Some n \<Rightarrow> \<lparr>lg_configured_max_turns = None, lg_configured_max_hops = Some n\<rparr>)
      in if tid = []
         then if max_handoff_hops env g \<le> 0 then (HopCapExceeded, trip_handoff_cap redact env g mid now [] 0 st)
              else (HopCount 1, st)
         else case check_handoff_hops env g tid (gs_store st) of
           None \<Rightarrow> (HopRaised, st)
         | Some (tripped, hops) \<Rightarrow>
             if tripped then (HopCapExceeded, trip_handoff_cap redact env g mid now tid hops st)
             else (HopCount (hops + 1), st))"

text \<open>\<open>Refused\<close> is the 429 answer with its code, \<open>Crashed\<close> an exception the handler does not expect.\<close>

datatype admission = Admitted | Refused string | Crashed

definition enforce_loop_guard_or_raise ::
    "(string \<Rightarrow> string) \<Rightarrow> (string, string) dict \<Rightarrow> string \<Rightarrow> string \<Rightarrow> string \<Rightarrow> string \<Rightarrow> string \<Rightarrow> guard_state \<Rightarrow>
     admission \<times> guard_state" where
  "enforce_loop_guard_or_raise redact env mid now tid principal_type message_kind st =
     (case (if message_kind = ''handoff'' then enforce_handoff_hop_cap_or_raise redact env mid now tid None st
            else (HopCount 0, st)) of
        (HopCapExceeded, st1) \<Rightarrow> (Refused ''handoff_hop_cap_exceeded'', st1)
      | (HopRaised, st1) \<Rightarrow> (Crashed, st1)
      | (HopCount n, st1) \<Rightarrow>
          if py_lower principal_type = ''human'' then (Admitted, st1)
          else let (tripped, turns) = guard_check env global_loop_guard tid (gs_store st1)
               in if tripped then (Refused ''loop_guard_triggered'', trip redact env global_loop_guard mid now tid turns st1)
                  else (Admitted, st1))"

text \<open>What a principal's post does: the guard, then the message. \<open>gid\<close> is the identifier of the guard's own
  message, should it pause the thread.\<close>

definition guarded_post ::
    "(string \<Rightarrow> string) \<Rightarrow> (string, string) dict \<Rightarrow> string \<Rightarrow> string \<Rightarrow> string \<Rightarrow> post_args \<Rightarrow> guard_state \<Rightarrow> admission \<times> guard_state" where
  "guarded_post redact env tid principal_type gid p st =
     (case enforce_loop_guard_or_raise redact env gid (po_now p) tid principal_type (po_kind p) st of
        (Admitted, st1) \<Rightarrow> (Admitted, st1\<lparr>gs_store := snd (add_message redact tid p (gs_store st1))\<rparr>)
      | (refused, st1) \<Rightarrow> (refused, st1))"

fun guarded_posts ::
    "(string \<Rightarrow> string) \<Rightarrow> (string, string) dict \<Rightarrow> string \<Rightarrow> (string \<times> string \<times> post_args) list \<Rightarrow> guard_state \<Rightarrow>
     admission list \<times> guard_state" where
  "guarded_posts redact env tid [] st = ([], st)"
| "guarded_posts redact env tid ((ptype, gid, p) # ps) st =
     (let (a, st1) = guarded_post redact env tid ptype gid p st;
          (rest, st2) = guarded_posts redact env tid ps st1 in (a # rest, st2))"

section \<open>What the guard counts\<close>

text \<open>The agent turns after the last human message, pending replies and system notices aside.\<close>

definition turns_since_human :: "message list \<Rightarrow> nat" where
  "turns_since_human ms =
     length (filter (\<lambda>m. ms_author_kind m \<noteq> ''system'')
       (takeWhile (\<lambda>m. ms_author_kind m \<noteq> ''user'') (rev (filter (\<lambda>m. ms_delivery m \<noteq> ''pending'') ms))))"

definition guard_window :: "(string, string) dict \<Rightarrow> int" where
  "guard_window env = max (max_agent_turns env global_loop_guard) 1 + 10"

lemma agent_turns_spec: "agent_turns (rev ms) = int (turns_since_human ms)"
proof -
  have "agent_turns xs = int (length (filter (\<lambda>m. ms_author_kind m \<noteq> ''system'')
      (takeWhile (\<lambda>m. ms_author_kind m \<noteq> ''user'') (filter (\<lambda>m. ms_delivery m \<noteq> ''pending'') xs))))" for xs
    by (induction xs) auto
  then show ?thesis by (simp add: turns_since_human_def rev_filter)
qed

lemma filter_same_key:
  "distinct (map f xs) \<Longrightarrow> k \<in> set xs \<Longrightarrow> filter (\<lambda>x. f k = f x) xs = [k]"
  by (induction xs) (auto simp: filter_empty_conv image_iff)

lemma newest_first_thread:
  assumes "seq_inv cs"
  shows "newest_first (take n (thread_messages tid cs)) = rev (take n (thread_messages tid cs))"
proof -
  let ?ms = "take n (thread_messages tid cs)"
  have "sorted_wrt (<) (map ms_seq (thread_messages tid cs))" using assms by (simp add: seq_inv_def)
  then have ss: "sorted_wrt (<) (map ms_seq ?ms)" by (simp add: take_map [symmetric] sorted_wrt_take)
  then have "sorted (map ms_seq ?ms)" and d: "distinct (map ms_seq ?ms)"
    by (simp_all add: strict_sorted_imp_sorted strict_sorted_iff)
  then have "sort_key ms_seq (rev ?ms) = ?ms"
    by (intro properties_for_sort_key) (simp_all add: filter_same_key rev_filter [symmetric])
  then show ?thesis by (simp add: newest_first_def)
qed

lemma guard_check_short:
  assumes "seq_inv cs" and "int (length (thread_messages tid cs)) \<le> guard_window env"
  shows "guard_check env global_loop_guard tid cs =
    (max_agent_turns env global_loop_guard \<le> int (turns_since_human (thread_messages tid cs)),
     int (turns_since_human (thread_messages tid cs)))"
proof -
  have "list_messages tid (guard_window env) 0 cs = thread_messages tid cs"
    using assms by (simp add: list_messages_oldest guard_window_def nat_le_iff)
  moreover have "newest_first (thread_messages tid cs) = rev (thread_messages tid cs)"
    using newest_first_thread [OF assms(1), of "length (thread_messages tid cs)" tid] by simp
  ultimately show ?thesis
    by (auto simp: guard_check_def guard_window_def Let_def agent_turns_spec turns_since_human_def)
qed

text \<open>On a thread no longer than the window the guard reads (its limit plus ten messages), it counts
  exactly the agent turns since the last human message, pending replies and system notices aside, and trips
  when they reach the limit.\<close>

theorem guard_counts_turns:
  assumes "seq_inv cs" and "int (length (thread_messages tid cs)) \<le> guard_window env"
  shows "guard_check env global_loop_guard tid cs =
    (max_agent_turns env global_loop_guard \<le> int (turns_since_human (thread_messages tid cs)),
     int (turns_since_human (thread_messages tid cs)))"
  using assms by (rule guard_check_short)

text \<open>A sample thread: the kinds of the authors of its messages, in order.\<close>

fun sample_messages :: "int \<Rightarrow> string list \<Rightarrow> message list" where
  "sample_messages n [] = []"
| "sample_messages n (k # ks) =
     \<lparr>ms_id = [char_of n], ms_thread = ''t'', ms_seq = n, ms_author_kind = k, ms_author = ''a'', ms_kind = ''text'',
      ms_body = [], ms_meta = [], ms_run_id = [], ms_idempotency_key = None, ms_created_at = [],
      ms_delivery = ''complete''\<rparr> # sample_messages (n + 1) ks"

definition sample_thread :: "string list \<Rightarrow> conversations" where
  "sample_thread ks = \<lparr>cv_threads = [], cv_messages = sample_messages 1 ks\<rparr>"

definition one_turn :: "(string, string) dict" where
  "one_turn = [(''STAFF_LOOP_GUARD_TURNS'', ''1'')]"

definition bot_post :: post_args where
  "bot_post = \<lparr>po_message_id = ''m'', po_now = [], po_author_kind = ''bot'', po_author = ''b'', po_kind = ''text'',
     po_body = [], po_meta = [], po_run_id = [], po_idempotency_key = None, po_delivery = ''complete'',
     po_turn_epoch = None\<rparr>"

lemma sample_messages_facts:
  "\<forall>m \<in> set (sample_messages n ks). ms_thread m = ''t'' \<and> n \<le> ms_seq m"
  "sorted_wrt (<) (map ms_seq (sample_messages n ks))"
  "length (sample_messages n ks) = length ks"
proof (induction ks arbitrary: n)
  case (Cons k ks)
  { case 1 show ?case using Cons(1) [of "n + 1"] by force }
  { case 2 show ?case using Cons(1,2) [of "n + 1"] by force }
  { case 3 show ?case using Cons(3) by simp }
qed simp_all

lemma sample_thread_facts:
  "seq_inv (sample_thread ks)" "thread_messages ''t'' (sample_thread ks) = sample_messages 1 ks"
proof -
  have m: "thread_messages tid (sample_thread ks) = (if tid = ''t'' then sample_messages 1 ks else [])" for tid
    using sample_messages_facts(1) [of 1 ks] by (auto simp: thread_messages_def sample_thread_def filter_empty_conv)
  show "thread_messages ''t'' (sample_thread ks) = sample_messages 1 ks" by (simp add: m)
  show "seq_inv (sample_thread ks)"
    using sample_messages_facts(1) [of 1 ks] sample_messages_facts(2) [of 1 ks] by (force simp: seq_inv_def m)
qed

lemma one_turn_limit: "max_agent_turns one_turn global_loop_guard = 1" "guard_window one_turn = 11"
proof -
  show "max_agent_turns one_turn global_loop_guard = 1" by code_simp
  then show "guard_window one_turn = 11" by (simp add: guard_window_def)
qed

theorem guard_counts_turns_witness:
  "guard_check one_turn global_loop_guard ''t'' (sample_thread [''bot'', ''user'', ''role'', ''system'', ''bot'']) = (True, 2)"
  using guard_counts_turns [of "sample_thread [''bot'', ''user'', ''role'', ''system'', ''bot'']" "''t''" one_turn]
  by (simp add: sample_thread_facts one_turn_limit turns_since_human_def)

text \<open>From the window on, the answer is fixed, whatever is posted.\<close>

lemma full_check_frozen:
  assumes "seq_inv cs" and "guard_window env \<le> int (length (thread_messages tid cs))"
    and "add_message redact tid' p cs = (res, cs')"
  shows "guard_check env global_loop_guard tid cs' = guard_check env global_loop_guard tid cs"
    and "seq_inv cs'" and "guard_window env \<le> int (length (thread_messages tid cs'))"
  using full_listing_frozen [OF assms(1) _ assms(2,3)] add_message_seq_inv [OF assms(1,3)] assms(2)
  by (simp_all add: guard_check_def guard_window_def)

lemma guarded_post_full:
  assumes "seq_inv (gs_store st)" and "guard_window env \<le> int (length (thread_messages tid (gs_store st)))"
    and "guard_check env global_loop_guard tid (gs_store st) = (False, n)" and "po_kind p \<noteq> ''handoff''"
    and "guarded_post redact env tid ptype gid p st = (a, st')"
  shows "a = Admitted" and "gs_audit st' = gs_audit st" and "seq_inv (gs_store st')"
    and "guard_window env \<le> int (length (thread_messages tid (gs_store st')))"
    and "guard_check env global_loop_guard tid (gs_store st') = (False, n)"
proof -
  have r: "a = Admitted" "st' = st\<lparr>gs_store := snd (add_message redact tid p (gs_store st))\<rparr>"
    using assms(3-5) by (auto simp: guarded_post_def enforce_loop_guard_or_raise_def split: if_splits)
  obtain res cs' where add: "add_message redact tid p (gs_store st) = (res, cs')" by (metis prod.exhaust)
  from r add full_check_frozen [OF assms(1,2) add] assms(3)
  show "a = Admitted" and "gs_audit st' = gs_audit st" and "seq_inv (gs_store st')"
    and "guard_window env \<le> int (length (thread_messages tid (gs_store st')))"
    and "guard_check env global_loop_guard tid (gs_store st') = (False, n)" by simp_all
qed

text \<open>Once a thread holds as many messages as the guard reads and is not tripped then, no number of
  consecutive bot posts ever trips it: every one is admitted and no pause is recorded. The guard reads the
  oldest messages, so it never sees the loop it exists to stop.\<close>

theorem runaway_not_stopped:
  assumes "seq_inv (gs_store st)" and "guard_window env \<le> int (length (thread_messages tid (gs_store st)))"
    and "\<not> fst (guard_check env global_loop_guard tid (gs_store st))"
    and "list_all (\<lambda>(ptype, gid, p). po_kind p \<noteq> ''handoff'') posts"
  shows "fst (guarded_posts redact env tid posts st) = replicate (length posts) Admitted
    \<and> gs_audit (snd (guarded_posts redact env tid posts st)) = gs_audit st"
proof -
  obtain n where "guard_check env global_loop_guard tid (gs_store st) = (False, n)"
    using assms(3) by (metis eq_fst_iff)
  with assms(1,2,4) show ?thesis
  proof (induction posts arbitrary: st)
    case Nil
    then show ?case by simp
  next
    case (Cons x posts)
    obtain ptype gid p where x: "x = (ptype, gid, p)" by (metis prod_cases3)
    obtain a st1 where g: "guarded_post redact env tid ptype gid p st = (a, st1)" by (metis prod.exhaust)
    from Cons.prems have "po_kind p \<noteq> ''handoff''" by (simp add: x)
    from guarded_post_full [OF Cons.prems(1,2,4) this g] Cons.IH [of st1] Cons.prems(3)
    show ?case by (simp add: x g split_beta Let_def)
  qed
qed

lemma sample_check:
  "length ks \<le> 11 \<Longrightarrow> guard_check one_turn global_loop_guard ''t'' (sample_thread ks) =
     (1 \<le> int (turns_since_human (sample_messages 1 ks)), int (turns_since_human (sample_messages 1 ks)))"
  by (subst guard_check_short) (simp_all add: sample_thread_facts sample_messages_facts one_turn_limit)

theorem runaway_not_stopped_witness:
  "fst (guarded_posts id one_turn ''t'' (replicate 3 (''bot'', ''g'', bot_post))
     \<lparr>gs_store = sample_thread (replicate 10 ''bot'' @ [''user'']), gs_audit = []\<rparr>) = replicate 3 Admitted"
proof -
  have "fst (guarded_posts id one_turn ''t'' (replicate 3 (''bot'', ''g'', bot_post))
      \<lparr>gs_store = sample_thread (replicate 10 ''bot'' @ [''user'']), gs_audit = []\<rparr>)
      = replicate (length (replicate 3 (''bot'', ''g'', bot_post))) Admitted"
    by (rule conjunct1 [OF runaway_not_stopped])
      (simp_all add: sample_thread_facts sample_messages_facts one_turn_limit sample_check turns_since_human_def
        bot_post_def numeral_eq_Suc)
  then show ?thesis by simp
qed

fun admitted_posts :: "(string \<Rightarrow> string) \<Rightarrow> string \<Rightarrow> post_args list \<Rightarrow> conversations \<Rightarrow> conversations" where
  "admitted_posts redact tid [] cs = cs"
| "admitted_posts redact tid (p # ps) cs = admitted_posts redact tid ps (snd (add_message redact tid p cs))"

text \<open>Once a thread holds as many messages as the guard reads and is tripped then, it stays tripped: no
  human message gives a bot its turn back.\<close>

theorem tripped_forever:
  assumes "seq_inv (gs_store st)" and "guard_window env \<le> int (length (thread_messages tid (gs_store st)))"
    and "fst (guard_check env global_loop_guard tid (gs_store st))"
    and "py_lower ptype \<noteq> ''human''" and "mkind \<noteq> ''handoff''"
  shows "fst (enforce_loop_guard_or_raise redact env gid now tid ptype mkind
    (st\<lparr>gs_store := admitted_posts redact tid humans (gs_store st)\<rparr>)) = Refused ''loop_guard_triggered''"
proof -
  have "seq_inv cs \<Longrightarrow> guard_window env \<le> int (length (thread_messages tid cs)) \<Longrightarrow>
      guard_check env global_loop_guard tid (admitted_posts redact tid humans cs) = guard_check env global_loop_guard tid cs" for cs
  proof (induction humans arbitrary: cs)
    case Nil
    then show ?case by simp
  next
    case (Cons p ps)
    obtain res cs' where add: "add_message redact tid p cs = (res, cs')" by (metis prod.exhaust)
    from full_check_frozen [OF Cons.prems add] Cons.IH [of cs'] show ?case by (simp add: add)
  qed
  from this [OF assms(1,2)] assms(3-5) show ?thesis
    by (simp add: enforce_loop_guard_or_raise_def split_beta Let_def)
qed

theorem tripped_forever_witness:
  "fst (enforce_loop_guard_or_raise id one_turn ''g'' [] ''t'' ''bot'' ''text''
     \<lparr>gs_store = admitted_posts id ''t'' (replicate 4 (bot_post\<lparr>po_author_kind := ''user''\<rparr>))
        (sample_thread (''user'' # replicate 10 ''bot'')), gs_audit = []\<rparr>) = Refused ''loop_guard_triggered''"
  using tripped_forever [of "\<lparr>gs_store = sample_thread (''user'' # replicate 10 ''bot''), gs_audit = []\<rparr>" one_turn "''t''"
      "''bot''" "''text''" id "''g''" "[]" "replicate 4 (bot_post\<lparr>po_author_kind := ''user''\<rparr>)"]
  by (simp add: sample_thread_facts sample_messages_facts one_turn_limit sample_check turns_since_human_def
      py_lower_def py_lower_char_def numeral_eq_Suc)

end
