(* ===== verification/Claim_Spec.thy ===== *)
theory Claim_Spec
  imports Prelude
begin

text \<open>
  The contract of a table of claims: a key is claimed at most once, until it is freed. The idempotency
  store and the replay store provide it. A step grants a key, frees one, passes one that is taken on to a new
  holder, or does none of these; \<open>fine\<close> bounds the steps considered (their clock readings, or the keys they name).
\<close>

datatype 'k claim_effect = Granted 'k | Freed 'k | Passed 'k | Neither

fun claim_run :: "('e \<Rightarrow> 's \<Rightarrow> 'k claim_effect \<times> 's) \<Rightarrow> 'e list \<Rightarrow> 's \<Rightarrow> 'k claim_effect list" where
  "claim_run step [] s = []"
| "claim_run step (e # es) s = fst (step e s) # claim_run step es (snd (step e s))"

definition granted :: "'k \<Rightarrow> 'k claim_effect list \<Rightarrow> nat" where
  "granted k fs = length (filter (\<lambda>f. f = Granted k) fs)"

definition freed :: "'k \<Rightarrow> 'k claim_effect list \<Rightarrow> nat" where
  "freed k fs = length (filter (\<lambda>f. f = Freed k) fs)"

locale claim_table =
  fixes inv :: "'s \<Rightarrow> bool"
    and taken :: "'s \<Rightarrow> 'k \<Rightarrow> bool"
    and fine :: "'e \<Rightarrow> bool"
    and step :: "'e \<Rightarrow> 's \<Rightarrow> 'k claim_effect \<times> 's"
  assumes step_inv: "inv s \<Longrightarrow> fine e \<Longrightarrow> inv (snd (step e s))"
    and grant_free: "inv s \<Longrightarrow> fine e \<Longrightarrow> fst (step e s) = Granted k \<Longrightarrow> \<not> taken s k"
    and grant_takes: "inv s \<Longrightarrow> fine e \<Longrightarrow> fst (step e s) = Granted k \<Longrightarrow> taken (snd (step e s)) k"
    and taken_stays: "inv s \<Longrightarrow> fine e \<Longrightarrow> taken s k \<Longrightarrow> fst (step e s) \<noteq> Freed k \<Longrightarrow> taken (snd (step e s)) k"
begin

lemma grants_le:
  "inv s \<Longrightarrow> list_all fine es \<Longrightarrow>
     granted k (claim_run step es s) \<le> (if taken s k then 0 else 1) + freed k (claim_run step es s)"
proof (induction es arbitrary: s)
  case Nil
  then show ?case by (simp add: granted_def freed_def)
next
  case (Cons e es)
  then have fine: "fine e" and inv: "inv (snd (step e s))" by (simp_all add: step_inv)
  let ?rest = "claim_run step es (snd (step e s))"
  have IH: "granted k ?rest \<le> (if taken (snd (step e s)) k then 0 else 1) + freed k ?rest"
    using Cons.IH [OF inv] Cons.prems by simp
  show ?case
    using IH grant_free [OF Cons.prems(1) fine, of k] grant_takes [OF Cons.prems(1) fine, of k]
      taken_stays [OF Cons.prems(1) fine, of k]
    by (cases "fst (step e s)") (auto simp: granted_def freed_def split: if_splits)
qed

lemma once_unless_freed:
  "inv s \<Longrightarrow> list_all fine es \<Longrightarrow> granted k (claim_run step es s) \<le> 1 + freed k (claim_run step es s)"
  using grants_le [of s es k] by (auto split: if_splits)

end

end
