(* ===== verification/Idempotency.thy ===== *)
theory Idempotency
  imports Claim_Spec
begin

text \<open>
  The idempotency store of \<open>backend/staff/idempotency.py\<close> and the handler of
  \<open>backend/routers/staff_v1.py\<close> that runs a mutating request under a key. The table is keyed by key,
  endpoint and principal. Instants are numbers of seconds, where the store compares ISO texts; operation
  identifiers and clock readings are arguments, as is the hash of a payload.
\<close>

section \<open>State\<close>

type_synonym idem_ident = "string \<times> string \<times> string"

record idem_response =
  ir_status_code :: int
  ir_headers :: "(string, string) dict"
  ir_body :: string
  ir_created_at :: seconds
  ir_expires_at :: seconds

text \<open>The lease of a row that a receipt created is the empty text, before every instant: \<open>None\<close>.\<close>

record idem_row =
  ik_ident :: idem_ident
  ik_response :: idem_response
  ik_done :: bool
  ik_payload_hash :: string
  ik_operation_id :: string
  ik_lease_expires_at :: "seconds option"

datatype reservation =
    Acquired string bool
  | Replay string idem_response
  | InProgress string
  | Mismatch string
  | UnknownOutcome string

definition default_ttl :: seconds where
  "default_ttl = 24 * 3600"

definition default_lease_seconds :: seconds where
  "default_lease_seconds = 600"

section \<open>Operations\<close>

definition idem_reserve ::
    "idem_ident \<Rightarrow> string \<Rightarrow> seconds \<Rightarrow> seconds \<Rightarrow> seconds \<Rightarrow> bool \<Rightarrow> string \<Rightarrow> string \<Rightarrow> idem_row list \<Rightarrow>
     reservation \<times> idem_row list" where
  "idem_reserve ident payload_hash now later lease takeover_safe op op2 rows =
     (let rows = filter (\<lambda>r. \<not> (ik_ident r = ident \<and> ir_expires_at (ik_response r) \<le> now)) rows
      in case row_lookup ik_ident ident rows of
           None \<Rightarrow>
             (Acquired op False,
              rows @ [\<lparr>ik_ident = ident,
                       ik_response = \<lparr>ir_status_code = 0, ir_headers = [], ir_body = [], ir_created_at = now,
                                      ir_expires_at = later + default_ttl\<rparr>,
                       ik_done = False, ik_payload_hash = payload_hash, ik_operation_id = op,
                       ik_lease_expires_at = Some (later + lease)\<rparr>])
         | Some r \<Rightarrow>
             if ik_payload_hash r \<noteq> [] \<and> payload_hash \<noteq> [] \<and> ik_payload_hash r \<noteq> payload_hash
             then (Mismatch (ik_operation_id r), rows)
             else if ik_done r then (Replay (ik_operation_id r) (ik_response r), rows)
             else if (case ik_lease_expires_at r of None \<Rightarrow> False | Some t \<Rightarrow> now < t)
             then (InProgress (ik_operation_id r), rows)
             else if takeover_safe
             then (Acquired op2 True,
                   row_update ik_ident ident (\<lambda>r. r\<lparr>ik_lease_expires_at := Some (later + lease), ik_operation_id := op2\<rparr>) rows)
             else (UnknownOutcome (ik_operation_id r), rows))"

definition clean_headers :: "(string, string) dict \<Rightarrow> (string, string) dict" where
  "clean_headers hs = filter (\<lambda>(k, v). py_lower k \<notin> {''content-length'', ''transfer-encoding''}) hs"

datatype mutation_result = MutationOk | NotOwner | BadOperationId

definition owns :: "idem_ident \<Rightarrow> string \<Rightarrow> idem_row \<Rightarrow> bool" where
  "owns ident op r = (ik_ident r = ident \<and> \<not> ik_done r \<and> ik_operation_id r = op)"

definition idem_complete ::
    "idem_ident \<Rightarrow> int \<Rightarrow> (string, string) dict \<Rightarrow> string \<Rightarrow> seconds option \<Rightarrow> string \<Rightarrow> seconds \<Rightarrow> idem_row list \<Rightarrow>
     mutation_result \<times> idem_row list" where
  "idem_complete ident status headers body ttl_seconds op later rows =
     (if blank op then (BadOperationId, rows)
      else let ttl = (case ttl_seconds of Some t \<Rightarrow> t | None \<Rightarrow> default_ttl)
           in if list_ex (owns ident op) rows
              then (MutationOk, map (\<lambda>r. if owns ident op r
                      then r\<lparr>ik_done := True, ik_response := (ik_response r)\<lparr>ir_status_code := status,
                               ir_headers := clean_headers headers, ir_body := body, ir_expires_at := later + ttl\<rparr>\<rparr>
                      else r) rows)
              else (NotOwner, rows))"

definition idem_release :: "idem_ident \<Rightarrow> string \<Rightarrow> idem_row list \<Rightarrow> mutation_result \<times> idem_row list" where
  "idem_release ident op rows =
     (if blank op then (BadOperationId, rows)
      else if list_ex (owns ident op) rows then (MutationOk, filter (\<lambda>r. \<not> owns ident op r) rows)
      else (NotOwner, rows))"

definition idem_get :: "idem_ident \<Rightarrow> seconds \<Rightarrow> idem_row list \<Rightarrow> idem_response option" where
  "idem_get ident now rows =
     (case row_lookup ik_ident ident rows of
        None \<Rightarrow> None
      | Some r \<Rightarrow> if now < ir_expires_at (ik_response r) \<and> ik_done r then Some (ik_response r) else None)"

definition idem_save ::
    "idem_ident \<Rightarrow> int \<Rightarrow> (string, string) dict \<Rightarrow> string \<Rightarrow> seconds \<Rightarrow> seconds option \<Rightarrow> seconds \<Rightarrow> seconds \<Rightarrow> idem_row list \<Rightarrow>
     idem_response \<times> idem_row list" where
  "idem_save ident status headers body ttl_hours ttl_seconds created later rows =
     (let expires = (case ttl_seconds of Some t \<Rightarrow> later + t | None \<Rightarrow> later + 3600 * ttl_hours);
          resp = \<lparr>ir_status_code = status, ir_headers = clean_headers headers, ir_body = body,
                  ir_created_at = created, ir_expires_at = expires\<rparr>
      in (resp,
          if row_lookup ik_ident ident rows = None
          then rows @ [\<lparr>ik_ident = ident, ik_response = resp, ik_done = True, ik_payload_hash = [],
                        ik_operation_id = [], ik_lease_expires_at = None\<rparr>]
          else row_update ik_ident ident (\<lambda>r. r\<lparr>ik_response := resp, ik_done := True\<rparr>) rows))"

definition idem_purge :: "seconds \<Rightarrow> idem_row list \<Rightarrow> idem_row list" where
  "idem_purge now rows = filter (\<lambda>r. \<not> ir_expires_at (ik_response r) \<le> now) rows"

section \<open>The handler\<close>

text \<open>A request under a key first reserves it: it runs its action (taking a lapsed run over, or not), or is answered
  without running it.\<close>

datatype begun =
    RunAction string bool
  | Answer int "(string, string) dict" string
  | Conflict reservation
  | StoreUnavailable

definition begin_post ::
    "bool \<Rightarrow> idem_ident \<Rightarrow> string \<Rightarrow> seconds \<Rightarrow> seconds \<Rightarrow> bool \<Rightarrow> string \<Rightarrow> string \<Rightarrow> idem_row list \<Rightarrow> begun \<times> idem_row list" where
  "begin_post store_fails ident payload_hash now later takeover_safe op op2 rows =
     (if store_fails then (StoreUnavailable, rows)
      else case idem_reserve ident payload_hash now later default_lease_seconds takeover_safe op op2 rows of
        (Replay opid r, rows1) \<Rightarrow>
          (Answer (ir_status_code r) (AList.update ''Idempotent-Replay'' ''true'' (ir_headers r)) (ir_body r), rows1)
      | (Acquired opid recovered, rows1) \<Rightarrow> (RunAction opid recovered, rows1)
      | (state, rows1) \<Rightarrow> (Conflict state, rows1))"

text \<open>When the action ends, the result is recorded, or the key is freed for a retry. \<open>None\<close> is an action that
  raised; then the exception goes on and no response is built.\<close>

definition finish_post ::
    "bool \<Rightarrow> idem_ident \<Rightarrow> string \<Rightarrow> (int \<times> string) option \<Rightarrow> seconds \<Rightarrow> idem_row list \<Rightarrow>
     (int \<times> (string, string) dict \<times> string) option \<times> idem_row list" where
  "finish_post store_fails ident op result later rows =
     (case result of
        None \<Rightarrow> (None, if store_fails then rows else snd (idem_release ident op rows))
      | Some (status, body) \<Rightarrow>
          let headers = [(''Content-Type'', ''application/json'')];
              unrecorded = headers @ [(''Idempotency-Receipt'', ''unrecorded'')]
          in if store_fails then (Some (status, unrecorded, body), rows)
             else case idem_complete ident status headers body None op later rows of
               (MutationOk, rows1) \<Rightarrow> (Some (status, headers, body), rows1)
             | (NotOwner, rows1) \<Rightarrow> (Some (status, unrecorded, body), rows1)
             | (BadOperationId, rows1) \<Rightarrow> (None, rows1))"

section \<open>A key is claimed once\<close>

text \<open>The route of a request says whether its action may run again after a lapsed reservation (\<open>takeover_safe\<close>).\<close>

datatype post_event =
    Begin bool bool idem_ident string seconds seconds string string
  | Finish bool idem_ident string "(int \<times> string) option" seconds
  | Purge seconds

fun post_step :: "post_event \<Rightarrow> idem_row list \<Rightarrow> idem_ident claim_effect \<times> idem_row list" where
  "post_step (Begin fails safe ident payload_hash now later op op2) rows =
     (case begin_post fails ident payload_hash now later safe op op2 rows of
        (RunAction opid recovered, rows1) \<Rightarrow> (if recovered then Passed ident else Granted ident, rows1)
      | (b, rows1) \<Rightarrow> (Neither, rows1))"
| "post_step (Finish fails ident op result later) rows =
     (if result = None \<and> \<not> fails \<and> fst (idem_release ident op rows) = MutationOk then Freed ident else Neither,
      snd (finish_post fails ident op result later rows))"
| "post_step (Purge now) rows = (Neither, idem_purge now rows)"

text \<open>The events before the instant \<open>T\<close> at which the first receipt may expire.\<close>

fun before_expiry :: "seconds \<Rightarrow> post_event \<Rightarrow> bool" where
  "before_expiry T (Begin fails safe ident payload_hash now later op op2) = (now < T \<and> T \<le> later + default_ttl)"
| "before_expiry T (Finish fails ident op result later) = (T \<le> later + default_ttl)"
| "before_expiry T (Purge now) = (now < T)"

definition claimed :: "seconds \<Rightarrow> idem_row list \<Rightarrow> idem_ident \<Rightarrow> bool" where
  "claimed T rows ident = (case row_lookup ik_ident ident rows of
     None \<Rightarrow> False | Some r \<Rightarrow> T \<le> ir_expires_at (ik_response r))"

lemma claimed_filter:
  "keyed ik_ident rows \<Longrightarrow> claimed T (filter P rows) k \<longleftrightarrow>
     (\<exists>r. row_lookup ik_ident k rows = Some r \<and> P r \<and> T \<le> ir_expires_at (ik_response r))"
  by (auto simp: claimed_def table_simps split: option.splits)

lemma owns_ident: "owns ident op r \<Longrightarrow> ik_ident r = ident"
  by (simp add: owns_def)

lemma idem_reserve_spec:
  assumes "keyed ik_ident rows" and "idem_reserve ident h now later lease safe op op2 rows = (res, rows')"
  shows "keyed ik_ident rows'"
    and "res = Acquired opid False \<Longrightarrow> now < T \<Longrightarrow> \<not> claimed T rows ident"
    and "res = Acquired opid False \<Longrightarrow> T \<le> later + default_ttl \<Longrightarrow> claimed T rows' ident"
    and "claimed T rows k \<Longrightarrow> now < T \<Longrightarrow> claimed T rows' k"
proof -
  let ?live = "filter (\<lambda>r. \<not> (ik_ident r = ident \<and> ir_expires_at (ik_response r) \<le> now)) rows"
  have k: "keyed ik_ident ?live" using assms(1) by (rule keyed_filter)
  have lu: "row_lookup ik_ident j ?live = (case row_lookup ik_ident j rows of None \<Rightarrow> None
      | Some r \<Rightarrow> if \<not> (ik_ident r = ident \<and> ir_expires_at (ik_response r) \<le> now) then Some r else None)" for j
    using assms(1) by (rule row_lookup_filter)
  show "keyed ik_ident rows'"
    using assms(2) k by (auto simp: idem_reserve_def Let_def split: option.splits if_splits
        intro!: keyed_append1 keyed_update)
  show "res = Acquired opid False \<Longrightarrow> now < T \<Longrightarrow> \<not> claimed T rows ident"
    using assms(2) lu [of ident]
    by (auto simp: idem_reserve_def Let_def claimed_def split: option.splits if_splits dest!: row_lookup_SomeD)
  show "res = Acquired opid False \<Longrightarrow> T \<le> later + default_ttl \<Longrightarrow> claimed T rows' ident"
    using assms(2) by (auto simp: idem_reserve_def Let_def claimed_def table_simps split: option.splits if_splits)
  show "claimed T rows k \<Longrightarrow> now < T \<Longrightarrow> claimed T rows' k"
    using assms(2) lu [of k]
    by (auto simp: idem_reserve_def Let_def claimed_def table_simps split: option.splits if_splits)
qed

lemma finish_post_spec:
  assumes "keyed ik_ident rows"
  shows "keyed ik_ident (snd (finish_post fails ident op result later rows))"
    and "claimed T rows k \<Longrightarrow> T \<le> later + default_ttl \<Longrightarrow>
      \<not> (k = ident \<and> result = None \<and> \<not> fails \<and> fst (idem_release ident op rows) = MutationOk) \<Longrightarrow>
      claimed T (snd (finish_post fails ident op result later rows)) k"
proof -
  show "keyed ik_ident (snd (finish_post fails ident op result later rows))"
    using assms by (auto simp: finish_post_def idem_release_def idem_complete_def Let_def split: option.split
        intro!: keyed_filter keyed_map)
  show "claimed T rows k \<Longrightarrow> T \<le> later + default_ttl \<Longrightarrow>
      \<not> (k = ident \<and> result = None \<and> \<not> fails \<and> fst (idem_release ident op rows) = MutationOk) \<Longrightarrow>
      claimed T (snd (finish_post fails ident op result later rows)) k"
    using assms by (auto simp: finish_post_def idem_release_def idem_complete_def Let_def claimed_def
        row_lookup_filter row_lookup_map owns_def split: option.splits dest: row_lookup_SomeD)
qed

lemma post_step_begin:
  assumes "idem_reserve ident h now later default_lease_seconds safe op op2 rows = (res, rows')"
  shows "post_step (Begin fails safe ident h now later op op2) rows = (if fails then (Neither, rows)
        else (case res of Acquired opid b \<Rightarrow> if b then Passed ident else Granted ident | _ \<Rightarrow> Neither, rows'))"
  by (cases res) (simp_all add: begin_post_def assms)

interpretation posts: claim_table "keyed ik_ident" "claimed T" "before_expiry T" post_step for T
proof
  fix rows :: "idem_row list" and e :: post_event and k :: idem_ident
  assume i: "keyed ik_ident rows" and f: "before_expiry T e"
  have "keyed ik_ident (snd (post_step e rows)) \<and>
      (fst (post_step e rows) = Granted k \<longrightarrow> \<not> claimed T rows k \<and> claimed T (snd (post_step e rows)) k) \<and>
      (claimed T rows k \<longrightarrow> fst (post_step e rows) \<noteq> Freed k \<longrightarrow> claimed T (snd (post_step e rows)) k)"
  proof (cases e)
    case (Begin fails safe ident h now later op op2)
    obtain res rows' where r: "idem_reserve ident h now later default_lease_seconds safe op op2 rows = (res, rows')"
      by (metis prod.exhaust)
    have t: "now < T" "T \<le> later + default_ttl" using f by (simp_all add: Begin)
    from idem_reserve_spec [OF i r] t i show ?thesis
      by (cases res) (auto simp: Begin post_step_begin [OF r] simp del: post_step.simps)
  next
    case (Finish fails ident op result later)
    with finish_post_spec [OF i] f show ?thesis by (auto split: if_splits)
  next
    case (Purge now)
    with f i show ?thesis by (auto simp: idem_purge_def claimed_def keyed_filter row_lookup_filter [OF i] split: option.splits)
  qed
  then show "keyed ik_ident (snd (post_step e rows))"
    and "fst (post_step e rows) = Granted k \<Longrightarrow> \<not> claimed T rows k"
    and "fst (post_step e rows) = Granted k \<Longrightarrow> claimed T (snd (post_step e rows)) k"
    and "claimed T rows k \<Longrightarrow> fst (post_step e rows) \<noteq> Freed k \<Longrightarrow> claimed T (snd (post_step e rows)) k"
    by blast+
qed

text \<open>A run under a key holds its reservation for the lease: until another run of the key begins, its row, if it is
  still there and without a result, bears the end of that lease.\<close>

definition lease_of_run :: "idem_ident \<Rightarrow> seconds \<Rightarrow> idem_row list \<Rightarrow> bool" where
  "lease_of_run ident t rows = (case row_lookup ik_ident ident rows of
     None \<Rightarrow> True | Some r \<Rightarrow> ik_done r \<or> ik_lease_expires_at r = Some (t + default_lease_seconds))"

lemma post_step_keyed: "keyed ik_ident rows \<Longrightarrow> keyed ik_ident (snd (post_step e rows))"
proof (cases e)
  case (Begin fails safe ident h now later op op2)
  assume k: "keyed ik_ident rows"
  obtain res rows' where r: "idem_reserve ident h now later default_lease_seconds safe op op2 rows = (res, rows')"
    by (metis prod.exhaust)
  with idem_reserve_spec(1) [OF k r] k show ?thesis by (cases res) (simp_all add: Begin begin_post_def)
qed (simp_all add: finish_post_spec idem_purge_def keyed_filter)

lemma reserve_lease:
  assumes "keyed ik_ident rows" and "idem_reserve ident h now later default_lease_seconds safe op op2 rows = (res, rows')"
  shows "res = Acquired opid b \<Longrightarrow> lease_of_run ident later rows'"
    and "(\<And>opid b. res \<noteq> Acquired opid b) \<Longrightarrow> lease_of_run k t rows \<Longrightarrow> lease_of_run k t rows'"
    and "k \<noteq> ident \<Longrightarrow> lease_of_run k t rows \<Longrightarrow> lease_of_run k t rows'"
proof -
  define live where "live = filter (\<lambda>r. \<not> (ik_ident r = ident \<and> ir_expires_at (ik_response r) \<le> now)) rows"
  have live: "row_lookup ik_ident j live = None \<or> row_lookup ik_ident j live = row_lookup ik_ident j rows" for j
    unfolding live_def row_lookup_filter [OF assms(1)] by (simp split: option.split)
  have other: "row_lookup ik_ident j live = row_lookup ik_ident j rows" if "j \<noteq> ident" for j
    unfolding live_def row_lookup_filter [OF assms(1)] using that by (auto split: option.split dest: row_lookup_SomeD)
  note res = assms(2) [unfolded idem_reserve_def Let_def live_def [symmetric]]
  show "res = Acquired opid b \<Longrightarrow> lease_of_run ident later rows'"
    using res by (auto simp: lease_of_run_def table_simps split: option.splits if_splits)
  show "(\<And>opid b. res \<noteq> Acquired opid b) \<Longrightarrow> lease_of_run k t rows \<Longrightarrow> lease_of_run k t rows'"
    using res live [of k] by (auto simp: lease_of_run_def split: option.splits if_splits)
  show "k \<noteq> ident \<Longrightarrow> lease_of_run k t rows \<Longrightarrow> lease_of_run k t rows'"
    using res other [of k] by (auto simp: lease_of_run_def table_simps split: option.splits if_splits)
qed

lemma run_takes_lease:
  assumes "keyed ik_ident rows" and "fst (post_step (Begin fails safe ident h now later op op2) rows) \<in> {Granted ident, Passed ident}"
  shows "lease_of_run ident later (snd (post_step (Begin fails safe ident h now later op op2) rows))"
proof -
  obtain res rows' where r: "idem_reserve ident h now later default_lease_seconds safe op op2 rows = (res, rows')"
    by (metis prod.exhaust)
  show ?thesis using assms(2) reserve_lease(1) [OF assms(1) r]
    by (auto simp: post_step_begin [OF r] simp del: post_step.simps split: if_splits reservation.splits)
qed

lemma lease_kept:
  assumes "keyed ik_ident rows" and "lease_of_run ident t rows"
    and "fst (post_step e rows) \<notin> {Granted ident, Passed ident}"
  shows "lease_of_run ident t (snd (post_step e rows))"
proof (cases e)
  case (Begin fails safe i h now later op op2)
  obtain res rows' where r: "idem_reserve i h now later default_lease_seconds safe op op2 rows = (res, rows')"
    by (metis prod.exhaust)
  show ?thesis using assms(2,3) reserve_lease(2,3) [OF assms(1) r, of ident t]
    by (auto simp: Begin post_step_begin [OF r] simp del: post_step.simps split: if_splits reservation.splits)
next
  case (Finish fails i op result later)
  show ?thesis using assms
    by (auto simp: Finish finish_post_def idem_release_def idem_complete_def Let_def lease_of_run_def
        row_lookup_filter row_lookup_map owns_def split: option.splits dest: row_lookup_SomeD)
next
  case (Purge now)
  show ?thesis using assms
    by (auto simp: Purge idem_purge_def lease_of_run_def row_lookup_filter split: option.splits)
qed

lemma takeover_lapsed:
  assumes "keyed ik_ident rows" and "lease_of_run ident t rows"
    and "fst (post_step (Begin fails safe ident h now later op op2) rows) = Passed ident"
  shows "safe" and "t + default_lease_seconds \<le> now"
  using assms
  by (auto simp: begin_post_def idem_reserve_def Let_def lease_of_run_def row_lookup_filter
      split: option.splits if_splits)

text \<open>Every takeover of the key is on a route that allows it and comes after the lease of the run before it, which
  began at \<open>last_run\<close> (\<open>None\<close>: not among these events).\<close>

fun takeovers_lapsed :: "idem_ident \<Rightarrow> seconds option \<Rightarrow> post_event list \<Rightarrow> idem_row list \<Rightarrow> bool" where
  "takeovers_lapsed ident last_run [] rows = True"
| "takeovers_lapsed ident last_run (Begin fails safe i h now later op op2 # es) rows =
     (case post_step (Begin fails safe i h now later op op2) rows of (f, rows1) \<Rightarrow>
        (f = Passed ident \<longrightarrow> safe \<and> (case last_run of None \<Rightarrow> True | Some t \<Rightarrow> t + default_lease_seconds \<le> now)) \<and>
        takeovers_lapsed ident (if f \<in> {Granted ident, Passed ident} then Some later else last_run) es rows1)"
| "takeovers_lapsed ident last_run (e # es) rows = takeovers_lapsed ident last_run es (snd (post_step e rows))"

lemma takeover_safe_only: "fst (post_step (Begin fails safe i h now later op op2) rows) = Passed ident \<Longrightarrow> safe \<and> i = ident"
  by (auto simp: begin_post_def idem_reserve_def Let_def split: option.splits if_splits)

lemma grant_own: "fst (post_step (Begin fails safe i h now later op op2) rows) = Granted ident \<Longrightarrow> i = ident"
  by (auto simp: begin_post_def idem_reserve_def Let_def split: option.splits if_splits)

lemma takeovers_lapsed_run:
  "keyed ik_ident rows \<Longrightarrow> (\<And>t. last_run = Some t \<Longrightarrow> lease_of_run ident t rows) \<Longrightarrow> takeovers_lapsed ident last_run es rows"
proof (induction es arbitrary: last_run rows)
  case Nil
  then show ?case by simp
next
  case (Cons e es)
  let ?rows1 = "snd (post_step e rows)"
  have k: "keyed ik_ident ?rows1" using Cons.prems(1) by (rule post_step_keyed)
  have kept: "lease_of_run ident t ?rows1" if "last_run = Some t" "fst (post_step e rows) \<notin> {Granted ident, Passed ident}" for t
    using lease_kept Cons.prems that by blast
  show ?case
  proof (cases e)
    case (Begin fails safe i h now later op op2)
    have late: "safe \<and> (case last_run of None \<Rightarrow> True | Some t \<Rightarrow> t + default_lease_seconds \<le> now)"
      if "fst (post_step e rows) = Passed ident"
      using that Cons.prems takeover_safe_only [of fails safe i h now later op op2 rows ident]
        takeover_lapsed [of rows ident _ fails safe h now later op op2]
      by (auto simp: Begin split: option.split)
    have lease: "lease_of_run ident later ?rows1" if "fst (post_step e rows) \<in> {Granted ident, Passed ident}"
      using that run_takes_lease [OF Cons.prems(1), of fails safe ident h now later op op2]
        takeover_safe_only [of fails safe i h now later op op2 rows ident] grant_own [of fails safe i h now later op op2 rows ident]
      by (auto simp: Begin)
    have "takeovers_lapsed ident (if fst (post_step e rows) \<in> {Granted ident, Passed ident} then Some later else last_run) es ?rows1"
      using lease kept by (intro Cons.IH [OF k]) (auto split: if_splits)
    with late show ?thesis
      unfolding Begin takeovers_lapsed.simps(2) by (simp only: case_prod_beta) blast
  next
    case (Finish fails i op result later)
    have "fst (post_step e rows) \<notin> {Granted ident, Passed ident}" by (simp add: Finish)
    with kept show ?thesis using Cons.IH [OF k] by (simp add: Finish)
  next
    case (Purge now)
    with kept show ?thesis using Cons.IH [OF k] by (simp add: Purge)
  qed
qed

text \<open>C12: In any interleaving of the requests, completions, failures of the store and purges, until the first receipt
  expires: the action of a mutating request is started on a fresh reservation of its key at most once, plus once for
  every run that raised and freed the key; every other run of it takes over a reservation on a route that allows that,
  and begins no earlier than the lease of 600 seconds after the run before it.\<close>

theorem key_runs_once:
  assumes "keyed ik_ident rows" and "list_all (before_expiry T) es"
  shows "granted ident (claim_run post_step es rows) \<le> 1 + freed ident (claim_run post_step es rows) \<and>
    takeovers_lapsed ident None es rows"
  using posts.once_unless_freed [OF assms] takeovers_lapsed_run [OF assms(1)] by blast

definition ident1 :: idem_ident where
  "ident1 = (''k1'', ''/runs'', ''human:1'')"

definition two_posts :: "post_event list" where
  "two_posts = [Begin False True ident1 ''h'' 0 0 ''op-1'' ''op-2'', Begin False True ident1 ''h'' 1 1 ''op-3'' ''op-4'',
     Begin False True ident1 ''h'' 700 700 ''op-5'' ''op-6'', Finish False ident1 ''op-1'' (Some (201, ''{}'')) 710,
     Finish False ident1 ''op-6'' (Some (201, ''{}'')) 720, Begin False True ident1 ''h'' 1400 1400 ''op-7'' ''op-8'']"

theorem key_runs_once_witness:
  "(granted ident1 (claim_run post_step two_posts []) \<le> 1 + freed ident1 (claim_run post_step two_posts []) \<and>
    takeovers_lapsed ident1 None two_posts []) \<and>
   claim_run post_step two_posts [] = [Granted ident1, Neither, Passed ident1, Neither, Neither, Neither]"
proof
  show "granted ident1 (claim_run post_step two_posts []) \<le> 1 + freed ident1 (claim_run post_step two_posts []) \<and>
    takeovers_lapsed ident1 None two_posts []"
    by (rule key_runs_once [of _ 86400]) (simp_all add: keyed_def two_posts_def default_ttl_def)
qed code_simp

lemma complete_records:
  assumes "keyed ik_ident rows" and "finish_post False ident op (Some (status, body)) later rows = (resp, rows')"
    and "resp = Some (status, [(''Content-Type'', ''application/json'')], body)"
  obtains r where "row_lookup ik_ident ident rows' = Some r" "ik_done r"
    "ik_response r = \<lparr>ir_status_code = status, ir_headers = [(''Content-Type'', ''application/json'')], ir_body = body,
       ir_created_at = ir_created_at (ik_response r), ir_expires_at = later + default_ttl\<rparr>"
    "\<exists>r0. row_lookup ik_ident ident rows = Some r0 \<and> ik_payload_hash r = ik_payload_hash r0"
proof -
  define f where "f = (\<lambda>r. if owns ident op r
      then r\<lparr>ik_done := True, ik_response := (ik_response r)\<lparr>ir_status_code := status,
        ir_headers := clean_headers [(''Content-Type'', ''application/json'')], ir_body := body, ir_expires_at := later + default_ttl\<rparr>\<rparr>
      else r)"
  have own: "list_ex (owns ident op) rows" and rows': "rows' = map f rows"
    using assms(2,3) by (auto simp: finish_post_def idem_complete_def Let_def f_def split: if_splits)
  from own obtain r0 where r0: "r0 \<in> set rows" "owns ident op r0" by (auto simp: list_ex_iff)
  then have lu: "row_lookup ik_ident ident rows = Some r0"
    using assms(1) by (simp add: row_lookup_Some_iff owns_def)
  have "clean_headers [(''Content-Type'', ''application/json'')] = [(''Content-Type'', ''application/json'')]"
    by (simp add: clean_headers_def py_lower_def py_lower_char_def)
  with lu r0 show ?thesis by (intro that [of "f r0"]) (simp_all add: rows' row_lookup_map f_def)
qed

text \<open>Once a run has recorded its result, a later request under its key and payload is answered with that
  result and runs nothing.\<close>

theorem recorded_result_replayed:
  assumes "keyed ik_ident rows" and "finish_post False ident op (Some (status, body)) later rows = (resp, rows')"
    and "resp = Some (status, [(''Content-Type'', ''application/json'')], body)"
    and "row_lookup ik_ident ident rows = Some r0" and "h = ik_payload_hash r0" and "now < later + default_ttl"
  shows "begin_post False ident h now t takeover_safe op1 op2 rows' =
    (Answer status [(''Content-Type'', ''application/json''), (''Idempotent-Replay'', ''true'')] body, rows')"
proof -
  obtain r where r: "row_lookup ik_ident ident rows' = Some r" "ik_done r" "ik_payload_hash r = h"
    "ik_response r = \<lparr>ir_status_code = status, ir_headers = [(''Content-Type'', ''application/json'')], ir_body = body,
       ir_created_at = ir_created_at (ik_response r), ir_expires_at = later + default_ttl\<rparr>"
    using complete_records [OF assms(1-3)] assms(4,5) by (metis option.inject)
  have keyed': "keyed ik_ident rows'"
    using finish_post_spec(1) [OF assms(1)] assms(2) by (metis snd_conv)
  have live: "\<not> ir_expires_at (ik_response r) \<le> now" using assms(6) r(4) by (metis idem_response.select_convs(5) not_le)
  have "filter (\<lambda>x. \<not> (ik_ident x = ident \<and> ir_expires_at (ik_response x) \<le> now)) rows' = rows'"
    using keyed' r(1) live by (intro filter_True) (metis row_lookup_Some_iff option.inject)
  with r live show ?thesis by (cases "ik_response r") (simp add: begin_post_def idem_reserve_def)
qed

theorem recorded_result_replayed_witness:
  "begin_post False ident1 ''h'' 9 9 False ''op-8'' ''op-9''
     (snd (finish_post False ident1 ''op-1'' (Some (201, ''{}'')) 5
       (snd (begin_post False ident1 ''h'' 0 0 False ''op-1'' ''op-2'' []))))
   = (Answer 201 [(''Content-Type'', ''application/json''), (''Idempotent-Replay'', ''true'')] ''{}'',
      snd (finish_post False ident1 ''op-1'' (Some (201, ''{}'')) 5
       (snd (begin_post False ident1 ''h'' 0 0 False ''op-1'' ''op-2'' []))))"
proof -
  have "\<not> blank ''op-1''" by code_simp
  then show ?thesis
    by (intro recorded_result_replayed [OF _ prod.collapse [symmetric]], simp_all add: begin_post_def
        idem_reserve_def keyed_def finish_post_def idem_complete_def owns_def default_ttl_def Let_def, simp_all)
qed

end
