(* ===== verification/Load_Spec.thy ===== *)
theory Load_Spec
  imports Prelude
begin

text \<open>
  The contract of a store that holds a load under a cap: an operation keeps the invariant and takes the load
  at most to the cap, or leaves it no higher than it was. The arm cap and the replay store provide it.
\<close>

locale capped_load =
  fixes inv :: "'s \<Rightarrow> bool"
    and load :: "'s \<Rightarrow> nat"
    and cap :: nat
    and step :: "'e \<Rightarrow> 's \<Rightarrow> 's"
  assumes step_inv: "inv s \<Longrightarrow> inv (step e s)"
    and step_load: "inv s \<Longrightarrow> load (step e s) \<le> max cap (load s)"
begin

lemma run_inv: "inv s \<Longrightarrow> inv (fold step es s)"
  by (induction es arbitrary: s) (simp_all add: step_inv)

lemma run_load: "inv s \<Longrightarrow> load (fold step es s) \<le> max cap (load s)"
proof (induction es arbitrary: s)
  case (Cons e es)
  then have "load (fold step es (step e s)) \<le> max cap (load (step e s))" by (simp add: step_inv)
  with step_load [OF Cons.prems, of e] show ?case by simp
qed simp

lemma run_capped: "inv s \<Longrightarrow> load s \<le> cap \<Longrightarrow> load (fold step es s) \<le> cap"
  using run_load [of s es] by simp

end

end
