(* ===== verification/Replay_Store.thy ===== *)
theory Replay_Store
  imports Claim_Spec Load_Spec "HOL-Library.Multiset"
begin

text \<open>
  The replay store of \<open>backend/replay_store.py\<close>: identifiers with an expiry, capped in number. A claim on a
  live identifier fails; the cap evicts the entries that expire first. Instants are numbers of seconds. The
  retries of a busy database are left out: they repeat one statement until it runs.
\<close>

record replay_store =
  rp_ttl :: seconds
  rp_max_entries :: int
  rp_processed :: "(string \<times> seconds) list"

definition is_replay :: "seconds \<Rightarrow> string \<Rightarrow> replay_store \<Rightarrow> bool" where
  "is_replay now eid st = (case row_lookup fst eid (rp_processed st) of None \<Rightarrow> False | Some r \<Rightarrow> now < snd r)"

definition evict_if_needed :: "replay_store \<Rightarrow> replay_store" where
  "evict_if_needed st =
     (let count = int (length (rp_processed st))
      in if count \<le> rp_max_entries st then st
         else let oldest = take (nat (count - rp_max_entries st)) (sort_key snd (rp_processed st))
              in st\<lparr>rp_processed := filter (\<lambda>r. fst r \<notin> set (map fst oldest)) (rp_processed st)\<rparr>)"

definition record_envelope :: "seconds \<Rightarrow> string \<Rightarrow> replay_store \<Rightarrow> replay_store" where
  "record_envelope now eid st =
     (let rows = (if row_lookup fst eid (rp_processed st) = None then rp_processed st @ [(eid, now + rp_ttl st)]
                  else row_update fst eid (\<lambda>r. (eid, now + rp_ttl st)) (rp_processed st))
      in evict_if_needed (st\<lparr>rp_processed := rows\<rparr>))"

definition purge_processed :: "seconds \<Rightarrow> replay_store \<Rightarrow> replay_store" where
  "purge_processed now st = st\<lparr>rp_processed := filter (\<lambda>r. \<not> snd r \<le> now) (rp_processed st)\<rparr>"

text \<open>\<open>None\<close> is the refusal of a blank identifier.\<close>

definition claim_once :: "seconds \<Rightarrow> string \<Rightarrow> replay_store \<Rightarrow> bool option \<times> replay_store" where
  "claim_once now eid st =
     (if blank eid then (None, st)
      else let st1 = purge_processed now st
           in if row_lookup fst eid (rp_processed st1) = None
              then (Some True, evict_if_needed (st1\<lparr>rp_processed := rp_processed st1 @ [(eid, now + rp_ttl st1)]\<rparr>))
              else (Some False, st1))"

text \<open>The entries of a legacy file; one whose expiry is not a number is \<open>None\<close>.\<close>

definition migrate_json :: "seconds \<Rightarrow> (string \<times> seconds option) list \<Rightarrow> replay_store \<Rightarrow> nat \<times> replay_store" where
  "migrate_json now entries st =
     fold (\<lambda>(eid, e) (n, s). case e of
         None \<Rightarrow> (n, s)
       | Some t \<Rightarrow> if now < t
           then (n + 1, if row_lookup fst eid (rp_processed s) = None
                        then s\<lparr>rp_processed := rp_processed s @ [(eid, t)]\<rparr> else s)
           else (n, s)) entries (0, st)"

section \<open>The size cap\<close>

lemma evict_bound:
  assumes "keyed fst (rp_processed st)" and "0 \<le> rp_max_entries st"
  shows "int (length (rp_processed (evict_if_needed st))) \<le> rp_max_entries st"
proof (cases "int (length (rp_processed st)) \<le> rp_max_entries st")
  case True
  then show ?thesis by (simp add: evict_if_needed_def)
next
  case False
  let ?rows = "rp_processed st"
  define n where "n = nat (int (length ?rows) - rp_max_entries st)"
  let ?old = "take n (sort_key snd ?rows)"
  have d: "distinct (map fst (sort_key snd ?rows))"
  proof -
    have "mset (map fst (sort_key snd ?rows)) = mset (map fst ?rows)" by simp
    then show ?thesis using assms(1) by (metis keyed_def mset_eq_imp_distinct_iff)
  qed
  have keep: "filter (\<lambda>r. fst r \<notin> set (map fst ?old)) ?rows = filter (\<lambda>r. r \<notin> set ?old) ?rows"
  proof (rule filter_cong [OF refl])
    fix r assume r: "r \<in> set ?rows"
    have sub: "set ?old \<subseteq> set ?rows" by (metis set_sort set_take_subset)
    have "inj_on fst (set ?rows)" using assms(1) by (simp add: keyed_def distinct_map)
    with r sub show "(fst r \<notin> set (map fst ?old)) = (r \<notin> set ?old)" by (auto simp: inj_on_def)
  qed
  have "length (filter (\<lambda>r. r \<notin> set ?old) ?rows) = card (set ?rows - set ?old)"
  proof -
    have "distinct ?rows" using assms(1) by (simp add: keyed_def distinct_map)
    then have "length (filter (\<lambda>r. r \<notin> set ?old) ?rows) = card (set (filter (\<lambda>r. r \<notin> set ?old) ?rows))"
      by (metis distinct_card distinct_filter)
    also have "set (filter (\<lambda>r. r \<notin> set ?old) ?rows) = set ?rows - set ?old" by auto
    finally show ?thesis .
  qed
  also have "\<dots> = card (set ?rows) - card (set ?old)"
    by (intro card_Diff_subset) (auto intro: finite_subset dest: in_set_takeD)
  also have "\<dots> = length ?rows - min n (length ?rows)"
  proof -
    have "distinct ?rows" using assms(1) by (simp add: keyed_def distinct_map)
    moreover have "distinct ?old" using d by (simp add: distinct_map distinct_take)
    ultimately show ?thesis by (simp add: distinct_card)
  qed
  finally have "length (filter (\<lambda>r. r \<notin> set ?old) ?rows) = length ?rows - min n (length ?rows)" .
  moreover have "rp_processed (evict_if_needed st) = filter (\<lambda>r. r \<notin> set ?old) ?rows"
    using False keep by (simp add: evict_if_needed_def Let_def n_def)
  moreover have "int n = int (length ?rows) - rp_max_entries st" using False by (simp add: n_def)
  ultimately show ?thesis using assms(2) by simp
qed

section \<open>An identifier is claimed once\<close>

datatype envelope_event = Claim string seconds | Record string seconds | Sweep seconds

fun envelope_step :: "envelope_event \<Rightarrow> replay_store \<Rightarrow> string claim_effect \<times> replay_store" where
  "envelope_step (Claim eid now) st =
     (let (res, st1) = claim_once now eid st in (if res = Some True then Granted eid else Neither, st1))"
| "envelope_step (Record eid now) st = (Neither, record_envelope now eid st)"
| "envelope_step (Sweep now) st = (Neither, purge_processed now st)"

text \<open>The events on the identifiers \<open>U\<close> before the instant \<open>T\<close> at which the first entry may expire.\<close>

fun envelope_fine :: "string list \<Rightarrow> seconds \<Rightarrow> seconds \<Rightarrow> envelope_event \<Rightarrow> bool" where
  "envelope_fine U ttl T (Claim eid now) = (eid \<in> set U \<and> now < T \<and> T \<le> now + ttl)"
| "envelope_fine U ttl T (Record eid now) = (eid \<in> set U \<and> T \<le> now + ttl)"
| "envelope_fine U ttl T (Sweep now) = (now < T)"

definition envelope_taken :: "seconds \<Rightarrow> replay_store \<Rightarrow> string \<Rightarrow> bool" where
  "envelope_taken T st eid = (case row_lookup fst eid (rp_processed st) of None \<Rightarrow> False | Some r \<Rightarrow> T \<le> snd r)"

text \<open>The entries are among \<open>U\<close>, and \<open>U\<close> fits under the cap.\<close>

definition envelope_inv :: "string list \<Rightarrow> seconds \<Rightarrow> replay_store \<Rightarrow> bool" where
  "envelope_inv U ttl st = (keyed fst (rp_processed st) \<and> fst ` set (rp_processed st) \<subseteq> set U \<and>
     rp_ttl st = ttl \<and> int (length U) \<le> rp_max_entries st)"

lemma no_eviction:
  assumes "envelope_inv U ttl st"
  shows "evict_if_needed st = st"
proof -
  have "length (rp_processed st) = card (fst ` set (rp_processed st))"
    using assms by (metis distinct_card envelope_inv_def keyed_def length_map set_map)
  also have "\<dots> \<le> card (set U)" using assms by (intro card_mono) (auto simp: envelope_inv_def)
  also have "\<dots> \<le> length U" by (rule card_length)
  finally show ?thesis using assms by (simp add: evict_if_needed_def envelope_inv_def)
qed

lemma claim_once_eq:
  assumes "envelope_inv U ttl st" and "eid \<in> set U" and "\<not> blank eid"
    and "live = filter (\<lambda>r. \<not> snd r \<le> now) (rp_processed st)"
  shows "claim_once now eid st = (if row_lookup fst eid live = None
      then (Some True, st\<lparr>rp_processed := live @ [(eid, now + ttl)]\<rparr>) else (Some False, st\<lparr>rp_processed := live\<rparr>))"
    and "envelope_inv U ttl (snd (claim_once now eid st))"
proof -
  have ttl: "rp_ttl st = ttl" and live: "envelope_inv U ttl (st\<lparr>rp_processed := live\<rparr>)"
    using assms(1,4) by (auto simp: envelope_inv_def keyed_filter)
  then have new: "row_lookup fst eid live = None \<Longrightarrow> envelope_inv U ttl (st\<lparr>rp_processed := live @ [(eid, now + ttl)]\<rparr>)"
    using assms(2) keyed_append1 [of fst live "(eid, now + ttl)"] by (simp add: envelope_inv_def)
  show eq: "claim_once now eid st = (if row_lookup fst eid live = None
      then (Some True, st\<lparr>rp_processed := live @ [(eid, now + ttl)]\<rparr>) else (Some False, st\<lparr>rp_processed := live\<rparr>))"
    using assms(3) no_eviction [OF new]
    by (simp add: claim_once_def Let_def purge_processed_def assms(4) [symmetric] ttl)
  show "envelope_inv U ttl (snd (claim_once now eid st))" using live new by (simp add: eq)
qed

lemma claim_once_inv:
  assumes "envelope_inv U ttl st" and "eid \<in> set U"
  shows "envelope_inv U ttl (snd (claim_once now eid st))"
  using claim_once_eq(2) [OF assms _ refl] assms(1) by (cases "blank eid") (simp_all add: claim_once_def)

lemma claim_once_spec:
  assumes "envelope_inv U ttl st" and "eid \<in> set U"
  shows "fst (claim_once now eid st) = Some True \<Longrightarrow> now < T \<Longrightarrow> \<not> envelope_taken T st eid"
    and "fst (claim_once now eid st) = Some True \<Longrightarrow> T \<le> now + ttl \<Longrightarrow> envelope_taken T (snd (claim_once now eid st)) eid"
    and "envelope_taken T st j \<Longrightarrow> now < T \<Longrightarrow> envelope_taken T (snd (claim_once now eid st)) j"
proof -
  let ?live = "filter (\<lambda>r. \<not> snd r \<le> now) (rp_processed st)"
  have k: "keyed fst (rp_processed st)" and ttl: "rp_ttl st = ttl" using assms(1) by (simp_all add: envelope_inv_def)
  have lu: "row_lookup fst j ?live = (case row_lookup fst j (rp_processed st) of None \<Rightarrow> None
      | Some r \<Rightarrow> if \<not> snd r \<le> now then Some r else None)" for j
    using k by (rule row_lookup_filter)
  have new: "\<not> blank eid \<Longrightarrow> row_lookup fst eid ?live = None \<Longrightarrow>
      claim_once now eid st = (Some True, st\<lparr>rp_processed := ?live @ [(eid, now + ttl)]\<rparr>)"
    and old: "\<not> blank eid \<Longrightarrow> row_lookup fst eid ?live \<noteq> None \<Longrightarrow>
      claim_once now eid st = (Some False, st\<lparr>rp_processed := ?live\<rparr>)"
    using claim_once_eq(1) [OF assms _ refl, of now] by simp_all
  have bl: "blank eid \<Longrightarrow> claim_once now eid st = (None, st)" by (simp add: claim_once_def)
  consider "blank eid" | "\<not> blank eid" "row_lookup fst eid ?live = None" | "\<not> blank eid" "row_lookup fst eid ?live \<noteq> None"
    by blast
  note cs = this
  show "fst (claim_once now eid st) = Some True \<Longrightarrow> now < T \<Longrightarrow> \<not> envelope_taken T st eid"
    using cs lu [of eid] by cases (auto simp: bl new old envelope_taken_def split: option.splits if_splits)
  show "fst (claim_once now eid st) = Some True \<Longrightarrow> T \<le> now + ttl \<Longrightarrow> envelope_taken T (snd (claim_once now eid st)) eid"
    using cs by cases (auto simp: bl new old envelope_taken_def row_lookup_append)
  show "envelope_taken T st j \<Longrightarrow> now < T \<Longrightarrow> envelope_taken T (snd (claim_once now eid st)) j"
    using cs lu [of j] by cases (auto simp: bl new old envelope_taken_def row_lookup_append split: option.splits if_splits)
qed

lemma record_envelope_spec:
  assumes "envelope_inv U ttl st" and "eid \<in> set U"
  shows "envelope_inv U ttl (record_envelope now eid st)"
    and "T \<le> now + ttl \<Longrightarrow> envelope_taken T st j \<Longrightarrow> envelope_taken T (record_envelope now eid st) j"
proof -
  define rows where "rows = (if row_lookup fst eid (rp_processed st) = None then rp_processed st @ [(eid, now + rp_ttl st)]
      else row_update fst eid (\<lambda>r. (eid, now + rp_ttl st)) (rp_processed st))"
  have "keyed fst rows"
    using assms(1) by (auto simp: rows_def envelope_inv_def intro!: keyed_append1 keyed_update_key)
  moreover have "fst ` set rows \<subseteq> set U"
    using assms by (auto simp: rows_def envelope_inv_def row_update_def split: if_splits)
  ultimately have inv: "envelope_inv U ttl (st\<lparr>rp_processed := rows\<rparr>)"
    using assms(1) by (simp add: envelope_inv_def)
  then have r: "record_envelope now eid st = st\<lparr>rp_processed := rows\<rparr>"
    by (simp add: record_envelope_def rows_def [symmetric] no_eviction)
  with inv show "envelope_inv U ttl (record_envelope now eid st)" by simp
  show "T \<le> now + ttl \<Longrightarrow> envelope_taken T st j \<Longrightarrow> envelope_taken T (record_envelope now eid st) j"
    using assms(1) by (auto simp: r rows_def envelope_taken_def envelope_inv_def table_simps split: option.splits)
qed

lemma sweep_spec:
  assumes "envelope_inv U ttl st"
  shows "envelope_inv U ttl (purge_processed now st)"
    and "now < T \<Longrightarrow> envelope_taken T st j \<Longrightarrow> envelope_taken T (purge_processed now st) j"
proof -
  show "envelope_inv U ttl (purge_processed now st)"
    using assms by (auto simp: envelope_inv_def purge_processed_def keyed_filter)
  have "keyed fst (rp_processed st)" using assms by (simp add: envelope_inv_def)
  from row_lookup_filter [OF this, of j "\<lambda>r. \<not> snd r \<le> now"]
  show "now < T \<Longrightarrow> envelope_taken T st j \<Longrightarrow> envelope_taken T (purge_processed now st) j"
    by (auto simp: envelope_taken_def purge_processed_def split: option.splits)
qed

interpretation envelopes: claim_table "envelope_inv U ttl" "envelope_taken T" "envelope_fine U ttl T" envelope_step for U ttl T
proof
  fix st :: replay_store and e :: envelope_event and k :: string
  assume i: "envelope_inv U ttl st" and f: "envelope_fine U ttl T e"
  have "envelope_inv U ttl (snd (envelope_step e st)) \<and>
      (fst (envelope_step e st) = Granted k \<longrightarrow> \<not> envelope_taken T st k \<and> envelope_taken T (snd (envelope_step e st)) k) \<and>
      (envelope_taken T st k \<longrightarrow> envelope_taken T (snd (envelope_step e st)) k)"
  proof (cases e)
    case (Claim eid now)
    with claim_once_spec [OF i, of eid] claim_once_inv [OF i, of eid now] f show ?thesis by (auto simp: split_beta Let_def)
  next
    case (Record eid now)
    with record_envelope_spec [OF i, of eid] f show ?thesis by simp
  next
    case (Sweep now)
    with sweep_spec [OF i] f show ?thesis by simp
  qed
  then show "envelope_inv U ttl (snd (envelope_step e st))"
    and "fst (envelope_step e st) = Granted k \<Longrightarrow> \<not> envelope_taken T st k"
    and "fst (envelope_step e st) = Granted k \<Longrightarrow> envelope_taken T (snd (envelope_step e st)) k"
    and "envelope_taken T st k \<Longrightarrow> fst (envelope_step e st) \<noteq> Freed k \<Longrightarrow> envelope_taken T (snd (envelope_step e st)) k"
    by blast+
qed

lemma nothing_freed: "freed eid (claim_run envelope_step es st) = 0"
proof (induction es arbitrary: st)
  case (Cons e es)
  have "fst (envelope_step e st) \<noteq> Freed eid" by (cases e) (auto simp: split_beta Let_def)
  with Cons show ?case by (simp add: freed_def)
qed (simp add: freed_def)

text \<open>While the identifiers in play fit under the store's cap and none has expired, an identifier is
  claimed at most once, in any interleaving of claims, records and sweeps.\<close>

theorem envelope_claimed_once:
  assumes "envelope_inv U ttl st" and "list_all (envelope_fine U ttl T) es"
  shows "granted eid (claim_run envelope_step es st) \<le> 1"
  using envelopes.once_unless_freed [OF assms, of eid] by (simp add: nothing_freed)

theorem envelope_claimed_once_witness:
  "granted ''e1'' (claim_run envelope_step [Claim ''e1'' 10, Claim ''e2'' 11, Sweep 12, Claim ''e1'' 13]
     \<lparr>rp_ttl = 100, rp_max_entries = 2, rp_processed = []\<rparr>) \<le> 1"
  by (rule envelope_claimed_once [of "[''e1'', ''e2'']" 100 _ 20])
    (simp_all add: envelope_inv_def keyed_def)

text \<open>Past the cap the entry that expires first is dropped, though it is live: it can be claimed again.\<close>

lemma evicted_claim_repeats:
  "granted ''a'' (claim_run envelope_step [Claim ''a'' 1, Claim ''b'' 2, Claim ''a'' 3]
     \<lparr>rp_ttl = 100, rp_max_entries = 1, rp_processed = []\<rparr>) = 2"
proof -
  have "\<not> blank ''a''" "\<not> blank ''b''" by (code_simp, code_simp)
  then show ?thesis
    by (simp add: granted_def claim_once_def purge_processed_def evict_if_needed_def Let_def insort_key_def sort_key_def)
qed

section \<open>The size of the store\<close>

definition replay_ok :: "nat \<Rightarrow> replay_store \<Rightarrow> bool" where
  "replay_ok cap st \<longleftrightarrow> keyed fst (rp_processed st) \<and> rp_max_entries st = int cap"

lemma evict_ok: "replay_ok cap st \<Longrightarrow> replay_ok cap (evict_if_needed st)"
  and evict_size: "replay_ok cap st \<Longrightarrow> length (rp_processed (evict_if_needed st)) \<le> cap"
  using evict_bound [of st] by (auto simp: replay_ok_def evict_if_needed_def Let_def keyed_filter)

lemma purge_ok: "replay_ok cap st \<Longrightarrow> replay_ok cap (purge_processed now st)"
  and purge_size: "length (rp_processed (purge_processed now st)) \<le> length (rp_processed st)"
  by (auto simp: replay_ok_def purge_processed_def keyed_filter)

lemma record_ok_size:
  assumes "replay_ok cap st"
  shows "replay_ok cap (record_envelope now eid st) \<and> length (rp_processed (record_envelope now eid st)) \<le> cap"
proof -
  define rows where "rows = (if row_lookup fst eid (rp_processed st) = None then rp_processed st @ [(eid, now + rp_ttl st)]
      else row_update fst eid (\<lambda>r. (eid, now + rp_ttl st)) (rp_processed st))"
  have "replay_ok cap (st\<lparr>rp_processed := rows\<rparr>)"
    using assms by (auto simp: rows_def replay_ok_def intro!: keyed_append1 keyed_update_key)
  then show ?thesis by (simp add: record_envelope_def rows_def [symmetric] evict_ok evict_size)
qed

lemma claim_ok_size:
  assumes "replay_ok cap st"
  shows "replay_ok cap (snd (claim_once now eid st))"
    and "length (rp_processed (snd (claim_once now eid st))) \<le> max cap (length (rp_processed st))"
proof -
  let ?p = "purge_processed now st"
  let ?new = "?p\<lparr>rp_processed := rp_processed ?p @ [(eid, now + rp_ttl ?p)]\<rparr>"
  have p: "replay_ok cap ?p" "length (rp_processed ?p) \<le> length (rp_processed st)"
    using assms by (simp_all add: purge_ok purge_size)
  have n: "row_lookup fst eid (rp_processed ?p) = None \<Longrightarrow> replay_ok cap ?new"
    using p(1) keyed_append1 [of fst "rp_processed ?p" "(eid, now + rp_ttl ?p)"] by (simp add: replay_ok_def)
  show "replay_ok cap (snd (claim_once now eid st))"
    and "length (rp_processed (snd (claim_once now eid st))) \<le> max cap (length (rp_processed st))"
    using assms p n evict_ok [OF n] evict_size [OF n] by (auto simp: claim_once_def Let_def)
qed

interpretation replays: capped_load "replay_ok cap" "\<lambda>st. length (rp_processed st)" cap "\<lambda>e st. snd (envelope_step e st)" for cap
proof
  fix st e
  assume ok: "replay_ok cap st"
  show "replay_ok cap (snd (envelope_step e st))"
    and "length (rp_processed (snd (envelope_step e st))) \<le> max cap (length (rp_processed st))"
    using ok record_ok_size [OF ok] claim_ok_size [OF ok] purge_ok [OF ok] purge_size
    by (cases e; auto simp: split_beta Let_def le_max_iff_disj)+
qed

text \<open>The store never grows past its cap.\<close>

lemma replay_store_capped:
  assumes "replay_ok cap st" and "length (rp_processed st) \<le> cap"
  shows "length (rp_processed (fold (\<lambda>e st. snd (envelope_step e st)) es st)) \<le> cap"
  using replays.run_capped [OF assms] .

end
