(* ===== verification/Capacity.thy ===== *)
theory Capacity
  imports Prelude
begin

text \<open>
  Fleet capacity reservations of \<open>backend/staff/capacity_reservation.py\<close>: slots held under a lease, the
  headroom kept for repairs, the daily billed budget, settlement, release and node loss. Instants are
  numbers of seconds since the epoch, where the store compares ISO texts, and dollars are exact; the
  explanations, texts for people, are left out. A reservation is one read of the table, which decides, and
  one insertion: the two run together within a process.
\<close>

section \<open>State\<close>

datatype unknown_quota_policy = Refuse | Allow | Degraded

record capacity_limits =
  cl_max_concurrent_slots :: int
  cl_max_daily_budget_usd :: rat
  cl_repair_reserved_slots :: int
  cl_max_pending_queue :: int
  cl_default_lease_ttl_seconds :: int
  cl_unknown_quota_policy :: unknown_quota_policy

definition default_capacity_limits :: capacity_limits where
  "default_capacity_limits =
     \<lparr>cl_max_concurrent_slots = 10, cl_max_daily_budget_usd = 100, cl_repair_reserved_slots = 2,
      cl_max_pending_queue = 50, cl_default_lease_ttl_seconds = 600, cl_unknown_quota_policy = Refuse\<rparr>"

datatype reservation_status = Reserved | Settled | Released | Expired

fun status_text :: "reservation_status \<Rightarrow> string" where
  "status_text Reserved = ''reserved''"
| "status_text Settled = ''settled''"
| "status_text Released = ''released''"
| "status_text Expired = ''expired''"

record capacity_reservation =
  cr_operation_id :: string
  cr_role :: string
  cr_provider :: string
  cr_slots :: int
  cr_estimated_spend_usd :: rat
  cr_actual_spend_usd :: "rat option"
  cr_priority :: int
  cr_node :: string
  cr_is_subscription :: bool
  cr_reserved_at :: seconds
  cr_lease_expires_at :: seconds
  cr_settled_at :: "seconds option"
  cr_status :: reservation_status

record reservation_decision =
  rd_admitted :: bool
  rd_reservation :: "capacity_reservation option"
  rd_refusal_reason :: string
  rd_queue_position :: "int option"
  rd_next_eligible :: "seconds option"

record reserve_request =
  rq_operation_id :: string
  rq_role :: string
  rq_provider :: string
  rq_slots :: int
  rq_estimated_spend_usd :: rat
  rq_priority :: int
  rq_node :: string
  rq_is_subscription :: bool
  rq_quota_known :: bool
  rq_ttl_seconds :: "int option"

section \<open>Reservation\<close>

definition sweep_expired :: "seconds \<Rightarrow> capacity_reservation list \<Rightarrow> string list \<times> capacity_reservation list" where
  "sweep_expired now rows =
     (let ids = map cr_operation_id (filter (\<lambda>r. cr_status r = Reserved \<and> cr_lease_expires_at r \<le> now) rows)
      in (ids, map (\<lambda>r. if cr_operation_id r \<in> set ids then r\<lparr>cr_status := Expired\<rparr> else r) rows))"

definition active_rows :: "seconds \<Rightarrow> capacity_reservation list \<Rightarrow> capacity_reservation list" where
  "active_rows now rows = filter (\<lambda>r. cr_status r = Reserved \<and> now < cr_lease_expires_at r) rows"

definition active_slots :: "seconds \<Rightarrow> capacity_reservation list \<Rightarrow> int" where
  "active_slots now rows = sum_list (map cr_slots (active_rows now rows))"

definition day_start :: "seconds \<Rightarrow> seconds" where
  "day_start now = 86400 * of_int \<lfloor>now / 86400\<rfloor>"

definition billed_spend :: "seconds \<Rightarrow> capacity_reservation list \<Rightarrow> rat" where
  "billed_spend now rows =
     sum_list (map cr_estimated_spend_usd (filter (\<lambda>r. \<not> cr_is_subscription r) (active_rows now rows)))
     + sum_list (map (\<lambda>r. case cr_actual_spend_usd r of Some x \<Rightarrow> x | None \<Rightarrow> 0)
         (filter (\<lambda>r. cr_status r = Settled \<and> \<not> cr_is_subscription r \<and> day_start now \<le> cr_reserved_at r) rows))"

definition allowed_slots :: "capacity_limits \<Rightarrow> int \<Rightarrow> int" where
  "allowed_slots limits priority =
     (if priority \<le> 0 then cl_max_concurrent_slots limits - cl_repair_reserved_slots limits else cl_max_concurrent_slots limits)"

definition refusal :: "string \<Rightarrow> reservation_decision" where
  "refusal reason = \<lparr>rd_admitted = False, rd_reservation = None, rd_refusal_reason = reason,
     rd_queue_position = None, rd_next_eligible = None\<rparr>"

definition admission :: "capacity_reservation \<Rightarrow> reservation_decision" where
  "admission r = \<lparr>rd_admitted = True, rd_reservation = Some r, rd_refusal_reason = [],
     rd_queue_position = None, rd_next_eligible = None\<rparr>"

text \<open>The decision on the swept table: an answer, or \<open>None\<close> when the reservation is to be inserted.\<close>

definition reserve_decide ::
    "capacity_limits \<Rightarrow> seconds \<Rightarrow> reserve_request \<Rightarrow> capacity_reservation list \<Rightarrow> reservation_decision option" where
  "reserve_decide limits now q rows =
     (case row_lookup cr_operation_id (rq_operation_id q) rows of
        Some r \<Rightarrow>
          (case cr_status r of
             Reserved \<Rightarrow> Some (admission r)
           | Settled \<Rightarrow> Some (admission r)
           | s \<Rightarrow> Some (refusal (''operation_already_'' @ status_text s)))
      | None \<Rightarrow>
          if \<not> rq_quota_known q \<and> cl_unknown_quota_policy limits = Refuse
          then Some (refusal ''quota_unknown: explicit policy refuses reservation when provider quota is unknown'')
          else
            let active = active_slots now rows;
                allowed = allowed_slots limits (rq_priority q)
            in if allowed < active + rq_slots q
               then
                 let expiries = sort (map cr_lease_expires_at (active_rows now rows))
                 in Some ((refusal ''capacity_exhausted'')
                      \<lparr>rd_queue_position := Some (max 1 (active + rq_slots q - allowed)),
                       rd_next_eligible := Some (case expiries of [] \<Rightarrow> now + 60 | e # _ \<Rightarrow> e)\<rparr>)
               else if \<not> rq_is_subscription q \<and> 0 < rq_estimated_spend_usd q
                 \<and> cl_max_daily_budget_usd limits < billed_spend now rows + rq_estimated_spend_usd q
               then Some ((refusal ''daily_budget_exhausted'')\<lparr>rd_next_eligible := Some (day_start now + 86400)\<rparr>)
               else None)"

definition new_reservation :: "capacity_limits \<Rightarrow> seconds \<Rightarrow> reserve_request \<Rightarrow> capacity_reservation" where
  "new_reservation limits now q =
     (let ttl = (case rq_ttl_seconds q of
                   Some t \<Rightarrow> if t = 0 then cl_default_lease_ttl_seconds limits else t
                 | None \<Rightarrow> cl_default_lease_ttl_seconds limits)
      in \<lparr>cr_operation_id = rq_operation_id q, cr_role = rq_role q, cr_provider = rq_provider q,
          cr_slots = rq_slots q, cr_estimated_spend_usd = rq_estimated_spend_usd q, cr_actual_spend_usd = None,
          cr_priority = rq_priority q, cr_node = rq_node q, cr_is_subscription = rq_is_subscription q,
          cr_reserved_at = now, cr_lease_expires_at = now + of_int ttl, cr_settled_at = None,
          cr_status = Reserved\<rparr>)"

text \<open>\<open>swept\<close> is the reading the sweep takes.\<close>

definition capacity_reserve ::
    "capacity_limits \<Rightarrow> seconds \<Rightarrow> seconds \<Rightarrow> reserve_request \<Rightarrow> capacity_reservation list \<Rightarrow>
     reservation_decision \<times> capacity_reservation list" where
  "capacity_reserve limits now swept q rows =
     (let rows1 = snd (sweep_expired swept rows)
      in case reserve_decide limits now q rows1 of
           Some d \<Rightarrow> (d, rows1)
         | None \<Rightarrow> (admission (new_reservation limits now q), rows1 @ [new_reservation limits now q]))"

section \<open>The end of a reservation\<close>

definition settle ::
    "seconds \<Rightarrow> string \<Rightarrow> rat option \<Rightarrow> capacity_reservation list \<Rightarrow>
     capacity_reservation option \<times> capacity_reservation list" where
  "settle now op actual_spend rows =
     (case row_lookup cr_operation_id op rows of
        None \<Rightarrow> (None, rows)
      | Some r \<Rightarrow>
          let actual = (case actual_spend of Some x \<Rightarrow> x | None \<Rightarrow> cr_estimated_spend_usd r);
              f = (\<lambda>r. r\<lparr>cr_actual_spend_usd := Some actual, cr_settled_at := Some now, cr_status := Settled\<rparr>)
          in (Some (f r), row_update cr_operation_id op f rows))"

definition capacity_release :: "string \<Rightarrow> capacity_reservation list \<Rightarrow> bool \<times> capacity_reservation list" where
  "capacity_release op rows =
     (list_ex (\<lambda>r. cr_operation_id r = op \<and> cr_status r = Reserved) rows,
      map (\<lambda>r. if cr_operation_id r = op \<and> cr_status r = Reserved then r\<lparr>cr_status := Released\<rparr> else r) rows)"

definition reconcile_node_loss ::
    "seconds \<Rightarrow> string \<Rightarrow> string set \<Rightarrow> capacity_reservation list \<Rightarrow> string list \<times> capacity_reservation list" where
  "reconcile_node_loss now node active rows =
     (let orphaned = filter (\<lambda>i. i \<notin> active)
            (map cr_operation_id (filter (\<lambda>r. cr_node r = node \<and> cr_status r = Reserved) rows))
      in (orphaned, map (\<lambda>r. if cr_operation_id r \<in> set orphaned
            then r\<lparr>cr_status := Released, cr_settled_at := Some now\<rparr> else r) rows))"

section \<open>Slots\<close>

text \<open>No row holds a negative number of slots.\<close>

definition slots_nonneg :: "capacity_reservation list \<Rightarrow> bool" where
  "slots_nonneg rows = list_all (\<lambda>r. 0 \<le> cr_slots r) rows"

lemma active_slots_Nil [simp]: "active_slots now [] = 0"
  by (simp add: active_slots_def active_rows_def)

lemma active_slots_Cons [simp]:
  "active_slots now (r # rows) =
     (if cr_status r = Reserved \<and> now < cr_lease_expires_at r then cr_slots r else 0) + active_slots now rows"
  by (simp add: active_slots_def active_rows_def)

lemma active_slots_append [simp]: "active_slots now (xs @ ys) = active_slots now xs + active_slots now ys"
  by (induction xs) simp_all

text \<open>Time and any step that only ends reservations free slots.\<close>

lemma active_slots_later: "slots_nonneg rows \<Longrightarrow> t \<le> t' \<Longrightarrow> active_slots t' rows \<le> active_slots t rows"
  by (induction rows) (auto simp: slots_nonneg_def)

lemma active_slots_map:
  assumes "slots_nonneg rows"
    and "\<And>r. cr_slots (f r) = cr_slots r \<and> cr_lease_expires_at (f r) = cr_lease_expires_at r"
    and "\<And>r. cr_status (f r) = Reserved \<Longrightarrow> cr_status r = Reserved"
  shows "active_slots t (map f rows) \<le> active_slots t rows \<and> slots_nonneg (map f rows)"
  using assms(1)
proof (induction rows)
  case (Cons r rows)
  with assms(2) [of r] assms(3) [of r] show ?case by (auto simp: slots_nonneg_def)
qed (simp add: slots_nonneg_def)

lemma sweep_slots:
  "slots_nonneg rows \<Longrightarrow> active_slots t (snd (sweep_expired now rows)) \<le> active_slots t rows
     \<and> slots_nonneg (snd (sweep_expired now rows))"
  unfolding sweep_expired_def Let_def snd_conv by (rule active_slots_map) (auto split: if_splits)

lemma settle_slots:
  "slots_nonneg rows \<Longrightarrow> active_slots t (snd (settle now op actual rows)) \<le> active_slots t rows
     \<and> slots_nonneg (snd (settle now op actual rows))"
proof (cases "row_lookup cr_operation_id op rows")
  case (Some r)
  assume "slots_nonneg rows"
  then show ?thesis
    unfolding settle_def Some Let_def option.case snd_conv row_update_def
    by (rule active_slots_map) (auto split: if_splits)
qed (simp add: settle_def)

lemma release_slots:
  "slots_nonneg rows \<Longrightarrow> active_slots t (snd (capacity_release op rows)) \<le> active_slots t rows
     \<and> slots_nonneg (snd (capacity_release op rows))"
  unfolding capacity_release_def snd_conv by (rule active_slots_map) (auto split: if_splits)

lemma reconcile_slots:
  "slots_nonneg rows \<Longrightarrow> active_slots t (snd (reconcile_node_loss now node active rows)) \<le> active_slots t rows
     \<and> slots_nonneg (snd (reconcile_node_loss now node active rows))"
  unfolding reconcile_node_loss_def Let_def snd_conv by (rule active_slots_map) (auto split: if_splits)

lemma decide_insert:
  assumes "reserve_decide limits now q rows = None"
  shows "active_slots now rows + rq_slots q \<le> allowed_slots limits (rq_priority q)"
    and "row_lookup cr_operation_id (rq_operation_id q) rows = None"
    and "rq_is_subscription q \<or> rq_estimated_spend_usd q \<le> 0
      \<or> billed_spend now rows + rq_estimated_spend_usd q \<le> cl_max_daily_budget_usd limits"
  using assms by (auto simp: reserve_decide_def Let_def split: if_splits option.splits reservation_status.splits)

lemma reserve_slots:
  assumes "slots_nonneg rows" and "0 \<le> rq_slots q" and "0 \<le> cl_repair_reserved_slots limits"
    and "active_slots now rows \<le> cl_max_concurrent_slots limits"
  shows "active_slots now (snd (capacity_reserve limits now swept q rows)) \<le> cl_max_concurrent_slots limits
     \<and> slots_nonneg (snd (capacity_reserve limits now swept q rows))"
proof -
  let ?rows = "snd (sweep_expired swept rows)"
  have s: "active_slots now ?rows \<le> active_slots now rows" "slots_nonneg ?rows"
    using sweep_slots [OF assms(1)] by simp_all
  show ?thesis
  proof (cases "reserve_decide limits now q ?rows")
    case (Some d)
    with s assms(4) show ?thesis by (simp add: capacity_reserve_def Let_def)
  next
    case None
    have "allowed_slots limits (rq_priority q) \<le> cl_max_concurrent_slots limits"
      using assms(3) by (simp add: allowed_slots_def)
    with decide_insert(1) [OF None] s assms(2,4) None show ?thesis
      by (auto simp: capacity_reserve_def Let_def new_reservation_def slots_nonneg_def)
  qed
qed

text \<open>The operations of a fleet, each with its reading of the clock.\<close>

datatype capacity_event =
    CReserve seconds seconds reserve_request
  | CSettle seconds string "rat option"
  | CRelease seconds string
  | CNodeLoss seconds string "string set"
  | CSweep seconds

fun event_time :: "capacity_event \<Rightarrow> seconds" where
  "event_time (CReserve now swept q) = now"
| "event_time (CSettle now op a) = now"
| "event_time (CRelease now op) = now"
| "event_time (CNodeLoss now node act) = now"
| "event_time (CSweep now) = now"

fun capacity_step :: "capacity_limits \<Rightarrow> capacity_event \<Rightarrow> capacity_reservation list \<Rightarrow> capacity_reservation list" where
  "capacity_step limits (CReserve now swept q) rows = snd (capacity_reserve limits now swept q rows)"
| "capacity_step limits (CSettle now op a) rows = snd (settle now op a rows)"
| "capacity_step limits (CRelease now op) rows = snd (capacity_release op rows)"
| "capacity_step limits (CNodeLoss now node act) rows = snd (reconcile_node_loss now node act rows)"
| "capacity_step limits (CSweep now) rows = snd (sweep_expired now rows)"

fun asks_nonneg :: "capacity_event \<Rightarrow> bool" where
  "asks_nonneg (CReserve now swept q) = (0 \<le> rq_slots q)"
| "asks_nonneg e = True"

lemma capacity_step_slots:
  assumes "slots_nonneg rows" and "asks_nonneg e" and "0 \<le> cl_repair_reserved_slots limits"
    and "active_slots (event_time e) rows \<le> cl_max_concurrent_slots limits"
  shows "active_slots (event_time e) (capacity_step limits e rows) \<le> cl_max_concurrent_slots limits"
    and "slots_nonneg (capacity_step limits e rows)"
  using assms reserve_slots [OF assms(1)] settle_slots [OF assms(1), THEN conjunct1, THEN order_trans, OF assms(4)]
    release_slots [OF assms(1), THEN conjunct1, THEN order_trans, OF assms(4)]
    reconcile_slots [OF assms(1), THEN conjunct1, THEN order_trans, OF assms(4)]
    sweep_slots [OF assms(1), THEN conjunct1, THEN order_trans, OF assms(4)]
    settle_slots [OF assms(1)] release_slots [OF assms(1)] reconcile_slots [OF assms(1)] sweep_slots [OF assms(1)]
  by (cases e; simp)+

fun capacity_run :: "capacity_limits \<Rightarrow> capacity_event list \<Rightarrow> capacity_reservation list \<Rightarrow> capacity_reservation list" where
  "capacity_run limits [] rows = rows"
| "capacity_run limits (e # es) rows = capacity_run limits es (capacity_step limits e rows)"

fun in_order :: "seconds \<Rightarrow> capacity_event list \<Rightarrow> seconds \<Rightarrow> bool" where
  "in_order t0 [] t1 = (t0 \<le> t1)"
| "in_order t0 (e # es) t1 = (t0 \<le> event_time e \<and> in_order (event_time e) es t1)"

text \<open>C14: Through any sequence of reservations, settlements, releases, node losses and sweeps, with a clock
  that does not step back and requests of no negative number of slots, the live reservations never hold
  more than the fleet's concurrent slots.\<close>

theorem slots_never_overcommitted:
  assumes "slots_nonneg rows" and "active_slots t0 rows \<le> cl_max_concurrent_slots limits"
    and "0 \<le> cl_repair_reserved_slots limits" and "list_all asks_nonneg es" and "in_order t0 es t1"
  shows "active_slots t1 (capacity_run limits es rows) \<le> cl_max_concurrent_slots limits"
  using assms
proof (induction es arbitrary: rows t0)
  case Nil
  then show ?case using active_slots_later [of rows t0 t1] by simp
next
  case (Cons e es)
  then have "active_slots (event_time e) rows \<le> cl_max_concurrent_slots limits"
    using active_slots_later [of rows t0 "event_time e"] by simp
  with Cons.prems Cons.IH [of "capacity_step limits e rows" "event_time e"] show ?case
    by (simp add: capacity_step_slots)
qed

definition job :: "string \<Rightarrow> int \<Rightarrow> rat \<Rightarrow> int \<Rightarrow> reserve_request" where
  "job op slots spend priority = \<lparr>rq_operation_id = op, rq_role = ''r'', rq_provider = ''p'', rq_slots = slots,
     rq_estimated_spend_usd = spend, rq_priority = priority, rq_node = ''n'', rq_is_subscription = False,
     rq_quota_known = True, rq_ttl_seconds = None\<rparr>"

theorem slots_never_overcommitted_witness:
  "active_slots 3 (capacity_run default_capacity_limits
     [CReserve 0 0 (job ''a'' 8 1 0), CReserve 1 1 (job ''b'' 1 1 0), CReserve 2 2 (job ''c'' 2 1 1), CRelease 3 ''a''] []) \<le> 10"
  using slots_never_overcommitted [of "[]" 0 default_capacity_limits
      "[CReserve 0 0 (job ''a'' 8 1 0), CReserve 1 1 (job ''b'' 1 1 0), CReserve 2 2 (job ''c'' 2 1 1), CRelease 3 ''a'']" 3]
  by (simp add: slots_nonneg_def default_capacity_limits_def job_def)

text \<open>A reservation inserted for a new operation fits the slots its priority may use, normal work leaving
  the repair headroom free, and a billed one fits the day's budget with what is reserved and settled.\<close>

theorem admission_fits_limits:
  assumes "capacity_reserve limits now swept q rows = (d, rows')" and "rd_admitted d"
    and "row_lookup cr_operation_id (rq_operation_id q) rows = None"
  shows "active_slots now (snd (sweep_expired swept rows)) + rq_slots q \<le> allowed_slots limits (rq_priority q)
    \<and> (rq_is_subscription q \<or> rq_estimated_spend_usd q \<le> 0
       \<or> billed_spend now (snd (sweep_expired swept rows)) + rq_estimated_spend_usd q \<le> cl_max_daily_budget_usd limits)
    \<and> rows' = snd (sweep_expired swept rows) @ [new_reservation limits now q]"
proof -
  let ?rows = "snd (sweep_expired swept rows)"
  have "row_lookup cr_operation_id (rq_operation_id q) ?rows = None"
    using assms(3) by (auto simp: row_lookup_None_iff sweep_expired_def Let_def image_iff split: if_splits)
  then have none: "reserve_decide limits now q ?rows = None"
    using assms(1,2) by (auto simp: capacity_reserve_def reserve_decide_def refusal_def Let_def split: if_splits)
  from decide_insert [OF this] assms(1) show ?thesis by (simp add: capacity_reserve_def none)
qed

theorem admission_fits_limits_witness:
  "active_slots 0 (snd (sweep_expired 0 [])) + 8 \<le> allowed_slots default_capacity_limits 0"
  using admission_fits_limits [of default_capacity_limits 0 0 "job ''a'' 8 1 0" "[]", OF prod.collapse [symmetric]]
  by (simp add: capacity_reserve_def sweep_expired_def reserve_decide_def admission_def allowed_slots_def
      default_capacity_limits_def job_def billed_spend_def active_rows_def)

section \<open>Settlement\<close>

lemma billed_spend_Nil [simp]: "billed_spend now [] = 0"
  by (simp add: billed_spend_def active_rows_def)

lemma billed_spend_Cons [simp]:
  "billed_spend now (r # rows) =
     (if cr_is_subscription r then 0
      else if cr_status r = Reserved \<and> now < cr_lease_expires_at r then cr_estimated_spend_usd r
      else if cr_status r = Settled \<and> day_start now \<le> cr_reserved_at r
      then (case cr_actual_spend_usd r of Some x \<Rightarrow> x | None \<Rightarrow> 0) else 0) + billed_spend now rows"
  by (auto simp: billed_spend_def active_rows_def)

text \<open>Settling does not look at the state of the reservation: one that was released, or whose lease
  lapsed, is turned into a settled one and its spend is charged to the day's budget.\<close>

theorem settle_charges_ended:
  assumes "keyed cr_operation_id rows" and "row_lookup cr_operation_id op rows = Some r"
    and "cr_status r = Released \<or> cr_status r = Expired" and "\<not> cr_is_subscription r"
    and "day_start now \<le> cr_reserved_at r"
  shows "billed_spend now (snd (settle t op (Some x) rows)) = billed_spend now rows + x
    \<and> map_option cr_status (fst (settle t op (Some x) rows)) = Some Settled"
proof -
  have "keyed cr_operation_id rows \<Longrightarrow> row_lookup cr_operation_id op rows = Some r \<Longrightarrow>
      billed_spend now (row_update cr_operation_id op
        (\<lambda>r. r\<lparr>cr_actual_spend_usd := Some x, cr_settled_at := Some t, cr_status := Settled\<rparr>) rows) = billed_spend now rows + x"
  proof (induction rows)
    case (Cons a rows)
    show ?case
    proof (cases "cr_operation_id a = op")
      case True
      with Cons.prems have "op \<notin> cr_operation_id ` set rows" by (auto simp: keyed_def)
      with True Cons.prems(2) assms(3-5) show ?thesis by (auto simp: row_update_absent)
    next
      case False
      with Cons show ?thesis by (simp add: keyed_def)
    qed
  qed simp
  with assms(1,2) show ?thesis by (simp add: settle_def)
qed

theorem settle_charges_ended_witness:
  "billed_spend 7 (snd (settle 6 ''a'' (Some 90) [(new_reservation default_capacity_limits 5 (job ''a'' 1 1 0))\<lparr>cr_status := Released\<rparr>])) = 90"
proof -
  have "day_start 7 = 0" by (simp add: day_start_def floor_eq_iff)
  then show ?thesis
    using settle_charges_ended [of "[(new_reservation default_capacity_limits 5 (job ''a'' 1 1 0))\<lparr>cr_status := Released\<rparr>]"
        "''a''" "(new_reservation default_capacity_limits 5 (job ''a'' 1 1 0))\<lparr>cr_status := Released\<rparr>" 7 6 90]
    by (simp add: keyed_def new_reservation_def job_def)
qed

text \<open>The connection runs each statement on its own: two processes that both read before either inserts are
  both told to insert.\<close>

lemma two_processes_overcommit:
  "reserve_decide default_capacity_limits 0 (job ''a'' 8 0 0) [] = None"
  "reserve_decide default_capacity_limits 0 (job ''b'' 8 0 0) [] = None"
  "active_slots 0 [new_reservation default_capacity_limits 0 (job ''a'' 8 0 0),
     new_reservation default_capacity_limits 0 (job ''b'' 8 0 0)] = 16"
  by (simp_all add: reserve_decide_def job_def default_capacity_limits_def new_reservation_def allowed_slots_def)

end
