(* ===== verification/Json_Access.thy ===== *)
theory Json_Access
  imports Prelude
begin

text \<open>
  How the code reads JSON values: Python's \<open>str\<close>, \<open>int\<close>, \<open>d.get(k)\<close>, \<open>a or b\<close> and \<open>==\<close> on what
  \<open>json.loads\<close> returns. The text Python gives a float, a list or a mapping is an argument.
\<close>

text \<open>\<open>str(x)\<close>.\<close>

fun json_str :: "(json \<Rightarrow> string) \<Rightarrow> json \<Rightarrow> string" where
  "json_str repr (JStr s) = s"
| "json_str repr (JInt i) = int_text i"
| "json_str repr (JBool b) = (if b then ''True'' else ''False'')"
| "json_str repr JNull = ''None''"
| "json_str repr v = repr v"

definition json_get :: "(string, json) dict \<Rightarrow> string \<Rightarrow> json" where
  "json_get d k = (case map_of d k of Some v \<Rightarrow> v | None \<Rightarrow> JNull)"

definition json_or :: "json \<Rightarrow> json \<Rightarrow> json" where
  "json_or a b = (if json_true a then a else b)"

text \<open>\<open>str(data.get(k, default))\<close>.\<close>

definition text_get :: "(json \<Rightarrow> string) \<Rightarrow> (string, json) dict \<Rightarrow> string \<Rightarrow> string \<Rightarrow> string" where
  "text_get repr data k dflt = (case map_of data k of None \<Rightarrow> dflt | Some v \<Rightarrow> json_str repr v)"

text \<open>\<open>int(x)\<close>.\<close>

fun json_int :: "json \<Rightarrow> int option" where
  "json_int (JInt i) = Some i"
| "json_int (JBool b) = Some (if b then 1 else 0)"
| "json_int (JFloat x) = Some (if x < 0 then \<lceil>x\<rceil> else \<lfloor>x\<rfloor>)"
| "json_int (JStr s) = py_int s"
| "json_int v = None"

text \<open>Python's equality of JSON values: numbers and booleans by value, objects whatever the order of their keys.\<close>

fun json_number :: "json \<Rightarrow> rat option" where
  "json_number (JInt i) = Some (of_int i)"
| "json_number (JBool b) = Some (if b then 1 else 0)"
| "json_number (JFloat x) = Some x"
| "json_number v = None"

fun json_same :: "json \<Rightarrow> json \<Rightarrow> bool" where
  "json_same (JList xs) (JList ys) = list_all2 json_same xs ys"
| "json_same (JDict d) (JDict e) =
     (length d = length e \<and>
      list_all (\<lambda>p. case map_of e (fst p) of None \<Rightarrow> False | Some v \<Rightarrow> json_same (snd p) v) d)"
| "json_same a b =
     (case (json_number a, json_number b) of (Some x, Some y) \<Rightarrow> x = y | (None, None) \<Rightarrow> a = b | _ \<Rightarrow> False)"

end
