(* ===== verification/Issue_Record.thy ===== *)
theory Issue_Record
  imports Lifecycle Json_Access
begin

text \<open>
  The durable form of a Code Request (\<open>backend/code_requests/model.py\<close>): the body of a GitHub issue with a
  fenced YAML block and the prompt, and the way back. YAML is an argument, the dumper and the loader; a
  loaded value is JSON (the dates and keys that YAML has beyond it are not considered). The text Python
  gives a float, a list or a dictionary is an argument too. \<open>None\<close> is an exception.
\<close>

section \<open>Writing\<close>

fun requester_kind_value :: "requester_kind \<Rightarrow> string" where
  "requester_kind_value Human = ''human''"
| "requester_kind_value Agent = ''agent''"

fun board_route_value :: "board_route \<Rightarrow> string" where
  "board_route_value RouteAuto = ''auto''"
| "board_route_value ForceBoard = ''force_board''"
| "board_route_value SkipBoard = ''skip_board''"

fun json_opt :: "string option \<Rightarrow> json" where
  "json_opt None = JNull"
| "json_opt (Some s) = JStr s"

definition front_matter_payload :: "code_request \<Rightarrow> (string, json) dict" where
  "front_matter_payload r =
     [(''id'', JStr (cr_id r)),
      (''repository'', JStr (cr_repository r)),
      (''state'', JStr (cr_state_value (cr_state r))),
      (''board_route'', JStr (board_route_value (cr_board_route r))),
      (''board_proposal'', json_opt (cr_board_proposal r)),
      (''plan_epic'', json_opt (cr_plan_epic r)),
      (''planner_profile_id'', json_opt (cr_planner_profile_id r)),
      (''executor_profile_id'', json_opt (cr_executor_profile_id r)),
      (''requester'', JDict [(''id'', JStr (rq_id (cr_requester r))),
                             (''kind'', JStr (requester_kind_value (rq_kind (cr_requester r))))]),
      (''standards'', JList (map JStr (cr_standards r))),
      (''branch'', JStr (cr_branch r)),
      (''created_at'', JStr (cr_created_at r)),
      (''updated_at'', JStr (cr_updated_at r))]
     @ (case cr_profile_snapshot r of None \<Rightarrow> [] | Some d \<Rightarrow> [(''profile_snapshot'', JDict d)])"

definition newline :: char where
  "newline = CHR 0x0A"

definition fence :: string where
  "fence = newline # replicate 3 (CHR 0x60)"

definition fence_open :: string where
  "fence_open = replicate 3 (CHR 0x60) @ ''yaml''"

definition prompt_heading :: string where
  "prompt_heading = ''## Prompt''"

definition serialize_front_matter :: "(json \<Rightarrow> string) \<Rightarrow> code_request \<Rightarrow> string" where
  "serialize_front_matter dump r =
     fence_open @ [newline] @ py_strip (dump (JDict (front_matter_payload r))) @ fence"

definition serialize_issue_body :: "(json \<Rightarrow> string) \<Rightarrow> code_request \<Rightarrow> string" where
  "serialize_issue_body dump r =
     (let fm = serialize_front_matter dump r
      in if blank (cr_prompt r) then fm @ [newline]
         else fm @ [newline, newline] @ prompt_heading @ [newline, newline] @ py_strip (cr_prompt r) @ [newline])"

section \<open>Reading\<close>

text \<open>The pattern \<open>^```yaml\s*\n(.*?)\n```(?:\r?\n|$)(.*)\<close>: the block is the shortest text before a closing
  fence; the white space before it is tried from its last line break to its first.\<close>

definition after_fence :: "string \<Rightarrow> string option" where
  "after_fence r =
     (if py_startswith r [CHR 0x0D, newline] then Some (drop 2 r)
      else if py_startswith r [newline] then Some (drop 1 r)
      else if r = [] then Some [] else None)"

fun close_fence :: "string \<Rightarrow> (string \<times> string) option" where
  "close_fence [] = None"
| "close_fence (c # cs) =
     (case (if py_startswith (c # cs) fence then after_fence (drop 4 (c # cs)) else None) of
        Some r \<Rightarrow> Some ([], r)
      | None \<Rightarrow> map_option (\<lambda>(y, r). (c # y, r)) (close_fence cs))"

fun try_starts :: "string \<Rightarrow> nat list \<Rightarrow> (string \<times> string) option" where
  "try_starts t [] = None"
| "try_starts t (i # is) = (case close_fence (drop (Suc i) t) of Some m \<Rightarrow> Some m | None \<Rightarrow> try_starts t is)"

definition front_matter_match :: "string \<Rightarrow> (string \<times> string) option" where
  "front_matter_match body =
     (if \<not> py_startswith body fence_open then None
      else let t = drop 7 body; ws = takeWhile py_space t
           in try_starts t (rev (filter (\<lambda>i. ws ! i = newline) [0..<length ws])))"

fun split_after :: "string \<Rightarrow> string \<Rightarrow> string option" where
  "split_after sub [] = (if sub = [] then Some [] else None)"
| "split_after sub (c # cs) =
     (if py_startswith (c # cs) sub then Some (drop (length sub) (c # cs)) else split_after sub cs)"

definition prompt_of :: "string \<Rightarrow> string" where
  "prompt_of t = (case split_after prompt_heading t of Some r \<Rightarrow> py_strip r | None \<Rightarrow> t)"

definition set_default :: "string \<Rightarrow> json \<Rightarrow> (string, json) dict \<Rightarrow> (string, json) dict" where
  "set_default k v d = (if map_of d k = None then d @ [(k, v)] else d)"

definition parse_issue_body ::
    "(string \<Rightarrow> json option) \<Rightarrow> string \<Rightarrow> string \<Rightarrow> string \<Rightarrow> (string, json) dict" where
  "parse_issue_body load body default_id default_repo =
     (case front_matter_match (py_strip body) of
        None \<Rightarrow> [(''id'', JStr default_id), (''repository'', JStr default_repo),
                  (''prompt'', JStr (prompt_of (py_strip body))), (''state'', JStr (cr_state_value CrDraft))]
      | Some (raw_yaml, remainder) \<Rightarrow>
          let data = (case load raw_yaml of Some (JDict d) \<Rightarrow> d | _ \<Rightarrow> []);
              prompt = prompt_of (py_strip remainder);
              data = set_default ''repository'' (JStr default_repo) (set_default ''id'' (JStr default_id) data)
          in if prompt \<noteq> [] then AList.update ''prompt'' (JStr prompt) data else data)"

section \<open>A request from an issue\<close>

text \<open>An issue as the GitHub API returns it; the user is absent when it is not an object.\<close>

record issue =
  is_body :: "string option"
  is_number :: "int option"
  is_repository_url :: "string option"
  is_labels :: "string list"
  is_user :: "(string option \<times> string option) option"
  is_title :: "string option"
  is_html_url :: "string option"
  is_created_at :: "string option"
  is_updated_at :: "string option"

text \<open>What the record's validation takes for a field: text or nothing, a mapping or nothing, a list of texts.\<close>

fun opt_text_field :: "json option \<Rightarrow> string option option" where
  "opt_text_field None = Some None"
| "opt_text_field (Some JNull) = Some None"
| "opt_text_field (Some (JStr s)) = Some (Some s)"
| "opt_text_field (Some v) = None"

fun opt_dict_field :: "json option \<Rightarrow> (string, json) dict option option" where
  "opt_dict_field None = Some None"
| "opt_dict_field (Some JNull) = Some None"
| "opt_dict_field (Some (JDict d)) = Some (Some d)"
| "opt_dict_field (Some v) = None"

fun text_items :: "json list \<Rightarrow> string list option" where
  "text_items [] = Some []"
| "text_items (JStr s # vs) = map_option (\<lambda>xs. s # xs) (text_items vs)"
| "text_items (v # vs) = None"

text \<open>\<open>list(x or [])\<close>: the characters of a text, the keys of a mapping.\<close>

fun standards_field :: "json option \<Rightarrow> string list option" where
  "standards_field None = Some []"
| "standards_field (Some v) =
     (if \<not> json_true v then Some []
      else case v of JList vs \<Rightarrow> text_items vs | JStr s \<Rightarrow> Some (map (\<lambda>c. [c]) s) | JDict d \<Rightarrow> Some (map fst d)
           | _ \<Rightarrow> None)"

text \<open>\<open>d.get(k) or a or b\<close>, where the field takes text only.\<close>

fun text_or :: "json option \<Rightarrow> string \<Rightarrow> string option" where
  "text_or None b = Some b"
| "text_or (Some v) b = (if \<not> json_true v then Some b else case v of JStr s \<Rightarrow> Some s | _ \<Rightarrow> None)"

definition last_segment :: "string \<Rightarrow> string" where
  "last_segment url = (let u = rev (dropWhile (\<lambda>c. c = CHR ''/'') (rev url))
                       in rev (takeWhile (\<lambda>c. c \<noteq> CHR ''/'') (rev u)))"

text \<open>The state a label names, if any label names one; else the state of the front matter; else draft.\<close>

fun label_state :: "string list \<Rightarrow> cr_state option" where
  "label_state [] = None"
| "label_state (l # ls) =
     (if py_startswith l ''code-request:''
      then case cr_state_of (drop 13 l) of Some st \<Rightarrow> Some st | None \<Rightarrow> label_state ls
      else label_state ls)"

definition issue_state :: "issue \<Rightarrow> (string, json) dict \<Rightarrow> cr_state" where
  "issue_state iss parsed =
     (case label_state (is_labels iss) of
        Some st \<Rightarrow> st
      | None \<Rightarrow> (case map_of parsed ''state'' of
            Some (JStr s) \<Rightarrow> (case cr_state_of s of Some st \<Rightarrow> st | None \<Rightarrow> CrDraft)
          | _ \<Rightarrow> CrDraft))"

definition issue_requester :: "(json \<Rightarrow> string) \<Rightarrow> issue \<Rightarrow> (string, json) dict \<Rightarrow> requester" where
  "issue_requester repr iss parsed =
     (case (case map_of parsed ''requester'' of
              Some (JDict d) \<Rightarrow> (case map_of d ''id'' of Some v \<Rightarrow> Some (v, map_of d ''kind'') | None \<Rightarrow> None)
            | _ \<Rightarrow> None) of
        Some (v, kind) \<Rightarrow> \<lparr>rq_id = json_str repr v, rq_kind = (if kind = Some (JStr ''agent'') then Agent else Human)\<rparr>
      | None \<Rightarrow>
          let (login, utype) = (case is_user iss of Some (l, t) \<Rightarrow> (l, t) | None \<Rightarrow> (None, None))
          in \<lparr>rq_id = (case login of Some l \<Rightarrow> l | None \<Rightarrow> ''unknown''),
              rq_kind = (if map_option py_lower utype = Some ''bot'' then Agent else Human)\<rparr>)"

definition board_route_of :: "json option \<Rightarrow> board_route" where
  "board_route_of v =
     (if v = Some (JStr ''force_board'') then ForceBoard else if v = Some (JStr ''skip_board'') then SkipBoard else RouteAuto)"

text \<open>\<open>parsed.get('prompt', '')[:40]\<close> as text.\<close>

definition prompt_start :: "(json \<Rightarrow> string) \<Rightarrow> json option \<Rightarrow> string option" where
  "prompt_start repr v = (case v of
     None \<Rightarrow> Some [] | Some (JStr s) \<Rightarrow> Some (take 40 s) | Some (JList vs) \<Rightarrow> Some (repr (JList (take 40 vs))) | _ \<Rightarrow> None)"

definition or_text :: "string option \<Rightarrow> string option \<Rightarrow> string option" where
  "or_text a b = (case a of Some s \<Rightarrow> if s \<noteq> [] then Some s else b | None \<Rightarrow> b)"

definition code_request_from_issue ::
    "(string \<Rightarrow> json option) \<Rightarrow> (json \<Rightarrow> string) \<Rightarrow> string \<Rightarrow> issue \<Rightarrow> string \<Rightarrow> cr_audit_event list \<Rightarrow> code_request option" where
  "code_request_from_issue load repr now iss default_repo trail =
     (let body = (case is_body iss of Some b \<Rightarrow> b | None \<Rightarrow> []);
          url = (case is_repository_url iss of Some u \<Rightarrow> u | None \<Rightarrow> []);
          repo = (if default_repo \<noteq> [] then default_repo else if url \<noteq> [] then last_segment url else []);
          number_text = (case is_number iss of Some n \<Rightarrow> if n \<noteq> 0 then Some (int_text n) else None | None \<Rightarrow> None);
          default_id = (case number_text of
                          Some t \<Rightarrow> if repo \<noteq> [] then ''cr-'' @ repo @ ''-'' @ t else ''cr-'' @ t
                        | None \<Rightarrow> ''cr-unknown'');
          parsed = parse_issue_body load body default_id repo;
          created = text_or (map_of parsed ''created_at'') (case or_text (is_created_at iss) None of Some t \<Rightarrow> t | None \<Rightarrow> now);
          title = (case or_text (is_title iss) None of Some t \<Rightarrow> Some t
                   | None \<Rightarrow> map_option (\<lambda>t. ''Code Request: '' @ t) (prompt_start repr (map_of parsed ''prompt'')))
      in case (created, title) of
           (Some created_at, Some title) \<Rightarrow>
             (case (text_or (map_of parsed ''updated_at'')
                      (case or_text (is_updated_at iss) None of Some t \<Rightarrow> t | None \<Rightarrow> created_at),
                    opt_text_field (map_of parsed ''planner_profile_id''),
                    opt_text_field (map_of parsed ''executor_profile_id''),
                    opt_dict_field (map_of parsed ''profile_snapshot''),
                    opt_text_field (map_of parsed ''board_proposal''),
                    opt_text_field (map_of parsed ''plan_epic''),
                    standards_field (map_of parsed ''standards'')) of
                (Some updated_at, Some planner, Some executor, Some snap, Some proposal, Some epic, Some standards) \<Rightarrow>
                  Some \<lparr>cr_id = (case map_of parsed ''id'' of
                                   Some v \<Rightarrow> if json_true v then json_str repr v else default_id | None \<Rightarrow> default_id),
                        cr_repository = (if repo \<noteq> [] then repo else ''Runner_Dashboard''),
                        cr_title = title, cr_issue_number = is_number iss, cr_issue_url = is_html_url iss,
                        cr_state = issue_state iss parsed,
                        cr_prompt = (case map_of parsed ''prompt'' of
                                       Some v \<Rightarrow> if json_true v then json_str repr v else [] | None \<Rightarrow> []),
                        cr_requester = issue_requester repr iss parsed,
                        cr_planner_profile_id = planner, cr_executor_profile_id = executor,
                        cr_profile_snapshot = snap, cr_board_route = board_route_of (map_of parsed ''board_route''),
                        cr_board_proposal = proposal, cr_plan_epic = epic,
                        cr_branch = (case map_of parsed ''branch'' of
                                       Some v \<Rightarrow> if json_true v then json_str repr v else ''main'' | None \<Rightarrow> ''main''),
                        cr_standards = standards, cr_audit_trail = trail,
                        cr_created_at = created_at, cr_updated_at = updated_at\<rparr>
              | _ \<Rightarrow> None)
         | _ \<Rightarrow> None)"

section \<open>The way back\<close>

lemma fence_chars: "fence = [newline, CHR 0x60, CHR 0x60, CHR 0x60]"
  by (simp add: fence_def numeral_eq_Suc)

lemma no_fence_start:
  assumes "\<not> py_contains fence (c # y)"
  shows "\<not> py_startswith (c # y @ fence @ r) fence"
proof
  assume s: "py_startswith (c # y @ fence @ r) fence"
  show False
  proof (cases "4 \<le> length (c # y)")
    case True
    with s have "py_startswith (c # y) fence" by (simp add: py_startswith_def fence_chars)
    with assms show False by simp
  next
    case False
    with s show False
      by (cases y; cases "tl y"; cases "tl (tl y)") (auto simp: py_startswith_def fence_chars newline_def)
  qed
qed

lemma close_fence_append:
  "\<not> py_contains fence y \<Longrightarrow> after_fence r = Some r' \<Longrightarrow> close_fence (y @ fence @ r) = Some (y, r')"
proof (induction y)
  case Nil
  then show ?case by (simp add: fence_chars py_startswith_def)
next
  case (Cons c y)
  from no_fence_start [OF Cons.prems(1), of r] Cons show ?case by simp
qed

lemma front_matter_match_written:
  assumes "y \<noteq> []" and "\<not> py_space (hd y)" and "\<not> py_contains fence y" and "after_fence r = Some r'"
  shows "front_matter_match (fence_open @ [newline] @ y @ fence @ r) = Some (y, r')"
proof -
  have "py_space newline" by (simp add: newline_def py_space_def)
  then have ws: "takeWhile py_space ([newline] @ y @ fence @ r) = [newline]"
    using assms(1,2) by (cases y) auto
  have "drop 7 (fence_open @ [newline] @ y @ fence @ r) = [newline] @ y @ fence @ r"
    by (simp add: fence_open_def numeral_eq_Suc)
  moreover have "py_startswith (fence_open @ [newline] @ y @ fence @ r) fence_open"
    by (simp add: py_startswith_def)
  ultimately show ?thesis
    using close_fence_append [OF assms(3,4)] unfolding front_matter_match_def Let_def
    by (simp only: ws) simp
qed

lemma split_after_start: "split_after sub (sub @ t) = Some t"
proof (cases "sub @ t")
  case (Cons a l)
  have "py_startswith (a # l) sub" "drop (length sub) (a # l) = t"
    unfolding Cons [symmetric] by (simp_all add: py_startswith_def)
  with Cons show ?thesis by simp
qed simp

text \<open>The dumper and the loader agree on a payload, and the text dumped is a block without a closing fence.\<close>

definition yaml_faithful :: "(json \<Rightarrow> string) \<Rightarrow> (string \<Rightarrow> json option) \<Rightarrow> (string, json) dict \<Rightarrow> bool" where
  "yaml_faithful dump load d =
     (let y = py_strip (dump (JDict d)) in load y = Some (JDict d) \<and> y \<noteq> [] \<and> \<not> py_contains fence y)"

lemma parse_written:
  assumes "yaml_faithful dump load (front_matter_payload r)"
  shows "parse_issue_body load (serialize_issue_body dump r) default_id default_repo =
    (if blank (cr_prompt r) then front_matter_payload r
     else AList.update ''prompt'' (JStr (py_strip (cr_prompt r))) (front_matter_payload r))"
proof -
  define y where "y = py_strip (dump (JDict (front_matter_payload r)))"
  define p where "p = py_strip (cr_prompt r)"
  have y: "load y = Some (JDict (front_matter_payload r))" "y \<noteq> []" "\<not> py_contains fence y" "\<not> py_space (hd y)"
    using assms py_strip_ends(1) [of "dump (JDict (front_matter_payload r))"]
    by (simp_all add: yaml_faithful_def Let_def y_def)
  have fm: "serialize_front_matter dump r = fence_open @ [newline] @ y @ fence"
    by (simp add: serialize_front_matter_def y_def)
  have nl: "list_all py_space [newline]" by (simp add: newline_def py_space_def)
  have hd: "\<not> py_space (hd (serialize_front_matter dump r))" "serialize_front_matter dump r \<noteq> []"
    by (simp_all add: fm fence_open_def numeral_eq_Suc py_space_def)
  have keys: "map_of (front_matter_payload r) ''id'' = Some (JStr (cr_id r))"
    "map_of (front_matter_payload r) ''repository'' = Some (JStr (cr_repository r))"
    by (simp_all add: front_matter_payload_def)
  show ?thesis
  proof (cases "blank (cr_prompt r)")
    case True
    have "py_strip (serialize_front_matter dump r @ [newline]) = serialize_front_matter dump r"
      using py_strip_core [OF hd(2,1) _ _ nl, of "[]"] by (simp add: fm fence_chars py_space_def)
    moreover have "front_matter_match (serialize_front_matter dump r) = Some (y, [])"
      using front_matter_match_written [OF y(2,4,3), of "[]" "[]"] by (simp add: fm after_fence_def py_startswith_def)
    ultimately show ?thesis
      using True y(1) keys by (simp add: serialize_issue_body_def Let_def parse_issue_body_def prompt_of_def
          set_default_def py_strip_def prompt_heading_def)
  next
    case False
    then have p: "p \<noteq> []" "\<not> py_space (hd p)" "\<not> py_space (last p)"
      using py_strip_ends [of "cr_prompt r"] by (simp_all add: blank_def p_def)
    let ?rest = "prompt_heading @ [newline, newline] @ p"
    have "py_strip ((serialize_front_matter dump r @ [newline, newline] @ ?rest) @ [newline])
        = serialize_front_matter dump r @ [newline, newline] @ ?rest"
      using py_strip_core [OF _ _ _ _ nl, of "serialize_front_matter dump r @ [newline, newline] @ ?rest" "[]"] hd p
      by simp
    moreover have "front_matter_match (serialize_front_matter dump r @ [newline, newline] @ ?rest) = Some (y, newline # ?rest)"
      using front_matter_match_written [OF y(2,4,3), of "[newline, newline] @ ?rest" "newline # ?rest"]
      by (simp add: fm after_fence_def py_startswith_def newline_def)
    moreover have "py_strip (newline # ?rest) = ?rest"
      using py_strip_core [of ?rest "[newline]" "[]"] p nl by (simp add: prompt_heading_def py_space_def)
    moreover have "prompt_of ?rest = p"
      using split_after_start [of prompt_heading "[newline, newline] @ p"] py_strip_core [OF p, of "[newline, newline]" "[]"] nl
      by (simp add: prompt_of_def)
    ultimately show ?thesis
      using False y(1) keys p(1) by (simp add: serialize_issue_body_def Let_def parse_issue_body_def
          set_default_def p_def [symmetric])
  qed
qed

text \<open>The issue the store keeps for a request.\<close>

definition issue_of :: "(json \<Rightarrow> string) \<Rightarrow> code_request \<Rightarrow> issue" where
  "issue_of dump r =
     \<lparr>is_body = Some (serialize_issue_body dump r), is_number = cr_issue_number r, is_repository_url = None,
      is_labels = [''code-request'', ''code-request:'' @ cr_state_value (cr_state r)], is_user = None,
      is_title = Some (cr_title r), is_html_url = cr_issue_url r, is_created_at = None, is_updated_at = None\<rparr>"

text \<open>The texts a stored request never leaves empty.\<close>

definition storable :: "code_request \<Rightarrow> bool" where
  "storable r = (cr_id r \<noteq> [] \<and> cr_repository r \<noteq> [] \<and> cr_title r \<noteq> [] \<and> cr_branch r \<noteq> [] \<and>
     cr_created_at r \<noteq> [] \<and> cr_updated_at r \<noteq> [])"

lemma cr_state_of_value [simp]: "cr_state_of (cr_state_value st) = Some st"
  by (cases st) (simp_all add: cr_state_of_def cr_states_def)

lemma label_state_written: "label_state [''code-request'', ''code-request:'' @ cr_state_value st] = Some st"
  by (simp add: py_startswith_def)

lemma opt_text_json_opt [simp]: "opt_text_field (Some (json_opt v)) = Some v"
  by (cases v) simp_all

lemma text_items_map [simp]: "text_items (map JStr xs) = Some xs"
  by (induction xs) simp_all

lemma standards_written [simp]: "standards_field (Some (JList (map JStr xs))) = Some xs"
  by simp

lemma board_route_written [simp]: "board_route_of (Some (JStr (board_route_value b))) = b"
  by (cases b) (simp_all add: board_route_of_def)

lemma requester_kind_written [simp]:
  "(if Some (JStr (requester_kind_value k)) = Some (JStr ''agent'') then Agent else Human) = k"
  by (cases k) simp_all

lemma payload_lookups:
  "map_of (front_matter_payload r) ''id'' = Some (JStr (cr_id r))"
  "map_of (front_matter_payload r) ''state'' = Some (JStr (cr_state_value (cr_state r)))"
  "map_of (front_matter_payload r) ''board_route'' = Some (JStr (board_route_value (cr_board_route r)))"
  "map_of (front_matter_payload r) ''board_proposal'' = Some (json_opt (cr_board_proposal r))"
  "map_of (front_matter_payload r) ''plan_epic'' = Some (json_opt (cr_plan_epic r))"
  "map_of (front_matter_payload r) ''planner_profile_id'' = Some (json_opt (cr_planner_profile_id r))"
  "map_of (front_matter_payload r) ''executor_profile_id'' = Some (json_opt (cr_executor_profile_id r))"
  "map_of (front_matter_payload r) ''requester'' = Some (JDict [(''id'', JStr (rq_id (cr_requester r))),
     (''kind'', JStr (requester_kind_value (rq_kind (cr_requester r))))])"
  "map_of (front_matter_payload r) ''standards'' = Some (JList (map JStr (cr_standards r)))"
  "map_of (front_matter_payload r) ''branch'' = Some (JStr (cr_branch r))"
  "map_of (front_matter_payload r) ''created_at'' = Some (JStr (cr_created_at r))"
  "map_of (front_matter_payload r) ''updated_at'' = Some (JStr (cr_updated_at r))"
  "map_of (front_matter_payload r) ''profile_snapshot'' = map_option JDict (cr_profile_snapshot r)"
  "map_of (front_matter_payload r) ''prompt'' = None"
  by (simp_all add: front_matter_payload_def split: option.split)

lemma opt_dict_map [simp]: "opt_dict_field (map_option JDict v) = Some v"
  by (cases v) simp_all

lemma requester_written:
  assumes "map_of parsed ''requester'' = Some (JDict [(''id'', JStr (rq_id q)), (''kind'', JStr (requester_kind_value (rq_kind q)))])"
  shows "issue_requester repr iss parsed = q"
  using assms requester_kind_written [of "rq_kind q"] by (cases q) (simp add: issue_requester_def)

lemma text_or_written [simp]: "s \<noteq> [] \<Longrightarrow> text_or (Some (JStr s)) b = Some s"
  by simp

lemma issue_of_simps:
  "is_body (issue_of dump r) = Some (serialize_issue_body dump r)" "is_number (issue_of dump r) = cr_issue_number r"
  "is_title (issue_of dump r) = Some (cr_title r)" "is_html_url (issue_of dump r) = cr_issue_url r"
  "is_created_at (issue_of dump r) = None" "is_updated_at (issue_of dump r) = None"
  by (simp_all add: issue_of_def)

lemma issue_read_back:
  assumes "yaml_faithful dump load (front_matter_payload r)" and "storable r"
  shows "code_request_from_issue load repr now (issue_of dump r) (cr_repository r) trail =
    Some (r\<lparr>cr_prompt := py_strip (cr_prompt r), cr_audit_trail := trail\<rparr>)"
proof -
  define parsed where "parsed = (if blank (cr_prompt r) then front_matter_payload r
      else AList.update ''prompt'' (JStr (py_strip (cr_prompt r))) (front_matter_payload r))"
  have lk: "k \<noteq> ''prompt'' \<Longrightarrow> map_of parsed k = map_of (front_matter_payload r) k" for k
    by (simp add: parsed_def update_conv')
  have pr: "(case map_of parsed ''prompt'' of Some v \<Rightarrow> if json_true v then json_str repr v else [] | None \<Rightarrow> []) = py_strip (cr_prompt r)"
    by (simp add: parsed_def update_conv' payload_lookups blank_def)
  have st: "issue_state (issue_of dump r) parsed = cr_state r"
    by (simp only: issue_state_def issue_of_def issue.simps label_state_written option.case)
  have rq: "issue_requester repr (issue_of dump r) parsed = cr_requester r"
    by (rule requester_written) (simp add: lk payload_lookups)
  have p: "parse_issue_body load (serialize_issue_body dump r) d (cr_repository r) = parsed" for d
    using parse_written [OF assms(1)] by (simp add: parsed_def)
  show ?thesis
    using assms(2)
    by (simp add: code_request_from_issue_def Let_def p st rq pr storable_def lk payload_lookups or_text_def
        issue_of_simps del: opt_text_field.simps text_or.simps standards_field.simps)
qed

text \<open>A stored request survives the way through its issue: what is read back from the body, the labels
  and the title of the issue is the request, with its prompt stripped and the audit trail of the comments,
  provided the YAML library reads back what it wrote. The repository is the one the issue was read from.\<close>

theorem issue_roundtrip:
  assumes "yaml_faithful dump load (front_matter_payload r)" and "storable r"
  shows "code_request_from_issue load repr now (issue_of dump r) (cr_repository r) trail =
    Some (r\<lparr>cr_prompt := py_strip (cr_prompt r), cr_audit_trail := trail\<rparr>)"
  using assms by (rule issue_read_back)

theorem issue_roundtrip_witness:
  "code_request_from_issue (\<lambda>y. Some (JDict (front_matter_payload (sample_request CrPlanning)))) (\<lambda>v. []) ''now''
     (issue_of (\<lambda>v. ''id: x'') (sample_request CrPlanning)) ''r'' []
   = Some ((sample_request CrPlanning)\<lparr>cr_prompt := ''p'', cr_audit_trail := []\<rparr>)"
proof -
  have y: "py_strip ''id: x'' = ''id: x''" "py_strip ''p'' = ''p''" "\<not> py_contains fence ''id: x''" by code_simp+
  have f: "yaml_faithful (\<lambda>v. ''id: x'') (\<lambda>y. Some (JDict (front_matter_payload (sample_request CrPlanning))))
      (front_matter_payload (sample_request CrPlanning))"
    unfolding yaml_faithful_def y(1) Let_def using y(3) by simp
  have "storable (sample_request CrPlanning)" "cr_repository (sample_request CrPlanning) = ''r''"
    "cr_prompt (sample_request CrPlanning) = ''p''" by (simp_all add: storable_def sample_request_def)
  with issue_roundtrip [OF f, of "\<lambda>v. []" "''now''" "[]"] show ?thesis by (simp add: y(2))
qed

end
