(* ===== verification/Request_Store.thy ===== *)
theory Request_Store
  imports Issue_Record
begin

text \<open>
  The store of Code Requests (\<open>backend/code_requests/store.py\<close>): GitHub issues as the durable form, with
  audit comments, and a local cache file that can be rebuilt from them; and the dispatch history
  (\<open>dispatch_service.py\<close>) that is kept in the same file. GitHub answers or fails call by call: the answers
  are arguments. An entry of the cache is a request, another record, or no record at all.
\<close>

section \<open>Audit comments\<close>

definition tick :: string where
  "tick = [CHR 0x60]"

definition render_audit_comment :: "cr_audit_event \<Rightarrow> string" where
  "render_audit_comment ev =
     ''**[Code Request]** State changed from '' @ tick @ cr_state_value (ev_from ev) @ tick @ '' to '' @ tick
     @ cr_state_value (ev_to ev) @ tick @ '' by '' @ tick @ ev_actor ev @ tick @ ''.''
     @ (if ev_override ev then '' (override)'' else []) @ [newline, newline] @ ''**Reason:** '' @ py_strip (ev_reason ev)"

text \<open>The parts of the comment's pattern: a literal, white space, a name between ticks.\<close>

definition eat :: "string \<Rightarrow> string \<Rightarrow> string option" where
  "eat lit s = (if py_startswith s lit then Some (drop (length lit) s) else None)"

definition eat_space :: "string \<Rightarrow> string option" where
  "eat_space s = (if s \<noteq> [] \<and> py_space (hd s) then Some (dropWhile py_space s) else None)"

definition eat_ticked :: "string \<Rightarrow> (string \<times> string) option" where
  "eat_ticked s =
     (case eat tick s of
        None \<Rightarrow> None
      | Some t \<Rightarrow>
          let name = takeWhile (\<lambda>c. c \<noteq> CHR 0x60) t
          in if name = [] then None else map_option (\<lambda>r. (name, r)) (eat tick (drop (length name) t)))"

definition eat_word_ticked :: "string \<Rightarrow> string \<Rightarrow> (string \<times> string) option" where
  "eat_word_ticked w s =
     Option.bind (eat w s) (\<lambda>s. Option.bind (eat_space s) eat_ticked)"

definition skip_override :: "string \<Rightarrow> string" where
  "skip_override s = (case Option.bind (eat_space s) (eat ''(override)'') of Some t \<Rightarrow> t | None \<Rightarrow> s)"

definition eat_reason :: "string \<Rightarrow> string" where
  "eat_reason s =
     (case eat ([newline, newline] @ ''**Reason:**'') s of Some t \<Rightarrow> dropWhile py_space t | None \<Rightarrow> [])"

text \<open>The states and the actor, and the reason, where the pattern matches at the start of a text.\<close>

definition match_audit :: "string \<Rightarrow> (string \<times> string \<times> string \<times> string) option" where
  "match_audit s =
     Option.bind (eat ''**[Code Request]**'' s) (\<lambda>s.
     Option.bind (eat_space s) (\<lambda>s.
     Option.bind (eat_word_ticked ''State changed from'' s) (\<lambda>(f, s).
     Option.bind (eat_space s) (\<lambda>s.
     Option.bind (eat_word_ticked ''to'' s) (\<lambda>(t, s).
     Option.bind (eat_space s) (\<lambda>s.
     Option.bind (eat_word_ticked ''by'' s) (\<lambda>(a, s).
     Option.bind (eat ''.'' s) (\<lambda>s. Some (f, t, a, eat_reason (skip_override s))))))))))"

fun search_audit :: "string \<Rightarrow> (string \<times> string \<times> string \<times> string) option" where
  "search_audit [] = match_audit []"
| "search_audit (c # cs) = (case match_audit (c # cs) of Some m \<Rightarrow> Some m | None \<Rightarrow> search_audit cs)"

text \<open>A comment with its time stamp; no event when it is not an audit comment or names no state.\<close>

definition parse_audit_comment :: "string \<times> string \<Rightarrow> cr_audit_event option" where
  "parse_audit_comment = (\<lambda>(body, ts).
     case search_audit body of
       None \<Rightarrow> None
     | Some (f, t, a, reason) \<Rightarrow>
         (case (cr_state_of f, cr_state_of t) of
            (Some fs, Some ts') \<Rightarrow>
              Some \<lparr>ev_actor = a, ev_from = fs, ev_to = ts', ev_reason = py_strip reason, ev_timestamp = ts,
                    ev_override = py_contains ''(override)'' body\<rparr>
          | _ \<Rightarrow> None))"

definition parse_comments :: "(string \<times> string) list option \<Rightarrow> cr_audit_event list" where
  "parse_comments cs = (case cs of None \<Rightarrow> [] | Some cs \<Rightarrow> List.map_filter parse_audit_comment cs)"

section \<open>An audit comment read back\<close>

lemma eat_append [simp]: "eat lit (lit @ s) = Some s"
  by (simp add: eat_def py_startswith_def)

lemma eat_space_word:
  "w \<noteq> [] \<Longrightarrow> \<not> py_space (hd w) \<Longrightarrow> eat_space (CHR '' '' # w @ s) = Some (w @ s)"
  by (cases w) (simp_all add: eat_space_def py_space_def)

lemma eat_ticked_written:
  assumes "name \<noteq> []" and "CHR 0x60 \<notin> set name"
  shows "eat_ticked (tick @ name @ tick @ s) = Some (name, s)"
proof -
  have "takeWhile (\<lambda>c. c \<noteq> CHR 0x60) (name @ tick @ s) = name"
    using assms(2) by (induction name) (auto simp: tick_def)
  then show ?thesis using assms(1) by (simp add: eat_ticked_def Let_def)
qed

lemma eat_word_ticked_written:
  assumes "name \<noteq> []" and "CHR 0x60 \<notin> set name"
  shows "eat_word_ticked w (w @ CHR '' '' # tick @ name @ tick @ s) = Some (name, s)"
proof -
  have "eat_space (CHR '' '' # tick @ name @ tick @ s) = Some (tick @ name @ tick @ s)"
    by (rule eat_space_word) (simp_all add: tick_def py_space_def)
  then show ?thesis using eat_ticked_written [OF assms] by (simp add: eat_word_ticked_def)
qed

lemma cr_state_value_plain:
  "cr_state_value st \<noteq> []" "CHR 0x60 \<notin> set (cr_state_value st)" "CHR ''('' \<notin> set (cr_state_value st)"
  by (cases st; simp)+

lemma match_audit_written:
  assumes "f \<noteq> []" "CHR 0x60 \<notin> set f" "t \<noteq> []" "CHR 0x60 \<notin> set t" "a \<noteq> []" "CHR 0x60 \<notin> set a"
  shows "match_audit (''**[Code Request]**'' @ CHR '' '' # ''State changed from'' @ CHR '' '' # tick @ f @ tick
      @ CHR '' '' # ''to'' @ CHR '' '' # tick @ t @ tick @ CHR '' '' # ''by'' @ CHR '' '' # tick @ a @ tick @ ''.'' @ s)
    = Some (f, t, a, eat_reason (skip_override s))"
proof -
  have sp: "eat_space (CHR '' '' # ''State changed from'' @ x) = Some (''State changed from'' @ x)"
    "eat_space (CHR '' '' # ''to'' @ x) = Some (''to'' @ x)" "eat_space (CHR '' '' # ''by'' @ x) = Some (''by'' @ x)" for x
    by (rule eat_space_word; simp add: py_space_def)+
  show ?thesis
    unfolding match_audit_def
    by (simp only: eat_append sp eat_word_ticked_written [OF assms(1,2)] eat_word_ticked_written [OF assms(3,4)]
        eat_word_ticked_written [OF assms(5,6)] Option.bind.simps prod.case)
qed

lemma reason_written:
  "eat_reason (skip_override ((if ov then '' (override)'' else []) @ [newline, newline] @ ''**Reason:** '' @ py_strip r))
     = py_strip r"
proof -
  let ?tail = "[newline, newline] @ ''**Reason:** '' @ py_strip r"
  have nl: "py_space newline" by (simp add: newline_def py_space_def)
  have plain: "skip_override ?tail = ?tail"
    by (simp add: skip_override_def eat_space_def nl eat_def py_startswith_def newline_def py_space_def)
  have ov: "skip_override ('' (override)'' @ ?tail) = ?tail"
  proof -
    have "eat_space (CHR '' '' # ''(override)'' @ ?tail) = Some (''(override)'' @ ?tail)"
      by (rule eat_space_word) (simp_all add: py_space_def)
    moreover have "'' (override)'' @ ?tail = CHR '' '' # ''(override)'' @ ?tail" by simp
    ultimately have "eat_space ('' (override)'' @ ?tail) = Some (''(override)'' @ ?tail)" by (simp only:)
    then show ?thesis unfolding skip_override_def by (simp only: Option.bind.simps eat_append option.case)
  qed
  have "?tail = ([newline, newline] @ ''**Reason:**'') @ CHR '' '' # py_strip r" by simp
  then have "eat_reason ?tail = dropWhile py_space (CHR '' '' # py_strip r)"
    unfolding eat_reason_def by (simp only: eat_append option.case)
  also have "\<dots> = dropWhile py_space (py_strip r)" by (simp add: py_space_def)
  also have "\<dots> = py_strip r"
    using py_strip_ends(1) [of r] by (cases "py_strip r") auto
  finally show ?thesis using plain ov by (cases ov) simp_all
qed

lemma render_split:
  "render_audit_comment ev = ''**[Code Request]**'' @ CHR '' '' # ''State changed from'' @ CHR '' '' # tick
     @ cr_state_value (ev_from ev) @ tick @ CHR '' '' # ''to'' @ CHR '' '' # tick @ cr_state_value (ev_to ev) @ tick
     @ CHR '' '' # ''by'' @ CHR '' '' # tick @ ev_actor ev @ tick @ ''.''
     @ (if ev_override ev then '' (override)'' else []) @ [newline, newline] @ ''**Reason:** '' @ py_strip (ev_reason ev)"
  by (simp add: render_audit_comment_def)

lemma search_audit_first: "match_audit s = Some m \<Longrightarrow> search_audit s = Some m"
  by (cases s) auto

lemma py_contains_set: "py_contains sub s \<Longrightarrow> set sub \<subseteq> set s"
  by (auto simp: py_contains_iff)

lemma set_py_strip: "set (py_strip s) \<subseteq> set s"
  by (auto simp: py_strip_def dest!: set_dropWhileD)

lemma override_flag:
  assumes "CHR ''('' \<notin> set (ev_actor ev)" and "CHR ''('' \<notin> set (ev_reason ev)"
  shows "py_contains ''(override)'' (render_audit_comment ev) = ev_override ev"
proof (cases "ev_override ev")
  case True
  then have "render_audit_comment ev = (''**[Code Request]** State changed from '' @ tick @ cr_state_value (ev_from ev) @ tick
      @ '' to '' @ tick @ cr_state_value (ev_to ev) @ tick @ '' by '' @ tick @ ev_actor ev @ tick @ ''. '')
      @ ''(override)'' @ ([newline, newline] @ ''**Reason:** '' @ py_strip (ev_reason ev))"
    by (simp add: render_audit_comment_def)
  with True show ?thesis unfolding py_contains_iff by blast
next
  case False
  have "CHR ''('' \<notin> set (render_audit_comment ev)"
    using assms set_py_strip [of "ev_reason ev"] False
    by (auto simp: render_audit_comment_def cr_state_value_plain tick_def newline_def)
  with False show ?thesis using py_contains_set [of "''(override)''" "render_audit_comment ev"] by auto
qed

lemma parse_render:
  assumes "ev_actor ev \<noteq> []" and "CHR 0x60 \<notin> set (ev_actor ev)"
  shows "parse_audit_comment (render_audit_comment ev, ts) = Some (ev\<lparr>ev_reason := py_strip (ev_reason ev), ev_timestamp := ts,
    ev_override := py_contains ''(override)'' (render_audit_comment ev)\<rparr>)"
proof -
  have "search_audit (render_audit_comment ev) =
      Some (cr_state_value (ev_from ev), cr_state_value (ev_to ev), ev_actor ev, py_strip (ev_reason ev))"
    unfolding render_split
    by (rule search_audit_first, subst match_audit_written)
      (simp_all only: cr_state_value_plain assms reason_written not_False_eq_True simp_thms)
  then show ?thesis by (cases ev) (simp add: parse_audit_comment_def)
qed

text \<open>The audit comment written on a transition reads back as the event, with its reason stripped, when the
  actor is a name without a tick and neither the actor nor the reason holds an opening parenthesis.\<close>

theorem audit_comment_roundtrip:
  assumes "ev_actor ev \<noteq> []" and "CHR 0x60 \<notin> set (ev_actor ev)"
    and "CHR ''('' \<notin> set (ev_actor ev)" and "CHR ''('' \<notin> set (ev_reason ev)"
  shows "parse_audit_comment (render_audit_comment ev, ev_timestamp ev) = Some (ev\<lparr>ev_reason := py_strip (ev_reason ev)\<rparr>)"
  using parse_render [OF assms(1,2), of "ev_timestamp ev"] override_flag [OF assms(3,4)] by simp

definition sample_event :: "string \<Rightarrow> cr_audit_event" where
  "sample_event reason = \<lparr>ev_actor = ''ann'', ev_from = CrDraft, ev_to = CrTriage, ev_reason = reason,
     ev_timestamp = ''t'', ev_override = False\<rparr>"

theorem audit_comment_roundtrip_witness:
  "parse_audit_comment (render_audit_comment (sample_event ''ready''), ''t'') = Some (sample_event ''ready'')"
proof -
  have "py_strip ''ready'' = ''ready''" by code_simp
  with audit_comment_roundtrip [of "sample_event ''ready''"] show ?thesis by (simp add: sample_event_def)
qed

text \<open>A reason that mentions an override is read back as one.\<close>

lemma reason_forges_override:
  "map_option ev_override (parse_audit_comment (render_audit_comment (sample_event ''no (override) here''), ''t'')) = Some True"
proof -
  have "py_contains ''(override)'' (render_audit_comment (sample_event ''no (override) here''))" by code_simp
  with parse_render [of "sample_event ''no (override) here''" "''t''"] show ?thesis by (simp add: sample_event_def)
qed

section \<open>The cache file\<close>

text \<open>An entry that is a mapping but no request: what \<open>list\<close> reads of it. \<open>or_id\<close> is absent when the entry
  has no id.\<close>

record other_record =
  or_id :: "string option"
  or_repository :: "string option"
  or_prompt :: "string option"
  or_title :: "string option"
  or_status :: "string option"
  or_branch :: "string option"
  or_standards :: "string list"
  or_created_at :: "string option"

datatype cache_entry = CachedRequest code_request | OtherRecord other_record | NotARecord

datatype cache_file = Absent | Unreadable | Entries "cache_entry list"

fun read_cache :: "cache_file \<Rightarrow> cache_entry list" where
  "read_cache (Entries es) = es"
| "read_cache _ = []"

text \<open>\<open>[CodeRequest.model_validate(e) for e in current if isinstance(e, dict) and "id" in e]\<close>\<close>

fun validated :: "cache_entry list \<Rightarrow> code_request list option" where
  "validated [] = Some []"
| "validated (CachedRequest r # es) = map_option (\<lambda>rs. r # rs) (validated es)"
| "validated (OtherRecord e # es) = (if or_id e = None then validated es else None)"
| "validated (NotARecord # es) = validated es"

definition text_default :: "string option \<Rightarrow> string \<Rightarrow> string" where
  "text_default v d = (case v of Some s \<Rightarrow> if s \<noteq> [] then s else d | None \<Rightarrow> d)"

definition legacy_request :: "string \<Rightarrow> other_record \<Rightarrow> code_request" where
  "legacy_request now e =
     (let prompt = text_default (or_prompt e) []; created = text_default (or_created_at e) now
      in \<lparr>cr_id = text_default (or_id e) ''cr-legacy'', cr_repository = text_default (or_repository e) ''Runner_Dashboard'',
          cr_title = text_default (or_title e) (''Code Request: '' @ take 40 prompt), cr_issue_number = None,
          cr_issue_url = None, cr_state = (if or_status e = Some ''dispatched'' then CrExecuting else CrDraft),
          cr_prompt = prompt, cr_requester = \<lparr>rq_id = ''legacy'', rq_kind = Human\<rparr>, cr_planner_profile_id = None,
          cr_executor_profile_id = None, cr_profile_snapshot = None, cr_board_route = RouteAuto,
          cr_board_proposal = None, cr_plan_epic = None, cr_branch = text_default (or_branch e) ''main'',
          cr_standards = or_standards e, cr_audit_trail = [], cr_created_at = created, cr_updated_at = created\<rparr>)"

fun listed :: "string \<Rightarrow> cache_entry list \<Rightarrow> code_request list" where
  "listed now [] = []"
| "listed now (CachedRequest r # es) = r # listed now es"
| "listed now (OtherRecord e # es) = legacy_request now e # listed now es"
| "listed now (NotARecord # es) = listed now es"

section \<open>The store\<close>

datatype gh_write =
    CreateIssue string string string "string list"
  | PatchIssue string int string "string list"
  | PostComment string int string

text \<open>\<open>rs_writes\<close> are the writes GitHub accepted.\<close>

record request_store =
  rs_cache :: cache_file
  rs_writes :: "gh_write list"

text \<open>What GitHub answers when the cache is rebuilt: the issues of a repository with whether each is a pull
  request, and the comments of an issue; \<open>None\<close> is a failed or malformed answer.\<close>

record gh_reads =
  fetch_issues :: "string \<Rightarrow> (bool \<times> issue) list option"
  fetch_comments :: "string \<Rightarrow> int \<Rightarrow> (string \<times> string) list option"

record store_env =
  se_dump :: "json \<Rightarrow> string"
  se_load :: "string \<Rightarrow> json option"
  se_repr :: "json \<Rightarrow> string"
  se_repos :: "string list"
  se_now :: string

fun rebuild_issues :: "store_env \<Rightarrow> gh_reads \<Rightarrow> string \<Rightarrow> (bool \<times> issue) list \<Rightarrow> code_request list option" where
  "rebuild_issues env gh repo [] = Some []"
| "rebuild_issues env gh repo ((is_pr, iss) # rest) =
     (if is_pr then rebuild_issues env gh repo rest
      else
        let trail = (case is_number iss of None \<Rightarrow> [] | Some n \<Rightarrow> parse_comments (fetch_comments gh repo n))
        in case code_request_from_issue (se_load env) (se_repr env) (se_now env) iss repo trail of
             None \<Rightarrow> None
           | Some r \<Rightarrow> map_option (\<lambda>rs. r # rs) (rebuild_issues env gh repo rest))"

fun rebuild_repos :: "store_env \<Rightarrow> gh_reads \<Rightarrow> string list \<Rightarrow> code_request list option" where
  "rebuild_repos env gh [] = Some []"
| "rebuild_repos env gh (repo # repos) =
     (case rebuild_issues env gh repo (case fetch_issues gh repo of Some is \<Rightarrow> is | None \<Rightarrow> []) of
        None \<Rightarrow> None
      | Some rs \<Rightarrow> map_option (\<lambda>rest. rs @ rest) (rebuild_repos env gh repos))"

definition rebuild_cache :: "store_env \<Rightarrow> gh_reads \<Rightarrow> request_store \<Rightarrow> code_request list option \<times> request_store" where
  "rebuild_cache env gh st =
     (case rebuild_repos env gh (se_repos env) of
        None \<Rightarrow> (None, st)
      | Some rs \<Rightarrow> (Some rs, st\<lparr>rs_cache := Entries (map CachedRequest rs)\<rparr>))"

definition store_list ::
    "store_env \<Rightarrow> gh_reads \<Rightarrow> bool \<Rightarrow> request_store \<Rightarrow> code_request list option \<times> request_store" where
  "store_list env gh force_refresh st =
     (let rs = listed (se_now env) (read_cache (rs_cache st))
      in if \<not> force_refresh \<and> rs_cache st \<noteq> Absent \<and> rs \<noteq> [] then (Some rs, st) else rebuild_cache env gh st)"

definition names_request :: "string \<Rightarrow> code_request \<Rightarrow> bool" where
  "names_request key r =
     (cr_id r = key \<or>
      (case cr_issue_number r of None \<Rightarrow> False
       | Some n \<Rightarrow> int_text n = key \<or> cr_repository r @ ''#'' @ int_text n = key))"

definition store_get ::
    "store_env \<Rightarrow> gh_reads \<Rightarrow> string \<Rightarrow> request_store \<Rightarrow> code_request option option \<times> request_store" where
  "store_get env gh key st =
     (case store_list env gh False st of
        (None, st1) \<Rightarrow> (None, st1)
      | (Some rs, st1) \<Rightarrow> (Some (List.find (names_request key) rs), st1))"

definition state_labels :: "code_request \<Rightarrow> string list" where
  "state_labels r = [''code-request'', ''code-request:'' @ cr_state_value (cr_state r)]"

text \<open>The answer to the creation of an issue is its number and its address, or a failure.\<close>

definition store_create ::
    "store_env \<Rightarrow> (int option \<times> string option) option \<Rightarrow> code_request \<Rightarrow> request_store \<Rightarrow> code_request option \<times> request_store" where
  "store_create env answer r st =
     (let title = (if cr_title r \<noteq> [] then cr_title r else ''Code Request: '' @ take 40 (cr_prompt r))
      in case answer of
           None \<Rightarrow> (None, st)
         | Some (number, url) \<Rightarrow>
             let st1 = st\<lparr>rs_writes := rs_writes st @
                   [CreateIssue (cr_repository r) title (serialize_issue_body (se_dump env) r) (state_labels r)]\<rparr>;
                 u = r\<lparr>cr_title := title\<rparr>;
                 u = (case number of None \<Rightarrow> u
                      | Some n \<Rightarrow> u\<lparr>cr_issue_number := Some n,
                          cr_id := (if cr_id r = [] \<or> py_startswith (cr_id r) ''cr-unknown''
                                    then ''cr-'' @ cr_repository r @ ''-'' @ int_text n else cr_id r)\<rparr>);
                 u = (case url of Some x \<Rightarrow> if x \<noteq> [] then u\<lparr>cr_issue_url := Some x\<rparr> else u | None \<Rightarrow> u)
             in case validated (read_cache (rs_cache st)) of
                  None \<Rightarrow> (None, st1)
                | Some ms \<Rightarrow> (Some u, st1\<lparr>rs_cache := Entries (map CachedRequest (u # filter (\<lambda>m. cr_id m \<noteq> cr_id u) ms))\<rparr>))"

definition store_save ::
    "store_env \<Rightarrow> bool \<Rightarrow> code_request \<Rightarrow> request_store \<Rightarrow> code_request option \<times> request_store" where
  "store_save env github_ok r st =
     (if cr_issue_number r \<noteq> None \<and> \<not> github_ok then (None, st)
      else
        let st1 = (case cr_issue_number r of None \<Rightarrow> st
                   | Some n \<Rightarrow> st\<lparr>rs_writes := rs_writes st @
                       [PatchIssue (cr_repository r) n (serialize_issue_body (se_dump env) r) (state_labels r)]\<rparr>)
        in case validated (read_cache (rs_cache st1)) of
             None \<Rightarrow> (None, st1)
           | Some ms \<Rightarrow>
               let us = map (\<lambda>m. if cr_id m = cr_id r then r else m) ms;
                   us = (if list_ex (\<lambda>m. cr_id m = cr_id r) ms then us else r # us)
               in (Some r, st1\<lparr>rs_cache := Entries (map CachedRequest us)\<rparr>))"

datatype store_error = NotFound | BadTransition transition_error | StoreRaised

definition store_transition ::
    "store_env \<Rightarrow> gh_reads \<Rightarrow> bool \<Rightarrow> bool \<Rightarrow> string \<Rightarrow> string \<Rightarrow> string \<Rightarrow> string \<Rightarrow> bool \<Rightarrow> transition_gate option \<Rightarrow> string \<Rightarrow>
     request_store \<Rightarrow> (store_error + code_request) \<times> request_store" where
  "store_transition env gh comment_ok patch_ok key target actor reason override gate now st =
     (case store_get env gh key st of
        (None, st1) \<Rightarrow> (Inl StoreRaised, st1)
      | (Some None, st1) \<Rightarrow> (Inl NotFound, st1)
      | (Some (Some r), st1) \<Rightarrow>
          (case transition_str r target actor reason override gate now of
             Inl e \<Rightarrow> (Inl (BadTransition e), st1)
           | Inr u \<Rightarrow>
               let st2 = (case cr_issue_number r of
                            Some n \<Rightarrow> if comment_ok
                              then st1\<lparr>rs_writes := rs_writes st1 @
                                     [PostComment (cr_repository r) n (render_audit_comment (last (cr_audit_trail u)))]\<rparr>
                              else st1
                          | None \<Rightarrow> st1)
               in case store_save env patch_ok u st2 of
                    (None, st3) \<Rightarrow> (Inl StoreRaised, st3)
                  | (Some u, st3) \<Rightarrow> (Inr u, st3)))"

section \<open>The cache rebuilt from GitHub\<close>

definition clean_event :: "cr_audit_event \<Rightarrow> bool" where
  "clean_event ev \<longleftrightarrow> ev_actor ev \<noteq> [] \<and> CHR 0x60 \<notin> set (ev_actor ev) \<and> CHR ''('' \<notin> set (ev_actor ev)
     \<and> CHR ''('' \<notin> set (ev_reason ev)"

text \<open>A request as GitHub keeps it: the white space around the prompt and the reasons is lost, and the instant of an
  event is the one at which GitHub created its comment, \<open>posted r i\<close> for comment \<open>i\<close> of \<open>r\<close>.\<close>

type_synonym comment_clock = "code_request \<Rightarrow> nat \<Rightarrow> string"

definition kept_event :: "(nat \<Rightarrow> string) \<Rightarrow> nat \<times> cr_audit_event \<Rightarrow> cr_audit_event" where
  "kept_event at_github = (\<lambda>(i, ev). ev\<lparr>ev_reason := py_strip (ev_reason ev), ev_timestamp := at_github i\<rparr>)"

definition read_back :: "comment_clock \<Rightarrow> code_request \<Rightarrow> code_request" where
  "read_back posted r = r\<lparr>cr_prompt := py_strip (cr_prompt r),
     cr_audit_trail := map (kept_event (posted r)) (enumerate 0 (cr_audit_trail r))\<rparr>"

definition comments_of :: "comment_clock \<Rightarrow> code_request \<Rightarrow> (string \<times> string) list" where
  "comments_of posted r = map (\<lambda>(i, ev). (render_audit_comment ev, posted r i)) (enumerate 0 (cr_audit_trail r))"

text \<open>GitHub holding the requests \<open>rs\<close>: it answers a page, of 100 issues as the code asks and of 30 comments.\<close>

definition github_with :: "(json \<Rightarrow> string) \<Rightarrow> comment_clock \<Rightarrow> code_request list \<Rightarrow> gh_reads" where
  "github_with dump posted rs =
     \<lparr>fetch_issues = (\<lambda>repo. Some (map (\<lambda>r. (False, issue_of dump r)) (take 100 (filter (\<lambda>r. cr_repository r = repo) rs)))),
      fetch_comments = (\<lambda>repo n. map_option (\<lambda>r. take 30 (comments_of posted r))
        (List.find (\<lambda>r. cr_repository r = repo \<and> cr_issue_number r = Some n) rs))\<rparr>"

definition on_github :: "store_env \<Rightarrow> code_request \<Rightarrow> bool" where
  "on_github env r \<longleftrightarrow> storable r \<and> yaml_faithful (se_dump env) (se_load env) (front_matter_payload r)
     \<and> cr_issue_number r \<noteq> None \<and> list_all clean_event (cr_audit_trail r) \<and> length (cr_audit_trail r) \<le> 30"

lemma parse_clean:
  "clean_event ev \<Longrightarrow> parse_audit_comment (render_audit_comment ev, at_github i) = Some (kept_event at_github (i, ev))"
  using parse_render [of ev "at_github i"] override_flag [of ev] by (simp add: clean_event_def kept_event_def)

lemma trail_read_back:
  "list_all clean_event evs \<Longrightarrow>
     parse_comments (Some (map (\<lambda>(i, ev). (render_audit_comment ev, at_github i)) (enumerate n evs)))
     = map (kept_event at_github) (enumerate n evs)"
  by (induction evs arbitrary: n) (simp_all add: parse_comments_def List.map_filter_def parse_clean)

lemma find_unique:
  assumes "distinct (map f xs)" and "x \<in> set xs"
  shows "List.find (\<lambda>y. f y = f x) xs = Some x"
  using assms by (induction xs) (auto simp: image_iff)

lemma rebuild_issues_written:
  assumes "\<forall>r \<in> set qs. on_github env r \<and> cr_repository r = repo \<and>
    fetch_comments gh repo (the (cr_issue_number r)) = Some (comments_of posted r)"
  shows "rebuild_issues env gh repo (map (\<lambda>r. (False, issue_of (se_dump env) r)) qs) = Some (map (read_back posted) qs)"
  using assms
proof (induction qs)
  case (Cons r qs)
  then have r: "on_github env r" "cr_repository r = repo" by auto
  then obtain n where n: "cr_issue_number r = Some n" by (auto simp: on_github_def)
  have "parse_comments (fetch_comments gh repo n) = map (kept_event (posted r)) (enumerate 0 (cr_audit_trail r))"
    using Cons.prems n trail_read_back [of "cr_audit_trail r" "posted r" 0] r by (simp add: on_github_def comments_of_def)
  moreover have "code_request_from_issue (se_load env) (se_repr env) (se_now env) (issue_of (se_dump env) r) repo trail
      = Some (r\<lparr>cr_prompt := py_strip (cr_prompt r), cr_audit_trail := trail\<rparr>)" for trail
    using issue_read_back [of "se_dump env" "se_load env" r] r by (auto simp: on_github_def)
  ultimately show ?case using Cons n by (simp add: issue_of_simps read_back_def)
qed simp

lemma rebuild_repos_written:
  assumes "\<forall>r \<in> set rs. on_github env r" and "distinct (map (\<lambda>r. (cr_repository r, cr_issue_number r)) rs)"
    and "\<And>repo. length (filter (\<lambda>r. cr_repository r = repo) rs) \<le> 100"
  shows "rebuild_repos env (github_with (se_dump env) posted rs) repos =
    Some (concat (map (\<lambda>repo. map (read_back posted) (filter (\<lambda>r. cr_repository r = repo) rs)) repos))"
proof (induction repos)
  case (Cons repo repos)
  have "fetch_comments (github_with (se_dump env) posted rs) (cr_repository r) (the (cr_issue_number r)) = Some (comments_of posted r)"
    if "r \<in> set rs" for r
  proof -
    from that assms(1) have n: "cr_issue_number r = Some (the (cr_issue_number r))" by (auto simp: on_github_def)
    have "List.find (\<lambda>q. (cr_repository q, cr_issue_number q) = (cr_repository r, cr_issue_number r)) rs = Some r"
      by (rule find_unique [OF assms(2) that])
    then have "List.find (\<lambda>q. cr_repository q = cr_repository r \<and> cr_issue_number q = Some (the (cr_issue_number r))) rs = Some r"
      by (subst (asm) n) simp
    with that assms(1) show ?thesis by (simp add: github_with_def on_github_def comments_of_def)
  qed
  then have "rebuild_issues env (github_with (se_dump env) posted rs) repo
      (map (\<lambda>r. (False, issue_of (se_dump env) r)) (filter (\<lambda>r. cr_repository r = repo) rs))
    = Some (map (read_back posted) (filter (\<lambda>r. cr_repository r = repo) rs))"
    using assms(1) by (intro rebuild_issues_written) auto
  moreover have "fetch_issues (github_with (se_dump env) posted rs) repo =
      Some (map (\<lambda>r. (False, issue_of (se_dump env) r)) (filter (\<lambda>r. cr_repository r = repo) rs))"
    using assms(3) by (simp add: github_with_def)
  ultimately show ?case using Cons.IH by simp
qed simp

text \<open>C17: The cache can be rebuilt from GitHub: whatever the local file held, a forced refresh leaves exactly the
  requests whose issues and audit comments GitHub holds, up to the white space around prompts and reasons and with the
  instants at which GitHub created the comments. This is so while a repository has at most 100 requests and none has
  more than 30 events, the front matter comes back from YAML as it was written, and no actor or reason of an event
  has an opening parenthesis and no actor a back quote.\<close>

theorem cache_rebuilt:
  assumes "\<forall>r \<in> set rs. on_github env r" and "distinct (map (\<lambda>r. (cr_repository r, cr_issue_number r)) rs)"
    and "\<And>repo. length (filter (\<lambda>r. cr_repository r = repo) rs) \<le> 100"
  shows "store_list env (github_with (se_dump env) posted rs) True st =
    (let all = concat (map (\<lambda>repo. map (read_back posted) (filter (\<lambda>r. cr_repository r = repo) rs)) (se_repos env))
     in (Some all, st\<lparr>rs_cache := Entries (map CachedRequest all)\<rparr>))"
  using rebuild_repos_written [OF assms] by (simp add: store_list_def rebuild_cache_def Let_def)

definition sample_store_env :: "code_request \<Rightarrow> store_env" where
  "sample_store_env r = \<lparr>se_dump = (\<lambda>v. ''id: x''), se_load = (\<lambda>y. Some (JDict (front_matter_payload r))), se_repr = (\<lambda>v. []),
     se_repos = [''r''], se_now = ''now''\<rparr>"

definition sample_stored :: code_request where
  "sample_stored = (sample_request CrTriage)\<lparr>cr_issue_number := Some 7, cr_audit_trail := [sample_event ''ready'']\<rparr>"

lemma sample_stored_fields: "cr_repository sample_stored = ''r''" "storable sample_stored"
  "cr_issue_number sample_stored = Some 7" "cr_audit_trail sample_stored = [sample_event ''ready'']"
  by (simp_all add: sample_stored_def sample_request_def storable_def)

lemma sample_on_github: "on_github (sample_store_env sample_stored) sample_stored"
proof -
  have y: "py_strip ''id: x'' = ''id: x''" "\<not> py_contains fence ''id: x''" by code_simp+
  then have "yaml_faithful (\<lambda>v. ''id: x'') (\<lambda>y. Some (JDict (front_matter_payload sample_stored))) (front_matter_payload sample_stored)"
    unfolding yaml_faithful_def y(1) Let_def by simp
  then show ?thesis
    by (simp add: on_github_def sample_store_env_def sample_stored_fields clean_event_def sample_event_def)
qed

theorem cache_rebuilt_witness:
  "store_list (sample_store_env sample_stored) (github_with (\<lambda>v. ''id: x'') (\<lambda>r i. ''later'') [sample_stored]) True
     \<lparr>rs_cache = Unreadable, rs_writes = []\<rparr>
   = (Some [read_back (\<lambda>r i. ''later'') sample_stored],
      \<lparr>rs_cache = Entries [CachedRequest (read_back (\<lambda>r i. ''later'') sample_stored)], rs_writes = []\<rparr>)"
  using cache_rebuilt [of "[sample_stored]" "sample_store_env sample_stored" "\<lambda>r i. ''later''"
      "\<lparr>rs_cache = Unreadable, rs_writes = []\<rparr>"] sample_on_github
  by (simp add: sample_stored_fields) (simp add: sample_store_env_def sample_stored_fields)

text \<open>Beyond a page requests are lost: no page after the first is asked for.\<close>

lemma rebuild_bounded:
  assumes "rebuild_issues env gh repo is = Some rs"
  shows "length rs \<le> length is"
  using assms
proof (induction "is" arbitrary: rs)
  case (Cons i "is")
  then show ?case by (cases i) (fastforce simp: Let_def split: if_splits option.splits)
qed simp

lemma rebuild_loses_requests:
  assumes "rebuild_repos env (github_with dump posted rs) [repo] = Some found"
  shows "length found \<le> 100"
  using assms rebuild_bounded [of env "github_with dump posted rs" repo]
  by (auto simp: github_with_def split: option.splits dest!: rebuild_bounded)

end
