(* ===== verification/Agent_Profiles.thy ===== *)
theory Agent_Profiles
  imports Prelude
begin

text \<open>
  Agent profiles and their store (\<open>backend/code_requests/profiles.py\<close>): named settings for running Code
  Requests, in a JSON file that is seeded with two profiles. The registry of providers and the table of
  engineering standards are the lists of their names. The validation of an updated record is pydantic's:
  what it makes of the current profile is an argument of the update.
\<close>

section \<open>Profiles\<close>

datatype profile_role = PlannerRole | ExecutorRole | BothRoles

record agent_profile =
  ap_id :: string
  ap_name :: string
  ap_description :: string
  ap_provider :: string
  ap_model :: string
  ap_effort :: "string option"
  ap_role :: profile_role
  ap_staff_role :: string
  ap_standards :: "string list"
  ap_prompt_template :: string
  ap_prompt_notes :: string
  ap_budget :: "(string, json) dict"
  ap_runner_target :: string
  ap_approval_gates :: "(string, bool) dict"
  ap_branch_policy :: string
  ap_is_default :: bool
  ap_created_at :: string
  ap_updated_at :: string

definition planner_strong :: "string \<Rightarrow> agent_profile" where
  "planner_strong now =
     \<lparr>ap_id = ''planner-strong'', ap_name = ''Planner Strong (Claude Opus 4)'',
      ap_description = ''Frontier planning agent for decomposing code requests into epics and turnover docs'',
      ap_provider = ''claude_code_cli'', ap_model = ''claude-opus-4'', ap_effort = Some ''high'',
      ap_role = PlannerRole, ap_staff_role = ''chief-architect'',
      ap_standards = [''tdd'', ''dbc'', ''dry'', ''lod'', ''security'', ''docs''],
      ap_prompt_template = [], ap_prompt_notes = [],
      ap_budget = [(''max_cost'', JFloat 2), (''max_tokens'', JInt 200000), (''max_time_s'', JInt 7200)],
      ap_runner_target = ''auto'',
      ap_approval_gates = [(''plan_requires_approval'', True), (''pr_requires_approval'', True)],
      ap_branch_policy = ''feat/cr-'', ap_is_default = True, ap_created_at = now, ap_updated_at = now\<rparr>"

definition executor_cli :: "string \<Rightarrow> agent_profile" where
  "executor_cli now =
     \<lparr>ap_id = ''executor-cli'', ap_name = ''Executor CLI (Codex)'',
      ap_description = ''CLI execution agent for implementing targeted issues with test verification'',
      ap_provider = ''codex_cli'', ap_model = ''gpt-5-codex'', ap_effort = Some ''medium'',
      ap_role = ExecutorRole, ap_staff_role = ''issue-remediator'', ap_standards = [''tdd'', ''dbc''],
      ap_prompt_template = [], ap_prompt_notes = [],
      ap_budget = [(''max_cost'', JFloat (1 / 2)), (''max_tokens'', JInt 50000), (''max_time_s'', JInt 3600)],
      ap_runner_target = ''auto'',
      ap_approval_gates = [(''plan_requires_approval'', False), (''pr_requires_approval'', True)],
      ap_branch_policy = ''feat/cr-'', ap_is_default = False, ap_created_at = now, ap_updated_at = now\<rparr>"

definition default_profiles :: "string \<Rightarrow> agent_profile list" where
  "default_profiles now = [planner_strong now, executor_cli now]"

section \<open>The store\<close>

text \<open>The file is missing, holds a list of valid profiles, or does not (unreadable, no list, an invalid item).\<close>

datatype profile_file = NoProfiles | Profiles "agent_profile list" | BrokenProfiles

datatype profile_error =
    UnknownProvider string
  | UnknownStandard string
  | ProfileExists string
  | NoSuchProfile string
  | LastProfile
  | InvalidProfile

record profile_env =
  pe_registry :: "string list"
  pe_standards :: "string list"

fun profile_list :: "string \<Rightarrow> profile_file \<Rightarrow> agent_profile list \<times> profile_file" where
  "profile_list now NoProfiles = (default_profiles now, Profiles (default_profiles now))"
| "profile_list now (Profiles ps) = (ps, Profiles ps)"
| "profile_list now BrokenProfiles = (default_profiles now, BrokenProfiles)"

definition profile_get :: "string \<Rightarrow> string \<Rightarrow> profile_file \<Rightarrow> agent_profile option \<times> profile_file" where
  "profile_get now i f = (case profile_list now f of (ps, f1) \<Rightarrow> (List.find (\<lambda>p. ap_id p = i) ps, f1))"

definition plays :: "profile_role \<Rightarrow> agent_profile \<Rightarrow> bool" where
  "plays role p \<longleftrightarrow> ap_role p = role \<or> ap_role p = BothRoles \<or> role = BothRoles"

definition default_or_fallback :: "string \<Rightarrow> profile_role \<Rightarrow> profile_file \<Rightarrow> agent_profile \<times> profile_file" where
  "default_or_fallback now role f =
     (case profile_list now f of (ps, f1) \<Rightarrow>
        ((case List.find (\<lambda>p. ap_is_default p \<and> plays role p) ps of
            Some p \<Rightarrow> p
          | None \<Rightarrow> (case List.find (plays role) ps of
                Some p \<Rightarrow> p
              | None \<Rightarrow> (case ps of p # _ \<Rightarrow> p | [] \<Rightarrow> planner_strong now))), f1))"

fun validate_standards :: "string list \<Rightarrow> string list \<Rightarrow> profile_error option" where
  "validate_standards table [] = None"
| "validate_standards table (s # ss) = (if s \<in> set table then validate_standards table ss else Some (UnknownStandard s))"

definition validate_profile :: "profile_env \<Rightarrow> agent_profile \<Rightarrow> profile_error option" where
  "validate_profile env p =
     (if ap_provider p \<notin> set (pe_registry env) then Some (UnknownProvider (ap_provider p))
      else validate_standards (pe_standards env) (ap_standards p))"

text \<open>The other profiles of the role give up the default.\<close>

definition undefault :: "profile_role \<Rightarrow> agent_profile \<Rightarrow> agent_profile" where
  "undefault role p = (if ap_role p = role then p\<lparr>ap_is_default := False\<rparr> else p)"

definition profile_create ::
    "profile_env \<Rightarrow> string \<Rightarrow> agent_profile \<Rightarrow> profile_file \<Rightarrow> (profile_error + agent_profile) \<times> profile_file" where
  "profile_create env now p f =
     (case validate_profile env p of
        Some e \<Rightarrow> (Inl e, f)
      | None \<Rightarrow>
          (case profile_list now f of (ps, f1) \<Rightarrow>
             if list_ex (\<lambda>q. ap_id q = ap_id p) ps then (Inl (ProfileExists (ap_id p)), f1)
             else (Inr p, Profiles ((if ap_is_default p then map (undefault (ap_role p)) ps else ps) @ [p]))))"

fun index_where :: "('a \<Rightarrow> bool) \<Rightarrow> 'a list \<Rightarrow> nat option" where
  "index_where P [] = None"
| "index_where P (x # xs) = (if P x then Some 0 else map_option Suc (index_where P xs))"

text \<open>\<open>merged\<close> is what pydantic makes of the current record with the updates laid over it; the id and the time
  of the update are set before.\<close>

definition profile_update ::
    "profile_env \<Rightarrow> string \<Rightarrow> string \<Rightarrow> (agent_profile \<Rightarrow> agent_profile option) \<Rightarrow> profile_file \<Rightarrow>
     (profile_error + agent_profile) \<times> profile_file" where
  "profile_update env now i merged f =
     (case profile_list now f of (ps, f1) \<Rightarrow>
        (case index_where (\<lambda>p. ap_id p = i) ps of
           None \<Rightarrow> (Inl (NoSuchProfile i), f1)
         | Some idx \<Rightarrow>
             (case merged (ps ! idx) of
                None \<Rightarrow> (Inl InvalidProfile, f1)
              | Some m \<Rightarrow>
                  let u = m\<lparr>ap_id := i, ap_updated_at := now\<rparr>
                  in case validate_profile env u of
                       Some e \<Rightarrow> (Inl e, f1)
                     | None \<Rightarrow>
                         let qs = (if ap_is_default u then map (\<lambda>p. if ap_id p \<noteq> i then undefault (ap_role u) p else p) ps
                                   else ps)
                         in (Inr u, Profiles (qs[idx := u])))))"

definition profile_delete :: "string \<Rightarrow> string \<Rightarrow> profile_file \<Rightarrow> profile_error option \<times> profile_file" where
  "profile_delete now i f =
     (case profile_list now f of (ps, f1) \<Rightarrow>
        let remaining = filter (\<lambda>p. ap_id p \<noteq> i) ps
        in if length remaining = length ps then (Some (NoSuchProfile i), f1)
           else case remaining of
                  [] \<Rightarrow> (Some LastProfile, f1)
                | p # qs \<Rightarrow>
                    (None, Profiles (if list_ex ap_is_default remaining then remaining else p\<lparr>ap_is_default := True\<rparr> # qs)))"

section \<open>What the store keeps\<close>

definition profile_ok :: "profile_env \<Rightarrow> agent_profile \<Rightarrow> bool" where
  "profile_ok env p \<longleftrightarrow> ap_provider p \<in> set (pe_registry env) \<and> set (ap_standards p) \<subseteq> set (pe_standards env)"

definition defaults_of :: "profile_role \<Rightarrow> agent_profile list \<Rightarrow> nat" where
  "defaults_of role ps = length (filter (\<lambda>p. ap_is_default p \<and> ap_role p = role) ps)"

definition profiles_ok :: "profile_env \<Rightarrow> agent_profile list \<Rightarrow> bool" where
  "profiles_ok env ps \<longleftrightarrow>
     ps \<noteq> [] \<and> distinct (map ap_id ps) \<and> list_all (profile_ok env) ps \<and> (\<forall>role. defaults_of role ps \<le> 1)"

fun file_ok :: "profile_env \<Rightarrow> profile_file \<Rightarrow> bool" where
  "file_ok env (Profiles ps) = profiles_ok env ps"
| "file_ok env _ = True"

definition seeds_known :: "profile_env \<Rightarrow> bool" where
  "seeds_known env \<longleftrightarrow> {''claude_code_cli'', ''codex_cli''} \<subseteq> set (pe_registry env)
     \<and> {''tdd'', ''dbc'', ''dry'', ''lod'', ''security'', ''docs''} \<subseteq> set (pe_standards env)"

datatype profile_op =
    ListProfiles string
  | CreateProfile string agent_profile
  | UpdateProfile string string "agent_profile \<Rightarrow> agent_profile option"
  | DeleteProfile string string

fun profile_step :: "profile_env \<Rightarrow> profile_op \<Rightarrow> profile_file \<Rightarrow> profile_file" where
  "profile_step env (ListProfiles now) f = snd (profile_list now f)"
| "profile_step env (CreateProfile now p) f = snd (profile_create env now p f)"
| "profile_step env (UpdateProfile now i m) f = snd (profile_update env now i m f)"
| "profile_step env (DeleteProfile now i) f = snd (profile_delete now i f)"

lemma defaults_of_simps [simp]:
  "defaults_of role [] = 0"
  "defaults_of role (p # ps) = (if ap_is_default p \<and> ap_role p = role then Suc (defaults_of role ps) else defaults_of role ps)"
  "defaults_of role (ps @ qs) = defaults_of role ps + defaults_of role qs"
  by (simp_all add: defaults_of_def)

lemma default_profiles_ok: "seeds_known env \<Longrightarrow> profiles_ok env (default_profiles now)"
  by (auto simp: profiles_ok_def default_profiles_def planner_strong_def executor_cli_def profile_ok_def seeds_known_def)

lemma profile_list_ok:
  assumes "seeds_known env" and "file_ok env f" and "profile_list now f = (ps, f1)"
  shows "profiles_ok env ps" and "file_ok env f1"
  using assms default_profiles_ok [OF assms(1), of now] by (cases f; auto)+

lemma validate_standards_None: "validate_standards table ss = None \<longleftrightarrow> set ss \<subseteq> set table"
  by (induction ss) auto

lemma validate_profile_ok: "validate_profile env p = None \<longleftrightarrow> profile_ok env p"
  by (simp add: validate_profile_def profile_ok_def validate_standards_None)

lemma undefault_simps [simp]:
  "ap_id (undefault role p) = ap_id p" "ap_role (undefault role p) = ap_role p"
  "profile_ok env (undefault role p) = profile_ok env p"
  by (simp_all add: undefault_def profile_ok_def)

lemma defaults_undefault:
  "defaults_of r (map (undefault role) ps) = (if r = role then 0 else defaults_of r ps)"
  by (induction ps) (auto simp: undefault_def)

lemma profile_create_ok:
  assumes "seeds_known env" and "file_ok env f"
  shows "file_ok env (snd (profile_create env now p f))"
proof -
  obtain ps f1 where l: "profile_list now f = (ps, f1)" by (cases "profile_list now f")
  note ok = profile_list_ok [OF assms l]
  have ids: "map ap_id (map (undefault r) ps) = map ap_id ps" for r by simp
  show ?thesis
    using ok assms(2) l
    by (auto simp: profile_create_def profiles_ok_def list_ex_iff defaults_undefault validate_profile_ok list_all_iff
        comp_def image_iff split: option.split)
qed

lemma index_where_split:
  "index_where P xs = Some i \<Longrightarrow> \<exists>as x bs. xs = as @ x # bs \<and> i = length as \<and> P x \<and> list_all (\<lambda>y. \<not> P y) as"
proof (induction xs arbitrary: i)
  case (Cons y ys)
  show ?case
  proof (cases "P y")
    case True
    with Cons.prems show ?thesis by (intro exI [of _ "[]"]) auto
  next
    case False
    with Cons.prems obtain j where j: "index_where P ys = Some j" "i = Suc j" by auto
    from Cons.IH [OF j(1)] obtain as x bs where "ys = as @ x # bs" "j = length as" "P x" "list_all (\<lambda>y. \<not> P y) as" by blast
    with j False show ?thesis by (intro exI [of _ "y # as"]) auto
  qed
qed simp

lemma map_others:
  "i \<notin> ap_id ` set ps \<Longrightarrow> map (\<lambda>p. if ap_id p \<noteq> i then undefault r p else p) ps = map (undefault r) ps"
  by (induction ps) auto

lemma defaults_le: "defaults_of r (as @ p # bs) \<le> 1 \<Longrightarrow> defaults_of r as + defaults_of r bs \<le> 1"
  by (auto split: if_splits)

lemma update_mid: "n = length xs \<Longrightarrow> (xs @ y # ys)[n := z] = xs @ z # ys"
  by simp

lemma profile_update_ok:
  assumes "seeds_known env" and "file_ok env f"
  shows "file_ok env (snd (profile_update env now i m f))"
proof -
  obtain ps f1 where l: "profile_list now f = (ps, f1)" by (cases "profile_list now f")
  note ok = profile_list_ok [OF assms l]
  show ?thesis
  proof (cases "index_where (\<lambda>p. ap_id p = i) ps")
    case None
    with l ok show ?thesis by (simp add: profile_update_def)
  next
    case (Some idx)
    from index_where_split [OF Some] obtain as p bs where
      ps: "ps = as @ p # bs" "idx = length as" and p: "ap_id p = i" by blast
    from ok(1) ps p have i: "i \<notin> ap_id ` set as" "i \<notin> ap_id ` set bs" by (auto simp: profiles_ok_def)
    have le: "defaults_of r as + defaults_of r bs \<le> 1" for r
      using ok(1) ps by (intro defaults_le [of r as p bs]) (simp add: profiles_ok_def)
    show ?thesis
    proof (cases "m p")
      case None
      with l ok Some ps show ?thesis by (simp add: profile_update_def)
    next
      case new: (Some q)
      let ?u = "q\<lparr>ap_id := i, ap_updated_at := now\<rparr>"
      let ?g = "if ap_is_default ?u then map (undefault (ap_role ?u)) else id"
      have "profiles_ok env (?g as @ ?u # ?g bs)" if "profile_ok env ?u"
      proof -
        have ids: "map ap_id (?g xs) = map ap_id xs" and oks: "list_all (profile_ok env) (?g xs) = list_all (profile_ok env) xs"
          for xs by (auto simp: list_all_iff)
        have "distinct (map ap_id (?g as @ ?u # ?g bs))"
          using ok(1) ps p unfolding map_append list.map(2) ids by (simp add: profiles_ok_def)
        moreover have "list_all (profile_ok env) (?g as @ ?u # ?g bs)"
          using ok(1) ps that unfolding list_all_append list.pred_inject oks by (simp add: profiles_ok_def)
        moreover have "defaults_of r (?g as @ ?u # ?g bs) \<le> 1" for r
          using le [of r] by (simp add: defaults_undefault)
        ultimately show ?thesis by (simp add: profiles_ok_def del: map_append)
      qed
      then show ?thesis
        using l ok Some ps new p i
        by (auto simp: profile_update_def Let_def map_others validate_profile_ok update_mid split: option.split)
    qed
  qed
qed

lemma profiles_ok_filter:
  assumes "profiles_ok env ps" and "filter P ps \<noteq> []"
  shows "profiles_ok env (filter P ps)"
proof -
  have "defaults_of r (filter P ps) \<le> defaults_of r ps" for r by (induction ps) auto
  with assms show ?thesis
    by (auto simp: profiles_ok_def list_all_iff distinct_map_filter intro: le_trans)
qed

lemma no_defaults: "\<not> list_ex ap_is_default ps \<Longrightarrow> defaults_of r ps = 0"
  by (induction ps) auto

lemma profile_delete_ok:
  assumes "seeds_known env" and "file_ok env f"
  shows "file_ok env (snd (profile_delete now i f))"
proof -
  obtain ps f1 where l: "profile_list now f = (ps, f1)" by (cases "profile_list now f")
  note ok = profile_list_ok [OF assms l]
  show ?thesis
  proof (cases "filter (\<lambda>p. ap_id p \<noteq> i) ps")
    case Nil
    with l ok show ?thesis by (auto simp: profile_delete_def Let_def)
  next
    case (Cons p qs)
    then have r: "profiles_ok env (p # qs)" using profiles_ok_filter [OF ok(1), of "\<lambda>p. ap_id p \<noteq> i"] by simp
    have "profiles_ok env (p\<lparr>ap_is_default := True\<rparr> # qs)" if "\<not> list_ex ap_is_default (p # qs)"
      using r no_defaults [of qs] that by (auto simp: profiles_ok_def profile_ok_def)
    with l ok r Cons show ?thesis by (auto simp: profile_delete_def Let_def)
  qed
qed

lemma profile_step_ok: "seeds_known env \<Longrightarrow> file_ok env f \<Longrightarrow> file_ok env (profile_step env op f)"
proof (cases op)
  case (ListProfiles now)
  assume "seeds_known env" "file_ok env f"
  with ListProfiles profile_list_ok(2) [of env f now] show ?thesis by (cases "profile_list now f") auto
qed (simp_all add: profile_create_ok profile_update_ok profile_delete_ok)

text \<open>C18: Whatever is created, updated and deleted, the file of profiles is never emptied, its ids are distinct,
  every profile names a known provider and known standards, and a role has at most one default profile.\<close>

theorem profile_file_well_formed:
  assumes "seeds_known env" and "file_ok env f"
  shows "file_ok env (fold (profile_step env) ops f)"
  using assms(2) by (induction ops arbitrary: f) (simp_all add: assms(1) profile_step_ok)

definition sample_profile_env :: profile_env where
  "sample_profile_env = \<lparr>pe_registry = [''claude_code_cli'', ''codex_cli''],
     pe_standards = [''tdd'', ''dbc'', ''dry'', ''lod'', ''security'', ''docs'']\<rparr>"

theorem profile_file_well_formed_witness:
  "file_ok sample_profile_env (fold (profile_step sample_profile_env)
     [ListProfiles ''t'', UpdateProfile ''t'' ''executor-cli'' (\<lambda>p. Some (p\<lparr>ap_is_default := True\<rparr>)),
      DeleteProfile ''t'' ''planner-strong'', DeleteProfile ''t'' ''executor-cli''] NoProfiles)"
  by (rule profile_file_well_formed) (auto simp: sample_profile_env_def seeds_known_def)

text \<open>The profile chosen for a role plays it, when one does; a default one is preferred.\<close>

lemma default_or_fallback_plays:
  assumes "list_ex (plays role) (fst (profile_list now f))"
  shows "plays role (fst (default_or_fallback now role f))"
proof -
  obtain ps f1 where l: "profile_list now f = (ps, f1)" by (cases "profile_list now f")
  from assms l obtain p where "List.find (plays role) ps = Some p"
    by (cases "List.find (plays role) ps") (auto simp: find_None_iff list_ex_iff)
  moreover from this have "plays role p" by (auto simp: find_Some_iff)
  moreover have "plays role q" if "List.find (\<lambda>p. ap_is_default p \<and> plays role p) ps = Some q" for q
    using that by (auto simp: find_Some_iff)
  ultimately show ?thesis
    using l by (cases "List.find (\<lambda>p. ap_is_default p \<and> plays role p) ps") (simp_all add: default_or_fallback_def)
qed

lemma profile_get_id: "fst (profile_get now i f) = Some p \<Longrightarrow> ap_id p = i"
  by (auto simp: profile_get_def find_Some_iff split: prod.splits)

end
