(* ===== verification/Dispatch_Quota.thy ===== *)
theory Dispatch_Quota
  imports Prelude
begin

text \<open>
  The hourly quota of dispatches per principal (\<open>backend/dispatch_quota.py\<close>): the instants of a
  principal's dispatches within a sliding window, pruned on access, and a hard cap on their number. The
  clock is an argument; it is monotonic.
\<close>

section \<open>The tracker\<close>

record quota_metrics =
  qm_allowed :: nat
  qm_rejected_anonymous :: nat
  qm_rejected_rate_limited :: nat
  qm_current_principals :: nat

record dispatch_quota =
  dq_window :: seconds
  dq_max :: nat
  dq_timestamps :: "(string, seconds list) dict"
  dq_metrics :: quota_metrics

definition new_quota :: "seconds \<Rightarrow> nat \<Rightarrow> dispatch_quota" where
  "new_quota window cap = \<lparr>dq_window = window, dq_max = cap, dq_timestamps = [], dq_metrics =
     \<lparr>qm_allowed = 0, qm_rejected_anonymous = 0, qm_rejected_rate_limited = 0, qm_current_principals = 0\<rparr>\<rparr>"

definition window_seconds :: seconds where
  "window_seconds = 3600"

definition max_per_principal_per_hour :: nat where
  "max_per_principal_per_hour = 100"

definition is_anonymous :: "string \<Rightarrow> bool" where
  "is_anonymous p =
     (p = [] \<or> (let n = py_lower (py_strip p)
                in n = [] \<or> n \<in> {''anonymous'', ''none'', ''null'', ''unknown'', ''-''}))"

definition stamps :: "dispatch_quota \<Rightarrow> string \<Rightarrow> seconds list" where
  "stamps q p = (case map_of (dq_timestamps q) p of Some ts \<Rightarrow> ts | None \<Rightarrow> [])"

definition set_principals :: "nat \<Rightarrow> dispatch_quota \<Rightarrow> dispatch_quota" where
  "set_principals n q = q\<lparr>dq_metrics := (dq_metrics q)\<lparr>qm_current_principals := n\<rparr>\<rparr>"

definition put_stamps :: "string \<Rightarrow> seconds list \<Rightarrow> dispatch_quota \<Rightarrow> dispatch_quota" where
  "put_stamps p ts q = q\<lparr>dq_timestamps := AList.update p ts (dq_timestamps q)\<rparr>"

definition drop_stamps :: "string \<Rightarrow> dispatch_quota \<Rightarrow> dispatch_quota" where
  "drop_stamps p q = q\<lparr>dq_timestamps := AList.delete p (dq_timestamps q)\<rparr>"

definition principals :: "dispatch_quota \<Rightarrow> nat" where
  "principals q = length (dq_timestamps q)"

definition prune_locked :: "string \<Rightarrow> seconds \<Rightarrow> dispatch_quota \<Rightarrow> seconds list \<times> dispatch_quota" where
  "prune_locked p cutoff q =
     (let ts = stamps q p; kept = dropWhile (\<lambda>t. \<not> cutoff \<le> t) ts
      in if ts = [] then ([], q)
         else if kept = [] then ([], let q1 = drop_stamps p q in set_principals (principals q1) q1)
         else if length kept < length ts then (kept, put_stamps p kept q)
         else (ts, q))"

datatype quota_check = QuotaOk | AnonymousPrincipal | RateLimited int

definition check_and_record :: "string \<Rightarrow> seconds \<Rightarrow> dispatch_quota \<Rightarrow> quota_check \<times> dispatch_quota" where
  "check_and_record p now q =
     (if is_anonymous p
      then (AnonymousPrincipal,
            q\<lparr>dq_metrics := (dq_metrics q)\<lparr>qm_rejected_anonymous := Suc (qm_rejected_anonymous (dq_metrics q))\<rparr>\<rparr>)
      else
        case prune_locked p (now - dq_window q) q of
          (ts, q1) \<Rightarrow>
            if dq_max q1 \<le> length ts
            then (RateLimited (max 1 (\<lfloor>dq_window q1 - (now - hd ts)\<rfloor> + 1)),
                  q1\<lparr>dq_metrics := (dq_metrics q1)\<lparr>qm_rejected_rate_limited := Suc (qm_rejected_rate_limited (dq_metrics q1))\<rparr>\<rparr>)
            else
              let q2 = put_stamps p (ts @ [now]) q1;
                  q3 = q2\<lparr>dq_metrics := (dq_metrics q2)\<lparr>qm_allowed := Suc (qm_allowed (dq_metrics q2))\<rparr>\<rparr>
              in (QuotaOk, set_principals (principals q3) q3))"

definition current_count :: "string \<Rightarrow> seconds \<Rightarrow> dispatch_quota \<Rightarrow> nat \<times> dispatch_quota" where
  "current_count p now q = (case prune_locked p (now - dq_window q) q of (ts, q1) \<Rightarrow> (length ts, q1))"

definition reset_quota :: "string option \<Rightarrow> dispatch_quota \<Rightarrow> dispatch_quota" where
  "reset_quota p q =
     (let q1 = (case p of None \<Rightarrow> q\<lparr>dq_timestamps := []\<rparr> | Some p \<Rightarrow> drop_stamps p q)
      in set_principals (principals q1) q1)"

section \<open>What the operations do to the instants of a principal\<close>

lemma stamps_put [simp]: "stamps (put_stamps p ts q) p' = (if p' = p then ts else stamps q p')"
  by (simp add: stamps_def put_stamps_def update_conv')

lemma stamps_drop [simp]: "stamps (drop_stamps p q) p' = (if p' = p then [] else stamps q p')"
  by (simp add: stamps_def drop_stamps_def delete_conv')

lemma stamps_metrics [simp]:
  "stamps (q\<lparr>dq_metrics := m\<rparr>) p = stamps q p" "stamps (set_principals n q) p = stamps q p"
  by (simp_all add: stamps_def set_principals_def)

lemma quota_fields [simp]:
  "dq_window (put_stamps p ts q) = dq_window q" "dq_max (put_stamps p ts q) = dq_max q"
  "dq_window (drop_stamps p q) = dq_window q" "dq_max (drop_stamps p q) = dq_max q"
  "dq_window (set_principals n q) = dq_window q" "dq_max (set_principals n q) = dq_max q"
  by (simp_all add: put_stamps_def drop_stamps_def set_principals_def)

lemma length_dropWhile_eq: "length (dropWhile P xs) = length xs \<Longrightarrow> dropWhile P xs = xs"
  by (metis append_self_conv2 length_append length_greater_0_conv less_add_same_cancel2 less_irrefl takeWhile_dropWhile_id)

lemma prune_locked_spec:
  assumes "prune_locked p cutoff q = (ts, q1)"
  shows "ts = dropWhile (\<lambda>t. \<not> cutoff \<le> t) (stamps q p)"
    and "stamps q1 p' = (if p' = p then ts else stamps q p')"
    and "dq_window q1 = dq_window q" and "dq_max q1 = dq_max q"
  using assms length_dropWhile_eq [of "\<lambda>t. \<not> cutoff \<le> t" "stamps q p"]
    length_dropWhile_le [of "\<lambda>t. \<not> cutoff \<le> t" "stamps q p"]
  by (auto simp: prune_locked_def Let_def simp del: dropWhile_eq_Nil_conv split: if_splits)

lemma check_and_record_spec:
  fixes p now q
  defines "kept \<equiv> dropWhile (\<lambda>t. \<not> now - dq_window q \<le> t) (stamps q p)"
  assumes "check_and_record p now q = (c, q1)"
  shows "c = QuotaOk \<longleftrightarrow> \<not> is_anonymous p \<and> length kept < dq_max q"
    and "stamps q1 p' = (if p' = p \<and> \<not> is_anonymous p then kept @ (if c = QuotaOk then [now] else []) else stamps q p')"
    and "dq_window q1 = dq_window q" and "dq_max q1 = dq_max q"
proof -
  obtain ts q0 where pr: "prune_locked p (now - dq_window q) q = (ts, q0)" by (cases "prune_locked p (now - dq_window q) q")
  note spec = prune_locked_spec [OF pr]
  from assms(2) pr spec show "c = QuotaOk \<longleftrightarrow> \<not> is_anonymous p \<and> length kept < dq_max q"
    and "stamps q1 p' = (if p' = p \<and> \<not> is_anonymous p then kept @ (if c = QuotaOk then [now] else []) else stamps q p')"
    and "dq_window q1 = dq_window q" and "dq_max q1 = dq_max q"
    by (auto simp: check_and_record_def Let_def kept_def split: if_splits)
qed

section \<open>At most the cap in any window\<close>

datatype quota_event = AskQuota string seconds | CountQuota string seconds

fun event_time :: "quota_event \<Rightarrow> seconds" where
  "event_time (AskQuota p now) = now"
| "event_time (CountQuota p now) = now"

text \<open>The dispatches a sequence of calls is granted.\<close>

fun quota_grants :: "dispatch_quota \<Rightarrow> quota_event list \<Rightarrow> (string \<times> seconds) list" where
  "quota_grants q [] = []"
| "quota_grants q (AskQuota p now # es) =
     (case check_and_record p now q of
        (c, q1) \<Rightarrow> (if c = QuotaOk then [(p, now)] else []) @ quota_grants q1 es)"
| "quota_grants q (CountQuota p now # es) = quota_grants (snd (current_count p now q)) es"

definition times_of :: "string \<Rightarrow> (string \<times> seconds) list \<Rightarrow> seconds list" where
  "times_of p gs = map snd (filter (\<lambda>g. fst g = p) gs)"

definition count_within :: "seconds \<Rightarrow> seconds \<Rightarrow> seconds list \<Rightarrow> nat" where
  "count_within t w ts = length (filter (\<lambda>s. t \<le> s \<and> s \<le> t + w) ts)"

lemma times_of_append [simp]: "times_of p (xs @ ys) = times_of p xs @ times_of p ys"
  by (simp add: times_of_def)

lemma times_of_one [simp]: "times_of p [(p', t)] = (if p' = p then [t] else [])" "times_of p [] = []"
  by (simp_all add: times_of_def)

text \<open>Past grants \<open>h\<close>: every principal's instants are the end of its grants, and nothing of the last window is
  missing.\<close>

definition remembers :: "dispatch_quota \<Rightarrow> (string \<times> seconds) list \<Rightarrow> seconds \<Rightarrow> bool" where
  "remembers q h now \<longleftrightarrow>
     (\<forall>p. sorted (times_of p h) \<and> (\<forall>t \<in> set (times_of p h). t \<le> now) \<and>
          (\<exists>c \<le> now - dq_window q. stamps q p = dropWhile (\<lambda>t. \<not> c \<le> t) (times_of p h)))"

definition capped :: "dispatch_quota \<Rightarrow> (string \<times> seconds) list \<Rightarrow> bool" where
  "capped q h \<longleftrightarrow> (\<forall>p t. count_within t (dq_window q) (times_of p h) \<le> dq_max q)"

lemma dropWhile_dropWhile_le:
  fixes c d :: rat
  shows "c \<le> d \<Longrightarrow> dropWhile (\<lambda>t. \<not> d \<le> t) (dropWhile (\<lambda>t. \<not> c \<le> t) ts) = dropWhile (\<lambda>t. \<not> d \<le> t) ts"
  by (induction ts) auto

lemma dropWhile_sorted:
  fixes c :: rat
  shows "sorted ts \<Longrightarrow> dropWhile (\<lambda>t. \<not> c \<le> t) ts = filter (\<lambda>t. c \<le> t) ts"
proof (induction ts)
  case (Cons x ts)
  then show ?case by (cases "c \<le> x") (auto intro!: filter_True [symmetric] intro: order_trans)
qed simp

lemma remembers_later: "remembers q h t \<Longrightarrow> t \<le> now \<Longrightarrow> remembers q h now"
  unfolding remembers_def by (meson diff_right_mono order_trans)

lemma length_filter_mono: "(\<And>x. P x \<Longrightarrow> Q x) \<Longrightarrow> length (filter P xs) \<le> length (filter Q xs)"
  by (induction xs) auto

lemma kept_eq:
  assumes "remembers q h now"
  shows "dropWhile (\<lambda>t. \<not> now - dq_window q \<le> t) (stamps q p) = dropWhile (\<lambda>t. \<not> now - dq_window q \<le> t) (times_of p h)"
  using assms unfolding remembers_def by (metis dropWhile_dropWhile_le)

lemma remembers_pruned:
  assumes "remembers q h now" and "dq_window q1 = dq_window q"
    and "\<And>p'. stamps q1 p' = (if p' = p then dropWhile (\<lambda>t. \<not> now - dq_window q \<le> t) (stamps q p) else stamps q p')"
  shows "remembers q1 h now"
  using assms kept_eq [OF assms(1), of p] unfolding remembers_def by (metis order_refl)

lemma remembers_granted:
  assumes "remembers q h now" and "0 \<le> dq_window q" and "dq_window q1 = dq_window q"
    and "\<And>p'. stamps q1 p' = (if p' = p then dropWhile (\<lambda>t. \<not> now - dq_window q \<le> t) (stamps q p) @ [now] else stamps q p')"
  shows "remembers q1 (h @ [(p, now)]) now"
  unfolding remembers_def
proof (intro allI conjI)
  fix p'
  from assms(1) have h: "sorted (times_of p' h)" "\<forall>t \<in> set (times_of p' h). t \<le> now" by (simp_all add: remembers_def)
  then show "sorted (times_of p' (h @ [(p, now)]))" "\<forall>t \<in> set (times_of p' (h @ [(p, now)])). t \<le> now"
    by (auto simp: sorted_append)
  show "\<exists>c \<le> now - dq_window q1. stamps q1 p' = dropWhile (\<lambda>t. \<not> c \<le> t) (times_of p' (h @ [(p, now)]))"
  proof (cases "p' = p")
    case True
    have "dropWhile (\<lambda>t. \<not> now - dq_window q \<le> t) (times_of p h @ [now]) =
        dropWhile (\<lambda>t. \<not> now - dq_window q \<le> t) (times_of p h) @ [now]"
      using assms(2) by (induction "times_of p h" rule: list.induct) (auto simp: dropWhile_append)
    with True assms kept_eq [OF assms(1), of p] show ?thesis by (intro exI [of _ "now - dq_window q"]) simp
  next
    case False
    with assms show ?thesis by (simp add: remembers_def)
  qed
qed

lemma capped_granted:
  assumes "remembers q h now" and "capped q h" and "0 \<le> dq_window q"
    and "length (dropWhile (\<lambda>t. \<not> now - dq_window q \<le> t) (stamps q p)) < dq_max q"
  shows "capped q (h @ [(p, now)])"
  unfolding capped_def
proof (intro allI)
  fix p' t
  have old: "count_within t (dq_window q) (times_of p' h) \<le> dq_max q" using assms(2) by (simp add: capped_def)
  show "count_within t (dq_window q) (times_of p' (h @ [(p, now)])) \<le> dq_max q"
  proof (cases "p' = p \<and> t \<le> now \<and> now \<le> t + dq_window q")
    case True
    from assms(1) have sorted: "sorted (times_of p h)" by (simp add: remembers_def)
    have "count_within t (dq_window q) (times_of p h) \<le> length (filter (\<lambda>s. now - dq_window q \<le> s) (times_of p h))"
      unfolding count_within_def using True
      by (intro length_filter_mono) auto
    also have "\<dots> < dq_max q"
      using assms(4) kept_eq [OF assms(1), of p] dropWhile_sorted [OF sorted] by simp
    finally show ?thesis using True by (simp add: count_within_def)
  next
    case False
    with old show ?thesis by (auto simp: count_within_def)
  qed
qed

lemma grants_capped:
  assumes "remembers q h now" and "capped q h" and "0 \<le> dq_window q"
    and "sorted (now # map event_time es)"
  shows "count_within t (dq_window q) (times_of p (h @ quota_grants q es)) \<le> dq_max q"
  using assms
proof (induction es arbitrary: q h now)
  case Nil
  then show ?case by (simp add: capped_def)
next
  case (Cons e es)
  let ?now = "event_time e"
  from Cons.prems have sorted: "sorted (?now # map event_time es)" and r: "remembers q h ?now"
    by (auto intro: remembers_later)
  show ?case
  proof (cases e)
    case (AskQuota p0 now0)
    obtain c q1 where run: "check_and_record p0 now0 q = (c, q1)" by (cases "check_and_record p0 now0 q")
    note spec = check_and_record_spec [OF run]
    let ?h = "h @ (if c = QuotaOk then [(p0, now0)] else [])"
    have "remembers q1 ?h now0"
    proof (cases "c = QuotaOk")
      case True
      with spec AskQuota r Cons.prems(3) show ?thesis by (auto intro!: remembers_granted [of q])
    next
      case False
      show ?thesis
      proof (cases "is_anonymous p0")
        case True
        with spec False AskQuota r show ?thesis by (simp add: remembers_def)
      next
        case anon: False
        with spec False AskQuota r show ?thesis by (auto intro!: remembers_pruned [of q h now0 q1 p0])
      qed
    qed
    moreover have "capped q1 ?h"
      using spec(1,3,4) capped_granted [OF r Cons.prems(2,3), of p0] Cons.prems(2) AskQuota
      by (auto simp: capped_def)
    ultimately have "count_within t (dq_window q1) (times_of p (?h @ quota_grants q1 es)) \<le> dq_max q1"
      using Cons.IH [of q1 ?h now0] Cons.prems(3) sorted spec(3) AskQuota by simp
    with run AskQuota spec(3,4) show ?thesis by simp
  next
    case (CountQuota p0 now0)
    obtain ts q1 where run: "prune_locked p0 (now0 - dq_window q) q = (ts, q1)" by (cases "prune_locked p0 (now0 - dq_window q) q")
    note spec = prune_locked_spec [OF run]
    from spec r CountQuota have "remembers q1 h now0" by (auto intro!: remembers_pruned [of q h now0 q1 p0])
    moreover have "capped q1 h" using Cons.prems(2) spec(3,4) by (simp add: capped_def)
    ultimately have "count_within t (dq_window q1) (times_of p (h @ quota_grants q1 es)) \<le> dq_max q1"
      using Cons.IH [of q1 h now0] Cons.prems(3) sorted spec(3) CountQuota by simp
    with run CountQuota spec(3,4) show ?thesis by (simp add: current_count_def)
  qed
qed

text \<open>In any stretch of time as long as the window a principal is granted at most the cap of dispatches,
  however the calls are mixed, as long as the clock does not run backwards.\<close>

theorem dispatch_window_cap:
  assumes "0 \<le> w" and "sorted (map event_time es)"
  shows "count_within t w (times_of p (quota_grants (new_quota w cap) es)) \<le> cap"
proof (cases es)
  case Nil
  then show ?thesis by (simp add: count_within_def times_of_def)
next
  case (Cons e es')
  have "remembers (new_quota w cap) [] (event_time e)"
    unfolding remembers_def by (auto simp: new_quota_def stamps_def intro: exI [of _ "event_time e - w"])
  moreover have "capped (new_quota w cap) []" by (simp add: capped_def count_within_def)
  ultimately show ?thesis
    using grants_capped [of "new_quota w cap" "[]" "event_time e" es t p] assms Cons by (simp add: new_quota_def)
qed

theorem dispatch_window_cap_witness:
  "count_within 0 10 (times_of ''ann'' (quota_grants (new_quota 10 1) [AskQuota ''ann'' 0, AskQuota ''ann'' 10, AskQuota ''ann'' 11])) \<le> 1"
  by (rule dispatch_window_cap) simp_all

end
