(* ===== verification/Dispatch_Envelope.thy ===== *)
theory Dispatch_Envelope
  imports Issue_Record
begin

text \<open>
  Command envelopes (\<open>backend/dispatch/registry.py\<close>, \<open>signing.py\<close>, \<open>envelope.py\<close>, \<open>validate.py\<close> and
  \<open>dispatch_contract.py\<close>): the allowlist, the signature over an envelope's fields, the approval of privileged
  actions, the checks, and the wire form. HMAC-SHA256, SHA-256, the JSON text of a payload, the reading of ISO
  instants and Python's text of a list, a mapping or a float are arguments.
\<close>

section \<open>The registry of actions\<close>

datatype dispatch_access = ReadOnly | Privileged

record dispatch_action =
  da_name :: string
  da_access :: dispatch_access
  da_command :: "string list"
  da_requires_confirmation :: bool

definition read_only_action :: "string \<Rightarrow> string list \<Rightarrow> dispatch_action" where
  "read_only_action name cmd = \<lparr>da_name = name, da_access = ReadOnly, da_command = cmd, da_requires_confirmation = False\<rparr>"

definition privileged_action :: "string \<Rightarrow> string list \<Rightarrow> dispatch_action" where
  "privileged_action name cmd = \<lparr>da_name = name, da_access = Privileged, da_command = cmd, da_requires_confirmation = True\<rparr>"

definition allowlisted_actions :: "dispatch_action list" where
  "allowlisted_actions =
     [read_only_action ''dashboard.status'' [''python3'', ''-m'', ''json.tool''],
      read_only_action ''runner.status'' [''systemctl'', ''status'', ''actions.runner.*''],
      read_only_action ''scheduler.list'' [''systemctl'', ''list-timers'', ''--all''],
      privileged_action ''dashboard.update_and_restart'' [''bash'', ''runner-dashboard/deploy/update-deployed.sh''],
      privileged_action ''runner.restart'' [''sudo'', ''systemctl'', ''restart'', ''actions.runner.*''],
      privileged_action ''runner.stop'' [''sudo'', ''systemctl'', ''stop'', ''actions.runner.*''],
      privileged_action ''service.unregister'' [''sudo'', ''systemctl'', ''disable'', ''--now''],
      privileged_action ''scheduler.modify'' [''sudo'', ''systemctl'', ''enable|disable'', ''<unit>''],
      privileged_action ''agents.dispatch.adhoc'' [''gh'', ''workflow'', ''run'', ''Agent-Quick-Dispatch.yml''],
      privileged_action ''agents.dispatch.pr'' [''gh'', ''workflow'', ''run'', ''Agent-PR-Action.yml''],
      privileged_action ''agents.dispatch.issue'' [''gh'', ''workflow'', ''run'', ''Agent-Issue-Action.yml'']]"

definition get_action :: "string \<Rightarrow> dispatch_action option" where
  "get_action name = List.find (\<lambda>a. da_name a = name) allowlisted_actions"

datatype modify_error = NoMode | NoUnit

definition scheduler_modify_command ::
    "(json \<Rightarrow> string) \<Rightarrow> (string, json) dict \<Rightarrow> modify_error + string list" where
  "scheduler_modify_command repr payload =
     (let raw = (case (json_get payload ''mode'', map_of payload ''enabled'') of
                   (JNull, Some v) \<Rightarrow> JStr (if json_true v then ''enable'' else ''disable'')
                 | (m, _) \<Rightarrow> m);
          mode = py_lower (py_strip (json_str repr (json_or raw (JStr []))));
          unit = py_strip (json_str repr (json_or (json_get payload ''unit'') (json_or (json_get payload ''timer'')
                   (json_or (json_get payload ''service'') (JStr ''runner-scheduler.timer'')))))
      in if mode \<in> {''enable'', ''enabled'', ''on'', ''true''}
         then if unit = [] then Inl NoUnit else Inr [''sudo'', ''systemctl'', ''enable'', unit]
         else if mode \<in> {''disable'', ''disabled'', ''off'', ''false''}
         then if unit = [] then Inl NoUnit else Inr [''sudo'', ''systemctl'', ''disable'', unit]
         else Inl NoMode)"

section \<open>Envelopes\<close>

record confirmation =
  cf_approved_by :: string
  cf_approved_at :: string
  cf_envelope_id :: string
  cf_approval_hmac :: string
  cf_note :: string

record envelope =
  en_action :: string
  en_source :: string
  en_target :: string
  en_requested_by :: string
  en_reason :: string
  en_payload :: "(string, json) dict"
  en_confirmation :: "confirmation option"
  en_id :: string
  en_schema_version :: string
  en_version :: int
  en_issued_at :: string
  en_signature :: string
  en_principal :: string
  en_on_behalf_of :: string
  en_correlation_id :: string
  en_authentic :: bool
  en_pr_lifecycle :: string
  en_effort :: string

definition schema_version :: string where
  "schema_version = ''dispatch-envelope.v2''"

definition effort_levels :: "string list" where
  "effort_levels = [''low'', ''medium'', ''high'']"

definition default_effort :: string where
  "default_effort = ''medium''"

section \<open>Signing\<close>

text \<open>The primitives, and the secrets of the environment: the two variables, the flag for unsigned approvals, and
  the key file (written with a random token when it is missing).\<close>

record dispatch_keys =
  dk_hmac :: "string \<Rightarrow> string \<Rightarrow> string"
  dk_sha :: "string \<Rightarrow> string"
  dk_dumps :: "json \<Rightarrow> string"
  dk_signing_env :: string
  dk_approval_env :: string
  dk_allow_unsigned_env :: string
  dk_key_file :: string

definition load_signing_secret :: "dispatch_keys \<Rightarrow> string" where
  "load_signing_secret ks =
     (let s = py_strip (dk_signing_env ks) in if s \<noteq> [] then s else py_strip (dk_key_file ks))"

definition resolve_approval_secret :: "dispatch_keys \<Rightarrow> string" where
  "resolve_approval_secret ks =
     (let s = py_strip (dk_approval_env ks) in if s \<noteq> [] then s else py_strip (dk_signing_env ks))"

text \<open>The JSON text of a string.\<close>

definition hex_digit :: "nat \<Rightarrow> char" where
  "hex_digit n = ''0123456789abcdef'' ! n"

definition json_escape :: "char \<Rightarrow> string" where
  "json_escape c =
     (let n = (of_char c :: nat)
      in if n = 34 then [CHR 0x5C, CHR 0x22]
         else if n = 92 then [CHR 0x5C, CHR 0x5C]
         else if n = 10 then [CHR 0x5C, CHR ''n'']
         else if n = 13 then [CHR 0x5C, CHR ''r'']
         else if n = 9 then [CHR 0x5C, CHR ''t'']
         else if n = 8 then [CHR 0x5C, CHR ''b'']
         else if n = 12 then [CHR 0x5C, CHR ''f'']
         else if n < 32 then [CHR 0x5C, CHR ''u'', CHR ''0'', CHR ''0'', hex_digit (n div 16), hex_digit (n mod 16)]
         else [c])"

definition json_text :: "string \<Rightarrow> string" where
  "json_text s = CHR 0x22 # concat (map json_escape s) @ [CHR 0x22]"

definition json_field :: "string \<Rightarrow> string \<Rightarrow> string" where
  "json_field k v = json_text k @ CHR '':'' # v"

text \<open>The signed fields as canonical JSON: sorted keys, no spaces.\<close>

definition canonical_json :: "envelope \<Rightarrow> string" where
  "canonical_json e =
     CHR ''{'' # json_field ''action'' (json_text (en_action e)) @ CHR '','' #
       json_field ''correlation_id'' (json_text (en_correlation_id e)) @ CHR '','' #
       json_field ''envelope_id'' (json_text (en_id e)) @ CHR '','' #
       json_field ''envelope_version'' (int_text (en_version e)) @ CHR '','' #
       json_field ''issued_at'' (json_text (en_issued_at e)) @ CHR '','' #
       json_field ''on_behalf_of'' (json_text (en_on_behalf_of e)) @ CHR '','' #
       json_field ''principal'' (json_text (en_principal e)) @ CHR '','' #
       json_field ''reason'' (json_text (en_reason e)) @ CHR '','' #
       json_field ''requested_by'' (json_text (en_requested_by e)) @ CHR '','' #
       json_field ''schema_version'' (json_text (en_schema_version e)) @ CHR '','' #
       json_field ''source'' (json_text (en_source e)) @ CHR '','' #
       json_field ''target'' (json_text (en_target e)) @ ''}''"

definition hash_payload :: "dispatch_keys \<Rightarrow> (string, json) dict \<Rightarrow> string" where
  "hash_payload ks payload = dk_sha ks (dk_dumps ks (JDict payload))"

definition sign_envelope :: "dispatch_keys \<Rightarrow> envelope \<Rightarrow> string" where
  "sign_envelope ks e = dk_hmac ks (load_signing_secret ks) (canonical_json e @ hash_payload ks (en_payload e))"

definition verify_signature :: "dispatch_keys \<Rightarrow> envelope \<Rightarrow> bool" where
  "verify_signature ks e \<longleftrightarrow> en_signature e \<noteq> [] \<and> sign_envelope ks e = en_signature e"

definition approval_hmac :: "dispatch_keys \<Rightarrow> string \<Rightarrow> string \<Rightarrow> string \<Rightarrow> string" where
  "approval_hmac ks secret eid action = dk_hmac ks secret (''approve:'' @ eid @ '':'' @ action)"

definition verify_approval_hmac :: "dispatch_keys \<Rightarrow> confirmation \<Rightarrow> string \<Rightarrow> string \<Rightarrow> bool" where
  "verify_approval_hmac ks cf eid action =
     (let secret = resolve_approval_secret ks
      in if cf_approval_hmac cf = []
         then secret \<noteq> [] \<and> py_lower (py_strip (dk_allow_unsigned_env ks)) \<in> {''1'', ''true'', ''yes'', ''on''}
         else secret \<noteq> [] \<and> cf_approval_hmac cf = approval_hmac ks secret eid action)"

section \<open>Validation\<close>

datatype freshness = Fresh | TooOld | TooNew | BadFormat

definition timestamp_freshness :: "(string \<Rightarrow> seconds option) \<Rightarrow> seconds \<Rightarrow> seconds \<Rightarrow> string \<Rightarrow> freshness" where
  "timestamp_freshness instant now ttl ts =
     (case instant ts of
        None \<Rightarrow> BadFormat
      | Some t \<Rightarrow> if ttl < \<bar>now - t\<bar> then (if t < now then TooOld else TooNew) else Fresh)"

datatype crypto_result =
    CryptoValid
  | UnsupportedSchema
  | SignatureMissing
  | SignatureInvalid
  | IssuedAt freshness
  | ApprovedAt freshness
  | ApprovalInvalid

definition validate_envelope_crypto ::
    "dispatch_keys \<Rightarrow> (string \<Rightarrow> seconds option) \<Rightarrow> seconds \<Rightarrow> envelope \<Rightarrow> crypto_result" where
  "validate_envelope_crypto ks instant now e =
     (if en_schema_version e \<noteq> schema_version then UnsupportedSchema
      else if \<not> en_authentic e then SignatureMissing
      else if en_signature e = [] then SignatureMissing
      else if \<not> verify_signature ks e then SignatureInvalid
      else let issued = timestamp_freshness instant now 300 (en_issued_at e)
           in if issued \<noteq> Fresh then IssuedAt issued
              else case en_confirmation e of
                     None \<Rightarrow> CryptoValid
                   | Some cf \<Rightarrow>
                       let approved = timestamp_freshness instant now 300 (cf_approved_at cf)
                       in if approved \<noteq> Fresh then ApprovedAt approved
                          else if \<not> verify_approval_hmac ks cf (en_id e) (en_action e) then ApprovalInvalid
                          else CryptoValid)"

datatype dispatch_reason =
    Accepted
  | BadSchema string
  | ActionRequired
  | NotAllowlisted string
  | SourceRequired
  | TargetRequired
  | RequestedByRequired
  | ConfirmationRequired string
  | NoApprovedBy
  | NoApprovedAt
  | BadModify modify_error

record dispatch_validation =
  dv_reason :: dispatch_reason
  dv_action :: "dispatch_action option"
  dv_confirmation_required :: bool

definition dv_accepted :: "dispatch_validation \<Rightarrow> bool" where
  "dv_accepted v \<longleftrightarrow> dv_reason v = Accepted"

definition validate_envelope :: "(json \<Rightarrow> string) \<Rightarrow> envelope \<Rightarrow> dispatch_validation" where
  "validate_envelope repr e =
     (if en_schema_version e \<noteq> schema_version then
        \<lparr>dv_reason = BadSchema (en_schema_version e), dv_action = None, dv_confirmation_required = False\<rparr>
      else if en_action e = [] then
        \<lparr>dv_reason = ActionRequired, dv_action = None, dv_confirmation_required = False\<rparr>
      else case get_action (en_action e) of
        None \<Rightarrow> \<lparr>dv_reason = NotAllowlisted (en_action e), dv_action = None, dv_confirmation_required = False\<rparr>
      | Some a \<Rightarrow>
          let verdict = (\<lambda>r. \<lparr>dv_reason = r, dv_action = Some a, dv_confirmation_required = da_requires_confirmation a\<rparr>);
              denied = (\<lambda>r. \<lparr>dv_reason = r, dv_action = Some a, dv_confirmation_required = True\<rparr>)
          in if blank (en_source e) then verdict SourceRequired
             else if blank (en_target e) then verdict TargetRequired
             else if blank (en_requested_by e) then verdict RequestedByRequired
             else if da_access a = Privileged \<and> en_confirmation e = None
             then denied (ConfirmationRequired (da_name a))
             else if da_access a = Privileged \<and> (case en_confirmation e of None \<Rightarrow> True | Some cf \<Rightarrow> blank (cf_approved_by cf))
             then denied NoApprovedBy
             else if da_access a = Privileged \<and> (case en_confirmation e of None \<Rightarrow> True | Some cf \<Rightarrow> blank (cf_approved_at cf))
             then denied NoApprovedAt
             else if da_name a = ''scheduler.modify''
             then (case scheduler_modify_command repr (en_payload e) of
                     Inl err \<Rightarrow> verdict (BadModify err)
                   | Inr _ \<Rightarrow> verdict Accepted)
             else verdict Accepted)"

section \<open>What a signature binds\<close>

definition hex_value :: "char \<Rightarrow> nat" where
  "hex_value c = (let n = (of_char c :: nat) in if n < 58 then n - 48 else n - 87)"

definition json_unescape :: "string \<Rightarrow> char \<times> string" where
  "json_unescape s =
     (if hd s \<noteq> CHR 0x5C then (hd s, tl s)
      else let t = hd (tl s); r = tl (tl s)
           in if t = CHR ''n'' then (char_of (10 :: nat), r)
              else if t = CHR ''r'' then (char_of (13 :: nat), r)
              else if t = CHR ''t'' then (char_of (9 :: nat), r)
              else if t = CHR ''b'' then (char_of (8 :: nat), r)
              else if t = CHR ''f'' then (char_of (12 :: nat), r)
              else if t = CHR ''u'' then (char_of (16 * hex_value (r ! 2) + hex_value (r ! 3)), drop 4 r)
              else (t, r))"

lemma hex_value_digit: "n < 16 \<Longrightarrow> hex_value (hex_digit n) = n"
proof -
  have "list_all (\<lambda>n. hex_value (hex_digit n) = n) [0..<16]" by code_simp
  then show "n < 16 \<Longrightarrow> ?thesis" by (simp add: list_all_iff)
qed

lemma char_of_code: "(of_char c :: nat) = n \<Longrightarrow> char_of n = c"
  by (metis char_of_char)

lemma json_unescape_escape: "json_unescape (json_escape c @ r) = (c, r)"
proof -
  define n where "n = (of_char c :: nat)"
  have c: "c = char_of n" by (simp add: n_def)
  have plain: "c \<noteq> CHR 0x5C" if "n \<noteq> 92" using that by (auto simp: n_def)
  have hex: "16 * hex_value (hex_digit (n div 16)) + hex_value (hex_digit (n mod 16)) = n" if "n < 32"
    using that by (simp add: hex_value_digit)
  have l: "CHR 0x22 = char_of (34 :: nat)" "CHR 0x5C = char_of (92 :: nat)" by (rule sym, rule char_of_code, simp)+
  consider "n = 34" | "n = 92" | "n = 10" | "n = 13" | "n = 9" | "n = 8" | "n = 12"
    | "n < 32" "n \<notin> {10, 13, 9, 8, 12}" | "\<not> n < 32" "n \<noteq> 34" "n \<noteq> 92" by blast
  then show ?thesis
    by cases (simp_all add: json_escape_def Let_def n_def [symmetric] json_unescape_def plain hex c [symmetric] char_of_code
        del: char_of_eq_iff, simp_all only: c l)
qed

lemma json_escape_prefix: "json_escape c @ r = json_escape d @ r' \<Longrightarrow> c = d \<and> r = r'"
  by (metis Pair_inject json_unescape_escape)

lemma json_escape_head: "json_escape c @ r \<noteq> CHR 0x22 # r'"
proof -
  have "(of_char c :: nat) \<noteq> 34 \<Longrightarrow> c \<noteq> CHR 0x22" by auto
  then show ?thesis by (auto simp: json_escape_def Let_def)
qed

lemma json_text_prefix [simp]: "json_text s @ r = json_text t @ r' \<longleftrightarrow> s = t \<and> r = r'"
proof
  show "json_text s @ r = json_text t @ r' \<Longrightarrow> s = t \<and> r = r'"
    unfolding json_text_def
  proof (induction s arbitrary: t)
    case Nil
    then show ?case
      by (cases t) (use json_escape_head in \<open>auto simp: append_assoc dest: sym\<close>)
  next
    case (Cons c s)
    then show ?case
    proof (cases t)
      case Nil
      with Cons.prems json_escape_head [of c] show ?thesis by auto
    next
      case t: (Cons d t')
      from Cons.prems t json_escape_prefix [of c _ d] have "c = d"
        "concat (map json_escape s) @ CHR 0x22 # r = concat (map json_escape t') @ CHR 0x22 # r'" by auto
      with Cons.IH [of t'] t show ?thesis by simp
    qed
  qed
qed simp

lemma int_text_chars: "CHR '','' \<notin> set (int_text i)"
proof -
  have "CHR '','' \<notin> set (nat_digits n)" for n
    using nat_digits_digits [of n] unfolding list_all_iff by (auto simp: is_digit_def)
  then show ?thesis by (auto simp: int_text_def)
qed

lemma until_comma: "c \<notin> set s \<Longrightarrow> takeWhile (\<lambda>x. x \<noteq> c) (s @ c # r) = s"
  by (induction s) auto

lemma int_text_prefix [simp]: "int_text i @ CHR '','' # r = int_text j @ CHR '','' # r' \<longleftrightarrow> i = j \<and> r = r'"
proof
  assume e: "int_text i @ CHR '','' # r = int_text j @ CHR '','' # r'"
  then have "int_text i = int_text j" using until_comma [OF int_text_chars] by metis
  with e show "i = j \<and> r = r'" by simp
qed simp

text \<open>The canonical text determines the signed fields, also in front of the digest of the payload.\<close>

definition signed_fields ::
    "envelope \<Rightarrow> (string \<times> string \<times> string \<times> int \<times> string) \<times> (string \<times> string \<times> string \<times> string) \<times> string \<times> string \<times> string" where
  "signed_fields e =
     ((en_action e, en_correlation_id e, en_id e, en_version e, en_issued_at e),
      (en_on_behalf_of e, en_principal e, en_reason e, en_requested_by e),
      en_schema_version e, en_source e, en_target e)"

lemma canonical_json_inject:
  "canonical_json e @ h = canonical_json e' @ h' \<longleftrightarrow> signed_fields e = signed_fields e' \<and> h = h'"
  by (auto simp: canonical_json_def json_field_def signed_fields_def)

text \<open>The MAC and the digest are parameters, and nothing is assumed of them. What an attacker needs is two texts that
  one of them does not tell apart.\<close>

definition collision :: "('m \<Rightarrow> 'd) \<Rightarrow> 'm \<Rightarrow> 'm \<Rightarrow> bool" where
  "collision f x y \<longleftrightarrow> x \<noteq> y \<and> f x = f y"

lemma same_image: "f x = f y \<Longrightarrow> x = y \<or> collision f x y"
  by (simp add: collision_def)

definition signed_text :: "dispatch_keys \<Rightarrow> envelope \<Rightarrow> string" where
  "signed_text ks e = canonical_json e @ hash_payload ks (en_payload e)"

lemma sign_envelope_text: "sign_envelope ks e = dk_hmac ks (load_signing_secret ks) (signed_text ks e)"
  by (simp add: sign_envelope_def signed_text_def)

text \<open>C16: Two envelopes that verify with the same signature agree on every signed field and on the payload's JSON
  text, or the texts signed for them are a collision of the MAC under the signing secret, or the two payloads' JSON
  texts are a collision of the digest: who alters a signed envelope has found one of these.\<close>

theorem signature_binds_envelope:
  assumes "verify_signature ks e" and "verify_signature ks e'" and "en_signature e = en_signature e'"
  shows "(signed_fields e = signed_fields e' \<and> dk_dumps ks (JDict (en_payload e)) = dk_dumps ks (JDict (en_payload e'))) \<or>
    collision (dk_hmac ks (load_signing_secret ks)) (signed_text ks e) (signed_text ks e') \<or>
    collision (dk_sha ks) (dk_dumps ks (JDict (en_payload e))) (dk_dumps ks (JDict (en_payload e')))"
proof -
  from assms have "sign_envelope ks e = sign_envelope ks e'" by (simp add: verify_signature_def)
  then consider "signed_text ks e = signed_text ks e'"
    | "collision (dk_hmac ks (load_signing_secret ks)) (signed_text ks e) (signed_text ks e')"
    unfolding sign_envelope_text by (blast dest: same_image)
  then show ?thesis
  proof cases
    case 1
    then have "signed_fields e = signed_fields e'" and "hash_payload ks (en_payload e) = hash_payload ks (en_payload e')"
      by (simp_all add: signed_text_def canonical_json_inject)
    then have "dk_sha ks (dk_dumps ks (JDict (en_payload e))) = dk_sha ks (dk_dumps ks (JDict (en_payload e')))"
      by (simp add: hash_payload_def)
    from same_image [where f = "dk_sha ks", OF this] \<open>signed_fields e = signed_fields e'\<close> show ?thesis by blast
  qed blast
qed

text \<open>Sample keys, with a digest of four characters.\<close>

definition sample_digest :: "string \<Rightarrow> string" where
  "sample_digest s = take 4 (rev s @ ''....'')"

definition sample_keys :: dispatch_keys where
  "sample_keys = \<lparr>dk_hmac = (\<lambda>k m. sample_digest (k @ m)), dk_sha = sample_digest, dk_dumps = (\<lambda>v. ''json''), dk_signing_env = ''key'',
     dk_approval_env = [], dk_allow_unsigned_env = [], dk_key_file = []\<rparr>"

definition sample_envelope :: envelope where
  "sample_envelope = \<lparr>en_action = ''runner.stop'', en_source = ''hub'', en_target = ''node'', en_requested_by = ''ann'',
     en_reason = [], en_payload = [], en_confirmation = None, en_id = ''e1'', en_schema_version = schema_version,
     en_version = 1, en_issued_at = ''t0'', en_signature = [], en_principal = [], en_on_behalf_of = [],
     en_correlation_id = [], en_authentic = True, en_pr_lifecycle = ''arm_and_exit'', en_effort = default_effort\<rparr>"

definition signed_by :: "dispatch_keys \<Rightarrow> envelope \<Rightarrow> envelope" where
  "signed_by ks e = e\<lparr>en_signature := sign_envelope ks e, en_authentic := sign_envelope ks e \<noteq> []\<rparr>"

lemma sign_envelope_ext [simp]:
  "sign_envelope ks (e\<lparr>en_signature := s\<rparr>) = sign_envelope ks e"
  "sign_envelope ks (e\<lparr>en_authentic := b\<rparr>) = sign_envelope ks e"
  "sign_envelope ks (e\<lparr>en_confirmation := c\<rparr>) = sign_envelope ks e"
  by (simp_all add: sign_envelope_def canonical_json_def)

lemma signed_by_verifies: "sign_envelope ks e \<noteq> [] \<Longrightarrow> verify_signature ks (signed_by ks e)"
  by (simp add: verify_signature_def signed_by_def)

lemma sample_signature: "sign_envelope sample_keys e \<noteq> []"
  by (simp add: sign_envelope_def sample_keys_def sample_digest_def)

definition resent_envelope :: envelope where
  "resent_envelope = (signed_by sample_keys sample_envelope)\<lparr>en_authentic := False\<rparr>"

theorem signature_binds_envelope_witness:
  "(signed_fields (signed_by sample_keys sample_envelope) = signed_fields resent_envelope \<and>
     dk_dumps sample_keys (JDict (en_payload (signed_by sample_keys sample_envelope)))
       = dk_dumps sample_keys (JDict (en_payload resent_envelope))) \<or>
   collision (dk_hmac sample_keys (load_signing_secret sample_keys))
     (signed_text sample_keys (signed_by sample_keys sample_envelope)) (signed_text sample_keys resent_envelope) \<or>
   collision (dk_sha sample_keys) (dk_dumps sample_keys (JDict (en_payload (signed_by sample_keys sample_envelope))))
     (dk_dumps sample_keys (JDict (en_payload resent_envelope)))"
proof (rule signature_binds_envelope)
  show "verify_signature sample_keys (signed_by sample_keys sample_envelope)"
    by (rule signed_by_verifies) (rule sample_signature)
  then show "verify_signature sample_keys resent_envelope"
    by (simp add: verify_signature_def resent_envelope_def)
qed (simp add: resent_envelope_def)

section \<open>What an approval binds\<close>

text \<open>An approval that verifies was given for this envelope and this action, or the texts of the two approvals are a
  collision of the MAC; for actions named without a colon.\<close>

definition approval_text :: "string \<Rightarrow> string \<Rightarrow> string" where
  "approval_text eid action = ''approve:'' @ eid @ '':'' @ action"

theorem approval_binds_action:
  assumes "cf_approval_hmac cf = approval_hmac ks (resolve_approval_secret ks) eid action"
    and "cf_approval_hmac cf \<noteq> []" and "verify_approval_hmac ks cf eid' action'"
    and "CHR '':'' \<notin> set action" and "CHR '':'' \<notin> set action'"
  shows "(eid' = eid \<and> action' = action) \<or>
    collision (dk_hmac ks (resolve_approval_secret ks)) (approval_text eid action) (approval_text eid' action')"
proof -
  from assms(1-3) have "approval_hmac ks (resolve_approval_secret ks) eid action =
      approval_hmac ks (resolve_approval_secret ks) eid' action'"
    by (simp add: verify_approval_hmac_def Let_def)
  then consider "eid @ CHR '':'' # action = eid' @ CHR '':'' # action'"
    | "collision (dk_hmac ks (resolve_approval_secret ks)) (approval_text eid action) (approval_text eid' action')"
    using same_image [where f = "dk_hmac ks (resolve_approval_secret ks)", of "approval_text eid action" "approval_text eid' action'"]
    by (auto simp: approval_hmac_def approval_text_def)
  then show ?thesis
  proof cases
    case 1
    then have "rev action @ CHR '':'' # rev eid = rev action' @ CHR '':'' # rev eid'"
      by (metis append_Cons append_assoc append_Nil rev.simps(2) rev_append)
    moreover from this have "rev action = rev action'"
      using until_comma [of "CHR '':''" "rev action" "rev eid"] until_comma [of "CHR '':''" "rev action'" "rev eid'"] assms(4,5)
      by simp
    ultimately show ?thesis by simp
  qed blast
qed

lemma get_action_in: "get_action name = Some a \<Longrightarrow> a \<in> set allowlisted_actions \<and> da_name a = name"
  unfolding get_action_def by (metis (mono_tags, lifting) find_Some_iff nth_mem)

lemma allowlisted_no_colon:
  assumes "get_action name = Some a"
  shows "CHR '':'' \<notin> set name"
proof -
  have "list_all (\<lambda>a. CHR '':'' \<notin> set (da_name a)) allowlisted_actions" by code_simp
  with get_action_in [OF assms] show ?thesis unfolding list_all_iff by blast
qed

definition sample_confirmation :: "dispatch_keys \<Rightarrow> confirmation" where
  "sample_confirmation ks = \<lparr>cf_approved_by = ''ann'', cf_approved_at = ''t0'', cf_envelope_id = [],
     cf_approval_hmac = approval_hmac ks (resolve_approval_secret ks) ''e1'' ''runner.stop'', cf_note = []\<rparr>"

lemma sample_secret: "resolve_approval_secret sample_keys = ''key''" "load_signing_secret sample_keys = ''key''"
  by (code_simp, code_simp)

lemma sample_approval: "approval_hmac sample_keys ''key'' eid action \<noteq> []"
  by (simp add: approval_hmac_def sample_keys_def sample_digest_def)

theorem approval_binds_action_witness:
  "(''e1'' = ''e1'' \<and> ''runner.stop'' = ''runner.stop'') \<or>
   collision (dk_hmac sample_keys (resolve_approval_secret sample_keys)) (approval_text ''e1'' ''runner.stop'')
     (approval_text ''e1'' ''runner.stop'')"
  by (rule approval_binds_action [of "sample_confirmation sample_keys" sample_keys])
    (simp_all add: sample_confirmation_def verify_approval_hmac_def sample_secret Let_def sample_approval)

text \<open>Neither the approver nor the instant of the approval is bound: whoever holds a valid envelope may put any
  name, any fresh instant and any note in its confirmation, and it stays valid.\<close>

theorem approver_not_bound:
  assumes "validate_envelope_crypto ks instant now e = CryptoValid" and "en_confirmation e = Some cf"
    and "timestamp_freshness instant later 300 (en_issued_at e) = Fresh"
    and "timestamp_freshness instant later 300 t = Fresh"
  shows "validate_envelope_crypto ks instant later
    (e\<lparr>en_confirmation := Some (cf\<lparr>cf_approved_by := who, cf_approved_at := t, cf_note := note\<rparr>)\<rparr>) = CryptoValid"
  using assms
  by (auto simp: validate_envelope_crypto_def verify_signature_def verify_approval_hmac_def Let_def split: if_splits)

definition sample_instant :: "string \<Rightarrow> seconds option" where
  "sample_instant s = (if s = ''t0'' then Some 0 else if s = ''t9'' then Some 9 else None)"

lemma sample_fresh: "timestamp_freshness sample_instant 5 300 ''t0'' = Fresh" "timestamp_freshness sample_instant 9 300 ''t0'' = Fresh"
  "timestamp_freshness sample_instant 9 300 ''t9'' = Fresh"
  by (simp_all add: timestamp_freshness_def sample_instant_def)

lemma signed_by_fields [simp]:
  "en_schema_version (signed_by ks e) = en_schema_version e" "en_issued_at (signed_by ks e) = en_issued_at e"
  "en_confirmation (signed_by ks e) = en_confirmation e" "en_id (signed_by ks e) = en_id e"
  "en_action (signed_by ks e) = en_action e" "en_signature (signed_by ks e) = sign_envelope ks e"
  "en_authentic (signed_by ks e) = (sign_envelope ks e \<noteq> [])"
  by (simp_all add: signed_by_def)

lemma signed_by_valid:
  assumes "sign_envelope ks e \<noteq> []" and "en_schema_version e = schema_version"
    and "timestamp_freshness instant now 300 (en_issued_at e) = Fresh"
    and "case en_confirmation e of None \<Rightarrow> True
         | Some cf \<Rightarrow> timestamp_freshness instant now 300 (cf_approved_at cf) = Fresh \<and> verify_approval_hmac ks cf (en_id e) (en_action e)"
  shows "validate_envelope_crypto ks instant now (signed_by ks e) = CryptoValid"
  using assms signed_by_verifies [OF assms(1)]
  by (cases "en_confirmation e") (simp_all add: validate_envelope_crypto_def Let_def)

lemma sample_valid:
  "validate_envelope_crypto sample_keys sample_instant 5
     (signed_by sample_keys (sample_envelope\<lparr>en_confirmation := Some (sample_confirmation sample_keys)\<rparr>)) = CryptoValid"
proof (rule signed_by_valid [OF sample_signature])
  have "verify_approval_hmac sample_keys (sample_confirmation sample_keys) ''e1'' ''runner.stop''"
    by (simp add: verify_approval_hmac_def sample_secret sample_confirmation_def sample_approval)
  moreover have "cf_approved_at (sample_confirmation sample_keys) = ''t0''" by (simp add: sample_confirmation_def)
  ultimately show "case en_confirmation (sample_envelope\<lparr>en_confirmation := Some (sample_confirmation sample_keys)\<rparr>) of None \<Rightarrow> True
      | Some cf \<Rightarrow> timestamp_freshness sample_instant 5 300 (cf_approved_at cf) = Fresh \<and>
          verify_approval_hmac sample_keys cf (en_id (sample_envelope\<lparr>en_confirmation := Some (sample_confirmation sample_keys)\<rparr>))
            (en_action (sample_envelope\<lparr>en_confirmation := Some (sample_confirmation sample_keys)\<rparr>))"
    using sample_fresh by (simp add: sample_envelope_def)
qed (simp_all add: sample_envelope_def sample_fresh)

theorem approver_not_bound_witness:
  "validate_envelope_crypto sample_keys sample_instant 9
     ((signed_by sample_keys (sample_envelope\<lparr>en_confirmation := Some (sample_confirmation sample_keys)\<rparr>))
       \<lparr>en_confirmation := Some ((sample_confirmation sample_keys)\<lparr>cf_approved_by := ''eve'', cf_approved_at := ''t9'', cf_note := []\<rparr>)\<rparr>)
   = CryptoValid"
  by (rule approver_not_bound [OF sample_valid]) (simp_all add: signed_by_def sample_envelope_def sample_fresh)

text \<open>With the signing secret in the key file only, no confirmed envelope passes, though approvals are said to fall
  back to the signing secret.\<close>

lemma key_file_rejects_confirmed:
  assumes "resolve_approval_secret ks = []" and "en_confirmation e \<noteq> None"
  shows "validate_envelope_crypto ks instant now e \<noteq> CryptoValid"
  using assms by (auto simp: validate_envelope_crypto_def verify_approval_hmac_def Let_def split: if_splits)

text \<open>A privileged action is accepted only with a confirmation that records who approved it and when; an
  accepted action is on the allowlist.\<close>

theorem privileged_needs_approval:
  assumes "dv_accepted (validate_envelope repr e)"
  shows "\<exists>a. get_action (en_action e) = Some a \<and> dv_action (validate_envelope repr e) = Some a \<and> a \<in> set allowlisted_actions
    \<and> (da_access a = ReadOnly \<or>
       (\<exists>cf. en_confirmation e = Some cf \<and> \<not> blank (cf_approved_by cf) \<and> \<not> blank (cf_approved_at cf)))"
proof -
  from assms obtain a where a: "get_action (en_action e) = Some a"
    by (cases "get_action (en_action e)") (auto simp: validate_envelope_def dv_accepted_def split: if_splits)
  from get_action_in [OF this] have "a \<in> set allowlisted_actions" by blast
  with a assms show ?thesis
    by (cases "da_access a"; cases "en_confirmation e")
      (auto simp: validate_envelope_def dv_accepted_def Let_def split: if_splits sum.splits)
qed

theorem privileged_needs_approval_witness:
  "\<exists>a. get_action ''runner.status'' = Some a \<and>
     dv_action (validate_envelope (\<lambda>v. []) (sample_envelope\<lparr>en_action := ''runner.status''\<rparr>)) = Some a \<and> a \<in> set allowlisted_actions
    \<and> (da_access a = ReadOnly \<or> (\<exists>cf. None = Some cf \<and> \<not> blank (cf_approved_by cf) \<and> \<not> blank (cf_approved_at cf)))"
proof -
  have "dv_accepted (validate_envelope (\<lambda>v. []) (sample_envelope\<lparr>en_action := ''runner.status''\<rparr>))" by code_simp
  from privileged_needs_approval [OF this] show ?thesis by (simp add: sample_envelope_def)
qed

end
