(* ===== verification/Dispatch_Wire.thy ===== *)
theory Dispatch_Wire
  imports Dispatch_Envelope
begin

text \<open>
  The wire form of command envelopes (\<open>backend/dispatch/envelope.py\<close>) and the factory that builds them
  (\<open>backend/dispatch_contract.py\<close>). A wire body is a JSON object; \<open>None\<close> is an exception, which the router
  answers as a malformed envelope. A fresh identifier and the current instant's text are arguments.
\<close>

section \<open>Reading\<close>

definition required_string :: "(json \<Rightarrow> string) \<Rightarrow> (string, json) dict \<Rightarrow> string \<Rightarrow> string option" where
  "required_string repr data k =
     (case map_of data k of
        None \<Rightarrow> None
      | Some JNull \<Rightarrow> None
      | Some v \<Rightarrow> if blank (json_str repr v) then None else Some (json_str repr v))"

definition confirmation_from_dict :: "(json \<Rightarrow> string) \<Rightarrow> (string, json) dict \<Rightarrow> confirmation option" where
  "confirmation_from_dict repr d =
     (case (required_string repr d ''approved_by'', required_string repr d ''approved_at'') of
        (Some who, Some when) \<Rightarrow>
          Some \<lparr>cf_approved_by = who, cf_approved_at = when, cf_envelope_id = text_get repr d ''envelope_id'' [],
                cf_approval_hmac = text_get repr d ''approval_hmac'' [],
                cf_note = (case json_get d ''note'' of JNull \<Rightarrow> [] | v \<Rightarrow> json_str repr v)\<rparr>
      | _ \<Rightarrow> None)"

definition ensure_dict :: "json \<Rightarrow> (string, json) dict option" where
  "ensure_dict v = (case v of JNull \<Rightarrow> Some [] | JDict d \<Rightarrow> Some d | _ \<Rightarrow> None)"

definition validate_effort :: "json \<Rightarrow> string option" where
  "validate_effort v = (case v of JStr s \<Rightarrow> if s \<in> set effort_levels then Some s else None | _ \<Rightarrow> None)"

definition signed_field ::
    "(string, json) dict \<Rightarrow> string \<Rightarrow> (json \<Rightarrow> string option) \<Rightarrow> string \<Rightarrow> string option" where
  "signed_field data k validate dflt =
     (let payload = json_get data ''payload'';
          signed = (case payload of JDict d \<Rightarrow> json_get d k | _ \<Rightarrow> JNull);
          unsigned = json_get data k
      in if signed = JNull then validate (JStr dflt)
         else if unsigned \<noteq> JNull \<and> \<not> json_same unsigned signed then None
         else validate signed)"

definition envelope_from_dict ::
    "(json \<Rightarrow> string) \<Rightarrow> string \<Rightarrow> string \<Rightarrow> (string, json) dict \<Rightarrow> envelope option" where
  "envelope_from_dict repr fresh_id now_iso data =
     (case (case json_get data ''confirmation'' of
              JNull \<Rightarrow> Some None
            | JDict d \<Rightarrow> map_option Some (confirmation_from_dict repr d)
            | _ \<Rightarrow> None) of
        None \<Rightarrow> None
      | Some conf \<Rightarrow>
          let sig = text_get repr data ''signature'' []
          in case (required_string repr data ''action'', required_string repr data ''source'',
                   required_string repr data ''target'', required_string repr data ''requested_by'',
                   ensure_dict (json_get data ''payload''),
                   json_int (case map_of data ''envelope_version'' of None \<Rightarrow> JInt 1 | Some v \<Rightarrow> v),
                   signed_field data ''pr_lifecycle'' (\<lambda>v. Some (json_str repr v)) ''arm_and_exit'',
                   signed_field data ''effort'' validate_effort default_effort) of
               (Some action, Some source, Some target, Some requested_by, Some payload, Some version, Some lifecycle,
                Some effort) \<Rightarrow>
                 Some \<lparr>en_action = action, en_source = source, en_target = target, en_requested_by = requested_by,
                       en_reason = text_get repr data ''reason'' [], en_payload = payload, en_confirmation = conf,
                       en_id = text_get repr data ''envelope_id'' fresh_id,
                       en_schema_version = text_get repr data ''schema_version'' schema_version,
                       en_version = version, en_issued_at = text_get repr data ''issued_at'' now_iso,
                       en_signature = sig, en_principal = text_get repr data ''principal'' [],
                       en_on_behalf_of = text_get repr data ''on_behalf_of'' [],
                       en_correlation_id = text_get repr data ''correlation_id'' [],
                       en_authentic = (sig \<noteq> []), en_pr_lifecycle = lifecycle, en_effort = effort\<rparr>
             | _ \<Rightarrow> None)"

section \<open>Writing\<close>

definition confirmation_to_dict :: "confirmation \<Rightarrow> (string, json) dict" where
  "confirmation_to_dict cf =
     [(''approved_by'', JStr (cf_approved_by cf)), (''approved_at'', JStr (cf_approved_at cf)),
      (''envelope_id'', JStr (cf_envelope_id cf)), (''approval_hmac'', JStr (cf_approval_hmac cf)),
      (''note'', JStr (cf_note cf))]"

definition envelope_to_dict :: "envelope \<Rightarrow> (string, json) dict" where
  "envelope_to_dict e =
     [(''action'', JStr (en_action e)), (''source'', JStr (en_source e)), (''target'', JStr (en_target e)),
      (''requested_by'', JStr (en_requested_by e)), (''reason'', JStr (en_reason e)),
      (''payload'', JDict (en_payload e)),
      (''confirmation'', case en_confirmation e of None \<Rightarrow> JNull | Some cf \<Rightarrow> JDict (confirmation_to_dict cf)),
      (''envelope_id'', JStr (en_id e)), (''schema_version'', JStr (en_schema_version e)),
      (''envelope_version'', JInt (en_version e)), (''issued_at'', JStr (en_issued_at e)),
      (''signature'', JStr (en_signature e)), (''principal'', JStr (en_principal e)),
      (''on_behalf_of'', JStr (en_on_behalf_of e)), (''correlation_id'', JStr (en_correlation_id e)),
      (''signature_authentic'', JBool (en_authentic e)), (''pr_lifecycle'', JStr (en_pr_lifecycle e)),
      (''effort'', JStr (en_effort e))]"

section \<open>Building\<close>

record envelope_request =
  br_action :: string
  br_source :: string
  br_target :: string
  br_requested_by :: string
  br_reason :: string
  br_payload :: "(string, json) dict"
  br_confirmation :: "confirmation option"
  br_principal :: string
  br_on_behalf_of :: string
  br_correlation_id :: string
  br_pr_lifecycle :: "string option"
  br_effort :: "string option"

definition some_text :: "string option \<Rightarrow> string \<Rightarrow> string" where
  "some_text v d = (case v of Some s \<Rightarrow> if s \<noteq> [] then s else d | None \<Rightarrow> d)"

text \<open>\<open>CommandEnvelope(...)\<close>: an unknown effort is refused and an envelope without a signature is signed.\<close>

definition mint_envelope :: "dispatch_keys \<Rightarrow> envelope \<Rightarrow> envelope option" where
  "mint_envelope ks e =
     (if en_effort e \<notin> set effort_levels then None
      else let sig = (if en_signature e = [] then sign_envelope ks e else en_signature e)
           in Some (e\<lparr>en_signature := sig, en_authentic := sig \<noteq> []\<rparr>))"

text \<open>\<open>context_id\<close> is the correlation id of the current request.\<close>

definition build_envelope ::
    "dispatch_keys \<Rightarrow> (json \<Rightarrow> string) \<Rightarrow> string \<Rightarrow> string \<Rightarrow> string \<Rightarrow> envelope_request \<Rightarrow> envelope option" where
  "build_envelope ks repr context_id fresh_id now_iso r =
     (let payload_lifecycle = json_get (br_payload r) ''pr_lifecycle''
      in if br_pr_lifecycle r \<noteq> None \<and> payload_lifecycle \<noteq> JNull \<and> map_option JStr (br_pr_lifecycle r) \<noteq> Some payload_lifecycle
         then None
         else
           let lifecycle = (if payload_lifecycle \<noteq> JNull then json_str repr payload_lifecycle
                            else some_text (br_pr_lifecycle r) ''arm_and_exit'');
               payload = AList.update ''pr_lifecycle'' (JStr lifecycle) (br_payload r);
               payload_effort = json_get payload ''effort''
           in if br_effort r \<noteq> None \<and> payload_effort \<noteq> JNull \<and> map_option JStr (br_effort r) \<noteq> Some payload_effort
              then None
              else case validate_effort (if payload_effort \<noteq> JNull then payload_effort
                                         else JStr (some_text (br_effort r) default_effort)) of
                     None \<Rightarrow> None
                   | Some effort \<Rightarrow>
                       mint_envelope ks
                         \<lparr>en_action = br_action r, en_source = br_source r, en_target = br_target r,
                          en_requested_by = br_requested_by r, en_reason = br_reason r,
                          en_payload = AList.update ''effort'' (JStr effort) payload,
                          en_confirmation = br_confirmation r, en_id = fresh_id, en_schema_version = schema_version,
                          en_version = 1, en_issued_at = now_iso, en_signature = [], en_principal = br_principal r,
                          en_on_behalf_of = br_on_behalf_of r,
                          en_correlation_id = (if br_correlation_id r = [] then context_id else br_correlation_id r),
                          en_authentic = False, en_pr_lifecycle = lifecycle, en_effort = effort\<rparr>)"

section \<open>Across the wire and back\<close>

text \<open>What an envelope must have to travel: the required texts, and an effort and a life cycle that its payload
  signs (or neither signed and the defaults).\<close>

definition signs :: "envelope \<Rightarrow> string \<Rightarrow> string \<Rightarrow> string \<Rightarrow> bool" where
  "signs e k v dflt \<longleftrightarrow> (case json_get (en_payload e) k of JNull \<Rightarrow> v = dflt | w \<Rightarrow> w = JStr v)"

definition travels :: "envelope \<Rightarrow> bool" where
  "travels e \<longleftrightarrow>
     \<not> blank (en_action e) \<and> \<not> blank (en_source e) \<and> \<not> blank (en_target e) \<and> \<not> blank (en_requested_by e) \<and>
     (case en_confirmation e of None \<Rightarrow> True | Some cf \<Rightarrow> \<not> blank (cf_approved_by cf) \<and> \<not> blank (cf_approved_at cf)) \<and>
     en_authentic e = (en_signature e \<noteq> []) \<and> en_effort e \<in> set effort_levels \<and>
     signs e ''effort'' (en_effort e) default_effort \<and> signs e ''pr_lifecycle'' (en_pr_lifecycle e) ''arm_and_exit''"

lemma required_string_text: "map_of d k = Some (JStr s) \<Longrightarrow> \<not> blank s \<Longrightarrow> required_string repr d k = Some s"
  by (simp add: required_string_def)

lemma text_get_text: "map_of d k = Some (JStr s) \<Longrightarrow> text_get repr d k dflt = s"
  by (simp add: text_get_def)

lemma json_same_text [simp]: "json_same (JStr s) (JStr t) = (s = t)"
  by simp

lemma signed_field_written:
  assumes "map_of d ''payload'' = Some (JDict (en_payload e))" and "map_of d k = Some (JStr v)"
    and "signs e k v dflt"
  shows "signed_field d k validate dflt = validate (JStr v)"
  using assms by (auto simp: signed_field_def signs_def json_get_def Let_def split: json.splits option.splits)

lemma confirmation_roundtrip:
  "\<not> blank (cf_approved_by cf) \<Longrightarrow> \<not> blank (cf_approved_at cf) \<Longrightarrow>
     confirmation_from_dict repr (confirmation_to_dict cf) = Some cf"
  by (cases cf) (simp add: confirmation_from_dict_def confirmation_to_dict_def required_string_def text_get_def json_get_def)

lemma wire_roundtrip:
  assumes "travels e"
  shows "envelope_from_dict repr fresh_id now_iso (envelope_to_dict e) = Some e"
proof -
  let ?d = "envelope_to_dict e"
  note d = envelope_to_dict_def
  have req: "required_string repr ?d ''action'' = Some (en_action e)" "required_string repr ?d ''source'' = Some (en_source e)"
    "required_string repr ?d ''target'' = Some (en_target e)" "required_string repr ?d ''requested_by'' = Some (en_requested_by e)"
    using assms by (auto simp: travels_def d intro!: required_string_text)
  have texts: "text_get repr ?d ''reason'' x = en_reason e" "text_get repr ?d ''envelope_id'' x = en_id e"
    "text_get repr ?d ''schema_version'' x = en_schema_version e" "text_get repr ?d ''issued_at'' x = en_issued_at e"
    "text_get repr ?d ''signature'' x = en_signature e" "text_get repr ?d ''principal'' x = en_principal e"
    "text_get repr ?d ''on_behalf_of'' x = en_on_behalf_of e" "text_get repr ?d ''correlation_id'' x = en_correlation_id e" for x
    by (rule text_get_text; simp add: d)+
  have pl: "ensure_dict (json_get ?d ''payload'') = Some (en_payload e)"
    and ver: "map_of ?d ''envelope_version'' = Some (JInt (en_version e))"
    by (simp_all add: d ensure_dict_def json_get_def)
  have conf: "(case json_get ?d ''confirmation'' of JNull \<Rightarrow> Some None
      | JDict d \<Rightarrow> map_option Some (confirmation_from_dict repr d) | _ \<Rightarrow> None) = Some (en_confirmation e)"
    using assms confirmation_roundtrip
    by (cases "en_confirmation e") (auto simp: travels_def json_get_def d)
  have sf: "signed_field ?d ''pr_lifecycle'' v ''arm_and_exit'' = v (JStr (en_pr_lifecycle e))"
    "signed_field ?d ''effort'' v default_effort = v (JStr (en_effort e))" for v
    using assms by (auto intro!: signed_field_written simp: travels_def d)
  have auth: "(en_signature e \<noteq> []) = en_authentic e" and eff: "validate_effort (JStr (en_effort e)) = Some (en_effort e)"
    using assms by (simp_all add: travels_def validate_effort_def)
  show ?thesis
    unfolding envelope_from_dict_def conf option.case Let_def req texts pl ver sf eff
    by (cases e) (simp add: auth [symmetric] del: auth, use auth in simp)
qed

lemma json_get_update: "json_get (AList.update k v d) k' = (if k = k' then v else json_get d k')"
  by (simp add: json_get_def update_conv')

lemma built_fields:
  assumes "build_envelope ks repr c i n r = Some e"
  shows "en_action e = br_action r" "en_source e = br_source r" "en_target e = br_target r"
    "en_requested_by e = br_requested_by r" "en_confirmation e = br_confirmation r"
    "en_schema_version e = schema_version" "en_issued_at e = n" "en_id e = i"
    "en_authentic e = (en_signature e \<noteq> [])" "en_effort e \<in> set effort_levels"
    "json_get (en_payload e) ''effort'' = JStr (en_effort e)"
    "json_get (en_payload e) ''pr_lifecycle'' = JStr (en_pr_lifecycle e)"
    "en_signature e = sign_envelope ks e"
proof -
  from assms obtain e0 payload lifecycle effort where
    "effort \<in> set effort_levels" and e0: "e0 = \<lparr>en_action = br_action r, en_source = br_source r, en_target = br_target r,
        en_requested_by = br_requested_by r, en_reason = br_reason r,
        en_payload = AList.update ''effort'' (JStr effort) (AList.update ''pr_lifecycle'' (JStr lifecycle) payload),
        en_confirmation = br_confirmation r, en_id = i, en_schema_version = schema_version, en_version = 1,
        en_issued_at = n, en_signature = [], en_principal = br_principal r, en_on_behalf_of = br_on_behalf_of r,
        en_correlation_id = (if br_correlation_id r = [] then c else br_correlation_id r),
        en_authentic = False, en_pr_lifecycle = lifecycle, en_effort = effort\<rparr>"
    and e: "e = e0\<lparr>en_signature := sign_envelope ks e0, en_authentic := sign_envelope ks e0 \<noteq> []\<rparr>"
    unfolding build_envelope_def mint_envelope_def Let_def
    by (simp only: envelope.simps split: if_splits option.splits) (simp, blast)+
  have "sign_envelope ks e = sign_envelope ks e0"
    by (simp add: e sign_envelope_def canonical_json_def)
  with e e0 \<open>effort \<in> set effort_levels\<close> show "en_action e = br_action r" "en_source e = br_source r" "en_target e = br_target r"
    "en_requested_by e = br_requested_by r" "en_confirmation e = br_confirmation r"
    "en_schema_version e = schema_version" "en_issued_at e = n" "en_id e = i"
    "en_authentic e = (en_signature e \<noteq> [])" "en_effort e \<in> set effort_levels"
    "json_get (en_payload e) ''effort'' = JStr (en_effort e)"
    "json_get (en_payload e) ''pr_lifecycle'' = JStr (en_pr_lifecycle e)" "en_signature e = sign_envelope ks e"
    by (simp_all add: json_get_update)
qed

lemma built_travels:
  assumes "build_envelope ks repr c i n r = Some e"
    and "\<not> blank (br_action r)" "\<not> blank (br_source r)" "\<not> blank (br_target r)" "\<not> blank (br_requested_by r)"
    and "case br_confirmation r of None \<Rightarrow> True | Some cf \<Rightarrow> \<not> blank (cf_approved_by cf) \<and> \<not> blank (cf_approved_at cf)"
  shows "travels e"
  using assms(2-) built_fields [OF assms(1)] by (simp add: travels_def signs_def)

text \<open>An envelope that the factory builds travels: written as a wire body and read back it is the same
  envelope, and while it is fresh it passes the checks of its signature, and of its approval if that is sound.\<close>

theorem built_envelope_roundtrip:
  assumes "build_envelope ks repr c i n r = Some e"
    and "\<not> blank (br_action r)" "\<not> blank (br_source r)" "\<not> blank (br_target r)" "\<not> blank (br_requested_by r)"
    and "case br_confirmation r of None \<Rightarrow> True | Some cf \<Rightarrow>
      \<not> blank (cf_approved_by cf) \<and> \<not> blank (cf_approved_at cf) \<and>
      timestamp_freshness instant now 300 (cf_approved_at cf) = Fresh \<and> verify_approval_hmac ks cf i (br_action r)"
    and "timestamp_freshness instant now 300 n = Fresh" and "sign_envelope ks e \<noteq> []"
  shows "envelope_from_dict repr i' n' (envelope_to_dict e) = Some e \<and> validate_envelope_crypto ks instant now e = CryptoValid"
proof
  have "case br_confirmation r of None \<Rightarrow> True | Some cf \<Rightarrow> \<not> blank (cf_approved_by cf) \<and> \<not> blank (cf_approved_at cf)"
    using assms(6) by (auto split: option.splits)
  from wire_roundtrip [OF built_travels [OF assms(1-5) this]]
  show "envelope_from_dict repr i' n' (envelope_to_dict e) = Some e" .
  note f = built_fields [OF assms(1)]
  then have "signed_by ks e = e" using assms(8) by (cases e) (simp add: signed_by_def)
  moreover have "validate_envelope_crypto ks instant now (signed_by ks e) = CryptoValid"
    using assms(6-8) f by (intro signed_by_valid) (auto split: option.splits)
  ultimately show "validate_envelope_crypto ks instant now e = CryptoValid" by simp
qed

definition sample_build :: "string option \<Rightarrow> envelope_request" where
  "sample_build effort = \<lparr>br_action = ''runner.status'', br_source = ''hub'', br_target = ''node'',
     br_requested_by = ''ann'', br_reason = [], br_payload = [(''n'', JInt 1)], br_confirmation = None,
     br_principal = [], br_on_behalf_of = [], br_correlation_id = [], br_pr_lifecycle = None, br_effort = effort\<rparr>"

definition built_sample :: envelope where
  "built_sample = the (build_envelope sample_keys (\<lambda>v. []) [] ''e7'' ''t0'' (sample_build (Some ''high'')))"

lemma built_sample: "build_envelope sample_keys (\<lambda>v. []) [] ''e7'' ''t0'' (sample_build (Some ''high'')) = Some built_sample"
proof -
  have "build_envelope sample_keys (\<lambda>v. []) [] ''e7'' ''t0'' (sample_build (Some ''high'')) \<noteq> None" by code_simp
  then show ?thesis by (simp add: built_sample_def)
qed

theorem built_envelope_roundtrip_witness:
  "envelope_from_dict (\<lambda>v. []) ''x'' ''y'' (envelope_to_dict built_sample) = Some built_sample
   \<and> validate_envelope_crypto sample_keys sample_instant 5 built_sample = CryptoValid"
proof (rule built_envelope_roundtrip [OF built_sample])
  show "\<not> blank (br_action (sample_build (Some ''high'')))" "\<not> blank (br_source (sample_build (Some ''high'')))"
    "\<not> blank (br_target (sample_build (Some ''high'')))" "\<not> blank (br_requested_by (sample_build (Some ''high'')))"
    by (code_simp, code_simp, code_simp, code_simp)
qed (simp_all add: sample_build_def sample_fresh sample_signature)

lemma built_sample_parsed: "envelope_from_dict (\<lambda>v. []) i n (envelope_to_dict built_sample) = Some built_sample"
proof (rule wire_roundtrip, rule built_travels [OF built_sample])
  show "\<not> blank (br_action (sample_build (Some ''high'')))" "\<not> blank (br_source (sample_build (Some ''high'')))"
    "\<not> blank (br_target (sample_build (Some ''high'')))" "\<not> blank (br_requested_by (sample_build (Some ''high'')))"
    by (code_simp, code_simp, code_simp, code_simp)
qed (simp add: sample_build_def)

text \<open>A payload that carries an empty effort cannot be built into an envelope.\<close>

lemma empty_effort_refused:
  assumes "map_of (br_payload r) ''effort'' = Some (JStr [])"
  shows "build_envelope ks repr c i n r = None"
  using assms
  by (auto simp: build_envelope_def Let_def json_get_def update_conv' validate_effort_def effort_levels_def split: option.splits)

end
