(* ===== verification/Code_Dispatch.thy ===== *)
theory Code_Dispatch
  imports Request_Store Agent_Profiles Dispatch_Quota Dispatch_Wire
begin

text \<open>
  The dispatch of a Code Request to an agent workflow (\<open>backend/code_requests/dispatch.py\<close>,
  \<open>agent_dispatcher.py\<close> and \<open>dispatch_service.py\<close>, with the spend and runner check of
  \<open>quota_enforcement.py\<close>): the settings of a profile, the full prompt, the checks, the envelope, the workflow
  call, the audit file and the history, which is kept in the cache file of the store of Code Requests. The
  answer of \<open>gh\<close>, the probe of the providers and the principals' figures are arguments.
\<close>

section \<open>The prompt\<close>

definition standards_injection :: "(string, string) dict" where
  "standards_injection =
     [(''tdd'', ''Use Test-Driven Development: write failing tests first (RED), then minimal code to pass (GREEN),''
        @ '' then refactor. Tests must pass before any PR.''),
      (''dbc'', ''Apply Design by Contract: validate inputs at boundaries, assert internal invariants,''
        @ '' document pre/postconditions in docstrings.''),
      (''dry'', ''Apply DRY: extract shared logic into modules, eliminate duplication.''
        @ '' Three similar code blocks should become one shared function.''),
      (''lod'', ''Apply Law of Demeter: components talk to immediate neighbors only.''
        @ '' UI receives view models, not raw nested payloads.''),
      (''security'', ''Apply security-first: validate all inputs, avoid injection vulnerabilities,''
        @ '' use parameterized queries, never log secrets.''),
      (''docs'', ''Document public APIs, non-obvious decisions, and architecture choices.''
        @ '' Prefer short clear docstrings over multi-paragraph ones.'')]"

definition py_upper :: "string \<Rightarrow> string" where
  "py_upper = map (\<lambda>c. let n = (of_char c :: nat) in if 97 \<le> n \<and> n \<le> 122 then char_of (n - 32) else c)"

definition standard_lines :: "string list \<Rightarrow> string list" where
  "standard_lines ss = List.map_filter (\<lambda>s. map_option (\<lambda>t. ''['' @ py_upper s @ ''] '' @ t) (map_of standards_injection s)) ss"

definition build_full_prompt :: "(json \<Rightarrow> string) \<Rightarrow> string \<Rightarrow> string list \<Rightarrow> (string, json) dict \<Rightarrow> string" where
  "build_full_prompt repr prompt standards notes =
     (let notes_val = (case map_of notes ''notes'' of None \<Rightarrow> [] | Some v \<Rightarrow> json_str repr v);
          enabled = (case map_of notes ''enabled'' of None \<Rightarrow> True | Some v \<Rightarrow> json_true v);
          full = (if enabled \<and> \<not> blank notes_val then notes_val @ [newline, newline] @ prompt else prompt);
          injected = py_join [newline, newline] (standard_lines standards)
      in if injected \<noteq> [] then full @ [newline, newline] @ ''## Engineering Standards'' @ [newline] @ injected else full)"

datatype notes_file = NoNotes | NotesFile "(string, json) dict" | BadNotes

fun load_prompt_notes :: "notes_file \<Rightarrow> (string, json) dict" where
  "load_prompt_notes (NotesFile d) = d"
| "load_prompt_notes _ = [(''notes'', JStr []), (''enabled'', JBool True)]"

section \<open>The settings\<close>

record code_dispatch =
  cd_repo :: string
  cd_branch :: string
  cd_prompt :: string
  cd_provider :: "string option"
  cd_model :: "string option"
  cd_effort :: "string option"
  cd_standards :: "string list option"
  cd_budget :: "(string, json) dict option"
  cd_profile_id :: "string option"

record resolved_dispatch =
  rd_provider :: string
  rd_model :: string
  rd_effort :: "string option"
  rd_standards :: "string list"
  rd_budget :: "(string, json) dict"
  rd_profile :: "agent_profile option"

text \<open>\<open>a or b\<close> for a value that may be absent or empty.\<close>

definition opt_or :: "'a list option \<Rightarrow> 'a list \<Rightarrow> 'a list" where
  "opt_or a b = (case a of Some (x # xs) \<Rightarrow> x # xs | _ \<Rightarrow> b)"

definition resolve_dispatch :: "string \<Rightarrow> code_dispatch \<Rightarrow> profile_file \<Rightarrow> resolved_dispatch \<times> profile_file" where
  "resolve_dispatch now req f =
     (case (case cd_profile_id req of
              Some (c # cs) \<Rightarrow> profile_get now (c # cs) f
            | _ \<Rightarrow> (case default_or_fallback now BothRoles f of (p, f1) \<Rightarrow> (Some p, f1))) of
        (profile, f1) \<Rightarrow>
          (\<lparr>rd_provider = opt_or (cd_provider req) (case profile of Some p \<Rightarrow> ap_provider p | None \<Rightarrow> ''codex_cli''),
            rd_model = opt_or (cd_model req) (case profile of Some p \<Rightarrow> ap_model p | None \<Rightarrow> []),
            rd_effort = str_or (cd_effort req) (case profile of Some p \<Rightarrow> ap_effort p | None \<Rightarrow> None),
            rd_standards = (case cd_standards req of Some ss \<Rightarrow> ss
                            | None \<Rightarrow> (case profile of Some p \<Rightarrow> ap_standards p | None \<Rightarrow> [])),
            rd_budget = opt_or (cd_budget req) (case profile of Some p \<Rightarrow> ap_budget p | None \<Rightarrow> []),
            rd_profile = profile\<rparr>, f1))"

section \<open>The dispatch\<close>

record principal_quota =
  pq_spend_usd_day :: rat
  pq_max_runners :: int

datatype spend_verdict = SpendAllowed | SpendReached | RunnersReached

definition check_dispatch_quota :: "principal_quota \<Rightarrow> rat \<Rightarrow> nat \<Rightarrow> rat \<Rightarrow> spend_verdict" where
  "check_dispatch_quota quota today_spend active_leases estimated_cost =
     (if pq_spend_usd_day quota < today_spend + estimated_cost then SpendReached
      else if pq_max_runners quota \<le> int active_leases then RunnersReached
      else SpendAllowed)"

record dispatch_env =
  de_keys :: dispatch_keys
  de_repr :: "json \<Rightarrow> string"
  de_float :: "string \<Rightarrow> rat option"
  de_principal :: "string \<Rightarrow> principal_quota option"
  de_today_spend :: "string \<Rightarrow> rat"
  de_active_leases :: "string \<Rightarrow> nat"
  de_providers :: "string list"
  de_availability :: "string \<Rightarrow> (bool \<times> string) option"
  de_org :: string
  de_now :: seconds
  de_now_iso :: string
  de_approved_at :: string
  de_id :: string
  de_context_id :: string
  de_gh :: "(int \<times> string) option"

text \<open>\<open>float(x)\<close>; the reading of a text is \<open>de_float\<close>.\<close>

fun json_float :: "(string \<Rightarrow> rat option) \<Rightarrow> json \<Rightarrow> rat option" where
  "json_float f (JFloat x) = Some x"
| "json_float f (JInt i) = Some (of_int i)"
| "json_float f (JBool b) = Some (if b then 1 else 0)"
| "json_float f (JStr s) = f s"
| "json_float f v = None"

definition validate_provider :: "dispatch_env \<Rightarrow> string \<Rightarrow> string option" where
  "validate_provider env p =
     (if p \<notin> set (de_providers env) then Some (''provider_unavailable: unknown provider '' @ [CHR 0x27] @ p @ [CHR 0x27])
      else case de_availability env p of
             Some (True, _) \<Rightarrow> None
           | Some (False, detail) \<Rightarrow> Some (''provider_unavailable: '' @ detail)
           | None \<Rightarrow> Some (''provider_unavailable: provider status unknown''))"

text \<open>The record of a workflow call in the audit file.\<close>

record dispatch_record =
  dr_id :: string
  dr_provider :: string
  dr_accepted :: int
  dr_rejected :: int
  dr_envelopes :: "string list"
  dr_recorded_at :: string

datatype audit_file = NoAudit | BadAudit | NotAList | AuditList "dispatch_record list"

definition last_n :: "nat \<Rightarrow> 'a list \<Rightarrow> 'a list" where
  "last_n n xs = drop (length xs - n) xs"

text \<open>Whether an exception passes on, and the file.\<close>

fun append_audit_entry :: "dispatch_record \<Rightarrow> audit_file \<Rightarrow> bool \<times> audit_file" where
  "append_audit_entry r NotAList = (True, NotAList)"
| "append_audit_entry r (AuditList rs) = (False, AuditList (last_n 200 (rs @ [r])))"
| "append_audit_entry r _ = (False, AuditList [r])"

record dispatch_state =
  ds_quota :: dispatch_quota
  ds_workflows :: "envelope list"
  ds_audit :: audit_file

datatype dispatch_stop =
    AnonymousStop
  | RateLimitedStop
  | BudgetOverrun spend_verdict
  | ProviderUnavailable string
  | InvalidEnvelope dispatch_reason

fun stop_code :: "dispatch_stop \<Rightarrow> int" where
  "stop_code AnonymousStop = 422"
| "stop_code RateLimitedStop = 429"
| "stop_code (BudgetOverrun v) = 422"
| "stop_code (ProviderUnavailable s) = 409"
| "stop_code (InvalidEnvelope r) = 422"

datatype dispatch_result = Stopped dispatch_stop | Ran int string | Raised

text \<open>The quota of the hour: only a named principal is held to it.\<close>

definition hourly_check :: "dispatch_env \<Rightarrow> string \<Rightarrow> dispatch_state \<Rightarrow> dispatch_stop option \<times> dispatch_state" where
  "hourly_check env pid st =
     (if pid = [] then (None, st)
      else if is_anonymous pid then (Some AnonymousStop, st)
      else case check_and_record pid (de_now env) (ds_quota st) of
             (c, q) \<Rightarrow> ((if c = QuotaOk then None else Some RateLimitedStop), st\<lparr>ds_quota := q\<rparr>))"

definition dispatch_envelope_of ::
    "dispatch_env \<Rightarrow> string \<Rightarrow> resolved_dispatch \<Rightarrow> string \<Rightarrow> string \<Rightarrow> string \<Rightarrow> envelope option" where
  "dispatch_envelope_of env pid rd repository branch prompt =
     (let who = (if pid = [] then ''operator'' else pid)
      in build_envelope (de_keys env) (de_repr env) (de_context_id env) (de_id env) (de_now_iso env)
           \<lparr>br_action = ''agents.dispatch.adhoc'', br_source = ''dashboard.code_requests'', br_target = repository,
            br_requested_by = who, br_reason = [],
            br_payload =
              [(''target_repository'', JStr (if CHR ''/'' \<notin> set repository then de_org env @ ''/'' @ repository else repository)),
               (''branch'', JStr branch), (''provider'', JStr (rd_provider rd)), (''prompt'', JStr (take 8000 prompt)),
               (''model'', JStr (rd_model rd)), (''effort'', JStr (case rd_effort rd of Some e \<Rightarrow> e | None \<Rightarrow> [])),
               (''profile_id'', JStr (case rd_profile rd of Some p \<Rightarrow> ap_id p | None \<Rightarrow> [])),
               (''standards'', JList (map JStr (rd_standards rd))), (''budget'', JDict (rd_budget rd))],
            br_confirmation = Some \<lparr>cf_approved_by = who, cf_approved_at = de_approved_at env, cf_envelope_id = [],
              cf_approval_hmac = [], cf_note = ''Code Request dispatch''\<rparr>,
            br_principal = who, br_on_behalf_of = [], br_correlation_id = [], br_pr_lifecycle = None, br_effort = None\<rparr>)"

definition dispatch_code_request ::
    "dispatch_env \<Rightarrow> string \<Rightarrow> resolved_dispatch \<Rightarrow> string \<Rightarrow> string \<Rightarrow> string \<Rightarrow> dispatch_state \<Rightarrow> dispatch_result \<times> dispatch_state" where
  "dispatch_code_request env pid rd repository branch prompt st =
     (case hourly_check env pid st of
        (Some stop, st1) \<Rightarrow> (Stopped stop, st1)
      | (None, st1) \<Rightarrow>
          (case json_float (de_float env) (case map_of (rd_budget rd) ''max_cost'' of Some v \<Rightarrow> v | None \<Rightarrow> JFloat 0) of
             None \<Rightarrow> (Raised, st1)
           | Some max_cost \<Rightarrow>
               let spend = (if pid \<noteq> [] \<and> 0 < max_cost
                            then (case de_principal env pid of
                                    Some q \<Rightarrow> check_dispatch_quota q (de_today_spend env pid) (de_active_leases env pid) max_cost
                                  | None \<Rightarrow> SpendAllowed)
                            else SpendAllowed)
               in if spend \<noteq> SpendAllowed then (Stopped (BudgetOverrun spend), st1)
                  else case validate_provider env (rd_provider rd) of
                    Some err \<Rightarrow> (Stopped (ProviderUnavailable err), st1)
                  | None \<Rightarrow>
                      (case dispatch_envelope_of env pid rd repository branch prompt of
                         None \<Rightarrow> (Raised, st1)
                       | Some e \<Rightarrow>
                           let v = validate_envelope (de_repr env) e
                           in if \<not> dv_accepted v then (Stopped (InvalidEnvelope (dv_reason v)), st1)
                              else
                                let st2 = st1\<lparr>ds_workflows := ds_workflows st1 @ [e]\<rparr>
                                in case de_gh env of
                                     None \<Rightarrow> (Raised, st2)
                                   | Some (code, stderr) \<Rightarrow>
                                       (case append_audit_entry
                                            \<lparr>dr_id = de_id env, dr_provider = rd_provider rd,
                                             dr_accepted = (if code = 0 then 1 else 0), dr_rejected = (if code = 0 then 0 else 1),
                                             dr_envelopes = [en_id e], dr_recorded_at = de_now_iso env\<rparr> (ds_audit st2) of
                                          (raised, a) \<Rightarrow> ((if raised then Raised else Ran code stderr), st2\<lparr>ds_audit := a\<rparr>)))))"

section \<open>The history\<close>

text \<open>What the history keeps of a dispatch, as the store of Code Requests reads it: it names no requester, so it is
  no Code Request.\<close>

definition history_entry :: "dispatch_env \<Rightarrow> code_dispatch \<Rightarrow> resolved_dispatch \<Rightarrow> int \<Rightarrow> other_record" where
  "history_entry env req rd code =
     \<lparr>or_id = Some (int_text (if de_now env < 0 then \<lceil>de_now env\<rceil> else \<lfloor>de_now env\<rfloor>)),
      or_repository = Some (cd_repo req), or_prompt = Some (take 500 (cd_prompt req)), or_title = None,
      or_status = Some (if code = 0 then ''dispatched'' else ''failed''), or_branch = Some (cd_branch req),
      or_standards = rd_standards rd, or_created_at = Some (de_now_iso env)\<rparr>"

definition history_limit :: nat where
  "history_limit = 200"

text \<open>A file that is unreadable or holds no list is left as it is.\<close>

fun append_history :: "other_record \<Rightarrow> cache_file \<Rightarrow> cache_file" where
  "append_history e Absent = Entries [OtherRecord e]"
| "append_history e Unreadable = Unreadable"
| "append_history e (Entries es) = Entries (last_n history_limit (es @ [OtherRecord e]))"

record code_dispatch_state =
  cs_dispatch :: dispatch_state
  cs_profiles :: profile_file
  cs_store :: request_store

text \<open>\<open>None\<close> is a blank repository or branch, or an exception of the dispatch.\<close>

definition run_code_dispatch ::
    "dispatch_env \<Rightarrow> string \<Rightarrow> notes_file \<Rightarrow> code_dispatch \<Rightarrow> code_dispatch_state \<Rightarrow>
     (int \<times> other_record option) option \<times> code_dispatch_state" where
  "run_code_dispatch env pid notes req st =
     (if blank (cd_repo req) \<or> blank (cd_branch req) then (None, st)
      else case resolve_dispatch (de_now_iso env) req (cs_profiles st) of
        (rd, f1) \<Rightarrow>
          let st1 = st\<lparr>cs_profiles := f1\<rparr>;
              prompt = build_full_prompt (de_repr env) (cd_prompt req) (rd_standards rd) (load_prompt_notes notes)
          in case dispatch_code_request env pid rd (cd_repo req) (cd_branch req) prompt (cs_dispatch st1) of
               (res, ds) \<Rightarrow>
                 let st2 = st1\<lparr>cs_dispatch := ds\<rparr>
                 in case (case res of Raised \<Rightarrow> None | Stopped stop \<Rightarrow> Some (stop_code stop) | Ran code _ \<Rightarrow> Some code) of
                      None \<Rightarrow> (None, st2)
                    | Some code \<Rightarrow>
                        if code = 422 \<or> code = 429 then (Some (code, None), st2)
                        else let e = history_entry env req rd code
                             in (Some (code, Some e),
                                 st2\<lparr>cs_store := (cs_store st2)\<lparr>rs_cache := append_history e (rs_cache (cs_store st2))\<rparr>\<rparr>))"

section \<open>What holds of a dispatch\<close>

lemma hourly_check_fields:
  assumes "hourly_check env pid st = (s, st1)"
  shows "ds_workflows st1 = ds_workflows st" and "ds_audit st1 = ds_audit st"
  using assms by (auto simp: hourly_check_def split: if_splits prod.splits)

lemma hourly_check_passed:
  assumes "hourly_check env pid st = (None, st1)" and "pid \<noteq> []"
  shows "\<not> is_anonymous pid \<and> fst (check_and_record pid (de_now env) (ds_quota st)) = QuotaOk"
  using assms by (auto simp: hourly_check_def split: if_splits prod.splits)

text \<open>A workflow is called for a named principal only if it is no placeholder, the hour's quota grants the
  dispatch, the principal's daily spend and runners allow the budget, the provider is known and available and
  the envelope is accepted.\<close>

theorem workflow_called_after_checks:
  assumes "dispatch_code_request env pid rd repo branch prompt st = (res, st1)" and "pid \<noteq> []"
    and "ds_workflows st1 \<noteq> ds_workflows st"
  shows "\<not> is_anonymous pid \<and> fst (check_and_record pid (de_now env) (ds_quota st)) = QuotaOk
    \<and> (\<exists>cost. json_float (de_float env) (case map_of (rd_budget rd) ''max_cost'' of Some v \<Rightarrow> v | None \<Rightarrow> JFloat 0) = Some cost
         \<and> (\<forall>q. de_principal env pid = Some q \<and> 0 < cost \<longrightarrow>
              de_today_spend env pid + cost \<le> pq_spend_usd_day q \<and> int (de_active_leases env pid) < pq_max_runners q))
    \<and> rd_provider rd \<in> set (de_providers env) \<and> (\<exists>d. de_availability env (rd_provider rd) = Some (True, d))
    \<and> (\<exists>e. ds_workflows st1 = ds_workflows st @ [e] \<and> dv_accepted (validate_envelope (de_repr env) e))"
proof -
  obtain s st0 where h: "hourly_check env pid st = (s, st0)" by fastforce
  note w = hourly_check_fields [OF h]
  from assms h w have s: "s = None" by (cases s) (auto simp: dispatch_code_request_def)
  note passed = hourly_check_passed [OF h [unfolded s] assms(2)]
  from assms h s w obtain cost where cost:
    "json_float (de_float env) (case map_of (rd_budget rd) ''max_cost'' of Some v \<Rightarrow> v | None \<Rightarrow> JFloat 0) = Some cost"
    by (fastforce simp: dispatch_code_request_def split: option.splits)
  have spend: "de_today_spend env pid + cost \<le> pq_spend_usd_day q \<and> int (de_active_leases env pid) < pq_max_runners q"
    if "de_principal env pid = Some q" "0 < cost" for q
    using assms h s w cost that
    by (auto simp: dispatch_code_request_def check_dispatch_quota_def split: if_splits)
  from assms h s w cost have prov: "validate_provider env (rd_provider rd) = None"
    by (auto simp: dispatch_code_request_def Let_def split: if_splits option.splits)
  from assms h s w cost prov obtain e where e: "dispatch_envelope_of env pid rd repo branch prompt = Some e"
    by (auto simp: dispatch_code_request_def Let_def split: if_splits option.splits)
  from assms h s w cost prov e have "dv_accepted (validate_envelope (de_repr env) e)"
    by (auto simp: dispatch_code_request_def Let_def split: if_splits)
  moreover from this assms h s w cost prov e have "ds_workflows st1 = ds_workflows st @ [e]"
    by (auto simp: dispatch_code_request_def Let_def split: if_splits option.splits prod.splits)
  moreover from prov have "rd_provider rd \<in> set (de_providers env) \<and> (\<exists>d. de_availability env (rd_provider rd) = Some (True, d))"
    by (auto simp: validate_provider_def split: if_splits option.splits bool.splits)
  ultimately show ?thesis using passed cost spend by blast
qed

text \<open>A dispatch whose settings name no effort never reaches a workflow: its envelope cannot be built, and
  the attempt raises after it has used up a place of the hour's quota.\<close>

theorem no_effort_no_dispatch:
  assumes "str_or (rd_effort rd) None = None"
    and "dispatch_code_request env pid rd repo branch prompt st = (res, st1)"
  shows "ds_workflows st1 = ds_workflows st \<and> (res = Raised \<or> (\<exists>stop. res = Stopped stop))"
proof -
  have none: "dispatch_envelope_of env pid rd repo branch prompt = None"
    unfolding dispatch_envelope_of_def Let_def
    using assms(1) by (intro empty_effort_refused) (auto split: option.splits if_splits elim: str_or.elims)
  obtain s st0 where h: "hourly_check env pid st = (s, st0)" by fastforce
  from assms(2) h none hourly_check_fields(1) [OF h] show ?thesis
    by (cases s) (auto simp: dispatch_code_request_def Let_def split: option.splits if_splits)
qed

definition sample_dispatch_env :: dispatch_env where
  "sample_dispatch_env =
     \<lparr>de_keys = sample_keys, de_repr = (\<lambda>v. []), de_float = (\<lambda>s. None),
      de_principal = (\<lambda>p. Some \<lparr>pq_spend_usd_day = 10, pq_max_runners = 2\<rparr>), de_today_spend = (\<lambda>p. 0),
      de_active_leases = (\<lambda>p. 0), de_providers = [''codex_cli''], de_availability = (\<lambda>p. Some (True, [])),
      de_org = ''org'', de_now = 0, de_now_iso = ''t0'', de_approved_at = ''t0'', de_id = ''e1'',
      de_context_id = [], de_gh = Some (0, [])\<rparr>"

definition sample_resolved :: "string option \<Rightarrow> resolved_dispatch" where
  "sample_resolved effort = \<lparr>rd_provider = ''codex_cli'', rd_model = [], rd_effort = effort, rd_standards = [],
     rd_budget = [(''max_cost'', JInt 1)], rd_profile = None\<rparr>"

definition fresh_dispatch_state :: dispatch_state where
  "fresh_dispatch_state = \<lparr>ds_quota = new_quota window_seconds max_per_principal_per_hour, ds_workflows = [], ds_audit = NoAudit\<rparr>"

definition sample_called :: "string option \<Rightarrow> dispatch_result \<times> dispatch_state" where
  "sample_called effort =
     dispatch_code_request sample_dispatch_env ''ann'' (sample_resolved effort) ''repo'' ''main'' ''p'' fresh_dispatch_state"

lemma sample_called: "length (ds_workflows (snd (sample_called (Some ''low'')))) = 1" "fst (sample_called (Some ''low'')) = Ran 0 []"
  "fst (sample_called None) = Raised" "stamps (ds_quota (snd (sample_called None))) ''ann'' = [0]"
  by (code_simp, code_simp, code_simp, code_simp)

theorem workflow_called_after_checks_witness:
  "length (ds_workflows (snd (sample_called (Some ''low'')))) = 1 \<and> \<not> is_anonymous ''ann'' \<and> ''codex_cli'' \<in> set (de_providers sample_dispatch_env)"
proof -
  have "dispatch_code_request sample_dispatch_env ''ann'' (sample_resolved (Some ''low'')) ''repo'' ''main'' ''p'' fresh_dispatch_state
      = (fst (sample_called (Some ''low'')), snd (sample_called (Some ''low'')))"
    by (simp add: sample_called_def)
  moreover have "ds_workflows (snd (sample_called (Some ''low''))) \<noteq> ds_workflows fresh_dispatch_state"
    using sample_called(1) by (auto simp: fresh_dispatch_state_def)
  ultimately have "\<not> is_anonymous ''ann'' \<and> rd_provider (sample_resolved (Some ''low'')) \<in> set (de_providers sample_dispatch_env)"
    using workflow_called_after_checks [of sample_dispatch_env "''ann''" "sample_resolved (Some ''low'')"] by blast
  with sample_called(1) show ?thesis by (simp add: sample_resolved_def)
qed

theorem no_effort_no_dispatch_witness:
  "ds_workflows (snd (sample_called None)) = [] \<and> fst (sample_called None) = Raised"
proof -
  have "dispatch_code_request sample_dispatch_env ''ann'' (sample_resolved None) ''repo'' ''main'' ''p'' fresh_dispatch_state
      = (fst (sample_called None), snd (sample_called None))"
    by (simp add: sample_called_def)
  from no_effort_no_dispatch [OF _ this] sample_called(3) show ?thesis
    by (simp add: sample_resolved_def fresh_dispatch_state_def)
qed

text \<open>A dispatch without a principal is held to no quota, though an empty principal is said to be rejected.\<close>

lemma empty_principal_not_limited: "hourly_check env [] st = (None, st)"
  by (simp add: hourly_check_def)

section \<open>The history in the cache file\<close>

lemma validated_None: "OtherRecord e \<in> set es \<Longrightarrow> or_id e \<noteq> None \<Longrightarrow> validated es = None"
  by (induction es rule: validated.induct) auto

lemma last_n_snoc: "0 < n \<Longrightarrow> x \<in> set (last_n n (xs @ [x]))"
  by (simp add: last_n_def)

lemma append_history_other:
  assumes "f \<noteq> Unreadable"
  shows "\<exists>es. append_history e f = Entries es \<and> OtherRecord e \<in> set es"
proof (cases f)
  case (Entries es)
  then show ?thesis using last_n_snoc [of history_limit "OtherRecord e" es] by (simp add: history_limit_def)
qed (use assms in auto)

lemma history_added:
  assumes "run_code_dispatch env pid notes req st = (Some (code, Some e), st1)"
  shows "rs_cache (cs_store st1) = append_history e (rs_cache (cs_store st))" and "or_id e \<noteq> None"
  using assms
  by (auto simp: run_code_dispatch_def Let_def history_entry_def split: if_splits prod.splits option.splits)

text \<open>A recorded dispatch breaks the store of Code Requests: its entry in the common file is no Code Request,
  so from then on creating a request writes its issue on GitHub and raises, with the cache unchanged, and a
  retry writes another issue.\<close>

theorem dispatch_breaks_store:
  assumes "run_code_dispatch env pid notes req st = (Some (code, Some e), st1)"
    and "rs_cache (cs_store st) \<noteq> Unreadable"
    and "store_create senv (Some answer) r (cs_store st1) = (res, store2)"
  shows "res = None \<and> rs_cache store2 = rs_cache (cs_store st1) \<and>
    (\<exists>issue. rs_writes store2 = rs_writes (cs_store st1) @ [issue])"
proof -
  obtain es where "rs_cache (cs_store st1) = Entries es" "OtherRecord e \<in> set es"
    using history_added(1) [OF assms(1)] append_history_other [OF assms(2), of e] by auto
  then have "validated (read_cache (rs_cache (cs_store st1))) = None"
    using validated_None history_added(2) [OF assms(1)] by simp
  with assms(3) show ?thesis by (cases answer) (auto simp: store_create_def Let_def)
qed

definition sample_code_dispatch :: code_dispatch where
  "sample_code_dispatch = \<lparr>cd_repo = ''repo'', cd_branch = ''main'', cd_prompt = ''p'', cd_provider = Some ''codex_cli'',
     cd_model = None, cd_effort = Some ''low'', cd_standards = Some [], cd_budget = None, cd_profile_id = None\<rparr>"

definition sample_dispatched :: "(int \<times> other_record option) option \<times> code_dispatch_state" where
  "sample_dispatched = run_code_dispatch sample_dispatch_env ''ann'' NoNotes sample_code_dispatch
     \<lparr>cs_dispatch = fresh_dispatch_state, cs_profiles = NoProfiles, cs_store = \<lparr>rs_cache = Absent, rs_writes = []\<rparr>\<rparr>"

definition sample_history_entry :: other_record where
  "sample_history_entry = history_entry sample_dispatch_env sample_code_dispatch (sample_resolved (Some ''low'')) 0"

lemma sample_dispatched: "fst sample_dispatched = Some (0, Some sample_history_entry)"
  by code_simp

theorem dispatch_breaks_store_witness:
  "fst (store_create (sample_store_env sample_stored) (Some (Some 8, None)) sample_stored (cs_store (snd sample_dispatched))) = None"
proof -
  have run: "run_code_dispatch sample_dispatch_env ''ann'' NoNotes sample_code_dispatch
     \<lparr>cs_dispatch = fresh_dispatch_state, cs_profiles = NoProfiles, cs_store = \<lparr>rs_cache = Absent, rs_writes = []\<rparr>\<rparr>
     = (Some (0, Some sample_history_entry), snd sample_dispatched)"
    using sample_dispatched by (simp add: sample_dispatched_def prod_eq_iff)
  show ?thesis
    using dispatch_breaks_store [OF run _ surjective_pairing, of "sample_store_env sample_stored" "(Some 8, None)" sample_stored]
    by simp
qed

text \<open>Into a full file the dispatch drops the first entry, which is the newest request: the store prepends.\<close>

lemma history_drops_newest:
  "length es = history_limit \<Longrightarrow> append_history e (Entries es) = Entries (tl es @ [OtherRecord e])"
  by (cases es) (simp_all add: last_n_def history_limit_def)

end
