(* ===== verification/Dispatch_Submit.thy ===== *)
theory Dispatch_Submit
  imports Dispatch_Wire Replay_Store
begin

text \<open>
  The route that submits a command envelope (\<open>backend/routers/dispatch.py\<close>): the body is parsed, its
  signature, instants and approval are checked, the action is checked against the allowlist, and the
  envelope's identifier is claimed in the replay store. A submission is one step, with the clock's reading.
\<close>

section \<open>The route\<close>

definition command_preview :: "(json \<Rightarrow> string) \<Rightarrow> string \<Rightarrow> (string, json) dict \<Rightarrow> string list option" where
  "command_preview repr action payload =
     (case get_action action of
        None \<Rightarrow> None
      | Some a \<Rightarrow> if da_name a = ''scheduler.modify''
                  then (case scheduler_modify_command repr payload of Inl _ \<Rightarrow> None | Inr cmd \<Rightarrow> Some cmd)
                  else Some (da_command a))"

datatype submit_result =
    Malformed
  | BadCrypto crypto_result
  | Refused dispatch_reason
  | NoReplayProtection
  | ServerError
  | Replayed
  | Submitted string string "string list"

record submit_env =
  sb_keys :: dispatch_keys
  sb_repr :: "json \<Rightarrow> string"
  sb_instant :: "string \<Rightarrow> seconds option"

record submission =
  sm_body :: json
  sm_fresh_id :: string
  sm_now :: seconds
  sm_now_iso :: string

definition parse_submission :: "submit_env \<Rightarrow> submission \<Rightarrow> envelope option" where
  "parse_submission env s =
     (case sm_body s of JDict d \<Rightarrow> envelope_from_dict (sb_repr env) (sm_fresh_id s) (sm_now_iso s) d | _ \<Rightarrow> None)"

text \<open>The replay store is absent until the server has set it.\<close>

definition submit_command ::
    "submit_env \<Rightarrow> submission \<Rightarrow> replay_store option \<Rightarrow> submit_result \<times> replay_store option" where
  "submit_command env s st =
     (case parse_submission env s of
        None \<Rightarrow> (Malformed, st)
      | Some e \<Rightarrow>
          let crypto = validate_envelope_crypto (sb_keys env) (sb_instant env) (sm_now s) e
          in if crypto \<noteq> CryptoValid then (BadCrypto crypto, st)
             else
               let v = validate_envelope (sb_repr env) e
               in if \<not> dv_accepted v then (Refused (dv_reason v), st)
                  else case st of
                         None \<Rightarrow> (NoReplayProtection, st)
                       | Some rs \<Rightarrow>
                           (case claim_once (sm_now s) (en_id e) rs of
                              (None, rs1) \<Rightarrow> (ServerError, Some rs1)
                            | (Some False, rs1) \<Rightarrow> (Replayed, Some rs1)
                            | (Some True, rs1) \<Rightarrow>
                                ((case command_preview (sb_repr env) (en_action e) (en_payload e) of
                                    None \<Rightarrow> ServerError
                                  | Some cmd \<Rightarrow> Submitted (en_id e) (en_action e) cmd), Some rs1)))"

fun submit_run :: "submit_env \<Rightarrow> submission list \<Rightarrow> replay_store option \<Rightarrow> (submission \<times> submit_result) list" where
  "submit_run env [] st = []"
| "submit_run env (s # ss) st =
     (case submit_command env s st of (r, st1) \<Rightarrow> (s, r) # submit_run env ss st1)"

section \<open>Accepted once\<close>

text \<open>A validated action has a command: nothing fails once the identifier is claimed.\<close>

lemma accepted_has_command:
  assumes "dv_accepted (validate_envelope repr e)"
  shows "command_preview repr (en_action e) (en_payload e) \<noteq> None"
  using assms
  by (cases "get_action (en_action e)")
    (auto simp: validate_envelope_def dv_accepted_def command_preview_def Let_def split: if_splits sum.splits)

text \<open>The result is a submission of the envelope with this identifier and this instant of issue.\<close>

definition accepts :: "submit_env \<Rightarrow> string \<Rightarrow> string \<Rightarrow> submission \<times> submit_result \<Rightarrow> bool" where
  "accepts env eid issued = (\<lambda>(s, r).
     (case (parse_submission env s, r) of
        (Some e, Submitted _ _ _) \<Rightarrow> en_id e = eid \<and> en_issued_at e = issued
      | _ \<Rightarrow> False))"

definition names_known :: "submit_env \<Rightarrow> string list \<Rightarrow> submission \<Rightarrow> bool" where
  "names_known env U s \<longleftrightarrow> (case parse_submission env s of None \<Rightarrow> True | Some e \<Rightarrow> en_id e \<in> set U)"

lemma submit_cases:
  assumes "submit_command env s (Some rs) = (r, st1)"
  obtains "st1 = Some rs" and "\<And>i a c. r \<noteq> Submitted i a c"
  | e b rs1 where "parse_submission env s = Some e" and "claim_once (sm_now s) (en_id e) rs = (b, rs1)" and "st1 = Some rs1"
      and "timestamp_freshness (sb_instant env) (sm_now s) 300 (en_issued_at e) = Fresh"
      and "\<And>i a c. r = Submitted i a c \<Longrightarrow> b = Some True"
proof (cases "parse_submission env s")
  case None
  with assms show ?thesis by (intro that(1)) (auto simp: submit_command_def)
next
  case (Some e)
  show ?thesis
  proof (cases "validate_envelope_crypto (sb_keys env) (sb_instant env) (sm_now s) e = CryptoValid
      \<and> dv_accepted (validate_envelope (sb_repr env) e)")
    case False
    with assms Some show ?thesis by (intro that(1)) (auto simp: submit_command_def Let_def split: if_splits)
  next
    case True
    obtain b rs1 where c: "claim_once (sm_now s) (en_id e) rs = (b, rs1)" by fastforce
    have "timestamp_freshness (sb_instant env) (sm_now s) 300 (en_issued_at e) = Fresh"
      using True by (auto simp: validate_envelope_crypto_def Let_def split: if_splits)
    then show ?thesis
      using that(2) [OF Some c] assms Some True c
      by (auto simp: submit_command_def Let_def split: option.splits bool.splits)
  qed
qed

lemma fresh_window:
  assumes "timestamp_freshness inst now 300 t = Fresh" and "inst t = Some i"
  shows "i - 300 \<le> now" and "now \<le> i + 300"
  using assms by (auto simp: timestamp_freshness_def split: if_splits)

lemma submit_inv:
  assumes "submit_command env s (Some rs) = (r, st1)" and "envelope_inv U ttl rs" and "names_known env U s"
  shows "\<exists>rs1. st1 = Some rs1 \<and> envelope_inv U ttl rs1"
  using assms(1)
proof (cases rule: submit_cases)
  case 1
  with assms show ?thesis by simp
next
  case (2 e b rs1)
  with assms claim_once_inv [OF assms(2), of "en_id e" "sm_now s"] show ?thesis by (auto simp: names_known_def)
qed

text \<open>No acceptance while the claim of an earlier one lasts, nor after the instant of issue has grown too old.\<close>

lemma never_again:
  assumes "envelope_inv U ttl rs" and "list_all (names_known env U) ss" and "sorted (map sm_now ss)"
    and "sb_instant env issued = Some i" and "i + 300 < T"
    and "envelope_taken T rs eid \<or> (\<forall>s \<in> set ss. i + 300 < sm_now s)"
  shows "filter (accepts env eid issued) (submit_run env ss (Some rs)) = []"
  using assms
proof (induction ss arbitrary: rs)
  case (Cons s ss)
  obtain r st1 where run: "submit_command env s (Some rs) = (r, st1)" by fastforce
  obtain rs1 where st1: "st1 = Some rs1" and inv: "envelope_inv U ttl rs1"
    using submit_inv [OF run Cons.prems(1)] Cons.prems(2) by auto
  have later: "i + 300 < sm_now s \<Longrightarrow> \<forall>s' \<in> set ss. i + 300 < sm_now s'"
    using Cons.prems(3) by (auto intro: less_le_trans)
  have "\<not> accepts env eid issued (s, r) \<and> (envelope_taken T rs1 eid \<or> (\<forall>s' \<in> set ss. i + 300 < sm_now s'))"
    using run
  proof (cases rule: submit_cases)
    case 1
    with Cons.prems(6) st1 show ?thesis by (auto simp: accepts_def split: option.splits submit_result.splits)
  next
    case (2 e b rs')
    with st1 Cons.prems(2) have e: "en_id e \<in> set U" and rs': "rs' = rs1" by (auto simp: names_known_def)
    show ?thesis
    proof (cases "i + 300 < sm_now s")
      case True
      have "en_issued_at e \<noteq> issued" using fresh_window(2) [OF 2(4)] Cons.prems(4) True by fastforce
      with 2(1) True later show ?thesis by (auto simp: accepts_def split: submit_result.splits)
    next
      case False
      with Cons.prems(5,6) have tk: "envelope_taken T rs eid" and now: "sm_now s < T" by auto
      have "envelope_taken T rs1 eid"
        using claim_once_spec(3) [OF Cons.prems(1) e tk now] 2(2) rs' by simp
      moreover have "b = Some True \<Longrightarrow> en_id e \<noteq> eid"
        using claim_once_spec(1) [OF Cons.prems(1) e, of "sm_now s" T] 2(2) now tk by auto
      ultimately show ?thesis using 2(1,5) by (auto simp: accepts_def split: submit_result.splits)
    qed
  qed
  moreover from this have "filter (accepts env eid issued) (submit_run env ss (Some rs1)) = []"
    using Cons.IH [OF inv _ _ Cons.prems(4,5)] Cons.prems(2,3) by simp
  ultimately show ?case using run st1 by simp
qed simp

text \<open>C15: An envelope is submitted at most once, however often and however late its body is sent again, when the
  replay store keeps a claim longer than the ten minutes in which an envelope is fresh, the identifiers fit
  under the store's cap and the clock does not run backwards.\<close>

theorem submitted_at_most_once:
  assumes "envelope_inv U ttl rs" and "600 < ttl" and "list_all (names_known env U) ss" and "sorted (map sm_now ss)"
  shows "length (filter (accepts env eid issued) (submit_run env ss (Some rs))) \<le> 1"
  using assms(1,3,4)
proof (induction ss arbitrary: rs)
  case (Cons s ss)
  obtain r st1 where run: "submit_command env s (Some rs) = (r, st1)" by fastforce
  obtain rs1 where st1: "st1 = Some rs1" and inv: "envelope_inv U ttl rs1"
    using submit_inv [OF run Cons.prems(1)] Cons.prems(2) by auto
  show ?case
  proof (cases "accepts env eid issued (s, r)")
    case False
    with Cons.IH [OF inv] Cons.prems run st1 show ?thesis by simp
  next
    case True
    from run have "filter (accepts env eid issued) (submit_run env ss (Some rs1)) = []"
    proof (cases rule: submit_cases)
      case 1
      with True show ?thesis by (auto simp: accepts_def split: option.splits submit_result.splits)
    next
      case (2 e b rs')
      with True have e: "en_id e = eid" "en_issued_at e = issued" "b = Some True"
        by (auto simp: accepts_def split: submit_result.splits)
      from 2(4) e obtain i where i: "sb_instant env issued = Some i"
        by (cases "sb_instant env issued") (auto simp: timestamp_freshness_def)
      with fresh_window(1) [OF 2(4)] e have "i - 300 \<le> sm_now s" by simp
      moreover have "en_id e \<in> set U" using Cons.prems(2) 2(1) by (simp add: names_known_def)
      ultimately have "envelope_taken (i - 300 + ttl) rs1 eid"
        using claim_once_spec(2) [OF Cons.prems(1), of "en_id e" "sm_now s" "i - 300 + ttl"] 2(2,3) e st1 by simp
      then show ?thesis
        using never_again [OF inv _ _ i, of ss "i - 300 + ttl"] Cons.prems(2,3) assms(2) by simp
    qed
    with run st1 show ?thesis by simp
  qed
qed simp

definition sample_submit_env :: submit_env where
  "sample_submit_env = \<lparr>sb_keys = sample_keys, sb_repr = (\<lambda>v. []), sb_instant = sample_instant\<rparr>"

definition sample_submission :: "seconds \<Rightarrow> submission" where
  "sample_submission now =
     \<lparr>sm_body = JDict (envelope_to_dict built_sample), sm_fresh_id = ''x'', sm_now = now, sm_now_iso = ''y''\<rparr>"

lemma sample_parsed: "parse_submission sample_submit_env (sample_submission now) = Some built_sample"
  using built_sample_parsed [of "''x''" "''y''"]
  by (simp add: parse_submission_def sample_submission_def sample_submit_env_def)

theorem submitted_at_most_once_witness:
  "length (filter (accepts sample_submit_env ''e7'' ''t0'')
     (submit_run sample_submit_env [sample_submission 0, sample_submission 5, sample_submission 299]
        (Some \<lparr>rp_ttl = 86400, rp_max_entries = 100000, rp_processed = []\<rparr>))) \<le> 1"
proof (rule submitted_at_most_once [where U = "[''e7'']" and ttl = 86400])
  have "en_id built_sample = ''e7''" using built_fields(8) [OF built_sample] .
  then show "list_all (names_known sample_submit_env [''e7'']) [sample_submission 0, sample_submission 5, sample_submission 299]"
    by (simp add: names_known_def sample_parsed)
qed (simp_all add: envelope_inv_def keyed_def sample_submission_def)

end
