(* ===== verification/Arm_Cap.thy ===== *)
theory Arm_Cap
  imports Json_Access Load_Spec
begin

text \<open>
  The cap on healthy armed pull requests (\<open>backend/dispatch_arm_cap\<close>): which armed pull request counts as
  healthy, the store of reservations and of the reconciled inventory, the admission of an arm, the
  reconciliation, and the disarm workflow; and the command that arms a pull request under the cap
  (\<open>_arm_cli\<close> of \<open>scripts/automerge_guard.py\<close>). What GitHub answers, the clock and random tokens are arguments.
\<close>

section \<open>Policy and pull requests\<close>

record arm_policy =
  pl_enabled :: bool
  pl_shadow_mode :: bool
  pl_max_healthy_armed :: int
  pl_reservation_ttl :: int
  pl_reconcile_interval :: int
  pl_scope :: "string list option"
  pl_disarm_workflow :: string
  pl_disarm_streak_limit :: int
  pl_disarm_cooldown :: int

definition int_field :: "(string, json) dict \<Rightarrow> string \<Rightarrow> int \<Rightarrow> int option" where
  "int_field d k dflt = (case map_of d k of None \<Rightarrow> Some dflt | Some v \<Rightarrow> json_int v)"

definition bool_field :: "(string, json) dict \<Rightarrow> string \<Rightarrow> bool \<Rightarrow> bool" where
  "bool_field d k dflt = (case map_of d k of None \<Rightarrow> dflt | Some v \<Rightarrow> json_true v)"

text \<open>\<open>None\<close> is a refusal of the policy file; the paths of the check files are left to the caller.\<close>

definition policy_from_dict :: "(json \<Rightarrow> string) \<Rightarrow> json \<Rightarrow> arm_policy option" where
  "policy_from_dict repr data =
     (case data of
        JDict d \<Rightarrow>
          (case (case json_get d ''scope_repositories'' of
                   JNull \<Rightarrow> Some None | JList vs \<Rightarrow> Some (Some (map (json_str repr) vs)) | _ \<Rightarrow> None,
                 int_field d ''max_healthy_armed'' 12, int_field d ''reservation_ttl_seconds'' 300,
                 int_field d ''reconcile_interval_seconds'' 900, int_field d ''disarm_transient_streak_limit'' 2,
                 int_field d ''disarm_cooldown_seconds'' 3600) of
             (Some scope, Some cap, Some ttl, Some interval, Some streak, Some cooldown) \<Rightarrow>
               Some \<lparr>pl_enabled = bool_field d ''enabled'' False, pl_shadow_mode = bool_field d ''shadow_mode'' True,
                     pl_max_healthy_armed = cap, pl_reservation_ttl = ttl, pl_reconcile_interval = interval,
                     pl_scope = scope, pl_disarm_workflow = text_get repr d ''disarm_workflow'' ''conflict-disarm.yml'',
                     pl_disarm_streak_limit = streak, pl_disarm_cooldown = cooldown\<rparr>
           | _ \<Rightarrow> None)
      | _ \<Rightarrow> None)"

definition in_scope :: "arm_policy \<Rightarrow> string \<Rightarrow> bool" where
  "in_scope p repo = (case pl_scope p of None \<Rightarrow> True | Some rs \<Rightarrow> rs = [] \<or> repo \<in> set rs)"

record pr_snapshot =
  sn_repo :: string
  sn_number :: int
  sn_armed :: bool
  sn_draft :: bool
  sn_mergeable_state :: string
  sn_labels :: "string list"
  sn_in_queue :: bool
  sn_queue_state :: string
  sn_checks :: "(string \<times> string) list"

fun text_labels :: "json list \<Rightarrow> string list" where
  "text_labels [] = []"
| "text_labels (JStr s # vs) = s # text_labels vs"
| "text_labels (v # vs) = text_labels vs"

fun named_labels :: "(json \<Rightarrow> string) \<Rightarrow> json list \<Rightarrow> string list" where
  "named_labels repr [] = []"
| "named_labels repr (JDict d # vs) = text_get repr d ''name'' [] # named_labels repr vs"
| "named_labels repr (v # vs) = named_labels repr vs"

text \<open>The labels of the API's answer, which are a list: their texts, else the names of its objects.\<close>

definition snapshot_from_github ::
    "(json \<Rightarrow> string) \<Rightarrow> string \<Rightarrow> (string, json) dict \<Rightarrow> (string \<times> string) list \<Rightarrow> pr_snapshot option" where
  "snapshot_from_github repr repo raw checks =
     (let labels = (case map_of raw ''labels'' of Some (JList vs) \<Rightarrow> vs | _ \<Rightarrow> []);
          texts = text_labels labels;
          state = (case json_get raw ''merge_queue_entry'' of
                     JDict mq \<Rightarrow> json_str repr (json_or (json_get mq ''state'') (JStr [])) | _ \<Rightarrow> [])
      in case json_int (json_or (json_get raw ''number'') (JInt 0)) of
           None \<Rightarrow> None
         | Some n \<Rightarrow>
             Some \<lparr>sn_repo = repo, sn_number = n, sn_armed = (json_get raw ''auto_merge'' \<noteq> JNull),
                   sn_draft = json_true (json_get raw ''draft''),
                   sn_mergeable_state = py_lower (json_str repr (json_or (json_get raw ''mergeable_state'') (JStr []))),
                   sn_labels = (if texts \<noteq> [] then texts else named_labels repr labels),
                   sn_in_queue = (state \<noteq> []), sn_queue_state = py_lower state, sn_checks = checks\<rparr>)"

section \<open>Health\<close>

datatype arm_lifecycle = AwaitingChecks | QueuedToMerge | Building | EvictedArm | NotArmed

record health_verdict =
  hv_healthy :: bool
  hv_lifecycle :: arm_lifecycle
  hv_reasons :: "string list"

definition conflict_disarmed_label :: string where
  "conflict_disarmed_label = ''conflict:disarmed''"

definition failing_conclusions :: "string list" where
  "failing_conclusions = [''failure'', ''cancelled'', ''timed_out'', ''action_required'']"

text \<open>Of two check runs with one name the later counts.\<close>

definition failing_checks :: "string list \<Rightarrow> (string \<times> string) list \<Rightarrow> string list" where
  "failing_checks required checks =
     (if required \<noteq> [] \<and> checks \<noteq> []
      then List.map_filter (\<lambda>ctx. case map_of (rev checks) ctx of
             Some c \<Rightarrow> if c \<in> set failing_conclusions then Some (''required check '' @ ctx @ ''='' @ c) else None
           | None \<Rightarrow> None) required
      else [])"

definition classify_arm_health :: "string list \<Rightarrow> pr_snapshot \<Rightarrow> health_verdict" where
  "classify_arm_health required s =
     (let verdict = (\<lambda>h l rs. \<lparr>hv_healthy = h, hv_lifecycle = l, hv_reasons = rs\<rparr>);
          failing = failing_checks required (sn_checks s)
      in if \<not> sn_armed s \<or> sn_draft s then verdict False NotArmed [''not armed'']
         else if conflict_disarmed_label \<in> set (map py_lower (sn_labels s))
         then verdict False EvictedArm [[CHR 0x60] @ conflict_disarmed_label @ [CHR 0x60] @ '' label'']
         else if sn_mergeable_state s = ''dirty''
         then verdict False EvictedArm [''mergeable_state=dirty (CONFLICTING)'']
         else if failing \<noteq> [] then verdict False EvictedArm failing
         else if sn_in_queue s
         then verdict True (if sn_queue_state s \<in> {''merging'', ''merged''} then Building else QueuedToMerge) []
         else if sn_mergeable_state s = ''clean'' then verdict True QueuedToMerge []
         else verdict True AwaitingChecks [])"

text \<open>The required contexts from the check files, \<open>None\<close> where a file is missing or unreadable. A list is
  expected; of a text its characters count, of an object its keys.\<close>

fun context_name :: "(json \<Rightarrow> string) \<Rightarrow> json \<Rightarrow> string option" where
  "context_name repr (JStr s) = Some s"
| "context_name repr (JDict d) =
     (if json_true (json_get d ''context'') then Some (json_str repr (json_get d ''context'')) else None)"
| "context_name repr v = None"

definition contexts_of :: "(json \<Rightarrow> string) \<Rightarrow> json \<Rightarrow> string list" where
  "contexts_of repr v = (case v of JList vs \<Rightarrow> List.map_filter (context_name repr) vs | JStr s \<Rightarrow> map (\<lambda>c. [c]) s | JDict d \<Rightarrow> map fst d | _ \<Rightarrow> [])"

definition merged_contexts :: "(json \<Rightarrow> string) \<Rightarrow> json \<Rightarrow> string list" where
  "merged_contexts repr repos =
     (case repos of
        JDict rs \<Rightarrow> concat (map (\<lambda>(_, entry). case entry of
            JDict d \<Rightarrow> contexts_of repr (json_or (json_get d ''contexts'') (json_get d ''required_contexts''))
          | _ \<Rightarrow> []) rs)
      | _ \<Rightarrow> [])"

text \<open>\<open>dict.fromkeys\<close>: the first occurrence of each.\<close>

fun first_occurrences :: "'a list \<Rightarrow> 'a list" where
  "first_occurrences [] = []"
| "first_occurrences (x # xs) = x # filter (\<lambda>y. y \<noteq> x) (first_occurrences xs)"

fun load_required_contexts :: "(json \<Rightarrow> string) \<Rightarrow> json option list \<Rightarrow> string list" where
  "load_required_contexts repr [] = []"
| "load_required_contexts repr (file # files) =
     (case file of
        Some (JDict d) \<Rightarrow>
          (let names = contexts_of repr (json_get d ''required_contexts'');
               merged = merged_contexts repr (json_get d ''repositories'')
           in if names \<noteq> [] then names
              else if merged \<noteq> [] then first_occurrences merged
              else load_required_contexts repr files)
      | _ \<Rightarrow> load_required_contexts repr files)"

section \<open>The store\<close>

datatype reservation_status = PendingArm | ConfirmedArm | ReleasedArm | ExpiredArm

datatype arm_tier = UserTier | RepairTier | AgentTier

record arm_reservation =
  ar_token :: string
  ar_repo :: string
  ar_pr :: int
  ar_status :: reservation_status
  ar_tier :: arm_tier
  ar_kind :: string
  ar_reserved_at :: seconds
  ar_expires_at :: seconds
  ar_confirmed_at :: "seconds option"

record inventory_row =
  iv_repo :: string
  iv_pr :: int
  iv_healthy :: bool
  iv_lifecycle :: arm_lifecycle
  iv_reasons :: "string list"
  iv_updated_at :: seconds

record arm_store =
  as_reservations :: "arm_reservation list"
  as_inventory :: "inventory_row list"
  as_last_disarm :: "seconds option"
  as_over_cap_streak :: int

definition expire_stale_reservations :: "seconds \<Rightarrow> arm_store \<Rightarrow> arm_store" where
  "expire_stale_reservations now st =
     st\<lparr>as_reservations := map (\<lambda>r. if ar_status r = PendingArm \<and> ar_expires_at r \<le> now then r\<lparr>ar_status := ExpiredArm\<rparr> else r)
          (as_reservations st)\<rparr>"

definition count_healthy_armed :: "int option \<Rightarrow> seconds \<Rightarrow> arm_store \<Rightarrow> nat" where
  "count_healthy_armed stale_after now st =
     row_count (\<lambda>r. iv_healthy r \<and> (case stale_after of None \<Rightarrow> True | Some s \<Rightarrow> now - of_int s < iv_updated_at r)) (as_inventory st)"

definition count_pending :: "string option \<Rightarrow> arm_store \<Rightarrow> nat" where
  "count_pending exclude st =
     row_count (\<lambda>r. ar_status r = PendingArm \<and> (case exclude of Some (c # cs) \<Rightarrow> ar_token r \<noteq> c # cs | _ \<Rightarrow> True))
       (as_reservations st)"

definition effective_load :: "int option \<Rightarrow> seconds \<Rightarrow> arm_store \<Rightarrow> nat" where
  "effective_load stale_after now st = count_healthy_armed stale_after now st + count_pending None st"

definition upsert_inventory :: "seconds \<Rightarrow> string \<Rightarrow> int \<Rightarrow> health_verdict \<Rightarrow> arm_store \<Rightarrow> arm_store" where
  "upsert_inventory now repo pr v st =
     (let row = \<lparr>iv_repo = repo, iv_pr = pr, iv_healthy = hv_healthy v, iv_lifecycle = hv_lifecycle v,
                 iv_reasons = hv_reasons v, iv_updated_at = now\<rparr>;
          key = (\<lambda>r. (iv_repo r, iv_pr r))
      in if row_lookup key (repo, pr) (as_inventory st) = None then st\<lparr>as_inventory := as_inventory st @ [row]\<rparr>
         else st\<lparr>as_inventory := row_update key (repo, pr) (\<lambda>_. row) (as_inventory st)\<rparr>)"

definition remove_inventory :: "string \<Rightarrow> int \<Rightarrow> arm_store \<Rightarrow> arm_store" where
  "remove_inventory repo pr st = st\<lparr>as_inventory := row_delete (\<lambda>r. (iv_repo r, iv_pr r)) (repo, pr) (as_inventory st)\<rparr>"

record admit_context =
  ac_tier :: arm_tier
  ac_kind :: string

definition bypass_cap :: "admit_context \<Rightarrow> bool" where
  "bypass_cap ctx =
     (let kind = py_lower (py_strip (ac_kind ctx))
      in case ac_tier ctx of
           UserTier \<Rightarrow> True
         | RepairTier \<Rightarrow> py_startswith kind ''ci_fix'' \<or> py_startswith kind ''conflict''
         | AgentTier \<Rightarrow> False)"

datatype admit_reason = CapDisabled | OutOfScope | BypassTier | ExistingReservation | CapReached | RaceLost | Reserved

record admit_decision =
  dc_allowed :: bool
  dc_shadow_would_block :: bool
  dc_token :: "string option"
  dc_reason :: admit_reason
  dc_healthy_armed :: int
  dc_cap :: int

definition plain_decision :: "bool \<Rightarrow> admit_reason \<Rightarrow> admit_decision" where
  "plain_decision allowed reason = \<lparr>dc_allowed = allowed, dc_shadow_would_block = False, dc_token = None,
     dc_reason = reason, dc_healthy_armed = 0, dc_cap = 0\<rparr>"

text \<open>\<open>token\<close> is the random token drawn for the reservation.\<close>

definition try_reserve ::
    "string \<Rightarrow> seconds \<Rightarrow> int \<Rightarrow> int \<Rightarrow> int option \<Rightarrow> string \<Rightarrow> int \<Rightarrow> admit_context \<Rightarrow> arm_store \<Rightarrow> admit_decision \<times> arm_store" where
  "try_reserve token now cap ttl stale_after repo pr ctx st =
     (let st1 = expire_stale_reservations now st
      in case List.find (\<lambda>r. ar_repo r = repo \<and> ar_pr r = pr \<and> ar_status r = PendingArm) (as_reservations st1) of
           Some r \<Rightarrow> ((plain_decision True ExistingReservation)\<lparr>dc_token := Some (ar_token r)\<rparr>, st1)
         | None \<Rightarrow>
             let load = int (effective_load stale_after now st1)
             in if cap \<le> load
                then ((plain_decision False CapReached)\<lparr>dc_healthy_armed := load, dc_cap := cap\<rparr>, st1)
                else if list_ex (\<lambda>r. ar_token r = token) (as_reservations st1)
                then (plain_decision False RaceLost, st)
                else ((plain_decision True Reserved)\<lparr>dc_token := Some token, dc_healthy_armed := load + 1, dc_cap := cap\<rparr>,
                      st1\<lparr>as_reservations := as_reservations st1 @
                        [\<lparr>ar_token = token, ar_repo = repo, ar_pr = pr, ar_status = PendingArm, ar_tier = ac_tier ctx,
                          ar_kind = ac_kind ctx, ar_reserved_at = now, ar_expires_at = now + of_int ttl,
                          ar_confirmed_at = None\<rparr>]\<rparr>))"

definition confirm_reservation :: "seconds \<Rightarrow> string \<Rightarrow> arm_store \<Rightarrow> arm_store" where
  "confirm_reservation now token st =
     st\<lparr>as_reservations := map (\<lambda>r. if ar_token r = token \<and> ar_status r = PendingArm
          then r\<lparr>ar_status := ConfirmedArm, ar_confirmed_at := Some now\<rparr> else r) (as_reservations st)\<rparr>"

definition release_reservation :: "string \<Rightarrow> arm_store \<Rightarrow> arm_store" where
  "release_reservation token st =
     st\<lparr>as_reservations := map (\<lambda>r. if ar_token r = token \<and> ar_status r = PendingArm
          then r\<lparr>ar_status := ReleasedArm\<rparr> else r) (as_reservations st)\<rparr>"

section \<open>Admission\<close>

definition admit_for_arm ::
    "arm_policy \<Rightarrow> string \<Rightarrow> seconds \<Rightarrow> string \<Rightarrow> int \<Rightarrow> admit_context \<Rightarrow> arm_store \<Rightarrow> admit_decision \<times> arm_store" where
  "admit_for_arm p token now repo pr ctx st =
     (if \<not> pl_enabled p then (plain_decision True CapDisabled, st)
      else if \<not> in_scope p repo then (plain_decision True OutOfScope, st)
      else if bypass_cap ctx then (plain_decision True BypassTier, st)
      else case try_reserve token now (pl_max_healthy_armed p) (pl_reservation_ttl p)
                  (if pl_shadow_mode p then Some (pl_reconcile_interval p) else None) repo pr ctx
                  (expire_stale_reservations now st) of
             (d, st1) \<Rightarrow>
               if dc_allowed d then (d, st1)
               else if pl_shadow_mode p
               then (d\<lparr>dc_allowed := True, dc_shadow_would_block := True, dc_token := None\<rparr>, st1)
               else (d, st1))"

definition reconcile_one :: "string list \<Rightarrow> seconds \<Rightarrow> pr_snapshot \<Rightarrow> arm_store \<Rightarrow> arm_store" where
  "reconcile_one required now s st =
     (if \<not> sn_armed s then remove_inventory (sn_repo s) (sn_number s) st
      else upsert_inventory now (sn_repo s) (sn_number s) (classify_arm_health required s) st)"

text \<open>The counts are of healthy, unhealthy and unarmed snapshots.\<close>

definition reconcile_snapshots ::
    "arm_policy \<Rightarrow> string list \<Rightarrow> seconds \<Rightarrow> pr_snapshot list \<Rightarrow> arm_store \<Rightarrow> (nat \<times> nat \<times> nat) \<times> arm_store" where
  "reconcile_snapshots p required now snaps st =
     (let seen = filter (\<lambda>s. in_scope p (sn_repo s)) snaps;
          armed = filter sn_armed seen
      in ((row_count (\<lambda>s. hv_healthy (classify_arm_health required s)) armed,
           row_count (\<lambda>s. \<not> hv_healthy (classify_arm_health required s)) armed,
           row_count (\<lambda>s. \<not> sn_armed s) seen),
          fold (reconcile_one required now) seen st))"

definition should_trigger_cap_disarm :: "arm_policy \<Rightarrow> seconds \<Rightarrow> int \<Rightarrow> arm_store \<Rightarrow> bool \<times> arm_store" where
  "should_trigger_cap_disarm p now healthy st =
     (if \<not> pl_enabled p \<or> pl_shadow_mode p then (False, st)
      else if healthy \<le> pl_max_healthy_armed p then (False, st)
      else if (case as_last_disarm st of None \<Rightarrow> False | Some t \<Rightarrow> now - t < of_int (pl_disarm_cooldown p)) then (False, st)
      else if as_over_cap_streak st < pl_disarm_streak_limit p
      then (False, st\<lparr>as_over_cap_streak := as_over_cap_streak st + 1\<rparr>)
      else (True, st))"

definition record_disarm_triggered :: "seconds \<Rightarrow> arm_store \<Rightarrow> arm_store" where
  "record_disarm_triggered now st = st\<lparr>as_last_disarm := Some now, as_over_cap_streak := 0\<rparr>"

definition build_disarm_workflow_inputs :: "bool \<Rightarrow> int list \<Rightarrow> (string, string) dict" where
  "build_disarm_workflow_inputs dry_run exclude =
     [(''dry_run'', if dry_run then ''true'' else ''false''), (''exclude_prs'', py_join '','' (map int_text exclude))]"

section \<open>The arming command\<close>

record arm_result =
  rr_armed :: bool
  rr_merged :: bool
  rr_may_be_on :: bool

datatype arm_exit = ArmedExit | MergedExit | CapRefused | MayBeOn | NotArmedExit

text \<open>The policy is absent when it is unreadable; \<open>result\<close> is what arming the pull request on GitHub gives.\<close>

definition arm_cli ::
    "arm_policy option \<Rightarrow> string \<Rightarrow> seconds \<Rightarrow> string \<Rightarrow> int \<Rightarrow> admit_context \<Rightarrow> arm_result \<Rightarrow> arm_store \<Rightarrow> arm_exit \<times> arm_store" where
  "arm_cli policy token now repo pr ctx result st =
     (let (admit, st1) = (case policy of
            None \<Rightarrow> (None, st)
          | Some p \<Rightarrow> (case admit_for_arm p token now repo pr ctx st of (d, s) \<Rightarrow> (Some d, s)))
      in if (case admit of Some d \<Rightarrow> \<not> dc_allowed d | None \<Rightarrow> False) then (CapRefused, st1)
         else
           let st2 = (case Option.bind admit dc_token of
                        Some t \<Rightarrow> if t = [] then st1
                                  else if rr_armed result \<or> rr_merged result then confirm_reservation now t st1
                                  else release_reservation t st1
                      | None \<Rightarrow> st1)
           in ((if rr_armed result then ArmedExit else if rr_merged result then MergedExit
                else if rr_may_be_on result then MayBeOn else NotArmedExit), st2))"

section \<open>What counts as healthy\<close>

text \<open>An armed pull request counts toward the cap exactly when it is no draft, is not labelled as disarmed,
  is not in conflict, and no required check has failed in its latest run.\<close>

theorem healthy_iff:
  "hv_healthy (classify_arm_health required s) \<longleftrightarrow>
     sn_armed s \<and> \<not> sn_draft s \<and> conflict_disarmed_label \<notin> py_lower ` set (sn_labels s) \<and> sn_mergeable_state s \<noteq> ''dirty''
     \<and> (\<forall>ctx \<in> set required. map_of (rev (sn_checks s)) ctx \<notin> Some ` set failing_conclusions)"
proof -
  have "failing_checks required (sn_checks s) = [] \<longleftrightarrow>
      (\<forall>ctx \<in> set required. map_of (rev (sn_checks s)) ctx \<notin> Some ` set failing_conclusions)"
  proof (cases "sn_checks s = []")
    case False
    have "List.map_filter (\<lambda>ctx. case map_of (rev (sn_checks s)) ctx of
             Some c \<Rightarrow> if c \<in> set failing_conclusions then Some (''required check '' @ ctx @ ''='' @ c) else None
           | None \<Rightarrow> None) required = [] \<longleftrightarrow>
      (\<forall>ctx \<in> set required. map_of (rev (sn_checks s)) ctx \<notin> Some ` set failing_conclusions)"
      by (induction required) (auto simp: List.map_filter_def split: option.splits)
    with False show ?thesis by (auto simp: failing_checks_def)
  qed (simp add: failing_checks_def)
  then show ?thesis by (auto simp: classify_arm_health_def Let_def)
qed

section \<open>The load under an enforced cap\<close>

datatype arm_event =
    AdmitArm string seconds string int admit_context
  | ConfirmEvent seconds string
  | ReleaseEvent string
  | ExpireEvent seconds
  | ReconcileEvent "string list" seconds "pr_snapshot list"

fun arm_step :: "arm_policy \<Rightarrow> arm_event \<Rightarrow> arm_store \<Rightarrow> arm_store" where
  "arm_step p (AdmitArm token now repo pr ctx) st = snd (admit_for_arm p token now repo pr ctx st)"
| "arm_step p (ConfirmEvent now token) st = confirm_reservation now token st"
| "arm_step p (ReleaseEvent token) st = release_reservation token st"
| "arm_step p (ExpireEvent now) st = expire_stale_reservations now st"
| "arm_step p (ReconcileEvent required now snaps) st = snd (reconcile_snapshots p required now snaps st)"

definition arm_load :: "arm_store \<Rightarrow> nat" where
  "arm_load st = row_count iv_healthy (as_inventory st) + row_count (\<lambda>r. ar_status r = PendingArm) (as_reservations st)"

lemma effective_load_enforced: "effective_load None now st = arm_load st"
  by (simp add: effective_load_def arm_load_def count_healthy_armed_def count_pending_def)

lemma expire_load: "arm_load (expire_stale_reservations now st) \<le> arm_load st"
  and confirm_load: "arm_load (confirm_reservation now token st) \<le> arm_load st"
  and release_load: "arm_load (release_reservation token st) \<le> arm_load st"
  by (auto simp: arm_load_def expire_stale_reservations_def confirm_reservation_def release_reservation_def
      intro!: row_count_map_le split: if_splits)

lemma store_inventory [simp]:
  "as_inventory (expire_stale_reservations now st) = as_inventory st"
  "as_inventory (confirm_reservation now token st) = as_inventory st"
  "as_inventory (release_reservation token st) = as_inventory st"
  by (simp_all add: expire_stale_reservations_def confirm_reservation_def release_reservation_def)

lemma try_reserve_load:
  "arm_load (snd (try_reserve token now cap ttl None repo pr ctx st)) \<le> max (nat cap) (arm_load st)"
proof -
  note le = expire_load [of now st]
  show ?thesis
    using le by (auto simp: try_reserve_def Let_def effective_load_enforced arm_load_def split: option.splits)
qed

lemma admit_load:
  assumes "\<not> pl_shadow_mode p"
  shows "arm_load (snd (admit_for_arm p token now repo pr ctx st)) \<le> max (nat (pl_max_healthy_armed p)) (arm_load st)"
  using assms try_reserve_load [of token now "pl_max_healthy_armed p" "pl_reservation_ttl p" repo pr ctx "expire_stale_reservations now st"]
    expire_load [of now st]
  by (auto simp: admit_for_arm_def split: prod.splits)

fun no_reconcile :: "arm_event \<Rightarrow> bool" where
  "no_reconcile (ReconcileEvent required now snaps) = False"
| "no_reconcile e = True"

definition enforced_step :: "arm_policy \<Rightarrow> arm_event \<Rightarrow> arm_store \<Rightarrow> arm_store" where
  "enforced_step p e st = (if no_reconcile e \<and> \<not> pl_shadow_mode p then arm_step p e st else st)"

interpretation arms: capped_load "\<lambda>st. True" arm_load "nat (pl_max_healthy_armed p)" "enforced_step p" for p
proof
  fix s :: arm_store and e :: arm_event
  show "arm_load (enforced_step p e s) \<le> max (nat (pl_max_healthy_armed p)) (arm_load s)"
    using admit_load [of p] confirm_load release_load expire_load
    by (cases e) (auto simp: enforced_step_def le_max_iff_disj)
qed simp

lemma enforced_fold:
  "list_all no_reconcile es \<Longrightarrow> \<not> pl_shadow_mode p \<Longrightarrow> fold (enforced_step p) es st = fold (arm_step p) es st"
  by (induction es arbitrary: st) (simp_all add: enforced_step_def)

text \<open>Between two reconciliations the load of an enforced cap, healthy pull requests of the inventory and
  pending reservations, never passes the cap, whatever is admitted, confirmed, released and expired.\<close>

theorem arm_cap_holds:
  assumes "\<not> pl_shadow_mode p" and "list_all no_reconcile es" and "arm_load st \<le> nat (pl_max_healthy_armed p)"
  shows "arm_load (fold (arm_step p) es st) \<le> nat (pl_max_healthy_armed p)"
  using arms.run_capped [OF TrueI assms(3), of es] enforced_fold [OF assms(2,1)] by simp

definition sample_arm_policy :: "int \<Rightarrow> arm_policy" where
  "sample_arm_policy cap = \<lparr>pl_enabled = True, pl_shadow_mode = False, pl_max_healthy_armed = cap, pl_reservation_ttl = 300,
     pl_reconcile_interval = 900, pl_scope = None, pl_disarm_workflow = [], pl_disarm_streak_limit = 2, pl_disarm_cooldown = 3600\<rparr>"

definition empty_arm_store :: arm_store where
  "empty_arm_store = \<lparr>as_reservations = [], as_inventory = [], as_last_disarm = None, as_over_cap_streak = 0\<rparr>"

definition agent_context :: admit_context where
  "agent_context = \<lparr>ac_tier = AgentTier, ac_kind = []\<rparr>"

theorem arm_cap_holds_witness:
  "arm_load (fold (arm_step (sample_arm_policy 1)) [AdmitArm ''t1'' 0 ''r'' 1 agent_context,
     AdmitArm ''t2'' 0 ''r'' 2 agent_context, ReleaseEvent ''t1'', AdmitArm ''t3'' 1 ''r'' 3 agent_context] empty_arm_store) \<le> 1"
  using arm_cap_holds [of "sample_arm_policy 1" "[AdmitArm ''t1'' 0 ''r'' 1 agent_context,
     AdmitArm ''t2'' 0 ''r'' 2 agent_context, ReleaseEvent ''t1'', AdmitArm ''t3'' 1 ''r'' 3 agent_context]" empty_arm_store]
  by (simp add: sample_arm_policy_def empty_arm_store_def arm_load_def)

section \<open>Armed pull requests outside the count\<close>

definition tokens :: "arm_store \<Rightarrow> string set" where
  "tokens st = ar_token ` set (as_reservations st)"

lemma tokens_kept [simp]:
  "tokens (expire_stale_reservations now st) = tokens st"
  "tokens (confirm_reservation now token st) = tokens st"
  "tokens (release_reservation token st) = tokens st"
proof -
  have "(\<And>r. ar_token (f r) = ar_token r) \<Longrightarrow> ar_token ` set (map f rs) = ar_token ` set rs" for f :: "arm_reservation \<Rightarrow> arm_reservation" and rs
    by (simp add: image_image)
  then show "tokens (expire_stale_reservations now st) = tokens st"
    "tokens (confirm_reservation now token st) = tokens st" "tokens (release_reservation token st) = tokens st"
    by (simp_all add: tokens_def expire_stale_reservations_def confirm_reservation_def release_reservation_def del: set_map)
qed

text \<open>What an admission under an enforced cap that is not reached gives.\<close>

lemma reserve_below_cap:
  assumes "int (arm_load st) < cap" and "token \<notin> tokens st"
    and "try_reserve token now cap ttl None repo pr ctx st = (d, st1)"
  shows "dc_allowed d" and "tokens st1 \<subseteq> insert token (tokens st)"
    and "\<And>t. dc_token d = Some t \<Longrightarrow> arm_load (confirm_reservation now t st1) \<le> arm_load st"
    and "dc_token d \<noteq> None"
proof -
  define s where "s = expire_stale_reservations now st"
  define new where "new = \<lparr>ar_token = token, ar_repo = repo, ar_pr = pr, ar_status = PendingArm, ar_tier = ac_tier ctx,
      ar_kind = ac_kind ctx, ar_reserved_at = now, ar_expires_at = now + of_int ttl, ar_confirmed_at = None\<rparr>"
  have le: "arm_load s \<le> arm_load st" and tk: "tokens s = tokens st" using expire_load by (simp_all add: s_def)
  have fresh: "\<not> list_ex (\<lambda>r. ar_token r = token) (as_reservations s)"
    using assms(2) tk by (auto simp: list_ex_iff tokens_def)
  have room: "\<not> cap \<le> int (effective_load None now s)" using assms(1) le by (simp add: effective_load_enforced)
  consider r where "List.find (\<lambda>r. ar_repo r = repo \<and> ar_pr r = pr \<and> ar_status r = PendingArm) (as_reservations s) = Some r"
      "d = (plain_decision True ExistingReservation)\<lparr>dc_token := Some (ar_token r)\<rparr>" "st1 = s"
    | "dc_allowed d" "dc_token d = Some token" "st1 = s\<lparr>as_reservations := as_reservations s @ [new]\<rparr>"
    using assms(3) room fresh
    by (cases "List.find (\<lambda>r. ar_repo r = repo \<and> ar_pr r = pr \<and> ar_status r = PendingArm) (as_reservations s)")
      (auto simp: try_reserve_def Let_def s_def [symmetric] new_def plain_decision_def)
  note cs = this
  show "dc_allowed d" "tokens st1 \<subseteq> insert token (tokens st)" "dc_token d \<noteq> None"
    using cs tk by (cases; auto simp: plain_decision_def tokens_def new_def)+
  show "arm_load (confirm_reservation now t st1) \<le> arm_load st" if "dc_token d = Some t" for t
    using cs
  proof cases
    case 1
    then show ?thesis using confirm_load [of now t s] le by simp
  next
    case 2
    with that have "as_reservations (confirm_reservation now t st1) =
        as_reservations (confirm_reservation now t s) @ [new\<lparr>ar_status := ConfirmedArm, ar_confirmed_at := Some now\<rparr>]"
      by (simp add: confirm_reservation_def new_def)
    then have "arm_load (confirm_reservation now t st1) = arm_load (confirm_reservation now t s)"
      using 2(3) by (simp add: arm_load_def)
    then show ?thesis using confirm_load [of now t s] le by simp
  qed
qed

definition armed_result :: arm_result where
  "armed_result = \<lparr>rr_armed = True, rr_merged = False, rr_may_be_on = False\<rparr>"

text \<open>Pull requests armed one after the other, each with its token.\<close>

fun arm_all :: "arm_policy \<Rightarrow> (string \<times> seconds \<times> string \<times> int \<times> admit_context) list \<Rightarrow> arm_store \<Rightarrow> arm_exit list \<times> arm_store" where
  "arm_all p [] st = ([], st)"
| "arm_all p ((token, now, repo, pr, ctx) # xs) st =
     (case arm_cli (Some p) token now repo pr ctx armed_result st of
        (x, st1) \<Rightarrow> (case arm_all p xs st1 of (es, st2) \<Rightarrow> (x # es, st2)))"

lemma arm_cli_below_cap:
  assumes "\<not> pl_shadow_mode p" and "int (arm_load st) < pl_max_healthy_armed p" and "token \<notin> tokens st" and "[] \<notin> tokens st"
    and "token \<noteq> []" and "arm_cli (Some p) token now repo pr ctx armed_result st = (x, st1)"
  shows "x = ArmedExit" and "arm_load st1 \<le> arm_load st" and "tokens st1 \<subseteq> insert token (tokens st)"
proof -
  obtain d s where a: "admit_for_arm p token now repo pr ctx st = (d, s)" by fastforce
  let ?e = "expire_stale_reservations now st"
  obtain d' s' where t: "try_reserve token now (pl_max_healthy_armed p) (pl_reservation_ttl p) None repo pr ctx ?e = (d', s')"
    by fastforce
  have room: "int (arm_load ?e) < pl_max_healthy_armed p" using assms(2) expire_load [of now st] by simp
  have fresh: "token \<notin> tokens ?e" using assms(3) by simp
  note res = reserve_below_cap [OF room fresh t]
  have "(dc_allowed d \<and> dc_token d = None \<and> s = st) \<or> (d = d' \<and> s = s')"
    using a t assms(1) res(1) by (auto simp: admit_for_arm_def plain_decision_def split: if_splits)
  moreover have "x = ArmedExit \<and> arm_load st1 \<le> arm_load st \<and> tokens st1 \<subseteq> insert token (tokens st)"
    if "dc_allowed d" "dc_token d = None" "s = st"
    using that assms(6) a by (auto simp: arm_cli_def armed_result_def)
  moreover have "x = ArmedExit \<and> arm_load st1 \<le> arm_load st \<and> tokens st1 \<subseteq> insert token (tokens st)"
    if same: "d = d'" "s = s'"
  proof -
    obtain t' where t': "dc_token d = Some t'" using res(4) same(1) by (cases "dc_token d") auto
    have "t' \<noteq> []"
    proof -
      have "t' \<in> insert token (tokens st)"
        using t t' same
        by (auto simp: try_reserve_def Let_def plain_decision_def find_Some_iff tokens_def expire_stale_reservations_def
            split: option.splits if_splits)
      with assms(4,5) show ?thesis by auto
    qed
    with same assms(6) a t' res(1) have "x = ArmedExit" "st1 = confirm_reservation now t' s"
      by (auto simp: arm_cli_def armed_result_def)
    then show ?thesis using res(2) res(3) [of t'] same t' expire_load [of now st] by auto
  qed
  ultimately show "x = ArmedExit" "arm_load st1 \<le> arm_load st" "tokens st1 \<subseteq> insert token (tokens st)"
    using res(1) by blast+
qed

text \<open>A confirmed arm no longer counts until it is reconciled: while the load is below an enforced cap, any
  number of pull requests is armed one after the other, and the load does not grow.\<close>

theorem confirmed_arms_uncounted:
  assumes "\<not> pl_shadow_mode p" and "int (arm_load st) < pl_max_healthy_armed p"
    and "distinct (map fst xs)" and "set (map fst xs) \<inter> tokens st = {}" and "[] \<notin> set (map fst xs) \<union> tokens st"
    and "arm_all p xs st = (es, st1)"
  shows "es = replicate (length xs) ArmedExit \<and> arm_load st1 \<le> arm_load st"
  using assms(2-)
proof (induction xs arbitrary: st es)
  case (Cons x xs)
  obtain token now repo pr ctx where x: "x = (token, now, repo, pr, ctx)" by (cases x)
  obtain e st2 where cli: "arm_cli (Some p) token now repo pr ctx armed_result st = (e, st2)" by fastforce
  obtain es' where rest: "arm_all p xs st2 = (es', st1)" "es = e # es'"
    using Cons.prems(5) x cli by (auto split: prod.splits)
  have one: "e = ArmedExit" "arm_load st2 \<le> arm_load st" "tokens st2 \<subseteq> insert token (tokens st)"
    using arm_cli_below_cap [OF assms(1) Cons.prems(1) _ _ _ cli] Cons.prems(3,4) x by auto
  have "es' = replicate (length xs) ArmedExit \<and> arm_load st1 \<le> arm_load st2"
  proof (rule Cons.IH [OF _ _ _ _ rest(1)])
    show "int (arm_load st2) < pl_max_healthy_armed p" using Cons.prems(1) one(2) by simp
    show "distinct (map fst xs)" using Cons.prems(2) by simp
    show "set (map fst xs) \<inter> tokens st2 = {}" "[] \<notin> set (map fst xs) \<union> tokens st2"
      using Cons.prems(2-4) one(3) x by auto
  qed
  with one rest(2) show ?case by simp
qed simp

theorem confirmed_arms_uncounted_witness:
  "fst (arm_all (sample_arm_policy 1) [(''t1'', 0, ''r'', 1, agent_context), (''t2'', 1, ''r'', 2, agent_context),
     (''t3'', 2, ''r'', 3, agent_context)] empty_arm_store) = [ArmedExit, ArmedExit, ArmedExit]"
  using confirmed_arms_uncounted [of "sample_arm_policy 1" empty_arm_store
      "[(''t1'', 0, ''r'', 1, agent_context), (''t2'', 1, ''r'', 2, agent_context), (''t3'', 2, ''r'', 3, agent_context)]", OF _ _ _ _ _ surjective_pairing]
  by (simp add: sample_arm_policy_def empty_arm_store_def arm_load_def tokens_def eval_nat_numeral)

section \<open>Rows that no reconciliation removes\<close>

text \<open>Healthy rows of the inventory whose pull requests are not among \<open>K\<close>.\<close>

definition stuck_rows :: "(string \<times> int) set \<Rightarrow> arm_store \<Rightarrow> nat" where
  "stuck_rows K st = row_count (\<lambda>r. iv_healthy r \<and> (iv_repo r, iv_pr r) \<notin> K) (as_inventory st)"

fun reconciles_only :: "(string \<times> int) set \<Rightarrow> arm_event \<Rightarrow> bool" where
  "reconciles_only K (ReconcileEvent required now snaps) = (\<forall>s \<in> set snaps. (sn_repo s, sn_number s) \<in> K)"
| "reconciles_only K e = True"

lemma stuck_reconcile_one:
  "(sn_repo s, sn_number s) \<in> K \<Longrightarrow> stuck_rows K (reconcile_one required now s st) = stuck_rows K st"
proof -
  assume k: "(sn_repo s, sn_number s) \<in> K"
  have del: "row_count (\<lambda>r. iv_healthy r \<and> (iv_repo r, iv_pr r) \<notin> K) (row_delete (\<lambda>r. (iv_repo r, iv_pr r)) (sn_repo s, sn_number s) rows)
      = row_count (\<lambda>r. iv_healthy r \<and> (iv_repo r, iv_pr r) \<notin> K) rows" for rows :: "inventory_row list"
    using k by (induction rows) (auto simp: row_delete_def)
  have upd: "row_count (\<lambda>r. iv_healthy r \<and> (iv_repo r, iv_pr r) \<notin> K)
        (row_update (\<lambda>r. (iv_repo r, iv_pr r)) (sn_repo s, sn_number s) (\<lambda>_. row) rows)
      = row_count (\<lambda>r. iv_healthy r \<and> (iv_repo r, iv_pr r) \<notin> K) rows"
    if "iv_repo row = sn_repo s" "iv_pr row = sn_number s" for row :: inventory_row and rows
    using k that by (induction rows) auto
  show "stuck_rows K (reconcile_one required now s st) = stuck_rows K st"
    using k del upd by (simp add: stuck_rows_def reconcile_one_def remove_inventory_def upsert_inventory_def Let_def)
qed

lemma stuck_step:
  assumes "reconciles_only K e"
  shows "stuck_rows K (arm_step p e st) = stuck_rows K st"
proof (cases e)
  case (ReconcileEvent required now snaps)
  have "stuck_rows K (fold (reconcile_one required now) (filter (\<lambda>s. in_scope p (sn_repo s)) snaps) st) = stuck_rows K st"
    using assms unfolding ReconcileEvent by (induction snaps arbitrary: st) (auto simp: stuck_reconcile_one)
  with ReconcileEvent show ?thesis by (simp add: reconcile_snapshots_def Let_def)
next
  case (AdmitArm token now repo pr ctx)
  have "as_inventory (snd (try_reserve token now cap ttl stale repo pr ctx st)) = as_inventory st" for cap ttl stale st
    by (auto simp: try_reserve_def Let_def split: option.splits)
  then have "as_inventory (snd (admit_for_arm p token now repo pr ctx st)) = as_inventory st"
    by (auto simp: admit_for_arm_def split: prod.splits) (metis snd_conv store_inventory(1))+
  with AdmitArm show ?thesis by (simp add: stuck_rows_def)
qed (simp_all add: stuck_rows_def)

lemma stuck_run: "list_all (reconciles_only K) es \<Longrightarrow> stuck_rows K (fold (arm_step p) es st) = stuck_rows K st"
  by (induction es arbitrary: st) (simp_all add: stuck_step)

text \<open>Rows of pull requests that are no longer open are never taken out of the inventory, since only open ones
  are reconciled: once they fill an enforced cap, no pull request without a reservation is admitted again,
  whatever is reconciled, confirmed, released or expires.\<close>

theorem merged_rows_block_forever:
  assumes "pl_enabled p" and "\<not> pl_shadow_mode p" and "in_scope p repo" and "\<not> bypass_cap ctx"
    and "pl_max_healthy_armed p \<le> int (stuck_rows K st)" and "list_all (reconciles_only K) es"
    and "\<forall>r \<in> set (as_reservations (fold (arm_step p) es st)). \<not> (ar_repo r = repo \<and> ar_pr r = pr \<and> ar_status r = PendingArm)"
  shows "\<not> dc_allowed (fst (admit_for_arm p token now repo pr ctx (fold (arm_step p) es st)))"
proof -
  define s where "s = fold (arm_step p) es st"
  define s1 where "s1 = expire_stale_reservations now (expire_stale_reservations now s)"
  have "stuck_rows K s1 = stuck_rows K st" using stuck_run [OF assms(6)] by (simp add: s1_def s_def stuck_rows_def)
  moreover have "stuck_rows K s1 \<le> arm_load s1"
    unfolding stuck_rows_def arm_load_def by (rule trans_le_add1, rule row_count_mono) simp
  ultimately have full: "pl_max_healthy_armed p \<le> int (effective_load None now s1)"
    using assms(5) by (simp add: effective_load_enforced)
  have "List.find (\<lambda>r. ar_repo r = repo \<and> ar_pr r = pr \<and> ar_status r = PendingArm) (as_reservations s1) = None"
    using assms(7) unfolding find_None_iff s1_def s_def [symmetric] expire_stale_reservations_def
    by (auto split: if_splits)
  with full assms(1-4) show ?thesis
    by (simp add: admit_for_arm_def try_reserve_def Let_def s_def [symmetric] s1_def [symmetric] plain_decision_def)
qed

definition merged_row :: inventory_row where
  "merged_row = \<lparr>iv_repo = ''r'', iv_pr = 1, iv_healthy = True, iv_lifecycle = QueuedToMerge, iv_reasons = [], iv_updated_at = 0\<rparr>"

theorem merged_rows_block_forever_witness:
  "\<not> dc_allowed (fst (admit_for_arm (sample_arm_policy 1) ''t'' 1000000 ''r'' 3 agent_context
     (fold (arm_step (sample_arm_policy 1)) [ReconcileEvent [] 900 [], ExpireEvent 1000] (empty_arm_store\<lparr>as_inventory := [merged_row]\<rparr>))))"
  by (rule merged_rows_block_forever [where K = "{}"])
    (simp_all add: sample_arm_policy_def in_scope_def bypass_cap_def agent_context_def Let_def stuck_rows_def merged_row_def
      empty_arm_store_def reconcile_snapshots_def expire_stale_reservations_def)

end
