(* ===== verification/Keyset.thy ===== *)
theory Keyset
  imports Prelude
begin

text \<open>
  Walks over a table in pages, each from the last row of the page before. A provider says when a row lies behind
  a cursor, which cursor a row hands on and how a page is fetched; the walk ends as every page moves on, and it
  is complete where the cursors are exact.
\<close>

locale keyset =
  fixes key :: "'r \<Rightarrow> 'k::linorder"
    and behind :: "'c \<Rightarrow> 'r \<Rightarrow> bool"
    and onward :: "'r \<Rightarrow> 'c"
  assumes onward_ahead: "behind c r \<Longrightarrow> behind (onward r) r' \<Longrightarrow> behind c r' \<and> key r < key r'"
begin

lemma filter_onward:
  "behind c r \<Longrightarrow> filter (behind (onward r)) rows = filter (behind (onward r)) (filter (behind c) rows)"
  by (auto dest: onward_ahead intro!: filter_cong)

lemma fewer_behind:
  assumes "r \<in> set rows" and "behind c r"
  shows "length (filter (behind (onward r)) rows) < length (filter (behind c) rows)"
proof -
  have "r \<in> set (filter (behind c) rows)" using assms by simp
  moreover have "\<not> behind (onward r) r" using onward_ahead [OF assms(2), of r] by auto
  ultimately have "length (filter (behind (onward r)) (filter (behind c) rows)) < length (filter (behind c) rows)"
    by (metis length_filter_less)
  then show ?thesis by (simp only: filter_onward [OF assms(2), of rows, symmetric])
qed

lemma strictly_ordered:
  assumes "inj_on key (set rows)" and "distinct rows"
  shows "sorted_wrt (\<lambda>r r'. key r < key r') (sort_key key (filter P rows))"
proof -
  have "inj_on key {r \<in> set rows. P r}" using assms(1) by (auto simp: inj_on_def)
  then have "distinct (map key (sort_key key (filter P rows)))" using assms(2) by (simp add: distinct_map)
  moreover have "sorted (map key (sort_key key (filter P rows)))" by simp
  ultimately have "sorted_wrt (<) (map key (sort_key key (filter P rows)))" by (simp add: strict_sorted_iff)
  then show ?thesis by (simp add: sorted_wrt_map)
qed

lemma beyond_prefix:
  assumes "sorted_wrt (\<lambda>r r'. key r < key r') (xs @ ys)" and "xs \<noteq> []"
  shows "filter (\<lambda>r. key (last xs) < key r) (xs @ ys) = ys"
proof -
  have "\<not> key (last xs) < key x" if "x \<in> set xs" for x
  proof -
    obtain zs z where xs: "xs = zs @ [z]" using assms(2) by (cases xs rule: rev_cases) auto
    with assms(1) that show ?thesis by (auto simp: sorted_wrt_append)
  qed
  moreover have "key (last xs) < key y" if "y \<in> set ys" for y
    using assms that last_in_set by (auto simp: sorted_wrt_append)
  ultimately show ?thesis by (simp add: filter_empty_conv)
qed

end

locale keyset_walk = keyset key behind onward
  for key :: "'r \<Rightarrow> 'k::linorder" and behind :: "'c \<Rightarrow> 'r \<Rightarrow> bool" and onward :: "'r \<Rightarrow> 'c" +
  fixes fetch :: "int \<Rightarrow> 'c \<Rightarrow> 'r list \<Rightarrow> 'r list"
    and walk :: "int \<Rightarrow> 'c \<Rightarrow> 'r list \<Rightarrow> 'r list"
  assumes fetch_eq: "fetch page c rows =
      (if page < 0 then sort_key key (filter (behind c) rows) else take (nat page) (sort_key key (filter (behind c) rows)))"
    and walk_eq: "walk page c rows =
      (if fetch page c rows = [] then [] else fetch page c rows @ walk page (onward (last (fetch page c rows))) rows)"
begin

lemma fetch_behind: "r \<in> set (fetch page c rows) \<Longrightarrow> r \<in> set rows \<and> behind c r"
  by (auto simp: fetch_eq split: if_splits dest: in_set_takeD)

lemma last_behind: "fetch page c rows \<noteq> [] \<Longrightarrow> last (fetch page c rows) \<in> set rows \<and> behind c (last (fetch page c rows))"
  using fetch_behind last_in_set by metis

lemma walk_behind: "r \<in> set (walk page c rows) \<Longrightarrow> r \<in> set rows \<and> behind c r"
proof (induction "length (filter (behind c) rows)" arbitrary: c rule: less_induct)
  case less
  from less.prems have some: "fetch page c rows \<noteq> []" by (auto simp: walk_eq [of page c] split: if_splits)
  note tip = last_behind [OF this]
  from less.prems some consider "r \<in> set (fetch page c rows)"
    | "r \<in> set (walk page (onward (last (fetch page c rows))) rows)"
    by (auto simp: walk_eq [of page c])
  then show ?case
    using fetch_behind less.hyps [OF fewer_behind] tip onward_ahead by cases blast+
qed

lemma walk_all:
  assumes "inj_on key (set rows)" and "distinct rows" and "page \<noteq> 0"
    and "\<And>r r'. r \<in> set rows \<Longrightarrow> r' \<in> set rows \<Longrightarrow> behind c r \<Longrightarrow> behind c r' \<Longrightarrow> key r < key r' \<Longrightarrow> behind (onward r) r'"
  shows "walk page c rows = sort_key key (filter (behind c) rows)"
  using assms(4)
proof (induction "length (filter (behind c) rows)" arbitrary: c rule: less_induct)
  case less
  define seen where "seen = sort_key key (filter (behind c) rows)"
  define batch where "batch = fetch page c rows"
  have batch: "batch = (if page < 0 then seen else take (nat page) seen)" by (simp add: batch_def fetch_eq seen_def)
  show ?case
  proof (cases "batch = []")
    case True
    with batch assms(3) have "seen = []" by (cases seen) (auto split: if_splits)
    with True show ?thesis by (simp add: walk_eq [of page c] batch_def [symmetric] seen_def)
  next
    case False
    let ?tip = "last batch"
    from False have tip: "?tip \<in> set rows" "behind c ?tip" using last_behind by (simp_all add: batch_def)
    obtain rest where rest: "seen = batch @ rest" using batch by (metis append_Nil2 append_take_drop_id)
    have "sort_key key (filter (behind (onward ?tip)) rows) = filter (behind (onward ?tip)) seen"
      by (simp only: seen_def filter_sort filter_onward [OF tip(2), of rows, symmetric])
    also have "\<dots> = filter (\<lambda>r. key ?tip < key r) seen"
      using less.prems [OF tip(1) _ tip(2)] onward_ahead [OF tip(2)] by (auto simp: seen_def intro!: filter_cong)
    also have "\<dots> = rest"
      using beyond_prefix [of batch rest] strictly_ordered [OF assms(1,2)] False rest unfolding seen_def by metis
    finally have "walk page (onward ?tip) rows = rest"
      using less.hyps [OF fewer_behind [OF tip]] less.prems onward_ahead [OF tip(2)] by metis
    with rest False show ?thesis by (simp add: walk_eq [of page c] batch_def [symmetric] seen_def [symmetric])
  qed
qed

end

end
