(* ===== verification/Proposals.thy ===== *)
theory Proposals
  imports Conversations Json_Access Keyset "HOL-Library.Product_Lexorder"
begin

text \<open>
  Action proposals: \<open>backend/staff/conversation_proposals.py\<close>, their row in
  \<open>backend/staff/conversation_models.py\<close> and the audit writes of \<open>backend/staff/audit.py\<close>. The proposals
  live in the database of the conversations; the audit rows live in another one, whose writes may fail on
  their own: \<open>ps_faults\<close> says how the coming ones end. Redaction and the reading of an ISO text
  (\<open>Z\<close> read as UTC, and UTC where the text names no zone) are arguments; the clock text of a call is one
  argument, and a fresh identifier is another.
\<close>

section \<open>State\<close>

datatype proposal_state =
    PsProposed
  | PsApproved
  | PsDenied
  | PsExecuting
  | PsDone
  | PsFailed
  | PsExpired

fun proposal_state_text :: "proposal_state \<Rightarrow> string" where
  "proposal_state_text PsProposed = ''proposed''"
| "proposal_state_text PsApproved = ''approved''"
| "proposal_state_text PsDenied = ''denied''"
| "proposal_state_text PsExecuting = ''executing''"
| "proposal_state_text PsDone = ''done''"
| "proposal_state_text PsFailed = ''failed''"
| "proposal_state_text PsExpired = ''expired''"

record proposal =
  pr_id :: string
  pr_message :: string
  pr_thread :: string
  pr_action :: string
  pr_params :: "(string, json) dict"
  pr_risk :: string
  pr_state :: proposal_state
  pr_decided_by :: string
  pr_decided_at :: "string option"
  pr_reason :: string
  pr_created_at :: string
  pr_decide_by :: "string option"
  pr_default :: string
  pr_epoch :: int

record staff_audit =
  au_action :: string
  au_target :: string
  au_principal :: string
  au_surface :: string
  au_thread :: string
  au_outcome :: string
  au_detail :: "(string, json) dict"

record proposal_store =
  ps_conv :: conversations
  ps_rows :: "proposal list"
  ps_audit :: "staff_audit list"
  ps_faults :: "bool list"

record proposal_env =
  pe_redact :: "string \<Rightarrow> string"
  pe_time :: "string \<Rightarrow> seconds option"

datatype proposal_error =
    InvalidRisk
  | InvalidDefault
  | DefaultNeedsDeadline
  | InvalidDeadline
  | DeadlineAfterExpiry
  | SilentApprovalTooRisky
  | DuplicateProposal
  | InvalidDecision
  | ProposalNotFound
  | NotDecidable
  | StaleProposalEpoch
  | AlreadyDecided
  | InvalidTransition
  | ChangedConcurrently
  | AuditWriteFailed

definition proposal_risks :: "string list" where
  "proposal_risks = [''read'', ''low'', ''medium'', ''high'', ''critical'', ''owner-only'']"

definition proposal_ttl :: seconds where
  "proposal_ttl = 86400"

definition defaults_if_silent :: "string list" where
  "defaults_if_silent = ['''', ''approve'', ''deny'']"

definition silent_approve_risks :: "string list" where
  "silent_approve_risks = [''read'', ''low'']"

fun valid_transitions :: "proposal_state \<Rightarrow> proposal_state list" where
  "valid_transitions PsProposed = [PsApproved, PsDenied, PsExpired, PsExecuting, PsFailed]"
| "valid_transitions PsApproved = [PsExecuting, PsFailed, PsExpired]"
| "valid_transitions PsDenied = []"
| "valid_transitions PsExecuting = [PsDone, PsFailed]"
| "valid_transitions PsDone = []"
| "valid_transitions PsFailed = [PsExecuting, PsApproved, PsDenied]"
| "valid_transitions PsExpired = []"

section \<open>Audit writes\<close>

definition mutating_actions :: "string list" where
  "mutating_actions =
     [''dispatch'', ''cancel'', ''hold_set'', ''hold_clear'', ''schedule_toggle'', ''proposal_create'',
      ''proposal_approve'', ''proposal_deny'', ''proposal_execute'', ''maintenance'', ''thread_create'',
      ''thread_archive'', ''work_item_create'', ''work_item_transition'', ''message_reconcile'',
      ''decision_default_applied'', ''intake_proposal_create'', ''intake_proposal_decide'', ''email_intake'',
      ''host_flip'']"

definition audit_surfaces :: "string list" where
  "audit_surfaces = [''ui'', ''api'', ''mcp'', ''barb'', ''scheduler'', ''thread'']"

text \<open>The result says whether \<open>AuditError\<close> is raised.\<close>

definition record_audit :: "bool option \<Rightarrow> staff_audit \<Rightarrow> proposal_store \<Rightarrow> bool \<times> proposal_store" where
  "record_audit fail_closed a s =
     (let closed = (case fail_closed of Some b \<Rightarrow> b | None \<Rightarrow> au_action a \<in> set mutating_actions);
          row = a\<lparr>au_surface := (if au_surface a \<in> set audit_surfaces then au_surface a else ''api'')\<rparr>;
          faults = ps_faults s
      in if faults \<noteq> [] \<and> hd faults then (closed, s\<lparr>ps_faults := tl faults\<rparr>)
         else (False, s\<lparr>ps_audit := ps_audit s @ [row], ps_faults := tl faults\<rparr>))"

text \<open>A write that follows a change of the rows: its failure is the operation's, the change stays.\<close>

definition audited :: "staff_audit \<Rightarrow> 'a \<Rightarrow> proposal_store \<Rightarrow> (proposal_error + 'a) \<times> proposal_store" where
  "audited a x s = (case record_audit (Some True) a s of (raised, s') \<Rightarrow>
     (if raised then Inl AuditWriteFailed else Inr x, s'))"

section \<open>Creation\<close>

definition validate_decision_sla ::
    "(string \<Rightarrow> seconds option) \<Rightarrow> string option \<Rightarrow> string \<Rightarrow> string \<Rightarrow> string \<Rightarrow> proposal_error option" where
  "validate_decision_sla read_time decide_by dflt risk created_at =
     (if dflt \<notin> set defaults_if_silent then Some InvalidDefault
      else case decide_by of
        None \<Rightarrow> if dflt \<noteq> [] then Some DefaultNeedsDeadline else None
      | Some d \<Rightarrow>
          case read_time d of
            None \<Rightarrow> Some InvalidDeadline
          | Some deadline \<Rightarrow>
              case read_time created_at of
                None \<Rightarrow> Some InvalidDeadline
              | Some created \<Rightarrow>
                  if created + proposal_ttl < deadline then Some DeadlineAfterExpiry
                  else if dflt = ''approve'' \<and> risk \<notin> set silent_approve_risks then Some SilentApprovalTooRisky
                  else None)"

definition get_proposal :: "string \<Rightarrow> proposal_store \<Rightarrow> proposal option" where
  "get_proposal pid s = row_lookup pr_id pid (ps_rows s)"

definition same_params :: "(string, json) dict \<Rightarrow> (string, json) dict \<Rightarrow> bool" where
  "same_params d e = json_same (JDict d) (JDict e)"

text \<open>\<open>rec.decide_by\<close> is the column, or \<open>None\<close> where the column is empty.\<close>

definition find_pending_proposal ::
    "(string \<Rightarrow> string) \<Rightarrow> string \<Rightarrow> string \<Rightarrow> (string, json) dict \<Rightarrow> string option \<Rightarrow> string \<Rightarrow> proposal_store \<Rightarrow>
     proposal option" where
  "find_pending_proposal redact tid action params decide_by dflt s =
     List.find (\<lambda>r. pr_thread r = tid \<and> pr_action r = action \<and> pr_state r = PsProposed \<and>
                    same_params (pr_params r) (redact_dict redact params) \<and>
                    str_or (pr_decide_by r) None = decide_by \<and> pr_default r = dflt) (ps_rows s)"

record proposal_request =
  rq_message :: string
  rq_thread :: string
  rq_action :: string
  rq_params :: "(string, json) dict"
  rq_risk :: string
  rq_proposal_id :: "string option"
  rq_principal :: string
  rq_decide_by :: "string option"
  rq_default :: string
  rq_deduplicate :: bool
  rq_epoch :: "int option"

definition request_epoch :: "proposal_request \<Rightarrow> proposal_store \<Rightarrow> int" where
  "request_epoch q s =
     (case rq_epoch q of
        Some e \<Rightarrow> e
      | None \<Rightarrow> if rq_thread q = [] then 0
                else (case get_thread (rq_thread q) (ps_conv s) of None \<Rightarrow> 0 | Some th \<Rightarrow> th_epoch th))"

definition opt_str :: "string option \<Rightarrow> json" where
  "opt_str x = (case x of None \<Rightarrow> JNull | Some t \<Rightarrow> JStr t)"

definition new_proposal :: "proposal_env \<Rightarrow> string \<Rightarrow> string \<Rightarrow> proposal_request \<Rightarrow> proposal_store \<Rightarrow> proposal" where
  "new_proposal env now pid q s =
     \<lparr>pr_id = pid, pr_message = rq_message q, pr_thread = rq_thread q, pr_action = rq_action q,
      pr_params = redact_dict (pe_redact env) (rq_params q), pr_risk = rq_risk q, pr_state = PsProposed,
      pr_decided_by = [], pr_decided_at = None, pr_reason = [], pr_created_at = now,
      pr_decide_by = rq_decide_by q, pr_default = rq_default q, pr_epoch = request_epoch q s\<rparr>"

definition insert_proposal ::
    "string \<Rightarrow> proposal \<Rightarrow> proposal_store \<Rightarrow> (proposal_error + proposal) \<times> proposal_store" where
  "insert_proposal by p s =
     (if get_proposal (pr_id p) s \<noteq> None then (Inl DuplicateProposal, s)
      else audited \<lparr>au_action = ''proposal_create'', au_target = pr_id p, au_principal = by,
                    au_surface = ''thread'', au_thread = pr_thread p, au_outcome = ''success'',
                    au_detail = [(''action'', JStr (pr_action p)), (''risk'', JStr (pr_risk p)),
                      (''params'', JDict (pr_params p)), (''decide_by'', opt_str (pr_decide_by p)),
                      (''default_if_silent'', JStr (pr_default p))]\<rparr>
             p (s\<lparr>ps_rows := ps_rows s @ [p]\<rparr>))"

definition create_proposal ::
    "proposal_env \<Rightarrow> string \<Rightarrow> string \<Rightarrow> proposal_request \<Rightarrow> proposal_store \<Rightarrow>
     (proposal_error + proposal) \<times> proposal_store" where
  "create_proposal env now fresh_id q s =
     (if rq_risk q \<notin> set proposal_risks then (Inl InvalidRisk, s)
      else case validate_decision_sla (pe_time env) (rq_decide_by q) (rq_default q) (rq_risk q) now of
        Some err \<Rightarrow> (Inl err, s)
      | None \<Rightarrow>
          case (if rq_deduplicate q \<and> rq_proposal_id q = None \<and> rq_thread q \<noteq> [] \<and> rq_action q \<noteq> []
                then find_pending_proposal (pe_redact env) (rq_thread q) (rq_action q) (rq_params q)
                       (rq_decide_by q) (rq_default q) s
                else None) of
            Some p \<Rightarrow> (Inr p, s)
          | None \<Rightarrow> insert_proposal (rq_principal q)
                      (new_proposal env now (the (str_or (rq_proposal_id q) (Some fresh_id))) q s) s)"

section \<open>Listing\<close>

definition list_proposals ::
    "string option \<Rightarrow> string option \<Rightarrow> proposal_state option \<Rightarrow> int \<Rightarrow> proposal_store \<Rightarrow> proposal list" where
  "list_proposals tid mid state limit s =
     (let wanted = (\<lambda>r. (case str_or tid None of None \<Rightarrow> True | Some t \<Rightarrow> pr_thread r = t) \<and>
                        (case str_or mid None of None \<Rightarrow> True | Some m \<Rightarrow> pr_message r = m) \<and>
                        (case state of None \<Rightarrow> True | Some st \<Rightarrow> pr_state r = st));
          rows = rev (sort_key pr_created_at (rev (filter wanted (ps_rows s))))
      in if limit < 0 then rows else take (nat limit) rows)"

text \<open>The deadline mode: the proposals of a state that have a deadline, in the order of it and the
  identifier, from a cursor on.\<close>

definition deadline_key :: "proposal \<Rightarrow> string \<times> string" where
  "deadline_key r = (case pr_decide_by r of None \<Rightarrow> [] | Some d \<Rightarrow> d, pr_id r)"

definition after_deadline :: "proposal_state \<Rightarrow> string \<times> string \<Rightarrow> proposal \<Rightarrow> bool" where
  "after_deadline state cursor r =
     (pr_state r = state \<and> pr_decide_by r \<noteq> None \<and> cursor < deadline_key r)"

definition deadline_page :: "proposal_state \<Rightarrow> int \<Rightarrow> string \<times> string \<Rightarrow> proposal list \<Rightarrow> proposal list" where
  "deadline_page state limit cursor rows =
     (let ordered = sort_key deadline_key (filter (after_deadline state cursor) rows)
      in if limit < 0 then ordered else take (nat limit) ordered)"

section \<open>Decisions and transitions\<close>

text \<open>\<open>UPDATE ... WHERE id = ? AND state = ?\<close> with its \<open>rowcount\<close>.\<close>

definition update_where ::
    "string \<Rightarrow> proposal_state \<Rightarrow> (proposal \<Rightarrow> proposal) \<Rightarrow> proposal list \<Rightarrow> nat \<times> proposal list" where
  "update_where pid state f rows =
     (row_count (\<lambda>r. pr_id r = pid \<and> pr_state r = state) rows,
      map (\<lambda>r. if pr_id r = pid \<and> pr_state r = state then f r else r) rows)"

text \<open>The guarded write of a row and the audit row behind it, as both operations below end; \<open>lost\<close> is the error
  of a write that found no such row.\<close>

definition write_state ::
    "proposal_error \<Rightarrow> (proposal \<Rightarrow> proposal) \<Rightarrow> staff_audit \<Rightarrow> proposal \<Rightarrow> proposal_store \<Rightarrow>
     (proposal_error + proposal) \<times> proposal_store" where
  "write_state lost f a p s =
     (case update_where (pr_id p) (pr_state p) f (ps_rows s) of (n, rows) \<Rightarrow>
        if n \<noteq> 1 then (Inl lost, s\<lparr>ps_rows := rows\<rparr>)
        else audited a (f p) (s\<lparr>ps_rows := rows\<rparr>))"

definition stale_epoch :: "proposal \<Rightarrow> proposal_store \<Rightarrow> bool" where
  "stale_epoch p s = (case get_thread (pr_thread p) (ps_conv s) of None \<Rightarrow> False | Some th \<Rightarrow> th_epoch th \<noteq> pr_epoch p)"

definition decide_proposal ::
    "proposal_env \<Rightarrow> string \<Rightarrow> string \<Rightarrow> proposal_state \<Rightarrow> string \<Rightarrow> string \<Rightarrow> (string, json) dict \<Rightarrow> proposal_store \<Rightarrow>
     (proposal_error + proposal) \<times> proposal_store" where
  "decide_proposal env now pid state decided_by reason authority s =
     (if state \<noteq> PsApproved \<and> state \<noteq> PsDenied then (Inl InvalidDecision, s)
      else case get_proposal pid s of
        None \<Rightarrow> (Inl ProposalNotFound, s)
      | Some p \<Rightarrow>
          if pr_state p \<noteq> PsProposed \<and> pr_state p \<noteq> PsFailed then (Inl NotDecidable, s)
          else if stale_epoch p s then (Inl StaleProposalEpoch, s)
          else write_state AlreadyDecided
                 (\<lambda>r. r\<lparr>pr_state := state, pr_decided_by := decided_by, pr_decided_at := Some now,
                          pr_reason := pe_redact env reason\<rparr>)
                 \<lparr>au_action = (if state = PsApproved then ''proposal_approve'' else ''proposal_deny''),
                  au_target = pid, au_principal = decided_by, au_surface = ''thread'',
                  au_thread = pr_thread p, au_outcome = ''success'',
                  au_detail = [(''reason'', JStr reason),
                    (''previous_state'', JStr (proposal_state_text (pr_state p)))] @
                    (if authority \<noteq> [] then [(''authority'', JDict authority)] else [])\<rparr> p s)"

definition transition_proposal_state ::
    "proposal_env \<Rightarrow> string \<Rightarrow> string \<Rightarrow> proposal_state \<Rightarrow> string \<Rightarrow> string \<Rightarrow> proposal_store \<Rightarrow>
     (proposal_error + proposal) \<times> proposal_store" where
  "transition_proposal_state env now pid new_state decided_by reason s =
     (case get_proposal pid s of
        None \<Rightarrow> (Inl ProposalNotFound, s)
      | Some p \<Rightarrow>
          if new_state \<notin> set (valid_transitions (pr_state p)) then (Inl InvalidTransition, s)
          else
            let dec_by = (if decided_by \<noteq> [] then decided_by else pr_decided_by p);
                dec_at = (if new_state \<in> {PsApproved, PsDenied} then Some now else pr_decided_at p);
                rsn = (if pe_redact env reason \<noteq> [] then pe_redact env reason else pr_reason p)
            in write_state ChangedConcurrently
                 (\<lambda>r. r\<lparr>pr_state := new_state, pr_decided_by := dec_by, pr_decided_at := dec_at, pr_reason := rsn\<rparr>)
                 \<lparr>au_action = (if new_state = PsExecuting then ''proposal_execute''
                    else if new_state \<in> {PsApproved, PsDenied} then ''proposal_'' @ proposal_state_text new_state
                    else ''proposal_create''),
                  au_target = pid, au_principal = dec_by, au_surface = ''thread'',
                  au_thread = pr_thread p, au_outcome = ''success'',
                  au_detail = [(''new_state'', JStr (proposal_state_text new_state)),
                    (''previous_state'', JStr (proposal_state_text (pr_state p))), (''reason'', JStr rsn)]\<rparr> p s)"

section \<open>What an operation does to the rows\<close>

lemma update_where_hit:
  assumes "keyed pr_id rows" and "row_lookup pr_id pid rows = Some p"
  shows "update_where pid (pr_state p) f rows = (1, row_update pr_id pid f rows)"
  using assms
proof (induction rows)
  case Nil
  then show ?case by simp
next
  case (Cons r rows)
  show ?case
  proof (cases "pr_id r = pid")
    case True
    with Cons.prems have absent: "pid \<notin> pr_id ` set rows" and r: "r = p" by (auto simp: keyed_def)
    then have "row_count (\<lambda>r. pr_id r = pid \<and> pr_state r = pr_state p) rows = 0"
      by (auto simp: row_count_def filter_empty_conv)
    moreover have "map (\<lambda>r. if pr_id r = pid \<and> pr_state r = pr_state p then f r else r) rows = rows"
      using absent by (intro map_idI) auto
    ultimately show ?thesis using True r absent by (simp add: update_where_def row_update_absent)
  next
    case False
    with Cons show ?thesis by (simp add: update_where_def keyed_def)
  qed
qed

lemma row_update_const:
  "keyed key rows \<Longrightarrow> row_lookup key k rows = Some p \<Longrightarrow>
     row_update key k f rows = row_update key k (\<lambda>_. f p) rows"
  by (induction rows) (auto simp: keyed_def row_update_absent)

lemma audited_eq:
  "audited a x s = (if ps_faults s \<noteq> [] \<and> hd (ps_faults s) then (Inl AuditWriteFailed, s\<lparr>ps_faults := tl (ps_faults s)\<rparr>)
     else (Inr x, snd (record_audit (Some True) a s)))"
  by (simp add: audited_def record_audit_def)

lemma record_audit_keeps [simp]:
  "ps_rows (snd (record_audit c a s)) = ps_rows s" "ps_conv (snd (record_audit c a s)) = ps_conv s"
  by (simp_all add: record_audit_def Let_def)

lemma audited_keeps:
  assumes "audited a x s = (res, s')"
  shows "ps_rows s' = ps_rows s" "ps_conv s' = ps_conv s" "res = Inr x \<or> res = Inl AuditWriteFailed"
  using assms by (auto simp: audited_eq split: if_splits)

text \<open>The part of a proposal that is never written again, and the moves of the state.\<close>

definition proposed_content :: "proposal \<Rightarrow> proposal" where
  "proposed_content r = r\<lparr>pr_state := PsProposed, pr_decided_by := [], pr_decided_at := None, pr_reason := []\<rparr>"

definition row_move :: "proposal \<Rightarrow> proposal \<Rightarrow> bool" where
  "row_move p p' = (proposed_content p' = proposed_content p \<and> pr_state p' \<in> set (valid_transitions (pr_state p)))"

text \<open>A guarded write replaces the row it was read from.\<close>

lemma write_state_eq:
  assumes "keyed pr_id (ps_rows s)" and "get_proposal pid s = Some p"
  shows "write_state lost f a p s = audited a (f p) (s\<lparr>ps_rows := row_update pr_id pid (\<lambda>_. f p) (ps_rows s)\<rparr>)"
proof -
  from assms(2) have l: "row_lookup pr_id pid (ps_rows s) = Some p" and pid: "pr_id p = pid"
    by (auto simp: get_proposal_def dest: row_lookup_SomeD)
  have "update_where pid (pr_state p) f (ps_rows s) = (1, row_update pr_id pid (\<lambda>_. f p) (ps_rows s))"
    using update_where_hit [OF assms(1) l] row_update_const [OF assms(1) l] by metis
  then show ?thesis by (simp add: write_state_def pid)
qed

lemma write_state_cases:
  assumes "write_state lost f a p s = (res, s')" and "keyed pr_id (ps_rows s)" and "get_proposal pid s = Some p"
  shows "ps_rows s' = row_update pr_id pid (\<lambda>_. f p) (ps_rows s)" and "ps_conv s' = ps_conv s"
    and "res = Inr (f p) \<or> res = Inl AuditWriteFailed"
  using audited_keeps [OF assms(1) [unfolded write_state_eq [OF assms(2,3)]]] by simp_all

lemma decide_cases:
  assumes "decide_proposal env now pid state by rsn auth s = (res, s')" and "keyed pr_id (ps_rows s)"
  obtains (refused) err where "res = Inl err" "s' = s" "err \<noteq> AuditWriteFailed"
  | (written) p p' where "get_proposal pid s = Some p" "row_move p p'" "pr_state p' = state"
      "pr_state p \<in> {PsProposed, PsFailed}" "state \<in> {PsApproved, PsDenied}" "\<not> stale_epoch p s"
      "ps_rows s' = row_update pr_id pid (\<lambda>_. p') (ps_rows s)" "ps_conv s' = ps_conv s"
      "res = Inr p' \<or> res = Inl AuditWriteFailed"
proof (cases "(\<exists>err. res = Inl err \<and> err \<noteq> AuditWriteFailed) \<and> s' = s")
  case True
  then show ?thesis using refused by blast
next
  case False
  then obtain p where p: "get_proposal pid s = Some p"
    using assms(1) by (auto simp: decide_proposal_def split: if_splits option.splits)
  with assms(1) False have ok: "pr_state p \<in> {PsProposed, PsFailed}" "state \<in> {PsApproved, PsDenied}" "\<not> stale_epoch p s"
    by (auto simp: decide_proposal_def split: if_splits)
  define p' where "p' = p\<lparr>pr_state := state, pr_decided_by := by, pr_decided_at := Some now,
    pr_reason := pe_redact env rsn\<rparr>"
  from assms(1) p ok obtain lost a where
    "write_state lost (\<lambda>r. r\<lparr>pr_state := state, pr_decided_by := by, pr_decided_at := Some now,
       pr_reason := pe_redact env rsn\<rparr>) a p s = (res, s')"
    by (auto simp: decide_proposal_def)
  from write_state_cases [OF this assms(2) p] ok p show ?thesis
    by (intro written [of p p']) (auto simp: p'_def row_move_def proposed_content_def)
qed

lemma transition_cases:
  assumes "transition_proposal_state env now pid new by rsn s = (res, s')" and "keyed pr_id (ps_rows s)"
  obtains (refused) err where "res = Inl err" "s' = s" "err \<noteq> AuditWriteFailed"
  | (written) p p' where "get_proposal pid s = Some p" "row_move p p'" "pr_state p' = new"
      "ps_rows s' = row_update pr_id pid (\<lambda>_. p') (ps_rows s)" "ps_conv s' = ps_conv s"
      "res = Inr p' \<or> res = Inl AuditWriteFailed"
proof (cases "(\<exists>err. res = Inl err \<and> err \<noteq> AuditWriteFailed) \<and> s' = s")
  case True
  then show ?thesis using refused by blast
next
  case False
  then obtain p where p: "get_proposal pid s = Some p"
    using assms(1) by (auto simp: transition_proposal_state_def split: option.splits)
  with assms(1) False have ok: "new \<in> set (valid_transitions (pr_state p))"
    by (auto simp: transition_proposal_state_def split: if_splits)
  from assms(1) p ok obtain lost a where
    "write_state lost (\<lambda>r. r\<lparr>pr_state := new, pr_decided_by := (if by \<noteq> [] then by else pr_decided_by p),
       pr_decided_at := (if new \<in> {PsApproved, PsDenied} then Some now else pr_decided_at p),
       pr_reason := (if pe_redact env rsn \<noteq> [] then pe_redact env rsn else pr_reason p)\<rparr>) a p s = (res, s')"
    by (simp add: transition_proposal_state_def Let_def)
  from write_state_cases [OF this assms(2) p] ok p show ?thesis
    by (intro written [OF p _ _ _ _ _]) (auto simp: row_move_def proposed_content_def)
qed

lemma create_cases:
  assumes "create_proposal env now fresh q s = (res, s')"
  obtains (unchanged) "s' = s"
  | (inserted) p where "get_proposal (pr_id p) s = None" "pr_state p = PsProposed"
      "ps_rows s' = ps_rows s @ [p]" "ps_conv s' = ps_conv s" "res = Inr p \<or> res = Inl AuditWriteFailed"
proof (cases "s' = s")
  case True
  then show ?thesis by (rule unchanged)
next
  case False
  define p where "p = new_proposal env now (the (str_or (rq_proposal_id q) (Some fresh))) q s"
  from assms False have ins: "insert_proposal (rq_principal q) p s = (res, s')"
    by (auto simp: create_proposal_def p_def split: if_splits option.splits)
  with False obtain a where free: "get_proposal (pr_id p) s = None"
    and au: "audited a p (s\<lparr>ps_rows := ps_rows s @ [p]\<rparr>) = (res, s')"
    by (auto simp: insert_proposal_def split: if_splits)
  have "pr_state p = PsProposed" by (simp add: p_def new_proposal_def)
  with free audited_keeps [OF au] show ?thesis by (intro inserted [of p]) auto
qed

lemma proposed_content_id [simp]: "pr_id (proposed_content p) = pr_id p"
  by (simp add: proposed_content_def)

lemma row_move_id: "row_move p p' \<Longrightarrow> pr_id p' = pr_id p"
  using proposed_content_id [of p] proposed_content_id [of p'] by (simp add: row_move_def)

lemma lookup_moved:
  assumes "get_proposal pid s = Some p" and "row_move p p'" and "ps_rows s' = row_update pr_id pid (\<lambda>_. p') (ps_rows s)"
  shows "get_proposal qid s' = (if qid = pid then Some p' else get_proposal qid s)"
proof -
  have "pr_id p' = pid" using assms row_move_id by (auto simp: get_proposal_def dest: row_lookup_SomeD)
  then show ?thesis using assms by (simp add: get_proposal_def row_lookup_update_key)
qed

lemma keyed_moved:
  assumes "keyed pr_id (ps_rows s)" and "get_proposal pid s = Some p" and "row_move p p'"
  shows "keyed pr_id (row_update pr_id pid (\<lambda>_. p') (ps_rows s))"
proof -
  have "pr_id p' = pid" using assms row_move_id by (auto simp: get_proposal_def dest: row_lookup_SomeD)
  with assms(1) show ?thesis by (intro keyed_update_key) auto
qed

section \<open>The life of a proposal\<close>

text \<open>The operations of the store, whatever their arguments, and the other writes to its two databases.\<close>

inductive proposal_step :: "proposal_env \<Rightarrow> proposal_store \<Rightarrow> proposal_store \<Rightarrow> bool" for env where
  created: "create_proposal env now fresh q s = (res, s') \<Longrightarrow> proposal_step env s s'"
| decided: "decide_proposal env now pid state by rsn auth s = (res, s') \<Longrightarrow> proposal_step env s s'"
| moved: "transition_proposal_state env now pid state by rsn s = (res, s') \<Longrightarrow> proposal_step env s s'"
| talked: "proposal_step env s (s\<lparr>ps_conv := c\<rparr>)"
| logged: "proposal_step env s (snd (record_audit mode a s))"

inductive_cases proposal_stepE: "proposal_step env s s'"

lemma step_keeps_keys:
  assumes "proposal_step env s s'" and "keyed pr_id (ps_rows s)"
  shows "keyed pr_id (ps_rows s')"
  using assms(1)
proof (cases rule: proposal_step.cases)
  case (created now fresh q res)
  from this(1) assms(2) show ?thesis
    by (cases rule: create_cases) (auto simp: get_proposal_def intro: keyed_append1)
next
  case (decided now pid state "by" rsn auth res)
  from this(1) assms(2) show ?thesis by (cases rule: decide_cases) (auto simp: keyed_moved assms)
next
  case (moved now pid state "by" rsn res)
  from this(1) assms(2) show ?thesis by (cases rule: transition_cases) (auto simp: keyed_moved assms)
qed (use assms in auto)

lemma step_moves_row:
  assumes "proposal_step env s s'" and "keyed pr_id (ps_rows s)" and "get_proposal pid s = Some p"
  shows "\<exists>p'. get_proposal pid s' = Some p' \<and> (p' = p \<or> row_move p p')"
  using assms(1)
proof (cases rule: proposal_step.cases)
  case (created now fresh q res)
  from this(1) assms(3) show ?thesis
    by (cases rule: create_cases) (auto simp: get_proposal_def row_lookup_append)
next
  case (decided now qid state "by" rsn auth res)
  from this(1) assms(2) show ?thesis
  proof (cases rule: decide_cases)
    case (written r r')
    from lookup_moved [OF written(1,2,7)] written assms(3) show ?thesis by (cases "pid = qid") auto
  qed (use assms in auto)
next
  case (moved now qid state "by" rsn res)
  from this(1) assms(2) show ?thesis
  proof (cases rule: transition_cases)
    case (written r r')
    from lookup_moved [OF written(1,2,4)] written assms(3) show ?thesis by (cases "pid = qid") auto
  qed (use assms in auto)
qed (use assms in \<open>auto simp: get_proposal_def\<close>)

definition settled :: "proposal \<Rightarrow> bool" where
  "settled p = (pr_state p \<in> {PsDenied, PsDone, PsExpired})"

lemma settled_stuck: "settled p \<Longrightarrow> \<not> row_move p p'"
  by (auto simp: settled_def row_move_def)

text \<open>C19: Whatever the operations that follow, a proposal keeps what was proposed, its action, parameters, risk,
  origin, deadline and default, and once it is denied, done or expired its row does not change at all.
\<close>

theorem proposal_content_frozen:
  assumes "(proposal_step env)\<^sup>*\<^sup>* s s'" and "keyed pr_id (ps_rows s)" and "get_proposal pid s = Some p"
  shows "\<exists>p'. get_proposal pid s' = Some p' \<and> proposed_content p' = proposed_content p \<and> (settled p \<longrightarrow> p' = p)"
proof -
  from assms(1) have "keyed pr_id (ps_rows s') \<and>
    (\<exists>p'. get_proposal pid s' = Some p' \<and> proposed_content p' = proposed_content p \<and> (settled p \<longrightarrow> p' = p))"
  proof (induction rule: rtranclp_induct)
    case base
    with assms show ?case by auto
  next
    case (step t u)
    then obtain q where q: "get_proposal pid t = Some q" "proposed_content q = proposed_content p"
      "settled p \<longrightarrow> q = p" and k: "keyed pr_id (ps_rows t)" by auto
    from step_moves_row [OF step.hyps(2) k q(1)] obtain r where
      "get_proposal pid u = Some r" "r = q \<or> row_move q r" by blast
    with q step_keeps_keys [OF step.hyps(2) k] settled_stuck show ?case by (auto simp: row_move_def)
  qed
  then show ?thesis by blast
qed

definition sample_time :: "string \<Rightarrow> seconds option" where
  "sample_time t = (case py_int t of Some n \<Rightarrow> Some (of_int n) | None \<Rightarrow> None)"

definition sample_env :: proposal_env where
  "sample_env = \<lparr>pe_redact = id, pe_time = sample_time\<rparr>"

definition sample_thread :: thread_row where
  "sample_thread = \<lparr>th_id = ''t'', th_title = ''T'', th_kind = ''direct'', th_participants = [], th_created_by = [],
     th_status = ''open'', th_last_message_at = None, th_unread = [], th_meta = [], th_created_at = ''0'',
     th_updated_at = ''0'', th_epoch = 0\<rparr>"

definition sample_proposal :: "string \<Rightarrow> proposal_state \<Rightarrow> proposal" where
  "sample_proposal pid state = \<lparr>pr_id = pid, pr_message = ''m'', pr_thread = ''t'', pr_action = ''note'', pr_params = [],
     pr_risk = ''low'', pr_state = state, pr_decided_by = [], pr_decided_at = None, pr_reason = [], pr_created_at = ''0'',
     pr_decide_by = Some ''10'', pr_default = ''deny'', pr_epoch = 0\<rparr>"

definition sample_proposals :: "proposal list \<Rightarrow> proposal_store" where
  "sample_proposals rows = \<lparr>ps_conv = \<lparr>cv_threads = [sample_thread], cv_messages = []\<rparr>, ps_rows = rows, ps_audit = [],
     ps_faults = []\<rparr>"

lemma proposal_content_frozen_witness:
  "\<exists>p'. get_proposal ''p'' (snd (decide_proposal sample_env ''5'' ''p'' PsApproved ''ann'' ''ok'' []
            (sample_proposals [sample_proposal ''p'' PsProposed]))) = Some p'
      \<and> proposed_content p' = proposed_content (sample_proposal ''p'' PsProposed)
      \<and> (settled (sample_proposal ''p'' PsProposed) \<longrightarrow> p' = sample_proposal ''p'' PsProposed)"
proof (rule proposal_content_frozen [of sample_env])
  let ?s = "sample_proposals [sample_proposal ''p'' PsProposed]"
  obtain res s' where d: "decide_proposal sample_env ''5'' ''p'' PsApproved ''ann'' ''ok'' [] ?s = (res, s')"
    by (cases "decide_proposal sample_env ''5'' ''p'' PsApproved ''ann'' ''ok'' [] ?s")
  from proposal_step.decided [OF d] show "(proposal_step sample_env)\<^sup>*\<^sup>* ?s
      (snd (decide_proposal sample_env ''5'' ''p'' PsApproved ''ann'' ''ok'' [] ?s))" by (simp add: d)
qed (simp_all add: sample_proposals_def sample_proposal_def get_proposal_def keyed_def)

section \<open>Writes that fail half way, and reused proposals\<close>

text \<open>When the audit write behind an approval fails, the caller gets an error, but the proposal stays
  approved with no audit row, and the next call can take it to execution.
\<close>

theorem decision_stands_unaudited:
  assumes "keyed pr_id (ps_rows s)" and "get_proposal pid s = Some p" and "pr_state p \<in> {PsProposed, PsFailed}"
    and "\<not> stale_epoch p s" and "ps_faults s = [True]"
  shows "\<exists>s' p' q. decide_proposal env now pid PsApproved by rsn auth s = (Inl AuditWriteFailed, s') \<and>
           get_proposal pid s' = Some p' \<and> pr_state p' = PsApproved \<and> ps_audit s' = ps_audit s \<and>
           fst (transition_proposal_state env now' pid PsExecuting by' rsn' s') = Inr q"
proof -
  obtain res s' where d: "decide_proposal env now pid PsApproved by rsn auth s = (res, s')"
    by (cases "decide_proposal env now pid PsApproved by rsn auth s")
  from d assms(2-5) have res: "res = Inl AuditWriteFailed" "ps_audit s' = ps_audit s" "ps_faults s' = []"
    by (auto simp: decide_proposal_def write_state_eq [OF assms(1,2)] audited_eq)
  from d assms(1) obtain p' where p': "get_proposal pid s' = Some p'" "pr_state p' = PsApproved"
    and k: "keyed pr_id (ps_rows s')"
  proof (cases rule: decide_cases)
    case (written r r')
    from lookup_moved [OF written(1,2,7), of pid] keyed_moved [OF assms(1) written(1,2)] written that
    show ?thesis by simp
  qed (use res in simp_all)
  have "\<exists>q. fst (transition_proposal_state env now' pid PsExecuting by' rsn' s') = Inr q"
    using p' res by (simp add: transition_proposal_state_def write_state_eq [OF k p'(1)] audited_eq Let_def)
  with d res p' show ?thesis by blast
qed

lemma decision_stands_unaudited_witness:
  "\<exists>s' p' q. decide_proposal sample_env ''5'' ''p'' PsApproved ''ann'' [] []
        ((sample_proposals [sample_proposal ''p'' PsProposed])\<lparr>ps_faults := [True]\<rparr>) = (Inl AuditWriteFailed, s') \<and>
     get_proposal ''p'' s' = Some p' \<and> pr_state p' = PsApproved \<and>
     ps_audit s' = ps_audit ((sample_proposals [sample_proposal ''p'' PsProposed])\<lparr>ps_faults := [True]\<rparr>) \<and>
     fst (transition_proposal_state sample_env ''6'' ''p'' PsExecuting ''ann'' [] s') = Inr q"
  by (rule decision_stands_unaudited [where p = "sample_proposal ''p'' PsProposed"])
     (simp_all add: sample_proposals_def sample_proposal_def get_proposal_def keyed_def stale_epoch_def
        get_thread_def sample_thread_def)

text \<open>A request that asks for reuse gets the pending proposal of an earlier turn of the thread, which nobody can
  decide any more.
\<close>

theorem reused_proposal_undecidable:
  assumes "rq_deduplicate q" and "rq_proposal_id q = None" and "rq_thread q \<noteq> []" and "rq_action q \<noteq> []"
    and "rq_risk q \<in> set proposal_risks"
    and "validate_decision_sla (pe_time env) (rq_decide_by q) (rq_default q) (rq_risk q) now = None"
    and "find_pending_proposal (pe_redact env) (rq_thread q) (rq_action q) (rq_params q) (rq_decide_by q)
           (rq_default q) s = Some p"
    and "stale_epoch p s" and "keyed pr_id (ps_rows s)" and "decision \<in> {PsApproved, PsDenied}"
  shows "create_proposal env now fresh q s = (Inr p, s) \<and>
    decide_proposal env now' (pr_id p) decision by rsn auth s = (Inl StaleProposalEpoch, s)"
proof -
  have "p \<in> set (ps_rows s)" and st: "pr_state p = PsProposed"
    using assms(7) by (auto simp: find_pending_proposal_def find_Some_iff)
  then have "get_proposal (pr_id p) s = Some p" using assms(9) by (simp add: get_proposal_def row_lookup_Some_iff)
  with st assms(8,10) have "decide_proposal env now' (pr_id p) decision by rsn auth s = (Inl StaleProposalEpoch, s)"
    by (auto simp: decide_proposal_def)
  with assms show ?thesis by (simp add: create_proposal_def)
qed

definition sample_request :: proposal_request where
  "sample_request = \<lparr>rq_message = ''m2'', rq_thread = ''t'', rq_action = ''note'', rq_params = [], rq_risk = ''low'',
     rq_proposal_id = None, rq_principal = ''ann'', rq_decide_by = Some ''10'', rq_default = ''deny'',
     rq_deduplicate = True, rq_epoch = None\<rparr>"

definition advanced_proposals :: proposal_store where
  "advanced_proposals = (let s = sample_proposals [sample_proposal ''p'' PsProposed]
     in s\<lparr>ps_conv := snd (advance_thread_turn_epoch ''1'' ''t'' ''superseded'' (ps_conv s))\<rparr>)"

lemma reused_proposal_undecidable_witness:
  "create_proposal sample_env ''2'' ''p2'' sample_request advanced_proposals
     = (Inr (sample_proposal ''p'' PsProposed), advanced_proposals) \<and>
   decide_proposal sample_env ''3'' (pr_id (sample_proposal ''p'' PsProposed)) PsDenied ''ann'' [] [] advanced_proposals
     = (Inl StaleProposalEpoch, advanced_proposals)"
proof (rule reused_proposal_undecidable)
  show "validate_decision_sla (pe_time sample_env) (rq_decide_by sample_request) (rq_default sample_request)
      (rq_risk sample_request) ''2'' = None" by code_simp
  show "find_pending_proposal (pe_redact sample_env) (rq_thread sample_request) (rq_action sample_request)
      (rq_params sample_request) (rq_decide_by sample_request) (rq_default sample_request) advanced_proposals
        = Some (sample_proposal ''p'' PsProposed)" by code_simp
  show "stale_epoch (sample_proposal ''p'' PsProposed) advanced_proposals" by code_simp
  show "keyed pr_id (ps_rows advanced_proposals)" by code_simp
qed (simp_all add: sample_request_def proposal_risks_def)

section \<open>Every pending deadline is seen\<close>

text \<open>The walk over the pages, each from the last row of the one before; it ends, as the rows behind the cursor
  become fewer.\<close>

function deadline_pages :: "int \<Rightarrow> proposal_state \<Rightarrow> string \<times> string \<Rightarrow> proposal list \<Rightarrow> proposal list" where
  "deadline_pages page state cursor rows =
     (let batch = deadline_page state page cursor rows
      in if batch = [] then [] else batch @ deadline_pages page state (deadline_key (last batch)) rows)"
  by pat_completeness auto

lemma after_deadline_onward:
  "after_deadline state cursor r \<Longrightarrow> after_deadline state (deadline_key r) r' \<Longrightarrow>
     after_deadline state cursor r' \<and> deadline_key r < deadline_key r'"
  by (auto simp: after_deadline_def)

interpretation due: keyset deadline_key "after_deadline state" deadline_key for state
  by unfold_locales (rule after_deadline_onward)

lemma deadline_page_eq:
  "deadline_page state page cursor rows =
     (if page < 0 then sort_key deadline_key (filter (after_deadline state cursor) rows)
      else take (nat page) (sort_key deadline_key (filter (after_deadline state cursor) rows)))"
  by (simp add: deadline_page_def)

lemma deadline_page_after: "r \<in> set (deadline_page state page cursor rows) \<Longrightarrow> r \<in> set rows \<and> after_deadline state cursor r"
  by (auto simp: deadline_page_eq split: if_splits dest: in_set_takeD)

termination deadline_pages
proof (relation "measure (\<lambda>(page, state, cursor, rows). length (filter (after_deadline state cursor) rows))")
  fix page :: int and state cursor rows batch
  assume "batch = deadline_page state page cursor rows" and "batch \<noteq> []"
  then have "last batch \<in> set rows \<and> after_deadline state cursor (last batch)"
    using deadline_page_after last_in_set by metis
  then show "((page, state, deadline_key (last batch), rows), page, state, cursor, rows)
      \<in> measure (\<lambda>(page, state, cursor, rows). length (filter (after_deadline state cursor) rows))"
    by (simp add: due.fewer_behind)
qed simp

declare deadline_pages.simps [simp del]

lemma deadline_pages_eq:
  "deadline_pages page state cursor rows =
     (if deadline_page state page cursor rows = [] then []
      else deadline_page state page cursor rows @
             deadline_pages page state (deadline_key (last (deadline_page state page cursor rows))) rows)"
  by (subst deadline_pages.simps) (simp add: Let_def)

interpretation due_walk: keyset_walk deadline_key "after_deadline state" deadline_key
    "\<lambda>page. deadline_page state page" "\<lambda>page. deadline_pages page state" for state
  by unfold_locales (rule deadline_page_eq deadline_pages_eq)+

definition by_deadline :: "proposal list \<Rightarrow> proposal list" where
  "by_deadline rows = sort_key deadline_key rows"

lemma deadline_keys_distinct:
  assumes "keyed pr_id rows"
  shows "inj_on deadline_key (set rows) \<and> distinct rows"
  using assms by (auto simp: inj_on_def deadline_key_def keyed_def distinct_map)

lemma deadline_pages_all:
  assumes "keyed pr_id rows" and "page \<noteq> 0"
  shows "deadline_pages page state cursor rows = filter (after_deadline state cursor) (by_deadline rows)"
proof -
  have "deadline_pages page state cursor rows = sort_key deadline_key (filter (after_deadline state cursor) rows)"
    by (rule due_walk.walk_all) (use assms deadline_keys_distinct in \<open>auto simp: after_deadline_def\<close>)
  then show ?thesis by (simp add: by_deadline_def filter_sort)
qed

end
