(* ===== verification/Approval_Authority.thy ===== *)
theory Approval_Authority
  imports Proposals
begin

text \<open>
  Who may approve a proposal: principals and their scopes (\<open>backend/identity.py\<close>), the verdict of
  \<open>backend/staff/approval_authority.py\<close>, the roles that may propose an action and the action registry
  (\<open>backend/staff/actions.py\<close>), and the preview of \<open>backend/staff/proposal_preview.py\<close>. The values of a role
  file have the types its schema asks for. The canonical hash is an argument; it has no value where
  the parameters cannot be serialised.
\<close>

section \<open>Principals and scopes\<close>

record principal =
  pn_id :: string
  pn_type :: string
  pn_name :: string
  pn_roles :: "string list"
  pn_scopes :: "string list"

definition operator_scopes :: "string list" where
  "operator_scopes =
     [''workflows.dispatch'', ''workflows.control'', ''runners.control'', ''fleet.control'', ''remediation.dispatch'',
      ''heavy-tests.dispatch'', ''tests.rerun'', ''github.dispatch'', ''assistant.chat'', ''assistant.execute'',
      ''assessments.dispatch'', ''code-requests.manage'', ''feature-requests.manage'', ''system.control'',
      ''coordination.write'', ''priorities.write'', ''proposals.write'',
      ''staff.read'', ''staff.chat'', ''staff.dispatch'', ''staff.cancel'', ''staff.holds.write'', ''staff.write'',
      ''staff.approve'', ''staff.admin'', ''staff.audit.read'', ''staff.github_credential'',
      ''staff.dispatcher.ledger.write'', ''fleet.maintain'', ''fleet.read'', ''memory.read'', ''memory.write'',
      ''activity.read'', ''activity.write'', ''github.app_token'']"

definition fleet_peer_scopes :: "string list" where
  "fleet_peer_scopes = [''staff.read'', ''staff.dispatch'', ''staff.cancel'', ''staff.chat'', ''fleet.maintain'',
     ''fleet.read'', ''memory.read'', ''activity.read'']"

definition loopback_scopes :: "string list" where
  "loopback_scopes = [''staff.read'', ''staff.chat'', ''staff.holds.write'', ''fleet.read'', ''coordination.write'',
     ''priorities.write'', ''proposals.write'', ''memory.read'', ''activity.read'', ''activity.write'']"

definition scope_presets :: "(string, string list) dict" where
  "scope_presets =
     [(''admin'', [''*'']),
      (''operator'', operator_scopes),
      (''viewer'', [''assistant.chat'', ''staff.read'', ''fleet.read'']),
      (''barb'', operator_scopes),
      (''bot'', [''remediation.dispatch'', ''workflows.dispatch'', ''heavy-tests.dispatch'', ''coordination.write'',
         ''proposals.write'', ''staff.read'', ''staff.chat'', ''staff.dispatch'', ''staff.cancel'', ''memory.read'',
         ''memory.shared.summarize'']),
      (''fleet-peer'', fleet_peer_scopes),
      (''loopback'', loopback_scopes),
      (''tailnet-approver'', [''staff.approve'']),
      (''email-intake'', [''intake.proposals.create''])]"

definition scope_aliases :: "(string, string) dict" where
  "scope_aliases = [(''feature-requests.manage'', ''code-requests.manage''),
     (''code-requests.manage'', ''feature-requests.manage'')]"

definition preset_scopes :: "string \<Rightarrow> string list" where
  "preset_scopes role = (case map_of scope_presets role of None \<Rightarrow> [] | Some ss \<Rightarrow> ss)"

definition scope_grants :: "string \<Rightarrow> string \<Rightarrow> bool" where
  "scope_grants required s =
     (let alias_is = (\<lambda>P. case map_of scope_aliases required of None \<Rightarrow> False | Some a \<Rightarrow> P a)
      in s = required \<or> alias_is (\<lambda>a. s = a) \<or>
         (s \<noteq> [] \<and> last s = CHR ''*'' \<and>
          (py_startswith required (butlast s) \<or> alias_is (\<lambda>a. py_startswith a (butlast s)))))"

definition principal_has_scope :: "principal \<Rightarrow> string \<Rightarrow> bool" where
  "principal_has_scope p required =
     (let scopes = pn_scopes p @ concat (map preset_scopes (pn_roles p))
      in ''*'' \<in> set scopes \<or> list_ex (scope_grants required) scopes)"

definition format_caller :: "principal \<Rightarrow> string" where
  "format_caller p =
     (if pn_id p \<in> {''fleet-peer'', ''__loopback__'', ''loopback-dev'', ''test-orchestrator'', ''test-peer''}
      then pn_id p else ''principal:'' @ pn_id p)"

definition is_owner :: "principal option \<Rightarrow> bool" where
  "is_owner who =
     (case who of None \<Rightarrow> False
      | Some p \<Rightarrow>
          let roles = map py_lower (pn_roles p); scopes = map py_lower (pn_scopes p)
          in ''owner'' \<in> set roles \<or> ''admin'' \<in> set roles \<or> ''owner'' \<in> set scopes \<or> ''admin'' \<in> set scopes \<or>
             py_lower (pn_id p) \<in> {''owner'', ''operator''} \<or> py_lower (pn_name p) \<in> {''owner'', ''operator''})"

section \<open>Actions\<close>

record action_spec =
  ad_name :: string
  ad_required_scope :: string
  ad_risk :: string

type_synonym action_registry = "(string, action_spec) dict"

definition register_spec :: "action_spec \<Rightarrow> action_registry \<Rightarrow> action_registry" where
  "register_spec a reg = AList.update (ad_name a) a reg"

definition registry_get :: "action_registry \<Rightarrow> string \<Rightarrow> action_spec option" where
  "registry_get reg name = map_of reg name"

definition list_actions :: "action_registry \<Rightarrow> action_spec list" where
  "list_actions reg = sort_key ad_name (map snd reg)"

definition registered_risk :: "action_registry \<Rightarrow> string \<Rightarrow> string" where
  "registered_risk reg name = (case registry_get reg name of Some a \<Rightarrow> ad_risk a | None \<Rightarrow> ''high'')"

definition can_auto_execute :: "action_spec \<Rightarrow> bool" where
  "can_auto_execute a = (ad_risk a \<in> {''read'', ''low''})"

record role_grants =
  rg_allowed_actions :: "string list"
  rg_actions :: "string list"
  rg_fleet_actions :: "string list"
  rg_notify_user :: bool
  rg_open_pr :: bool
  rg_lease :: bool
  rg_can_dispatch :: bool
  rg_tools :: "string list"
  rg_chat_tools :: "string list"
  rg_reports_to :: string
  rg_proposals_per_run :: bool

definition maintenance_actions :: "string list" where
  "maintenance_actions = [''runner.start'', ''runner.stop'', ''runner.restart'', ''runner.scale'', ''fleet.node_up'',
     ''fleet.node_down'', ''queue.purge_stale'', ''run.cancel'', ''run.rerun'', ''queue.diagnose'',
     ''host.vhdx_compact'', ''dashboard.restart'']"

definition board_proposal_role :: string where
  "board_proposal_role = ''board-secretary''"

definition code_request_owner_role :: string where
  "code_request_owner_role = ''product-owner''"

text \<open>\<open>x.*\<close> covers the actions below \<open>x\<close>.\<close>

definition pattern_covers :: "string \<Rightarrow> string \<Rightarrow> bool" where
  "pattern_covers name pat =
     (py_startswith (rev pat) (rev ''.*'') \<and> py_startswith name (take (length pat - 2) pat @ ''.''))"

definition grants_cover :: "role_grants \<Rightarrow> string \<Rightarrow> bool" where
  "grants_cover g name =
     (let allowed = (if rg_allowed_actions g \<noteq> [] then rg_allowed_actions g else rg_actions g);
          granted = allowed @ rg_fleet_actions g;
          tools = rg_tools g @ rg_chat_tools g
      in ''*'' \<in> set granted \<or> name \<in> set granted \<or> list_ex (pattern_covers name) granted \<or>
         (name = ''notify_user'' \<and> rg_notify_user g) \<or> (name = ''open_pr'' \<and> rg_open_pr g) \<or>
         (name = ''claim_issue'' \<and> rg_lease g) \<or> name \<in> set tools \<or>
         (name \<in> {''board.propose'', ''submit_proposal''} \<and>
          (''submit_proposal'' \<in> set tools \<or> ''board.propose'' \<in> set tools \<or>
           rg_reports_to g = board_proposal_role \<or> rg_proposals_per_run g)) \<or>
         (name \<in> {''staff.dispatch'', ''staff.review_pr''} \<and> rg_can_dispatch g \<and> allowed = []))"

definition check_role_permission ::
    "(string \<Rightarrow> role_grants option) \<Rightarrow> action_spec option \<Rightarrow> string \<Rightarrow> bool" where
  "check_role_permission roles action role =
     (let name = (case action of None \<Rightarrow> [] | Some a \<Rightarrow> ad_name a)
      in role = [] \<or> py_lower role \<in> {''barb'', ''user'', ''operator'', ''owner''} \<or>
         (role = ''maintenance'' \<and> (py_startswith name ''maintenance.'' \<or> name \<in> set maintenance_actions)) \<or>
         (role = board_proposal_role \<and> name \<in> {''board.propose'', ''board.convene'', ''submit_proposal'', ''staff.dispatch''}) \<or>
         (role = code_request_owner_role \<and> py_startswith name ''code_request.'') \<or>
         (case roles role of None \<Rightarrow> False | Some g \<Rightarrow> grants_cover g name))"

text \<open>The role that proposed: a parameter of the proposal, else the role that wrote the message.\<close>

definition proposing_role_of :: "(json \<Rightarrow> string) \<Rightarrow> proposal \<Rightarrow> proposal_store \<Rightarrow> string" where
  "proposing_role_of repr p s =
     (let named = json_str repr (json_or (json_get (pr_params p) ''proposing_role'') (JStr []))
      in if named \<noteq> [] \<or> pr_message p = [] then named
         else case get_message (pr_message p) (ps_conv s) of
           None \<Rightarrow> []
         | Some m \<Rightarrow> if ms_author_kind m = ''role'' then ms_author m else [])"

section \<open>The verdict\<close>

datatype authority_code =
    CodeOk
  | CodeExpired
  | CodeTerminal
  | CodeOwnerRequired
  | CodeScopeMissing
  | CodeActionScopeMissing
  | CodeRoleNotPermitted

record authority =
  at_allowed :: bool
  at_reason :: string
  at_code :: authority_code

definition deny :: "authority_code \<Rightarrow> string \<Rightarrow> authority" where
  "deny code reason = \<lparr>at_allowed = False, at_reason = reason, at_code = code\<rparr>"

fun authority_code_text :: "authority_code \<Rightarrow> string" where
  "authority_code_text CodeOk = ''ok''"
| "authority_code_text CodeExpired = ''expired''"
| "authority_code_text CodeTerminal = ''terminal''"
| "authority_code_text CodeOwnerRequired = ''owner_required''"
| "authority_code_text CodeScopeMissing = ''scope_missing''"
| "authority_code_text CodeActionScopeMissing = ''action_scope_missing''"
| "authority_code_text CodeRoleNotPermitted = ''role_not_permitted''"

definition to_audit :: "authority \<Rightarrow> (string, json) dict" where
  "to_audit v = [(''allowed'', JBool (at_allowed v)), (''code'', JStr (authority_code_text (at_code v)))]"

definition is_proposal_expired :: "(string \<Rightarrow> seconds option) \<Rightarrow> seconds \<Rightarrow> proposal \<Rightarrow> bool" where
  "is_proposal_expired read_time now p =
     (case read_time (pr_created_at p) of None \<Rightarrow> False | Some created \<Rightarrow> proposal_ttl < now - created)"

definition owner_approved_risks :: "string list" where
  "owner_approved_risks = [''high'', ''critical'', ''owner-only'']"

definition decidable_states :: "proposal_state list" where
  "decidable_states = [PsProposed, PsApproved, PsFailed]"

record authority_query =
  aq_include_state :: bool
  aq_role_permitted :: bool
  aq_proposing_role :: string
  aq_ignore_expiry :: bool

definition evaluate_approval_authority ::
    "(string \<Rightarrow> seconds option) \<Rightarrow> seconds \<Rightarrow> action_spec option \<Rightarrow> proposal \<Rightarrow> principal \<Rightarrow> authority_query \<Rightarrow>
     authority" where
  "evaluate_approval_authority read_time now action p approver q =
     (let risk = (case action of Some a \<Rightarrow> ad_risk a | None \<Rightarrow> pr_risk p);
          owner = is_owner (Some approver)
      in if \<not> aq_ignore_expiry q \<and> is_proposal_expired read_time now p
         then deny CodeExpired (''Proposal '' @ pr_id p @ '' has expired (exceeded 24h TTL)'')
         else if aq_include_state q \<and> pr_state p \<notin> set decidable_states
         then deny CodeTerminal (''Proposal '' @ pr_id p @ '' is '' @ [CHR 0x27] @ proposal_state_text (pr_state p) @ [CHR 0x27]
                @ '' and can no longer be approved'')
         else if \<not> aq_role_permitted q
         then deny CodeRoleNotPermitted (''Role '' @ [CHR 0x27] @ aq_proposing_role q @ [CHR 0x27] @ '' is not permitted to invoke ''
                @ [CHR 0x27] @ pr_action p @ [CHR 0x27])
         else if risk \<in> set owner_approved_risks \<and> \<not> owner
         then deny CodeOwnerRequired (''Action '' @ [CHR 0x27] @ pr_action p @ [CHR 0x27] @ '' has risk '' @ [CHR 0x27] @ risk
                @ [CHR 0x27] @ '' and requires owner approval'')
         else if \<not> owner \<and> \<not> principal_has_scope approver ''staff.approve''
         then deny CodeScopeMissing (''Principal '' @ [CHR 0x27] @ pn_id approver @ [CHR 0x27] @ '' lacks ''
                @ [CHR 0x27] @ ''staff.approve'' @ [CHR 0x27] @ '' scope'')
         else case action of
           Some a \<Rightarrow>
             if \<not> owner \<and> \<not> principal_has_scope approver (ad_required_scope a)
             then deny CodeActionScopeMissing (''Principal '' @ [CHR 0x27] @ pn_id approver @ [CHR 0x27] @ '' lacks ''
                    @ [CHR 0x27] @ ad_required_scope a @ [CHR 0x27] @ '' required by '' @ [CHR 0x27] @ ad_name a @ [CHR 0x27])
             else \<lparr>at_allowed = True, at_reason = [], at_code = CodeOk\<rparr>
         | None \<Rightarrow> \<lparr>at_allowed = True, at_reason = [], at_code = CodeOk\<rparr>)"

text \<open>\<open>check_approval_policy\<close>: the verdict without the state, where it is a denial.\<close>

definition execution_query :: authority_query where
  "execution_query = \<lparr>aq_include_state = False, aq_role_permitted = True, aq_proposing_role = [], aq_ignore_expiry = False\<rparr>"

definition check_approval_policy ::
    "(string \<Rightarrow> seconds option) \<Rightarrow> seconds \<Rightarrow> action_spec option \<Rightarrow> proposal \<Rightarrow> principal \<Rightarrow> authority option" where
  "check_approval_policy read_time now action p approver =
     (let verdict = evaluate_approval_authority read_time now action p approver execution_query
      in if at_allowed verdict then None else Some verdict)"

section \<open>The preview\<close>

record authority_env =
  ae_time :: "string \<Rightarrow> seconds option"
  ae_registry :: action_registry
  ae_roles :: "string \<Rightarrow> role_grants option"
  ae_repr :: "json \<Rightarrow> string"
  ae_hash :: "string \<Rightarrow> (string, json) dict \<Rightarrow> string option"

definition evaluate_caller_authority ::
    "authority_env \<Rightarrow> seconds \<Rightarrow> proposal \<Rightarrow> principal \<Rightarrow> bool \<Rightarrow> proposal_store \<Rightarrow> authority" where
  "evaluate_caller_authority env now p caller for_denial s =
     (let action = registry_get (ae_registry env) (pr_action p); role = proposing_role_of (ae_repr env) p s
      in evaluate_approval_authority (ae_time env) now action p caller
           \<lparr>aq_include_state = True,
            aq_role_permitted = (for_denial \<or> role = [] \<or> check_role_permission (ae_roles env) action role),
            aq_proposing_role = role, aq_ignore_expiry = for_denial\<rparr>)"

definition build_proposal_preview ::
    "authority_env \<Rightarrow> seconds \<Rightarrow> proposal \<Rightarrow> principal \<Rightarrow> proposal_store \<Rightarrow> (bool \<times> string option \<times> string) option" where
  "build_proposal_preview env now p caller s =
     (let verdict = evaluate_caller_authority env now p caller False s
      in case ae_hash env (pr_action p) (pr_params p) of
           None \<Rightarrow> None
         | Some h \<Rightarrow> Some (at_allowed verdict, if at_allowed verdict then None else Some (at_reason verdict), h))"

end
