(* ===== verification/Proposal_Execution.thy ===== *)
theory Proposal_Execution
  imports Approval_Authority
begin

text \<open>
  The execution of a proposal: \<open>execute_proposal\<close> of \<open>backend/staff/actions.py\<close> in the four parts between which
  other calls may run (the checks on the row read, the decision and the start, the executor with its verifier,
  the end), the decide route of \<open>backend/routers/staff_proposals.py\<close>, and the repair after a restart of
  \<open>backend/staff/reconcile.py\<close>. An executor and a verifier are arguments; they may raise, and may change the
  store. The clock readings of one call are equal.
\<close>

section \<open>Types\<close>

record action_result =
  ar_success :: bool
  ar_result :: json
  ar_run_id :: "string option"
  ar_error :: "string option"
  ar_failure_class :: "string option"
  ar_verification_ok :: bool
  ar_verification_message :: string

record action_context =
  ac_thread :: string
  ac_message :: string
  ac_proposal :: string
  ac_role :: string
  ac_caller :: principal

record exec_env =
  xe_redact :: "string \<Rightarrow> string"
  xe_auth :: authority_env
  xe_run :: "string \<Rightarrow> (string, json) dict \<Rightarrow> action_context \<Rightarrow> proposal_store \<Rightarrow> (string + action_result) \<times> proposal_store"
  xe_verify :: "string \<Rightarrow> (action_result \<Rightarrow> (string, json) dict \<Rightarrow> action_context \<Rightarrow> proposal_store \<Rightarrow>
                 (string + bool \<times> string) \<times> proposal_store) option"
  xe_dumps :: "json \<Rightarrow> string"

record exec_call =
  xc_proposal :: string
  xc_approver :: principal
  xc_approve :: bool
  xc_hash :: string
  xc_now :: seconds
  xc_stamp :: string
  xc_message_id :: string

datatype exec_error =
    ExNotFound
  | ExStaleEpoch
  | ExHashRequired
  | ExHashUnavailable
  | ExHashMismatch
  | ExExpired
  | ExTerminal
  | ExNotApproved
  | ExRoleNotPermitted
  | ExPermission string
  | ExStore proposal_error
  | ExPost conversation_error

datatype admission =
    Rejected exec_error
  | NotRegistered action_result
  | Admitted proposal action_spec string

definition store_env :: "exec_env \<Rightarrow> proposal_env" where
  "store_env env = \<lparr>pe_redact = xe_redact env, pe_time = ae_time (xe_auth env)\<rparr>"

definition failed_result :: "string \<Rightarrow> string \<Rightarrow> action_result" where
  "failed_result err failure_class = \<lparr>ar_success = False, ar_result = JNull, ar_run_id = None, ar_error = Some err,
     ar_failure_class = Some failure_class, ar_verification_ok = True, ar_verification_message = []\<rparr>"

section \<open>The checks\<close>

definition verify_params_hash :: "authority_env \<Rightarrow> proposal \<Rightarrow> string \<Rightarrow> exec_error option" where
  "verify_params_hash env p reviewed =
     (if reviewed = [] then Some ExHashRequired
      else case ae_hash env (pr_action p) (pr_params p) of
        None \<Rightarrow> Some ExHashUnavailable
      | Some h \<Rightarrow> if h = reviewed then None else Some ExHashMismatch)"

definition stored_params_hash :: "authority_env \<Rightarrow> string \<Rightarrow> proposal_store \<Rightarrow> exec_error + string" where
  "stored_params_hash env pid s =
     (case get_proposal pid s of
        None \<Rightarrow> Inl ExNotFound
      | Some p \<Rightarrow> (case ae_hash env (pr_action p) (pr_params p) of None \<Rightarrow> Inl ExHashUnavailable | Some h \<Rightarrow> Inr h))"

text \<open>A change of state on the way to a rejection: its own error comes first.\<close>

definition reject_after ::
    "exec_env \<Rightarrow> exec_call \<Rightarrow> proposal_state \<Rightarrow> string \<Rightarrow> admission \<Rightarrow> proposal_store \<Rightarrow> admission \<times> proposal_store" where
  "reject_after env c state reason outcome s =
     (case transition_proposal_state (store_env env) (xc_stamp c) (xc_proposal c) state [] reason s of
        (Inl e, s') \<Rightarrow> (Rejected (ExStore e), s')
      | (Inr _, s') \<Rightarrow> (outcome, s'))"

definition admit :: "exec_env \<Rightarrow> exec_call \<Rightarrow> proposal_store \<Rightarrow> admission \<times> proposal_store" where
  "admit env c s =
     (case get_proposal (xc_proposal c) s of
        None \<Rightarrow> (Rejected ExNotFound, s)
      | Some p \<Rightarrow>
          if pr_thread p \<noteq> [] \<and> stale_epoch p s then (Rejected ExStaleEpoch, s)
          else case verify_params_hash (xe_auth env) p (xc_hash c) of
            Some e \<Rightarrow> (Rejected e, s)
          | None \<Rightarrow>
              if is_proposal_expired (ae_time (xe_auth env)) (xc_now c) p then
                (if pr_state p = PsProposed
                 then reject_after env c PsExpired ''Expired after 24h'' (Rejected ExExpired) s
                 else (Rejected ExExpired, s))
              else if pr_state p \<in> {PsDenied, PsExpired, PsDone} then (Rejected ExTerminal, s)
              else if \<not> (pr_state p = PsApproved \<or> (xc_approve c \<and> pr_state p = PsProposed))
              then (Rejected ExNotApproved, s)
              else case registry_get (ae_registry (xe_auth env)) (pr_action p) of
                None \<Rightarrow>
                  reject_after env c PsFailed (''Unknown action '' @ [CHR 0x27] @ pr_action p @ [CHR 0x27])
                    (NotRegistered (failed_result
                       (''Action '' @ [CHR 0x27] @ pr_action p @ [CHR 0x27] @ '' not registered'') ''unknown_action'')) s
              | Some a \<Rightarrow>
                  let role = proposing_role_of (ae_repr (xe_auth env)) p s
                  in if role \<noteq> [] \<and> \<not> check_role_permission (ae_roles (xe_auth env)) (Some a) role
                     then reject_after env c PsFailed
                            (''Role '' @ [CHR 0x27] @ role @ [CHR 0x27] @ '' not permitted for action ''
                               @ [CHR 0x27] @ pr_action p @ [CHR 0x27])
                            (Rejected ExRoleNotPermitted) s
                     else case check_approval_policy (ae_time (xe_auth env)) (xc_now c) (Some a) p (xc_approver c) of
                       Some v \<Rightarrow> (Rejected (if at_code v = CodeExpired then ExExpired else ExPermission (at_reason v)), s)
                     | None \<Rightarrow> (Admitted p a role, s))"

section \<open>Decision, start, run and end\<close>

definition start :: "exec_env \<Rightarrow> exec_call \<Rightarrow> proposal \<Rightarrow> proposal_store \<Rightarrow> exec_error option \<times> proposal_store" where
  "start env c p s =
     (let by = format_caller (xc_approver c);
          begin_run = (\<lambda>s. case transition_proposal_state (store_env env) (xc_stamp c) (xc_proposal c) PsExecuting by [] s of
                    (Inl e, s') \<Rightarrow> (Some (ExStore e), s') | (Inr _, s') \<Rightarrow> (None, s'))
      in if pr_state p = PsProposed
         then (case decide_proposal (store_env env) (xc_stamp c) (xc_proposal c) PsApproved by [] [] s of
                 (Inl e, s') \<Rightarrow> (Some (ExStore e), s') | (Inr _, s') \<Rightarrow> begin_run s')
         else begin_run s)"

definition verify_result ::
    "exec_env \<Rightarrow> proposal \<Rightarrow> action_context \<Rightarrow> action_result \<Rightarrow> proposal_store \<Rightarrow> action_result \<times> proposal_store" where
  "verify_result env p ctx r s =
     (case (ar_success r, xe_verify env (pr_action p)) of
        (True, Some verify) \<Rightarrow>
          (case verify r (pr_params p) ctx s of
             (Inl err, s') \<Rightarrow>
               (r\<lparr>ar_verification_ok := False, ar_success := False, ar_error := Some (''Verification error: '' @ err),
                  ar_failure_class := Some ''verification_error''\<rparr>, s')
           | (Inr (ok, msg), s') \<Rightarrow>
               (if ok then r\<lparr>ar_verification_ok := True, ar_verification_message := msg\<rparr>
                else r\<lparr>ar_verification_ok := False, ar_verification_message := msg, ar_success := False,
                       ar_error := Some (''Verification mismatch: '' @ msg),
                       ar_failure_class := Some ''verification_mismatch''\<rparr>, s'))
      | _ \<Rightarrow> (r, s))"

definition run_action ::
    "exec_env \<Rightarrow> exec_call \<Rightarrow> proposal \<Rightarrow> string \<Rightarrow> proposal_store \<Rightarrow> action_result \<times> proposal_store" where
  "run_action env c p role s =
     (let ctx = \<lparr>ac_thread = pr_thread p, ac_message = pr_message p, ac_proposal = pr_id p, ac_role = role,
                 ac_caller = xc_approver c\<rparr>
      in case xe_run env (pr_action p) (pr_params p) ctx s of
           (Inl err, s') \<Rightarrow> (failed_result err ''execution_exception'', s')
         | (Inr r, s') \<Rightarrow> verify_result env p ctx r s')"

definition result_thread :: "proposal \<Rightarrow> proposal_store \<Rightarrow> string" where
  "result_thread p s = (if pr_thread p \<noteq> [] \<and> get_thread (pr_thread p) (ps_conv s) = None then [] else pr_thread p)"

definition post_result ::
    "exec_env \<Rightarrow> exec_call \<Rightarrow> string \<Rightarrow> string \<Rightarrow> (string, json) dict \<Rightarrow> proposal_store \<Rightarrow>
     exec_error option \<times> proposal_store" where
  "post_result env c tid body meta s =
     (if tid = [] then (None, s)
      else case add_message (xe_redact env) tid
             \<lparr>po_message_id = xc_message_id c, po_now = xc_stamp c, po_author_kind = ''system'', po_author = ''system'',
              po_kind = ''action_result'', po_body = body, po_meta = meta, po_run_id = [], po_idempotency_key = None,
              po_delivery = ''complete'', po_turn_epoch = None\<rparr> (ps_conv s) of
           (Inl e, cs) \<Rightarrow> (Some (ExPost e), s\<lparr>ps_conv := cs\<rparr>)
         | (Inr _, cs) \<Rightarrow> (None, s\<lparr>ps_conv := cs\<rparr>))"

definition end_run ::
    "exec_env \<Rightarrow> exec_call \<Rightarrow> proposal \<Rightarrow> action_result \<Rightarrow> proposal_store \<Rightarrow> (exec_error + action_result) \<times> proposal_store" where
  "end_run env c p r s =
     (let tid = result_thread p s;
          error_text = (case ar_error r of Some e \<Rightarrow> e | None \<Rightarrow> ''None'');
          reason = (if ar_success r then [] else the (str_or (ar_error r) (Some ''Action failed'')));
          body = (if ar_success r
                  then ''**Action Executed**: `'' @ pr_action p @ ''`'' @ [CHR 0x0A, CHR 0x0A] @ ''Result: '' @ xe_dumps env (ar_result r)
                  else ''**Action Failed**: `'' @ pr_action p @ ''`'' @ [CHR 0x0A, CHR 0x0A] @ ''Error: '' @ error_text
                         @ [CHR 0x0A, CHR 0x0A] @ ''*You can retry this action.*'');
          meta = (if ar_success r
                  then [(''proposal_id'', JStr (pr_id p)), (''action'', JStr (pr_action p)), (''success'', JBool True),
                        (''result'', ar_result r), (''run_id'', opt_str (ar_run_id r))]
                  else [(''proposal_id'', JStr (pr_id p)), (''action'', JStr (pr_action p)), (''success'', JBool False),
                        (''error'', opt_str (ar_error r)), (''failure_class'', opt_str (ar_failure_class r)),
                        (''can_retry'', JBool True)])
      in case transition_proposal_state (store_env env) (xc_stamp c) (xc_proposal c)
                (if ar_success r then PsDone else PsFailed) [] reason s of
           (Inl e, s') \<Rightarrow> (Inl (ExStore e), s')
         | (Inr _, s') \<Rightarrow>
             (case post_result env c tid body meta s' of
                (Some e, s'') \<Rightarrow> (Inl e, s'')
              | (None, s'') \<Rightarrow> (Inr r, s'')))"

definition execute_proposal ::
    "exec_env \<Rightarrow> exec_call \<Rightarrow> proposal_store \<Rightarrow> (exec_error + action_result) \<times> proposal_store" where
  "execute_proposal env c s =
     (case admit env c s of
        (Rejected e, s1) \<Rightarrow> (Inl e, s1)
      | (NotRegistered r, s1) \<Rightarrow> (Inr r, s1)
      | (Admitted p a role, s1) \<Rightarrow>
          (case start env c p s1 of
             (Some e, s2) \<Rightarrow> (Inl e, s2)
           | (None, s2) \<Rightarrow> (case run_action env c p role s2 of (r, s3) \<Rightarrow> end_run env c p r s3)))"

section \<open>The decide route\<close>

datatype decide_response =
    DecideStatus nat
  | DecideDenied nat authority_code
  | DecideFailed nat exec_error
  | Decided proposal
  | DecidedAndRun proposal action_result

text \<open>The status of an error of the hash and of the execution, as the route's handlers map them.\<close>

fun hash_status :: "exec_error \<Rightarrow> nat" where
  "hash_status ExHashRequired = 428"
| "hash_status ExHashMismatch = 409"
| "hash_status _ = 422"

fun execute_status :: "exec_error \<Rightarrow> nat" where
  "execute_status ExHashRequired = 409"
| "execute_status ExHashMismatch = 409"
| "execute_status ExExpired = 400"
| "execute_status ExRoleNotPermitted = 403"
| "execute_status (ExPermission _) = 403"
| "execute_status (ExStore AuditWriteFailed) = 500"
| "execute_status (ExStore _) = 400"
| "execute_status _ = 500"

definition decide_route ::
    "exec_env \<Rightarrow> exec_call \<Rightarrow> string \<Rightarrow> string \<Rightarrow> bool \<Rightarrow> proposal_store \<Rightarrow> decide_response \<times> proposal_store" where
  "decide_route env c decision reason execute s =
     (if decision \<noteq> ''approved'' \<and> decision \<noteq> ''denied'' then (DecideStatus 400, s)
      else case get_proposal (xc_proposal c) s of
        None \<Rightarrow> (DecideStatus 404, s)
      | Some p \<Rightarrow>
          if pr_state p \<noteq> PsProposed \<and> pr_state p \<noteq> PsFailed then (DecideStatus 400, s)
          else
            let verdict = evaluate_caller_authority (xe_auth env) (xc_now c) p (xc_approver c) (decision = ''denied'') s
            in if \<not> at_allowed verdict
               then (DecideDenied (if at_code verdict = CodeExpired then 400 else 403) (at_code verdict),
                     snd (record_audit (Some False)
                       \<lparr>au_action = ''proposal_decide_refused'', au_target = pr_id p,
                        au_principal = format_caller (xc_approver c), au_surface = ''thread'', au_thread = pr_thread p,
                        au_outcome = ''denied'',
                        au_detail = [(''decision'', JStr decision), (''authority'', JDict (to_audit verdict))]\<rparr> s))
               else case (if decision = ''approved'' then verify_params_hash (xe_auth env) p (xc_hash c) else None) of
                 Some e \<Rightarrow> (DecideFailed (hash_status e) e, s)
               | None \<Rightarrow>
                   case decide_proposal (store_env env) (xc_stamp c) (xc_proposal c)
                          (if decision = ''approved'' then PsApproved else PsDenied) (format_caller (xc_approver c)) reason
                          (to_audit verdict) s of
                     (Inl e, s') \<Rightarrow> (DecideFailed (execute_status (ExStore e)) (ExStore e), s')
                   | (Inr updated, s') \<Rightarrow>
                       if decision = ''approved'' \<and> execute
                       then (case execute_proposal env (c\<lparr>xc_approve := False\<rparr>) s' of
                               (Inl e, s'') \<Rightarrow> (DecideFailed (execute_status e) e, s'')
                             | (Inr r, s'') \<Rightarrow>
                                 (DecidedAndRun (case get_proposal (xc_proposal c) s'' of Some q \<Rightarrow> q | None \<Rightarrow> updated) r, s''))
                       else (Decided updated, s'))"

section \<open>After a restart\<close>

definition interrupted_reason :: string where
  "interrupted_reason = ''Interrupted by backend restart; not retried automatically to prevent duplicate side effects.''"

text \<open>A failed transition or message is skipped; \<open>message_id\<close> is the identifier drawn for a proposal's message.\<close>

fun reconcile_each ::
    "proposal_env \<Rightarrow> string \<Rightarrow> (string \<Rightarrow> string) \<Rightarrow> proposal list \<Rightarrow> proposal_store \<Rightarrow> string list \<times> proposal_store" where
  "reconcile_each env now message_id [] s = ([], s)"
| "reconcile_each env now message_id (p # ps) s =
     (case transition_proposal_state env now (pr_id p) PsFailed [] interrupted_reason s of
        (Inl _, s1) \<Rightarrow> reconcile_each env now message_id ps s1
      | (Inr _, s1) \<Rightarrow>
          let cs = snd (add_message (pe_redact env) (pr_thread p)
                \<lparr>po_message_id = message_id (pr_id p), po_now = now, po_author_kind = ''system'', po_author = ''system'',
                 po_kind = ''text'',
                 po_body = ''Proposal '' @ [CHR 0x27] @ pr_action p @ [CHR 0x27] @ '' ('' @ pr_id p
                   @ '') was executing when the backend restarted. ''
                   @ ''It was marked failed without automatic retry to prevent duplicate side effects. ''
                   @ ''Please verify external state before re-proposing.'',
                 po_meta = [(''interrupted_proposal_id'', JStr (pr_id p)), (''action'', JStr (pr_action p)),
                   (''failure_class'', JStr ''interrupted_by_restart''), (''system_action'', JStr ''proposal_recovery'')],
                 po_run_id = [], po_idempotency_key = None, po_delivery = ''complete'', po_turn_epoch = None\<rparr>
                (ps_conv s1));
              s2 = snd (record_audit (Some False)
                \<lparr>au_action = ''proposal_reconcile'', au_target = ''proposal:'' @ pr_id p, au_principal = ''system'',
                 au_surface = ''scheduler'', au_thread = pr_thread p, au_outcome = ''failed'',
                 au_detail = [(''proposal_id'', JStr (pr_id p)), (''action'', JStr (pr_action p)),
                   (''previous_state'', JStr ''executing''), (''failure_class'', JStr ''interrupted_by_restart'')]\<rparr>
                (s1\<lparr>ps_conv := cs\<rparr>));
              (ids, s3) = reconcile_each env now message_id ps s2
          in (pr_id p # ids, s3))"

definition list_executing :: "proposal_store \<Rightarrow> proposal list" where
  "list_executing s = sort_key (\<lambda>p. (pr_thread p, pr_created_at p)) (filter (\<lambda>p. pr_state p = PsExecuting) (ps_rows s))"

definition reconcile_executing_proposals ::
    "proposal_env \<Rightarrow> string \<Rightarrow> (string \<Rightarrow> string) \<Rightarrow> proposal_store \<Rightarrow> string list \<times> proposal_store" where
  "reconcile_executing_proposals env now message_id s = reconcile_each env now message_id (list_executing s) s"

text \<open>One transition to failed, whatever its result.\<close>

lemma interrupt_row:
  assumes "transition_proposal_state env now (pr_id p) PsFailed [] rsn s = (res, s')" and "keyed pr_id (ps_rows s)"
    and "get_proposal (pr_id p) s = Some p" and "pr_state p = PsExecuting"
  shows "keyed pr_id (ps_rows s')"
    and "\<And>q. get_proposal q s' = (if q = pr_id p then get_proposal q s' else get_proposal q s)"
    and "\<exists>p'. get_proposal (pr_id p) s' = Some p' \<and> pr_state p' = PsFailed"
proof -
  from assms(1,2) have "keyed pr_id (ps_rows s') \<and> (\<forall>q. q \<noteq> pr_id p \<longrightarrow> get_proposal q s' = get_proposal q s) \<and>
    (\<exists>p'. get_proposal (pr_id p) s' = Some p' \<and> pr_state p' = PsFailed)"
  proof (cases rule: transition_cases)
    case (refused err)
    with assms show ?thesis
      by (auto simp: transition_proposal_state_def write_state_eq [OF assms(2,3)] audited_eq Let_def split: if_splits)
  next
    case (written r r')
    from lookup_moved [OF written(1,2,4)] keyed_moved [OF assms(2) written(1,2)] written show ?thesis by auto
  qed
  then show "keyed pr_id (ps_rows s')" and "\<exists>p'. get_proposal (pr_id p) s' = Some p' \<and> pr_state p' = PsFailed"
    and "\<And>q. get_proposal q s' = (if q = pr_id p then get_proposal q s' else get_proposal q s)" by auto
qed

lemma reconcile_each_rows:
  assumes "reconcile_each env now mid ps s = (ids, s')" and "keyed pr_id (ps_rows s)" and "distinct (map pr_id ps)"
    and "\<forall>p \<in> set ps. get_proposal (pr_id p) s = Some p \<and> pr_state p = PsExecuting"
  shows "keyed pr_id (ps_rows s') \<and>
    (\<forall>q \<in> pr_id ` set ps. \<exists>p'. get_proposal q s' = Some p' \<and> pr_state p' = PsFailed) \<and>
    (\<forall>q. q \<notin> pr_id ` set ps \<longrightarrow> get_proposal q s' = get_proposal q s)"
  using assms
proof (induction ps arbitrary: s ids)
  case Nil
  then show ?case by simp
next
  case (Cons p ps)
  obtain res s1 where t: "transition_proposal_state env now (pr_id p) PsFailed [] interrupted_reason s = (res, s1)"
    by (cases "transition_proposal_state env now (pr_id p) PsFailed [] interrupted_reason s")
  from Cons.prems have p: "get_proposal (pr_id p) s = Some p" "pr_state p = PsExecuting" by auto
  note row = interrupt_row [OF t Cons.prems(2) p]
  obtain s2 ids2 where r: "reconcile_each env now mid ps s2 = (ids2, s')" and s2: "ps_rows s2 = ps_rows s1"
    using Cons.prems(1) t by (cases res) (auto simp: Let_def split: prod.splits)
  have g: "get_proposal q s2 = get_proposal q s1" for q by (simp add: get_proposal_def s2)
  have other: "get_proposal q s2 = get_proposal q s" if "q \<noteq> pr_id p" for q using row(2) [of q] that g by simp
  have "keyed pr_id (ps_rows s2)" "distinct (map pr_id ps)"
    using row(1) s2 Cons.prems(3) by simp_all
  moreover have "\<forall>x \<in> set ps. get_proposal (pr_id x) s2 = Some x \<and> pr_state x = PsExecuting"
  proof
    fix x assume x: "x \<in> set ps"
    then have "pr_id x \<in> pr_id ` set ps" by simp
    then have "pr_id x \<noteq> pr_id p" using Cons.prems(3) by auto
    with x other Cons.prems(4) show "get_proposal (pr_id x) s2 = Some x \<and> pr_state x = PsExecuting" by simp
  qed
  ultimately have IH: "keyed pr_id (ps_rows s') \<and>
      (\<forall>q \<in> pr_id ` set ps. \<exists>p'. get_proposal q s' = Some p' \<and> pr_state p' = PsFailed) \<and>
      (\<forall>q. q \<notin> pr_id ` set ps \<longrightarrow> get_proposal q s' = get_proposal q s2)"
    using Cons.IH [OF r] by blast
  then have "\<exists>p'. get_proposal (pr_id p) s' = Some p' \<and> pr_state p' = PsFailed"
    using row(3) g Cons.prems(3) by auto
  with IH other show ?case by auto
qed

text \<open>After the repair no proposal is executing: the interrupted ones are failed, also where an audit write or a
  message fails, and no other proposal is touched.
\<close>

theorem restart_clears_executing:
  assumes "keyed pr_id (ps_rows s)"
  shows "case get_proposal pid (snd (reconcile_executing_proposals env now mid s)) of
      None \<Rightarrow> get_proposal pid s = None
    | Some p' \<Rightarrow> pr_state p' \<noteq> PsExecuting \<and>
        (case get_proposal pid s of None \<Rightarrow> False
         | Some p \<Rightarrow> if pr_state p = PsExecuting then pr_state p' = PsFailed else p' = p)"
proof -
  obtain ids s' where r: "reconcile_each env now mid (list_executing s) s = (ids, s')"
    by (cases "reconcile_each env now mid (list_executing s) s")
  have mem: "p \<in> set (list_executing s) \<longleftrightarrow> get_proposal (pr_id p) s = Some p \<and> pr_state p = PsExecuting" for p
    using assms by (auto simp: list_executing_def get_proposal_def row_lookup_Some_iff)
  have "distinct (map pr_id (filter (\<lambda>p. pr_state p = PsExecuting) (ps_rows s)))"
    using assms by (simp add: keyed_def distinct_map_filter)
  then have "distinct (map pr_id (list_executing s))" by (simp add: list_executing_def distinct_map)
  from reconcile_each_rows [OF r assms this] mem
  have failed: "\<forall>q \<in> pr_id ` set (list_executing s). \<exists>p'. get_proposal q s' = Some p' \<and> pr_state p' = PsFailed"
    and rest: "\<forall>q. q \<notin> pr_id ` set (list_executing s) \<longrightarrow> get_proposal q s' = get_proposal q s" by blast+
  have "pid \<in> pr_id ` set (list_executing s) \<longleftrightarrow> (\<exists>p. get_proposal pid s = Some p \<and> pr_state p = PsExecuting)"
    using mem by (auto simp: image_iff get_proposal_def dest: row_lookup_SomeD)
  with failed rest have "if \<exists>p. get_proposal pid s = Some p \<and> pr_state p = PsExecuting
      then \<exists>p'. get_proposal pid s' = Some p' \<and> pr_state p' = PsFailed else get_proposal pid s' = get_proposal pid s"
    by auto
  then show ?thesis by (auto simp: reconcile_executing_proposals_def r split: option.splits if_splits)
qed

lemma restart_clears_executing_witness:
  "case get_proposal ''p'' (snd (reconcile_executing_proposals sample_env ''9'' id
        ((sample_proposals [sample_proposal ''p'' PsExecuting])\<lparr>ps_faults := [True]\<rparr>))) of
      None \<Rightarrow> get_proposal ''p'' ((sample_proposals [sample_proposal ''p'' PsExecuting])\<lparr>ps_faults := [True]\<rparr>) = None
    | Some p' \<Rightarrow> pr_state p' \<noteq> PsExecuting \<and>
        (case get_proposal ''p'' ((sample_proposals [sample_proposal ''p'' PsExecuting])\<lparr>ps_faults := [True]\<rparr>) of
           None \<Rightarrow> False
         | Some p \<Rightarrow> if pr_state p = PsExecuting then pr_state p' = PsFailed else p' = p)"
  by (rule restart_clears_executing) (simp add: sample_proposals_def keyed_def)

section \<open>What reaches an executor\<close>

lemma other_parts:
  "xe_auth (env\<lparr>xe_run := f\<rparr>) = xe_auth env" "xe_redact (env\<lparr>xe_run := f\<rparr>) = xe_redact env"
  "xe_verify (env\<lparr>xe_run := f\<rparr>) = xe_verify env" "xe_dumps (env\<lparr>xe_run := f\<rparr>) = xe_dumps env"
  by simp_all

lemma store_env_run: "store_env (env\<lparr>xe_run := f\<rparr>) = store_env env"
  by (simp add: store_env_def)

lemma admit_run [simp]: "admit (env\<lparr>xe_run := f\<rparr>) c s = admit env c s"
  unfolding admit_def reject_after_def store_env_run other_parts by (rule refl)

lemma start_run [simp]: "start (env\<lparr>xe_run := f\<rparr>) c p s = start env c p s"
  unfolding start_def store_env_run other_parts by (rule refl)

lemma end_run_run [simp]: "end_run (env\<lparr>xe_run := f\<rparr>) c p r s = end_run env c p r s"
  unfolding end_run_def post_result_def store_env_run other_parts by (rule refl)

lemma verify_result_run [simp]: "verify_result (env\<lparr>xe_run := f\<rparr>) p ctx r s = verify_result env p ctx r s"
  unfolding verify_result_def other_parts by (rule refl)

text \<open>What the checks have established when they let a call pass.\<close>

lemma admit_cases:
  assumes "admit env c s = (Admitted p a role, s1)"
  shows "s1 = s" and "get_proposal (xc_proposal c) s = Some p" and "pr_state p = PsApproved \<or> pr_state p = PsProposed"
    and "xc_hash c \<noteq> []" and "ae_hash (xe_auth env) (pr_action p) (pr_params p) = Some (xc_hash c)"
    and "registry_get (ae_registry (xe_auth env)) (pr_action p) = Some a"
    and "check_approval_policy (ae_time (xe_auth env)) (xc_now c) (Some a) p (xc_approver c) = None"
  using assms
  by (auto simp: admit_def reject_after_def verify_params_hash_def Let_def split: option.splits if_splits prod.splits sum.splits)

lemma execute_run_cong:
  assumes "\<And>p a role ctx st. admit env c s = (Admitted p a role, s) \<Longrightarrow>
      f (pr_action p) (pr_params p) ctx st = xe_run env (pr_action p) (pr_params p) ctx st"
  shows "execute_proposal (env\<lparr>xe_run := f\<rparr>) c s = execute_proposal env c s"
proof (cases "admit env c s")
  case (Pair res s1)
  show ?thesis
  proof (cases res)
    case (Admitted p a role)
    with Pair have adm: "admit env c s = (Admitted p a role, s)" using admit_cases(1) [of env c s p a role s1] by simp
    have "run_action (env\<lparr>xe_run := f\<rparr>) c p role st = run_action env c p role st" for st
      using assms [OF adm] by (simp add: run_action_def Let_def split: prod.split sum.split)
    then show ?thesis by (simp add: execute_proposal_def adm split: prod.split option.split)
  qed (simp_all add: execute_proposal_def Pair)
qed

lemma policy_passed:
  assumes "check_approval_policy read_time now (Some a) p approver = None"
  shows "is_owner (Some approver) \<or> (ad_risk a \<notin> set owner_approved_risks \<and>
    principal_has_scope approver ''staff.approve'' \<and> principal_has_scope approver (ad_required_scope a))"
  using assms
  by (auto simp: check_approval_policy_def evaluate_approval_authority_def execution_query_def deny_def Let_def
      split: if_splits)

definition may_run :: "principal \<Rightarrow> action_spec \<Rightarrow> bool" where
  "may_run who a = (is_owner (Some who) \<or> (ad_risk a \<notin> set owner_approved_risks \<and>
     principal_has_scope who ''staff.approve'' \<and> principal_has_scope who (ad_required_scope a)))"

text \<open>C20: A call depends on the executors only where it may use them: on the action and parameters whose hash was
  reviewed, of a registered action whose risk and scope the approver covers. No other executor is reached.
\<close>

theorem executor_guarded:
  assumes "\<And>name params a ctx st. ae_hash (xe_auth env) name params = Some (xc_hash c) \<Longrightarrow>
      registry_get (ae_registry (xe_auth env)) name = Some a \<Longrightarrow> may_run (xc_approver c) a \<Longrightarrow>
      f name params ctx st = xe_run env name params ctx st"
  shows "execute_proposal (env\<lparr>xe_run := f\<rparr>) c s = execute_proposal env c s"
proof (rule execute_run_cong)
  fix p a role ctx st
  assume adm: "admit env c s = (Admitted p a role, s)"
  from policy_passed [OF admit_cases(7) [OF adm]] have "may_run (xc_approver c) a" by (simp add: may_run_def)
  with assms admit_cases(5,6) [OF adm]
  show "f (pr_action p) (pr_params p) ctx st = xe_run env (pr_action p) (pr_params p) ctx st" by blast
qed

definition sample_registry :: action_registry where
  "sample_registry = register_spec \<lparr>ad_name = ''stop'', ad_required_scope = ''staff.dispatch'', ad_risk = ''high''\<rparr>
     (register_spec \<lparr>ad_name = ''note'', ad_required_scope = ''staff.chat'', ad_risk = ''low''\<rparr> [])"

definition sample_auth :: authority_env where
  "sample_auth = \<lparr>ae_time = sample_time, ae_registry = sample_registry, ae_roles = (\<lambda>_. None), ae_repr = (\<lambda>_. []),
     ae_hash = (\<lambda>name params. Some (CHR ''#'' # name))\<rparr>"

definition sample_result :: "bool \<Rightarrow> action_result" where
  "sample_result ok = \<lparr>ar_success = ok, ar_result = JNull, ar_run_id = None, ar_error = (if ok then None else Some ''down''),
     ar_failure_class = None, ar_verification_ok = True, ar_verification_message = []\<rparr>"

definition sample_exec :: "bool \<Rightarrow> exec_env" where
  "sample_exec ok = \<lparr>xe_redact = id, xe_auth = sample_auth, xe_run = (\<lambda>_ _ _ s. (Inr (sample_result ok), s)),
     xe_verify = (\<lambda>_. None), xe_dumps = (\<lambda>_. [])\<rparr>"

definition operator_ann :: principal where
  "operator_ann = \<lparr>pn_id = ''ann'', pn_type = ''human'', pn_name = ''Ann'', pn_roles = [''operator''], pn_scopes = []\<rparr>"

definition sample_call :: exec_call where
  "sample_call = \<lparr>xc_proposal = ''p'', xc_approver = operator_ann, xc_approve = False, xc_hash = ''#note'', xc_now = 5,
     xc_stamp = ''5'', xc_message_id = ''m9''\<rparr>"

definition raising :: "string \<Rightarrow> (string, json) dict \<Rightarrow> action_context \<Rightarrow> proposal_store \<Rightarrow> (string + action_result) \<times> proposal_store" where
  "raising name params ctx s = (if name = ''note'' then (Inr (sample_result True), s) else (Inl ''reached'', s))"

lemma executor_guarded_witness:
  "execute_proposal ((sample_exec True)\<lparr>xe_run := raising\<rparr>) sample_call (sample_proposals [sample_proposal ''p'' PsApproved])
     = execute_proposal (sample_exec True) sample_call (sample_proposals [sample_proposal ''p'' PsApproved])"
proof (rule executor_guarded)
  fix name params a ctx st
  assume "ae_hash (xe_auth (sample_exec True)) name params = Some (xc_hash sample_call)"
  then show "raising name params ctx st = xe_run (sample_exec True) name params ctx st"
    by (simp add: sample_exec_def sample_auth_def sample_call_def raising_def)
qed

text \<open>Where the action is registered, the thread has not moved on and the preview's hash is sent back, execution
  admits an approved proposal (or, when it may approve, a pending one) exactly for the callers to whom the
  preview says that they may approve.
\<close>

theorem preview_agrees:
  assumes "get_proposal (xc_proposal c) s = Some p" and "registry_get (ae_registry (xe_auth env)) (pr_action p) = Some a"
    and "\<not> stale_epoch p s" and "pr_state p = PsApproved \<or> (xc_approve c \<and> pr_state p = PsProposed)"
    and "build_proposal_preview (xe_auth env) (xc_now c) p (xc_approver c) s = Some (allowed, reason, xc_hash c)"
    and "xc_hash c \<noteq> []"
  shows "(\<exists>role. admit env c s = (Admitted p a role, s)) \<longleftrightarrow> allowed"
proof -
  define role where "role = proposing_role_of (ae_repr (xe_auth env)) p s"
  define q where "q = \<lparr>aq_include_state = True,
    aq_role_permitted = (False \<or> role = [] \<or> check_role_permission (ae_roles (xe_auth env)) (Some a) role),
    aq_proposing_role = role, aq_ignore_expiry = False\<rparr>"
  have hash: "verify_params_hash (xe_auth env) p (xc_hash c) = None"
    and allowed: "allowed = at_allowed (evaluate_approval_authority (ae_time (xe_auth env)) (xc_now c) (Some a) p (xc_approver c) q)"
    using assms(2,5,6)
    by (auto simp: build_proposal_preview_def verify_params_hash_def evaluate_caller_authority_def Let_def q_def role_def
        split: option.splits)
  have "allowed \<longleftrightarrow> \<not> is_proposal_expired (ae_time (xe_auth env)) (xc_now c) p \<and> aq_role_permitted q \<and>
      check_approval_policy (ae_time (xe_auth env)) (xc_now c) (Some a) p (xc_approver c) = None"
    using assms(4) unfolding allowed
    by (auto simp: evaluate_approval_authority_def check_approval_policy_def execution_query_def deny_def Let_def q_def
        decidable_states_def)
  moreover have "(\<exists>role. admit env c s = (Admitted p a role, s)) \<longleftrightarrow>
      \<not> is_proposal_expired (ae_time (xe_auth env)) (xc_now c) p \<and> aq_role_permitted q \<and>
      check_approval_policy (ae_time (xe_auth env)) (xc_now c) (Some a) p (xc_approver c) = None"
    using assms(1-4) hash
    by (auto simp: admit_def q_def role_def [symmetric] Let_def reject_after_def split: option.splits prod.splits sum.splits)
  ultimately show ?thesis by simp
qed

lemma preview_agrees_witness:
  "(\<exists>role. admit (sample_exec True) sample_call (sample_proposals [sample_proposal ''p'' PsApproved])
      = (Admitted (sample_proposal ''p'' PsApproved) \<lparr>ad_name = ''note'', ad_required_scope = ''staff.chat'', ad_risk = ''low''\<rparr> role,
         sample_proposals [sample_proposal ''p'' PsApproved])) \<longleftrightarrow> True"
proof (rule preview_agrees)
  show "build_proposal_preview (xe_auth (sample_exec True)) (xc_now sample_call) (sample_proposal ''p'' PsApproved)
      (xc_approver sample_call) (sample_proposals [sample_proposal ''p'' PsApproved])
        = Some (True, None, xc_hash sample_call)" by code_simp
  show "registry_get (ae_registry (xe_auth (sample_exec True))) (pr_action (sample_proposal ''p'' PsApproved))
      = Some \<lparr>ad_name = ''note'', ad_required_scope = ''staff.chat'', ad_risk = ''low''\<rparr>" by code_simp
  show "\<not> stale_epoch (sample_proposal ''p'' PsApproved) (sample_proposals [sample_proposal ''p'' PsApproved])" by code_simp
  show "get_proposal (xc_proposal sample_call) (sample_proposals [sample_proposal ''p'' PsApproved])
      = Some (sample_proposal ''p'' PsApproved)" by code_simp
qed (simp_all add: sample_proposal_def sample_call_def)

section \<open>Runs and approvals\<close>

definition approved_bit :: "string \<Rightarrow> proposal_store \<Rightarrow> nat" where
  "approved_bit pid s = (case get_proposal pid s of None \<Rightarrow> 0 | Some p \<Rightarrow> if pr_state p = PsApproved then 1 else 0)"

definition book_approval :: "string \<Rightarrow> proposal_store \<Rightarrow> proposal_store \<Rightarrow> string list \<Rightarrow> string list" where
  "book_approval pid s s' as = (if approved_bit pid s < approved_bit pid s' then pid # as else as)"

text \<open>
  The store with the approvals given and the runs begun. The checks of a call and its start are one step here:
  no other call for the same proposal comes in between. What an executor does to the store are steps of
  their own.
\<close>

type_synonym exec_world = "proposal_store \<times> string list \<times> string list"

inductive exec_step :: "exec_env \<Rightarrow> exec_world \<Rightarrow> exec_world \<Rightarrow> bool" for env where
  proposed: "create_proposal (store_env env) now fresh q s = (res, s') \<Longrightarrow> exec_step env (s, as, rs) (s', as, rs)"
| decided: "decide_route env c decision reason False s = (resp, s') \<Longrightarrow>
     exec_step env (s, as, rs) (s', book_approval (xc_proposal c) s s' as, rs)"
| denied: "decide_proposal (store_env env) now pid PsDenied by reason auth s = (res, s') \<Longrightarrow>
     exec_step env (s, as, rs) (s', as, rs)"
| turned_away: "admit env c s = (out, s') \<Longrightarrow> \<forall>p a role. out \<noteq> Admitted p a role \<Longrightarrow>
     exec_step env (s, as, rs) (s', as, rs)"
| launched: "admit env c s = (Admitted p a role, s) \<Longrightarrow> start env c p s = (res, s') \<Longrightarrow>
     as' = (if pr_state p = PsProposed
            then book_approval (pr_id p) s (snd (decide_proposal (store_env env) (xc_stamp c) (xc_proposal c) PsApproved
                   (format_caller (xc_approver c)) [] [] s)) as
            else as) \<Longrightarrow>
     exec_step env (s, as, rs) (s', as', if res = None then pr_id p # rs else rs)"
| ended: "transition_proposal_state (store_env env) now pid state by reason s = (res, s') \<Longrightarrow>
     state \<in> {PsDone, PsFailed} \<Longrightarrow> exec_step env (s, as, rs) (s', as, rs)"
| said: "exec_step env (s, as, rs) (s\<lparr>ps_conv := cs\<rparr>, as, rs)"
| noted: "exec_step env (s, as, rs) (snd (record_audit mode a s), as, rs)"

inductive_cases exec_stepE: "exec_step env (s, as, rs) w"

definition runs_booked :: "exec_world \<Rightarrow> bool" where
  "runs_booked w = (case w of (s, as, rs) \<Rightarrow>
     keyed pr_id (ps_rows s) \<and> (\<forall>pid. count_list rs pid + approved_bit pid s \<le> count_list as pid))"

lemma bit_same [simp]:
  "approved_bit pid (s\<lparr>ps_conv := cs\<rparr>) = approved_bit pid s"
  "approved_bit pid (snd (record_audit mode a s)) = approved_bit pid s"
  by (simp_all add: approved_bit_def get_proposal_def)

lemma bit_moved:
  assumes "get_proposal pid s = Some p" and "row_move p p'" and "ps_rows s' = row_update pr_id pid (\<lambda>_. p') (ps_rows s)"
  shows "approved_bit qid s' = (if qid = pid then (if pr_state p' = PsApproved then 1 else 0) else approved_bit qid s)"
  using lookup_moved [OF assms] by (simp add: approved_bit_def)

lemma create_bit:
  assumes "create_proposal env now fresh q s = (res, s')"
  shows "approved_bit pid s' = approved_bit pid s" and "keyed pr_id (ps_rows s) \<Longrightarrow> keyed pr_id (ps_rows s')"
  using assms
  by (cases rule: create_cases; auto simp: approved_bit_def get_proposal_def row_lookup_append keyed_append1
      split: option.splits)+

lemma transition_bit:
  assumes "transition_proposal_state env now pid new by rsn s = (res, s')" and "keyed pr_id (ps_rows s)" and "new \<noteq> PsApproved"
  shows "keyed pr_id (ps_rows s')" and "approved_bit q s' \<le> approved_bit q s"
    and "res = Inr r \<Longrightarrow> approved_bit pid s' = 0"
proof -
  from assms(1,2) have "keyed pr_id (ps_rows s') \<and> approved_bit q s' \<le> approved_bit q s \<and>
    (res = Inr r \<longrightarrow> approved_bit pid s' = 0)"
  proof (cases rule: transition_cases)
    case (written p p')
    from bit_moved [OF written(1,2,4)] keyed_moved [OF assms(2) written(1,2)] written assms(3) show ?thesis by simp
  qed (use assms in simp)
  then show "keyed pr_id (ps_rows s')" and "approved_bit q s' \<le> approved_bit q s"
    and "res = Inr r \<Longrightarrow> approved_bit pid s' = 0" by auto
qed

lemma decide_bit:
  assumes "decide_proposal env now pid state by rsn auth s = (res, s')" and "keyed pr_id (ps_rows s)"
  shows "keyed pr_id (ps_rows s')" and "q \<noteq> pid \<Longrightarrow> approved_bit q s' = approved_bit q s"
    and "approved_bit pid s' \<le> 1" and "state \<noteq> PsApproved \<Longrightarrow> approved_bit pid s' \<le> approved_bit pid s"
proof -
  from assms have "keyed pr_id (ps_rows s') \<and> (q \<noteq> pid \<longrightarrow> approved_bit q s' = approved_bit q s) \<and>
    approved_bit pid s' \<le> 1 \<and> (state \<noteq> PsApproved \<longrightarrow> approved_bit pid s' \<le> approved_bit pid s)"
  proof (cases rule: decide_cases)
    case (written p p')
    from bit_moved [OF written(1,2,7)] keyed_moved [OF assms(2) written(1,2)] written show ?thesis by simp
  qed (use assms in \<open>simp add: approved_bit_def split: option.split\<close>)
  then show "keyed pr_id (ps_rows s')" and "q \<noteq> pid \<Longrightarrow> approved_bit q s' = approved_bit q s"
    and "approved_bit pid s' \<le> 1" and "state \<noteq> PsApproved \<Longrightarrow> approved_bit pid s' \<le> approved_bit pid s" by auto
qed

text \<open>An approval is booked where the bit comes up, so the balance survives a decision.\<close>

lemma decide_booked:
  assumes "decide_proposal env now pid state by rsn auth s = (res, s')" and "runs_booked (s, as, rs)"
  shows "runs_booked (s', book_approval pid s s' as, rs)"
proof -
  from assms(2) have k: "keyed pr_id (ps_rows s)" and b: "\<And>q. count_list rs q + approved_bit q s \<le> count_list as q"
    by (auto simp: runs_booked_def)
  note d = decide_bit [OF assms(1) k]
  have "count_list rs q + approved_bit q s' \<le> count_list (book_approval pid s s' as) q" for q
    using b [of q] d(2) [of q] d(3) by (cases "q = pid") (auto simp: book_approval_def)
  with d(1) show ?thesis by (simp add: runs_booked_def)
qed

lemma booked_fewer:
  assumes "runs_booked (s, as, rs)" and "keyed pr_id (ps_rows s')" and "\<And>q. approved_bit q s' \<le> approved_bit q s"
  shows "runs_booked (s', as, rs)"
proof -
  have "count_list rs q + approved_bit q s' \<le> count_list as q" for q
    using assms(1) assms(3) [of q] by (auto simp: runs_booked_def intro: order_trans [OF add_left_mono])
  with assms(2) show ?thesis by (simp add: runs_booked_def)
qed

lemma transition_booked:
  assumes "transition_proposal_state env now pid new by rsn s = (res, s')" and "runs_booked (s, as, rs)"
    and "new \<noteq> PsApproved"
  shows "runs_booked (s', as, rs)"
proof -
  from assms(2) have k: "keyed pr_id (ps_rows s)" by (simp add: runs_booked_def)
  from transition_bit(1,2) [OF assms(1) k assms(3)] show ?thesis by (rule booked_fewer [OF assms(2)])
qed

lemma begin_booked:
  assumes "transition_proposal_state env now pid PsExecuting by rsn s = (Inr r, s')" and "runs_booked (s, as, rs)"
    and "approved_bit pid s = 1"
  shows "runs_booked (s', as, pid # rs)"
proof -
  from assms(2) have k: "keyed pr_id (ps_rows s)" and b: "\<And>q. count_list rs q + approved_bit q s \<le> count_list as q"
    by (auto simp: runs_booked_def)
  have "count_list (pid # rs) q + approved_bit q s' \<le> count_list as q" for q
    using b [of q] transition_bit(2) [OF assms(1) k, of q] transition_bit(3) [OF assms(1) k, of r] assms(3)
    by (cases "q = pid") auto
  with transition_bit(1) [OF assms(1) k] show ?thesis by (simp add: runs_booked_def)
qed

lemma route_cases:
  assumes "decide_route env c decision reason False s = (resp, s')"
  obtains (kept) "ps_rows s' = ps_rows s"
  | (decided) state auth res where "decide_proposal (store_env env) (xc_stamp c) (xc_proposal c) state
       (format_caller (xc_approver c)) reason auth s = (res, s')"
  using assms
  by (auto simp: decide_route_def Let_def split: if_splits option.splits prod.splits sum.splits)

lemma admit_moves:
  assumes "admit env c s = (out, s')"
  obtains (kept) "s' = s"
  | (moved) state rsn res where "transition_proposal_state (store_env env) (xc_stamp c) (xc_proposal c) state [] rsn s = (res, s')"
      "state \<in> {PsExpired, PsFailed}"
proof -
  have rej: "\<exists>res. transition_proposal_state (store_env env) (xc_stamp c) (xc_proposal c) state [] rsn s = (res, s')"
    if "reject_after env c state rsn outcome s = (out, s')" for state rsn outcome
    using that by (auto simp: reject_after_def split: prod.splits sum.splits)
  have "s' = s \<or> (\<exists>state rsn outcome. state \<in> {PsExpired, PsFailed} \<and> reject_after env c state rsn outcome s = (out, s'))"
    using assms by (auto simp: admit_def Let_def split: option.splits if_splits)
  with rej that show ?thesis by blast
qed

lemma launch_booked:
  assumes "admit env c s = (Admitted p a role, s)" and "start env c p s = (res, s')" and "runs_booked (s, as, rs)"
    and "as' = (if pr_state p = PsProposed
           then book_approval (pr_id p) s (snd (decide_proposal (store_env env) (xc_stamp c) (xc_proposal c) PsApproved
                  (format_caller (xc_approver c)) [] [] s)) as
           else as)"
  shows "runs_booked (s', as', if res = None then pr_id p # rs else rs)"
proof -
  have p: "get_proposal (xc_proposal c) s = Some p" "pr_state p = PsApproved \<or> pr_state p = PsProposed"
    using admit_cases [OF assms(1)] by auto
  then have pid: "xc_proposal c = pr_id p" by (auto simp: get_proposal_def dest: row_lookup_SomeD)
  have launch: "runs_booked (s', bs, if res = None then pr_id p # rs else rs)"
    if "runs_booked (t, bs, rs)" "approved_bit (pr_id p) t = 1"
      "(case transition_proposal_state (store_env env) (xc_stamp c) (pr_id p) PsExecuting (format_caller (xc_approver c)) [] t of
          (Inl e, u) \<Rightarrow> (Some (ExStore e), u) | (Inr _, u) \<Rightarrow> (None, u)) = (res, s')" for t bs
  proof (cases "transition_proposal_state (store_env env) (xc_stamp c) (pr_id p) PsExecuting (format_caller (xc_approver c)) [] t")
    case (Pair r u)
    with that transition_booked [OF Pair that(1)] begin_booked [OF _ that(1,2)] show ?thesis by (cases r) auto
  qed
  show ?thesis
  proof (cases "pr_state p = PsProposed")
    case False
    with p pid have "approved_bit (pr_id p) s = 1" by (simp add: approved_bit_def)
    with launch [OF assms(3)] assms(2,4) False show ?thesis by (simp add: start_def pid)
  next
    case True
    obtain r t where d: "decide_proposal (store_env env) (xc_stamp c) (pr_id p) PsApproved (format_caller (xc_approver c)) [] [] s = (r, t)"
      by fastforce
    from decide_booked [OF d assms(3)] have t: "runs_booked (t, as', rs)" using assms(4) True by (simp add: pid d)
    show ?thesis
    proof (cases r)
      case (Inl e)
      with assms(2) True d t show ?thesis by (auto simp: start_def pid)
    next
      case (Inr u)
      from assms(3) have k: "keyed pr_id (ps_rows s)" by (simp add: runs_booked_def)
      from d k have "approved_bit (pr_id p) t = 1"
      proof (cases rule: decide_cases)
        case (written r' r'')
        from bit_moved [OF written(1,2,7)] written show ?thesis by simp
      qed (use Inr in simp)
      with launch [OF t] assms(2) True d Inr show ?thesis by (simp add: start_def pid)
    qed
  qed
qed

lemma exec_step_booked:
  assumes "exec_step env w w'" and "runs_booked w"
  shows "runs_booked w'"
  using assms
proof (cases rule: exec_step.cases)
  case (proposed now fresh q s res s' as rs)
  from create_bit [OF proposed(3)] assms(2) show ?thesis by (simp add: proposed runs_booked_def)
next
  case (decided c decision reason s resp s' as rs)
  from decided(3) show ?thesis
  proof (cases rule: route_cases)
    case kept
    then have "approved_bit pid s' = approved_bit pid s" for pid by (simp add: approved_bit_def get_proposal_def)
    with assms(2) kept show ?thesis by (simp add: decided runs_booked_def book_approval_def)
  next
    case (decided state auth res)
    from decide_booked [OF this] assms(2) show ?thesis by (simp add: \<open>w = _\<close> \<open>w' = _\<close>)
  qed
next
  case (denied now pid "by" reason auth s res s' as rs)
  from assms(2) have k: "keyed pr_id (ps_rows s)" by (simp add: denied runs_booked_def)
  note d = decide_bit [OF denied(3) k]
  have "approved_bit q s' \<le> approved_bit q s" for q using d(2) [of q] d(4) by (cases "q = pid") auto
  with booked_fewer [OF _ d(1)] assms(2) show ?thesis by (simp add: denied)
next
  case (turned_away c s out s' as rs)
  from turned_away(3) show ?thesis
  proof (cases rule: admit_moves)
    case (moved state rsn res)
    from transition_booked [OF moved(1)] assms(2) moved(2) show ?thesis by (auto simp: turned_away)
  qed (use assms(2) in \<open>simp add: turned_away\<close>)
next
  case (launched c s p a role res s' as' as rs)
  from launch_booked [OF launched(3,4) _ launched(5)] assms(2) show ?thesis by (simp add: launched(1,2))
next
  case (ended now pid state "by" reason s res s' as rs)
  from transition_booked [OF ended(3)] assms(2) ended(4) show ?thesis by (auto simp: ended(1,2))
qed (use assms in \<open>simp_all add: runs_booked_def\<close>)

text \<open>C21: As long as the checks and the start of a call are not interleaved with another call for the same proposal,
  a proposal is run at most as often as it was approved, whatever fails on the way.
\<close>

theorem runs_within_approvals:
  assumes "(exec_step env)\<^sup>*\<^sup>* (s, [], []) (s', as, rs)" and "keyed pr_id (ps_rows s)"
    and "\<forall>r \<in> set (ps_rows s). pr_state r \<noteq> PsApproved"
  shows "count_list rs pid \<le> count_list as pid"
proof -
  have "runs_booked (s, [], [])"
    using assms(2,3) by (auto simp: runs_booked_def approved_bit_def get_proposal_def dest: row_lookup_SomeD split: option.split)
  with assms(1) have "runs_booked (s', as, rs)"
    by (induction rule: rtranclp_induct) (auto intro: exec_step_booked)
  then show ?thesis by (auto simp: runs_booked_def intro: order_trans [OF le_add1])
qed

definition approving_call :: exec_call where
  "approving_call = sample_call\<lparr>xc_approve := True\<rparr>"

definition pending_store :: proposal_store where
  "pending_store = sample_proposals [sample_proposal ''p'' PsProposed]"

lemma runs_within_approvals_witness: "count_list [''p''] ''p'' \<le> count_list [''p''] ''p''"
proof (rule runs_within_approvals [of "sample_exec True" pending_store
      "snd (start (sample_exec True) approving_call (sample_proposal ''p'' PsProposed) pending_store)"])
  have adm: "admit (sample_exec True) approving_call pending_store = (Admitted (sample_proposal ''p'' PsProposed)
      \<lparr>ad_name = ''note'', ad_required_scope = ''staff.chat'', ad_risk = ''low''\<rparr> [], pending_store)" by code_simp
  have st: "start (sample_exec True) approving_call (sample_proposal ''p'' PsProposed) pending_store
      = (None, snd (start (sample_exec True) approving_call (sample_proposal ''p'' PsProposed) pending_store))" by code_simp
  have bk: "[''p''] = (if pr_state (sample_proposal ''p'' PsProposed) = PsProposed
      then book_approval (pr_id (sample_proposal ''p'' PsProposed)) pending_store
             (snd (decide_proposal (store_env (sample_exec True)) (xc_stamp approving_call) (xc_proposal approving_call)
               PsApproved (format_caller (xc_approver approving_call)) [] [] pending_store)) []
      else [])" by code_simp
  from exec_step.launched [OF adm st bk, of "[]"]
  show "(exec_step (sample_exec True))\<^sup>*\<^sup>* (pending_store, [], [])
      (snd (start (sample_exec True) approving_call (sample_proposal ''p'' PsProposed) pending_store), [''p''], [''p''])"
    by (simp add: sample_proposal_def r_into_rtranclp)
qed (simp_all add: pending_store_def sample_proposals_def sample_proposal_def keyed_def)

text \<open>Interleaved they are: a call that passed its checks while the proposal was approved starts it again after
  another call's run of it failed, without the new decision that a call made then would need.
\<close>

theorem late_start_reruns:
  assumes "admit env c s = (Admitted p a role, s)" and "pr_state p = PsApproved"
    and "get_proposal (xc_proposal c) s2 = Some p2" and "pr_state p2 = PsFailed"
    and "keyed pr_id (ps_rows s2)" and "ps_faults s2 = []"
  shows "(\<exists>s3. start env c p s2 = (None, s3)) \<and> (\<nexists>p' a' role' s'. admit env c s2 = (Admitted p' a' role', s'))"
proof
  have "\<exists>q s3. transition_proposal_state (store_env env) (xc_stamp c) (xc_proposal c) PsExecuting
      (format_caller (xc_approver c)) [] s2 = (Inr q, s3)"
    using assms(3-6) by (simp add: transition_proposal_state_def write_state_eq [OF assms(5,3)] audited_eq Let_def)
  then show "\<exists>s3. start env c p s2 = (None, s3)" using assms(2) by (auto simp: start_def)
  show "\<nexists>p' a' role' s'. admit env c s2 = (Admitted p' a' role', s')"
  proof
    assume "\<exists>p' a' role' s'. admit env c s2 = (Admitted p' a' role', s')"
    then obtain p' a' role' s' where "admit env c s2 = (Admitted p' a' role', s')" by blast
    from admit_cases(2,3) [OF this] assms(3,4) show False by auto
  qed
qed

definition approved_store :: proposal_store where
  "approved_store = sample_proposals [sample_proposal ''p'' PsApproved]"

definition rerun_store :: proposal_store where
  "rerun_store = snd (execute_proposal (sample_exec False) sample_call approved_store)"

lemma late_start_reruns_witness:
  "(\<exists>s3. start (sample_exec False) sample_call (sample_proposal ''p'' PsApproved) rerun_store = (None, s3)) \<and>
   (\<nexists>p' a' role' s'. admit (sample_exec False) sample_call rerun_store = (Admitted p' a' role', s'))"
proof (rule late_start_reruns)
  show "admit (sample_exec False) sample_call approved_store = (Admitted (sample_proposal ''p'' PsApproved)
      \<lparr>ad_name = ''note'', ad_required_scope = ''staff.chat'', ad_risk = ''low''\<rparr> [], approved_store)" by code_simp
  show "get_proposal (xc_proposal sample_call) rerun_store = Some ((sample_proposal ''p'' PsFailed)
      \<lparr>pr_decided_by := ''principal:ann'', pr_reason := ''down''\<rparr>)" by code_simp
  show "keyed pr_id (ps_rows rerun_store)" by code_simp
  show "ps_faults rerun_store = []" by code_simp
qed (simp_all add: sample_proposal_def)

end
