(* ===== verification/Decision_Sla.thy ===== *)
theory Decision_Sla
  imports Proposal_Execution
begin

text \<open>
  Decisions by silence, \<open>backend/staff/decision_sla.py\<close>: the walk over the overdue proposals and the default
  each of them names. The text of an exception and the identifiers of the messages are arguments; the store
  does not change while the pages of one walk are read.
\<close>

section \<open>The sweep\<close>

datatype sla_outcome = SlaDenied | SlaExecuted | SlaFailed | SlaRefused

fun sla_outcome_text :: "sla_outcome \<Rightarrow> string" where
  "sla_outcome_text SlaDenied = ''denied''"
| "sla_outcome_text SlaExecuted = ''executed''"
| "sla_outcome_text SlaFailed = ''failed''"
| "sla_outcome_text SlaRefused = ''refused''"

record decision_outcome =
  so_proposal :: string
  so_applied :: string
  so_outcome :: sla_outcome
  so_detail :: string

record sweep_env =
  sw_exec :: exec_env
  sw_now :: seconds
  sw_stamp :: string
  sw_message_id :: "string \<Rightarrow> string"
  sw_error_text :: "exec_error \<Rightarrow> string"

text \<open>No deadline, an unreadable one (the error of the outer option), or an instant.\<close>

definition deadline :: "(string \<Rightarrow> seconds option) \<Rightarrow> proposal \<Rightarrow> seconds option option" where
  "deadline read_time p =
     (case str_or (pr_decide_by p) None of
        None \<Rightarrow> Some None
      | Some d \<Rightarrow> (case read_time d of None \<Rightarrow> None | Some t \<Rightarrow> Some (Some t)))"

definition is_due :: "(string \<Rightarrow> seconds option) \<Rightarrow> seconds \<Rightarrow> proposal \<Rightarrow> bool" where
  "is_due read_time now p = (case deadline read_time p of Some (Some t) \<Rightarrow> t \<le> now | _ \<Rightarrow> False)"

definition due_time :: "(string \<Rightarrow> seconds option) \<Rightarrow> proposal \<Rightarrow> seconds" where
  "due_time read_time p = (case deadline read_time p of Some (Some t) \<Rightarrow> t | _ \<Rightarrow> 0)"

definition overdue_decisions :: "(string \<Rightarrow> seconds option) \<Rightarrow> seconds \<Rightarrow> int \<Rightarrow> proposal_store \<Rightarrow> proposal list option" where
  "overdue_decisions read_time now page s =
     (let pending = deadline_pages page PsProposed ([], []) (ps_rows s)
      in if list_ex (\<lambda>p. deadline read_time p = None) pending then None
         else Some (sort_key (due_time read_time) (filter (is_due read_time now) pending)))"

definition barb_approver :: "string \<Rightarrow> principal" where
  "barb_approver scope = \<lparr>pn_id = ''barb'', pn_type = ''bot'', pn_name = ''Barb'', pn_roles = [''barb''],
     pn_scopes = [''staff.approve'', scope]\<rparr>"

definition sla_call :: "sweep_env \<Rightarrow> proposal \<Rightarrow> string \<Rightarrow> string \<Rightarrow> exec_call" where
  "sla_call env p scope h = \<lparr>xc_proposal = pr_id p, xc_approver = barb_approver scope, xc_approve = True, xc_hash = h,
     xc_now = sw_now env, xc_stamp = sw_stamp env, xc_message_id = sw_message_id env (pr_id p)\<rparr>"

definition outcome_of :: "proposal \<Rightarrow> string \<Rightarrow> sla_outcome \<Rightarrow> string \<Rightarrow> decision_outcome" where
  "outcome_of p applied out detail =
     \<lparr>so_proposal = pr_id p, so_applied = applied, so_outcome = out, so_detail = detail\<rparr>"

definition sla_approve :: "sweep_env \<Rightarrow> proposal \<Rightarrow> proposal_store \<Rightarrow> decision_outcome \<times> proposal_store" where
  "sla_approve env p s =
     (let auth = xe_auth (sw_exec env);
          action = registry_get (ae_registry auth) (pr_action p);
          risk = (case action of Some a \<Rightarrow> ad_risk a | None \<Rightarrow> pr_risk p);
          refused = (\<lambda>e. outcome_of p ''approve'' SlaRefused (sw_error_text env e))
      in case action of
           None \<Rightarrow> (outcome_of p ''approve'' SlaRefused
              (''action '' @ [CHR 0x27] @ pr_action p @ [CHR 0x27] @ '' is risk '' @ [CHR 0x27] @ risk @ [CHR 0x27]), s)
         | Some a \<Rightarrow>
             if risk \<notin> set silent_approve_risks
             then (outcome_of p ''approve'' SlaRefused
                (''action '' @ [CHR 0x27] @ pr_action p @ [CHR 0x27] @ '' is risk '' @ [CHR 0x27] @ risk @ [CHR 0x27]), s)
             else case stored_params_hash auth (pr_id p) s of
               Inl e \<Rightarrow> (refused e, s)
             | Inr h \<Rightarrow>
                 (case execute_proposal (sw_exec env) (sla_call env p (ad_required_scope a) h) s of
                    (Inl e, s') \<Rightarrow> (refused e, s')
                  | (Inr r, s') \<Rightarrow>
                      (if ar_success r then outcome_of p ''approve'' SlaExecuted []
                       else outcome_of p ''approve'' SlaFailed (case ar_error r of Some e \<Rightarrow> e | None \<Rightarrow> []), s')))"

definition sla_deny :: "sweep_env \<Rightarrow> proposal \<Rightarrow> proposal_store \<Rightarrow> (proposal_error + decision_outcome) \<times> proposal_store" where
  "sla_deny env p s =
     (case decide_proposal (store_env (sw_exec env)) (sw_stamp env) (pr_id p) PsDenied ''barb''
             (''decision SLA: no owner decision by '' @ (case pr_decide_by p of Some d \<Rightarrow> d | None \<Rightarrow> ''None'')
                @ ''; default applied'') [] s of
        (Inl e, s') \<Rightarrow> (Inl e, s')
      | (Inr _, s') \<Rightarrow> (Inr (outcome_of p ''deny'' SlaDenied []), s'))"

definition sla_audit :: "proposal \<Rightarrow> decision_outcome \<Rightarrow> staff_audit" where
  "sla_audit p out =
     \<lparr>au_action = (if so_outcome out = SlaRefused then ''decision_default_refused'' else ''decision_default_applied''),
      au_target = pr_id p, au_principal = ''barb'', au_surface = ''barb'', au_thread = pr_thread p,
      au_outcome = (if so_outcome out \<in> {SlaDenied, SlaExecuted} then ''success'' else ''failure''),
      au_detail = [(''decide_by'', opt_str (pr_decide_by p)), (''default_if_silent'', JStr (pr_default p)),
        (''outcome'', JStr (sla_outcome_text (so_outcome out))), (''detail'', JStr (so_detail out))]\<rparr>"

definition apply_one :: "sweep_env \<Rightarrow> proposal \<Rightarrow> proposal_store \<Rightarrow> (proposal_error + decision_outcome) \<times> proposal_store" where
  "apply_one env p s =
     (if pr_default p = ''approve'' then (case sla_approve env p s of (out, s') \<Rightarrow> (Inr out, s'))
      else sla_deny env p s)"

fun apply_defaults ::
    "sweep_env \<Rightarrow> string set \<Rightarrow> proposal list \<Rightarrow> proposal_store \<Rightarrow>
     (proposal_error + decision_outcome list) \<times> proposal_store" where
  "apply_defaults env skip [] s = (Inr [], s)"
| "apply_defaults env skip (p # ps) s =
     (if pr_default p = [] \<or> pr_id p \<in> skip then apply_defaults env skip ps s
      else case apply_one env p s of
        (Inl e, s1) \<Rightarrow> (Inl e, s1)
      | (Inr out, s1) \<Rightarrow>
          (case record_audit None (sla_audit p out) s1 of
             (raised, s2) \<Rightarrow>
               if raised then (Inl AuditWriteFailed, s2)
               else case apply_defaults env skip ps s2 of
                 (Inl e, s3) \<Rightarrow> (Inl e, s3)
               | (Inr outs, s3) \<Rightarrow> (Inr (out # outs), s3)))"

definition apply_decision_defaults ::
    "sweep_env \<Rightarrow> string set \<Rightarrow> proposal_store \<Rightarrow> (proposal_error + decision_outcome list) \<times> proposal_store" where
  "apply_decision_defaults env skip s =
     (case overdue_decisions (ae_time (xe_auth (sw_exec env))) (sw_now env) 200 s of
        None \<Rightarrow> (Inl InvalidDeadline, s)
      | Some ps \<Rightarrow> apply_defaults env skip ps s)"

section \<open>Which proposals it sees\<close>

definition deadlines_readable :: "(string \<Rightarrow> seconds option) \<Rightarrow> proposal_store \<Rightarrow> bool" where
  "deadlines_readable read_time s = (\<forall>p \<in> set (ps_rows s). deadline read_time p \<noteq> None)"

lemma due_after_start:
  assumes "is_due read_time now p" and "pr_state p = PsProposed"
  shows "after_deadline PsProposed ([], []) p"
proof (cases "pr_decide_by p")
  case None
  with assms show ?thesis by (simp add: is_due_def deadline_def)
next
  case (Some d)
  with assms(1) have "d \<noteq> []" by (auto simp: is_due_def deadline_def)
  then have "[] < d" by (cases d) simp_all
  with Some assms(2) show ?thesis by (simp add: after_deadline_def deadline_key_def)
qed

text \<open>Whatever the size of a page, the walk finds each pending proposal whose deadline has passed, once, in the
  order of the deadlines.
\<close>

theorem overdue_complete:
  assumes "keyed pr_id (ps_rows s)" and "page \<noteq> 0" and "deadlines_readable read_time s"
  shows "\<exists>ps. overdue_decisions read_time now page s = Some ps \<and> distinct ps \<and>
     set ps = {p \<in> set (ps_rows s). pr_state p = PsProposed \<and> is_due read_time now p} \<and>
     sorted (map (due_time read_time) ps)"
proof -
  define pending where "pending = filter (after_deadline PsProposed ([], [])) (by_deadline (ps_rows s))"
  have pages: "deadline_pages page PsProposed ([], []) (ps_rows s) = pending"
    by (simp add: deadline_pages_all assms pending_def)
  have members: "set pending = {p \<in> set (ps_rows s). after_deadline PsProposed ([], []) p}"
    by (auto simp: pending_def by_deadline_def)
  have "\<not> list_ex (\<lambda>p. deadline read_time p = None) pending"
    using assms(3) members by (auto simp: deadlines_readable_def list_ex_iff)
  then have o: "overdue_decisions read_time now page s
      = Some (sort_key (due_time read_time) (filter (is_due read_time now) pending))"
    by (simp add: overdue_decisions_def pages)
  have "distinct (ps_rows s)" using assms(1) by (simp add: keyed_def distinct_map)
  then have "distinct pending" by (simp add: pending_def by_deadline_def)
  moreover have "set (filter (is_due read_time now) pending)
      = {p \<in> set (ps_rows s). pr_state p = PsProposed \<and> is_due read_time now p}"
    using members due_after_start by (auto simp: after_deadline_def)
  ultimately show ?thesis by (simp add: o del: set_filter)
qed

definition due_proposal :: "string \<Rightarrow> string \<Rightarrow> string \<Rightarrow> proposal" where
  "due_proposal pid at_time dflt = (sample_proposal pid PsProposed)\<lparr>pr_decide_by := Some at_time, pr_default := dflt\<rparr>"

definition sample_due :: proposal_store where
  "sample_due = sample_proposals [due_proposal ''a'' ''30'' ''deny'', due_proposal ''b'' ''10'' ''deny'',
     due_proposal ''c'' ''20'' ''approve'', sample_proposal ''d'' PsDone]"

lemma overdue_complete_witness:
  "\<exists>ps. overdue_decisions sample_time 25 1 sample_due = Some ps \<and> distinct ps \<and>
     set ps = {p \<in> set (ps_rows sample_due). pr_state p = PsProposed \<and> is_due sample_time 25 p} \<and>
     sorted (map (due_time sample_time) ps)"
proof (rule overdue_complete)
  show "keyed pr_id (ps_rows sample_due)" by code_simp
  show "deadlines_readable sample_time sample_due" unfolding deadlines_readable_def by code_simp
qed simp

section \<open>What silence may do\<close>

text \<open>No call rewrites the action of a proposal or removes one; executors and verifiers are taken to do neither.\<close>

definition same_actions :: "proposal_store \<Rightarrow> proposal_store \<Rightarrow> bool" where
  "same_actions s s' = (\<forall>pid p. get_proposal pid s = Some p \<longrightarrow>
     (\<exists>p'. get_proposal pid s' = Some p' \<and> pr_action p' = pr_action p))"

definition keeps_actions :: "exec_env \<Rightarrow> bool" where
  "keeps_actions env = (\<forall>name params ctx s. same_actions s (snd (xe_run env name params ctx s)) \<and>
     (\<forall>verify r. xe_verify env name = Some verify \<longrightarrow> same_actions s (snd (verify r params ctx s))))"

lemma same_actions_refl [simp]: "same_actions s s"
  by (simp add: same_actions_def)

lemma same_actions_trans: "same_actions s t \<Longrightarrow> same_actions t u \<Longrightarrow> same_actions s u"
  unfolding same_actions_def by metis

lemma same_actions_rows: "ps_rows s' = ps_rows s \<Longrightarrow> same_actions s s'"
  by (simp add: same_actions_def get_proposal_def)

lemma write_state_actions:
  assumes "write_state lost f a p s = (res, s')" and "\<And>r. pr_id (f r) = pr_id r \<and> pr_action (f r) = pr_action r"
  shows "same_actions s s'"
proof -
  have "ps_rows s' = snd (update_where (pr_id p) (pr_state p) f (ps_rows s))"
    using assms(1) audited_keeps(1) by (fastforce simp: write_state_def split: prod.splits if_splits)
  then show ?thesis using assms(2) by (auto simp: same_actions_def get_proposal_def update_where_def row_lookup_map)
qed

lemma decide_actions: "decide_proposal env now pid state by rsn auth s = (res, s') \<Longrightarrow> same_actions s s'"
  by (auto simp: decide_proposal_def split: if_splits option.splits intro: write_state_actions)

lemma transition_actions: "transition_proposal_state env now pid state by rsn s = (res, s') \<Longrightarrow> same_actions s s'"
  by (auto simp: transition_proposal_state_def Let_def split: if_splits option.splits intro: write_state_actions)

lemma start_actions: "start env c p s = (res, s') \<Longrightarrow> same_actions s s'"
  by (auto simp: start_def Let_def split: if_splits prod.splits sum.splits
      intro: same_actions_trans transition_actions decide_actions)

lemma run_actions:
  assumes "keeps_actions env" and "run_action env c p role s = (r, s')"
  shows "same_actions s s'"
proof -
  let ?ctx = "\<lparr>ac_thread = pr_thread p, ac_message = pr_message p, ac_proposal = pr_id p, ac_role = role,
                 ac_caller = xc_approver c\<rparr>"
  obtain x s1 where x: "xe_run env (pr_action p) (pr_params p) ?ctx s = (x, s1)" by fastforce
  with assms(1) have s1: "same_actions s s1" unfolding keeps_actions_def by (metis snd_conv)
  show ?thesis
  proof (cases x)
    case (Inl err)
    with assms(2) x s1 show ?thesis by (simp add: run_action_def Let_def)
  next
    case (Inr res)
    with assms(2) x have v: "verify_result env p ?ctx res s1 = (r, s')" by (simp add: run_action_def Let_def)
    have "same_actions s1 s'"
    proof (cases "ar_success res \<and> xe_verify env (pr_action p) \<noteq> None")
      case True
      then obtain verify where vf: "xe_verify env (pr_action p) = Some verify" by blast
      then have "s' = snd (verify res (pr_params p) ?ctx s1)"
        using v True by (auto simp: verify_result_def split: prod.splits sum.splits)
      with assms(1) vf show ?thesis unfolding keeps_actions_def by blast
    next
      case False
      with v show ?thesis by (auto simp: verify_result_def split: bool.splits option.splits)
    qed
    with s1 show ?thesis by (rule same_actions_trans)
  qed
qed

lemma end_actions:
  assumes "end_run env c p r s = (res, s')"
  shows "same_actions s s'"
proof -
  obtain x s1 where t: "transition_proposal_state (store_env env) (xc_stamp c) (xc_proposal c)
      (if ar_success r then PsDone else PsFailed) []
      (if ar_success r then [] else the (str_or (ar_error r) (Some ''Action failed''))) s = (x, s1)"
    by fastforce
  with assms have "ps_rows s' = ps_rows s1"
    by (cases x) (auto simp: end_run_def post_result_def Let_def split: if_splits prod.splits sum.splits option.splits)
  then show ?thesis using transition_actions [OF t] same_actions_rows same_actions_trans by blast
qed

lemma admit_actions: "admit env c s = (out, s') \<Longrightarrow> same_actions s s'"
  by (erule admit_moves) (auto intro: transition_actions)

lemma execute_actions:
  assumes "keeps_actions env" and "execute_proposal env c s = (res, s')"
  shows "same_actions s s'"
proof -
  obtain out s1 where a: "admit env c s = (out, s1)" by fastforce
  note s1 = admit_actions [OF a]
  show ?thesis
  proof (cases out)
    case (Admitted p ad role)
    obtain e s2 where st: "start env c p s1 = (e, s2)" by fastforce
    obtain r s3 where r: "run_action env c p role s2 = (r, s3)" by fastforce
    note s2 = same_actions_trans [OF s1 start_actions [OF st]]
    note s3 = same_actions_trans [OF s2 run_actions [OF assms(1) r]]
    show ?thesis
    proof (cases e)
      case None
      with assms(2) a st r Admitted have "end_run env c p r s3 = (res, s')" by (simp add: execute_proposal_def)
      from same_actions_trans [OF s3 end_actions [OF this]] show ?thesis .
    qed (use assms(2) a st s2 Admitted in \<open>simp add: execute_proposal_def\<close>)
  qed (use assms(2) a s1 in \<open>simp_all add: execute_proposal_def\<close>)
qed

lemma sla_approve_actions:
  assumes "keeps_actions (sw_exec env)" and "sla_approve env p s = (out, s')"
  shows "same_actions s s'"
  using assms(2)
  by (auto simp: sla_approve_def Let_def split: option.splits if_splits sum.splits prod.splits
      dest: execute_actions [OF assms(1)])

lemma sla_deny_actions: "sla_deny env p s = (out, s') \<Longrightarrow> same_actions s s'"
  by (auto simp: sla_deny_def split: prod.splits sum.splits intro: decide_actions)

lemma apply_one_actions:
  assumes "keeps_actions (sw_exec env)" and "apply_one env p s = (out, s')"
  shows "same_actions s s'"
proof (cases "pr_default p = ''approve''")
  case True
  with assms(2) obtain x where "sla_approve env p s = (x, s')" by (auto simp: apply_one_def split: prod.splits)
  then show ?thesis by (rule sla_approve_actions [OF assms(1)])
next
  case False
  with assms(2) show ?thesis by (auto simp: apply_one_def intro: sla_deny_actions)
qed

definition with_run :: "sweep_env \<Rightarrow> (string \<Rightarrow> (string, json) dict \<Rightarrow> action_context \<Rightarrow> proposal_store \<Rightarrow>
    (string + action_result) \<times> proposal_store) \<Rightarrow> sweep_env" where
  "with_run env f = env\<lparr>sw_exec := (sw_exec env)\<lparr>xe_run := f\<rparr>\<rparr>"

lemma with_run_parts [simp]:
  "sw_exec (with_run env f) = (sw_exec env)\<lparr>xe_run := f\<rparr>" "sw_now (with_run env f) = sw_now env"
  "sw_stamp (with_run env f) = sw_stamp env" "sw_error_text (with_run env f) = sw_error_text env"
  "sla_call (with_run env f) = sla_call env"
  by (simp_all add: with_run_def sla_call_def fun_eq_iff)

lemma with_run_deny: "sla_deny (with_run env f) p s = sla_deny env p s"
  unfolding sla_deny_def with_run_parts store_env_run by (rule refl)

lemma with_run_approve:
  assumes "\<And>name params a ctx st. registry_get (ae_registry (xe_auth (sw_exec env))) name = Some a \<Longrightarrow>
      ad_risk a \<in> set silent_approve_risks \<Longrightarrow> f name params ctx st = xe_run (sw_exec env) name params ctx st"
    and "get_proposal (pr_id p) s = Some q" and "pr_action q = pr_action p"
  shows "sla_approve (with_run env f) p s = sla_approve env p s"
proof (cases "\<exists>a. registry_get (ae_registry (xe_auth (sw_exec env))) (pr_action p) = Some a \<and> ad_risk a \<in> set silent_approve_risks")
  case False
  then show ?thesis by (auto simp: sla_approve_def Let_def split: option.split)
next
  case True
  then obtain a where a: "registry_get (ae_registry (xe_auth (sw_exec env))) (pr_action p) = Some a"
    "ad_risk a \<in> set silent_approve_risks" by blast
  have "execute_proposal ((sw_exec env)\<lparr>xe_run := f\<rparr>) (sla_call env p scope h) s
      = execute_proposal (sw_exec env) (sla_call env p scope h) s" for scope h
  proof (rule execute_run_cong)
    fix r b role ctx st
    assume "admit (sw_exec env) (sla_call env p scope h) s = (Admitted r b role, s)"
    from admit_cases(2) [OF this] assms(2) have "r = q" by (simp add: sla_call_def)
    with assms(1) [OF a] assms(1,3) a
    show "f (pr_action r) (pr_params r) ctx st = xe_run (sw_exec env) (pr_action r) (pr_params r) ctx st" by simp
  qed
  with a show ?thesis by (cases "stored_params_hash (xe_auth (sw_exec env)) (pr_id p) s") (simp_all add: sla_approve_def Let_def)
qed

lemma with_run_each:
  assumes "keeps_actions (sw_exec env)"
    and "\<And>name params a ctx st. registry_get (ae_registry (xe_auth (sw_exec env))) name = Some a \<Longrightarrow>
      ad_risk a \<in> set silent_approve_risks \<Longrightarrow> f name params ctx st = xe_run (sw_exec env) name params ctx st"
    and "\<forall>p \<in> set ps. \<exists>q. get_proposal (pr_id p) s = Some q \<and> pr_action q = pr_action p"
  shows "apply_defaults (with_run env f) skip ps s = apply_defaults env skip ps s"
  using assms(3)
proof (induction ps arbitrary: s)
  case Nil
  then show ?case by simp
next
  case (Cons p ps)
  from Cons.prems obtain q where q: "get_proposal (pr_id p) s = Some q" "pr_action q = pr_action p" by auto
  obtain x s1 where x: "apply_one env p s = (x, s1)" by fastforce
  have ap: "sla_approve (with_run env f) p s = sla_approve env p s" by (rule with_run_approve [OF assms(2) q])
  have same: "apply_one (with_run env f) p s = (x, s1)"
    using x unfolding apply_one_def ap with_run_deny .
  have s1: "same_actions s s1" using x apply_one_actions [OF assms(1)] by blast
  have later: "apply_defaults (with_run env f) skip ps t = apply_defaults env skip ps t" if "ps_rows t = ps_rows s1" for t
  proof (rule Cons.IH)
    have "same_actions s t" using s1 same_actions_rows [OF that] same_actions_trans by blast
    with Cons.prems show "\<forall>p \<in> set ps. \<exists>q. get_proposal (pr_id p) t = Some q \<and> pr_action q = pr_action p"
      unfolding same_actions_def by (metis list.set_intros(2))
  qed
  have skipped: "apply_defaults (with_run env f) skip ps s = apply_defaults env skip ps s"
    using Cons.IH Cons.prems by simp
  obtain raised s2 where au: "record_audit None (sla_audit p (projr x)) s1 = (raised, s2)" by fastforce
  then have "ps_rows s2 = ps_rows s1" using record_audit_keeps(1) by (metis snd_conv)
  from later [OF this] au x skipped show ?case
    by (cases x) (simp_all add: same)
qed

text \<open>The sweep depends only on the executors of registered actions of risk \<open>read\<close> or \<open>low\<close>, by the risk
  registered now: silence never reaches another one.
\<close>

theorem silence_runs_low_only:
  assumes "keyed pr_id (ps_rows s)" and "keeps_actions (sw_exec env)"
    and "\<And>name params a ctx st. registry_get (ae_registry (xe_auth (sw_exec env))) name = Some a \<Longrightarrow>
      ad_risk a \<in> set silent_approve_risks \<Longrightarrow> f name params ctx st = xe_run (sw_exec env) name params ctx st"
  shows "apply_decision_defaults (with_run env f) skip s = apply_decision_defaults env skip s"
proof (cases "overdue_decisions (ae_time (xe_auth (sw_exec env))) (sw_now env) 200 s")
  case None
  then show ?thesis by (simp add: apply_decision_defaults_def)
next
  case (Some ps)
  have "set ps \<subseteq> set (ps_rows s)"
    using Some by (auto simp: overdue_decisions_def Let_def deadline_pages_all [OF assms(1)] by_deadline_def split: if_splits)
  then have "\<forall>p \<in> set ps. \<exists>q. get_proposal (pr_id p) s = Some q \<and> pr_action q = pr_action p"
    using assms(1) by (auto simp: get_proposal_def row_lookup_Some_iff)
  with Some show ?thesis by (simp add: apply_decision_defaults_def with_run_each [OF assms(2,3)])
qed

definition sample_sweep :: "seconds \<Rightarrow> sweep_env" where
  "sample_sweep now = \<lparr>sw_exec = sample_exec True, sw_now = now, sw_stamp = ''now'', sw_message_id = (\<lambda>pid. CHR ''m'' # pid),
     sw_error_text = (\<lambda>_. ''refused'')\<rparr>"

lemma silence_runs_low_only_witness:
  "apply_decision_defaults (with_run (sample_sweep 25) raising) {} sample_due
     = apply_decision_defaults (sample_sweep 25) {} sample_due"
proof (rule silence_runs_low_only)
  show "keyed pr_id (ps_rows sample_due)" by code_simp
  show "keeps_actions (sw_exec (sample_sweep 25))" by (simp add: keeps_actions_def sample_sweep_def sample_exec_def)
  fix name params a ctx st
  assume "registry_get (ae_registry (xe_auth (sw_exec (sample_sweep 25)))) name = Some a"
    and "ad_risk a \<in> set silent_approve_risks"
  then show "raising name params ctx st = xe_run (sw_exec (sample_sweep 25)) name params ctx st"
    by (auto simp: sample_sweep_def sample_exec_def sample_auth_def sample_registry_def registry_get_def
        register_spec_def silent_approve_risks_def raising_def split: if_splits)
qed

section \<open>Where the sweep stops, and what a refusal leaves\<close>

text \<open>A proposal of an earlier turn of its thread, with the default \<open>deny\<close>, stops the sweep when it is the oldest
  overdue one: the sweep ends in its error with nothing applied, so the next one finds the same store.
\<close>

theorem stale_deny_stops_sweep:
  assumes "overdue_decisions (ae_time (xe_auth (sw_exec env))) (sw_now env) 200 s = Some (p # ps)"
    and "pr_default p = ''deny''" and "pr_id p \<notin> skip" and "stale_epoch p s" and "keyed pr_id (ps_rows s)"
  shows "apply_decision_defaults env skip s = (Inl StaleProposalEpoch, s)"
proof -
  have "p \<in> set (ps_rows s) \<and> after_deadline PsProposed ([], []) p"
  proof -
    let ?pending = "deadline_pages 200 PsProposed ([], []) (ps_rows s)"
    from assms(1) have sorted: "sort_key (due_time (ae_time (xe_auth (sw_exec env))))
        (filter (is_due (ae_time (xe_auth (sw_exec env))) (sw_now env)) ?pending) = p # ps"
      by (simp add: overdue_decisions_def Let_def split: if_splits)
    have "p \<in> set (sort_key (due_time (ae_time (xe_auth (sw_exec env))))
        (filter (is_due (ae_time (xe_auth (sw_exec env))) (sw_now env)) ?pending))" unfolding sorted by simp
    then have "p \<in> set ?pending" by simp
    then show ?thesis by (simp add: deadline_pages_all [OF assms(5)] by_deadline_def)
  qed
  then have "get_proposal (pr_id p) s = Some p" and "pr_state p = PsProposed"
    using assms(5) by (auto simp: get_proposal_def row_lookup_Some_iff after_deadline_def)
  then have "sla_deny env p s = (Inl StaleProposalEpoch, s)"
    using assms(4) by (simp add: sla_deny_def decide_proposal_def)
  then show ?thesis using assms(1-3) by (simp add: apply_decision_defaults_def apply_one_def)
qed

definition stuck_sweep :: proposal_store where
  "stuck_sweep = (let s = sample_proposals [(due_proposal ''a'' ''10'' ''deny'')\<lparr>pr_epoch := 1\<rparr>, due_proposal ''b'' ''20'' ''deny'']
     in s)"

lemma stale_deny_stops_sweep_witness:
  "apply_decision_defaults (sample_sweep 25) {} stuck_sweep = (Inl StaleProposalEpoch, stuck_sweep)"
proof (rule stale_deny_stops_sweep)
  show "overdue_decisions (ae_time (xe_auth (sw_exec (sample_sweep 25)))) (sw_now (sample_sweep 25)) 200 stuck_sweep
      = Some ((due_proposal ''a'' ''10'' ''deny'')\<lparr>pr_epoch := 1\<rparr> # [due_proposal ''b'' ''20'' ''deny''])" by code_simp
  show "stale_epoch ((due_proposal ''a'' ''10'' ''deny'')\<lparr>pr_epoch := 1\<rparr>) stuck_sweep" by code_simp
  show "keyed pr_id (ps_rows stuck_sweep)" by code_simp
qed (simp_all add: due_proposal_def)

text \<open>A default \<open>approve\<close> met after the proposal's time to live is refused, but the proposal does not stay with the
  owner: it is expired, which no decision can change.
\<close>

theorem refused_default_expires:
  assumes "get_proposal (pr_id p) s = Some p" and "pr_state p = PsProposed" and "keyed pr_id (ps_rows s)"
    and "registry_get (ae_registry (xe_auth (sw_exec env))) (pr_action p) = Some a" and "ad_risk a \<in> set silent_approve_risks"
    and "ae_hash (xe_auth (sw_exec env)) (pr_action p) (pr_params p) = Some h" and "h \<noteq> []" and "\<not> stale_epoch p s"
    and "is_proposal_expired (ae_time (xe_auth (sw_exec env))) (sw_now env) p"
  shows "\<exists>out s' p'. sla_approve env p s = (out, s') \<and> so_outcome out = SlaRefused \<and>
    get_proposal (pr_id p) s' = Some p' \<and> pr_state p' = PsExpired"
proof -
  obtain res s' where t: "transition_proposal_state (store_env (sw_exec env)) (sw_stamp env) (pr_id p) PsExpired []
      ''Expired after 24h'' s = (res, s')" by fastforce
  have s': "\<exists>p'. get_proposal (pr_id p) s' = Some p' \<and> pr_state p' = PsExpired"
    using t assms(3)
  proof (cases rule: transition_cases)
    case (refused err)
    with t assms(1,2) show ?thesis
      by (auto simp: transition_proposal_state_def write_state_eq [OF assms(3,1)] audited_eq Let_def split: if_splits)
  next
    case (written r r')
    from lookup_moved [OF written(1,2,4)] written show ?thesis by simp
  qed
  have "\<exists>e. execute_proposal (sw_exec env) (sla_call env p (ad_required_scope a) h) s = (Inl e, s')"
    using t assms by (cases res)
      (simp_all add: execute_proposal_def admit_def sla_call_def verify_params_hash_def reject_after_def)
  then obtain e where "execute_proposal (sw_exec env) (sla_call env p (ad_required_scope a) h) s = (Inl e, s')" ..
  then have "sla_approve env p s = (outcome_of p ''approve'' SlaRefused (sw_error_text env e), s')"
    using assms by (simp add: sla_approve_def stored_params_hash_def Let_def)
  with s' show ?thesis by (simp add: outcome_of_def)
qed

lemma refused_default_expires_witness:
  "\<exists>out s' p'. sla_approve (sample_sweep 90000) (due_proposal ''c'' ''20'' ''approve'') sample_due = (out, s') \<and>
    so_outcome out = SlaRefused \<and>
    get_proposal (pr_id (due_proposal ''c'' ''20'' ''approve'')) s' = Some p' \<and> pr_state p' = PsExpired"
proof (rule refused_default_expires)
  show "registry_get (ae_registry (xe_auth (sw_exec (sample_sweep 90000)))) (pr_action (due_proposal ''c'' ''20'' ''approve''))
      = Some \<lparr>ad_name = ''note'', ad_required_scope = ''staff.chat'', ad_risk = ''low''\<rparr>" by code_simp
  show "ae_hash (xe_auth (sw_exec (sample_sweep 90000))) (pr_action (due_proposal ''c'' ''20'' ''approve''))
      (pr_params (due_proposal ''c'' ''20'' ''approve'')) = Some ''#note''" by code_simp
  show "get_proposal (pr_id (due_proposal ''c'' ''20'' ''approve'')) sample_due = Some (due_proposal ''c'' ''20'' ''approve'')"
    by code_simp
  show "keyed pr_id (ps_rows sample_due)" by code_simp
  show "\<not> stale_epoch (due_proposal ''c'' ''20'' ''approve'') sample_due" by code_simp
  show "is_proposal_expired (ae_time (xe_auth (sw_exec (sample_sweep 90000)))) (sw_now (sample_sweep 90000))
      (due_proposal ''c'' ''20'' ''approve'')" by code_simp
qed (simp_all add: due_proposal_def sample_proposal_def silent_approve_risks_def)

text \<open>What Barb may approve is not only the action's own scope: the role brings the operator's scopes along.\<close>

lemma barb_has_operator_scopes: "list_all (principal_has_scope (barb_approver scope)) operator_scopes"
proof -
  have "principal_has_scope (barb_approver scope) s" if "s \<in> set operator_scopes" for s
  proof -
    have "preset_scopes ''barb'' = operator_scopes" by (simp add: preset_scopes_def scope_presets_def)
    then show ?thesis using that
      by (auto simp: principal_has_scope_def barb_approver_def Let_def list_ex_iff scope_grants_def)
  qed
  then show ?thesis by (simp add: list_all_iff)
qed

end
