(* ===== verification/Staff_Runs.thy ===== *)
theory Staff_Runs
  imports Prelude
begin

text \<open>
  Staff runs: the rows of \<open>backend/staff/store.py\<close> and the process that works on them, \<open>StaffRunner\<close> in
  \<open>backend/staff/runner.py\<close>, with the repair after a restart in \<open>backend/staff/reconcile.py\<close>. A world is the
  table of runs, the events, the provider cooldowns, and the memory of the process: the workers handed to a
  thread or a timer, and the cancelled ids. What a worker does with its CLI is an argument: the result it
  writes. Fields that are copied unchanged from attempt to attempt form two groups; token counts, process ids,
  worktrees, lessons and the text of events are left out.
\<close>

section \<open>Rows and plans\<close>

datatype run_status =
    RunQueued
  | RunPreparing
  | RunRunning
  | RunSucceeded
  | RunFailed
  | RunCancelled
  | RunBlocked
  | RunNeedsInput

text \<open>What a run is about, in a plan and in a row.\<close>

record run_subject =
  rj_role :: string
  rj_repo :: string
  rj_target_kind :: string
  rj_target_ref :: string
  rj_prompt :: string

text \<open>Where a run comes from.\<close>

record run_origin =
  ry_requested_by :: string
  ry_on_behalf_of :: string
  ry_thread :: string
  ry_work_item :: string
  ry_node :: string

text \<open>The log of tried providers is kept as the list its JSON text holds: provider and tier.\<close>

record staff_run =
  sf_id :: string
  sf_subject :: run_subject
  sf_origin :: run_origin
  sf_provider :: string
  sf_model :: "string option"
  sf_tier :: string
  sf_machine :: string
  sf_status :: run_status
  sf_branch :: string
  sf_created_at :: string
  sf_started_at :: "string option"
  sf_ended_at :: "string option"
  sf_cost :: rat
  sf_outcome :: string
  sf_error :: string
  sf_class :: string
  sf_retryable :: bool
  sf_retry_of :: string
  sf_attempt :: int
  sf_max_attempts :: int
  sf_next_attempt_at :: "string option"
  sf_fallback :: string
  sf_chain :: "(string \<times> string) list"
  sf_mode :: string
  sf_strategy :: string

record launch_plan =
  lp_subject :: run_subject
  lp_provider :: string
  lp_model :: "string option"
  lp_tier :: string
  lp_branch :: string
  lp_lease :: bool
  lp_mode :: string
  lp_strategy :: string

text \<open>\<open>wr_launched\<close> is the history of the ids handed to a worker; the code does not keep it.\<close>

record staff_world =
  wr_rows :: "staff_run list"
  wr_events :: "(string \<times> string) list"
  wr_cooldowns :: "(string, seconds) dict"
  wr_workers :: "(string \<times> launch_plan) list"
  wr_launched :: "string list"
  wr_cancels :: "string list"

section \<open>The store\<close>

definition active_statuses :: "run_status list" where
  "active_statuses = [RunQueued, RunPreparing, RunRunning]"

definition get_run :: "string \<Rightarrow> staff_world \<Rightarrow> staff_run option" where
  "get_run rid w = row_lookup sf_id rid (wr_rows w)"

text \<open>\<open>None\<close> is the duplicate primary key.\<close>

definition create_run :: "staff_run \<Rightarrow> staff_world \<Rightarrow> staff_world option" where
  "create_run r w = (case get_run (sf_id r) w of Some _ \<Rightarrow> None | None \<Rightarrow> Some (w\<lparr>wr_rows := wr_rows w @ [r]\<rparr>))"

definition update_run :: "string \<Rightarrow> (staff_run \<Rightarrow> staff_run) \<Rightarrow> staff_world \<Rightarrow> staff_world" where
  "update_run rid f w = w\<lparr>wr_rows := row_update sf_id rid f (wr_rows w)\<rparr>"

definition append_event :: "string \<Rightarrow> string \<Rightarrow> staff_world \<Rightarrow> staff_world" where
  "append_event rid kind w = w\<lparr>wr_events := wr_events w @ [(rid, kind)]\<rparr>"

definition active_runs :: "staff_world \<Rightarrow> staff_run list" where
  "active_runs w = sort_key sf_created_at (filter (\<lambda>r. sf_status r \<in> set active_statuses) (wr_rows w))"

text \<open>The root of a run and its attempts, in the order of the attempts.\<close>

definition get_attempts :: "string \<Rightarrow> staff_world \<Rightarrow> staff_run list" where
  "get_attempts rid w =
     (let root = (case get_run rid w of Some r \<Rightarrow> if sf_retry_of r \<noteq> [] then sf_retry_of r else rid | None \<Rightarrow> rid)
      in sort_key sf_attempt (filter (\<lambda>r. sf_id r = root \<or> sf_retry_of r = root) (wr_rows w)))"

definition spend_by_role_since :: "string \<Rightarrow> string \<Rightarrow> staff_world \<Rightarrow> rat" where
  "spend_by_role_since since role w =
     sum_list (map sf_cost (filter (\<lambda>r. since \<le> sf_created_at r \<and> rj_role (sf_subject r) = role) (wr_rows w)))"

definition get_pending_retries :: "string \<Rightarrow> staff_world \<Rightarrow> staff_run list" where
  "get_pending_retries machine w =
     sort_key (\<lambda>r. case sf_next_attempt_at r of Some t \<Rightarrow> t | None \<Rightarrow> [])
       (filter (\<lambda>r. sf_status r = RunQueued \<and> str_or (sf_next_attempt_at r) None \<noteq> None \<and>
          (machine = [] \<or> sf_machine r = machine)) (wr_rows w))"

section \<open>The runner\<close>

text \<open>A worker is handed to a thread, at once or after the delay of a timer.\<close>

definition hand_over :: "string \<Rightarrow> launch_plan \<Rightarrow> staff_world \<Rightarrow> staff_world" where
  "hand_over rid plan w = w\<lparr>wr_workers := wr_workers w @ [(rid, plan)], wr_launched := wr_launched w @ [rid]\<rparr>"

definition new_run_record :: "launch_plan \<Rightarrow> run_origin \<Rightarrow> string \<Rightarrow> int \<Rightarrow> string \<Rightarrow> string \<Rightarrow> string \<Rightarrow> staff_run" where
  "new_run_record plan origin machine max_attempts rid mode stamp =
     \<lparr>sf_id = rid, sf_subject = lp_subject plan, sf_origin = origin, sf_provider = lp_provider plan,
      sf_model = lp_model plan, sf_tier = lp_tier plan, sf_machine = machine, sf_status = RunQueued,
      sf_branch = lp_branch plan, sf_created_at = stamp, sf_started_at = None, sf_ended_at = None, sf_cost = 0,
      sf_outcome = [], sf_error = [], sf_class = [], sf_retryable = False, sf_retry_of = [], sf_attempt = 1,
      sf_max_attempts = max_attempts, sf_next_attempt_at = None, sf_fallback = [], sf_chain = [],
      sf_mode = (if mode = [] then ''local'' else mode), sf_strategy = lp_strategy plan\<rparr>"

text \<open>An admitted run, whether it is new, and the world.\<close>

definition admit_run ::
    "launch_plan \<Rightarrow> run_origin \<Rightarrow> string \<Rightarrow> int \<Rightarrow> string \<Rightarrow> string \<Rightarrow> string \<Rightarrow> staff_world \<Rightarrow>
     (staff_run \<times> bool) \<times> staff_world" where
  "admit_run plan origin machine max_attempts rid mode stamp w =
     (let rec = new_run_record plan origin machine max_attempts rid mode stamp
      in case get_run rid w of
           Some r \<Rightarrow> ((r, False), w)
         | None \<Rightarrow> (case create_run rec w of
             None \<Rightarrow> ((rec, False), w)
           | Some w1 \<Rightarrow> ((rec, True), append_event rid ''queued'' w1)))"

text \<open>\<open>StaffRunner.submit\<close> makes an id of its own (twelve random hexadecimal digits) and starts a worker for the run
  of that id, new or not.\<close>

definition submit_new_run ::
    "launch_plan \<Rightarrow> run_origin \<Rightarrow> string \<Rightarrow> int \<Rightarrow> string \<Rightarrow> string \<Rightarrow> string \<Rightarrow> staff_world \<Rightarrow> staff_world" where
  "submit_new_run plan origin machine max_attempts rid mode stamp w =
     (case admit_run plan origin machine max_attempts rid mode stamp w of
        ((r, new), w1) \<Rightarrow> hand_over (sf_id r) plan w1)"

text \<open>A dispatch (\<open>staff/dispatch_service.py\<close>) brings the id of its operation, and starts a worker only for a run
  that is new. The row of providers it skipped, the claim label and a thread that does not start are left out.\<close>

definition launch_admitted ::
    "launch_plan \<Rightarrow> run_origin \<Rightarrow> string \<Rightarrow> int \<Rightarrow> string \<Rightarrow> string \<Rightarrow> string \<Rightarrow> staff_world \<Rightarrow> staff_world" where
  "launch_admitted plan origin machine max_attempts rid mode stamp w =
     (case admit_run plan origin machine max_attempts rid mode stamp w of
        ((r, new), w1) \<Rightarrow> if new then hand_over rid plan w1 else w1)"

definition worker_of :: "string \<Rightarrow> staff_world \<Rightarrow> launch_plan option" where
  "worker_of rid w = map_of (wr_workers w) rid"

definition drop_worker :: "string \<Rightarrow> staff_world \<Rightarrow> staff_world" where
  "drop_worker rid w = w\<lparr>wr_workers := filter (\<lambda>(i, _). i \<noteq> rid) (wr_workers w)\<rparr>"

text \<open>The start of a worker: a cancelled one ends without another attempt.\<close>

definition begin_run :: "string \<Rightarrow> string \<Rightarrow> staff_world \<Rightarrow> staff_world" where
  "begin_run rid stamp w =
     (if worker_of rid w = None then w
      else if rid \<in> set (wr_cancels w) then drop_worker rid w
      else update_run rid (\<lambda>r. r\<lparr>sf_status := RunPreparing, sf_started_at := Some stamp\<rparr>) w)"

definition start_cli :: "string \<Rightarrow> staff_world \<Rightarrow> staff_world" where
  "start_cli rid w =
     (if worker_of rid w = None then w
      else append_event rid ''start'' (update_run rid (\<lambda>r. r\<lparr>sf_status := RunRunning\<rparr>) w))"

text \<open>The process of a run exists while its row says running and its worker is there.\<close>

definition cancel_run :: "string \<Rightarrow> string \<Rightarrow> staff_world \<Rightarrow> bool \<times> staff_world" where
  "cancel_run rid stamp w =
     (let w1 = w\<lparr>wr_cancels := rid # wr_cancels w\<rparr>
      in case get_run rid w1 of
           None \<Rightarrow> (False, w1)
         | Some r \<Rightarrow>
             if sf_status r = RunRunning \<and> worker_of rid w1 \<noteq> None then (True, append_event rid ''cancel'' w1)
             else if sf_status r \<in> {RunQueued, RunPreparing}
             then (True, append_event rid ''cancel''
                    (update_run rid (\<lambda>r. r\<lparr>sf_status := RunCancelled, sf_ended_at := Some stamp\<rparr>) w1))
             else (False, w1))"

section \<open>Restart\<close>

definition waits_for_retry :: "staff_run \<Rightarrow> bool" where
  "waits_for_retry r = (sf_status r = RunQueued \<and> str_or (sf_next_attempt_at r) None \<noteq> None)"

definition orphaned :: "string \<Rightarrow> staff_run \<Rightarrow> bool" where
  "orphaned machine r = (\<not> (sf_machine r \<noteq> [] \<and> sf_machine r \<noteq> machine) \<and> \<not> waits_for_retry r)"

definition mark_orphaned :: "string \<Rightarrow> string \<Rightarrow> staff_world \<Rightarrow> staff_world" where
  "mark_orphaned stamp rid w =
     append_event rid ''reconcile''
       (update_run rid (\<lambda>r. r\<lparr>sf_status := RunFailed, sf_class := ''orphaned'', sf_retryable := False,
          sf_error := ''orphaned by dashboard restart'', sf_ended_at := Some stamp\<rparr>) w)"

definition reconcile_orphaned_runs :: "string \<Rightarrow> string \<Rightarrow> staff_world \<Rightarrow> string list \<times> staff_world" where
  "reconcile_orphaned_runs machine stamp w =
     (let ids = map sf_id (filter (orphaned machine) (active_runs w)) in (ids, fold (mark_orphaned stamp) ids w))"

text \<open>A restart loses the memory of the process, then repairs the rows.\<close>

definition restart :: "string \<Rightarrow> string \<Rightarrow> staff_world \<Rightarrow> staff_world" where
  "restart machine stamp w = snd (reconcile_orphaned_runs machine stamp (w\<lparr>wr_workers := [], wr_cancels := []\<rparr>))"

text \<open>The scheduler skips a slot of a role that has an active run (\<open>backend/staff/scheduler.py\<close>).\<close>

definition active_run_of :: "string \<Rightarrow> staff_world \<Rightarrow> staff_run option" where
  "active_run_of role w = List.find (\<lambda>r. rj_role (sf_subject r) = role) (active_runs w)"

end
