(* ===== verification/Run_Retry.thy ===== *)
theory Run_Retry
  imports Staff_Runs
begin

text \<open>
  Retries of failed staff runs: \<open>backend/staff/retry_policy.py\<close>, \<open>retry.py\<close>, the declarative rules of
  \<open>provider_fallback.py\<close>, the chain of \<open>failover_dispatch.py\<close>, the gates of \<open>budget.py\<close>, \<open>holds.py\<close> and
  \<open>provider_switch.py\<close>, and the cooldowns of \<open>provider_cooldown.py\<close>. Plan windows, versions of CLIs, models of a
  provider, the hint a provider's message gives on its cooldown and the exclusions are arguments; the order of
  the tiers is that of \<open>config/staff_model_tiers.json\<close>. Budget alerts are left out, as is the command line.
\<close>

section \<open>Roles, providers and gates\<close>

datatype staff_tier = TierRoutine | TierStandard | TierComplex

fun staff_tier_text :: "staff_tier \<Rightarrow> string" where
  "staff_tier_text TierRoutine = ''routine''"
| "staff_tier_text TierStandard = ''standard''"
| "staff_tier_text TierComplex = ''complex''"

fun staff_tier_rank :: "staff_tier \<Rightarrow> nat" where
  "staff_tier_rank TierRoutine = 0"
| "staff_tier_rank TierStandard = 1"
| "staff_tier_rank TierComplex = 2"

definition normalize_staff_tier :: "string \<Rightarrow> staff_tier" where
  "normalize_staff_tier value =
     (let t = py_lower (py_strip (if value = [] then ''routine'' else value))
      in if t = ''standard'' then TierStandard else if t = ''complex'' then TierComplex else TierRoutine)"

fun next_tier_up :: "staff_tier \<Rightarrow> staff_tier option" where
  "next_tier_up TierRoutine = Some TierStandard"
| "next_tier_up TierStandard = Some TierComplex"
| "next_tier_up TierComplex = None"

record failover_step =
  fs_provider :: string
  fs_model :: "string option"

record fallback_rule =
  fr_when :: "string list"
  fr_from :: "string option"
  fr_target :: failover_step

record role_spec =
  rk_name :: string
  rk_providers :: "string list"
  rk_model :: "string option"
  rk_tier :: string
  rk_escalates :: bool
  rk_max_attempts :: int
  rk_fallback_providers :: "string list"
  rk_rules :: "fallback_rule list"
  rk_chain :: "failover_step list"
  rk_usd_per_run :: rat
  rk_usd_per_day :: rat
  rk_window_percent :: "rat option"
  rk_read_only :: bool
  rk_lease :: bool

text \<open>An adapter as \<open>can_run_unattended\<close> sees it.\<close>

record adapter =
  pa_unattended :: bool
  pa_installed :: bool
  pa_outdated :: bool

record hold =
  hd_applies_to :: "string list"
  hd_active :: bool
  hd_schedule :: bool

record retry_env =
  re_machine :: string
  re_role :: "string \<Rightarrow> role_spec option"
  re_adapter :: "string \<Rightarrow> adapter option"
  re_disabled :: "string list"
  re_headroom :: "string \<Rightarrow> rat \<Rightarrow> bool"
  re_ceiling :: rat
  re_day_start :: string
  re_now :: seconds
  re_stamp :: string
  re_iso :: "seconds \<Rightarrow> string"
  re_base :: rat
  re_cap :: rat
  re_jitter :: rat
  re_cooldown_end :: "string \<Rightarrow> string \<Rightarrow> seconds"
  re_default_chain :: "failover_step list"
  re_active_step :: "string \<Rightarrow> failover_step option"
  re_step_model :: "role_spec \<Rightarrow> failover_step \<Rightarrow> staff_tier \<Rightarrow> (string option) option"
  re_rule_model :: "role_spec \<Rightarrow> failover_step \<Rightarrow> string \<Rightarrow> (string option) option"
  re_holds :: "hold list"
  re_excluded :: "string \<Rightarrow> bool"

text \<open>\<open>provider_switch.py\<close>: one id for every spelling.\<close>

definition canonical_id :: "string \<Rightarrow> string" where
  "canonical_id provider =
     (let p = map (\<lambda>c. if c = CHR ''-'' then CHR ''_'' else c) (py_lower (py_strip provider));
          p = (if 4 \<le> length p \<and> drop (length p - 4) p = ''_cli'' then take (length p - 4) p else p)
      in if p = ''claude_code'' then ''claude'' else p)"

definition disabled_providers :: "string list \<Rightarrow> string list" where
  "disabled_providers parts = map canonical_id (filter (\<lambda>p. \<not> blank p) parts)"

definition provider_disabled :: "retry_env \<Rightarrow> string \<Rightarrow> bool" where
  "provider_disabled env p = (\<not> blank p \<and> canonical_id p \<in> set (disabled_providers (re_disabled env)))"

definition can_run_unattended :: "retry_env \<Rightarrow> string \<Rightarrow> bool" where
  "can_run_unattended env p =
     (case re_adapter env p of None \<Rightarrow> False
      | Some a \<Rightarrow> pa_unattended a \<and> \<not> provider_disabled env p \<and> \<not> pa_outdated a)"

definition read_only_providers :: "string list" where
  "read_only_providers = [''claude'', ''antigravity'']"

definition fallback_usable :: "retry_env \<Rightarrow> role_spec \<Rightarrow> string \<Rightarrow> bool" where
  "fallback_usable env role p = (can_run_unattended env p \<and> (\<not> rk_read_only role \<or> p \<in> set read_only_providers))"

definition step_usable :: "retry_env \<Rightarrow> role_spec \<Rightarrow> string \<Rightarrow> bool" where
  "step_usable env role p =
     (if rk_read_only role \<and> p \<notin> set read_only_providers then False
      else (case re_adapter env p of None \<Rightarrow> False | Some a \<Rightarrow> pa_installed a) \<and> can_run_unattended env p)"

text \<open>\<open>budget.py\<close>: the cap of the day, then the plan windows of the providers that are switched on.\<close>

definition role_ceiling :: "retry_env \<Rightarrow> role_spec \<Rightarrow> rat" where
  "role_ceiling env role =
     (case rk_window_percent role of Some c \<Rightarrow> if 0 < c \<and> c \<le> 100 then c else re_ceiling env | None \<Rightarrow> re_ceiling env)"

definition usd_ok :: "retry_env \<Rightarrow> role_spec \<Rightarrow> staff_world \<Rightarrow> bool" where
  "usd_ok env role w =
     (if rk_usd_per_day role \<le> 0 then True
      else let spent = spend_by_role_since (re_day_start env) (rk_name role) w; cap = rk_usd_per_day role
           in if cap \<le> spent then False
              else if 0 < rk_usd_per_run role \<and> cap < spent + rk_usd_per_run role then False
              else True)"

definition can_run :: "retry_env \<Rightarrow> role_spec \<Rightarrow> staff_world \<Rightarrow> bool" where
  "can_run env role w =
     (if \<not> usd_ok env role w then False
      else let checks = map (\<lambda>p. re_headroom env p (role_ceiling env role))
                          (filter (\<lambda>p. \<not> provider_disabled env p) (rk_providers role))
           in \<not> (checks \<noteq> [] \<and> \<not> list_ex (\<lambda>fits. fits) checks))"

text \<open>\<open>holds.py\<close>: only a hold of kind \<open>schedule\<close> blocks.\<close>

definition hold_matches :: "string \<Rightarrow> string \<Rightarrow> hold \<Rightarrow> bool" where
  "hold_matches role repo h =
     (hd_active h \<and> list_ex (\<lambda>t. t = ''*'' \<or> t = role \<or>
        (repo \<noteq> [] \<and> py_startswith t ''repo:'' \<and> drop 5 t = repo)) (hd_applies_to h))"

definition blocking_hold :: "string \<Rightarrow> string \<Rightarrow> hold list \<Rightarrow> hold option" where
  "blocking_hold role repo hs = List.find (\<lambda>h. hd_schedule h \<and> hold_matches role repo h) hs"

section \<open>Policy\<close>

definition retryable_classes :: "string list" where
  "retryable_classes = [''rate_limited'', ''provider_capacity'', ''quota_exhausted'', ''provider_error'', ''workspace_error'']"

definition non_retryable_classes :: "string list" where
  "non_retryable_classes = [''needs_input'', ''auth_expired'', ''lease_blocked'', ''cli_missing'', ''cli_outdated'',
     ''config'', ''orphaned'', ''unkillable'', ''timeout'', ''stalled'', ''unknown'', ''no_result'']"

definition is_retryable_class :: "string \<Rightarrow> bool" where
  "is_retryable_class c = (c \<in> set retryable_classes \<and> c \<notin> set non_retryable_classes)"

definition compute_backoff :: "rat \<Rightarrow> rat \<Rightarrow> int \<Rightarrow> rat \<Rightarrow> rat" where
  "compute_backoff base cap n jitter =
     (if base \<le> 0 then 0
      else let e = min cap (base * 2 ^ nat (max 0 (n - 1))) in min cap (e + jitter))"

definition max_attempts_of :: "staff_run \<Rightarrow> role_spec \<Rightarrow> int" where
  "max_attempts_of r role =
     (if sf_max_attempts r \<noteq> 0 then sf_max_attempts r else if rk_max_attempts role \<noteq> 0 then rk_max_attempts role else 2)"

datatype retry_verdict =
    RetryAllowed
  | ClassNotRetryable
  | UsesFallbackRules
  | UsesFailoverChain
  | RetriesExhausted
  | BudgetReached

definition should_retry :: "bool \<Rightarrow> staff_run \<Rightarrow> role_spec \<Rightarrow> retry_verdict" where
  "should_retry budget_ok r role =
     (if \<not> is_retryable_class (sf_class r) then ClassNotRetryable
      else if sf_class r = ''provider_capacity'' then UsesFallbackRules
      else if sf_class r = ''quota_exhausted'' then UsesFailoverChain
      else if max_attempts_of r role \<le> sf_attempt r then RetriesExhausted
      else if \<not> budget_ok then BudgetReached
      else RetryAllowed)"

definition next_fallback_provider :: "role_spec \<Rightarrow> string \<Rightarrow> (string \<Rightarrow> bool) \<Rightarrow> string option" where
  "next_fallback_provider role current usable =
     (if rk_fallback_providers role \<noteq> []
      then List.find (\<lambda>p. p \<noteq> current \<and> usable p) (rk_fallback_providers role)
      else if current \<in> set (rk_providers role)
      then List.find usable (tl (dropWhile (\<lambda>p. p \<noteq> current) (rk_providers role)))
      else None)"

section \<open>Starting an attempt\<close>

definition attempt_run_id :: "string \<Rightarrow> int \<Rightarrow> string" where
  "attempt_run_id base n = base @ ''-a'' @ int_text n"

definition root_of :: "staff_run \<Rightarrow> string" where
  "root_of r = (if sf_retry_of r \<noteq> [] then sf_retry_of r else sf_id r)"

text \<open>
  The row and the plan of the next attempt of \<open>latest\<close> under \<open>plan\<close>; the execution mode is not passed on, so
  it is the default of both records.
\<close>

definition next_attempt_row ::
    "retry_env \<Rightarrow> staff_run \<Rightarrow> launch_plan \<Rightarrow> string \<Rightarrow> string option \<Rightarrow> string \<Rightarrow> string \<Rightarrow> int \<Rightarrow> string option \<Rightarrow> string \<Rightarrow> staff_run" where
  "next_attempt_row env latest plan provider model tier tag max_attempts next_at fallback =
     (let n = sf_attempt latest + 1
      in \<lparr>sf_id = attempt_run_id (root_of latest) n, sf_subject = lp_subject plan, sf_origin = sf_origin latest,
          sf_provider = provider, sf_model = model, sf_tier = tier, sf_machine = re_machine env,
          sf_status = RunQueued, sf_branch = lp_branch plan @ tag @ int_text n, sf_created_at = re_stamp env,
          sf_started_at = None, sf_ended_at = None, sf_cost = 0, sf_outcome = [], sf_error = [], sf_class = [],
          sf_retryable = False, sf_retry_of = root_of latest, sf_attempt = n, sf_max_attempts = max_attempts,
          sf_next_attempt_at = next_at, sf_fallback = fallback, sf_chain = [], sf_mode = ''local'',
          sf_strategy = lp_strategy plan\<rparr>)"

definition next_attempt_plan :: "staff_run \<Rightarrow> launch_plan \<Rightarrow> launch_plan" where
  "next_attempt_plan r plan =
     \<lparr>lp_subject = lp_subject plan, lp_provider = sf_provider r, lp_model = sf_model r, lp_tier = sf_tier r,
      lp_branch = sf_branch r, lp_lease = lp_lease plan, lp_mode = ''local'', lp_strategy = lp_strategy plan\<rparr>"

datatype retry_result =
    Scheduled staff_run launch_plan rat
  | ChainExhausted
  | NotScheduled
  | RetryRaised

text \<open>The claim of an attempt, its event and its worker.\<close>

definition start_attempt ::
    "string \<Rightarrow> staff_run \<Rightarrow> launch_plan \<Rightarrow> rat \<Rightarrow> staff_world \<Rightarrow> retry_result \<times> staff_world" where
  "start_attempt kind r plan delay w =
     (case create_run r w of
        None \<Rightarrow> (NotScheduled, w)
      | Some w1 \<Rightarrow> (Scheduled r plan delay, hand_over (sf_id r) plan (append_event (sf_retry_of r) kind w1)))"

section \<open>Declarative rules\<close>

definition allowed_when_classes :: "string list" where
  "allowed_when_classes = [''provider_capacity'', ''quota_exhausted'', ''rate_limited'']"

definition immediate_classes :: "string list" where
  "immediate_classes = [''provider_capacity'', ''quota_exhausted'']"

definition match_provider_fallback :: "fallback_rule list \<Rightarrow> string \<Rightarrow> string \<Rightarrow> bool \<Rightarrow> fallback_rule option" where
  "match_provider_fallback rules c current exhausted =
     (if c \<notin> set allowed_when_classes then None
      else if c \<notin> set immediate_classes \<and> \<not> exhausted then None
      else List.find (\<lambda>rule. c \<in> set (fr_when rule) \<and>
             (case str_or (fr_from rule) None of None \<Rightarrow> True | Some p \<Rightarrow> p = current)) rules)"

definition try_declarative_fallback ::
    "retry_env \<Rightarrow> staff_run \<Rightarrow> launch_plan \<Rightarrow> role_spec \<Rightarrow> bool \<Rightarrow> staff_world \<Rightarrow> retry_result \<times> staff_world" where
  "try_declarative_fallback env latest plan role exhausted w =
     (case match_provider_fallback (rk_rules role) (sf_class latest) (lp_provider plan) exhausted of
        None \<Rightarrow> (NotScheduled, w)
      | Some rule \<Rightarrow>
          let target = fs_provider (fr_target rule)
          in if \<not> fallback_usable env role target then (NotScheduled, w)
             else if \<not> can_run env role w then (NotScheduled, w)
             else (case re_rule_model env role (fr_target rule) (lp_provider plan) of
                     None \<Rightarrow> (RetryRaised, w)
                   | Some model \<Rightarrow>
                       let r = next_attempt_row env latest plan target model [] ''-fallback-''
                                 (sf_max_attempts latest + 1) None target
                       in start_attempt ''fallback'' r (next_attempt_plan r plan) 0 w))"

section \<open>The failover chain\<close>

definition provider_key :: "string \<Rightarrow> string" where
  "provider_key p = py_strip (py_lower p)"

definition mark_provider_cooldown :: "retry_env \<Rightarrow> string \<Rightarrow> string \<Rightarrow> string \<Rightarrow> staff_world \<Rightarrow> staff_world" where
  "mark_provider_cooldown env p c message w =
     w\<lparr>wr_cooldowns := AList.update (provider_key p) (re_cooldown_end env c message) (wr_cooldowns w)\<rparr>"

definition provider_in_cooldown :: "retry_env \<Rightarrow> string \<Rightarrow> staff_world \<Rightarrow> bool" where
  "provider_in_cooldown env p w =
     (case map_of (wr_cooldowns w) (provider_key p) of None \<Rightarrow> False | Some t \<Rightarrow> re_now env < t)"

definition earliest_cooldown_reset :: "retry_env \<Rightarrow> staff_world \<Rightarrow> string option" where
  "earliest_cooldown_reset env w =
     (case map (re_iso env) (filter (\<lambda>t. re_now env < t) (map snd (wr_cooldowns w))) of
        [] \<Rightarrow> None | t # ts \<Rightarrow> Some (fold min ts t))"

text \<open>The steps of a role: its own chain or the default one, limited to its providers, the active one first.\<close>

definition chain_providers :: "role_spec \<Rightarrow> string list" where
  "chain_providers role =
     (let ro = filter (\<lambda>p. p \<in> set read_only_providers) (rk_providers role)
      in if rk_read_only role \<and> ro \<noteq> [] then ro else rk_providers role)"

definition filtered_chain :: "retry_env \<Rightarrow> role_spec \<Rightarrow> failover_step list" where
  "filtered_chain env role =
     (let providers = chain_providers role;
          own = (\<lambda>p. \<lparr>fs_provider = p, fs_model = (if p = hd providers then rk_model role else None)\<rparr>);
          chain = (if rk_chain role \<noteq> []
                   then filter (\<lambda>s. fs_provider s \<in> set (rk_providers role)) (rk_chain role)
                   else let d = filter (\<lambda>s. fs_provider s \<in> set providers) (re_default_chain env)
                        in d @ map own (filter (\<lambda>p. p \<notin> fs_provider ` set d) providers))
      in if chain = [] then map own providers else chain)"

definition resolve_failover_chain :: "retry_env \<Rightarrow> role_spec \<Rightarrow> failover_step list" where
  "resolve_failover_chain env role =
     (let chain = filtered_chain env role
      in if blank (rk_name role) then chain
         else case re_active_step env (py_lower (py_strip (rk_name role))) of
                None \<Rightarrow> chain
              | Some s \<Rightarrow>
                  if fs_provider s \<in> set (chain_providers role)
                  then \<lparr>fs_provider = fs_provider s,
                        fs_model = (case fs_model s of Some m \<Rightarrow> Some m
                                    | None \<Rightarrow> (case List.find (\<lambda>t. fs_provider t = fs_provider s) chain of
                                        Some t \<Rightarrow> fs_model t | None \<Rightarrow> None))\<rparr>
                       # filter (\<lambda>t. fs_provider t \<noteq> fs_provider s) chain
                  else chain)"

definition slot_key :: "string \<Rightarrow> string \<Rightarrow> string" where
  "slot_key p t = p @ '':'' @ t"

definition append_chain_attempt :: "string \<Rightarrow> string \<Rightarrow> string \<Rightarrow> staff_world \<Rightarrow> staff_world" where
  "append_chain_attempt rid p t w = update_run rid (\<lambda>r. r\<lparr>sf_chain := sf_chain r @ [(p, t)]\<rparr>) w"

definition tried_slots_for_root :: "string \<Rightarrow> staff_world \<Rightarrow> string list" where
  "tried_slots_for_root rid w =
     (case get_run rid w of
        None \<Rightarrow> []
      | Some r \<Rightarrow> map (\<lambda>(p, t). slot_key p t) (sf_chain r) @
                  map (\<lambda>a. slot_key (sf_provider a) (sf_tier a)) (get_attempts rid w))"

definition free_step ::
    "retry_env \<Rightarrow> role_spec \<Rightarrow> string list \<Rightarrow> staff_world \<Rightarrow> staff_tier \<Rightarrow> failover_step list \<Rightarrow> failover_step option" where
  "free_step env role tried w tier chain =
     List.find (\<lambda>s. slot_key (fs_provider s) (staff_tier_text tier) \<notin> set tried \<and>
        \<not> provider_in_cooldown env (fs_provider s) w \<and> step_usable env role (fs_provider s)) chain"

text \<open>The tiers that are searched, from the active one upwards where the role escalates.\<close>

function tiers_from :: "bool \<Rightarrow> staff_tier \<Rightarrow> staff_tier list" where
  "tiers_from escalates t =
     t # (if escalates then (case next_tier_up t of None \<Rightarrow> [] | Some u \<Rightarrow> tiers_from escalates u) else [])"
  by pat_completeness auto

termination tiers_from
  by (relation "measure (\<lambda>(e, t). 2 - staff_tier_rank t)") (auto elim!: next_tier_up.elims)

declare tiers_from.simps [simp del]

fun first_free ::
    "retry_env \<Rightarrow> role_spec \<Rightarrow> string list \<Rightarrow> staff_world \<Rightarrow> failover_step list \<Rightarrow> staff_tier list \<Rightarrow>
     (failover_step \<times> staff_tier) option" where
  "first_free env role tried w chain [] = None"
| "first_free env role tried w chain (t # ts) =
     (case free_step env role tried w t chain of
        Some s \<Rightarrow> Some (s, t)
      | None \<Rightarrow> first_free env role tried w chain ts)"

definition mark_providers_exhausted :: "retry_env \<Rightarrow> staff_run \<Rightarrow> staff_world \<Rightarrow> staff_world" where
  "mark_providers_exhausted env latest w =
     (let reset = earliest_cooldown_reset env w;
          msg = ''All providers in failover chain exhausted; earliest reset ''
                  @ (case reset of Some t \<Rightarrow> t | None \<Rightarrow> ''unknown'');
          block = (\<lambda>r. r\<lparr>sf_status := RunBlocked, sf_class := ''providers_exhausted'', sf_retryable := False,
                       sf_error := msg, sf_next_attempt_at := reset\<rparr>);
          w1 = update_run (sf_id latest) block w;
          w2 = (if root_of latest \<noteq> sf_id latest then update_run (root_of latest) block w1 else w1)
      in append_event (root_of latest) ''providers_exhausted'' w2)"

text \<open>The tier of the next model: \<open>resolve_launch_model\<close> raises it to the tier of the role.\<close>

definition launch_tier :: "role_spec \<Rightarrow> staff_tier \<Rightarrow> staff_tier" where
  "launch_tier role t =
     (let base = normalize_staff_tier (rk_tier role) in if staff_tier_rank base < staff_tier_rank t then t else base)"

definition active_tier :: "staff_run \<Rightarrow> role_spec \<Rightarrow> staff_tier" where
  "active_tier latest role = normalize_staff_tier (if sf_tier latest \<noteq> [] then sf_tier latest else rk_tier role)"

definition try_chain_failover ::
    "retry_env \<Rightarrow> staff_run \<Rightarrow> launch_plan \<Rightarrow> role_spec \<Rightarrow> bool \<Rightarrow> staff_world \<Rightarrow> retry_result \<times> staff_world" where
  "try_chain_failover env latest plan role exhausted w =
     (let c = sf_class latest; root = root_of latest; tier = active_tier latest role
      in if c \<notin> set allowed_when_classes then (NotScheduled, w)
         else if c \<notin> set immediate_classes \<and> \<not> exhausted \<and> c = ''rate_limited'' then (NotScheduled, w)
         else let w1 = append_chain_attempt root (lp_provider plan) (staff_tier_text tier)
                         (mark_provider_cooldown env (lp_provider plan) c (sf_error latest) w)
              in case first_free env role (tried_slots_for_root root w1) w1 (resolve_failover_chain env role)
                        (tiers_from (rk_escalates role) tier) of
                   None \<Rightarrow> (ChainExhausted, mark_providers_exhausted env latest w1)
                 | Some (s, t) \<Rightarrow>
                     if \<not> can_run env role w1 then (NotScheduled, w1)
                     else (case re_step_model env role s t of
                             None \<Rightarrow> (RetryRaised, w1)
                           | Some model \<Rightarrow>
                               let r = next_attempt_row env latest plan (fs_provider s) model
                                         (staff_tier_text (launch_tier role t)) ''-failover-''
                                         (sf_max_attempts latest + 1) None (fs_provider s)
                               in start_attempt ''failover'' r (next_attempt_plan r plan) 0 w1))"

section \<open>After a run\<close>

definition plain_retry ::
    "retry_env \<Rightarrow> staff_run \<Rightarrow> launch_plan \<Rightarrow> staff_world \<Rightarrow> retry_result \<times> staff_world" where
  "plain_retry env latest plan w =
     (let delay = compute_backoff (re_base env) (re_cap env) (sf_attempt latest) (re_jitter env);
          next_at = re_iso env (re_now env + max 0 delay);
          wait = (\<lambda>r. r\<lparr>sf_next_attempt_at := Some next_at\<rparr>);
          w1 = update_run (sf_id latest) wait w;
          w2 = (if root_of latest \<noteq> sf_id latest then update_run (root_of latest) wait w1 else w1);
          r = next_attempt_row env latest plan (lp_provider plan) (lp_model plan) [] ''-retry-''
                (sf_max_attempts latest) (Some next_at) []
      in start_attempt ''retry'' r (next_attempt_plan r plan) delay w2)"

definition legacy_fallback ::
    "retry_env \<Rightarrow> staff_run \<Rightarrow> launch_plan \<Rightarrow> role_spec \<Rightarrow> staff_world \<Rightarrow> retry_result \<times> staff_world" where
  "legacy_fallback env latest plan role w =
     (if \<not> is_retryable_class (sf_class latest) then (NotScheduled, w)
      else case next_fallback_provider role (lp_provider plan) (fallback_usable env role) of
             None \<Rightarrow> (NotScheduled, w)
           | Some p \<Rightarrow>
               if \<not> can_run env role w then (NotScheduled, w)
               else let r = next_attempt_row env latest plan p (lp_model plan) [] ''-fallback-''
                              (sf_max_attempts latest + 1) None p
                    in start_attempt ''fallback'' r (next_attempt_plan r plan) 0 w)"

text \<open>The first of two steps that does not decline.\<close>

definition or_else ::
    "(staff_world \<Rightarrow> retry_result \<times> staff_world) \<Rightarrow> (staff_world \<Rightarrow> retry_result \<times> staff_world) \<Rightarrow>
     staff_world \<Rightarrow> retry_result \<times> staff_world" where
  "or_else f g w = (case f w of (NotScheduled, w1) \<Rightarrow> g w1 | done \<Rightarrow> done)"

definition retry_failed ::
    "retry_env \<Rightarrow> staff_run \<Rightarrow> launch_plan \<Rightarrow> role_spec \<Rightarrow> staff_world \<Rightarrow> retry_result \<times> staff_world" where
  "retry_failed env latest plan role =
     or_else (try_declarative_fallback env latest plan role False)
       (or_else (try_chain_failover env latest plan role False)
         (\<lambda>w. if should_retry (can_run env role w) latest role = RetryAllowed then plain_retry env latest plan w
              else or_else (try_declarative_fallback env latest plan role True)
                     (or_else (try_chain_failover env latest plan role True) (legacy_fallback env latest plan role)) w))"

definition handle_post_execution_retry ::
    "retry_env \<Rightarrow> string \<Rightarrow> launch_plan \<Rightarrow> staff_world \<Rightarrow> retry_result \<times> staff_world" where
  "handle_post_execution_retry env rid plan w =
     (case get_run rid w of
        None \<Rightarrow> (NotScheduled, w)
      | Some latest \<Rightarrow>
          if sf_status latest = RunSucceeded
          then (NotScheduled,
                if sf_retry_of latest = [] then w
                else append_event (sf_retry_of latest) ''retry_success''
                       (update_run (sf_retry_of latest) (\<lambda>r. r\<lparr>sf_status := RunSucceeded,
                          sf_ended_at := sf_ended_at latest, sf_outcome := sf_outcome latest, sf_error := []\<rparr>) w))
          else if sf_status latest \<noteq> RunFailed \<or> rid \<in> set (wr_cancels w) then (NotScheduled, w)
          else case re_role env (rj_role (lp_subject plan)) of
                 None \<Rightarrow> (NotScheduled, w)
               | Some role \<Rightarrow> retry_failed env latest plan role w)"

text \<open>What a worker writes when its CLI ended, and the end of the worker.\<close>

record run_end =
  rf_status :: run_status
  rf_class :: string
  rf_error :: string
  rf_outcome :: string
  rf_cost :: rat

definition write_end :: "retry_env \<Rightarrow> run_end \<Rightarrow> string \<Rightarrow> staff_world \<Rightarrow> staff_world" where
  "write_end env f rid w =
     update_run rid (\<lambda>r. r\<lparr>sf_status := rf_status f, sf_class := rf_class f, sf_error := rf_error f,
        sf_outcome := rf_outcome f, sf_cost := rf_cost f, sf_ended_at := Some (re_stamp env)\<rparr>)
       (append_event rid ''exit'' w)"

definition finish_worker ::
    "retry_env \<Rightarrow> string \<Rightarrow> launch_plan \<Rightarrow> run_end \<Rightarrow> staff_world \<Rightarrow> retry_result \<times> staff_world" where
  "finish_worker env rid plan f w = handle_post_execution_retry env rid plan (drop_worker rid (write_end env f rid w))"

section \<open>Retries from outside the worker\<close>

datatype retry_refusal =
    RunNotFailed
  | RoleUnavailable
  | PolicyRefused retry_verdict
  | RoleOnHold
  | RepoExcluded

datatype retry_decision =
    RetryLaunched string
  | AlreadyClaimed string
  | RetryRefused retry_refusal

definition retry_plan :: "staff_run \<Rightarrow> role_spec \<Rightarrow> launch_plan" where
  "retry_plan r role =
     (let base = (if sf_branch r \<noteq> [] then sf_branch r else ''staff/'' @ rj_role (sf_subject r) @ ''-task'');
          mode = py_lower (py_strip (if sf_mode r \<noteq> [] then sf_mode r else ''local''))
      in \<lparr>lp_subject = sf_subject r, lp_provider = sf_provider r, lp_model = sf_model r, lp_tier = [],
          lp_branch = base @ ''-retry-'' @ int_text (sf_attempt r + 1),
          lp_lease = (if mode = ''cloud'' then False
                      else rk_lease role \<and> rj_target_kind (sf_subject r) = ''issue'' \<and> rj_repo (sf_subject r) \<noteq> []),
          lp_mode = mode, lp_strategy = []\<rparr>)"

definition launch_row :: "retry_env \<Rightarrow> staff_run \<Rightarrow> launch_plan \<Rightarrow> staff_run" where
  "launch_row env latest plan =
     (let n = sf_attempt latest + 1
      in \<lparr>sf_id = attempt_run_id (root_of latest) n, sf_subject = sf_subject latest, sf_origin = sf_origin latest,
          sf_provider = sf_provider latest, sf_model = sf_model latest, sf_tier = [], sf_machine = re_machine env,
          sf_status = RunQueued, sf_branch = lp_branch plan, sf_created_at = re_stamp env, sf_started_at = None,
          sf_ended_at = None, sf_cost = 0, sf_outcome = [], sf_error = [], sf_class = [], sf_retryable = False,
          sf_retry_of = root_of latest, sf_attempt = n, sf_max_attempts = sf_max_attempts latest,
          sf_next_attempt_at = None, sf_fallback = [], sf_chain = [],
          sf_mode = (if sf_mode latest \<noteq> [] then sf_mode latest else ''local''), sf_strategy = []\<rparr>)"

definition launch_retry ::
    "retry_env \<Rightarrow> string \<Rightarrow> string list \<Rightarrow> staff_world \<Rightarrow> retry_decision \<times> staff_world" where
  "launch_retry env rid allow_classes w =
     (case get_run rid w of
        None \<Rightarrow> (RetryRefused RunNotFailed, w)
      | Some latest \<Rightarrow>
          if sf_status latest \<noteq> RunFailed then (RetryRefused RunNotFailed, w)
          else case re_role env (rj_role (sf_subject latest)) of
            None \<Rightarrow> (RetryRefused RoleUnavailable, w)
          | Some role \<Rightarrow>
              if re_adapter env (sf_provider latest) = None then (RetryRefused RoleUnavailable, w)
              else let gated = (if sf_class latest \<in> set allow_classes then latest\<lparr>sf_class := ''provider_error''\<rparr> else latest);
                       v = should_retry (can_run env role w) gated role
                   in if v \<noteq> RetryAllowed then (RetryRefused (PolicyRefused v), w)
                      else if blocking_hold (rk_name role) (rj_repo (sf_subject latest)) (re_holds env) \<noteq> None
                      then (RetryRefused RoleOnHold, w)
                      else if rj_repo (sf_subject latest) \<noteq> [] \<and> re_excluded env (rj_repo (sf_subject latest))
                      then (RetryRefused RepoExcluded, w)
                      else let plan = retry_plan latest role; r = launch_row env latest plan
                           in (case create_run r w of
                                 None \<Rightarrow> (AlreadyClaimed (sf_id r), w)
                               | Some w1 \<Rightarrow> (RetryLaunched (sf_id r),
                                   hand_over (sf_id r) plan (append_event (root_of latest) ''retry'' w1))))"

section \<open>A sample node\<close>

text \<open>A role with one provider, a node that has it, and a run of the role in the hands of its worker.\<close>

definition sample_role :: role_spec where
  "sample_role = \<lparr>rk_name = ''dev'', rk_providers = [''claude'', ''codex''], rk_model = None, rk_tier = ''routine'',
     rk_escalates = True, rk_max_attempts = 2, rk_fallback_providers = [], rk_rules = [], rk_chain = [],
     rk_usd_per_run = 0, rk_usd_per_day = 0, rk_window_percent = None, rk_read_only = False, rk_lease = True\<rparr>"

definition sample_retry_env :: "role_spec \<Rightarrow> retry_env" where
  "sample_retry_env role =
     \<lparr>re_machine = ''desk'', re_role = (\<lambda>n. if n = rk_name role then Some role else None),
      re_adapter = (\<lambda>p. Some \<lparr>pa_unattended = True, pa_installed = True, pa_outdated = False\<rparr>),
      re_disabled = [], re_headroom = (\<lambda>p c. True), re_ceiling = 85, re_day_start = ''t0'', re_now = 100,
      re_stamp = ''t1'', re_iso = (\<lambda>t. ''t2''), re_base = 2, re_cap = 300, re_jitter = 0,
      re_cooldown_end = (\<lambda>c m. 700), re_default_chain = [], re_active_step = (\<lambda>n. None),
      re_step_model = (\<lambda>r s t. Some None), re_rule_model = (\<lambda>r s p. Some None), re_holds = [],
      re_excluded = (\<lambda>r. False)\<rparr>"

definition sample_subject :: run_subject where
  "sample_subject = \<lparr>rj_role = ''dev'', rj_repo = ''app'', rj_target_kind = ''issue'', rj_target_ref = ''#7'', rj_prompt = ''fix''\<rparr>"

definition sample_origin :: run_origin where
  "sample_origin = \<lparr>ry_requested_by = ''ann'', ry_on_behalf_of = [], ry_thread = ''t'', ry_work_item = ''w1'', ry_node = []\<rparr>"

definition sample_launch :: launch_plan where
  "sample_launch = \<lparr>lp_subject = sample_subject, lp_provider = ''claude'', lp_model = None, lp_tier = ''routine'',
     lp_branch = ''b'', lp_lease = False, lp_mode = ''local'', lp_strategy = []\<rparr>"

definition empty_world :: staff_world where
  "empty_world = \<lparr>wr_rows = [], wr_events = [], wr_cooldowns = [], wr_workers = [], wr_launched = [], wr_cancels = []\<rparr>"

definition running_world :: staff_world where
  "running_world = start_cli ''r1'' (begin_run ''r1'' ''t0''
     (launch_admitted sample_launch sample_origin ''desk'' 2 ''r1'' ''local'' ''t0'' empty_world))"

definition failed_end :: "string \<Rightarrow> run_end" where
  "failed_end c = \<lparr>rf_status = RunFailed, rf_class = c, rf_error = ''boom'', rf_outcome = [], rf_cost = 0\<rparr>"

end
