(* ===== verification/Retry_Runs.thy ===== *)
theory Retry_Runs
  imports Run_Retry
begin

text \<open>
  Runs and their retries together: the events of a node, in any order, with retries decided on stale rows, and
  restarts. An id is handed to a worker at most once; a retry that waits for its backoff does not survive a
  restart, though its row does.
\<close>

section \<open>Events\<close>

text \<open>\<open>OpAdmit\<close> is a dispatch, which names the id of its run; \<open>OpSubmit\<close> a submission, for which the runner makes
  an id; \<open>OpClaim\<close> is a claim whose decision was taken at some earlier state.\<close>

datatype run_op =
    OpAdmit launch_plan run_origin string int string string string
  | OpSubmit launch_plan run_origin string int string string string
  | OpBegin string string
  | OpCli string
  | OpFinish retry_env string run_end
  | OpRetry retry_env string "string list"
  | OpClaim string staff_run launch_plan
  | OpCancel string string
  | OpRestart string string

fun run_op_step :: "run_op \<Rightarrow> staff_world \<Rightarrow> staff_world" where
  "run_op_step (OpAdmit plan origin machine n rid mode stamp) w = launch_admitted plan origin machine n rid mode stamp w"
| "run_op_step (OpSubmit plan origin machine n rid mode stamp) w = submit_new_run plan origin machine n rid mode stamp w"
| "run_op_step (OpBegin rid stamp) w = begin_run rid stamp w"
| "run_op_step (OpCli rid) w = start_cli rid w"
| "run_op_step (OpFinish env rid f) w =
     (case worker_of rid w of None \<Rightarrow> w | Some plan \<Rightarrow> snd (finish_worker env rid plan f w))"
| "run_op_step (OpRetry env rid classes) w = snd (launch_retry env rid classes w)"
| "run_op_step (OpClaim kind r plan) w = snd (start_attempt kind r plan 0 w)"
| "run_op_step (OpCancel rid stamp) w = snd (cancel_run rid stamp w)"
| "run_op_step (OpRestart machine stamp) w = restart machine stamp w"

section \<open>Look-ups\<close>

named_theorems world_simps "the parts of a world after an operation"

lemma get_run_update [world_simps]:
  "(\<And>r. sf_id (f r) = sf_id r) \<Longrightarrow>
     get_run k (update_run rid f w) = (if k = rid then map_option f (get_run rid w) else get_run k w)"
  by (simp add: get_run_def update_run_def row_lookup_update)

lemma get_run_other [world_simps]:
  "get_run k (append_event rid kind w) = get_run k w"
  "get_run k (hand_over rid plan w) = get_run k w"
  "get_run k (drop_worker rid w) = get_run k w"
  "get_run k (mark_provider_cooldown env p c m w) = get_run k w"
  by (simp_all add: get_run_def append_event_def hand_over_def drop_worker_def mark_provider_cooldown_def)

lemma get_run_create:
  "create_run r w = Some w' \<longleftrightarrow> get_run (sf_id r) w = None \<and> w' = w\<lparr>wr_rows := wr_rows w @ [r]\<rparr>"
  by (auto simp: create_run_def split: option.splits)

lemma get_run_added [world_simps]:
  "get_run (sf_id r) w = None \<Longrightarrow>
     get_run k (w\<lparr>wr_rows := wr_rows w @ [r]\<rparr>) = (if k = sf_id r then Some r else get_run k w)"
  by (auto simp: get_run_def row_lookup_append split: option.splits)

text \<open>A change of the fields of some rows that leaves the ids, the workers and the history alone.\<close>

definition run_ids :: "staff_world \<Rightarrow> string list" where
  "run_ids w = map sf_id (wr_rows w)"

definition run_keys :: "staff_world \<Rightarrow> (string \<times> string) list" where
  "run_keys w = map (\<lambda>r. (sf_id r, sf_retry_of r)) (wr_rows w)"

lemma run_ids_keys: "run_ids w = map fst (run_keys w)"
  by (simp add: run_ids_def run_keys_def)

definition quiet :: "string set \<Rightarrow> staff_world \<Rightarrow> staff_world \<Rightarrow> bool" where
  "quiet ks w w' = (run_keys w' = run_keys w \<and> wr_workers w' = wr_workers w \<and> wr_launched w' = wr_launched w \<and>
     wr_cancels w' = wr_cancels w \<and> (\<forall>k. k \<notin> ks \<longrightarrow> get_run k w' = get_run k w))"

lemma quiet_refl [simp]: "quiet ks w w"
  by (simp add: quiet_def)

lemma quiet_trans: "quiet ks w w1 \<Longrightarrow> quiet ks w1 w2 \<Longrightarrow> quiet ks w w2"
  by (simp add: quiet_def)

lemma run_keys_update [simp]:
  assumes "\<And>r. sf_id (f r) = sf_id r" and "\<And>r. sf_retry_of (f r) = sf_retry_of r"
  shows "run_keys (update_run k f w) = run_keys w" and "run_ids (update_run k f w) = run_ids w"
proof -
  have "(\<lambda>r. (sf_id r, sf_retry_of r)) \<circ> (\<lambda>r. if sf_id r = k then f r else r) = (\<lambda>r. (sf_id r, sf_retry_of r))"
    using assms by (simp add: fun_eq_iff)
  then show "run_keys (update_run k f w) = run_keys w" by (simp add: run_keys_def update_run_def row_update_def)
  then show "run_ids (update_run k f w) = run_ids w" by (simp add: run_ids_keys)
qed

lemma run_keys_event [simp]: "run_keys (append_event k kind w) = run_keys w" "run_ids (append_event k kind w) = run_ids w"
  by (simp_all add: run_keys_def run_ids_def append_event_def)

lemma append_event_memory [simp]:
  "wr_workers (append_event k kind w) = wr_workers w" "wr_launched (append_event k kind w) = wr_launched w"
  "wr_cancels (append_event k kind w) = wr_cancels w"
  by (simp_all add: append_event_def)

lemma update_run_memory [simp]:
  "wr_workers (update_run k f w) = wr_workers w" "wr_launched (update_run k f w) = wr_launched w"
  "wr_cancels (update_run k f w) = wr_cancels w"
  by (simp_all add: update_run_def)

lemma quiet_update [simp]:
  "(\<And>r. sf_id (f r) = sf_id r) \<Longrightarrow> (\<And>r. sf_retry_of (f r) = sf_retry_of r) \<Longrightarrow> k \<in> ks \<Longrightarrow> quiet ks w w1 \<Longrightarrow> quiet ks w (update_run k f w1)"
  by (auto simp: quiet_def get_run_update)

lemma quiet_event [simp]: "quiet ks w w1 \<Longrightarrow> quiet ks w (append_event k kind w1)"
  by (simp add: quiet_def world_simps)

lemma quiet_cooldown [simp]: "quiet ks w w1 \<Longrightarrow> quiet ks w (mark_provider_cooldown env p c m w1)"
  by (auto simp: quiet_def run_keys_def world_simps) (auto simp: mark_provider_cooldown_def)

lemma quiet_chain [simp]: "k \<in> ks \<Longrightarrow> quiet ks w w1 \<Longrightarrow> quiet ks w (append_chain_attempt k p t w1)"
  unfolding append_chain_attempt_def by (rule quiet_update) auto

lemma get_run_ids: "get_run k w = None \<longleftrightarrow> k \<notin> set (run_ids w)"
  by (simp add: get_run_def run_ids_def row_lookup_None_iff)

section \<open>What a retry does to a world\<close>

text \<open>Quiet changes, then, where it schedules an attempt, the claim of a fresh id.\<close>

definition retries_to :: "string set \<Rightarrow> staff_world \<Rightarrow> retry_result \<Rightarrow> staff_world \<Rightarrow> bool" where
  "retries_to ks w res w' =
     (case res of
        Scheduled r plan d \<Rightarrow>
          (\<exists>w1 kind. quiet ks w w1 \<and> get_run (sf_id r) w1 = None \<and>
             w' = hand_over (sf_id r) plan (append_event (sf_retry_of r) kind (w1\<lparr>wr_rows := wr_rows w1 @ [r]\<rparr>)))
      | _ \<Rightarrow> quiet ks w w')"

lemma retries_quiet: "quiet ks w w' \<Longrightarrow> (\<forall>r plan d. res \<noteq> Scheduled r plan d) \<Longrightarrow> retries_to ks w res w'"
  by (cases res) (auto simp: retries_to_def)

lemma retries_claimed:
  assumes "quiet ks w w1" and "get_run (sf_id r) w1 = None"
  shows "retries_to ks w (Scheduled r plan d)
     (hand_over (sf_id r) plan (append_event (sf_retry_of r) kind (w1\<lparr>wr_rows := wr_rows w1 @ [r]\<rparr>)))"
  unfolding retries_to_def retry_result.case using assms by blast

lemma retries_start:
  assumes "quiet ks w w1" and "start_attempt kind r plan d w1 = (res, w')"
  shows "retries_to ks w res w'"
proof (cases "create_run r w1")
  case None
  with assms show ?thesis by (auto simp: start_attempt_def retries_to_def)
next
  case (Some w2)
  then have "get_run (sf_id r) w1 = None" "w2 = w1\<lparr>wr_rows := wr_rows w1 @ [r]\<rparr>" by (simp_all add: get_run_create)
  with assms Some retries_claimed show ?thesis by (auto simp: start_attempt_def)
qed

lemma retries_after: "quiet ks w w1 \<Longrightarrow> retries_to ks w1 res w' \<Longrightarrow> retries_to ks w res w'"
  unfolding retries_to_def by (cases res) (auto intro: quiet_trans)

lemma or_else_cases:
  assumes "or_else f g w = (res, w')"
  obtains (first) "f w = (res, w')" "res \<noteq> NotScheduled" | (second) w1 where "f w = (NotScheduled, w1)" "g w1 = (res, w')"
  using assms by (auto simp: or_else_def split: prod.splits retry_result.splits)

lemma retries_or_else:
  assumes "\<And>w res w'. f w = (res, w') \<Longrightarrow> retries_to ks w res w'"
    and "\<And>w res w'. g w = (res, w') \<Longrightarrow> retries_to ks w res w'"
    and "or_else f g w = (res, w')"
  shows "retries_to ks w res w'"
  using assms(3)
proof (cases rule: or_else_cases)
  case first
  then show ?thesis using assms(1) by blast
next
  case (second w1)
  from assms(1) [OF second(1)] have "quiet ks w w1" by (simp add: retries_to_def)
  then show ?thesis using assms(2) [OF second(2)] by (rule retries_after)
qed

lemma retries_declarative:
  "try_declarative_fallback env latest plan role ex w = (res, w') \<Longrightarrow> retries_to ks w res w'"
  by (auto simp: try_declarative_fallback_def Let_def split: option.splits if_splits
      intro: retries_quiet retries_start [OF quiet_refl])

lemma quiet_exhausted:
  assumes "sf_id latest \<in> ks" and "root_of latest \<in> ks" and "quiet ks w w1"
  shows "quiet ks w (mark_providers_exhausted env latest w1)"
  using assms unfolding mark_providers_exhausted_def Let_def by auto

lemma retries_chain:
  assumes "sf_id latest \<in> ks" and "root_of latest \<in> ks"
    and "try_chain_failover env latest plan role ex w = (res, w')"
  shows "retries_to ks w res w'"
proof -
  let ?w1 = "append_chain_attempt (root_of latest) (lp_provider plan) (staff_tier_text (active_tier latest role))
    (mark_provider_cooldown env (lp_provider plan) (sf_class latest) (sf_error latest) w)"
  have q: "quiet ks w ?w1" by (intro quiet_chain quiet_cooldown quiet_refl assms(2))
  with quiet_exhausted [OF assms(1,2) q] assms(3) show ?thesis
    by (auto simp: try_chain_failover_def Let_def split: option.splits if_splits prod.splits
        intro: retries_quiet retries_start)
qed

lemma retries_plain:
  assumes "sf_id latest \<in> ks" and "root_of latest \<in> ks" and "plain_retry env latest plan w = (res, w')"
  shows "retries_to ks w res w'"
proof -
  let ?wait = "\<lambda>r. r\<lparr>sf_next_attempt_at := Some (re_iso env (re_now env +
    max 0 (compute_backoff (re_base env) (re_cap env) (sf_attempt latest) (re_jitter env))))\<rparr>"
  have "quiet ks w (if root_of latest \<noteq> sf_id latest then update_run (root_of latest) ?wait (update_run (sf_id latest) ?wait w)
      else update_run (sf_id latest) ?wait w)"
    by (simp add: assms(1,2) quiet_update)
  from retries_start [OF this] assms(3) show ?thesis by (simp add: plain_retry_def Let_def)
qed

lemma retries_legacy: "legacy_fallback env latest plan role w = (res, w') \<Longrightarrow> retries_to ks w res w'"
  by (auto simp: legacy_fallback_def Let_def split: option.splits if_splits
      intro: retries_quiet retries_start [OF quiet_refl])

lemma retries_failed:
  assumes "sf_id latest \<in> ks" and "root_of latest \<in> ks" and "retry_failed env latest plan role w = (res, w')"
  shows "retries_to ks w res w'"
proof -
  have later: "retries_to ks w res w'" if "or_else (try_declarative_fallback env latest plan role True)
      (or_else (try_chain_failover env latest plan role True) (legacy_fallback env latest plan role)) w = (res, w')"
    for w res w'
    using that by (elim retries_or_else [rotated 2] retries_declarative retries_chain [OF assms(1,2)] retries_legacy)
  show ?thesis
    using assms(3) unfolding retry_failed_def
    by (elim retries_or_else [rotated 2] retries_declarative retries_chain [OF assms(1,2)])
      (auto split: if_splits intro: later retries_plain [OF assms(1,2)])
qed

lemma retries_handled:
  assumes "rid \<in> ks" and "\<And>r. get_run rid w = Some r \<Longrightarrow> root_of r \<in> ks"
    and "handle_post_execution_retry env rid plan w = (res, w')"
  shows "retries_to ks w res w'"
proof (cases "get_run rid w")
  case None
  with assms(3) show ?thesis by (simp add: handle_post_execution_retry_def retries_to_def)
next
  case (Some latest)
  then have id: "sf_id latest \<in> ks" using assms(1) row_lookup_SomeD by (fastforce simp: get_run_def)
  have rt: "root_of latest \<in> ks" using assms(2) Some by blast
  show ?thesis
  proof (cases "sf_status latest = RunSucceeded")
    case True
    have "quiet ks w w'" using assms(3) Some True rt by (auto simp: handle_post_execution_retry_def root_of_def split: if_splits)
    then show ?thesis using assms(3) Some True by (auto simp: handle_post_execution_retry_def retries_to_def)
  next
    case False
    with assms(3) Some retries_failed [OF id rt] show ?thesis
      by (auto simp: handle_post_execution_retry_def split: if_splits option.splits intro: retries_quiet)
  qed
qed

section \<open>Every id is handed over once\<close>

definition handed_once :: "staff_world \<Rightarrow> bool" where
  "handed_once w = (distinct (run_ids w) \<and> distinct (wr_launched w) \<and> set (wr_launched w) \<subseteq> set (run_ids w) \<and>
     distinct (map fst (wr_workers w)) \<and> fst ` set (wr_workers w) \<subseteq> set (wr_launched w))"

lemma handed_quiet: "quiet ks w w' \<Longrightarrow> handed_once w \<Longrightarrow> handed_once w'"
  by (simp add: quiet_def handed_once_def run_ids_keys)

lemma handed_claim:
  assumes "handed_once w" and "get_run (sf_id r) w = None"
  shows "handed_once (hand_over (sf_id r) plan (append_event k kind (w\<lparr>wr_rows := wr_rows w @ [r]\<rparr>)))"
  using assms by (auto simp: handed_once_def get_run_ids run_ids_def hand_over_def append_event_def)

lemma handed_retry: "retries_to ks w res w' \<Longrightarrow> handed_once w \<Longrightarrow> handed_once w'"
  by (cases res) (auto simp: retries_to_def intro: handed_quiet handed_claim)

lemma handed_drop: "handed_once w \<Longrightarrow> handed_once (drop_worker rid w)"
  by (auto simp: handed_once_def drop_worker_def run_ids_def distinct_map_filter)

lemma handed_memory:
  "run_ids w' = run_ids w \<Longrightarrow> wr_launched w' = wr_launched w \<Longrightarrow> wr_workers w' = wr_workers w \<Longrightarrow>
     handed_once w \<Longrightarrow> handed_once w'"
  by (simp add: handed_once_def)

lemma launch_admitted_eq:
  "launch_admitted plan origin machine n rid mode stamp w =
     (if get_run rid w = None
      then hand_over rid plan (append_event rid ''queued''
             (w\<lparr>wr_rows := wr_rows w @ [new_run_record plan origin machine n rid mode stamp]\<rparr>))
      else w)"
  by (cases "get_run rid w") (simp_all add: launch_admitted_def admit_run_def Let_def create_run_def new_run_record_def)

lemma new_run_fields [simp]:
  "sf_id (new_run_record plan origin machine n rid mode stamp) = rid"
  "sf_retry_of (new_run_record plan origin machine n rid mode stamp) = []"
  by (simp_all add: new_run_record_def)

lemma handed_admitted: "handed_once w \<Longrightarrow> handed_once (launch_admitted plan origin machine n rid mode stamp w)"
  using handed_claim [of w "new_run_record plan origin machine n rid mode stamp"] by (simp add: launch_admitted_eq)

text \<open>The id that the runner makes for a submission is one that no run has.\<close>

definition id_is_new :: "run_op \<Rightarrow> staff_world \<Rightarrow> bool" where
  "id_is_new e w = (case e of OpSubmit plan origin machine n rid mode stamp \<Rightarrow> get_run rid w = None | _ \<Rightarrow> True)"

fun new_ids :: "run_op list \<Rightarrow> staff_world \<Rightarrow> bool" where
  "new_ids [] w = True"
| "new_ids (e # es) w = (id_is_new e w \<and> new_ids es (run_op_step e w))"

lemma submit_new_run_eq:
  "get_run rid w = None \<Longrightarrow>
     submit_new_run plan origin machine n rid mode stamp w = launch_admitted plan origin machine n rid mode stamp w"
  by (simp add: submit_new_run_def launch_admitted_def admit_run_def Let_def create_run_def new_run_record_def)

lemma quiet_weaken: "quiet ks w w' \<Longrightarrow> ks \<subseteq> ls \<Longrightarrow> quiet ls w w'"
  by (auto simp: quiet_def)

lemma quiet_orphans: "quiet (set ids) w (fold (mark_orphaned stamp) ids w)"
proof (induction ids arbitrary: w)
  case (Cons i ids)
  have "quiet (set (i # ids)) w (mark_orphaned stamp i w)" by (simp add: mark_orphaned_def)
  moreover have "quiet (set (i # ids)) (mark_orphaned stamp i w) (fold (mark_orphaned stamp) ids (mark_orphaned stamp i w))"
    using Cons.IH by (rule quiet_weaken) auto
  ultimately show ?case by (auto intro: quiet_trans)
qed simp

lemma restart_quiet:
  "quiet (set (fst (reconcile_orphaned_runs machine stamp (w\<lparr>wr_workers := [], wr_cancels := []\<rparr>))))
     (w\<lparr>wr_workers := [], wr_cancels := []\<rparr>) (restart machine stamp w)"
  unfolding restart_def reconcile_orphaned_runs_def Let_def fst_conv snd_conv by (rule quiet_orphans)

lemma handed_restart: "handed_once w \<Longrightarrow> handed_once (restart machine stamp w)"
  by (rule handed_quiet [OF restart_quiet]) (simp add: handed_once_def run_ids_def)

lemma launch_retry_retries:
  assumes "launch_retry env rid classes w = (d, w')"
  obtains "w' = w" | r plan kind where "d = RetryLaunched (sf_id r)" "get_run (sf_id r) w = None"
    "w' = hand_over (sf_id r) plan (append_event (sf_retry_of r) kind (w\<lparr>wr_rows := wr_rows w @ [r]\<rparr>))"
proof (cases "w' = w")
  case False
  then obtain latest role r w1 where r: "r = launch_row env latest (retry_plan latest role)"
    and c: "create_run r w = Some w1" and d: "d = RetryLaunched (sf_id r)"
    and w': "w' = hand_over (sf_id r) (retry_plan latest role) (append_event (root_of latest) ''retry'' w1)"
    using assms by (auto simp: launch_retry_def Let_def split: option.splits if_splits)
  have "root_of latest = sf_retry_of r" by (simp add: r launch_row_def Let_def)
  then show ?thesis using that(2) [of r] c d w' by (simp add: get_run_create)
qed (rule that(1))

lemma handed_step: "handed_once w \<Longrightarrow> id_is_new e w \<Longrightarrow> handed_once (run_op_step e w)"
proof (cases e)
  case (OpBegin rid stamp)
  assume "handed_once w"
  then show ?thesis using handed_drop by (auto simp: OpBegin begin_run_def intro: handed_memory [of _ w])
next
  case (OpCli rid)
  assume "handed_once w"
  then show ?thesis by (auto simp: OpCli start_cli_def intro: handed_memory [of _ w])
next
  case (OpFinish env rid f)
  assume h: "handed_once w"
  show ?thesis
  proof (cases "worker_of rid w")
    case (Some plan)
    let ?w = "drop_worker rid (write_end env f rid w)"
    have "handed_once (write_end env f rid w)" using h by (auto simp: write_end_def intro: handed_memory [of _ w])
    then have "handed_once ?w" by (rule handed_drop)
    moreover obtain res w' where r: "handle_post_execution_retry env rid plan ?w = (res, w')" by fastforce
    moreover have "retries_to UNIV ?w res w'" using retries_handled [of rid UNIV, OF _ _ r] by simp
    ultimately show ?thesis using Some by (simp add: OpFinish finish_worker_def handed_retry)
  qed (simp add: OpFinish h)
next
  case (OpRetry env rid classes)
  assume h: "handed_once w"
  obtain d w' where l: "launch_retry env rid classes w = (d, w')" by fastforce
  from this h show ?thesis by (cases rule: launch_retry_retries) (simp_all add: OpRetry l handed_claim)
next
  case (OpClaim kind r plan)
  assume h: "handed_once w"
  obtain res w' where "start_attempt kind r plan 0 w = (res, w')" by fastforce
  with h handed_retry [OF retries_start [OF quiet_refl this]] show ?thesis by (simp add: OpClaim)
next
  case (OpCancel rid stamp)
  assume h: "handed_once w"
  then have "handed_once (w\<lparr>wr_cancels := cs\<rparr>)" for cs by (simp add: handed_once_def run_ids_def)
  then show ?thesis
    by (auto simp: OpCancel cancel_run_def Let_def split: option.splits intro: handed_memory [of _ "w\<lparr>wr_cancels := rid # wr_cancels w\<rparr>"])
qed (simp_all add: handed_admitted handed_restart submit_new_run_eq id_is_new_def)

text \<open>The process starts on any table of runs.\<close>

definition fresh_process :: "staff_world \<Rightarrow> bool" where
  "fresh_process w = (distinct (run_ids w) \<and> wr_workers w = [] \<and> wr_launched w = [])"

text \<open>C22: Whatever dispatches, submissions, ends of workers, retries from a worker or from outside, stale decisions,
  cancellations and restarts follow each other, an id is handed to a worker at most once, and no run has two workers,
  as long as the ids that the runner makes for submissions are new; dispatches may repeat theirs.\<close>

theorem attempt_launched_once:
  assumes "fresh_process w" and "new_ids ops w"
  shows "distinct (wr_launched (fold run_op_step ops w)) \<and> distinct (map fst (wr_workers (fold run_op_step ops w)))"
proof -
  have "handed_once w" using assms(1) by (simp add: fresh_process_def handed_once_def)
  then have "handed_once (fold run_op_step ops w)"
    using assms(2) by (induction ops arbitrary: w) (simp_all add: handed_step)
  then show ?thesis by (simp add: handed_once_def)
qed

definition busy_ops :: "run_op list" where
  "busy_ops = [OpAdmit sample_launch sample_origin ''desk'' 2 ''r1'' ''local'' ''t0'', OpBegin ''r1'' ''t0'',
     OpFinish (sample_retry_env sample_role) ''r1'' (failed_end ''provider_error''),
     OpRetry (sample_retry_env sample_role) ''r1'' [], OpAdmit sample_launch sample_origin ''desk'' 2 ''r1'' ''local'' ''t0'',
     OpSubmit sample_launch sample_origin ''desk'' 2 ''run-0'' ''local'' ''t0'', OpRestart ''desk'' ''t1'']"

lemma attempt_launched_once_witness:
  "wr_launched (fold run_op_step busy_ops empty_world) = [''r1'', ''r1-a2'', ''run-0''] \<and>
   distinct (wr_launched (fold run_op_step busy_ops empty_world)) \<and>
   distinct (map fst (wr_workers (fold run_op_step busy_ops empty_world)))"
proof
  show "wr_launched (fold run_op_step busy_ops empty_world) = [''r1'', ''r1-a2'', ''run-0'']" by code_simp
  have "fresh_process empty_world" and "new_ids busy_ops empty_world" by code_simp+
  from attempt_launched_once [OF this]
  show "distinct (wr_launched (fold run_op_step busy_ops empty_world)) \<and>
    distinct (map fst (wr_workers (fold run_op_step busy_ops empty_world)))" .
qed

text \<open>Without that, a submission starts a second worker for the run that has its id.\<close>

lemma submit_relaunches:
  "wr_launched (fold run_op_step
     [OpSubmit sample_launch sample_origin ''desk'' 2 ''run-0'' ''local'' ''t0'',
      OpSubmit sample_launch sample_origin ''desk'' 2 ''run-0'' ''local'' ''t1''] empty_world) = [''run-0'', ''run-0'']"
  by code_simp

section \<open>A retry that waits, over a restart\<close>

definition stuck_attempt :: "string \<Rightarrow> string \<Rightarrow> staff_world \<Rightarrow> bool" where
  "stuck_attempt a role w =
     (a \<noteq> [] \<and> handed_once w \<and> a \<notin> fst ` set (wr_workers w) \<and> a \<notin> snd ` set (run_keys w) \<and>
      (\<exists>r. get_run a w = Some r \<and> waits_for_retry r \<and> rj_role (sf_subject r) = role))"

lemma run_keys_parts:
  "set (run_ids w) = fst ` set (run_keys w)" "r \<in> set (wr_rows w) \<Longrightarrow> sf_retry_of r \<in> snd ` set (run_keys w)"
  by (force simp: run_ids_def run_keys_def)+

lemma get_run_in: "get_run k w = Some r \<Longrightarrow> r \<in> set (wr_rows w) \<and> sf_id r = k"
  by (auto simp: get_run_def dest: row_lookup_SomeD)

lemma stuck_quiet:
  assumes "stuck_attempt a role w" and "quiet ks w w'" and "a \<notin> ks"
  shows "stuck_attempt a role w'"
  using assms handed_quiet [OF assms(2)] by (auto simp: stuck_attempt_def quiet_def)

lemma stuck_claim:
  assumes "stuck_attempt a role w" and "get_run (sf_id r) w = None" and "sf_retry_of r \<noteq> a"
  shows "stuck_attempt a role (hand_over (sf_id r) plan (append_event k kind (w\<lparr>wr_rows := wr_rows w @ [r]\<rparr>)))"
proof -
  let ?w = "hand_over (sf_id r) plan (append_event k kind (w\<lparr>wr_rows := wr_rows w @ [r]\<rparr>))"
  have parts: "wr_workers ?w = wr_workers w @ [(sf_id r, plan)]" "run_keys ?w = run_keys w @ [(sf_id r, sf_retry_of r)]"
    by (simp_all add: hand_over_def append_event_def run_keys_def)
  have "get_run a ?w = get_run a w" using assms(1,2) by (auto simp: stuck_attempt_def world_simps)
  moreover have "sf_id r \<noteq> a" using assms(1,2) by (auto simp: stuck_attempt_def)
  ultimately show ?thesis using assms handed_claim [of w r plan k kind] by (auto simp: stuck_attempt_def parts)
qed

lemma stuck_retry:
  assumes "stuck_attempt a role w" and "retries_to ks w res w'" and "a \<notin> ks"
    and "\<And>r plan d. res = Scheduled r plan d \<Longrightarrow> sf_retry_of r \<noteq> a"
  shows "stuck_attempt a role w'"
  using assms by (cases res) (auto simp: retries_to_def intro: stuck_quiet stuck_claim)

lemma next_attempt_fields [simp]:
  "sf_id (next_attempt_row env latest plan p m t tag n nx fb) = attempt_run_id (root_of latest) (sf_attempt latest + 1)"
  "sf_retry_of (next_attempt_row env latest plan p m t tag n nx fb) = root_of latest"
  "sf_subject (next_attempt_row env latest plan p m t tag n nx fb) = lp_subject plan"
  "sf_provider (next_attempt_row env latest plan p m t tag n nx fb) = p"
  "sf_tier (next_attempt_row env latest plan p m t tag n nx fb) = t"
  "sf_attempt (next_attempt_row env latest plan p m t tag n nx fb) = sf_attempt latest + 1"
  "sf_max_attempts (next_attempt_row env latest plan p m t tag n nx fb) = n"
  "sf_next_attempt_at (next_attempt_row env latest plan p m t tag n nx fb) = nx"
  "sf_status (next_attempt_row env latest plan p m t tag n nx fb) = RunQueued"
  "sf_mode (next_attempt_row env latest plan p m t tag n nx fb) = ''local''"
  by (simp_all add: next_attempt_row_def Let_def)

lemma start_attempt_Scheduled:
  "start_attempt kind r plan d w = (Scheduled r' p' d', w') \<longleftrightarrow>
     r' = r \<and> p' = plan \<and> d' = d \<and> get_run (sf_id r) w = None \<and>
     w' = hand_over (sf_id r) plan (append_event (sf_retry_of r) kind (w\<lparr>wr_rows := wr_rows w @ [r]\<rparr>))"
  by (cases "get_run (sf_id r) w") (auto simp: start_attempt_def create_run_def)

lemma scheduled_after:
  assumes "retry_failed env latest plan role w = (Scheduled r p d, w')"
  shows "sf_retry_of r = root_of latest \<and> sf_id r = attempt_run_id (root_of latest) (sf_attempt latest + 1) \<and>
     p = next_attempt_plan r plan"
    (is "?P r p")
proof -
  have 1: "try_declarative_fallback env latest plan role ex w = (Scheduled r p d, w') \<Longrightarrow> ?P r p"
    for ex w w' by (auto simp: try_declarative_fallback_def Let_def start_attempt_Scheduled split: option.splits if_splits)
  have 2: "try_chain_failover env latest plan role ex w = (Scheduled r p d, w') \<Longrightarrow> ?P r p"
    for ex w w' by (auto simp: try_chain_failover_def Let_def start_attempt_Scheduled split: option.splits if_splits prod.splits)
  have 3: "plain_retry env latest plan w = (Scheduled r p d, w') \<Longrightarrow> ?P r p"
    for w w' by (auto simp: plain_retry_def Let_def start_attempt_Scheduled)
  have 4: "legacy_fallback env latest plan role w = (Scheduled r p d, w') \<Longrightarrow> ?P r p"
    for w w' by (auto simp: legacy_fallback_def Let_def start_attempt_Scheduled split: option.splits if_splits)
  show ?thesis using assms unfolding retry_failed_def
    by (auto elim!: or_else_cases split: if_splits dest: 1 2 3 4)
qed

lemma handled_after:
  assumes "handle_post_execution_retry env rid plan w = (Scheduled r p d, w')"
  shows "\<exists>latest. get_run rid w = Some latest \<and> sf_retry_of r = root_of latest \<and>
     sf_id r = attempt_run_id (root_of latest) (sf_attempt latest + 1) \<and> p = next_attempt_plan r plan"
  using assms by (auto simp: handle_post_execution_retry_def split: option.splits if_splits dest: scheduled_after)

lemma write_end_quiet: "quiet {rid} w (write_end env f rid w)"
  by (simp add: write_end_def)

lemma root_of_keys: "get_run rid w = Some r \<Longrightarrow> root_of r = rid \<or> root_of r \<in> snd ` set (run_keys w)"
  using get_run_in run_keys_parts(2) by (fastforce simp: root_of_def)

fun touches :: "string \<Rightarrow> run_op \<Rightarrow> bool" where
  "touches a (OpCancel rid stamp) = (rid = a)"
| "touches a (OpClaim kind r plan) = (sf_retry_of r = a)"
| "touches a _ = False"

lemma drop_worker_keys [simp]: "run_keys (drop_worker rid w) = run_keys w"
  by (simp add: drop_worker_def run_keys_def)

lemma drop_worker_sub: "x \<in> set (wr_workers (drop_worker rid w)) \<Longrightarrow> x \<in> set (wr_workers w)"
  by (simp add: drop_worker_def)

lemma stuck_drop: "stuck_attempt a role w \<Longrightarrow> stuck_attempt a role (drop_worker rid w)"
  using handed_drop [of w rid] by (auto simp: stuck_attempt_def world_simps dest!: drop_worker_sub)

lemma stuck_finish:
  assumes "stuck_attempt a role w" and "worker_of rid w = Some plan"
  shows "stuck_attempt a role (snd (finish_worker env rid plan f w))"
proof -
  have "rid \<in> fst ` set (wr_workers w)" using assms(2) by (force simp: worker_of_def dest: map_of_SomeD)
  then have rid: "rid \<noteq> a" using assms(1) by (auto simp: stuck_attempt_def)
  let ?w = "drop_worker rid (write_end env f rid w)"
  have "stuck_attempt a role (write_end env f rid w)" using stuck_quiet [OF assms(1) write_end_quiet] rid by simp
  then have w: "stuck_attempt a role ?w"
    by (rule stuck_drop)
  obtain res w' where h: "handle_post_execution_retry env rid plan ?w = (res, w')" by fastforce
  let ?ks = "insert rid (root_of ` set_option (get_run rid ?w))"
  have keys: "a \<notin> snd ` set (run_keys ?w)" using w by (simp add: stuck_attempt_def)
  then have ks: "a \<notin> ?ks" using rid root_of_keys [of rid ?w] by (auto simp del: run_keys_update)
  have "retries_to ?ks ?w res w'" using h by (rule retries_handled [rotated 2]) auto
  from stuck_retry [OF w this ks] have "stuck_attempt a role w'"
    using handled_after [of env rid plan ?w] h ks by fastforce
  then show ?thesis by (simp add: finish_worker_def h)
qed

lemma stuck_launch:
  assumes "stuck_attempt a role w" and "launch_retry env rid classes w = (d, w')"
  shows "stuck_attempt a role w'"
proof (cases "w' = w")
  case False
  then obtain latest spec w1 where latest: "get_run rid w = Some latest" "sf_status latest = RunFailed"
    and c: "create_run (launch_row env latest (retry_plan latest spec)) w = Some w1"
    and w': "w' = hand_over (sf_id (launch_row env latest (retry_plan latest spec))) (retry_plan latest spec)
      (append_event (root_of latest) ''retry'' w1)"
    using assms(2) by (auto simp: launch_retry_def Let_def split: option.splits if_splits)
  have "rid \<noteq> a" using latest assms(1) by (auto simp: stuck_attempt_def waits_for_retry_def)
  then have "root_of latest \<noteq> a" using root_of_keys [OF latest(1)] assms(1) by (auto simp: stuck_attempt_def)
  moreover define r where "r = launch_row env latest (retry_plan latest spec)"
  moreover have "sf_retry_of r = root_of latest" by (simp add: r_def launch_row_def Let_def)
  ultimately show ?thesis
    using c w' stuck_claim [OF assms(1), of r "retry_plan latest spec" "root_of latest" "''retry''"]
    by (simp add: get_run_create)
qed (use assms in simp)

lemma stuck_memory:
  "run_keys w' = run_keys w \<Longrightarrow> wr_launched w' = wr_launched w \<Longrightarrow> wr_workers w' = wr_workers w \<Longrightarrow>
     get_run a w' = get_run a w \<Longrightarrow> stuck_attempt a role w \<Longrightarrow> stuck_attempt a role w'"
  by (simp add: stuck_attempt_def handed_once_def run_ids_keys)

lemma stuck_not_worker: "stuck_attempt a role w \<Longrightarrow> worker_of a w = None"
  by (auto simp: stuck_attempt_def worker_of_def map_of_eq_None_iff)

lemma orphans_spare_waiting:
  assumes "stuck_attempt a role w"
  shows "a \<notin> set (fst (reconcile_orphaned_runs machine stamp w))"
proof
  assume "a \<in> set (fst (reconcile_orphaned_runs machine stamp w))"
  then obtain r where r: "r \<in> set (wr_rows w)" "sf_id r = a" "orphaned machine r"
    by (auto simp: reconcile_orphaned_runs_def Let_def active_runs_def)
  then have "get_run a w = Some r"
    using assms by (simp add: stuck_attempt_def handed_once_def run_ids_def get_run_def row_lookup_Some_iff keyed_def)
  with r assms show False by (auto simp: stuck_attempt_def orphaned_def)
qed

lemma stuck_restart_new:
  assumes "stuck_attempt a role (w\<lparr>wr_workers := [], wr_cancels := []\<rparr>)"
  shows "stuck_attempt a role (restart machine stamp w)"
  by (rule stuck_quiet [OF assms restart_quiet orphans_spare_waiting [OF assms]])

lemma stuck_restart: "stuck_attempt a role w \<Longrightarrow> stuck_attempt a role (restart machine stamp w)"
  by (rule stuck_restart_new) (simp add: stuck_attempt_def handed_once_def run_ids_def run_keys_def get_run_def)

lemma stuck_op:
  assumes s: "stuck_attempt a role w" and "\<not> touches a e" and "id_is_new e w"
  shows "stuck_attempt a role (run_op_step e w)"
proof (cases e)
  case (OpAdmit plan origin machine n rid mode stamp)
  have "a \<noteq> []" using s by (simp add: stuck_attempt_def)
  with stuck_claim [OF s, of "new_run_record plan origin machine n rid mode stamp"] s show ?thesis
    by (simp add: OpAdmit launch_admitted_eq)
next
  case (OpSubmit plan origin machine n rid mode stamp)
  have "a \<noteq> []" using s by (simp add: stuck_attempt_def)
  with stuck_claim [OF s, of "new_run_record plan origin machine n rid mode stamp"] s assms(3) show ?thesis
    by (simp add: OpSubmit submit_new_run_eq launch_admitted_eq id_is_new_def)
next
  case (OpBegin rid stamp)
  show ?thesis
  proof (cases "rid = a")
    case False
    with s show ?thesis by (auto simp: OpBegin begin_run_def stuck_drop intro: stuck_quiet [of _ _ _ "{rid}"])
  qed (simp add: OpBegin begin_run_def stuck_not_worker [OF s] s)
next
  case (OpCli rid)
  show ?thesis
  proof (cases "rid = a")
    case False
    with s show ?thesis by (auto simp: OpCli start_cli_def intro: stuck_quiet [of _ _ _ "{rid}"])
  qed (simp add: OpCli start_cli_def stuck_not_worker [OF s] s)
next
  case (OpFinish env rid f)
  then show ?thesis using s stuck_finish by (simp split: option.split)
next
  case (OpRetry env rid classes)
  then show ?thesis using s stuck_launch by (metis prod.collapse run_op_step.simps(6))
next
  case (OpClaim kind r plan)
  obtain res w' where st: "start_attempt kind r plan 0 w = (res, w')" by fastforce
  have "sf_retry_of r' \<noteq> a" if "res = Scheduled r' p' d'" for r' p' d'
    using st that assms(2) by (simp add: OpClaim start_attempt_Scheduled)
  with stuck_retry [OF s retries_start [OF quiet_refl st], of "{}"] show ?thesis by (simp add: OpClaim st)
next
  case (OpCancel rid stamp)
  let ?w = "w\<lparr>wr_cancels := rid # wr_cancels w\<rparr>"
  have "stuck_attempt a role ?w" using s by (auto simp: run_keys_def get_run_def intro: stuck_memory)
  moreover have "rid \<noteq> a" using assms(2) by (simp add: OpCancel)
  ultimately show ?thesis
    by (auto simp: OpCancel cancel_run_def Let_def split: option.splits intro: stuck_quiet [of _ _ _ "{rid}"])
qed (simp add: stuck_restart s)

lemma stuck_ops:
  "stuck_attempt a role w \<Longrightarrow> list_all (\<lambda>e. \<not> touches a e) ops \<Longrightarrow> new_ids ops w \<Longrightarrow> stuck_attempt a role (fold run_op_step ops w)"
  by (induction ops arbitrary: w) (simp_all add: stuck_op)

lemma stuck_scheduled:
  assumes "handed_once w" and f: "finish_worker env rid plan f w = (Scheduled r p d, w1)"
    and "waits_for_retry r" and "sf_id r \<notin> snd ` set (run_keys w)"
  shows "stuck_attempt (sf_id r) (rj_role (sf_subject r)) (w1\<lparr>wr_workers := [], wr_cancels := []\<rparr>)"
proof -
  let ?w = "drop_worker rid (write_end env f rid w)"
  have keys: "run_keys ?w = run_keys w" using write_end_quiet by (simp add: quiet_def)
  have w: "handed_once ?w" using handed_drop [OF handed_quiet [OF write_end_quiet assms(1)]] .
  have h: "handle_post_execution_retry env rid plan ?w = (Scheduled r p d, w1)" using f by (simp add: finish_worker_def)
  from handled_after [OF this] have rt: "sf_retry_of r \<noteq> sf_id r" "sf_id r \<noteq> []" by (auto simp: attempt_run_id_def)
  have r: "retries_to UNIV ?w (Scheduled r p d) w1" using retries_handled [of rid UNIV, OF _ _ h] by simp
  then obtain w2 kind where w2: "quiet UNIV ?w w2" "get_run (sf_id r) w2 = None"
    and w1: "w1 = hand_over (sf_id r) p (append_event (sf_retry_of r) kind (w2\<lparr>wr_rows := wr_rows w2 @ [r]\<rparr>))"
    by (auto simp: retries_to_def)
  have "run_keys w1 = run_keys w @ [(sf_id r, sf_retry_of r)]"
    using w2(1) keys by (simp add: w1 quiet_def run_keys_def hand_over_def append_event_def)
  moreover have "get_run (sf_id r) w1 = Some r" using w2(2) by (simp add: w1 world_simps)
  moreover have "handed_once w1" using handed_retry [OF r w] .
  ultimately show ?thesis
    using assms(3,4) rt by (auto simp: stuck_attempt_def handed_once_def run_keys_def run_ids_def get_run_def)
qed

text \<open>A retry scheduled with a backoff and still queued when the node restarts is kept by the repair, but nothing
  ever starts it again: whatever happens later, short of its cancellation, it has no worker, its row stays queued,
  and the scheduler finds an active run of the role at every slot.\<close>

theorem restart_strands_retry:
  assumes "handed_once w" and "finish_worker env rid plan f w = (Scheduled r p d, w1)"
    and "waits_for_retry r" and "sf_id r \<notin> snd ` set (run_keys w)"
    and "list_all (\<lambda>e. \<not> touches (sf_id r) e) ops" and "new_ids ops (restart machine stamp w1)"
  shows "worker_of (sf_id r) (fold run_op_step ops (restart machine stamp w1)) = None \<and>
     (\<exists>q. get_run (sf_id r) (fold run_op_step ops (restart machine stamp w1)) = Some q \<and> sf_status q = RunQueued) \<and>
     active_run_of (rj_role (sf_subject r)) (fold run_op_step ops (restart machine stamp w1)) \<noteq> None"
proof -
  have s: "stuck_attempt (sf_id r) (rj_role (sf_subject r)) (fold run_op_step ops (restart machine stamp w1))"
    using stuck_restart_new [OF stuck_scheduled [OF assms(1-4)]] assms(5,6) by (rule stuck_ops)
  then obtain q where q: "get_run (sf_id r) (fold run_op_step ops (restart machine stamp w1)) = Some q"
    "waits_for_retry q" "rj_role (sf_subject q) = rj_role (sf_subject r)" by (auto simp: stuck_attempt_def)
  then have "q \<in> set (active_runs (fold run_op_step ops (restart machine stamp w1)))"
    using get_run_in by (fastforce simp: active_runs_def active_statuses_def waits_for_retry_def)
  then have "active_run_of (rj_role (sf_subject r)) (fold run_op_step ops (restart machine stamp w1)) \<noteq> None"
    using q(3) by (auto simp: active_run_of_def find_None_iff)
  with q stuck_not_worker [OF s] show ?thesis by (auto simp: waits_for_retry_def)
qed

definition backed_off :: "retry_result \<times> staff_world" where
  "backed_off = finish_worker (sample_retry_env sample_role) ''r1'' sample_launch (failed_end ''provider_error'') running_world"

definition later_ops :: "run_op list" where
  "later_ops = [OpRetry (sample_retry_env sample_role) ''r1'' [], OpBegin ''r1-a2'' ''t3'', OpRestart ''desk'' ''t4'']"

lemma restart_strands_retry_witness:
  "case backed_off of
     (Scheduled r p d, w1) \<Rightarrow>
       worker_of (sf_id r) (fold run_op_step later_ops (restart ''desk'' ''t2'' w1)) = None \<and>
       (\<exists>q. get_run (sf_id r) (fold run_op_step later_ops (restart ''desk'' ''t2'' w1)) = Some q \<and> sf_status q = RunQueued) \<and>
       active_run_of (rj_role (sf_subject r)) (fold run_op_step later_ops (restart ''desk'' ''t2'' w1)) \<noteq> None
   | _ \<Rightarrow> False"
proof -
  have "case backed_off of
      (Scheduled r p d, w1) \<Rightarrow> waits_for_retry r \<and> sf_id r \<notin> snd ` set (run_keys running_world) \<and>
        list_all (\<lambda>e. \<not> touches (sf_id r) e) later_ops
    | _ \<Rightarrow> False" by code_simp
  then obtain r p d w1 where b: "backed_off = (Scheduled r p d, w1)"
    and w: "waits_for_retry r" "sf_id r \<notin> snd ` set (run_keys running_world)"
      "list_all (\<lambda>e. \<not> touches (sf_id r) e) later_ops"
    by (auto split: prod.splits retry_result.splits)
  have "handed_once running_world" by code_simp
  moreover have "new_ids later_ops u" for u by (simp add: later_ops_def id_is_new_def)
  ultimately show ?thesis
    unfolding b prod.case retry_result.case by (intro restart_strands_retry [OF _ b [unfolded backed_off_def] w])
qed

end
