(* ===== verification/Retry_Bounds.thy ===== *)
theory Retry_Bounds
  imports Retry_Runs
begin

text \<open>
  How often a failing run is tried again. Where a role has neither declarative rules nor a list of fallback
  providers, every new attempt uses up a retry, a slot of the failover chain or a later provider, so the attempts
  end whatever the failures are. With a list of two fallback providers, or with a rule that leads back to the
  failing provider, they do not.
\<close>

section \<open>A chain of failures\<close>

text \<open>The attempts that follow when each run of a chain ends as given, on a node in the given state.\<close>

fun attempts_after :: "(retry_env \<times> run_end) list \<Rightarrow> string \<Rightarrow> launch_plan \<Rightarrow> staff_world \<Rightarrow> nat" where
  "attempts_after [] rid plan w = 0"
| "attempts_after ((env, f) # es) rid plan w =
     (case finish_worker env rid plan f w of
        (Scheduled r p d, w1) \<Rightarrow> Suc (attempts_after es (sf_id r) p w1)
      | _ \<Rightarrow> 0)"

section \<open>Slots of the failover chain\<close>

text \<open>The chain of a role never leaves its providers.\<close>

lemma chain_providers_sub: "set (chain_providers role) \<subseteq> set (rk_providers role)"
  by (auto simp: chain_providers_def Let_def)

lemma filtered_chain_sub: "s \<in> set (filtered_chain env role) \<Longrightarrow> fs_provider s \<in> set (rk_providers role)"
  using chain_providers_sub [of role] by (auto simp: filtered_chain_def Let_def split: if_splits)

lemma chain_within_providers: "s \<in> set (resolve_failover_chain env role) \<Longrightarrow> fs_provider s \<in> set (rk_providers role)"
  using chain_providers_sub [of role] filtered_chain_sub [of _ env role]
  by (auto simp: resolve_failover_chain_def Let_def split: if_splits option.splits)

lemma staff_tier_finite: "(UNIV :: staff_tier set) = {TierRoutine, TierStandard, TierComplex}"
  using staff_tier.exhaust by blast

definition all_slots :: "role_spec \<Rightarrow> string set" where
  "all_slots role = (\<lambda>(p, t). slot_key p (staff_tier_text t)) ` (set (rk_providers role) \<times> UNIV)"

lemma finite_slots [simp]: "finite (all_slots role)"
  by (simp add: all_slots_def staff_tier_finite)

lemma card_slots: "card (all_slots role) \<le> 3 * length (rk_providers role)"
proof -
  have "card (all_slots role) \<le> card (set (rk_providers role) \<times> (UNIV :: staff_tier set))"
    unfolding all_slots_def by (rule card_image_le) (simp add: staff_tier_finite)
  also have "\<dots> = card (set (rk_providers role)) * 3" by (simp add: card_cartesian_product staff_tier_finite)
  also have "\<dots> \<le> 3 * length (rk_providers role)" using card_length [of "rk_providers role"] by simp
  finally show ?thesis .
qed

lemma tiers_from_up: "t \<in> set (tiers_from e a) \<Longrightarrow> staff_tier_rank a \<le> staff_tier_rank t"
proof (induction e a rule: tiers_from.induct)
  case (1 e a)
  have "tiers_from e a = a # (if e then (case next_tier_up a of None \<Rightarrow> [] | Some u \<Rightarrow> tiers_from e u) else [])"
    by (rule tiers_from.simps)
  with "1.prems" have "t = a \<or> (e \<and> (\<exists>u. next_tier_up a = Some u \<and> t \<in> set (tiers_from e u)))"
    by (cases e; cases "next_tier_up a") simp_all
  then consider "t = a" | u where "e" "next_tier_up a = Some u" "t \<in> set (tiers_from e u)" by blast
  then show ?case
  proof cases
    case 2
    then have "staff_tier_rank u \<le> staff_tier_rank t" using "1.IH" by simp
    with 2(2) show ?thesis by (cases a) auto
  qed simp
qed

lemma staff_rank_eq [simp]: "staff_tier_rank s = staff_tier_rank t \<longleftrightarrow> s = t"
  by (cases s; cases t) simp_all

lemma normalize_text [simp]: "normalize_staff_tier (staff_tier_text t) = t"
proof -
  have "normalize_staff_tier (staff_tier_text TierRoutine) = TierRoutine"
    "normalize_staff_tier (staff_tier_text TierStandard) = TierStandard"
    "normalize_staff_tier (staff_tier_text TierComplex) = TierComplex" by code_simp+
  then show ?thesis by (cases t) simp_all
qed

lemma first_free_Some:
  "first_free env role tried w chain ts = Some (s, t) \<Longrightarrow>
     t \<in> set ts \<and> s \<in> set chain \<and> slot_key (fs_provider s) (staff_tier_text t) \<notin> set tried"
  by (induction ts) (auto simp: free_step_def find_Some_iff split: option.splits)

section \<open>The slots a run has tried\<close>

definition rooted :: "string \<Rightarrow> staff_world \<Rightarrow> bool" where
  "rooted base w = (base \<noteq> [] \<and> (\<exists>q. get_run base w = Some q \<and> sf_retry_of q = []))"

abbreviation tried :: "string \<Rightarrow> staff_world \<Rightarrow> string set" where
  "tried base w \<equiv> set (tried_slots_for_root base w)"

lemma tried_eq:
  assumes "get_run base w = Some q" and "sf_retry_of q = []"
  shows "tried base w = (\<lambda>(p, t). slot_key p t) ` set (sf_chain q) \<union>
    (\<lambda>a. slot_key (sf_provider a) (sf_tier a)) ` {a \<in> set (wr_rows w). sf_id a = base \<or> sf_retry_of a = base}"
  using assms by (simp add: tried_slots_for_root_def get_attempts_def)

text \<open>A change of a row that keeps what counts as tried.\<close>

definition keeps_slots :: "(staff_run \<Rightarrow> staff_run) \<Rightarrow> bool" where
  "keeps_slots f = (\<forall>r. sf_id (f r) = sf_id r \<and> sf_retry_of (f r) = sf_retry_of r \<and> sf_provider (f r) = sf_provider r \<and>
     sf_tier (f r) = sf_tier r \<and> set (sf_chain r) \<subseteq> set (sf_chain (f r)))"

definition tries_more :: "string \<Rightarrow> staff_world \<Rightarrow> staff_world \<Rightarrow> bool" where
  "tries_more base w w' = (rooted base w \<longrightarrow> rooted base w' \<and> tried base w \<subseteq> tried base w')"

lemma tries_more_refl [simp]: "tries_more base w w"
  by (simp add: tries_more_def)

lemma tries_more_trans: "tries_more base w w1 \<Longrightarrow> tries_more base w1 w2 \<Longrightarrow> tries_more base w w2"
  by (auto simp: tries_more_def)

lemma tries_update:
  assumes f: "keeps_slots f"
  shows "tries_more base w (update_run k f w)"
  unfolding tries_more_def
proof (intro impI conjI)
  assume r: "rooted base w"
  then obtain q where q: "get_run base w = Some q" "sf_retry_of q = []" by (auto simp: rooted_def)
  define q' where "q' = (if base = k then f q else q)"
  have q': "get_run base (update_run k f w) = Some q'" "sf_retry_of q' = []" "set (sf_chain q) \<subseteq> set (sf_chain q')"
    using q f by (auto simp: q'_def keeps_slots_def get_run_update)
  then show "rooted base (update_run k f w)" using r by (simp add: rooted_def)
  let ?slot = "\<lambda>a. slot_key (sf_provider a) (sf_tier a)"
  let ?rows = "\<lambda>w. {a \<in> set (wr_rows w). sf_id a = base \<or> sf_retry_of a = base}"
  have "?slot ` ?rows w \<subseteq> ?slot ` ?rows (update_run k f w)"
  proof
    fix x assume "x \<in> ?slot ` ?rows w"
    then obtain a where a: "a \<in> set (wr_rows w)" "sf_id a = base \<or> sf_retry_of a = base" "x = ?slot a" by auto
    define b where "b = (if sf_id a = k then f a else a)"
    have "b \<in> set (wr_rows (update_run k f w))" using a(1) by (auto simp: b_def update_run_def row_update_def)
    moreover have "sf_id b = sf_id a" "sf_retry_of b = sf_retry_of a" "?slot b = ?slot a"
      using f by (simp_all add: b_def keeps_slots_def)
    ultimately show "x \<in> ?slot ` ?rows (update_run k f w)" using a(2,3) by (auto intro!: image_eqI [of _ _ b])
  qed
  then show "tried base w \<subseteq> tried base (update_run k f w)"
    unfolding tried_eq [OF q] tried_eq [OF q'(1,2)] by (rule Un_mono [OF image_mono [OF q'(3)]])
qed

lemma tries_same:
  assumes "wr_rows w' = wr_rows w"
  shows "tries_more base w w'" and "tried base w' = tried base w"
  using assms by (simp_all add: tries_more_def rooted_def tried_slots_for_root_def get_attempts_def get_run_def)

lemma tries_started:
  assumes "rooted base w" and "start_attempt kind r plan d w = (Scheduled r' p' d', w')" and "sf_retry_of r = base"
  shows "rooted base w' \<and> tried base w' = insert (slot_key (sf_provider r) (sf_tier r)) (tried base w) \<and>
     get_run (sf_id r) w' = Some r"
proof -
  have s: "get_run (sf_id r) w = None"
    "w' = hand_over (sf_id r) plan (append_event (sf_retry_of r) kind (w\<lparr>wr_rows := wr_rows w @ [r]\<rparr>))"
    using assms(2) by (simp_all add: start_attempt_Scheduled)
  from assms(1) obtain q where q: "get_run base w = Some q" "sf_retry_of q = []" by (auto simp: rooted_def)
  with s(1) have q': "get_run base w' = Some q" by (auto simp: s(2) world_simps)
  have "wr_rows w' = wr_rows w @ [r]" by (simp add: s(2) hand_over_def append_event_def)
  then have "tried base w' = insert (slot_key (sf_provider r) (sf_tier r)) (tried base w)"
    unfolding tried_eq [OF q] tried_eq [OF q' q(2)] using assms(3) by auto
  moreover have "rooted base w'" using q' q(2) assms(1) by (simp add: rooted_def)
  ultimately show ?thesis using s by (simp add: world_simps)
qed

section \<open>Every attempt uses something up\<close>

definition provider_index :: "role_spec \<Rightarrow> string \<Rightarrow> nat" where
  "provider_index role p = length (takeWhile (\<lambda>q. q \<noteq> p) (rk_providers role))"

definition untried :: "role_spec \<Rightarrow> string \<Rightarrow> staff_world \<Rightarrow> nat" where
  "untried role base w = card (all_slots role - tried base w)"

definition attempts_left :: "role_spec \<Rightarrow> string \<Rightarrow> staff_run \<Rightarrow> string \<Rightarrow> staff_world \<Rightarrow> nat" where
  "attempts_left role base r p w =
     nat (sf_max_attempts r - sf_attempt r) + untried role base w * Suc (length (rk_providers role)) +
     (length (rk_providers role) - provider_index role p)"

definition tier_kept :: "role_spec \<Rightarrow> staff_run \<Rightarrow> bool" where
  "tier_kept role r = (sf_tier r = [] \<or>
     staff_tier_rank (normalize_staff_tier (rk_tier role)) \<le> staff_tier_rank (normalize_staff_tier (sf_tier r)))"

lemma untried_mono: "tried base w \<subseteq> tried base w' \<Longrightarrow> untried role base w' \<le> untried role base w"
  unfolding untried_def by (rule card_mono) auto

lemma untried_less:
  assumes "tried base w \<subseteq> tried base w'" and "k \<in> all_slots role" and "k \<in> tried base w'" and "k \<notin> tried base w"
  shows "untried role base w' < untried role base w"
  unfolding untried_def using assms by (intro psubset_card_mono) auto

lemma provider_index_le: "provider_index role p \<le> length (rk_providers role)"
  by (simp add: provider_index_def length_takeWhile_le)

lemma later_provider:
  assumes "distinct (rk_providers role)" and "p \<in> set (rk_providers role)"
    and "q \<in> set (tl (dropWhile (\<lambda>x. x \<noteq> p) (rk_providers role)))"
  shows "provider_index role p < provider_index role q"
proof -
  from assms(2) obtain xs ys where s: "rk_providers role = xs @ p # ys" "p \<notin> set xs"
    using split_list_first by fast
  then have d: "dropWhile (\<lambda>x. x \<noteq> p) (rk_providers role) = p # ys" by (subst s(1), subst dropWhile_append2) auto
  then have q: "q \<in> set ys" using assms(3) by simp
  then have "q \<notin> set xs" "q \<noteq> p" using assms(1) s(1) by auto
  moreover from this have "takeWhile (\<lambda>x. x \<noteq> q) (xs @ p # ys) = xs @ p # takeWhile (\<lambda>x. x \<noteq> q) ys"
    by (subst takeWhile_append2) auto
  moreover have "takeWhile (\<lambda>x. x \<noteq> p) (xs @ p # ys) = xs" using s(2) by (subst takeWhile_append2) auto
  ultimately show ?thesis by (simp add: provider_index_def s(1))
qed

lemma index_less: "q \<in> set xs \<Longrightarrow> length (takeWhile (\<lambda>x. x \<noteq> q) xs) < length xs"
  by (induction xs) auto

lemma later_index_in: "q \<in> set (rk_providers role) \<Longrightarrow> provider_index role q < length (rk_providers role)"
  unfolding provider_index_def by (rule index_less)

lemma in_tl_dropWhile: "q \<in> set (tl (dropWhile P xs)) \<Longrightarrow> q \<in> set xs"
  using set_dropWhileD [of q P xs] by (cases "dropWhile P xs") simp_all

text \<open>What an attempt that follows a failure of \<open>latest\<close> keeps, and that it has less left.\<close>

definition uses_up ::
    "role_spec \<Rightarrow> string \<Rightarrow> staff_run \<Rightarrow> string \<Rightarrow> staff_world \<Rightarrow> staff_run \<Rightarrow> staff_world \<Rightarrow> bool" where
  "uses_up role base latest p w r w' =
     (rooted base w' \<and> get_run (sf_id r) w' = Some r \<and> root_of r = base \<and> 1 \<le> sf_max_attempts r \<and> tier_kept role r \<and>
      attempts_left role base r (sf_provider r) w' < attempts_left role base latest p w)"

lemma plain_uses_up:
  assumes "plain_retry env latest plan w = (Scheduled r p d, w')" and "should_retry b latest role = RetryAllowed"
    and "rooted base w" and "root_of latest = base" and "1 \<le> sf_max_attempts latest"
  shows "uses_up role base latest (lp_provider plan) w r w'"
proof -
  let ?next = "re_iso env (re_now env + max 0 (compute_backoff (re_base env) (re_cap env) (sf_attempt latest) (re_jitter env)))"
  let ?wait = "\<lambda>r. r\<lparr>sf_next_attempt_at := Some ?next\<rparr>"
  define w2 where "w2 = (if root_of latest \<noteq> sf_id latest then update_run (root_of latest) ?wait (update_run (sf_id latest) ?wait w)
      else update_run (sf_id latest) ?wait w)"
  have k: "keeps_slots ?wait" by (simp add: keeps_slots_def)
  have "tries_more base w w2"
    using tries_update [OF k, of base w "sf_id latest"]
      tries_update [OF k, of base "update_run (sf_id latest) ?wait w" "root_of latest"]
    by (auto simp: w2_def intro: tries_more_trans)
  with assms(3) have w2: "rooted base w2" "tried base w \<subseteq> tried base w2" by (simp_all add: tries_more_def)
  from assms(1) have st: "start_attempt ''retry'' r p d w2 = (Scheduled r p d, w')"
    and r: "r = next_attempt_row env latest plan (lp_provider plan) (lp_model plan) [] ''-retry-''
              (sf_max_attempts latest) (Some ?next) []"
    by (auto simp: plain_retry_def Let_def w2_def [symmetric] start_attempt_Scheduled)
  have rt: "sf_retry_of r = base" using r assms(4) by simp
  note s = tries_started [OF w2(1) st rt]
  have "untried role base w' \<le> untried role base w" using s w2(2) by (intro untried_mono) auto
  then have "untried role base w' * Suc (length (rk_providers role)) \<le> untried role base w * Suc (length (rk_providers role))"
    by (rule mult_le_mono1)
  moreover have "sf_attempt latest < sf_max_attempts latest"
    using assms(2,5) by (auto simp: should_retry_def max_attempts_of_def split: if_splits)
  ultimately have "attempts_left role base r (sf_provider r) w' < attempts_left role base latest (lp_provider plan) w"
    by (simp add: attempts_left_def r)
  then show ?thesis using s rt assms(3,5) by (auto simp: uses_up_def root_of_def rooted_def tier_kept_def r)
qed

lemma legacy_uses_up:
  assumes "legacy_fallback env latest plan role w = (Scheduled r p d, w')" and "rk_fallback_providers role = []"
    and "distinct (rk_providers role)" and "rooted base w" and "root_of latest = base" and "1 \<le> sf_max_attempts latest"
  shows "uses_up role base latest (lp_provider plan) w r w'"
proof -
  from assms(1) obtain q where n: "next_fallback_provider role (lp_provider plan) (fallback_usable env role) = Some q"
    and st: "start_attempt ''fallback'' r p d w = (Scheduled r p d, w')"
    and r: "r = next_attempt_row env latest plan q (lp_model plan) [] ''-fallback-'' (sf_max_attempts latest + 1) None q"
    by (auto simp: legacy_fallback_def Let_def start_attempt_Scheduled split: option.splits if_splits)
  from n assms(2) have q: "lp_provider plan \<in> set (rk_providers role)"
    "q \<in> set (tl (dropWhile (\<lambda>x. x \<noteq> lp_provider plan) (rk_providers role)))"
    by (auto simp: next_fallback_provider_def find_Some_iff set_conv_nth split: if_splits)
  have rt: "sf_retry_of r = base" using r assms(5) by simp
  note s = tries_started [OF assms(4) st rt]
  have "untried role base w' \<le> untried role base w" using s by (intro untried_mono) auto
  then have "untried role base w' * Suc (length (rk_providers role)) \<le> untried role base w * Suc (length (rk_providers role))"
    by (rule mult_le_mono1)
  moreover have "provider_index role (lp_provider plan) < provider_index role q"
    using later_provider [OF assms(3) q] .
  moreover have "q \<in> set (rk_providers role)" using q(2) by (rule in_tl_dropWhile)
  ultimately have "attempts_left role base r (sf_provider r) w' < attempts_left role base latest (lp_provider plan) w"
    using later_index_in [of q role] by (simp add: attempts_left_def r)
  then show ?thesis using s rt assms(4,6) by (auto simp: uses_up_def root_of_def rooted_def tier_kept_def r)
qed

lemma tries_cooldown: "tries_more base w (mark_provider_cooldown env p c m w)"
  by (rule tries_same) (simp add: mark_provider_cooldown_def)

lemma tries_chain: "tries_more base w (append_chain_attempt k p t w)"
  unfolding append_chain_attempt_def by (rule tries_update) (auto simp: keeps_slots_def)

lemma chain_uses_up:
  assumes "try_chain_failover env latest plan role ex w = (Scheduled r p d, w')"
    and "rooted base w" and "root_of latest = base" and "1 \<le> sf_max_attempts latest" and "tier_kept role latest"
  shows "uses_up role base latest (lp_provider plan) w r w'"
proof -
  define w1 where "w1 = append_chain_attempt base (lp_provider plan)
    (staff_tier_text (active_tier latest role))
    (mark_provider_cooldown env (lp_provider plan) (sf_class latest) (sf_error latest) w)"
  have "tries_more base w w1" unfolding w1_def by (rule tries_more_trans [OF tries_cooldown tries_chain])
  with assms(2) have w1: "rooted base w1" "tried base w \<subseteq> tried base w1" by (simp_all add: tries_more_def)
  from assms(1) obtain s t model where
    f: "first_free env role (tried_slots_for_root base w1) w1 (resolve_failover_chain env role)
          (tiers_from (rk_escalates role) (active_tier latest role)) = Some (s, t)"
    and R: "start_attempt ''failover'' (next_attempt_row env latest plan (fs_provider s) model
        (staff_tier_text (launch_tier role t)) ''-failover-'' (sf_max_attempts latest + 1) None (fs_provider s))
       (next_attempt_plan (next_attempt_row env latest plan (fs_provider s) model
        (staff_tier_text (launch_tier role t)) ''-failover-'' (sf_max_attempts latest + 1) None (fs_provider s)) plan) 0 w1
       = (Scheduled r p d, w')"
    by (auto simp: try_chain_failover_def Let_def w1_def [symmetric] assms(3)
        split: option.splits if_splits prod.splits)
  from R have r: "r = next_attempt_row env latest plan (fs_provider s) model (staff_tier_text (launch_tier role t))
       ''-failover-'' (sf_max_attempts latest + 1) None (fs_provider s)"
    and st: "start_attempt ''failover'' r p d w1 = (Scheduled r p d, w')"
    by (auto simp: start_attempt_Scheduled)
  note free = first_free_Some [OF f]
  have "staff_tier_rank (normalize_staff_tier (rk_tier role)) \<le> staff_tier_rank (active_tier latest role)"
    using assms(5) by (auto simp: tier_kept_def active_tier_def)
  with free tiers_from_up have up: "staff_tier_rank (normalize_staff_tier (rk_tier role)) \<le> staff_tier_rank t"
    by (meson order_trans)
  then have t: "launch_tier role t = t" by (auto simp: launch_tier_def Let_def dest: le_neq_implies_less)
  have rt: "sf_retry_of r = base" using r assms(3) by simp
  note started = tries_started [OF w1(1) st rt]
  let ?k = "slot_key (fs_provider s) (staff_tier_text t)"
  have "untried role base w' < untried role base w"
  proof (rule untried_less)
    show "tried base w \<subseteq> tried base w'" using started w1(2) by auto
    show "?k \<in> all_slots role" using free chain_within_providers by (fastforce simp: all_slots_def)
    show "?k \<in> tried base w'" using started by (simp add: r t)
    show "?k \<notin> tried base w" using free w1(2) by auto
  qed
  then have "Suc (untried role base w') * Suc (length (rk_providers role)) \<le> untried role base w * Suc (length (rk_providers role))"
    by (intro mult_le_mono1) simp
  then have "attempts_left role base r (sf_provider r) w' < attempts_left role base latest (lp_provider plan) w"
    by (simp add: attempts_left_def r)
  then show ?thesis using started rt assms(2,4) up t by (auto simp: uses_up_def root_of_def rooted_def tier_kept_def r)
qed

lemma no_rules: "rk_rules role = [] \<Longrightarrow> try_declarative_fallback env latest plan role ex w = (NotScheduled, w)"
  by (simp add: try_declarative_fallback_def match_provider_fallback_def)

lemma declined_chain:
  assumes "try_chain_failover env latest plan role ex w = (NotScheduled, w')"
  shows "tries_more base w w'"
proof -
  have "w' = w \<or> w' = append_chain_attempt (root_of latest) (lp_provider plan) (staff_tier_text (active_tier latest role))
      (mark_provider_cooldown env (lp_provider plan) (sf_class latest) (sf_error latest) w)"
    using assms by (auto simp: try_chain_failover_def Let_def start_attempt_def split: option.splits if_splits prod.splits)
  then show ?thesis using tries_more_trans [OF tries_cooldown tries_chain] by auto
qed

text \<open>A role without declarative rules and without a list of fallback providers.\<close>

definition plain_role :: "role_spec \<Rightarrow> bool" where
  "plain_role role = (rk_rules role = [] \<and> rk_fallback_providers role = [])"

lemma uses_up_later:
  assumes "uses_up role base latest p w1 r w'" and "rooted base w" and "tries_more base w w1"
  shows "uses_up role base latest p w r w'"
proof -
  have "untried role base w1 \<le> untried role base w" using assms(2,3) by (intro untried_mono) (simp add: tries_more_def)
  then have "untried role base w1 * Suc (length (rk_providers role)) \<le> untried role base w * Suc (length (rk_providers role))"
    by (rule mult_le_mono1)
  with assms(1) show ?thesis by (simp add: uses_up_def attempts_left_def)
qed

lemma failed_uses_up:
  assumes "retry_failed env latest plan role w = (Scheduled r p d, w')" and role: "plain_role role" "distinct (rk_providers role)"
    and w: "rooted base w" and b: "root_of latest = base" and m: "1 \<le> sf_max_attempts latest" and t: "tier_kept role latest"
  shows "uses_up role base latest (lp_provider plan) w r w'"
proof -
  have none: "try_declarative_fallback env latest plan role ex v = (NotScheduled, v)" for ex v
    using role(1) by (simp add: no_rules plain_role_def)
  have skip: "or_else (try_declarative_fallback env latest plan role ex) g v = g v" for ex g v
    by (simp add: or_else_def none)
  from assms(1) have "or_else (try_chain_failover env latest plan role False)
      (\<lambda>w. if should_retry (can_run env role w) latest role = RetryAllowed then plain_retry env latest plan w
           else or_else (try_chain_failover env latest plan role True) (legacy_fallback env latest plan role) w) w
      = (Scheduled r p d, w')"
    by (simp only: retry_failed_def skip)
  then show ?thesis
  proof (cases rule: or_else_cases)
    case first
    then show ?thesis using chain_uses_up w b m t by blast
  next
    case (second w1)
    note more = declined_chain [OF second(1), of base]
    with w have w1: "rooted base w1" by (simp add: tries_more_def)
    have "uses_up role base latest (lp_provider plan) w1 r w'"
    proof (cases "should_retry (can_run env role w1) latest role = RetryAllowed")
      case True
      with second(2) plain_uses_up w1 b m show ?thesis by simp
    next
      case False
      with second(2) have "or_else (try_chain_failover env latest plan role True) (legacy_fallback env latest plan role) w1
          = (Scheduled r p d, w')" by simp
      then show ?thesis
      proof (cases rule: or_else_cases)
        case first
        then show ?thesis using chain_uses_up w1 b m t by blast
      next
        case (second w2)
        note more2 = declined_chain [OF second(1), of base]
        with w1 have "rooted base w2" by (simp add: tries_more_def)
        then have "uses_up role base latest (lp_provider plan) w2 r w'"
          using legacy_uses_up [OF second(2)] role b m by (simp add: plain_role_def)
        then show ?thesis using w1 more2 by (rule uses_up_later)
      qed
    qed
    then show ?thesis using w more by (rule uses_up_later)
  qed
qed

section \<open>The attempts end\<close>

text \<open>The row of a worker whose CLI ended as given.\<close>

definition ended :: "retry_env \<Rightarrow> run_end \<Rightarrow> staff_run \<Rightarrow> staff_run" where
  "ended env f r = r\<lparr>sf_status := rf_status f, sf_class := rf_class f, sf_error := rf_error f,
     sf_outcome := rf_outcome f, sf_cost := rf_cost f, sf_ended_at := Some (re_stamp env)\<rparr>"

lemma ended_fields [simp]:
  "sf_id (ended env f r) = sf_id r" "sf_retry_of (ended env f r) = sf_retry_of r" "root_of (ended env f r) = root_of r"
  "sf_tier (ended env f r) = sf_tier r" "sf_attempt (ended env f r) = sf_attempt r"
  "sf_max_attempts (ended env f r) = sf_max_attempts r" "sf_status (ended env f r) = rf_status f"
  "sf_class (ended env f r) = rf_class f"
  by (simp_all add: ended_def root_of_def)

lemma ended_write: "write_end env f rid w = update_run rid (ended env f) (append_event rid ''exit'' w)"
  by (simp add: write_end_def ended_def [abs_def])

lemma finish_failed:
  assumes "get_run rid w = Some q" and "rf_status f = RunFailed" and "rid \<notin> set (wr_cancels w)"
    and "re_role env (rj_role (lp_subject plan)) = Some role"
  shows "finish_worker env rid plan f w = retry_failed env (ended env f q) plan role (drop_worker rid (write_end env f rid w))"
proof -
  have "get_run rid (drop_worker rid (write_end env f rid w)) = Some (ended env f q)"
    using assms(1) by (simp add: ended_write world_simps)
  moreover have "wr_cancels (drop_worker rid (write_end env f rid w)) = wr_cancels w"
    by (simp add: drop_worker_def ended_write)
  ultimately show ?thesis using assms(2-4) by (simp add: finish_worker_def handle_post_execution_retry_def)
qed

lemma finish_scheduled:
  assumes "finish_worker env rid plan f w = (Scheduled r p d, w')"
  obtains q role where "get_run rid w = Some q" "re_role env (rj_role (lp_subject plan)) = Some role"
    "retry_failed env (ended env f q) plan role (drop_worker rid (write_end env f rid w)) = (Scheduled r p d, w')"
  using assms
  by (cases "get_run rid w")
    (auto simp: finish_worker_def handle_post_execution_retry_def ended_write world_simps split: if_splits option.splits)

lemma finish_tries: "tries_more base w (drop_worker rid (write_end env f rid w))"
proof -
  have 1: "tries_more base w (append_event rid ''exit'' w)" by (rule tries_same) (simp add: append_event_def)
  have 2: "tries_more base (append_event rid ''exit'' w) (write_end env f rid w)"
    unfolding ended_write by (rule tries_update) (simp add: keeps_slots_def ended_def)
  have 3: "tries_more base (write_end env f rid w) (drop_worker rid (write_end env f rid w))"
    by (rule tries_same) (simp add: drop_worker_def)
  show ?thesis by (rule tries_more_trans [OF tries_more_trans [OF 1 2] 3])
qed

lemma attempts_left_bound:
  assumes role: "plain_role role" "distinct (rk_providers role)"
    and "\<forall>(env, f) \<in> set es. re_role env (rj_role (lp_subject plan)) = Some role"
    and "rooted base w" and "get_run rid w = Some q" and "root_of q = base" and "1 \<le> sf_max_attempts q" and "tier_kept role q"
  shows "attempts_after es rid plan w \<le> attempts_left role base q (lp_provider plan) w"
  using assms(3-)
proof (induction es arbitrary: rid plan w q)
  case Nil
  then show ?case by simp
next
  case (Cons e es)
  obtain env f where e: "e = (env, f)" by fastforce
  show ?case
  proof (cases "\<exists>r p d w'. finish_worker env rid plan f w = (Scheduled r p d, w')")
    case False
    then have "attempts_after (e # es) rid plan w = 0" by (simp add: e split: prod.split retry_result.split)
    then show ?thesis by simp
  next
    case True
    then obtain r p d w' where fin: "finish_worker env rid plan f w = (Scheduled r p d, w')" by blast
    let ?w = "drop_worker rid (write_end env f rid w)"
    have rf: "retry_failed env (ended env f q) plan role ?w = (Scheduled r p d, w')"
      using fin Cons.prems(1,3) by (auto simp: e elim!: finish_scheduled)
    have w: "rooted base ?w" using Cons.prems(2) finish_tries by (simp add: tries_more_def)
    have "uses_up role base (ended env f q) (lp_provider plan) ?w r w'"
      using failed_uses_up [OF rf role w] Cons.prems(4-6) by (simp add: tier_kept_def)
    from uses_up_later [OF this Cons.prems(2) finish_tries]
    have u: "uses_up role base (ended env f q) (lp_provider plan) w r w'" .
    have p: "p = next_attempt_plan r plan" using scheduled_after [OF rf] by simp
    then have "lp_subject p = lp_subject plan" "lp_provider p = sf_provider r" by (simp_all add: next_attempt_plan_def)
    then have "attempts_after es (sf_id r) p w' \<le> attempts_left role base r (sf_provider r) w'"
      using Cons.IH [of p w' "sf_id r" r] u Cons.prems(1) by (simp add: uses_up_def)
    also have "\<dots> < attempts_left role base (ended env f q) (lp_provider plan) w" using u by (simp add: uses_up_def)
    also have "\<dots> = attempts_left role base q (lp_provider plan) w" by (simp add: attempts_left_def)
    finally show ?thesis by (simp add: e fin)
  qed
qed

text \<open>C23: A run of a role that names each of its providers once, without declarative rules and without a list of
  fallback providers, is tried again a bounded number of times, however its attempts fail and whatever cooldowns, budgets and providers are met on the way: at
  most its own retries, and for each slot of provider and tier one round over the providers.\<close>

theorem attempts_bounded:
  assumes "plain_role role" and "distinct (rk_providers role)"
    and "\<forall>(env, f) \<in> set es. re_role env (rj_role (lp_subject plan)) = Some role"
    and "get_run rid w = Some q" and "rid \<noteq> []" and "sf_retry_of q = []" and "1 \<le> sf_max_attempts q" and "tier_kept role q"
  shows "attempts_after es rid plan w \<le>
     nat (sf_max_attempts q - sf_attempt q) +
     3 * length (rk_providers role) * Suc (length (rk_providers role)) + length (rk_providers role)"
proof -
  have id: "sf_id q = rid" using assms(4) get_run_in by blast
  have "rooted rid w" using assms(4-6) by (simp add: rooted_def)
  then have "attempts_after es rid plan w \<le> attempts_left role rid q (lp_provider plan) w"
    using assms id by (intro attempts_left_bound) (simp_all add: root_of_def)
  moreover have "untried role rid w \<le> card (all_slots role)" unfolding untried_def by (rule card_mono) auto
  then have "untried role rid w * Suc (length (rk_providers role)) \<le>
      3 * length (rk_providers role) * Suc (length (rk_providers role))"
    using card_slots [of role] by (intro mult_le_mono1) simp
  ultimately show ?thesis by (simp add: attempts_left_def)
qed

definition quota_ends :: "nat \<Rightarrow> (retry_env \<times> run_end) list" where
  "quota_ends n = replicate n (sample_retry_env sample_role, failed_end ''quota_exhausted'')"

lemma attempts_bounded_witness:
  "attempts_after (quota_ends 5) ''r1'' sample_launch running_world = 1 \<and>
   attempts_after (quota_ends 5) ''r1'' sample_launch running_world \<le> 21"
proof
  show "attempts_after (quota_ends 5) ''r1'' sample_launch running_world = 1" by code_simp
  let ?q = "the (get_run ''r1'' running_world)"
  have q: "get_run ''r1'' running_world = Some ?q" by code_simp
  have e: "\<forall>(env, f) \<in> set (quota_ends 5). re_role env (rj_role (lp_subject sample_launch)) = Some sample_role"
    by (simp add: quota_ends_def sample_retry_env_def sample_role_def sample_launch_def sample_subject_def)
  have "plain_role sample_role" "distinct (rk_providers sample_role)" by code_simp+
  moreover have "sf_retry_of ?q = []" "1 \<le> sf_max_attempts ?q" "tier_kept sample_role ?q"
    "sf_max_attempts ?q = 2" "sf_attempt ?q = 1" by code_simp+
  ultimately show "attempts_after (quota_ends 5) ''r1'' sample_launch running_world \<le> 21"
    using attempts_bounded [OF _ _ e q] by (simp add: sample_role_def)
qed

section \<open>The attempts do not end\<close>

text \<open>Every failure of a run without retries of its own is answered by another attempt, which has none either.\<close>

definition answers_always :: "retry_env \<Rightarrow> string \<Rightarrow> role_spec \<Rightarrow> bool" where
  "answers_always env c role = (\<forall>latest plan w. sf_class latest = c \<longrightarrow> 1 \<le> sf_max_attempts latest \<longrightarrow>
     sf_max_attempts latest \<le> sf_attempt latest \<longrightarrow>
     get_run (attempt_run_id (root_of latest) (sf_attempt latest + 1)) w = None \<longrightarrow>
     (\<exists>p m. retry_failed env latest plan role w =
        (let r = next_attempt_row env latest plan p m [] ''-fallback-'' (sf_max_attempts latest + 1) None p
         in start_attempt ''fallback'' r (next_attempt_plan r plan) 0 w)))"

text \<open>The ids of the later attempts are free.\<close>

definition room_for_attempts :: "staff_run \<Rightarrow> staff_world \<Rightarrow> bool" where
  "room_for_attempts q w = (wr_cancels w = [] \<and> (\<forall>k > sf_attempt q. get_run (attempt_run_id (root_of q) k) w = None))"

lemma attempt_id_eq [simp]: "attempt_run_id base m = attempt_run_id base n \<longleftrightarrow> m = n"
  by (simp add: attempt_run_id_def)

lemma answered_forever:
  assumes a: "answers_always env (rf_class f) role" and f: "rf_status f = RunFailed"
    and "re_role env (rj_role (lp_subject plan)) = Some role"
    and "get_run rid w = Some q" and "1 \<le> sf_max_attempts q" and "sf_max_attempts q \<le> sf_attempt q"
    and "room_for_attempts q w" and "root_of q \<noteq> []"
  shows "attempts_after (replicate n (env, f)) rid plan w = n"
  using assms(3-)
proof (induction n arbitrary: rid plan w q)
  case (Suc n)
  let ?q = "ended env f q" and ?w = "drop_worker rid (write_end env f rid w)"
  have cancels: "wr_cancels w = []" and room: "\<And>k. sf_attempt q < k \<Longrightarrow> get_run (attempt_run_id (root_of q) k) w = None"
    using Suc.prems(5) by (auto simp: room_for_attempts_def)
  have w: "wr_cancels ?w = []" "\<And>k. get_run k w = None \<Longrightarrow> get_run k ?w = None"
    using cancels by (auto simp: drop_worker_def ended_write) (auto simp: get_run_def update_run_def row_lookup_update append_event_def)
  have fin: "finish_worker env rid plan f w = retry_failed env ?q plan role ?w"
    using Suc.prems(1,2) f cancels by (intro finish_failed) auto
  have new: "get_run (attempt_run_id (root_of ?q) (sf_attempt ?q + 1)) ?w = None" using w(2) room by simp
  then obtain p m where rf: "retry_failed env ?q plan role ?w =
      (let r = next_attempt_row env ?q plan p m [] ''-fallback-'' (sf_max_attempts ?q + 1) None p
       in start_attempt ''fallback'' r (next_attempt_plan r plan) 0 ?w)"
    using a Suc.prems(3,4) unfolding answers_always_def by (metis ended_fields(5,6,8))
  define r where "r = next_attempt_row env ?q plan p m [] ''-fallback-'' (sf_max_attempts ?q + 1) None p"
  define w' where "w' = hand_over (sf_id r) (next_attempt_plan r plan)
    (append_event (sf_retry_of r) ''fallback'' (?w\<lparr>wr_rows := wr_rows ?w @ [r]\<rparr>))"
  have r: "sf_id r = attempt_run_id (root_of q) (sf_attempt q + 1)" "root_of r = root_of q" "sf_attempt r = sf_attempt q + 1"
    "sf_max_attempts r = sf_max_attempts q + 1"
    using Suc.prems(6) by (simp_all add: r_def root_of_def [of "next_attempt_row a b c d e f g h i j" for a b c d e f g h i j])
  have free: "get_run (sf_id r) ?w = None" using new by (simp add: r)
  have "start_attempt ''fallback'' r (next_attempt_plan r plan) 0 ?w = (Scheduled r (next_attempt_plan r plan) 0, w')"
    using free by (simp add: start_attempt_Scheduled w'_def)
  then have fin': "finish_worker env rid plan f w = (Scheduled r (next_attempt_plan r plan) 0, w')"
    unfolding fin rf Let_def r_def .
  have "get_run (sf_id r) w' = Some r" using free by (simp add: w'_def world_simps)
  moreover have "room_for_attempts r w'"
    using w room free by (auto simp: room_for_attempts_def w'_def r world_simps) (simp add: hand_over_def)
  ultimately have "attempts_after (replicate n (env, f)) (sf_id r) (next_attempt_plan r plan) w' = n"
    using Suc.prems(1,3,4,6) r by (intro Suc.IH [of _ _ _ r]) (simp_all add: next_attempt_plan_def)
  then show ?case by (simp add: fin')
qed simp

lemma or_else_none: "f w = (NotScheduled, w) \<Longrightarrow> or_else f g w = g w"
  by (simp add: or_else_def)

text \<open>A failure that asks for no other provider goes to the list of fallback providers once the retries are used up.\<close>

lemma listed_answers:
  assumes "rk_rules role = []" and "rk_fallback_providers role = [a, b]" and "a \<noteq> b"
    and "fallback_usable env role a" and "fallback_usable env role b" and "\<And>w. can_run env role w"
    and c: "c = ''provider_error'' \<or> c = ''workspace_error''"
  shows "answers_always env c role"
  unfolding answers_always_def
proof (intro allI impI)
  fix latest :: staff_run and plan :: launch_plan and w
  assume l: "sf_class latest = c" "1 \<le> sf_max_attempts latest" "sf_max_attempts latest \<le> sf_attempt latest"
  have "try_chain_failover env latest plan role ex v = (NotScheduled, v)" for ex v
    using c l(1) by (auto simp: try_chain_failover_def allowed_when_classes_def)
  note skip = or_else_none [where f = "try_chain_failover env latest plan role ex" for ex, OF this]
    or_else_none [where f = "try_declarative_fallback env latest plan role ex" for ex, OF no_rules [OF assms(1)]]
  have "is_retryable_class c" using c by (auto simp: is_retryable_class_def retryable_classes_def non_retryable_classes_def)
  moreover from this have "should_retry x latest role \<noteq> RetryAllowed" for x
    using l by (auto simp: should_retry_def max_attempts_of_def)
  moreover obtain p where "next_fallback_provider role (lp_provider plan) (fallback_usable env role) = Some p"
    using assms(2-5) by (cases "lp_provider plan = a") (auto simp: next_fallback_provider_def)
  ultimately have "retry_failed env latest plan role w =
      (let r = next_attempt_row env latest plan p (lp_model plan) [] ''-fallback-'' (sf_max_attempts latest + 1) None p
       in start_attempt ''fallback'' r (next_attempt_plan r plan) 0 w)"
    using assms(6) l(1) by (simp add: retry_failed_def skip legacy_fallback_def)
  then show "\<exists>p m. retry_failed env latest plan role w =
      (let r = next_attempt_row env latest plan p m [] ''-fallback-'' (sf_max_attempts latest + 1) None p
       in start_attempt ''fallback'' r (next_attempt_plan r plan) 0 w)" by blast
qed

text \<open>A rule that names no provider it leads away from also answers the failure of its own target.\<close>

lemma open_rule_answers:
  assumes "rk_rules role = [rule]" and "fr_from rule = None" and "c \<in> set (fr_when rule)" and "c \<in> set immediate_classes"
    and "fallback_usable env role (fs_provider (fr_target rule))" and "\<And>w. can_run env role w"
    and "\<And>p. re_rule_model env role (fr_target rule) p \<noteq> None"
  shows "answers_always env c role"
  unfolding answers_always_def
proof (intro allI impI)
  fix latest :: staff_run and plan :: launch_plan and w
  assume l: "sf_class latest = c"
    and new: "get_run (attempt_run_id (root_of latest) (sf_attempt latest + 1)) w = None"
  have "match_provider_fallback (rk_rules role) c (lp_provider plan) False = Some rule"
    using assms(1-4) by (auto simp: match_provider_fallback_def immediate_classes_def allowed_when_classes_def)
  moreover obtain m where "re_rule_model env role (fr_target rule) (lp_provider plan) = Some m" using assms(7) by blast
  ultimately have d: "try_declarative_fallback env latest plan role False w =
      (let r = next_attempt_row env latest plan (fs_provider (fr_target rule)) m [] ''-fallback-'' (sf_max_attempts latest + 1)
             None (fs_provider (fr_target rule))
       in start_attempt ''fallback'' r (next_attempt_plan r plan) 0 w)" (is "_ = ?R")
    using assms(5,6) l by (simp add: try_declarative_fallback_def Let_def)
  then have "try_declarative_fallback env latest plan role False w = (Scheduled r p d, w')
      \<Longrightarrow> retry_failed env latest plan role w = ?R" for r p d w'
    by (simp add: retry_failed_def or_else_def)
  moreover have "\<exists>r p d w'. ?R = (Scheduled r p d, w')"
    using l new by (simp add: Let_def start_attempt_Scheduled)
  ultimately have "retry_failed env latest plan role w = ?R" using d by metis
  then show "\<exists>p m. retry_failed env latest plan role w =
      (let r = next_attempt_row env latest plan p m [] ''-fallback-'' (sf_max_attempts latest + 1) None p
       in start_attempt ''fallback'' r (next_attempt_plan r plan) 0 w)" by blast
qed

text \<open>A role with a list of two usable fallback providers, within its budget: a run whose retries are used up is
  still tried again after every provider error, as often as it fails, alternating between the two providers; the
  list is never exhausted.\<close>

theorem fallback_never_exhausted:
  assumes "rk_rules role = []" and "rk_fallback_providers role = [a, b]" and "a \<noteq> b"
    and "fallback_usable env role a" and "fallback_usable env role b" and "\<forall>w. can_run env role w"
    and "rf_status f = RunFailed" and "rf_class f = ''provider_error'' \<or> rf_class f = ''workspace_error''"
    and "re_role env (rj_role (lp_subject plan)) = Some role" and "get_run rid w = Some q" and "root_of q \<noteq> []"
    and "1 \<le> sf_max_attempts q" and "sf_max_attempts q \<le> sf_attempt q" and "room_for_attempts q w"
  shows "attempts_after (replicate n (env, f)) rid plan w = n"
  using listed_answers [OF assms(1-5) _ assms(8)] assms by (intro answered_forever [of env f role]) auto

text \<open>A role that names a provider twice is plain, but its run goes round in a circle: after the second provider
  comes the first again, and after the first the second.\<close>

definition circular_role :: role_spec where
  "circular_role = sample_role\<lparr>rk_providers := [''claude'', ''codex'', ''claude'']\<rparr>"

lemma repeated_provider_cycles:
  "plain_role circular_role \<and> next_fallback_provider circular_role ''claude'' (\<lambda>_. True) = Some ''codex'' \<and>
   next_fallback_provider circular_role ''codex'' (\<lambda>_. True) = Some ''claude''"
  by code_simp

definition listed_role :: role_spec where
  "listed_role = sample_role\<lparr>rk_fallback_providers := [''codex'', ''gemini'']\<rparr>"

definition last_try_world :: staff_world where
  "last_try_world = launch_admitted sample_launch sample_origin ''desk'' 1 ''r1'' ''local'' ''t0'' empty_world"

lemma circular_attempts:
  "attempts_after (replicate 8 (sample_retry_env circular_role, failed_end ''provider_error'')) ''r1'' sample_launch last_try_world = 8"
  by code_simp

lemma last_try:
  "get_run ''r1'' last_try_world = Some (new_run_record sample_launch sample_origin ''desk'' 1 ''r1'' ''local'' ''t0'')"
  "room_for_attempts (new_run_record sample_launch sample_origin ''desk'' 1 ''r1'' ''local'' ''t0'') last_try_world"
proof -
  let ?r = "new_run_record sample_launch sample_origin ''desk'' 1 ''r1'' ''local'' ''t0''"
  have w: "wr_rows last_try_world = [?r]" "wr_cancels last_try_world = []"
    by (simp_all add: last_try_world_def launch_admitted_eq empty_world_def get_run_def hand_over_def append_event_def)
  then show "get_run ''r1'' last_try_world = Some ?r" by (simp add: get_run_def)
  have "root_of ?r = ''r1''" by (simp add: root_of_def)
  then show "room_for_attempts ?r last_try_world" by (simp add: room_for_attempts_def w get_run_def attempt_run_id_def)
qed

lemma sample_can_run: "rk_usd_per_day role = 0 \<Longrightarrow> can_run (sample_retry_env other) role w"
  by (cases "filter (\<lambda>p. \<not> provider_disabled (sample_retry_env other) p) (rk_providers role)")
    (simp_all add: can_run_def usd_ok_def sample_retry_env_def)

lemma fallback_never_exhausted_witness:
  "attempts_after (replicate 4 (sample_retry_env listed_role, failed_end ''provider_error'')) ''r1'' sample_launch last_try_world = 4"
proof (rule fallback_never_exhausted [where role = listed_role and a = "''codex''" and b = "''gemini''"])
  show "\<forall>w. can_run (sample_retry_env listed_role) listed_role w"
    by (simp add: sample_can_run listed_role_def sample_role_def)
  show "get_run ''r1'' last_try_world = Some (new_run_record sample_launch sample_origin ''desk'' 1 ''r1'' ''local'' ''t0'')"
    by (rule last_try)
  show "room_for_attempts (new_run_record sample_launch sample_origin ''desk'' 1 ''r1'' ''local'' ''t0'') last_try_world"
    by (rule last_try)
qed code_simp+

text \<open>A rule that names no provider it leads away from is applied to the failures of its own target too: a run of
  the role that keeps hitting quotas is tried again, at once, as often as it fails, and the tried slots and the
  cooldowns of the chain never count.\<close>

theorem open_rule_loops:
  assumes "rk_rules role = [rule]" and "fr_from rule = None" and "rf_class f \<in> set (fr_when rule)"
    and "rf_class f \<in> set immediate_classes" and "fallback_usable env role (fs_provider (fr_target rule))"
    and "\<forall>w. can_run env role w" and "\<forall>p. re_rule_model env role (fr_target rule) p \<noteq> None"
    and "rf_status f = RunFailed"
    and "re_role env (rj_role (lp_subject plan)) = Some role" and "get_run rid w = Some q" and "root_of q \<noteq> []"
    and "1 \<le> sf_max_attempts q" and "sf_max_attempts q \<le> sf_attempt q" and "room_for_attempts q w"
  shows "attempts_after (replicate n (env, f)) rid plan w = n"
  using open_rule_answers [OF assms(1-5)] assms by (intro answered_forever [of env f role]) auto

definition ruled_role :: role_spec where
  "ruled_role = sample_role\<lparr>rk_rules := [\<lparr>fr_when = [''quota_exhausted''], fr_from = None,
     fr_target = \<lparr>fs_provider = ''codex'', fs_model = None\<rparr>\<rparr>]\<rparr>"

lemma open_rule_loops_witness:
  "attempts_after (replicate 4 (sample_retry_env ruled_role, failed_end ''quota_exhausted'')) ''r1'' sample_launch last_try_world = 4"
proof (rule open_rule_loops [where role = ruled_role and rule = "hd (rk_rules ruled_role)"])
  show "\<forall>w. can_run (sample_retry_env ruled_role) ruled_role w"
    by (simp add: sample_can_run ruled_role_def sample_role_def)
  show "\<forall>p. re_rule_model (sample_retry_env ruled_role) ruled_role (fr_target (hd (rk_rules ruled_role))) p \<noteq> None"
    by (simp add: sample_retry_env_def)
  show "get_run ''r1'' last_try_world = Some (new_run_record sample_launch sample_origin ''desk'' 1 ''r1'' ''local'' ''t0'')"
    by (rule last_try)
  show "room_for_attempts (new_run_record sample_launch sample_origin ''desk'' 1 ''r1'' ''local'' ''t0'') last_try_world"
    by (rule last_try)
qed code_simp+

section \<open>Delays and modes\<close>

text \<open>The backoff never exceeds the cap, nor, where the jitter is positive, falls below nothing.\<close>

lemma backoff_bounds:
  assumes "0 \<le> cap" and "0 \<le> jitter"
  shows "0 \<le> compute_backoff base cap n jitter" and "compute_backoff base cap n jitter \<le> cap"
  using assms by (auto simp: compute_backoff_def Let_def)

lemma backoff_grows:
  assumes "m \<le> n"
  shows "compute_backoff base cap m jitter \<le> compute_backoff base cap n jitter"
proof (cases "base \<le> 0")
  case False
  have "nat (max 0 (m - 1)) \<le> nat (max 0 (n - 1))" using assms by linarith
  then have "base * 2 ^ nat (max 0 (m - 1)) \<le> base * 2 ^ nat (max 0 (n - 1))"
    using False by (intro mult_left_mono power_increasing) simp_all
  then have "min cap (base * 2 ^ nat (max 0 (m - 1))) \<le> min cap (base * 2 ^ nat (max 0 (n - 1)))" by simp
  then show ?thesis using False by (simp add: compute_backoff_def Let_def min_le_iff_disj)
qed (simp add: compute_backoff_def)

text \<open>An attempt after a failure is a local one, whatever the mode of the run was.\<close>

lemma retried_locally:
  assumes "retry_failed env latest plan role w = (Scheduled r p d, w')"
  shows "sf_mode r = ''local'' \<and> lp_mode p = ''local''"
proof -
  have 1: "try_declarative_fallback env latest plan role ex w = (Scheduled r p d, w') \<Longrightarrow> sf_mode r = ''local''"
    for ex w w' by (auto simp: try_declarative_fallback_def Let_def start_attempt_Scheduled split: option.splits if_splits)
  have 2: "try_chain_failover env latest plan role ex w = (Scheduled r p d, w') \<Longrightarrow> sf_mode r = ''local''"
    for ex w w' by (auto simp: try_chain_failover_def Let_def start_attempt_Scheduled split: option.splits if_splits prod.splits)
  have 3: "plain_retry env latest plan w = (Scheduled r p d, w') \<Longrightarrow> sf_mode r = ''local''"
    for w w' by (auto simp: plain_retry_def Let_def start_attempt_Scheduled)
  have 4: "legacy_fallback env latest plan role w = (Scheduled r p d, w') \<Longrightarrow> sf_mode r = ''local''"
    for w w' by (auto simp: legacy_fallback_def Let_def start_attempt_Scheduled split: option.splits if_splits)
  have "sf_mode r = ''local''" using assms unfolding retry_failed_def
    by (auto elim!: or_else_cases split: if_splits dest: 1 2 3 4)
  then show ?thesis using scheduled_after [OF assms] by (simp add: next_attempt_plan_def)
qed

end
