(* ===== verification/Cron.thy ===== *)
theory Cron
  imports Prelude
begin

text \<open>
  Schedules of staff roles: \<open>backend/staff/schedule.py\<close>. A cron expression of five fields, its next fire after
  an instant, and run windows. A wall-clock reading is the number of seconds since the day before 1 January of the
  year 1 on the clocks of a zone; a zone gives its offset at an instant, and the offset Python assumes for a
  reading (the first pass of an hour that is repeated). The message of an error is left out.
\<close>

section \<open>Expressions\<close>

datatype cron_error =
    BadValue
  | OutsideRange
  | EmptyField
  | BadStep
  | ReversedRange
  | FieldCount

record cron_spec =
  cs_expr :: string
  cs_minutes :: "int set"
  cs_hours :: "int set"
  cs_days :: "int set"
  cs_months :: "int set"
  cs_weekdays :: "int set"
  cs_days_restricted :: bool
  cs_weekdays_restricted :: bool

definition month_names :: "string list" where
  "month_names = [''jan'', ''feb'', ''mar'', ''apr'', ''may'', ''jun'', ''jul'', ''aug'', ''sep'', ''oct'', ''nov'', ''dec'']"

definition weekday_names :: "string list" where
  "weekday_names = [''sun'', ''mon'', ''tue'', ''wed'', ''thu'', ''fri'', ''sat'']"

text \<open>The names of a field and the number of the first; an empty list where the field has none.\<close>

definition cron_atom :: "string \<Rightarrow> int \<Rightarrow> int \<Rightarrow> string list \<Rightarrow> int \<Rightarrow> cron_error + int" where
  "cron_atom token lo hi names first =
     (let t = py_lower (py_strip token)
      in if t \<in> set names then Inr (int (length (takeWhile (\<lambda>n. n \<noteq> t) names)) + first)
         else if t = [] \<or> \<not> list_all is_digit t then Inl BadValue
         else let v = int (digits_value t) in if \<not> (lo \<le> v \<and> v \<le> hi) then Inl OutsideRange else Inr v)"

definition py_range :: "int \<Rightarrow> int \<Rightarrow> int \<Rightarrow> int list" where
  "py_range a b step = filter (\<lambda>x. (x - a) mod step = 0) [a..b - 1]"

text \<open>The text before the first separator and the text after it.\<close>

definition split_once :: "char \<Rightarrow> string \<Rightarrow> string \<times> string" where
  "split_once c s = (takeWhile (\<lambda>x. x \<noteq> c) s, tl (dropWhile (\<lambda>x. x \<noteq> c) s))"

fun split_on :: "char \<Rightarrow> string \<Rightarrow> string list" where
  "split_on c [] = [[]]"
| "split_on c (x # xs) = (if x = c then [] # split_on c xs else (case split_on c xs of [] \<Rightarrow> [[x]] | p # ps \<Rightarrow> (x # p) # ps))"

fun split_blank :: "string \<Rightarrow> string list" where
  "split_blank [] = []"
| "split_blank (x # xs) =
     (if py_space x then split_blank xs
      else (case xs of [] \<Rightarrow> [[x]]
        | y # _ \<Rightarrow> if py_space y then [x] # split_blank xs
                  else (case split_blank xs of [] \<Rightarrow> [[x]] | p # ps \<Rightarrow> (x # p) # ps)))"

definition part_values :: "string \<Rightarrow> int \<Rightarrow> int \<Rightarrow> string list \<Rightarrow> int \<Rightarrow> int \<Rightarrow> cron_error + int set" where
  "part_values part lo hi names first step =
     (if part = ''*'' then Inr (set (py_range lo (hi + 1) step))
      else if CHR ''-'' \<in> set part then
        (case split_once (CHR ''-'') part of (a, b) \<Rightarrow>
           (case cron_atom a lo hi names first of Inl e \<Rightarrow> Inl e
            | Inr start \<Rightarrow> (case cron_atom b lo hi names first of Inl e \<Rightarrow> Inl e
                | Inr end \<Rightarrow> if end < start then Inl ReversedRange else Inr (set (py_range start (end + 1) step)))))
      else (case cron_atom part lo hi names first of Inl e \<Rightarrow> Inl e
            | Inr start \<Rightarrow> Inr (set (py_range start ((if 1 < step then hi else start) + 1) step))))"

definition parse_part :: "string \<Rightarrow> int \<Rightarrow> int \<Rightarrow> string list \<Rightarrow> int \<Rightarrow> cron_error + int set" where
  "parse_part text lo hi names first =
     (let part = py_strip text
      in if CHR ''/'' \<in> set part then
           (case split_once (CHR ''/'') part of (p, s) \<Rightarrow>
              if s = [] \<or> \<not> list_all is_digit s \<or> digits_value s < 1 then Inl BadStep
              else part_values p lo hi names first (int (digits_value s)))
         else part_values part lo hi names first 1)"

fun parse_parts :: "string list \<Rightarrow> int \<Rightarrow> int \<Rightarrow> string list \<Rightarrow> int \<Rightarrow> cron_error + int set" where
  "parse_parts [] lo hi names first = Inr {}"
| "parse_parts (p # ps) lo hi names first =
     (case parse_part p lo hi names first of Inl e \<Rightarrow> Inl e
      | Inr vs \<Rightarrow> (case parse_parts ps lo hi names first of Inl e \<Rightarrow> Inl e | Inr ws \<Rightarrow> Inr (vs \<union> ws)))"

definition parse_field :: "string \<Rightarrow> int \<Rightarrow> int \<Rightarrow> string list \<Rightarrow> int \<Rightarrow> cron_error + (int set \<times> bool)" where
  "parse_field text lo hi names first =
     (let field = py_strip text
      in if field = [] then Inl EmptyField
         else (case parse_parts (split_on (CHR '','') field) lo hi names first of
                 Inl e \<Rightarrow> Inl e | Inr vs \<Rightarrow> Inr (vs, field \<noteq> ''*'')))"

definition parse_cron :: "string \<Rightarrow> cron_error + cron_spec" where
  "parse_cron expr =
     (case split_blank expr of
        [f0, f1, f2, f3, f4] \<Rightarrow>
          (case parse_field f0 0 59 [] 0 of Inl e \<Rightarrow> Inl e | Inr (minutes, _) \<Rightarrow>
          (case parse_field f1 0 23 [] 0 of Inl e \<Rightarrow> Inl e | Inr (hours, _) \<Rightarrow>
          (case parse_field f2 1 31 [] 0 of Inl e \<Rightarrow> Inl e | Inr (days, days_r) \<Rightarrow>
          (case parse_field f3 1 12 month_names 1 of Inl e \<Rightarrow> Inl e | Inr (months, _) \<Rightarrow>
          (case parse_field f4 0 7 weekday_names 0 of Inl e \<Rightarrow> Inl e | Inr (weekdays, wd_r) \<Rightarrow>
             Inr \<lparr>cs_expr = py_strip expr, cs_minutes = minutes, cs_hours = hours, cs_days = days, cs_months = months,
                  cs_weekdays = (\<lambda>d. if d = 7 then 0 else d) ` weekdays, cs_days_restricted = days_r,
                  cs_weekdays_restricted = wd_r\<rparr>)))))
      | _ \<Rightarrow> Inl FieldCount)"

section \<open>The calendar\<close>

text \<open>Month and day of a day number, day 1 being 1 January of the year 1, as Python's \<open>date\<close> has them.\<close>

fun month_day :: "int \<Rightarrow> int list \<Rightarrow> int \<Rightarrow> int \<times> int" where
  "month_day m [] n = (m, n + 1)"
| "month_day m (l # ls) n = (if n < l then (m, n + 1) else month_day (m + 1) ls (n - l))"

definition month_lengths :: "bool \<Rightarrow> int list" where
  "month_lengths leap = [31, if leap then 29 else 28, 31, 30, 31, 30, 31, 31, 30, 31, 30, 31]"

definition civil :: "int \<Rightarrow> int \<times> int" where
  "civil day =
     (let n = day - 1; n400 = n div 146097; n = n mod 146097; n100 = n div 36524; n = n mod 36524;
          n4 = n div 1461; n = n mod 1461; n1 = n div 365; n = n mod 365
      in if n1 = 4 \<or> n100 = 4 then (12, 31)
         else month_day 1 (month_lengths (n1 = 3 \<and> (n4 \<noteq> 24 \<or> n100 = 3))) n)"

text \<open>Sunday is 0.\<close>

definition cron_weekday :: "int \<Rightarrow> int" where
  "cron_weekday day = day mod 7"

definition matches_date :: "cron_spec \<Rightarrow> int \<Rightarrow> bool" where
  "matches_date spec day =
     (case civil day of (month, mday) \<Rightarrow>
        if month \<notin> cs_months spec then False
        else let dom_ok = mday \<in> cs_days spec; dow_ok = cron_weekday day \<in> cs_weekdays spec
             in if cs_days_restricted spec \<and> cs_weekdays_restricted spec then dom_ok \<or> dow_ok else dom_ok \<and> dow_ok)"

section \<open>The next fire\<close>

text \<open>A zone: the offset at an instant, and the one assumed for a reading of the clock.\<close>

record zone =
  zn_at :: "seconds \<Rightarrow> seconds"
  zn_of :: "seconds \<Rightarrow> seconds"

definition wall_of :: "zone \<Rightarrow> seconds \<Rightarrow> seconds" where
  "wall_of z t = t + zn_at z t"

definition instant_of :: "zone \<Rightarrow> seconds \<Rightarrow> seconds" where
  "instant_of z w = w - zn_of z w"

definition wall_at :: "int \<Rightarrow> int \<Rightarrow> int \<Rightarrow> int" where
  "wall_at day h m = 86400 * day + 3600 * h + 60 * m"

text \<open>The first full minute after a reading.\<close>

definition next_minute :: "seconds \<Rightarrow> int" where
  "next_minute w = 60 * (\<lfloor>w / 60\<rfloor> + 1)"

definition day_times :: "cron_spec \<Rightarrow> (int \<times> int) list" where
  "day_times spec =
     concat (map (\<lambda>h. map (\<lambda>m. (h, m)) (sorted_list_of_set (cs_minutes spec))) (sorted_list_of_set (cs_hours spec)))"

definition max_search_days :: nat where
  "max_search_days = 366 * 5"

fun fire_scan :: "cron_spec \<Rightarrow> int \<Rightarrow> int \<Rightarrow> nat \<Rightarrow> int option" where
  "fire_scan spec lowest day 0 = None"
| "fire_scan spec lowest day (Suc n) =
     (case (if matches_date spec day then List.find (\<lambda>(h, m). lowest \<le> wall_at day h m) (day_times spec) else None) of
        Some (h, m) \<Rightarrow> Some (wall_at day h m)
      | None \<Rightarrow> fire_scan spec lowest (day + 1) n)"

text \<open>\<open>None\<close> is the error that the expression never fires within the search.\<close>

definition next_wall :: "cron_spec \<Rightarrow> seconds \<Rightarrow> int option" where
  "next_wall spec w = (let lowest = next_minute w in fire_scan spec lowest (lowest div 86400) max_search_days)"

definition next_fire :: "zone \<Rightarrow> cron_spec \<Rightarrow> seconds \<Rightarrow> seconds option" where
  "next_fire z spec after = map_option (\<lambda>w. instant_of z (of_int w)) (next_wall spec (wall_of z after))"

section \<open>Run windows\<close>

definition parse_hhmm :: "string \<Rightarrow> int option" where
  "parse_hhmm s =
     (case split_on (CHR '':'') (py_strip s) of
        [h, m] \<Rightarrow> if h = [] \<or> m = [] \<or> \<not> list_all is_digit h \<or> \<not> list_all is_digit m then None
                  else if 24 \<le> digits_value h \<or> 60 \<le> digits_value m then None
                  else Some (int (60 * digits_value h + digits_value m))
      | _ \<Rightarrow> None)"

definition minute_of_day :: "seconds \<Rightarrow> int" where
  "minute_of_day w = \<lfloor>w / 60\<rfloor> mod 1440"

text \<open>\<open>None\<close> where a bound does not parse.\<close>

definition in_window :: "zone \<Rightarrow> (string \<times> string) option \<Rightarrow> seconds \<Rightarrow> bool option" where
  "in_window z window now =
     (case window of
        None \<Rightarrow> Some True
      | Some (a, b) \<Rightarrow>
          if a = [] \<or> b = [] then Some True
          else (case (parse_hhmm a, parse_hhmm b) of
              (Some s, Some e) \<Rightarrow>
                let clock = minute_of_day (wall_of z now)
                in Some (if s = e then True else if s < e then s \<le> clock \<and> clock < e else s \<le> clock \<or> clock < e)
            | _ \<Rightarrow> None))"

section \<open>What a parsed expression holds\<close>

lemma py_range_within: "x \<in> set (py_range a (b + 1) step) \<Longrightarrow> a \<le> x \<and> x \<le> b"
  by (auto simp: py_range_def)

lemma cron_atom_within:
  assumes "cron_atom t lo hi names k = Inr v" and "names \<noteq> [] \<Longrightarrow> lo \<le> k \<and> int (length names) + k \<le> hi + 1"
  shows "lo \<le> v \<and> v \<le> hi"
proof -
  have "length (takeWhile (\<lambda>n. n \<noteq> x) names) < length names" if "x \<in> set names" for x
    using that by (induction names) auto
  then show ?thesis using assms by (fastforce simp: cron_atom_def Let_def split: if_splits)
qed

lemma range_first: "a \<le> b \<Longrightarrow> a \<in> set (py_range a (b + 1) step)"
  by (simp add: py_range_def)

lemma part_values_within:
  assumes "part_values p lo hi names k step = Inr vs" and "names \<noteq> [] \<Longrightarrow> lo \<le> k \<and> int (length names) + k \<le> hi + 1"
    and "lo \<le> hi"
  shows "vs \<subseteq> {lo..hi} \<and> vs \<noteq> {}"
proof -
  note atom = cron_atom_within [OF _ assms(2)]
  consider "p = ''*''" "vs = set (py_range lo (hi + 1) step)"
    | a b s e where "cron_atom a lo hi names k = Inr s" "cron_atom b lo hi names k = Inr e" "s \<le> e"
        "vs = set (py_range s (e + 1) step)"
    | s where "cron_atom p lo hi names k = Inr s" "vs = set (py_range s ((if 1 < step then hi else s) + 1) step)"
    using assms(1) by (auto simp: part_values_def split: if_splits sum.splits prod.splits)
  then show ?thesis
  proof cases
    case 1
    then show ?thesis using assms(3) range_first [of lo hi step] by (auto dest: py_range_within)
  next
    case 2
    with atom [of a s] atom [of b e] have "lo \<le> s" "e \<le> hi" by auto
    then show ?thesis using 2(3,4) range_first [of s e step] by (auto dest: py_range_within)
  next
    case 3
    with atom [of p s] have s: "lo \<le> s" "s \<le> hi" by auto
    let ?e = "if 1 < step then hi else s"
    have "s \<le> ?e" "?e \<le> hi" using s by auto
    then show ?thesis using 3(2) s(1) range_first [of s ?e step] py_range_within [of _ s ?e step] by fastforce
  qed
qed

lemma split_on_nonempty: "split_on c s \<noteq> []"
  by (cases s) (auto split: list.splits)

lemma parse_parts_within:
  assumes "parse_parts ps lo hi names k = Inr vs" and "names \<noteq> [] \<Longrightarrow> lo \<le> k \<and> int (length names) + k \<le> hi + 1" and "lo \<le> hi"
  shows "vs \<subseteq> {lo..hi} \<and> (ps \<noteq> [] \<longrightarrow> vs \<noteq> {})"
  using assms(1)
proof (induction ps arbitrary: vs)
  case (Cons p ps)
  then obtain v ws where "parse_part p lo hi names k = Inr v" "parse_parts ps lo hi names k = Inr ws" "vs = v \<union> ws"
    by (auto split: sum.splits)
  moreover from this(1) have "\<exists>q step. part_values q lo hi names k step = Inr v"
    by (auto simp: parse_part_def Let_def split: if_splits prod.splits)
  ultimately show ?case using Cons.IH part_values_within assms(2,3) by fastforce
qed simp

lemma parse_field_within:
  assumes "parse_field s lo hi names k = Inr (vs, r)" and "names \<noteq> [] \<Longrightarrow> lo \<le> k \<and> int (length names) + k \<le> hi + 1" and "lo \<le> hi"
  shows "vs \<subseteq> {lo..hi} \<and> vs \<noteq> {}"
  using assms parse_parts_within split_on_nonempty
  by (fastforce simp: parse_field_def Let_def split: if_splits sum.splits)

text \<open>The sets of a parsed expression are non-empty and lie within the bounds of their fields, 7 counting as Sunday
  with the 0; whatever is not within them is rejected.\<close>

theorem parsed_cron_within:
  assumes "parse_cron expr = Inr spec"
  shows "cs_minutes spec \<subseteq> {0..59} \<and> cs_hours spec \<subseteq> {0..23} \<and> cs_days spec \<subseteq> {1..31} \<and>
     cs_months spec \<subseteq> {1..12} \<and> cs_weekdays spec \<subseteq> {0..6} \<and>
     {} \<notin> {cs_minutes spec, cs_hours spec, cs_days spec, cs_months spec, cs_weekdays spec}"
proof -
  from assms obtain f0 f1 f2 f3 f4 a b c d e r0 r1 r2 r3 r4 where
    p: "parse_field f0 0 59 [] 0 = Inr (a, r0)" "parse_field f1 0 23 [] 0 = Inr (b, r1)"
      "parse_field f2 1 31 [] 0 = Inr (c, r2)" "parse_field f3 1 12 month_names 1 = Inr (d, r3)"
      "parse_field f4 0 7 weekday_names 0 = Inr (e, r4)"
    and spec: "cs_minutes spec = a" "cs_hours spec = b" "cs_days spec = c" "cs_months spec = d"
      "cs_weekdays spec = (\<lambda>x. if x = 7 then 0 else x) ` e"
    by (auto simp: parse_cron_def split: list.splits sum.splits)
  have names: "length month_names = 12" "length weekday_names = 7" by (simp_all add: month_names_def weekday_names_def)
  define e' where "e' = (\<lambda>x. if x = 7 then 0 else x) ` e"
  have e: "e \<subseteq> {0..7}" "e \<noteq> {}" using parse_field_within [OF p(5)] names by simp_all
  have e': "e' \<subseteq> {0..6}" "e' \<noteq> {}" using e(1) by (fastforce simp: e'_def) (simp only: e'_def image_is_empty e(2) not_False_eq_True)
  then show ?thesis
    using parse_field_within [OF p(1)] parse_field_within [OF p(2)] parse_field_within [OF p(3)] parse_field_within [OF p(4)] e'
    unfolding spec e'_def [symmetric] names by auto
qed

definition sample_cron :: cron_spec where
  "sample_cron = (case parse_cron ''*/20 9-17 1,15 * mon-FRI'' of Inr spec \<Rightarrow> spec | Inl _ \<Rightarrow> undefined)"

lemma sample_cron_parsed:
  "parse_cron ''*/20 9-17 1,15 * mon-FRI'' = Inr sample_cron"
  by code_simp

lemma parsed_cron_within_witness:
  "cs_weekdays sample_cron = {1, 2, 3, 4, 5} \<and> cs_minutes sample_cron \<subseteq> {0..59} \<and> cs_hours sample_cron \<subseteq> {0..23} \<and>
   cs_days sample_cron \<subseteq> {1..31} \<and> cs_months sample_cron \<subseteq> {1..12} \<and> cs_weekdays sample_cron \<subseteq> {0..6} \<and>
   {} \<notin> {cs_minutes sample_cron, cs_hours sample_cron, cs_days sample_cron, cs_months sample_cron, cs_weekdays sample_cron}"
proof
  show "cs_weekdays sample_cron = {1, 2, 3, 4, 5}" by code_simp
qed (rule parsed_cron_within [OF sample_cron_parsed])

section \<open>The next fire is the least\<close>

text \<open>The readings an expression stands for.\<close>

definition fires :: "cron_spec \<Rightarrow> int \<Rightarrow> bool" where
  "fires spec w = (matches_date spec (w div 86400) \<and> w mod 86400 div 3600 \<in> cs_hours spec \<and>
     w mod 3600 div 60 \<in> cs_minutes spec \<and> w mod 60 = 0)"

definition within_day :: "cron_spec \<Rightarrow> bool" where
  "within_day spec = (cs_minutes spec \<subseteq> {0..59} \<and> cs_hours spec \<subseteq> {0..23})"

lemma within_day_finite: "within_day spec \<Longrightarrow> finite (cs_minutes spec) \<and> finite (cs_hours spec)"
  by (auto simp: within_day_def intro: finite_subset)

lemma base_split: "0 \<le> r \<Longrightarrow> r < b \<Longrightarrow> (b * k + r) div b = k \<and> (b * k + r) mod b = r" for r b k :: int
  by simp

lemma wall_at_parts:
  assumes "0 \<le> h \<and> h < 24" and "0 \<le> m \<and> m < 60"
  shows "wall_at d h m div 86400 = d" and "wall_at d h m mod 86400 div 3600 = h" and "wall_at d h m mod 3600 div 60 = m"
    and "wall_at d h m mod 60 = 0"
proof -
  have r: "0 \<le> 3600 * h + 60 * m" "3600 * h + 60 * m < 86400" "0 \<le> 60 * m" "60 * m < 3600" using assms by simp_all
  have e: "wall_at d h m = 86400 * d + (3600 * h + 60 * m)" "wall_at d h m = 3600 * (24 * d + h) + 60 * m"
    "wall_at d h m = 60 * (1440 * d + 60 * h + m) + 0" by (simp_all add: wall_at_def)
  show "wall_at d h m div 86400 = d" unfolding e(1) using base_split [OF r(1,2)] by blast
  show "wall_at d h m mod 86400 div 3600 = h" unfolding e(1) using base_split [OF r(1,2)] base_split [OF r(3,4)] by metis
  have "wall_at d h m mod 3600 = 60 * m" unfolding e(2) using base_split [OF r(3,4)] by blast
  then show "wall_at d h m mod 3600 div 60 = m" by simp
  show "wall_at d h m mod 60 = 0" unfolding e(3) using base_split [of 0 60] by simp
qed

lemma wall_at_split:
  assumes "w mod 60 = 0"
  shows "wall_at (w div 86400) (w mod 86400 div 3600) (w mod 3600 div 60) = w"
proof -
  have "w = 86400 * (w div 86400) + w mod 86400" by simp
  also have "w mod 86400 = 3600 * (w mod 86400 div 3600) + w mod 86400 mod 3600" by simp
  also have "w mod 86400 mod 3600 = w mod 3600" by (simp add: mod_mod_cancel)
  also have "w mod 3600 = 60 * (w mod 3600 div 60) + w mod 3600 mod 60" by simp
  also have "w mod 3600 mod 60 = 0" using assms by (simp add: mod_mod_cancel)
  finally show ?thesis by (simp add: wall_at_def)
qed

lemma day_times_set:
  "within_day spec \<Longrightarrow> (h, m) \<in> set (day_times spec) \<longleftrightarrow> h \<in> cs_hours spec \<and> m \<in> cs_minutes spec"
  using within_day_finite by (auto simp: day_times_def)

lemma day_time_bounds: "within_day spec \<Longrightarrow> (h, m) \<in> set (day_times spec) \<Longrightarrow> (0 \<le> h \<and> h < 24) \<and> 0 \<le> m \<and> m < 60"
  by (auto simp: day_times_set within_day_def)

lemma fires_at: "within_day spec \<Longrightarrow> (h, m) \<in> set (day_times spec) \<Longrightarrow> fires spec (wall_at d h m) \<longleftrightarrow> matches_date spec d"
  using day_time_bounds [of spec h m] day_times_set [of spec h m] by (simp add: fires_def wall_at_parts)

lemma fires_time:
  assumes "within_day spec" and "fires spec w"
  obtains h m where "(h, m) \<in> set (day_times spec)" "w = wall_at (w div 86400) h m" "matches_date spec (w div 86400)"
  using assms wall_at_split [of w] by (force simp: fires_def day_times_set)

lemma sorted_pairs:
  assumes "sorted (hs :: int list)" and "distinct hs" and "sorted ms" and "\<And>m. m \<in> set ms \<Longrightarrow> 0 \<le> m \<and> m < 60"
  shows "sorted (map (\<lambda>(h, m). 3600 * h + 60 * m) (concat (map (\<lambda>h. map (\<lambda>m. (h, m)) ms) hs)))"
  using assms(1,2)
proof (induction hs)
  case (Cons h hs)
  have "3600 * h + 60 * m \<le> 3600 * h' + 60 * m'" if "h' \<in> set hs" "m \<in> set ms" "m' \<in> set ms" for h' m m'
  proof -
    have "h < h'" using Cons.prems that(1) by (auto simp: order.strict_iff_order)
    with assms(4) [OF that(2)] assms(4) [OF that(3)] show ?thesis by linarith
  qed
  moreover have "sorted (map (\<lambda>m. 3600 * h + 60 * m) ms)" using assms(3) by (auto simp: sorted_map sorted_wrt_iff_nth_less)
  ultimately show ?case using Cons by (auto simp: sorted_append comp_def)
qed simp

lemma day_times_sorted:
  assumes "within_day spec"
  shows "sorted (map (\<lambda>(h, m). wall_at d h m) (day_times spec))"
proof -
  have "0 \<le> m \<and> m < 60" if "m \<in> cs_minutes spec" for m using assms that by (auto simp: within_day_def)
  then have "sorted (map (\<lambda>(h, m). 3600 * h + 60 * m) (day_times spec))"
    unfolding day_times_def using within_day_finite [OF assms] by (intro sorted_pairs) auto
  then show ?thesis by (simp add: wall_at_def sorted_map split_def)
qed

lemma find_least:
  assumes "sorted (map f xs)" and "List.find P xs = Some x" and "y \<in> set xs" and "P y"
  shows "f x \<le> f y"
  using assms by (induction xs) (auto split: if_splits)

lemma fire_scan_Some:
  assumes "within_day spec" and "fire_scan spec lowest day n = Some w"
  shows "fires spec w \<and> lowest \<le> w \<and> w div 86400 < day + int n \<and>
     (\<forall>u. fires spec u \<longrightarrow> lowest \<le> u \<longrightarrow> day \<le> u div 86400 \<longrightarrow> w \<le> u)"
  using assms(2)
proof (induction n arbitrary: day)
  case (Suc n)
  let ?f = "if matches_date spec day then List.find (\<lambda>(h, m). lowest \<le> wall_at day h m) (day_times spec) else None"
  show ?case
  proof (cases ?f)
    case None
    with Suc.prems have "fire_scan spec lowest (day + 1) n = Some w" by simp
    from Suc.IH [OF this] have IH: "fires spec w \<and> lowest \<le> w \<and> w div 86400 < day + 1 + int n \<and>
      (\<forall>u. fires spec u \<longrightarrow> lowest \<le> u \<longrightarrow> day + 1 \<le> u div 86400 \<longrightarrow> w \<le> u)" by simp
    have "u div 86400 \<noteq> day" if u: "fires spec u" "lowest \<le> u" for u
    proof
      assume "u div 86400 = day"
      then obtain h m where "(h, m) \<in> set (day_times spec)" "u = wall_at day h m" "matches_date spec day"
        using fires_time [OF assms(1) u(1)] by metis
      with None u(2) show False by (auto simp: find_None_iff)
    qed
    with IH show ?thesis by (auto simp: order.order_iff_strict)
  next
    case (Some hm)
    obtain h m where hm: "hm = (h, m)" by fastforce
    then have f: "matches_date spec day" "List.find (\<lambda>(h, m). lowest \<le> wall_at day h m) (day_times spec) = Some (h, m)"
      and w: "w = wall_at day h m" using Some Suc.prems by (auto split: if_splits)
    have i: "(h, m) \<in> set (day_times spec)" "lowest \<le> w" using f(2) w by (auto simp: find_Some_iff set_conv_nth)
    have hm24: "0 \<le> h \<and> h < 24" "0 \<le> m \<and> m < 60" using day_time_bounds [OF assms(1) i(1)] by simp_all
    have "w \<le> u" if u: "fires spec u" "lowest \<le> u" "day \<le> u div 86400" for u
    proof (cases "u div 86400 = day")
      case True
      then obtain h' m' where "(h', m') \<in> set (day_times spec)" "u = wall_at day h' m'" using fires_time [OF assms(1) u(1)] by metis
      then show ?thesis using find_least [OF day_times_sorted [OF assms(1)] f(2)] u(2) w by force
    next
      case False
      then have "w div 86400 < u div 86400" using u(3) wall_at_parts(1) [OF hm24, of day] w by simp
      then show ?thesis using zdiv_mono1 [of u w 86400] by linarith
    qed
    then show ?thesis using i fires_at [OF assms(1) i(1), of day] f(1) w wall_at_parts(1) [OF hm24, of day] by simp
  qed
qed simp

lemma fire_scan_None:
  assumes "within_day spec" and "fire_scan spec lowest day n = None" and "fires spec u" and "lowest \<le> u"
    and "day \<le> u div 86400" and "u div 86400 < day + int n"
  shows False
  using assms(2,5,6)
proof (induction n arbitrary: day)
  case (Suc n)
  have none: "(if matches_date spec day then List.find (\<lambda>(h, m). lowest \<le> wall_at day h m) (day_times spec) else None) = None"
    "fire_scan spec lowest (day + 1) n = None" using Suc.prems(1) by (auto split: option.splits if_splits)
  obtain h m where u: "(h, m) \<in> set (day_times spec)" "u = wall_at (u div 86400) h m" "matches_date spec (u div 86400)"
    using fires_time [OF assms(1,3)] by blast
  have "u div 86400 \<noteq> day"
  proof
    assume "u div 86400 = day"
    with u assms(4) none(1) show False by (auto simp: find_None_iff)
  qed
  with Suc.IH [OF none(2)] Suc.prems(2,3) show ?case by simp
qed simp

lemma next_minute_le:
  assumes "t mod 60 = 0"
  shows "next_minute w \<le> t \<longleftrightarrow> w < of_int t"
proof -
  from assms obtain k where k: "t = 60 * k" by (metis mod_0_imp_dvd dvd_def)
  have "next_minute w \<le> t \<longleftrightarrow> \<lfloor>w / 60\<rfloor> < k" by (auto simp: next_minute_def k)
  also have "\<dots> \<longleftrightarrow> w < of_int t" by (auto simp: floor_less_iff k field_simps)
  finally show ?thesis .
qed

text \<open>C25: The next fire of a parsed expression after a reading of the clock is the least reading later than it that
  the expression stands for; there is none exactly when the search of five years meets none.\<close>

theorem next_fire_least:
  assumes "parse_cron expr = Inr spec"
  shows "(case next_wall spec w of
      Some t \<Rightarrow> fires spec t \<and> w < of_int t \<and> (\<forall>u. fires spec u \<longrightarrow> w < of_int u \<longrightarrow> t \<le> u)
    | None \<Rightarrow> \<forall>u. fires spec u \<longrightarrow> w < of_int u \<longrightarrow> next_minute w div 86400 + 1830 \<le> u div 86400)"
proof -
  have ok: "within_day spec" using parsed_cron_within [OF assms(1)] by (simp add: within_day_def)
  have le: "next_minute w \<le> u \<longleftrightarrow> w < of_int u" if "fires spec u" for u
    using next_minute_le that by (simp add: fires_def)
  show ?thesis
  proof (cases "next_wall spec w")
    case None
    then have "next_minute w div 86400 + 1830 \<le> u div 86400" if "fires spec u" "w < of_int u" for u
      using fire_scan_None [OF ok, of "next_minute w" "next_minute w div 86400" max_search_days u] that le [OF that(1)]
      by (force simp: next_wall_def Let_def max_search_days_def zdiv_mono1 not_less)
    with None show ?thesis by simp
  next
    case (Some t)
    then have s: "fire_scan spec (next_minute w) (next_minute w div 86400) max_search_days = Some t" by (simp add: next_wall_def Let_def)
    from fire_scan_Some [OF ok s] have "fires spec t" "next_minute w \<le> t"
      "\<And>u. fires spec u \<Longrightarrow> next_minute w \<le> u \<Longrightarrow> t \<le> u" by (auto simp: zdiv_mono1)
    with Some le show ?thesis by simp
  qed
qed

text \<open>Wednesday, 15 July 2026, 17:41 on the clocks: the next fire of the sample is at 9:00 on the next weekday.\<close>

lemma sample_next: "next_wall sample_cron (86400 * 739812 + 3600 * 17 + 60 * 41) = Some (86400 * 739813 + 3600 * 9)"
  by code_simp

lemma next_fire_least_witness:
  "fires sample_cron (86400 * 739813 + 3600 * 9) \<and> \<not> fires sample_cron (86400 * 739813 + 3600 * 8)"
  using next_fire_least [OF sample_cron_parsed, of "86400 * 739812 + 3600 * 17 + 60 * 41"]
  unfolding sample_next by (auto dest!: spec [of _ "86400 * 739813 + 3600 * 8"])

section \<open>Windows\<close>

text \<open>An overnight window is open exactly when the window from its end to its start is closed.\<close>

lemma window_overnight:
  assumes "parse_hhmm a = Some s" and "parse_hhmm b = Some e" and "s \<noteq> e" and "a \<noteq> []" and "b \<noteq> []"
  shows "in_window z (Some (a, b)) now = map_option Not (in_window z (Some (b, a)) now)"
  using assms by (auto simp: in_window_def Let_def)

end
