(* ===== verification/Leader_Lease.thy ===== *)
theory Leader_Lease
  imports Prelude
begin

text \<open>
  Which host fires scheduled slots: \<open>backend/staff/scheduler_leader_lease.py\<close>. The lease is one entry of the
  state file of the authority, which all hosts ask. The registry of portable machines is an argument; expiries are
  instants.
\<close>

section \<open>The lease\<close>

record leader_entry =
  le_holder :: string
  le_acquired_at :: "seconds option"
  le_renewed_at :: "seconds option"
  le_expires_at :: "seconds option"
  le_ttl :: seconds
  le_chain :: "string list"

definition no_leader :: leader_entry where
  "no_leader = \<lparr>le_holder = [], le_acquired_at = None, le_renewed_at = None, le_expires_at = None, le_ttl = 0, le_chain = []\<rparr>"

datatype lease_reason =
    PortableNode
  | LeaseDisabled
  | NotInChain
  | LeaseRenewed
  | LeaseAcquired
  | LeasePreempted
  | HeldBy string
  | AuthorityUnavailable

record lease_answer =
  la_granted :: bool
  la_holder :: string
  la_reason :: lease_reason
  la_expires_at :: "seconds option"
  la_chain :: "string list"

definition leader_chain :: "string list \<Rightarrow> string list" where
  "leader_chain parts = filter (\<lambda>n. n \<noteq> []) (map py_strip parts)"

definition lease_ttl_seconds :: "rat option \<Rightarrow> rat \<Rightarrow> rat" where
  "lease_ttl_seconds configured tick =
     (case configured of Some t \<Rightarrow> if 0 < t then t else max (tick * 3) (tick + 1) | None \<Rightarrow> max (tick * 3) (tick + 1))"

text \<open>The later of two places of a name in the chain counts.\<close>

definition chain_rank :: "string list \<Rightarrow> string \<Rightarrow> nat" where
  "chain_rank chain name =
     (case map_of (rev (zip chain [0..<length chain])) name of Some i \<Rightarrow> i | None \<Rightarrow> 10000)"

definition lease_active :: "leader_entry \<Rightarrow> seconds \<Rightarrow> bool" where
  "lease_active e now = (case le_expires_at e of Some t \<Rightarrow> now < t | None \<Rightarrow> False)"

definition lease_decision :: "string list \<Rightarrow> string \<Rightarrow> seconds \<Rightarrow> leader_entry \<Rightarrow> lease_reason" where
  "lease_decision chain machine now e =
     (if le_holder e = machine then LeaseRenewed
      else if \<not> lease_active e now \<or> le_holder e = [] then LeaseAcquired
      else if chain_rank chain machine < chain_rank chain (le_holder e) then LeasePreempted
      else HeldBy (le_holder e))"

definition grant_lease :: "string list \<Rightarrow> string \<Rightarrow> seconds \<Rightarrow> seconds \<Rightarrow> leader_entry \<Rightarrow> leader_entry" where
  "grant_lease chain machine now ttl e =
     \<lparr>le_holder = machine,
      le_acquired_at = (if le_holder e \<noteq> machine \<or> le_acquired_at e = None then Some now else le_acquired_at e),
      le_renewed_at = Some now, le_expires_at = Some (now + ttl), le_ttl = ttl, le_chain = chain\<rparr>"

definition acquire_leader_lease ::
    "(string \<Rightarrow> bool) \<Rightarrow> string list \<Rightarrow> string \<Rightarrow> seconds \<Rightarrow> seconds \<Rightarrow> leader_entry \<Rightarrow> lease_answer \<times> leader_entry" where
  "acquire_leader_lease portable chain machine now ttl e =
     (let answer = (\<lambda>g h r x. \<lparr>la_granted = g, la_holder = h, la_reason = r, la_expires_at = x, la_chain = chain\<rparr>)
      in if portable machine then (answer False [] PortableNode None, e)
         else if chain = [] then (answer True machine LeaseDisabled None, e)
         else if machine \<notin> set chain then (answer False [] NotInChain None, e)
         else let reason = lease_decision chain machine now e
              in (case reason of
                    HeldBy h \<Rightarrow> (answer False h reason (le_expires_at e), e)
                  | _ \<Rightarrow> (answer True machine reason (Some (now + ttl)), grant_lease chain machine now ttl e)))"

definition leader_status :: "string \<Rightarrow> seconds \<Rightarrow> leader_entry \<Rightarrow> bool \<times> bool" where
  "leader_status machine now e =
     (let active = (le_holder e \<noteq> [] \<and> lease_active e now) in (active, active \<and> le_holder e = machine))"

text \<open>\<open>reachable\<close>: the authority answers, or there is none and the file is local.\<close>

definition lease_allows_firing ::
    "(string \<Rightarrow> bool) \<Rightarrow> string list \<Rightarrow> bool \<Rightarrow> string \<Rightarrow> seconds \<Rightarrow> seconds \<Rightarrow> leader_entry \<Rightarrow> bool \<times> leader_entry" where
  "lease_allows_firing portable chain reachable machine now ttl e =
     (if portable machine then (False, e)
      else if chain = [] then (True, e)
      else if machine \<notin> set chain then (False, e)
      else if \<not> reachable then (False, e)
      else (case acquire_leader_lease portable chain machine now ttl e of (a, e1) \<Rightarrow> (la_granted a, e1)))"

section \<open>One leader at a time\<close>

text \<open>The requests of the hosts in the order of the clock of the authority, each with the period its host asks for
  (\<open>ttl_seconds\<close> of the request: each host configures its own), and the grants among them.\<close>

type_synonym lease_request = "string \<times> seconds \<times> seconds"

fun lease_run :: "(string \<Rightarrow> bool) \<Rightarrow> string list \<Rightarrow> lease_request list \<Rightarrow> leader_entry \<Rightarrow> bool list \<times> leader_entry" where
  "lease_run portable chain [] e = ([], e)"
| "lease_run portable chain ((m, t, ttl) # rs) e =
     (case acquire_leader_lease portable chain m t ttl e of
        (a, e1) \<Rightarrow> (case lease_run portable chain rs e1 of (gs, e2) \<Rightarrow> (la_granted a # gs, e2)))"

definition grants :: "(string \<Rightarrow> bool) \<Rightarrow> string list \<Rightarrow> lease_request list \<Rightarrow> leader_entry \<Rightarrow> lease_request list" where
  "grants portable chain rs e = map fst (filter snd (zip rs (fst (lease_run portable chain rs e))))"

lemma grants_Nil [simp]: "grants portable chain [] e = []"
  by (simp add: grants_def)

lemma grants_Cons:
  "grants portable chain ((m, t, ttl) # rs) e =
     (case acquire_leader_lease portable chain m t ttl e of
        (a, e1) \<Rightarrow> (if la_granted a then [(m, t, ttl)] else []) @ grants portable chain rs e1)"
  by (simp add: grants_def split: prod.split)

lemma acquire_effect:
  assumes "chain \<noteq> []" and "acquire_leader_lease portable chain m t ttl e = (a, e1)"
  shows "if la_granted a
     then e1 = grant_lease chain m t ttl e \<and> m \<in> set chain \<and>
       (le_holder e = m \<or> \<not> lease_active e t \<or> le_holder e = [] \<or> chain_rank chain m < chain_rank chain (le_holder e))
     else e1 = e"
  using assms
  by (auto simp: acquire_leader_lease_def lease_decision_def Let_def split: if_splits)

lemma grant_fields [simp]:
  "le_holder (grant_lease chain m t ttl e) = m" "le_expires_at (grant_lease chain m t ttl e) = Some (t + ttl)"
  by (simp_all add: grant_lease_def)

text \<open>A grant that cuts the lease of \<open>holder\<close> short: one to the holder itself or to a host before it in the chain,
  for a period that is over at \<open>now\<close>.\<close>

definition cut_short :: "string list \<Rightarrow> string \<Rightarrow> seconds \<Rightarrow> lease_request \<Rightarrow> bool" where
  "cut_short chain holder now g =
     (case g of (n, u, d) \<Rightarrow> u + d \<le> now \<and> (n = holder \<or> chain_rank chain n < chain_rank chain holder))"

lemma cut_short_up:
  "cut_short chain n now g \<Longrightarrow> n = holder \<or> chain_rank chain n < chain_rank chain holder \<Longrightarrow> cut_short chain holder now g"
  by (auto simp: cut_short_def)

text \<open>While the lease of a holder has not run out, whoever is granted it stands before the holder in the chain, or
  the lease has been cut short before.\<close>

lemma grants_outrank:
  assumes "chain \<noteq> []" and "[] \<notin> set chain" and "\<forall>(n, u, d) \<in> set rs. u \<le> t'"
    and "le_expires_at e = Some x" and "t' < x" and "le_holder e \<noteq> []"
    and "la_granted (fst (acquire_leader_lease portable chain m' t' ttl' (snd (lease_run portable chain rs e))))"
  shows "m' = le_holder e \<or> chain_rank chain m' < chain_rank chain (le_holder e) \<or>
    (\<exists>g \<in> set (grants portable chain rs e). cut_short chain (le_holder e) t' g)"
  using assms(3-)
proof (induction rs arbitrary: e x)
  case Nil
  obtain a e1 where acq: "acquire_leader_lease portable chain m' t' ttl' e = (a, e1)" by fastforce
  from acquire_effect [OF assms(1) acq] Nil show ?case by (auto simp: acq lease_active_def)
next
  case (Cons r rs)
  obtain m t ttl where r: "r = (m, t, ttl)" by (cases r) auto
  have later: "\<forall>(n, u, d) \<in> set rs. u \<le> t'" and "t \<le> t'" using Cons.prems(1) by (auto simp: r)
  obtain a e1 where acq: "acquire_leader_lease portable chain m t ttl e = (a, e1)" by fastforce
  have rest: "la_granted (fst (acquire_leader_lease portable chain m' t' ttl' (snd (lease_run portable chain rs e1))))"
    using Cons.prems(5) by (simp add: r acq split: prod.splits)
  note eff = acquire_effect [OF assms(1) acq]
  show ?case
  proof (cases "la_granted a")
    case False
    with eff Cons.IH [OF later Cons.prems(2-4)] rest show ?thesis by (auto simp: r grants_Cons acq)
  next
    case True
    have first: "m = le_holder e \<or> chain_rank chain m < chain_rank chain (le_holder e)"
      using eff True Cons.prems(2,3,4) \<open>t \<le> t'\<close> by (auto simp: lease_active_def)
    have e1: "le_expires_at e1 = Some (t + ttl)" "le_holder e1 = m" "m \<noteq> []" using eff True assms(2) by auto
    have sub: "set (grants portable chain (r # rs) e) = insert (m, t, ttl) (set (grants portable chain rs e1))"
      using True by (auto simp: r grants_Cons acq)
    show ?thesis
    proof (cases "t + ttl \<le> t'")
      case True
      then have "cut_short chain (le_holder e) t' (m, t, ttl)" using first by (simp add: cut_short_def)
      then show ?thesis unfolding sub by blast
    next
      case False
      then have "m' = m \<or> chain_rank chain m' < chain_rank chain m \<or>
          (\<exists>g \<in> set (grants portable chain rs e1). cut_short chain m t' g)"
        using Cons.IH [OF later e1(1) _ _ rest] e1 by simp
      then show ?thesis unfolding sub using first cut_short_up by (metis insertCI order_less_trans)
    qed
  qed
qed

text \<open>C26: Once a host has been granted the lease for a period, another host is granted it within that period only
  when it stands before the first in the chain, or when in between the lease went to the first host again, or to one
  before it in the chain, for a shorter period that has run out: for any requests in the order of the authority's
  clock, each with its own period.\<close>

theorem leader_outranked_only:
  assumes "chain = leader_chain parts" and "chain \<noteq> []" and "sorted (map (fst \<circ> snd) (rs @ (m, t, ttl) # us @ [(m', t', ttl')]))"
    and "acquire_leader_lease portable chain m t ttl (snd (lease_run portable chain rs e)) = (a, e1)" and "la_granted a"
    and "la_granted (fst (acquire_leader_lease portable chain m' t' ttl' (snd (lease_run portable chain us e1))))"
    and "t' < t + ttl" and "m' \<noteq> m"
  shows "chain_rank chain m' < chain_rank chain m \<or>
    (\<exists>(n, u, d) \<in> set (grants portable chain us e1).
       u + d \<le> t' \<and> (n = m \<or> chain_rank chain n < chain_rank chain m))"
proof -
  have names: "[] \<notin> set chain" using assms(1) by (auto simp: leader_chain_def)
  have e1: "le_expires_at e1 = Some (t + ttl)" "le_holder e1 = m" "m \<in> set chain"
    using acquire_effect [OF assms(2,4)] assms(5) by auto
  have "\<forall>(n, u, d) \<in> set us. u \<le> t'" using assms(3) by (auto simp: sorted_append)
  moreover have "le_holder e1 \<noteq> []" using e1(2,3) names by auto
  ultimately show ?thesis
    using grants_outrank [OF assms(2) names _ e1(1) assms(7) _ assms(6)] e1(2) assms(8) by (auto simp: cut_short_def)
qed

definition two_hosts :: "string list" where
  "two_hosts = [''desk'', ''laptop'']"

lemma leader_outranked_only_witness:
  "chain_rank two_hosts ''desk'' < chain_rank two_hosts ''laptop'' \<and>
   grants (\<lambda>_. False) two_hosts [(''laptop'', 0, 90), (''desk'', 30, 90), (''laptop'', 60, 90), (''laptop'', 121, 60)] no_leader
     = [(''laptop'', 0, 90), (''desk'', 30, 90), (''laptop'', 121, 60)]"
proof
  have "chain_rank two_hosts ''desk'' < chain_rank two_hosts ''laptop'' \<or>
      (\<exists>(n, u, d) \<in> set (grants (\<lambda>_. False) two_hosts []
          (snd (acquire_leader_lease (\<lambda>_. False) two_hosts ''laptop'' 0 90 no_leader))).
         u + d \<le> 30 \<and> (n = ''laptop'' \<or> chain_rank two_hosts n < chain_rank two_hosts ''laptop''))"
    by (rule leader_outranked_only [where rs = "[]" and parts = two_hosts and e = no_leader and t = 0 and ttl = 90
          and ttl' = 90 and a = "fst (acquire_leader_lease (\<lambda>_. False) two_hosts ''laptop'' 0 90 no_leader)"]) code_simp+
  then show "chain_rank two_hosts ''desk'' < chain_rank two_hosts ''laptop''" by simp
qed code_simp

text \<open>The second case arises: a host that comes first takes the lease for five seconds, and a third host has it while
  the first is still within the period it was granted.\<close>

lemma short_period_lets_lower_in:
  "grants (\<lambda>_. False) [''desk'', ''laptop'', ''phone''] [(''laptop'', 0, 90), (''desk'', 10, 5), (''phone'', 20, 90)] no_leader
     = [(''laptop'', 0, 90), (''desk'', 10, 5), (''phone'', 20, 90)]"
  by code_simp

end
