(* ===== verification/Staff_Schedule.thy ===== *)
theory Staff_Schedule
  imports Run_Retry Cron Leader_Lease
begin

text \<open>
  The scheduler of staff roles: \<open>backend/staff/scheduler.py\<close> with \<open>scheduler_named_jobs.py\<close>,
  \<open>scheduler_missed_runs.py\<close>, \<open>scheduler_issue_pick.py\<close> and \<open>schedule_placement.py\<close>. A tick settles the runs of
  fired slots, asks for the lease, queues or skips every due slot of every role, and fires the queued ones. The
  guards of single personas, the claims on GitHub, exclusions, the plan of a run and its fresh id are arguments; the
  prompt and the consolidation strategy are left out. An exception in the queue ends the tick.
\<close>

section \<open>Roles, entries and the node\<close>

record sched_role =
  sh_spec :: role_spec
  sh_schedule :: "string option"
  sh_window :: "(string \<times> string) option"
  sh_repos :: "string list"
  sh_dispatchable :: bool
  sh_jobs :: "(string, string) dict"

datatype skip_reason =
    ScheduleDisabled
  | OtherHost
  | NotEnabledHere
  | OutsideWindow
  | RoleHeld
  | RunStillActive string
  | OverBudget
  | NoEligibleIssue
  | RepoHeld
  | RepoIsExcluded
  | GuardedPersona
  | TargetClaimed
  | RunnerRejected

datatype slot_note =
    NoNote
  | SkippedSlot seconds skip_reason
  | FiredSlot seconds string
  | RunEnded string seconds "run_status option"

record pending_run =
  pn_run :: string
  pn_slot :: seconds

record slot_entry =
  se_cursor :: "seconds option"
  se_enabled :: bool
  se_last_fired :: "seconds option"
  se_note :: slot_note
  se_missed :: int
  se_pending :: "pending_run option"
  se_model_override :: "string option"

definition fresh_entry :: slot_entry where
  "fresh_entry = \<lparr>se_cursor = None, se_enabled = True, se_last_fired = None, se_note = NoNote, se_missed = 0,
     se_pending = None, se_model_override = None\<rparr>"

text \<open>The key of an entry names a role, or a role and one of its jobs, as does an alert.\<close>

record sched_state =
  ss_entries :: "(string, slot_entry) dict"
  ss_alerts :: "(string \<times> int) list"
  ss_alert_at :: "(string, seconds) dict"
  ss_world :: staff_world

record open_issue =
  oi_number :: int
  oi_labels :: "string list"

record sched_env =
  sv_retry :: retry_env
  sv_zone :: zone
  sv_roles :: "sched_role list"
  sv_home :: "string \<Rightarrow> string option"
  sv_allowed :: "string \<Rightarrow> bool"
  sv_grace :: bool
  sv_issues :: "string \<Rightarrow> open_issue list option"
  sv_claim_held :: "string \<Rightarrow> int \<Rightarrow> bool option"
  sv_claim_blocks :: "string \<Rightarrow> int \<Rightarrow> string \<Rightarrow> bool"
  sv_excluded :: "string \<Rightarrow> bool"
  sv_guard :: "string \<Rightarrow> string option \<Rightarrow> seconds \<Rightarrow> bool"
  sv_plan :: "sched_role \<Rightarrow> string \<Rightarrow> int option \<Rightarrow> string option \<Rightarrow> (launch_plan \<times> run_origin \<times> int) option"
  sv_run_id :: "string \<Rightarrow> seconds \<Rightarrow> string"
  sv_verification_failed :: "string \<Rightarrow> bool"

abbreviation sv_machine :: "sched_env \<Rightarrow> string" where
  "sv_machine env \<equiv> re_machine (sv_retry env)"

abbreviation role_name :: "sched_role \<Rightarrow> string" where
  "role_name role \<equiv> rk_name (sh_spec role)"

definition slot_key_of :: "string \<Rightarrow> string option \<Rightarrow> string" where
  "slot_key_of name job = (case job of Some j \<Rightarrow> name @ ''::'' @ j | None \<Rightarrow> name)"

definition entry_of :: "string \<Rightarrow> sched_state \<Rightarrow> slot_entry" where
  "entry_of key st = (case map_of (ss_entries st) key of Some e \<Rightarrow> e | None \<Rightarrow> fresh_entry)"

definition change_entry :: "string \<Rightarrow> (slot_entry \<Rightarrow> slot_entry) \<Rightarrow> sched_state \<Rightarrow> sched_state" where
  "change_entry key f st = st\<lparr>ss_entries := AList.update key (f (entry_of key st)) (ss_entries st)\<rparr>"

section \<open>Missed slots\<close>

definition missed_alert_threshold :: int where
  "missed_alert_threshold = 2"

definition alert_debounce :: seconds where
  "alert_debounce = 300"

definition emit_missed_run_alert :: "seconds \<Rightarrow> string \<Rightarrow> int \<Rightarrow> sched_state \<Rightarrow> sched_state" where
  "emit_missed_run_alert now key count st =
     (case map_of (ss_alert_at st) key of
        Some sent \<Rightarrow> if now - sent < alert_debounce then st
                     else st\<lparr>ss_alert_at := AList.update key now (ss_alert_at st), ss_alerts := ss_alerts st @ [(key, count)]\<rparr>
      | None \<Rightarrow> st\<lparr>ss_alert_at := AList.update key now (ss_alert_at st), ss_alerts := ss_alerts st @ [(key, count)]\<rparr>)"

definition note_scheduled_miss :: "seconds \<Rightarrow> string \<Rightarrow> sched_state \<Rightarrow> sched_state" where
  "note_scheduled_miss now key st =
     (let count = se_missed (entry_of key st) + 1; st1 = change_entry key (\<lambda>e. e\<lparr>se_missed := count\<rparr>) st
      in if count = missed_alert_threshold then emit_missed_run_alert now key count st1 else st1)"

definition record_scheduled_skip :: "seconds \<Rightarrow> string \<Rightarrow> seconds \<Rightarrow> skip_reason \<Rightarrow> sched_state \<Rightarrow> sched_state" where
  "record_scheduled_skip now key slot reason st =
     note_scheduled_miss now key (change_entry key (\<lambda>e. e\<lparr>se_note := SkippedSlot slot reason\<rparr>) st)"

definition record_scheduled_fire :: "seconds \<Rightarrow> string \<Rightarrow> seconds \<Rightarrow> string \<Rightarrow> sched_state \<Rightarrow> sched_state" where
  "record_scheduled_fire now key slot rid st =
     change_entry key (\<lambda>e. e\<lparr>se_last_fired := Some now, se_note := FiredSlot slot rid,
       se_pending := Some \<lparr>pn_run = rid, pn_slot = slot\<rparr>\<rparr>) st"

definition live_statuses :: "run_status list" where
  "live_statuses = [RunQueued, RunPreparing, RunRunning, RunNeedsInput]"

definition settle_entry :: "sched_env \<Rightarrow> seconds \<Rightarrow> string \<Rightarrow> sched_state \<Rightarrow> sched_state" where
  "settle_entry env now key st =
     (case se_pending (entry_of key st) of
        None \<Rightarrow> st
      | Some p \<Rightarrow>
          let run = get_run (pn_run p) (ss_world st)
          in (case run of
                Some r \<Rightarrow>
                  if sf_status r \<in> set live_statuses then st
                  else if sf_status r = RunSucceeded \<and> \<not> sv_verification_failed env (sf_id r)
                  then change_entry key (\<lambda>e. e\<lparr>se_pending := None, se_missed := 0\<rparr>) st
                  else note_scheduled_miss now key
                         (change_entry key (\<lambda>e. e\<lparr>se_pending := None, se_note := RunEnded (pn_run p) (pn_slot p) (Some (sf_status r))\<rparr>) st)
              | None \<Rightarrow> note_scheduled_miss now key
                  (change_entry key (\<lambda>e. e\<lparr>se_pending := None, se_note := RunEnded (pn_run p) (pn_slot p) None\<rparr>) st)))"

definition reconcile_scheduled_runs :: "sched_env \<Rightarrow> seconds \<Rightarrow> sched_state \<Rightarrow> sched_state" where
  "reconcile_scheduled_runs env now st = fold (settle_entry env now) (map fst (ss_entries st)) st"

section \<open>A slot\<close>

text \<open>At least two slots after the cursor have passed.\<close>

definition is_stale :: "zone \<Rightarrow> cron_spec \<Rightarrow> seconds \<Rightarrow> seconds \<Rightarrow> bool" where
  "is_stale z spec cursor now =
     (case next_fire z spec cursor of None \<Rightarrow> False
      | Some a \<Rightarrow> (case next_fire z spec a of None \<Rightarrow> False | Some b \<Rightarrow> b \<le> now))"

definition slot_cursor :: "zone \<Rightarrow> cron_spec \<Rightarrow> seconds \<Rightarrow> slot_entry \<Rightarrow> seconds" where
  "slot_cursor z spec now e =
     (case se_cursor e of None \<Rightarrow> now | Some c \<Rightarrow> if is_stale z spec c now then now else c)"

record slot_report =
  rp_due :: "seconds option"
  rp_enabled :: bool
  rp_in_window :: bool
  rp_hold :: bool
  rp_active :: "string option"
  rp_budget_ok :: bool

text \<open>\<open>None\<close>: the window of the role does not parse, which is an exception.\<close>

definition schedule_report ::
    "sched_env \<Rightarrow> sched_role \<Rightarrow> string option \<Rightarrow> string \<Rightarrow> seconds \<Rightarrow> sched_state \<Rightarrow> slot_report option \<times> sched_state" where
  "schedule_report env role job cron now st =
     (let key = slot_key_of (role_name role) job
      in case in_window (sv_zone env) (sh_window role) now of
           None \<Rightarrow> (None, st)
         | Some inside \<Rightarrow>
             let (due, st1) =
                   (case parse_cron cron of
                      Inl _ \<Rightarrow> (None, st)
                    | Inr spec \<Rightarrow>
                        let c = slot_cursor (sv_zone env) spec now (entry_of key st)
                        in (next_fire (sv_zone env) spec c, change_entry key (\<lambda>e. e\<lparr>se_cursor := Some c\<rparr>) st))
             in (Some \<lparr>rp_due = due, rp_enabled = se_enabled (entry_of key st), rp_in_window = inside,
                   rp_hold = (blocking_hold (role_name role) (case sh_repos role of [] \<Rightarrow> [] | r # _ \<Rightarrow> r) (re_holds (sv_retry env)) \<noteq> None),
                   rp_active = map_option sf_id (active_run_of (role_name role) (ss_world st)),
                   rp_budget_ok = can_run (sv_retry env) (sh_spec role) (ss_world st)\<rparr>, st1))"

definition host_skip_reason :: "sched_env \<Rightarrow> string \<Rightarrow> skip_reason option" where
  "host_skip_reason env name =
     (if (case sv_home env name of Some h \<Rightarrow> h | None \<Rightarrow> sv_machine env) \<noteq> sv_machine env then Some OtherHost
      else if \<not> sv_allowed env name then Some NotEnabledHere
      else None)"

definition slot_blocker :: "sched_env \<Rightarrow> sched_role \<Rightarrow> slot_report \<Rightarrow> skip_reason option" where
  "slot_blocker env role rp =
     (if \<not> rp_enabled rp then Some ScheduleDisabled
      else case host_skip_reason env (role_name role) of Some r \<Rightarrow> Some r
      | None \<Rightarrow>
          if \<not> rp_in_window rp then Some OutsideWindow
          else if rp_hold rp then Some RoleHeld
          else case rp_active rp of Some i \<Rightarrow> Some (RunStillActive i)
          | None \<Rightarrow> if \<not> rp_budget_ok rp then Some OverBudget else None)"

section \<open>The target of the issue remediator\<close>

definition skip_labels :: "string list" where
  "skip_labels = [''blocked'', ''do-not-automate'', ''judgement:contested'', ''judgement:design'', ''measurement'', ''research'']"

definition priority_labels :: "(string, int) dict" where
  "priority_labels = [(''critical'', 0), (''high'', 1), (''medium'', 2), (''low'', 3)]"

definition label_names :: "open_issue \<Rightarrow> string set" where
  "label_names i = set (filter (\<lambda>n. n \<noteq> []) (map (\<lambda>l. py_lower (py_strip l)) (oi_labels i)))"

definition priority_key :: "open_issue \<Rightarrow> int \<times> int \<times> int" where
  "priority_key i =
     (let ranks = map snd (filter (\<lambda>(n, q). n \<in> label_names i) priority_labels)
      in (if ranks = [] then 2 else min_list ranks, if ''quick-win'' \<in> label_names i then 0 else 1, oi_number i))"

fun key_less :: "int \<times> int \<times> int \<Rightarrow> int \<times> int \<times> int \<Rightarrow> bool" where
  "key_less (a, b, c) (x, y, z) = (a < x \<or> (a = x \<and> (b < y \<or> (b = y \<and> c < z))))"

definition eligible_issue :: "sched_env \<Rightarrow> string \<Rightarrow> string \<Rightarrow> open_issue \<Rightarrow> bool" where
  "eligible_issue env name repo i =
     (0 < oi_number i \<and> \<not> (name = ''issue-remediator'' \<and> label_names i \<inter> set skip_labels \<noteq> {}) \<and>
      sv_claim_held env repo (oi_number i) = Some False \<and> \<not> sv_claim_blocks env repo (oi_number i) name)"

text \<open>One repository per calendar day.\<close>

definition local_day :: "sched_env \<Rightarrow> seconds \<Rightarrow> int" where
  "local_day env now = \<lfloor>wall_of (sv_zone env) now / 86400\<rfloor>"

definition scheduled_repo :: "sched_env \<Rightarrow> string list \<Rightarrow> seconds \<Rightarrow> string" where
  "scheduled_repo env repos now = (if repos = [] then [] else repos ! nat (local_day env now mod int (length repos)))"

definition issue_candidates :: "sched_env \<Rightarrow> string \<Rightarrow> string list \<Rightarrow> ((int \<times> int \<times> int) \<times> string \<times> int) list" where
  "issue_candidates env name repos =
     concat (map (\<lambda>repo. case sv_issues env repo of
         None \<Rightarrow> []
       | Some is \<Rightarrow> map (\<lambda>i. (priority_key i, repo, oi_number i)) (filter (eligible_issue env name repo) is)) repos)"

text \<open>The first of the least candidates, as Python's \<open>min\<close> with a key.\<close>

fun first_least :: "((int \<times> int \<times> int) \<times> 'a) list \<Rightarrow> 'a option" where
  "first_least [] = None"
| "first_least (c # cs) = Some (snd (fold (\<lambda>d best. if key_less (fst d) (fst best) then d else best) cs c))"

definition pick_issue_target :: "sched_env \<Rightarrow> sched_role \<Rightarrow> seconds \<Rightarrow> (string \<times> int) option" where
  "pick_issue_target env role now =
     (let repos = sh_repos role
      in if repos = [] then None
         else first_least (issue_candidates env (role_name role) (rotate (nat (local_day env now mod int (length repos))) repos)))"

section \<open>A tick\<close>

record pending_fire =
  pf_role :: sched_role
  pf_job :: "string option"
  pf_due :: seconds
  pf_repo :: string
  pf_issue :: "int option"

record slot_decision =
  sd_key :: string
  sd_slot :: seconds
  sd_run :: "string + skip_reason"

datatype queued =
    NotDue
  | DeferredByGrace
  | Skipped slot_decision
  | ToFire pending_fire
  | ReportRaised

definition barb_family :: "string list" where
  "barb_family = [''barb'', ''rd-barb'']"

definition skip_slot ::
    "seconds \<Rightarrow> string \<Rightarrow> seconds \<Rightarrow> skip_reason \<Rightarrow> sched_state \<Rightarrow> queued \<times> sched_state" where
  "skip_slot now key due reason st =
     (Skipped \<lparr>sd_key = key, sd_slot = due, sd_run = Inr reason\<rparr>, record_scheduled_skip now key due reason st)"

definition queue_due_slot ::
    "sched_env \<Rightarrow> sched_role \<Rightarrow> string option \<Rightarrow> string \<Rightarrow> seconds \<Rightarrow> sched_state \<Rightarrow> queued \<times> sched_state" where
  "queue_due_slot env role job cron now st =
     (let key = slot_key_of (role_name role) job
      in case schedule_report env role job cron now st of
        (None, st1) \<Rightarrow> (ReportRaised, st1)
      | (Some rp, st1) \<Rightarrow>
          (case rp_due rp of
             None \<Rightarrow> (NotDue, st1)
           | Some due \<Rightarrow>
               if now < due then (NotDue, st1)
               else if role_name role \<in> set barb_family \<and> sv_grace env then (DeferredByGrace, st1)
               else let st2 = change_entry key (\<lambda>e. e\<lparr>se_cursor := Some now\<rparr>) st1
                    in case slot_blocker env role rp of
                         Some reason \<Rightarrow> skip_slot now key due reason st2
                       | None \<Rightarrow>
                           (case (if job = None \<and> role_name role = ''issue-remediator''
                                  then map_option (\<lambda>(r, i). (r, Some i)) (pick_issue_target env role now)
                                  else Some (scheduled_repo env (sh_repos role) now, None)) of
                              None \<Rightarrow> skip_slot now key due NoEligibleIssue st2
                            | Some (repo, issue) \<Rightarrow>
                                if blocking_hold (role_name role) repo (re_holds (sv_retry env)) \<noteq> None
                                then skip_slot now key due RepoHeld st2
                                else if repo \<noteq> [] \<and> sv_excluded env repo then skip_slot now key due RepoIsExcluded st2
                                else (ToFire \<lparr>pf_role = role, pf_job = job, pf_due = due, pf_repo = repo, pf_issue = issue\<rparr>, st2))))"

definition submit_run :: "sched_env \<Rightarrow> pending_fire \<Rightarrow> string \<Rightarrow> seconds \<Rightarrow> sched_state \<Rightarrow> (string \<times> sched_state) option" where
  "submit_run env p key now st =
     (case sv_plan env (pf_role p) (pf_repo p) (pf_issue p) (pf_job p) of
        None \<Rightarrow> None
      | Some (plan, origin, attempts) \<Rightarrow>
          let rid = sv_run_id env key now
          in Some (rid, st\<lparr>ss_world := submit_new_run plan origin (sv_machine env) attempts rid ''local''
                                        (re_iso (sv_retry env) now) (ss_world st)\<rparr>))"

definition fire_pending_slot :: "sched_env \<Rightarrow> seconds \<Rightarrow> pending_fire \<Rightarrow> sched_state \<Rightarrow> slot_decision \<times> sched_state" where
  "fire_pending_slot env now p st =
     (let name = role_name (pf_role p); key = slot_key_of name (pf_job p);
          refuse = (\<lambda>reason. (\<lparr>sd_key = key, sd_slot = pf_due p, sd_run = Inr reason\<rparr>,
                               record_scheduled_skip now key (pf_due p) reason st))
      in if sv_guard env name (pf_job p) (pf_due p) then refuse GuardedPersona
         else if pf_repo p \<noteq> [] \<and> (case pf_issue p of Some i \<Rightarrow> sv_claim_blocks env (pf_repo p) i name | None \<Rightarrow> False)
         then refuse TargetClaimed
         else case submit_run env p key now st of
                None \<Rightarrow> refuse RunnerRejected
              | Some (rid, st1) \<Rightarrow> (\<lparr>sd_key = key, sd_slot = pf_due p, sd_run = Inl rid\<rparr>,
                                     record_scheduled_fire now key (pf_due p) rid st1))"

text \<open>The slots of a role: its named jobs in the order of their names, else its schedule.\<close>

definition role_slots :: "sched_role \<Rightarrow> (sched_role \<times> string option \<times> string) list" where
  "role_slots role =
     (if \<not> sh_dispatchable role then []
      else if sh_jobs role \<noteq> [] then map (\<lambda>(j, c). (role, Some j, c)) (sort_key fst (sh_jobs role))
      else case sh_schedule role of Some c \<Rightarrow> if c = [] then [] else [(role, None, c)] | None \<Rightarrow> [])"

definition all_due_slots :: "sched_env \<Rightarrow> (sched_role \<times> string option \<times> string) list" where
  "all_due_slots env = concat (map role_slots (sort_key role_name (sv_roles env)))"

fun queue_slots ::
    "sched_env \<Rightarrow> seconds \<Rightarrow> (sched_role \<times> string option \<times> string) list \<Rightarrow> sched_state \<Rightarrow>
     (slot_decision list \<times> pending_fire list) option \<times> sched_state" where
  "queue_slots env now [] st = (Some ([], []), st)"
| "queue_slots env now ((role, job, cron) # ss) st =
     (case queue_due_slot env role job cron now st of
        (ReportRaised, st1) \<Rightarrow> (None, st1)
      | (q, st1) \<Rightarrow>
          (case queue_slots env now ss st1 of
             (None, st2) \<Rightarrow> (None, st2)
           | (Some (ds, ps), st2) \<Rightarrow>
               (Some ((case q of Skipped d \<Rightarrow> d # ds | _ \<Rightarrow> ds), (case q of ToFire p \<Rightarrow> p # ps | _ \<Rightarrow> ps)), st2)))"

fun fire_slots :: "sched_env \<Rightarrow> seconds \<Rightarrow> pending_fire list \<Rightarrow> sched_state \<Rightarrow> slot_decision list \<times> sched_state" where
  "fire_slots env now [] st = ([], st)"
| "fire_slots env now (p # ps) st =
     (case fire_pending_slot env now p st of (d, st1) \<Rightarrow> (case fire_slots env now ps st1 of (ds, st2) \<Rightarrow> (d # ds, st2)))"

text \<open>\<open>lease\<close>: whether this host may fire. \<open>None\<close> is the exception.\<close>

definition tick :: "sched_env \<Rightarrow> bool \<Rightarrow> seconds \<Rightarrow> sched_state \<Rightarrow> slot_decision list option \<times> sched_state" where
  "tick env lease now st =
     (let st1 = reconcile_scheduled_runs env now st
      in if \<not> lease then (Some [], st1)
         else case queue_slots env now (all_due_slots env) st1 of
                (None, st2) \<Rightarrow> (None, st2)
              | (Some (ds, ps), st2) \<Rightarrow>
                  (case fire_slots env now ps st2 of (fs, st3) \<Rightarrow> (Some (ds @ fs), st3)))"

section \<open>Settings\<close>

text \<open>Schedules are switched on and off, and models overridden, in the entry of the role.\<close>

definition set_role_schedule_enabled :: "string \<Rightarrow> bool \<Rightarrow> sched_state \<Rightarrow> sched_state" where
  "set_role_schedule_enabled name enabled st = change_entry name (\<lambda>e. e\<lparr>se_enabled := enabled\<rparr>) st"

definition role_model_override :: "string \<Rightarrow> sched_state \<Rightarrow> string option" where
  "role_model_override name st = str_or (se_model_override (entry_of name st)) None"

definition set_role_model_override :: "string \<Rightarrow> string option \<Rightarrow> sched_state \<Rightarrow> sched_state" where
  "set_role_model_override name model st = change_entry name (\<lambda>e. e\<lparr>se_model_override := str_or model None\<rparr>) st"

text \<open>The entries of roles that leave the host.\<close>

definition purge_schedule_role_state :: "string list \<Rightarrow> sched_state \<Rightarrow> sched_state" where
  "purge_schedule_role_state names st =
     st\<lparr>ss_entries := filter (\<lambda>(k, _). \<not> list_ex (\<lambda>n. k = n \<or> py_startswith k (n @ ''::'')) names) (ss_entries st)\<rparr>"

end
