(* ===== verification/Schedule_Runs.thy ===== *)
theory Schedule_Runs
  imports Staff_Schedule
begin

text \<open>
  Ticks of the scheduler one after the other. Where the clocks of a zone are never set back, no slot of a role is
  decided twice, whatever the clock of the host, the world and the settings do between the ticks. On clocks that
  are set back a slot fires at every tick of the repeated hour; after a change of the leader a slot fires on both
  hosts; and a window that does not parse stops every role.
\<close>

section \<open>Cursors\<close>

definition cursor_of :: "string \<Rightarrow> sched_state \<Rightarrow> seconds option" where
  "cursor_of key st = se_cursor (entry_of key st)"

lemma entry_of_change: "entry_of k (change_entry key f st) = (if k = key then f (entry_of key st) else entry_of k st)"
  by (simp add: entry_of_def change_entry_def update_conv')

lemma cursor_of_change:
  "cursor_of k (change_entry key f st) = (if k = key then se_cursor (f (entry_of key st)) else cursor_of k st)"
  by (simp add: cursor_of_def entry_of_change)

lemma cursor_of_alert [simp]: "cursor_of k (emit_missed_run_alert now key n st) = cursor_of k st"
  by (auto simp: emit_missed_run_alert_def cursor_of_def entry_of_def split: option.split)

lemma cursor_of_miss [simp]: "cursor_of k (note_scheduled_miss now key st) = cursor_of k st"
  by (simp add: note_scheduled_miss_def Let_def cursor_of_change) (simp add: cursor_of_def)

lemma cursor_of_skip [simp]: "cursor_of k (record_scheduled_skip now key slot r st) = cursor_of k st"
  by (simp add: record_scheduled_skip_def cursor_of_change) (simp add: cursor_of_def)

lemma cursor_of_fire [simp]: "cursor_of k (record_scheduled_fire now key slot rid st) = cursor_of k st"
  by (simp add: record_scheduled_fire_def cursor_of_change) (simp add: cursor_of_def)

lemma cursor_of_settle [simp]: "cursor_of k (settle_entry env now key st) = cursor_of k st"
proof -
  have "cursor_of k (change_entry key (\<lambda>e. f e\<lparr>se_pending := None\<rparr>) st) = cursor_of k st"
    if "\<And>e. se_cursor (f e) = se_cursor e" for f using that by (simp add: cursor_of_change) (simp add: cursor_of_def)
  then show ?thesis
    by (auto simp: settle_entry_def Let_def cursor_of_change cursor_of_def [symmetric] split: option.split)
qed

lemma cursor_of_settled [simp]: "cursor_of k (reconcile_scheduled_runs env now st) = cursor_of k st"
proof -
  have "cursor_of k (fold (settle_entry env now) keys st) = cursor_of k st" for keys by (induction keys arbitrary: st) simp_all
  then show ?thesis by (simp add: reconcile_scheduled_runs_def)
qed

lemma cursor_of_world [simp]: "cursor_of k (st\<lparr>ss_world := w\<rparr>) = cursor_of k st"
  by (simp add: cursor_of_def entry_of_def)

section \<open>Clocks that are not set back\<close>

definition steady :: "zone \<Rightarrow> bool" where
  "steady z = (\<exists>offset. zn_at z = (\<lambda>_. offset) \<and> zn_of z = (\<lambda>_. offset))"

lemma fire_scan_lowest: "fire_scan spec lowest day n = Some w \<Longrightarrow> lowest \<le> w"
  by (induction n arbitrary: day) (auto simp: find_Some_iff split: option.splits if_splits)

lemma next_fire_later:
  assumes "steady z" and "next_fire z spec c = Some t"
  shows "c < t"
proof -
  from assms(1) obtain off where z: "zn_at z = (\<lambda>_. off)" "zn_of z = (\<lambda>_. off)" by (auto simp: steady_def)
  from assms(2) obtain w where w: "next_wall spec (c + off) = Some w" "t = of_int w - off"
    by (auto simp: next_fire_def wall_of_def instant_of_def z)
  from w(1) have "next_minute (c + off) \<le> w" unfolding next_wall_def Let_def by (rule fire_scan_lowest)
  moreover have "c + off < of_int (next_minute (c + off))"
    using floor_less_iff [of "(c + off) / 60" "\<lfloor>(c + off) / 60\<rfloor> + 1"] by (simp add: next_minute_def field_simps)
  moreover have "(of_int (next_minute (c + off)) :: rat) \<le> of_int w" using calculation(1) by (simp only: of_int_le_iff)
  ultimately show ?thesis using w(2) by simp
qed

lemma stale_later:
  assumes "steady z" and "is_stale z spec c now"
  shows "c < now"
proof -
  from assms(2) obtain a b where "next_fire z spec c = Some a" "next_fire z spec a = Some b" "b \<le> now"
    by (auto simp: is_stale_def split: option.splits)
  with next_fire_later [OF assms(1), of spec c a] next_fire_later [OF assms(1), of spec a b] show ?thesis by simp
qed

section \<open>What a tick decides\<close>

text \<open>The cursors only move forward.\<close>

definition forward :: "sched_state \<Rightarrow> sched_state \<Rightarrow> bool" where
  "forward st st' = (\<forall>k c. cursor_of k st = Some c \<longrightarrow> (\<exists>c'. cursor_of k st' = Some c' \<and> c \<le> c'))"

lemma forward_same: "(\<And>k. cursor_of k st' = cursor_of k st) \<Longrightarrow> forward st st'"
  by (simp add: forward_def)

lemma forward_trans: "forward st st1 \<Longrightarrow> forward st1 st2 \<Longrightarrow> forward st st2"
  unfolding forward_def by (meson order_trans)

text \<open>Stamps are pairs of a key and a slot: each lies after the cursor before and not after the one that follows.\<close>

definition stamped :: "seconds \<Rightarrow> sched_state \<Rightarrow> (string \<times> seconds) list \<Rightarrow> sched_state \<Rightarrow> bool" where
  "stamped now st ks st' = (forward st st' \<and> distinct (map fst ks) \<and>
     (\<forall>(k, s) \<in> set ks. s \<le> now \<and> (\<forall>c. cursor_of k st = Some c \<longrightarrow> c < s) \<and> (\<exists>c'. cursor_of k st' = Some c' \<and> now \<le> c')))"

abbreviation pending_stamp :: "pending_fire \<Rightarrow> string \<times> seconds" where
  "pending_stamp p \<equiv> (slot_key_of (role_name (pf_role p)) (pf_job p), pf_due p)"

abbreviation decision_stamp :: "slot_decision \<Rightarrow> string \<times> seconds" where
  "decision_stamp d \<equiv> (sd_key d, sd_slot d)"

fun queued_stamps :: "queued \<Rightarrow> (string \<times> seconds) list" where
  "queued_stamps (Skipped d) = [decision_stamp d]"
| "queued_stamps (ToFire p) = [pending_stamp p]"
| "queued_stamps _ = []"

lemma report_cursor:
  assumes "steady (sv_zone env)" and "schedule_report env role job cron now st = (Some rp, st1)"
  shows "forward st st1 \<and>
     (\<forall>due. rp_due rp = Some due \<longrightarrow> due \<le> now \<longrightarrow>
        (\<forall>c. cursor_of (slot_key_of (role_name role) job) st = Some c \<longrightarrow> c < due))"
proof -
  let ?k = "slot_key_of (role_name role) job"
  show ?thesis
  proof (cases "parse_cron cron")
    case (Inl e)
    then show ?thesis using assms(2) by (auto simp: schedule_report_def Let_def forward_def split: option.splits)
  next
    case (Inr spec)
    let ?c = "slot_cursor (sv_zone env) spec now (entry_of ?k st)"
    have rp: "rp_due rp = next_fire (sv_zone env) spec ?c" "st1 = change_entry ?k (\<lambda>e. e\<lparr>se_cursor := Some ?c\<rparr>) st"
      using assms(2) Inr by (auto simp: schedule_report_def Let_def split: option.splits)
    have c: "c \<le> ?c" if "cursor_of ?k st = Some c" for c
      using that stale_later [OF assms(1), of spec c now] by (auto simp: slot_cursor_def cursor_of_def)
    then have "forward st st1" by (auto simp: forward_def rp(2) cursor_of_change)
    moreover have "c < due" if "rp_due rp = Some due" "cursor_of ?k st = Some c" for due c
      using next_fire_later [OF assms(1), of spec ?c due] that rp(1) c by fastforce
    ultimately show ?thesis by blast
  qed
qed

lemma queue_slot_stamped:
  assumes "steady (sv_zone env)" and "queue_due_slot env role job cron now st = (q, st')"
  shows "stamped now st (queued_stamps q) st'"
proof -
  let ?k = "slot_key_of (role_name role) job"
  obtain r st1 where rep: "schedule_report env role job cron now st = (r, st1)" by fastforce
  show ?thesis
  proof (cases r)
    case None
    then have "q = ReportRaised" "st' = st1" "st1 = st"
      using assms(2) rep by (auto simp: queue_due_slot_def schedule_report_def Let_def split: option.splits prod.splits)
    then show ?thesis by (simp add: stamped_def forward_def)
  next
    case (Some rp)
    note report = report_cursor [OF assms(1) rep [unfolded Some]]
    show ?thesis
    proof (cases "queued_stamps q = []")
      case True
      then have "q = NotDue \<or> q = DeferredByGrace \<or> q = ReportRaised" by (cases q) simp_all
      then have "st' = st1" using assms(2) rep Some
        by (auto simp: queue_due_slot_def skip_slot_def Let_def split: option.splits if_splits prod.splits)
      then show ?thesis using report True by (simp add: stamped_def)
    next
      case False
      then obtain due where due: "rp_due rp = Some due" "due \<le> now" and q: "queued_stamps q = [(?k, due)]"
        and st': "\<And>k. cursor_of k st' = (if k = ?k then Some now else cursor_of k st1)"
        using assms(2) rep Some
        by (auto simp: queue_due_slot_def skip_slot_def Let_def cursor_of_change split: option.splits if_splits prod.splits)
      have before: "\<And>c. cursor_of ?k st = Some c \<Longrightarrow> c < due" using report due by blast
      then have "forward st st'" using report due(2) by (force simp: forward_def st')
      then show ?thesis using before due q st' by (auto simp: stamped_def)
    qed
  qed
qed

lemma stamped_append:
  assumes "stamped now st ks st1" and "stamped now st1 ls st2"
  shows "stamped now st (ks @ ls) st2"
proof -
  have f: "forward st st1" "forward st1 st2" using assms by (simp_all add: stamped_def)
  have new: "s \<le> now \<and> (\<forall>c. cursor_of k st1 = Some c \<longrightarrow> c < s) \<and> (\<exists>c'. cursor_of k st2 = Some c' \<and> now \<le> c')"
    if "(k, s) \<in> set ls" for k s using assms(2) that by (auto simp: stamped_def)
  have old: "s \<le> now \<and> (\<forall>c. cursor_of k st = Some c \<longrightarrow> c < s) \<and> (\<exists>c'. cursor_of k st1 = Some c' \<and> now \<le> c')"
    if "(k, s) \<in> set ks" for k s using assms(1) that by (auto simp: stamped_def)
  have "k \<notin> fst ` set ls" if "(k, s) \<in> set ks" for k s
  proof
    assume "k \<in> fst ` set ls"
    then obtain u where "(k, u) \<in> set ls" by force
    with new [OF this] old [OF that] show False by force
  qed
  then have "distinct (map fst (ks @ ls))" using assms by (force simp: stamped_def)
  moreover have "\<forall>(k, s) \<in> set (ks @ ls). s \<le> now \<and> (\<forall>c. cursor_of k st = Some c \<longrightarrow> c < s) \<and>
      (\<exists>c'. cursor_of k st2 = Some c' \<and> now \<le> c')"
  proof clarify
    fix k s assume "(k, s) \<in> set (ks @ ls)"
    then consider "(k, s) \<in> set ks" | "(k, s) \<in> set ls" by auto
    then show "s \<le> now \<and> (\<forall>c. cursor_of k st = Some c \<longrightarrow> c < s) \<and> (\<exists>c'. cursor_of k st2 = Some c' \<and> now \<le> c')"
    proof cases
      case 1
      from old [OF 1] f(2) show ?thesis unfolding forward_def by (meson order_trans)
    next
      case 2
      from new [OF 2] f(1) show ?thesis unfolding forward_def by (meson order_le_less_trans)
    qed
  qed
  ultimately show ?thesis using forward_trans [OF f] unfolding stamped_def by blast
qed

lemma stamped_perm:
  assumes "stamped now st ks st'" and "set ks = set ls" and "distinct (map fst ks) = distinct (map fst ls)"
  shows "stamped now st ls st'"
  using assms by (simp add: stamped_def)

lemma queue_slots_stamped:
  assumes "steady (sv_zone env)"
  shows "queue_slots env now ss st = (r, st') \<Longrightarrow>
     stamped now st (case r of None \<Rightarrow> [] | Some (ds, ps) \<Rightarrow> map decision_stamp ds @ map pending_stamp ps) st'"
proof (induction ss arbitrary: st r st')
  case Nil
  then show ?case by (auto simp: stamped_def forward_def)
next
  case (Cons s ss)
  obtain role job cron where s: "s = (role, job, cron)" by (cases s)
  obtain q st1 where q: "queue_due_slot env role job cron now st = (q, st1)" by fastforce
  note first = queue_slot_stamped [OF assms q]
  obtain r2 st2 where rest: "queue_slots env now ss st1 = (r2, st2)" by fastforce
  note later = Cons.IH [OF rest]
  show ?case
  proof (cases "q = ReportRaised")
    case True
    with Cons.prems first show ?thesis by (auto simp: s q)
  next
    case False
    with Cons.prems have res: "st' = st2"
      "r = map_option (\<lambda>(ds, ps). ((case q of Skipped d \<Rightarrow> d # ds | _ \<Rightarrow> ds), (case q of ToFire p \<Rightarrow> p # ps | _ \<Rightarrow> ps))) r2"
      by (cases q; cases r2; auto simp: s q rest)+
    show ?thesis
    proof (cases r2)
      case None
      have "forward st st'" using first later forward_trans res(1) by (auto simp: stamped_def)
      then show ?thesis using None res(2) by (simp add: stamped_def)
    next
      case (Some dp)
      obtain ds ps where dp: "dp = (ds, ps)" by fastforce
      let ?all = "queued_stamps q @ map decision_stamp ds @ map pending_stamp ps"
      have "stamped now st ?all st'" using stamped_append [OF first] later by (simp add: Some dp res(1))
      then show ?thesis using False by (cases q) (auto simp: res(2) Some dp elim!: stamped_perm)
    qed
  qed
qed

lemma fired_stamps:
  "fire_slots env now ps st = (ds, st') \<Longrightarrow>
     map decision_stamp ds = map pending_stamp ps \<and> (\<forall>k. cursor_of k st' = cursor_of k st)"
proof (induction ps arbitrary: st ds st')
  case (Cons p ps)
  obtain d st1 where d: "fire_pending_slot env now p st = (d, st1)" by fastforce
  then have "decision_stamp d = pending_stamp p \<and> (\<forall>k. cursor_of k st1 = cursor_of k st)"
    by (auto simp: fire_pending_slot_def submit_run_def Let_def split: if_splits option.splits prod.splits)
  moreover obtain ds2 st2 where "fire_slots env now ps st1 = (ds2, st2)" by fastforce
  ultimately show ?case using Cons d by auto
qed simp

lemma tick_stamped:
  assumes "steady (sv_zone env)" and "tick env lease now st = (r, st')"
  shows "stamped now st (case r of None \<Rightarrow> [] | Some ds \<Rightarrow> map decision_stamp ds) st'"
proof -
  let ?st1 = "reconcile_scheduled_runs env now st"
  have same: "stamped now ?st1 ks st' \<longleftrightarrow> stamped now st ks st'" for ks by (simp add: stamped_def forward_def)
  show ?thesis
  proof (cases lease)
    case False
    with assms(2) show ?thesis by (auto simp: tick_def Let_def stamped_def forward_def)
  next
    case True
    obtain q st2 where q: "queue_slots env now (all_due_slots env) ?st1 = (q, st2)" by fastforce
    note qs = queue_slots_stamped [OF assms(1) q]
    show ?thesis
    proof (cases q)
      case None
      with assms(2) True q have "r = None" "st' = st2" by (auto simp: tick_def Let_def)
      then show ?thesis using qs None same by simp
    next
      case (Some dp)
      obtain ds ps where dp: "dp = (ds, ps)" by fastforce
      obtain fs st3 where f: "fire_slots env now ps st2 = (fs, st3)" by fastforce
      have r: "r = Some (ds @ fs)" "st' = st3" using assms(2) True q Some dp f by (auto simp: tick_def Let_def)
      from fired_stamps [OF f] have "map decision_stamp fs = map pending_stamp ps" "forward st2 st3"
        "\<And>k. cursor_of k st3 = cursor_of k st2" by (simp_all add: forward_def)
      then have "stamped now ?st1 (map decision_stamp (ds @ fs)) st3" using qs by (simp add: Some dp stamped_def forward_def)
      then show ?thesis using same r by simp
    qed
  qed
qed

section \<open>Ticks one after the other\<close>

text \<open>Between two ticks the world and the settings may change in any way.\<close>

fun tick_run ::
    "(sched_env \<times> bool \<times> seconds \<times> staff_world) list \<Rightarrow> sched_state \<Rightarrow> slot_decision list \<times> sched_state" where
  "tick_run [] st = ([], st)"
| "tick_run ((env, lease, now, w) # ts) st =
     (case tick env lease now (st\<lparr>ss_world := w\<rparr>) of
        (r, st1) \<Rightarrow> (case tick_run ts st1 of (ds, st2) \<Rightarrow> ((case r of None \<Rightarrow> [] | Some d \<Rightarrow> d) @ ds, st2)))"

definition slots_of :: "string \<Rightarrow> slot_decision list \<Rightarrow> seconds list" where
  "slots_of key ds = map sd_slot (filter (\<lambda>d. sd_key d = key) ds)"

lemma slots_of_append [simp]: "slots_of key (ds @ es) = slots_of key ds @ slots_of key es"
  by (simp add: slots_of_def)

lemma slots_of_distinct: "distinct (map sd_key ds) \<Longrightarrow> length (slots_of key ds) \<le> 1"
  by (induction ds) (auto simp: slots_of_def filter_empty_conv image_iff)

lemma tick_run_increasing:
  assumes "\<forall>(env, lease, now, w) \<in> set ts. steady (sv_zone env)"
  shows "tick_run ts st = (ds, st') \<Longrightarrow>
     sorted_wrt (<) (slots_of key ds) \<and> (\<forall>c. cursor_of key st = Some c \<longrightarrow> (\<forall>s \<in> set (slots_of key ds). c < s))"
  using assms
proof (induction ts arbitrary: st ds st')
  case (Cons t ts)
  obtain env lease now w where t: "t = (env, lease, now, w)" by (cases t)
  obtain r st1 where r: "tick env lease now (st\<lparr>ss_world := w\<rparr>) = (r, st1)" by fastforce
  obtain es st2 where es: "tick_run ts st1 = (es, st2)" by fastforce
  let ?d = "case r of None \<Rightarrow> [] | Some d \<Rightarrow> d"
  have ds: "ds = ?d @ es" using Cons.prems(1) by (simp add: t r es)
  have "steady (sv_zone env)" using Cons.prems(2) by (simp add: t)
  from tick_stamped [OF this r] have st: "stamped now (st\<lparr>ss_world := w\<rparr>) (map decision_stamp ?d) st1"
    by (cases r) simp_all
  have IH: "sorted_wrt (<) (slots_of key es)" "\<And>c s. cursor_of key st1 = Some c \<Longrightarrow> s \<in> set (slots_of key es) \<Longrightarrow> c < s"
    using Cons.IH [OF es] Cons.prems(2) by simp_all
  have new: "s \<le> now \<and> (\<forall>c. cursor_of key st = Some c \<longrightarrow> c < s) \<and> (\<exists>c'. cursor_of key st1 = Some c' \<and> now \<le> c')"
    if "s \<in> set (slots_of key ?d)" for s
    using st that by (auto simp: stamped_def slots_of_def)
  have one: "length (slots_of key ?d) \<le> 1"
    using st by (intro slots_of_distinct) (simp add: stamped_def comp_def)
  then have "sorted_wrt (<) (slots_of key ?d)" by (cases "slots_of key ?d") simp_all
  moreover have "s < u" if "s \<in> set (slots_of key ?d)" "u \<in> set (slots_of key es)" for s u
    using new [OF that(1)] IH(2) [OF _ that(2)] by fastforce
  moreover have "c < u" if c: "cursor_of key st = Some c" "u \<in> set (slots_of key es)" for c u
  proof -
    have "forward (st\<lparr>ss_world := w\<rparr>) st1" using st by (simp add: stamped_def)
    then obtain c' where "cursor_of key st1 = Some c'" "c \<le> c'" using c(1) by (auto simp: forward_def)
    with IH(2) [OF _ c(2)] show ?thesis by fastforce
  qed
  ultimately show ?case using IH(1) new by (auto simp: ds sorted_wrt_append)
qed (simp add: slots_of_def)

text \<open>C24: On clocks that are never set back the slots a host decides, by firing or by skipping them, increase for each
  role and job: no slot is decided twice, whatever happens to the runs, the settings, the lease and the host's clock
  between the ticks.\<close>

theorem slots_decided_once:
  assumes "\<forall>(env, lease, now, w) \<in> set ts. steady (sv_zone env)"
  shows "sorted_wrt (<) (slots_of key (fst (tick_run ts st))) \<and> distinct (slots_of key (fst (tick_run ts st)))"
proof -
  have "sorted_wrt (<) (slots_of key (fst (tick_run ts st)))"
    using tick_run_increasing [OF assms, of st _ _ key] by (metis prod.collapse)
  then show ?thesis using strict_sorted_iff by blast
qed

section \<open>A sample host\<close>

definition utc_zone :: zone where
  "utc_zone = \<lparr>zn_at = (\<lambda>_. 0), zn_of = (\<lambda>_. 0)\<rparr>"

definition sample_sched_role :: "(string, string) dict \<Rightarrow> string \<Rightarrow> (string \<times> string) option \<Rightarrow> sched_role" where
  "sample_sched_role jobs cron window =
     \<lparr>sh_spec = sample_role, sh_schedule = Some cron, sh_window = window, sh_repos = [''app''], sh_dispatchable = True, sh_jobs = jobs\<rparr>"

definition sample_sched_env :: "zone \<Rightarrow> sched_role list \<Rightarrow> sched_env" where
  "sample_sched_env z roles =
     \<lparr>sv_retry = sample_retry_env sample_role, sv_zone = z, sv_roles = roles, sv_home = (\<lambda>_. None), sv_allowed = (\<lambda>_. True),
      sv_grace = False, sv_issues = (\<lambda>_. None), sv_claim_held = (\<lambda>_ _. Some False), sv_claim_blocks = (\<lambda>_ _ _. False),
      sv_excluded = (\<lambda>_. False), sv_guard = (\<lambda>_ _ _. False), sv_plan = (\<lambda>_ _ _ _. Some (sample_launch, sample_origin, 2)),
      sv_run_id = (\<lambda>key now. ''run-'' @ key), sv_verification_failed = (\<lambda>_. False)\<rparr>"

definition fresh_host :: sched_state where
  "fresh_host = \<lparr>ss_entries = [], ss_alerts = [], ss_alert_at = [], ss_world = empty_world\<rparr>"

text \<open>Ticks of a host at the given readings of seconds, with no run in the way.\<close>

definition ticks_at :: "sched_env \<Rightarrow> seconds list \<Rightarrow> (sched_env \<times> bool \<times> seconds \<times> staff_world) list" where
  "ticks_at env ts = map (\<lambda>t. (env, True, t, empty_world)) ts"

abbreviation july_15 :: seconds where
  "july_15 \<equiv> 86400 * 739812"

definition daily_ticks :: "(sched_env \<times> bool \<times> seconds \<times> staff_world) list" where
  "daily_ticks = ticks_at (sample_sched_env utc_zone [sample_sched_role [] ''0 9 * * *'' None])
     [july_15 + 28800, july_15 + 32430, july_15 + 32460, july_15 + 118830, july_15 + 90]"

lemma daily_slots: "slots_of ''dev'' (fst (tick_run daily_ticks fresh_host)) = [july_15 + 32400, july_15 + 118800]"
  by code_simp

lemma slots_decided_once_witness:
  "slots_of ''dev'' (fst (tick_run daily_ticks fresh_host)) = [july_15 + 32400, july_15 + 118800] \<and>
   sorted_wrt (<) (slots_of ''dev'' (fst (tick_run daily_ticks fresh_host))) \<and>
   distinct (slots_of ''dev'' (fst (tick_run daily_ticks fresh_host)))"
proof -
  have "\<forall>(env, lease, now, w) \<in> set daily_ticks. steady (sv_zone env)"
    by (auto simp: daily_ticks_def ticks_at_def sample_sched_env_def utc_zone_def steady_def)
  from slots_decided_once [OF this, of "''dev''" fresh_host] daily_slots show ?thesis by simp
qed

section \<open>Where slots are fired again\<close>

text \<open>
  The night of 1 November 2026 in Los Angeles, where the clocks go back from 2:00 to 1:00. The host was down at 1:50;
  each of its ticks in the repeated hour fires the slot of 1:50 again, since the next fire after the tick is taken
  from the first pass.
\<close>

definition november_zone :: zone where
  "november_zone = \<lparr>zn_at = (\<lambda>t. if t < 86400 * 739921 + 32400 then - 25200 else - 28800),
     zn_of = (\<lambda>w. if w < 86400 * 739921 + 7200 then - 25200 else - 28800)\<rparr>"

lemma repeated_hour_refires:
  "slots_of ''dev'' (fst (tick_run (ticks_at (sample_sched_env november_zone [sample_sched_role [] ''50 1 * * *'' None])
      [86400 * 739921 + 27000, 86400 * 739921 + 33000, 86400 * 739921 + 33030]) fresh_host))
   = replicate 2 (86400 * 739921 + 31800)"
  by code_simp

text \<open>
  Two hosts with files of their own. The laptop has led the day before, the desk fires the slot of 9:00 and goes
  away, the laptop takes over and fires the same slot.
\<close>

definition fleet_env :: sched_env where
  "fleet_env = sample_sched_env utc_zone [sample_sched_role [] ''0 9 * * *'' None]"

definition lease_requests :: "lease_request list" where
  "lease_requests = [(''laptop'', july_15 - 43200, 90), (''desk'', july_15 + 30000, 90), (''desk'', july_15 + 32430, 90),
     (''laptop'', july_15 + 32700, 90)]"

lemma leases_granted: "grants (\<lambda>_. False) [''desk'', ''laptop''] lease_requests no_leader = lease_requests"
  by (simp add: lease_requests_def grants_Cons acquire_leader_lease_def lease_decision_def lease_active_def grant_lease_def
      no_leader_def chain_rank_def Let_def)

lemma takeover_refires:
  "slots_of ''dev'' (fst (tick_run (ticks_at fleet_env [july_15 + 30000, july_15 + 32430]) fresh_host)) = [july_15 + 32400] \<and>
   slots_of ''dev'' (fst (tick_run (ticks_at fleet_env [july_15 - 43200, july_15 + 32700]) fresh_host)) = [july_15 + 32400]"
  by code_simp

text \<open>Two jobs of a role that are due in one tick both fire, though a role with an active run is skipped.\<close>

lemma jobs_fire_together:
  "let env = sample_sched_env utc_zone [sample_sched_role [(''b'', ''0 9 * * *''), (''a'', ''0 9 * * 1-5'')] [] None];
       (ds, st) = tick_run (ticks_at env [july_15 + 28800, july_15 + 32430]) fresh_host
   in map sd_run ds = [Inl ''run-dev::a'', Inl ''run-dev::b''] \<and>
      length (active_runs (ss_world st)) = 2"
  by code_simp

section \<open>A window that does not parse\<close>

definition broken_window :: "sched_role \<Rightarrow> bool" where
  "broken_window role =
     (case sh_window role of None \<Rightarrow> False
      | Some (a, b) \<Rightarrow> a \<noteq> [] \<and> b \<noteq> [] \<and> (parse_hhmm a = None \<or> parse_hhmm b = None))"

lemma broken_window_raises: "broken_window role \<Longrightarrow> in_window z (sh_window role) now = None"
  by (auto simp: broken_window_def in_window_def split: option.splits prod.splits)

lemma world_of_miss [simp]: "ss_world (note_scheduled_miss now key st) = ss_world st"
  by (auto simp: note_scheduled_miss_def emit_missed_run_alert_def change_entry_def Let_def split: option.split)

lemma world_of_queue: "queue_due_slot env role job cron now st = (q, st') \<Longrightarrow> ss_world st' = ss_world st"
  by (auto simp: queue_due_slot_def schedule_report_def skip_slot_def record_scheduled_skip_def change_entry_def Let_def
      split: option.splits if_splits prod.splits sum.splits)

lemma world_of_settled: "ss_world (reconcile_scheduled_runs env now st) = ss_world st"
proof -
  have "ss_world (settle_entry env now key st) = ss_world st" for key st
    by (auto simp: settle_entry_def change_entry_def Let_def split: option.split)
  then have "ss_world (fold (settle_entry env now) keys st) = ss_world st" for keys by (induction keys arbitrary: st) simp_all
  then show ?thesis by (simp add: reconcile_scheduled_runs_def)
qed

lemma broken_queue:
  assumes "broken_window role" and "(role, job, cron) \<in> set ss"
  shows "\<exists>st'. queue_slots env now ss st = (None, st') \<and> ss_world st' = ss_world st"
  using assms(2)
proof (induction ss arbitrary: st)
  case (Cons s ss)
  obtain r j c where s: "s = (r, j, c)" by (cases s)
  obtain q st1 where q: "queue_due_slot env r j c now st = (q, st1)" by fastforce
  note world = world_of_queue [OF q]
  show ?case
  proof (cases "q = ReportRaised")
    case True
    then show ?thesis using world by (simp add: s q)
  next
    case False
    have "\<not> broken_window r" using q False
      by (auto simp: queue_due_slot_def schedule_report_def Let_def broken_window_raises)
    with Cons.prems assms(1) have "(role, job, cron) \<in> set ss" by (auto simp: s)
    from Cons.IH [OF this, of st1] obtain st2 where "queue_slots env now ss st1 = (None, st2)" "ss_world st2 = ss_world st1" by blast
    then show ?thesis using False world by (cases q) (simp_all add: s q)
  qed
qed simp

text \<open>One role in the schedule with a window that does not parse stops the scheduler of a host: every tick that holds
  the lease raises, and neither that role nor any other one is fired.\<close>

theorem broken_window_stops_all:
  assumes "(role, job, cron) \<in> set (all_due_slots env)" and "broken_window role"
  shows "fst (tick env True now st) = None \<and> ss_world (snd (tick env True now st)) = ss_world st"
  using broken_queue [OF assms(2,1), of env now "reconcile_scheduled_runs env now st"] world_of_settled [of env now st]
  by (auto simp: tick_def Let_def)

text \<open>YAML reads an unquoted 22:00 as a number, which the role then holds as the text 1320.\<close>

definition broken_env :: sched_env where
  "broken_env = sample_sched_env utc_zone [sample_sched_role [] ''0 9 * * *'' (Some (''1320'', ''360''))]"

lemma broken_window_stops_all_witness:
  "fst (tick broken_env True july_15 fresh_host) = None \<and>
   ss_world (snd (tick broken_env True july_15 fresh_host)) = ss_world fresh_host"
proof (rule broken_window_stops_all)
  let ?role = "sample_sched_role [] ''0 9 * * *'' (Some (''1320'', ''360''))"
  show "(?role, None, ''0 9 * * *'') \<in> set (all_due_slots broken_env)"
    by (simp add: broken_env_def sample_sched_env_def all_due_slots_def role_slots_def sample_sched_role_def)
  show "broken_window ?role" by code_simp
qed

section \<open>A role that is switched off\<close>

lemma key_of_job: "slot_key_of name (Some j) \<noteq> name"
  by (simp add: slot_key_of_def)

lemma queue_of_parts:
  assumes "entry_of (slot_key_of (role_name role) job) st = entry_of (slot_key_of (role_name role) job) st'"
    and "ss_world st = ss_world st'"
  shows "fst (queue_due_slot env role job cron now st) = fst (queue_due_slot env role job cron now st')"
proof -
  have "fst (schedule_report env role job cron now st) = fst (schedule_report env role job cron now st')"
    using assms by (simp add: schedule_report_def Let_def split: option.split sum.split)
  then show ?thesis
    by (cases "schedule_report env role job cron now st"; cases "schedule_report env role job cron now st'")
      (auto simp: queue_due_slot_def skip_slot_def Let_def split: option.split)
qed

text \<open>Switching the schedule of a role off does not concern its named jobs: what is queued for a job is the same as
  with the schedule on, since a job looks at the switch of its own entry, which nothing sets.\<close>

theorem disabled_jobs_still_queued:
  "fst (queue_due_slot env role (Some job) cron now (set_role_schedule_enabled (role_name role) False st)) =
   fst (queue_due_slot env role (Some job) cron now st)"
  by (rule queue_of_parts) (simp_all add: set_role_schedule_enabled_def entry_of_change key_of_job, simp add: change_entry_def)

text \<open>The schedule of the role itself stops.\<close>

lemma disabled_role_not_queued:
  assumes "queue_due_slot env role None cron now (set_role_schedule_enabled (role_name role) False st) = (ToFire p, st')"
  shows False
proof -
  let ?st = "set_role_schedule_enabled (role_name role) False st"
  have off: "\<not> se_enabled (entry_of (role_name role) ?st)" by (simp add: set_role_schedule_enabled_def entry_of_change)
  obtain r st1 where rep: "schedule_report env role None cron now ?st = (r, st1)" by fastforce
  have "\<not> rp_enabled rp" if "r = Some rp" for rp
    using rep that off by (auto simp: schedule_report_def slot_key_of_def Let_def split: option.splits prod.splits sum.splits)
  then show False using assms rep
    by (auto simp: queue_due_slot_def slot_blocker_def skip_slot_def Let_def split: option.splits if_splits)
qed

lemma disabled_job_fires:
  "let env = sample_sched_env utc_zone [sample_sched_role [(''a'', ''0 9 * * *'')] [] None];
       st = snd (tick_run (ticks_at env [july_15 + 28800]) fresh_host)
   in map sd_run (fst (tick_run (ticks_at env [july_15 + 32430]) (set_role_schedule_enabled ''dev'' False st))) = [Inl ''run-dev::a'']"
  by code_simp

end
