(* ===== verification/Work_Items.thy ===== *)
theory Work_Items
  imports Proposals
begin

text \<open>
  Work items: \<open>backend/staff/work_items.py\<close>, the PATCH handler of \<open>backend/routers/staff_work_items.py\<close>, and
  what a change of a run does to the item it is linked to (\<open>update_linked_work_item\<close> of
  \<open>backend/staff/run_link.py\<close> with \<open>completion.py\<close>). The rows lie in one database; the audit rows lie in the one
  of \<open>proposal_store\<close>, whose writes may fail on their own. The clock text of a call and a fresh identifier are
  arguments. Opening the database and its migration are left out.
\<close>

section \<open>Rows\<close>

datatype item_state =
    WiOpen
  | WiInProgress
  | WiWaitingOnUser
  | WiWaitingOnCi
  | WiNeedsEvidence
  | WiBlocked
  | WiDone
  | WiCancelled
  | WiEscalated

fun item_state_text :: "item_state \<Rightarrow> string" where
  "item_state_text WiOpen = ''open''"
| "item_state_text WiInProgress = ''in_progress''"
| "item_state_text WiWaitingOnUser = ''waiting_on_user''"
| "item_state_text WiWaitingOnCi = ''waiting_on_ci''"
| "item_state_text WiNeedsEvidence = ''needs_evidence''"
| "item_state_text WiBlocked = ''blocked''"
| "item_state_text WiDone = ''done''"
| "item_state_text WiCancelled = ''cancelled''"
| "item_state_text WiEscalated = ''escalated''"

definition work_item_states :: "item_state list" where
  "work_item_states = [WiOpen, WiInProgress, WiWaitingOnUser, WiWaitingOnCi, WiNeedsEvidence, WiBlocked, WiDone,
     WiCancelled, WiEscalated]"

definition item_state_of :: "string \<Rightarrow> item_state option" where
  "item_state_of t = List.find (\<lambda>s. item_state_text s = t) work_item_states"

definition terminal_states :: "item_state list" where
  "terminal_states = [WiDone, WiCancelled, WiEscalated]"

fun item_transitions :: "item_state \<Rightarrow> item_state list" where
  "item_transitions WiOpen = [WiInProgress, WiBlocked, WiCancelled, WiEscalated]"
| "item_transitions WiInProgress =
     [WiWaitingOnUser, WiWaitingOnCi, WiNeedsEvidence, WiBlocked, WiDone, WiCancelled, WiEscalated]"
| "item_transitions WiWaitingOnUser = [WiInProgress, WiBlocked, WiCancelled, WiEscalated]"
| "item_transitions WiWaitingOnCi = [WiInProgress, WiDone, WiBlocked, WiCancelled, WiEscalated]"
| "item_transitions WiNeedsEvidence = [WiInProgress, WiWaitingOnCi, WiDone, WiBlocked, WiCancelled, WiEscalated]"
| "item_transitions WiBlocked = [WiInProgress, WiCancelled, WiEscalated]"
| "item_transitions WiDone = []"
| "item_transitions WiCancelled = []"
| "item_transitions WiEscalated = [WiInProgress, WiDone, WiCancelled]"

record work_item =
  wi_id :: string
  wi_title :: string
  wi_requested_by :: string
  wi_thread :: string
  wi_owner :: string
  wi_description :: string
  wi_state :: item_state
  wi_expected :: "string option"
  wi_links :: "(string, string list) dict"
  wi_progress_at :: string
  wi_next_check :: "string option"
  wi_created_at :: string
  wi_updated_at :: string

record work_store =
  wk_rows :: "work_item list"
  wk_staff :: proposal_store

datatype item_error =
    ItemDuplicate
  | ItemMissing
  | InvalidTarget string
  | InvalidItemTransition item_state item_state
  | ItemAuditFailed

section \<open>Operations\<close>

text \<open>An audit row that follows a committed change; the result says whether \<open>AuditError\<close> is raised.\<close>

definition item_audit :: "string \<Rightarrow> string \<Rightarrow> string \<Rightarrow> string \<Rightarrow> (string, json) dict \<Rightarrow> staff_audit" where
  "item_audit action target who thread detail =
     \<lparr>au_action = action, au_target = target, au_principal = who, au_surface = ''api'', au_thread = thread,
      au_outcome = ''success'', au_detail = detail\<rparr>"

definition staff_write :: "staff_audit \<Rightarrow> work_store \<Rightarrow> bool \<times> work_store" where
  "staff_write a s = (case record_audit None a (wk_staff s) of (raised, p) \<Rightarrow> (raised, s\<lparr>wk_staff := p\<rparr>))"

definition get_work_item :: "string \<Rightarrow> work_store \<Rightarrow> work_item option" where
  "get_work_item wid s = row_lookup wi_id wid (wk_rows s)"

definition change_item :: "string \<Rightarrow> (work_item \<Rightarrow> work_item) \<Rightarrow> work_store \<Rightarrow> work_store" where
  "change_item wid f s = s\<lparr>wk_rows := row_update wi_id wid f (wk_rows s)\<rparr>"

text \<open>The row that is read back after a change that is committed.\<close>

definition read_back :: "string \<Rightarrow> work_store \<Rightarrow> (item_error + work_item) \<times> work_store" where
  "read_back wid s = ((case get_work_item wid s of None \<Rightarrow> Inl ItemMissing | Some r \<Rightarrow> Inr r), s)"

definition default_links :: "(string, string list) dict" where
  "default_links = [(''runs'', []), (''issues'', []), (''prs'', []), (''code_requests'', [])]"

record item_args =
  ia_title :: string
  ia_requested_by :: string
  ia_thread :: string
  ia_owner :: string
  ia_description :: string
  ia_expected :: "string option"
  ia_links :: "(string, string list) dict"
  ia_id :: "string option"
  ia_next_check :: "string option"

definition create_work_item ::
    "string \<Rightarrow> string \<Rightarrow> item_args \<Rightarrow> work_store \<Rightarrow> (item_error + work_item) \<times> work_store" where
  "create_work_item fresh now a s =
     (let wid = (case str_or (ia_id a) None of Some i \<Rightarrow> i | None \<Rightarrow> fresh);
          r = \<lparr>wi_id = wid, wi_title = ia_title a, wi_requested_by = ia_requested_by a, wi_thread = ia_thread a,
               wi_owner = ia_owner a, wi_description = ia_description a, wi_state = WiOpen,
               wi_expected = ia_expected a, wi_links = (if ia_links a \<noteq> [] then ia_links a else default_links),
               wi_progress_at = now, wi_next_check = ia_next_check a, wi_created_at = now, wi_updated_at = now\<rparr>
      in if get_work_item wid s \<noteq> None then (Inl ItemDuplicate, s)
         else case staff_write (item_audit ''work_item_create'' wid (ia_requested_by a) (ia_thread a)
                     [(''title'', JStr (ia_title a)), (''owner_role'', JStr (ia_owner a))])
                     (s\<lparr>wk_rows := wk_rows s @ [r]\<rparr>) of
           (raised, s1) \<Rightarrow> (if raised then Inl ItemAuditFailed else Inr r, s1))"

text \<open>\<open>ORDER BY created_at DESC LIMIT ?\<close>, then the test for overdue items on the rows that are left.\<close>

record item_query =
  iq_thread :: "string option"
  iq_owner :: "string option"
  iq_requested_by :: "string option"
  iq_state :: "string option"
  iq_overdue :: "bool option"
  iq_limit :: int

definition past_due :: "string \<Rightarrow> work_item \<Rightarrow> bool" where
  "past_due now r = (case str_or (wi_expected r) None of None \<Rightarrow> False | Some d \<Rightarrow> d < now)"

definition query_matches :: "item_query \<Rightarrow> work_item \<Rightarrow> bool" where
  "query_matches q r =
     ((case iq_thread q of None \<Rightarrow> True | Some v \<Rightarrow> wi_thread r = v) \<and>
      (case iq_owner q of None \<Rightarrow> True | Some v \<Rightarrow> wi_owner r = v) \<and>
      (case iq_requested_by q of None \<Rightarrow> True | Some v \<Rightarrow> wi_requested_by r = v) \<and>
      (case iq_state q of None \<Rightarrow> True | Some v \<Rightarrow> item_state_text (wi_state r) = v))"

definition list_work_items :: "string \<Rightarrow> item_query \<Rightarrow> work_store \<Rightarrow> work_item list" where
  "list_work_items now q s =
     (let ordered = rev (sort_key wi_created_at (rev (filter (query_matches q) (wk_rows s))));
          rows = (if iq_limit q < 0 then ordered else take (nat (iq_limit q)) ordered)
      in case iq_overdue q of
           None \<Rightarrow> rows
         | Some True \<Rightarrow> filter (\<lambda>r. wi_state r \<notin> set terminal_states \<and> past_due now r) rows
         | Some False \<Rightarrow> filter (\<lambda>r. \<not> past_due now r) rows)"

text \<open>The pages of the items that are not terminal, by deadline, creation and identifier.\<close>

definition active_key :: "work_item \<Rightarrow> string \<times> string \<times> string" where
  "active_key r = (case wi_expected r of None \<Rightarrow> ''~'' | Some d \<Rightarrow> d, wi_created_at r, wi_id r)"

definition active_cursor :: "work_item \<Rightarrow> string \<times> string \<times> string" where
  "active_cursor r = (case str_or (wi_expected r) None of None \<Rightarrow> ''~'' | Some d \<Rightarrow> d, wi_created_at r, wi_id r)"

definition active_after :: "(string \<times> string \<times> string) option \<Rightarrow> work_item \<Rightarrow> bool" where
  "active_after after r =
     (wi_state r \<notin> set terminal_states \<and> (case after of None \<Rightarrow> True | Some c \<Rightarrow> c < active_key r))"

definition list_active_page :: "int \<Rightarrow> (string \<times> string \<times> string) option \<Rightarrow> work_item list \<Rightarrow> work_item list" where
  "list_active_page limit after rows =
     (let ordered = sort_key active_key (filter (active_after after) rows)
      in if limit < 0 then ordered else take (nat limit) ordered)"

definition transition_state ::
    "string \<Rightarrow> string \<Rightarrow> string \<Rightarrow> string \<Rightarrow> string \<Rightarrow> work_store \<Rightarrow> (item_error + work_item) \<times> work_store" where
  "transition_state now wid target actor reason s =
     (case item_state_of target of
        None \<Rightarrow> (Inl (InvalidTarget target), s)
      | Some t \<Rightarrow>
          (case get_work_item wid s of
             None \<Rightarrow> (Inl ItemMissing, s)
           | Some r \<Rightarrow>
               if t \<notin> set (item_transitions (wi_state r)) then (Inl (InvalidItemTransition (wi_state r) t), s)
               else case staff_write (item_audit ''work_item_transition'' wid
                           (if actor \<noteq> [] then actor else wi_requested_by r) (wi_thread r)
                           [(''previous_state'', JStr (item_state_text (wi_state r))), (''target_state'', JStr target),
                            (''reason'', JStr reason)])
                           (change_item wid (\<lambda>r. r\<lparr>wi_state := t, wi_progress_at := now, wi_updated_at := now\<rparr>) s) of
                 (raised, s1) \<Rightarrow> if raised then (Inl ItemAuditFailed, s1) else read_back wid s1))"

definition links_of :: "string \<Rightarrow> work_item \<Rightarrow> string list" where
  "links_of kind r = (case map_of (wi_links r) kind of None \<Rightarrow> [] | Some vs \<Rightarrow> vs)"

definition add_link ::
    "string \<Rightarrow> string \<Rightarrow> string \<Rightarrow> string \<Rightarrow> work_store \<Rightarrow> (item_error + work_item) \<times> work_store" where
  "add_link now wid kind v s =
     (case get_work_item wid s of
        None \<Rightarrow> (Inl ItemMissing, s)
      | Some r \<Rightarrow>
          let vs = (if v \<in> set (links_of kind r) then links_of kind r else links_of kind r @ [v])
          in read_back wid (change_item wid (\<lambda>q. q\<lparr>wi_links := AList.update kind vs (wi_links r),
               wi_progress_at := now, wi_updated_at := now\<rparr>) s))"

record item_update =
  iu_title :: "string option"
  iu_owner :: "string option"
  iu_expected :: "string option"
  iu_next_check :: "string option"

definition update_work_item ::
    "string \<Rightarrow> string \<Rightarrow> item_update \<Rightarrow> work_store \<Rightarrow> (item_error + work_item) \<times> work_store" where
  "update_work_item now wid u s =
     (case get_work_item wid s of
        None \<Rightarrow> (Inl ItemMissing, s)
      | Some _ \<Rightarrow> read_back wid (change_item wid (\<lambda>r. r
          \<lparr>wi_title := (case iu_title u of None \<Rightarrow> wi_title r | Some v \<Rightarrow> v),
           wi_owner := (case iu_owner u of None \<Rightarrow> wi_owner r | Some v \<Rightarrow> v),
           wi_expected := (case iu_expected u of None \<Rightarrow> wi_expected r | Some v \<Rightarrow> Some v),
           wi_next_check := (case iu_next_check u of None \<Rightarrow> wi_next_check r | Some v \<Rightarrow> Some v),
           wi_updated_at := now\<rparr>) s))"

text \<open>The PATCH handler: the state first, then the fields.\<close>

definition patch_work_item ::
    "string \<Rightarrow> string \<Rightarrow> string \<Rightarrow> string option \<Rightarrow> string \<Rightarrow> item_update \<Rightarrow> work_store \<Rightarrow>
     (item_error + work_item) \<times> work_store" where
  "patch_work_item now caller wid target reason u s =
     (case get_work_item wid s of
        None \<Rightarrow> (Inl ItemMissing, s)
      | Some r \<Rightarrow>
          (case (case str_or target None of
                   None \<Rightarrow> (Inr r, s)
                 | Some t \<Rightarrow> if t = item_state_text (wi_state r) then (Inr r, s)
                             else transition_state now wid t caller reason s) of
             (Inl e, s1) \<Rightarrow> (Inl e, s1)
           | (Inr _, s1) \<Rightarrow>
               if iu_title u \<noteq> None \<or> iu_owner u \<noteq> None \<or> iu_expected u \<noteq> None \<or> iu_next_check u \<noteq> None
               then update_work_item now wid u s1 else read_back wid s1))"

section \<open>Runs move their items\<close>

definition success_state :: "string \<Rightarrow> item_state" where
  "success_state artifact =
     (if artifact = ''pr_open'' then WiWaitingOnCi
      else if artifact = ''pr_merged'' \<or> artifact = ''deployed'' then WiDone
      else WiNeedsEvidence)"

record run_event =
  rn_run :: string
  rn_item :: string
  rn_role :: string
  rn_status :: string
  rn_artifact :: string

text \<open>Every error is caught; what was written before it stays.\<close>

definition update_linked_work_item :: "string \<Rightarrow> run_event \<Rightarrow> work_store \<Rightarrow> work_store" where
  "update_linked_work_item now e s =
     (if rn_item e = [] then s
      else case get_work_item (rn_item e) s of
        None \<Rightarrow> s
      | Some r \<Rightarrow>
          let s1 = snd (add_link now (rn_item e) ''runs'' (rn_run e) s);
              move = (\<lambda>t why. snd (transition_state now (rn_item e) (item_state_text t) (rn_role e)
                        (''Run '' @ rn_run e @ why) s1));
              t = success_state (rn_artifact e)
          in if rn_status e \<in> {''preparing'', ''running''} \<and> wi_state r \<in> {WiOpen, WiWaitingOnUser}
             then move WiInProgress '' started''
             else if rn_status e = ''needs_input'' \<and> wi_state r \<in> {WiOpen, WiInProgress}
             then move WiWaitingOnUser '' needs input''
             else if rn_status e = ''succeeded'' \<and> wi_state r \<in> {WiOpen, WiInProgress, WiWaitingOnCi, WiNeedsEvidence}
             then (if t \<noteq> wi_state r
                   then move t ('' succeeded with artifact '' @ (if rn_artifact e \<noteq> [] then rn_artifact e else ''none''))
                   else s1)
             else s1)"

end
