(* ===== verification/Item_Walk.thy ===== *)
theory Item_Walk
  imports Work_Items
begin

text \<open>
  What holds of work items: the walk of the follow-up engine over the pages of active items
  (\<open>FollowupEngine._active_items\<close> in \<open>backend/staff/followup.py\<close>) and the histories of an item under the
  operations of the store, the PATCH handler and the changes of runs.
\<close>

section \<open>The walk\<close>

function active_items :: "int \<Rightarrow> (string \<times> string \<times> string) option \<Rightarrow> work_item list \<Rightarrow> work_item list" where
  "active_items page after rows =
     (let batch = list_active_page page after rows
      in if batch = [] then [] else batch @ active_items page (Some (active_cursor (last batch))) rows)"
  by pat_completeness auto

lemma key_le_cursor: "active_key r \<le> active_cursor r"
  by (cases "wi_expected r") (auto simp: active_key_def active_cursor_def)

lemma active_after_onward:
  "active_after after r \<Longrightarrow> active_after (Some (active_cursor r)) r' \<Longrightarrow>
     active_after after r' \<and> active_key r < active_key r'"
  using key_le_cursor [of r] by (cases after) (auto simp: active_after_def)

interpretation active: keyset active_key active_after "\<lambda>r. Some (active_cursor r)"
  by unfold_locales (rule active_after_onward)

lemma list_active_page_eq:
  "list_active_page page after rows =
     (if page < 0 then sort_key active_key (filter (active_after after) rows)
      else take (nat page) (sort_key active_key (filter (active_after after) rows)))"
  by (simp add: list_active_page_def)

lemma list_active_page_after: "r \<in> set (list_active_page page after rows) \<Longrightarrow> r \<in> set rows \<and> active_after after r"
  by (auto simp: list_active_page_eq split: if_splits dest: in_set_takeD)

termination active_items
proof (relation "measure (\<lambda>(page, after, rows). length (filter (active_after after) rows))")
  fix page :: int and after rows batch
  assume "batch = list_active_page page after rows" and "batch \<noteq> []"
  then have "last batch \<in> set rows \<and> active_after after (last batch)"
    using list_active_page_after last_in_set by metis
  then show "((page, Some (active_cursor (last batch)), rows), page, after, rows)
      \<in> measure (\<lambda>(page, after, rows). length (filter (active_after after) rows))"
    by (simp add: active.fewer_behind)
qed simp

declare active_items.simps [simp del]

lemma active_items_eq:
  "active_items page after rows =
     (if list_active_page page after rows = [] then []
      else list_active_page page after rows @
             active_items page (Some (active_cursor (last (list_active_page page after rows)))) rows)"
  by (subst active_items.simps) (simp add: Let_def)

interpretation active_walk: keyset_walk active_key active_after "\<lambda>r. Some (active_cursor r)" list_active_page active_items
  by unfold_locales (rule list_active_page_eq active_items_eq)+

definition item_active :: "work_item \<Rightarrow> bool" where
  "item_active r = (wi_state r \<notin> set terminal_states)"

lemma active_after_None: "active_after None = item_active"
  by (auto simp: fun_eq_iff active_after_def item_active_def)

lemma active_after_Some: "active_after (Some k) = (\<lambda>r. item_active r \<and> k < active_key r)"
  by (auto simp: fun_eq_iff active_after_def item_active_def)

definition empty_deadline :: "work_item \<Rightarrow> bool" where
  "empty_deadline r = (wi_expected r = Some [])"

lemma active_keys_distinct: "keyed wi_id rows \<Longrightarrow> inj_on active_key (set rows) \<and> distinct rows"
  by (auto simp: inj_on_def active_key_def keyed_def distinct_map)

lemma exact_cursor: "\<not> empty_deadline r \<Longrightarrow> active_cursor r = active_key r"
  by (cases "wi_expected r") (auto simp: active_key_def active_cursor_def empty_deadline_def)

lemma empty_first: "empty_deadline r \<Longrightarrow> active_key r' < active_key r \<Longrightarrow> empty_deadline r'"
  by (cases "wi_expected r'") (auto simp: active_key_def empty_deadline_def split: if_splits)

text \<open>From a cursor behind which no deadline is empty the walk sees everything.\<close>

lemma active_items_beyond:
  assumes "keyed wi_id rows" and "page \<noteq> 0"
    and "\<And>r. r \<in> set rows \<Longrightarrow> active_after after r \<Longrightarrow> \<not> empty_deadline r"
  shows "active_items page after rows = sort_key active_key (filter (active_after after) rows)"
  by (rule active_walk.walk_all)
    (use assms active_keys_distinct in \<open>auto simp: exact_cursor active_after_def\<close>)

lemma few_in_prefix:
  assumes "sorted_wrt (\<lambda>r r'. active_key r < active_key r') (xs @ ys)" and "xs \<noteq> []" and "empty_deadline (last xs)"
  shows "filter empty_deadline xs = xs"
proof (rule filter_True, rule ballI)
  fix x
  assume "x \<in> set xs"
  moreover obtain zs z where "xs = zs @ [z]" using assms(2) by (cases xs rule: rev_cases) auto
  ultimately show "empty_deadline x" using assms empty_first by (auto simp: sorted_wrt_append)
qed

text \<open>C27: The sweep of the follow-up engine sees every work item that is not terminal exactly once, the earliest
  deadline first, if fewer items than a page holds have an empty text for a deadline.\<close>

theorem active_items_complete:
  assumes "keyed wi_id rows" and "0 < page"
    and "int (length (filter (\<lambda>r. item_active r \<and> empty_deadline r) rows)) < page"
  shows "active_items page None rows = sort_key active_key (filter item_active rows)"
proof -
  define seen where "seen = sort_key active_key (filter item_active rows)"
  define batch where "batch = list_active_page page None rows"
  have batch: "batch = take (nat page) seen"
    using assms(2) by (simp add: batch_def list_active_page_eq seen_def active_after_None)
  obtain rest where rest: "seen = batch @ rest" unfolding batch by (metis append_take_drop_id)
  have sorted: "sorted_wrt (\<lambda>r r'. active_key r < active_key r') (batch @ rest)"
    using active.strictly_ordered active_keys_distinct [OF assms(1)] rest unfolding seen_def by metis
  have members: "r \<in> set seen \<longleftrightarrow> r \<in> set rows \<and> item_active r" for r by (auto simp: seen_def)
  show ?thesis
  proof (cases "batch = []")
    case True
    with batch assms(2) have "seen = []" by (cases seen) auto
    with True show ?thesis by (simp add: active_items_eq [of page None] batch_def [symmetric] seen_def)
  next
    case False
    let ?after = "Some (active_cursor (last batch))"
    have step: "active_items page None rows = batch @ active_items page ?after rows"
      using False by (simp add: active_items_eq [of page None] batch_def [symmetric])
    have last: "last batch \<in> set rows" "item_active (last batch)"
      using last_in_set [OF False] members rest by auto
    show ?thesis
    proof (cases "empty_deadline (last batch)")
      case True
      have "int (length batch) < page"
      proof -
        have "length batch = length (filter empty_deadline batch)"
          using few_in_prefix [OF sorted False True] by simp
        also have "\<dots> \<le> length (filter empty_deadline seen)" by (simp add: rest)
        also have "\<dots> = length (filter (\<lambda>r. item_active r \<and> empty_deadline r) rows)"
          by (simp add: seen_def filter_sort conj_commute)
        finally show ?thesis using assms(3) by simp
      qed
      with batch assms(2) rest have "rest = []" by (auto simp: min_def split: if_splits)
      have "active_items page ?after rows = []"
      proof (rule ccontr)
        assume "active_items page ?after rows \<noteq> []"
        then obtain r where "r \<in> set (active_items page ?after rows)" by fastforce
        then have r: "r \<in> set rows" "active_after ?after r" by (auto dest: active_walk.walk_behind)
        then have "item_active r" "active_key (last batch) < active_key r"
          using key_le_cursor [of "last batch"] by (auto simp: active_after_def item_active_def)
        with r have "r \<in> set batch" using members rest \<open>rest = []\<close> by auto
        moreover obtain zs z where "batch = zs @ [z]" using False by (cases batch rule: rev_cases) auto
        ultimately show False
          using sorted \<open>active_key (last batch) < active_key r\<close> by (auto simp: sorted_wrt_append)
      qed
      with step rest \<open>rest = []\<close> show ?thesis by (simp add: seen_def)
    next
      case False': False
      have "active_items page ?after rows = sort_key active_key (filter (active_after ?after) rows)"
        using empty_first False' exact_cursor
        by (intro active_items_beyond assms(1)) (use assms(2) in \<open>auto simp: active_after_def\<close>)
      also have "\<dots> = filter (\<lambda>r. active_key (last batch) < active_key r) seen"
        using exact_cursor [OF False']
        by (simp add: seen_def filter_sort active_after_Some conj_commute)
      also have "\<dots> = rest" using active.beyond_prefix [OF sorted False] by (simp add: rest)
      finally show ?thesis using step rest by (simp add: seen_def)
    qed
  qed
qed

text \<open>With a page full of them, no item with a real deadline behind them is seen at all: the cursor of the last one
  is that of an item without a deadline.\<close>

lemma take_downward:
  assumes "sorted_wrt (\<lambda>r r'. active_key r < active_key r') xs" and "n \<le> length (filter empty_deadline xs)" and "x \<in> set (take n xs)"
  shows "empty_deadline x"
  using assms
proof (induction xs arbitrary: n)
  case (Cons y ys)
  show ?case
  proof (cases "empty_deadline y")
    case True
    with Cons show ?thesis by (cases n) auto
  next
    case False
    then have "filter empty_deadline (y # ys) = []"
      using Cons.prems(1) empty_first by (auto simp: filter_empty_conv)
    with Cons.prems(2,3) show ?thesis by simp
  qed
qed simp

lemma empty_deadlines_hide:
  assumes "keyed wi_id rows" and "0 < page"
    and "page \<le> int (length (filter (\<lambda>r. item_active r \<and> empty_deadline r) rows))"
    and "wi_expected r = Some d" and "d \<noteq> []" and "d < ''~''"
  shows "r \<notin> set (active_items page None rows)"
proof
  assume seen: "r \<in> set (active_items page None rows)"
  define batch where "batch = list_active_page page None rows"
  let ?ordered = "sort_key active_key (filter item_active rows)"
  have "length (filter empty_deadline ?ordered) = length (filter (\<lambda>r. item_active r \<and> empty_deadline r) rows)"
    by (simp add: filter_sort conj_commute)
  then have long: "nat page \<le> length (filter empty_deadline ?ordered)" using assms(2,3) by simp
  have batch: "batch = take (nat page) ?ordered"
    using assms(2) by (simp add: batch_def list_active_page_eq active_after_None)
  have empty: "empty_deadline x" if "x \<in> set batch" for x
    using take_downward active.strictly_ordered active_keys_distinct [OF assms(1)] long that unfolding batch by blast
  have "batch \<noteq> []" using batch long assms(2) by (cases ?ordered) auto
  with seen empty assms(4,5) have "r \<in> set (active_items page (Some (active_cursor (last batch))) rows)"
    by (auto simp: active_items_eq [of page None] batch_def [symmetric] empty_deadline_def)
  then have "active_cursor (last batch) < active_key r"
    by (auto dest!: active_walk.walk_behind simp: active_after_def)
  moreover have "wi_expected (last batch) = Some []"
    using empty last_in_set [OF \<open>batch \<noteq> []\<close>] by (simp add: empty_deadline_def)
  ultimately show False using assms(4,6) by (auto simp: active_cursor_def active_key_def)
qed

text \<open>A sample store: an item without a deadline, one that is due, one that is done.\<close>

definition sample_item :: "string \<Rightarrow> item_state \<Rightarrow> string option \<Rightarrow> work_item" where
  "sample_item i st d = \<lparr>wi_id = i, wi_title = ''title'', wi_requested_by = ''ann'', wi_thread = ''t'', wi_owner = ''dev'',
     wi_description = [], wi_state = st, wi_expected = d, wi_links = default_links, wi_progress_at = ''c'',
     wi_next_check = None, wi_created_at = ''c'', wi_updated_at = ''c''\<rparr>"

definition sample_items :: "work_item list" where
  "sample_items = [sample_item ''a'' WiOpen None, sample_item ''b'' WiInProgress (Some ''2026''), sample_item ''c'' WiDone None]"

lemma active_items_complete_witness:
  "active_items 200 None sample_items = [sample_item ''b'' WiInProgress (Some ''2026''), sample_item ''a'' WiOpen None]"
proof -
  have "keyed wi_id sample_items" and "int (length (filter (\<lambda>r. item_active r \<and> empty_deadline r) sample_items)) < 200"
    by code_simp+
  moreover have "sort_key active_key (filter item_active sample_items) =
      [sample_item ''b'' WiInProgress (Some ''2026''), sample_item ''a'' WiOpen None]"
    by code_simp
  ultimately show ?thesis using active_items_complete [of sample_items 200] by simp
qed

section \<open>The history of an item\<close>

lemma get_change_item [simp]:
  "(\<And>r. wi_id (f r) = wi_id r) \<Longrightarrow>
     get_work_item k (change_item wid f s) = (if k = wid then map_option f (get_work_item k s) else get_work_item k s)"
  by (simp add: get_work_item_def change_item_def table_simps)

lemma staff_write_rows: "staff_write a s = (raised, s') \<Longrightarrow> wk_rows s' = wk_rows s"
  by (auto simp: staff_write_def split: prod.splits)

lemma rows_written: "wk_rows (snd (case staff_write a s of (raised, s1) \<Rightarrow> (f raised, s1))) = wk_rows s"
  by (auto dest: staff_write_rows split: prod.split)

lemma snd_read_back [simp]: "snd (read_back wid s) = s"
  by (simp add: read_back_def)

definition state_of :: "string \<Rightarrow> work_store \<Rightarrow> item_state option" where
  "state_of k s = map_option wi_state (get_work_item k s)"

lemma state_of_rows: "wk_rows s' = wk_rows s \<Longrightarrow> state_of k s' = state_of k s"
  by (simp add: state_of_def get_work_item_def)

lemma state_of_kept:
  "(\<And>r. wi_id (f r) = wi_id r) \<Longrightarrow> (\<And>r. wi_state (f r) = wi_state r) \<Longrightarrow> state_of k (change_item wid f s) = state_of k s"
  by (simp add: state_of_def map_option.compositionality comp_def)

lemma add_link_state [simp]: "state_of k (snd (add_link now wid kind v s)) = state_of k s"
  by (auto simp: add_link_def Let_def state_of_kept split: option.split)

lemma update_item_state [simp]: "state_of k (snd (update_work_item now wid u s)) = state_of k s"
  by (auto simp: update_work_item_def state_of_kept split: option.split)

lemma item_state_of_text [simp]: "item_state_of (item_state_text t) = Some t"
  by (cases t) (simp_all add: item_state_of_def work_item_states_def)

lemma item_state_of_Some: "item_state_of target = Some t \<Longrightarrow> target = item_state_text t"
  by (auto simp: item_state_of_def find_Some_iff)

text \<open>A transition leaves every state alone, or it moves the one item along the table.\<close>

lemma transition_state_cases:
  obtains "state_of k (snd (transition_state now wid target actor reason s)) = state_of k s"
  | t st where "target = item_state_text t" and "k = wid" and "state_of k s = Some st" and "t \<in> set (item_transitions st)"
      and "state_of k (snd (transition_state now wid target actor reason s)) = Some t"
proof (cases "item_state_of target")
  case None
  then show ?thesis using that by (simp add: transition_state_def)
next
  case t: (Some t)
  show ?thesis
  proof (cases "get_work_item wid s")
    case None
    with t that show ?thesis by (simp add: transition_state_def)
  next
    case r: (Some r)
    show ?thesis
    proof (cases "t \<in> set (item_transitions (wi_state r))")
      case False
      with t r that show ?thesis by (simp add: transition_state_def)
    next
      case True
      let ?s = "change_item wid (\<lambda>r. r\<lparr>wi_state := t, wi_progress_at := now, wi_updated_at := now\<rparr>) s"
      have "state_of k (snd (transition_state now wid target actor reason s)) = state_of k ?s"
        using t r True by (auto simp: transition_state_def dest: staff_write_rows intro: state_of_rows split: prod.split)
      moreover have "state_of k ?s = (if k = wid then Some t else state_of k s)" using r by (simp add: state_of_def)
      ultimately show ?thesis using that r True item_state_of_Some [OF t] by (cases "k = wid") (auto simp: state_of_def)
    qed
  qed
qed

datatype item_op =
    ItCreate string string item_args
  | ItLink string string string string
  | ItPatch string string string "string option" string item_update
  | ItRun string run_event

fun item_step :: "item_op \<Rightarrow> work_store \<Rightarrow> work_store" where
  "item_step (ItCreate fresh now a) s = snd (create_work_item fresh now a s)"
| "item_step (ItLink now wid kind v) s = snd (add_link now wid kind v s)"
| "item_step (ItPatch now caller wid target reason u) s = snd (patch_work_item now caller wid target reason u s)"
| "item_step (ItRun now e) s = update_linked_work_item now e s"

text \<open>What may complete an item: a succeeded run with a merged change or a deployment, and a caller of the API.\<close>

fun completes :: "string \<Rightarrow> item_op \<Rightarrow> bool" where
  "completes k (ItRun now e) =
     (rn_item e = k \<and> rn_status e = ''succeeded'' \<and> rn_artifact e \<in> {''pr_merged'', ''deployed''})"
| "completes k (ItPatch now caller wid target reason u) = (wid = k \<and> target = Some ''done'')"
| "completes k _ = False"

text \<open>One operation: the state of an item stays, or moves along the table, or the item is new.\<close>

definition moved :: "string \<Rightarrow> item_op \<Rightarrow> work_store \<Rightarrow> work_store \<Rightarrow> bool" where
  "moved k op s s' =
     (state_of k s' = state_of k s \<or>
      state_of k s = None \<and> state_of k s' = Some WiOpen \<or>
      (\<exists>st t. state_of k s = Some st \<and> state_of k s' = Some t \<and> t \<in> set (item_transitions st) \<and>
         (t = WiDone \<longrightarrow> completes k op)))"

lemma moved_transition:
  assumes "snd (transition_state now wid target actor reason s) = s'"
    and "state_of k s0 = state_of k s" and "target = item_state_text WiDone \<Longrightarrow> k = wid \<Longrightarrow> completes k op"
  shows "moved k op s0 s'"
proof (cases rule: transition_state_cases [of k now wid target actor reason s])
  case 1
  then show ?thesis using assms(1,2) by (simp add: moved_def)
next
  case (2 t st)
  then have "t = WiDone \<longrightarrow> completes k op" using assms(3) by blast
  then show ?thesis using assms(1,2) 2 unfolding moved_def by metis
qed

lemma moved_create: "moved k (ItCreate fresh now a) s (snd (create_work_item fresh now a s))"
proof -
  define wid where "wid = (case str_or (ia_id a) None of Some i \<Rightarrow> i | None \<Rightarrow> fresh)"
  show ?thesis
  proof (cases "get_work_item wid s")
    case None
    have "\<exists>r. wi_id r = wid \<and> wi_state r = WiOpen \<and> wk_rows (snd (create_work_item fresh now a s)) = wk_rows s @ [r]"
      unfolding create_work_item_def Let_def wid_def [symmetric] using None by (simp add: rows_written)
    then obtain r where r: "wi_id r = wid" "wi_state r = WiOpen"
      and rows: "wk_rows (snd (create_work_item fresh now a s)) = wk_rows s @ [r]" by blast
    show ?thesis
      using None r rows by (auto simp: moved_def state_of_def get_work_item_def table_simps split: option.split)
  next
    case (Some r)
    then show ?thesis by (simp add: create_work_item_def Let_def wid_def [symmetric] moved_def)
  qed
qed

lemma moved_patch:
  "moved k (ItPatch now caller wid target reason u) s (snd (patch_work_item now caller wid target reason u s))"
proof (cases "get_work_item wid s")
  case None
  then show ?thesis by (simp add: patch_work_item_def moved_def)
next
  case r: (Some r)
  obtain x s1 where step: "(case str_or target None of None \<Rightarrow> (Inr r, s)
      | Some t \<Rightarrow> if t = item_state_text (wi_state r) then (Inr r, s) else transition_state now wid t caller reason s) = (x, s1)"
    by (rule prod.exhaust)
  have "moved k (ItPatch now caller wid target reason u) s s1"
  proof (cases "str_or target None")
    case None
    with step show ?thesis by (simp add: moved_def)
  next
    case (Some t)
    then have target: "target = Some t" by (cases target) (auto split: if_splits)
    show ?thesis
    proof (cases "t = item_state_text (wi_state r)")
      case True
      with step Some show ?thesis by (simp add: moved_def)
    next
      case False
      with step Some have "snd (transition_state now wid t caller reason s) = s1" by simp
      then show ?thesis by (rule moved_transition) (simp_all add: target)
    qed
  qed
  moreover have "state_of k (snd (patch_work_item now caller wid target reason u s)) = state_of k s1"
    using r by (auto simp: patch_work_item_def step split: sum.split)
  ultimately show ?thesis by (simp add: moved_def)
qed

lemma moved_refl [simp]: "moved k op s s"
  by (simp add: moved_def)

lemma item_done_text: "item_state_text t = item_state_text WiDone \<longleftrightarrow> t = WiDone"
  by (cases t) simp_all

lemma moved_run: "moved k (ItRun now e) s (update_linked_work_item now e s)"
proof (cases "rn_item e = [] \<or> get_work_item (rn_item e) s = None")
  case True
  then show ?thesis by (auto simp: update_linked_work_item_def)
next
  case False
  then obtain r where r: "rn_item e \<noteq> []" "get_work_item (rn_item e) s = Some r" by auto
  let ?s1 = "snd (add_link now (rn_item e) ''runs'' (rn_run e) s)"
  have move: "moved k (ItRun now e) s (snd (transition_state now (rn_item e) (item_state_text t) who why ?s1))"
    if "t = WiDone \<Longrightarrow> completes (rn_item e) (ItRun now e)" for t who why
    by (rule moved_transition [OF refl]) (use that item_done_text in auto)
  have stay: "moved k (ItRun now e) s ?s1" by (simp add: moved_def)
  have merged: "success_state (rn_artifact e) = WiDone \<Longrightarrow> rn_artifact e \<in> {''pr_merged'', ''deployed''}"
    by (auto simp: success_state_def split: if_splits)
  show ?thesis
  proof (cases "rn_status e = ''succeeded''")
    case True
    with r merged show ?thesis
      by (auto simp: update_linked_work_item_def Let_def stay simp del: item_state_text.simps intro!: move)
  next
    case False
    with r show ?thesis by (auto simp: update_linked_work_item_def Let_def stay simp del: item_state_text.simps intro!: move)
  qed
qed

lemma moved_step: "moved k op s (item_step op s)"
  by (cases op) (simp_all add: moved_create moved_patch moved_run moved_def [of _ "ItLink _ _ _ _"])

lemma state_of_step_cases:
  "state_of k (item_step op s) = state_of k s \<or>
   state_of k s = None \<and> state_of k (item_step op s) = Some WiOpen \<or>
   (\<exists>st t. state_of k s = Some st \<and> state_of k (item_step op s) = Some t \<and> t \<in> set (item_transitions st) \<and>
      (t = WiDone \<longrightarrow> completes k op))"
  using moved_step unfolding moved_def .

lemma closed_stays:
  "state_of k s = Some st \<Longrightarrow> item_transitions st = [] \<Longrightarrow> state_of k (fold item_step ops s) = Some st"
proof (induction ops arbitrary: s)
  case (Cons op ops)
  then have "state_of k (item_step op s) = Some st" using state_of_step_cases [of k op s] by auto
  with Cons show ?case by simp
qed simp

lemma completed_by:
  "state_of k (fold item_step ops s) = Some WiDone \<Longrightarrow> state_of k s = Some WiDone \<or> list_ex (completes k) ops"
proof (induction ops arbitrary: s)
  case (Cons op ops)
  then have "state_of k (item_step op s) = Some WiDone \<or> list_ex (completes k) ops" by simp
  then show ?case using state_of_step_cases [of k op s] by auto
qed simp

text \<open>C28: Whatever happens to a work item, it is done only after a succeeded run of it brought a merged change or a
  deployment, or a caller of the API set it to done, and once it is done or cancelled it stays so.\<close>

theorem done_has_evidence:
  assumes "state_of k (fold item_step ops s) = Some WiDone" and "state_of k s \<noteq> Some WiDone"
  shows "list_ex (completes k) ops \<and> state_of k (fold item_step later (fold item_step ops s)) = Some WiDone"
  using completed_by [OF assms(1)] closed_stays [OF assms(1)] assms(2) by simp

definition item_world :: work_store where
  "item_world = \<lparr>wk_rows = sample_items,
     wk_staff = \<lparr>ps_conv = \<lparr>cv_threads = [], cv_messages = []\<rparr>, ps_rows = [], ps_audit = [], ps_faults = []\<rparr>\<rparr>"

definition run_of_b :: "string \<Rightarrow> string \<Rightarrow> run_event" where
  "run_of_b status artifact =
     \<lparr>rn_run = ''r1'', rn_item = ''b'', rn_role = ''dev'', rn_status = status, rn_artifact = artifact\<rparr>"

lemma done_has_evidence_witness:
  "list_ex (completes ''b'') [ItRun ''d'' (run_of_b ''succeeded'' ''pr_merged'')] \<and>
   state_of ''b'' (fold item_step [ItRun ''e'' (run_of_b ''running'' [])]
     (fold item_step [ItRun ''d'' (run_of_b ''succeeded'' ''pr_merged'')] item_world)) = Some WiDone"
proof (rule done_has_evidence)
  show "state_of ''b'' (fold item_step [ItRun ''d'' (run_of_b ''succeeded'' ''pr_merged'')] item_world) = Some WiDone"
    by code_simp
  show "state_of ''b'' item_world \<noteq> Some WiDone" by code_simp
qed

text \<open>No success is reachable from \<open>open\<close>, though a success of an open item is meant to move it; an item that waits
  for CI is not asked for evidence either.\<close>

lemma no_success_from_open:
  assumes "state_of k s = Some WiOpen \<or> state_of k s = Some WiWaitingOnCi \<and> success_state (rn_artifact e) = WiNeedsEvidence"
    and "rn_status e = ''succeeded''"
  shows "state_of k (update_linked_work_item now e s) = state_of k s"
proof -
  let ?s1 = "snd (add_link now (rn_item e) ''runs'' (rn_run e) s)" and ?t = "success_state (rn_artifact e)"
  have no_way: "state_of k (snd (transition_state now (rn_item e) (item_state_text ?t) who why ?s1)) = state_of k s" for who why
  proof (cases rule: transition_state_cases [of k now "rn_item e" "item_state_text ?t" who why ?s1])
    case (2 t st)
    then have "t = ?t" using item_state_of_text by (metis option.inject)
    with 2 assms(1) show ?thesis by (auto simp: success_state_def split: if_splits)
  qed simp
  show ?thesis
    using assms(2) no_way by (auto simp: update_linked_work_item_def Let_def simp del: item_state_text.simps split: option.split)
qed

text \<open>A run never moves an escalated item: the success of an attempt that was still running leaves it escalated.\<close>

lemma escalated_stays_put:
  assumes "state_of k s = Some WiEscalated"
  shows "state_of k (update_linked_work_item now e s) = Some WiEscalated"
proof (cases "rn_item e = k")
  case True
  from assms obtain r where "get_work_item k s = Some r" "wi_state r = WiEscalated" by (auto simp: state_of_def)
  with True assms show ?thesis by (auto simp: update_linked_work_item_def)
next
  case False
  have "state_of k (snd (transition_state now (rn_item e) target who why (snd (add_link now (rn_item e) ''runs'' (rn_run e) s)))) =
      state_of k s" for target who why
    by (rule transition_state_cases [of k now "rn_item e" target who why
          "snd (add_link now (rn_item e) ''runs'' (rn_run e) s)"]) (use False in simp_all)
  with assms show ?thesis
    by (auto simp: update_linked_work_item_def Let_def simp del: item_state_text.simps split: option.split)
qed

end
