(* ===== verification/Followup_Ledger.thy ===== *)
theory Followup_Ledger
  imports Claim_Spec
begin

text \<open>
  The ledger of the follow-up engine, \<open>backend/staff/followup_ledger.py\<close>: the checks with their claims, and the
  history. The times of the checks are texts of one fixed width, compared as texts; an instant in microseconds
  stands for its text. The texts of the history are those of the callers. Every statement is one transaction, so
  the calls of several workers are a sequence.
\<close>

section \<open>State and operations\<close>

record check_row =
  fc_target :: string
  fc_kind :: string
  fc_next :: int
  fc_claimed_by :: string
  fc_last_action :: string
  fc_last_at :: string

record ledger_record =
  lr_id :: string
  lr_target :: string
  lr_kind :: string
  lr_condition :: string
  lr_action :: string
  lr_detail :: "(string, json) dict"
  lr_timestamp :: string

record ledger =
  lg_checks :: "check_row list"
  lg_records :: "ledger_record list"

text \<open>The conditional upsert. \<open>None\<close> is the assertion that a claim moves the next check forward.\<close>

definition claim_check :: "string \<Rightarrow> string \<Rightarrow> int \<Rightarrow> int \<Rightarrow> string \<Rightarrow> ledger \<Rightarrow> (bool \<times> ledger) option" where
  "claim_check target kind now next worker l =
     (if next < now then None
      else Some (case row_lookup fc_target target (lg_checks l) of
        None \<Rightarrow> (True, l\<lparr>lg_checks := lg_checks l @ [\<lparr>fc_target = target, fc_kind = kind, fc_next = next,
                    fc_claimed_by = worker, fc_last_action = [], fc_last_at = []\<rparr>]\<rparr>)
      | Some c \<Rightarrow>
          if fc_next c \<le> now
          then (True, l\<lparr>lg_checks := row_update fc_target target
                 (\<lambda>c. c\<lparr>fc_next := next, fc_claimed_by := worker\<rparr>) (lg_checks l)\<rparr>)
          else (False, l)))"

definition release_check :: "string \<Rightarrow> int \<Rightarrow> string \<Rightarrow> ledger \<Rightarrow> ledger" where
  "release_check target now worker l =
     l\<lparr>lg_checks := row_update fc_target target
        (\<lambda>c. if fc_claimed_by c = worker then c\<lparr>fc_next := now\<rparr> else c) (lg_checks l)\<rparr>"

definition check_due :: "string \<Rightarrow> int \<Rightarrow> ledger \<Rightarrow> bool" where
  "check_due target now l =
     (case row_lookup fc_target target (lg_checks l) of None \<Rightarrow> True | Some c \<Rightarrow> fc_next c \<le> now)"

text \<open>\<open>None\<close> is a duplicate identifier.\<close>

definition add_record :: "ledger_record \<Rightarrow> ledger \<Rightarrow> ledger option" where
  "add_record r l =
     (if row_lookup lr_id (lr_id r) (lg_records l) \<noteq> None then None
      else Some \<lparr>lg_checks = row_update fc_target (lr_target r)
               (\<lambda>c. c\<lparr>fc_last_action := lr_action r, fc_last_at := lr_timestamp r\<rparr>) (lg_checks l),
             lg_records = lg_records l @ [r]\<rparr>)"

definition records_for :: "string \<Rightarrow> ledger \<Rightarrow> ledger_record list" where
  "records_for target l =
     sort_key lr_timestamp (sort_key lr_id (filter (\<lambda>r. lr_target r = target) (lg_records l)))"

definition action_count :: "string \<Rightarrow> string \<Rightarrow> ledger \<Rightarrow> int" where
  "action_count since action l =
     int (length (filter (\<lambda>r. since \<le> lr_timestamp r \<and> lr_action r = action) (lg_records l)))"

definition action_counts :: "string \<Rightarrow> ledger \<Rightarrow> (string, int) dict" where
  "action_counts since l =
     map (\<lambda>a. (a, action_count since a l))
       (remdups (map lr_action (filter (\<lambda>r. since \<le> lr_timestamp r) (lg_records l))))"

text \<open>What one sweep saw.\<close>

record backlog =
  bk_active :: int
  bk_overdue :: int
  bk_oldest :: "string option"
  bk_oldest_age :: "int option"
  bk_decisions :: int

definition no_backlog :: backlog where
  "no_backlog = \<lparr>bk_active = 0, bk_overdue = 0, bk_oldest = None, bk_oldest_age = None, bk_decisions = 0\<rparr>"

text \<open>\<open>None\<close> is the error of a deadline that does not parse; only the first overdue one is read.\<close>

definition observe ::
    "(string \<Rightarrow> seconds option) \<Rightarrow> string \<Rightarrow> seconds \<Rightarrow> string option \<Rightarrow> backlog \<Rightarrow> backlog option" where
  "observe read_time now_iso now expected b =
     (let b = b\<lparr>bk_active := bk_active b + 1\<rparr>
      in case str_or expected None of
           None \<Rightarrow> Some b
         | Some d \<Rightarrow>
             if now_iso \<le> d then Some b
             else let b = b\<lparr>bk_overdue := bk_overdue b + 1\<rparr>
                  in if bk_oldest b \<noteq> None then Some b
                     else (case read_time d of
                             None \<Rightarrow> None
                           | Some t \<Rightarrow> Some (b\<lparr>bk_oldest := Some d, bk_oldest_age := Some (max 0 (\<lfloor>now - t\<rfloor>))\<rparr>)))"

section \<open>One claim per window\<close>

datatype ledger_op =
    LgClaim string string int int string
  | LgRelease string int string
  | LgRecord ledger_record

fun ledger_step :: "ledger_op \<Rightarrow> ledger \<Rightarrow> string claim_effect \<times> ledger" where
  "ledger_step (LgClaim target kind now next worker) l =
     (case claim_check target kind now next worker l of
        Some (True, l1) \<Rightarrow> (Granted target, l1)
      | _ \<Rightarrow> (Neither, l))"
| "ledger_step (LgRelease target now worker) l = (Freed target, release_check target now worker l)"
| "ledger_step (LgRecord r) l = (Neither, case add_record r l of None \<Rightarrow> l | Some l1 \<Rightarrow> l1)"

text \<open>The calls of a window that ends at \<open>h\<close>: each is made before \<open>h\<close> and claims up to \<open>h\<close> at least.\<close>

fun in_window_of :: "int \<Rightarrow> ledger_op \<Rightarrow> bool" where
  "in_window_of h (LgClaim target kind now next worker) = (now < h \<and> h \<le> next)"
| "in_window_of h _ = True"

definition held_until :: "int \<Rightarrow> ledger \<Rightarrow> string \<Rightarrow> bool" where
  "held_until h l target = (case row_lookup fc_target target (lg_checks l) of None \<Rightarrow> False | Some c \<Rightarrow> h \<le> fc_next c)"

lemma claim_check_cases:
  assumes "claim_check target kind now next worker l = Some (g, l')"
  obtains (granted) "g" and "\<not> held_until h l target \<or> h \<le> now" and "held_until h l' target \<longleftrightarrow> h \<le> next"
      and "\<And>k. k \<noteq> target \<Longrightarrow> held_until h l' k = held_until h l k" and "lg_records l' = lg_records l"
  | (refused) "\<not> g" and "l' = l" and "\<not> check_due target now l"
proof (cases "row_lookup fc_target target (lg_checks l)")
  case None
  with assms have l': "g" "l' = l\<lparr>lg_checks := lg_checks l @ [\<lparr>fc_target = target, fc_kind = kind, fc_next = next,
      fc_claimed_by = worker, fc_last_action = [], fc_last_at = []\<rparr>]\<rparr>"
    by (simp_all add: claim_check_def split: if_splits)
  show ?thesis
    by (rule granted) (use l' None in \<open>simp_all add: held_until_def table_simps split: option.split\<close>)
next
  case (Some c)
  show ?thesis
  proof (cases "fc_next c \<le> now")
    case True
    with assms Some have l': "g" "l' = l\<lparr>lg_checks := row_update fc_target target
        (\<lambda>c. c\<lparr>fc_next := next, fc_claimed_by := worker\<rparr>) (lg_checks l)\<rparr>"
      by (simp_all add: claim_check_def split: if_splits)
    show ?thesis by (rule granted) (use l' Some True in \<open>auto simp: held_until_def table_simps\<close>)
  next
    case False
    with assms Some have "\<not> g" "l' = l" by (simp_all add: claim_check_def split: if_splits)
    with Some False show ?thesis by (intro refused) (simp_all add: check_due_def)
  qed
qed

lemma held_release: "k \<noteq> target \<Longrightarrow> held_until h (release_check target now worker l) k = held_until h l k"
  by (simp add: held_until_def release_check_def table_simps)

lemma held_record: "add_record r l = Some l' \<Longrightarrow> held_until h l' k = held_until h l k"
  by (auto simp: held_until_def add_record_def table_simps split: if_splits option.splits)

lemma held_not_due: "held_until h l k \<Longrightarrow> now < h \<Longrightarrow> \<not> check_due k now l"
  by (auto simp: held_until_def check_due_def split: option.splits)

interpretation window: claim_table "\<lambda>l. True" "held_until h" "in_window_of h" ledger_step for h
proof
  fix l e k
  assume fine: "in_window_of h e"
  show "fst (ledger_step e l) = Granted k \<Longrightarrow> \<not> held_until h l k"
    using fine by (cases e) (auto split: option.splits bool.splits elim!: claim_check_cases [of _ _ _ _ _ _ _ _ h])
  show "fst (ledger_step e l) = Granted k \<Longrightarrow> held_until h (snd (ledger_step e l)) k"
    using fine by (cases e) (auto split: option.splits bool.splits elim!: claim_check_cases [of _ _ _ _ _ _ _ _ h])
  show "held_until h l k \<Longrightarrow> fst (ledger_step e l) \<noteq> Freed k \<Longrightarrow> held_until h (snd (ledger_step e l)) k"
  proof (cases e)
    case (LgClaim target kind now until worker)
    assume "held_until h l k"
    with fine LgClaim show ?thesis
      by (cases "k = target")
        (auto split: option.splits bool.splits elim!: claim_check_cases [of _ _ _ _ _ _ _ _ h])
  next
    case (LgRelease target now worker)
    assume "held_until h l k" "fst (ledger_step e l) \<noteq> Freed k"
    with LgRelease show ?thesis by (simp add: held_release)
  next
    case (LgRecord r)
    assume "held_until h l k"
    with LgRecord show ?thesis by (simp add: held_record split: option.split)
  qed
qed simp

text \<open>Within a window a target is claimed at most once more than it is released.\<close>

lemma claimed_once:
  "list_all (in_window_of h) es \<Longrightarrow> granted k (claim_run ledger_step es l) \<le> 1 + freed k (claim_run ledger_step es l)"
  by (rule window.once_unless_freed) simp_all

text \<open>An action of the first second of a day is not counted for the day: its text is that of a fraction, which
  lies before the text of the midnight without one.\<close>

lemma first_second_uncounted:
  "action_count ''2026-01-01T00:00:00Z'' ''retry''
     \<lparr>lg_checks = [], lg_records = [\<lparr>lr_id = ''f'', lr_target = ''w'', lr_kind = ''work_item'', lr_condition = ''failed'',
        lr_action = ''retry'', lr_detail = [], lr_timestamp = ''2026-01-01T00:00:00.500000Z''\<rparr>]\<rparr> = 0"
  by code_simp

end
