(* ===== verification/Follow_Up.thy ===== *)
theory Follow_Up
  imports Item_Walk Followup_Ledger Decision_Sla Retry_Runs
begin

text \<open>
  The follow-up engine, \<open>backend/staff/followup.py\<close>: one sweep over the active work items and the overdue
  decisions, its watchdog and its digest. It composes the items and their walk, the ledger, the retries of runs
  and the decisions by silence; no run has the status \<open>stalled\<close>, so the branch for it is that of a failed run. The
  wording of messages and refusals, fresh identifiers and the clock texts are arguments of the environment of a
  sweep. The items are read before the first of them is handled: handling one changes no key and no other item.
\<close>

section \<open>World, environment and sequencing\<close>

record followup_world =
  fw_runs :: staff_world
  fw_work :: work_store
  fw_ledger :: ledger
  fw_pushes :: "string list"
  fw_alerts :: "string list"
  fw_last_sweep :: "int option"

datatype notice =
    RunEscalated work_item staff_run string
  | LoginExpired work_item staff_run
  | InputNeeded work_item
  | DecisionOverdue proposal

text \<open>\<open>fe_now\<close> is the instant of the sweep in microseconds, \<open>fe_iso\<close> its text; \<open>fe_clock\<close> is the clock text of the
  stores, \<open>fe_roles\<close> the names of the roles in their order.\<close>

record followup_env =
  fe_worker :: string
  fe_now :: int
  fe_iso :: string
  fe_clock :: string
  fe_day_start :: string
  fe_interval :: int
  fe_roles :: "string list"
  fe_retry :: retry_env
  fe_exec :: exec_env
  fe_error_text :: "exec_error \<Rightarrow> string"
  fe_refusal :: "retry_refusal \<Rightarrow> string"
  fe_body :: "notice \<Rightarrow> string"
  fe_record_id :: "string \<Rightarrow> string"
  fe_message_id :: "string \<Rightarrow> string"
  fe_card_id :: "string \<Rightarrow> string"
  fe_thread_id :: string

datatype followup_error =
    ItemRaised item_error
  | PostRaised conversation_error
  | DecisionRaised proposal_error
  | UnreadableDeadline
  | ClaimNotForward
  | DuplicateRecord

type_synonym 'a act = "followup_world \<Rightarrow> (followup_error + 'a) \<times> followup_world"

definition andThen :: "'a act \<Rightarrow> ('a \<Rightarrow> 'b act) \<Rightarrow> 'b act" where
  "andThen m f w = (case m w of (Inl e, w1) \<Rightarrow> (Inl e, w1) | (Inr x, w1) \<Rightarrow> f x w1)"

definition pass :: "'a \<Rightarrow> 'a act" where
  "pass x w = (Inr x, w)"

definition on_work :: "(work_store \<Rightarrow> (item_error + 'a) \<times> work_store) \<Rightarrow> 'a act" where
  "on_work f w = (case f (fw_work w) of (x, s) \<Rightarrow>
     (case x of Inl e \<Rightarrow> Inl (ItemRaised e) | Inr y \<Rightarrow> Inr y, w\<lparr>fw_work := s\<rparr>))"

definition on_staff :: "(proposal_store \<Rightarrow> 'a \<times> proposal_store) \<Rightarrow> followup_world \<Rightarrow> 'a \<times> followup_world" where
  "on_staff f w = (case f (wk_staff (fw_work w)) of (x, p) \<Rightarrow> (x, w\<lparr>fw_work := (fw_work w)\<lparr>wk_staff := p\<rparr>\<rparr>))"

definition on_conv :: "(conversations \<Rightarrow> (conversation_error + 'a) \<times> conversations) \<Rightarrow> 'a act" where
  "on_conv f w = on_staff (\<lambda>p. case f (ps_conv p) of (x, cs) \<Rightarrow>
     (case x of Inl e \<Rightarrow> Inl (PostRaised e) | Inr y \<Rightarrow> Inr y, p\<lparr>ps_conv := cs\<rparr>)) w"

text \<open>An audit row of an action that does not fail closed.\<close>

definition write_note :: "staff_audit \<Rightarrow> unit act" where
  "write_note a w = (case on_staff (record_audit None a) w of (raised, w1) \<Rightarrow>
     (if raised then Inl (ItemRaised ItemAuditFailed) else Inr (), w1))"

definition followup_audit :: "string \<Rightarrow> string \<Rightarrow> string \<Rightarrow> (string, json) dict \<Rightarrow> unit act" where
  "followup_audit action target thread detail = write_note (item_audit action target ''barb'' thread detail)"

definition push_note :: "string \<Rightarrow> unit act" where
  "push_note title w = (Inr (), w\<lparr>fw_pushes := fw_pushes w @ [title]\<rparr>)"

section \<open>Messages\<close>

text \<open>\<open>query_threads\<close> of \<open>backend/staff/thread_helpers.py\<close>.\<close>

definition query_threads ::
    "string option \<Rightarrow> string option \<Rightarrow> string option \<Rightarrow> int \<Rightarrow> conversations \<Rightarrow> thread_row list" where
  "query_threads kind status participant limit cs =
     (let wanted = (\<lambda>t. (case str_or kind None of None \<Rightarrow> True | Some k \<Rightarrow> th_kind t = k) \<and>
                        (case str_or status None of None \<Rightarrow> True | Some v \<Rightarrow> th_status t = v) \<and>
                        (case str_or participant None of None \<Rightarrow> True | Some p \<Rightarrow> p \<in> set (th_participants t)));
          rows = rev (sort_key (\<lambda>t. (th_updated_at t, th_id t)) (filter wanted (cv_threads cs)))
      in if limit < 0 then rows else take (nat limit) rows)"

definition create_barb_thread :: "followup_env \<Rightarrow> string act" where
  "create_barb_thread env =
     andThen (on_conv (create_thread (xe_redact (fe_exec env)) (fe_clock env) (fe_thread_id env) ''Barb'' ''direct''
                [''barb'', ''user''] [] [] None))
       (\<lambda>t w. (Inr (th_id t), snd (on_staff (record_audit (Some False)
          \<lparr>au_action = ''thread_create'', au_target = th_id t, au_principal = [], au_surface = ''thread'',
           au_thread = th_id t, au_outcome = ''success'',
           au_detail = [(''title'', JStr (th_title t)), (''kind'', JStr (th_kind t))]\<rparr>) w)))"

definition barb_thread :: "followup_env \<Rightarrow> string act" where
  "barb_thread env w =
     (case List.find (\<lambda>t. ''barb'' \<in> set (map py_lower (th_participants t)))
             (query_threads None (Some ''open'') None 50 (ps_conv (wk_staff (fw_work w)))) of
        Some t \<Rightarrow> (Inr (th_id t), w)
      | None \<Rightarrow> create_barb_thread env w)"

definition say :: "followup_env \<Rightarrow> string \<Rightarrow> notice \<Rightarrow> (string, json) dict \<Rightarrow> unit act" where
  "say env target n meta =
     andThen (barb_thread env) (\<lambda>tid.
       andThen (on_conv (add_message (xe_redact (fe_exec env)) tid
           \<lparr>po_message_id = fe_message_id env target, po_now = fe_clock env, po_author_kind = ''role'', po_author = ''barb'',
            po_kind = ''text'', po_body = fe_body env n, po_meta = meta, po_run_id = [], po_idempotency_key = None,
            po_delivery = ''complete'', po_turn_epoch = None\<rparr>))
         (\<lambda>_. pass ()))"

section \<open>One work item\<close>

definition mk_record ::
    "followup_env \<Rightarrow> string \<Rightarrow> string \<Rightarrow> string \<Rightarrow> string \<Rightarrow> (string, json) dict \<Rightarrow> ledger_record" where
  "mk_record env target kind cond action detail =
     \<lparr>lr_id = fe_record_id env target, lr_target = target, lr_kind = kind, lr_condition = cond, lr_action = action,
      lr_detail = detail, lr_timestamp = fe_iso env\<rparr>"

definition handle_auth_expired :: "followup_env \<Rightarrow> work_item \<Rightarrow> staff_run \<Rightarrow> ledger_record act" where
  "handle_auth_expired env item run =
     (let detail = [(''provider'', JStr (sf_provider run)), (''run_id'', JStr (sf_id run))]
      in andThen (say env (wi_id item) (LoginExpired item run) detail) (\<lambda>_.
         andThen (followup_audit ''barb_followup_auth_alert'' (wi_id item) (wi_thread item) detail) (\<lambda>_.
         pass (mk_record env (wi_id item) ''work_item'' ''auth_expired'' ''auth_alert'' detail))))"

definition handle_needs_input :: "followup_env \<Rightarrow> work_item \<Rightarrow> ledger_record act" where
  "handle_needs_input env item =
     (let detail = [(''item_title'', JStr (wi_title item)), (''owner_role'', JStr (wi_owner item))]
      in andThen (say env (wi_id item) (InputNeeded item)
             [(''item_id'', JStr (wi_id item)), (''owner_role'', JStr (wi_owner item))]) (\<lambda>_.
         andThen (followup_audit ''barb_followup_ask_owner'' (wi_id item) (wi_thread item) detail) (\<lambda>_.
         pass (mk_record env (wi_id item) ''work_item'' ''needs_input'' ''ask_owner'' detail))))"

definition handle_overdue_item :: "followup_env \<Rightarrow> work_item \<Rightarrow> ledger_record act" where
  "handle_overdue_item env item =
     (let detail = [(''expected_by'', case wi_expected item of None \<Rightarrow> JNull | Some d \<Rightarrow> JStr d)]
      in andThen (followup_audit ''barb_followup_overdue_ping'' (wi_id item) (wi_thread item) detail) (\<lambda>_.
         pass (mk_record env (wi_id item) ''work_item'' ''overdue'' ''overdue_ping'' detail)))"

definition escalate_item :: "followup_env \<Rightarrow> work_item \<Rightarrow> staff_run \<Rightarrow> string \<Rightarrow> retry_refusal \<Rightarrow> ledger_record act" where
  "escalate_item env item run cond why =
     (let detail = [(''run_id'', JStr (sf_id run)), (''attempts'', JInt (sf_attempt run)),
                    (''retry_refused'', JStr (fe_refusal env why))]
      in andThen (on_work (transition_state (fe_clock env) (wi_id item) ''escalated'' ''barb''
             (''Run '' @ sf_id run @ '' '' @ cond @ '' after '' @ int_text (sf_attempt run) @ '' attempts; not retried: ''
                @ fe_refusal env why))) (\<lambda>_.
         andThen (say env (wi_id item) (RunEscalated item run cond)
             [(''escalation_type'', JStr cond), (''item_id'', JStr (wi_id item)), (''run_id'', JStr (sf_id run))]) (\<lambda>_.
         andThen (push_note (''Barb Escalation: '' @ wi_title item)) (\<lambda>_.
         andThen (followup_audit ''barb_followup_escalate'' (wi_id item) (wi_thread item) detail) (\<lambda>_.
         pass (mk_record env (wi_id item) ''work_item'' cond ''escalate'' detail))))))"

definition link_attempt :: "followup_env \<Rightarrow> work_item \<Rightarrow> string \<Rightarrow> unit act" where
  "link_attempt env item rid =
     (if rid \<in> set (links_of ''runs'' item) then pass ()
      else andThen (on_work (add_link (fe_clock env) (wi_id item) ''runs'' rid)) (\<lambda>_. pass ()))"

definition handle_failed_run :: "followup_env \<Rightarrow> work_item \<Rightarrow> staff_run \<Rightarrow> string \<Rightarrow> ledger_record act" where
  "handle_failed_run env item run cond w =
     (let detail = (\<lambda>rid. [(''run_id'', JStr (sf_id run)), (''new_run_id'', JStr rid),
                           (''attempt'', JInt (sf_attempt run + 1))]);
          follow = (\<lambda>rid action. mk_record env (wi_id item) ''work_item'' cond action (detail rid))
      in case launch_retry (fe_retry env) (sf_id run) [''stalled''] (fw_runs w) of
           (RetryLaunched rid, runs) \<Rightarrow>
             andThen (link_attempt env item rid) (\<lambda>_.
             andThen (followup_audit ''barb_followup_retry'' (wi_id item) (wi_thread item) (detail rid)) (\<lambda>_.
             pass (follow rid ''retry''))) (w\<lparr>fw_runs := runs\<rparr>)
         | (AlreadyClaimed rid, runs) \<Rightarrow>
             andThen (link_attempt env item rid) (\<lambda>_. pass (follow rid ''retry_pending'')) (w\<lparr>fw_runs := runs\<rparr>)
         | (RetryRefused why, runs) \<Rightarrow> escalate_item env item run cond why (w\<lparr>fw_runs := runs\<rparr>))"

definition known_roles :: "followup_env \<Rightarrow> string list" where
  "known_roles env = fe_roles env @ [''operator'', ''admin'', ''user'']"

definition reroute_item :: "followup_env \<Rightarrow> work_item \<Rightarrow> ledger_record act" where
  "reroute_item env item =
     (let target = (if ''librarian'' \<in> set (fe_roles env) then ''librarian''
                    else case fe_roles env of [] \<Rightarrow> ''operator'' | r # _ \<Rightarrow> r)
      in andThen (on_work (update_work_item (fe_clock env) (wi_id item)
             \<lparr>iu_title = None, iu_owner = Some target, iu_expected = None, iu_next_check = None\<rparr>)) (\<lambda>_.
         andThen (followup_audit ''barb_followup_reroute'' (wi_id item) (wi_thread item)
             [(''old'', JStr (wi_owner item)), (''new'', JStr target)]) (\<lambda>_.
         pass (mk_record env (wi_id item) ''work_item'' ''wrong_owner'' ''reroute''
             [(''previous_role'', JStr (wi_owner item)), (''new_role'', JStr target)]))))"

definition last_run :: "work_item \<Rightarrow> staff_world \<Rightarrow> staff_run option" where
  "last_run item runs = (case links_of ''runs'' item of [] \<Rightarrow> None | rid # rids \<Rightarrow> get_run (last (rid # rids)) runs)"

definition process_item :: "followup_env \<Rightarrow> work_item \<Rightarrow> ledger_record option act" where
  "process_item env item w =
     (let took = (\<lambda>m. andThen m (\<lambda>r. pass (Some r)));
          failed = (case last_run item (fw_runs w) of
                      None \<Rightarrow> None | Some run \<Rightarrow> if sf_status run = RunFailed then Some run else None)
      in case failed of
           Some run \<Rightarrow>
             if sf_class run = ''auth_expired'' then took (handle_auth_expired env item run) w
             else if sf_class run = ''stalled'' then took (handle_failed_run env item run ''stalled'') w
             else took (handle_failed_run env item run ''failed'') w
         | None \<Rightarrow>
             if wi_state item = WiWaitingOnUser then took (handle_needs_input env item) w
             else if wi_owner item \<noteq> [] \<and> wi_owner item \<notin> set (known_roles env) then took (reroute_item env item) w
             else if past_due (fe_iso env) item then took (handle_overdue_item env item) w
             else pass None w)"

section \<open>The sweep\<close>

definition claim_target :: "followup_env \<Rightarrow> string \<Rightarrow> string \<Rightarrow> bool act" where
  "claim_target env target kind w =
     (case claim_check target kind (fe_now env) (fe_now env + fe_interval env * 1000000) (fe_worker env) (fw_ledger w) of
        None \<Rightarrow> (Inl ClaimNotForward, w)
      | Some (g, l) \<Rightarrow> (Inr g, w\<lparr>fw_ledger := l\<rparr>))"

definition release_target :: "followup_env \<Rightarrow> string \<Rightarrow> unit act" where
  "release_target env target w =
     (Inr (), w\<lparr>fw_ledger := release_check target (fe_now env) (fe_worker env) (fw_ledger w)\<rparr>)"

definition persist :: "ledger_record \<Rightarrow> unit act" where
  "persist r w = (case add_record r (fw_ledger w) of
     None \<Rightarrow> (Inl DuplicateRecord, w)
   | Some l \<Rightarrow> (Inr (), w\<lparr>fw_ledger := l\<rparr>))"

definition check_item :: "followup_env \<Rightarrow> work_item \<Rightarrow> ledger_record list act" where
  "check_item env item =
     andThen (claim_target env (wi_id item) ''work_item'') (\<lambda>g.
       if \<not> g then pass []
       else andThen (process_item env item) (\<lambda>r. case r of
              None \<Rightarrow> andThen (release_target env (wi_id item)) (\<lambda>_. pass [])
            | Some r \<Rightarrow> andThen (persist r) (\<lambda>_. pass [r])))"

definition sweep_seconds :: "followup_env \<Rightarrow> seconds" where
  "sweep_seconds env = of_int (fe_now env) / 1000000"

fun sweep_items :: "followup_env \<Rightarrow> work_item list \<Rightarrow> backlog \<Rightarrow> (backlog \<times> ledger_record list) act" where
  "sweep_items env [] b w = pass (b, []) w"
| "sweep_items env (i # is) b w =
     (case observe (ae_time (xe_auth (fe_exec env))) (fe_iso env) (sweep_seconds env) (wi_expected i) b of
        None \<Rightarrow> (Inl UnreadableDeadline, w)
      | Some b1 \<Rightarrow>
          andThen (check_item env i) (\<lambda>rs.
          andThen (sweep_items env is b1) (\<lambda>(b2, rs2). pass (b2, rs @ rs2))) w)"

definition sla_env :: "followup_env \<Rightarrow> sweep_env" where
  "sla_env env = \<lparr>sw_exec = fe_exec env, sw_now = sweep_seconds env, sw_stamp = fe_clock env,
     sw_message_id = fe_card_id env, sw_error_text = fe_error_text env\<rparr>"

fun claim_decisions :: "followup_env \<Rightarrow> proposal list \<Rightarrow> string list act" where
  "claim_decisions env [] w = pass [] w"
| "claim_decisions env (p # ps) w =
     andThen (claim_target env (pr_id p) ''proposal'') (\<lambda>g.
     andThen (claim_decisions env ps) (\<lambda>recent. pass (if g then recent else pr_id p # recent))) w"

definition ping_decision :: "followup_env \<Rightarrow> proposal \<Rightarrow> ledger_record act" where
  "ping_decision env p =
     (let decide_by = (''decide_by'', opt_str (pr_decide_by p));
          detail = [decide_by, (''action'', JStr (pr_action p))]
      in andThen (say env (pr_id p) (DecisionOverdue p) [(''proposal_id'', JStr (pr_id p)), decide_by]) (\<lambda>_.
         andThen (followup_audit ''barb_followup_decision_ping'' (pr_id p) (pr_thread p) detail) (\<lambda>_.
         pass (mk_record env (pr_id p) ''proposal'' ''decision_overdue'' ''decision_ping'' detail))))"

fun ping_decisions :: "followup_env \<Rightarrow> proposal list \<Rightarrow> ledger_record list act" where
  "ping_decisions env [] w = pass [] w"
| "ping_decisions env (p # ps) w =
     andThen (ping_decision env p) (\<lambda>r. andThen (ping_decisions env ps) (\<lambda>rs. pass (r # rs))) w"

definition default_record :: "followup_env \<Rightarrow> decision_outcome \<Rightarrow> ledger_record" where
  "default_record env out =
     mk_record env (so_proposal out) ''proposal'' ''decision_overdue'' ''default_applied''
       [(''default_if_silent'', JStr (so_applied out)), (''outcome'', JStr (sla_outcome_text (so_outcome out))),
        (''detail'', JStr (so_detail out))]"

definition overdue_now :: "followup_env \<Rightarrow> proposal list act" where
  "overdue_now env w =
     (case overdue_decisions (ae_time (xe_auth (fe_exec env))) (sweep_seconds env) 200 (wk_staff (fw_work w)) of
        None \<Rightarrow> (Inl (DecisionRaised InvalidDeadline), w)
      | Some ps \<Rightarrow> (Inr ps, w))"

definition apply_silence :: "followup_env \<Rightarrow> string set \<Rightarrow> decision_outcome list act" where
  "apply_silence env skip w =
     (case on_staff (apply_decision_defaults (sla_env env) skip) w of
        (Inl e, w1) \<Rightarrow> (Inl (DecisionRaised e), w1)
      | (Inr outs, w1) \<Rightarrow> (Inr outs, w1))"

definition sweep_decisions :: "followup_env \<Rightarrow> (int \<times> ledger_record list) act" where
  "sweep_decisions env =
     andThen (overdue_now env) (\<lambda>overdue.
     andThen (claim_decisions env overdue) (\<lambda>recent.
     andThen (apply_silence env (set recent)) (\<lambda>outs.
       let refused = map so_proposal (filter (\<lambda>out. so_outcome out = SlaRefused) outs);
           applied = map (default_record env) (filter (\<lambda>out. so_outcome out \<noteq> SlaRefused) outs);
           silent = filter (\<lambda>p. pr_id p \<notin> set recent \<and> (pr_default p = [] \<or> pr_id p \<in> set refused)) overdue
       in andThen (ping_decisions env silent) (\<lambda>pings. pass (int (length overdue), applied @ pings)))))"

fun persist_all :: "ledger_record list \<Rightarrow> unit act" where
  "persist_all [] w = pass () w"
| "persist_all (r # rs) w = andThen (persist r) (\<lambda>_. persist_all rs) w"

record digest =
  dg_closed :: int
  dg_retried :: int
  dg_rerouted :: int
  dg_escalated :: int
  dg_still_open :: int
  dg_start :: string
  dg_end :: string

definition daily_digest :: "followup_env \<Rightarrow> followup_world \<Rightarrow> digest" where
  "daily_digest env w =
     (let items = list_work_items (fe_clock env) \<lparr>iq_thread = None, iq_owner = None, iq_requested_by = None, iq_state = None,
                    iq_overdue = None, iq_limit = 500\<rparr> (fw_work w);
          amount = (\<lambda>P. int (length (filter P items)));
          actions = action_counts (fe_day_start env) (fw_ledger w);
          taken = (\<lambda>a. case map_of actions a of None \<Rightarrow> 0 | Some n \<Rightarrow> n)
      in \<lparr>dg_closed = amount (\<lambda>r. wi_state r \<in> {WiDone, WiCancelled}), dg_retried = taken ''retry'',
          dg_rerouted = taken ''reroute'', dg_escalated = amount (\<lambda>r. wi_state r = WiEscalated),
          dg_still_open = amount (\<lambda>r. wi_state r \<notin> set terminal_states), dg_start = fe_day_start env, dg_end = fe_iso env\<rparr>)"

definition tally :: "ledger_record list \<Rightarrow> (string, int) dict" where
  "tally rs = fold (\<lambda>r d. AList.update (lr_action r) ((case map_of d (lr_action r) of None \<Rightarrow> 0 | Some n \<Rightarrow> n) + 1) d) rs []"

record sweep_result =
  sr_timestamp :: string
  sr_scanned :: int
  sr_followups :: "ledger_record list"
  sr_counts :: "(string, int) dict"
  sr_digest :: digest
  sr_backlog :: backlog

definition sweep :: "followup_env \<Rightarrow> sweep_result act" where
  "sweep env w =
     andThen (sweep_items env (active_items 200 None (wk_rows (fw_work w))) no_backlog) (\<lambda>(b, rs).
     andThen (sweep_decisions env) (\<lambda>(n, ds).
     andThen (persist_all ds) (\<lambda>_ w1.
       let b = b\<lparr>bk_decisions := n\<rparr>
       in pass \<lparr>sr_timestamp = fe_iso env, sr_scanned = bk_active b, sr_followups = rs @ ds, sr_counts = tally (rs @ ds),
            sr_digest = daily_digest env w1, sr_backlog = b\<rparr> w1))) (w\<lparr>fw_last_sweep := Some (fe_now env)\<rparr>)"

section \<open>The watchdog\<close>

datatype watchdog_verdict =
    NoSweepYet
  | SweepOnTime seconds seconds
  | SweepMissed int seconds seconds

definition watchdog_missed_intervals :: int where
  "watchdog_missed_intervals = 2"

definition check_watchdog :: "int \<Rightarrow> int \<Rightarrow> followup_world \<Rightarrow> watchdog_verdict \<times> followup_world" where
  "check_watchdog interval now w =
     (case fw_last_sweep w of
        None \<Rightarrow> (NoSweepYet, w)
      | Some t \<Rightarrow>
          let elapsed = max 0 (of_int (now - t) / 1000000);
              thresh = of_int (watchdog_missed_intervals * interval)
          in if thresh < elapsed
             then (SweepMissed \<lfloor>elapsed / of_int interval\<rfloor> elapsed thresh,
                   w\<lparr>fw_alerts := fw_alerts w @ [''barb_followup_watchdog''],
                     fw_pushes := fw_pushes w @ [''Barb Watchdog Alert'']\<rparr>)
             else (SweepOnTime elapsed thresh, w))"

definition sweep_interval :: "int \<Rightarrow> int" where
  "sweep_interval seconds = max 30 seconds"

end
