(* ===== verification/Sweep_Facts.thy ===== *)
theory Sweep_Facts
  imports Follow_Up
begin

text \<open>
  What holds of sweeps: one action for a target in a window, whichever workers sweep and whatever happens beside
  them; what an unreadable deadline does; and the escalation of items whose next attempt is under way.
\<close>

section \<open>What the handlers leave alone\<close>

named_theorems frame_intros

text \<open>The handlers of an item change neither the ledger nor a proposal.\<close>

definition frame :: "followup_world \<Rightarrow> ledger \<times> proposal list" where
  "frame w = (fw_ledger w, ps_rows (wk_staff (fw_work w)))"

definition framed :: "'a act \<Rightarrow> bool" where
  "framed m = (\<forall>w. frame (snd (m w)) = frame w)"

lemma framedD: "framed m \<Longrightarrow> frame (snd (m w)) = frame w"
  by (simp add: framed_def)

lemma framed_andThen [frame_intros]: "framed m \<Longrightarrow> (\<And>x. framed (f x)) \<Longrightarrow> framed (andThen m f)"
  by (simp add: framed_def andThen_def split: prod.split sum.split) (metis snd_conv)

lemma framed_pass [frame_intros]: "framed (pass x)"
  by (simp add: framed_def pass_def)

lemma record_audit_rows: "ps_rows (snd (record_audit b a p)) = ps_rows p"
  by (simp add: record_audit_def Let_def)

lemma record_audit_eq: "record_audit b a p = (raised, p') \<Longrightarrow> ps_rows p' = ps_rows p"
  using record_audit_rows [of b a p] by simp

lemma framed_write [frame_intros]: "framed (write_note a)"
  by (auto simp: framed_def write_note_def on_staff_def frame_def dest: record_audit_eq split: prod.split)

lemma framed_audit [frame_intros]: "framed (followup_audit action target thread detail)"
  unfolding followup_audit_def by (intro frame_intros)

lemma framed_push [frame_intros]: "framed (push_note t)"
  by (simp add: framed_def push_note_def frame_def)

lemma framed_conv [frame_intros]: "framed (on_conv f)"
  by (auto simp: framed_def on_conv_def on_staff_def frame_def split: prod.split)

lemma framed_barb_thread [frame_intros]: "framed (barb_thread env)"
proof -
  have "framed (create_barb_thread env)"
    unfolding create_barb_thread_def
    by (intro frame_intros) (auto simp: framed_def on_staff_def frame_def record_audit_rows split_def)
  then show ?thesis by (simp add: framed_def barb_thread_def split: option.split)
qed

lemma framed_say [frame_intros]: "framed (say env target n meta)"
  unfolding say_def by (intro frame_intros)

lemma framed_work [frame_intros]:
  assumes "\<And>s. ps_rows (wk_staff (snd (f s))) = ps_rows (wk_staff s)"
  shows "framed (on_work f)"
  using assms by (auto simp: framed_def on_work_def frame_def split: prod.split) (metis snd_conv)

lemma staff_write_proposals: "staff_write a s = (raised, s') \<Longrightarrow> ps_rows (wk_staff s') = ps_rows (wk_staff s)"
  by (auto simp: staff_write_def dest: record_audit_eq split: prod.splits)

lemma change_item_staff [simp]: "wk_staff (change_item wid f s) = wk_staff s"
  by (simp add: change_item_def)

lemma transition_proposals [simp]:
  "ps_rows (wk_staff (snd (transition_state now wid target actor reason s))) = ps_rows (wk_staff s)"
  by (auto simp: transition_state_def dest: staff_write_proposals split: option.split prod.split)

lemma add_link_proposals [simp]: "ps_rows (wk_staff (snd (add_link now wid kind v s))) = ps_rows (wk_staff s)"
  by (auto simp: add_link_def Let_def split: option.split)

lemma update_item_proposals [simp]: "ps_rows (wk_staff (snd (update_work_item now wid u s))) = ps_rows (wk_staff s)"
  by (auto simp: update_work_item_def split: option.split)

lemma framed_link [frame_intros]: "framed (link_attempt env item rid)"
  unfolding link_attempt_def by (auto intro!: frame_intros)

lemma framed_escalate [frame_intros]: "framed (escalate_item env item run cond why)"
  unfolding escalate_item_def Let_def by (intro frame_intros transition_proposals)

lemma frame_runs [simp]: "frame (w\<lparr>fw_runs := runs\<rparr>) = frame w"
  by (simp add: frame_def)

lemma framed_failed [frame_intros]: "framed (handle_failed_run env item run cond)"
proof -
  have launched: "framed (andThen (link_attempt env item rid) (\<lambda>_. andThen (followup_audit a t th d) (\<lambda>_. pass r)))"
    and claimed: "framed (andThen (link_attempt env item rid) (\<lambda>_. pass r))" for rid a t th d and r :: ledger_record
    by (intro frame_intros)+
  show ?thesis
    unfolding framed_def handle_failed_run_def Let_def
    by (auto simp: framedD [OF launched] framedD [OF claimed] framedD [OF framed_escalate]
        split: prod.split retry_decision.split)
qed

lemma framed_handlers [frame_intros]:
  "framed (handle_auth_expired env item run)" "framed (handle_needs_input env item)"
  "framed (handle_overdue_item env item)" "framed (reroute_item env item)"
  unfolding handle_auth_expired_def handle_needs_input_def handle_overdue_item_def reroute_item_def Let_def
  by (intro frame_intros update_item_proposals)+

lemma frame_took: "framed m \<Longrightarrow> frame (snd (andThen m (\<lambda>r. pass (Some r)) w)) = frame w" for m :: "ledger_record act"
  by (intro framedD frame_intros)

lemma framed_process [frame_intros]: "framed (process_item env item)"
  unfolding framed_def process_item_def Let_def
  by (auto simp: frame_took framed_handlers framed_failed framedD [OF framed_pass] split: option.split)

section \<open>One action per window\<close>

definition acted :: "string \<Rightarrow> followup_world \<Rightarrow> nat" where
  "acted k w = length (filter (\<lambda>r. lr_target r = k) (lg_records (fw_ledger w)))"

definition held :: "int \<Rightarrow> string \<Rightarrow> followup_world \<Rightarrow> bool" where
  "held h k w = held_until h (fw_ledger w) k"

text \<open>Beyond the \<open>n\<close> actions on \<open>k\<close> at the start of the window there is none, or one and \<open>k\<close> is claimed.\<close>

definition once_more :: "string \<Rightarrow> int \<Rightarrow> nat \<Rightarrow> followup_world \<Rightarrow> bool" where
  "once_more k h n w = (acted k w \<le> n \<or> acted k w = Suc n \<and> held h k w)"

definition within_window :: "int \<Rightarrow> followup_env \<Rightarrow> bool" where
  "within_window h env = (fe_now env < h \<and> h \<le> fe_now env + fe_interval env * 1000000)"

lemma ledger_same:
  "fw_ledger w' = fw_ledger w \<Longrightarrow> acted k w' = acted k w"
  "fw_ledger w' = fw_ledger w \<Longrightarrow> held h k w' = held h k w"
  "fw_ledger w' = fw_ledger w \<Longrightarrow> once_more k h n w' = once_more k h n w"
  by (simp_all add: acted_def held_def once_more_def)

lemma framed_ledger: "framed m \<Longrightarrow> fw_ledger (snd (m w)) = fw_ledger w"
  using framedD [of m w] by (simp add: frame_def)

lemma claim_target_cases:
  assumes "within_window h env" and "claim_target env target kind w = (x, w')"
  obtains (granted) "x = Inr True" and "\<not> held h target w" and "held h target w'" and "fw_work w' = fw_work w"
      and "\<And>k. k \<noteq> target \<Longrightarrow> held h k w' = held h k w" and "\<And>k. acted k w' = acted k w"
  | (refused) "x = Inr False" and "w' = w"
  | (raised) e where "x = Inl e" and "w' = w"
proof (cases "claim_check target kind (fe_now env) (fe_now env + fe_interval env * 1000000) (fe_worker env) (fw_ledger w)")
  case None
  with assms(2) show ?thesis by (intro raised [of ClaimNotForward]) (simp_all add: claim_target_def)
next
  case (Some gl)
  obtain g l where gl: "gl = (g, l)" by fastforce
  with assms(2) Some have w': "x = Inr g" "w' = w\<lparr>fw_ledger := l\<rparr>" by (simp_all add: claim_target_def)
  from Some gl have
    "claim_check target kind (fe_now env) (fe_now env + fe_interval env * 1000000) (fe_worker env) (fw_ledger w) = Some (g, l)"
    by simp
  then show ?thesis
  proof (cases rule: claim_check_cases [where h = h])
    case 1: granted
    show ?thesis
      by (rule granted) (use 1 w' assms(1) in \<open>auto simp: held_def acted_def within_window_def\<close>)
  next
    case refused': refused
    with w' show ?thesis by (intro refused) simp_all
  qed
qed

lemma persist_acted:
  "persist r w = (x, w') \<Longrightarrow> held h k w' = held h k w \<and> acted k w' \<le> acted k w + (if lr_target r = k then 1 else 0)"
  by (auto simp: persist_def held_def acted_def add_record_def dest: held_record split: option.splits if_splits)
    (auto simp: held_until_def table_simps split: option.splits)

lemma release_acted: "acted k (snd (release_target env target w)) = acted k w"
  by (simp add: release_target_def acted_def release_check_def)

lemma release_held: "k \<noteq> target \<Longrightarrow> held h k (snd (release_target env target w)) = held h k w"
  by (simp add: release_target_def held_def held_release)

lemma andThen_Inl [simp]: "m w = (Inl e, w1) \<Longrightarrow> andThen m f w = (Inl e, w1)"
  by (simp add: andThen_def)

lemma andThen_Inr [simp]: "m w = (Inr x, w1) \<Longrightarrow> andThen m f w = f x w1"
  by (simp add: andThen_def)

lemma andThen_Inr_iff: "andThen m f w = (Inr y, w') \<longleftrightarrow> (\<exists>x w1. m w = (Inr x, w1) \<and> f x w1 = (Inr y, w'))"
  by (auto simp: andThen_def split: prod.split sum.split)

text \<open>The record of a handler is one for its target.\<close>

definition returns_for :: "string \<Rightarrow> ledger_record act \<Rightarrow> bool" where
  "returns_for k m = (\<forall>w r w'. m w = (Inr r, w') \<longrightarrow> lr_target r = k)"

lemma returns_pass: "lr_target r = k \<Longrightarrow> returns_for k (pass r)"
  by (simp add: returns_for_def pass_def)

lemma returns_andThen: "(\<And>x. returns_for k (f x)) \<Longrightarrow> returns_for k (andThen m f)"
  by (auto simp: returns_for_def andThen_Inr_iff)

lemma mk_record_target [simp]: "lr_target (mk_record env target kind cond action detail) = target"
  by (simp add: mk_record_def)

lemmas returns_intros = returns_andThen returns_pass mk_record_target

lemma returns_handlers:
  "returns_for (wi_id item) (handle_auth_expired env item run)" "returns_for (wi_id item) (handle_needs_input env item)"
  "returns_for (wi_id item) (handle_overdue_item env item)" "returns_for (wi_id item) (reroute_item env item)"
  "returns_for (wi_id item) (escalate_item env item run cond why)"
  unfolding handle_auth_expired_def handle_needs_input_def handle_overdue_item_def reroute_item_def escalate_item_def Let_def
  by (intro returns_intros)+

lemma returns_failed: "returns_for (wi_id item) (handle_failed_run env item run cond)"
  unfolding returns_for_def
proof (intro allI impI)
  fix w r w'
  assume r: "handle_failed_run env item run cond w = (Inr r, w')"
  obtain d runs where d: "launch_retry (fe_retry env) (sf_id run) [''stalled''] (fw_runs w) = (d, runs)" by fastforce
  show "lr_target r = wi_id item"
  proof (cases d)
    case (RetryRefused why)
    with r d have "escalate_item env item run cond why (w\<lparr>fw_runs := runs\<rparr>) = (Inr r, w')" by (simp add: handle_failed_run_def)
    with returns_handlers(5) show ?thesis by (simp add: returns_for_def) blast
  qed (use r d in \<open>auto simp: handle_failed_run_def Let_def andThen_Inr_iff pass_def\<close>)
qed

definition handled :: "work_item \<Rightarrow> followup_world \<Rightarrow> (followup_error + ledger_record option) \<times> followup_world \<Rightarrow> bool" where
  "handled item w res =
     (res = pass None w \<or> (\<exists>m. framed m \<and> returns_for (wi_id item) m \<and> res = andThen m (\<lambda>r. pass (Some r)) w))"

lemma handledI: "framed m \<Longrightarrow> returns_for (wi_id item) m \<Longrightarrow> handled item w (andThen m (\<lambda>r. pass (Some r)) w)"
  by (auto simp: handled_def)

lemma process_handled: "handled item w (process_item env item w)"
proof -
  have none: "handled item w (pass None w)" by (simp add: handled_def)
  note some = handledI [OF framed_handlers(1) returns_handlers(1)] handledI [OF framed_handlers(2) returns_handlers(2)]
    handledI [OF framed_handlers(3) returns_handlers(3)] handledI [OF framed_handlers(4) returns_handlers(4)]
    handledI [OF framed_failed returns_failed]
  show ?thesis unfolding process_item_def Let_def by (simp add: none some split: option.split)
qed

lemma process_target:
  assumes "process_item env item w = (Inr (Some r), w')"
  shows "lr_target r = wi_id item"
proof -
  from process_handled [of item w env] assms
  obtain m where "returns_for (wi_id item) m" and "andThen m (\<lambda>r. pass (Some r)) w = (Inr (Some r), w')"
    by (auto simp: handled_def pass_def)
  then show ?thesis by (auto simp: andThen_Inr_iff pass_def returns_for_def)
qed

text \<open>An operation that keeps the bound of the window.\<close>

definition keeps_bound :: "string \<Rightarrow> int \<Rightarrow> nat \<Rightarrow> 'a act \<Rightarrow> bool" where
  "keeps_bound k h n m = (\<forall>w. once_more k h n w \<longrightarrow> once_more k h n (snd (m w)))"

lemma keeps_boundD: "keeps_bound k h n m \<Longrightarrow> once_more k h n w \<Longrightarrow> once_more k h n (snd (m w))"
  by (simp add: keeps_bound_def)

lemma keeps_andThen:
  assumes "keeps_bound k h n m" and "\<And>x. keeps_bound k h n (f x)"
  shows "keeps_bound k h n (andThen m f)"
  unfolding keeps_bound_def
proof (intro allI impI)
  fix w
  assume b: "once_more k h n w"
  obtain r w1 where m: "m w = (r, w1)" by fastforce
  with keeps_boundD [OF assms(1) b] have "once_more k h n w1" by simp
  with keeps_boundD [OF assms(2)] m show "once_more k h n (snd (andThen m f w))" by (cases r) simp_all
qed

lemma keeps_framed: "framed m \<Longrightarrow> keeps_bound k h n m"
  by (metis keeps_bound_def ledger_same(3) framed_ledger)

text \<open>The handler of a claimed target: the claim leaves room for the one record it may add.\<close>

lemma room_after_claim:
  assumes "once_more k h n w" and "\<not> held h k w"
  shows "acted k w \<le> n"
  using assms by (simp add: once_more_def)

lemma keeps_check_item:
  assumes "within_window h env"
  shows "keeps_bound k h n (check_item env item)"
  unfolding keeps_bound_def
proof (intro allI impI)
  fix w
  assume b: "once_more k h n w"
  obtain x w1 where c: "claim_target env (wi_id item) ''work_item'' w = (x, w1)" by fastforce
  from assms c show "once_more k h n (snd (check_item env item w))"
  proof (cases rule: claim_target_cases)
    case granted
    obtain y w2 where p: "process_item env item w1 = (y, w2)" by fastforce
    have l: "fw_ledger w2 = fw_ledger w1" using framed_ledger [OF framed_process, of env item w1] p by simp
    have room: "acted k w2 \<le> n \<and> held h k w2" if "k = wi_id item"
      using room_after_claim [OF b] granted that by (simp add: ledger_same [OF l])
    have other: "once_more k h n w2" if "k \<noteq> wi_id item"
      using b granted(5,6) that by (simp add: ledger_same [OF l] once_more_def)
    show ?thesis
    proof (cases y)
      case (Inl e)
      with c p granted(1) room other show ?thesis by (cases "k = wi_id item") (auto simp: check_item_def once_more_def)
    next
      case (Inr r)
      show ?thesis
      proof (cases r)
        case None
        have step: "snd (check_item env item w) = snd (release_target env (wi_id item) w2)"
          using c p granted(1) Inr None by (simp add: check_item_def andThen_def release_target_def pass_def)
        show ?thesis
          using room other unfolding step
          by (cases "k = wi_id item") (simp_all add: once_more_def release_acted release_held)
      next
        case (Some rec)
        then have target: "lr_target rec = wi_id item" using p Inr process_target by blast
        obtain z w3 where q: "persist rec w2 = (z, w3)" by fastforce
        have step: "snd (check_item env item w) = w3"
          using c p q granted(1) Inr Some by (cases z) (simp_all add: check_item_def andThen_def pass_def)
        show ?thesis
          using persist_acted [OF q, of h k] room other target unfolding step
          by (cases "k = wi_id item") (auto simp: once_more_def)
      qed
    qed
  next
    case refused
    with c b show ?thesis by (simp add: check_item_def andThen_def pass_def)
  next
    case (raised e)
    with c b show ?thesis by (simp add: check_item_def andThen_def)
  qed
qed

lemma keeps_sweep_items:
  assumes "within_window h env"
  shows "keeps_bound k h n (sweep_items env items b)"
proof (induction items arbitrary: b)
  case Nil
  then show ?case by (simp add: keeps_bound_def pass_def)
next
  case (Cons i items)
  have "keeps_bound k h n (andThen (check_item env i) (\<lambda>rs. andThen (sweep_items env items b') (\<lambda>(b2, rs2). pass (b2, rs @ rs2))))"
    for b'
    using keeps_check_item [OF assms] Cons.IH
    by (intro keeps_andThen) (auto simp: split_def intro: keeps_framed framed_pass)
  then show ?case by (simp add: keeps_bound_def split: option.split)
qed

text \<open>The decisions: what is left after the claims is named once, and was free before.\<close>

definition named :: "string \<Rightarrow> string list \<Rightarrow> nat" where
  "named k ks = length (filter (\<lambda>x. x = k) ks)"

lemma named_Cons [simp]: "named k (x # xs) = (if x = k then Suc (named k xs) else named k xs)"
  by (simp add: named_def)

lemma named_Nil [simp]: "named k [] = 0"
  by (simp add: named_def)

lemma named_append [simp]: "named k (xs @ ys) = named k xs + named k ys"
  by (simp add: named_def)

lemma claim_decisions_free:
  assumes "within_window h env"
  shows "claim_decisions env ps w = (res, w') \<Longrightarrow>
    fw_work w' = fw_work w \<and> acted k w' = acted k w \<and> (held h k w \<longrightarrow> held h k w') \<and>
    (\<forall>recent. res = Inr recent \<longrightarrow> k \<in> set (map pr_id ps) \<longrightarrow> k \<notin> set recent \<longrightarrow>
       \<not> held h k w \<and> held h k w' \<and> named k (map pr_id ps) = 1)"
proof (induction ps arbitrary: w res w')
  case Nil
  then show ?case by (simp add: pass_def)
next
  case (Cons p ps)
  obtain x w1 where c: "claim_target env (pr_id p) ''proposal'' w = (x, w1)" by fastforce
  from assms c show ?case
  proof (cases rule: claim_target_cases)
    case granted
    obtain res2 w2 where r: "claim_decisions env ps w1 = (res2, w2)" by fastforce
    note IH = Cons.IH [OF r]
    have w': "w' = w2" "res = (case res2 of Inl e \<Rightarrow> Inl e | Inr recent \<Rightarrow> Inr recent)"
      using Cons.prems c r granted(1) by (auto simp: andThen_def pass_def split: sum.splits)
    show ?thesis
      using IH granted w' by (cases "k = pr_id p"; cases res2) (auto simp: named_def filter_empty_conv, metis imageI)
  next
    case refused
    obtain res2 w2 where r: "claim_decisions env ps w1 = (res2, w2)" by fastforce
    note IH = Cons.IH [OF r]
    have w': "w' = w2" "res = (case res2 of Inl e \<Rightarrow> Inl e | Inr recent \<Rightarrow> Inr (pr_id p # recent))"
      using Cons.prems c r refused(1) by (auto simp: andThen_def pass_def split: sum.splits)
    show ?thesis
      using IH refused w' by (cases "k = pr_id p"; cases res2) auto
  next
    case (raised e)
    with Cons.prems c show ?thesis by (auto simp: andThen_def)
  qed
qed

lemma apply_one_proposal: "apply_one env p s = (Inr out, s') \<Longrightarrow> so_proposal out = pr_id p"
  by (auto simp: apply_one_def sla_approve_def sla_deny_def outcome_of_def Let_def
      split: if_splits prod.splits sum.splits option.splits)

lemma apply_defaults_named:
  "apply_defaults env skip ps s = (Inr outs, s') \<Longrightarrow>
     map so_proposal outs = map pr_id (filter (\<lambda>p. pr_default p \<noteq> [] \<and> pr_id p \<notin> skip) ps)"
proof (induction ps arbitrary: s outs)
  case (Cons p ps)
  show ?case
  proof (cases "pr_default p = [] \<or> pr_id p \<in> skip")
    case True
    with Cons show ?thesis by auto
  next
    case False
    with Cons.prems Cons.IH show ?thesis
      by (auto split: prod.splits sum.splits if_splits dest: apply_one_proposal)
  qed
qed simp

lemma persist_all_acted:
  "persist_all rs w = (x, w') \<Longrightarrow> held h k w' = held h k w \<and> acted k w' \<le> acted k w + named k (map lr_target rs)"
proof (induction rs arbitrary: w x w')
  case (Cons r rs)
  obtain y w1 where p: "persist r w = (y, w1)" by fastforce
  note one = persist_acted [OF p, of h k]
  show ?case
  proof (cases y)
    case (Inl e)
    with p Cons.prems one show ?thesis by auto
  next
    case (Inr u)
    with p Cons.prems have "persist_all rs w1 = (x, w')" by simp
    from Cons.IH [OF this] one show ?thesis by auto
  qed
qed (simp add: pass_def)

lemma ping_decision_target: "ping_decision env p w = (Inr r, w') \<Longrightarrow> lr_target r = pr_id p"
  by (auto simp: ping_decision_def Let_def andThen_Inr_iff pass_def)

lemma framed_ping: "framed (ping_decision env p)"
  unfolding ping_decision_def Let_def by (intro frame_intros)

lemma framed_pings: "framed (ping_decisions env ps)"
proof (induction ps)
  case Nil
  then show ?case by (simp add: framed_def pass_def)
next
  case (Cons p ps)
  have "framed (andThen (ping_decision env p) (\<lambda>r. andThen (ping_decisions env ps) (\<lambda>rs. pass (r # rs))))"
    by (intro frame_intros framed_ping Cons.IH)
  then show ?case by (simp add: framed_def)
qed

lemma ping_decisions_targets: "ping_decisions env ps w = (Inr rs, w') \<Longrightarrow> map lr_target rs = map pr_id ps"
  by (induction ps arbitrary: w rs w') (auto simp: andThen_Inr_iff pass_def dest: ping_decision_target)

text \<open>After the decisions: whoever is named in their records is named once, is claimed, and has room.\<close>

definition fresh_records :: "string \<Rightarrow> int \<Rightarrow> nat \<Rightarrow> ledger_record list \<Rightarrow> followup_world \<Rightarrow> bool" where
  "fresh_records k h n rs w =
     (named k (map lr_target rs) = 0 \<or> named k (map lr_target rs) = 1 \<and> acted k w \<le> n \<and> held h k w)"

lemma apply_silence_ledger: "apply_silence env skip w = (x, w') \<Longrightarrow> fw_ledger w' = fw_ledger w"
  by (auto simp: apply_silence_def on_staff_def split: prod.splits sum.splits)

lemma named_le_filter: "named k (map f (filter P xs)) \<le> named k (map f xs)"
  by (induction xs) auto

lemma named_zero: "named k ks = 0 \<longleftrightarrow> k \<notin> set ks"
  by (auto simp: named_def filter_empty_conv)

lemma decisions_named_once:
  assumes outs: "map so_proposal outs = map pr_id (filter (\<lambda>p. pr_default p \<noteq> [] \<and> pr_id p \<notin> set recent) ps)"
    and once: "k \<notin> set recent \<Longrightarrow> k \<in> set (map pr_id ps) \<Longrightarrow> named k (map pr_id ps) = 1"
    and pings: "map lr_target pings = map pr_id (filter (\<lambda>p. pr_id p \<notin> set recent \<and>
        (pr_default p = [] \<or> pr_id p \<in> set (map so_proposal (filter (\<lambda>out. so_outcome out = SlaRefused) outs)))) ps)"
  shows "named k (map lr_target (map (default_record env) (filter (\<lambda>out. so_outcome out \<noteq> SlaRefused) outs) @ pings)) \<le>
    (if k \<notin> set recent \<and> k \<in> set (map pr_id ps) then 1 else 0)"
proof -
  let ?applied = "map so_proposal (filter (\<lambda>out. so_outcome out \<noteq> SlaRefused) outs)"
  let ?refused = "map so_proposal (filter (\<lambda>out. so_outcome out = SlaRefused) outs)"
  have targets: "map lr_target (map (default_record env) (filter (\<lambda>out. so_outcome out \<noteq> SlaRefused) outs)) = ?applied"
    by (simp add: default_record_def comp_def)
  show ?thesis
  proof (cases "k \<notin> set recent \<and> k \<in> set (map pr_id ps)")
    case False
    have "k \<notin> set (map so_proposal outs)" using False unfolding outs by auto
    then have "k \<notin> set ?applied" by auto
    moreover have "k \<notin> set (map lr_target pings)" using False unfolding pings by auto
    ultimately show ?thesis using False by (simp only: map_append targets named_append) (auto simp: named_zero)
  next
    case True
    have split: "named k (map so_proposal outs) = named k ?applied + named k ?refused" for k
      by (induction outs) auto
    have all: "named k (map so_proposal outs) \<le> named k (map pr_id ps)" unfolding outs by (rule named_le_filter)
    have pinged: "named k (map lr_target pings) \<le> named k (map pr_id ps)" unfolding pings by (rule named_le_filter)
    have "named k ?applied = 0" if "named k (map lr_target pings) \<noteq> 0"
    proof -
      from that have "k \<in> set (map lr_target pings)" by (simp add: named_zero)
      then obtain p where p: "p \<in> set ps" "pr_id p = k" "pr_default p = [] \<or> k \<in> set ?refused" unfolding pings by auto
      show ?thesis
      proof (cases "k \<in> set ?refused")
        case True
        then have "named k ?refused \<noteq> 0" by (simp add: named_zero)
        with split [of k] all once True \<open>k \<notin> set recent \<and> _\<close> show ?thesis by simp
      next
        case False
        with p have "pr_default p = []" by simp
        have "k \<notin> set (map so_proposal outs)"
        proof
          assume "k \<in> set (map so_proposal outs)"
          then obtain q where q: "q \<in> set ps" "pr_id q = k" "pr_default q \<noteq> []" unfolding outs by auto
          with p \<open>pr_default p = []\<close> have "p \<noteq> q" by auto
          have "length (filter (\<lambda>r. pr_id r = k) ps) = 1"
            using once True by (simp add: named_def filter_map comp_def)
          then obtain r where "filter (\<lambda>r. pr_id r = k) ps = [r]" by (auto simp: length_Suc_conv)
          moreover have "p \<in> set (filter (\<lambda>r. pr_id r = k) ps)" "q \<in> set (filter (\<lambda>r. pr_id r = k) ps)" using p q by auto
          ultimately show False using \<open>p \<noteq> q\<close> by simp
        qed
        then have "named k (map so_proposal outs) = 0" by (simp add: named_zero)
        with split [of k] show ?thesis by simp
      qed
    qed
    with True once all pinged split [of k] show ?thesis by (simp only: map_append targets named_append) force
  qed
qed

lemma sweep_decisions_bound:
  assumes "within_window h env" and "once_more k h n w" and "sweep_decisions env w = (res, w')"
  shows "once_more k h n w' \<and> (\<forall>m ds. res = Inr (m, ds) \<longrightarrow> fresh_records k h n ds w')"
proof -
  obtain o1 w1 where o: "overdue_now env w = (o1, w1)" by fastforce
  then have w1: "w1 = w" by (auto simp: overdue_now_def split: option.splits)
  show ?thesis
  proof (cases o1)
    case (Inl e)
    with assms o w1 show ?thesis by (auto simp: sweep_decisions_def)
  next
    case (Inr overdue)
    obtain c w2 where c: "claim_decisions env overdue w = (c, w2)" by fastforce
    note claimed = claim_decisions_free [OF assms(1) c, of k]
    have b2: "once_more k h n w2" using assms(2) claimed by (auto simp: once_more_def)
    show ?thesis
    proof (cases c)
      case (Inl e)
      with assms(3) o w1 \<open>o1 = Inr overdue\<close> c b2 show ?thesis by (auto simp: sweep_decisions_def andThen_def)
    next
      case c': (Inr recent)
      obtain a w3 where a: "apply_silence env (set recent) w2 = (a, w3)" by fastforce
      note l3 = ledger_same [OF apply_silence_ledger [OF a]]
      show ?thesis
      proof (cases a)
        case (Inl e)
        with assms(3) o w1 \<open>o1 = Inr overdue\<close> c c' a b2 l3 show ?thesis by (auto simp: sweep_decisions_def andThen_def)
      next
        case a': (Inr outs)
        let ?silent = "filter (\<lambda>p. pr_id p \<notin> set recent \<and> (pr_default p = [] \<or>
            pr_id p \<in> set (map so_proposal (filter (\<lambda>out. so_outcome out = SlaRefused) outs)))) overdue"
        let ?applied = "map (default_record env) (filter (\<lambda>out. so_outcome out \<noteq> SlaRefused) outs)"
        obtain r w4 where r: "ping_decisions env ?silent w3 = (r, w4)" by fastforce
        have "fw_ledger w4 = fw_ledger w3" using framed_ledger [OF framed_pings, of env ?silent w3] r by simp
        note l4 = ledger_same [OF this]
        have w': "w' = w4" "res = (case r of Inl e \<Rightarrow> Inl e | Inr pings \<Rightarrow> Inr (int (length overdue), ?applied @ pings))"
          using assms(3) o w1 \<open>o1 = Inr overdue\<close> c c' a a' r
          by (auto simp: sweep_decisions_def andThen_def Let_def pass_def split: sum.splits)
        have "fresh_records k h n (?applied @ pings) w4" if "r = Inr pings" for pings
        proof -
          have "fw_work w2 = fw_work w" using claimed by simp
          with o w1 Inr have "overdue_decisions (ae_time (xe_auth (fe_exec env))) (sweep_seconds env) 200
              (wk_staff (fw_work w2)) = Some overdue"
            by (auto simp: overdue_now_def split: option.splits)
          with a a' have outs: "map so_proposal outs =
              map pr_id (filter (\<lambda>p. pr_default p \<noteq> [] \<and> pr_id p \<notin> set recent) overdue)"
            by (auto simp: apply_silence_def on_staff_def apply_decision_defaults_def sla_env_def
                split: prod.splits sum.splits dest: apply_defaults_named)
          have "named k (map lr_target (?applied @ pings)) \<le>
              (if k \<notin> set recent \<and> k \<in> set (map pr_id overdue) then 1 else 0)"
            using claimed c' ping_decisions_targets [of env ?silent w3 pings w4] r that
            by (intro decisions_named_once [OF outs]) auto
          moreover have "acted k w4 \<le> n \<and> held h k w4" if "k \<notin> set recent" "k \<in> set (map pr_id overdue)"
            using claimed c' that assms(2) by (auto simp: l3 l4 once_more_def)
          ultimately show ?thesis by (auto simp: fresh_records_def split: if_splits)
        qed
        with w' b2 l3 l4 show ?thesis by (auto split: sum.splits)
      qed
    qed
  qed
qed

lemma persist_fresh:
  assumes "once_more k h n w" and "fresh_records k h n rs w"
  shows "once_more k h n (snd (persist_all rs w))"
proof -
  obtain x w' where p: "persist_all rs w = (x, w')" by fastforce
  from persist_all_acted [OF p, of h k] assms show ?thesis by (auto simp: p once_more_def fresh_records_def)
qed

lemma keeps_sweep:
  assumes "within_window h env" and "once_more k h n w"
  shows "once_more k h n (snd (sweep env w))"
proof -
  let ?w = "w\<lparr>fw_last_sweep := Some (fe_now env)\<rparr>"
  have b0: "once_more k h n ?w" using assms(2) by (simp add: once_more_def acted_def held_def)
  obtain x w1 where s: "sweep_items env (active_items 200 None (wk_rows (fw_work w))) no_backlog ?w = (x, w1)" by fastforce
  have b1: "once_more k h n w1" using keeps_boundD [OF keeps_sweep_items [OF assms(1)] b0] s by (metis snd_conv)
  show ?thesis
  proof (cases x)
    case (Inl e)
    with s b1 show ?thesis by (simp add: sweep_def andThen_def)
  next
    case (Inr br)
    obtain b rs where br: "br = (b, rs)" by fastforce
    obtain y w2 where d: "sweep_decisions env w1 = (y, w2)" by fastforce
    note d2 = sweep_decisions_bound [OF assms(1) b1 d]
    show ?thesis
    proof (cases y)
      case (Inl e)
      with s Inr br d d2 show ?thesis by (simp add: sweep_def andThen_def)
    next
      case y: (Inr mds)
      obtain m ds where mds: "mds = (m, ds)" by fastforce
      have "snd (sweep env w) = snd (persist_all ds w2)"
        using s Inr br d y mds by (auto simp: sweep_def andThen_def Let_def pass_def split: prod.split sum.split)
      with persist_fresh [of k h n w2 ds] d2 y mds show ?thesis by simp
    qed
  qed
qed

text \<open>Sweeps of any workers, checks of single items beside them, and whatever happens to items and runs meanwhile.\<close>

datatype followup_op =
    FoSweep followup_env
  | FoCheck followup_env work_item
  | FoItem item_op
  | FoRun run_op

fun followup_step :: "followup_op \<Rightarrow> followup_world \<Rightarrow> followup_world" where
  "followup_step (FoSweep env) w = snd (sweep env w)"
| "followup_step (FoCheck env item) w = snd (check_item env item w)"
| "followup_step (FoItem op) w = w\<lparr>fw_work := item_step op (fw_work w)\<rparr>"
| "followup_step (FoRun op) w = w\<lparr>fw_runs := run_op_step op (fw_runs w)\<rparr>"

fun op_within :: "int \<Rightarrow> followup_op \<Rightarrow> bool" where
  "op_within h (FoSweep env) = within_window h env"
| "op_within h (FoCheck env item) = within_window h env"
| "op_within h _ = True"

lemma once_more_beside [simp]:
  "once_more k h n (w\<lparr>fw_work := s\<rparr>) = once_more k h n w" "once_more k h n (w\<lparr>fw_runs := r\<rparr>) = once_more k h n w"
  by (simp_all add: once_more_def acted_def held_def)

lemma once_more_run: "list_all (op_within h) ops \<Longrightarrow> once_more k h n w \<Longrightarrow> once_more k h n (fold followup_step ops w)"
proof (induction ops arbitrary: w)
  case (Cons op ops)
  then have "once_more k h n (followup_step op w)"
    by (cases op) (simp_all add: keeps_sweep keeps_boundD [OF keeps_check_item])
  with Cons show ?case by simp
qed simp

text \<open>C29: Within one window of the sweep interval at most one follow-up action is recorded for a work item or a
  proposal, however many workers sweep, in whatever order, and whatever happens to items and runs meanwhile.\<close>

theorem one_action_per_window:
  assumes "list_all (op_within h) ops"
  shows "acted k (fold followup_step ops w) \<le> acted k w + 1"
proof -
  have "once_more k h (acted k w) w" by (simp add: once_more_def)
  from once_more_run [OF assms this] show ?thesis by (auto simp: once_more_def)
qed

section \<open>Deadlines that do not parse\<close>

lemma frame_parts: "framed m \<Longrightarrow> m w = (x, w') \<Longrightarrow>
    fw_ledger w' = fw_ledger w \<and> ps_rows (wk_staff (fw_work w')) = ps_rows (wk_staff (fw_work w))"
  using framedD [of m w] by (simp add: frame_def)

text \<open>A check adds records of its own item only, and touches no proposal.\<close>

lemma check_item_acted:
  assumes "check_item env item w = (y, w')"
  shows "(\<forall>k. k \<noteq> wi_id item \<longrightarrow> acted k w' = acted k w) \<and>
    ps_rows (wk_staff (fw_work w')) = ps_rows (wk_staff (fw_work w))"
proof -
  obtain c w1 where c: "claim_target env (wi_id item) ''work_item'' w = (c, w1)" by fastforce
  then have one: "acted k w1 = acted k w" "fw_work w1 = fw_work w" for k
    by (auto simp: claim_target_def acted_def claim_check_def split: option.splits if_splits)
  show ?thesis
  proof (cases "c = Inr True")
    case False
    with assms c one show ?thesis by (cases c) (auto simp: check_item_def andThen_def pass_def)
  next
    case True
    obtain p w2 where p: "process_item env item w1 = (p, w2)" by fastforce
    note two = frame_parts [OF framed_process p]
    show ?thesis
    proof (cases p)
      case (Inl e)
      with assms c True p one two show ?thesis by (auto simp: check_item_def andThen_def acted_def)
    next
      case (Inr r)
      show ?thesis
      proof (cases r)
        case None
        with assms c True p Inr one two show ?thesis
          by (auto simp: check_item_def andThen_def release_target_def pass_def acted_def release_check_def)
      next
        case (Some rec)
        then have "lr_target rec = wi_id item" using p Inr process_target by blast
        with assms c True p Inr Some one two show ?thesis
          by (auto simp: check_item_def andThen_def persist_def pass_def acted_def add_record_def
              split: option.splits if_splits)
      qed
    qed
  qed
qed

lemma sweep_items_stopped:
  assumes "wi_expected i = Some d" and "past_due (fe_iso env) i" and "ae_time (xe_auth (fe_exec env)) d = None"
    and "\<And>x. x \<in> set pre \<Longrightarrow> \<not> past_due (fe_iso env) x" and "bk_oldest b = None"
    and "sweep_items env (pre @ i # post) b w = (res, w')"
  shows "(\<exists>e. res = Inl e) \<and> (\<forall>k. k \<notin> wi_id ` set pre \<longrightarrow> acted k w' = acted k w) \<and>
    ps_rows (wk_staff (fw_work w')) = ps_rows (wk_staff (fw_work w))"
  using assms(4-6)
proof (induction pre arbitrary: b w res w')
  case Nil
  with assms(1-3) show ?case by (auto simp: observe_def past_due_def Let_def split: if_splits)
next
  case (Cons x pre)
  have "\<exists>b1. observe (ae_time (xe_auth (fe_exec env))) (fe_iso env) (sweep_seconds env) (wi_expected x) b = Some b1 \<and>
      bk_oldest b1 = None"
    using Cons.prems(1) [of x] Cons.prems(2) by (auto simp: observe_def past_due_def Let_def split: option.splits)
  then obtain b1 where b1: "observe (ae_time (xe_auth (fe_exec env))) (fe_iso env) (sweep_seconds env) (wi_expected x) b = Some b1"
    "bk_oldest b1 = None" by blast
  obtain y w1 where y: "check_item env x w = (y, w1)" by fastforce
  have one: "acted k w1 = acted k w" if "k \<noteq> wi_id x" for k
    using check_item_acted [OF y] that by simp
  have rows: "ps_rows (wk_staff (fw_work w1)) = ps_rows (wk_staff (fw_work w))" using check_item_acted [OF y] by simp
  show ?case
  proof (cases y)
    case (Inl e)
    with Cons.prems(3) b1 y one rows show ?thesis by (auto simp: andThen_def)
  next
    case (Inr rs)
    obtain z w2 where z: "sweep_items env (pre @ i # post) b1 w1 = (z, w2)" by fastforce
    from Cons.IH [OF _ b1(2) z] Cons.prems(1) have IH: "\<exists>e. z = Inl e"
      "\<And>k. k \<notin> wi_id ` set pre \<Longrightarrow> acted k w2 = acted k w1"
      "ps_rows (wk_staff (fw_work w2)) = ps_rows (wk_staff (fw_work w1))" by auto
    with Cons.prems(3) b1 y Inr z have "res = z" "w' = w2" by (auto simp: andThen_def)
    with IH one rows show ?thesis by auto
  qed
qed

text \<open>C30: One overdue work item whose deadline does not parse stops the engine: while it is the earliest overdue item of
  the walk every sweep raises, no item behind it and no decision gets its follow-up, and no default is applied.\<close>

theorem unreadable_deadline_stops_sweep:
  assumes "active_items 200 None (wk_rows (fw_work w)) = pre @ i # post"
    and "wi_expected i = Some d" and "past_due (fe_iso env) i" and "ae_time (xe_auth (fe_exec env)) d = None"
    and "\<And>x. x \<in> set pre \<Longrightarrow> \<not> past_due (fe_iso env) x" and "k \<notin> wi_id ` set pre"
  shows "isl (fst (sweep env w)) \<and> acted k (snd (sweep env w)) = acted k w \<and>
    ps_rows (wk_staff (fw_work (snd (sweep env w)))) = ps_rows (wk_staff (fw_work w))"
proof -
  let ?w = "w\<lparr>fw_last_sweep := Some (fe_now env)\<rparr>"
  obtain res w' where s: "sweep_items env (pre @ i # post) no_backlog ?w = (res, w')" by fastforce
  have "bk_oldest no_backlog = None" by (simp add: no_backlog_def)
  from sweep_items_stopped [OF assms(2-5) this s] obtain e where r: "res = Inl e" "acted k w' = acted k ?w"
    "ps_rows (wk_staff (fw_work w')) = ps_rows (wk_staff (fw_work w))" using assms(6) by auto
  then have "sweep env w = (Inl e, w')" using s assms(1) by (simp add: sweep_def andThen_def)
  with r show ?thesis by (simp add: acted_def)
qed

section \<open>Samples\<close>

definition sample_followup :: "string \<Rightarrow> role_spec \<Rightarrow> int \<Rightarrow> followup_env" where
  "sample_followup worker role now =
     \<lparr>fe_worker = worker, fe_now = now, fe_iso = ''2027'', fe_clock = ''2027'', fe_day_start = ''2026'', fe_interval = 300,
      fe_roles = [''dev''], fe_retry = sample_retry_env role, fe_exec = sample_exec True, fe_error_text = (\<lambda>_. ''refused''),
      fe_refusal = (\<lambda>_. ''refused''), fe_body = (\<lambda>_. ''note''), fe_record_id = (\<lambda>k. worker @ k),
      fe_message_id = (\<lambda>k. CHR ''n'' # k), fe_card_id = (\<lambda>k. CHR ''m'' # k), fe_thread_id = ''barb''\<rparr>"

definition sample_followup_world :: "work_item list \<Rightarrow> staff_world \<Rightarrow> followup_world" where
  "sample_followup_world items runs =
     \<lparr>fw_runs = runs, fw_work = item_world\<lparr>wk_rows := items\<rparr>, fw_ledger = \<lparr>lg_checks = [], lg_records = []\<rparr>,
      fw_pushes = [], fw_alerts = [], fw_last_sweep = None\<rparr>"

definition two_sweeps :: "followup_op list" where
  "two_sweeps = [FoSweep (sample_followup ''v'' sample_role 1), FoItem (ItLink ''2027'' ''b'' ''prs'' ''#3''),
     FoSweep (sample_followup ''w'' sample_role 2), FoCheck (sample_followup ''v'' sample_role 3) (sample_item ''b'' WiOpen None)]"

lemma one_action_per_window_witness:
  "acted ''b'' (fold followup_step two_sweeps (sample_followup_world sample_items empty_world)) \<le>
     acted ''b'' (sample_followup_world sample_items empty_world) + 1"
  by (rule one_action_per_window [where h = "300000000"])
    (simp add: two_sweeps_def within_window_def sample_followup_def)

definition misdated :: "work_item list" where
  "misdated = [sample_item ''a'' WiOpen (Some []), sample_item ''b'' WiInProgress (Some ''2026-x''),
     sample_item ''c'' WiInProgress (Some ''2026-y'')]"

lemma misdated_walk: "active_items 200 None misdated = [sample_item ''a'' WiOpen (Some [])] @
    sample_item ''b'' WiInProgress (Some ''2026-x'') # [sample_item ''c'' WiInProgress (Some ''2026-y'')]"
  by code_simp

lemma unreadable_deadline_stops_sweep_witness:
  "isl (fst (sweep (sample_followup ''v'' sample_role 1) (sample_followup_world misdated empty_world))) \<and>
   acted ''c'' (snd (sweep (sample_followup ''v'' sample_role 1) (sample_followup_world misdated empty_world))) =
     acted ''c'' (sample_followup_world misdated empty_world) \<and>
   ps_rows (wk_staff (fw_work (snd (sweep (sample_followup ''v'' sample_role 1) (sample_followup_world misdated empty_world))))) =
     ps_rows (wk_staff (fw_work (sample_followup_world misdated empty_world)))"
proof (rule unreadable_deadline_stops_sweep)
  show "active_items 200 None (wk_rows (fw_work (sample_followup_world misdated empty_world))) =
      [sample_item ''a'' WiOpen (Some [])] @
      sample_item ''b'' WiInProgress (Some ''2026-x'') # [sample_item ''c'' WiInProgress (Some ''2026-y'')]"
    by (simp add: sample_followup_world_def misdated_walk [simplified])
  show "wi_expected (sample_item ''b'' WiInProgress (Some ''2026-x'')) = Some ''2026-x''" by (simp add: sample_item_def)
  show "past_due (fe_iso (sample_followup ''v'' sample_role 1)) (sample_item ''b'' WiInProgress (Some ''2026-x''))"
    by code_simp
  show "ae_time (xe_auth (fe_exec (sample_followup ''v'' sample_role 1))) ''2026-x'' = None" by code_simp
  show "\<not> past_due (fe_iso (sample_followup ''v'' sample_role 1)) x" if "x \<in> set [sample_item ''a'' WiOpen (Some [])]" for x
    using that by (simp add: past_due_def sample_item_def)
  show "''c'' \<notin> wi_id ` set [sample_item ''a'' WiOpen (Some [])]" by (simp add: sample_item_def)
qed

end
