(* ===== verification/Escalations.thy ===== *)
theory Escalations
  imports Sweep_Facts Retry_Bounds
begin

text \<open>
  More of the sweeps: a sweep that returns has reached every item that needs something; and what becomes of an item
  that is escalated while its next attempt is under way, or whose escalation cannot be audited.
\<close>

section \<open>A sweep that returns has reached everything\<close>

text \<open>What makes an item need a follow-up whatever its runs do.\<close>

definition needs_followup :: "followup_env \<Rightarrow> work_item \<Rightarrow> bool" where
  "needs_followup env item =
     (wi_state item = WiWaitingOnUser \<or> wi_owner item \<noteq> [] \<and> wi_owner item \<notin> set (known_roles env) \<or>
      past_due (fe_iso env) item)"

lemma took_some: "andThen m (\<lambda>r. pass (Some r)) w = (Inr x, w') \<Longrightarrow> x \<noteq> None"
  by (auto simp: andThen_Inr_iff pass_def)

lemma needed_is_handled:
  "needs_followup env item \<Longrightarrow> process_item env item w = (Inr x, w') \<Longrightarrow> x \<noteq> None"
  unfolding process_item_def Let_def needs_followup_def
  by (auto split: option.splits if_splits dest: took_some)

lemma check_due_claim:
  "claim_target env target kind w = (x, w') \<Longrightarrow> k \<noteq> target \<Longrightarrow> check_due k now (fw_ledger w') = check_due k now (fw_ledger w)"
  by (auto simp: claim_target_def claim_check_def check_due_def table_simps split: option.splits if_splits)

lemma check_due_record:
  "add_record r l = Some l' \<Longrightarrow> k \<noteq> lr_target r \<Longrightarrow> check_due k now l' = check_due k now l"
  by (auto simp: add_record_def check_due_def table_simps split: if_splits)

lemma check_due_release:
  "k \<noteq> target \<Longrightarrow> check_due k now (release_check target t worker l) = check_due k now l"
  by (simp add: release_check_def check_due_def table_simps)

lemma check_item_due:
  assumes "check_item env item w = (y, w')" and "k \<noteq> wi_id item"
  shows "check_due k now (fw_ledger w') = check_due k now (fw_ledger w)"
proof -
  obtain c w1 where c: "claim_target env (wi_id item) ''work_item'' w = (c, w1)" by fastforce
  note one = check_due_claim [OF c assms(2), of now]
  show ?thesis
  proof (cases "c = Inr True")
    case False
    with assms c one show ?thesis by (cases c) (auto simp: check_item_def andThen_def pass_def)
  next
    case True
    obtain p w2 where p: "process_item env item w1 = (p, w2)" by fastforce
    have two: "fw_ledger w2 = fw_ledger w1" using frame_parts [OF framed_process p] by simp
    show ?thesis
    proof (cases p)
      case (Inl e)
      with assms c True p one two show ?thesis by (auto simp: check_item_def andThen_def)
    next
      case (Inr r)
      show ?thesis
      proof (cases r)
        case None
        with assms c True p Inr one two show ?thesis
          by (auto simp: check_item_def andThen_def release_target_def pass_def check_due_release)
      next
        case (Some rec)
        then have "lr_target rec = wi_id item" using p Inr process_target by blast
        with assms c True p Inr Some one two show ?thesis
          by (auto simp: check_item_def andThen_def persist_def pass_def check_due_record split: option.splits)
      qed
    qed
  qed
qed

lemma due_item_recorded:
  assumes "check_item env item w = (Inr rs, w')" and "needs_followup env item" and "check_due (wi_id item) (fe_now env) (fw_ledger w)"
  shows "\<exists>r. rs = [r] \<and> lr_target r = wi_id item"
proof -
  obtain c w1 where c: "claim_target env (wi_id item) ''work_item'' w = (c, w1)" by fastforce
  with assms(1) obtain g where g: "c = Inr g" by (cases c) (auto simp: check_item_def andThen_def)
  with c assms(3) have "g" by (auto simp: claim_target_def claim_check_def check_due_def split: option.splits if_splits)
  obtain p w2 where p: "process_item env item w1 = (p, w2)" by fastforce
  from assms(1) c g \<open>g\<close> p obtain r where r: "p = Inr r" by (cases p) (auto simp: check_item_def andThen_def)
  with p needed_is_handled [OF assms(2)] obtain rec where rec: "r = Some rec" by blast
  with p r have "lr_target rec = wi_id item" using process_target by blast
  moreover from assms(1) c g \<open>g\<close> p r rec have "rs = [rec]"
    by (auto simp: check_item_def andThen_def persist_def pass_def split: option.splits)
  ultimately show ?thesis by blast
qed

lemma sweep_items_reach:
  assumes "needs_followup env item"
  shows "sweep_items env items b w = (Inr (b', rs), w') \<Longrightarrow> item \<in> set items \<Longrightarrow>
    (\<And>x. x \<in> set items \<Longrightarrow> wi_id x = wi_id item \<Longrightarrow> x = item) \<Longrightarrow>
    check_due (wi_id item) (fe_now env) (fw_ledger w) \<Longrightarrow> \<exists>r \<in> set rs. lr_target r = wi_id item"
proof (induction items arbitrary: b w b' rs w')
  case (Cons x items)
  from Cons.prems(1) obtain b1 where b1:
    "observe (ae_time (xe_auth (fe_exec env))) (fe_iso env) (sweep_seconds env) (wi_expected x) b = Some b1"
    by (auto split: option.splits)
  obtain y w1 where y: "check_item env x w = (y, w1)" by fastforce
  from Cons.prems(1) b1 y obtain rs1 rs2 where rs: "y = Inr rs1" "sweep_items env items b1 w1 = (Inr (b', rs2), w')" "rs = rs1 @ rs2"
    by (auto simp: andThen_Inr_iff pass_def split: prod.splits)
  show ?case
  proof (cases "x = item")
    case True
    with due_item_recorded [of env item w rs1 w1] y rs assms Cons.prems(4) show ?thesis by auto
  next
    case False
    then have other: "wi_id item \<noteq> wi_id x" using Cons.prems(3) [of x] by auto
    have "\<exists>r \<in> set rs2. lr_target r = wi_id item"
      using Cons.prems False check_item_due [OF y other] by (intro Cons.IH [OF rs(2)]) auto
    with rs show ?thesis by auto
  qed
qed simp

text \<open>C31: A sweep that returns has recorded a follow-up for every work item of the walk that was due for a check and
  waits for the user, has an owner that is no known role, or is past its deadline; an item without an owner is not
  followed up for that.\<close>

theorem returning_sweep_reaches_all:
  assumes "sweep env w = (Inr res, w')" and "keyed wi_id (wk_rows (fw_work w))"
    and "item \<in> set (active_items 200 None (wk_rows (fw_work w)))"
    and "check_due (wi_id item) (fe_now env) (fw_ledger w)" and "needs_followup env item"
  shows "list_ex (\<lambda>r. lr_target r = wi_id item) (sr_followups res)"
proof -
  let ?w = "w\<lparr>fw_last_sweep := Some (fe_now env)\<rparr>" and ?items = "active_items 200 None (wk_rows (fw_work w))"
  obtain b rs w1 where s: "sweep_items env ?items no_backlog ?w = (Inr (b, rs), w1)" and "set rs \<subseteq> set (sr_followups res)"
    using assms(1) by (auto simp: sweep_def andThen_Inr_iff pass_def Let_def split: prod.splits)
  moreover have "x = item" if "x \<in> set ?items" "wi_id x = wi_id item" for x
    using that assms(2,3) active_walk.walk_behind
    by (auto simp: keyed_def distinct_map inj_on_def)
  ultimately show ?thesis
    using sweep_items_reach [OF assms(5) s assms(3)] assms(4) by (auto simp: list_ex_iff)
qed

definition quiet_world :: followup_world where
  "quiet_world = sample_followup_world [sample_item ''b'' WiInProgress (Some ''2026'')] empty_world"

lemma quiet_returns: "\<not> isl (fst (sweep (sample_followup ''v'' sample_role 1) quiet_world))"
  by code_simp

lemma returning_sweep_reaches_all_witness:
  "case sweep (sample_followup ''v'' sample_role 1) quiet_world of
     (Inr res, w') \<Rightarrow> list_ex (\<lambda>r. lr_target r = wi_id (sample_item ''b'' WiInProgress (Some ''2026''))) (sr_followups res)
   | _ \<Rightarrow> False"
proof -
  obtain x w' where s: "sweep (sample_followup ''v'' sample_role 1) quiet_world = (x, w')" by fastforce
  with quiet_returns obtain res where x: "x = Inr res" by (cases x) auto
  have "list_ex (\<lambda>r. lr_target r = wi_id (sample_item ''b'' WiInProgress (Some ''2026''))) (sr_followups res)"
  proof (rule returning_sweep_reaches_all [OF s [unfolded x]])
    show "keyed wi_id (wk_rows (fw_work quiet_world))" by code_simp
    show "sample_item ''b'' WiInProgress (Some ''2026'') \<in> set (active_items 200 None (wk_rows (fw_work quiet_world)))"
      by code_simp
    show "check_due (wi_id (sample_item ''b'' WiInProgress (Some ''2026''))) (fe_now (sample_followup ''v'' sample_role 1))
        (fw_ledger quiet_world)" by code_simp
    show "needs_followup (sample_followup ''v'' sample_role 1) (sample_item ''b'' WiInProgress (Some ''2026''))" by code_simp
  qed
  with s x show ?thesis by simp
qed

section \<open>Escalated items\<close>

text \<open>What the posting of messages leaves alone: the items and the runs.\<close>

definition posts :: "'a act \<Rightarrow> bool" where
  "posts m = (\<forall>w. wk_rows (fw_work (snd (m w))) = wk_rows (fw_work w) \<and> fw_runs (snd (m w)) = fw_runs w)"

lemma posts_andThen: "posts m \<Longrightarrow> (\<And>x. posts (f x)) \<Longrightarrow> posts (andThen m f)"
  by (simp add: posts_def andThen_def split: prod.split sum.split) (metis snd_conv)

lemma posts_basic:
  "posts (pass x)" "posts (on_conv g)" "posts (write_note a)" "posts (push_note t)" "posts (followup_audit action target thread d)"
  by (auto simp: posts_def pass_def on_conv_def write_note_def push_note_def followup_audit_def on_staff_def split: prod.split)

lemma posts_say: "posts (say env target n meta)"
proof -
  have "posts (create_barb_thread env)"
    unfolding create_barb_thread_def
    by (intro posts_andThen posts_basic) (auto simp: posts_def on_staff_def split_def)
  then have "posts (barb_thread env)" by (simp add: posts_def barb_thread_def split: option.split)
  then show ?thesis unfolding say_def by (intro posts_andThen posts_basic)
qed

lemma active_may_escalate: "item_active r \<Longrightarrow> WiEscalated \<in> set (item_transitions (wi_state r))"
  by (cases "wi_state r") (simp_all add: item_active_def terminal_states_def)

text \<open>An active item is escalated even when the audit row of the change cannot be written.\<close>

lemma transition_escalates:
  assumes "get_work_item k s = Some r" and "item_active r"
  shows "state_of k (snd (transition_state now k ''escalated'' actor reason s)) = Some WiEscalated"
proof -
  have "item_state_of ''escalated'' = Some WiEscalated" by code_simp
  moreover have "state_of k (change_item k (\<lambda>r. r\<lparr>wi_state := WiEscalated, wi_progress_at := now, wi_updated_at := now\<rparr>) s) =
      Some WiEscalated" using assms(1) by (simp add: state_of_def)
  ultimately show ?thesis
    using assms active_may_escalate by (auto simp: transition_state_def state_of_def get_work_item_def dest: staff_write_rows split: prod.split)
qed

lemma escalate_item_state:
  assumes "get_work_item (wi_id item) (fw_work w) = Some item" and "item_active item"
  shows "state_of (wi_id item) (fw_work (snd (escalate_item env item run cond why w))) = Some WiEscalated \<and>
    fw_runs (snd (escalate_item env item run cond why w)) = fw_runs w"
proof -
  have rest: "posts (andThen (say env target n meta) (\<lambda>_. andThen (push_note t) (\<lambda>_. andThen (followup_audit a target th d) (\<lambda>_. pass r))))"
    for target n meta t a th d and r :: ledger_record by (intro posts_andThen posts_say posts_basic)
  obtain x w1 where t: "on_work (transition_state (fe_clock env) (wi_id item) ''escalated'' ''barb''
             (''Run '' @ sf_id run @ '' '' @ cond @ '' after '' @ int_text (sf_attempt run) @ '' attempts; not retried: ''
                @ fe_refusal env why)) w = (x, w1)" by fastforce
  then have w1: "state_of (wi_id item) (fw_work w1) = Some WiEscalated" "fw_runs w1 = fw_runs w"
    using transition_escalates [OF assms] by (auto simp: on_work_def split: prod.splits) (metis snd_conv)
  show ?thesis
  proof (cases x)
    case (Inl e)
    with t w1 show ?thesis by (simp add: escalate_item_def Let_def andThen_def)
  next
    case (Inr y)
    with t have "escalate_item env item run cond why w = andThen (say env (wi_id item) (RunEscalated item run cond)
             [(''escalation_type'', JStr cond), (''item_id'', JStr (wi_id item)), (''run_id'', JStr (sf_id run))]) (\<lambda>_.
         andThen (push_note (''Barb Escalation: '' @ wi_title item)) (\<lambda>_.
         andThen (followup_audit ''barb_followup_escalate'' (wi_id item) (wi_thread item)
           [(''run_id'', JStr (sf_id run)), (''attempts'', JInt (sf_attempt run)), (''retry_refused'', JStr (fe_refusal env why))]) (\<lambda>_.
         pass (mk_record env (wi_id item) ''work_item'' cond ''escalate''
           [(''run_id'', JStr (sf_id run)), (''attempts'', JInt (sf_attempt run)), (''retry_refused'', JStr (fe_refusal env why))])))) w1"
      by (simp add: escalate_item_def Let_def andThen_Inr)
    with rest w1 show ?thesis by (simp add: posts_def state_of_def get_work_item_def)
  qed
qed

lemma last_run_id: "last_run item runs = Some r \<Longrightarrow> get_run (sf_id r) runs = Some r"
  by (auto simp: last_run_def get_run_def split: list.splits) (metis row_lookup_SomeD)+

lemma failover_classes_refused:
  assumes "get_run rid w = Some r" and "sf_class r \<in> {''provider_capacity'', ''quota_exhausted''}"
  shows "\<exists>why. launch_retry env rid [''stalled''] w = (RetryRefused why, w)"
  using assms by (auto simp: launch_retry_def should_retry_def Let_def split: option.split)

text \<open>A work item whose last run failed for want of capacity or quota is escalated by the next sweep, even while the
  attempt on another provider is in the hands of its worker, and nothing that attempt does brings the item back.\<close>

theorem failover_item_escalates:
  assumes "get_work_item (wi_id item) (fw_work w) = Some item" and "item_active item"
    and "last_run item (fw_runs w) = Some r" and "sf_status r = RunFailed"
    and "sf_class r \<in> {''provider_capacity'', ''quota_exhausted''}"
  shows "fw_runs (snd (process_item env item w)) = fw_runs w \<and>
    state_of (wi_id item) (fold (\<lambda>(now, e). update_linked_work_item now e) es (fw_work (snd (process_item env item w))))
      = Some WiEscalated"
proof -
  obtain why where why: "launch_retry (fe_retry env) (sf_id r) [''stalled''] (fw_runs w) = (RetryRefused why, fw_runs w)"
    using failover_classes_refused [OF last_run_id [OF assms(3)] assms(5)] by blast
  have "process_item env item w = andThen (handle_failed_run env item r ''failed'') (\<lambda>r. pass (Some r)) w"
    using assms(3-5) by (auto simp: process_item_def Let_def)
  moreover have "handle_failed_run env item r ''failed'' w = escalate_item env item r ''failed'' why w"
    by (simp add: handle_failed_run_def Let_def why)
  ultimately have same: "snd (process_item env item w) = snd (escalate_item env item r ''failed'' why w)"
    by (auto simp: andThen_def pass_def split: prod.split sum.split)
  have "state_of k (fold (\<lambda>(now, e). update_linked_work_item now e) es s) = Some WiEscalated"
    if "state_of k s = Some WiEscalated" for k s
    using that by (induction es arbitrary: s) (auto simp: escalated_stays_put)
  with escalate_item_state [OF assms(1,2)] show ?thesis unfolding same by simp
qed

text \<open>A run out of capacity, its fallback attempt handed to a worker, and the item both are linked to.\<close>

definition capacity_role :: role_spec where
  "capacity_role = sample_role\<lparr>rk_rules := [\<lparr>fr_when = [''provider_capacity''], fr_from = None,
     fr_target = \<lparr>fs_provider = ''codex'', fs_model = None\<rparr>\<rparr>]\<rparr>"

definition capacity_runs :: staff_world where
  "capacity_runs = snd (finish_worker (sample_retry_env capacity_role) ''r1'' sample_launch
     (failed_end ''provider_capacity'') running_world)"

definition linked_item :: work_item where
  "linked_item = (sample_item ''w1'' WiInProgress None)\<lparr>wi_links := [(''runs'', [''r1''])]\<rparr>"

definition capacity_world :: followup_world where
  "capacity_world = sample_followup_world [linked_item] capacity_runs"

lemma failover_item_escalates_witness:
  "worker_of ''r1-a2'' (fw_runs capacity_world) \<noteq> None \<and>
   fw_runs (snd (process_item (sample_followup ''v'' capacity_role 1) linked_item capacity_world)) = fw_runs capacity_world \<and>
   state_of (wi_id linked_item) (fold (\<lambda>(now, e). update_linked_work_item now e)
     [(''u'', \<lparr>rn_run = ''r1-a2'', rn_item = ''w1'', rn_role = ''dev'', rn_status = ''succeeded'', rn_artifact = ''pr_merged''\<rparr>)]
     (fw_work (snd (process_item (sample_followup ''v'' capacity_role 1) linked_item capacity_world)))) = Some WiEscalated"
proof -
  have w: "worker_of ''r1-a2'' (fw_runs capacity_world) \<noteq> None"
    and "get_work_item (wi_id linked_item) (fw_work capacity_world) = Some linked_item" "item_active linked_item"
    by code_simp+
  moreover have "case last_run linked_item (fw_runs capacity_world) of None \<Rightarrow> False
      | Some r \<Rightarrow> sf_status r = RunFailed \<and> sf_class r = ''provider_capacity''" by code_simp
  then obtain r where "last_run linked_item (fw_runs capacity_world) = Some r" "sf_status r = RunFailed"
    "sf_class r \<in> {''provider_capacity'', ''quota_exhausted''}" by (auto split: option.splits)
  ultimately show ?thesis using failover_item_escalates [of linked_item capacity_world r] by blast
qed

text \<open>An escalation whose audit row cannot be written: the item is closed to every later sweep, and nobody is told.\<close>

lemma escalation_lost:
  assumes "get_work_item (wi_id item) (fw_work w) = Some item" and "item_active item"
    and "ps_faults (wk_staff (fw_work w)) = True # fs"
  shows "fst (escalate_item env item run cond why w) = Inl (ItemRaised ItemAuditFailed) \<and>
    state_of (wi_id item) (fw_work (snd (escalate_item env item run cond why w))) = Some WiEscalated \<and>
    ps_conv (wk_staff (fw_work (snd (escalate_item env item run cond why w)))) = ps_conv (wk_staff (fw_work w)) \<and>
    fw_pushes (snd (escalate_item env item run cond why w)) = fw_pushes w"
proof -
  have known: "item_state_of ''escalated'' = Some WiEscalated" "''work_item_transition'' \<in> set mutating_actions" by code_simp+
  obtain x s where t: "transition_state (fe_clock env) (wi_id item) ''escalated'' ''barb''
             (''Run '' @ sf_id run @ '' '' @ cond @ '' after '' @ int_text (sf_attempt run) @ '' attempts; not retried: ''
                @ fe_refusal env why) (fw_work w) = (x, s)" by fastforce
  then have s: "x = Inl ItemAuditFailed" "ps_conv (wk_staff s) = ps_conv (wk_staff (fw_work w))"
    using assms active_may_escalate known
    by (auto simp: transition_state_def staff_write_def record_audit_def Let_def item_audit_def split: prod.splits)
  then have "escalate_item env item run cond why w = (Inl (ItemRaised ItemAuditFailed), w\<lparr>fw_work := s\<rparr>)"
    using t by (simp add: escalate_item_def Let_def andThen_def on_work_def)
  with s escalate_item_state [OF assms(1,2), of env run cond why] show ?thesis by simp
qed

lemma escalated_unseen:
  "state_of k s = Some WiEscalated \<Longrightarrow> keyed wi_id (wk_rows s) \<Longrightarrow> k \<notin> wi_id ` set (active_items page after (wk_rows s))"
  by (auto simp: state_of_def get_work_item_def active_after_def terminal_states_def row_lookup_Some_iff
      keyed_def distinct_map inj_on_def dest!: active_walk.walk_behind)

end
