(* ===== verification/Aging_Prs.thy ===== *)
theory Aging_Prs
  imports Prelude
begin

text \<open>
  The rule of old pull requests, \<open>backend/coordination/pr_age_rule.py\<close>: an agent with an open pull request of more than
  72 hours in a repository claims nothing there, unless the claim names its paths and the request touches none of them.
  GitHub's answers, the roster and the hours since an ISO text are arguments.
\<close>

section \<open>Pull requests and their owners\<close>

definition full_repo :: "string list \<Rightarrow> string" where
  "full_repo parts =
     (if 2 \<le> length parts then parts ! (length parts - 2) @ ''/'' @ parts ! (length parts - 1)
      else ''D-sorganization/'' @ last parts)"

text \<open>The parts of \<open>repo.strip().split("/")\<close>.\<close>

fun slash_parts :: "string \<Rightarrow> string list" where
  "slash_parts [] = [[]]"
| "slash_parts (c # cs) =
     (if c = CHR ''/'' then [] # slash_parts cs
      else case slash_parts cs of [] \<Rightarrow> [[c]] | p # ps \<Rightarrow> (c # p) # ps)"

definition repo_name :: "string \<Rightarrow> string" where
  "repo_name repo = full_repo (slash_parts (py_strip repo))"

record open_pull =
  op_number :: "int option"
  op_url :: string
  op_labels :: "string option list option"
  op_branch :: "string option"
  op_created :: string

text \<open>\<open>None\<close> for labels that are no list, for a label without a text, for a head without a branch. A read of GitHub raises
  a text, or answers \<open>None\<close> for a payload that is no list.\<close>

record 's pull_env =
  pe_open :: "string \<Rightarrow> 's \<Rightarrow> string + open_pull list option"
  pe_files :: "string \<Rightarrow> int option \<Rightarrow> 's \<Rightarrow> string + string list option"
  pe_agents :: "'s \<Rightarrow> string list"
  pe_hours :: "string \<Rightarrow> 's \<Rightarrow> rat option"

definition pr_age_rule_hours :: rat where
  "pr_age_rule_hours = 72"

definition normalize_agent :: "string \<Rightarrow> string" where
  "normalize_agent agent =
     (let l = py_lower (py_strip agent) in if l = ''cursor-agent'' then ''cursor'' else l)"

definition roster_has :: "string list \<Rightarrow> string \<Rightarrow> bool" where
  "roster_has agents candidate =
     (let l = map py_lower agents
      in candidate \<in> set l \<or> (candidate = ''cursor'' \<and> ''cursor-agent'' \<in> set l))"

definition label_agents :: "string option list \<Rightarrow> string list \<Rightarrow> string list" where
  "label_agents labels agents =
     filter (roster_has agents)
       (map (\<lambda>n. normalize_agent (drop 6 n)) (filter (\<lambda>n. py_startswith n ''agent:'') (List.map_filter id labels)))"

definition agent_from_labels :: "open_pull \<Rightarrow> string list \<Rightarrow> string option" where
  "agent_from_labels pr agents =
     (case op_labels pr of
        None \<Rightarrow> None
      | Some labels \<Rightarrow> (case remdups (label_agents labels agents) of [a] \<Rightarrow> Some a | _ \<Rightarrow> None))"

definition agent_from_branch :: "string \<Rightarrow> string list \<Rightarrow> string option" where
  "agent_from_branch branch agents =
     (if CHR ''/'' \<notin> set branch then None
      else let a = normalize_agent (py_lower (takeWhile (\<lambda>c. c \<noteq> CHR ''/'') branch))
           in if roster_has agents a then Some a else None)"

definition resolve_pr_owner :: "open_pull \<Rightarrow> string list \<Rightarrow> string option" where
  "resolve_pr_owner pr agents =
     (case agent_from_labels pr agents of
        Some (c # cs) \<Rightarrow> Some (c # cs)
      | _ \<Rightarrow> agent_from_branch (case op_branch pr of None \<Rightarrow> [] | Some b \<Rightarrow> b) agents)"

section \<open>The rule\<close>

record aging_hit =
  ag_repo :: string
  ag_number :: "int option"
  ag_url :: string
  ag_hours :: rat

text \<open>The age is rounded to one decimal, a half to the even digit; an unreadable text counts as fresh.\<close>

definition round_tenth :: "rat \<Rightarrow> rat" where
  "round_tenth x =
     (let t = \<lfloor>x * 10\<rfloor>; r = x * 10 - of_int t
      in of_int (if r < 1/2 \<or> (r = 1/2 \<and> even t) then t else t + 1) / 10)"

definition pr_age :: "'s pull_env \<Rightarrow> 's \<Rightarrow> open_pull \<Rightarrow> rat" where
  "pr_age env s pr = (case pe_hours env (op_created pr) s of None \<Rightarrow> 0 | Some h \<Rightarrow> round_tenth h)"

definition is_aging :: "'s pull_env \<Rightarrow> string \<Rightarrow> 's \<Rightarrow> open_pull \<Rightarrow> bool" where
  "is_aging env agent s pr =
     (resolve_pr_owner pr (pe_agents env s) = Some (normalize_agent agent) \<and> pr_age_rule_hours < pr_age env s pr)"

definition open_listing :: "'s pull_env \<Rightarrow> string \<Rightarrow> 's \<Rightarrow> open_pull list" where
  "open_listing env repo s = (case pe_open env (repo_name repo) s of Inr (Some prs) \<Rightarrow> prs | _ \<Rightarrow> [])"

definition aging_hit_of :: "'s pull_env \<Rightarrow> string \<Rightarrow> 's \<Rightarrow> open_pull \<Rightarrow> aging_hit" where
  "aging_hit_of env repo s pr =
     \<lparr>ag_repo = repo, ag_number = op_number pr, ag_url = op_url pr, ag_hours = pr_age env s pr\<rparr>"

definition list_aging_prs :: "'s pull_env \<Rightarrow> string \<Rightarrow> string list \<Rightarrow> 's \<Rightarrow> aging_hit list" where
  "list_aging_prs env agent repos s =
     sort_key (\<lambda>h. - ag_hours h)
       (concat (map (\<lambda>repo. map (aging_hit_of env repo s) (filter (is_aging env agent s) (open_listing env repo s))) repos))"

definition hit_path :: "string \<Rightarrow> string \<Rightarrow> bool" where
  "hit_path a b = (a = b \<or> py_startswith a (b @ ''/'') \<or> py_startswith b (a @ ''/''))"

text \<open>\<open>None\<close> when the files cannot be read.\<close>

definition overlapping_files :: "'s pull_env \<Rightarrow> string \<Rightarrow> int option \<Rightarrow> string list \<Rightarrow> 's \<Rightarrow> string list option" where
  "overlapping_files env repo number paths s =
     (case pe_files env (repo_name repo) number s of
        Inl _ \<Rightarrow> None
      | Inr files \<Rightarrow>
          Some (sort (remdups (filter (\<lambda>n. n \<noteq> [] \<and> list_ex (\<lambda>w. hit_path (py_lower n) (py_lower w)) paths)
            (case files of None \<Rightarrow> [] | Some fs \<Rightarrow> fs)))))"

definition blocking_hit :: "'s pull_env \<Rightarrow> string \<Rightarrow> string list \<Rightarrow> 's \<Rightarrow> aging_hit \<Rightarrow> (aging_hit \<times> string list) list" where
  "blocking_hit env repo paths s h =
     (if paths = [] then [(h, [])]
      else case overlapping_files env repo (ag_number h) paths s of
        Some [] \<Rightarrow> [] | Some fs \<Rightarrow> [(h, fs)] | None \<Rightarrow> [(h, [])])"

text \<open>The first of them is the one the message names.\<close>

definition claim_blocked_by_aging_prs ::
    "'s pull_env \<Rightarrow> string \<Rightarrow> string \<Rightarrow> string list \<Rightarrow> 's \<Rightarrow> (aging_hit \<times> string list) list option" where
  "claim_blocked_by_aging_prs env agent repo paths s =
     (case concat (map (blocking_hit env repo paths s) (list_aging_prs env agent [repo] s)) of
        [] \<Rightarrow> None | hits \<Rightarrow> Some hits)"

section \<open>What blocks a claim\<close>

lemma set_list_aging:
  "set (list_aging_prs env agent [repo] s) = aging_hit_of env repo s ` {pr \<in> set (open_listing env repo s). is_aging env agent s pr}"
  by (auto simp add: list_aging_prs_def)

lemma no_hits: "(case xs of [] \<Rightarrow> None | x # ys \<Rightarrow> Some (x # ys)) = None \<longleftrightarrow> xs = []"
  by (cases xs) simp_all

text \<open>Exactly the agent's old pull requests of the listing block that touch a path of the claim, or whose files cannot be
  read, or all of them when the claim names no path.\<close>

lemma aging_block_exact:
  "claim_blocked_by_aging_prs env agent repo paths s = None \<longleftrightarrow>
     (\<forall>pr \<in> set (open_listing env repo s). is_aging env agent s pr \<longrightarrow>
        paths \<noteq> [] \<and> overlapping_files env repo (op_number pr) paths s = Some [])"
proof -
  have "claim_blocked_by_aging_prs env agent repo paths s = None \<longleftrightarrow>
      concat (map (blocking_hit env repo paths s) (list_aging_prs env agent [repo] s)) = []"
    unfolding claim_blocked_by_aging_prs_def by (rule no_hits)
  then have "claim_blocked_by_aging_prs env agent repo paths s = None \<longleftrightarrow>
      (\<forall>h \<in> set (list_aging_prs env agent [repo] s). blocking_hit env repo paths s h = [])"
    by simp
  moreover have "blocking_hit env repo paths s h = [] \<longleftrightarrow>
      paths \<noteq> [] \<and> overlapping_files env repo (ag_number h) paths s = Some []" for h
    by (simp add: blocking_hit_def split: option.split list.split)
  ultimately show ?thesis by (auto simp add: set_list_aging aging_hit_of_def)
qed

text \<open>A listing that cannot be read blocks nothing, and neither does a pull request without a readable date.\<close>

lemma unread_listing_opens:
  "pe_open env (repo_name repo) s = Inl e \<Longrightarrow> claim_blocked_by_aging_prs env agent repo paths s = None"
  by (simp add: aging_block_exact open_listing_def)

lemma undated_is_fresh: "pe_hours env (op_created pr) s = None \<Longrightarrow> \<not> is_aging env agent s pr"
  by (simp add: is_aging_def pr_age_def pr_age_rule_hours_def)

end
