(* ===== verification/Issue_Claims.thy ===== *)
theory Issue_Claims
  imports Aging_Prs Run_Retry
begin

text \<open>
  Claims of issues, \<open>backend/coordination/claims.py\<close>: the check, the lease and its release, which scripts of
  another repository carry out, and the evidence of a release. The scripts, GitHub and the coordination board are
  arguments that read and change an outside world; so are the pattern of closing keywords and the pattern of lane
  branches. A reading has the fields of the script's JSON
  object, an empty text where one is absent. Issue numbers and sessions are valid, as the routes ensure.
\<close>

section \<open>The outside world\<close>

record claim_reading =
  cr_held :: bool
  cr_reason :: string
  cr_agent :: string
  cr_session :: string
  cr_expires :: string
  cr_complete :: "bool option"
  cr_truncated :: bool
  cr_comment_limit :: bool
  cr_page_limit :: bool
  cr_comments :: "int option"
  cr_warnings :: "string list"

record board_session =
  bo_repo :: string
  bo_issue :: "int option"
  bo_agent :: string
  bo_session :: string
  bo_expires :: string

record board_state =
  bs_available :: bool
  bs_reason :: string
  bs_sessions :: "board_session list"
  bs_complete :: "bool option"
  bs_comment_limit :: bool
  bs_page_limit :: bool
  bs_comments :: "int option"
  bs_warnings :: "string list"

record lease_write =
  lw_ok :: bool
  lw_posted :: bool
  lw_receipt :: string
  lw_expires :: string
  lw_errors :: "string list"
  lw_failure :: string

record lease_script_call =
  lc_repo :: string
  lc_issue :: int
  lc_agent :: string
  lc_session :: string
  lc_text :: string
  lc_ttl :: "rat option"

record pull =
  pu_number :: int
  pu_url :: string
  pu_open :: bool
  pu_merged :: bool

text \<open>The scripts answer with a reading, or with the text of a failure (no JSON object, or one without \<open>held\<close>); the
  GitHub reads raise a text or answer.\<close>

record 's claims_env =
  ce_check :: "string \<Rightarrow> int \<Rightarrow> 's \<Rightarrow> string + claim_reading"
  ce_post :: "lease_script_call \<Rightarrow> 's \<Rightarrow> (string + lease_write) \<times> 's"
  ce_release :: "lease_script_call \<Rightarrow> 's \<Rightarrow> (string + lease_write) \<times> 's"
  ce_board :: "string \<Rightarrow> 's \<Rightarrow> board_state option"
  ce_pulls :: "string \<Rightarrow> 's \<Rightarrow> string + pull list"
  ce_branches :: "string \<Rightarrow> 's \<Rightarrow> string + string list"
  ce_closes :: "pull \<Rightarrow> int \<Rightarrow> bool"
  ce_branch_issue :: "string \<Rightarrow> int option"
  ce_aging :: "'s pull_env"

datatype job_activity_kind = ActClaim | ActRelease | ActExpiry | ActConflict

record job_activity =
  ja_kind :: job_activity_kind
  ja_repo :: string
  ja_issue :: int
  ja_agent :: string
  ja_session :: string
  ja_principal :: string
  ja_receipt :: string
  ja_token :: "string option"
  ja_detail :: string

record 's claims_state =
  cs_world :: 's
  cs_activity :: "job_activity list"

section \<open>Reading a claim\<close>

definition board_comment_limit :: int where
  "board_comment_limit = 1000"

definition many_comments :: "int option \<Rightarrow> bool option \<Rightarrow> bool" where
  "many_comments n whole = (case n of None \<Rightarrow> False | Some c \<Rightarrow> board_comment_limit < c \<and> whole \<noteq> Some True)"

definition check_incomplete :: "claim_reading \<Rightarrow> string option" where
  "check_incomplete r =
     (if cr_complete r = Some False \<or> cr_truncated r \<or> cr_comment_limit r
      then Some (let t = py_join ''; '' (cr_warnings r)
                 in if t \<noteq> [] then t else ''board comment limit reached; claim check incomplete'')
      else if cr_page_limit r then Some ''board page limit reached; claim check incomplete''
      else if many_comments (cr_comments r) (cr_complete r)
      then Some (''comment count ('' @ (case cr_comments r of Some c \<Rightarrow> int_text c | None \<Rightarrow> []) @ '') exceeds ''
                 @ int_text board_comment_limit @ '' without complete pagination'')
      else List.find (\<lambda>t. py_contains ''page limit'' (py_lower t) \<or> py_contains ''comment limit'' (py_lower t)
                          \<or> py_contains ''incomplete'' (py_lower t)) (cr_warnings r))"

record claim_status =
  ct_available :: bool
  ct_held :: bool
  ct_agent :: string
  ct_session :: string
  ct_reason :: string
  ct_expires :: string

definition unavailable :: "string \<Rightarrow> claim_status" where
  "unavailable why = \<lparr>ct_available = False, ct_held = False, ct_agent = [], ct_session = [], ct_reason = why, ct_expires = []\<rparr>"

definition board_limit_reached :: "board_state \<Rightarrow> bool" where
  "board_limit_reached b =
     (bs_comment_limit b \<or> bs_page_limit b \<or> many_comments (bs_comments b) (bs_complete b) \<or>
      list_ex (\<lambda>t. py_contains ''page limit'' (py_lower t) \<or> py_contains ''comment limit'' (py_lower t)
                   \<or> py_contains ''comment-limit'' (py_lower t)) (bs_warnings b))"

definition board_claim_override :: "'s claims_env \<Rightarrow> string \<Rightarrow> int \<Rightarrow> 's \<Rightarrow> claim_status option" where
  "board_claim_override env repo issue s =
     (case ce_board env repo s of
        None \<Rightarrow> None
      | Some b \<Rightarrow>
          if \<not> bs_available b
          then Some (unavailable (if bs_reason b \<noteq> [] then bs_reason b else ''coordination board unavailable''))
          else case List.find (\<lambda>x. py_lower (bo_repo x) = py_lower repo \<and> bo_issue x = Some issue) (bs_sessions b) of
            Some x \<Rightarrow> Some \<lparr>ct_available = True, ct_held = True, ct_agent = bo_agent x, ct_session = bo_session x,
                        ct_reason = ''active board presence on RM #2539'', ct_expires = bo_expires x\<rparr>
          | None \<Rightarrow>
              if bs_comment_limit b \<or> (bs_complete b = Some False \<and> board_limit_reached b)
              then Some (unavailable (''coordination board incomplete ('' @
                     py_join ''; '' (if bs_warnings b \<noteq> [] then bs_warnings b else [''RM #2539 comment limit exceeded'']) @ '')''))
              else None)"

definition claim_check_status :: "'s claims_env \<Rightarrow> string \<Rightarrow> int \<Rightarrow> 's \<Rightarrow> claim_status" where
  "claim_check_status env repo issue s =
     (case ce_check env repo issue s of
        Inl failure \<Rightarrow> unavailable failure
      | Inr r \<Rightarrow>
          let found = \<lparr>ct_available = True, ct_held = cr_held r, ct_agent = cr_agent r, ct_session = cr_session r,
                       ct_reason = cr_reason r, ct_expires = cr_expires r\<rparr>
          in if py_startswith (cr_reason r) ''error:''
             then unavailable (''check_agent_claim failed open ('' @ cr_reason r @ '')'')
             else if cr_held r then found
             else case check_incomplete r of
               Some why \<Rightarrow> unavailable (''check_agent_claim incomplete ('' @ why @ '')'')
             | None \<Rightarrow> (case board_claim_override env repo issue s of Some c \<Rightarrow> c | None \<Rightarrow> found))"

definition own_claim :: "claim_status \<Rightarrow> string \<Rightarrow> string \<Rightarrow> bool" where
  "own_claim c agent session = (ct_agent c \<noteq> [] \<and> ct_session c \<noteq> [] \<and> ct_agent c = agent \<and> ct_session c = session)"

section \<open>Writing and releasing\<close>

datatype claim_error =
    ClaimUnreadable string
  | ClaimHeld claim_status
  | AgingPrBlocks "(aging_hit \<times> string list) list"
  | ScriptFailed string
  | JobIneligible string
  | StaleFence
  | BadTtl
  | BadExpiry
  | EvidenceUnreadable string

definition write_result :: "string \<Rightarrow> string + lease_write \<Rightarrow> claim_error + lease_write \<times> string list" where
  "write_result script res =
     (case res of
        Inl failure \<Rightarrow> Inl (ScriptFailed (script @ '' failed: '' @ failure))
      | Inr w \<Rightarrow>
          if lw_ok w then Inr (w, lw_errors w)
          else if lw_posted w then Inr (w, if lw_errors w \<noteq> [] then lw_errors w else [script @ '': partial outcome''])
          else Inl (ScriptFailed (script @ '' failed: '' @ (if py_join ''; '' (lw_errors w) \<noteq> [] then py_join ''; '' (lw_errors w) else lw_failure w))))"

definition log_activity :: "job_activity \<Rightarrow> 's claims_state \<Rightarrow> 's claims_state" where
  "log_activity a s = s\<lparr>cs_activity := cs_activity s @ [a]\<rparr>"

definition post_lease ::
    "'s claims_env \<Rightarrow> lease_script_call \<Rightarrow> 's claims_state \<Rightarrow> (claim_error + lease_write \<times> string list) \<times> 's claims_state" where
  "post_lease env c s =
     (case ce_post env c (cs_world s) of (r, world) \<Rightarrow> (write_result ''post_agent_lease'' r, s\<lparr>cs_world := world\<rparr>))"

definition landed_pr :: "'s claims_env \<Rightarrow> string \<Rightarrow> int \<Rightarrow> 's \<Rightarrow> string + pull option" where
  "landed_pr env repo issue s =
     (case ce_pulls env repo s of
        Inl e \<Rightarrow> Inl e
      | Inr ps \<Rightarrow> Inr (List.find (\<lambda>p. ce_closes env p issue) (filter (\<lambda>p. pu_open p \<or> pu_merged p) ps)))"

definition pushed_branch :: "'s claims_env \<Rightarrow> string \<Rightarrow> int \<Rightarrow> 's \<Rightarrow> string + string option" where
  "pushed_branch env repo issue s =
     (case ce_branches env repo s of
        Inl e \<Rightarrow> Inl e
      | Inr bs \<Rightarrow> Inr (List.find (\<lambda>b. ce_branch_issue env b = Some issue) bs))"

definition classify_release_reason :: "'s claims_env \<Rightarrow> string \<Rightarrow> int \<Rightarrow> string \<Rightarrow> 's \<Rightarrow> string" where
  "classify_release_reason env repo issue agent_reason s =
     (let unread = (\<lambda>e. ''abandoned: evidence lookup unavailable ('' @ e @ ''); agent reported: '' @ agent_reason)
      in case landed_pr env (repo_name repo) issue s of
           Inl e \<Rightarrow> unread e
         | Inr (Some p) \<Rightarrow> py_strip (''completed: PR #'' @ int_text (pu_number p) @ '' '' @ pu_url p)
         | Inr None \<Rightarrow>
             (case pushed_branch env (repo_name repo) issue s of
                Inl e \<Rightarrow> unread e
              | Inr (Some b) \<Rightarrow> ''completed: branch '' @ b @ '' pushed''
              | Inr None \<Rightarrow> ''abandoned: no PR or branch found for #'' @ int_text issue @ ''; agent reported: '' @ agent_reason))"

definition principal_of :: "string option \<Rightarrow> string \<Rightarrow> string" where
  "principal_of holder agent = py_strip (case str_or holder None of Some p \<Rightarrow> p | None \<Rightarrow> ''agent-'' @ agent)"

record claim_call =
  cq_repo :: string
  cq_issue :: int
  cq_agent :: string
  cq_session :: string
  cq_intent :: string
  cq_holder :: "string option"
  cq_token :: "string option"
  cq_paths :: "string list"

definition activity_of :: "job_activity_kind \<Rightarrow> claim_call \<Rightarrow> string \<Rightarrow> string \<Rightarrow> string \<Rightarrow> job_activity" where
  "activity_of kind c who receipt detail =
     \<lparr>ja_kind = kind, ja_repo = cq_repo c, ja_issue = cq_issue c, ja_agent = cq_agent c, ja_session = cq_session c,
      ja_principal = who, ja_receipt = receipt, ja_token = cq_token c, ja_detail = detail\<rparr>"

definition lease_args :: "claim_call \<Rightarrow> string \<Rightarrow> rat option \<Rightarrow> lease_script_call" where
  "lease_args c body ttl =
     \<lparr>lc_repo = cq_repo c, lc_issue = cq_issue c, lc_agent = cq_agent c, lc_session = cq_session c, lc_text = body, lc_ttl = ttl\<rparr>"

definition claim_issue ::
    "'s claims_env \<Rightarrow> claim_call \<Rightarrow> 's claims_state \<Rightarrow>
     (claim_error + claim_status \<times> lease_write \<times> string list) \<times> 's claims_state" where
  "claim_issue env c s =
     (let st = claim_check_status env (cq_repo c) (cq_issue c) (cs_world s);
          own = own_claim st (cq_agent c) (cq_session c)
      in if \<not> ct_available st then (Inl (ClaimUnreadable (ct_reason st)), s)
         else if ct_held st \<and> \<not> own
         then (Inl (ClaimHeld st), log_activity (activity_of ActConflict c
                 (if ct_agent st \<noteq> [] then ''agent-'' @ ct_agent st else principal_of (cq_holder c) (cq_agent c)) [] (ct_reason st)) s)
         else case (if ct_held st \<and> own then None else claim_blocked_by_aging_prs (ce_aging env) (cq_agent c) (cq_repo c) (cq_paths c) (cs_world s)) of
           Some why \<Rightarrow> (Inl (AgingPrBlocks why), s)
         | None \<Rightarrow>
             (case post_lease env (lease_args c (cq_intent c) None) s of
                (Inl e, s1) \<Rightarrow> (Inl e, s1)
              | (Inr (w, warnings), s1) \<Rightarrow>
                  (Inr (st, w, warnings), log_activity (activity_of ActClaim c (principal_of (cq_holder c) (cq_agent c))
                     (lw_receipt w) (cq_intent c)) s1)))"

definition release_issue ::
    "'s claims_env \<Rightarrow> claim_call \<Rightarrow> string \<Rightarrow> 's claims_state \<Rightarrow>
     (claim_error + lease_write \<times> string list) \<times> 's claims_state" where
  "release_issue env c reason s =
     (let outcome = classify_release_reason env (cq_repo c) (cq_issue c) reason (cs_world s)
      in case ce_release env (lease_args c outcome None) (cs_world s) of
           (r, world) \<Rightarrow>
             (case write_result ''release_agent_lease'' r of
                Inl e \<Rightarrow> (Inl e, s\<lparr>cs_world := world\<rparr>)
              | Inr (w, warnings) \<Rightarrow>
                  (Inr (w, warnings), log_activity (activity_of
                     (if py_contains ''expired'' (py_lower reason) then ActExpiry else ActRelease) c
                     (principal_of (cq_holder c) (cq_agent c)) (lw_receipt w) outcome) (s\<lparr>cs_world := world\<rparr>))))"

end
