(* ===== verification/Job_Board.thy ===== *)
theory Job_Board
  imports Issue_Claims "HOL-Library.Product_Lexorder"
begin

text \<open>
  The job board, \<open>backend/coordination/jobs.py\<close>, \<open>job_filters.py\<close> and \<open>job_board_lease.py\<close>, with the launch guard
  of \<open>backend/staff/launch_guard.py\<close> over \<open>coordination/eligibility.py\<close>. The fences and the expiry of leases lie in
  the memory of the process. Reads of GitHub, the holds file, the rank of an issue among the priorities and the
  reading of an ISO text are arguments; the outside world may change between any two operations.
\<close>

section \<open>Environment and state\<close>

record issue_payload =
  ip_number :: "int option"
  ip_labels :: "string list"
  ip_open :: bool
  ip_pull :: bool
  ip_title :: string
  ip_url :: string
  ip_created :: string
  ip_updated :: string

record job_hold =
  jh_id :: string
  jh_text :: string
  jh_hold :: hold

text \<open>\<open>be_issue\<close> and \<open>be_issues\<close> raise a text, or answer \<open>None\<close> for a payload that is not an issue or a list.\<close>

record 's board_env =
  be_claims :: "'s claims_env"
  be_issue :: "string \<Rightarrow> int \<Rightarrow> 's \<Rightarrow> string + issue_payload option"
  be_issues :: "string \<Rightarrow> 's \<Rightarrow> string + issue_payload list option"
  be_holds :: "'s \<Rightarrow> job_hold list"
  be_repos :: "string list"
  be_rank :: "string \<Rightarrow> int \<Rightarrow> 's \<Rightarrow> nat"
  be_time :: "string \<Rightarrow> seconds option"

record job_lease =
  jl_repo :: string
  jl_issue :: int
  jl_agent :: string
  jl_session :: string
  jl_fence :: int
  jl_expires :: seconds
  jl_ttl :: rat

record 's job_state =
  jb_claims :: "'s claims_state"
  jb_fences :: "(string, int) dict"
  jb_leases :: "(string, job_lease) dict"

section \<open>Holds, gates and eligibility\<close>

definition fail_closed_hold_id :: string where
  "fail_closed_hold_id = ''hold-fail-closed''"

definition repo_schedule_holds :: "string \<Rightarrow> job_hold list \<Rightarrow> job_hold list \<times> bool" where
  "repo_schedule_holds repo hs =
     (filter (\<lambda>h. hd_schedule (jh_hold h) \<and> hold_matches [] repo (jh_hold h)) hs,
      \<not> list_ex (\<lambda>h. jh_id h = fail_closed_hold_id) hs)"

definition board_review_label :: string where
  "board_review_label = ''code-request:board_review''"

definition gate_reason :: "string list \<Rightarrow> job_hold list \<Rightarrow> string option" where
  "gate_reason lowered hs =
     (if board_review_label \<in> set lowered
      then Some (''gate: '' @ board_review_label @ '' (Assessment Board review not yet cleared)'')
      else map_option (\<lambda>h. ''hold: '' @ jh_text h) (List.find (\<lambda>h. ''hold:'' @ jh_id h \<in> set lowered) hs))"

definition hold_labels :: "string list" where
  "hold_labels = [''blocked'', ''do-not-automate'', ''do-not-merge'']"

definition priority_tiers :: "string list" where
  "priority_tiers = [''critical'', ''high'', ''medium'', ''low'']"

definition lowered_labels :: "issue_payload \<Rightarrow> string list" where
  "lowered_labels i = map (\<lambda>n. py_lower (py_strip n)) (filter (\<lambda>n. n \<noteq> []) (ip_labels i))"

definition claim_label :: "issue_payload \<Rightarrow> string option" where
  "claim_label i = List.find (\<lambda>n. py_startswith (py_lower n) ''claim:'') (filter (\<lambda>n. n \<noteq> []) (ip_labels i))"

definition hold_label :: "issue_payload \<Rightarrow> string option" where
  "hold_label i = List.find (\<lambda>n. n \<in> set hold_labels) (lowered_labels i)"

definition priority_tier :: "issue_payload \<Rightarrow> nat \<times> string" where
  "priority_tier i =
     (case List.find (\<lambda>(t, n). n \<in> set (lowered_labels i)) (enumerate 0 priority_tiers) of
        Some tn \<Rightarrow> tn | None \<Rightarrow> (length priority_tiers, []))"

text \<open>\<open>check_launch_allowed\<close> over \<open>is_eligible\<close>: the reason of a refusal.\<close>

definition blocking_job_hold :: "string \<Rightarrow> job_hold list \<Rightarrow> job_hold option" where
  "blocking_job_hold repo hs = List.find (\<lambda>h. hd_schedule (jh_hold h) \<and> hold_matches ''*'' repo (jh_hold h)) hs"

definition launch_refusal :: "'s board_env \<Rightarrow> string \<Rightarrow> int \<Rightarrow> 's \<Rightarrow> string option" where
  "launch_refusal env repo issue s =
     (case blocking_job_hold repo (be_holds env s) of
        Some h \<Rightarrow> Some (''repo held: '' @ jh_text h)
      | None \<Rightarrow>
          let st = claim_check_status (be_claims env) repo issue s
          in if \<not> ct_available st
             then Some (''claim status unavailable: '' @ (if ct_reason st \<noteq> [] then ct_reason st else ''no reason given''))
             else if ct_held st
             then Some (''issue already claimed or has an open PR: '' @ (if ct_reason st \<noteq> [] then ct_reason st else ''held''))
             else None)"

definition closed_by :: "pull \<Rightarrow> string" where
  "closed_by p = ''open PR #'' @ int_text (pu_number p) @ '' already closes it''"

definition claimed_by :: "claim_status \<Rightarrow> string" where
  "claimed_by st = ''claimed by '' @ (if ct_agent st \<noteq> [] then ct_agent st else ''another agent'')"

definition ineligible_reason :: "'s board_env \<Rightarrow> string \<Rightarrow> issue_payload \<Rightarrow> 's \<Rightarrow> claim_error + string option" where
  "ineligible_reason env repo i s =
     (case ip_number i of
        None \<Rightarrow> Inr (Some ''invalid issue payload'')
      | Some n \<Rightarrow>
          case repo_schedule_holds repo (be_holds env s) of (scoped, readable) \<Rightarrow>
          if \<not> readable then Inr (Some ''holds list unreadable'')
          else case claim_label i of Some l \<Rightarrow> Inr (Some (''carries '' @ l))
          | None \<Rightarrow>
          case hold_label i of Some l \<Rightarrow> Inr (Some (''carries hold label '' @ l))
          | None \<Rightarrow>
          case gate_reason (lowered_labels i) scoped of Some g \<Rightarrow> Inr (Some g)
          | None \<Rightarrow>
          case landed_pr (be_claims env) (repo_name repo) n s of
            Inl e \<Rightarrow> Inr (Some (''PR lookup unavailable: '' @ e))
          | Inr (Some p) \<Rightarrow> Inr (Some (closed_by p))
          | Inr None \<Rightarrow>
              let st = claim_check_status (be_claims env) repo n s
              in if \<not> ct_available st then Inl (ClaimUnreadable (ct_reason st))
                 else if ct_held st then Inr (Some (claimed_by st))
                 else Inr (launch_refusal env repo n s))"

section \<open>The listing\<close>

datatype job_verdict =
    JobSkipped
  | JobExcluded string bool
  | JobListed

text \<open>The flag of an exclusion says whether a warning goes with it.\<close>

definition judge_job :: "'s board_env \<Rightarrow> string \<Rightarrow> issue_payload \<Rightarrow> 's \<Rightarrow> job_verdict" where
  "judge_job env repo i s =
     (case ip_number i of
        None \<Rightarrow> JobSkipped
      | Some n \<Rightarrow>
          case repo_schedule_holds repo (be_holds env s) of (scoped, readable) \<Rightarrow>
          if \<not> readable then JobExcluded ''holds list unreadable'' False
          else case claim_label i of Some l \<Rightarrow> JobExcluded (''carries '' @ l) False
          | None \<Rightarrow>
          case hold_label i of Some l \<Rightarrow> JobExcluded (''carries hold label '' @ l) False
          | None \<Rightarrow>
          case gate_reason (lowered_labels i) scoped of Some g \<Rightarrow> JobExcluded g False
          | None \<Rightarrow>
          case landed_pr (be_claims env) (repo_name repo) n s of
            Inl e \<Rightarrow> JobExcluded (''PR lookup unavailable: '' @ e) True
          | Inr (Some p) \<Rightarrow> JobExcluded (closed_by p) False
          | Inr None \<Rightarrow>
              let st = claim_check_status (be_claims env) repo n s
              in if \<not> ct_available st then JobExcluded (''claim check unavailable: '' @ ct_reason st) True
                 else if ct_held st then JobExcluded (claimed_by st) False
                 else JobListed)"

record job_entry =
  jo_repo :: string
  jo_issue :: issue_payload
  jo_priority :: string
  jo_sort :: "nat \<times> nat \<times> string"

definition job_entry_of :: "'s board_env \<Rightarrow> string \<Rightarrow> 's \<Rightarrow> issue_payload \<Rightarrow> job_entry" where
  "job_entry_of env repo s i =
     (case priority_tier i of (tier, name) \<Rightarrow>
        \<lparr>jo_repo = repo, jo_issue = i, jo_priority = name,
         jo_sort = (tier, be_rank env repo (case ip_number i of Some n \<Rightarrow> n | None \<Rightarrow> 0) s, ip_created i)\<rparr>)"

definition candidates :: "'s board_env \<Rightarrow> string \<Rightarrow> 's \<Rightarrow> issue_payload list \<times> bool" where
  "candidates env repo s =
     (case be_issues env (repo_name repo) s of
        Inr (Some is) \<Rightarrow> (filter (\<lambda>i. \<not> ip_pull i) is, True)
      | _ \<Rightarrow> ([], False))"

record job_listing =
  jq_available :: bool
  jq_complete :: bool
  jq_jobs :: "job_entry list"
  jq_excluded :: "(string \<times> issue_payload \<times> string) list"

definition listed_in :: "'s board_env \<Rightarrow> 's \<Rightarrow> string \<Rightarrow> job_entry list" where
  "listed_in env s repo =
     map (job_entry_of env repo s) (filter (\<lambda>i. judge_job env repo i s = JobListed) (fst (candidates env repo s)))"

definition excluded_in :: "'s board_env \<Rightarrow> 's \<Rightarrow> string \<Rightarrow> (string \<times> issue_payload \<times> string) list" where
  "excluded_in env s repo =
     concat (map (\<lambda>i. case judge_job env repo i s of JobExcluded why _ \<Rightarrow> [(repo, i, why)] | _ \<Rightarrow> [])
       (fst (candidates env repo s)))"

definition list_jobs :: "'s board_env \<Rightarrow> string option \<Rightarrow> nat \<Rightarrow> 's \<Rightarrow> job_listing" where
  "list_jobs env repo limit s =
     (let repos = (case str_or repo None of Some r \<Rightarrow> [r] | None \<Rightarrow> be_repos env)
      in \<lparr>jq_available = list_all (\<lambda>r. snd (repo_schedule_holds r (be_holds env s))) repos,
          jq_complete = list_all (\<lambda>r. snd (candidates env r s)) repos,
          jq_jobs = take limit (sort_key jo_sort (concat (map (listed_in env s) repos))),
          jq_excluded = concat (map (excluded_in env s) repos)\<rparr>)"

section \<open>Claims and fences\<close>

definition issue_key :: "string \<Rightarrow> int \<Rightarrow> string" where
  "issue_key repo issue = py_lower repo @ ''#'' @ int_text issue"

definition current_fence :: "string \<Rightarrow> int \<Rightarrow> 's job_state \<Rightarrow> int" where
  "current_fence repo issue s = (case map_of (jb_fences s) (issue_key repo issue) of None \<Rightarrow> 0 | Some f \<Rightarrow> f)"

definition mint_fence :: "string \<Rightarrow> int \<Rightarrow> 's job_state \<Rightarrow> int \<times> 's job_state" where
  "mint_fence repo issue s =
     (let f = current_fence repo issue s + 1
      in (f, s\<lparr>jb_fences := AList.update (issue_key repo issue) f (jb_fences s)\<rparr>))"

definition fence_ok :: "string \<Rightarrow> int \<Rightarrow> int \<Rightarrow> 's job_state \<Rightarrow> bool" where
  "fence_ok repo issue f s = (0 < f \<and> f = current_fence repo issue s)"

definition min_ttl :: rat where "min_ttl = 1/10"
definition max_ttl :: rat where "max_ttl = 8"

definition ttl_ok :: "rat \<Rightarrow> bool" where
  "ttl_ok t = (min_ttl \<le> t \<and> t \<le> max_ttl)"

definition parse_expires :: "(string \<Rightarrow> seconds option) \<Rightarrow> seconds \<Rightarrow> string \<Rightarrow> rat \<Rightarrow> seconds option" where
  "parse_expires read_time now raw ttl = (if raw \<noteq> [] then read_time raw else Some (now + ttl * 3600))"

definition remember_lease ::
    "'s board_env \<Rightarrow> seconds \<Rightarrow> claim_call \<Rightarrow> int \<Rightarrow> rat \<Rightarrow> string \<Rightarrow> 's job_state \<Rightarrow> 's job_state option" where
  "remember_lease env now c f ttl expires s =
     map_option (\<lambda>t. s\<lparr>jb_leases := AList.update (issue_key (cq_repo c) (cq_issue c))
          \<lparr>jl_repo = cq_repo c, jl_issue = cq_issue c, jl_agent = cq_agent c, jl_session = cq_session c, jl_fence = f,
           jl_expires = t, jl_ttl = ttl\<rparr> (jb_leases s)\<rparr>)
       (parse_expires (be_time env) now expires ttl)"

definition with_claims :: "('s claims_state \<Rightarrow> 'a \<times> 's claims_state) \<Rightarrow> 's job_state \<Rightarrow> 'a \<times> 's job_state" where
  "with_claims f s = (case f (jb_claims s) of (x, c) \<Rightarrow> (x, s\<lparr>jb_claims := c\<rparr>))"

definition world_of :: "'s job_state \<Rightarrow> 's" where
  "world_of s = cs_world (jb_claims s)"

definition assert_claimable :: "'s board_env \<Rightarrow> string \<Rightarrow> int \<Rightarrow> 's \<Rightarrow> claim_error option" where
  "assert_claimable env repo issue s =
     (case be_issue env (repo_name repo) issue s of
        Inl e \<Rightarrow> Some (EvidenceUnreadable e)
      | Inr None \<Rightarrow> Some (JobIneligible (repo @ ''#'' @ int_text issue @ '' is not an open issue''))
      | Inr (Some i) \<Rightarrow>
          if \<not> ip_open i \<or> ip_pull i then Some (JobIneligible (repo @ ''#'' @ int_text issue @ '' is not an open issue''))
          else case ineligible_reason env repo i s of
            Inl e \<Rightarrow> Some e
          | Inr (Some why) \<Rightarrow> Some (JobIneligible why)
          | Inr None \<Rightarrow> None)"

record job_claim =
  jc_fence :: int
  jc_expires :: string
  jc_warnings :: "string list"

text \<open>What follows the lease: the check again, then the rollback of a loser or the fence of the winner.\<close>

definition settle_claim ::
    "'s board_env \<Rightarrow> seconds \<Rightarrow> claim_call \<Rightarrow> rat \<Rightarrow> lease_write \<times> string list \<Rightarrow> 's job_state \<Rightarrow>
     (claim_error + job_claim) \<times> 's job_state" where
  "settle_claim env now c ttl wr s =
     (let after = claim_check_status (be_claims env) (cq_repo c) (cq_issue c) (world_of s)
      in if ct_held after \<and> (ct_agent after, ct_session after) \<noteq> (cq_agent c, cq_session c)
         then let s1 = snd (with_claims (release_issue (be_claims env) (c\<lparr>cq_token := None\<rparr>) ''race loser'') s)
              in (Inl (ClaimHeld after), snd (with_claims (\<lambda>cs. ((), log_activity
                    (activity_of ActConflict (c\<lparr>cq_token := None\<rparr>) (principal_of (cq_holder c) (cq_agent c)) [] ''race loser'') cs)) s1))
         else case mint_fence (cq_repo c) (cq_issue c) s of (f, s1) \<Rightarrow>
              let s2 = snd (with_claims (\<lambda>cs. ((), log_activity
                         (activity_of ActClaim (c\<lparr>cq_token := Some (int_text f)\<rparr>) (principal_of (cq_holder c) (cq_agent c))
                            (lw_receipt (fst wr)) (cq_intent c)) cs)) s1);
                  expires = (if lw_expires (fst wr) \<noteq> [] then lw_expires (fst wr) else ct_expires after)
              in (case remember_lease env now c f ttl expires s2 of
                    None \<Rightarrow> (Inl BadExpiry, s2)
                  | Some s3 \<Rightarrow> (Inr \<lparr>jc_fence = f, jc_expires = expires, jc_warnings = snd wr\<rparr>, s3)))"

definition claim_job ::
    "'s board_env \<Rightarrow> seconds \<Rightarrow> claim_call \<Rightarrow> rat \<Rightarrow> 's job_state \<Rightarrow> (claim_error + job_claim) \<times> 's job_state" where
  "claim_job env now c ttl s =
     (if \<not> ttl_ok ttl then (Inl BadTtl, s)
      else case assert_claimable env (cq_repo c) (cq_issue c) (world_of s) of
        Some e \<Rightarrow> (Inl e, s)
      | None \<Rightarrow>
          let st = claim_check_status (be_claims env) (cq_repo c) (cq_issue c) (world_of s)
          in if \<not> ct_available st then (Inl (ClaimUnreadable (ct_reason st)), s)
             else if ct_held st then (Inl (ClaimHeld st), s)
             else case claim_blocked_by_aging_prs (ce_aging (be_claims env)) (cq_agent c) (cq_repo c) [] (world_of s) of
               Some why \<Rightarrow> (Inl (AgingPrBlocks why), s)
             | None \<Rightarrow>
                 (case with_claims (post_lease (be_claims env) (lease_args c (cq_intent c) (Some ttl))) s of
                    (Inl e, s1) \<Rightarrow> (Inl e, s1)
                  | (Inr wr, s1) \<Rightarrow> settle_claim env now c ttl wr s1))"

definition holds_claim :: "claim_status \<Rightarrow> claim_call \<Rightarrow> bool" where
  "holds_claim st c = (ct_held st \<and> ct_agent st = cq_agent c \<and> ct_session st = cq_session c)"

definition release_job ::
    "'s board_env \<Rightarrow> claim_call \<Rightarrow> int \<Rightarrow> string \<Rightarrow> 's job_state \<Rightarrow> (claim_error + string list) \<times> 's job_state" where
  "release_job env c f reason s =
     (if \<not> fence_ok (cq_repo c) (cq_issue c) f s then (Inl StaleFence, s)
      else
        let st = claim_check_status (be_claims env) (cq_repo c) (cq_issue c) (world_of s)
        in if \<not> ct_available st then (Inl (ClaimUnreadable (ct_reason st)), s)
           else if \<not> holds_claim st c then (Inl StaleFence, s)
           else case with_claims (release_issue (be_claims env) (c\<lparr>cq_token := Some (int_text f)\<rparr>) reason) s of
             (Inl e, s1) \<Rightarrow> (Inl e, s1)
           | (Inr (w, warnings), s1) \<Rightarrow>
               (Inr warnings, s1\<lparr>jb_leases := AList.delete (issue_key (cq_repo c) (cq_issue c)) (jb_leases s1)\<rparr>))"

definition heartbeat_job ::
    "'s board_env \<Rightarrow> seconds \<Rightarrow> claim_call \<Rightarrow> int \<Rightarrow> rat \<Rightarrow> 's job_state \<Rightarrow> (claim_error + string) \<times> 's job_state" where
  "heartbeat_job env now c f ttl s =
     (if \<not> ttl_ok ttl then (Inl BadTtl, s)
      else if \<not> fence_ok (cq_repo c) (cq_issue c) f s then (Inl StaleFence, s)
      else
        let st = claim_check_status (be_claims env) (cq_repo c) (cq_issue c) (world_of s)
        in if \<not> ct_available st then (Inl (ClaimUnreadable (ct_reason st)), s)
           else if \<not> holds_claim st c then (Inl StaleFence, s)
           else case with_claims (post_lease (be_claims env) (lease_args c ''heartbeat'' (Some ttl))) s of
             (Inl e, s1) \<Rightarrow> (Inl e, s1)
           | (Inr (w, warnings), s1) \<Rightarrow>
               let expires = (if lw_expires w \<noteq> [] then lw_expires w else ct_expires st)
               in (case remember_lease env now c f ttl expires s1 of
                     None \<Rightarrow> (Inl BadExpiry, s1)
                   | Some s2 \<Rightarrow> (Inr expires, s2)))"

definition lease_holder :: "job_lease \<Rightarrow> claim_call" where
  "lease_holder l =
     \<lparr>cq_repo = jl_repo l, cq_issue = jl_issue l, cq_agent = jl_agent l, cq_session = jl_session l, cq_intent = [],
      cq_holder = None, cq_token = None, cq_paths = []\<rparr>"

fun sweep_rows :: "'s board_env \<Rightarrow> seconds \<Rightarrow> job_lease list \<Rightarrow> 's job_state \<Rightarrow> nat \<times> nat \<times> 's job_state" where
  "sweep_rows env now [] s = (0, 0, s)"
| "sweep_rows env now (l # ls) s =
     (if now < jl_expires l then sweep_rows env now ls s
      else case release_job env (lease_holder l) (jl_fence l) ''agent_bus lease expired'' s of
        (Inl e, s1) \<Rightarrow> (case sweep_rows env now ls s1 of (r, n, s2) \<Rightarrow> (r, Suc n, s2))
      | (Inr _, s1) \<Rightarrow> (case sweep_rows env now ls s1 of (r, n, s2) \<Rightarrow> (Suc r, n, s2)))"

definition sweep_expired_claims :: "'s board_env \<Rightarrow> seconds \<Rightarrow> 's job_state \<Rightarrow> nat \<times> nat \<times> 's job_state" where
  "sweep_expired_claims env now s = sweep_rows env now (map snd (jb_leases s)) s"

end
