(* ===== verification/Job_Fences.thy ===== *)
theory Job_Fences
  imports Job_Board
begin

text \<open>
  What the job board promises: the listing against the check of a claim, the order of the fences over any sequence of
  operations of this process and of changes of the outside world, and what a restart forgets.
\<close>

section \<open>Frames\<close>

lemma with_claims_frame [simp]:
  "jb_fences (snd (with_claims f s)) = jb_fences s"
  "jb_leases (snd (with_claims f s)) = jb_leases s"
  "world_of (snd (with_claims (\<lambda>cs. ((), log_activity a cs)) s)) = world_of s"
  by (simp_all add: with_claims_def world_of_def log_activity_def split: prod.split)

lemma with_claims_eq:
  "with_claims f s = (x, s') \<Longrightarrow> jb_fences s' = jb_fences s \<and> jb_leases s' = jb_leases s"
  using with_claims_frame(1,2) [of f s] by simp

lemma fence_frame: "jb_fences s' = jb_fences s \<Longrightarrow> current_fence repo issue s' = current_fence repo issue s"
  by (simp add: current_fence_def)

lemma mint_fence_fresh:
  assumes "mint_fence repo issue s = (f, s')"
  shows "f = current_fence repo issue s + 1"
    and "current_fence r n s' = (if issue_key r n = issue_key repo issue then f else current_fence r n s)"
  using assms by (auto simp add: mint_fence_def Let_def current_fence_def update_conv)

lemma remember_lease_frame:
  "remember_lease env now c f ttl expires s = Some s' \<Longrightarrow> jb_fences s' = jb_fences s"
  by (auto simp add: remember_lease_def)

lemma remember_lease_ok:
  "remember_lease env now c f ttl expires s = Some s' \<Longrightarrow>
   \<exists>l. map_of (jb_leases s') (issue_key (cq_repo c) (cq_issue c)) = Some l \<and> jl_fence l = f \<and>
       jl_agent l = cq_agent c \<and> jl_session l = cq_session c"
  by (auto simp add: remember_lease_def update_conv)

lemma settle_claim_lost:
  assumes "ct_held after" "(ct_agent after, ct_session after) \<noteq> (cq_agent c, cq_session c)"
    and "after = claim_check_status (be_claims env) (cq_repo c) (cq_issue c) (world_of s)"
  shows "fst (settle_claim env now c ttl wr s) = Inl (ClaimHeld after)"
    and "jb_fences (snd (settle_claim env now c ttl wr s)) = jb_fences s"
  using assms by (simp_all add: settle_claim_def Let_def)

lemma settle_claim_won:
  assumes "\<not> (ct_held after \<and> (ct_agent after, ct_session after) \<noteq> (cq_agent c, cq_session c))"
    and "after = claim_check_status (be_claims env) (cq_repo c) (cq_issue c) (world_of s)"
    and "mint_fence (cq_repo c) (cq_issue c) s = (f, s1)"
  shows "current_fence r n (snd (settle_claim env now c ttl wr s)) = current_fence r n s1"
    and "fst (settle_claim env now c ttl wr s) = Inr k \<Longrightarrow>
         jc_fence k = f \<and> (\<exists>l. map_of (jb_leases (snd (settle_claim env now c ttl wr s))) (issue_key (cq_repo c) (cq_issue c)) = Some l \<and>
            jl_fence l = f \<and> jl_agent l = cq_agent c \<and> jl_session l = cq_session c)"
  using assms unfolding settle_claim_def Let_def
  by (auto split: option.splits dest: remember_lease_frame remember_lease_ok intro!: fence_frame)

lemma settle_claim_fence:
  "current_fence r n (snd (settle_claim env now c ttl wr s)) =
     current_fence r n s + (if issue_key r n = issue_key (cq_repo c) (cq_issue c) \<and>
        \<not> (ct_held (claim_check_status (be_claims env) (cq_repo c) (cq_issue c) (world_of s)) \<and>
           (ct_agent (claim_check_status (be_claims env) (cq_repo c) (cq_issue c) (world_of s)),
            ct_session (claim_check_status (be_claims env) (cq_repo c) (cq_issue c) (world_of s))) \<noteq> (cq_agent c, cq_session c))
      then 1 else 0)"
proof -
  define after where "after = claim_check_status (be_claims env) (cq_repo c) (cq_issue c) (world_of s)"
  show ?thesis
  proof (cases "ct_held after \<and> (ct_agent after, ct_session after) \<noteq> (cq_agent c, cq_session c)")
    case True
    then show ?thesis
      using fence_frame [OF settle_claim_lost(2) [of after c env s now ttl wr]] after_def by auto
  next
    case False
    obtain f s1 where m: "mint_fence (cq_repo c) (cq_issue c) s = (f, s1)" by (rule prod.exhaust)
    have key: "issue_key r n = issue_key (cq_repo c) (cq_issue c) \<Longrightarrow> current_fence (cq_repo c) (cq_issue c) s = current_fence r n s"
      by (simp add: current_fence_def)
    show ?thesis
      using settle_claim_won(1) [OF False after_def m, of r n now ttl wr] mint_fence_fresh [OF m] key False after_def by auto
  qed
qed

section \<open>A claim and its checks\<close>

text \<open>How a claim that answers came about.\<close>

lemma claim_job_cases:
  assumes "fst (claim_job env now c ttl s) = Inr k"
  obtains wr s1 where
    "ttl_ok ttl" "assert_claimable env (cq_repo c) (cq_issue c) (world_of s) = None"
    "ct_available (claim_check_status (be_claims env) (cq_repo c) (cq_issue c) (world_of s))"
    "\<not> ct_held (claim_check_status (be_claims env) (cq_repo c) (cq_issue c) (world_of s))"
    "claim_blocked_by_aging_prs (ce_aging (be_claims env)) (cq_agent c) (cq_repo c) [] (world_of s) = None"
    "with_claims (post_lease (be_claims env) (lease_args c (cq_intent c) (Some ttl))) s = (Inr wr, s1)"
    "claim_job env now c ttl s = settle_claim env now c ttl wr s1"
  using assms
  by (auto simp add: claim_job_def Let_def split: if_splits option.splits prod.splits sum.splits)

lemma claim_job_fence:
  assumes "fst (claim_job env now c ttl s) = Inr k" "issue_key r n = issue_key (cq_repo c) (cq_issue c)"
  shows "jc_fence k = current_fence r n s + 1"
    and "current_fence r n (snd (claim_job env now c ttl s)) = jc_fence k"
proof -
  obtain wr s1 where w: "with_claims (post_lease (be_claims env) (lease_args c (cq_intent c) (Some ttl))) s = (Inr wr, s1)"
    and e: "claim_job env now c ttl s = settle_claim env now c ttl wr s1"
    by (rule claim_job_cases [OF assms(1)])
  let ?after = "claim_check_status (be_claims env) (cq_repo c) (cq_issue c) (world_of s1)"
  have won: "\<not> (ct_held ?after \<and> (ct_agent ?after, ct_session ?after) \<noteq> (cq_agent c, cq_session c))"
    using assms(1) settle_claim_lost(1) [OF _ _ refl, of env c s1 now ttl wr] e by auto
  obtain f s2 where m: "mint_fence (cq_repo c) (cq_issue c) s1 = (f, s2)" by (rule prod.exhaust)
  have f: "jc_fence k = f" using settle_claim_won(2) [OF won refl m] assms(1) e by metis
  have same: "current_fence (cq_repo c) (cq_issue c) s1 = current_fence r n s"
    using with_claims_eq [OF w] assms(2) by (simp add: current_fence_def)
  show "jc_fence k = current_fence r n s + 1" using mint_fence_fresh(1) [OF m] f same by simp
  show "current_fence r n (snd (claim_job env now c ttl s)) = jc_fence k"
    using settle_claim_won(1) [OF won refl m, of r n now ttl wr] mint_fence_fresh(2) [OF m] f assms(2) e by simp
qed

section \<open>Sequences of operations\<close>

text \<open>What may happen to the board: the calls of its routes and of the sweep, any change of the world outside, and a
  restart of the process. An operation is a caller's turn at its clock.\<close>

datatype 's job_op =
    JbClaim seconds claim_call rat
  | JbRelease claim_call int string
  | JbHeartbeat seconds claim_call int rat
  | JbSweep seconds
  | JbWorld 's
  | JbRestart

definition restart_board :: "'s job_state \<Rightarrow> 's job_state" where
  "restart_board s = s\<lparr>jb_fences := [], jb_leases := []\<rparr>"

fun job_step :: "'s board_env \<Rightarrow> 's job_op \<Rightarrow> 's job_state \<Rightarrow> 's job_state" where
  "job_step env (JbClaim now c ttl) s = snd (claim_job env now c ttl s)"
| "job_step env (JbRelease c f reason) s = snd (release_job env c f reason s)"
| "job_step env (JbHeartbeat now c f ttl) s = snd (heartbeat_job env now c f ttl s)"
| "job_step env (JbSweep now) s = snd (snd (sweep_expired_claims env now s))"
| "job_step env (JbWorld w) s = s\<lparr>jb_claims := (jb_claims s)\<lparr>cs_world := w\<rparr>\<rparr>"
| "job_step env JbRestart s = restart_board s"

definition job_run :: "'s board_env \<Rightarrow> 's job_op list \<Rightarrow> 's job_state \<Rightarrow> 's job_state" where
  "job_run env ops s = fold (job_step env) ops s"

lemma release_job_frame: "jb_fences (snd (release_job env c f reason s)) = jb_fences s"
  by (auto simp add: release_job_def Let_def split: prod.split sum.split dest: with_claims_eq)

lemma heartbeat_job_frame: "jb_fences (snd (heartbeat_job env now c f ttl s)) = jb_fences s"
  by (auto simp add: heartbeat_job_def Let_def split: prod.split sum.split option.split
      dest!: with_claims_eq remember_lease_frame)

lemma sweep_rows_frame: "jb_fences (snd (snd (sweep_rows env now ls s))) = jb_fences s"
proof (induction env now ls s rule: sweep_rows.induct)
  case (2 env now l ls s)
  show ?case
  proof (cases "now < jl_expires l")
    case True
    then show ?thesis using 2 by simp
  next
    case False
    obtain res s1 where r: "release_job env (lease_holder l) (jl_fence l) ''agent_bus lease expired'' s = (res, s1)"
      by (rule prod.exhaust)
    have "jb_fences (snd (snd (sweep_rows env now ls s1))) = jb_fences s"
      using 2(2,3) [OF False r [symmetric]] release_job_frame [of env "lease_holder l" "jl_fence l" "''agent_bus lease expired''" s] r
      by (cases res) simp_all
    moreover obtain x y s2 where "sweep_rows env now ls s1 = (x, y, s2)" using prod_cases3 by blast
    ultimately show ?thesis using False r by (cases res) simp_all
  qed
qed simp

lemma claim_job_fence_le: "current_fence r n s \<le> current_fence r n (snd (claim_job env now c ttl s))"
proof -
  obtain res s1 where w: "with_claims (post_lease (be_claims env) (lease_args c (cq_intent c) (Some ttl))) s = (res, s1)"
    by (rule prod.exhaust)
  have s1: "current_fence r n s1 = current_fence r n s" using with_claims_eq [OF w] by (simp add: current_fence_def)
  then have "current_fence r n s \<le> current_fence r n (snd (settle_claim env now c ttl wr s1))" for wr
    by (simp only: settle_claim_fence) simp
  then show ?thesis using w s1 by (simp add: claim_job_def Let_def split: option.split sum.split)
qed

lemmas job_frames = release_job_frame heartbeat_job_frame sweep_rows_frame

lemma job_step_fence_le:
  assumes "op \<noteq> JbRestart"
  shows "current_fence r n s \<le> current_fence r n (job_step env op s)"
proof (cases op)
  case (JbClaim now c ttl)
  then show ?thesis by (simp add: claim_job_fence_le)
qed (use assms in \<open>simp_all add: current_fence_def job_frames sweep_expired_claims_def\<close>)

lemma job_run_fence_le:
  "JbRestart \<notin> set ops \<Longrightarrow> current_fence r n s \<le> current_fence r n (job_run env ops s)"
  unfolding job_run_def
proof (induction ops arbitrary: s)
  case (Cons op ops)
  then show ?case using job_step_fence_le [of op r n s env] by (fastforce intro: order_trans)
qed simp

lemma stale_fence_refused:
  assumes "f \<noteq> current_fence (cq_repo c) (cq_issue c) s"
  shows "release_job env c f reason s = (Inl StaleFence, s)"
    and "ttl_ok ttl \<Longrightarrow> heartbeat_job env now c f ttl s = (Inl StaleFence, s)"
  using assms by (simp_all add: release_job_def heartbeat_job_def fence_ok_def)

text \<open>C32: No two claims of an issue share a fence, and only the newest one counts. Over any operations of the board and
  any changes outside it, short of a restart of the process, a later successful claim of the same issue (its
  repository in any case) answers a larger fence than an earlier one, and from then on a release or a heartbeat with
  the earlier fence is refused as stale and changes nothing.
\<close>

theorem fences_name_one_claim:
  assumes "fst (claim_job env now c ttl s) = Inr k"
    and "JbRestart \<notin> set ops"
    and "s1 = job_run env ops (snd (claim_job env now c ttl s))"
    and "fst (claim_job env now' c' ttl' s1) = Inr k'"
    and "issue_key (cq_repo c') (cq_issue c') = issue_key (cq_repo c) (cq_issue c)"
    and "JbRestart \<notin> set later"
    and "s2 = job_run env later (snd (claim_job env now' c' ttl' s1))"
  shows "jc_fence k < jc_fence k' \<and>
         release_job env c (jc_fence k) reason s2 = (Inl StaleFence, s2) \<and>
         heartbeat_job env t c (jc_fence k) ttl s2 = (Inl StaleFence, s2)"
proof -
  have "jc_fence k \<le> current_fence (cq_repo c) (cq_issue c) s1"
    using claim_job_fence(2) [OF assms(1) refl] job_run_fence_le [OF assms(2)] assms(3) by metis
  moreover have k': "jc_fence k' = current_fence (cq_repo c) (cq_issue c) s1 + 1"
    and now2: "current_fence (cq_repo c) (cq_issue c) (snd (claim_job env now' c' ttl' s1)) = jc_fence k'"
    using claim_job_fence [OF assms(4) assms(5) [symmetric]] by simp_all
  ultimately have less: "jc_fence k < jc_fence k'" by simp
  have "jc_fence k' \<le> current_fence (cq_repo c) (cq_issue c) s2"
    using job_run_fence_le [OF assms(6)] now2 assms(7) by metis
  then have stale: "jc_fence k \<noteq> current_fence (cq_repo c) (cq_issue c) s2" using less by simp
  have "ttl_ok ttl" by (rule claim_job_cases [OF assms(1)])
  then show ?thesis using less stale_fence_refused [OF stale] by simp
qed

section \<open>The listing against the check of a claim\<close>

lemma launch_after_check:
  assumes "claim_check_status (be_claims env) repo n s = st" "ct_available st" "\<not> ct_held st"
  shows "launch_refusal env repo n s = map_option (\<lambda>h. ''repo held: '' @ jh_text h) (blocking_job_hold repo (be_holds env s))"
  using assms by (simp add: launch_refusal_def Let_def split: option.split)

lemma ineligible_of_verdict:
  assumes "ip_number i = Some n"
  shows "judge_job env repo i s = JobListed \<Longrightarrow>
         ineligible_reason env repo i s = Inr (map_option (\<lambda>h. ''repo held: '' @ jh_text h) (blocking_job_hold repo (be_holds env s)))"
    and "judge_job env repo i s \<noteq> JobListed \<Longrightarrow> ineligible_reason env repo i s \<noteq> Inr None"
  using assms launch_after_check [OF refl, of env repo n s]
  by (auto simp add: judge_job_def ineligible_reason_def Let_def split: prod.splits option.splits if_splits sum.splits)

text \<open>C33: The listing and the check of a claim judge an issue alike, but for one point. An open issue that is no pull
  request passes the check exactly when the listing would list it and no active schedule hold names its repository;
  a listed issue of a held repository is refused with that hold.
\<close>

theorem claimable_iff_listed:
  assumes "be_issue env (repo_name repo) n s = Inr (Some i)" "ip_number i = Some n" "ip_open i" "\<not> ip_pull i"
  shows "(assert_claimable env repo n s = None \<longleftrightarrow>
            judge_job env repo i s = JobListed \<and> blocking_job_hold repo (be_holds env s) = None) \<and>
         (judge_job env repo i s = JobListed \<longrightarrow>
            assert_claimable env repo n s =
              map_option (\<lambda>h. JobIneligible (''repo held: '' @ jh_text h)) (blocking_job_hold repo (be_holds env s)))"
proof (cases "judge_job env repo i s = JobListed")
  case True
  then show ?thesis
    using assms ineligible_of_verdict(1) [OF assms(2) True] by (simp add: assert_claimable_def split: option.split)
next
  case False
  then show ?thesis
    using assms ineligible_of_verdict(2) [OF assms(2) False]
    by (auto simp add: assert_claimable_def split: sum.splits option.splits)
qed

section \<open>A board to try them on\<close>

text \<open>The outside world is the holder of the one lease; the script names the session when the flag says so.\<close>

definition demo_status :: "bool \<Rightarrow> (string \<times> string) option \<Rightarrow> claim_reading" where
  "demo_status named w =
     \<lparr>cr_held = (w \<noteq> None), cr_reason = [], cr_agent = (case w of Some (a, _) \<Rightarrow> a | None \<Rightarrow> []),
      cr_session = (case w of Some (_, x) \<Rightarrow> if named then x else [] | None \<Rightarrow> []), cr_expires = [], cr_complete = None,
      cr_truncated = False, cr_comment_limit = False, cr_page_limit = False, cr_comments = None, cr_warnings = []\<rparr>"

definition demo_write :: "string \<Rightarrow> lease_write" where
  "demo_write r = \<lparr>lw_ok = True, lw_posted = True, lw_receipt = r, lw_expires = [], lw_errors = [], lw_failure = []\<rparr>"

definition demo_claims :: "bool \<Rightarrow> ((string \<times> string) option) claims_env" where
  "demo_claims named =
     \<lparr>ce_check = (\<lambda>repo n w. Inr (demo_status named w)),
      ce_post = (\<lambda>c w. (Inr (demo_write ''posted''), Some (lc_agent c, lc_session c))),
      ce_release = (\<lambda>c w. (Inr (demo_write ''released''), None)),
      ce_board = (\<lambda>repo w. None), ce_pulls = (\<lambda>repo w. Inr []), ce_branches = (\<lambda>repo w. Inr []),
      ce_closes = (\<lambda>p n. False), ce_branch_issue = (\<lambda>b. None), 
      ce_aging = \<lparr>pe_open = (\<lambda>r w. Inr (Some [])), pe_files = (\<lambda>r n w. Inr (Some [])), pe_agents = (\<lambda>w. []), pe_hours = (\<lambda>t w. None)\<rparr>\<rparr>"

definition demo_issue :: issue_payload where
  "demo_issue = \<lparr>ip_number = Some 7, ip_labels = [''high''], ip_open = True, ip_pull = False, ip_title = [], ip_url = [],
                 ip_created = [], ip_updated = []\<rparr>"

definition demo_env :: "bool \<Rightarrow> job_hold list \<Rightarrow> ((string \<times> string) option) board_env" where
  "demo_env named hs =
     \<lparr>be_claims = demo_claims named, be_issue = (\<lambda>r n w. Inr (Some demo_issue)),
      be_issues = (\<lambda>r w. Inr (Some [demo_issue])), be_holds = (\<lambda>w. hs), be_repos = [''Dash''],
      be_rank = (\<lambda>r n w. 0), be_time = (\<lambda>t. Some 0)\<rparr>"

definition demo_call :: "string \<Rightarrow> string \<Rightarrow> claim_call" where
  "demo_call repo agent =
     \<lparr>cq_repo = repo, cq_issue = 7, cq_agent = agent, cq_session = ''s'', cq_intent = ''work'', cq_holder = None,
      cq_token = None, cq_paths = []\<rparr>"

definition demo_board :: "((string \<times> string) option) job_state" where
  "demo_board = \<lparr>jb_claims = \<lparr>cs_world = None, cs_activity = []\<rparr>, jb_fences = [], jb_leases = []\<rparr>"

definition demo_hold :: job_hold where
  "demo_hold = \<lparr>jh_id = ''freeze'', jh_text = ''frozen'',
     jh_hold = \<lparr>hd_applies_to = [''repo:Dash''], hd_active = True, hd_schedule = True\<rparr>\<rparr>"

text \<open>The lease of the first agent lapses outside; the second claims the issue under another case of the name.\<close>

lemma fences_name_one_claim_witness:
  "\<exists>s2. current_fence ''Dash'' 7 s2 = 2 \<and>
     release_job (demo_env True []) (demo_call ''Dash'' ''ann'') 1 ''finished'' s2 = (Inl StaleFence, s2) \<and>
     heartbeat_job (demo_env True []) 9 (demo_call ''Dash'' ''ann'') 1 2 s2 = (Inl StaleFence, s2)"
proof -
  let ?env = "demo_env True []"
  let ?first = "claim_job ?env 0 (demo_call ''Dash'' ''ann'') 2 demo_board"
  let ?mid = "job_run ?env [JbWorld None] (snd ?first)"
  let ?second = "claim_job ?env 5 (demo_call ''dash'' ''bob'') 2 ?mid"
  have one: "fst ?first = Inr \<lparr>jc_fence = 1, jc_expires = [], jc_warnings = []\<rparr>" by code_simp
  have two: "fst ?second = Inr \<lparr>jc_fence = 2, jc_expires = [], jc_warnings = []\<rparr>" by code_simp
  have key: "issue_key (cq_repo (demo_call ''dash'' ''bob'')) (cq_issue (demo_call ''dash'' ''bob'')) =
             issue_key (cq_repo (demo_call ''Dash'' ''ann'')) (cq_issue (demo_call ''Dash'' ''ann''))" by code_simp
  have "current_fence ''Dash'' 7 (job_run ?env [] (snd ?second)) = 2" by code_simp
  then show ?thesis
    using fences_name_one_claim [OF one _ refl two key, of "[]" "job_run ?env [] (snd ?second)" "''finished''" 9]
    by (intro exI [of _ "job_run ?env [] (snd ?second)"]) simp
qed

lemma claimable_iff_listed_witness:
  "judge_job (demo_env True [demo_hold]) ''Dash'' demo_issue None = JobListed \<and>
   assert_claimable (demo_env True [demo_hold]) ''Dash'' 7 None = Some (JobIneligible ''repo held: frozen'')"
proof -
  have "judge_job (demo_env True [demo_hold]) ''Dash'' demo_issue None = JobListed" by code_simp
  moreover have "blocking_job_hold ''Dash'' (be_holds (demo_env True [demo_hold]) None) = Some demo_hold" by code_simp
  ultimately show ?thesis
    using claimable_iff_listed [of "demo_env True [demo_hold]" "''Dash''" 7 None demo_issue]
    by (simp add: demo_env_def demo_issue_def demo_hold_def)
qed

section \<open>What the code does at its edges\<close>

text \<open>The check before a claim is made, and the one after the lease is written.\<close>

lemma claim_needs_checks:
  assumes "fst (claim_job env now c ttl s) = Inr k"
  shows "assert_claimable env (cq_repo c) (cq_issue c) (world_of s) = None"
    and "\<not> ct_held (claim_check_status (be_claims env) (cq_repo c) (cq_issue c) (world_of s))"
    and "ttl_ok ttl"
  by (rule claim_job_cases [OF assms]; assumption)+

text \<open>As long as the script names no session, no claim of the board succeeds: once the lease is seen, it is not the
  caller's, and the claim is taken back. A release or a heartbeat is refused for the same reason.\<close>

lemma unnamed_session_rolled_back:
  assumes "\<And>w. ct_held (claim_check_status (be_claims env) (cq_repo c) (cq_issue c) w) \<Longrightarrow>
                ct_session (claim_check_status (be_claims env) (cq_repo c) (cq_issue c) w) = []"
    and "cq_session c \<noteq> []"
  shows "fst (claim_job env now c ttl s) = Inr k \<Longrightarrow>
         \<exists>w. snd (ce_post (be_claims env) (lease_args c (cq_intent c) (Some ttl)) (world_of s)) = w \<and>
             \<not> ct_held (claim_check_status (be_claims env) (cq_repo c) (cq_issue c) w)"
    and "fst (release_job env c f reason s) \<noteq> Inr ws"
    and "fst (heartbeat_job env now c f ttl s) \<noteq> Inr t"
proof -
  have no: "\<not> holds_claim (claim_check_status (be_claims env) (cq_repo c) (cq_issue c) w) c" for w
    using assms(1) [of w] assms(2) by (auto simp add: holds_claim_def)
  show "fst (release_job env c f reason s) \<noteq> Inr ws" "fst (heartbeat_job env now c f ttl s) \<noteq> Inr t"
    by (simp_all add: release_job_def heartbeat_job_def Let_def no)
  assume ok: "fst (claim_job env now c ttl s) = Inr k"
  obtain wr s1 where w: "with_claims (post_lease (be_claims env) (lease_args c (cq_intent c) (Some ttl))) s = (Inr wr, s1)"
    and e: "claim_job env now c ttl s = settle_claim env now c ttl wr s1"
    by (rule claim_job_cases [OF ok])
  have "world_of s1 = snd (ce_post (be_claims env) (lease_args c (cq_intent c) (Some ttl)) (world_of s))"
    using w by (auto simp add: with_claims_def post_lease_def world_of_def split: prod.splits)
  moreover have "\<not> ct_held (claim_check_status (be_claims env) (cq_repo c) (cq_issue c) (world_of s1))"
    using settle_claim_lost(1) [OF _ _ refl, of env c s1 now ttl wr] ok e assms(1) [of "world_of s1"] assms(2) by auto
  ultimately show "\<exists>w. snd (ce_post (be_claims env) (lease_args c (cq_intent c) (Some ttl)) (world_of s)) = w \<and>
      \<not> ct_held (claim_check_status (be_claims env) (cq_repo c) (cq_issue c) w)" by simp
qed

lemma unnamed_session_at_work:
  "fst (claim_job (demo_env False []) 0 (demo_call ''Dash'' ''ann'') 2 demo_board) =
     Inl (ClaimHeld \<lparr>ct_available = True, ct_held = True, ct_agent = ''ann'', ct_session = [], ct_reason = [], ct_expires = []\<rparr>)"
  by code_simp

text \<open>A restart forgets the fences: the holder can neither renew nor release, nor is the lease swept, and the next
  fence of the issue is one that an earlier claim has already had.\<close>

lemma restart_forgets:
  "release_job env c f reason (restart_board s) = (Inl StaleFence, restart_board s)"
  "ttl_ok ttl \<Longrightarrow> heartbeat_job env now c f ttl (restart_board s) = (Inl StaleFence, restart_board s)"
  "sweep_expired_claims env now (restart_board s) = (0, 0, restart_board s)"
  "fst (claim_job env now c ttl (restart_board s)) = Inr k \<Longrightarrow> jc_fence k = 1"
  using claim_job_fence(1) [OF _ refl, of env now c ttl "restart_board s" k]
  by (simp_all add: release_job_def heartbeat_job_def sweep_expired_claims_def restart_board_def fence_ok_def current_fence_def)

text \<open>A lease whose expiry cannot be read is written, and its fence spent, before the claim fails.\<close>

lemma bad_expiry_keeps_lease:
  "fst (claim_job ((demo_env True [])\<lparr>be_time := Map.empty,
          be_claims := (demo_claims True)\<lparr>ce_post := (\<lambda>c w. (Inr ((demo_write [])\<lparr>lw_expires := ''soon''\<rparr>), Some (lc_agent c, lc_session c)))\<rparr>\<rparr>)
        0 (demo_call ''Dash'' ''ann'') 2 demo_board) = Inl BadExpiry"
  "(let s = snd (claim_job ((demo_env True [])\<lparr>be_time := Map.empty,
          be_claims := (demo_claims True)\<lparr>ce_post := (\<lambda>c w. (Inr ((demo_write [])\<lparr>lw_expires := ''soon''\<rparr>), Some (lc_agent c, lc_session c)))\<rparr>\<rparr>)
        0 (demo_call ''Dash'' ''ann'') 2 demo_board)
    in world_of s = Some (''ann'', ''s'') \<and> current_fence ''Dash'' 7 s = 1 \<and> jb_leases s = [])"
  by code_simp+

end
