(* ===== verification/Path_Leases.thy ===== *)
theory Path_Leases
  imports Staff_Runs Claim_Spec
begin

text \<open>
  Leases of paths and issues, \<open>backend/path_lease_store.py\<close> with its routes \<open>routers/path_leases.py\<close>, and the hook that
  takes one around a run of Cursor, \<open>coordination/cursor_dispatch_lease.py\<close>. A transaction is one step at one reading of
  the clock; the retries of a busy database are left out. The bounds of the routes on lengths and durations and the
  label that a blocked run gives back are left out, too.
\<close>

section \<open>The store\<close>

record path_lease =
  pl_id :: string
  pl_repo :: string
  pl_scope :: string
  pl_owner :: string
  pl_acquired :: seconds
  pl_expires :: seconds

text \<open>The second is the unique identifier, which the database refuses twice.\<close>

datatype path_error = PathConflict | PathDuplicate

definition pl_key :: "path_lease \<Rightarrow> string \<times> string" where
  "pl_key l = (pl_repo l, pl_scope l)"

definition prune_paths :: "seconds \<Rightarrow> path_lease list \<Rightarrow> path_lease list" where
  "prune_paths now t = filter (\<lambda>l. \<not> pl_expires l \<le> now) t"

definition read_paths :: "seconds \<Rightarrow> path_lease list \<Rightarrow> path_lease list \<times> path_lease list" where
  "read_paths now t = (prune_paths now t, prune_paths now t)"

definition check_path :: "seconds \<Rightarrow> string \<Rightarrow> string \<Rightarrow> path_lease list \<Rightarrow> path_lease option \<times> path_lease list" where
  "check_path now repo scope t =
     (let t1 = prune_paths now t in (row_lookup pl_key (repo, scope) t1, t1))"

definition acquire_path ::
    "string \<Rightarrow> seconds \<Rightarrow> string \<Rightarrow> string \<Rightarrow> string \<Rightarrow> seconds \<Rightarrow> path_lease list \<Rightarrow>
     path_error + path_lease \<times> path_lease list" where
  "acquire_path fresh now repo scope owner ttl t =
     (let k = (repo, scope);
          t1 = filter (\<lambda>l. \<not> (pl_key l = k \<and> pl_expires l \<le> now)) t
      in case row_lookup pl_key k t1 of
           Some r \<Rightarrow>
             if pl_owner r \<noteq> owner then Inl PathConflict
             else Inr (r\<lparr>pl_expires := now + ttl\<rparr>, row_update pl_key k (\<lambda>l. l\<lparr>pl_expires := now + ttl\<rparr>) t1)
         | None \<Rightarrow>
             if fresh \<in> pl_id ` set t1 then Inl PathDuplicate
             else let l = \<lparr>pl_id = fresh, pl_repo = repo, pl_scope = scope, pl_owner = owner, pl_acquired = now,
                           pl_expires = now + ttl\<rparr>
                  in Inr (l, t1 @ [l]))"

definition locked_path :: "string \<Rightarrow> string \<Rightarrow> seconds option \<Rightarrow> path_lease list \<Rightarrow> path_lease option" where
  "locked_path lid owner active_at t =
     (case row_lookup pl_id lid t of
        None \<Rightarrow> None
      | Some r \<Rightarrow>
          if pl_owner r \<noteq> owner \<or> (case active_at of None \<Rightarrow> False | Some now \<Rightarrow> pl_expires r \<le> now) then None else Some r)"

definition renew_path ::
    "seconds \<Rightarrow> string \<Rightarrow> string \<Rightarrow> seconds \<Rightarrow> path_lease list \<Rightarrow> path_error + path_lease \<times> path_lease list" where
  "renew_path now lid owner ttl t =
     (case locked_path lid owner (Some now) t of
        None \<Rightarrow> Inl PathConflict
      | Some r \<Rightarrow> Inr (r\<lparr>pl_expires := now + ttl\<rparr>, row_update pl_id lid (\<lambda>l. l\<lparr>pl_expires := now + ttl\<rparr>) t))"

definition release_path :: "string \<Rightarrow> string \<Rightarrow> path_lease list \<Rightarrow> path_error + path_lease list" where
  "release_path lid owner t =
     (case locked_path lid owner None t of None \<Rightarrow> Inl PathConflict | Some r \<Rightarrow> Inr (row_delete pl_id lid t))"

section \<open>Any sequence of requests\<close>

text \<open>A refused request is a 409 of its route and leaves the table as it was.\<close>

datatype path_op =
    PathAcquire string string string string seconds
  | PathRenew string string seconds
  | PathRelease string string
  | PathRead

fun path_step :: "seconds \<times> path_op \<Rightarrow> path_lease list \<Rightarrow> path_lease list" where
  "path_step (now, PathAcquire fresh repo scope owner ttl) t =
     (case acquire_path fresh now repo scope owner ttl t of Inl _ \<Rightarrow> t | Inr (l, t') \<Rightarrow> t')"
| "path_step (now, PathRenew lid owner ttl) t = (case renew_path now lid owner ttl t of Inl _ \<Rightarrow> t | Inr (l, t') \<Rightarrow> t')"
| "path_step (now, PathRelease lid owner) t = (case release_path lid owner t of Inl _ \<Rightarrow> t | Inr t' \<Rightarrow> t')"
| "path_step (now, PathRead) t = snd (read_paths now t)"

definition path_run :: "(seconds \<times> path_op) list \<Rightarrow> path_lease list \<Rightarrow> path_lease list" where
  "path_run ops t = fold path_step ops t"

fun path_owner :: "path_op \<Rightarrow> string option" where
  "path_owner (PathAcquire fresh repo scope owner ttl) = Some owner"
| "path_owner (PathRenew lid owner ttl) = Some owner"
| "path_owner (PathRelease lid owner) = Some owner"
| "path_owner PathRead = None"

text \<open>What the two unique columns say.\<close>

definition paths_ok :: "path_lease list \<Rightarrow> bool" where
  "paths_ok t = (keyed pl_key t \<and> keyed pl_id t)"

lemma paths_ok_filter: "paths_ok t \<Longrightarrow> paths_ok (filter P t)"
  by (simp add: paths_ok_def keyed_filter)

lemma pl_key_expires [simp]: "pl_key (l\<lparr>pl_expires := e\<rparr>) = pl_key l"
  by (simp add: pl_key_def)

lemma paths_ok_update: "paths_ok t \<Longrightarrow> paths_ok (row_update key k (\<lambda>l. l\<lparr>pl_expires := e\<rparr>) t)"
  by (auto simp add: paths_ok_def row_update_def intro!: keyed_map)

definition unexpired_at :: "seconds \<Rightarrow> string \<times> string \<Rightarrow> path_lease list \<Rightarrow> path_lease list" where
  "unexpired_at now k t = filter (\<lambda>l. \<not> (pl_key l = k \<and> pl_expires l \<le> now)) t"

lemma acquire_path_cases [consumes 1, case_names renewed leased]:
  assumes "acquire_path fresh now repo scope owner ttl t = Inr (l, t')"
  obtains r where "row_lookup pl_key (repo, scope) (unexpired_at now (repo, scope) t) = Some r" "pl_owner r = owner"
      "l = r\<lparr>pl_expires := now + ttl\<rparr>"
      "t' = row_update pl_key (repo, scope) (\<lambda>l. l\<lparr>pl_expires := now + ttl\<rparr>) (unexpired_at now (repo, scope) t)"
    | "row_lookup pl_key (repo, scope) (unexpired_at now (repo, scope) t) = None"
      "fresh \<notin> pl_id ` set (unexpired_at now (repo, scope) t)"
      "l = \<lparr>pl_id = fresh, pl_repo = repo, pl_scope = scope, pl_owner = owner, pl_acquired = now, pl_expires = now + ttl\<rparr>"
      "t' = unexpired_at now (repo, scope) t @ [l]"
proof (cases "row_lookup pl_key (repo, scope) (unexpired_at now (repo, scope) t)")
  case None
  with assms show ?thesis by (auto simp only: acquire_path_def Let_def unexpired_at_def [symmetric] option.case if_split_asm
        sum.inject prod.inject sum.distinct intro: that(2) split: if_split_asm)
next
  case (Some r)
  with assms show ?thesis by (auto simp only: acquire_path_def Let_def unexpired_at_def [symmetric] option.case
        sum.inject prod.inject sum.distinct intro: that(1) split: if_split_asm)
qed

lemma paths_ok_acquire:
  assumes "acquire_path fresh now repo scope owner ttl t = Inr (l, t')" "paths_ok t"
  shows "paths_ok t'"
  using assms(1)
proof (cases rule: acquire_path_cases)
  case (renewed r)
  then show ?thesis by (auto simp add: unexpired_at_def intro!: paths_ok_update paths_ok_filter assms(2))
next
  case leased
  then show ?thesis using paths_ok_filter [OF assms(2)]
    by (auto simp add: paths_ok_def unexpired_at_def row_lookup_None_iff pl_key_def intro!: keyed_append1)
qed

lemma paths_ok_step: "paths_ok t \<Longrightarrow> paths_ok (path_step (now, op) t)"
  by (cases op) (auto simp add: read_paths_def prune_paths_def paths_ok_filter paths_ok_update renew_path_def release_path_def row_delete_def
      split: sum.split prod.split option.split intro: paths_ok_acquire)

section \<open>A lease is its owner's until it expires\<close>

lemma locked_not_others:
  assumes "paths_ok t" "r \<in> set t" "owner \<noteq> pl_owner r" "locked_path lid owner active_at t = Some q"
  shows "pl_id r \<noteq> lid"
proof
  assume "pl_id r = lid"
  then have "row_lookup pl_id lid t = Some r" using assms(1,2) by (simp add: paths_ok_def row_lookup_Some_iff)
  then show False using assms(3,4) by (simp add: locked_path_def split: if_splits)
qed

lemma kept_by_others:
  assumes "paths_ok t" "r \<in> set t" "now < pl_expires r" "path_owner op \<noteq> Some (pl_owner r)"
  shows "r \<in> set (path_step (now, op) t)"
proof (cases op)
  case (PathAcquire fresh repo scope owner ttl)
  show ?thesis
  proof (cases "acquire_path fresh now repo scope owner ttl t")
    case (Inr lt)
    obtain l t' where lt: "lt = (l, t')" by (cases lt)
    have live: "r \<in> set (unexpired_at now (repo, scope) t)" using assms by (simp add: unexpired_at_def)
    have "r \<in> set t'"
      using Inr [unfolded lt]
    proof (cases rule: acquire_path_cases)
      case (renewed q)
      have "pl_key r \<noteq> (repo, scope)"
      proof
        assume k: "pl_key r = (repo, scope)"
        have u: "keyed pl_key (unexpired_at now (repo, scope) t)"
          using assms(1) by (simp add: paths_ok_def unexpired_at_def keyed_filter)
        have "row_lookup pl_key (repo, scope) (unexpired_at now (repo, scope) t) = Some r"
          by (subst row_lookup_Some_iff [OF u]) (rule conjI live k)+
        then have "q = r" using renewed(1) by simp
        then show False using renewed(2) assms(4) PathAcquire by simp
      qed
      then show ?thesis using renewed(4) live by (force simp add: row_update_def)
    next
      case leased
      then show ?thesis using live by simp
    qed
    then show ?thesis using PathAcquire Inr lt by simp
  qed (use PathAcquire assms in simp)
next
  case (PathRenew lid owner ttl)
  have "locked_path lid owner (Some now) t = Some q \<Longrightarrow> pl_id r \<noteq> lid" for q
    using locked_not_others [OF assms(1,2)] assms(4) PathRenew by auto
  then show ?thesis using PathRenew assms(2) by (force simp add: renew_path_def row_update_def split: option.split)
next
  case (PathRelease lid owner)
  have "locked_path lid owner None t = Some q \<Longrightarrow> pl_id r \<noteq> lid" for q
    using locked_not_others [OF assms(1,2)] assms(4) PathRelease by auto
  then show ?thesis using PathRelease assms(2) by (auto simp add: release_path_def row_delete_def split: option.split)
next
  case PathRead
  then show ?thesis using assms by (simp add: read_paths_def prune_paths_def)
qed

lemma kept_along_run:
  assumes "list_all (\<lambda>(now, op). now < pl_expires r \<and> path_owner op \<noteq> Some (pl_owner r)) ops" "paths_ok t" "r \<in> set t"
  shows "paths_ok (path_run ops t) \<and> r \<in> set (path_run ops t)"
  using assms unfolding path_run_def
proof (induction ops arbitrary: t)
  case (Cons x ops)
  obtain now op where x: "x = (now, op)" by (cases x)
  show ?case using Cons.IH [of "path_step x t"] Cons.prems x paths_ok_step kept_by_others [of t r now op] by simp
qed simp

lemma acquired_row:
  assumes "acquire_path fresh now repo scope owner ttl t = Inr (l, t')"
  shows "l \<in> set t' \<and> pl_key l = (repo, scope) \<and> pl_owner l = owner \<and> pl_expires l = now + ttl"
  using assms
proof (cases rule: acquire_path_cases)
  case (renewed r)
  then show ?thesis using row_lookup_SomeD [OF renewed(1)] by (force simp add: row_update_def)
qed (simp add: pl_key_def)

lemma holder_answers:
  assumes "paths_ok t" "r \<in> set t" "now < pl_expires r" "pl_key r = (repo, scope)"
  shows "fst (check_path now repo scope t) = Some r"
    and "owner \<noteq> pl_owner r \<Longrightarrow> acquire_path fresh now repo scope owner ttl t = Inl PathConflict"
proof -
  have "row_lookup pl_key (repo, scope) (prune_paths now t) = Some r"
    using assms paths_ok_filter [OF assms(1)] by (simp add: prune_paths_def paths_ok_def row_lookup_Some_iff)
  then show "fst (check_path now repo scope t) = Some r" by (simp add: check_path_def Let_def)
  have "row_lookup pl_key (repo, scope) (unexpired_at now (repo, scope) t) = Some r"
    using assms paths_ok_filter [OF assms(1)] by (simp add: unexpired_at_def paths_ok_def row_lookup_Some_iff)
  then show "owner \<noteq> pl_owner r \<Longrightarrow> acquire_path fresh now repo scope owner ttl t = Inl PathConflict"
    by (simp add: acquire_path_def Let_def unexpired_at_def)
qed

text \<open>
  A lease of a path or an issue is exclusive. Once it is granted, then whatever others request, in any order and at
  any readings of the clock before its expiry, the check answers this lease and every other owner's request for the
  same scope is refused; only requests that name its owner can shorten or end it.
\<close>

theorem path_lease_exclusive:
  assumes "paths_ok t"
    and "acquire_path fresh now repo scope owner ttl t = Inr (l, t1)"
    and "list_all (\<lambda>(u, op). u < now + ttl \<and> path_owner op \<noteq> Some owner) ops"
    and "later < now + ttl" and "other \<noteq> owner"
  shows "fst (check_path later repo scope (path_run ops t1)) = Some l \<and>
         acquire_path fresh' later repo scope other ttl' (path_run ops t1) = Inl PathConflict"
proof -
  note row = acquired_row [OF assms(2)]
  have "paths_ok (path_run ops t1) \<and> l \<in> set (path_run ops t1)"
    using kept_along_run [of l ops t1] row assms(3) paths_ok_acquire [OF assms(2,1)] by simp
  then show ?thesis using holder_answers [of "path_run ops t1" l later repo scope] row assms(4,5) by simp
qed

definition demo_paths :: "(seconds \<times> path_op) list" where
  "demo_paths =
     [(5, PathAcquire ''b'' ''Dash'' ''issue:7'' ''bob'' 60), (3, PathRelease ''a'' ''bob''), (9, PathRead),
      (8, PathAcquire ''c'' ''Dash'' ''src/x'' ''bob'' 60)]"

lemma path_lease_exclusive_witness:
  "acquire_path ''d'' 19 ''Dash'' ''issue:7'' ''bob'' 5
     (path_run demo_paths [\<lparr>pl_id = ''a'', pl_repo = ''Dash'', pl_scope = ''issue:7'', pl_owner = ''ann'', pl_acquired = 0, pl_expires = 20\<rparr>])
   = Inl PathConflict"
proof -
  have "acquire_path ''a'' 0 ''Dash'' ''issue:7'' ''ann'' 20 [] =
      Inr (\<lparr>pl_id = ''a'', pl_repo = ''Dash'', pl_scope = ''issue:7'', pl_owner = ''ann'', pl_acquired = 0, pl_expires = 20\<rparr>,
           [\<lparr>pl_id = ''a'', pl_repo = ''Dash'', pl_scope = ''issue:7'', pl_owner = ''ann'', pl_acquired = 0, pl_expires = 20\<rparr>])"
    by (simp add: acquire_path_def Let_def)
  then show ?thesis
    using path_lease_exclusive [of "[]" "''a''" 0 "''Dash''" "''issue:7''" "''ann''" 20 _ _ demo_paths 19 "''bob''"]
    by (simp add: paths_ok_def keyed_def demo_paths_def)
qed

section \<open>The contract of claims\<close>

text \<open>Within a window that no lease of it outlives, a new lease is a grant of its scope and a release frees it.\<close>

fun path_effect :: "seconds \<times> path_op \<Rightarrow> path_lease list \<Rightarrow> (string \<times> string) claim_effect \<times> path_lease list" where
  "path_effect (now, PathAcquire fresh repo scope owner ttl) t =
     (case acquire_path fresh now repo scope owner ttl t of
        Inl _ \<Rightarrow> (Neither, t)
      | Inr (l, t') \<Rightarrow>
          (if row_lookup pl_key (repo, scope) (unexpired_at now (repo, scope) t) = None then Granted (repo, scope) else Neither, t'))"
| "path_effect (now, PathRelease lid owner) t =
     (case release_path lid owner t of
        Inl _ \<Rightarrow> (Neither, t)
      | Inr t' \<Rightarrow> (case row_lookup pl_id lid t of Some r \<Rightarrow> Freed (pl_key r) | None \<Rightarrow> Neither, t'))"
| "path_effect (now, op) t = (Neither, path_step (now, op) t)"

fun path_fine :: "seconds \<Rightarrow> seconds \<times> path_op \<Rightarrow> bool" where
  "path_fine T (now, PathAcquire fresh repo scope owner ttl) = (now < T \<and> T \<le> now + ttl)"
| "path_fine T (now, PathRenew lid owner ttl) = (now < T \<and> T \<le> now + ttl)"
| "path_fine T (now, op) = (now < T)"

definition path_taken :: "seconds \<Rightarrow> path_lease list \<Rightarrow> string \<times> string \<Rightarrow> bool" where
  "path_taken T t k = list_ex (\<lambda>r. pl_key r = k \<and> T \<le> pl_expires r) t"

lemma path_effect_state: "snd (path_effect (now, op) t) = path_step (now, op) t"
  by (cases op) (auto split: sum.split prod.split)

lemma path_taken_update:
  "path_taken T t k \<Longrightarrow> T \<le> e \<Longrightarrow> path_taken T (row_update key k' (\<lambda>l. l\<lparr>pl_expires := e\<rparr>) t) k"
  by (induction t) (auto simp add: path_taken_def)

lemma path_taken_unexpired: "path_taken T t k \<Longrightarrow> now < T \<Longrightarrow> path_taken T (unexpired_at now k' t) k"
  by (force simp add: path_taken_def list_ex_iff unexpired_at_def)

lemma path_taken_stays:
  assumes "path_fine T (now, op)" "path_taken T t k" "fst (path_effect (now, op) t) \<noteq> Freed k" "paths_ok t"
  shows "path_taken T (path_step (now, op) t) k"
proof (cases op)
  case (PathAcquire fresh repo scope owner ttl)
  show ?thesis
  proof (cases "acquire_path fresh now repo scope owner ttl t")
    case (Inr lt)
    obtain l t' where lt: "lt = (l, t')" by (cases lt)
    have u: "path_taken T (unexpired_at now (repo, scope) t) k"
      using path_taken_unexpired assms(1,2) PathAcquire by simp
    have "path_taken T t' k"
      using Inr [unfolded lt]
    proof (cases rule: acquire_path_cases)
      case (renewed r)
      then show ?thesis using assms(1) PathAcquire by (auto intro!: path_taken_update u)
    next
      case leased
      then show ?thesis using u by (simp add: path_taken_def)
    qed
    then show ?thesis using PathAcquire Inr lt by simp
  qed (use PathAcquire assms in simp)
next
  case (PathRenew lid owner ttl)
  then show ?thesis using assms by (auto simp add: renew_path_def path_taken_update split: option.split)
next
  case (PathRelease lid owner)
  show ?thesis
  proof (cases "locked_path lid owner None t")
    case (Some q)
    then have q: "row_lookup pl_id lid t = Some q" by (simp add: locked_path_def split: option.splits if_splits)
    obtain r where r: "r \<in> set t" "pl_key r = k" "T \<le> pl_expires r"
      using assms(2) by (auto simp add: path_taken_def list_ex_iff)
    have "pl_id r \<noteq> lid"
    proof
      assume "pl_id r = lid"
      then have "row_lookup pl_id lid t = Some r" using r assms(4) by (simp add: paths_ok_def row_lookup_Some_iff)
      then show False using q r assms(3) PathRelease Some by (simp add: release_path_def)
    qed
    then show ?thesis using PathRelease Some r by (auto simp add: release_path_def row_delete_def path_taken_def list_ex_iff)
  qed (use assms PathRelease in \<open>simp add: release_path_def\<close>)
next
  case PathRead
  then show ?thesis using assms by (force simp add: read_paths_def prune_paths_def path_taken_def list_ex_iff)
qed

lemma granted_by_acquire:
  assumes "fst (path_effect (now, op) t) = Granted k"
  obtains fresh owner ttl l t' where "op = PathAcquire fresh (fst k) (snd k) owner ttl"
    "acquire_path fresh now (fst k) (snd k) owner ttl t = Inr (l, t')" "path_step (now, op) t = t'"
    "row_lookup pl_key k (unexpired_at now k t) = None"
  using assms by (cases op) (auto split: sum.splits prod.splits if_splits option.splits)

interpretation paths: claim_table paths_ok "path_taken T" "path_fine T" path_effect for T :: seconds
proof (unfold_locales, goal_cases)
  case (1 t e)
  then show ?case by (cases e) (simp add: path_effect_state paths_ok_step)
next
  case (2 t e k)
  obtain now op where e: "e = (now, op)" by (cases e)
  then have "row_lookup pl_key k (unexpired_at now k t) = None \<and> now < T"
    using 2 by (auto elim!: granted_by_acquire)
  then show ?case by (auto simp add: path_taken_def list_ex_iff row_lookup_None_iff unexpired_at_def image_iff)
next
  case (3 t e k)
  obtain now op where e: "e = (now, op)" by (cases e)
  then obtain fresh owner ttl l t' where a: "op = PathAcquire fresh (fst k) (snd k) owner ttl"
    "acquire_path fresh now (fst k) (snd k) owner ttl t = Inr (l, t')" "path_step (now, op) t = t'"
    using 3 by (auto elim!: granted_by_acquire)
  then show ?case using acquired_row [OF a(2)] 3 e by (auto simp add: path_effect_state path_taken_def list_ex_iff)
next
  case (4 t e k)
  then show ?case by (cases e) (simp add: path_effect_state path_taken_stays)
qed

text \<open>Within such a window a scope is leased anew at most once more often than it is released.\<close>

lemma paths_granted_once:
  "paths_ok t \<Longrightarrow> list_all (path_fine T) es \<Longrightarrow>
   granted k (claim_run path_effect es t) \<le> 1 + freed k (claim_run path_effect es t)"
  by (rule paths.once_unless_freed)

end
