(* ===== verification/Cursor_Hook.thy ===== *)
theory Cursor_Hook
  imports Path_Leases
begin

text \<open>
  The hook that leases the target of a run of Cursor, \<open>backend/coordination/cursor_dispatch_lease.py\<close>, with its two
  calls in \<open>StaffRunner._execute\<close> (\<open>backend/staff/runner.py\<close>) and the reading of a target in \<open>staff/cloud_dispatch.py\<close>.
  The registry of leases is memory of the process; the table of leases and the runs are shared.
\<close>

section \<open>State\<close>

type_synonym lease_target = "int option \<times> int option"

record cursor_state =
  cu_paths :: "path_lease list"
  cu_active :: "(string, path_lease \<times> lease_target) dict"
  cu_world :: staff_world

text \<open>Both errors leave the hook as exceptions: no issue and no pull request, and a duplicate identifier.\<close>

datatype cursor_error = NoTarget | LeaseWrite

section \<open>The target\<close>

definition present_int :: "int option \<Rightarrow> bool" where
  "present_int n = (n \<noteq> None \<and> n \<noteq> Some 0)"

definition cursor_dispatch_scope :: "lease_target \<Rightarrow> string option" where
  "cursor_dispatch_scope tgt =
     (case tgt of (issue, pr) \<Rightarrow>
        if present_int issue then Some (''issue:'' @ int_text (the issue))
        else if present_int pr then Some (''pr:'' @ int_text (the pr))
        else None)"

definition targets_from_record :: "string \<Rightarrow> string \<Rightarrow> lease_target" where
  "targets_from_record kind ref =
     (if kind = ''issue'' \<and> py_startswith ref ''#'' then (py_int (drop 1 ref), None)
      else if kind = ''pr'' then (None, let ds = filter is_digit ref in if ds \<noteq> [] then py_int ds else None)
      else (None, None))"

definition plan_target :: "launch_plan \<Rightarrow> lease_target" where
  "plan_target plan = targets_from_record (rj_target_kind (lp_subject plan)) (rj_target_ref (lp_subject plan))"

section \<open>Before the launch and after the process\<close>

text \<open>The inner option is a refused launch.\<close>

definition pre_launch_lease_recheck ::
    "string \<Rightarrow> seconds \<Rightarrow> string \<Rightarrow> lease_target \<Rightarrow> string \<Rightarrow> seconds \<Rightarrow> path_lease list \<Rightarrow>
     cursor_error + (path_lease \<times> path_lease list) option" where
  "pre_launch_lease_recheck fresh now repo tgt owner ttl t =
     (case cursor_dispatch_scope tgt of
        None \<Rightarrow> Inl NoTarget
      | Some scope \<Rightarrow>
          (case acquire_path fresh now repo scope owner ttl t of
             Inl PathConflict \<Rightarrow> Inr None
           | Inl PathDuplicate \<Rightarrow> Inl LeaseWrite
           | Inr lt \<Rightarrow> Inr (Some lt)))"

definition pre_publish_lease_recheck ::
    "seconds \<Rightarrow> string \<Rightarrow> lease_target \<Rightarrow> string \<Rightarrow> path_lease list \<Rightarrow> cursor_error + bool \<times> path_lease list" where
  "pre_publish_lease_recheck now repo tgt owner t =
     (case cursor_dispatch_scope tgt of
        None \<Rightarrow> Inl NoTarget
      | Some scope \<Rightarrow>
          (case check_path now repo scope t of
             (r, t1) \<Rightarrow> Inr ((case r of None \<Rightarrow> True | Some l \<Rightarrow> pl_owner l = owner), t1)))"

definition release_lease_quietly :: "path_lease \<Rightarrow> path_lease list \<Rightarrow> path_lease list" where
  "release_lease_quietly l t = (case release_path (pl_id l) (pl_owner l) t of Inl _ \<Rightarrow> t | Inr t1 \<Rightarrow> t1)"

definition block_run :: "string \<Rightarrow> string \<Rightarrow> staff_world \<Rightarrow> staff_world" where
  "block_run rid ended w =
     append_event rid ''blocked''
       (update_run rid (\<lambda>r. r\<lparr>sf_status := RunBlocked, sf_class := ''cursor_path_lease_blocked'', sf_ended_at := Some ended,
                           sf_error := ''cursor dispatch path lease held by another run''\<rparr>) w)"

definition cursor_pre_launch_or_block ::
    "string \<Rightarrow> seconds \<Rightarrow> string \<Rightarrow> launch_plan \<Rightarrow> string \<Rightarrow> seconds \<Rightarrow> cursor_state \<Rightarrow>
     (cursor_error + bool) \<times> cursor_state" where
  "cursor_pre_launch_or_block fresh now ended plan rid timeout s =
     (if lp_provider plan \<noteq> ''cursor-agent'' then (Inr True, s)
      else case pre_launch_lease_recheck fresh now (rj_repo (lp_subject plan)) (plan_target plan) rid (timeout + 300) (cu_paths s) of
        Inl e \<Rightarrow> (Inl e, s)
      | Inr None \<Rightarrow> (Inr False, s\<lparr>cu_world := block_run rid ended (cu_world s)\<rparr>)
      | Inr (Some (l, t)) \<Rightarrow>
          (Inr True, s\<lparr>cu_paths := t, cu_active := AList.update rid (l, plan_target plan) (cu_active s)\<rparr>))"

definition cursor_finalize_on_publish :: "seconds \<Rightarrow> string \<Rightarrow> cursor_state \<Rightarrow> cursor_state" where
  "cursor_finalize_on_publish now rid s =
     (case map_of (cu_active s) rid of
        None \<Rightarrow> s
      | Some (l, tgt) \<Rightarrow>
          let s1 = s\<lparr>cu_active := AList.delete rid (cu_active s)\<rparr>
          in case pre_publish_lease_recheck now (pl_repo l) tgt rid (cu_paths s1) of
               Inl e \<Rightarrow> s1
             | Inr (fine, t) \<Rightarrow>
                 s1\<lparr>cu_world := (if fine then cu_world s1 else append_event rid ''lease'' (cu_world s1)),
                    cu_paths := release_lease_quietly l t\<rparr>)"

text \<open>What \<open>_execute\<close> does once the process has ended.\<close>

definition after_process :: "seconds \<Rightarrow> launch_plan \<Rightarrow> string \<Rightarrow> cursor_state \<Rightarrow> cursor_state" where
  "after_process now plan rid s = (if lp_mode plan = ''cloud'' then cursor_finalize_on_publish now rid s else s)"

section \<open>One launch of a target at a time\<close>

lemma cursor_launch_cases [consumes 2]:
  assumes "cursor_pre_launch_or_block fresh now ended plan rid timeout s = (Inr True, s1)" "lp_provider plan = ''cursor-agent''"
  obtains scope l t where "cursor_dispatch_scope (plan_target plan) = Some scope"
    "acquire_path fresh now (rj_repo (lp_subject plan)) scope rid (timeout + 300) (cu_paths s) = Inr (l, t)"
    "s1 = s\<lparr>cu_paths := t, cu_active := AList.update rid (l, plan_target plan) (cu_active s)\<rparr>"
  using assms
  by (auto simp add: cursor_pre_launch_or_block_def pre_launch_lease_recheck_def
      split: sum.splits option.splits prod.splits path_error.splits)

lemma target_needed:
  assumes "cursor_dispatch_scope (plan_target plan) = None" "lp_provider plan = ''cursor-agent''"
  shows "cursor_pre_launch_or_block fresh now ended plan rid timeout s = (Inl NoTarget, s)"
  using assms by (simp add: cursor_pre_launch_or_block_def pre_launch_lease_recheck_def)

text \<open>C34: Two runs of Cursor are never launched on one issue or pull request at the same time. After one was launched,
  any other run of Cursor whose plan names the same target of the same repository is refused and marked blocked, for
  as long as the first run's timeout and five minutes have not passed and no request for the leases named the first
  run. A run of another provider takes no lease and is not refused.\<close>

theorem target_launched_once:
  assumes "cursor_pre_launch_or_block fresh now ended plan rid timeout s = (Inr True, s1)"
    and "lp_provider plan = ''cursor-agent''" and "paths_ok (cu_paths s)"
    and "list_all (\<lambda>(u, op). u < now + (timeout + 300) \<and> path_owner op \<noteq> Some rid) ops"
    and "s2 = s1\<lparr>cu_paths := path_run ops (cu_paths s1), cu_world := world\<rparr>"
    and "later < now + (timeout + 300)" and "rid' \<noteq> rid"
    and "lp_provider plan' = ''cursor-agent''" and "rj_repo (lp_subject plan') = rj_repo (lp_subject plan)"
    and "cursor_dispatch_scope (plan_target plan') = cursor_dispatch_scope (plan_target plan)"
  shows "cursor_pre_launch_or_block fresh' later ended' plan' rid' timeout' s2 =
           (Inr False, s2\<lparr>cu_world := block_run rid' ended' world\<rparr>)"
proof -
  obtain scope l t where scope: "cursor_dispatch_scope (plan_target plan) = Some scope"
    and a: "acquire_path fresh now (rj_repo (lp_subject plan)) scope rid (timeout + 300) (cu_paths s) = Inr (l, t)"
    and s1: "s1 = s\<lparr>cu_paths := t, cu_active := AList.update rid (l, plan_target plan) (cu_active s)\<rparr>"
    by (rule cursor_launch_cases [OF assms(1,2)])
  have keep: "paths_ok (path_run ops t) \<and> l \<in> set (path_run ops t)"
    using kept_along_run [of l ops t] acquired_row [OF a] assms(4) paths_ok_acquire [OF a assms(3)] by simp
  have "acquire_path fresh' later (rj_repo (lp_subject plan)) scope rid' (timeout' + 300) (path_run ops t) = Inl PathConflict"
    using holder_answers(2) [of "path_run ops t" l later "rj_repo (lp_subject plan)" scope rid'] keep acquired_row [OF a] assms(6,7)
    by simp
  then show ?thesis
    using assms(5,8,9,10) scope s1 by (simp add: cursor_pre_launch_or_block_def pre_launch_lease_recheck_def)
qed

section \<open>A trial, and where the hook fails\<close>

definition demo_plan :: "string \<Rightarrow> string \<Rightarrow> string \<Rightarrow> launch_plan" where
  "demo_plan kind ref mode =
     \<lparr>lp_subject = \<lparr>rj_role = ''maintenance'', rj_repo = ''Dash'', rj_target_kind = kind, rj_target_ref = ref, rj_prompt = []\<rparr>,
      lp_provider = ''cursor-agent'', lp_model = None, lp_tier = [], lp_branch = [], lp_lease = False, lp_mode = mode, lp_strategy = []\<rparr>"

definition demo_cursor :: cursor_state where
  "demo_cursor =
     \<lparr>cu_paths = [], cu_active = [],
      cu_world = \<lparr>wr_rows = [], wr_events = [], wr_cooldowns = [], wr_workers = [], wr_launched = [], wr_cancels = []\<rparr>\<rparr>"

lemma target_launched_once_witness:
  "fst (cursor_pre_launch_or_block ''b'' 3000 ''end'' (demo_plan ''issue'' ''#07'' ''local'') ''r2'' 60
          (snd (cursor_pre_launch_or_block ''a'' 0 ''end'' (demo_plan ''issue'' ''#7'' ''cloud'') ''r1'' 3600 demo_cursor))) = Inr False"
proof -
  let ?first = "cursor_pre_launch_or_block ''a'' 0 ''end'' (demo_plan ''issue'' ''#7'' ''cloud'') ''r1'' 3600 demo_cursor"
  have run: "?first = (Inr True, snd ?first)" by code_simp
  have ok: "paths_ok (cu_paths demo_cursor)" by code_simp
  have plan: "lp_provider (demo_plan k x m) = ''cursor-agent''" "rj_repo (lp_subject (demo_plan k x m)) = ''Dash''" for k x m
    by (simp_all add: demo_plan_def)
  have scope: "cursor_dispatch_scope (plan_target (demo_plan ''issue'' ''#07'' ''local'')) =
      cursor_dispatch_scope (plan_target (demo_plan ''issue'' ''#7'' ''cloud''))" by code_simp
  have "cursor_pre_launch_or_block ''b'' 3000 ''end'' (demo_plan ''issue'' ''#07'' ''local'') ''r2'' 60 (snd ?first) =
      (Inr False, (snd ?first)\<lparr>cu_world := block_run ''r2'' ''end'' (cu_world (snd ?first))\<rparr>)"
    using target_launched_once [OF run plan(1) ok, of "[]" "snd ?first" "cu_world (snd ?first)" 3000 "''r2''",
        OF _ _ _ _ plan(1) _ scope] plan(2)
    by (simp add: path_run_def)
  then show ?thesis by simp
qed

text \<open>A run of the local CLI needs a target as well, though only the cloud does anything with one.\<close>

lemma prompt_run_refused:
  "lp_provider plan = ''cursor-agent'' \<Longrightarrow> rj_target_kind (lp_subject plan) = ''prompt'' \<Longrightarrow>
   cursor_pre_launch_or_block fresh now ended plan rid timeout s = (Inl NoTarget, s)"
  by (rule target_needed) (simp_all add: plan_target_def targets_from_record_def cursor_dispatch_scope_def present_int_def)

text \<open>A local run never gives its lease back: the next attempt at the issue is a run of its own, and blocked.\<close>

lemma local_lease_kept:
  "lp_mode plan \<noteq> ''cloud'' \<Longrightarrow> after_process now plan rid s = s"
  "(let s1 = snd (cursor_pre_launch_or_block ''a'' 0 ''t1'' (demo_plan ''issue'' ''#7'' ''local'') ''r1'' 3600 demo_cursor);
        s2 = after_process 60 (demo_plan ''issue'' ''#7'' ''local'') ''r1'' s1
    in fst (cursor_pre_launch_or_block ''b'' 90 ''t2'' (demo_plan ''issue'' ''#7'' ''local'') ''r1-2'' 3600 s2)) = Inr False"
  by (simp add: after_process_def) code_simp

text \<open>A run of the cloud gives it back.\<close>

lemma cloud_lease_released:
  "cu_paths (after_process 60 (demo_plan ''issue'' ''#7'' ''cloud'') ''r1''
     (snd (cursor_pre_launch_or_block ''a'' 0 ''t1'' (demo_plan ''issue'' ''#7'' ''cloud'') ''r1'' 3600 demo_cursor))) = []"
  by code_simp

text \<open>Another run that took over a lapsed lease and has finished leaves no trace for the check before publishing.\<close>

lemma takeover_unseen:
  "(let s1 = snd (cursor_pre_launch_or_block ''a'' 0 ''t1'' (demo_plan ''pr'' ''PR #7'' ''cloud'') ''r1'' 60 demo_cursor);
        (launched, s2) = cursor_pre_launch_or_block ''b'' 400 ''t2'' (demo_plan ''pr'' ''PR #7'' ''cloud'') ''r2'' 60 s1;
        s3 = after_process 500 (demo_plan ''pr'' ''PR #7'' ''cloud'') ''r2'' s2;
        s4 = after_process 600 (demo_plan ''pr'' ''PR #7'' ''cloud'') ''r1'' s3
    in (launched, wr_events (cu_world s4))) = (Inr True, [])"
  by code_simp

end
