(* ===== verification/Ci_Locks.thy ===== *)
theory Ci_Locks
  imports Claim_Spec
begin

text \<open>
  The locks of CI-fix sessions, \<open>backend/ci_fix_locks.py\<close>: one row per pull request, shared by every process. A
  transaction is one step at one reading of the clock. The liveness probe is an argument: \<open>Some False\<close> is an ended
  run, \<open>None\<close> a probe that raises (or none at all).
\<close>

section \<open>The table\<close>

record ci_lock =
  ck_repo :: string
  ck_pr :: int
  ck_display :: string
  ck_session :: string
  ck_run :: string
  ck_acquired :: seconds
  ck_deadline :: seconds

type_synonym probe = "string \<Rightarrow> bool option"

definition ck_key :: "ci_lock \<Rightarrow> string \<times> int" where
  "ck_key l = (ck_repo l, ck_pr l)"

definition pr_key :: "string \<Rightarrow> int \<Rightarrow> string \<times> int" where
  "pr_key repo pr = (py_lower (py_strip repo), pr)"

definition lock_ended :: "probe \<Rightarrow> seconds \<Rightarrow> ci_lock \<Rightarrow> bool" where
  "lock_ended live now l = (ck_deadline l \<le> now \<or> (ck_run l \<noteq> [] \<and> live (ck_run l) = Some False))"

text \<open>The rows of a selection that are still held, and the table without its ended ones.\<close>

definition live_rows :: "probe \<Rightarrow> seconds \<Rightarrow> (ci_lock \<Rightarrow> bool) \<Rightarrow> ci_lock list \<Rightarrow> ci_lock list \<times> ci_lock list" where
  "live_rows live now P t =
     (filter (\<lambda>l. P l \<and> \<not> lock_ended live now l) t, filter (\<lambda>l. \<not> (P l \<and> lock_ended live now l)) t)"

definition acquire_lock :: "probe \<Rightarrow> seconds \<Rightarrow> seconds \<Rightarrow> string \<Rightarrow> int \<Rightarrow> string \<Rightarrow> ci_lock list \<Rightarrow> bool \<times> ci_lock list" where
  "acquire_lock live ttl now repo pr session t =
     (case live_rows live now (\<lambda>l. ck_key l = pr_key repo pr) t of
        (held, t1) \<Rightarrow>
          if held \<noteq> [] then (False, t)
          else (True, t1 @ [\<lparr>ck_repo = fst (pr_key repo pr), ck_pr = pr, ck_display = repo, ck_session = session, ck_run = [],
                             ck_acquired = now, ck_deadline = now + ttl\<rparr>]))"

definition attach_run :: "string \<Rightarrow> int \<Rightarrow> string \<Rightarrow> ci_lock list \<Rightarrow> bool \<times> ci_lock list" where
  "attach_run repo pr run t =
     (row_lookup ck_key (pr_key repo pr) t \<noteq> None, row_update ck_key (pr_key repo pr) (\<lambda>l. l\<lparr>ck_run := run\<rparr>) t)"

definition release_lock :: "string \<Rightarrow> int \<Rightarrow> ci_lock list \<Rightarrow> bool \<times> ci_lock list" where
  "release_lock repo pr t = (row_lookup ck_key (pr_key repo pr) t \<noteq> None, row_delete ck_key (pr_key repo pr) t)"

definition lock_info :: "probe \<Rightarrow> seconds \<Rightarrow> string \<Rightarrow> int \<Rightarrow> ci_lock list \<Rightarrow> ci_lock option \<times> ci_lock list" where
  "lock_info live now repo pr t =
     (case live_rows live now (\<lambda>l. ck_key l = pr_key repo pr) t of
        (held, t1) \<Rightarrow> ((case held of [] \<Rightarrow> None | l # _ \<Rightarrow> Some l), t1))"

definition is_locked :: "probe \<Rightarrow> seconds \<Rightarrow> string \<Rightarrow> int \<Rightarrow> ci_lock list \<Rightarrow> bool \<times> ci_lock list" where
  "is_locked live now repo pr t = (case lock_info live now repo pr t of (l, t1) \<Rightarrow> (l \<noteq> None, t1))"

definition list_locks :: "probe \<Rightarrow> seconds \<Rightarrow> ci_lock list \<Rightarrow> ci_lock list \<times> ci_lock list" where
  "list_locks live now t = live_rows live now (\<lambda>l. True) t"

section \<open>What the operations keep\<close>

lemma keyed_live_rows: "keyed ck_key t \<Longrightarrow> keyed ck_key (snd (live_rows live now P t))"
  by (simp add: live_rows_def keyed_filter)

lemma ck_key_new [simp]:
  "ck_key \<lparr>ck_repo = fst (pr_key repo pr), ck_pr = pr, ck_display = d, ck_session = x, ck_run = r, ck_acquired = a, ck_deadline = e\<rparr> = pr_key repo pr"
  by (simp add: ck_key_def pr_key_def)

lemma ck_key_run [simp]: "ck_key (l\<lparr>ck_run := r\<rparr>) = ck_key l"
  by (simp add: ck_key_def)

lemma acquire_lock_cases:
  assumes "acquire_lock live ttl now repo pr session t = (won, t')"
  obtains "\<not> won" "t' = t" "\<exists>l \<in> set t. ck_key l = pr_key repo pr \<and> \<not> lock_ended live now l"
    | l where "won" "t' = filter (\<lambda>l. \<not> (ck_key l = pr_key repo pr \<and> lock_ended live now l)) t @ [l]"
      "ck_key l = pr_key repo pr" "ck_deadline l = now + ttl" "ck_session l = session" "ck_run l = []"
      "\<forall>l \<in> set t. ck_key l = pr_key repo pr \<longrightarrow> lock_ended live now l"
  using assms by (auto simp add: acquire_lock_def live_rows_def filter_empty_conv split: if_splits)

lemma keyed_acquire:
  assumes "keyed ck_key t" shows "keyed ck_key (snd (acquire_lock live ttl now repo pr session t))"
proof (cases "acquire_lock live ttl now repo pr session t")
  case (Pair won t')
  then show ?thesis
  proof (cases rule: acquire_lock_cases)
    case (2 l)
    have "row_lookup ck_key (pr_key repo pr) (filter (\<lambda>l. \<not> (ck_key l = pr_key repo pr \<and> lock_ended live now l)) t) = None"
      using 2(7) by (auto simp add: row_lookup_None_iff)
    then show ?thesis using Pair 2(2,3) assms by (auto intro!: keyed_append1 keyed_filter)
  qed (use Pair assms in simp)
qed

lemma keyed_acquired: "acquire_lock live ttl now repo pr session t = (won, t') \<Longrightarrow> keyed ck_key t \<Longrightarrow> keyed ck_key t'"
  using keyed_acquire [of t live ttl now repo pr session] by simp

section \<open>The contract of claims\<close>

datatype ci_lock_op =
    LkAcquire string int string
  | LkAttach string int string
  | LkRelease string int
  | LkRead

text \<open>An event is an operation at a reading of the clock with what the probe answers then.\<close>

type_synonym ci_lock_event = "(seconds \<times> probe) \<times> ci_lock_op"

fun lock_effect :: "seconds \<Rightarrow> ci_lock_event \<Rightarrow> ci_lock list \<Rightarrow> (string \<times> int) claim_effect \<times> ci_lock list" where
  "lock_effect ttl ((now, live), LkAcquire repo pr session) t =
     (case acquire_lock live ttl now repo pr session t of (g, t') \<Rightarrow> (if g then Granted (pr_key repo pr) else Neither, t'))"
| "lock_effect ttl ((now, live), LkAttach repo pr run) t = (Neither, snd (attach_run repo pr run t))"
| "lock_effect ttl ((now, live), LkRelease repo pr) t =
     (case release_lock repo pr t of (g, t') \<Rightarrow> (if g then Freed (pr_key repo pr) else Neither, t'))"
| "lock_effect ttl ((now, live), LkRead) t = (Neither, snd (list_locks live now t))"

text \<open>A window that no lock outlives and in which no attached run ends.\<close>

fun lock_fine :: "seconds \<Rightarrow> seconds \<Rightarrow> ci_lock_event \<Rightarrow> bool" where
  "lock_fine ttl T ((now, live), op) = (now < T \<and> T \<le> now + ttl \<and> (\<forall>r. live r \<noteq> Some False))"

definition lock_taken :: "seconds \<Rightarrow> ci_lock list \<Rightarrow> string \<times> int \<Rightarrow> bool" where
  "lock_taken T t k = list_ex (\<lambda>l. ck_key l = k \<and> T \<le> ck_deadline l) t"

lemma lock_taken_filter:
  "lock_taken T t k \<Longrightarrow> (\<And>l. T \<le> ck_deadline l \<Longrightarrow> P l) \<Longrightarrow> lock_taken T (filter P t) k"
  by (auto simp add: lock_taken_def list_ex_iff)

lemma lock_taken_stays:
  assumes fine: "now < T" "\<forall>r. live r \<noteq> Some False" and held: "lock_taken T t k"
    and "fst (lock_effect ttl ((now, live), op) t) \<noteq> Freed k"
  shows "lock_taken T (snd (lock_effect ttl ((now, live), op) t)) k"
proof -
  have on: "T \<le> ck_deadline l \<Longrightarrow> \<not> lock_ended live now l" for l using fine by (simp add: lock_ended_def)
  show ?thesis
  proof (cases op)
    case (LkAcquire repo pr session)
    obtain g t' where a: "acquire_lock live ttl now repo pr session t = (g, t')" by (rule prod.exhaust)
    have "lock_taken T t' k"
      using a
    proof (cases rule: acquire_lock_cases)
      case (2 l)
      have "lock_taken T (filter (\<lambda>l. \<not> (ck_key l = pr_key repo pr \<and> lock_ended live now l)) t) k"
        by (rule lock_taken_filter [OF held]) (use on in blast)
      then show ?thesis using 2(2) by (simp add: lock_taken_def)
    qed (use held in simp)
    then show ?thesis using LkAcquire a by simp
  next
    case (LkAttach repo pr run)
    have "lock_taken T (row_update ck_key q (\<lambda>l. l\<lparr>ck_run := run\<rparr>) t) k" for q
      using held by (induction t) (auto simp add: lock_taken_def)
    then show ?thesis using LkAttach by (simp add: attach_run_def)
  next
    case (LkRelease repo pr)
    have "lock_taken T (row_delete ck_key q t) k" if "q \<noteq> k \<or> row_lookup ck_key q t = None" for q
      using held that by (auto simp add: lock_taken_def list_ex_iff row_delete_def row_lookup_None_iff)
    moreover have "pr_key repo pr \<noteq> k \<or> row_lookup ck_key (pr_key repo pr) t = None"
      using LkRelease assms(4) by (cases "row_lookup ck_key (pr_key repo pr) t") (simp_all add: release_lock_def)
    ultimately show ?thesis using LkRelease by (simp add: release_lock_def)
  next
    case LkRead
    have "lock_taken T (filter (\<lambda>l. \<not> (True \<and> lock_ended live now l)) t) k"
      by (rule lock_taken_filter [OF held]) (use on in blast)
    then show ?thesis using LkRead by (simp add: list_locks_def live_rows_def)
  qed
qed

interpretation locks: claim_table "keyed ck_key" "lock_taken T" "lock_fine ttl T" "lock_effect ttl" for ttl T :: seconds
proof (unfold_locales, goal_cases)
  case (1 t e)
  obtain now live op where e: "e = ((now, live), op)" by (metis prod.exhaust)
  show ?case
    using 1 by (cases op) (auto simp add: e attach_run_def release_lock_def list_locks_def live_rows_def
        intro!: keyed_update keyed_filter keyed_delete intro: keyed_acquired split: prod.split)
next
  case (2 t e k)
  obtain now live repo pr session where e: "e = ((now, live), LkAcquire repo pr session)" and k: "k = pr_key repo pr"
    and g: "fst (acquire_lock live ttl now repo pr session t)"
    using 2(3) by (cases e; cases "fst e"; cases "snd e") (auto split: prod.splits if_splits)
  obtain t' where a: "acquire_lock live ttl now repo pr session t = (True, t')" using g by (metis prod.collapse)
  from a show ?case
  proof (cases rule: acquire_lock_cases)
    case (2 l)
    then show ?thesis using \<open>lock_fine ttl T e\<close> e k by (auto simp add: lock_taken_def list_ex_iff lock_ended_def)
  qed simp
next
  case (3 t e k)
  obtain now live repo pr session where e: "e = ((now, live), LkAcquire repo pr session)" and k: "k = pr_key repo pr"
    and g: "fst (acquire_lock live ttl now repo pr session t)"
    using 3(3) by (cases e; cases "fst e"; cases "snd e") (auto split: prod.splits if_splits)
  obtain t' where a: "acquire_lock live ttl now repo pr session t = (True, t')" using g by (metis prod.collapse)
  from a show ?case
  proof (cases rule: acquire_lock_cases)
    case (2 l)
    then show ?thesis using \<open>lock_fine ttl T e\<close> e k a by (simp add: lock_taken_def)
  qed simp
next
  case (4 t e k)
  then show ?case by (cases e; cases "fst e") (auto intro: lock_taken_stays)
qed

text \<open>Within a window in which no lock lapses and no attached run ends, a pull request is locked at most once more often
  than it is released.\<close>

lemma locked_once_unless_released:
  "keyed ck_key t \<Longrightarrow> list_all (lock_fine ttl T) es \<Longrightarrow>
   granted k (claim_run (lock_effect ttl) es t) \<le> 1 + freed k (claim_run (lock_effect ttl) es t)"
  by (rule locks.once_unless_freed)

text \<open>A release names no session: whoever asks frees the lock that is there.\<close>

lemma release_any_session:
  "ck_key l = pr_key repo pr \<Longrightarrow> snd (release_lock repo pr [l]) = []"
  by (simp add: release_lock_def row_delete_def)

end
