(* ===== verification/Ci_Fix.thy ===== *)
theory Ci_Fix
  imports Ci_Locks
begin

text \<open>
  The dispatch of CI-fix sessions: \<open>backend/ci_fix_dispatch.py\<close> (classification, route, trigger rules, audit file) and the
  launch path of \<open>backend/ci_fix_service.py\<close>. The patterns of failing tests, SHA-256, the flag of one adapter and the
  providers installed are arguments, and so is the launch of a staff run, which may change all of the state while it is
  awaited. Prompts, costs spent and the effort of a route are left out; logs are ASCII text.
\<close>

section \<open>Texts\<close>

definition is_line_break :: "char \<Rightarrow> bool" where
  "is_line_break c = (let n = (of_char c :: nat) in 10 \<le> n \<and> n \<le> 13 \<or> 28 \<le> n \<and> n \<le> 30)"

text \<open>\<open>str.splitlines\<close>.\<close>

fun split_lines :: "string \<Rightarrow> string list" where
  "split_lines [] = []"
| "split_lines (c # cs) =
     (if (of_char c :: nat) = 13 \<and> cs \<noteq> [] \<and> (of_char (hd cs) :: nat) = 10 then [] # split_lines (tl cs)
      else if is_line_break c then [] # split_lines cs
      else case cs of
        [] \<Rightarrow> [[c]]
      | d # _ \<Rightarrow> (case split_lines cs of [] \<Rightarrow> [[c]] | l # ls \<Rightarrow> (c # l) # ls))"

definition truncate_log_tail :: "nat \<Rightarrow> string \<Rightarrow> string" where
  "truncate_log_tail n t =
     (let ls = split_lines t
      in if length ls \<le> n then t else py_join [CHR 0x0A] (drop (length ls - n) ls))"

definition is_hex :: "char \<Rightarrow> bool" where
  "is_hex c = (is_digit c \<or> c \<in> set ''abcdef'')"

text \<open>The base and the number of a merge-queue ref; the number is that of the last segment.\<close>

definition queue_ref :: "string \<Rightarrow> (string \<times> int) option" where
  "queue_ref ref =
     (if \<not> py_startswith ref ''gh-readonly-queue/'' then None
      else
        let rest = drop 18 ref;
            seg = rev (takeWhile (\<lambda>c. c \<noteq> CHR ''/'') (rev rest));
            base = take (length rest - length seg - 1) rest;
            ds = takeWhile is_digit (drop 3 seg);
            sha = drop (3 + length ds + 1) seg
        in if base \<noteq> [] \<and> CHR 0x0A \<notin> set base \<and> py_startswith seg ''pr-'' \<and> ds \<noteq> [] \<and>
              py_startswith (drop (3 + length ds) seg) ''-'' \<and> 7 \<le> length sha \<and> length sha \<le> 40 \<and> list_all is_hex sha
           then Some (base, int (digits_value ds)) else None)"

definition pr_number_from_queue_ref :: "string \<Rightarrow> int option" where
  "pr_number_from_queue_ref ref = map_option snd (queue_ref ref)"

definition infra_log_patterns :: "string list" where
  "infra_log_patterns =
     [''error while loading shared libraries'', ''importerror: libpython'', ''cannot open shared object file'',
      ''no such file or directory: '' @ [CHR 0x27] @ ''buildx'' @ [CHR 0x27],
      ''docker: '' @ [CHR 0x27] @ ''buildx'' @ [CHR 0x27] @ '' is not a docker command'', ''failed to solve'', ''buildx failed with'',
      ''http 401'', ''http 403'', ''401 unauthorized'', ''403 forbidden'', ''no space left on device'',
      ''runner has no free disk space'', ''disk quota exceeded'']"

definition infra_workflow_hints :: "string list" where
  "infra_workflow_hints = [''buildx'', ''docker-build-scan'', ''docker-build'']"

definition contains_any :: "string list \<Rightarrow> string \<Rightarrow> bool" where
  "contains_any ks t = list_ex (\<lambda>k. py_contains k t) ks"

definition classify_failure_type :: "string \<Rightarrow> string \<Rightarrow> string" where
  "classify_failure_type workflow excerpt =
     (let wf = py_lower workflow; lg = py_lower excerpt
      in if contains_any infra_log_patterns lg \<or> contains_any infra_workflow_hints wf then ''infra''
         else if contains_any [''lint'', ''format'', ''style'', ''ruff'', ''black''] wf then ''lint''
         else if py_contains ''conflict'' lg \<or> py_contains ''merge conflict'' lg then ''conflict''
         else if contains_any [''security'', ''audit'', ''secret''] wf then ''security''
         else if contains_any [''spec'', ''contract''] wf then ''spec''
         else ''test'')"

section \<open>Route\<close>

record fix_route =
  rt_provider :: string
  rt_tier :: string
  rt_model :: string
  rt_budget :: rat
  rt_escalated :: bool

definition max_same_attempts :: int where
  "max_same_attempts = 3"

definition route_ci_fix :: "bool \<Rightarrow> string \<Rightarrow> int \<Rightarrow> string \<Rightarrow> fix_route" where
  "route_ci_fix agy failure attempt branch =
     (if py_startswith branch ''cursor/''
      then \<lparr>rt_provider = ''cursor_cloud'', rt_tier = ''cloud'', rt_model = ''cursor-cloud-followup'', rt_budget = 0, rt_escalated = False\<rparr>
      else if failure = ''infra''
      then \<lparr>rt_provider = ''night_watch'', rt_tier = ''infra'', rt_model = [], rt_budget = 0, rt_escalated = False\<rparr>
      else if max_same_attempts \<le> attempt
      then \<lparr>rt_provider = ''claude_code_cli'', rt_tier = ''strong'', rt_model = ''claude-opus-5-5'', rt_budget = 5, rt_escalated = True\<rparr>
      else if failure = ''lint''
      then \<lparr>rt_provider = ''codex_cli'', rt_tier = ''cheap'', rt_model = ''gpt-6-luna'', rt_budget = 2/5, rt_escalated = False\<rparr>
      else if agy
      then \<lparr>rt_provider = ''antigravity'', rt_tier = ''cli'', rt_model = ''gemini-3.8-flash-high'', rt_budget = 3/2, rt_escalated = False\<rparr>
      else \<lparr>rt_provider = ''claude_code_cli'', rt_tier = ''cli'', rt_model = ''claude-sonnet-5-5'', rt_budget = 3/2, rt_escalated = False\<rparr>)"

section \<open>Audit rows and attempts\<close>

record audit_row =
  au_repo :: string
  au_pr :: int
  au_workflow :: string
  au_run :: "int option"
  au_type :: string
  au_provider :: string
  au_model :: string
  au_attempt :: int
  au_budget :: rat
  au_staff_run :: string
  au_signature :: string

text \<open>The file is \<open>None\<close> when it is missing or holds no list; a write may fail, which is only logged.\<close>

definition record_ci_fix_audit :: "bool \<Rightarrow> audit_row \<Rightarrow> audit_row list option \<Rightarrow> audit_row list option" where
  "record_ci_fix_audit writable row file =
     (if \<not> writable then file else Some ((case file of None \<Rightarrow> [] | Some rows \<Rightarrow> rows) @ [row]))"

definition failure_signature :: "(string \<Rightarrow> string) \<Rightarrow> string \<Rightarrow> string list \<Rightarrow> string \<Rightarrow> string" where
  "failure_signature sha workflow tests failure =
     (let d = py_join '','' (sort (remdups tests))
      in take 16 (sha (workflow @ ''|'' @ (if d \<noteq> [] then d else failure))))"

definition count_consecutive_attempts :: "string \<Rightarrow> int \<Rightarrow> string \<Rightarrow> audit_row list option \<Rightarrow> nat" where
  "count_consecutive_attempts repo pr sig file =
     (case file of
        None \<Rightarrow> 0
      | Some rows \<Rightarrow>
          length (takeWhile (\<lambda>e. au_signature e = sig)
            (filter (\<lambda>e. py_lower (au_repo e) = py_lower (py_strip repo) \<and> au_pr e = pr) (rev rows))))"

section \<open>Dispatch\<close>

record fix_request =
  fq_repo :: string
  fq_pr :: int
  fq_conflict :: bool
  fq_branch :: string
  fq_base :: string
  fq_workflow :: string
  fq_run :: "int option"
  fq_log :: string
  fq_attempt :: "int option"
  fq_type :: "string option"
  fq_tests :: "string list option"
  fq_session :: string
  fq_queue :: bool

definition name_char :: "char \<Rightarrow> bool" where
  "name_char c =
     (let n = (of_char c :: nat)
      in 65 \<le> n \<and> n \<le> 90 \<or> 97 \<le> n \<and> n \<le> 122 \<or> 48 \<le> n \<and> n \<le> 57 \<or> c = CHR ''.'' \<or> c = CHR ''_'' \<or> c = CHR ''-'')"

text \<open>The validation of a request, whose texts are stripped first.\<close>

definition make_request :: "fix_request \<Rightarrow> fix_request option" where
  "make_request raw =
     (let r = raw\<lparr>fq_repo := py_strip (fq_repo raw), fq_branch := py_strip (fq_branch raw), fq_base := py_strip (fq_base raw),
                   fq_workflow := py_strip (fq_workflow raw), fq_log := py_strip (fq_log raw), fq_session := py_strip (fq_session raw)\<rparr>
      in if fq_repo r \<noteq> [] \<and> length (fq_repo r) \<le> 100 \<and> list_all name_char (fq_repo r) \<and> 0 < fq_pr r \<and>
            fq_branch r \<noteq> [] \<and> length (fq_branch r) \<le> 200 \<and> list_all (\<lambda>c. name_char c \<or> c = CHR ''/'') (fq_branch r) \<and>
            length (fq_base r) \<le> 255 \<and> length (fq_workflow r) \<le> 200 \<and> length (fq_session r) \<le> 200 \<and>
            (case fq_attempt r of None \<Rightarrow> True | Some n \<Rightarrow> 1 \<le> n) \<and>
            (case fq_type r of None \<Rightarrow> True | Some t \<Rightarrow> t \<in> set [''lint'', ''test'', ''security'', ''spec'', ''conflict'', ''unknown''])
         then Some r else None)"

record fix_command =
  cm_role :: string
  cm_caller :: string
  cm_provider :: "string option"
  cm_model :: "string option"
  cm_tier :: "string option"
  cm_repo :: string
  cm_pr :: int
  cm_head :: string

record launched =
  la_run :: string
  la_provider :: string
  la_model :: string

record 'w fix_state =
  ci_locks :: "ci_lock list"
  ci_audit :: "audit_row list option"
  ci_world :: 'w

datatype fix_error =
    FixBusy
  | CursorFollowUp
  | NoProviderHere
  | StaffRefused string
  | LaunchFailed string

type_synonym 'w launcher = "fix_command \<Rightarrow> 'w fix_state \<Rightarrow> (fix_error + launched) \<times> 'w fix_state"

record ci_env =
  cx_ttl :: seconds
  cx_tests :: "string \<Rightarrow> string list"
  cx_sha :: "string \<Rightarrow> string"
  cx_agy :: bool
  cx_installed :: "string \<Rightarrow> bool"
  cx_writable :: bool

record fix_result =
  fx_route :: fix_route
  fx_provider :: string
  fx_model :: string
  fx_attempt :: int
  fx_run :: string

definition staff_provider_of :: "string \<Rightarrow> string" where
  "staff_provider_of p = (if p = ''claude_code_cli'' then ''claude'' else if p = ''codex_cli'' then ''codex'' else ''antigravity'')"

definition model_tier_of :: "string \<Rightarrow> string" where
  "model_tier_of t = (if t = ''cheap'' then ''routine'' else if t = ''cli'' then ''standard'' else ''complex'')"

definition provider_here :: "ci_env \<Rightarrow> bool" where
  "provider_here env = list_ex (cx_installed env) [''claude'', ''codex'', ''antigravity'']"

text \<open>What a request says of its failure: log, type, tests, workflow and signature.\<close>

definition request_type :: "fix_request \<Rightarrow> string" where
  "request_type r =
     (if fq_conflict r then ''conflict''
      else case fq_type r of Some t \<Rightarrow> t | None \<Rightarrow> classify_failure_type (fq_workflow r) (truncate_log_tail 200 (fq_log r)))"

definition request_tests :: "ci_env \<Rightarrow> fix_request \<Rightarrow> string list" where
  "request_tests env r = (case fq_tests r of Some ts \<Rightarrow> ts | None \<Rightarrow> cx_tests env (truncate_log_tail 200 (fq_log r)))"

definition request_workflow :: "fix_request \<Rightarrow> string" where
  "request_workflow r = (if fq_workflow r \<noteq> [] then fq_workflow r else if fq_conflict r then ''merge-queue'' else [])"

definition request_signature :: "ci_env \<Rightarrow> fix_request \<Rightarrow> string" where
  "request_signature env r = failure_signature (cx_sha env) (request_workflow r) (request_tests env r) (request_type r)"

definition request_attempt :: "ci_env \<Rightarrow> fix_request \<Rightarrow> audit_row list option \<Rightarrow> int" where
  "request_attempt env r file =
     (case fq_attempt r of
        Some n \<Rightarrow> n
      | None \<Rightarrow> int (count_consecutive_attempts (fq_repo r) (fq_pr r) (request_signature env r) file) + 1)"

definition request_route :: "ci_env \<Rightarrow> fix_request \<Rightarrow> audit_row list option \<Rightarrow> fix_route" where
  "request_route env r file = route_ci_fix (cx_agy env) (request_type r) (request_attempt env r file) (fq_branch r)"

definition fix_command_of :: "fix_request \<Rightarrow> string \<Rightarrow> fix_route \<Rightarrow> fix_command" where
  "fix_command_of r caller route =
     (if rt_tier route = ''infra''
      then \<lparr>cm_role = ''night-watch'', cm_caller = ''ci-fix:'' @ caller, cm_provider = None, cm_model = None, cm_tier = None,
            cm_repo = fq_repo r, cm_pr = fq_pr r, cm_head = fq_branch r\<rparr>
      else \<lparr>cm_role = ''ad-hoc'', cm_caller = ''ci-fix:'' @ caller, cm_provider = Some (staff_provider_of (rt_provider route)),
            cm_model = Some (rt_model route), cm_tier = Some (model_tier_of (rt_tier route)),
            cm_repo = fq_repo r, cm_pr = fq_pr r, cm_head = fq_branch r\<rparr>)"

definition route_and_launch ::
    "ci_env \<Rightarrow> 'w launcher \<Rightarrow> fix_request \<Rightarrow> string \<Rightarrow> 'w fix_state \<Rightarrow> (fix_error + fix_result) \<times> 'w fix_state" where
  "route_and_launch env launch r caller s =
     (let attempt = request_attempt env r (ci_audit s); route = request_route env r (ci_audit s)
      in if rt_provider route = ''cursor_cloud'' then (Inl CursorFollowUp, s)
         else if rt_tier route \<noteq> ''infra'' \<and> \<not> provider_here env then (Inl NoProviderHere, s)
         else case launch (fix_command_of r caller route) s of
           (Inl e, s1) \<Rightarrow> (Inl e, s1)
         | (Inr l, s1) \<Rightarrow>
             let provider = (if la_provider l \<noteq> [] then la_provider l else rt_provider route);
                 model = (if la_model l \<noteq> [] then la_model l else rt_model route);
                 row = \<lparr>au_repo = fq_repo r, au_pr = fq_pr r, au_workflow = request_workflow r, au_run = fq_run r,
                        au_type = request_type r, au_provider = provider, au_model = model, au_attempt = attempt,
                        au_budget = rt_budget route, au_staff_run = la_run l, au_signature = request_signature env r\<rparr>
             in (Inr \<lparr>fx_route = route, fx_provider = provider, fx_model = model, fx_attempt = attempt, fx_run = la_run l\<rparr>,
                 s1\<lparr>ci_audit := record_ci_fix_audit (cx_writable env) row (ci_audit s1)\<rparr>))"

definition session_of :: "fix_request \<Rightarrow> string" where
  "session_of r = (if fq_session r \<noteq> [] then fq_session r else ''ci-fix-'' @ fq_repo r @ ''-'' @ int_text (fq_pr r))"

definition dispatch_ci_fix ::
    "ci_env \<Rightarrow> 'w launcher \<Rightarrow> probe \<Rightarrow> seconds \<Rightarrow> fix_request \<Rightarrow> string \<Rightarrow> 'w fix_state \<Rightarrow> (fix_error + fix_result) \<times> 'w fix_state" where
  "dispatch_ci_fix env launch live now r caller s =
     (case acquire_lock live (cx_ttl env) now (fq_repo r) (fq_pr r) (session_of r) (ci_locks s) of
        (False, t) \<Rightarrow> (Inl FixBusy, s\<lparr>ci_locks := t\<rparr>)
      | (True, t) \<Rightarrow>
          (case route_and_launch env launch r caller (s\<lparr>ci_locks := t\<rparr>) of
             (Inl e, s1) \<Rightarrow> (Inl e, s1\<lparr>ci_locks := snd (release_lock (fq_repo r) (fq_pr r) (ci_locks s1))\<rparr>)
           | (Inr res, s1) \<Rightarrow>
               (Inr res, if fx_run res \<noteq> []
                         then s1\<lparr>ci_locks := snd (attach_run (fq_repo r) (fq_pr r) (fx_run res) (ci_locks s1))\<rparr> else s1)))"

end
