(* ===== verification/Ci_Events.thy ===== *)
theory Ci_Events
  imports Ci_Fix Json_Access
begin

text \<open>
  What starts a CI fix: webhook deliveries (\<open>backend/ci_fix_events.py\<close>), the trigger rules of \<open>ci_fix_dispatch.py\<close>, the
  handling of an event in \<open>ci_fix_service.py\<close> and the sweep over red pull requests (\<open>ci_fix_sweep.py\<close>). Deliveries are
  those whose signature is verified. GitHub's answers and the reading of an ISO text are arguments; the text Python
  gives a list or a mapping is one, too.
\<close>

section \<open>Events\<close>

datatype event_kind = CiFailure | MergeConflict | QueueChecksFailed

record ci_event =
  ge_kind :: event_kind
  ge_owner :: string
  ge_repo :: string
  ge_pr :: int
  ge_head :: string
  ge_sha :: string
  ge_base :: string
  ge_run :: "int option"
  ge_workflow :: string
  ge_conclusion :: string
  ge_queue :: bool
  ge_draft :: "bool option"
  ge_state :: string
  ge_head_repo :: string

definition event_full_repo :: "ci_event \<Rightarrow> string" where
  "event_full_repo ev = ge_owner ev @ ''/'' @ ge_repo ev"

definition accepted_conclusions :: "string list" where
  "accepted_conclusions = [''failure'', ''timed_out'', ''cancelled'']"

text \<open>Why a delivery or an event is not acted upon. \<open>BadPayload\<close> is an exception of the parser: a field of another type.\<close>

datatype no_fix_reason =
    NotHandled
  | NoRepository
  | OtherOrg
  | WrongAction
  | NotFailed
  | NoPullRequest
  | CancelUnknown
  | Superseded
  | DraftPr
  | NotArmed
  | AlreadyFixing
  | PrUnreadable
  | PrNotOpen
  | ForkHead
  | NoBranch
  | BadPayload
  | BadRequest
  | FixRefused fix_error

text \<open>The validation of an event.\<close>

definition valid_event :: "ci_event \<Rightarrow> no_fix_reason + ci_event" where
  "valid_event ev =
     (if ge_owner ev \<noteq> [] \<and> ge_repo ev \<noteq> [] \<and> list_all name_char (ge_repo ev) \<and> 0 < ge_pr ev then Inr ev else Inl BadPayload)"

definition dict_of :: "json \<Rightarrow> (string, json) dict option" where
  "dict_of v = (case v of JDict d \<Rightarrow> Some d | _ \<Rightarrow> None)"

text \<open>\<open>x.get(k)\<close> for \<open>x = v or {}\<close>; \<open>None\<close> where Python raises.\<close>

definition sub_dict :: "json \<Rightarrow> (string, json) dict option" where
  "sub_dict v = (if json_true v then dict_of v else Some [])"

definition text_or_empty :: "(json \<Rightarrow> string) \<Rightarrow> json \<Rightarrow> string" where
  "text_or_empty repr v = (if json_true v then json_str repr v else [])"

definition ref_text :: "(json \<Rightarrow> string) \<Rightarrow> string \<Rightarrow> json \<Rightarrow> string" where
  "ref_text repr k v = (case v of JDict d \<Rightarrow> text_or_empty repr (json_get d k) | _ \<Rightarrow> [])"

definition repo_identity :: "(json \<Rightarrow> string) \<Rightarrow> (string, json) dict \<Rightarrow> (string \<times> string) option" where
  "repo_identity repr p =
     (case sub_dict (json_get p ''repository'') of
        None \<Rightarrow> None
      | Some r \<Rightarrow>
          (case sub_dict (json_get r ''owner'') of
             None \<Rightarrow> None
           | Some ow \<Rightarrow>
               let login = json_get ow ''login''
               in Some (if json_true login then json_str repr login
                        else takeWhile (\<lambda>c. c \<noteq> CHR ''/'') (text_or_empty repr (json_get r ''full_name'')),
                        text_or_empty repr (json_get r ''name''))))"

definition json_rows :: "json \<Rightarrow> json list option" where
  "json_rows v = (if \<not> json_true v then Some [] else case v of JList xs \<Rightarrow> Some xs | _ \<Rightarrow> None)"

definition numbered :: "json list \<Rightarrow> ((string, json) dict) list" where
  "numbered vs = concat (map (\<lambda>v. case v of JDict d \<Rightarrow> if json_true (json_get d ''number'') then [d] else [] | _ \<Rightarrow> []) vs)"

definition parse_workflow_run ::
    "(json \<Rightarrow> string) \<Rightarrow> (string, json) dict \<Rightarrow> string \<Rightarrow> string \<Rightarrow> no_fix_reason + ci_event" where
  "parse_workflow_run repr p owner repo =
     (if json_get p ''action'' \<noteq> JStr ''completed'' then Inl WrongAction
      else case sub_dict (json_get p ''workflow_run'') of
        None \<Rightarrow> Inl BadPayload
      | Some run \<Rightarrow>
          let conclusion = py_lower (text_or_empty repr (json_get run ''conclusion''));
              head = text_or_empty repr (json_get run ''head_branch'')
          in if conclusion \<notin> set accepted_conclusions then Inl NotFailed
             else case json_rows (json_get run ''pull_requests'') of
               None \<Rightarrow> Inl BadPayload
             | Some vs \<Rightarrow>
                 (case (case numbered vs of
                          d # _ \<Rightarrow> map_option Some (json_int (json_get d ''number''))
                        | [] \<Rightarrow> Some (pr_number_from_queue_ref head)) of
                    None \<Rightarrow> Inl BadPayload
                  | Some None \<Rightarrow> Inl NoPullRequest
                  | Some (Some n) \<Rightarrow>
                      if n = 0 then Inl NoPullRequest
                      else case (let i = json_get run ''id'' in if json_true i then map_option Some (json_int i) else Some None) of
                        None \<Rightarrow> Inl BadPayload
                      | Some rid \<Rightarrow>
                          valid_event
                            \<lparr>ge_kind = CiFailure, ge_owner = owner, ge_repo = repo, ge_pr = n, ge_head = head,
                             ge_sha = text_or_empty repr (json_get run ''head_sha''),
                             ge_base = (case queue_ref head of
                                Some (base, _) \<Rightarrow> base
                              | None \<Rightarrow> (case numbered vs of d # _ \<Rightarrow> ref_text repr ''ref'' (json_get d ''base'') | [] \<Rightarrow> [])),
                             ge_run = rid, ge_workflow = text_or_empty repr (json_get run ''name''), ge_conclusion = conclusion,
                             ge_queue = (queue_ref head \<noteq> None \<or> json_get run ''event'' = JStr ''merge_group''),
                             ge_draft = None, ge_state = [], ge_head_repo = ref_text repr ''full_name'' (json_get run ''head_repository'')\<rparr>))"

definition py_upper_char :: "char \<Rightarrow> char" where
  "py_upper_char c = (let n = (of_char c :: nat) in if 97 \<le> n \<and> n \<le> 122 then char_of (n - 32) else c)"

definition normalise_reason :: "(json \<Rightarrow> string) \<Rightarrow> json \<Rightarrow> string" where
  "normalise_reason repr v =
     map (\<lambda>c. if c = CHR ''-'' \<or> c = CHR '' '' then CHR ''_'' else c) (map py_upper_char (py_strip (text_or_empty repr v)))"

definition dequeue_kind :: "string \<Rightarrow> event_kind option" where
  "dequeue_kind reason =
     (if reason = ''MERGE_CONFLICT'' then Some MergeConflict else if reason = ''CHECKS_FAILED'' then Some QueueChecksFailed else None)"

definition parse_dequeued ::
    "(json \<Rightarrow> string) \<Rightarrow> (string, json) dict \<Rightarrow> string \<Rightarrow> string \<Rightarrow> no_fix_reason + ci_event" where
  "parse_dequeued repr p owner repo =
     (if json_get p ''action'' \<noteq> JStr ''dequeued'' then Inl WrongAction
      else let reason = normalise_reason repr (json_get p ''reason'')
      in case dequeue_kind reason of
        None \<Rightarrow> Inl NotHandled
      | Some kind \<Rightarrow>
          (case sub_dict (json_get p ''pull_request'') of
             None \<Rightarrow> Inl BadPayload
           | Some pr \<Rightarrow>
               if \<not> json_true (json_get pr ''number'') then Inl NoPullRequest
               else case (json_int (json_get pr ''number''), sub_dict (json_get pr ''head'')) of
                 (Some n, Some head) \<Rightarrow>
                   let base = ref_text repr ''ref'' (json_get pr ''base'')
                   in valid_event
                        \<lparr>ge_kind = kind, ge_owner = owner, ge_repo = repo, ge_pr = n,
                         ge_head = ref_text repr ''ref'' (json_get pr ''head''), ge_sha = [],
                         ge_base = (if base \<noteq> [] then base else ''main''), ge_run = None, ge_workflow = [],
                         ge_conclusion = reason, ge_queue = True, ge_draft = Some (json_true (json_get pr ''draft'')),
                         ge_state = text_or_empty repr (json_get pr ''state''),
                         ge_head_repo = ref_text repr ''full_name'' (json_get head ''repo'')\<rparr>
               | _ \<Rightarrow> Inl BadPayload))"

definition parse_github_event ::
    "(json \<Rightarrow> string) \<Rightarrow> string \<Rightarrow> string \<Rightarrow> (string, json) dict \<Rightarrow> no_fix_reason + ci_event" where
  "parse_github_event repr org name p =
     (if name \<noteq> ''workflow_run'' \<and> name \<noteq> ''pull_request'' then Inl NotHandled
      else case repo_identity repr p of
        None \<Rightarrow> Inl BadPayload
      | Some (owner, repo) \<Rightarrow>
          if owner = [] \<or> repo = [] then Inl NoRepository
          else if py_lower owner \<noteq> py_lower org then Inl OtherOrg
          else if name = ''workflow_run'' then parse_workflow_run repr p owner repo
          else parse_dequeued repr p owner repo)"

section \<open>Trigger rules\<close>

record trigger_pr =
  tp_number :: "int option"
  tp_draft :: bool
  tp_armed :: bool

record trigger =
  tg_conclusion :: string
  tg_workflow :: string
  tg_repo :: string
  tg_run :: "int option"
  tg_sha :: string
  tg_superseded :: bool
  tg_prs :: "trigger_pr list"
  tg_branch :: string

definition trigger_prs :: "trigger \<Rightarrow> trigger_pr list" where
  "trigger_prs tg =
     (if tg_prs tg \<noteq> [] then tg_prs tg
      else case pr_number_from_queue_ref (tg_branch tg) of
        Some n \<Rightarrow> if n \<noteq> 0 then [\<lparr>tp_number = Some n, tp_draft = False, tp_armed = True\<rparr>] else []
      | None \<Rightarrow> [])"

definition run_failed :: "trigger \<Rightarrow> no_fix_reason option" where
  "run_failed tg =
     (let c = py_lower (tg_conclusion tg)
      in if c = ''cancelled''
         then if tg_repo tg = [] \<or> tg_run tg = None \<or> tg_run tg = Some 0 \<or> tg_sha tg = [] then Some CancelUnknown
              else if tg_superseded tg then Some Superseded else None
         else if c \<noteq> ''failure'' \<and> c \<noteq> ''timed_out'' then Some NotFailed
         else None)"

text \<open>The reason against a fix, and the locks after the reading of them.\<close>

definition evaluate_ci_fix_trigger ::
    "probe \<Rightarrow> seconds \<Rightarrow> trigger \<Rightarrow> ci_lock list \<Rightarrow> no_fix_reason option \<times> ci_lock list" where
  "evaluate_ci_fix_trigger live now tg locks =
     (case run_failed tg of
        Some why \<Rightarrow> (Some why, locks)
      | None \<Rightarrow>
          (case trigger_prs tg of
             [] \<Rightarrow> (Some NoPullRequest, locks)
           | pr # _ \<Rightarrow>
               if tp_draft pr then (Some DraftPr, locks)
               else if \<not> tp_armed pr then (Some NotArmed, locks)
               else case tp_number pr of
                 None \<Rightarrow> (None, locks)
               | Some n \<Rightarrow>
                   (case is_locked live now (tg_repo tg) n locks of
                      (held, locks1) \<Rightarrow> (if held then Some AlreadyFixing else None, locks1))))"

section \<open>From an event to a request\<close>

text \<open>A pull request as GitHub answers it; an empty text or \<open>None\<close> where a field is absent or of another type.\<close>

record pull_facts =
  gp_state :: string
  gp_head_repo :: string
  gp_head_ref :: string
  gp_draft :: bool
  gp_auto :: bool

text \<open>\<open>gh_pull\<close>: \<open>None\<close> is a read that raises, \<open>Some None\<close> an empty object; the lists of runs are \<open>None\<close> when they cannot
  be read; the log is empty when it cannot.\<close>

record 'w gh_env =
  gh_pull :: "string \<Rightarrow> int \<Rightarrow> 'w \<Rightarrow> pull_facts option option"
  gh_queue_runs :: "string \<Rightarrow> 'w \<Rightarrow> (int \<times> string \<times> string) list option"
  gh_sha_runs :: "string \<Rightarrow> string \<Rightarrow> 'w \<Rightarrow> (int \<times> string) list option"
  gh_log :: "string \<Rightarrow> int \<Rightarrow> 'w \<Rightarrow> string"

definition find_queue_run :: "'w gh_env \<Rightarrow> ci_event \<Rightarrow> 'w \<Rightarrow> (int \<times> string) option" where
  "find_queue_run gh ev w =
     (case gh_queue_runs gh (event_full_repo ev) w of
        None \<Rightarrow> None
      | Some runs \<Rightarrow>
          map_option (\<lambda>(i, name, _). (i, name))
            (List.find (\<lambda>(_, _, head). pr_number_from_queue_ref head = Some (ge_pr ev)) runs))"

definition cancelled_run_is_superseded :: "'w gh_env \<Rightarrow> string \<Rightarrow> string \<Rightarrow> string \<Rightarrow> int \<Rightarrow> 'w \<Rightarrow> bool" where
  "cancelled_run_is_superseded gh repo workflow sha rid w =
     (case gh_sha_runs gh repo sha w of
        None \<Rightarrow> False
      | Some runs \<Rightarrow> list_ex (\<lambda>(i, name). name = workflow \<and> rid < i) runs)"

definition request_of :: "ci_event \<Rightarrow> bool \<Rightarrow> string \<Rightarrow> string \<Rightarrow> int option \<Rightarrow> string \<Rightarrow> no_fix_reason + fix_request" where
  "request_of ev conflict branch workflow rid excerpt =
     (case make_request
        \<lparr>fq_repo = ge_repo ev, fq_pr = ge_pr ev, fq_conflict = conflict, fq_branch = branch,
         fq_base = (if ge_base ev \<noteq> [] then ge_base ev else ''main''), fq_workflow = workflow, fq_run = rid, fq_log = excerpt,
         fq_attempt = None, fq_type = None, fq_tests = None, fq_session = [], fq_queue = ge_queue ev \<or> conflict\<rparr> of
        None \<Rightarrow> Inl BadRequest | Some r \<Rightarrow> Inr r)"

text \<open>The run of a dequeued pull request, its head, and the facts put to the rules.\<close>

definition event_run :: "'w gh_env \<Rightarrow> ci_event \<Rightarrow> 'w \<Rightarrow> int option \<times> string" where
  "event_run gh ev w =
     (case (if ge_kind ev = QueueChecksFailed then find_queue_run gh ev w else None) of
        Some (i, name) \<Rightarrow> (Some i, name)
      | None \<Rightarrow> (ge_run ev, ge_workflow ev))"

definition event_head_repo :: "ci_event \<Rightarrow> pull_facts option \<Rightarrow> string" where
  "event_head_repo ev pr =
     (case pr of Some p \<Rightarrow> if gp_head_repo p \<noteq> [] then gp_head_repo p else ge_head_repo ev | None \<Rightarrow> ge_head_repo ev)"

definition event_branch :: "ci_event \<Rightarrow> pull_facts option \<Rightarrow> string" where
  "event_branch ev pr =
     (let fallback = (case pr_number_from_queue_ref (ge_head ev) of
                        Some n \<Rightarrow> if n \<noteq> 0 then [] else ge_head ev | None \<Rightarrow> ge_head ev)
      in case pr of Some p \<Rightarrow> if gp_head_ref p \<noteq> [] then gp_head_ref p else fallback | None \<Rightarrow> fallback)"

definition event_facts :: "ci_event \<Rightarrow> pull_facts option \<Rightarrow> trigger_pr" where
  "event_facts ev pr =
     \<lparr>tp_number = Some (ge_pr ev), tp_draft = (case pr of Some p \<Rightarrow> gp_draft p | None \<Rightarrow> ge_draft ev = Some True),
      tp_armed = (ge_queue ev \<or> (case pr of Some p \<Rightarrow> gp_auto p | None \<Rightarrow> False))\<rparr>"

definition event_trigger :: "'w gh_env \<Rightarrow> ci_event \<Rightarrow> pull_facts option \<Rightarrow> int option \<Rightarrow> string \<Rightarrow> 'w \<Rightarrow> trigger" where
  "event_trigger gh ev pr rid workflow w =
     (let conclusion = (if ge_kind ev = CiFailure \<and> ge_conclusion ev \<in> set accepted_conclusions then ge_conclusion ev else ''failure'');
          sha = (if ge_kind ev = CiFailure then ge_sha ev else [])
      in \<lparr>tg_conclusion = conclusion, tg_workflow = workflow, tg_repo = ge_repo ev, tg_run = rid, tg_sha = sha,
          tg_superseded = (conclusion = ''cancelled'' \<and> rid \<noteq> None \<and> rid \<noteq> Some 0 \<and> sha \<noteq> [] \<and>
             cancelled_run_is_superseded gh (event_full_repo ev) workflow sha (the rid) w),
          tg_prs = [event_facts ev pr], tg_branch = ge_head ev\<rparr>)"

definition own_head :: "ci_event \<Rightarrow> string \<Rightarrow> bool" where
  "own_head ev h = (h = [] \<or> py_lower h = py_lower (event_full_repo ev))"

definition open_state :: "string \<Rightarrow> bool" where
  "open_state t = (t = [] \<or> t = ''open'')"

definition eligible_request ::
    "'w gh_env \<Rightarrow> probe \<Rightarrow> seconds \<Rightarrow> ci_event \<Rightarrow> pull_facts option \<Rightarrow> 'w fix_state \<Rightarrow> (no_fix_reason + fix_request) \<times> 'w fix_state" where
  "eligible_request gh live now ev pr s =
     (case event_run gh ev (ci_world s) of (rid, workflow) \<Rightarrow>
        (case evaluate_ci_fix_trigger live now (event_trigger gh ev pr rid workflow (ci_world s)) (ci_locks s) of
           (Some why, locks) \<Rightarrow> (Inl why, s\<lparr>ci_locks := locks\<rparr>)
         | (None, locks) \<Rightarrow>
             (request_of ev False (event_branch ev pr) workflow rid
                (case rid of Some i \<Rightarrow> if i \<noteq> 0 then gh_log gh (event_full_repo ev) i (ci_world s) else [] | None \<Rightarrow> []),
              s\<lparr>ci_locks := locks\<rparr>)))"

definition ci_failure_request ::
    "'w gh_env \<Rightarrow> probe \<Rightarrow> seconds \<Rightarrow> ci_event \<Rightarrow> 'w fix_state \<Rightarrow> (no_fix_reason + fix_request) \<times> 'w fix_state" where
  "ci_failure_request gh live now ev s =
     (let answer = gh_pull gh (event_full_repo ev) (ge_pr ev) (ci_world s);
          pr = (case answer of Some p \<Rightarrow> p | None \<Rightarrow> None)
      in if answer = None \<and> \<not> ge_queue ev then (Inl PrUnreadable, s)
         else if (case pr of Some p \<Rightarrow> \<not> open_state (gp_state p) | None \<Rightarrow> False) then (Inl PrNotOpen, s)
         else if \<not> own_head ev (event_head_repo ev pr) then (Inl ForkHead, s)
         else if event_branch ev pr = [] then (Inl NoBranch, s)
         else eligible_request gh live now ev pr s)"

definition merge_conflict_request :: "ci_event \<Rightarrow> no_fix_reason + fix_request" where
  "merge_conflict_request ev =
     (if ge_draft ev = Some True then Inl DraftPr
      else if \<not> open_state (ge_state ev) then Inl PrNotOpen
      else if \<not> own_head ev (ge_head_repo ev) then Inl ForkHead
      else if ge_head ev = [] then Inl NoBranch
      else request_of ev True (ge_head ev) [] None [])"

definition event_request ::
    "'w gh_env \<Rightarrow> probe \<Rightarrow> seconds \<Rightarrow> ci_event \<Rightarrow> 'w fix_state \<Rightarrow> (no_fix_reason + fix_request) \<times> 'w fix_state" where
  "event_request gh live now ev s =
     (if ge_kind ev = QueueChecksFailed \<and> ge_draft ev = Some True then (Inl DraftPr, s)
      else if ge_kind ev = MergeConflict then (merge_conflict_request ev, s)
      else ci_failure_request gh live now ev s)"

definition handle_ci_fix_event ::
    "ci_env \<Rightarrow> 'w gh_env \<Rightarrow> 'w launcher \<Rightarrow> probe \<Rightarrow> seconds \<Rightarrow> ci_event \<Rightarrow> 'w fix_state \<Rightarrow>
     (no_fix_reason + fix_result) \<times> 'w fix_state" where
  "handle_ci_fix_event env gh launch live now ev s =
     (case event_request gh live now ev s of
        (Inl why, s1) \<Rightarrow> (Inl why, s1)
      | (Inr r, s1) \<Rightarrow>
          (case dispatch_ci_fix env launch live now r ''ci-fix-webhook'' s1 of
             (Inl e, s2) \<Rightarrow> (Inl (FixRefused e), s2)
           | (Inr res, s2) \<Rightarrow> (Inr res, s2)))"

section \<open>The sweep\<close>

record red_pr =
  pf_repo :: string
  pf_number :: "int option"
  pf_branch :: string
  pf_draft :: bool
  pf_armed :: bool
  pf_red :: "string option"
  pf_labels :: "string list"
  pf_workflow :: string
  pf_run :: "int option"

text \<open>An ISO text is no instant, or one with a time zone, or one without, which cannot be subtracted from the clock.\<close>

datatype iso_time = NoTime | Zoned seconds | Unzoned

definition red_since :: "(string \<Rightarrow> iso_time) \<Rightarrow> red_pr \<Rightarrow> iso_time" where
  "red_since zone p = (case pf_red p of None \<Rightarrow> NoTime | Some t \<Rightarrow> if t = [] then NoTime else zone t)"

definition red_threshold :: "red_pr \<Rightarrow> seconds" where
  "red_threshold p = 60 * (if ''consolidation'' \<in> set (pf_labels p) then 120 else 30)"

text \<open>\<open>None\<close>: the subtraction raises.\<close>

fun select_sweep_candidates ::
    "(string \<Rightarrow> iso_time) \<Rightarrow> probe \<Rightarrow> seconds \<Rightarrow> red_pr list \<Rightarrow> ci_lock list \<Rightarrow> red_pr list option \<times> ci_lock list" where
  "select_sweep_candidates zone live now [] locks = (Some [], locks)"
| "select_sweep_candidates zone live now (p # ps) locks =
     (if pf_draft p \<or> \<not> pf_armed p then select_sweep_candidates zone live now ps locks
      else case red_since zone p of
        NoTime \<Rightarrow> select_sweep_candidates zone live now ps locks
      | Unzoned \<Rightarrow> (None, locks)
      | Zoned t \<Rightarrow>
          if now - t < red_threshold p \<or> pf_repo p = [] \<or> pf_number p = None
          then select_sweep_candidates zone live now ps locks
          else case is_locked live now (pf_repo p) (the (pf_number p)) locks of
            (held, locks1) \<Rightarrow>
              (case select_sweep_candidates zone live now ps locks1 of
                 (cs, locks2) \<Rightarrow> (if held then cs else map_option (\<lambda>cs. p # cs) cs, locks2)))"

record sweep_report =
  sr_dispatched :: "(string \<times> int \<times> string) list"
  sr_skipped :: "(string \<times> int \<times> fix_error) list"

definition sweep_fix_request :: "red_pr \<Rightarrow> fix_request option" where
  "sweep_fix_request p =
     make_request
       \<lparr>fq_repo = pf_repo p, fq_pr = the (pf_number p), fq_conflict = False, fq_branch = pf_branch p, fq_base = ''main'',
        fq_workflow = pf_workflow p, fq_run = pf_run p, fq_log = [], fq_attempt = None, fq_type = None, fq_tests = None,
        fq_session = [], fq_queue = False\<rparr>"

text \<open>The loop over the candidates; \<open>None\<close>: the construction of a request raises out of it. Each is dispatched at its own
  reading of the clock.\<close>

fun sweep_loop ::
    "ci_env \<Rightarrow> 'w launcher \<Rightarrow> (red_pr \<Rightarrow> seconds \<times> probe) \<Rightarrow> red_pr list \<Rightarrow> 'w fix_state \<Rightarrow> sweep_report option \<times> 'w fix_state" where
  "sweep_loop env launch clock [] s = (Some \<lparr>sr_dispatched = [], sr_skipped = []\<rparr>, s)"
| "sweep_loop env launch clock (p # ps) s =
     (case sweep_fix_request p of
        None \<Rightarrow> (None, s)
      | Some r \<Rightarrow>
          (case dispatch_ci_fix env launch (snd (clock p)) (fst (clock p)) r ''ci-fix-webhook'' s of
             (Inl e, s1) \<Rightarrow>
               (case sweep_loop env launch clock ps s1 of
                  (rep, s2) \<Rightarrow> (map_option (\<lambda>x. x\<lparr>sr_skipped := (fq_repo r, fq_pr r, e) # sr_skipped x\<rparr>) rep, s2))
           | (Inr res, s1) \<Rightarrow>
               (case sweep_loop env launch clock ps s1 of
                  (rep, s2) \<Rightarrow> (map_option (\<lambda>x. x\<lparr>sr_dispatched := (fq_repo r, fq_pr r, fx_run res) # sr_dispatched x\<rparr>) rep, s2))))"

definition count_stale :: "(string \<Rightarrow> iso_time) \<Rightarrow> seconds \<Rightarrow> red_pr list \<Rightarrow> audit_row list option \<Rightarrow> nat" where
  "count_stale zone now prs file =
     (let tried = map (\<lambda>e. (py_lower (py_strip (au_repo e)), Some (au_pr e))) (case file of None \<Rightarrow> [] | Some rows \<Rightarrow> rows)
      in length (filter (\<lambda>p. (case red_since zone p of Zoned t \<Rightarrow> 24 * 3600 \<le> now - t | _ \<Rightarrow> False) \<and>
           (py_lower (py_strip (pf_repo p)), pf_number p) \<notin> set tried) prs))"

text \<open>The sweep with its count, which raises for an unzoned time, too: one of a draft or of an unarmed
  pull request, since those of the others have been compared before. \<open>None\<close>: no report and no count.\<close>

definition run_ci_fix_sweep ::
    "ci_env \<Rightarrow> (string \<Rightarrow> iso_time) \<Rightarrow> 'w launcher \<Rightarrow> (red_pr \<Rightarrow> seconds \<times> probe) \<Rightarrow> probe \<Rightarrow> seconds \<Rightarrow> red_pr list \<Rightarrow> 'w fix_state \<Rightarrow>
     (sweep_report \<times> nat) option \<times> 'w fix_state" where
  "run_ci_fix_sweep env zone launch clock live now prs s =
     (case select_sweep_candidates zone live now prs (ci_locks s) of
        (None, locks) \<Rightarrow> (None, s\<lparr>ci_locks := locks\<rparr>)
      | (Some cs, locks) \<Rightarrow>
          (case sweep_loop env launch clock cs (s\<lparr>ci_locks := locks\<rparr>) of
             (None, s1) \<Rightarrow> (None, s1)
           | (Some rep, s1) \<Rightarrow>
               (if list_ex (\<lambda>p. red_since zone p = Unzoned) prs then None else Some (rep, count_stale zone now prs (ci_audit s1)), s1)))"

end
