(* ===== verification/Ci_Facts.thy ===== *)
theory Ci_Facts
  imports Ci_Events
begin

text \<open>
  What the CI fixes promise: one session per pull request, which pull requests a webhook can start one for, the
  attempts and their escalation, and what stops a sweep.
\<close>

section \<open>One session per pull request\<close>

definition keeps_locks :: "'w launcher \<Rightarrow> bool" where
  "keeps_locks launch = (\<forall>cmd s. ci_locks (snd (launch cmd s)) = ci_locks s)"

lemma keeps_locksD: "keeps_locks launch \<Longrightarrow> launch cmd s = (res, s1) \<Longrightarrow> ci_locks s1 = ci_locks s"
  unfolding keeps_locks_def by (metis snd_conv)

lemma route_and_launch_locks:
  assumes "keeps_locks launch" "route_and_launch env launch r caller s = (res, s1)"
  shows "ci_locks s1 = ci_locks s"
  using assms by (auto simp add: route_and_launch_def Let_def split: if_splits prod.splits sum.splits dest: keeps_locksD)

lemma dispatch_cases [consumes 1, case_names busy refused started]:
  assumes "dispatch_ci_fix env launch live now r caller s = (res, s')"
  obtains "res = Inl FixBusy" "s' = s" "fst (acquire_lock live (cx_ttl env) now (fq_repo r) (fq_pr r) (session_of r) (ci_locks s)) = False"
  | e t s1 where "res = Inl e"
      "acquire_lock live (cx_ttl env) now (fq_repo r) (fq_pr r) (session_of r) (ci_locks s) = (True, t)"
      "route_and_launch env launch r caller (s\<lparr>ci_locks := t\<rparr>) = (Inl e, s1)"
      "s' = s1\<lparr>ci_locks := snd (release_lock (fq_repo r) (fq_pr r) (ci_locks s1))\<rparr>"
  | x t s1 where "res = Inr x"
      "acquire_lock live (cx_ttl env) now (fq_repo r) (fq_pr r) (session_of r) (ci_locks s) = (True, t)"
      "route_and_launch env launch r caller (s\<lparr>ci_locks := t\<rparr>) = (Inr x, s1)"
      "s' = (if fx_run x \<noteq> [] then s1\<lparr>ci_locks := snd (attach_run (fq_repo r) (fq_pr r) (fx_run x) (ci_locks s1))\<rparr> else s1)"
proof -
  obtain won t where a: "acquire_lock live (cx_ttl env) now (fq_repo r) (fq_pr r) (session_of r) (ci_locks s) = (won, t)"
    by (rule prod.exhaust)
  show ?thesis
  proof (cases won)
    case False
    then have "t = ci_locks s" using a by (auto elim: acquire_lock_cases)
    then show ?thesis using that(1) assms a False by (simp add: dispatch_ci_fix_def)
  next
    case True
    obtain res1 s1 where l: "route_and_launch env launch r caller (s\<lparr>ci_locks := t\<rparr>) = (res1, s1)" by (rule prod.exhaust)
    show ?thesis
    proof (cases res1)
      case (Inl e)
      show ?thesis by (rule that(2) [of e t s1]) (use assms a l True Inl in \<open>auto simp add: dispatch_ci_fix_def\<close>)
    next
      case (Inr x)
      show ?thesis by (rule that(3) [of x t s1]) (use assms a l True Inr in \<open>auto simp add: dispatch_ci_fix_def\<close>)
    qed
  qed
qed

text \<open>After a dispatch that launched a run the lock of the pull request names this run.\<close>

lemma dispatch_binds:
  assumes "dispatch_ci_fix env launch live now r caller s = (Inr x, s')" "keeps_locks launch" "fx_run x \<noteq> []"
  obtains l where "l \<in> set (ci_locks s')" "ck_key l = pr_key (fq_repo r) (fq_pr r)" "ck_run l = fx_run x"
    "ck_deadline l = now + cx_ttl env"
  using assms(1)
proof (cases rule: dispatch_cases)
  case (started y t s1)
  have locks: "ci_locks s1 = t" using route_and_launch_locks [OF assms(2) started(3)] by simp
  have "\<exists>l \<in> set t. ck_key l = pr_key (fq_repo r) (fq_pr r) \<and> ck_deadline l = now + cx_ttl env"
    using started(2) by (auto elim!: acquire_lock_cases)
  then obtain l where l: "l \<in> set t" "ck_key l = pr_key (fq_repo r) (fq_pr r)" "ck_deadline l = now + cx_ttl env" by blast
  then have "l\<lparr>ck_run := fx_run x\<rparr> \<in> set (ci_locks s')"
    using started locks assms(3) by (force simp add: attach_run_def row_update_def)
  then show ?thesis using that l by force
qed simp_all

lemma locked_is_busy:
  assumes "l \<in> set (ci_locks s)" "ck_key l = pr_key (fq_repo r) (fq_pr r)" "\<not> lock_ended live now l"
  shows "dispatch_ci_fix env launch live now r caller s = (Inl FixBusy, s)"
proof -
  obtain won t where a: "acquire_lock live (cx_ttl env) now (fq_repo r) (fq_pr r) (session_of r) (ci_locks s) = (won, t)"
    by (rule prod.exhaust)
  then have "\<not> won \<and> t = ci_locks s" using assms by (auto elim!: acquire_lock_cases)
  then show ?thesis using a by (simp add: dispatch_ci_fix_def)
qed

text \<open>C35: A pull request has one CI-fix session at a time, while its lock stands. Once a dispatch has launched a run,
  every dispatch for the same pull request, whatever the case of the repository's name, from the route, a webhook or
  the sweep, is refused and launches nothing, until the lock's time has passed, the run has ended, or the lock's row
  has been changed (as the release by a dispatch that began earlier does); audit rows, the world and other rows of the
  locks may change meanwhile.\<close>

theorem one_session_per_pr:
  assumes "dispatch_ci_fix env launch live now r caller s = (Inr x, s1)"
    and "keeps_locks launch" and "fx_run x \<noteq> []"
    and "filter (\<lambda>l. ck_key l = pr_key (fq_repo r) (fq_pr r)) (ci_locks s2) =
         filter (\<lambda>l. ck_key l = pr_key (fq_repo r) (fq_pr r)) (ci_locks s1)"
    and "later < now + cx_ttl env" and "live' (fx_run x) \<noteq> Some False"
    and "pr_key (fq_repo r') (fq_pr r') = pr_key (fq_repo r) (fq_pr r)"
  shows "dispatch_ci_fix env launch' live' later r' caller' s2 = (Inl FixBusy, s2)"
proof -
  obtain l where l: "l \<in> set (ci_locks s1)" "ck_key l = pr_key (fq_repo r) (fq_pr r)" "ck_run l = fx_run x"
    "ck_deadline l = now + cx_ttl env" by (rule dispatch_binds [OF assms(1-3)])
  have "l \<in> set (filter (\<lambda>l. ck_key l = pr_key (fq_repo r) (fq_pr r)) (ci_locks s2))" using l assms(4) by simp
  then have "l \<in> set (ci_locks s2)" by simp
  moreover have "\<not> lock_ended live' later l" using l assms(5,6) by (auto simp add: lock_ended_def)
  ultimately show ?thesis using locked_is_busy [of l s2 r' live' later] l(2) assms(7) by simp
qed

section \<open>Which pull requests a webhook fixes\<close>

lemma evaluate_eligible:
  assumes "evaluate_ci_fix_trigger live now tg locks = (None, locks1)" "tg_prs tg = [pr]"
  shows "run_failed tg = None \<and> \<not> tp_draft pr \<and> tp_armed pr \<and> (\<forall>n. tp_number pr = Some n \<longrightarrow> \<not> fst (is_locked live now (tg_repo tg) n locks))"
  using assms
  by (auto simp add: evaluate_ci_fix_trigger_def trigger_prs_def split: option.splits if_splits prod.splits)

lemma eligible_request_facts:
  assumes "eligible_request gh live now ev pr s = (Inr r, s1)"
  shows "\<not> tp_draft (event_facts ev pr) \<and> tp_armed (event_facts ev pr)"
proof -
  obtain rid name where run: "event_run gh ev (ci_world s) = (rid, name)" by (rule prod.exhaust)
  obtain why locks where e: "evaluate_ci_fix_trigger live now (event_trigger gh ev pr rid name (ci_world s)) (ci_locks s) = (why, locks)"
    by (rule prod.exhaust)
  then have "why = None" using assms run by (cases why) (simp_all add: eligible_request_def)
  moreover have "tg_prs (event_trigger gh ev pr rid name (ci_world s)) = [event_facts ev pr]"
    by (simp add: event_trigger_def Let_def)
  ultimately show ?thesis using evaluate_eligible e by blast
qed

lemma failure_request_facts:
  assumes "ci_failure_request gh live now ev s = (Inr r, s1)"
  shows "case gh_pull gh (event_full_repo ev) (ge_pr ev) (ci_world s) of
           Some (Some p) \<Rightarrow> open_state (gp_state p) \<and> \<not> gp_draft p \<and> own_head ev (gp_head_repo p) \<and> (ge_queue ev \<or> gp_auto p)
         | _ \<Rightarrow> ge_queue ev \<and> ge_draft ev \<noteq> Some True \<and> own_head ev (ge_head_repo ev)"
proof (cases "gh_pull gh (event_full_repo ev) (ge_pr ev) (ci_world s)")
  case None
  then show ?thesis using assms
    by (auto simp add: ci_failure_request_def Let_def event_head_repo_def event_facts_def split: if_splits dest: eligible_request_facts)
next
  case (Some pr)
  then show ?thesis using assms
    by (cases pr) (auto simp add: ci_failure_request_def Let_def event_head_repo_def event_facts_def own_head_def split: if_splits
        dest: eligible_request_facts)
qed

lemma handled_request:
  assumes "handle_ci_fix_event env gh launch live now ev s = (Inr x, s')"
  obtains r s1 where "event_request gh live now ev s = (Inr r, s1)"
    "dispatch_ci_fix env launch live now r ''ci-fix-webhook'' s1 = (Inr x, s')"
  using assms by (auto simp add: handle_ci_fix_event_def split: prod.splits sum.splits)

text \<open>C36: A webhook starts a fix only past these checks. For a pull request that the merge queue removed for a conflict:
  the delivery does not call it a draft, and gives no state but open and no head repository but its own (a missing
  state or head repository passes). For a failed run, when GitHub answers for the pull request: by the answer it is no
  draft, its state is open or missing, its head repository its own or missing, and it is queued or has auto-merge
  armed. When GitHub does not answer, or answers with nothing: it is queued, the delivery does not call it a draft and
  names no head repository but its own; whether it is open is not known then.\<close>

theorem webhook_fixes_own_open:
  assumes "handle_ci_fix_event env gh launch live now ev s = (Inr x, s')"
  shows "if ge_kind ev = MergeConflict
         then ge_draft ev \<noteq> Some True \<and> open_state (ge_state ev) \<and> own_head ev (ge_head_repo ev)
         else case gh_pull gh (event_full_repo ev) (ge_pr ev) (ci_world s) of
           Some (Some p) \<Rightarrow> open_state (gp_state p) \<and> \<not> gp_draft p \<and> own_head ev (gp_head_repo p) \<and> (ge_queue ev \<or> gp_auto p)
         | _ \<Rightarrow> ge_queue ev \<and> ge_draft ev \<noteq> Some True \<and> own_head ev (ge_head_repo ev)"
proof -
  obtain r s1 where r: "event_request gh live now ev s = (Inr r, s1)" by (rule handled_request [OF assms])
  show ?thesis
  proof (cases "ge_kind ev = MergeConflict")
    case True
    then show ?thesis using r
      by (auto simp add: event_request_def merge_conflict_request_def own_head_def split: if_splits)
  next
    case False
    then have "ci_failure_request gh live now ev s = (Inr r, s1)" using r by (simp add: event_request_def split: if_splits)
    from failure_request_facts [OF this] False show ?thesis by simp
  qed
qed

section \<open>Attempts\<close>

definition keeps_audit :: "'w launcher \<Rightarrow> bool" where
  "keeps_audit launch = (\<forall>cmd s. ci_audit (snd (launch cmd s)) = ci_audit s)"

lemma keeps_auditD: "keeps_audit launch \<Longrightarrow> launch cmd s = (res, s1) \<Longrightarrow> ci_audit s1 = ci_audit s"
  unfolding keeps_audit_def by (metis snd_conv)

lemma route_and_launch_audit:
  assumes "route_and_launch env launch r caller s = (Inr x, s1)" "keeps_audit launch" "cx_writable env"
  obtains row where "ci_audit s1 = Some ((case ci_audit s of None \<Rightarrow> [] | Some rows \<Rightarrow> rows) @ [row])"
    "au_repo row = fq_repo r" "au_pr row = fq_pr r" "au_signature row = request_signature env r"
    "fx_attempt x = request_attempt env r (ci_audit s)"
    "fx_route x = request_route env r (ci_audit s)"
  using assms
  by (auto simp add: route_and_launch_def Let_def record_ci_fix_audit_def split: if_splits prod.splits sum.splits dest!: keeps_auditD)

lemma count_with_new_row:
  assumes "au_pr row = pr" "py_lower (au_repo row) = py_lower (py_strip repo)"
  shows "count_consecutive_attempts repo pr sig (Some ((case file of None \<Rightarrow> [] | Some rows \<Rightarrow> rows) @ [row])) =
           (if au_signature row = sig then Suc (count_consecutive_attempts repo pr sig file) else 0)"
  using assms by (simp add: count_consecutive_attempts_def split: option.split)

text \<open>
  The attempts that decide on escalation count the streak of one failure. After a dispatch that launched a run, the
  next request for the pull request without a number of its own is the next attempt when it has the same signature
  (workflow and failing tests, else the type), and the first one otherwise; the third attempt in a streak, and every
  later one, goes to the strong tier unless the branch is Cursor's or the failure is of the infrastructure.
\<close>

theorem attempts_count_streak:
  assumes "dispatch_ci_fix env launch live now r caller s = (Inr x, s1)" "keeps_audit launch" "cx_writable env"
    and "fq_attempt r = None" "fq_attempt r' = None"
    and "pr_key (fq_repo r') (fq_pr r') = pr_key (fq_repo r) (fq_pr r)" "py_strip (fq_repo r) = fq_repo r"
  shows "request_attempt env r' (ci_audit s1) = (if request_signature env r' = request_signature env r then fx_attempt x + 1 else 1) \<and>
         (py_startswith (fq_branch r) ''cursor/'' \<or> request_type r = ''infra'' \<or>
          (rt_tier (fx_route x) = ''strong'') = (3 \<le> fx_attempt x))"
  using assms(1)
proof (cases rule: dispatch_cases)
  case (started y t s2)
  obtain row where row: "ci_audit s2 = Some ((case ci_audit s of None \<Rightarrow> [] | Some rows \<Rightarrow> rows) @ [row])"
    "au_repo row = fq_repo r" "au_pr row = fq_pr r" "au_signature row = request_signature env r"
    "fx_attempt x = request_attempt env r (ci_audit s)" "fx_route x = request_route env r (ci_audit s)"
    using route_and_launch_audit [OF started(3) assms(2,3)] started(1) by auto
  have audit: "ci_audit s1 = ci_audit s2" using started(4) by simp
  have key: "py_lower (py_strip (fq_repo r')) = py_lower (py_strip (fq_repo r))" "fq_pr r' = fq_pr r"
    using assms(6) by (simp_all add: pr_key_def)
  have "count_consecutive_attempts (fq_repo r') (fq_pr r') sig (ci_audit s) =
        count_consecutive_attempts (fq_repo r) (fq_pr r) sig (ci_audit s)" for sig
    unfolding count_consecutive_attempts_def key ..
  then have "request_attempt env r' (ci_audit s1) = (if request_signature env r' = request_signature env r then fx_attempt x + 1 else 1)"
    using count_with_new_row [of row "fq_pr r'" "fq_repo r'" "request_signature env r'" "ci_audit s"] row audit key assms(4,5,7)
    by (auto simp add: request_attempt_def)
  moreover have "py_startswith (fq_branch r) ''cursor/'' \<or> request_type r = ''infra'' \<or>
      (rt_tier (fx_route x) = ''strong'') = (3 \<le> fx_attempt x)"
    using row(5,6) by (auto simp add: request_route_def route_ci_fix_def max_same_attempts_def)
  ultimately show ?thesis by blast
qed simp_all

section \<open>What stops a sweep\<close>

lemma sweep_loop_stops:
  assumes "sweep_fix_request p = None"
  shows "sweep_loop env launch clock (before @ p # behind) s = (None, snd (sweep_loop env launch clock before s))"
proof (induction before arbitrary: s)
  case Nil
  then show ?case using assms by simp
next
  case (Cons q qs)
  show ?case
  proof (cases "sweep_fix_request q")
    case (Some r)
    obtain res s1 where d: "dispatch_ci_fix env launch (snd (clock q)) (fst (clock q)) r ''ci-fix-webhook'' s = (res, s1)"
      by (rule prod.exhaust)
    then show ?thesis using Cons.IH [of s1] Some by (cases res) (simp_all split: prod.split)
  qed simp
qed

text \<open>
  One red pull request whose branch or repository has another character than those of a plain name stops the sweep.
  The sweep raises there: no candidate behind it is tried, and neither a report nor the count of stale pull requests
  comes out; what remains is what the candidates before it caused.
\<close>

theorem odd_branch_stops_sweep:
  assumes "select_sweep_candidates zone live now prs (ci_locks s) = (Some (before @ p # behind), locks)"
    and "\<not> list_all (\<lambda>c. name_char c \<or> c = CHR ''/'') (py_strip (pf_branch p))"
  shows "run_ci_fix_sweep env zone launch clock live now prs s =
           (None, snd (sweep_loop env launch clock before (s\<lparr>ci_locks := locks\<rparr>)))"
proof -
  have "sweep_fix_request p = None" using assms(2) by (simp add: sweep_fix_request_def make_request_def)
  then show ?thesis using assms(1) by (simp add: run_ci_fix_sweep_def sweep_loop_stops)
qed

section \<open>Trials, and where a fix goes wrong\<close>

text \<open>The world is the number of launched runs; a launch answers the next number.\<close>

definition demo_launch :: "nat launcher" where
  "demo_launch cmd s =
     (Inr \<lparr>la_run = ''run-'' @ int_text (int (ci_world s)), la_provider = [], la_model = []\<rparr>, s\<lparr>ci_world := Suc (ci_world s)\<rparr>)"

definition demo_ci :: ci_env where
  "demo_ci = \<lparr>cx_ttl = 7200, cx_tests = (\<lambda>t. if t = [] then [] else [t]), cx_sha = (\<lambda>t. t), cx_agy = False,
              cx_installed = (\<lambda>p. p = ''claude''), cx_writable = True\<rparr>"

definition demo_fix :: "string \<Rightarrow> string \<Rightarrow> fix_request" where
  "demo_fix repo excerpt =
     \<lparr>fq_repo = repo, fq_pr = 7, fq_conflict = False, fq_branch = ''fix/a'', fq_base = ''main'', fq_workflow = ''CI'', fq_run = None,
      fq_log = excerpt, fq_attempt = None, fq_type = None, fq_tests = None, fq_session = [], fq_queue = False\<rparr>"

definition demo_ci_state :: "nat fix_state" where
  "demo_ci_state = \<lparr>ci_locks = [], ci_audit = None, ci_world = 1\<rparr>"

abbreviation "all_live \<equiv> (\<lambda>r. Some True) :: probe"

lemma demo_launch_keeps: "keeps_locks demo_launch" "keeps_audit demo_launch"
  by (simp_all add: keeps_locks_def keeps_audit_def demo_launch_def)

lemma demo_dispatch:
  "dispatch_ci_fix demo_ci demo_launch all_live 0 (demo_fix ''Dash'' ''t1'') ''ann'' demo_ci_state =
     (Inr \<lparr>fx_route = \<lparr>rt_provider = ''claude_code_cli'', rt_tier = ''cli'', rt_model = ''claude-sonnet-5-5'', rt_budget = 3/2, rt_escalated = False\<rparr>,
            fx_provider = ''claude_code_cli'', fx_model = ''claude-sonnet-5-5'', fx_attempt = 1, fx_run = ''run-1''\<rparr>,
      snd (dispatch_ci_fix demo_ci demo_launch all_live 0 (demo_fix ''Dash'' ''t1'') ''ann'' demo_ci_state))"
  by code_simp

lemma one_session_per_pr_witness:
  "dispatch_ci_fix demo_ci demo_launch all_live 7199 (demo_fix ''DASH'' ''t2'') ''bob''
     (snd (dispatch_ci_fix demo_ci demo_launch all_live 0 (demo_fix ''Dash'' ''t1'') ''ann'' demo_ci_state)) =
   (Inl FixBusy, snd (dispatch_ci_fix demo_ci demo_launch all_live 0 (demo_fix ''Dash'' ''t1'') ''ann'' demo_ci_state))"
proof -
  have "pr_key (fq_repo (demo_fix ''DASH'' ''t2'')) (fq_pr (demo_fix ''DASH'' ''t2'')) =
        pr_key (fq_repo (demo_fix ''Dash'' ''t1'')) (fq_pr (demo_fix ''Dash'' ''t1''))" by code_simp
  from one_session_per_pr [OF demo_dispatch demo_launch_keeps(1) _ refl _ _ this, of 7199 all_live demo_launch "''bob''"]
  show ?thesis by (simp add: demo_ci_def)
qed

lemma attempts_count_streak_witness:
  "request_attempt demo_ci (demo_fix ''dash'' ''t1'')
     (ci_audit (snd (dispatch_ci_fix demo_ci demo_launch all_live 0 (demo_fix ''Dash'' ''t1'') ''ann'' demo_ci_state))) = 2"
proof -
  have "pr_key (fq_repo (demo_fix ''dash'' ''t1'')) (fq_pr (demo_fix ''dash'' ''t1'')) =
        pr_key (fq_repo (demo_fix ''Dash'' ''t1'')) (fq_pr (demo_fix ''Dash'' ''t1''))" by code_simp
  moreover have "request_signature demo_ci (demo_fix ''dash'' ''t1'') = request_signature demo_ci (demo_fix ''Dash'' ''t1'')" by code_simp
  moreover have "py_strip (fq_repo (demo_fix ''Dash'' ''t1'')) = fq_repo (demo_fix ''Dash'' ''t1'')" by code_simp
  ultimately show ?thesis
    using attempts_count_streak [OF demo_dispatch demo_launch_keeps(2), of "demo_fix ''dash'' ''t1''"]
    by (simp add: demo_ci_def demo_fix_def)
qed

definition demo_red :: "string \<Rightarrow> int \<Rightarrow> red_pr" where
  "demo_red branch n =
     \<lparr>pf_repo = ''Dash'', pf_number = Some n, pf_branch = branch, pf_draft = False, pf_armed = True, pf_red = Some ''t'', pf_labels = [],
      pf_workflow = ''CI'', pf_run = None\<rparr>"

lemma odd_branch_stops_sweep_witness:
  "run_ci_fix_sweep demo_ci (\<lambda>t. Zoned 0) demo_launch (\<lambda>p. (4000, all_live)) all_live 4000
     [demo_red ''npm/@types/node'' 1, demo_red ''fix/b'' 2] demo_ci_state = (None, demo_ci_state)"
proof -
  have "select_sweep_candidates (\<lambda>t. Zoned 0) all_live 4000 [demo_red ''npm/@types/node'' 1, demo_red ''fix/b'' 2] (ci_locks demo_ci_state) =
      (Some ([] @ demo_red ''npm/@types/node'' 1 # [demo_red ''fix/b'' 2]), [])" by code_simp
  moreover have "\<not> list_all (\<lambda>c. name_char c \<or> c = CHR ''/'') (py_strip (pf_branch (demo_red ''npm/@types/node'' 1)))" by code_simp
  ultimately have "run_ci_fix_sweep demo_ci (\<lambda>t. Zoned 0) demo_launch (\<lambda>p. (4000, all_live)) all_live 4000
      [demo_red ''npm/@types/node'' 1, demo_red ''fix/b'' 2] demo_ci_state =
    (None, snd (sweep_loop demo_ci demo_launch (\<lambda>p. (4000, all_live)) [] (demo_ci_state\<lparr>ci_locks := []\<rparr>)))"
    by (rule odd_branch_stops_sweep)
  then show ?thesis by (simp add: demo_ci_state_def)
qed

definition demo_gh :: "nat gh_env" where
  "demo_gh = \<lparr>gh_pull = (\<lambda>r n w. Some (Some \<lparr>gp_state = ''open'', gp_head_repo = ''org/Dash'', gp_head_ref = ''fix/a'', gp_draft = False, gp_auto = True\<rparr>)),
              gh_queue_runs = (\<lambda>r w. None), gh_sha_runs = (\<lambda>r h w. None), gh_log = (\<lambda>r i w. ''t1'')\<rparr>"

definition demo_event :: ci_event where
  "demo_event =
     \<lparr>ge_kind = CiFailure, ge_owner = ''org'', ge_repo = ''Dash'', ge_pr = 7, ge_head = ''fix/a'', ge_sha = ''abc'', ge_base = ''main'',
      ge_run = Some 12, ge_workflow = ''CI'', ge_conclusion = ''failure'', ge_queue = False, ge_draft = None, ge_state = [], ge_head_repo = []\<rparr>"

lemma webhook_fixes_own_open_witness:
  "gp_auto \<lparr>gp_state = ''open'', gp_head_repo = ''org/Dash'', gp_head_ref = ''fix/a'', gp_draft = False, gp_auto = True\<rparr> \<and>
   (\<exists>x s1. handle_ci_fix_event demo_ci demo_gh demo_launch all_live 0 demo_event demo_ci_state = (Inr x, s1))"
proof -
  have "\<not> isl (fst (handle_ci_fix_event demo_ci demo_gh demo_launch all_live 0 demo_event demo_ci_state))" by code_simp
  then obtain x s1 where h: "handle_ci_fix_event demo_ci demo_gh demo_launch all_live 0 demo_event demo_ci_state = (Inr x, s1)"
    by (metis isl_def prod.collapse sum.exhaust_sel sum.disc(1))
  from webhook_fixes_own_open [OF h] show ?thesis using h by (simp add: demo_gh_def demo_event_def)
qed

text \<open>A sweep carries no log, so its signature differs from that of a webhook for the same failure: in turn, they begin
  the streak anew each time and never escalate.\<close>

lemma sweep_resets_streak:
  "(let d = (\<lambda>x now s. dispatch_ci_fix demo_ci demo_launch (\<lambda>r. Some False) now (demo_fix ''Dash'' x) ''ann'' s);
        s1 = snd (d ''t1'' 0 demo_ci_state); s2 = snd (d [] 10 s1); s3 = snd (d ''t1'' 20 s2)
    in map au_attempt (case ci_audit (snd (d [] 30 s3)) of Some rows \<Rightarrow> rows | None \<Rightarrow> [])) = [1, 1, 1, 1]"
  by code_simp

text \<open>A launch that takes longer than the lock lives and then fails frees the lock of the next session.\<close>

lemma slow_launch_frees_other:
  "ci_locks (snd (dispatch_ci_fix demo_ci
     (\<lambda>cmd s. (Inl (LaunchFailed []), s\<lparr>ci_locks := snd (acquire_lock all_live 7200 7200 ''Dash'' 7 ''other'' (ci_locks s))\<rparr>))
     all_live 0 (demo_fix ''Dash'' ''t1'') ''ann'' demo_ci_state)) = []"
  by code_simp

text \<open>A time without a zone stops the sweep, too.\<close>

lemma unzoned_stops_sweep:
  "red_since zone p = Unzoned \<Longrightarrow> \<not> pf_draft p \<Longrightarrow> pf_armed p \<Longrightarrow>
   run_ci_fix_sweep env zone launch clock live now (p # ps) s = (None, s)"
  by (simp add: run_ci_fix_sweep_def)

section \<open>What the parser answers\<close>

lemma valid_eventD: "valid_event e = Inr ev \<Longrightarrow> ev = e \<and> 0 < ge_pr e \<and> list_all name_char (ge_repo e)"
  by (auto simp add: valid_event_def split: if_splits)

lemma parse_workflow_run_event:
  "parse_workflow_run repr p owner repo = Inr ev \<Longrightarrow> ge_owner ev = owner \<and> ge_repo ev = repo \<and> 0 < ge_pr ev \<and> ge_kind ev = CiFailure"
  by (auto simp add: parse_workflow_run_def Let_def split: option.splits if_splits list.splits dest!: valid_eventD)

lemma parse_dequeued_event:
  "parse_dequeued repr p owner repo = Inr ev \<Longrightarrow> ge_owner ev = owner \<and> ge_repo ev = repo \<and> 0 < ge_pr ev \<and> ge_queue ev"
  by (auto simp add: parse_dequeued_def Let_def split: option.splits if_splits dest!: valid_eventD)

text \<open>An event names a repository of the organisation and a positive number.\<close>

lemma parsed_event:
  "parse_github_event repr org name p = Inr ev \<Longrightarrow> py_lower (ge_owner ev) = py_lower org \<and> 0 < ge_pr ev"
  by (auto simp add: parse_github_event_def split: option.splits prod.splits if_splits
      dest!: parse_workflow_run_event parse_dequeued_event)

end
