(* ===== verification/Disk_Cordon.thy ===== *)
theory Disk_Cordon
  imports Runner_Lease Json_Access
begin

text \<open>
  \<open>backend/disk_full_cordon.py\<close> and \<open>backend/disk_full_cordon_runtime.py\<close>: a host whose disk fills
  up is taken out of service. The cordon sets the maintenance flag, drains the runners, cleans the
  disk and lets the host back in once the disk has recovered by a margin. The first section states
  what the thresholds of a cordon and of the autoscaler have in common: what trips and what clears
  exclude each other, and a latch stays set until a reading clears it.
\<close>

section \<open>Thresholds with a margin\<close>

text \<open>
  \<open>trips c\<close> and \<open>clears c\<close> read a sample under the configuration \<open>c\<close>; \<open>sane c\<close> is what the
  operator's settings must satisfy.
\<close>

locale margin =
  fixes sane :: "'c \<Rightarrow> bool"
    and trips :: "'c \<Rightarrow> 'a \<Rightarrow> bool"
    and clears :: "'c \<Rightarrow> 'a \<Rightarrow> bool"
  assumes exclusive: "sane c \<Longrightarrow> trips c x \<Longrightarrow> \<not> clears c x"
begin

lemma cleared_not_tripped: "sane c \<Longrightarrow> clears c x \<Longrightarrow> \<not> trips c x"
  using exclusive by blast

end

locale latched = margin sane trips clears
  for sane :: "'c \<Rightarrow> bool" and trips clears :: "'c \<Rightarrow> 'a \<Rightarrow> bool" +
  fixes latch :: "'c \<Rightarrow> 'a \<Rightarrow> bool \<Rightarrow> bool"
  assumes latch_step: "latch c x b = (if b then \<not> clears c x else trips c x)"
begin

text \<open>After a run of samples the latch is set just when some sample tripped it and none since has cleared it.\<close>

lemma latch_run:
  assumes "sane c"
  shows "foldl (\<lambda>b x. latch c x b) False xs \<longleftrightarrow>
    (\<exists>before x since. xs = before @ x # since \<and> trips c x \<and> (\<forall>y \<in> set since. \<not> clears c y))"
proof (induction xs rule: rev_induct)
  case Nil
  then show ?case by simp
next
  case (snoc z xs)
  have step: "foldl (\<lambda>b x. latch c x b) False (xs @ [z]) =
      (if foldl (\<lambda>b x. latch c x b) False xs then \<not> clears c z else trips c z)"
    by (simp add: latch_step)
  show ?case
  proof
    assume set_now: "foldl (\<lambda>b x. latch c x b) False (xs @ [z])"
    show "\<exists>before x since. xs @ [z] = before @ x # since \<and> trips c x \<and> (\<forall>y \<in> set since. \<not> clears c y)"
    proof (cases "foldl (\<lambda>b x. latch c x b) False xs")
      case True
      with snoc.IH obtain before x since where
        "xs = before @ x # since" "trips c x" "\<forall>y \<in> set since. \<not> clears c y" by blast
      with True set_now step have "xs @ [z] = before @ x # (since @ [z]) \<and> trips c x \<and>
          (\<forall>y \<in> set (since @ [z]). \<not> clears c y)" by auto
      then show ?thesis by blast
    next
      case False
      with set_now step have "xs @ [z] = xs @ z # [] \<and> trips c z \<and> (\<forall>y \<in> set []. \<not> clears c y)" by simp
      then show ?thesis by blast
    qed
  next
    assume "\<exists>before x since. xs @ [z] = before @ x # since \<and> trips c x \<and> (\<forall>y \<in> set since. \<not> clears c y)"
    then obtain before x since where run: "xs @ [z] = before @ x # since" "trips c x"
      "\<forall>y \<in> set since. \<not> clears c y" by blast
    show "foldl (\<lambda>b x. latch c x b) False (xs @ [z])"
    proof (cases since rule: rev_cases)
      case Nil
      with run have "z = x" by simp
      with run exclusive [OF assms] step show ?thesis by auto
    next
      case (snoc since' y)
      with run have "xs = before @ x # since'" "y = z" by simp_all
      with run snoc snoc.IH have "foldl (\<lambda>b x. latch c x b) False xs" "\<not> clears c z" by auto
      with step show ?thesis by simp
    qed
  qed
qed

end

section \<open>Policy and state\<close>

record disk_policy =
  trip_min_free_gb :: rat
  readmit_min_free_gb :: rat
  trip_used_percent :: rat
  readmit_used_percent :: rat
  drain_timeout_seconds :: int
  finish_running_jobs :: bool
  min_online_after_drain :: int

text \<open>What \<open>validate_runner_disk_guard\<close> asks of the fields above.\<close>

definition valid_policy :: "disk_policy \<Rightarrow> bool" where
  "valid_policy p \<longleftrightarrow>
     0 < trip_min_free_gb p \<and> 0 < readmit_min_free_gb p \<and>
     trip_min_free_gb p < readmit_min_free_gb p \<and>
     0 < trip_used_percent p \<and> trip_used_percent p \<le> 100 \<and>
     0 < readmit_used_percent p \<and> readmit_used_percent p \<le> 100 \<and>
     readmit_used_percent p < trip_used_percent p \<and>
     0 < drain_timeout_seconds p \<and> drain_timeout_seconds p \<le> 86400 \<and>
     finish_running_jobs p \<and>
     min_online_after_drain p = 0"

datatype cordon_phase = CpNormal | CpTripping | CpCordoned

record cordon_state =
  cordon_phase_of :: cordon_phase
  tripped_at :: "seconds option"
  cleanup_done :: bool
  last_proactive_cleanup_at :: "seconds option"

definition fresh_cordon :: cordon_state where
  "fresh_cordon = \<lparr>cordon_phase_of = CpNormal, tripped_at = None, cleanup_done = False,
     last_proactive_cleanup_at = None\<rparr>"

datatype cordon_action = SetMaintenanceOn | SetMaintenanceOff | StopRunner string bool | RunDiskCleanup

record runner_snapshot =
  rs_unit :: string
  rs_active :: bool
  rs_busy :: bool

record cordon_result =
  ct_state :: cordon_state
  ct_actions :: "cordon_action list"
  ct_inhibited :: bool
  ct_min_online :: "int option"
  ct_active :: bool

text \<open>A sample of the disk: free gigabytes and used per cent.\<close>

type_synonym disk_sample = "rat \<times> rat"

definition proactive_cleanup_needed :: "disk_sample \<Rightarrow> bool" where
  "proactive_cleanup_needed d \<longleftrightarrow> 75 \<le> snd d \<or> fst d < 80"

definition disk_pressure_trips :: "disk_policy \<Rightarrow> disk_sample \<Rightarrow> bool" where
  "disk_pressure_trips p d \<longleftrightarrow> fst d < trip_min_free_gb p \<or> trip_used_percent p \<le> snd d"

definition disk_pressure_allows_readmit :: "disk_policy \<Rightarrow> disk_sample \<Rightarrow> bool" where
  "disk_pressure_allows_readmit p d \<longleftrightarrow> readmit_min_free_gb p \<le> fst d \<and> snd d \<le> readmit_used_percent p"

interpretation disk: margin valid_policy disk_pressure_trips disk_pressure_allows_readmit
  by unfold_locales (auto simp: valid_policy_def disk_pressure_trips_def disk_pressure_allows_readmit_def)

section \<open>One tick of the cordon\<close>

text \<open>\<open>_finish_tick\<close>: a unit is stopped once.\<close>

fun dedup_stops :: "string list \<Rightarrow> cordon_action list \<Rightarrow> cordon_action list" where
  "dedup_stops seen [] = []"
| "dedup_stops seen (StopRunner u f # as) =
     (if u \<noteq> [] \<and> u \<in> set seen then dedup_stops seen as
      else StopRunner u f # dedup_stops (if u \<noteq> [] then u # seen else seen) as)"
| "dedup_stops seen (a # as) = a # dedup_stops seen as"

definition finish_tick :: "disk_policy \<Rightarrow> cordon_state \<Rightarrow> cordon_action list \<Rightarrow> cordon_result" where
  "finish_tick p s as =
     (let act = (cordon_phase_of s \<noteq> CpNormal)
      in \<lparr>ct_state = s, ct_actions = dedup_stops [] as, ct_inhibited = act,
          ct_min_online = (if act then Some (min_online_after_drain p) else None), ct_active = act\<rparr>)"

definition active_runners :: "runner_snapshot list \<Rightarrow> runner_snapshot list" where
  "active_runners rs = filter rs_active rs"

definition force_stop :: "disk_policy \<Rightarrow> seconds \<Rightarrow> seconds \<Rightarrow> bool" where
  "force_stop p tripped now \<longleftrightarrow> \<not> finish_running_jobs p \<or> of_int (drain_timeout_seconds p) \<le> now - tripped"

definition drain_stops :: "bool \<Rightarrow> runner_snapshot list \<Rightarrow> cordon_action list" where
  "drain_stops forced rs =
     map (\<lambda>r. StopRunner (rs_unit r) (forced \<and> rs_busy r))
       (filter (\<lambda>r. \<not> (rs_busy r \<and> \<not> forced)) (active_runners rs))"

text \<open>The branch of the phase \<open>tripping\<close>; \<open>None\<close>: the assertion on \<open>tripped_at\<close> fails.\<close>

definition drain_tick ::
    "disk_policy \<Rightarrow> runner_snapshot list \<Rightarrow> seconds \<Rightarrow> cordon_state \<Rightarrow> cordon_action list \<Rightarrow> cordon_result option" where
  "drain_tick p rs now s as =
     (case tripped_at s of
        None \<Rightarrow> None
      | Some t \<Rightarrow>
          Some (finish_tick p (if active_runners rs = [] then s\<lparr>cordon_phase_of := CpCordoned\<rparr> else s)
            (as @ drain_stops (force_stop p t now) rs)))"

text \<open>The branch of the phase \<open>normal\<close> without pressure.\<close>

definition proactive_due :: "disk_sample \<Rightarrow> seconds \<Rightarrow> cordon_state \<Rightarrow> bool" where
  "proactive_due d now s \<longleftrightarrow> proactive_cleanup_needed d \<and>
     (case last_proactive_cleanup_at s of None \<Rightarrow> True | Some t \<Rightarrow> 3600 \<le> now - t)"

definition plan_cordon_tick ::
    "disk_policy \<Rightarrow> disk_sample \<Rightarrow> runner_snapshot list \<Rightarrow> seconds \<Rightarrow> cordon_state \<Rightarrow> cordon_result option" where
  "plan_cordon_tick p d rs now s =
     (case cordon_phase_of s of
        CpNormal \<Rightarrow>
          if disk_pressure_trips p d
          then drain_tick p rs now (s\<lparr>cordon_phase_of := CpTripping, tripped_at := Some now\<rparr>) [SetMaintenanceOn]
          else if proactive_due d now s
          then Some (finish_tick p (s\<lparr>last_proactive_cleanup_at := Some now\<rparr>) [RunDiskCleanup])
          else Some (finish_tick p s [])
      | CpTripping \<Rightarrow> drain_tick p rs now s []
      | CpCordoned \<Rightarrow>
          if \<not> cleanup_done s
          then Some (finish_tick p (s\<lparr>cleanup_done := True\<rparr>) [RunDiskCleanup])
          else if disk_pressure_allows_readmit p d
          then Some (finish_tick p fresh_cordon [SetMaintenanceOff])
          else Some (finish_tick p s []))"

section \<open>The state file\<close>

fun phase_text :: "cordon_phase \<Rightarrow> string" where
  "phase_text CpNormal = ''normal''"
| "phase_text CpTripping = ''tripping''"
| "phase_text CpCordoned = ''cordoned''"

text \<open>\<open>float(x)\<close>; \<open>read_float\<close> is Python's reading of a text.\<close>

fun float_of_json :: "(string \<Rightarrow> rat option) \<Rightarrow> json \<Rightarrow> rat option" where
  "float_of_json read_float (JStr s) = read_float s"
| "float_of_json read_float v = json_number v"

definition load_phase :: "(string, json) dict \<Rightarrow> cordon_phase" where
  "load_phase d =
     (case map_of d ''phase'' of
        None \<Rightarrow> CpNormal
      | Some v \<Rightarrow> if v = JStr ''tripping'' then CpTripping
                  else if v = JStr ''cordoned'' then CpCordoned else CpNormal)"

text \<open>\<open>float(x) if x is not None else None\<close>; the outer \<open>None\<close>: the conversion raises.\<close>

definition optional_float :: "(string \<Rightarrow> rat option) \<Rightarrow> json \<Rightarrow> seconds option option" where
  "optional_float read_float v = (if v = JNull then Some None else map_option Some (float_of_json read_float v))"

text \<open>\<open>file\<close> is what \<open>json.loads\<close> makes of the file, \<open>None\<close> for one that is missing or no JSON.\<close>

definition load_cordon_state :: "(string \<Rightarrow> rat option) \<Rightarrow> json option \<Rightarrow> cordon_state option" where
  "load_cordon_state read_float file =
     (case file of
        Some (JDict d) \<Rightarrow>
          (case (optional_float read_float (json_get d ''tripped_at''),
                 optional_float read_float (json_get d ''last_proactive_cleanup_at'')) of
             (Some t, Some l) \<Rightarrow>
               Some \<lparr>cordon_phase_of = load_phase d, tripped_at = t,
                     cleanup_done = (case map_of d ''cleanup_done'' of None \<Rightarrow> False | Some v \<Rightarrow> json_true v),
                     last_proactive_cleanup_at = l\<rparr>
           | _ \<Rightarrow> None)
      | _ \<Rightarrow> Some fresh_cordon)"

definition optional_json :: "seconds option \<Rightarrow> json" where
  "optional_json t = (case t of None \<Rightarrow> JNull | Some x \<Rightarrow> JFloat x)"

definition save_cordon_state :: "cordon_state \<Rightarrow> json" where
  "save_cordon_state s = JDict
     [(''phase'', JStr (phase_text (cordon_phase_of s))),
      (''tripped_at'', optional_json (tripped_at s)),
      (''cleanup_done'', JBool (cleanup_done s)),
      (''last_proactive_cleanup_at'', optional_json (last_proactive_cleanup_at s))]"

section \<open>Applying a tick\<close>

text \<open>The host as the cordon changes it: the state file and the maintenance flag, and what it calls.\<close>

record cordon_host =
  ch_file :: "json option"
  ch_maintenance :: bool

datatype cordon_call = CallStop string string | CallCleanup

definition drain_reason :: "bool \<Rightarrow> string" where
  "drain_reason forced = (if forced then ''disk-full cordon (forced)'' else ''disk-full cordon drain'')"

fun apply_cordon_actions :: "bool \<Rightarrow> cordon_action list \<Rightarrow> bool \<Rightarrow> bool \<times> cordon_call list" where
  "apply_cordon_actions dry [] m = (m, [])"
| "apply_cordon_actions dry (SetMaintenanceOn # as) m = apply_cordon_actions dry as (if dry then m else True)"
| "apply_cordon_actions dry (SetMaintenanceOff # as) m = apply_cordon_actions dry as (if dry then m else False)"
| "apply_cordon_actions dry (RunDiskCleanup # as) m =
     (let (m', cs) = apply_cordon_actions dry as m in (m', if dry then cs else CallCleanup # cs))"
| "apply_cordon_actions dry (StopRunner u f # as) m =
     (let (m', cs) = apply_cordon_actions dry as m
      in (m', if dry \<or> u = [] then cs else CallStop u (drain_reason f) # cs))"

definition build_runner_snapshots ::
    "(string \<Rightarrow> bool) \<Rightarrow> (string \<Rightarrow> bool) \<Rightarrow> string list \<Rightarrow> runner_snapshot list" where
  "build_runner_snapshots is_active is_busy us =
     map (\<lambda>u. \<lparr>rs_unit = u, rs_active = is_active u, rs_busy = is_busy u\<rparr>) us"

text \<open>\<open>None\<close>: the tick raises and changes nothing; otherwise whether scaling is skipped.\<close>

definition process_cordon_tick ::
    "(string \<Rightarrow> rat option) \<Rightarrow> disk_policy \<Rightarrow> disk_sample \<Rightarrow> (string \<Rightarrow> bool) \<Rightarrow> (string \<Rightarrow> bool) \<Rightarrow>
      string list \<Rightarrow> bool \<Rightarrow> seconds \<Rightarrow> cordon_host \<Rightarrow> (bool \<times> cordon_call list \<times> cordon_host) option" where
  "process_cordon_tick read_float p d is_active is_busy us dry now h =
     (case load_cordon_state read_float (ch_file h) of
        None \<Rightarrow> None
      | Some s \<Rightarrow>
          (case plan_cordon_tick p d (build_runner_snapshots is_active is_busy us) now s of
             None \<Rightarrow> None
           | Some r \<Rightarrow>
               (let (m, cs) = apply_cordon_actions dry (ct_actions r) (ch_maintenance h)
                in Some (ct_active r, cs,
                     \<lparr>ch_file = Some (save_cordon_state (ct_state r)), ch_maintenance = m\<rparr>))))"

text \<open>
  The alert of the fleet: the number of cordoned hosts reaches the minimum from below; \<open>None\<close> for a
  count that is not known.
\<close>

definition multi_host_cordon_alert_needed :: "int option \<Rightarrow> int \<Rightarrow> int \<Rightarrow> bool" where
  "multi_host_cordon_alert_needed previous current minimum =
     (if current < minimum then False
      else case previous of None \<Rightarrow> True | Some n \<Rightarrow> n < minimum)"

end
