(* ===== verification/Scale_Decision.thy ===== *)
theory Scale_Decision
  imports Disk_Cordon
begin

text \<open>
  The decisions of the runner autoscaler that read no clock and call no systemd:
  \<open>backend/runner_autoscaler.py\<close> (thresholds, pools, filters, the scheduled size of a pool),
  \<open>backend/autoscaler_sampling.py\<close> (which runners a lease protects) and
  \<open>backend/autoscaler_systemd.py\<close> (names of units, the contract under which a unit may be stopped).
\<close>

section \<open>Units and the stop contract\<close>

definition service_suffix :: string where
  "service_suffix = ''.service''"

definition py_endswith :: "string \<Rightarrow> string \<Rightarrow> bool" where
  "py_endswith s p = (drop (length s - length p) s = p)"

definition runner_name_for_unit :: "string \<Rightarrow> string" where
  "runner_name_for_unit u =
     (if \<not> py_endswith u service_suffix then u
      else let stem = take (length u - length service_suffix) u;
               tail = rev (takeWhile (\<lambda>c. c \<noteq> CHR ''.'') (rev stem))
           in if tail = [] then stem else tail)"

definition span_units :: "(string \<times> rat) list" where
  "span_units = [(''usec'', 1 / 1000000), (''us'', 1 / 1000000), (''ms'', 1 / 1000), (''s'', 1),
     (''min'', 60), (''h'', 3600), (''d'', 86400)]"

text \<open>
  One match of \<open>(\d+(?:\.\d+)?)\s*(usec|us|ms|s|min|h|d)\<close> at the head of a text: the seconds and the
  rest. No match is gained by giving back a digit or the fraction, as a unit starts with a letter.
\<close>

definition match_amount :: "string \<Rightarrow> rat \<times> string" where
  "match_amount s =
     (let ds = takeWhile is_digit s; r = dropWhile is_digit s;
          fs = takeWhile is_digit (drop 1 r)
      in if r \<noteq> [] \<and> hd r = CHR ''.'' \<and> fs \<noteq> []
         then (of_nat (digits_value ds) + of_nat (digits_value fs) / 10 ^ length fs,
               dropWhile is_digit (drop 1 r))
         else (of_nat (digits_value ds), r))"

definition match_span :: "string \<Rightarrow> (rat \<times> string) option" where
  "match_span s =
     (if s = [] \<or> \<not> is_digit (hd s) then None
      else let (n, r) = match_amount s; r' = dropWhile py_space r
           in case List.find (\<lambda>(u, _). py_startswith r' u) span_units of
                None \<Rightarrow> None
              | Some (u, k) \<Rightarrow> Some (n * k, drop (length u) r'))"

lemma length_match_amount: "length (snd (match_amount s)) \<le> length s"
proof -
  have "length (dropWhile is_digit (drop 1 (dropWhile is_digit s))) \<le> length (drop 1 (dropWhile is_digit s))"
    by (rule length_dropWhile_le)
  also have "\<dots> \<le> length (dropWhile is_digit s)" by simp
  also have "\<dots> \<le> length s" by (rule length_dropWhile_le)
  finally show ?thesis by (simp add: match_amount_def Let_def length_dropWhile_le)
qed

lemma match_span_shorter: "match_span s = Some (v, r) \<Longrightarrow> length r < length s"
proof -
  assume m: "match_span s = Some (v, r)"
  obtain n r0 where nr: "match_amount s = (n, r0)" by fastforce
  from m nr obtain u k where f: "List.find (\<lambda>(u, _). py_startswith (dropWhile py_space r0) u) span_units = Some (u, k)"
    and r: "r = drop (length u) (dropWhile py_space r0)"
    by (auto simp: match_span_def Let_def split: if_splits option.splits)
  from f have u: "py_startswith (dropWhile py_space r0) u" "(u, k) \<in> set span_units"
    by (auto simp: find_Some_iff in_set_conv_nth)
  then have "u \<noteq> []" by (auto simp: span_units_def)
  with u have "length r < length (dropWhile py_space r0)"
    by (auto simp: r py_startswith_iff)
  also have "\<dots> \<le> length s"
    using length_match_amount [of s] nr length_dropWhile_le [of py_space r0] by simp
  finally show ?thesis .
qed

function span_sum :: "string \<Rightarrow> rat" where
  "span_sum [] = 0"
| "span_sum (c # cs) =
     (case match_span (c # cs) of None \<Rightarrow> span_sum cs | Some (v, r) \<Rightarrow> v + span_sum r)"
  by pat_completeness auto

termination
  by (relation "measure length") (auto dest: match_span_shorter)

definition systemd_timespan_seconds :: "string \<Rightarrow> rat" where
  "systemd_timespan_seconds v =
     (let t = py_strip v
      in if t = [] then 0
         else if list_all is_digit t
         then (let raw = of_nat (digits_value t) in if 10000 < raw then raw / 1000000 else raw)
         else span_sum t)"

text \<open>\<open>line.split("=", 1)\<close> of the lines that have one; a later line overrides.\<close>

definition show_props :: "string list \<Rightarrow> (string, string) dict" where
  "show_props ls =
     map (\<lambda>l. (takeWhile (\<lambda>c. c \<noteq> CHR ''='') l, py_strip (drop 1 (dropWhile (\<lambda>c. c \<noteq> CHR ''='') l))))
       (rev (filter (\<lambda>l. CHR ''='' \<in> set l) ls))"

text \<open>\<open>shown\<close>: the lines \<open>systemctl show\<close> prints, \<open>None\<close> when the call raises.\<close>

definition unit_has_safe_stop_contract :: "rat \<Rightarrow> string list option \<Rightarrow> bool" where
  "unit_has_safe_stop_contract min_timeout shown =
     (case shown of
        None \<Rightarrow> False
      | Some ls \<Rightarrow>
          (let props = show_props ls;
               prop = (\<lambda>k. case map_of props k of None \<Rightarrow> [] | Some v \<Rightarrow> v)
           in prop ''KillMode'' = ''mixed'' \<and>
              min_timeout \<le> systemd_timespan_seconds (prop ''TimeoutStopUSec'')))"

section \<open>Whether a runner is busy\<close>

text \<open>
  What \<open>_runner_is_busy\<close> (\<open>backend/autoscaler_busy.py\<close>) looks at: the pickup directory, the lock
  file, what \<open>systemctl\<close> prints as the main process (\<open>None\<close> when the call raises), whether
  \<open>psutil\<close> is installed, a worker among the children or anywhere in the runner's directory, and the
  state of the unit.
\<close>

record busy_reading =
  bz_pickup :: bool
  bz_lock :: bool
  bz_main_pid :: "string option"
  bz_psutil :: bool
  bz_worker_child :: bool
  bz_worker_scan :: bool
  bz_active_state :: string
  bz_sub_state :: string

definition runner_is_busy :: "busy_reading \<Rightarrow> bool" where
  "runner_is_busy b =
     (if bz_pickup b then True
      else if bz_lock b then True
      else case bz_main_pid b of
             None \<Rightarrow> True
           | Some out \<Rightarrow>
               (let pid = (case py_int (py_strip out) of None \<Rightarrow> False | Some n \<Rightarrow> 0 < n)
                in if pid \<and> bz_psutil b then bz_worker_child b \<or> bz_worker_scan b
                   else if bz_psutil b \<and> bz_worker_scan b then True
                   else if bz_active_state b = ''active'' \<and> bz_sub_state b = ''running'' then True
                   else if bz_active_state b \<in> set [''inactive'', ''failed'', ''deactivating''] then False
                   else True))"

text \<open>
  A runner is taken for idle only on evidence: no trace of a pickup, no lock, and a listener that runs
  without a worker or a unit that is down.
\<close>

lemma idle_on_evidence:
  "\<not> runner_is_busy b \<Longrightarrow> \<not> bz_pickup b \<and> \<not> bz_lock b \<and> bz_main_pid b \<noteq> None \<and>
     (bz_psutil b \<and> \<not> bz_worker_child b \<and> \<not> bz_worker_scan b \<or>
      bz_active_state b \<in> {''inactive'', ''failed'', ''deactivating''})"
  by (auto simp: runner_is_busy_def Let_def split: if_splits option.splits)

text \<open>Without \<open>psutil\<close> every running unit is busy, so that none is ever stopped.\<close>

lemma no_psutil_all_busy:
  "\<not> bz_psutil b \<Longrightarrow> bz_active_state b = ''active'' \<Longrightarrow> bz_sub_state b = ''running'' \<Longrightarrow> runner_is_busy b"
  by (simp add: runner_is_busy_def split: option.split)

section \<open>Runners a lease protects\<close>

record lease_guard =
  lg_names :: "string list"
  lg_block :: bool

definition no_guard :: lease_guard where
  "no_guard = \<lparr>lg_names = [], lg_block = False\<rparr>"

definition is_virtual_runner_id :: "string \<Rightarrow> bool" where
  "is_virtual_runner_id r \<longleftrightarrow> py_startswith r ''virtual-'' \<or> py_startswith r ''github-claim-''"

definition pinned_text :: "json \<Rightarrow> string option" where
  "pinned_text v = (case v of JStr s \<Rightarrow> (if py_strip s \<noteq> [] then Some (py_strip s) else None) | _ \<Rightarrow> None)"

text \<open>The first pin of the metadata that is a text and not blank.\<close>

fun first_pin :: "(string, json) dict \<Rightarrow> string list \<Rightarrow> string option" where
  "first_pin md [] = None"
| "first_pin md (k # ks) =
     (case pinned_text (json_get md k) of Some n \<Rightarrow> Some n | None \<Rightarrow> first_pin md ks)"

text \<open>The outer \<open>None\<close>: the record has no runner id and a \<open>KeyError\<close> is raised.\<close>

definition runner_name_from_lease :: "(json \<Rightarrow> string) \<Rightarrow> (string, json) dict \<Rightarrow> string option option" where
  "runner_name_from_lease repr rec =
     (case map_of rec ''runner_id'' of
        None \<Rightarrow> None
      | Some v \<Rightarrow>
          (let rid = json_str repr v
           in if \<not> is_virtual_runner_id rid then Some (Some rid)
              else case json_get rec ''metadata'' of
                     JDict md \<Rightarrow> Some (first_pin md [''runner_name'', ''pinned_runner'', ''runner''])
                   | _ \<Rightarrow> Some None))"

text \<open>
  One round of the loop: an expired record and one that is malformed are passed over, an active one
  protects its runner or blocks scaling down.
\<close>

definition guard_step ::
    "(json \<Rightarrow> string) \<Rightarrow> (string \<Rightarrow> rat option) \<Rightarrow> seconds \<Rightarrow> json \<Rightarrow> lease_guard \<Rightarrow> lease_guard" where
  "guard_step repr read_float now v g =
     (case v of
        JDict rec \<Rightarrow>
          (let protect = (case runner_name_from_lease repr rec of
                            None \<Rightarrow> g
                          | Some None \<Rightarrow> g\<lparr>lg_block := True\<rparr>
                          | Some (Some n) \<Rightarrow> g\<lparr>lg_names := n # lg_names g\<rparr>)
           in case json_get rec ''expires_at'' of
                JNull \<Rightarrow> protect
              | x \<Rightarrow> (case float_of_json read_float x of
                        None \<Rightarrow> g
                      | Some e \<Rightarrow> if e \<le> now then g else protect))
      | _ \<Rightarrow> g)"

datatype lease_file = NoLeaseFile | UnreadableLeases | LeaseData json

text \<open>What \<open>data["leases"]\<close> iterates over; \<open>None\<close>: the expression raises.\<close>

definition lease_entries :: "json \<Rightarrow> json list option" where
  "lease_entries data =
     (if \<not> json_true data then Some []
      else case data of
             JDict d \<Rightarrow>
               (case map_of d ''leases'' of
                  None \<Rightarrow> Some []
                | Some (JList vs) \<Rightarrow> Some vs
                | Some (JDict e) \<Rightarrow> Some (map (\<lambda>p. JStr (fst p)) e)
                | Some (JStr s) \<Rightarrow> Some (map (\<lambda>c. JStr [c]) s)
                | Some _ \<Rightarrow> None)
           | JList vs \<Rightarrow> if JStr ''leases'' \<in> set vs then None else Some []
           | JStr s \<Rightarrow> if py_contains ''leases'' s then None else Some []
           | _ \<Rightarrow> None)"

definition lease_scale_down_guard ::
    "(json \<Rightarrow> string) \<Rightarrow> (string \<Rightarrow> rat option) \<Rightarrow> seconds \<Rightarrow> lease_file \<Rightarrow> lease_guard option" where
  "lease_scale_down_guard repr read_float now f =
     (case f of
        NoLeaseFile \<Rightarrow> Some no_guard
      | UnreadableLeases \<Rightarrow> Some no_guard
      | LeaseData data \<Rightarrow>
          map_option (\<lambda>vs. fold (guard_step repr read_float now) vs no_guard) (lease_entries data))"

section \<open>Pools\<close>

datatype pool = DefaultPool | NvmePool | HddPool

fun pool_text :: "pool \<Rightarrow> string" where
  "pool_text DefaultPool = ''default''"
| "pool_text NvmePool = ''nvme''"
| "pool_text HddPool = ''hdd''"

record pool_cfg =
  pc_min :: int
  pc_max :: int
  pc_default :: int
  pc_labels :: "string list"
  pc_start_enabled :: bool
  pc_stop_enabled :: bool
  pc_min_free :: rat
  pc_disk_high :: rat

text \<open>
  The module constants of \<open>autoscaler_config.py\<close>. \<open>sc_nvme_high\<close> is \<open>NVME_CACHE_HIGH\<close> and
  \<open>sc_hdd_high\<close> is \<open>HDD_IO_HIGH\<close>.
\<close>

record scaler_config =
  sc_cpu_high :: rat
  sc_cpu_low :: rat
  sc_mem_high :: rat
  sc_disk_high :: rat
  sc_disk_min_free :: rat
  sc_io_high :: rat
  sc_io_low :: rat
  sc_load_per_core :: rat
  sc_sustain :: int
  sc_poll :: int
  sc_min_online :: int
  sc_max_step :: int
  sc_action_cooldown :: int
  sc_cooldown :: int
  sc_nvme :: pool_cfg
  sc_nvme_high :: rat
  sc_nvme_pattern :: string
  sc_hdd :: pool_cfg
  sc_hdd_high :: rat
  sc_hdd_pattern :: string
  sc_filter_start :: "string list"
  sc_filter_stop :: "string list"
  sc_dry_run :: bool

text \<open>
  Lower bounds \<open>_env_int\<close> and \<open>_env_float\<close> check, and what the bands of the default pool need: the
  low marks are below the high ones, which nothing checks.
\<close>

definition sane_config :: "scaler_config \<Rightarrow> bool" where
  "sane_config c \<longleftrightarrow> 0 \<le> sc_load_per_core c \<and> 0 \<le> sc_min_online c \<and> 0 \<le> sc_max_step c \<and>
     sc_cpu_low c < sc_cpu_high c \<and> sc_io_low c \<le> sc_io_high c"

definition get_pool_config :: "scaler_config \<Rightarrow> pool \<Rightarrow> pool_cfg" where
  "get_pool_config c p =
     (case p of
        NvmePool \<Rightarrow> sc_nvme c
      | HddPool \<Rightarrow> sc_hdd c
      | DefaultPool \<Rightarrow> \<lparr>pc_min = sc_min_online c, pc_max = 999, pc_default = sc_min_online c, pc_labels = [],
          pc_start_enabled = True, pc_stop_enabled = True, pc_min_free = sc_disk_min_free c,
          pc_disk_high = sc_disk_high c\<rparr>)"

text \<open>\<open>re_search\<close> is \<open>re.search\<close> without regard to case.\<close>

definition classify_unit :: "(string \<Rightarrow> string \<Rightarrow> bool) \<Rightarrow> scaler_config \<Rightarrow> string \<Rightarrow> pool" where
  "classify_unit re_search c u =
     (let n = py_lower (runner_name_for_unit u)
      in if sc_nvme_pattern c \<noteq> [] \<and> re_search (sc_nvme_pattern c) n then NvmePool
         else if sc_hdd_pattern c \<noteq> [] \<and> re_search (sc_hdd_pattern c) n then HddPool
         else DefaultPool)"

definition pool_passes_label_filter :: "string list \<Rightarrow> string list \<Rightarrow> bool" where
  "pool_passes_label_filter labels filters =
     (if filters = [] then True else if labels = [] then True else list_ex (\<lambda>l. l \<in> set filters) labels)"

definition is_start_allowed :: "scaler_config \<Rightarrow> pool \<Rightarrow> bool" where
  "is_start_allowed c p =
     (pc_start_enabled (get_pool_config c p) \<and>
      pool_passes_label_filter (pc_labels (get_pool_config c p)) (sc_filter_start c))"

definition is_stop_allowed :: "scaler_config \<Rightarrow> pool \<Rightarrow> bool" where
  "is_stop_allowed c p =
     (pc_stop_enabled (get_pool_config c p) \<and>
      pool_passes_label_filter (pc_labels (get_pool_config c p)) (sc_filter_stop c))"

section \<open>The scheduled size of a pool\<close>

text \<open>\<open>parse_time\<close>: the minute of the day.\<close>

definition parse_time :: "json \<Rightarrow> int option" where
  "parse_time v =
     (case v of
        JStr s \<Rightarrow>
          (if CHR '':'' \<notin> set s then None
           else case (py_int (takeWhile (\<lambda>c. c \<noteq> CHR '':'') s), py_int (drop 1 (dropWhile (\<lambda>c. c \<noteq> CHR '':'') s))) of
                  (Some h, Some m) \<Rightarrow> if 0 \<le> h \<and> h < 24 \<and> 0 \<le> m \<and> m < 60 then Some (60 * h + m) else None
                | _ \<Rightarrow> None)
      | _ \<Rightarrow> None)"

text \<open>The texts of \<open>set(entry.get("days", []))\<close> a day may equal; \<open>None\<close>: no set can be made of it.\<close>

definition day_set :: "json \<Rightarrow> string list option" where
  "day_set v =
     (case v of
        JList vs \<Rightarrow>
          (if list_ex (\<lambda>x. case x of JList _ \<Rightarrow> True | JDict _ \<Rightarrow> True | _ \<Rightarrow> False) vs then None
           else Some (concat (map (\<lambda>x. case x of JStr s \<Rightarrow> [s] | _ \<Rightarrow> []) vs)))
      | JDict d \<Rightarrow> Some (map fst d)
      | JStr s \<Rightarrow> Some (map (\<lambda>c. [c]) s)
      | _ \<Rightarrow> None)"

definition weekday_text :: "nat \<Rightarrow> string" where
  "weekday_text n = [''mon'', ''tue'', ''wed'', ''thu'', ''fri'', ''sat'', ''sun''] ! (n mod 7)"

definition dict_get_or :: "(string, json) dict \<Rightarrow> string \<Rightarrow> json \<Rightarrow> json" where
  "dict_get_or d k v = (case map_of d k of None \<Rightarrow> v | Some x \<Rightarrow> x)"

text \<open>
  The matching of one entry at weekday \<open>wd\<close> and minute \<open>t\<close> of the day; an entry on which anything
  raises does not match.
\<close>

definition entry_matches :: "nat \<Rightarrow> rat \<Rightarrow> json \<Rightarrow> bool" where
  "entry_matches wd t v =
     (case v of
        JDict e \<Rightarrow>
          (case (day_set (dict_get_or e ''days'' (JList [])),
                 parse_time (dict_get_or e ''start'' (JStr ''00:00'')),
                 parse_time (dict_get_or e ''end'' (JStr ''23:59''))) of
             (Some days, Some a, Some b) \<Rightarrow>
               (let today = weekday_text wd \<in> set days; yesterday = weekday_text (wd + 6) \<in> set days
                in if a \<le> b then today \<and> of_int a \<le> t \<and> t < of_int b
                   else (today \<and> of_int a \<le> t) \<or> (yesterday \<and> t < of_int b))
           | _ \<Rightarrow> False)
      | _ \<Rightarrow> False)"

definition schedule_entries :: "json \<Rightarrow> json list option" where
  "schedule_entries v =
     (case v of
        JList vs \<Rightarrow> Some vs
      | JDict e \<Rightarrow> Some (map (\<lambda>p. JStr (fst p)) e)
      | JStr s \<Rightarrow> Some (map (\<lambda>c. JStr [c]) s)
      | _ \<Rightarrow> None)"

text \<open>The count a mapping gives a pool; \<open>None\<close>: \<open>int\<close> raises. Without a key the count is \<open>n\<close>.\<close>

definition pool_count :: "(string, json) dict \<Rightarrow> string \<Rightarrow> string \<Rightarrow> pool \<Rightarrow> int \<Rightarrow> int option" where
  "pool_count d key plain p n =
     (case map_of d key of
        Some v \<Rightarrow> json_int v
      | None \<Rightarrow>
          (if p = DefaultPool then case map_of d plain of Some v \<Rightarrow> json_int v | None \<Rightarrow> Some n
           else Some n))"

text \<open>
  What the schedule file asks for; \<open>None\<close>: something raises. \<open>local_time\<close> gives weekday and minute
  in the time zone the file names (UTC when there is no such zone).
\<close>

definition schedule_request ::
    "(json \<Rightarrow> nat \<times> rat) \<Rightarrow> pool \<Rightarrow> int \<Rightarrow> json \<Rightarrow> int option" where
  "schedule_request local_time p n v =
     (case v of
        JDict d \<Rightarrow>
          (if \<not> json_true (dict_get_or d ''enabled'' (JBool True)) then Some n
           else let (wd, t) = local_time (dict_get_or d ''timezone'' (JStr ''America/Los_Angeles''))
                in case schedule_entries (dict_get_or d ''schedules'' (JList [])) of
                     None \<Rightarrow> None
                   | Some es \<Rightarrow>
                       (case List.find (entry_matches wd t) es of
                          Some (JDict e) \<Rightarrow> pool_count e (pool_text p @ ''_runners'') ''runners'' p n
                        | _ \<Rightarrow> pool_count d (pool_text p @ ''_default_count'') ''default_count'' p n))
      | _ \<Rightarrow> None)"

text \<open>\<open>schedule\<close>: the content of the file, \<open>None\<close> when there is none or it is no JSON.\<close>

definition get_scheduled_pool_desired ::
    "scaler_config \<Rightarrow> (json \<Rightarrow> nat \<times> rat) \<Rightarrow> json option \<Rightarrow> pool \<Rightarrow> nat \<Rightarrow> int" where
  "get_scheduled_pool_desired c local_time schedule p units =
     (let cfg = get_pool_config c p;
          desired = (case schedule of
                       None \<Rightarrow> pc_default cfg
                     | Some v \<Rightarrow> (case schedule_request local_time p (pc_default cfg) v of
                                   None \<Rightarrow> pc_default cfg | Some n \<Rightarrow> n))
      in max (pc_min cfg) (min (min (pc_max cfg) (int units)) desired))"

section \<open>Overload and recovery\<close>

record host_sample =
  hs_cpu :: rat
  hs_mem :: rat
  hs_load :: rat
  hs_disk :: rat
  hs_free :: rat

record pool_sample =
  ps_pressure :: rat
  ps_disk :: rat
  ps_free :: rat

definition average :: "('a \<Rightarrow> rat) \<Rightarrow> 'a list \<Rightarrow> rat" where
  "average f xs = sum_list (map f xs) / of_nat (length xs)"

definition smallest :: "('a \<Rightarrow> rat) \<Rightarrow> 'a list \<Rightarrow> rat" where
  "smallest f xs = fold (\<lambda>x m. min (f x) m) (tl xs) (f (hd xs))"

definition io_pressure_overloaded :: "scaler_config \<Rightarrow> rat \<Rightarrow> bool \<Rightarrow> bool" where
  "io_pressure_overloaded c io was = ((if was then sc_io_low c else sc_io_high c) \<le> io)"

definition io_trips :: "scaler_config \<Rightarrow> rat \<Rightarrow> bool" where
  "io_trips c io \<longleftrightarrow> sc_io_high c \<le> io"

definition io_clears :: "scaler_config \<Rightarrow> rat \<Rightarrow> bool" where
  "io_clears c io \<longleftrightarrow> io < sc_io_low c"

text \<open>The averages over the window, the least free disk, and the pressure now with the latch before.\<close>

record host_metrics =
  hm_cpu :: rat
  hm_mem :: rat
  hm_load :: rat
  hm_disk :: rat
  hm_free :: rat
  hm_io :: rat
  hm_io_was :: bool

definition default_pool_overloaded :: "scaler_config \<Rightarrow> host_metrics \<Rightarrow> bool" where
  "default_pool_overloaded c m \<longleftrightarrow>
     sc_cpu_high c \<le> hm_cpu m \<or> sc_mem_high c \<le> hm_mem m \<or> sc_load_per_core c \<le> hm_load m \<or>
     sc_disk_high c \<le> hm_disk m \<or> hm_free m \<le> sc_disk_min_free c \<or>
     io_pressure_overloaded c (hm_io m) (hm_io_was m)"

definition default_pool_recovered :: "scaler_config \<Rightarrow> host_metrics \<Rightarrow> bool" where
  "default_pool_recovered c m \<longleftrightarrow>
     hm_cpu m \<le> sc_cpu_low c \<and> hm_mem m < sc_mem_high c - 10 \<and> hm_load m < sc_load_per_core c * (7 / 10) \<and>
     hm_disk m < sc_disk_high c - 5 \<and> sc_disk_min_free c < hm_free m \<and> hm_io m < sc_io_low c"

definition host_metrics_of :: "host_sample list \<Rightarrow> rat \<Rightarrow> bool \<Rightarrow> host_metrics" where
  "host_metrics_of xs io was =
     \<lparr>hm_cpu = average hs_cpu xs, hm_mem = average hs_mem xs, hm_load = average hs_load xs,
      hm_disk = average hs_disk xs, hm_free = smallest hs_free xs, hm_io = io, hm_io_was = was\<rparr>"

text \<open>The bands of the two disk pools, with the threshold \<open>high\<close> of the pool's own pressure.\<close>

definition disk_pool_overloaded :: "pool_cfg \<times> rat \<Rightarrow> pool_sample list \<Rightarrow> bool" where
  "disk_pool_overloaded c xs \<longleftrightarrow>
     snd c \<le> average ps_pressure xs \<or> pc_disk_high (fst c) \<le> average ps_disk xs \<or>
     smallest ps_free xs \<le> pc_min_free (fst c)"

definition disk_pool_recovered :: "pool_cfg \<times> rat \<Rightarrow> pool_sample list \<Rightarrow> bool" where
  "disk_pool_recovered c xs \<longleftrightarrow>
     average ps_pressure xs < snd c - 10 \<and> average ps_disk xs < pc_disk_high (fst c) - 5 \<and>
     pc_min_free (fst c) < smallest ps_free xs"

interpretation host_band: margin sane_config default_pool_overloaded default_pool_recovered
  by unfold_locales
    (auto simp: sane_config_def default_pool_overloaded_def default_pool_recovered_def
       io_pressure_overloaded_def split: if_splits)

interpretation disk_band: margin "\<lambda>c. True" disk_pool_overloaded disk_pool_recovered
  by unfold_locales (auto simp: disk_pool_overloaded_def disk_pool_recovered_def)

interpretation io_band: latched sane_config io_trips io_clears io_pressure_overloaded
  by unfold_locales
    (auto simp: sane_config_def io_trips_def io_clears_def io_pressure_overloaded_def)

end
