(* ===== verification/Autoscaler.thy ===== *)
theory Autoscaler
  imports Scale_Decision
begin

text \<open>
  The poll loop of \<open>backend/runner_autoscaler.py\<close>: a tick samples the host, lets the disk cordon
  act and then sizes the three pools. What a tick observes (samples, states of units, files, clock
  readings, answers of systemd) is an argument; what it keeps is the windows of samples, the latch
  of the I/O pressure, the times of the last overload and of the last stop of each pool, and the
  files of the cordon. The pauses between ticks and the watchdog are left out.
\<close>

section \<open>State and observations\<close>

record scaler_state =
  ss_host :: "host_sample list"
  ss_nvme :: "pool_sample list"
  ss_hdd :: "pool_sample list"
  ss_io :: bool
  ss_overloaded :: "pool \<Rightarrow> seconds"
  ss_stopped :: "pool \<Rightarrow> seconds"
  ss_cordon :: cordon_host

definition scaler_start :: "cordon_host \<Rightarrow> scaler_state" where
  "scaler_start h = \<lparr>ss_host = [], ss_nvme = [], ss_hdd = [], ss_io = False,
     ss_overloaded = (\<lambda>_. 0), ss_stopped = (\<lambda>_. 0), ss_cordon = h\<rparr>"

text \<open>The clock readings of one pool in one tick: at the overload, the elapsed time, the gate, the record.\<close>

record pool_clock =
  pk_overload :: seconds
  pk_elapsed :: seconds
  pk_gate :: seconds
  pk_record :: seconds

record observation =
  ob_host :: host_sample
  ob_nvme :: pool_sample
  ob_hdd :: pool_sample
  ob_io :: rat
  ob_units :: "string list"
  ob_disk :: disk_sample
  ob_cordon_now :: seconds
  ob_cordon_active :: "string \<Rightarrow> bool"
  ob_cordon_busy :: "string \<Rightarrow> bool"
  ob_leases :: lease_file
  ob_lease_now :: seconds
  ob_active :: "string \<Rightarrow> bool"
  ob_busy :: "string \<Rightarrow> bool"
  ob_schedule :: "json option"
  ob_local_time :: "json \<Rightarrow> nat \<times> rat"
  ob_clock :: "pool \<Rightarrow> pool_clock"

datatype scale_command = StopUnit string string | StartUnit string | CleanDisk

text \<open>What the loop is given by the program around it: settings, the policy of the cordon and Python's conversions.\<close>

record scaler_env =
  sv_config :: scaler_config
  sv_policy :: disk_policy
  sv_search :: "string \<Rightarrow> string \<Rightarrow> bool"
  sv_repr :: "json \<Rightarrow> string"
  sv_float :: "string \<Rightarrow> rat option"

section \<open>Cooldowns\<close>

definition stop_in_cooldown :: "scaler_config \<Rightarrow> seconds \<Rightarrow> seconds \<Rightarrow> bool" where
  "stop_in_cooldown c t now =
     (if sc_action_cooldown c \<le> 0 then False else if t \<le> 0 then False
      else now - t < of_int (sc_action_cooldown c))"

text \<open>After an overload: no starts at first, then one at a time.\<close>

definition in_cooldown :: "scaler_config \<Rightarrow> bool \<Rightarrow> seconds \<Rightarrow> seconds \<Rightarrow> bool" where
  "in_cooldown c overloaded t now \<longleftrightarrow> \<not> overloaded \<and> 0 < t \<and> now - t < of_int (sc_cooldown c)"

definition in_soft_recovery :: "scaler_config \<Rightarrow> bool \<Rightarrow> seconds \<Rightarrow> seconds \<Rightarrow> bool" where
  "in_soft_recovery c overloaded t now \<longleftrightarrow> \<not> overloaded \<and> 0 < t \<and> \<not> now - t < of_int (sc_cooldown c) \<and>
     now - t < 2 * of_int (sc_cooldown c)"

section \<open>Sizing one pool\<close>

text \<open>\<open>xs[:n]\<close> for an \<open>n\<close> that may be negative.\<close>

definition py_take :: "int \<Rightarrow> 'a list \<Rightarrow> 'a list" where
  "py_take n xs = (if 0 \<le> n then take (nat n) xs else take (length xs - nat (- n)) xs)"

record pool_view =
  pv_active :: "string list"
  pv_idle :: "string list"
  pv_inactive :: "string list"
  pv_overloaded :: bool
  pv_recovered :: bool
  pv_desired :: int

definition view_surplus :: "pool_view \<Rightarrow> int" where
  "view_surplus v = max 0 (int (length (pv_active v)) - pv_desired v)"

text \<open>
  The branches of the loop body: the commands, and whether a stop is recorded. \<open>stopped\<close> is the
  time of the pool's last stop, \<open>overload\<close> that of its last overload.
\<close>

definition size_pool ::
    "scaler_config \<Rightarrow> pool \<Rightarrow> pool_clock \<Rightarrow> seconds \<Rightarrow> seconds \<Rightarrow> pool_view \<Rightarrow> scale_command list \<times> bool" where
  "size_pool c p k overload stopped v =
     (let active = int (length (pv_active v)); room = active - pc_min (get_pool_config c p)
      in if 0 < view_surplus v \<and> pv_idle v \<noteq> []
         then if \<not> is_stop_allowed c p \<or> stop_in_cooldown c stopped (pk_gate k) then ([], False)
              else let to_stop = py_take (min (sc_max_step c) (view_surplus v)) (pv_idle v)
                   in (map (\<lambda>u. StopUnit u ''scheduled surplus'') to_stop, to_stop \<noteq> [])
         else if pv_overloaded v \<and> 0 < room
         then if \<not> is_stop_allowed c p \<or> stop_in_cooldown c stopped (pk_gate k) then ([], False)
              else let to_stop = py_take (min (sc_max_step c) room) (pv_idle v)
                   in (map (\<lambda>u. StopUnit u ''host overloaded'') to_stop, to_stop \<noteq> [])
         else if pv_recovered v \<and> pv_inactive v \<noteq> [] \<and> active < pv_desired v
         then if in_cooldown c (pv_overloaded v) overload (pk_elapsed k) \<or> \<not> is_start_allowed c p then ([], False)
              else let step = (if in_soft_recovery c (pv_overloaded v) overload (pk_elapsed k) then 1
                               else sc_max_step c)
                   in (map StartUnit (py_take (min step (pv_desired v - active)) (pv_inactive v)), False)
         else ([], False))"

section \<open>A tick\<close>

definition history_len :: "scaler_config \<Rightarrow> nat" where
  "history_len c = nat (max 3 (sc_sustain c div max (sc_poll c) 1))"

text \<open>\<open>deque(maxlen=n).append(x)\<close>.\<close>

definition deque_append :: "nat \<Rightarrow> 'a list \<Rightarrow> 'a \<Rightarrow> 'a list" where
  "deque_append n xs x = (let ys = xs @ [x] in drop (length ys - n) ys)"

definition take_samples :: "scaler_config \<Rightarrow> observation \<Rightarrow> scaler_state \<Rightarrow> scaler_state" where
  "take_samples c e s =
     (let n = history_len c
      in s\<lparr>ss_host := deque_append n (ss_host s) (ob_host e), ss_nvme := deque_append n (ss_nvme s) (ob_nvme e),
           ss_hdd := deque_append n (ss_hdd s) (ob_hdd e), ss_io := io_pressure_overloaded c (ob_io e) (ss_io s)\<rparr>)"

definition pool_bands :: "scaler_config \<Rightarrow> observation \<Rightarrow> scaler_state \<Rightarrow> pool \<Rightarrow> bool \<times> bool" where
  "pool_bands c e s p =
     (case p of
        DefaultPool \<Rightarrow>
          (let m = host_metrics_of (ss_host s) (ob_io e) (ss_io s)
           in (default_pool_overloaded c m, default_pool_recovered c m))
      | NvmePool \<Rightarrow>
          (disk_pool_overloaded (sc_nvme c, sc_nvme_high c) (ss_nvme s),
           disk_pool_recovered (sc_nvme c, sc_nvme_high c) (ss_nvme s))
      | HddPool \<Rightarrow>
          (disk_pool_overloaded (sc_hdd c, sc_hdd_high c) (ss_hdd s),
           disk_pool_recovered (sc_hdd c, sc_hdd_high c) (ss_hdd s)))"

definition view_pool ::
    "scaler_config \<Rightarrow> observation \<Rightarrow> lease_guard \<Rightarrow> scaler_state \<Rightarrow> pool \<Rightarrow> string list \<Rightarrow> pool_view" where
  "view_pool c e g s p us =
     \<lparr>pv_active = filter (ob_active e) us,
      pv_idle = filter (\<lambda>u. \<not> ob_busy e u \<and> runner_name_for_unit u \<notin> set (lg_names g) \<and> \<not> lg_block g)
        (filter (ob_active e) us),
      pv_inactive = filter (\<lambda>u. \<not> ob_active e u) us,
      pv_overloaded = fst (pool_bands c e s p),
      pv_recovered = snd (pool_bands c e s p),
      pv_desired = get_scheduled_pool_desired c (ob_local_time e) (ob_schedule e) p (length us)\<rparr>"

text \<open>The body of the loop over the pools.\<close>

definition process_pool ::
    "scaler_config \<Rightarrow> observation \<Rightarrow> lease_guard \<Rightarrow> (pool \<Rightarrow> string list) \<Rightarrow> pool
      \<Rightarrow> scale_command list \<times> scaler_state \<Rightarrow> scale_command list \<times> scaler_state" where
  "process_pool c e g units p cs =
     (let (cmds, s) = cs; us = units p; k = ob_clock e p
      in if us = [] then cs
         else let v = view_pool c e g s p us;
                  s1 = (if pv_overloaded v then s\<lparr>ss_overloaded := (ss_overloaded s)(p := pk_overload k)\<rparr> else s);
                  (new, recorded) = size_pool c p k (ss_overloaded s1 p) (ss_stopped s1 p) v
              in (cmds @ new, if recorded then s1\<lparr>ss_stopped := (ss_stopped s1)(p := pk_record k)\<rparr> else s1))"

definition pool_order :: "pool list" where
  "pool_order = [DefaultPool, NvmePool, HddPool]"

definition scale_pools ::
    "scaler_env \<Rightarrow> observation \<Rightarrow> lease_guard \<Rightarrow> scaler_state \<Rightarrow> scale_command list \<times> scaler_state" where
  "scale_pools sv e g s =
     fold (process_pool (sv_config sv) e g
             (\<lambda>p. filter (\<lambda>u. classify_unit (sv_search sv) (sv_config sv) u = p) (ob_units e)))
       pool_order ([], s)"

fun cordon_command :: "cordon_call \<Rightarrow> scale_command" where
  "cordon_command (CallStop u r) = StopUnit u r"
| "cordon_command CallCleanup = CleanDisk"

text \<open>One round of \<open>while True\<close>: the commands it gives and the state it leaves, also when it raises.\<close>

definition scaler_tick ::
    "scaler_env \<Rightarrow> observation \<Rightarrow> scaler_state \<Rightarrow> scale_command list \<times> scaler_state" where
  "scaler_tick sv e s0 =
     (let c = sv_config sv; s = take_samples c e s0
      in if length (ss_host s) < history_len c \<or> ob_units e = [] then ([], s)
         else case process_cordon_tick (sv_float sv) (sv_policy sv) (ob_disk e) (ob_cordon_active e)
                     (ob_cordon_busy e) (ob_units e) (sc_dry_run c) (ob_cordon_now e) (ss_cordon s) of
                None \<Rightarrow> ([], s)
              | Some (True, calls, h) \<Rightarrow> (map cordon_command calls, s\<lparr>ss_cordon := h\<rparr>)
              | Some (False, calls, h) \<Rightarrow>
                  (case lease_scale_down_guard (sv_repr sv) (sv_float sv) (ob_lease_now e) (ob_leases e) of
                     None \<Rightarrow> (map cordon_command calls, s\<lparr>ss_cordon := h\<rparr>)
                   | Some g \<Rightarrow>
                       (let (cmds, s') = scale_pools sv e g (s\<lparr>ss_cordon := h\<rparr>)
                        in (map cordon_command calls @ cmds, s'))))"

fun scaler_run :: "scaler_env \<Rightarrow> observation list \<Rightarrow> scaler_state \<Rightarrow> scale_command list list \<times> scaler_state" where
  "scaler_run sv [] s = ([], s)"
| "scaler_run sv (e # es) s =
     (let (cmds, s1) = scaler_tick sv e s; (rest, s2) = scaler_run sv es s1 in (cmds # rest, s2))"

section \<open>Carrying out a stop\<close>

text \<open>
  \<open>_stop_unit\<close>: its result and whether systemd is asked. \<open>shown\<close> is the unit's configuration,
  \<open>busy\<close> a second reading, \<open>accepted\<close> the answer of systemd.
\<close>

definition stop_unit :: "bool \<Rightarrow> rat \<Rightarrow> string list option \<Rightarrow> bool \<Rightarrow> bool \<Rightarrow> bool \<times> bool" where
  "stop_unit dry min_timeout shown busy accepted =
     (if dry then (True, False)
      else if \<not> unit_has_safe_stop_contract min_timeout shown then (False, False)
      else if busy then (False, False)
      else (accepted, True))"

end
