(* ===== verification/Cordon_Facts.thy ===== *)
theory Cordon_Facts
  imports Disk_Cordon
begin

text \<open>
  What the disk cordon guarantees along every run of its ticks: its state file can always be read
  and acted on, the maintenance flag is up just while the cordon is, a busy runner is left alone
  until the drain has timed out, and a drained host with a recovered disk is let back in.
\<close>

section \<open>Reading back the state\<close>

lemma optional_float_json [simp]: "optional_float read_float (optional_json t) = Some t"
  by (cases t) (simp_all add: optional_json_def optional_float_def)

lemma load_saved_cordon [simp]: "load_cordon_state read_float (Some (save_cordon_state s)) = Some s"
proof -
  have "load_phase [(''phase'', JStr (phase_text ph)), x, y, z] = ph" for ph x y z
    by (cases ph) (simp_all add: load_phase_def)
  then show ?thesis by (simp add: load_cordon_state_def save_cordon_state_def json_get_def)
qed

section \<open>The actions of a tick\<close>

fun is_stop :: "cordon_action \<Rightarrow> bool" where
  "is_stop (StopRunner u f) = True"
| "is_stop a = False"

lemma dedup_subset: "set (dedup_stops seen as) \<subseteq> set as"
  by (induction seen as rule: dedup_stops.induct) auto

lemma flag_dedup [simp]: "fst (apply_cordon_actions dry (dedup_stops seen as) m) = fst (apply_cordon_actions dry as m)"
  by (induction seen as arbitrary: m rule: dedup_stops.induct) (simp_all add: case_prod_beta Let_def)

lemma flag_stops: "list_all is_stop as \<Longrightarrow> fst (apply_cordon_actions dry as m) = m"
  by (induction dry as m rule: apply_cordon_actions.induct) (simp_all add: case_prod_beta Let_def)

lemma drain_all_stops [simp]: "list_all is_stop (drain_stops f rs)"
  by (simp add: drain_stops_def list_all_iff)

lemma flag_drain [simp]: "fst (apply_cordon_actions dry (drain_stops f rs) m) = m"
  by (simp add: flag_stops)

lemma call_stop_action:
  "CallStop u r \<in> set (snd (apply_cordon_actions dry as m)) \<Longrightarrow> \<exists>f. StopRunner u f \<in> set as \<and> r = drain_reason f"
  by (induction dry as m rule: apply_cordon_actions.induct) (auto simp: case_prod_beta Let_def split: if_splits)

section \<open>The state of the cordon\<close>

definition cordon_ok :: "cordon_state \<Rightarrow> bool" where
  "cordon_ok s \<longleftrightarrow> (cordon_phase_of s = CpNormal \<or> tripped_at s \<noteq> None) \<and>
     (cleanup_done s \<longrightarrow> cordon_phase_of s = CpCordoned)"

lemma fresh_cordon_ok [simp]: "cordon_ok fresh_cordon"
  by (simp add: cordon_ok_def fresh_cordon_def)

lemmas cordon_tick_defs = plan_cordon_tick_def drain_tick_def finish_tick_def Let_def

lemma plan_defined: "cordon_ok s \<Longrightarrow> \<exists>r. plan_cordon_tick p d rs now s = Some r"
  by (cases "cordon_phase_of s") (auto simp: cordon_tick_defs cordon_ok_def)

lemma plan_ok: "plan_cordon_tick p d rs now s = Some r \<Longrightarrow> cordon_ok s \<Longrightarrow> cordon_ok (ct_state r)"
  by (cases "cordon_phase_of s")
    (auto simp: cordon_tick_defs cordon_ok_def fresh_cordon_def split: if_splits option.splits)

lemma plan_active: "plan_cordon_tick p d rs now s = Some r \<Longrightarrow> ct_active r = (cordon_phase_of (ct_state r) \<noteq> CpNormal)"
  by (cases "cordon_phase_of s")
    (auto simp: cordon_tick_defs split: if_splits option.splits)

lemma plan_flag:
  assumes "plan_cordon_tick p d rs now s = Some r" and "m = (cordon_phase_of s \<noteq> CpNormal)"
  shows "fst (apply_cordon_actions False (ct_actions r) m) = (cordon_phase_of (ct_state r) \<noteq> CpNormal)"
  using assms by (cases "cordon_phase_of s")
    (auto simp: cordon_tick_defs fresh_cordon_def split: if_splits option.splits)

lemma plan_tripping:
  assumes "plan_cordon_tick p d rs now s = Some r" and "cordon_phase_of (ct_state r) = CpTripping"
  shows "(cordon_phase_of s = CpTripping \<and> tripped_at (ct_state r) = tripped_at s) \<or>
    (cordon_phase_of s = CpNormal \<and> disk_pressure_trips p d \<and> tripped_at (ct_state r) = Some now)"
  using assms by (cases "cordon_phase_of s")
    (auto simp: cordon_tick_defs fresh_cordon_def split: if_splits option.splits)

lemma drain_tick_stops:
  assumes "drain_tick p rs now s as = Some r" and "StopRunner u f \<in> set (ct_actions r)"
    and "StopRunner u f \<notin> set as"
  obtains t q where "tripped_at s = Some t" and "q \<in> set rs" and "rs_unit q = u" and "rs_active q"
    and "rs_busy q \<longrightarrow> force_stop p t now"
proof -
  obtain t where t: "tripped_at s = Some t" using assms(1) by (auto simp: drain_tick_def split: option.splits)
  with assms(1,2) have "StopRunner u f \<in> set (as @ drain_stops (force_stop p t now) rs)"
    by (auto simp: drain_tick_def finish_tick_def Let_def dest!: dedup_subset [THEN subsetD])
  with assms(3) have "StopRunner u f \<in> set (drain_stops (force_stop p t now) rs)" by simp
  then show ?thesis using that [OF t] by (auto simp: drain_stops_def active_runners_def)
qed

lemma plan_stops:
  assumes "plan_cordon_tick p d rs now s = Some r" and "StopRunner u f \<in> set (ct_actions r)"
  obtains t q where "tripped_at s = Some t \<and> cordon_phase_of s = CpTripping \<or> t = now"
    and "q \<in> set rs" and "rs_unit q = u" and "rs_active q" and "rs_busy q \<longrightarrow> force_stop p t now"
proof (cases "cordon_phase_of s")
  case CpNormal
  with assms have "drain_tick p rs now (s\<lparr>cordon_phase_of := CpTripping, tripped_at := Some now\<rparr>) [SetMaintenanceOn] = Some r"
    by (auto simp: plan_cordon_tick_def finish_tick_def Let_def split: if_splits)
  then obtain t q where "tripped_at (s\<lparr>cordon_phase_of := CpTripping, tripped_at := Some now\<rparr>) = Some t"
    "q \<in> set rs" "rs_unit q = u" "rs_active q" "rs_busy q \<longrightarrow> force_stop p t now"
    by (rule drain_tick_stops [OF _ assms(2)]) simp
  then show ?thesis by (intro that [of now q]) simp_all
next
  case CpTripping
  with assms have "drain_tick p rs now s [] = Some r" by (simp add: plan_cordon_tick_def)
  then obtain t q where "tripped_at s = Some t"
    "q \<in> set rs" "rs_unit q = u" "rs_active q" "rs_busy q \<longrightarrow> force_stop p t now"
    by (rule drain_tick_stops [OF _ assms(2)]) simp
  with CpTripping show ?thesis by (intro that [of t q]) simp_all
next
  case CpCordoned
  with assms show ?thesis by (auto simp: plan_cordon_tick_def finish_tick_def Let_def split: if_splits)
qed

section \<open>Runs\<close>

record cordon_obs =
  co_disk :: disk_sample
  co_active :: "string \<Rightarrow> bool"
  co_busy :: "string \<Rightarrow> bool"
  co_units :: "string list"
  co_now :: seconds

definition cordon_step ::
    "(string \<Rightarrow> rat option) \<Rightarrow> disk_policy \<Rightarrow> bool \<Rightarrow> cordon_obs \<Rightarrow> cordon_host \<Rightarrow> cordon_call list \<times> cordon_host" where
  "cordon_step read_float p dry x h =
     (case process_cordon_tick read_float p (co_disk x) (co_active x) (co_busy x) (co_units x) dry (co_now x) h of
        None \<Rightarrow> ([], h) | Some (_, cs, h') \<Rightarrow> (cs, h'))"

fun cordon_run ::
    "(string \<Rightarrow> rat option) \<Rightarrow> disk_policy \<Rightarrow> bool \<Rightarrow> cordon_obs list \<Rightarrow> cordon_host \<Rightarrow> cordon_host" where
  "cordon_run read_float p dry [] h = h"
| "cordon_run read_float p dry (x # xs) h = cordon_run read_float p dry xs (snd (cordon_step read_float p dry x h))"

definition uncordoned_host :: cordon_host where
  "uncordoned_host = \<lparr>ch_file = None, ch_maintenance = False\<rparr>"

lemma cordon_run_append:
  "cordon_run rf p dry (xs @ ys) h = cordon_run rf p dry ys (cordon_run rf p dry xs h)"
  by (induction xs arbitrary: h) auto

text \<open>A tick on a state that can be read and acted on.\<close>

lemma cordon_step_plan:
  assumes "load_cordon_state rf (ch_file h) = Some s" and "cordon_ok s"
  obtains r where
    "plan_cordon_tick p (co_disk x) (build_runner_snapshots (co_active x) (co_busy x) (co_units x)) (co_now x) s = Some r"
    and "cordon_step rf p dry x h = (snd (apply_cordon_actions dry (ct_actions r) (ch_maintenance h)),
      \<lparr>ch_file = Some (save_cordon_state (ct_state r)),
       ch_maintenance = fst (apply_cordon_actions dry (ct_actions r) (ch_maintenance h))\<rparr>)"
proof -
  obtain r where r: "plan_cordon_tick p (co_disk x)
      (build_runner_snapshots (co_active x) (co_busy x) (co_units x)) (co_now x) s = Some r"
    using plan_defined [OF assms(2)] by blast
  with assms(1) show ?thesis
    by (intro that [OF r]) (simp add: cordon_step_def process_cordon_tick_def split: prod.split)
qed

text \<open>The phase saved after the ticks \<open>xs\<close>, and a drain: it began in normal operation at the tick \<open>y\<close>, which saw
  the disk trip, and was under way after \<open>y\<close> and after each tick since.\<close>

definition phase_after ::
    "(string \<Rightarrow> rat option) \<Rightarrow> disk_policy \<Rightarrow> bool \<Rightarrow> cordon_obs list \<Rightarrow> cordon_phase option" where
  "phase_after rf p dry xs =
     map_option cordon_phase_of (load_cordon_state rf (ch_file (cordon_run rf p dry xs uncordoned_host)))"

definition drain_from ::
    "(string \<Rightarrow> rat option) \<Rightarrow> disk_policy \<Rightarrow> bool \<Rightarrow> cordon_obs list \<Rightarrow> cordon_obs \<Rightarrow> cordon_obs list \<Rightarrow> bool" where
  "drain_from rf p dry before y since \<longleftrightarrow>
     phase_after rf p dry before = Some CpNormal \<and> disk_pressure_trips p (co_disk y) \<and>
     list_all (\<lambda>k. phase_after rf p dry (before @ y # take k since) = Some CpTripping) [0..<Suc (length since)]"

lemma drain_from_start:
  "phase_after rf p dry before = Some CpNormal \<Longrightarrow> disk_pressure_trips p (co_disk y) \<Longrightarrow>
   phase_after rf p dry (before @ [y]) = Some CpTripping \<Longrightarrow> drain_from rf p dry before y []"
  by (simp add: drain_from_def)

lemma drain_from_snoc:
  "drain_from rf p dry before y since \<Longrightarrow> phase_after rf p dry (before @ y # since @ [x]) = Some CpTripping \<Longrightarrow>
   drain_from rf p dry before y (since @ [x])"
  by (auto simp: drain_from_def list_all_iff less_Suc_eq)

text \<open>
  What holds after the ticks \<open>xs\<close>: the state loads, a drain under way is timed from the tick it began
  at, and outside a dry run the flag says whether the cordon is up.
\<close>

definition drain_timed ::
    "(string \<Rightarrow> rat option) \<Rightarrow> disk_policy \<Rightarrow> bool \<Rightarrow> cordon_obs list \<Rightarrow> cordon_state \<Rightarrow> bool" where
  "drain_timed rf p dry xs s \<longleftrightarrow>
     (\<exists>before y since. xs = before @ y # since \<and> drain_from rf p dry before y since \<and> tripped_at s = Some (co_now y))"

definition cordon_inv ::
    "(string \<Rightarrow> rat option) \<Rightarrow> disk_policy \<Rightarrow> bool \<Rightarrow> cordon_obs list \<Rightarrow> cordon_state \<Rightarrow> bool" where
  "cordon_inv rf p dry xs s \<longleftrightarrow>
     load_cordon_state rf (ch_file (cordon_run rf p dry xs uncordoned_host)) = Some s \<and> cordon_ok s \<and>
     (cordon_phase_of s = CpTripping \<longrightarrow> drain_timed rf p dry xs s) \<and>
     (\<not> dry \<longrightarrow> ch_maintenance (cordon_run rf p dry xs uncordoned_host) = (cordon_phase_of s \<noteq> CpNormal))"

lemma cordon_inv_step:
  assumes "cordon_inv rf p dry xs s"
  shows "\<exists>s'. cordon_inv rf p dry (xs @ [x]) s'"
proof -
  define h where "h = cordon_run rf p dry xs uncordoned_host"
  have load: "load_cordon_state rf (ch_file h) = Some s" "cordon_ok s" using assms by (simp_all add: cordon_inv_def h_def)
  obtain r where r: "plan_cordon_tick p (co_disk x)
      (build_runner_snapshots (co_active x) (co_busy x) (co_units x)) (co_now x) s = Some r"
    and st: "cordon_step rf p dry x h = (snd (apply_cordon_actions dry (ct_actions r) (ch_maintenance h)),
      \<lparr>ch_file = Some (save_cordon_state (ct_state r)),
       ch_maintenance = fst (apply_cordon_actions dry (ct_actions r) (ch_maintenance h))\<rparr>)"
    using cordon_step_plan [OF load] by blast
  have run: "cordon_run rf p dry (xs @ [x]) uncordoned_host = snd (cordon_step rf p dry x h)"
    by (simp add: cordon_run_append h_def)
  have phase: "phase_after rf p dry (xs @ [x]) = Some (cordon_phase_of (ct_state r))"
    "phase_after rf p dry xs = Some (cordon_phase_of s)"
    using load(1) st by (simp_all add: phase_after_def run h_def)
  have timed: "drain_timed rf p dry (xs @ [x]) (ct_state r)" if tr: "cordon_phase_of (ct_state r) = CpTripping"
    using plan_tripping [OF r tr]
  proof
    assume old: "cordon_phase_of s = CpTripping \<and> tripped_at (ct_state r) = tripped_at s"
    with assms have "drain_timed rf p dry xs s" by (simp add: cordon_inv_def)
    then obtain before y since where xs: "xs = before @ y # since"
      and d: "drain_from rf p dry before y since" "tripped_at s = Some (co_now y)"
      unfolding drain_timed_def by blast
    have "drain_from rf p dry before y (since @ [x])" using phase(1) tr xs by (auto intro: drain_from_snoc [OF d(1)])
    moreover have "xs @ [x] = before @ y # (since @ [x])" using xs by simp
    ultimately show ?thesis unfolding drain_timed_def using d(2) old by metis
  next
    assume new: "cordon_phase_of s = CpNormal \<and> disk_pressure_trips p (co_disk x) \<and> tripped_at (ct_state r) = Some (co_now x)"
    with phase tr have "drain_from rf p dry xs x []" by (simp add: drain_from_start)
    then show ?thesis unfolding drain_timed_def using new by blast
  qed
  have "cordon_inv rf p dry (xs @ [x]) (ct_state r)"
    using assms plan_ok [OF r load(2)] timed plan_flag [OF r] run [unfolded st]
    by (auto simp: cordon_inv_def h_def)
  then show ?thesis by blast
qed

lemma cordon_inv_run: "\<exists>s. cordon_inv rf p dry xs s"
proof (induction xs rule: rev_induct)
  case Nil
  have "cordon_inv rf p dry [] fresh_cordon"
    by (simp add: cordon_inv_def uncordoned_host_def load_cordon_state_def fresh_cordon_def cordon_ok_def)
  then show ?case by auto
next
  case (snoc x xs)
  then show ?case using cordon_inv_step by blast
qed

text \<open>
  After any ticks on a host without a state file the cordon's file loads, the next tick does not
  fail, and outside a dry run the maintenance flag is up just while the cordon is in force.
\<close>

theorem cordon_flag_tracks_phase:
  "\<exists>s r. load_cordon_state rf (ch_file (cordon_run rf p False xs uncordoned_host)) = Some s \<and>
     plan_cordon_tick p d rs now s = Some r \<and>
     ch_maintenance (cordon_run rf p False xs uncordoned_host) = (cordon_phase_of s \<noteq> CpNormal) \<and>
     ct_inhibited r = (cordon_phase_of (ct_state r) \<noteq> CpNormal)"
proof -
  obtain s where s: "cordon_inv rf p False xs s"
    using cordon_inv_run by blast
  then obtain r where r: "plan_cordon_tick p d rs now s = Some r"
    using plan_defined by (metis cordon_inv_def)
  have "ct_inhibited r = ct_active r" using r by (cases "cordon_phase_of s")
    (auto simp: cordon_tick_defs split: if_splits option.splits)
  with s r plan_active [OF r] show ?thesis by (auto simp: cordon_inv_def)
qed

text \<open>C39: Under a valid policy, the cordon asks for the stop of a runner that is busy only in a drain that has lasted
  its timeout: the drain began in normal operation at a tick that saw the disk past its limits, it was under way after
  every tick since, and the time from its first tick to now is at least the timeout.\<close>

theorem busy_runner_drains:
  assumes "valid_policy p"
    and "CallStop u why \<in> set (fst (cordon_step rf p dry x (cordon_run rf p dry xs uncordoned_host)))"
    and "co_busy x u"
  shows "\<exists>before y since. xs = before @ y # since \<and> drain_from rf p dry before y since \<and>
    of_int (drain_timeout_seconds p) \<le> co_now x - co_now y"
proof -
  obtain s where inv: "cordon_inv rf p dry xs s"
    using cordon_inv_run by blast
  then have load: "load_cordon_state rf (ch_file (cordon_run rf p dry xs uncordoned_host)) = Some s" "cordon_ok s"
    by (simp_all add: cordon_inv_def)
  obtain r where r: "plan_cordon_tick p (co_disk x)
      (build_runner_snapshots (co_active x) (co_busy x) (co_units x)) (co_now x) s = Some r"
    and calls: "fst (cordon_step rf p dry x (cordon_run rf p dry xs uncordoned_host)) =
      snd (apply_cordon_actions dry (ct_actions r) (ch_maintenance (cordon_run rf p dry xs uncordoned_host)))"
    using cordon_step_plan [OF load] by (metis fst_conv)
  obtain f where "StopRunner u f \<in> set (ct_actions r)"
    using call_stop_action assms(2) unfolding calls by blast
  then obtain t q where
    t: "tripped_at s = Some t \<and> cordon_phase_of s = CpTripping \<or> t = co_now x"
    and q: "q \<in> set (build_runner_snapshots (co_active x) (co_busy x) (co_units x))" "rs_unit q = u"
      "rs_busy q \<longrightarrow> force_stop p t (co_now x)" by (elim plan_stops [OF r])
  have "rs_busy q" using q(1,2) assms(3) by (auto simp: build_runner_snapshots_def)
  with q(3) assms(1) have late: "of_int (drain_timeout_seconds p) \<le> co_now x - t" "0 < drain_timeout_seconds p"
    by (auto simp: force_stop_def valid_policy_def)
  then have "t \<noteq> co_now x" by (auto simp: not_le)
  with t inv have "drain_timed rf p dry xs s" "tripped_at s = Some t" by (auto simp: cordon_inv_def)
  with late(1) show ?thesis unfolding drain_timed_def by (metis option.inject)
qed

section \<open>The way back\<close>

text \<open>How many ticks a host with no runner up and a recovered disk is from normal operation.\<close>

definition ticks_to_normal :: "cordon_state \<Rightarrow> nat" where
  "ticks_to_normal s =
     (case cordon_phase_of s of CpNormal \<Rightarrow> 0 | CpCordoned \<Rightarrow> (if cleanup_done s then 1 else 2) | CpTripping \<Rightarrow> 3)"

definition quiet_tick :: "disk_policy \<Rightarrow> cordon_obs \<Rightarrow> bool" where
  "quiet_tick p x \<longleftrightarrow> disk_pressure_allows_readmit p (co_disk x) \<and> list_all (\<lambda>u. \<not> co_active x u) (co_units x)"

lemma quiet_snapshots:
  "quiet_tick p x \<Longrightarrow> active_runners (build_runner_snapshots (co_active x) (co_busy x) (co_units x)) = []"
  by (auto simp: quiet_tick_def active_runners_def build_runner_snapshots_def filter_empty_conv list_all_iff)

lemma plan_quiet:
  assumes "valid_policy p" and "disk_pressure_allows_readmit p d" and "active_runners rs = []" and "cordon_ok s"
    and "plan_cordon_tick p d rs now s = Some r"
  shows "ticks_to_normal (ct_state r) \<le> ticks_to_normal s - 1"
  using assms disk.cleared_not_tripped [OF assms(1,2)]
  by (cases "cordon_phase_of s")
    (auto simp: cordon_tick_defs ticks_to_normal_def cordon_ok_def fresh_cordon_def split: if_splits option.splits)

lemma quiet_step:
  assumes "valid_policy p" and "quiet_tick p x"
    and "load_cordon_state rf (ch_file h) = Some s" and "cordon_ok s"
  shows "\<exists>s'. load_cordon_state rf (ch_file (snd (cordon_step rf p dry x h))) = Some s' \<and> cordon_ok s' \<and>
    ticks_to_normal s' \<le> ticks_to_normal s - 1"
proof -
  obtain r where r: "plan_cordon_tick p (co_disk x)
      (build_runner_snapshots (co_active x) (co_busy x) (co_units x)) (co_now x) s = Some r"
    and st: "cordon_step rf p dry x h = (snd (apply_cordon_actions dry (ct_actions r) (ch_maintenance h)),
      \<lparr>ch_file = Some (save_cordon_state (ct_state r)),
       ch_maintenance = fst (apply_cordon_actions dry (ct_actions r) (ch_maintenance h))\<rparr>)"
    using cordon_step_plan [OF assms(3,4)] by blast
  have "disk_pressure_allows_readmit p (co_disk x)" using assms(2) by (simp add: quiet_tick_def)
  from plan_quiet [OF assms(1) this quiet_snapshots [OF assms(2)] assms(4) r] plan_ok [OF r assms(4)]
  show ?thesis by (simp add: st)
qed

lemma quiet_run:
  assumes "valid_policy p" and "list_all (quiet_tick p) ys"
    and "load_cordon_state rf (ch_file h) = Some s" and "cordon_ok s"
  shows "\<exists>s'. load_cordon_state rf (ch_file (cordon_run rf p dry ys h)) = Some s' \<and>
    ticks_to_normal s' \<le> ticks_to_normal s - length ys"
  using assms(2-)
proof (induction ys arbitrary: h s)
  case Nil
  then show ?case by simp
next
  case (Cons y ys)
  obtain s1 where s1: "load_cordon_state rf (ch_file (snd (cordon_step rf p dry y h))) = Some s1" "cordon_ok s1"
    "ticks_to_normal s1 \<le> ticks_to_normal s - 1"
    using quiet_step [OF assms(1) _ Cons.prems(2,3)] Cons.prems(1) by auto
  from Cons.IH [OF _ s1(1,2)] Cons.prems(1) obtain s2 where
    "load_cordon_state rf (ch_file (cordon_run rf p dry (y # ys) h)) = Some s2"
    "ticks_to_normal s2 \<le> ticks_to_normal s1 - length ys" by auto
  with s1(3) show ?case by auto
qed

text \<open>C40: Outside a dry run, wherever the cordon stands, three ticks in which no runner is up and the disk has recovered
  bring the host back: the maintenance flag is down.\<close>

theorem drained_host_readmitted:
  assumes "valid_policy p" and "length ys = 3" and "list_all (quiet_tick p) ys"
  shows "\<not> ch_maintenance (cordon_run rf p False (xs @ ys) uncordoned_host)"
proof -
  obtain s where "cordon_inv rf p False xs s" using cordon_inv_run by blast
  then have s: "load_cordon_state rf (ch_file (cordon_run rf p False xs uncordoned_host)) = Some s" "cordon_ok s"
    by (simp_all add: cordon_inv_def)
  have "ticks_to_normal s \<le> 3" by (simp add: ticks_to_normal_def split: cordon_phase.split)
  with quiet_run [OF assms(1,3) s] assms(2) obtain s' where
    s': "load_cordon_state rf (ch_file (cordon_run rf p False (xs @ ys) uncordoned_host)) = Some s'" "ticks_to_normal s' = 0"
    by (auto simp: cordon_run_append)
  have "cordon_phase_of s' = CpNormal" using s'(2)
    by (simp add: ticks_to_normal_def split: cordon_phase.splits if_splits)
  moreover obtain t where "cordon_inv rf p False (xs @ ys) t"
    using cordon_inv_run by blast
  ultimately show ?thesis using s'(1) by (simp add: cordon_inv_def)
qed

text \<open>
  A runner that stays up holds the cordon in its drain, whatever the disk does meanwhile: the host
  is not let back in although the disk has recovered.
\<close>

lemma plan_held:
  assumes "plan_cordon_tick p d rs now s = Some r" and "cordon_phase_of s = CpTripping"
    and "active_runners rs \<noteq> []"
  shows "cordon_phase_of (ct_state r) = CpTripping"
  using assms by (auto simp: cordon_tick_defs split: option.splits)

lemma active_runner_holds_drain:
  assumes "load_cordon_state rf (ch_file h) = Some s" and "cordon_ok s" and "cordon_phase_of s = CpTripping"
    and "\<forall>x \<in> set xs. u \<in> set (co_units x) \<and> co_active x u"
  shows "\<exists>s'. load_cordon_state rf (ch_file (cordon_run rf p dry xs h)) = Some s' \<and> cordon_phase_of s' = CpTripping"
  using assms
proof (induction xs arbitrary: h s)
  case Nil
  then show ?case by simp
next
  case (Cons x xs)
  obtain r where r: "plan_cordon_tick p (co_disk x)
      (build_runner_snapshots (co_active x) (co_busy x) (co_units x)) (co_now x) s = Some r"
    and st: "cordon_step rf p dry x h = (snd (apply_cordon_actions dry (ct_actions r) (ch_maintenance h)),
      \<lparr>ch_file = Some (save_cordon_state (ct_state r)),
       ch_maintenance = fst (apply_cordon_actions dry (ct_actions r) (ch_maintenance h))\<rparr>)"
    using cordon_step_plan [OF Cons.prems(1,2)] by blast
  have "active_runners (build_runner_snapshots (co_active x) (co_busy x) (co_units x)) \<noteq> []"
    using Cons.prems(4) by (auto simp: active_runners_def build_runner_snapshots_def filter_empty_conv)
  from plan_held [OF r Cons.prems(3) this] plan_ok [OF r Cons.prems(2)]
  show ?case using Cons.prems(4)
    by (auto simp: st intro!: Cons.IH [where s = "ct_state r"])
qed

section \<open>A sample host\<close>

definition sample_policy :: disk_policy where
  "sample_policy = \<lparr>trip_min_free_gb = 50, readmit_min_free_gb = 80, trip_used_percent = 90,
     readmit_used_percent = 80, drain_timeout_seconds = 600, finish_running_jobs = True,
     min_online_after_drain = 0\<rparr>"

definition full_tick :: "seconds \<Rightarrow> cordon_obs" where
  "full_tick now = \<lparr>co_disk = (10, 97), co_active = (\<lambda>u. True), co_busy = (\<lambda>u. u = ''r1''),
     co_units = [''r1'', ''r2''], co_now = now\<rparr>"

definition free_tick :: "seconds \<Rightarrow> cordon_obs" where
  "free_tick now = \<lparr>co_disk = (120, 60), co_active = (\<lambda>u. False), co_busy = (\<lambda>u. False),
     co_units = [''r1'', ''r2''], co_now = now\<rparr>"

lemma sample_policy_valid: "valid_policy sample_policy"
  by (simp add: sample_policy_def valid_policy_def)

lemma free_tick_quiet: "quiet_tick sample_policy (free_tick now)"
  by (simp add: quiet_tick_def free_tick_def sample_policy_def disk_pressure_allows_readmit_def)

lemma forced_stop_sample:
  "CallStop ''r1'' ''disk-full cordon (forced)'' \<in> set (fst (cordon_step (\<lambda>_. None) sample_policy False
     (full_tick 1700) (cordon_run (\<lambda>_. None) sample_policy False [full_tick 1000] uncordoned_host)))"
  by code_simp

lemma busy_runner_drains_witness:
  "\<exists>before y since. [full_tick 1000] = before @ y # since \<and>
     drain_from (\<lambda>_. None) sample_policy False before y since \<and>
     of_int (drain_timeout_seconds sample_policy) \<le> co_now (full_tick 1700) - co_now y"
  by (rule busy_runner_drains [OF sample_policy_valid forced_stop_sample]) (simp add: full_tick_def)

text \<open>A second drain is timed from its own start: 100 seconds into it the busy runner is left alone, whenever the
  first one began.\<close>

lemma second_drain_starts_anew:
  "fst (cordon_step (\<lambda>_. None) sample_policy False (full_tick 2100) (cordon_run (\<lambda>_. None) sample_policy False
     [full_tick 1000, free_tick 1100, free_tick 1200, free_tick 1300, full_tick 2000] uncordoned_host))
   = [CallStop ''r2'' ''disk-full cordon drain'']"
  by code_simp

lemma drained_host_readmitted_witness:
  "\<not> ch_maintenance (cordon_run (\<lambda>_. None) sample_policy False
     ([full_tick 1000] @ [free_tick 1100, free_tick 1200, free_tick 1300]) uncordoned_host)"
  by (rule drained_host_readmitted [OF sample_policy_valid]) (simp_all add: free_tick_quiet)

text \<open>
  A dry run moves the saved phase without setting the flag: the first real tick after it drains the
  host while the flag is down.
\<close>

lemma dry_run_leaves_phase:
  "(let h = cordon_run (\<lambda>_. None) sample_policy True [full_tick 1000] uncordoned_host;
        (cs, h') = cordon_step (\<lambda>_. None) sample_policy False (full_tick 1010) h
    in cs = [CallStop ''r2'' ''disk-full cordon drain''] \<and> \<not> ch_maintenance h')"
  by code_simp

end
