(* ===== verification/Autoscaler_Facts.thy ===== *)
theory Autoscaler_Facts
  imports Autoscaler Cordon_Facts
begin

text \<open>
  What the autoscaler guarantees: which runners a tick may stop and how many, that a lease keeps its
  runner, that stops are spaced, when runners are started again, and what a cordon excludes.
\<close>

section \<open>One pool\<close>

lemma set_py_take: "set (py_take n xs) \<subseteq> set xs"
  by (auto simp: py_take_def dest: in_set_takeD)

lemma py_take_Nil [simp]: "py_take n [] = []"
  by (simp add: py_take_def)

lemma length_py_take: "0 \<le> n \<Longrightarrow> int (length (py_take n xs)) \<le> n"
  by (auto simp: py_take_def)

text \<open>The units a list of commands stops to size a pool, as the reasons tell, and those it starts.\<close>

definition scaling_reason :: "string \<Rightarrow> bool" where
  "scaling_reason r \<longleftrightarrow> r = ''scheduled surplus'' \<or> r = ''host overloaded''"

fun scaled_down :: "scale_command \<Rightarrow> string list" where
  "scaled_down (StopUnit u r) = (if scaling_reason r then [u] else [])"
| "scaled_down c = []"

fun started_units :: "scale_command \<Rightarrow> string list" where
  "started_units (StartUnit u) = [u]"
| "started_units c = []"

definition stops_of :: "scale_command list \<Rightarrow> string list" where
  "stops_of cs = concat (map scaled_down cs)"

definition starts_of :: "scale_command list \<Rightarrow> string list" where
  "starts_of cs = concat (map started_units cs)"

lemma stops_of_simps [simp]:
  "stops_of [] = []" "stops_of (xs @ ys) = stops_of xs @ stops_of ys"
  "stops_of (map StartUnit us) = []" "stops_of (map cordon_command calls) = concat (map (scaled_down \<circ> cordon_command) calls)"
  "stops_of (map (\<lambda>u. StopUnit u r) us) = (if scaling_reason r then us else [])"
  by (induction us) (simp_all add: stops_of_def)

lemma starts_of_simps [simp]:
  "starts_of [] = []" "starts_of (xs @ ys) = starts_of xs @ starts_of ys"
  "starts_of (map StartUnit us) = us" "starts_of (map (\<lambda>u. StopUnit u r) us) = []"
  by (induction us) (simp_all add: starts_of_def)

lemma reasons [simp]: "scaling_reason ''scheduled surplus''" "scaling_reason ''host overloaded''"
  by (simp_all add: scaling_reason_def)

text \<open>Stops are idle runners, allowed and out of the cooldown; they are recorded.\<close>

lemma size_pool_stops:
  assumes "size_pool c p k o_t s_t v = (cmds, rec)"
  shows "set (stops_of cmds) \<subseteq> set (pv_idle v)"
    and "stops_of cmds \<noteq> [] \<Longrightarrow> is_stop_allowed c p \<and> \<not> stop_in_cooldown c s_t (pk_gate k)"
    and "rec = (stops_of cmds \<noteq> [])"
  using assms by (auto simp: size_pool_def Let_def set_py_take [THEN subsetD] split: if_splits)

lemma size_pool_count:
  assumes "size_pool c p k o_t s_t v = (cmds, rec)" and "0 \<le> sc_max_step c"
    and "pc_min (get_pool_config c p) \<le> pv_desired v"
  shows "int (length (stops_of cmds)) \<le> sc_max_step c"
    and "stops_of cmds \<noteq> [] \<Longrightarrow>
      pc_min (get_pool_config c p) \<le> int (length (pv_active v)) - int (length (stops_of cmds))"
proof -
  let ?n = "int (length (pv_active v))" and ?m = "pc_min (get_pool_config c p)"
  have s: "int (length (py_take (min (sc_max_step c) (view_surplus v)) (pv_idle v))) \<le> min (sc_max_step c) (view_surplus v)"
    using assms(2) by (intro length_py_take) (simp add: view_surplus_def)
  have o: "int (length (py_take (min (sc_max_step c) (?n - ?m)) (pv_idle v))) \<le> min (sc_max_step c) (?n - ?m)"
    if "0 < ?n - ?m" using assms(2) that by (intro length_py_take) simp
  show "int (length (stops_of cmds)) \<le> sc_max_step c"
    using assms(1,2) s o by (auto simp: size_pool_def Let_def split: if_splits)
  show "?m \<le> ?n - int (length (stops_of cmds))" if "stops_of cmds \<noteq> []"
    using assms(1,3) that s o
    by (auto simp: size_pool_def Let_def view_surplus_def split: if_splits)
qed

lemma size_pool_starts:
  assumes "size_pool c p k o_t s_t v = (cmds, rec)" and "starts_of cmds \<noteq> []"
  shows "set (starts_of cmds) \<subseteq> set (pv_inactive v)" and "pv_recovered v" and "is_start_allowed c p"
    and "\<not> in_cooldown c (pv_overloaded v) o_t (pk_elapsed k)"
    and "int (length (pv_active v)) < pv_desired v"
  using assms by (auto simp: size_pool_def Let_def set_py_take [THEN subsetD] split: if_splits)

lemma size_pool_start_count:
  assumes "size_pool c p k o_t s_t v = (cmds, rec)" and "0 \<le> sc_max_step c" and "starts_of cmds \<noteq> []"
  shows "int (length (pv_active v)) + int (length (starts_of cmds)) \<le> pv_desired v"
proof -
  let ?room = "pv_desired v - int (length (pv_active v))"
  have few: "int (length (py_take (min x ?room) (pv_inactive v))) \<le> ?room" if "0 \<le> x" "0 < ?room" for x
    using that by (intro order_trans [OF length_py_take]) simp_all
  have room: "0 < ?room" using size_pool_starts(5) [OF assms(1,3)] by simp
  have "\<exists>x. 0 \<le> x \<and> starts_of cmds = py_take (min x ?room) (pv_inactive v)"
    using assms by (auto simp: size_pool_def Let_def split: if_splits intro: exI [of _ 1] exI [of _ "sc_max_step c"])
  with few [OF _ room] show ?thesis by force
qed

section \<open>The three pools\<close>

definition pool_units :: "scaler_env \<Rightarrow> observation \<Rightarrow> pool \<Rightarrow> string list" where
  "pool_units sv e p = filter (\<lambda>u. classify_unit (sv_search sv) (sv_config sv) u = p) (ob_units e)"

text \<open>What the loop body decides for one pool, from the state at the start of the loop.\<close>

definition pool_outcome ::
    "scaler_env \<Rightarrow> observation \<Rightarrow> lease_guard \<Rightarrow> scaler_state \<Rightarrow> pool \<Rightarrow> scale_command list \<times> bool" where
  "pool_outcome sv e g s p =
     (let v = view_pool (sv_config sv) e g s p (pool_units sv e p); k = ob_clock e p
      in if pool_units sv e p = [] then ([], False)
         else size_pool (sv_config sv) p k (if pv_overloaded v then pk_overload k else ss_overloaded s p)
                (ss_stopped s p) v)"

text \<open>States that agree on the windows and the latch, and on the times of the pool \<open>p\<close>.\<close>

definition same_for :: "pool \<Rightarrow> scaler_state \<Rightarrow> scaler_state \<Rightarrow> bool" where
  "same_for p s s' \<longleftrightarrow> ss_host s' = ss_host s \<and> ss_nvme s' = ss_nvme s \<and> ss_hdd s' = ss_hdd s \<and> ss_io s' = ss_io s \<and>
     ss_overloaded s' p = ss_overloaded s p \<and> ss_stopped s' p = ss_stopped s p"

lemma same_for_trans: "same_for p s s' \<Longrightarrow> same_for p s' s'' \<Longrightarrow> same_for p s s''"
  by (simp add: same_for_def)

lemma pool_outcome_cong: "same_for p s s' \<Longrightarrow> pool_outcome sv e g s' p = pool_outcome sv e g s p"
  by (simp add: pool_outcome_def view_pool_def pool_bands_def same_for_def Let_def split: pool.split)

lemma process_pool_outcome:
  "process_pool (sv_config sv) e g (\<lambda>p. pool_units sv e p) p (cmds, s) = (cmds', s') \<Longrightarrow>
     cmds' = cmds @ fst (pool_outcome sv e g s p) \<and>
     ss_stopped s' p = (if snd (pool_outcome sv e g s p) then pk_record (ob_clock e p) else ss_stopped s p) \<and>
     ss_cordon s' = ss_cordon s \<and> (\<forall>q. q \<noteq> p \<longrightarrow> same_for q s s') \<and> ss_host s' = ss_host s \<and> ss_io s' = ss_io s"
  by (auto simp: process_pool_def pool_outcome_def same_for_def Let_def split: prod.splits if_splits)

lemma scale_pools_outcome:
  assumes "scale_pools sv e g s = (cmds, s')"
  shows "cmds = concat (map (\<lambda>p. fst (pool_outcome sv e g s p)) pool_order)"
    and "ss_stopped s' p = (if snd (pool_outcome sv e g s p) then pk_record (ob_clock e p) else ss_stopped s p)"
    and "ss_host s' = ss_host s" and "ss_io s' = ss_io s"
proof -
  let ?f = "process_pool (sv_config sv) e g (\<lambda>p. pool_units sv e p)"
  obtain c1 s1 where 1: "?f DefaultPool ([], s) = (c1, s1)" by fastforce
  obtain c2 s2 where 2: "?f NvmePool (c1, s1) = (c2, s2)" by fastforce
  obtain c3 s3 where 3: "?f HddPool (c2, s2) = (c3, s3)" by fastforce
  have all: "cmds = c3" "s' = s3"
    using assms 1 2 3 by (simp_all add: scale_pools_def pool_order_def pool_units_def)
  note o1 = process_pool_outcome [OF 1] and o2 = process_pool_outcome [OF 2] and o3 = process_pool_outcome [OF 3]
  have n: "same_for NvmePool s s1" "same_for HddPool s s2"
    using o1 o2 same_for_trans [of HddPool s s1 s2] by auto
  have kept: "ss_stopped s3 DefaultPool = ss_stopped s1 DefaultPool" "ss_stopped s3 NvmePool = ss_stopped s2 NvmePool"
    "ss_stopped s1 NvmePool = ss_stopped s NvmePool" "ss_stopped s2 HddPool = ss_stopped s HddPool"
    using o1 o2 o3 by (auto simp: same_for_def)
  show "cmds = concat (map (\<lambda>p. fst (pool_outcome sv e g s p)) pool_order)"
    using o1 o2 o3 pool_outcome_cong [OF n(1)] pool_outcome_cong [OF n(2)] by (simp add: all pool_order_def)
  show "ss_stopped s' p = (if snd (pool_outcome sv e g s p) then pk_record (ob_clock e p) else ss_stopped s p)"
    using o1 o2 o3 kept pool_outcome_cong [OF n(1)] pool_outcome_cong [OF n(2)]
    by (cases p) (simp_all add: all)
  show "ss_host s' = ss_host s" "ss_io s' = ss_io s" using o1 o2 o3 by (simp_all add: all)
qed

lemma pool_outcome_sizes:
  assumes "pool_outcome sv e g s p = (cmds, rec)" and "cmds \<noteq> []"
  obtains o_t where "size_pool (sv_config sv) p (ob_clock e p) o_t (ss_stopped s p)
    (view_pool (sv_config sv) e g s p (pool_units sv e p)) = (cmds, rec)"
  using assms by (auto simp: pool_outcome_def Let_def split: if_splits)

lemma stops_of_none [simp]: "stops_of cmds \<noteq> [] \<Longrightarrow> cmds \<noteq> []"
  by auto

lemma starts_of_none [simp]: "starts_of cmds \<noteq> [] \<Longrightarrow> cmds \<noteq> []"
  by auto

lemma outcome_recorded: "snd (pool_outcome sv e g s p) = (stops_of (fst (pool_outcome sv e g s p)) \<noteq> [])"
  using size_pool_stops(3) [OF prod.collapse [symmetric]] by (simp add: pool_outcome_def Let_def)

lemma outcome_stops_in_pool: "set (stops_of (fst (pool_outcome sv e g s p))) \<subseteq> set (pool_units sv e p)"
proof (cases "stops_of (fst (pool_outcome sv e g s p)) = []")
  case False
  then obtain o_t where "size_pool (sv_config sv) p (ob_clock e p) o_t (ss_stopped s p)
      (view_pool (sv_config sv) e g s p (pool_units sv e p)) = pool_outcome sv e g s p"
    by (metis pool_outcome_sizes prod.collapse stops_of_none)
  from size_pool_stops(1) [OF this [THEN trans, OF prod.collapse [symmetric]]] show ?thesis
    by (auto simp: view_pool_def)
qed simp

lemma outcome_starts_in_pool: "set (starts_of (fst (pool_outcome sv e g s p))) \<subseteq> set (pool_units sv e p)"
proof (cases "starts_of (fst (pool_outcome sv e g s p)) = []")
  case False
  then obtain o_t where "size_pool (sv_config sv) p (ob_clock e p) o_t (ss_stopped s p)
      (view_pool (sv_config sv) e g s p (pool_units sv e p)) = pool_outcome sv e g s p"
    by (metis pool_outcome_sizes prod.collapse starts_of_none)
  from size_pool_starts(1) [OF this [THEN trans, OF prod.collapse [symmetric]] False] show ?thesis
    by (auto simp: view_pool_def)
qed simp

section \<open>A tick\<close>

text \<open>The runners of a pool that a tick stops to size it, and those it starts.\<close>

definition pool_stops :: "scaler_env \<Rightarrow> pool \<Rightarrow> scale_command list \<Rightarrow> string list" where
  "pool_stops sv p cs = filter (\<lambda>u. classify_unit (sv_search sv) (sv_config sv) u = p) (stops_of cs)"

definition pool_starts :: "scaler_env \<Rightarrow> pool \<Rightarrow> scale_command list \<Rightarrow> string list" where
  "pool_starts sv p cs = filter (\<lambda>u. classify_unit (sv_search sv) (sv_config sv) u = p) (starts_of cs)"

lemma filter_own: "set xs \<subseteq> {u. f u = q} \<Longrightarrow> filter (\<lambda>u. f u = p) xs = (if p = q then xs else [])"
  by (induction xs) auto

lemma own_pool: "set (pool_units sv e p) \<subseteq> {u. classify_unit (sv_search sv) (sv_config sv) u = p}"
  by (auto simp: pool_units_def)

lemma pool_split:
  assumes "cmds = concat (map (\<lambda>p. fst (pool_outcome sv e g s p)) pool_order)"
  shows "pool_stops sv p cmds = stops_of (fst (pool_outcome sv e g s p))"
    and "pool_starts sv p cmds = starts_of (fst (pool_outcome sv e g s p))"
proof -
  note so = filter_own [OF order_trans [OF outcome_stops_in_pool own_pool]]
    and st = filter_own [OF order_trans [OF outcome_starts_in_pool own_pool]]
  show "pool_stops sv p cmds = stops_of (fst (pool_outcome sv e g s p))"
    by (cases p) (simp_all add: assms pool_stops_def pool_order_def so)
  show "pool_starts sv p cmds = starts_of (fst (pool_outcome sv e g s p))"
    by (cases p) (simp_all add: assms pool_starts_def pool_order_def st)
qed

lemma drain_not_scaling [simp]: "\<not> scaling_reason (drain_reason f)"
  by (simp add: scaling_reason_def drain_reason_def)

lemma cordon_calls_not_scaling:
  "stops_of (map cordon_command (snd (apply_cordon_actions dry as m))) = []"
  by (induction dry as m rule: apply_cordon_actions.induct) (simp_all add: case_prod_beta Let_def)

lemma cordon_calls_no_start: "starts_of (map cordon_command calls) = []"
proof -
  have "started_units (cordon_command c) = []" for c by (cases c) simp_all
  then show ?thesis by (induction calls) (simp_all add: starts_of_def)
qed

lemma cordon_tick_not_scaling:
  assumes "process_cordon_tick rf p d ac bu us dry now h = Some (act, calls, h')"
  shows "stops_of (map cordon_command calls) = []"
proof -
  have "\<exists>as. calls = snd (apply_cordon_actions dry as (ch_maintenance h))"
    using assms by (auto simp: process_cordon_tick_def case_prod_beta Let_def split: option.splits)
  then obtain as where "calls = snd (apply_cordon_actions dry as (ch_maintenance h))" by blast
  then show ?thesis by (simp only: cordon_calls_not_scaling)
qed

text \<open>A tick leaves a pool alone, or it decides for it on the windows it has just extended.\<close>

lemma tick_pool:
  assumes "scaler_tick sv e s = (cmds, s')"
  obtains (idle) "pool_stops sv p cmds = []" "pool_starts sv p cmds = []" "ss_stopped s' p = ss_stopped s p"
  | (sized) g s1 where
    "lease_scale_down_guard (sv_repr sv) (sv_float sv) (ob_lease_now e) (ob_leases e) = Some g"
    "same_for p (take_samples (sv_config sv) e s) s1"
    "pool_stops sv p cmds = stops_of (fst (pool_outcome sv e g s1 p))"
    "pool_starts sv p cmds = starts_of (fst (pool_outcome sv e g s1 p))"
    "ss_stopped s' p = (if snd (pool_outcome sv e g s1 p) then pk_record (ob_clock e p) else ss_stopped s p)"
    "length (ss_host (take_samples (sv_config sv) e s)) \<ge> history_len (sv_config sv)"
proof -
  define c where "c = sv_config sv"
  define s0 where "s0 = take_samples c e s"
  have st: "ss_stopped s0 = ss_stopped s" by (simp add: s0_def take_samples_def Let_def)
  show ?thesis
  proof (cases "length (ss_host s0) < history_len c \<or> ob_units e = []")
    case True
    with assms have "cmds = []" "s' = s0" by (auto simp: scaler_tick_def c_def s0_def Let_def)
    then show ?thesis by (intro idle) (simp_all add: pool_stops_def pool_starts_def st)
  next
    case room: False
    let ?t = "process_cordon_tick (sv_float sv) (sv_policy sv) (ob_disk e) (ob_cordon_active e)
      (ob_cordon_busy e) (ob_units e) (sc_dry_run c) (ob_cordon_now e) (ss_cordon s0)"
    let ?g = "lease_scale_down_guard (sv_repr sv) (sv_float sv) (ob_lease_now e) (ob_leases e)"
    have tick: "scaler_tick sv e s = (case ?t of None \<Rightarrow> ([], s0)
        | Some (True, calls, h) \<Rightarrow> (map cordon_command calls, s0\<lparr>ss_cordon := h\<rparr>)
        | Some (False, calls, h) \<Rightarrow> (case ?g of None \<Rightarrow> (map cordon_command calls, s0\<lparr>ss_cordon := h\<rparr>)
            | Some g \<Rightarrow> (let (cmds, s') = scale_pools sv e g (s0\<lparr>ss_cordon := h\<rparr>)
                        in (map cordon_command calls @ cmds, s'))))"
      using room by (simp only: scaler_tick_def Let_def c_def [symmetric] s0_def [symmetric]) simp
    show ?thesis
    proof (cases ?t)
      case None
      with tick assms have "cmds = []" "s' = s0" by simp_all
      then show ?thesis by (intro idle) (simp_all add: pool_stops_def pool_starts_def st)
    next
      case (Some r)
      obtain act calls h where r: "r = (act, calls, h)" by (cases r)
      with Some have quiet: "stops_of (map cordon_command calls) = []" "starts_of (map cordon_command calls) = []"
        using cordon_tick_not_scaling cordon_calls_no_start by blast+
      show ?thesis
      proof (cases "act \<or> ?g = None")
        case True
        with tick assms Some r have "cmds = map cordon_command calls" "s' = s0\<lparr>ss_cordon := h\<rparr>"
          by (auto split: bool.splits option.splits)
        with quiet show ?thesis by (intro idle) (simp_all add: pool_stops_def pool_starts_def st del: stops_of_simps)
      next
        case False
        then obtain g where g: "?g = Some g" by auto
        obtain cs s2 where p: "scale_pools sv e g (s0\<lparr>ss_cordon := h\<rparr>) = (cs, s2)" by fastforce
        with tick assms Some r False g have e: "cmds = map cordon_command calls @ cs" "s' = s2" by auto
        have sp: "pool_stops sv p cmds = pool_stops sv p cs" "pool_starts sv p cmds = pool_starts sv p cs"
          using quiet by (simp_all add: e pool_stops_def pool_starts_def)
        note parts = pool_split [OF scale_pools_outcome(1) [OF p]]
        have same: "same_for p (take_samples (sv_config sv) e s) (s0\<lparr>ss_cordon := h\<rparr>)"
          by (simp add: same_for_def s0_def c_def)
        have "ss_stopped s' p = (if snd (pool_outcome sv e g (s0\<lparr>ss_cordon := h\<rparr>) p)
            then pk_record (ob_clock e p) else ss_stopped s p)"
          using scale_pools_outcome(2) [OF p, of p] by (simp only: e(2) st scaler_state.select_convs scaler_state.update_convs) (simp add: st)
        moreover have "history_len (sv_config sv) \<le> length (ss_host (take_samples (sv_config sv) e s))"
          using room by (simp add: c_def s0_def not_less)
        ultimately show ?thesis
          using sp parts by (intro sized [OF g same]) (simp_all only:)
      qed
    qed
  qed
qed

section \<open>What a tick may stop\<close>

lemma desired_at_least_min: "pc_min (get_pool_config c p) \<le> get_scheduled_pool_desired c lt sch p n"
  by (simp add: get_scheduled_pool_desired_def Let_def)

text \<open>A tick that stops a runner of a pool has sized the pool.\<close>

lemma tick_stops_sized:
  assumes "scaler_tick sv e s = (cmds, s')" and "pool_stops sv p cmds \<noteq> []"
  obtains g s1 o_t cs rec where
    "lease_scale_down_guard (sv_repr sv) (sv_float sv) (ob_lease_now e) (ob_leases e) = Some g"
    and "size_pool (sv_config sv) p (ob_clock e p) o_t (ss_stopped s p)
      (view_pool (sv_config sv) e g s1 p (pool_units sv e p)) = (cs, rec)"
    and "pool_stops sv p cmds = stops_of cs"
  using assms(1)
proof (cases rule: tick_pool [where p = p])
  case idle
  with assms(2) show ?thesis by simp
next
  case (sized g s1)
  obtain cs rec where o: "pool_outcome sv e g s1 p = (cs, rec)" by fastforce
  with sized assms(2) have "pool_stops sv p cmds = stops_of cs" "stops_of cs \<noteq> []" by simp_all
  moreover from this obtain o_t where "size_pool (sv_config sv) p (ob_clock e p) o_t (ss_stopped s1 p)
      (view_pool (sv_config sv) e g s1 p (pool_units sv e p)) = (cs, rec)"
    using pool_outcome_sizes [OF o stops_of_none] by blast
  moreover have "ss_stopped s1 p = ss_stopped s p"
    using sized(2) by (simp add: same_for_def take_samples_def Let_def)
  ultimately show ?thesis using that [OF sized(1)] by simp
qed

text \<open>Every stop of a tick, whatever its reason. A tick that the disk cordon does not end gives only those that size
  the pools.\<close>

fun stopped_units :: "scale_command \<Rightarrow> string list" where
  "stopped_units (StopUnit u r) = [u]"
| "stopped_units c = []"

definition tick_stops :: "scaler_env \<Rightarrow> pool \<Rightarrow> scale_command list \<Rightarrow> string list" where
  "tick_stops sv p cs = filter (\<lambda>u. classify_unit (sv_search sv) (sv_config sv) u = p) (concat (map stopped_units cs))"

definition cordon_holds :: "scaler_env \<Rightarrow> observation \<Rightarrow> scaler_state \<Rightarrow> bool" where
  "cordon_holds sv e s =
     (case process_cordon_tick (sv_float sv) (sv_policy sv) (ob_disk e) (ob_cordon_active e) (ob_cordon_busy e)
             (ob_units e) (sc_dry_run (sv_config sv)) (ob_cordon_now e) (ss_cordon s) of
        Some (active, calls, h) \<Rightarrow> active
      | None \<Rightarrow> False)"

definition sizes_only :: "scale_command list \<Rightarrow> bool" where
  "sizes_only cs \<longleftrightarrow> concat (map stopped_units cs) = stops_of cs"

lemma sizes_only_append: "sizes_only xs \<Longrightarrow> sizes_only ys \<Longrightarrow> sizes_only (xs @ ys)"
  by (simp add: sizes_only_def)

lemma sizes_only_simps [simp]: "sizes_only []" "sizes_only (map StartUnit us)"
  "scaling_reason r \<Longrightarrow> sizes_only (map (\<lambda>u. StopUnit u r) us)"
  by (induction us) (simp_all add: sizes_only_def stops_of_def)

lemma size_pool_sizes: "sizes_only (fst (size_pool c p k o_t s_t v))"
  by (simp add: size_pool_def Let_def)

lemma process_pool_sizes: "sizes_only (fst cs) \<Longrightarrow> sizes_only (fst (process_pool c e g units p cs))"
  using size_pool_sizes by (auto simp: process_pool_def Let_def case_prod_beta intro: sizes_only_append)

lemma scale_pools_sizes: "sizes_only (fst (scale_pools sv e g s))"
  unfolding scale_pools_def pool_order_def by (simp add: process_pool_sizes)

lemma plan_no_stop:
  assumes "plan_cordon_tick p d rs now s = Some r" and "\<not> ct_active r"
  shows "StopRunner u f \<notin> set (ct_actions r)"
  using assms by (cases "cordon_phase_of s") (auto simp: cordon_tick_defs fresh_cordon_def split: if_splits option.splits)

lemma open_cordon_sizes:
  assumes "process_cordon_tick rf p d ac bu us dry now h = Some (False, calls, h')"
  shows "sizes_only (map cordon_command calls)"
proof -
  obtain s r where r: "plan_cordon_tick p d (build_runner_snapshots ac bu us) now s = Some r" "\<not> ct_active r"
    and calls: "calls = snd (apply_cordon_actions dry (ct_actions r) (ch_maintenance h))"
    using assms by (auto simp: process_cordon_tick_def case_prod_beta Let_def split: option.splits)
  have "CallStop u why \<notin> set calls" for u why
    unfolding calls using call_stop_action plan_no_stop [OF r] by blast
  then have "sizes_only (map cordon_command calls)"
  proof (induction calls)
    case (Cons c calls)
    then show ?case by (cases c) (auto simp: sizes_only_def stops_of_def)
  qed simp
  then show ?thesis .
qed

lemma tick_sizes:
  assumes "scaler_tick sv e s = (cmds, s')" and "\<not> cordon_holds sv e s"
  shows "tick_stops sv p cmds = pool_stops sv p cmds"
proof -
  let ?s = "take_samples (sv_config sv) e s"
  have st: "ss_cordon ?s = ss_cordon s" by (simp add: take_samples_def Let_def)
  have "sizes_only cmds"
    using assms
    by (auto simp: scaler_tick_def cordon_holds_def st Let_def case_prod_beta intro!: sizes_only_append scale_pools_sizes
        dest: open_cordon_sizes split: if_splits option.splits bool.splits)
  then show ?thesis by (simp add: sizes_only_def tick_stops_def pool_stops_def)
qed

text \<open>C38: Outside a cordon of the disk, a tick stops at most the step of a pool, only runners of the pool that are up
  and idle, and it leaves at least the minimum of the pool running.\<close>

theorem scale_down_bounded:
  assumes "sane_config (sv_config sv)" and "scaler_tick sv e s = (cmds, s')" and "\<not> cordon_holds sv e s"
    and "tick_stops sv p cmds \<noteq> []"
  shows "int (length (tick_stops sv p cmds)) \<le> sc_max_step (sv_config sv) \<and>
    (\<forall>u \<in> set (tick_stops sv p cmds). u \<in> set (pool_units sv e p) \<and> ob_active e u \<and> \<not> ob_busy e u) \<and>
    pc_min (get_pool_config (sv_config sv) p) \<le>
      int (length (filter (ob_active e) (pool_units sv e p))) - int (length (tick_stops sv p cmds))"
proof -
  note [simp] = tick_sizes [OF assms(2,3)]
  obtain g s1 o_t cs rec where z: "size_pool (sv_config sv) p (ob_clock e p) o_t (ss_stopped s p)
      (view_pool (sv_config sv) e g s1 p (pool_units sv e p)) = (cs, rec)"
    and stops: "pool_stops sv p cmds = stops_of cs"
    using assms(4) by (auto elim: tick_stops_sized [OF assms(2)])
  have "0 \<le> sc_max_step (sv_config sv)" using assms(1) by (simp add: sane_config_def)
  moreover have "pc_min (get_pool_config (sv_config sv) p) \<le>
      pv_desired (view_pool (sv_config sv) e g s1 p (pool_units sv e p))"
    by (simp add: view_pool_def desired_at_least_min)
  ultimately show ?thesis
    using size_pool_stops(1) [OF z] size_pool_count [OF z] stops assms(4) by (auto simp: view_pool_def)
qed

lemma tick_stops_after_cooldown:
  assumes "scaler_tick sv e s = (cmds, s')" and "pool_stops sv p cmds \<noteq> []"
  shows "\<not> stop_in_cooldown (sv_config sv) (ss_stopped s p) (pk_gate (ob_clock e p)) \<and>
    is_stop_allowed (sv_config sv) p"
proof -
  obtain g s1 o_t cs rec where "size_pool (sv_config sv) p (ob_clock e p) o_t (ss_stopped s p)
      (view_pool (sv_config sv) e g s1 p (pool_units sv e p)) = (cs, rec)"
    and "pool_stops sv p cmds = stops_of cs"
    by (rule tick_stops_sized [OF assms])
  with size_pool_stops(2) assms(2) show ?thesis by simp
qed

section \<open>Leases\<close>

text \<open>The record \<open>model_dump\<close> makes of a lease, and the file \<open>LeaseManager.save_leases\<close> writes.\<close>

definition lease_dict :: "lease_record \<Rightarrow> (string, json) dict" where
  "lease_dict l =
     [(''principal_id'', JStr (principal_id l)), (''runner_id'', JStr (runner_id l)),
      (''acquired_at'', JFloat (acquired_at l)),
      (''expires_at'', case expires_at l of None \<Rightarrow> JNull | Some t \<Rightarrow> JFloat t),
      (''task_id'', case task_id l of None \<Rightarrow> JNull | Some t \<Rightarrow> JStr t),
      (''metadata'', JDict (metadata l)), (''fencing_token'', JInt (fencing_token l))]"

definition leases_yaml :: "lease_manager \<Rightarrow> lease_file" where
  "leases_yaml m =
     (case leases_file m of
        None \<Rightarrow> NoLeaseFile
      | Some rs \<Rightarrow> LeaseData (JDict [(''leases'', JList (map (\<lambda>l. JDict (lease_dict l)) rs))]))"

text \<open>The runner a lease pins, if any.\<close>

definition lease_pin :: "lease_record \<Rightarrow> string option" where
  "lease_pin l =
     (if \<not> is_virtual_runner_id (runner_id l) then Some (runner_id l)
      else first_pin (metadata l) [''runner_name'', ''pinned_runner'', ''runner''])"

lemma runner_name_lease_dict: "runner_name_from_lease repr (lease_dict l) = Some (lease_pin l)"
  by (simp add: runner_name_from_lease_def lease_dict_def json_get_def lease_pin_def)

lemma guard_step_lease:
  "guard_step repr rf now (JDict (lease_dict l)) g =
     (if live now l then (case lease_pin l of None \<Rightarrow> g\<lparr>lg_block := True\<rparr> | Some n \<Rightarrow> g\<lparr>lg_names := n # lg_names g\<rparr>)
      else g)"
proof -
  have x: "json_get (lease_dict l) ''expires_at'' = (case expires_at l of None \<Rightarrow> JNull | Some t \<Rightarrow> JFloat t)"
    by (simp add: json_get_def lease_dict_def)
  show ?thesis
    by (cases "expires_at l"; cases "lease_pin l")
      (simp_all add: guard_step_def runner_name_lease_dict x live_def not_le not_less)
qed

definition lease_guards :: "lease_record \<Rightarrow> lease_guard \<Rightarrow> bool" where
  "lease_guards l g \<longleftrightarrow> (case lease_pin l of None \<Rightarrow> lg_block g | Some n \<Rightarrow> n \<in> set (lg_names g))"

lemma guards_kept:
  "lease_guards l g \<Longrightarrow> lease_guards l (fold (guard_step repr rf now) (map (\<lambda>l. JDict (lease_dict l)) rs) g)"
  by (induction rs arbitrary: g) (auto simp: guard_step_lease lease_guards_def split: option.splits)

lemma guards_live:
  assumes "l \<in> set rs" and "live now l"
  shows "lease_guards l (fold (guard_step repr rf now) (map (\<lambda>l. JDict (lease_dict l)) rs) g)"
proof -
  obtain xs ys where rs: "rs = xs @ l # ys" using assms(1) by (auto dest: split_list)
  have "lease_guards l (guard_step repr rf now (JDict (lease_dict l)) h)" for h
    using assms(2) by (simp add: guard_step_lease lease_guards_def split: option.split)
  then show ?thesis by (simp add: rs guards_kept)
qed

lemma guard_of_leases:
  assumes "leases_file m = Some rs" and "l \<in> set rs" and "live now l"
    and "lease_scale_down_guard repr rf now (leases_yaml m) = Some g"
  shows "lease_guards l g"
  using assms guards_live [OF assms(2,3)]
  by (auto simp: lease_scale_down_guard_def leases_yaml_def lease_entries_def)

text \<open>C37: While the file of the lease manager holds a live lease, no tick that reads that file stops the runner the
  lease pins, outside a cordon of the disk; a lease that pins no runner keeps every runner.\<close>

theorem leased_runner_kept:
  assumes "ob_leases e = leases_yaml m" and "leases_file m = Some rs" and "l \<in> set rs"
    and "live (ob_lease_now e) l"
    and "scaler_tick sv e s = (cmds, s')" and "\<not> cordon_holds sv e s" and "u \<in> set (tick_stops sv p cmds)"
  shows "\<exists>n. lease_pin l = Some n \<and> runner_name_for_unit u \<noteq> n"
proof -
  have u: "u \<in> set (pool_stops sv p cmds)" using assms(7) tick_sizes [OF assms(5,6)] by simp
  then have some: "pool_stops sv p cmds \<noteq> []" by auto
  obtain g s1 o_t cs rec where
    guard: "lease_scale_down_guard (sv_repr sv) (sv_float sv) (ob_lease_now e) (ob_leases e) = Some g"
    and z: "size_pool (sv_config sv) p (ob_clock e p) o_t (ss_stopped s p)
      (view_pool (sv_config sv) e g s1 p (pool_units sv e p)) = (cs, rec)"
    and stops: "pool_stops sv p cmds = stops_of cs"
    by (rule tick_stops_sized [OF assms(5) some])
  have "lease_guards l g" using guard_of_leases [OF assms(2,3,4)] guard assms(1) by simp
  moreover have "runner_name_for_unit u \<notin> set (lg_names g)" "\<not> lg_block g"
    using size_pool_stops(1) [OF z] u stops by (auto simp: view_pool_def)
  ultimately show ?thesis by (auto simp: lease_guards_def split: option.splits)
qed

section \<open>Runs of the loop\<close>

lemma scaler_run_append:
  "snd (scaler_run sv (es @ fs) s) = snd (scaler_run sv fs (snd (scaler_run sv es s)))"
  by (induction es arbitrary: s) (simp_all add: case_prod_beta)

lemma scaler_run_Cons [simp]:
  "snd (scaler_run sv (e # es) s) = snd (scaler_run sv es (snd (scaler_tick sv e s)))"
  by (simp add: case_prod_beta)

declare scaler_run.simps(2) [simp del]

text \<open>The time of the last stop: a tick that stops records its own, another one keeps it.\<close>

lemma tick_records_stop:
  "ss_stopped (snd (scaler_tick sv e s)) p =
     (if pool_stops sv p (fst (scaler_tick sv e s)) \<noteq> [] then pk_record (ob_clock e p) else ss_stopped s p)"
proof -
  obtain cmds s' where t: "scaler_tick sv e s = (cmds, s')" by fastforce
  from t show ?thesis
  proof (cases rule: tick_pool [where p = p])
    case idle
    then show ?thesis by (simp add: t)
  next
    case (sized g s1)
    then show ?thesis using outcome_recorded [of sv e g s1 p] by (simp add: t)
  qed
qed

lemma stopped_not_before:
  assumes "t \<le> ss_stopped s p" and "\<forall>e \<in> set es. t \<le> pk_record (ob_clock e p)"
  shows "t \<le> ss_stopped (snd (scaler_run sv es s)) p"
  using assms by (induction es arbitrary: s) (simp_all add: tick_records_stop)

text \<open>
  Two ticks that stop runners of the same pool are the action cooldown apart, whatever lies
  between them, when the clock does not run backwards.
\<close>

theorem stops_spaced:
  assumes "0 < sc_action_cooldown (sv_config sv)"
    and "0 < pk_record (ob_clock e0 p)" and "\<forall>e \<in> set mid. pk_record (ob_clock e0 p) \<le> pk_record (ob_clock e p)"
    and "pool_stops sv p (fst (scaler_tick sv e0 s)) \<noteq> []"
    and "pool_stops sv p (fst (scaler_tick sv e1 (snd (scaler_run sv (e0 # mid) s)))) \<noteq> []"
  shows "of_int (sc_action_cooldown (sv_config sv)) \<le> pk_gate (ob_clock e1 p) - pk_record (ob_clock e0 p)"
proof -
  let ?s1 = "snd (scaler_run sv (e0 # mid) s)"
  have "pk_record (ob_clock e0 p) \<le> ss_stopped ?s1 p"
    unfolding scaler_run_Cons by (rule stopped_not_before [OF _ assms(3)]) (simp add: tick_records_stop assms(4))
  moreover obtain cmds s2 where t: "scaler_tick sv e1 ?s1 = (cmds, s2)" by fastforce
  moreover from t assms(5) have "\<not> stop_in_cooldown (sv_config sv) (ss_stopped ?s1 p) (pk_gate (ob_clock e1 p))"
    using tick_stops_after_cooldown [OF t, of p] by simp
  ultimately show ?thesis using assms(1,2) by (simp add: stop_in_cooldown_def split: if_splits)
qed

section \<open>The windows and the latch\<close>

lemma take_samples_host: "set (ss_host (take_samples c e s)) \<subseteq> insert (ob_host e) (set (ss_host s))"
  by (auto simp: take_samples_def deque_append_def Let_def dest: in_set_dropD)

lemma tick_windows:
  assumes "scaler_tick sv e s = (cmds, s')"
  shows "ss_host s' = ss_host (take_samples (sv_config sv) e s)"
    and "ss_io s' = io_pressure_overloaded (sv_config sv) (ob_io e) (ss_io s)"
proof -
  have io: "ss_io (take_samples (sv_config sv) e s) = io_pressure_overloaded (sv_config sv) (ob_io e) (ss_io s)"
    by (simp add: take_samples_def Let_def)
  have "ss_host s' = ss_host (take_samples (sv_config sv) e s) \<and> ss_io s' = ss_io (take_samples (sv_config sv) e s)"
    using assms scale_pools_outcome(3,4)
    by (fastforce simp: scaler_tick_def Let_def split: if_splits option.splits prod.splits bool.splits)
  with io show "ss_host s' = ss_host (take_samples (sv_config sv) e s)"
    "ss_io s' = io_pressure_overloaded (sv_config sv) (ob_io e) (ss_io s)" by simp_all
qed

lemma run_host: "set (ss_host (snd (scaler_run sv es s))) \<subseteq> set (ss_host s) \<union> ob_host ` set es"
proof (induction es arbitrary: s)
  case Nil
  then show ?case by simp
next
  case (Cons e es)
  have "set (ss_host (snd (scaler_tick sv e s))) \<subseteq> insert (ob_host e) (set (ss_host s))"
    using tick_windows(1) [OF surjective_pairing] take_samples_host by metis
  with Cons [of "snd (scaler_tick sv e s)"] show ?case by auto
qed

lemma run_io:
  "ss_io (snd (scaler_run sv es s)) = foldl (\<lambda>b x. io_pressure_overloaded (sv_config sv) x b) (ss_io s) (map ob_io es)"
proof (induction es arbitrary: s)
  case Nil
  then show ?case by simp
next
  case (Cons e es)
  have "ss_io (snd (scaler_tick sv e s)) = io_pressure_overloaded (sv_config sv) (ob_io e) (ss_io s)"
    using tick_windows(2) [OF surjective_pairing] .
  with Cons show ?case by simp
qed

text \<open>
  After any run of the loop the latch of the I/O pressure is set just when some reading reached
  the high mark and none since has been below the low one.
\<close>

theorem io_latch_run:
  assumes "sane_config (sv_config sv)"
  shows "ss_io (snd (scaler_run sv es (scaler_start h))) \<longleftrightarrow>
    (\<exists>before x since. map ob_io es = before @ x # since \<and> sc_io_high (sv_config sv) \<le> x \<and>
       (\<forall>y \<in> set since. sc_io_low (sv_config sv) \<le> y))"
  using io_band.latch_run [OF assms, of "map ob_io es"]
  by (simp add: run_io scaler_start_def io_trips_def io_clears_def not_less)

section \<open>What is started, and what is not\<close>

lemma average_above:
  assumes "xs \<noteq> []" and "\<forall>x \<in> set xs. k < f x"
  shows "k < average f xs"
proof -
  have "k * of_nat (length ys) \<le> sum_list (map f ys) \<and> (ys \<noteq> [] \<longrightarrow> k * of_nat (length ys) < sum_list (map f ys))"
    if "\<forall>x \<in> set ys. k < f x" for ys
    using that by (induction ys) (auto simp: algebra_simps)
  with assms have "k * of_nat (length xs) < sum_list (map f xs)" by blast
  then show ?thesis using assms(1) by (simp add: average_def pos_less_divide_eq)
qed

lemma tick_starts_sized:
  assumes "scaler_tick sv e s = (cmds, s')" and "pool_starts sv p cmds \<noteq> []"
  obtains g s1 o_t cs rec where
    "same_for p (take_samples (sv_config sv) e s) s1"
    and "size_pool (sv_config sv) p (ob_clock e p) o_t (ss_stopped s1 p)
      (view_pool (sv_config sv) e g s1 p (pool_units sv e p)) = (cs, rec)"
    and "pool_starts sv p cmds = starts_of cs"
    and "history_len (sv_config sv) \<le> length (ss_host (take_samples (sv_config sv) e s))"
  using assms(1)
proof (cases rule: tick_pool [where p = p])
  case idle
  with assms(2) show ?thesis by simp
next
  case (sized g s1)
  obtain cs rec where o: "pool_outcome sv e g s1 p = (cs, rec)" by fastforce
  with sized assms(2) have "pool_starts sv p cmds = starts_of cs" "starts_of cs \<noteq> []" by simp_all
  moreover from this obtain o_t where "size_pool (sv_config sv) p (ob_clock e p) o_t (ss_stopped s1 p)
      (view_pool (sv_config sv) e g s1 p (pool_units sv e p)) = (cs, rec)"
    using pool_outcome_sizes [OF o starts_of_none] by blast
  ultimately show ?thesis using that [OF sized(2)] sized(6) by simp
qed

text \<open>What is started was down, is wanted, and the pool has recovered.\<close>

lemma starts_bounded:
  assumes "sane_config (sv_config sv)" and "scaler_tick sv e s = (cmds, s')" and "pool_starts sv p cmds \<noteq> []"
  shows "int (length (filter (ob_active e) (pool_units sv e p))) + int (length (pool_starts sv p cmds)) \<le>
      get_scheduled_pool_desired (sv_config sv) (ob_local_time e) (ob_schedule e) p (length (pool_units sv e p)) \<and>
    (\<forall>u \<in> set (pool_starts sv p cmds). u \<in> set (pool_units sv e p) \<and> \<not> ob_active e u)"
proof -
  obtain g s1 o_t cs rec where z: "size_pool (sv_config sv) p (ob_clock e p) o_t (ss_stopped s1 p)
      (view_pool (sv_config sv) e g s1 p (pool_units sv e p)) = (cs, rec)"
    and starts: "pool_starts sv p cmds = starts_of cs"
    by (rule tick_starts_sized [OF assms(2,3)])
  have "0 \<le> sc_max_step (sv_config sv)" using assms(1) by (simp add: sane_config_def)
  from size_pool_start_count [OF z this] size_pool_starts(1) [OF z] starts assms(3)
  show ?thesis by (auto simp: view_pool_def)
qed

text \<open>
  As long as every reading of the CPU lies above the low mark, no tick starts a runner of the
  default pool, however few are up: the minimum is not restored.
\<close>

theorem floor_not_restored:
  assumes "\<forall>x \<in> set (es @ [e]). sc_cpu_low (sv_config sv) < hs_cpu (ob_host x)"
  shows "pool_starts sv DefaultPool (fst (scaler_tick sv e (snd (scaler_run sv es (scaler_start h))))) = []"
proof (rule ccontr)
  let ?c = "sv_config sv" and ?s = "snd (scaler_run sv es (scaler_start h))"
  assume some: "pool_starts sv DefaultPool (fst (scaler_tick sv e ?s)) \<noteq> []"
  obtain cmds s' where t: "scaler_tick sv e ?s = (cmds, s')" by fastforce
  with some have some': "pool_starts sv DefaultPool cmds \<noteq> []" by simp
  obtain g s1 o_t cs rec where
    same: "same_for DefaultPool (take_samples ?c e ?s) s1"
    and z: "size_pool ?c DefaultPool (ob_clock e DefaultPool) o_t (ss_stopped s1 DefaultPool)
      (view_pool ?c e g s1 DefaultPool (pool_units sv e DefaultPool)) = (cs, rec)"
    and starts: "pool_starts sv DefaultPool cmds = starts_of cs"
    and len: "history_len ?c \<le> length (ss_host (take_samples ?c e ?s))"
    by (rule tick_starts_sized [OF t some'])
  have "set (ss_host s1) \<subseteq> ob_host ` set (es @ [e])"
    using same take_samples_host [of ?c e ?s] run_host [of sv es "scaler_start h"]
    by (auto simp: same_for_def scaler_start_def)
  then have "\<forall>x \<in> set (ss_host s1). sc_cpu_low ?c < hs_cpu x" using assms by fastforce
  moreover have "ss_host s1 \<noteq> []" using len same by (auto simp: history_len_def same_for_def)
  ultimately have "sc_cpu_low ?c < average hs_cpu (ss_host s1)" by (intro average_above)
  moreover have "pv_recovered (view_pool ?c e g s1 DefaultPool (pool_units sv e DefaultPool))"
    using size_pool_starts(2) [OF z] some' starts by simp
  ultimately show False
    by (simp add: view_pool_def pool_bands_def Let_def default_pool_recovered_def host_metrics_of_def)
qed

section \<open>The cordon and the pools\<close>

text \<open>While the cordon stays up, a tick sizes no pool: it starts nothing, and stops only what the drain asks for.\<close>

theorem cordon_excludes_scaling:
  assumes "load_cordon_state (sv_float sv) (ch_file (ss_cordon s)) = Some st"
    and "cordon_phase_of st \<noteq> CpNormal"
    and "\<not> disk_pressure_allows_readmit (sv_policy sv) (ob_disk e)"
    and "scaler_tick sv e s = (cmds, s')"
  shows "starts_of cmds = [] \<and> stops_of cmds = []"
proof -
  let ?p = "process_cordon_tick (sv_float sv) (sv_policy sv) (ob_disk e) (ob_cordon_active e)
      (ob_cordon_busy e) (ob_units e) (sc_dry_run (sv_config sv)) (ob_cordon_now e)
      (ss_cordon (take_samples (sv_config sv) e s))"
  have same: "ss_cordon (take_samples (sv_config sv) e s) = ss_cordon s" by (simp add: take_samples_def Let_def)
  have act: "ct_active r" if "plan_cordon_tick (sv_policy sv) (ob_disk e) rs now st = Some r" for rs now r
    using that assms(2,3) by (cases "cordon_phase_of st")
      (auto simp: cordon_tick_defs split: if_splits option.splits)
  have up: "\<exists>calls h. x = (True, calls, h)" if "?p = Some x" for x
    using that assms(1) act by (auto simp: same process_cordon_tick_def split: option.splits prod.splits)
  show ?thesis
  proof (cases ?p)
    case None
    with assms(4) show ?thesis by (auto simp: scaler_tick_def Let_def split: if_splits)
  next
    case (Some x)
    with up obtain calls h where p: "?p = Some (True, calls, h)" by blast
    with assms(4) have "cmds = [] \<or> cmds = map cordon_command calls"
      by (auto simp: scaler_tick_def Let_def split: if_splits)
    with cordon_tick_not_scaling [OF p] cordon_calls_no_start [of calls] show ?thesis by auto
  qed
qed

section \<open>A sample host\<close>

definition sample_disk_pool :: pool_cfg where
  "sample_disk_pool = \<lparr>pc_min = 1, pc_max = 16, pc_default = 4, pc_labels = [], pc_start_enabled = True,
     pc_stop_enabled = True, pc_min_free = 25, pc_disk_high = 90\<rparr>"

definition sample_scaler_config :: scaler_config where
  "sample_scaler_config = \<lparr>sc_cpu_high = 85, sc_cpu_low = 40, sc_mem_high = 85, sc_disk_high = 92,
     sc_disk_min_free = 25, sc_io_high = 35, sc_io_low = 10, sc_load_per_core = 6 / 5, sc_sustain = 45,
     sc_poll = 15, sc_min_online = 1, sc_max_step = 1, sc_action_cooldown = 120, sc_cooldown = 180,
     sc_nvme = sample_disk_pool, sc_nvme_high = 85, sc_nvme_pattern = [], sc_hdd = sample_disk_pool,
     sc_hdd_high = 85, sc_hdd_pattern = [], sc_filter_start = [], sc_filter_stop = [], sc_dry_run = False\<rparr>"

definition sample_scaler :: scaler_env where
  "sample_scaler = \<lparr>sv_config = sample_scaler_config, sv_policy = sample_policy, sv_search = (\<lambda>_ _. False),
     sv_repr = (\<lambda>_. []), sv_float = (\<lambda>_. None)\<rparr>"

text \<open>Three idle runners on a host at \<open>cpu\<close> per cent, without a schedule.\<close>

definition sample_obs :: "rat \<Rightarrow> rat \<Rightarrow> bool \<Rightarrow> lease_file \<Rightarrow> seconds \<Rightarrow> observation" where
  "sample_obs cpu io up f t =
     \<lparr>ob_host = \<lparr>hs_cpu = cpu, hs_mem = 30, hs_load = 1 / 2, hs_disk = 60, hs_free = 120\<rparr>,
      ob_nvme = \<lparr>ps_pressure = 30, ps_disk = 50, ps_free = 100\<rparr>,
      ob_hdd = \<lparr>ps_pressure = 5, ps_disk = 50, ps_free = 100\<rparr>,
      ob_io = io, ob_units = [''r1'', ''r2'', ''r3''], ob_disk = (120, 60), ob_cordon_now = t,
      ob_cordon_active = (\<lambda>_. up), ob_cordon_busy = (\<lambda>_. False), ob_leases = f, ob_lease_now = t,
      ob_active = (\<lambda>_. up), ob_busy = (\<lambda>_. False), ob_schedule = None, ob_local_time = (\<lambda>_. (0, 0)),
      ob_clock = (\<lambda>_. \<lparr>pk_overload = t, pk_elapsed = t, pk_gate = t, pk_record = t\<rparr>)\<rparr>"

definition sample_start :: scaler_state where
  "sample_start = scaler_start uncordoned_host"

lemma sample_config_sane: "sane_config (sv_config sample_scaler)"
  by (simp add: sane_config_def sample_scaler_def sample_scaler_config_def)

definition warm_state :: scaler_state where
  "warm_state = snd (scaler_run sample_scaler (map (sample_obs 90 0 True NoLeaseFile) [1000, 1015]) sample_start)"

lemma warm_tick:
  "pool_stops sample_scaler DefaultPool (fst (scaler_tick sample_scaler (sample_obs 90 0 True NoLeaseFile 1030) warm_state)) = [''r1'']"
  by code_simp

lemma sample_tick_open: "\<not> cordon_holds sample_scaler (sample_obs 90 0 True NoLeaseFile 1030) warm_state"
  by code_simp

lemma scale_down_bounded_witness:
  "int (length (tick_stops sample_scaler DefaultPool
      (fst (scaler_tick sample_scaler (sample_obs 90 0 True NoLeaseFile 1030) warm_state)))) \<le> sc_max_step (sv_config sample_scaler)"
proof -
  have "tick_stops sample_scaler DefaultPool
      (fst (scaler_tick sample_scaler (sample_obs 90 0 True NoLeaseFile 1030) warm_state)) \<noteq> []"
    by (simp add: warm_tick tick_sizes [OF surjective_pairing sample_tick_open])
  from scale_down_bounded [OF sample_config_sane surjective_pairing sample_tick_open this] show ?thesis by (rule conjunct1)
qed

text \<open>With a lease on the first runner, the second one is stopped.\<close>

definition sample_lease :: lease_record where
  "sample_lease = \<lparr>principal_id = ''p'', runner_id = ''r1'', acquired_at = 900, expires_at = Some 5000,
     task_id = None, metadata = [], fencing_token = 0\<rparr>"

definition sample_manager :: lease_manager where
  "sample_manager = \<lparr>leases_file = Some [sample_lease], leases = []\<rparr>"

definition leased_obs :: observation where
  "leased_obs = sample_obs 90 0 True (leases_yaml sample_manager) 1030"

lemma leased_tick: "''r2'' \<in> set (tick_stops sample_scaler DefaultPool (fst (scaler_tick sample_scaler leased_obs warm_state)))"
  "\<not> cordon_holds sample_scaler leased_obs warm_state"
  by (code_simp, code_simp)

lemma leased_runner_kept_witness: "\<exists>n. lease_pin sample_lease = Some n \<and> runner_name_for_unit ''r2'' \<noteq> n"
proof (rule leased_runner_kept [OF _ _ _ _ surjective_pairing leased_tick(2,1)])
  show "ob_leases leased_obs = leases_yaml sample_manager" by (simp add: leased_obs_def sample_obs_def)
  show "leases_file sample_manager = Some [sample_lease]" by (simp add: sample_manager_def)
  show "live (ob_lease_now leased_obs) sample_lease"
    by (simp add: live_def leased_obs_def sample_obs_def sample_lease_def)
qed simp

text \<open>The tick after a stop waits for the action cooldown.\<close>

lemma later_tick:
  "pool_stops sample_scaler DefaultPool (fst (scaler_tick sample_scaler (sample_obs 90 0 True NoLeaseFile 1160)
     (snd (scaler_run sample_scaler [sample_obs 90 0 True NoLeaseFile 1030, sample_obs 90 0 True NoLeaseFile 1045] warm_state)))) = [''r1'']"
  by code_simp

lemma stops_spaced_witness: "of_int (sc_action_cooldown (sv_config sample_scaler)) \<le> (1160 :: rat) - 1030"
  using stops_spaced [where sv = sample_scaler and p = DefaultPool and s = warm_state
      and ?e0.0 = "sample_obs 90 0 True NoLeaseFile 1030"
      and mid = "[sample_obs 90 0 True NoLeaseFile 1045]" and ?e1.0 = "sample_obs 90 0 True NoLeaseFile 1160"]
  by (simp add: warm_tick later_tick) (simp add: sample_obs_def sample_scaler_def sample_scaler_config_def)

lemma io_latch_run_witness:
  "ss_io (snd (scaler_run sample_scaler (map (\<lambda>io. sample_obs 30 io True NoLeaseFile 1000) [40, 20]) (scaler_start uncordoned_host)))"
proof (rule io_latch_run [OF sample_config_sane, THEN iffD2])
  have "map ob_io (map (\<lambda>io. sample_obs 30 io True NoLeaseFile 1000) [40, 20]) = [] @ 40 # [20]"
    by (simp add: sample_obs_def)
  moreover have "sc_io_high (sv_config sample_scaler) \<le> 40" "\<forall>y \<in> set [20]. sc_io_low (sv_config sample_scaler) \<le> y"
    by (simp_all add: sample_scaler_def sample_scaler_config_def)
  ultimately show "\<exists>before x since. map ob_io (map (\<lambda>io. sample_obs 30 io True NoLeaseFile 1000) [40, 20]) =
      before @ x # since \<and> sc_io_high (sv_config sample_scaler) \<le> x \<and>
      (\<forall>y \<in> set since. sc_io_low (sv_config sample_scaler) \<le> y)" by blast
qed

text \<open>No runner is up, the CPU is at half: none is started, although the minimum is one.\<close>

lemma floor_not_restored_witness:
  "pool_starts sample_scaler DefaultPool (fst (scaler_tick sample_scaler (sample_obs 50 0 False NoLeaseFile 1030)
     (snd (scaler_run sample_scaler (map (sample_obs 50 0 False NoLeaseFile) [1000, 1015]) (scaler_start uncordoned_host))))) = []"
  by (rule floor_not_restored) (simp add: sample_obs_def sample_scaler_def sample_scaler_config_def)

lemma floor_restored_when_quiet:
  "pool_starts sample_scaler DefaultPool (fst (scaler_tick sample_scaler (sample_obs 30 0 False NoLeaseFile 1030)
     (snd (scaler_run sample_scaler (map (sample_obs 30 0 False NoLeaseFile) [1000, 1015]) sample_start)))) = [''r1'']"
  by code_simp

text \<open>
  A refused stop counts as one: the unit whose stop contract is unsafe is tried after each cooldown,
  and the idle runners behind it are never stopped.
\<close>

lemma refused_stop_retried:
  "fst (scaler_run sample_scaler (map (sample_obs 90 0 True NoLeaseFile) [1030, 1045, 1160, 1290]) warm_state) =
     [[StopUnit ''r1'' ''scheduled surplus''], [], [StopUnit ''r1'' ''scheduled surplus''],
      [StopUnit ''r1'' ''scheduled surplus'']] \<and>
   stop_unit False 120 (Some [''KillMode=control-group'', ''TimeoutStopUSec=5min'']) False True = (False, False)"
  by code_simp

text \<open>A unit that may take any time to stop is taken for one that must stop at once.\<close>

lemma infinite_timeout_refused:
  "\<not> unit_has_safe_stop_contract 120 (Some [''KillMode=mixed'', ''TimeoutStopUSec=infinity'']) \<and>
   unit_has_safe_stop_contract 120 (Some [''KillMode=mixed'', ''TimeoutStopUSec=2min 30s''])"
  by code_simp

text \<open>A lease file that cannot be read protects no runner.\<close>

lemma unreadable_leases_open:
  "pool_stops sample_scaler DefaultPool (fst (scaler_tick sample_scaler (sample_obs 90 0 True UnreadableLeases 1030) warm_state)) = [''r1'']"
  by code_simp

text \<open>The forced stop of the drain meets the second look at the runner, which is busy.\<close>

lemma forced_stop_refused:
  "stop_unit False min_timeout shown True accepted = (False, False)"
  by (simp add: stop_unit_def)

end
