(* ===== verification/Spec2Isabelle.thy ===== *)
theory Spec2Isabelle
  imports Runner_Lease_Sqlite Executor_Bounds Acceptance Planning Rate_Limit Loop_Guard Idempotency Replay_Store
    Capacity Code_Dispatch Dispatch_Submit Arm_Cap Decision_Sla Retry_Bounds Schedule_Runs Escalations
    Job_Fences Cursor_Hook Ci_Facts Autoscaler_Facts
begin

text \<open>
  Runner Dashboard: a model of the core of the Python back end under \<open>src/backend\<close>, and what makes it
  correct. The dashboard leases runners to principals, turns a Code Request into a plan, files it on
  GitHub and executes its child issues in waves with agents, verifies what the agents claim, and lets
  people and bots talk in threads under rate limits, idempotency keys and a loop guard.

  The parts, the theories that model them and what is shown.

  \<^item> Shared vocabulary. \<open>Prelude\<close>: Python strings, dictionaries in insertion order, SQL tables with a
    primary key as lists of rows, and the laws of their lookups. \<open>Json_Access\<close>: how the code reads JSON
    values. \<open>Load_Spec\<close>: the contract of a store that holds a load under a cap. \<open>Keyset\<close>: the contract of a walk
    over a table in pages, which \<open>Proposals\<close> and \<open>Item_Walk\<close> provide.

  \<^item> Runner leases. \<open>Lease_Spec\<close> states the contract of a lease store as locales, \<open>Runner_Lease\<close> models
    \<open>runner_lease.py\<close> (the YAML file) and \<open>Runner_Lease_Sqlite\<close> models \<open>runner_lease_sqlite.py\<close>; both
    interpret the contract. A principal never holds more than its quota, a runner is leased to one
    principal at a time, a renewal fences the older token, and the two back ends agree on every sequence
    of acquisitions and releases, save for a release by an empty name. A fencing token restarts with every lease, so it does not fence across leases.

  \<^item> The executor of a Code Request (\<open>code_requests/executor_*.py\<close> and the routes in
    \<open>routers/code_requests_executor.py\<close>). \<open>Executor_Router\<close>: tiers, escalation and the choice of a
    provider. \<open>Executor_Coordination\<close>: the leases of children and the check of a pull request.
    \<open>Executor_Waves\<close>: the two wave computations. \<open>Executor_Stage\<close>: the pipeline and its operations.
    \<open>Executor_Pause\<close>: the loop that pauses a branch, a partial function since it need not end; it ends
    and blocks exactly the children downstream when the dependencies have no cycle. \<open>Executor_Runs\<close>: the
    states a pipeline can reach, as an inductive relation, and their invariants. \<open>Executor_Bounds\<close>: no run
    of a plan without self dependencies gets stuck, children start after their dependencies, retries are bounded and end with a human, the
    cap of the dispatch route, and the three ways around these: explicit keys, a pinned profile, a child
    that depends on itself.

  \<^item> The life of a Code Request. \<open>Lifecycle\<close> (\<open>lifecycle.py\<close>, \<open>model.py\<close>, \<open>board_gate.py\<close>): states,
    gates, the audit trail, Board routing and the Board's decision. \<open>Planning\<close> (\<open>planner.py\<close>,
    \<open>plan_service.py\<close>, \<open>plan_validator.py\<close>, \<open>plan.py\<close>): the session with the planner, which before an approval
    writes no part of a plan and of the request's issue only that planning failed. \<open>Plan_Filing\<close>
    (\<open>plan_filing.py\<close>, \<open>gh_client.py\<close>): filing on GitHub, where any call may fail, be sent again or lose its reply,
    the process may be killed, and filing is retried from the progress saved; nothing but the plan is written, all
    of it when an attempt returns, and once where no reply is lost. \<open>Acceptance\<close> (\<open>acceptance.py\<close>): when the request is done.
    A validated plan starts an executor in a state from which no run gets stuck, which composes
    planning, filing, waves and pipeline.

  \<^item> The durable form of Code Requests. \<open>Issue_Record\<close> (\<open>model.py\<close>): the body of an issue and the request
    read back from it. \<open>Request_Store\<close> (\<open>store.py\<close>): audit comments, the cache file and the store's operations;
    the cache can be rebuilt from the first page of GitHub's answers, with GitHub's instants. \<open>Agent_Profiles\<close> (\<open>profiles.py\<close>): the
    saved settings and what their file keeps.

  \<^item> Dispatch. \<open>Dispatch_Quota\<close> (\<open>dispatch_quota.py\<close>): the sliding window. \<open>Dispatch_Envelope\<close>
    (\<open>dispatch/registry.py\<close>, \<open>signing.py\<close>, \<open>validate.py\<close>): allowlist, signature and approval, and what they
    bind, up to a collision of the MAC or the digest; the approver's name and the instant of the approval are not bound.
    \<open>Dispatch_Wire\<close> (\<open>dispatch/envelope.py\<close>, \<open>dispatch_contract.py\<close>): the wire form and the factory, with the
    round trip. \<open>Dispatch_Submit\<close> (\<open>routers/dispatch.py\<close>): the submit route on the replay store, where an
    envelope is accepted at most once. \<open>Code_Dispatch\<close> (\<open>code_requests/dispatch_service.py\<close>,
    \<open>agent_dispatcher.py\<close>): the dispatch of a Code Request with its checks and its history; a dispatch without
    an effort never succeeds, and a recorded one breaks the store whose cache file the history shares.

  \<^item> Arming of pull requests (\<open>Arm_Cap\<close>, \<open>dispatch_arm_cap\<close>): health, reservations, inventory, admission. The
    load stays under an enforced cap between reconciliations, but confirmed arms are not counted and rows of
    merged pull requests are never removed.

  \<^item> Verification of runs (\<open>Verification\<close>, \<open>staff/verification.py\<close>): the verdict from GitHub's answers and
    its effect on the run. A run is verified only with a green pull request, an outage never fails a run.

  \<^item> Talk and its limits. \<open>Conversations\<close> (\<open>staff/conversations.py\<close>): threads, messages, epochs.
    \<open>Loop_Guard\<close> (\<open>staff/loop_guard.py\<close>): the count of agent turns and the pause; the guard reads the oldest
    messages, so it counts right on a short thread and is frozen on a long one. \<open>Rate_Limit\<close>
    (\<open>staff/rate_limit.py\<close>): token buckets under a locale, interpreted by both limiters.

  \<^item> Action proposals. \<open>Proposals\<close> (\<open>staff/conversation_proposals.py\<close>): the rows, their states and audit writes,
    the walk over the deadlines; what is proposed never changes and an end state is final. \<open>Approval_Authority\<close>
    (\<open>staff/approval_authority.py\<close>, \<open>identity.py\<close>): who may approve. \<open>Proposal_Execution\<close> (\<open>staff/actions.py\<close>, the
    decide route, the repair after a restart): only the reviewed parameters of a covered action reach an executor,
    runs stay within approvals as long as starts are not interleaved, the preview tells the truth.
    \<open>Decision_Sla\<close> (\<open>staff/decision_sla.py\<close>): the sweep of silent defaults, which sees every overdue proposal,
    runs low risks only, and is stopped by one stale proposal.

  \<^item> Staff runs and retries. \<open>Staff_Runs\<close> (\<open>staff/store.py\<close>, \<open>runner.py\<close>, \<open>reconcile.py\<close>): rows, workers and the
    repair after a restart. \<open>Run_Retry\<close> (\<open>staff/retry.py\<close>, \<open>retry_policy.py\<close>, \<open>provider_fallback.py\<close>,
    \<open>failover_dispatch.py\<close>, \<open>budget.py\<close>, \<open>holds.py\<close>): every way to another attempt. \<open>Retry_Runs\<close>: under any order
    of events an id has one worker, once, if the ids the runner makes are new; a retry that waits does not survive a restart. \<open>Retry_Bounds\<close>: attempts
    are bounded for a role that names each provider once and has no rules and no list of fallback providers; with
    such a list, or a provider named twice, they need not end.

  \<^item> The scheduler. \<open>Cron\<close> (\<open>staff/schedule.py\<close>): expressions, the next fire, which is the least reading an
    expression stands for, and windows. \<open>Leader_Lease\<close> (\<open>staff/scheduler_leader_lease.py\<close>): which host fires,
    each asking for a period of its own.
    \<open>Staff_Schedule\<close> (\<open>staff/scheduler.py\<close> and its helpers): a tick. \<open>Schedule_Runs\<close>: no slot is decided twice on
    clocks that are not set back; a repeated hour, a change of the leader, two jobs in one tick, a role that is
    switched off and a window that does not parse are where the schedule is not kept.

  \<^item> Work items and their follow-up. \<open>Work_Items\<close> (\<open>staff/work_items.py\<close>, \<open>completion.py\<close>, the PATCH route and
    \<open>run_link.py\<close>): the store and what a run does to its item. \<open>Item_Walk\<close>: the walk over the pages of active
    items is complete, but for empty deadlines; an item is done on evidence. \<open>Followup_Ledger\<close>
    (\<open>staff/followup_ledger.py\<close>): the claims of targets. \<open>Follow_Up\<close> (\<open>staff/followup.py\<close>): the sweep, which
    composes items, runs with their retries, proposals with their defaults, and threads. \<open>Sweep_Facts\<close> and
    \<open>Escalations\<close>: one action per target and window; a sweep that returns has reached everything that was due; a
    deadline that does not parse stops the engine; an item may be escalated while its next attempt runs.

  \<^item> Claims of issues and the job board. \<open>Aging_Prs\<close> (\<open>coordination/pr_age_rule.py\<close>): old pull requests of an
    agent. \<open>Issue_Claims\<close> (\<open>coordination/claims.py\<close>): the check, the claim and the release, carried out by
    scripts of another repository. \<open>Job_Board\<close> (\<open>coordination/jobs.py\<close>, \<open>job_filters.py\<close>,
    \<open>job_board_lease.py\<close>, \<open>eligibility.py\<close>, \<open>staff/launch_guard.py\<close>): the listing, claims with fences,
    heartbeats, the sweep. \<open>Job_Fences\<close>: a fence names one claim, whatever happens outside, until the process
    restarts; the listing and the check of a claim agree but for holds of a whole repository; a lease without a
    named session undoes every claim.

  \<^item> Leases of paths. \<open>Path_Leases\<close> (\<open>path_lease_store.py\<close>): the store; a lease is exclusive until it expires.
    \<open>Cursor_Hook\<close> (\<open>coordination/cursor_dispatch_lease.py\<close>): the lease around a run of Cursor; a target is
    launched once at a time, but a local run keeps its lease and a run without a target fails.

  \<^item> CI fixes. \<open>Ci_Locks\<close> (\<open>ci_fix_locks.py\<close>): one lock per pull request, which ends with its run. \<open>Ci_Fix\<close>
    (\<open>ci_fix_dispatch.py\<close>, \<open>ci_fix_service.py\<close>): route, attempts and dispatch. \<open>Ci_Events\<close> (\<open>ci_fix_events.py\<close>,
    \<open>ci_fix_sweep.py\<close>): webhooks, trigger rules and the sweep. \<open>Ci_Facts\<close>: a pull request has one session at a
    time while its lock's row stands, which checks a webhook's fix has passed, attempts count the streak of one
    failure; an odd name of a branch stops the sweep.

  \<^item> The runner autoscaler. \<open>Disk_Cordon\<close> (\<open>disk_full_cordon.py\<close>, \<open>disk_full_cordon_runtime.py\<close>): a full host is
    drained, cleaned and let back in; thresholds with a margin, and latches over them, are a locale.
    \<open>Cordon_Facts\<close>: the maintenance flag follows the phase, a busy runner is left alone until this drain has timed
    out, a host with no runner up is back after three ticks. \<open>Scale_Decision\<close> (\<open>autoscaler_sampling.py\<close>,
    \<open>autoscaler_systemd.py\<close>, \<open>autoscaler_busy.py\<close>): leases, the stop contract, pools, the schedule, the bands.
    \<open>Autoscaler\<close> (\<open>runner_autoscaler.py\<close>): the poll loop. \<open>Autoscaler_Facts\<close>: outside a cordon a tick stops idle, unleased runners
    only, at most a step of them, down to the minimum, a cooldown apart; the cordon excludes it. It composes with
    \<open>Runner_Lease\<close>, whose file it reads. A pool below its minimum is not refilled above the low marks, and a stop
    that systemd's settings forbid is tried for ever. The readings of the host and of systemd are arguments.

  \<^item> Claims of keys. \<open>Claim_Spec\<close> states the contract of a table of claims; \<open>Idempotency\<close>
    (\<open>staff/idempotency.py\<close> and the handler of \<open>routers/staff_v1.py\<close>), \<open>Replay_Store\<close>
    (\<open>replay_store.py\<close>), the ledger of the follow-up, the leases of paths and the locks of CI fixes
    provide it: an action is started once per key and taken over only after its lease, an envelope is
    claimed once. The replay store keeps its cap (\<open>Load_Spec\<close>).

  \<^item> Capacity (\<open>Capacity\<close>, \<open>staff/capacity_reservation.py\<close>): slots, headroom for repairs, the daily budget.

  Conventions. An exception, a refusal or an HTTP error is a value of a sum or option type, one
  constructor or branch per raise of the code. Clock readings, identifiers drawn at random, cryptographic
  primitives, the YAML library and answers of GitHub or of a provider are arguments. Floats are exact rationals and instants are numbers of seconds,
  also where the code compares ISO texts. Text is ASCII. A statement of the database and an operation
  under its lock or transaction are one step; the interleavings considered are those of such steps. Every
  recursion terminates by structure or by a measure, except the loop that pauses a branch; no fuel is used (the resends
  of the GitHub client count down from its own constant).

  Not modelled: logging and metrics, the text of prompts and explanations, YAML and SQL syntax and
  connection handling, the planner's text output before it is JSON, the keyword patterns of the Board
  classifier and of the redaction, the relay of messages between hosts, threads and subprocesses, provider adapters, host
  telemetry, the knowledge library, the vulnerability scan, the clients and deployment scripts and the
  TypeScript front end. They are I/O, text or glue.
\<close>

end
